(* ===== verification/Js_Prelude.thy ===== *)
theory Js_Prelude
  imports Complex_Main "HOL-Library.AList" "HOL-Library.Sublist"
begin

text \<open>
  The part of JavaScript and NestJS that every component of the service uses.

  \<^item> Numbers. Counters, sizes and epoch-millisecond timestamps are \<open>int\<close>, quantities the
    code divides are \<open>rat\<close>. The arithmetic is exact: IEEE rounding, \<open>NaN\<close> and the
    infinities are not modelled.
  \<^item> \<open>Date.now()\<close> is an argument \<open>now\<close> of the operation that reads it. One synchronous
    section of the source reads one clock value; a section that awaits reads a new one.
  \<^item> Strings are lists of characters; case conversion and trimming are those of the
    Latin-1 range.
  \<^item> \<open>Map\<close> is an association list in insertion order: \<open>set\<close> overwrites a key in place or
    appends it, \<open>delete\<close> removes it, iteration goes from the oldest key to the newest.
    An object stored in a \<open>Map\<close> and mutated in place is a \<open>Map_upd\<close> of its entry.
  \<^item> A thrown exception is the left side of a sum; the constructors of \<open>http_error\<close> are the
    NestJS exception classes the modelled code throws.
\<close>

section \<open>Types\<close>

type_synonym timestamp = int

type_synonym ('k, 'v) js_map = "('k \<times> 'v) list"

datatype http_error =
    BadRequest string
  | Unauthorized string
  | Forbidden string
  | NotFound string
  | Conflict string
  | TooManyRequests
  | InternalServerError string
  | PlainError string

type_synonym 'a result = "http_error + 'a"

named_theorems js_defs \<open>definitions a component's proofs unfold\<close>

section \<open>Insertion-ordered maps\<close>

definition Map_get :: "'k \<Rightarrow> ('k, 'v) js_map \<Rightarrow> 'v option" where
  "Map_get k m = map_of m k"

definition Map_set :: "'k \<Rightarrow> 'v \<Rightarrow> ('k, 'v) js_map \<Rightarrow> ('k, 'v) js_map" where
  "Map_set k v m = AList.update k v m"

definition Map_delete :: "'k \<Rightarrow> ('k, 'v) js_map \<Rightarrow> ('k, 'v) js_map" where
  "Map_delete k m = AList.delete k m"

definition Map_has :: "'k \<Rightarrow> ('k, 'v) js_map \<Rightarrow> bool" where
  "Map_has k m = (case Map_get k m of None \<Rightarrow> False | Some _ \<Rightarrow> True)"

definition Map_keys :: "('k, 'v) js_map \<Rightarrow> 'k list" where
  "Map_keys m = map fst m"

definition Map_values :: "('k, 'v) js_map \<Rightarrow> 'v list" where
  "Map_values m = map snd m"

definition Map_upd :: "'k \<Rightarrow> ('v \<Rightarrow> 'v) \<Rightarrow> ('k, 'v) js_map \<Rightarrow> ('k, 'v) js_map" where
  "Map_upd k f m = (case Map_get k m of None \<Rightarrow> m | Some v \<Rightarrow> Map_set k (f v) m)"

text \<open>Deleting entries while iterating over the entries keeps exactly the others, in order.\<close>

definition Map_filter :: "('k \<Rightarrow> 'v \<Rightarrow> bool) \<Rightarrow> ('k, 'v) js_map \<Rightarrow> ('k, 'v) js_map" where
  "Map_filter P m = filter (\<lambda>(k, v). P k v) m"

definition Map_wf :: "('k, 'v) js_map \<Rightarrow> bool" where
  "Map_wf m \<longleftrightarrow> distinct (map fst m)"

text \<open>\<open>Set\<close>: the members in insertion order.\<close>

definition Set_add :: "'a \<Rightarrow> 'a list \<Rightarrow> 'a list" where
  "Set_add x s = (if x \<in> set s then s else s @ [x])"

definition Set_delete :: "'a \<Rightarrow> 'a list \<Rightarrow> 'a list" where
  "Set_delete x s = removeAll x s"

text \<open>\<open>Array.prototype.sort\<close> with a comparator: a stable sort.\<close>

fun insert_by :: "('a \<Rightarrow> 'a \<Rightarrow> int) \<Rightarrow> 'a \<Rightarrow> 'a list \<Rightarrow> 'a list" where
  "insert_by cmp x [] = [x]"
| "insert_by cmp x (y # ys) = (if cmp x y \<le> 0 then x # y # ys else y # insert_by cmp x ys)"

definition sort_by :: "('a \<Rightarrow> 'a \<Rightarrow> int) \<Rightarrow> 'a list \<Rightarrow> 'a list" where
  "sort_by cmp xs = foldr (insert_by cmp) xs []"

text \<open>\<open>a || b\<close> on numbers, as comparators chain their keys.\<close>

definition or_else :: "int \<Rightarrow> int \<Rightarrow> int" where
  "or_else a b = (if a \<noteq> 0 then a else b)"

section \<open>Strings\<close>

definition to_lower_char :: "char \<Rightarrow> char" where
  "to_lower_char c =
     (let n = (of_char c :: nat)
      in if 65 \<le> n \<and> n \<le> 90 \<or> 192 \<le> n \<and> n \<le> 222 \<and> n \<noteq> 215 then char_of (n + 32) else c)"

definition toLowerCase :: "string \<Rightarrow> string" where
  "toLowerCase s = map to_lower_char s"

definition to_upper_char :: "char \<Rightarrow> string" where
  "to_upper_char c =
     (let n = (of_char c :: nat)
      in if 97 \<le> n \<and> n \<le> 122 \<or> 224 \<le> n \<and> n \<le> 254 \<and> n \<noteq> 247 then [char_of (n - 32)]
         else if n = 223 then ''SS'' else [c])"

definition toUpperCase :: "string \<Rightarrow> string" where
  "toUpperCase s = concat (map to_upper_char s)"

definition is_js_space :: "char \<Rightarrow> bool" where
  "is_js_space c = (let n = (of_char c :: nat) in 9 \<le> n \<and> n \<le> 13 \<or> n = 32 \<or> n = 160)"

definition is_digit :: "char \<Rightarrow> bool" where
  "is_digit c = (let n = (of_char c :: nat) in 48 \<le> n \<and> n \<le> 57)"

definition trim :: "string \<Rightarrow> string" where
  "trim s = rev (dropWhile is_js_space (rev (dropWhile is_js_space s)))"

definition startsWith :: "string \<Rightarrow> string \<Rightarrow> bool" where
  "startsWith s p = (take (length p) s = p)"

definition endsWith :: "string \<Rightarrow> string \<Rightarrow> bool" where
  "endsWith s p = startsWith (rev s) (rev p)"

fun includes_str :: "string \<Rightarrow> string \<Rightarrow> bool" where
  "includes_str [] p = (p = [])"
| "includes_str (c # s) p = (startsWith (c # s) p \<or> includes_str s p)"

fun split_char :: "char \<Rightarrow> string \<Rightarrow> string list" where
  "split_char d [] = [[]]"
| "split_char d (c # s) =
     (if c = d then [] # split_char d s
      else (case split_char d s of [] \<Rightarrow> [[c]] | w # ws \<Rightarrow> (c # w) # ws))"

fun join_with :: "string \<Rightarrow> string list \<Rightarrow> string" where
  "join_with d [] = []"
| "join_with d [w] = w"
| "join_with d (w # v # ws) = w @ d @ join_with d (v # ws)"

text \<open>The order of strings by character code, as a comparator.\<close>

fun code_unit_compare :: "string \<Rightarrow> string \<Rightarrow> int" where
  "code_unit_compare [] [] = 0"
| "code_unit_compare [] (_ # _) = -1"
| "code_unit_compare (_ # _) [] = 1"
| "code_unit_compare (c # s) (d # t) =
     (if (of_char c :: nat) < of_char d then -1
      else if (of_char d :: nat) < of_char c then 1
      else code_unit_compare s t)"

text \<open>A string is truthy when it is not empty; \<open>s ?? d\<close> and \<open>s || d\<close> differ on the empty one.\<close>

definition truthy :: "string option \<Rightarrow> bool" where
  "truthy s = (case s of None \<Rightarrow> False | Some t \<Rightarrow> t \<noteq> [])"

definition nullish :: "'a option \<Rightarrow> 'a \<Rightarrow> 'a" where
  "nullish x d = (case x of None \<Rightarrow> d | Some v \<Rightarrow> v)"

section \<open>The laws of the map interface\<close>

text \<open>
  What a client of a keyed store relies on: a read after a write, a read after a removal,
  and an invariant of the representation that every write keeps.
\<close>

locale keyed_store =
  fixes lookup :: "'k \<Rightarrow> 's \<Rightarrow> 'v option"
    and store :: "'k \<Rightarrow> 'v \<Rightarrow> 's \<Rightarrow> 's"
    and remove :: "'k \<Rightarrow> 's \<Rightarrow> 's"
    and wf :: "'s \<Rightarrow> bool"
  assumes lookup_store: "lookup j (store k v s) = (if j = k then Some v else lookup j s)"
    and lookup_remove: "lookup j (remove k s) = (if j = k then None else lookup j s)"
    and wf_store: "wf s \<Longrightarrow> wf (store k v s)"
    and wf_remove: "wf s \<Longrightarrow> wf (remove k s)"
begin

lemma lookup_store_same: "lookup k (store k v s) = Some v"
  by (simp add: lookup_store)

lemma lookup_store_frame: "j \<noteq> k \<Longrightarrow> lookup j (store k v s) = lookup j s"
  by (simp add: lookup_store)

lemma last_write_wins: "lookup j (store k v (store k w s)) = lookup j (store k v s)"
  by (simp add: lookup_store)

lemma writes_commute:
  "j \<noteq> k \<Longrightarrow> lookup i (store j v (store k w s)) = lookup i (store k w (store j v s))"
  by (simp add: lookup_store)

lemma remove_undoes_store: "lookup k s = None \<Longrightarrow> lookup j (remove k (store k v s)) = lookup j s"
  by (simp add: lookup_store lookup_remove)

end

interpretation jm: keyed_store Map_get Map_set Map_delete Map_wf
  by unfold_locales
    (simp_all add: Map_get_def Map_set_def Map_delete_def Map_wf_def AList.update_conv'
      AList.delete_conv' distinct_update distinct_delete)

text \<open>
  A table of rows found by one key, the way the services use a TypeORM repository:
  \<open>save\<close> writes the row under its own key. Every keyed store is one.
\<close>

locale repository =
  fixes findOne :: "'db \<Rightarrow> 'k \<Rightarrow> 'row option"
    and save :: "'db \<Rightarrow> 'row \<Rightarrow> 'db"
    and row_key :: "'row \<Rightarrow> 'k"
  assumes find_save: "findOne (save db r) k = (if k = row_key r then Some r else findOne db k)"
begin

lemma find_save_same: "findOne (save db r) (row_key r) = Some r"
  by (simp add: find_save)

lemma find_save_frame: "k \<noteq> row_key r \<Longrightarrow> findOne (save db r) k = findOne db k"
  by (simp add: find_save)

end

interpretation jm_table: repository "\<lambda>m k. Map_get k m" "\<lambda>m r. Map_set (key r) r m" key for key
  by unfold_locales (simp add: jm.lookup_store)

section \<open>Simplification rules for maps\<close>

lemmas Map_get_set [simp] = jm.lookup_store
  and Map_get_delete [simp] = jm.lookup_remove
  and Map_wf_set [simp, intro] = jm.wf_store
  and Map_wf_delete [simp, intro] = jm.wf_remove

lemma Map_get_Nil [simp]: "Map_get k [] = None"
  by (simp add: Map_get_def)

lemma Map_wf_Nil [simp]: "Map_wf []"
  by (simp add: Map_wf_def)

lemma Map_has_iff [simp]: "Map_has k m \<longleftrightarrow> (\<exists>v. Map_get k m = Some v)"
  by (simp add: Map_has_def split: option.splits)

lemma Map_get_upd [simp]: "Map_get j (Map_upd k f m) = (if j = k then map_option f (Map_get k m) else Map_get j m)"
  by (simp add: Map_upd_def split: option.splits)

lemma Map_wf_upd [simp, intro]: "Map_wf m \<Longrightarrow> Map_wf (Map_upd k f m)"
  by (simp add: Map_upd_def split: option.splits)

lemma Map_get_in_set: "Map_wf m \<Longrightarrow> Map_get k m = Some v \<longleftrightarrow> (k, v) \<in> set m"
  by (simp add: Map_wf_def Map_get_def)

lemma Map_get_memD: "Map_get k m = Some v \<Longrightarrow> (k, v) \<in> set m"
  by (simp add: Map_get_def map_of_SomeD)

lemma Map_wf_filter [simp, intro]: "Map_wf m \<Longrightarrow> Map_wf (Map_filter P m)"
  unfolding Map_wf_def Map_filter_def by (induction m) auto

lemma Map_get_filter:
  "Map_wf m \<Longrightarrow> Map_get k (Map_filter P m) =
     (case Map_get k m of None \<Rightarrow> None | Some v \<Rightarrow> if P k v then Some v else None)"
  by (induction m) (auto simp: Map_wf_def Map_filter_def Map_get_def map_of_eq_None_iff
      split: option.splits if_splits dest!: map_of_SomeD)

lemma set_Map_keys: "set (Map_keys m) = {k. Map_get k m \<noteq> None}"
  by (auto simp: Map_keys_def Map_get_def map_of_eq_None_iff)

lemma set_Map_values: "Map_wf m \<Longrightarrow> set (Map_values m) = {v. \<exists>k. Map_get k m = Some v}"
  by (force simp: Map_values_def Map_get_in_set)

lemma Map_set_fresh: "Map_get k m = None \<Longrightarrow> Map_set k v m = m @ [(k, v)]"
  unfolding Map_set_def Map_get_def by (induction m) (auto split: if_splits)

lemma length_Map_set:
  "length (Map_set k v m) = (if Map_get k m = None then Suc (length m) else length m)"
  unfolding Map_set_def Map_get_def by (induction m) auto

section \<open>Runs of a component\<close>

text \<open>
  A component's operations are one datatype of events and one function \<open>step\<close> that
  dispatches on it. An invariant of every operation is an invariant of every history of
  calls, whatever their order.
\<close>

definition run :: "('s \<Rightarrow> 'e \<Rightarrow> 's) \<Rightarrow> 's \<Rightarrow> 'e list \<Rightarrow> 's" where
  "run step s es = foldl step s es"

lemma run_Nil [simp]: "run step s [] = s"
  by (simp add: run_def)

lemma run_Cons [simp]: "run step s (e # es) = run step (step s e) es"
  by (simp add: run_def)

lemma run_append [simp]: "run step s (es @ fs) = run step (run step s es) fs"
  by (simp add: run_def)

text \<open>
  Some operations are only called under a condition of the caller: \<open>guarded\<close> says that every
  call of a history meets its condition in the state it is made in.
\<close>

fun guarded :: "('s \<Rightarrow> 'e \<Rightarrow> 's) \<Rightarrow> ('s \<Rightarrow> 'e \<Rightarrow> bool) \<Rightarrow> 's \<Rightarrow> 'e list \<Rightarrow> bool" where
  "guarded step guard s [] = True"
| "guarded step guard s (e # es) = (guard s e \<and> guarded step guard (step s e) es)"

locale guarded_system =
  fixes step :: "'s \<Rightarrow> 'e \<Rightarrow> 's"
    and guard :: "'s \<Rightarrow> 'e \<Rightarrow> bool"
    and inv :: "'s \<Rightarrow> bool"
  assumes guarded_step_inv: "inv s \<Longrightarrow> guard s e \<Longrightarrow> inv (step s e)"
begin

lemma guarded_run_inv: "guarded step guard s es \<Longrightarrow> inv s \<Longrightarrow> inv (run step s es)"
  by (induction es arbitrary: s) (simp_all add: guarded_step_inv)

end

locale invariant_system =
  fixes step :: "'s \<Rightarrow> 'e \<Rightarrow> 's"
    and inv :: "'s \<Rightarrow> bool"
  assumes step_inv: "inv s \<Longrightarrow> inv (step s e)"

sublocale invariant_system \<subseteq> unguarded: guarded_system step "\<lambda>_ _. True" inv
  by unfold_locales (rule step_inv)

lemma guarded_True [simp]: "guarded step (\<lambda>_ _. True) s es"
  by (induction es arbitrary: s) simp_all

context invariant_system
begin

lemma run_inv: "inv s \<Longrightarrow> inv (run step s es)"
  by (rule unguarded.guarded_run_inv) simp

end

lemma set_Set_add [simp]: "set (Set_add x s) = insert x (set s)"
  by (auto simp: Set_add_def)

lemma set_Set_delete [simp]: "set (Set_delete x s) = set s - {x}"
  by (auto simp: Set_delete_def)

lemma distinct_Set_add [simp]: "distinct s \<Longrightarrow> distinct (Set_add x s)"
  by (simp add: Set_add_def)

lemma distinct_Set_delete [simp]: "distinct s \<Longrightarrow> distinct (Set_delete x s)"
  by (simp add: Set_delete_def distinct_removeAll)

section \<open>Comparators\<close>

locale comparator =
  fixes cmp :: "'a \<Rightarrow> 'a \<Rightarrow> int"
  assumes cmp_total: "cmp x y > 0 \<Longrightarrow> cmp y x \<le> 0"
    and cmp_trans: "cmp x y \<le> 0 \<Longrightarrow> cmp y z \<le> 0 \<Longrightarrow> cmp x z \<le> 0"
begin

abbreviation "ordered \<equiv> sorted_wrt (\<lambda>x y. cmp x y \<le> 0)"

lemma set_insert_by: "set (insert_by cmp x ys) = insert x (set ys)"
  by (induction ys) auto

lemma ordered_insert_by: "ordered ys \<Longrightarrow> ordered (insert_by cmp x ys)"
proof (induction ys)
  case (Cons y ys)
  then show ?case
    using cmp_total [of x y] by (auto simp: set_insert_by intro: cmp_trans)
qed simp

lemma set_sort_by: "set (sort_by cmp xs) = set xs"
  unfolding sort_by_def by (induction xs) (simp_all add: set_insert_by)

lemma length_insert_by: "length (insert_by cmp x ys) = Suc (length ys)"
  by (induction ys) auto

lemma length_sort_by: "length (sort_by cmp xs) = length xs"
  unfolding sort_by_def by (induction xs) (simp_all add: length_insert_by)

lemma ordered_sort_by: "ordered (sort_by cmp xs)"
  unfolding sort_by_def by (induction xs) (simp_all add: ordered_insert_by)

lemma sort_by_first:
  assumes "sort_by cmp xs = y # ys"
  shows "y \<in> set xs" and "z \<in> set xs \<Longrightarrow> z \<noteq> y \<Longrightarrow> cmp y z \<le> 0"
proof -
  have eq: "set xs = set (y # ys)" using assms set_sort_by [of xs] by simp
  then show "y \<in> set xs" by simp
  have "ordered (y # ys)" using assms ordered_sort_by [of xs] by simp
  then show "z \<in> set xs \<Longrightarrow> z \<noteq> y \<Longrightarrow> cmp y z \<le> 0" using eq by auto
qed

end

section \<open>Strings: facts the components share\<close>

interpretation cu: comparator code_unit_compare
proof
  show "code_unit_compare x y > 0 \<Longrightarrow> code_unit_compare y x \<le> 0" for x y
    by (induction x y rule: code_unit_compare.induct) (auto split: if_splits)
  show "code_unit_compare x y \<le> 0 \<Longrightarrow> code_unit_compare y z \<le> 0 \<Longrightarrow> code_unit_compare x z \<le> 0" for x y z
  proof (induction x y arbitrary: z rule: code_unit_compare.induct)
    case (4 c s d t)
    show ?case
    proof (cases z)
      case (Cons e u)
      consider "of_char c < (of_char d :: nat)" | "c = d" using 4(2) by (fastforce split: if_splits)
      then show ?thesis
      proof cases
        case 1
        moreover have "of_char d \<le> (of_char e :: nat)" using 4(3) Cons by (simp split: if_splits)
        ultimately show ?thesis using Cons by simp
      next
        case 2
        then show ?thesis using 4(1) [of u] 4(2,3) Cons by (auto split: if_splits)
      qed
    qed (use 4(3) in simp)
  next
    case (2 c s)
    then show ?case by (cases z) auto
  qed auto
qed

lemma split_no_sep: "d \<notin> set w \<Longrightarrow> split_char d w = [w]"
  by (induction w) auto

lemma split_append_sep: "d \<notin> set w \<Longrightarrow> split_char d (w @ d # s) = w # split_char d s"
  by (induction w) auto

lemma split_join:
  "ws \<noteq> [] \<Longrightarrow> \<forall>w \<in> set ws. d \<notin> set w \<Longrightarrow> split_char d (join_with [d] ws) = ws"
proof (induction "[d]" ws rule: join_with.induct)
  case (3 w v ws)
  then show ?case by (simp add: split_append_sep)
qed (auto simp: split_no_sep)

lemma length_toLowerCase [simp]: "length (toLowerCase s) = length s"
  by (simp add: toLowerCase_def)

lemma to_lower_char_idem [simp]: "to_lower_char (to_lower_char c) = to_lower_char c"
proof -
  let ?n = "of_char c :: nat"
  show ?thesis
  proof (cases "65 \<le> ?n \<and> ?n \<le> 90 \<or> 192 \<le> ?n \<and> ?n \<le> 222 \<and> ?n \<noteq> 215")
    case True
    then have "of_char (char_of (?n + 32) :: char) = ?n + 32" by (auto simp: of_char_of)
    then show ?thesis using True by (auto simp: to_lower_char_def Let_def)
  next
    case False
    then have "to_lower_char c = c" by (auto simp: to_lower_char_def Let_def)
    then show ?thesis by simp
  qed
qed

lemma toLowerCase_idem [simp]: "toLowerCase (toLowerCase s) = toLowerCase s"
  by (simp add: toLowerCase_def)

lemma split_char_not_Nil [simp]: "split_char d s \<noteq> []"
  by (cases s) (auto split: list.splits)

lemma startsWith_iff: "startsWith s p \<longleftrightarrow> (\<exists>t. s = p @ t)"
proof
  assume "startsWith s p"
  then have "s = p @ drop (length p) s"
    by (metis append_take_drop_id startsWith_def)
  then show "\<exists>t. s = p @ t" by blast
qed (auto simp: startsWith_def)

lemma startsWith_append [simp]: "startsWith (p @ t) p"
  by (auto simp: startsWith_iff)

lemma nullish_simps [simp]: "nullish None d = d" "nullish (Some v) d = v"
  by (simp_all add: nullish_def)

lemma truthy_simps [simp]: "truthy None = False" "truthy (Some t) = (t \<noteq> [])"
  by (simp_all add: truthy_def)

end
