(* ===== verification/Connection_Manager.thy ===== *)
theory Connection_Manager
  imports Js_Prelude
begin

text \<open>
  The connection registry of the dashboard gateway
  (\<^verbatim>\<open>dashboard/websocket/services/connection-manager.service.ts\<close>): the connections by client,
  the clients of each user, and the time each disconnected client was lost. An object of the
  source that is mutated through the map is updated in its map entry here.
\<close>

section \<open>State\<close>

record 'm connection_info =
  ci_userId :: string
  ci_clientId :: string
  ci_connectedAt :: timestamp
  ci_lastHeartbeat :: timestamp
  ci_isAlive :: bool
  ci_subscriptions :: "string list"
  ci_metadata :: "(string, 'm) js_map option"

record 'm conn_manager =
  connections :: "(string, 'm connection_info) js_map"
  userConnections :: "(string, string list) js_map"
  disconnectedClients :: "(string, timestamp) js_map"

definition init_conn_manager :: "'m conn_manager" where
  "init_conn_manager = \<lparr>connections = [], userConnections = [], disconnectedClients = []\<rparr>"

section \<open>Operations\<close>

definition registerConnection ::
  "string \<Rightarrow> 'm connection_info \<Rightarrow> 'm conn_manager \<Rightarrow> 'm conn_manager" where
  "registerConnection clientId info s =
     (let conns = Map_set clientId (info\<lparr>ci_isAlive := True, ci_subscriptions := []\<rparr>) (connections s);
          ucs = (if Map_has (ci_userId info) (userConnections s) then userConnections s
                 else Map_set (ci_userId info) [] (userConnections s))
      in s\<lparr>connections := conns, userConnections := Map_upd (ci_userId info) (Set_add clientId) ucs\<rparr>)"

definition getConnectionInfo :: "string \<Rightarrow> 'm conn_manager \<Rightarrow> 'm connection_info option" where
  "getConnectionInfo clientId s = Map_get clientId (connections s)"

definition getUserConnections :: "string \<Rightarrow> 'm conn_manager \<Rightarrow> 'm connection_info list" where
  "getUserConnections userId s =
     (case Map_get userId (userConnections s) of
        None \<Rightarrow> []
      | Some clientIds \<Rightarrow> List.map_filter (\<lambda>id. Map_get id (connections s)) clientIds)"

definition hasActiveConnection :: "string \<Rightarrow> 'm conn_manager \<Rightarrow> bool" where
  "hasActiveConnection userId s = list_ex ci_isAlive (getUserConnections userId s)"

definition updateHeartbeat :: "timestamp \<Rightarrow> string \<Rightarrow> 'm conn_manager \<Rightarrow> 'm conn_manager" where
  "updateHeartbeat now clientId s =
     s\<lparr>connections := Map_upd clientId (\<lambda>c. c\<lparr>ci_lastHeartbeat := now, ci_isAlive := True\<rparr>) (connections s)\<rparr>"

definition markDisconnected :: "timestamp \<Rightarrow> string \<Rightarrow> 'm conn_manager \<Rightarrow> 'm conn_manager" where
  "markDisconnected now clientId s =
     (case Map_get clientId (connections s) of
        None \<Rightarrow> s
      | Some connection \<Rightarrow>
          s\<lparr>connections := Map_set clientId (connection\<lparr>ci_isAlive := False\<rparr>) (connections s),
            disconnectedClients := Map_set clientId now (disconnectedClients s),
            userConnections := Map_upd (ci_userId connection) (Set_delete clientId) (userConnections s)\<rparr>)"

definition removeConnection :: "string \<Rightarrow> 'm conn_manager \<Rightarrow> 'm conn_manager" where
  "removeConnection clientId s =
     (case Map_get clientId (connections s) of
        None \<Rightarrow> s
      | Some connection \<Rightarrow>
          (let userId = ci_userId connection;
               ucs = Map_upd userId (Set_delete clientId) (userConnections s);
               ucs' = (if Map_get userId ucs = Some [] then Map_delete userId ucs else ucs)
           in s\<lparr>userConnections := ucs', connections := Map_delete clientId (connections s),
                disconnectedClients := Map_delete clientId (disconnectedClients s)\<rparr>))"

definition subscribeToPortfolio :: "string \<Rightarrow> string \<Rightarrow> 'm conn_manager \<Rightarrow> 'm conn_manager" where
  "subscribeToPortfolio clientId portfolioId s =
     s\<lparr>connections := Map_upd clientId
         (\<lambda>c. if portfolioId \<in> set (ci_subscriptions c) then c
              else c\<lparr>ci_subscriptions := ci_subscriptions c @ [portfolioId]\<rparr>) (connections s)\<rparr>"

definition unsubscribeFromPortfolio :: "string \<Rightarrow> string \<Rightarrow> 'm conn_manager \<Rightarrow> 'm conn_manager" where
  "unsubscribeFromPortfolio clientId portfolioId s =
     s\<lparr>connections := Map_upd clientId
         (\<lambda>c. c\<lparr>ci_subscriptions := filter (\<lambda>id. id \<noteq> portfolioId) (ci_subscriptions c)\<rparr>) (connections s)\<rparr>"

definition getStaleConnections ::
  "timestamp \<Rightarrow> int \<Rightarrow> 'm conn_manager \<Rightarrow> (string, 'm connection_info) js_map" where
  "getStaleConnections now thresholdMs s =
     Map_filter (\<lambda>_ info. now - ci_lastHeartbeat info > thresholdMs) (connections s)"

definition getConnectionCount :: "'m conn_manager \<Rightarrow> nat" where
  "getConnectionCount s = length (filter ci_isAlive (Map_values (connections s)))"

record conn_stats =
  cs_total :: nat
  cs_active :: nat
  cs_stale :: nat
  cs_byUser :: "(string, nat) js_map"

definition getStats_cm :: "'m conn_manager \<Rightarrow> conn_stats" where
  "getStats_cm s =
     \<lparr>cs_total = length (connections s),
      cs_active = length (filter ci_isAlive (Map_values (connections s))),
      cs_stale = length (filter (\<lambda>c. \<not> ci_isAlive c) (Map_values (connections s))),
      cs_byUser = map (\<lambda>(u, cs). (u, length cs)) (userConnections s)\<rparr>"

text \<open>The clean-up iterates over the disconnected clients and removes the ones lost too long ago.\<close>

fun cleanupInactive_loop ::
  "timestamp \<Rightarrow> int \<Rightarrow> (string, timestamp) js_map \<Rightarrow> 'm conn_manager \<Rightarrow> string list \<times> 'm conn_manager" where
  "cleanupInactive_loop now maxAgeMs [] s = ([], s)"
| "cleanupInactive_loop now maxAgeMs ((clientId, disconnectedAt) # rest) s =
     (if now - disconnectedAt > maxAgeMs
      then (let (removed, s') = cleanupInactive_loop now maxAgeMs rest (removeConnection clientId s)
            in (clientId # removed, s'))
      else cleanupInactive_loop now maxAgeMs rest s)"

definition cleanupInactiveConnections ::
  "timestamp \<Rightarrow> int \<Rightarrow> 'm conn_manager \<Rightarrow> string list \<times> 'm conn_manager" where
  "cleanupInactiveConnections now maxAgeMs s =
     cleanupInactive_loop now maxAgeMs (disconnectedClients s) s"

definition getPortfolioSubscribers :: "string \<Rightarrow> 'm conn_manager \<Rightarrow> string list" where
  "getPortfolioSubscribers portfolioId s =
     map fst (filter (\<lambda>(_, info). ci_isAlive info \<and> portfolioId \<in> set (ci_subscriptions info)) (connections s))"

definition getUserConnectionId :: "string \<Rightarrow> 'm conn_manager \<Rightarrow> string option" where
  "getUserConnectionId userId s =
     (case Map_get userId (userConnections s) of
        None \<Rightarrow> None
      | Some [] \<Rightarrow> None
      | Some (c # _) \<Rightarrow> Some c)"

definition updateMetadata :: "string \<Rightarrow> (string, 'm) js_map \<Rightarrow> 'm conn_manager \<Rightarrow> 'm conn_manager" where
  "updateMetadata clientId metadata s =
     s\<lparr>connections := Map_upd clientId
         (\<lambda>c. c\<lparr>ci_metadata := Some (foldl (\<lambda>acc (k, v). Map_set k v acc) (nullish (ci_metadata c) []) metadata)\<rparr>)
         (connections s)\<rparr>"

datatype 'm conn_call =
    RegisterConnection string "'m connection_info"
  | UpdateHeartbeat timestamp string
  | MarkDisconnected timestamp string
  | RemoveConnection string
  | SubscribeToPortfolio string string
  | UnsubscribeFromPortfolio string string
  | CleanupInactiveConnections timestamp int
  | UpdateMetadata string "(string, 'm) js_map"

fun conn_step :: "'m conn_manager \<Rightarrow> 'm conn_call \<Rightarrow> 'm conn_manager" where
  "conn_step s (RegisterConnection c i) = registerConnection c i s"
| "conn_step s (UpdateHeartbeat now c) = updateHeartbeat now c s"
| "conn_step s (MarkDisconnected now c) = markDisconnected now c s"
| "conn_step s (RemoveConnection c) = removeConnection c s"
| "conn_step s (SubscribeToPortfolio c p) = subscribeToPortfolio c p s"
| "conn_step s (UnsubscribeFromPortfolio c p) = unsubscribeFromPortfolio c p s"
| "conn_step s (CleanupInactiveConnections now a) = snd (cleanupInactiveConnections now a s)"
| "conn_step s (UpdateMetadata c md) = updateMetadata c md s"

section \<open>Specification\<close>

text \<open>
  A client id is registered for one user only: the gateway passes the socket's id, which the
  socket library makes fresh for each connection.
\<close>

fun conn_guard :: "'m conn_manager \<Rightarrow> 'm conn_call \<Rightarrow> bool" where
  "conn_guard s (RegisterConnection c i) =
     (case Map_get c (connections s) of None \<Rightarrow> True | Some j \<Rightarrow> ci_userId j = ci_userId i)"
| "conn_guard s _ = True"

text \<open>The user index points to live registrations of that user, without duplicates.\<close>

definition index_ok :: "'m conn_manager \<Rightarrow> bool" where
  "index_ok s \<longleftrightarrow> (\<forall>u cs. Map_get u (userConnections s) = Some cs \<longrightarrow> distinct cs \<and>
     (\<forall>c\<in>set cs. \<exists>i. Map_get c (connections s) = Some i \<and> ci_userId i = u))"

definition cm_inv :: "'m conn_manager \<Rightarrow> bool" where
  "cm_inv s \<longleftrightarrow> Map_wf (connections s) \<and> Map_wf (userConnections s) \<and> Map_wf (disconnectedClients s) \<and>
     index_ok s \<and>
     (\<forall>c. Map_get c (connections s) = None \<longrightarrow> Map_get c (disconnectedClients s) = None) \<and>
     (\<forall>c i. Map_get c (connections s) = Some i \<longrightarrow> distinct (ci_subscriptions i))"

section \<open>The invariant holds in every history\<close>

lemma cm_inv_init: "cm_inv init_conn_manager"
  by (simp add: cm_inv_def index_ok_def init_conn_manager_def)

text \<open>What each operation leaves in the three maps.\<close>

lemma register_get:
  "Map_get k (connections (registerConnection c i s)) =
     (if k = c then Some (i\<lparr>ci_isAlive := True, ci_subscriptions := []\<rparr>) else Map_get k (connections s))"
  "Map_get u (userConnections (registerConnection c i s)) =
     (if u = ci_userId i then Some (Set_add c (nullish (Map_get u (userConnections s)) []))
      else Map_get u (userConnections s))"
  "disconnectedClients (registerConnection c i s) = disconnectedClients s"
  by (auto simp: registerConnection_def Let_def)

lemma register_wf:
  "Map_wf (connections s) \<Longrightarrow> Map_wf (connections (registerConnection c i s))"
  "Map_wf (userConnections s) \<Longrightarrow> Map_wf (userConnections (registerConnection c i s))"
  by (auto simp: registerConnection_def Let_def)

lemma remove_get:
  assumes "Map_get c (connections s) = Some i"
  shows "Map_get k (connections (removeConnection c s)) = (if k = c then None else Map_get k (connections s))"
    and "Map_get u (userConnections (removeConnection c s)) =
      (if u = ci_userId i then
         (case Map_get u (userConnections s) of
            None \<Rightarrow> None
          | Some cs \<Rightarrow> if Set_delete c cs = [] then None else Some (Set_delete c cs))
       else Map_get u (userConnections s))"
    and "Map_get k (disconnectedClients (removeConnection c s)) =
      (if k = c then None else Map_get k (disconnectedClients s))"
  using assms by (auto simp: removeConnection_def Let_def split: option.splits)

lemma index_okD:
  "index_ok s \<Longrightarrow> Map_get u (userConnections s) = Some cs \<Longrightarrow>
     distinct cs \<and> (\<forall>c\<in>set cs. \<exists>i. Map_get c (connections s) = Some i \<and> ci_userId i = u)"
  by (simp add: index_ok_def)

lemma index_ok_owner:
  "index_ok s \<Longrightarrow> Map_get u (userConnections s) = Some cs \<Longrightarrow> c \<in> set cs \<Longrightarrow>
     Map_get c (connections s) = Some i \<Longrightarrow> ci_userId i = u"
  by (fastforce dest: index_okD)

lemma index_ok_register:
  assumes "index_ok s" and "conn_guard s (RegisterConnection c i)"
  shows "index_ok (registerConnection c i s)"
  unfolding index_ok_def
proof (intro allI impI)
  fix u cs
  assume cs: "Map_get u (userConnections (registerConnection c i s)) = Some cs"
  show "distinct cs \<and> (\<forall>k\<in>set cs. \<exists>j. Map_get k (connections (registerConnection c i s)) = Some j \<and> ci_userId j = u)"
  proof (cases "u = ci_userId i")
    case True
    show ?thesis
    proof (cases "Map_get u (userConnections s)")
      case None
      with cs True show ?thesis by (auto simp: register_get Set_add_def)
    next
      case (Some old)
      with cs True index_okD [OF assms(1) Some] show ?thesis by (auto simp: register_get)
    qed
  next
    case False
    with cs have "Map_get u (userConnections s) = Some cs" by (simp add: register_get)
    with False index_okD [OF assms(1) this] assms(2) show ?thesis
      by (auto simp: register_get split: option.splits)
  qed
qed

lemma index_ok_mark: "index_ok s \<Longrightarrow> index_ok (markDisconnected now c s)"
  using index_ok_owner [of s _ _ c] unfolding index_ok_def markDisconnected_def
  by (cases "Map_get c (connections s)") (simp, auto split: if_splits)

lemma index_ok_remove:
  assumes "index_ok s"
  shows "index_ok (removeConnection c s)"
proof (cases "Map_get c (connections s)")
  case None
  with assms show ?thesis by (simp add: removeConnection_def)
next
  case (Some i)
  have "distinct cs \<and> (\<forall>k\<in>set cs. k \<noteq> c \<and> (\<exists>j. Map_get k (connections s) = Some j \<and> ci_userId j = u))"
    if "Map_get u (userConnections (removeConnection c s)) = Some cs" for u cs
    using that Some
    by (auto simp: remove_get [OF Some] split: if_splits option.splits
        dest: index_okD [OF assms] index_ok_owner [OF assms])
  then show ?thesis
    unfolding index_ok_def by (simp add: remove_get [OF Some])
qed

lemma cm_inv_register:
  "cm_inv s \<Longrightarrow> conn_guard s (RegisterConnection c i) \<Longrightarrow> cm_inv (registerConnection c i s)"
  unfolding cm_inv_def
  by (simp add: index_ok_register register_wf register_get del: conn_guard.simps)

text \<open>Updating one connection in place keeps the invariant when the user stays the same.\<close>

lemma cm_inv_upd:
  assumes "cm_inv s" and "\<And>i. ci_userId (f i) = ci_userId i"
    and "\<And>i. distinct (ci_subscriptions i) \<Longrightarrow> distinct (ci_subscriptions (f i))"
  shows "cm_inv (s\<lparr>connections := Map_upd c f (connections s)\<rparr>)"
proof -
  have "index_ok (s\<lparr>connections := Map_upd c f (connections s)\<rparr>)"
    unfolding index_ok_def
  proof (intro allI impI)
    fix u cs
    assume "Map_get u (userConnections (s\<lparr>connections := Map_upd c f (connections s)\<rparr>)) = Some cs"
    with index_okD [of s u cs] assms(1) have
      "distinct cs \<and> (\<forall>k\<in>set cs. \<exists>i. Map_get k (connections s) = Some i \<and> ci_userId i = u)"
      by (simp add: cm_inv_def)
    then show "distinct cs \<and> (\<forall>k\<in>set cs. \<exists>i.
        Map_get k (connections (s\<lparr>connections := Map_upd c f (connections s)\<rparr>)) = Some i \<and> ci_userId i = u)"
      by (auto simp: assms(2))
  qed
  with assms(1,3) show ?thesis by (auto simp: cm_inv_def)
qed

lemma cm_inv_mark: "cm_inv s \<Longrightarrow> cm_inv (markDisconnected now c s)"
  unfolding cm_inv_def
  by (simp add: index_ok_mark) (auto simp: markDisconnected_def split: option.splits)

lemma cm_inv_remove: "cm_inv s \<Longrightarrow> cm_inv (removeConnection c s)"
  unfolding cm_inv_def
  by (simp add: index_ok_remove) (auto simp: removeConnection_def Let_def split: option.splits)

lemma cm_inv_cleanup_loop: "cm_inv s \<Longrightarrow> cm_inv (snd (cleanupInactive_loop now a es s))"
  by (induction now a es s rule: cleanupInactive_loop.induct) (auto simp: cm_inv_remove split: prod.splits)

lemma cm_inv_step: "cm_inv s \<Longrightarrow> conn_guard s e \<Longrightarrow> cm_inv (conn_step s e)"
proof (cases e)
  case (RegisterConnection c i)
  assume "cm_inv s" "conn_guard s e"
  with RegisterConnection show ?thesis by (auto intro: cm_inv_register)
qed (auto simp: cm_inv_mark cm_inv_remove cm_inv_cleanup_loop cleanupInactiveConnections_def
      updateHeartbeat_def subscribeToPortfolio_def unsubscribeFromPortfolio_def updateMetadata_def
      intro!: cm_inv_upd)

interpretation cm: guarded_system conn_step conn_guard cm_inv
  by unfold_locales (rule cm_inv_step)

section \<open>Properties\<close>

lemma getUserConnections_owner:
  "index_ok s \<Longrightarrow> i \<in> set (getUserConnections u s) \<Longrightarrow> ci_userId i = u"
proof -
  assume ok: "index_ok s" and "i \<in> set (getUserConnections u s)"
  then obtain cs c where "Map_get u (userConnections s) = Some cs" "c \<in> set cs" "Map_get c (connections s) = Some i"
    by (cases "Map_get u (userConnections s)") (auto simp: getUserConnections_def List.map_filter_def)
  then show ?thesis by (rule index_ok_owner [OF ok])
qed

lemma getUserConnectionId_registered:
  "index_ok s \<Longrightarrow> getUserConnectionId u s = Some c \<Longrightarrow> getConnectionInfo c s \<noteq> None"
proof -
  assume ok: "index_ok s" and id: "getUserConnectionId u s = Some c"
  then obtain cs where "Map_get u (userConnections s) = Some (c # cs)"
    by (auto simp: getUserConnectionId_def split: option.splits list.splits)
  from index_okD [OF ok this] show ?thesis by (auto simp: getConnectionInfo_def)
qed

text \<open>
  In every history in which a client id is registered for one user only, the connections
  listed for a user are connections of that user, and every client the user index names is
  still registered.
\<close>

theorem user_connections_sound:
  assumes "guarded conn_step conn_guard init_conn_manager cs"
  shows "let s = run conn_step init_conn_manager cs
         in (\<forall>i\<in>set (getUserConnections u s). ci_userId i = u) \<and>
            (\<forall>c. getUserConnectionId u s = Some c \<longrightarrow> getConnectionInfo c s \<noteq> None)"
proof -
  have "cm_inv (run conn_step init_conn_manager cs)"
    by (rule cm.guarded_run_inv [OF assms cm_inv_init])
  then have ok: "index_ok (run conn_step init_conn_manager cs)" by (simp add: cm_inv_def)
  then show ?thesis
    by (simp add: Let_def getUserConnections_owner getUserConnectionId_registered del: not_None_eq)
qed

theorem user_connections_sound_witness:
  "let i = \<lparr>ci_userId = ''u'', ci_clientId = ''a'', ci_connectedAt = 1, ci_lastHeartbeat = 1,
            ci_isAlive = False, ci_subscriptions = [''x''], ci_metadata = (None :: (string, nat) js_map option)\<rparr>;
       s = run conn_step init_conn_manager
             [RegisterConnection ''a'' i, RegisterConnection ''b'' (i\<lparr>ci_userId := ''v''\<rparr>), MarkDisconnected 3 ''b'']
   in (\<forall>j\<in>set (getUserConnections ''u'' s). ci_userId j = ''u'') \<and> length (getUserConnections ''u'' s) = 1"
proof -
  let ?i = "\<lparr>ci_userId = ''u'', ci_clientId = ''a'', ci_connectedAt = 1, ci_lastHeartbeat = 1,
            ci_isAlive = False, ci_subscriptions = [''x''], ci_metadata = (None :: (string, nat) js_map option)\<rparr>"
  let ?cs = "[RegisterConnection ''a'' ?i, RegisterConnection ''b'' (?i\<lparr>ci_userId := ''v''\<rparr>), MarkDisconnected 3 ''b'']"
  have "guarded conn_step conn_guard init_conn_manager ?cs" by code_simp
  from user_connections_sound [OF this, of "''u''"]
  have "\<forall>j\<in>set (getUserConnections ''u'' (run conn_step init_conn_manager ?cs)). ci_userId j = ''u''"
    unfolding Let_def by blast
  moreover have "length (getUserConnections ''u'' (run conn_step init_conn_manager ?cs)) = 1" by code_simp
  ultimately show ?thesis unfolding Let_def by blast
qed

end
