(* ===== verification/Event_Buffer.thy ===== *)
theory Event_Buffer
  imports Js_Prelude
begin

text \<open>
  The event buffer of the dashboard gateway
  (\<^verbatim>\<open>dashboard/websocket/services/event-buffer.service.ts\<close>): events sent to a user while
  the user is disconnected are kept per user, at most 1000 of them, and handed over once
  on reconnection.
\<close>

section \<open>State\<close>

record 'd buffered_event =
  be_event :: string
  be_data :: 'd
  be_timestamp :: timestamp

record 'd event_buffer =
  eventBuffers :: "(string, 'd buffered_event list) js_map"
  disconnectionTracker :: "(string, string) js_map"

definition maxEvents :: nat where
  "maxEvents = 1000"

definition init_event_buffer :: "'d event_buffer" where
  "init_event_buffer = \<lparr>eventBuffers = [], disconnectionTracker = []\<rparr>"

section \<open>Operations\<close>

definition startBuffering :: "string \<Rightarrow> string \<Rightarrow> 'd event_buffer \<Rightarrow> 'd event_buffer" where
  "startBuffering userId clientId s =
     (let s1 = (if Map_has userId (eventBuffers s) then s
                else s\<lparr>eventBuffers := Map_set userId [] (eventBuffers s)\<rparr>)
      in s1\<lparr>disconnectionTracker := Map_set userId clientId (disconnectionTracker s1)\<rparr>)"

definition stopBuffering :: "string \<Rightarrow> 'd event_buffer \<Rightarrow> 'd event_buffer" where
  "stopBuffering userId s =
     s\<lparr>eventBuffers := Map_delete userId (eventBuffers s),
       disconnectionTracker := Map_delete userId (disconnectionTracker s)\<rparr>"

text \<open>
  The caller's timestamp may be missing (\<open>event.timestamp || new Date()\<close>); \<open>splice(0, n)\<close>
  drops the oldest events.
\<close>

definition bufferEvent ::
  "timestamp \<Rightarrow> string \<Rightarrow> string \<Rightarrow> 'd \<Rightarrow> timestamp option \<Rightarrow> 'd event_buffer \<Rightarrow> 'd event_buffer" where
  "bufferEvent now userId event data ts s =
     (let buffer = nullish (Map_get userId (eventBuffers s)) [];
          pushed = buffer @ [\<lparr>be_event = event, be_data = data, be_timestamp = nullish ts now\<rparr>];
          trimmed = (if length pushed > maxEvents then drop (length pushed - maxEvents) pushed
                     else pushed)
      in s\<lparr>eventBuffers := Map_set userId trimmed (eventBuffers s)\<rparr>)"

definition getBufferedEvents ::
  "string \<Rightarrow> 'd event_buffer \<Rightarrow> 'd buffered_event list \<times> 'd event_buffer" where
  "getBufferedEvents userId s =
     (case Map_get userId (eventBuffers s) of
        None \<Rightarrow> ([], s)
      | Some buffer \<Rightarrow> (buffer, stopBuffering userId s))"

definition getEventsSince ::
  "string \<Rightarrow> timestamp \<Rightarrow> 'd event_buffer \<Rightarrow> 'd buffered_event list" where
  "getEventsSince userId since s =
     (case Map_get userId (eventBuffers s) of
        None \<Rightarrow> []
      | Some buffer \<Rightarrow> filter (\<lambda>e. be_timestamp e \<ge> since) buffer)"

definition getBufferedEventCount :: "string \<Rightarrow> 'd event_buffer \<Rightarrow> nat" where
  "getBufferedEventCount userId s =
     (case Map_get userId (eventBuffers s) of None \<Rightarrow> 0 | Some buffer \<Rightarrow> length buffer)"

definition isBuffering :: "string \<Rightarrow> 'd event_buffer \<Rightarrow> bool" where
  "isBuffering userId s = Map_has userId (eventBuffers s)"

text \<open>
  The loop of \<open>cleanupOldEvents\<close> over a snapshot of the entries: a user whose events are all
  too old loses the buffer and the tracker entry, and only the others add to the count.
\<close>

fun cleanupOldEvents_loop ::
  "timestamp \<Rightarrow> int \<Rightarrow> (string, 'd buffered_event list) js_map \<Rightarrow> nat \<Rightarrow> 'd event_buffer \<Rightarrow> nat \<times> 'd event_buffer"
where
  "cleanupOldEvents_loop now maxAgeMs [] cleaned s = (cleaned, s)"
| "cleanupOldEvents_loop now maxAgeMs ((userId, buffer) # rest) cleaned s =
     (let filteredBuffer = filter (\<lambda>e. now - be_timestamp e \<le> maxAgeMs) buffer
      in if filteredBuffer = [] then cleanupOldEvents_loop now maxAgeMs rest cleaned (stopBuffering userId s)
         else cleanupOldEvents_loop now maxAgeMs rest
                (cleaned + (length buffer - length filteredBuffer))
                (s\<lparr>eventBuffers := Map_set userId filteredBuffer (eventBuffers s)\<rparr>))"

definition cleanupOldEvents :: "timestamp \<Rightarrow> int \<Rightarrow> 'd event_buffer \<Rightarrow> nat \<times> 'd event_buffer" where
  "cleanupOldEvents now maxAgeMs s = cleanupOldEvents_loop now maxAgeMs (eventBuffers s) 0 s"

definition clearAllBuffers :: "'d event_buffer \<Rightarrow> 'd event_buffer" where
  "clearAllBuffers s = s\<lparr>eventBuffers := [], disconnectionTracker := []\<rparr>"

record event_buffer_stats =
  ebs_totalUsers :: nat
  ebs_totalEvents :: nat
  ebs_averageEventsPerUser :: rat
  ebs_usersCurrentlyBuffering :: nat

definition getStats_eb :: "'d event_buffer \<Rightarrow> event_buffer_stats" where
  "getStats_eb s =
     (let totalEvents = sum_list (map length (Map_values (eventBuffers s)))
      in \<lparr>ebs_totalUsers = length (eventBuffers s),
          ebs_totalEvents = totalEvents,
          ebs_averageEventsPerUser =
            (if length (eventBuffers s) > 0
             then of_nat totalEvents / of_nat (length (eventBuffers s)) else 0),
          ebs_usersCurrentlyBuffering = length (disconnectionTracker s)\<rparr>)"

definition getDisconnectedClientId :: "string \<Rightarrow> 'd event_buffer \<Rightarrow> string option" where
  "getDisconnectedClientId userId s = Map_get userId (disconnectionTracker s)"

text \<open>One call of the service, as an event of its history.\<close>

datatype 'd buffer_call =
    StartBuffering string string
  | StopBuffering string
  | BufferEvent timestamp string string 'd "timestamp option"
  | GetBufferedEvents string
  | CleanupOldEvents timestamp int
  | ClearAllBuffers

fun event_buffer_step :: "'d event_buffer \<Rightarrow> 'd buffer_call \<Rightarrow> 'd event_buffer" where
  "event_buffer_step s (StartBuffering u c) = startBuffering u c s"
| "event_buffer_step s (StopBuffering u) = stopBuffering u s"
| "event_buffer_step s (BufferEvent now u e d ts) = bufferEvent now u e d ts s"
| "event_buffer_step s (GetBufferedEvents u) = snd (getBufferedEvents u s)"
| "event_buffer_step s (CleanupOldEvents now a) = snd (cleanupOldEvents now a s)"
| "event_buffer_step s ClearAllBuffers = clearAllBuffers s"

section \<open>Specification\<close>

text \<open>
  The events of a history addressed to one user, in order, and the calls that leave that
  user's buffer in place: everything but its hand-over, its removal and the clean-ups.
\<close>

fun events_for :: "string \<Rightarrow> 'd buffer_call list \<Rightarrow> 'd buffered_event list" where
  "events_for u [] = []"
| "events_for u (BufferEvent now v e d ts # cs) =
     (if v = u then \<lparr>be_event = e, be_data = d, be_timestamp = nullish ts now\<rparr> # events_for u cs
      else events_for u cs)"
| "events_for u (_ # cs) = events_for u cs"

fun keeps_buffer :: "string \<Rightarrow> 'd buffer_call \<Rightarrow> bool" where
  "keeps_buffer u (StopBuffering v) = (v \<noteq> u)"
| "keeps_buffer u (GetBufferedEvents v) = (v \<noteq> u)"
| "keeps_buffer u (CleanupOldEvents _ _) = False"
| "keeps_buffer u ClearAllBuffers = False"
| "keeps_buffer u _ = True"

text \<open>The last \<open>n\<close> elements of a list.\<close>

definition newest :: "nat \<Rightarrow> 'a list \<Rightarrow> 'a list" where
  "newest n xs = drop (length xs - n) xs"

text \<open>The invariant of the service.\<close>

definition eb_inv :: "'d event_buffer \<Rightarrow> bool" where
  "eb_inv s \<longleftrightarrow> Map_wf (eventBuffers s) \<and> Map_wf (disconnectionTracker s) \<and>
     (\<forall>u b. Map_get u (eventBuffers s) = Some b \<longrightarrow> length b \<le> maxEvents)"

section \<open>The invariant holds in every history\<close>

lemmas eb_ops [js_defs] = startBuffering_def stopBuffering_def bufferEvent_def getBufferedEvents_def
  clearAllBuffers_def

lemma eb_inv_init: "eb_inv init_event_buffer"
  by (simp add: eb_inv_def init_event_buffer_def)

lemma eb_inv_start: "eb_inv s \<Longrightarrow> eb_inv (startBuffering u c s)"
  by (auto simp: eb_inv_def startBuffering_def Let_def)

lemma eb_inv_stop: "eb_inv s \<Longrightarrow> eb_inv (stopBuffering u s)"
  by (auto simp: eb_inv_def stopBuffering_def)

lemma eb_inv_buffer: "eb_inv s \<Longrightarrow> eb_inv (bufferEvent now u e d ts s)"
  by (auto simp: eb_inv_def bufferEvent_def Let_def)

lemma eb_inv_set_filter:
  "eb_inv s \<Longrightarrow> length b \<le> maxEvents \<Longrightarrow>
     eb_inv (s\<lparr>eventBuffers := Map_set u (filter P b) (eventBuffers s)\<rparr>)"
  by (auto simp: eb_inv_def intro: order_trans [OF length_filter_le])

lemma eb_inv_cleanup_loop:
  "eb_inv s \<Longrightarrow> \<forall>(u, b) \<in> set es. length b \<le> maxEvents \<Longrightarrow>
     eb_inv (snd (cleanupOldEvents_loop now a es n s))"
  by (induction now a es n s rule: cleanupOldEvents_loop.induct)
    (auto simp: Let_def eb_inv_stop eb_inv_set_filter)

lemma eb_inv_entries: "eb_inv s \<Longrightarrow> \<forall>(u, b) \<in> set (eventBuffers s). length b \<le> maxEvents"
  by (auto simp: eb_inv_def Map_get_in_set)

lemma eb_inv_step: "eb_inv s \<Longrightarrow> eb_inv (event_buffer_step s c)"
  by (cases c)
    (auto simp: eb_inv_start eb_inv_stop eb_inv_buffer getBufferedEvents_def cleanupOldEvents_def
      clearAllBuffers_def eb_inv_cleanup_loop eb_inv_entries eb_inv_init [unfolded init_event_buffer_def]
      split: option.splits, simp add: eb_inv_def)

interpretation eb: invariant_system event_buffer_step eb_inv
  by unfold_locales (rule eb_inv_step)

section \<open>Buffering keeps the most recent events\<close>

lemma bufferEvent_get:
  "Map_get v (eventBuffers (bufferEvent now u e d ts s)) =
     (if v = u then
        (let p = nullish (Map_get u (eventBuffers s)) [] @
                   [\<lparr>be_event = e, be_data = d, be_timestamp = nullish ts now\<rparr>]
         in Some (drop (length p - maxEvents) p))
      else Map_get v (eventBuffers s))"
  by (simp add: bufferEvent_def Let_def)

lemma drop_last_snoc:
  "drop (length (drop (length xs - n) xs @ [y]) - n) (drop (length xs - n) xs @ [y]) =
     drop (length (xs @ [y]) - n) (xs @ [y])"
  by (cases "length xs \<ge> n") (auto simp: Suc_diff_le)

lemma events_for_append: "events_for u (cs @ ds) = events_for u cs @ events_for u ds"
  by (induction u cs rule: events_for.induct) auto

lemma newest_snoc: "newest n (newest n xs @ [y]) = newest n (xs @ [y])"
  unfolding newest_def by (rule drop_last_snoc)

lemma newest_short: "length xs \<le> n \<Longrightarrow> newest n xs = xs"
  by (simp add: newest_def)

lemma keeps_buffer_step:
  assumes "keeps_buffer u c" and "Map_get u (eventBuffers s) = Some (newest maxEvents b)"
  shows "Map_get u (eventBuffers (event_buffer_step s c)) = Some (newest maxEvents (b @ events_for u [c]))"
  using assms
proof (cases c)
  case (BufferEvent now v e d ts)
  then show ?thesis
    using assms newest_snoc [of maxEvents b] by (auto simp: bufferEvent_get Let_def simp flip: newest_def)
qed (auto simp: startBuffering_def stopBuffering_def getBufferedEvents_def Let_def
      split: option.splits)

lemma keeps_buffer_run:
  assumes "list_all (keeps_buffer u) cs" and "Map_get u (eventBuffers s) = Some (newest maxEvents b)"
  shows "Map_get u (eventBuffers (run event_buffer_step s cs)) =
     Some (newest maxEvents (b @ events_for u cs))"
  using assms
proof (induction cs arbitrary: s b)
  case (Cons c cs)
  from Cons.prems have "Map_get u (eventBuffers (event_buffer_step s c)) =
      Some (newest maxEvents (b @ events_for u [c]))"
    by (intro keeps_buffer_step) simp_all
  with Cons.IH [of "event_buffer_step s c" "b @ events_for u [c]"] Cons.prems(1) show ?case
    using events_for_append [of u "[c]" cs] by simp
qed simp

section \<open>Clean-up drops the expired events only\<close>

lemma cleanup_loop_get_other:
  "u \<notin> fst ` set es \<Longrightarrow>
     Map_get u (eventBuffers (snd (cleanupOldEvents_loop now a es n s))) = Map_get u (eventBuffers s)"
  by (induction now a es n s rule: cleanupOldEvents_loop.induct) (auto simp: Let_def stopBuffering_def)

lemma cleanup_loop_get:
  "distinct (map fst es) \<Longrightarrow> (u, b) \<in> set es \<Longrightarrow>
     Map_get u (eventBuffers (snd (cleanupOldEvents_loop now a es n s))) =
       (let f = filter (\<lambda>e. now - be_timestamp e \<le> a) b in if f = [] then None else Some f)"
proof (induction now a es n s rule: cleanupOldEvents_loop.induct)
  case (2 now a v b' rest n s)
  show ?case
  proof (cases "(u, b) = (v, b')")
    case True
    with 2(3) have "v \<notin> fst ` set rest" by simp
    with True show ?thesis
      by (simp add: Let_def cleanup_loop_get_other stopBuffering_def)
  next
    case False
    with 2 show ?thesis by (auto simp: Let_def)
  qed
qed simp

lemma cleanup_get:
  assumes "eb_inv s" and "Map_get u (eventBuffers s) = Some b"
  shows "Map_get u (eventBuffers (snd (cleanupOldEvents now a s))) =
     (let f = filter (\<lambda>e. now - be_timestamp e \<le> a) b in if f = [] then None else Some f)"
  using assms unfolding cleanupOldEvents_def
  by (intro cleanup_loop_get) (auto simp: eb_inv_def Map_wf_def Map_get_memD)

section \<open>Properties\<close>

text \<open>
  No history of calls makes a user's buffer exceed the 1000 events of the configuration.
\<close>

theorem event_buffer_bounded:
  "Map_get u (eventBuffers (run event_buffer_step init_event_buffer cs)) = Some b \<Longrightarrow> length b \<le> maxEvents"
  using eb.run_inv [OF eb_inv_init, of cs] by (auto simp: eb_inv_def)

theorem event_buffer_bounded_witness:
  "length [\<lparr>be_event = ''heartbeat'', be_data = (7::int), be_timestamp = 5\<rparr>] \<le> maxEvents"
  by (rule event_buffer_bounded [of "''u''" "[BufferEvent 5 ''u'' ''heartbeat'' 7 None]"])
    (simp add: init_event_buffer_def bufferEvent_def maxEvents_def)

text \<open>
  After a user starts buffering, whatever other calls come in between, the hand-over
  returns exactly the newest 1000 events sent to the user since then, in the order they were
  sent, and leaves no buffer and no tracked client behind.
\<close>

theorem reconnect_replays_newest:
  assumes "list_all (keeps_buffer u) cs" and "\<not> isBuffering u s"
  shows "let s1 = run event_buffer_step (startBuffering u c s) cs;
             r = getBufferedEvents u s1
         in fst r = newest maxEvents (events_for u cs) \<and> \<not> isBuffering u (snd r) \<and>
            getDisconnectedClientId u (snd r) = None"
proof -
  have "Map_get u (eventBuffers (startBuffering u c s)) = Some (newest maxEvents [])"
    using assms(2) by (auto simp: startBuffering_def isBuffering_def Let_def newest_def)
  from keeps_buffer_run [OF assms(1) this] show ?thesis
    by (simp add: getBufferedEvents_def isBuffering_def stopBuffering_def getDisconnectedClientId_def Let_def)
qed

theorem reconnect_replays_newest_witness:
  "fst (getBufferedEvents ''u'' (run event_buffer_step (startBuffering ''u'' ''c'' init_event_buffer)
      [BufferEvent 5 ''u'' ''a'' (1::int) None, StopBuffering ''v'', BufferEvent 6 ''v'' ''x'' 9 None,
       BufferEvent 7 ''u'' ''b'' 2 (Some 3)])) =
     [\<lparr>be_event = ''a'', be_data = 1, be_timestamp = 5\<rparr>, \<lparr>be_event = ''b'', be_data = 2, be_timestamp = 3\<rparr>]"
  using reconnect_replays_newest [of "''u''" "[BufferEvent 5 ''u'' ''a'' (1::int) None, StopBuffering ''v'',
      BufferEvent 6 ''v'' ''x'' 9 None, BufferEvent 7 ''u'' ''b'' 2 (Some 3)]" init_event_buffer "''c''"]
  by (simp add: isBuffering_def init_event_buffer_def newest_def maxEvents_def Let_def del: run_Cons)

text \<open>
  A clean-up removes exactly the events older than the given age: a user keeps the others
  in order, and loses the buffer when none is left.
\<close>

theorem cleanup_drops_expired_only:
  assumes "Map_get u (eventBuffers (run event_buffer_step init_event_buffer cs)) = Some b"
  shows "getEventsSince u t (snd (cleanupOldEvents now a (run event_buffer_step init_event_buffer cs))) =
     filter (\<lambda>e. now - be_timestamp e \<le> a \<and> t \<le> be_timestamp e) b"
  using cleanup_get [OF eb.run_inv [OF eb_inv_init] assms, of now a]
  by (auto simp: getEventsSince_def Let_def filter_empty_conv conj_commute split: if_splits)

theorem cleanup_drops_expired_only_witness:
  "getEventsSince ''u'' 0 (snd (cleanupOldEvents 100 50 (run event_buffer_step init_event_buffer
      [BufferEvent 20 ''u'' ''a'' (1::int) None, BufferEvent 70 ''u'' ''b'' 2 None]))) =
     [\<lparr>be_event = ''b'', be_data = 2, be_timestamp = 70\<rparr>]"
  by (subst cleanup_drops_expired_only [of "''u''" _
      "[\<lparr>be_event = ''a'', be_data = 1, be_timestamp = 20\<rparr>, \<lparr>be_event = ''b'', be_data = 2, be_timestamp = 70\<rparr>]"])
    (simp_all add: init_event_buffer_def bufferEvent_def maxEvents_def)

end
