(* ===== verification/Dashboard_Gateway.thy ===== *)
theory Dashboard_Gateway
  imports Connection_Manager Event_Buffer
begin

text \<open>
  The dashboard WebSocket gateway (\<^verbatim>\<open>dashboard/websocket/dashboard.gateway.ts\<close>), the client of
  the connection manager and of the event buffer. A handler is one atomic step that returns
  what it does to the sockets and to the metrics as a list of effects. Token verification
  (\<open>jwtService.verify\<close>) is the parameter \<open>verify\<close>: the \<open>sub\<close> and \<open>userId\<close> claims of a valid
  token, \<open>None\<close> when it throws. Tracing spans and log lines are dropped.
\<close>

section \<open>State, messages and effects\<close>

record ('d, 'm) gateway =
  gw_conns :: "'m conn_manager"
  gw_buffer :: "'d event_buffer"

datatype 'd ws_message =
    ErrorMsg string string
  | ReconnectionSuccess nat "'d buffered_event list"
  | ConnectionEstablished string timestamp
  | Pong timestamp
  | SubscriptionConfirmed string
  | UnsubscriptionConfirmed string
  | EventsReplayed nat "'d buffered_event list"
  | ConnectionStale timestamp

datatype 'd ws_effect =
    Emit string "'d ws_message"
  | EmitRoom string "'d ws_message"
  | Reply "'d ws_message"
  | Throw string
  | JoinRoom string string
  | LeaveRoom string string
  | DisconnectSocket string
  | CountConnection string
  | SetActiveConnections nat
  | RecordHeartbeat

record handshake =
  hs_authorization :: "string option"
  hs_auth_token :: "string option"
  hs_query_token :: "string option"

type_synonym verifier = "string \<Rightarrow> (string option \<times> string option) option"

section \<open>Handlers\<close>

definition extractToken :: "handshake \<Rightarrow> string option" where
  "extractToken hs =
     (if truthy (hs_authorization hs) \<and> startsWith (nullish (hs_authorization hs) []) ''Bearer ''
      then Some (drop 7 (nullish (hs_authorization hs) []))
      else if truthy (hs_auth_token hs) then hs_auth_token hs
      else hs_query_token hs)"

definition token_user :: "string option \<times> string option \<Rightarrow> string option" where
  "token_user p = (if truthy (fst p) then fst p else if truthy (snd p) then snd p else None)"

definition auth_failed :: "string \<Rightarrow> 'd ws_effect list" where
  "auth_failed c =
     [CountConnection ''error'', Emit c (ErrorMsg ''AUTH_FAILED'' ''Authentication failed''), DisconnectSocket c]"

definition connect_user ::
  "timestamp \<Rightarrow> string \<Rightarrow> string \<Rightarrow> ('d, 'm) gateway \<Rightarrow> 'd ws_effect list \<times> ('d, 'm) gateway" where
  "connect_user now clientId userId s =
     (let conns = registerConnection clientId
            \<lparr>ci_userId = userId, ci_clientId = clientId, ci_connectedAt = now, ci_lastHeartbeat = now,
             ci_isAlive = True, ci_subscriptions = [], ci_metadata = None\<rparr> (gw_conns s);
          (bufferedEvents, buf) = getBufferedEvents userId (gw_buffer s)
      in ([JoinRoom clientId (''user:'' @ userId), CountConnection ''connect'',
           SetActiveConnections (getConnectionCount conns)] @
          (if length bufferedEvents > 0
           then [Emit clientId (ReconnectionSuccess (length bufferedEvents) bufferedEvents)] else []) @
          [Emit clientId (ConnectionEstablished clientId now)],
          s\<lparr>gw_conns := conns, gw_buffer := buf\<rparr>))"

definition handleConnection ::
  "verifier \<Rightarrow> timestamp \<Rightarrow> string \<Rightarrow> handshake \<Rightarrow> ('d, 'm) gateway \<Rightarrow> 'd ws_effect list \<times> ('d, 'm) gateway" where
  "handleConnection verify now clientId hs s =
     (let token = extractToken hs
      in if \<not> truthy token
         then ([Emit clientId (ErrorMsg ''AUTH_REQUIRED'' ''Authentication token required''),
                DisconnectSocket clientId], s)
         else (case verify (nullish token []) of
                 None \<Rightarrow> (auth_failed clientId, s)
               | Some payload \<Rightarrow>
                   (case token_user payload of
                      None \<Rightarrow> (auth_failed clientId, s)
                    | Some userId \<Rightarrow> connect_user now clientId userId s)))"

definition handleDisconnect ::
  "timestamp \<Rightarrow> string \<Rightarrow> ('d, 'm) gateway \<Rightarrow> 'd ws_effect list \<times> ('d, 'm) gateway" where
  "handleDisconnect now clientId s =
     (case getConnectionInfo clientId (gw_conns s) of
        None \<Rightarrow> ([], s)
      | Some info \<Rightarrow>
          (let conns = markDisconnected now clientId (gw_conns s);
               buf = startBuffering (ci_userId info) clientId (gw_buffer s)
           in ([CountConnection ''disconnect'', SetActiveConnections (getConnectionCount conns)],
               s\<lparr>gw_conns := conns, gw_buffer := buf\<rparr>)))"

definition handlePing ::
  "timestamp \<Rightarrow> string \<Rightarrow> ('d, 'm) gateway \<Rightarrow> 'd ws_effect list \<times> ('d, 'm) gateway" where
  "handlePing now clientId s =
     ([RecordHeartbeat, Reply (Pong now)], s\<lparr>gw_conns := updateHeartbeat now clientId (gw_conns s)\<rparr>)"

definition handleSubscribePortfolio ::
  "string \<Rightarrow> string \<Rightarrow> ('d, 'm) gateway \<Rightarrow> 'd ws_effect list \<times> ('d, 'm) gateway" where
  "handleSubscribePortfolio clientId portfolioId s =
     (case getConnectionInfo clientId (gw_conns s) of
        None \<Rightarrow> ([Throw ''Connection not found''], s)
      | Some _ \<Rightarrow> ([JoinRoom clientId (''portfolio:'' @ portfolioId), Reply (SubscriptionConfirmed portfolioId)],
                   s\<lparr>gw_conns := subscribeToPortfolio clientId portfolioId (gw_conns s)\<rparr>))"

definition handleUnsubscribePortfolio ::
  "string \<Rightarrow> string \<Rightarrow> ('d, 'm) gateway \<Rightarrow> 'd ws_effect list \<times> ('d, 'm) gateway" where
  "handleUnsubscribePortfolio clientId portfolioId s =
     ([LeaveRoom clientId (''portfolio:'' @ portfolioId), Reply (UnsubscriptionConfirmed portfolioId)],
      s\<lparr>gw_conns := unsubscribeFromPortfolio clientId portfolioId (gw_conns s)\<rparr>)"

definition handleReplayEvents ::
  "string \<Rightarrow> timestamp \<Rightarrow> ('d, 'm) gateway \<Rightarrow> 'd ws_effect list" where
  "handleReplayEvents clientId since s =
     (case getConnectionInfo clientId (gw_conns s) of
        None \<Rightarrow> [Throw ''Connection not found'']
      | Some info \<Rightarrow> (let es = getEventsSince (ci_userId info) since (gw_buffer s)
                      in [Reply (EventsReplayed (length es) es)]))"

definition gw_bufferEvent ::
  "timestamp \<Rightarrow> string \<Rightarrow> string \<Rightarrow> 'd \<Rightarrow> ('d, 'm) gateway \<Rightarrow> ('d, 'm) gateway" where
  "gw_bufferEvent now userId event data s =
     s\<lparr>gw_buffer := bufferEvent now userId event data (Some now) (gw_buffer s)\<rparr>"

text \<open>One tick of the clean-up timer; the age limit of both steps is five minutes.\<close>

definition stale_threshold :: int where
  "stale_threshold = 5 * 60 * 1000"

definition staleConnectionCleanup ::
  "timestamp \<Rightarrow> ('d, 'm) gateway \<Rightarrow> 'd ws_effect list \<times> ('d, 'm) gateway" where
  "staleConnectionCleanup now s =
     (let stale = getStaleConnections now stale_threshold (gw_conns s);
          effs = concat (map (\<lambda>(c, info). [EmitRoom (''user:'' @ ci_userId info) (ConnectionStale now),
                                           CountConnection ''stale_cleanup'']) stale);
          conns = foldl (\<lambda>m (c, _). removeConnection c m) (gw_conns s) stale;
          buf = snd (cleanupOldEvents now stale_threshold (gw_buffer s))
      in (effs, s\<lparr>gw_conns := conns, gw_buffer := buf\<rparr>))"

datatype 'd gw_call =
    GConnect timestamp string handshake
  | GDisconnect timestamp string
  | GPing timestamp string
  | GSubscribe string string
  | GUnsubscribe string string
  | GReplay string timestamp
  | GBuffer timestamp string string 'd
  | GCleanup timestamp

fun gateway_step :: "verifier \<Rightarrow> ('d, 'm) gateway \<Rightarrow> 'd gw_call \<Rightarrow> ('d, 'm) gateway" where
  "gateway_step verify s (GConnect now c hs) = snd (handleConnection verify now c hs s)"
| "gateway_step verify s (GDisconnect now c) = snd (handleDisconnect now c s)"
| "gateway_step verify s (GPing now c) = snd (handlePing now c s)"
| "gateway_step verify s (GSubscribe c p) = snd (handleSubscribePortfolio c p s)"
| "gateway_step verify s (GUnsubscribe c p) = snd (handleUnsubscribePortfolio c p s)"
| "gateway_step verify s (GReplay c t) = s"
| "gateway_step verify s (GBuffer now u e d) = gw_bufferEvent now u e d s"
| "gateway_step verify s (GCleanup now) = snd (staleConnectionCleanup now s)"

section \<open>Specification\<close>

text \<open>The user a handshake authenticates as, if any.\<close>

definition authenticated :: "verifier \<Rightarrow> handshake \<Rightarrow> string option" where
  "authenticated verify hs =
     (let token = extractToken hs
      in if \<not> truthy token then None
         else Option.bind (verify (nullish token [])) token_user)"

text \<open>What the calls of the gateway's handlers do to the event buffer.\<close>

fun buffer_calls :: "verifier \<Rightarrow> ('d, 'm) gateway \<Rightarrow> 'd gw_call \<Rightarrow> 'd buffer_call list" where
  "buffer_calls verify s (GConnect now c hs) =
     (case authenticated verify hs of None \<Rightarrow> [] | Some u \<Rightarrow> [GetBufferedEvents u])"
| "buffer_calls verify s (GDisconnect now c) =
     (case getConnectionInfo c (gw_conns s) of None \<Rightarrow> [] | Some i \<Rightarrow> [StartBuffering (ci_userId i) c])"
| "buffer_calls verify s (GBuffer now u e d) = [BufferEvent now u e d (Some now)]"
| "buffer_calls verify s (GCleanup now) = [CleanupOldEvents now stale_threshold]"
| "buffer_calls verify s _ = []"

fun buffer_trace :: "verifier \<Rightarrow> ('d, 'm) gateway \<Rightarrow> 'd gw_call list \<Rightarrow> 'd buffer_call list" where
  "buffer_trace verify s [] = []"
| "buffer_trace verify s (c # cs) = buffer_calls verify s c @ buffer_trace verify (gateway_step verify s c) cs"

section \<open>The gateway as a client of its two services\<close>

lemma handleConnection_authenticated:
  "handleConnection verify now c hs s =
     (case authenticated verify hs of
        None \<Rightarrow> (if truthy (extractToken hs) then auth_failed c
                 else [Emit c (ErrorMsg ''AUTH_REQUIRED'' ''Authentication token required''), DisconnectSocket c], s)
      | Some u \<Rightarrow> connect_user now c u s)"
  by (simp add: handleConnection_def authenticated_def Let_def Option.bind_def split: option.splits)

lemma gateway_buffer_step:
  "gw_buffer (gateway_step verify s c) = run event_buffer_step (gw_buffer s) (buffer_calls verify s c)"
  by (cases c)
    (simp_all add: handleConnection_authenticated connect_user_def handleDisconnect_def handlePing_def
      handleSubscribePortfolio_def handleUnsubscribePortfolio_def gw_bufferEvent_def
      staleConnectionCleanup_def Let_def split: option.splits prod.splits)

lemma gateway_buffer_run:
  "gw_buffer (run (gateway_step verify) s cs) = run event_buffer_step (gw_buffer s) (buffer_trace verify s cs)"
  by (induction cs arbitrary: s) (simp_all add: gateway_buffer_step)

lemma foldl_remove_get:
  "Map_get k (connections (foldl (\<lambda>m (c, _). removeConnection c m) s xs)) =
     (if k \<in> fst ` set xs then None else Map_get k (connections s))"
proof (induction xs arbitrary: s)
  case (Cons x xs)
  obtain c i where x: "x = (c, i)" by (cases x)
  have "Map_get k (connections (removeConnection c s)) = (if k = c then None else Map_get k (connections s))"
    by (cases "Map_get c (connections s)") (auto simp: removeConnection_def [of c s] Let_def)
  with Cons.IH [of "removeConnection c s"] x show ?case by auto
qed simp

lemma cm_inv_foldl_remove: "cm_inv s \<Longrightarrow> cm_inv (foldl (\<lambda>m (c, _). removeConnection c m) s xs)"
  by (induction xs arbitrary: s) (auto simp: cm_inv_remove)

section \<open>Properties\<close>



text \<open>
  One tick of the clean-up timer removes exactly the connections without a heartbeat for
  more than five minutes and leaves every other connection as it was.
\<close>

theorem stale_cleanup_exact:
  assumes "Map_wf (connections (gw_conns s))"
  shows "getConnectionInfo c (gw_conns (snd (staleConnectionCleanup now s))) =
     (case getConnectionInfo c (gw_conns s) of
        None \<Rightarrow> None
      | Some i \<Rightarrow> if now - ci_lastHeartbeat i > stale_threshold then None else Some i)"
proof -
  have "c \<in> fst ` set (getStaleConnections now stale_threshold (gw_conns s)) \<longleftrightarrow>
      (\<exists>i. getConnectionInfo c (gw_conns s) = Some i \<and> now - ci_lastHeartbeat i > stale_threshold)"
    using assms by (force simp: getStaleConnections_def getConnectionInfo_def Map_filter_def Map_get_in_set)
  then show ?thesis
    by (auto simp: staleConnectionCleanup_def Let_def getConnectionInfo_def foldl_remove_get split: option.splits)
qed

theorem stale_cleanup_exact_witness:
  "let i = \<lparr>ci_userId = ''u'', ci_clientId = ''a'', ci_connectedAt = 1, ci_lastHeartbeat = 1, ci_isAlive = True,
            ci_subscriptions = [], ci_metadata = (None :: (string, nat) js_map option)\<rparr>;
       s = \<lparr>gw_conns = registerConnection ''a'' i init_conn_manager, gw_buffer = (init_event_buffer :: int event_buffer)\<rparr>
   in getConnectionInfo ''a'' (gw_conns (snd (staleConnectionCleanup 300002 s))) = None"
  unfolding Let_def
  by (subst stale_cleanup_exact)
    (simp_all add: register_wf init_conn_manager_def getConnectionInfo_def register_get stale_threshold_def)

end
