(* ===== verification/Breaker.thy ===== *)
theory Breaker
  imports Js_Prelude
begin

text \<open>
  The contract the two circuit breakers of the program share (the risk-management service and
  the AI-provider failover). Among the calls a client may make, some are failures: while a
  breaker is closed each failure adds one to a count, the breaker opens when the count reaches
  the threshold, and the other calls considered change neither the count nor the state.
\<close>

definition failures :: "('e \<Rightarrow> bool) \<Rightarrow> 'e list \<Rightarrow> int" where
  "failures is_fail es = int (length (filter is_fail es))"

locale failure_breaker =
  fixes step :: "'s \<Rightarrow> 'e \<Rightarrow> 's"
    and admitted :: "'e \<Rightarrow> bool"
    and is_fail :: "'e \<Rightarrow> bool"
    and closed :: "'s \<Rightarrow> bool"
    and opened :: "'s \<Rightarrow> bool"
    and streak :: "'s \<Rightarrow> int"
    and threshold :: "'s \<Rightarrow> int"
  assumes neutral: "closed s \<Longrightarrow> admitted e \<Longrightarrow> \<not> is_fail e \<Longrightarrow>
      closed (step s e) \<and> streak (step s e) = streak s"
    and fail_below: "closed s \<Longrightarrow> admitted e \<Longrightarrow> is_fail e \<Longrightarrow> streak s + 1 < threshold s \<Longrightarrow>
      closed (step s e) \<and> streak (step s e) = streak s + 1"
    and fail_trips: "closed s \<Longrightarrow> admitted e \<Longrightarrow> is_fail e \<Longrightarrow> streak s + 1 \<ge> threshold s \<Longrightarrow> opened (step s e)"
    and threshold_step: "closed s \<Longrightarrow> admitted e \<Longrightarrow> threshold (step s e) = threshold s"
    and opened_stays: "opened s \<Longrightarrow> admitted e \<Longrightarrow> opened (step s e)"
begin

lemma opened_run: "opened s \<Longrightarrow> list_all admitted es \<Longrightarrow> opened (run step s es)"
  by (induction es arbitrary: s) (simp_all add: opened_stays)

lemma trips_exactly_at_threshold:
  assumes "closed s" and "streak s < threshold s" and "list_all admitted es"
  shows "if streak s + failures is_fail es < threshold s then closed (run step s es) else opened (run step s es)"
  using assms
proof (induction es arbitrary: s)
  case Nil
  then show ?case by (simp add: failures_def)
next
  case (Cons e es)
  note IH = Cons.IH [of "step s e"]
  show ?case
  proof (cases "is_fail e \<and> streak s + 1 \<ge> threshold s")
    case True
    with Cons.prems have "opened (run step (step s e) es)"
      by (intro opened_run fail_trips) simp_all
    with True show ?thesis by (simp add: failures_def)
  next
    case False
    with Cons.prems IH fail_below [of s e] neutral [of s e] threshold_step [of s e] show ?thesis
      by (cases "is_fail e") (simp_all add: failures_def add.assoc)
  qed
qed

end

end
