(* ===== verification/Circuit_Breaker.thy ===== *)
theory Circuit_Breaker
  imports Breaker
begin

text \<open>
  The circuit breaker of the risk-management module
  (\<^verbatim>\<open>investment/risk-management/circuit-breaker.service.ts\<close>): one breaker per service name,
  created closed on first use. The events handed to the event emitter are kept in the order
  they are emitted.
\<close>

section \<open>State\<close>

datatype circuit_state = CLOSED | OPEN | HALF_OPEN

record cb_config =
  failureThreshold :: int
  slowCallDurationMs :: rat
  slowCallRateThreshold :: rat
  recoveryTimeMs :: int

record cb_config_opt =
  failureThreshold_opt :: "int option"
  slowCallDurationMs_opt :: "rat option"
  slowCallRateThreshold_opt :: "rat option"
  recoveryTimeMs_opt :: "int option"

record service_circuit =
  sc_state :: circuit_state
  sc_failureCount :: int
  sc_successCount :: int
  sc_slowCallCount :: int
  sc_totalCallCount :: int
  sc_lastFailureTime :: "timestamp option"
  sc_lastTransitionTime :: timestamp
  sc_config :: cb_config

datatype cb_event = CircuitOpened string int timestamp | CircuitClosed string timestamp

record circuit_breaker =
  services :: "(string, service_circuit) js_map"
  emitted :: "cb_event list"

definition DEFAULT_CONFIG :: cb_config where
  "DEFAULT_CONFIG = \<lparr>failureThreshold = 5, slowCallDurationMs = 5000, slowCallRateThreshold = 50,
     recoveryTimeMs = 60000\<rparr>"

definition MIN_CALLS_FOR_SLOW_RATE :: int where
  "MIN_CALLS_FOR_SLOW_RATE = 10"

section \<open>Operations\<close>

definition merge_config :: "cb_config_opt \<Rightarrow> cb_config" where
  "merge_config c =
     \<lparr>failureThreshold = nullish (failureThreshold_opt c) (failureThreshold DEFAULT_CONFIG),
      slowCallDurationMs = nullish (slowCallDurationMs_opt c) (slowCallDurationMs DEFAULT_CONFIG),
      slowCallRateThreshold = nullish (slowCallRateThreshold_opt c) (slowCallRateThreshold DEFAULT_CONFIG),
      recoveryTimeMs = nullish (recoveryTimeMs_opt c) (recoveryTimeMs DEFAULT_CONFIG)\<rparr>"

definition createInitialState :: "timestamp \<Rightarrow> cb_config \<Rightarrow> service_circuit" where
  "createInitialState now config =
     \<lparr>sc_state = CLOSED, sc_failureCount = 0, sc_successCount = 0, sc_slowCallCount = 0,
      sc_totalCallCount = 0, sc_lastFailureTime = None, sc_lastTransitionTime = now, sc_config = config\<rparr>"

definition configure_cb :: "timestamp \<Rightarrow> string \<Rightarrow> cb_config_opt \<Rightarrow> circuit_breaker \<Rightarrow> circuit_breaker" where
  "configure_cb now serviceName config s =
     (let merged = merge_config config
      in if Map_has serviceName (services s)
         then s\<lparr>services := Map_upd serviceName (\<lambda>x. x\<lparr>sc_config := merged\<rparr>) (services s)\<rparr>
         else s\<lparr>services := Map_set serviceName (createInitialState now merged) (services s)\<rparr>)"

definition getOrCreate :: "timestamp \<Rightarrow> string \<Rightarrow> circuit_breaker \<Rightarrow> service_circuit \<times> circuit_breaker" where
  "getOrCreate now serviceName s =
     (case Map_get serviceName (services s) of
        Some x \<Rightarrow> (x, s)
      | None \<Rightarrow> (let x = createInitialState now DEFAULT_CONFIG
                 in (x, s\<lparr>services := Map_set serviceName x (services s)\<rparr>)))"

text \<open>The object the source mutates is the map's entry: it is put back under its name.\<close>

definition put_service :: "string \<Rightarrow> service_circuit \<times> cb_event list \<Rightarrow> circuit_breaker \<Rightarrow> circuit_breaker" where
  "put_service serviceName x s =
     s\<lparr>services := Map_set serviceName (fst x) (services s), emitted := emitted s @ snd x\<rparr>"

definition transitionTo ::
  "timestamp \<Rightarrow> string \<Rightarrow> circuit_state \<Rightarrow> service_circuit \<Rightarrow> service_circuit \<times> cb_event list" where
  "transitionTo now serviceName newState x =
     (let x' = x\<lparr>sc_state := newState, sc_lastTransitionTime := now\<rparr>
      in (x', if newState = OPEN then [CircuitOpened serviceName (sc_failureCount x) now]
              else if newState = CLOSED then [CircuitClosed serviceName now]
              else []))"

definition isOpen :: "timestamp \<Rightarrow> string \<Rightarrow> circuit_breaker \<Rightarrow> bool \<times> circuit_breaker" where
  "isOpen now serviceName s0 =
     (let (x, s) = getOrCreate now serviceName s0;
          r = (case sc_lastFailureTime x of
                 Some t \<Rightarrow> if sc_state x = OPEN \<and> now - t > recoveryTimeMs (sc_config x)
                           then transitionTo now serviceName HALF_OPEN x else (x, [])
               | None \<Rightarrow> (x, []))
      in (sc_state (fst r) = OPEN, put_service serviceName r s))"

definition isHalfOpen :: "timestamp \<Rightarrow> string \<Rightarrow> circuit_breaker \<Rightarrow> bool \<times> circuit_breaker" where
  "isHalfOpen now serviceName s0 =
     (let (x, s) = getOrCreate now serviceName s0 in (sc_state x = HALF_OPEN, s))"

definition checkSlowCallRate ::
  "timestamp \<Rightarrow> string \<Rightarrow> service_circuit \<Rightarrow> service_circuit \<times> cb_event list" where
  "checkSlowCallRate now serviceName x =
     (if sc_totalCallCount x < MIN_CALLS_FOR_SLOW_RATE then (x, [])
      else (let slowRate = (of_int (sc_slowCallCount x) / of_int (sc_totalCallCount x)) * 100
            in if slowRate \<ge> slowCallRateThreshold (sc_config x) \<and> sc_state x = CLOSED
               then transitionTo now serviceName OPEN x else (x, [])))"

definition reset_service ::
  "timestamp \<Rightarrow> string \<Rightarrow> service_circuit \<Rightarrow> service_circuit \<times> cb_event list" where
  "reset_service now serviceName x =
     (x\<lparr>sc_state := CLOSED, sc_failureCount := 0, sc_successCount := 0, sc_slowCallCount := 0,
        sc_totalCallCount := 0, sc_lastFailureTime := None, sc_lastTransitionTime := now\<rparr>,
      if sc_state x \<noteq> CLOSED then [CircuitClosed serviceName now] else [])"

definition success_service ::
  "timestamp \<Rightarrow> string \<Rightarrow> rat option \<Rightarrow> service_circuit \<Rightarrow> service_circuit \<times> cb_event list" where
  "success_service now serviceName durationMs x0 =
     (let x1 = x0\<lparr>sc_totalCallCount := sc_totalCallCount x0 + 1, sc_successCount := sc_successCount x0 + 1\<rparr>;
          (x2, ev2) = (case durationMs of
              Some d \<Rightarrow> if d > slowCallDurationMs (sc_config x1)
                        then checkSlowCallRate now serviceName (x1\<lparr>sc_slowCallCount := sc_slowCallCount x1 + 1\<rparr>)
                        else (x1, [])
            | None \<Rightarrow> (x1, []));
          (x3, ev3) = (if sc_state x2 = HALF_OPEN then reset_service now serviceName x2 else (x2, []))
      in (x3, ev2 @ ev3))"

definition failure_service ::
  "timestamp \<Rightarrow> string \<Rightarrow> service_circuit \<Rightarrow> service_circuit \<times> cb_event list" where
  "failure_service now serviceName x0 =
     (let x = x0\<lparr>sc_failureCount := sc_failureCount x0 + 1, sc_totalCallCount := sc_totalCallCount x0 + 1,
                 sc_lastFailureTime := Some now\<rparr>
      in if sc_state x = HALF_OPEN then transitionTo now serviceName OPEN x
         else if sc_state x = CLOSED \<and> sc_failureCount x \<ge> failureThreshold (sc_config x)
         then transitionTo now serviceName OPEN x
         else (x, []))"

definition recordSuccess_cb :: "timestamp \<Rightarrow> string \<Rightarrow> rat option \<Rightarrow> circuit_breaker \<Rightarrow> circuit_breaker" where
  "recordSuccess_cb now serviceName durationMs s0 =
     (let (x, s) = getOrCreate now serviceName s0
      in put_service serviceName (success_service now serviceName durationMs x) s)"

definition recordFailure_cb :: "timestamp \<Rightarrow> string \<Rightarrow> circuit_breaker \<Rightarrow> circuit_breaker" where
  "recordFailure_cb now serviceName s0 =
     (let (x, s) = getOrCreate now serviceName s0
      in put_service serviceName (failure_service now serviceName x) s)"

definition reset_cb :: "timestamp \<Rightarrow> string \<Rightarrow> circuit_breaker \<Rightarrow> circuit_breaker" where
  "reset_cb now serviceName s0 =
     (let (x, s) = getOrCreate now serviceName s0
      in put_service serviceName (reset_service now serviceName x) s)"

text \<open>\<open>getStatus\<close> returns every field but the configuration; it creates a missing service.\<close>

type_synonym cb_status = "circuit_state \<times> int \<times> int \<times> int \<times> int \<times> timestamp option \<times> timestamp"

definition status_of :: "service_circuit \<Rightarrow> cb_status" where
  "status_of x = (sc_state x, sc_failureCount x, sc_successCount x, sc_slowCallCount x,
     sc_totalCallCount x, sc_lastFailureTime x, sc_lastTransitionTime x)"

definition getStatus_cb :: "timestamp \<Rightarrow> string \<Rightarrow> circuit_breaker \<Rightarrow> cb_status \<times> circuit_breaker" where
  "getStatus_cb now serviceName s0 =
     (let (x, s) = getOrCreate now serviceName s0 in (status_of x, s))"

definition getAllStatuses :: "circuit_breaker \<Rightarrow> (string, cb_status) js_map" where
  "getAllStatuses s = map (\<lambda>(name, x). (name, status_of x)) (services s)"

datatype cb_call =
    Configure timestamp cb_config_opt
  | IsOpen timestamp
  | IsHalfOpen timestamp
  | RecordSuccess timestamp "rat option"
  | RecordFailure timestamp
  | Reset timestamp
  | GetStatus timestamp

fun breaker_step :: "circuit_breaker \<Rightarrow> string \<times> cb_call \<Rightarrow> circuit_breaker" where
  "breaker_step s (n, Configure now c) = configure_cb now n c s"
| "breaker_step s (n, IsOpen now) = snd (isOpen now n s)"
| "breaker_step s (n, IsHalfOpen now) = snd (isHalfOpen now n s)"
| "breaker_step s (n, RecordSuccess now d) = recordSuccess_cb now n d s"
| "breaker_step s (n, RecordFailure now) = recordFailure_cb now n s"
| "breaker_step s (n, Reset now) = reset_cb now n s"
| "breaker_step s (n, GetStatus now) = snd (getStatus_cb now n s)"

section \<open>Specification\<close>

text \<open>The state of a service; one that was never used counts as closed.\<close>

definition state_of :: "string \<Rightarrow> circuit_breaker \<Rightarrow> circuit_state" where
  "state_of n s = (case Map_get n (services s) of None \<Rightarrow> CLOSED | Some x \<Rightarrow> sc_state x)"

text \<open>The edges of the breaker's state diagram, with the call that takes each of them.\<close>

inductive circuit_edge :: "cb_call \<Rightarrow> circuit_state \<Rightarrow> circuit_state \<Rightarrow> bool" where
  stay: "circuit_edge c q q"
| trip: "circuit_edge (RecordFailure now) CLOSED OPEN"
| slow: "circuit_edge (RecordSuccess now (Some d)) CLOSED OPEN"
| retry: "circuit_edge (IsOpen now) OPEN HALF_OPEN"
| probe_ok: "circuit_edge (RecordSuccess now d) HALF_OPEN CLOSED"
| probe_failed: "circuit_edge (RecordFailure now) HALF_OPEN OPEN"
| manual: "circuit_edge (Reset now) q CLOSED"

inductive_simps circuit_edge_closed_half: "circuit_edge c CLOSED HALF_OPEN"

text \<open>
  The calls considered between two transitions of one service: failures, successes without a
  duration, and the read-only calls that cannot start a probe.
\<close>

fun plain_call :: "cb_call \<Rightarrow> bool" where
  "plain_call (RecordFailure _) = True"
| "plain_call (RecordSuccess _ d) = (d = None)"
| "plain_call (IsHalfOpen _) = True"
| "plain_call (GetStatus _) = True"
| "plain_call _ = False"

fun is_failure :: "cb_call \<Rightarrow> bool" where
  "is_failure (RecordFailure _) = True"
| "is_failure _ = False"

text \<open>The calls that cannot bring an open service back by hand.\<close>

fun unattended :: "cb_call \<Rightarrow> bool" where
  "unattended (Reset _) = False"
| "unattended (RecordFailure _) = False"
| "unattended _ = True"

text \<open>One call as a change of one service, and the same call on the whole map.\<close>

fun service_step :: "string \<Rightarrow> service_circuit \<Rightarrow> cb_call \<Rightarrow> service_circuit" where
  "service_step n x (Configure now c) = x\<lparr>sc_config := merge_config c\<rparr>"
| "service_step n x (IsOpen now) =
     (case sc_lastFailureTime x of
        Some t \<Rightarrow> if sc_state x = OPEN \<and> now - t > recoveryTimeMs (sc_config x)
                  then fst (transitionTo now n HALF_OPEN x) else x
      | None \<Rightarrow> x)"
| "service_step n x (IsHalfOpen now) = x"
| "service_step n x (RecordSuccess now d) = fst (success_service now n d x)"
| "service_step n x (RecordFailure now) = fst (failure_service now n x)"
| "service_step n x (Reset now) = fst (reset_service now n x)"
| "service_step n x (GetStatus now) = x"

text \<open>A history of the whole map restricted to one service.\<close>

definition calls_to :: "string \<Rightarrow> (string \<times> cb_call) list \<Rightarrow> cb_call list" where
  "calls_to n cs = map snd (filter (\<lambda>c. fst c = n) cs)"

section \<open>Facts about one service\<close>

lemmas service_defs [js_defs] = transitionTo_def checkSlowCallRate_def reset_service_def
  success_service_def failure_service_def

lemma getOrCreate_fst:
  "fst (getOrCreate now n s) = nullish (Map_get n (services s)) (createInitialState now DEFAULT_CONFIG)"
  by (simp add: getOrCreate_def Let_def split: option.splits)

lemma getOrCreate_get:
  "Map_get m (services (snd (getOrCreate now n s))) =
     (if m = n then Some (fst (getOrCreate now n s)) else Map_get m (services s))"
  by (simp add: getOrCreate_def Let_def split: option.splits)

lemma put_service_get: "Map_get m (services (put_service n x s)) = (if m = n then Some (fst x) else Map_get m (services s))"
  by (simp add: put_service_def)

lemma getOrCreate_state: "sc_state (fst (getOrCreate now n s)) = state_of n s"
  by (simp add: getOrCreate_fst state_of_def createInitialState_def split: option.splits)

lemmas call_defs = configure_cb_def isOpen_def isHalfOpen_def recordSuccess_cb_def recordFailure_cb_def
  reset_cb_def getStatus_cb_def put_service_def getOrCreate_def

lemma breaker_step_known:
  "Map_get n (services s) = Some x \<Longrightarrow>
     Map_get m (services (breaker_step s (n, c))) = (if m = n then Some (service_step n x c) else Map_get m (services s))"
  by (cases c) (auto simp: call_defs Let_def split: prod.splits option.splits)

lemma breaker_step_new:
  assumes "Map_get n (services s) = None"
  shows "\<exists>now cfg. Map_get m (services (breaker_step s (n, c))) =
     (if m = n then Some (service_step n (createInitialState now cfg) c) else Map_get m (services s))"
proof (cases c)
  case (Configure now c)
  with assms show ?thesis
    by (intro exI [of _ now] exI [of _ "merge_config c"]) (simp add: call_defs createInitialState_def)
qed (use assms in \<open>auto simp: call_defs Let_def createInitialState_def split: prod.splits
      intro!: exI [of _ DEFAULT_CONFIG]\<close>)

lemma service_edge: "circuit_edge c (sc_state x) (sc_state (service_step n x c))"
proof (cases c)
  case (RecordSuccess now d)
  then show ?thesis
    by (cases "sc_state x") (auto simp: service_defs Let_def split: option.splits prod.splits
        intro: circuit_edge.intros)
next
  case (RecordFailure now)
  then show ?thesis
    by (cases "sc_state x") (auto simp: service_defs Let_def intro: circuit_edge.intros)
next
  case (IsOpen now)
  then show ?thesis
    by (auto simp: transitionTo_def Let_def split: option.splits intro: circuit_edge.intros)
qed (auto simp: reset_service_def intro: circuit_edge.intros)

lemma state_of_Some: "Map_get n (services s) = Some x \<Longrightarrow> state_of n s = sc_state x"
  by (simp add: state_of_def)

interpretation sb: failure_breaker "service_step n" plain_call is_failure "\<lambda>x. sc_state x = CLOSED"
    "\<lambda>x. sc_state x = OPEN" sc_failureCount "\<lambda>x. failureThreshold (sc_config x)" for n
proof (unfold_locales, goal_cases)
  case (1 s e) then show ?case by (cases e) (auto simp: service_defs Let_def)
next
  case (2 s e) then show ?case by (cases e) (auto simp: service_defs Let_def)
next
  case (3 s e) then show ?case by (cases e) (auto simp: service_defs Let_def)
next
  case (4 s e) then show ?case by (cases e) (auto simp: service_defs Let_def)
next
  case (5 s e) then show ?case by (cases e) (auto simp: service_defs Let_def)
qed

lemma run_known:
  "Map_get n (services s) = Some x \<Longrightarrow>
     Map_get n (services (run breaker_step s cs)) = Some (run (service_step n) x (calls_to n cs))"
proof (induction cs arbitrary: s x)
  case (Cons c cs)
  obtain m d where c: "c = (m, d)" by (cases c)
  show ?case
  proof (cases "m = n")
    case True
    with Cons c show ?thesis by (simp add: calls_to_def breaker_step_known)
  next
    case False
    then have "Map_get n (services (breaker_step s (m, d))) = Map_get n (services s)"
      by (cases "Map_get m (services s)")
        (use breaker_step_new [of m s n d] breaker_step_known [of m s _ n d] in auto)
    with Cons False c show ?thesis by (simp add: calls_to_def)
  qed
qed (simp add: calls_to_def)

section \<open>Properties\<close>

text \<open>
  Every call moves the breaker of the named service along an edge of the state diagram
  (closed to open on failures or slow calls, open to half-open when asked after the recovery
  time, half-open to closed on a success and to open on a failure, anything to closed on a
  reset) and leaves every other service alone.
\<close>

theorem breaker_follows_diagram:
  "circuit_edge c (state_of n s) (state_of n (breaker_step s (n, c))) \<and>
     (m \<noteq> n \<longrightarrow> state_of m (breaker_step s (n, c)) = state_of m s)"
proof (cases "Map_get n (services s)")
  case None
  obtain now cfg where "Map_get n (services (breaker_step s (n, c))) =
      Some (service_step n (createInitialState now cfg) c)"
    using breaker_step_new [OF None, of n c] by auto
  then show ?thesis
    using None service_edge [of c "createInitialState now cfg" n] breaker_step_new [OF None, of m c]
    by (auto simp: state_of_def createInitialState_def)
next
  case (Some x)
  then show ?thesis
    using service_edge [of c x n] by (simp add: state_of_def breaker_step_known)
qed

theorem breaker_follows_diagram_witness:
  "state_of ''b'' (breaker_step \<lparr>services = [], emitted = []\<rparr> (''a'', RecordFailure 1)) =
     state_of ''b'' \<lparr>services = [], emitted = []\<rparr>"
  using breaker_follows_diagram [of "RecordFailure 1" "''a''" "\<lparr>services = [], emitted = []\<rparr>" "''b''"] by simp



text \<open>
  The recovery cycle of a service opened with a last failure at time \<open>t\<close>: it reports open
  until more than the recovery time has passed since \<open>t\<close>; asked later, it reports not open and
  is half-open; then a success closes it with all counters back at zero and one closed event,
  while a failure opens it again with that failure as the new start of the recovery time.
\<close>

theorem breaker_recovery_cycle:
  assumes "Map_get n (services s) = Some x" and "sc_state x = OPEN" and "sc_lastFailureTime x = Some t"
  shows "fst (isOpen now n s) = (now - t \<le> recoveryTimeMs (sc_config x)) \<and>
     (now - t > recoveryTimeMs (sc_config x) \<longrightarrow>
        (let h = snd (isOpen now n s)
         in state_of n h = HALF_OPEN \<and>
            Map_get n (services (recordSuccess_cb now2 n None h)) = Some (createInitialState now2 (sc_config x)) \<and>
            emitted (recordSuccess_cb now2 n None h) = emitted s @ [CircuitClosed n now2] \<and>
            fst (isOpen now3 n (recordFailure_cb now2 n h)) = (now3 - now2 \<le> recoveryTimeMs (sc_config x))))"
  using assms
  by (auto simp: isOpen_def recordSuccess_cb_def recordFailure_cb_def getOrCreate_def put_service_def
      state_of_def service_defs createInitialState_def Let_def split: prod.splits)

theorem breaker_recovery_cycle_witness:
  "let x = (createInitialState 0 DEFAULT_CONFIG)\<lparr>sc_state := OPEN, sc_failureCount := 5, sc_lastFailureTime := Some 10\<rparr>;
       s = \<lparr>services = [(''db'', x)], emitted = []\<rparr>
   in fst (isOpen 60010 ''db'' s) \<and> state_of ''db'' (snd (isOpen 60011 ''db'' s)) = HALF_OPEN"
proof -
  let ?x = "(createInitialState 0 DEFAULT_CONFIG)\<lparr>sc_state := OPEN, sc_failureCount := 5, sc_lastFailureTime := Some 10\<rparr>"
  let ?s = "\<lparr>services = [(''db'', ?x)], emitted = []\<rparr>"
  have x: "Map_get ''db'' (services ?s) = Some ?x" "sc_state ?x = OPEN" "sc_lastFailureTime ?x = Some 10"
    by (simp_all add: Map_get_def)
  show ?thesis
    using breaker_recovery_cycle [OF x, of 60010] breaker_recovery_cycle [OF x, of 60011]
    by (simp add: createInitialState_def DEFAULT_CONFIG_def Let_def)
qed

lemma slow_trip_stuck_step:
  "sc_state x = OPEN \<Longrightarrow> sc_lastFailureTime x = None \<Longrightarrow> unattended c \<Longrightarrow>
     sc_state (service_step n x c) = OPEN \<and> sc_lastFailureTime (service_step n x c) = None"
  by (cases c) (auto simp: service_defs Let_def split: option.splits prod.splits)

lemma slow_trip_stuck_run:
  "sc_state x = OPEN \<Longrightarrow> sc_lastFailureTime x = None \<Longrightarrow> list_all unattended cs \<Longrightarrow>
     sc_state (run (service_step n) x cs) = OPEN \<and> sc_lastFailureTime (run (service_step n) x cs) = None"
  by (induction cs arbitrary: x) (simp_all add: slow_trip_stuck_step)

text \<open>
  A service that slow calls opened before any failure was recorded has no last failure
  time, so the recovery timer never starts: without a failure or a manual reset it reports open
  at every later time, whatever else is called.
\<close>

theorem slow_trip_never_recovers:
  assumes "Map_get n (services s) = Some x" and "sc_state x = OPEN" and "sc_lastFailureTime x = None"
    and "list_all unattended (calls_to n cs)"
  shows "fst (isOpen now n (run breaker_step s cs))"
proof -
  let ?y = "run (service_step n) x (calls_to n cs)"
  have "Map_get n (services (run breaker_step s cs)) = Some ?y" by (rule run_known [OF assms(1)])
  moreover have "sc_state ?y = OPEN" "sc_lastFailureTime ?y = None"
    using slow_trip_stuck_run [OF assms(2-4), of n] by simp_all
  ultimately show ?thesis by (simp add: isOpen_def getOrCreate_def Let_def)
qed

theorem slow_trip_never_recovers_witness:
  "let slow = (\<lambda>t. (''db'', RecordSuccess t (Some 6000)));
       s = run breaker_step \<lparr>services = [], emitted = []\<rparr> (map slow [1, 2, 3, 4, 5, 6, 7, 8, 9, 10])
   in state_of ''db'' s = OPEN \<and> fst (isOpen 1000000000 ''db'' (run breaker_step s [(''db'', IsOpen 999999999)]))"
proof -
  let ?slow = "\<lambda>t. (''db'', RecordSuccess t (Some 6000))"
  let ?s = "run breaker_step \<lparr>services = [], emitted = []\<rparr> (map ?slow [1, 2, 3, 4, 5, 6, 7, 8, 9, 10])"
  have "\<exists>y. Map_get ''db'' (services ?s) = Some y \<and> sc_state y = OPEN \<and> sc_lastFailureTime y = None"
    by (simp add: recordSuccess_cb_def getOrCreate_def put_service_def createInitialState_def DEFAULT_CONFIG_def
        service_defs MIN_CALLS_FOR_SLOW_RATE_def Let_def)
  then obtain y where y: "Map_get ''db'' (services ?s) = Some y" "sc_state y = OPEN" "sc_lastFailureTime y = None"
    by blast
  have "list_all unattended (calls_to ''db'' [(''db'', IsOpen 999999999)])" by (simp add: calls_to_def)
  from slow_trip_never_recovers [OF y this, of 1000000000]
  have "fst (isOpen 1000000000 ''db'' (run breaker_step ?s [(''db'', IsOpen 999999999)]))" .
  moreover have "state_of ''db'' ?s = OPEN" using state_of_Some [OF y(1)] y(2) by metis
  ultimately show ?thesis unfolding Let_def by (intro conjI)
qed

end
