(* ===== verification/Provider_Failover.thy ===== *)
theory Provider_Failover
  imports Breaker
begin

text \<open>
  Selection of AI compute providers with a circuit breaker per provider
  (\<^verbatim>\<open>infrastructure/ai-compute/provider-failover.ts\<close>). \<open>effectiveState\<close> turns an open breaker
  half-open once the cooldown is over, as a side effect of reading it. The collation of
  \<open>String.prototype.localeCompare\<close> is the parameter \<open>lc\<close>.
\<close>

section \<open>State\<close>

datatype provider_circuit = PC_CLOSED | PC_OPEN | PC_HALF_OPEN

record breaker_config =
  bc_failureThreshold :: int
  bc_cooldownMs :: int

record provider_state =
  ps_name :: string
  ps_priority :: int
  ps_consecutiveFailures :: int
  ps_state :: provider_circuit
  ps_openedAtMs :: timestamp
  ps_inFlight :: int

record failover =
  fo_providers :: "(string, provider_state) js_map"
  fo_cfg :: breaker_config

definition DEFAULT_BREAKER :: breaker_config where
  "DEFAULT_BREAKER = \<lparr>bc_failureThreshold = 5, bc_cooldownMs = 30000\<rparr>"

section \<open>Operations\<close>

fun init_providers :: "int \<Rightarrow> (string \<times> int option) list \<Rightarrow> (string, provider_state) js_map \<Rightarrow> (string, provider_state) js_map" where
  "init_providers i [] m = m"
| "init_providers i ((name, priority) # ps) m =
     init_providers (i + 1) ps
       (Map_set name \<lparr>ps_name = name, ps_priority = nullish priority i, ps_consecutiveFailures = 0,
                      ps_state = PC_CLOSED, ps_openedAtMs = 0, ps_inFlight = 0\<rparr> m)"

definition new_failover :: "(string \<times> int option) list \<Rightarrow> int option \<Rightarrow> int option \<Rightarrow> failover" where
  "new_failover ps failureThreshold cooldownMs =
     \<lparr>fo_providers = init_providers 0 ps [],
      fo_cfg = \<lparr>bc_failureThreshold = nullish failureThreshold (bc_failureThreshold DEFAULT_BREAKER),
                bc_cooldownMs = nullish cooldownMs (bc_cooldownMs DEFAULT_BREAKER)\<rparr>\<rparr>"

definition effectiveState :: "breaker_config \<Rightarrow> timestamp \<Rightarrow> provider_state \<Rightarrow> provider_state" where
  "effectiveState cfg nowMs p =
     (if ps_state p = PC_OPEN \<and> nowMs - ps_openedAtMs p \<ge> bc_cooldownMs cfg
      then p\<lparr>ps_state := PC_HALF_OPEN\<rparr> else p)"

text \<open>Reading the state of every provider in turn updates each of them.\<close>

definition refresh :: "timestamp \<Rightarrow> failover \<Rightarrow> failover" where
  "refresh nowMs s = s\<lparr>fo_providers := map (\<lambda>(k, p). (k, effectiveState (fo_cfg s) nowMs p)) (fo_providers s)\<rparr>"

definition isAvailable :: "string \<Rightarrow> timestamp \<Rightarrow> failover \<Rightarrow> bool \<times> failover" where
  "isAvailable name nowMs s =
     (case Map_get name (fo_providers s) of
        None \<Rightarrow> (False, s)
      | Some p \<Rightarrow> (let p' = effectiveState (fo_cfg s) nowMs p
                   in (ps_state p' \<noteq> PC_OPEN, s\<lparr>fo_providers := Map_set name p' (fo_providers s)\<rparr>)))"

definition candidates :: "failover \<Rightarrow> provider_state list" where
  "candidates s = filter (\<lambda>p. ps_state p \<noteq> PC_OPEN) (Map_values (fo_providers s))"

definition healthy :: "timestamp \<Rightarrow> failover \<Rightarrow> string list \<times> failover" where
  "healthy nowMs s = (map ps_name (candidates (refresh nowMs s)), refresh nowMs s)"

definition provider_cmp :: "(string \<Rightarrow> string \<Rightarrow> int) \<Rightarrow> provider_state \<Rightarrow> provider_state \<Rightarrow> int" where
  "provider_cmp lc a b =
     or_else (ps_inFlight a - ps_inFlight b) (or_else (ps_priority a - ps_priority b) (lc (ps_name a) (ps_name b)))"

definition select :: "(string \<Rightarrow> string \<Rightarrow> int) \<Rightarrow> timestamp \<Rightarrow> failover \<Rightarrow> string option \<times> failover" where
  "select lc nowMs s =
     (case sort_by (provider_cmp lc) (candidates (refresh nowMs s)) of
        [] \<Rightarrow> (None, refresh nowMs s)
      | p # _ \<Rightarrow> (Some (ps_name p), refresh nowMs s))"

text \<open>
  The filter of \<open>failoverOrder\<close> tests the name first, so the excluded provider's state is not
  read and not changed.
\<close>

definition failoverOrder ::
  "(string \<Rightarrow> string \<Rightarrow> int) \<Rightarrow> string \<Rightarrow> timestamp \<Rightarrow> failover \<Rightarrow> string list \<times> failover" where
  "failoverOrder lc exclude nowMs s =
     (let s' = s\<lparr>fo_providers := map (\<lambda>(k, p). (k, if ps_name p \<noteq> exclude
                                                  then effectiveState (fo_cfg s) nowMs p else p)) (fo_providers s)\<rparr>;
          cs = filter (\<lambda>p. ps_name p \<noteq> exclude \<and> ps_state p \<noteq> PC_OPEN) (Map_values (fo_providers s'))
      in (map ps_name (sort_by (provider_cmp lc) cs), s'))"

definition acquire :: "string \<Rightarrow> failover \<Rightarrow> failover" where
  "acquire name s = s\<lparr>fo_providers := Map_upd name (\<lambda>p. p\<lparr>ps_inFlight := ps_inFlight p + 1\<rparr>) (fo_providers s)\<rparr>"

definition release_load :: "provider_state \<Rightarrow> provider_state" where
  "release_load p = (if ps_inFlight p > 0 then p\<lparr>ps_inFlight := ps_inFlight p - 1\<rparr> else p)"

definition release :: "string \<Rightarrow> failover \<Rightarrow> failover" where
  "release name s = s\<lparr>fo_providers := Map_upd name release_load (fo_providers s)\<rparr>"

definition recordSuccess :: "string \<Rightarrow> failover \<Rightarrow> failover" where
  "recordSuccess name s =
     s\<lparr>fo_providers := Map_upd name
         (\<lambda>p. release_load (p\<lparr>ps_consecutiveFailures := 0, ps_state := PC_CLOSED\<rparr>)) (fo_providers s)\<rparr>"

definition failed :: "breaker_config \<Rightarrow> timestamp \<Rightarrow> provider_state \<Rightarrow> provider_state" where
  "failed cfg nowMs p0 =
     (let p = release_load p0
      in if ps_state p = PC_HALF_OPEN then p\<lparr>ps_state := PC_OPEN, ps_openedAtMs := nowMs\<rparr>
         else (let q = p\<lparr>ps_consecutiveFailures := ps_consecutiveFailures p + 1\<rparr>
               in if ps_consecutiveFailures q \<ge> bc_failureThreshold cfg
                  then q\<lparr>ps_state := PC_OPEN, ps_openedAtMs := nowMs\<rparr> else q))"

definition recordFailure :: "string \<Rightarrow> timestamp \<Rightarrow> failover \<Rightarrow> failover" where
  "recordFailure name nowMs s = s\<lparr>fo_providers := Map_upd name (failed (fo_cfg s) nowMs) (fo_providers s)\<rparr>"

record provider_metrics =
  pm_state :: provider_circuit
  pm_available :: bool
  pm_inFlight :: int
  pm_consecutiveFailures :: int

definition metrics_fo :: "timestamp \<Rightarrow> failover \<Rightarrow> (string, provider_metrics) js_map \<times> failover" where
  "metrics_fo nowMs s =
     (foldl (\<lambda>out p. Map_set (ps_name p)
          \<lparr>pm_state = ps_state p, pm_available = (ps_state p \<noteq> PC_OPEN), pm_inFlight = ps_inFlight p,
           pm_consecutiveFailures = ps_consecutiveFailures p\<rparr> out) []
        (Map_values (fo_providers (refresh nowMs s))),
      refresh nowMs s)"

datatype fo_call =
    IsAvailable string timestamp
  | Refresh timestamp
  | FailoverOrder string timestamp
  | Acquire string
  | Release string
  | RecordSuccess string
  | RecordFailure string timestamp

fun failover_step :: "failover \<Rightarrow> fo_call \<Rightarrow> failover" where
  "failover_step s (IsAvailable n t) = snd (isAvailable n t s)"
| "failover_step s (Refresh t) = refresh t s"
| "failover_step s (FailoverOrder n t) = snd (failoverOrder (\<lambda>_ _. 0) n t s)"
| "failover_step s (Acquire n) = acquire n s"
| "failover_step s (Release n) = release n s"
| "failover_step s (RecordSuccess n) = recordSuccess n s"
| "failover_step s (RecordFailure n t) = recordFailure n t s"

section \<open>Specification\<close>

text \<open>Keys are unique, a provider is stored under its own name, and no load is negative.\<close>

definition fo_inv :: "failover \<Rightarrow> bool" where
  "fo_inv s \<longleftrightarrow> Map_wf (fo_providers s) \<and>
     (\<forall>k p. Map_get k (fo_providers s) = Some p \<longrightarrow> ps_name p = k \<and> ps_inFlight p \<ge> 0)"

text \<open>A provider may take traffic at a time: it is not open, or its cooldown is over.\<close>

definition may_serve :: "failover \<Rightarrow> timestamp \<Rightarrow> string \<Rightarrow> bool" where
  "may_serve s nowMs name =
     (case Map_get name (fo_providers s) of
        None \<Rightarrow> False
      | Some p \<Rightarrow> ps_state p \<noteq> PC_OPEN \<or> nowMs - ps_openedAtMs p \<ge> bc_cooldownMs (fo_cfg s))"

definition load_of :: "failover \<Rightarrow> string \<Rightarrow> int" where
  "load_of s name = (case Map_get name (fo_providers s) of None \<Rightarrow> 0 | Some p \<Rightarrow> ps_inFlight p)"

text \<open>What the selection relies on of \<open>localeCompare\<close>: it compares names consistently.\<close>

locale name_order =
  fixes lc :: "string \<Rightarrow> string \<Rightarrow> int"
  assumes lc_total: "lc x y > 0 \<Longrightarrow> lc y x \<le> 0"
    and lc_trans: "lc x y \<le> 0 \<Longrightarrow> lc y z \<le> 0 \<Longrightarrow> lc x z \<le> 0"

text \<open>
  The calls that concern the breaker of one provider between two state changes: failures and
  load changes. One failure is counted per call.
\<close>

fun load_call :: "fo_call \<Rightarrow> bool" where
  "load_call (RecordFailure _ _) = True"
| "load_call (Acquire _) = True"
| "load_call (Release _) = True"
| "load_call _ = False"

fun call_name :: "fo_call \<Rightarrow> string" where
  "call_name (RecordFailure n _) = n"
| "call_name (Acquire n) = n"
| "call_name (Release n) = n"
| "call_name (RecordSuccess n) = n"
| "call_name (IsAvailable n _) = n"
| "call_name (FailoverOrder n _) = n"
| "call_name (Refresh _) = []"

fun provider_failure :: "fo_call \<Rightarrow> bool" where
  "provider_failure (RecordFailure _ _) = True"
| "provider_failure _ = False"

fun provider_step :: "breaker_config \<Rightarrow> provider_state \<Rightarrow> fo_call \<Rightarrow> provider_state" where
  "provider_step cfg p (RecordFailure _ t) = failed cfg t p"
| "provider_step cfg p (Acquire _) = p\<lparr>ps_inFlight := ps_inFlight p + 1\<rparr>"
| "provider_step cfg p (Release _) = release_load p"
| "provider_step cfg p (RecordSuccess _) = release_load (p\<lparr>ps_consecutiveFailures := 0, ps_state := PC_CLOSED\<rparr>)"
| "provider_step cfg p (IsAvailable _ t) = effectiveState cfg t p"
| "provider_step cfg p (Refresh t) = effectiveState cfg t p"
| "provider_step cfg p (FailoverOrder _ t) = effectiveState cfg t p"

section \<open>The selection order\<close>

sublocale name_order \<subseteq> po: comparator "provider_cmp lc"
proof
  show "provider_cmp lc x y > 0 \<Longrightarrow> provider_cmp lc y x \<le> 0" for x y
    using lc_total [of "ps_name x" "ps_name y"] by (auto simp: provider_cmp_def or_else_def split: if_splits)
  show "provider_cmp lc x y \<le> 0 \<Longrightarrow> provider_cmp lc y z \<le> 0 \<Longrightarrow> provider_cmp lc x z \<le> 0" for x y z
    using lc_trans [of "ps_name x" "ps_name y" "ps_name z"]
    by (auto simp: provider_cmp_def or_else_def split: if_splits)
qed

lemma provider_cmp_load: "provider_cmp lc a b \<le> 0 \<Longrightarrow> ps_inFlight a \<le> ps_inFlight b"
  by (auto simp: provider_cmp_def or_else_def split: if_splits)

section \<open>The invariant holds in every history\<close>

lemma effectiveState_simps [simp]:
  "ps_name (effectiveState cfg t p) = ps_name p" "ps_inFlight (effectiveState cfg t p) = ps_inFlight p"
  by (simp_all add: effectiveState_def)

lemma release_load_simps [simp]:
  "ps_name (release_load p) = ps_name p" "ps_state (release_load p) = ps_state p"
  "ps_consecutiveFailures (release_load p) = ps_consecutiveFailures p"
  "ps_inFlight p \<ge> 0 \<Longrightarrow> ps_inFlight (release_load p) \<ge> 0"
  by (simp_all add: release_load_def)

lemma failed_simps [simp]:
  "ps_name (failed cfg t p) = ps_name p" "ps_inFlight p \<ge> 0 \<Longrightarrow> ps_inFlight (failed cfg t p) \<ge> 0"
  by (simp_all add: failed_def Let_def)

lemma fo_inv_upd:
  assumes "fo_inv s" and "\<And>p. ps_name (f p) = ps_name p" and "\<And>p. ps_inFlight p \<ge> 0 \<Longrightarrow> ps_inFlight (f p) \<ge> 0"
  shows "fo_inv (s\<lparr>fo_providers := Map_upd n f (fo_providers s)\<rparr>)"
  using assms unfolding fo_inv_def by auto

lemma Map_wf_map_values: "Map_wf (map (\<lambda>(k, p). (k, f p)) m) = Map_wf m"
  by (simp add: Map_wf_def comp_def case_prod_unfold)

lemma Map_get_map_values: "Map_get k (map (\<lambda>(k, p). (k, f p)) m) = map_option f (Map_get k m)"
  by (simp add: Map_get_def map_of_map)

lemma fo_inv_map:
  assumes "fo_inv s" and "\<And>p. ps_name (f p) = ps_name p" and "\<And>p. ps_inFlight (f p) = ps_inFlight p"
  shows "fo_inv (s\<lparr>fo_providers := map (\<lambda>(k, p). (k, f p)) (fo_providers s)\<rparr>)"
  using assms unfolding fo_inv_def by (auto simp: Map_wf_map_values Map_get_map_values)

lemma isAvailable_upd:
  "snd (isAvailable n t s) = s\<lparr>fo_providers := Map_upd n (effectiveState (fo_cfg s) t) (fo_providers s)\<rparr>"
  by (simp add: isAvailable_def Map_upd_def Let_def split: option.splits)

lemma fo_inv_step: "fo_inv s \<Longrightarrow> fo_inv (failover_step s c)"
  by (cases c) (simp_all add: isAvailable_upd refresh_def failoverOrder_def Let_def acquire_def release_def
      recordSuccess_def recordFailure_def fo_inv_upd fo_inv_map)

interpretation fo: invariant_system failover_step fo_inv
  by unfold_locales (rule fo_inv_step)

lemma fo_inv_init_providers:
  assumes "fo_inv \<lparr>fo_providers = m, fo_cfg = cfg\<rparr>"
  shows "fo_inv \<lparr>fo_providers = init_providers i ps m, fo_cfg = cfg\<rparr>"
  using assms
proof (induction i ps m rule: init_providers.induct)
  case (2 i name priority ps m)
  from 2(2) have "fo_inv \<lparr>fo_providers = Map_set name \<lparr>ps_name = name, ps_priority = nullish priority i,
      ps_consecutiveFailures = 0, ps_state = PC_CLOSED, ps_openedAtMs = 0, ps_inFlight = 0\<rparr> m, fo_cfg = cfg\<rparr>"
    by (auto simp: fo_inv_def)
  then show ?case using 2(1) by simp
qed simp

lemma fo_inv_new: "fo_inv (new_failover ps ft cd)"
  unfolding new_failover_def by (rule fo_inv_init_providers) (simp add: fo_inv_def)

section \<open>One provider's breaker\<close>

interpretation pb: failure_breaker "provider_step cfg" load_call provider_failure "\<lambda>p. ps_state p = PC_CLOSED"
    "\<lambda>p. ps_state p = PC_OPEN \<and> ps_consecutiveFailures p \<ge> bc_failureThreshold cfg"
    ps_consecutiveFailures "\<lambda>_. bc_failureThreshold cfg" for cfg
proof (unfold_locales, goal_cases)
  case (1 s e) then show ?case by (cases e) auto
next
  case (2 s e) then show ?case by (cases e) (auto simp: failed_def Let_def)
next
  case (3 s e) then show ?case by (cases e) (auto simp: failed_def Let_def)
next
  case (5 s e) then show ?case by (cases e) (auto simp: failed_def Let_def)
qed simp

lemma effectiveState_serves:
  "Map_get n (fo_providers s) = Some q \<Longrightarrow>
     ps_state (effectiveState (fo_cfg s) t q) \<noteq> PC_OPEN \<longleftrightarrow> may_serve s t n"
  by (simp add: may_serve_def effectiveState_def)

lemma candidates_iff:
  assumes "fo_inv s"
  shows "p \<in> set (candidates (refresh t s)) \<longleftrightarrow>
     (\<exists>q. Map_get (ps_name p) (fo_providers s) = Some q \<and> p = effectiveState (fo_cfg s) t q \<and> may_serve s t (ps_name p))"
proof -
  have wf: "Map_wf (fo_providers (refresh t s))" and
    names: "\<And>k q. Map_get k (fo_providers s) = Some q \<Longrightarrow> ps_name q = k"
    using assms by (auto simp: fo_inv_def refresh_def Map_wf_map_values)
  have "p \<in> set (candidates (refresh t s)) \<longleftrightarrow>
      (\<exists>k. Map_get k (fo_providers (refresh t s)) = Some p \<and> ps_state p \<noteq> PC_OPEN)"
    by (auto simp: candidates_def set_Map_values [OF wf])
  also have "\<dots> \<longleftrightarrow> (\<exists>q. Map_get (ps_name p) (fo_providers s) = Some q \<and> p = effectiveState (fo_cfg s) t q \<and>
      ps_state p \<noteq> PC_OPEN)"
  proof
    assume "\<exists>k. Map_get k (fo_providers (refresh t s)) = Some p \<and> ps_state p \<noteq> PC_OPEN"
    then obtain k q where q: "Map_get k (fo_providers s) = Some q" "p = effectiveState (fo_cfg s) t q"
        "ps_state p \<noteq> PC_OPEN"
      by (auto simp: refresh_def Map_get_map_values)
    moreover have "ps_name p = k" using names [OF q(1)] q(2) by simp
    ultimately show "\<exists>q. Map_get (ps_name p) (fo_providers s) = Some q \<and> p = effectiveState (fo_cfg s) t q \<and>
        ps_state p \<noteq> PC_OPEN" by blast
  next
    assume "\<exists>q. Map_get (ps_name p) (fo_providers s) = Some q \<and> p = effectiveState (fo_cfg s) t q \<and>
        ps_state p \<noteq> PC_OPEN"
    then show "\<exists>k. Map_get k (fo_providers (refresh t s)) = Some p \<and> ps_state p \<noteq> PC_OPEN"
      by (auto simp: refresh_def Map_get_map_values)
  qed
  also have "\<dots> \<longleftrightarrow> (\<exists>q. Map_get (ps_name p) (fo_providers s) = Some q \<and> p = effectiveState (fo_cfg s) t q \<and>
      may_serve s t (ps_name p))"
    using effectiveState_serves [of "ps_name p" s _ t] by blast
  finally show ?thesis .
qed

context name_order
begin

lemma select_available:
  assumes "fo_inv s" and "fst (select lc t s) = Some n"
  shows "may_serve s t n \<and> (may_serve s t m \<longrightarrow> load_of s n \<le> load_of s m)"
proof -
  obtain p ps where srt: "sort_by (provider_cmp lc) (candidates (refresh t s)) = p # ps" and n: "n = ps_name p"
    using assms(2) by (auto simp: select_def split: list.splits)
  have p: "p \<in> set (candidates (refresh t s))" by (rule po.sort_by_first(1) [OF srt])
  then have pl: "load_of s n = ps_inFlight p" and "may_serve s t n"
    by (auto simp: candidates_iff [OF assms(1)] n load_of_def)
  moreover have "load_of s n \<le> load_of s m" if m: "may_serve s t m"
  proof -
    obtain q where q: "Map_get m (fo_providers s) = Some q" using m by (auto simp: may_serve_def split: option.splits)
    then have nm: "ps_name q = m" using assms(1) by (simp add: fo_inv_def)
    let ?q = "effectiveState (fo_cfg s) t q"
    have "?q \<in> set (candidates (refresh t s))" using q m nm by (auto simp: candidates_iff [OF assms(1)])
    then have "?q = p \<or> provider_cmp lc p ?q \<le> 0" using po.sort_by_first(2) [OF srt] by blast
    then show ?thesis using provider_cmp_load [of lc p ?q] pl q by (auto simp: load_of_def)
  qed
  ultimately show ?thesis by blast
qed

lemma select_none:
  assumes "fo_inv s"
  shows "fst (select lc t s) = None \<longleftrightarrow> (\<forall>m. \<not> may_serve s t m)"
proof -
  have "fst (select lc t s) = None \<longleftrightarrow> set (candidates (refresh t s)) = {}"
    using po.length_sort_by [of "candidates (refresh t s)"] by (auto simp: select_def split: list.splits)
  also have "\<dots> \<longleftrightarrow> (\<forall>m. \<not> may_serve s t m)"
  proof
    assume none: "set (candidates (refresh t s)) = {}"
    show "\<forall>m. \<not> may_serve s t m"
    proof (intro allI notI)
      fix m assume m: "may_serve s t m"
      then obtain q where "Map_get m (fo_providers s) = Some q" by (auto simp: may_serve_def split: option.splits)
      with m none assms show False
        using candidates_iff [OF assms, of "effectiveState (fo_cfg s) t q" t] by (auto simp: fo_inv_def)
    qed
  next
    assume "\<forall>m. \<not> may_serve s t m"
    then show "set (candidates (refresh t s)) = {}"
      unfolding set_eq_iff candidates_iff [OF assms] by simp
  qed
  finally show ?thesis .
qed

end

interpretation cu_names: name_order code_unit_compare
  by unfold_locales (fact cu.cmp_total, fact cu.cmp_trans)

lemma failover_step_load_get:
  "load_call c \<Longrightarrow> Map_get n (fo_providers (failover_step s c)) =
     (if call_name c = n then map_option (\<lambda>p. provider_step (fo_cfg s) p c) (Map_get n (fo_providers s))
      else Map_get n (fo_providers s)) \<and> fo_cfg (failover_step s c) = fo_cfg s"
  by (cases c) (auto simp: acquire_def release_def recordFailure_def)

lemma failover_run_load_get:
  "list_all load_call cs \<Longrightarrow> Map_get n (fo_providers s) = Some p \<Longrightarrow>
     Map_get n (fo_providers (run failover_step s cs)) =
       Some (run (provider_step (fo_cfg s)) p (filter (\<lambda>c. call_name c = n) cs))"
proof (induction cs arbitrary: s p)
  case (Cons c cs)
  then show ?case
    using failover_step_load_get [of c n s] by (cases "call_name c = n") simp_all
qed simp

section \<open>Properties\<close>

text \<open>
  In every state a history of calls can reach, \<open>select\<close> returns a provider whose breaker
  lets it serve (closed, half-open, or open with the cooldown over) and that carries no more
  load than any other such provider; it returns nothing exactly when no provider may serve.
\<close>

theorem select_least_loaded_available:
  assumes "name_order lc"
  shows "let s = run failover_step (new_failover ps ft cd) cs
         in case fst (select lc t s) of
              None \<Rightarrow> \<forall>m. \<not> may_serve s t m
            | Some n \<Rightarrow> may_serve s t n \<and> (\<forall>m. may_serve s t m \<longrightarrow> load_of s n \<le> load_of s m)"
proof -
  have inv: "fo_inv (run failover_step (new_failover ps ft cd) cs)"
    by (rule fo.run_inv [OF fo_inv_new])
  show ?thesis
    using name_order.select_available [OF assms inv, of t] name_order.select_none [OF assms inv, of t]
    by (simp add: Let_def split: option.splits)
qed

theorem select_least_loaded_available_witness:
  "let s = run failover_step (new_failover [(''openai'', None), (''grok'', None)] None None) [Acquire ''openai'']
   in may_serve s 7 ''grok'' \<and> (\<forall>m. may_serve s 7 m \<longrightarrow> load_of s ''grok'' \<le> load_of s m)"
proof -
  let ?s = "run failover_step (new_failover [(''openai'', None), (''grok'', None)] None None) [Acquire ''openai'']"
  have sel: "fst (select code_unit_compare 7 ?s) = Some ''grok''" by code_simp
  show ?thesis
    using select_least_loaded_available [OF cu_names.name_order_axioms,
        of "[(''openai'', None), (''grok'', None)]" None None "[Acquire ''openai'']" 7]
    unfolding Let_def sel option.case .
qed

text \<open>
  A closed provider opens exactly when its consecutive failures reach the threshold,
  through any mix of failures and load changes of all providers.
\<close>

theorem provider_trips_exactly_at_threshold:
  assumes "Map_get n (fo_providers s) = Some p" and "ps_state p = PC_CLOSED"
    and "ps_consecutiveFailures p < bc_failureThreshold (fo_cfg s)" and "list_all load_call cs"
  shows "\<exists>q. Map_get n (fo_providers (run failover_step s cs)) = Some q \<and>
     ps_state q = (if ps_consecutiveFailures p + failures provider_failure (filter (\<lambda>c. call_name c = n) cs)
                      < bc_failureThreshold (fo_cfg s) then PC_CLOSED else PC_OPEN)"
proof -
  have "list_all load_call (filter (\<lambda>c. call_name c = n) cs)" using assms(4) by (auto simp: list_all_iff)
  from pb.trips_exactly_at_threshold [OF assms(2,3) this] show ?thesis
    by (simp add: failover_run_load_get [OF assms(4,1)] split: if_splits)
qed

theorem provider_trips_exactly_at_threshold_witness:
  "let s = new_failover [(''openai'', None), (''grok'', None)] (Some 2) None;
       cs = [RecordFailure ''openai'' 5, Acquire ''openai'', RecordFailure ''grok'' 6, RecordFailure ''openai'' 7]
   in \<exists>q. Map_get ''openai'' (fo_providers (run failover_step s cs)) = Some q \<and> ps_state q = PC_OPEN"
proof -
  let ?s = "new_failover [(''openai'', None), (''grok'', None)] (Some 2) None"
  let ?cs = "[RecordFailure ''openai'' 5, Acquire ''openai'', RecordFailure ''grok'' 6, RecordFailure ''openai'' 7]"
  let ?p = "\<lparr>ps_name = ''openai'', ps_priority = 0, ps_consecutiveFailures = 0, ps_state = PC_CLOSED,
      ps_openedAtMs = 0, ps_inFlight = 0\<rparr>"
  have "Map_get ''openai'' (fo_providers ?s) = Some ?p" "ps_state ?p = PC_CLOSED"
    "ps_consecutiveFailures ?p < bc_failureThreshold (fo_cfg ?s)" "list_all load_call ?cs"
    by (simp_all add: new_failover_def)
  from provider_trips_exactly_at_threshold [OF this] show ?thesis
    by (simp add: new_failover_def failures_def del: run_Cons)
qed

end
