(* ===== verification/Limiter.thy ===== *)
theory Limiter
  imports Js_Prelude
begin

text \<open>
  The two contracts of a rate limiter, as locales over a step function that answers whether a
  request is admitted: a window limiter keeps the admission times of the last \<open>W\<close>
  milliseconds, a bucket limiter keeps a level that refills at a rate. The bounds on how many
  requests of one caller are admitted are proved here once; the memory limiter, the Redis
  scripts and the quota guard are interpretations.
\<close>

text \<open>The times at which a history of requests admits those of one caller.\<close>

fun admissions ::
  "('s \<Rightarrow> 'e \<Rightarrow> bool \<times> 's) \<Rightarrow> ('s \<Rightarrow> 'e \<Rightarrow> bool) \<Rightarrow> ('e \<Rightarrow> rat) \<Rightarrow> 's \<Rightarrow> 'e list \<Rightarrow> rat list" where
  "admissions step mine time s [] = []"
| "admissions step mine time s (e # es) =
     (let (ok, s') = step s e
      in (if ok \<and> mine s e then [time e] else []) @ admissions step mine time s' es)"

text \<open>The state after a history of requests.\<close>

definition after :: "('s \<Rightarrow> 'e \<Rightarrow> bool \<times> 's) \<Rightarrow> 's \<Rightarrow> 'e list \<Rightarrow> 's" where
  "after step s es = run (\<lambda>s e. snd (step s e)) s es"

definition in_window :: "rat \<Rightarrow> rat \<Rightarrow> rat list \<Rightarrow> rat list" where
  "in_window W t us = filter (\<lambda>u. t - W < u \<and> u \<le> t) us"

lemma after_simps [simp]: "after step s [] = s" "after step s (e # es) = after step (snd (step s e)) es"
  by (simp_all add: after_def)

lemma in_window_append [simp]: "in_window W t (us @ vs) = in_window W t us @ in_window W t vs"
  by (simp add: in_window_def)

lemma in_window_Nil [simp]: "in_window W t [] = []"
  by (simp add: in_window_def)

lemma in_window_later: "(\<And>u. u \<in> set us \<Longrightarrow> t < u) \<Longrightarrow> in_window W t us = []"
  unfolding in_window_def filter_empty_conv by (meson leD)

lemma in_window_live: "T \<le> t \<Longrightarrow> in_window W t (filter (\<lambda>u. T - W < u) us) = in_window W t us"
  by (auto simp: in_window_def intro: filter_cong)

lemma length_in_window: "length (in_window W t us) \<le> length us"
  by (simp add: in_window_def)

lemma length_filter_mono: "(\<And>u. P u \<Longrightarrow> Q u) \<Longrightarrow> length (filter P us) \<le> length (filter Q us)"
  by (induction us) auto

lemma admissions_times: "u \<in> set (admissions step mine time s es) \<Longrightarrow> u \<in> time ` set es"
  by (induction es arbitrary: s) (auto split: prod.splits if_splits)

section \<open>Window limiters\<close>

locale window_limiter =
  fixes step :: "'s \<Rightarrow> 'e \<Rightarrow> bool \<times> 's"
    and legal :: "'e \<Rightarrow> bool"
    and mine :: "'s \<Rightarrow> 'e \<Rightarrow> bool"
    and time :: "'e \<Rightarrow> rat"
    and entries :: "'s \<Rightarrow> rat list"
    and W :: rat
    and cap :: nat
  assumes admit_iff: "legal e \<Longrightarrow> mine s e \<Longrightarrow>
      fst (step s e) \<longleftrightarrow> length (filter (\<lambda>u. time e - W < u) (entries s)) < cap"
    and entries_step: "legal e \<Longrightarrow> mine s e \<Longrightarrow>
      entries (snd (step s e)) = filter (\<lambda>u. time e - W < u) (entries s) @ (if fst (step s e) then [time e] else [])"
    and entries_frame: "legal e \<Longrightarrow> \<not> mine s e \<Longrightarrow> entries (snd (step s e)) = entries s"
begin

lemma window_bound_from:
  assumes "list_all legal es" and "sorted (map time es)" and "\<And>u e. u \<in> set (entries s) \<Longrightarrow> e \<in> set es \<Longrightarrow> u \<le> time e"
    and "length (entries s) \<le> cap"
  shows "length (in_window W t (entries s @ admissions step mine time s es)) \<le> cap"
  using assms
proof (induction es arbitrary: s)
  case Nil
  then show ?case using length_in_window [of W t "entries s"] by simp
next
  case (Cons e es)
  obtain ok s' where st: "step s e = (ok, s')" by force
  let ?live = "filter (\<lambda>u. time e - W < u) (entries s)"
  have legal: "legal e" "list_all legal es" and srt: "sorted (map time es)" using Cons.prems(1,2) by auto
  have later: "time e \<le> u" if "u \<in> set (admissions step mine time s' es)" for u
    using admissions_times [OF that] Cons.prems(2) by auto
  show ?case
  proof (cases "mine s e")
    case False
    then have "entries s' = entries s" using entries_frame [OF legal(1) False] st by simp
    moreover have "\<And>u x. u \<in> set (entries s) \<Longrightarrow> x \<in> set es \<Longrightarrow> u \<le> time x" using Cons.prems(3) by simp
    ultimately show ?thesis
      using Cons.IH [of s'] legal(2) srt Cons.prems(4) st False by simp
  next
    case True
    have es': "entries s' = ?live @ (if ok then [time e] else [])" and ok: "ok \<longleftrightarrow> length ?live < cap"
      using entries_step [OF legal(1) True] admit_iff [OF legal(1) True] st by auto
    have "\<And>u x. u \<in> set (entries s') \<Longrightarrow> x \<in> set es \<Longrightarrow> u \<le> time x"
      using Cons.prems(2,3) es' by (auto split: if_splits)
    moreover have "length (entries s') \<le> cap"
    proof (cases ok)
      case False
      have "length ?live \<le> cap" using length_filter_le Cons.prems(4) by (rule le_trans)
      with False es' show ?thesis by simp
    qed (use es' ok in simp)
    ultimately have ih: "length (in_window W t (entries s' @ admissions step mine time s' es)) \<le> cap"
      using Cons.IH legal(2) srt by blast
    show ?thesis
    proof (cases "time e \<le> t")
      case True
      then show ?thesis
        using ih \<open>mine s e\<close> st es' in_window_live [OF True, of W "entries s"] by (cases ok) simp_all
    next
      case False
      then have "in_window W t ((if ok then [time e] else []) @ admissions step mine time s' es) = []"
        using later by (intro in_window_later) (fastforce split: if_splits)
      then show ?thesis
        using \<open>mine s e\<close> st Cons.prems(4) length_in_window [of W t "entries s"] by (cases ok) simp_all
    qed
  qed
qed

lemma entries_after:
  "list_all legal es \<Longrightarrow> length (entries s) \<le> cap \<Longrightarrow> length (entries (after step s es)) \<le> cap"
proof (induction es arbitrary: s)
  case (Cons e es)
  have "length (entries (snd (step s e))) \<le> cap"
  proof (cases "mine s e")
    case True
    have "length (filter (\<lambda>u. time e - W < u) (entries s)) \<le> cap"
      using length_filter_le Cons.prems(2) by (rule le_trans)
    then show ?thesis using entries_step [of e s] admit_iff [of e s] True Cons.prems(1) by auto
  next
    case False
    then show ?thesis using entries_frame [of e s] Cons.prems by simp
  qed
  then show ?case using Cons by simp
qed simp

text \<open>A refused caller is admitted again once the oldest entry has left the window.\<close>

lemma admitted_after_oldest:
  assumes "legal d" and "mine s d" and "legal e" and "mine (snd (step s d)) e" and "length (entries s) \<le> cap" and "0 < cap"
    and "\<not> fst (step s d)" and "filter (\<lambda>u. time d - W < u) (entries s) = u # us" and "u + W \<le> time e"
  shows "fst (step (snd (step s d)) e)"
proof -
  have "entries (snd (step s d)) = u # us" using entries_step [OF assms(1,2)] assms(7,8) by simp
  moreover have "length (u # us) \<le> cap"
    using length_filter_le [of "\<lambda>u. time d - W < u" "entries s"] assms(5,8) by simp
  moreover have "length (filter (\<lambda>u. time e - W < u) us) < Suc (length us)"
    by (simp add: less_Suc_eq_le)
  ultimately show ?thesis
    using admit_iff [OF assms(3,4)] assms(9) by simp
qed

text \<open>At every instant at most \<open>cap\<close> requests were admitted in the window that ends there.\<close>

lemma window_bound:
  "list_all legal es \<Longrightarrow> sorted (map time es) \<Longrightarrow> entries s = [] \<Longrightarrow>
     length (in_window W t (admissions step mine time s es)) \<le> cap"
  using window_bound_from [of es s t] by simp

end

section \<open>Bucket limiters\<close>

locale bucket_limiter =
  fixes step :: "'s \<Rightarrow> 'e \<Rightarrow> bool \<times> 's"
    and legal :: "'e \<Rightarrow> bool"
    and mine :: "'s \<Rightarrow> 'e \<Rightarrow> bool"
    and time :: "'e \<Rightarrow> rat"
    and level stamp :: "'s \<Rightarrow> rat"
    and known :: "'s \<Rightarrow> bool"
    and B rate :: rat
  assumes admit_level: "legal e \<Longrightarrow> mine s e \<Longrightarrow> known s \<Longrightarrow>
      fst (step s e) \<longleftrightarrow> 1 \<le> min B (level s + (time e - stamp s) * rate)"
    and level_step: "legal e \<Longrightarrow> mine s e \<Longrightarrow> known s \<Longrightarrow>
      level (snd (step s e)) = min B (level s + (time e - stamp s) * rate) - (if fst (step s e) then 1 else 0)"
    and first_request: "legal e \<Longrightarrow> mine s e \<Longrightarrow> \<not> known s \<Longrightarrow>
      (fst (step s e) \<longleftrightarrow> 1 \<le> B) \<and> level (snd (step s e)) = B - (if fst (step s e) then 1 else 0)"
    and stamp_step: "legal e \<Longrightarrow> mine s e \<Longrightarrow> stamp (snd (step s e)) = time e \<and> known (snd (step s e))"
    and bucket_frame: "legal e \<Longrightarrow> \<not> mine s e \<Longrightarrow> known (snd (step s e)) = known s \<and>
      level (snd (step s e)) = level s \<and> stamp (snd (step s e)) = stamp s"
begin

text \<open>From a known level the admissions up to time \<open>T\<close> are at most the level and the refill.\<close>

lemma bucket_bound_from:
  assumes rate_nonneg: "0 \<le> rate" and B_nonneg: "0 \<le> B"
    and "known s" and "list_all legal es" and "sorted (stamp s # map time es)" and "\<And>e. e \<in> set es \<Longrightarrow> time e \<le> T"
    and "stamp s \<le> T" and "0 \<le> level s"
  shows "of_nat (length (admissions step mine time s es)) \<le> level s + (T - stamp s) * rate"
  using assms(3-)
proof (induction es arbitrary: s)
  case Nil
  then show ?case using rate_nonneg by simp
next
  case (Cons e es)
  obtain ok s' where st: "step s e = (ok, s')" by force
  have legal: "legal e" "list_all legal es" using Cons.prems(2) by auto
  show ?case
  proof (cases "mine s e")
    case False
    then have "known s' \<and> level s' = level s \<and> stamp s' = stamp s"
      using bucket_frame [OF legal(1) False] st Cons.prems(1) by simp
    then show ?thesis using Cons.IH [of s'] Cons.prems legal(2) st False by simp
  next
    case True
    let ?lv = "min B (level s + (time e - stamp s) * rate)"
    have lv: "level s' = ?lv - (if ok then 1 else 0)" and ok: "ok \<longleftrightarrow> 1 \<le> ?lv"
      and s': "stamp s' = time e" "known s'"
      using level_step [OF legal(1) True Cons.prems(1)] admit_level [OF legal(1) True Cons.prems(1)]
        stamp_step [OF legal(1) True] st by auto
    have "0 \<le> (time e - stamp s) * rate" using Cons.prems(3) rate_nonneg by simp
    then have "0 \<le> ?lv" using Cons.prems(6) B_nonneg by simp
    then have nonneg: "0 \<le> level s'" using lv ok by auto
    have "of_nat (length (admissions step mine time s' es)) \<le> level s' + (T - time e) * rate"
      using Cons.IH [of s'] Cons.prems(3,4) legal(2) s' nonneg by auto
    then have "of_nat (length (admissions step mine time s (e # es))) \<le> ?lv + (T - time e) * rate"
      using True st lv by (cases ok) simp_all
    also have "\<dots> \<le> level s + (T - stamp s) * rate"
      by (simp add: algebra_simps min.coboundedI2)
    finally show ?thesis .
  qed
qed

lemma level_after:
  assumes "0 \<le> rate" and "0 \<le> B" and "list_all legal es" and "sorted (map time es)" and "\<And>e. e \<in> set es \<Longrightarrow> time e \<le> T"
    and "known s \<Longrightarrow> 0 \<le> level s \<and> stamp s \<le> T \<and> (\<forall>e \<in> set es. stamp s \<le> time e)"
  shows "known (after step s es) \<longrightarrow> 0 \<le> level (after step s es) \<and> stamp (after step s es) \<le> T"
  using assms(3-)
proof (induction es arbitrary: s)
  case (Cons e es)
  let ?s = "snd (step s e)"
  have legal: "legal e" using Cons.prems(1) by simp
  have "0 \<le> level ?s \<and> stamp ?s \<le> T \<and> (\<forall>x \<in> set es. stamp ?s \<le> time x)" if "known ?s"
  proof (cases "mine s e")
    case False
    then show ?thesis using bucket_frame [OF legal False] Cons.prems(4) that by simp
  next
    case True
    have "0 \<le> level ?s"
    proof (cases "known s")
      case k: True
      then have "0 \<le> (time e - stamp s) * rate" using Cons.prems(4) assms(1) by simp
      then show ?thesis
        using level_step [OF legal True k] admit_level [OF legal True k] Cons.prems(4) k assms(2) by auto
    next
      case False
      then show ?thesis using first_request [OF legal True False] assms(2) by auto
    qed
    then show ?thesis using stamp_step [OF legal True] Cons.prems(2,3) by simp
  qed
  then show ?case using Cons.IH [of ?s] Cons.prems by simp
qed simp

text \<open>
  From any such state: never more than a full bucket and what refills between the bounds of
  the stretch.
\<close>

lemma bucket_bound:
  assumes rate_nonneg: "0 \<le> rate" and B_nonneg: "0 \<le> B"
    and "list_all legal es" and "sorted (T0 # map time es)" and "\<And>e. e \<in> set es \<Longrightarrow> time e \<le> T" and "T0 \<le> T"
    and "known s \<Longrightarrow> 0 \<le> level s \<and> stamp s \<le> T0"
  shows "of_nat (length (admissions step mine time s es)) \<le> B + (T - T0) * rate"
  using assms(3-)
proof (induction es arbitrary: s)
  case Nil
  then show ?case using rate_nonneg B_nonneg by simp
next
  case (Cons e es)
  obtain ok s' where st: "step s e = (ok, s')" by force
  have legal: "legal e" "list_all legal es" using Cons.prems(1) by auto
  show ?case
  proof (cases "mine s e")
    case False
    then show ?thesis using Cons.IH [of s'] Cons.prems legal(2) st bucket_frame [OF legal(1) False] by simp
  next
    case True
    have s': "stamp s' = time e" "known s'" using stamp_step [OF legal(1) True] st by auto
    have lv: "level s' \<le> B - (if ok then 1 else 0)"
      using first_request [OF legal(1) True] level_step [OF legal(1) True] st by (cases "known s") simp_all
    have "0 \<le> level s'"
      using level_after [of "[e]" "time e" s, OF rate_nonneg B_nonneg] legal(1) Cons.prems(2,5) st s'(2) by fastforce
    then have "of_nat (length (admissions step mine time s' es)) \<le> level s' + (T - time e) * rate"
      using bucket_bound_from [of s' es T, OF rate_nonneg B_nonneg] Cons.prems(2,3) legal(2) s' by auto
    moreover have "(T - time e) * rate \<le> (T - T0) * rate"
      using Cons.prems(2) rate_nonneg by (intro mult_right_mono) auto
    ultimately show ?thesis using True st lv by (cases ok) simp_all
  qed
qed

text \<open>A refused caller is admitted again once the missing part of a token has refilled.\<close>

lemma admitted_after_refill:
  assumes "legal d" and "mine s d" and "legal e" and "mine (snd (step s d)) e" and "0 < rate" and "1 \<le> B"
    and "\<not> fst (step s d)" and "time d + (1 - level (snd (step s d))) / rate \<le> time e"
  shows "fst (step (snd (step s d)) e)"
proof -
  let ?s = "snd (step s d)"
  have "known ?s" "stamp ?s = time d" using stamp_step [OF assms(1,2)] by auto
  moreover have "1 \<le> level ?s + (time e - time d) * rate"
    using assms(5,8) by (simp add: field_simps)
  ultimately show ?thesis using admit_level [OF assms(3,4)] assms(6) by simp
qed

end

section \<open>Fixed-window limiters\<close>

text \<open>
  A fixed-window limiter counts the requests since the window was opened and opens a new
  window with the first request at or after its end. A window that has ended may be dropped.
\<close>

locale fixed_window_limiter =
  fixes step :: "'s \<Rightarrow> 'e \<Rightarrow> bool \<times> 's"
    and legal :: "'e \<Rightarrow> bool"
    and mine :: "'s \<Rightarrow> 'e \<Rightarrow> bool"
    and time :: "'e \<Rightarrow> rat"
    and ok_state :: "'s \<Rightarrow> bool"
    and cur :: "'s \<Rightarrow> (nat \<times> rat) option"
    and W :: rat
    and cap :: nat
  assumes ok_step: "legal e \<Longrightarrow> ok_state s \<Longrightarrow> ok_state (snd (step s e))"
    and count_on: "legal e \<Longrightarrow> ok_state s \<Longrightarrow> mine s e \<Longrightarrow> cur s = Some (c, R) \<Longrightarrow> time e < R \<Longrightarrow>
      (fst (step s e) \<longleftrightarrow> Suc c \<le> cap) \<and> cur (snd (step s e)) = Some (Suc c, R)"
    and open_new: "legal e \<Longrightarrow> ok_state s \<Longrightarrow> mine s e \<Longrightarrow> (\<And>c R. cur s = Some (c, R) \<Longrightarrow> R \<le> time e) \<Longrightarrow>
      (fst (step s e) \<longleftrightarrow> Suc 0 \<le> cap) \<and> cur (snd (step s e)) = Some (Suc 0, time e + W)"
    and others: "legal e \<Longrightarrow> ok_state s \<Longrightarrow> \<not> mine s e \<Longrightarrow> cur (snd (step s e)) = cur s \<or>
      cur (snd (step s e)) = None \<and> (\<forall>c R. cur s = Some (c, R) \<longrightarrow> R \<le> time e)"
begin

text \<open>The open window of a state, known or already dropped because it had ended by \<open>T\<close>.\<close>

definition stands :: "'s \<Rightarrow> nat \<Rightarrow> rat \<Rightarrow> rat \<Rightarrow> bool" where
  "stands s c R T \<longleftrightarrow> ok_state s \<and> (cur s = Some (c, R) \<or> cur s = None \<and> R \<le> T)"

text \<open>What one request does to the open window.\<close>

lemma window_cases:
  assumes "legal e" and "stands s c R T" and "T \<le> time e"
  obtains (other) "\<not> mine s e" "stands (snd (step s e)) c R (time e)"
    | (same) "mine s e" "time e < R" "fst (step s e) \<longleftrightarrow> Suc c \<le> cap" "stands (snd (step s e)) (Suc c) R (time e)"
    | (fresh) "mine s e" "R \<le> time e" "fst (step s e) \<longleftrightarrow> Suc 0 \<le> cap"
        "stands (snd (step s e)) (Suc 0) (time e + W) (time e)"
proof -
  have ok: "ok_state s" using assms(2) by (simp add: stands_def)
  note next_ok = ok_step [OF assms(1) ok]
  show thesis
  proof (cases "mine s e")
    case False
    then show ?thesis using other others [OF assms(1) ok False] next_ok assms(2,3) by (auto simp: stands_def)
  next
    case True
    show ?thesis
    proof (cases "time e < R")
      case lt: True
      then have "cur s = Some (c, R)" using assms(2,3) by (auto simp: stands_def)
      then show ?thesis using same count_on [OF assms(1) ok True _ lt] next_ok lt True by (auto simp: stands_def)
    next
      case False
      then have "\<And>c R. cur s = Some (c, R) \<Longrightarrow> R \<le> time e" using assms(2) by (auto simp: stands_def)
      then show ?thesis using fresh open_new [OF assms(1) ok True] next_ok False True by (auto simp: stands_def)
    qed
  qed
qed

lemma rest_of_window:
  "list_all legal es \<Longrightarrow> sorted (T # map time es) \<Longrightarrow> stands s c R T \<Longrightarrow>
     length (filter (\<lambda>u. u < R) (admissions step mine time s es)) \<le> cap - c"
proof (induction es arbitrary: s c T)
  case (Cons e es)
  obtain ok s' where st: "step s e = (ok, s')" by force
  have legal: "legal e" "list_all legal es" and srt: "sorted (time e # map time es)" and T: "T \<le> time e"
    using Cons.prems by auto
  from legal(1) Cons.prems(3) T show ?case
  proof (cases rule: window_cases)
    case other
    then show ?thesis using Cons.IH [OF legal(2) srt, of s' c] st by simp
  next
    case same
    then show ?thesis using Cons.IH [OF legal(2) srt, of s' "Suc c"] st by (cases ok) auto
  next
    case fresh
    have "R \<le> u" if "u \<in> set (admissions step mine time s (e # es))" for u
    proof -
      have "u \<in> time ` set (e # es)" using that by (rule admissions_times)
      then have "time e \<le> u" using srt by auto
      then show ?thesis using fresh(2) by simp
    qed
    then have "filter (\<lambda>u. u < R) (admissions step mine time s (e # es)) = []" by (fastforce simp: filter_empty_conv)
    then show ?thesis by simp
  qed
qed simp

text \<open>
  The requests admitted before, in the open window, and those to come: at every instant at
  most twice the limit lie in the time span of one window.
\<close>

lemma span_bound_from:
  "list_all legal es \<Longrightarrow> sorted (T # map time es) \<Longrightarrow> stands s c R T \<Longrightarrow>
     (\<And>u. u \<in> set us \<Longrightarrow> u < R) \<Longrightarrow> length us \<le> min c cap \<Longrightarrow>
     length (in_window W t (us @ admissions step mine time s es)) \<le> 2 * cap"
proof (induction es arbitrary: s c R T us)
  case Nil
  then show ?case using length_in_window [of W t us] by simp
next
  case (Cons e es)
  obtain ok s' where st: "step s e = (ok, s')" by force
  have legal: "legal e" "list_all legal es" and srt: "sorted (time e # map time es)" and T: "T \<le> time e"
    using Cons.prems by auto
  note ih = Cons.IH [OF legal(2) srt]
  from legal(1) Cons.prems(3) T show ?case
  proof (cases rule: window_cases)
    case other
    then show ?thesis using ih [of s' c R us] Cons.prems(4,5) st by simp
  next
    case same
    have "\<And>u. u \<in> set (us @ (if ok then [time e] else [])) \<Longrightarrow> u < R" using same(2) Cons.prems(4) by (auto split: if_splits)
    moreover have "length (us @ (if ok then [time e] else [])) \<le> min (Suc c) cap"
      using same(3) Cons.prems(5) st by auto
    ultimately show ?thesis
      using ih [of s' "Suc c" R "us @ (if ok then [time e] else [])"] same(1,4) st by (cases ok) auto
  next
    case fresh
    let ?new = "(if ok then [time e] else []) @ admissions step mine time s' es"
    have A: "admissions step mine time s (e # es) = ?new" using st fresh(1) by simp
    show ?thesis
    proof (cases "t < time e + W")
      case True
      have ok: "ok \<longleftrightarrow> Suc 0 \<le> cap" and s': "stands s' (Suc 0) (time e + W) (time e)"
        using fresh(3,4) st by auto
      have N: "n \<le> cap" if "n \<le> (if ok then 1 else 0) + (cap - Suc 0)" for n
        using that ok by (auto split: if_splits)
      have first: "length (filter (\<lambda>u. u < time e + W) (if ok then [time e] else [])) \<le> (if ok then 1 else 0)"
        by simp
      have "length (in_window W t ?new) \<le> length (filter (\<lambda>u. u < time e + W) ?new)"
        unfolding in_window_def using True by (intro length_filter_mono) auto
      also have "\<dots> \<le> (if ok then 1 else 0) + (cap - Suc 0)"
        unfolding filter_append length_append using first rest_of_window [OF legal(2) srt s'] by (rule add_mono)
      finally have "length (in_window W t ?new) \<le> cap" by (rule N)
      moreover have "length (in_window W t us) \<le> cap" using length_in_window [of W t us] Cons.prems(5) by simp
      ultimately show ?thesis unfolding A by simp
    next
      case False
      then have "in_window W t us = []"
        using Cons.prems(4) fresh(2) unfolding in_window_def filter_empty_conv by fastforce
      moreover have "length (in_window W t ?new) \<le> 2 * cap"
      proof -
        show ?thesis
        proof (cases "0 < W")
          case True
          then show ?thesis
            using ih [of s' "Suc 0" "time e + W" "if ok then [time e] else []"] fresh(3,4) st by (auto split: if_splits)
        next
          case w: False
          then have "in_window W t ?new = []" unfolding in_window_def filter_empty_conv by (auto simp: not_less)
          then show ?thesis by simp
        qed
      qed
      ultimately show ?thesis unfolding A by simp
    qed
  qed
qed

lemma span_bound:
  assumes "list_all legal es" and "sorted (map time es)" and "cur s = None" and "ok_state s"
  shows "length (in_window W t (admissions step mine time s es)) \<le> 2 * cap"
proof (cases es)
  case (Cons e es')
  show ?thesis
    using span_bound_from [of es "time e" s 0 "time e" "[]" t] assms Cons by (auto simp: stands_def)
qed simp

end

end
