(* ===== verification/Rate_Limiter.thy ===== *)
theory Rate_Limiter
  imports Limiter
begin

text \<open>
  \<open>RateLimiterService\<close> (rate-limiting/rate-limiter.service.ts): the state of the service and
  the consumption of one request. Redis is outside the program: what it answers to one call
  (does the ping succeed, what the script returned, None when the call threw) and the clock
  readings are the \<open>redis_env\<close> argument; the scripts themselves are in \<open>Redis_Scripts\<close>, the
  lists, violations and queries of the service in \<open>Access_Lists\<close> and \<open>Rate_Analytics\<close>.

  Times, limits and token levels are rationals. A policy is meant to have a positive limit
  and window: \<open>x / 0\<close> is infinite in JavaScript and 0 here.
\<close>

datatype strategy = TokenBucket | SlidingWindow

record rate_policy =
  rp_limit :: rat
  rp_windowMs :: rat
  rp_burst :: rat
  rp_strategy :: strategy

record policy_opt =
  po_limit :: "rat option"
  po_windowMs :: "rat option"
  po_burst :: "rat option"
  po_strategy :: "strategy option"

record rate_decision =
  rd_allowed :: bool
  rd_remaining :: rat
  rd_resetAt :: rat
  rd_retryAfterMs :: "rat option"

record memory_bucket =
  mb_tokens :: rat
  mb_ts :: rat

record memory_entry =
  me_tracker :: string
  me_scope :: string
  me_tier :: string
  me_strategy :: strategy
  me_limit :: rat
  me_windowMs :: rat
  me_burst :: rat
  me_allowed :: int
  me_denied :: int
  me_lastResetAt :: rat
  me_lastRemaining :: rat

datatype list_entry_type = IpEntry | UserEntry | KeyEntry | PathEntry

record list_entry =
  le_id :: string
  le_type :: list_entry_type
  le_value :: string
  le_reason :: "string option"
  le_createdAt :: rat
  le_expiresAt :: "rat option"

datatype violation_reason = RateLimitExceeded | Blacklisted

record violation =
  rv_id :: string
  rv_timestamp :: rat
  rv_ip :: string
  rv_tracker :: string
  rv_userId :: "string option"
  rv_route :: string
  rv_method :: string
  rv_tier :: string
  rv_strategy :: strategy
  rv_limit :: rat
  rv_reason :: violation_reason

record endpoint_rule =
  er_pathPattern :: string
  er_method :: "string option"
  er_limit :: "rat option"
  er_windowMs :: "rat option"
  er_burst :: "rat option"
  er_strategy :: "strategy option"

record rl_config =
  rc_redis :: bool
  rc_keyPrefix :: string
  rc_defaultStrategy :: strategy

record rate_limiter =
  rl_buckets :: "(string, memory_bucket) js_map"
  rl_windows :: "(string, rat list) js_map"
  rl_registry :: "(string, memory_entry) js_map"
  rl_whitelist :: "(string, list_entry) js_map"
  rl_blacklist :: "(string, list_entry) js_map"
  rl_violations :: "violation list"
  rl_endpointRules :: "endpoint_rule list"
  rl_lastRedisCheck :: rat
  rl_redisHealthy :: bool

definition new_config :: "bool \<Rightarrow> string option \<Rightarrow> strategy option \<Rightarrow> rl_config" where
  "new_config redis keyPrefix strat =
     \<lparr>rc_redis = redis, rc_keyPrefix = nullish keyPrefix ''alian:rl:'', rc_defaultStrategy = nullish strat TokenBucket\<rparr>"

definition new_rate_limiter :: "endpoint_rule list option \<Rightarrow> rate_limiter" where
  "new_rate_limiter rules =
     \<lparr>rl_buckets = [], rl_windows = [], rl_registry = [], rl_whitelist = [], rl_blacklist = [], rl_violations = [],
      rl_endpointRules = nullish rules [], rl_lastRedisCheck = 0, rl_redisHealthy = False\<rparr>"

section \<open>Consumption\<close>

definition isRedisHealthy :: "rl_config \<Rightarrow> bool \<Rightarrow> rat \<Rightarrow> rate_limiter \<Rightarrow> bool \<times> rate_limiter" where
  "isRedisHealthy cfg ping now s =
     (if \<not> rc_redis cfg then (False, s)
      else if now - rl_lastRedisCheck s < 5000 then (rl_redisHealthy s, s)
      else (ping, s\<lparr>rl_lastRedisCheck := now, rl_redisHealthy := ping\<rparr>))"

definition rate_per_sec :: "rate_policy \<Rightarrow> rat" where
  "rate_per_sec p = rp_limit p / (rp_windowMs p / 1000)"

definition consumeMemoryTokenBucket ::
  "string \<Rightarrow> rate_policy \<Rightarrow> rat \<Rightarrow> rate_limiter \<Rightarrow> rate_decision \<times> rate_limiter" where
  "consumeMemoryTokenBucket key p now s =
     (let rate = rate_per_sec p;
          level = (case Map_get key (rl_buckets s) of
                     None \<Rightarrow> rp_burst p
                   | Some st \<Rightarrow> min (rp_burst p) (mb_tokens st + (now - mb_ts st) * rate / 1000));
          ok = (level \<ge> 1);
          tokens = (if ok then level - 1 else level);
          retry = of_int \<lceil>(1 - tokens) / rate * 1000\<rceil>
      in (\<lparr>rd_allowed = ok,
           rd_remaining = max 0 (of_int \<lfloor>tokens\<rfloor>),
           rd_resetAt = (if ok then now + of_int \<lceil>(rp_burst p - tokens) / rate * 1000\<rceil> else now + retry),
           rd_retryAfterMs = (if ok then None else Some retry)\<rparr>,
          s\<lparr>rl_buckets := Map_set key \<lparr>mb_tokens = tokens, mb_ts = now\<rparr> (rl_buckets s)\<rparr>))"

definition consumeMemorySlidingWindow ::
  "string \<Rightarrow> rate_policy \<Rightarrow> rat \<Rightarrow> rate_limiter \<Rightarrow> rate_decision \<times> rate_limiter" where
  "consumeMemorySlidingWindow key p now s =
     (let windowStart = now - rp_windowMs p;
          entries = filter (\<lambda>ts. ts > windowStart) (nullish (Map_get key (rl_windows s)) []);
          count = of_nat (length entries)
      in if count < rp_limit p
         then (\<lparr>rd_allowed = True, rd_remaining = max 0 (rp_limit p - count - 1),
                rd_resetAt = now + rp_windowMs p, rd_retryAfterMs = None\<rparr>,
               s\<lparr>rl_windows := Map_set key (entries @ [now]) (rl_windows s)\<rparr>)
         else (let oldest = (case entries of [] \<Rightarrow> now | e # _ \<Rightarrow> e)
               in (\<lparr>rd_allowed = False, rd_remaining = 0, rd_resetAt = oldest + rp_windowMs p,
                    rd_retryAfterMs = Some (max 0 (oldest + rp_windowMs p - now))\<rparr>,
                   s\<lparr>rl_windows := Map_set key entries (rl_windows s)\<rparr>)))"

definition consumeMemory :: "string \<Rightarrow> rate_policy \<Rightarrow> rat \<Rightarrow> rate_limiter \<Rightarrow> rate_decision \<times> rate_limiter" where
  "consumeMemory key p now s =
     (if rp_strategy p = SlidingWindow then consumeMemorySlidingWindow key p now s
      else consumeMemoryTokenBucket key p now s)"

text \<open>What a script reply (allowed flag, remaining, retry-after) becomes at the time it arrives.\<close>

type_synonym script_reply = "int \<times> rat \<times> rat"

definition reply_decision :: "rate_policy \<Rightarrow> rat \<Rightarrow> script_reply \<Rightarrow> rate_decision" where
  "reply_decision p now reply =
     (case reply of (ok, remaining, retryAfterMs) \<Rightarrow>
        \<lparr>rd_allowed = (ok = 1),
         rd_remaining = max 0 remaining,
         rd_resetAt = (if retryAfterMs > 0 then now + retryAfterMs
                       else if rp_strategy p = SlidingWindow then now + rp_windowMs p
                       else now + of_int \<lceil>(rp_burst p - remaining) / rate_per_sec p * 1000\<rceil>),
         rd_retryAfterMs = (if retryAfterMs > 0 then Some retryAfterMs else None)\<rparr>)"

definition consumeRedis ::
  "string \<Rightarrow> rate_policy \<Rightarrow> script_reply option \<Rightarrow> rat \<Rightarrow> rate_limiter \<Rightarrow> rate_decision \<times> rate_limiter" where
  "consumeRedis key p reply now s =
     (case reply of None \<Rightarrow> consumeMemory key p now s | Some r \<Rightarrow> (reply_decision p now r, s))"

definition updateRegistry ::
  "string \<Rightarrow> string option \<Rightarrow> string option \<Rightarrow> string option \<Rightarrow> rate_policy \<Rightarrow> rate_decision \<Rightarrow> rate_limiter \<Rightarrow> rate_limiter"
  where
  "updateRegistry key tracker scope tier p d s =
     (let existing = Map_get key (rl_registry s)
      in s\<lparr>rl_registry := Map_set key
           \<lparr>me_tracker = nullish tracker (nullish (map_option me_tracker existing) ''unknown''),
            me_scope = nullish scope (nullish (map_option me_scope existing) ''global''),
            me_tier = nullish tier (nullish (map_option me_tier existing) ''free''),
            me_strategy = rp_strategy p, me_limit = rp_limit p, me_windowMs = rp_windowMs p, me_burst = rp_burst p,
            me_allowed = nullish (map_option me_allowed existing) 0 + (if rd_allowed d then 1 else 0),
            me_denied = nullish (map_option me_denied existing) 0 + (if rd_allowed d then 0 else 1),
            me_lastResetAt = rd_resetAt d, me_lastRemaining = rd_remaining d\<rparr> (rl_registry s)\<rparr>)"

definition resolve_policy :: "rl_config \<Rightarrow> policy_opt \<Rightarrow> rate_policy" where
  "resolve_policy cfg p =
     \<lparr>rp_limit = nullish (po_limit p) 60,
      rp_windowMs = nullish (po_windowMs p) 60000,
      rp_burst = (case po_burst p of Some b \<Rightarrow> b | None \<Rightarrow> nullish (po_limit p) 60),
      rp_strategy = nullish (po_strategy p) (rc_defaultStrategy cfg)\<rparr>"

text \<open>
  One call of \<open>consume\<close>. It awaits: the health check reads the clock first, the consumption
  (after the ping, and after the script's reply) reads it again.
\<close>

record redis_env =
  en_checkedAt :: rat
  en_ping :: bool
  en_reply :: "script_reply option"
  en_now :: rat

record consume_call =
  cc_key :: string
  cc_policy :: policy_opt
  cc_tracker :: "string option"
  cc_scope :: "string option"
  cc_tier :: "string option"

definition consume ::
  "rl_config \<Rightarrow> redis_env \<Rightarrow> consume_call \<Rightarrow> rate_limiter \<Rightarrow> rate_decision \<times> rate_limiter" where
  "consume cfg env c s =
     (let p = resolve_policy cfg (cc_policy c);
          storageKey = rc_keyPrefix cfg @ cc_key c;
          (healthy, s1) = isRedisHealthy cfg (en_ping env) (en_checkedAt env) s;
          (d, s2) = (if healthy then consumeRedis storageKey p (en_reply env) (en_now env) s1
                     else consumeMemory storageKey p (en_now env) s1)
      in (d, updateRegistry (cc_key c) (cc_tracker c) (cc_scope c) (cc_tier c) p d s2))"

section \<open>Specification\<close>

text \<open>
  A history of requests. A request of a caller is served from memory when no Redis is
  configured, as in the fallback.
\<close>

definition consume_step :: "rl_config \<Rightarrow> rate_limiter \<Rightarrow> redis_env \<times> consume_call \<Rightarrow> bool \<times> rate_limiter" where
  "consume_step cfg s = (\<lambda>(env, c). let (d, s') = consume cfg env c s in (rd_allowed d, s'))"

definition call_time :: "redis_env \<times> consume_call \<Rightarrow> rat" where
  "call_time e = en_now (fst e)"

definition call_of :: "string \<Rightarrow> redis_env \<times> consume_call \<Rightarrow> bool" where
  "call_of key e \<longleftrightarrow> cc_key (snd e) = key"

text \<open>Every request of the key resolves to the policy \<open>p\<close>; those of other keys to any policy.\<close>

definition under_policy :: "rl_config \<Rightarrow> string \<Rightarrow> rate_policy \<Rightarrow> redis_env \<times> consume_call \<Rightarrow> bool" where
  "under_policy cfg key p e \<longleftrightarrow> (call_of key e \<longrightarrow> resolve_policy cfg (cc_policy (snd e)) = p)"

definition window_of :: "rl_config \<Rightarrow> string \<Rightarrow> rate_limiter \<Rightarrow> rat list" where
  "window_of cfg key s = nullish (Map_get (rc_keyPrefix cfg @ key) (rl_windows s)) []"

definition bucket_of :: "rl_config \<Rightarrow> string \<Rightarrow> rate_limiter \<Rightarrow> memory_bucket option" where
  "bucket_of cfg key s = Map_get (rc_keyPrefix cfg @ key) (rl_buckets s)"

text \<open>The decisions a history takes on one key.\<close>

fun decisions_on :: "rl_config \<Rightarrow> string \<Rightarrow> rate_limiter \<Rightarrow> (redis_env \<times> consume_call) list \<Rightarrow> bool list" where
  "decisions_on cfg key s [] = []"
| "decisions_on cfg key s (e # es) =
     (let (ok, s') = consume_step cfg s e
      in (if call_of key e then [ok] else []) @ decisions_on cfg key s' es)"

section \<open>One request served from memory\<close>

lemma consume_memory:
  "\<not> rc_redis cfg \<Longrightarrow> consume cfg env c s =
     (let p = resolve_policy cfg (cc_policy c);
          (d, s') = consumeMemory (rc_keyPrefix cfg @ cc_key c) p (en_now env) s
      in (d, updateRegistry (cc_key c) (cc_tracker c) (cc_scope c) (cc_tier c) p d s'))"
  by (simp add: consume_def isRedisHealthy_def Let_def)

lemma updateRegistry_frame [simp]:
  "rl_windows (updateRegistry k tr sc ti p d s) = rl_windows s"
  "rl_buckets (updateRegistry k tr sc ti p d s) = rl_buckets s"
  by (simp_all add: updateRegistry_def Let_def)

lemma consumeMemory_frame [simp]:
  "j \<noteq> k \<Longrightarrow> Map_get j (rl_windows (snd (consumeMemory k p now s))) = Map_get j (rl_windows s)"
  "j \<noteq> k \<Longrightarrow> Map_get j (rl_buckets (snd (consumeMemory k p now s))) = Map_get j (rl_buckets s)"
  "rl_registry (snd (consumeMemory k p now s)) = rl_registry s"
  by (simp_all add: consumeMemory_def consumeMemorySlidingWindow_def consumeMemoryTokenBucket_def Let_def)

lemma consume_step_memory:
  assumes "\<not> rc_redis cfg"
  shows "fst (consume_step cfg s (env, c)) =
      rd_allowed (fst (consumeMemory (rc_keyPrefix cfg @ cc_key c) (resolve_policy cfg (cc_policy c)) (en_now env) s))"
    and "rl_windows (snd (consume_step cfg s (env, c))) =
      rl_windows (snd (consumeMemory (rc_keyPrefix cfg @ cc_key c) (resolve_policy cfg (cc_policy c)) (en_now env) s))"
    and "rl_buckets (snd (consume_step cfg s (env, c))) =
      rl_buckets (snd (consumeMemory (rc_keyPrefix cfg @ cc_key c) (resolve_policy cfg (cc_policy c)) (en_now env) s))"
  by (simp_all add: consume_step_def consume_memory [OF assms] Let_def split: prod.splits)

lemma of_nat_less_limit: "of_nat n < (x :: rat) \<longleftrightarrow> n < nat \<lceil>x\<rceil>"
proof -
  have "of_nat n < x \<longleftrightarrow> int n < \<lceil>x\<rceil>" by (simp add: less_ceiling_iff)
  then show ?thesis by linarith
qed

lemmas memory_step = consume_step_memory consumeMemory_def consumeMemorySlidingWindow_def consumeMemoryTokenBucket_def
  under_policy_def call_of_def window_of_def bucket_of_def call_time_def of_nat_less_limit

interpretation mw: window_limiter "consume_step cfg"
    "\<lambda>e. \<not> rc_redis cfg \<and> rp_strategy p = SlidingWindow \<and> under_policy cfg key p e" "\<lambda>_. call_of key" call_time
    "window_of cfg key" "rp_windowMs p" "nat \<lceil>rp_limit p\<rceil>" for cfg key p
proof (unfold_locales, goal_cases)
  case (1 e s) then show ?case by (cases e) (auto simp: memory_step Let_def)
next
  case (2 e s) then show ?case by (cases e) (auto simp: memory_step Let_def)
next
  case (3 e s) then show ?case by (cases e) (simp add: consume_step_memory call_of_def window_of_def)
qed

interpretation mt: bucket_limiter "consume_step cfg"
    "\<lambda>e. \<not> rc_redis cfg \<and> rp_strategy p = TokenBucket \<and> under_policy cfg key p e" "\<lambda>_. call_of key" call_time
    "\<lambda>s. nullish (map_option mb_tokens (bucket_of cfg key s)) 0" "\<lambda>s. nullish (map_option mb_ts (bucket_of cfg key s)) 0"
    "\<lambda>s. bucket_of cfg key s \<noteq> None" "rp_burst p" "rate_per_sec p / 1000" for cfg key p
proof (unfold_locales, goal_cases)
  case (5 e s) then show ?case by (cases e) (simp add: consume_step_memory call_of_def bucket_of_def)
qed (auto simp: memory_step Let_def split: prod.splits)

lemma window_of_new [simp]: "window_of cfg key (new_rate_limiter rules) = []"
  and bucket_of_new [simp]: "bucket_of cfg key (new_rate_limiter rules) = None"
  by (simp_all add: window_of_def bucket_of_def new_rate_limiter_def)

lemma under_policy_legal:
  "\<not> rc_redis cfg \<Longrightarrow> rp_strategy p = st \<Longrightarrow> list_all (under_policy cfg key p) es \<Longrightarrow>
     list_all (\<lambda>e. \<not> rc_redis cfg \<and> rp_strategy p = st \<and> under_policy cfg key p e) es"
  by (simp add: list_all_iff)

lemma limit_cap_pos: "0 < (x :: rat) \<Longrightarrow> 0 < nat \<lceil>x\<rceil>"
  by (simp add: zero_less_ceiling)

lemma consume_fst: "fst (consume_step cfg s (env, c)) = rd_allowed (fst (consume cfg env c s))"
  and consume_snd: "snd (consume_step cfg s (env, c)) = snd (consume cfg env c s)"
  by (simp_all add: consume_step_def Let_def split: prod.splits)

lemma consume_decision:
  "\<not> rc_redis cfg \<Longrightarrow> fst (consume cfg env c s) =
     fst (consumeMemory (rc_keyPrefix cfg @ cc_key c) (resolve_policy cfg (cc_policy c)) (en_now env) s)"
  by (simp add: consume_memory Let_def split: prod.splits)

lemma sliding_retry:
  assumes "\<not> rd_allowed (fst (consumeMemorySlidingWindow k p now s))" and "0 < rp_limit p"
    and "rd_retryAfterMs (fst (consumeMemorySlidingWindow k p now s)) = Some w"
  obtains u us where "filter (\<lambda>v. now - rp_windowMs p < v) (nullish (Map_get k (rl_windows s)) []) = u # us"
    and "u + rp_windowMs p \<le> now + w"
  using assms
  by (cases "filter (\<lambda>v. now - rp_windowMs p < v) (nullish (Map_get k (rl_windows s)) [])")
    (auto simp: consumeMemorySlidingWindow_def Let_def max_def split: if_splits)

lemma bucket_retry:
  assumes "\<not> rd_allowed (fst (consumeMemoryTokenBucket k p now s))"
    and "rd_retryAfterMs (fst (consumeMemoryTokenBucket k p now s)) = Some w"
    and "Map_get k (rl_buckets (snd (consumeMemoryTokenBucket k p now s))) = Some b"
  shows "(1 - mb_tokens b) / (rate_per_sec p / 1000) \<le> w"
proof -
  have "w = of_int \<lceil>(1 - mb_tokens b) / rate_per_sec p * 1000\<rceil>"
    using assms by (auto simp: consumeMemoryTokenBucket_def Let_def split: if_splits)
  moreover have "(1 - mb_tokens b) / (rate_per_sec p / 1000) = (1 - mb_tokens b) / rate_per_sec p * 1000" by simp
  ultimately show ?thesis by (metis le_of_int_ceiling)
qed

lemma decision_counts_step:
  "Map_get key (rl_registry (snd (consume_step cfg s (env, c)))) = (let m = Map_get key (rl_registry s) in
     if call_of key (env, c)
     then Some (the (Map_get key (rl_registry (snd (consume_step cfg s (env, c))))))
     else m)"
  "call_of key (env, c) \<Longrightarrow>
     map_option (\<lambda>m. (me_allowed m, me_denied m)) (Map_get key (rl_registry (snd (consume_step cfg s (env, c))))) =
       (let (a, d) = nullish (map_option (\<lambda>m. (me_allowed m, me_denied m)) (Map_get key (rl_registry s))) (0, 0)
        in if fst (consume_step cfg s (env, c)) then Some (a + 1, d) else Some (a, d + 1))"
proof -
  have reg: "rl_registry (snd (consumeRedis k p r now t)) = rl_registry t"
    "rl_registry (snd (isRedisHealthy cfg b now t)) = rl_registry t" for k p r now t b
    by (simp_all add: consumeRedis_def isRedisHealthy_def split: option.splits)
  obtain h s1 where h: "isRedisHealthy cfg (en_ping env) (en_checkedAt env) s = (h, s1)" by force
  let ?p = "resolve_policy cfg (cc_policy c)" and ?k = "rc_keyPrefix cfg @ cc_key c"
  obtain d s2 where d: "(if h then consumeRedis ?k ?p (en_reply env) (en_now env) s1
      else consumeMemory ?k ?p (en_now env) s1) = (d, s2)" by force
  have "rl_registry (snd (if h then consumeRedis ?k ?p (en_reply env) (en_now env) s1
      else consumeMemory ?k ?p (en_now env) s1)) = rl_registry s1" by (simp add: reg(1))
  then have s2: "rl_registry s2 = rl_registry s"
    using reg(2) [of "en_ping env" "en_checkedAt env" s] h d by simp
  have st: "consume_step cfg s (env, c) =
      (rd_allowed d, updateRegistry (cc_key c) (cc_tracker c) (cc_scope c) (cc_tier c) ?p d s2)"
    using h d by (simp add: consume_step_def consume_def Let_def)
  show "Map_get key (rl_registry (snd (consume_step cfg s (env, c)))) = (let m = Map_get key (rl_registry s) in
     if call_of key (env, c)
     then Some (the (Map_get key (rl_registry (snd (consume_step cfg s (env, c)))))) else m)"
    by (simp add: st updateRegistry_def call_of_def s2 Let_def)
  show "call_of key (env, c) \<Longrightarrow>
     map_option (\<lambda>m. (me_allowed m, me_denied m)) (Map_get key (rl_registry (snd (consume_step cfg s (env, c))))) =
       (let (a, d) = nullish (map_option (\<lambda>m. (me_allowed m, me_denied m)) (Map_get key (rl_registry s))) (0, 0)
        in if fst (consume_step cfg s (env, c)) then Some (a + 1, d) else Some (a, d + 1))"
    by (cases "Map_get key (rl_registry s)") (auto simp: st updateRegistry_def call_of_def s2 Let_def)
qed

lemma registry_counts_from:
  "map_option (\<lambda>m. (me_allowed m, me_denied m)) (Map_get key (rl_registry (after (consume_step cfg) s es))) =
   (let old = map_option (\<lambda>m. (me_allowed m, me_denied m)) (Map_get key (rl_registry s)); ds = decisions_on cfg key s es
    in if ds = [] then old
       else Some (fst (nullish old (0, 0)) + int (length (filter id ds)), snd (nullish old (0, 0)) + int (length (filter Not ds))))"
proof (induction es arbitrary: s)
  case (Cons e es)
  obtain env c where e: "e = (env, c)" by force
  obtain ok s' where st: "consume_step cfg s e = (ok, s')" by force
  show ?case
  proof (cases "call_of key e")
    case True
    then show ?thesis
      using Cons [of s'] decision_counts_step(2) [of key env c cfg s] st e
      by (cases ok) (auto simp: Let_def split: prod.splits if_splits)
  next
    case False
    then show ?thesis
      using Cons [of s'] decision_counts_step(1) [of key cfg s env c] st e by (simp add: Let_def)
  qed
qed simp

section \<open>Properties\<close>

text \<open>
  The sliding window admits at most its limit: when no Redis is configured and every
  request of a key resolves to one sliding-window policy, then at every instant at most
  \<open>limit\<close> requests of the key were admitted in the window that ends there, whatever
  requests of other keys come in between. (A fractional limit counts as the next integer.)
\<close>

theorem sliding_window_limit:
  assumes "\<not> rc_redis cfg" and "rp_strategy p = SlidingWindow"
    and "list_all (under_policy cfg key p) es" and "sorted (map call_time es)"
  shows "length (in_window (rp_windowMs p) t
      (admissions (consume_step cfg) (\<lambda>_. call_of key) call_time (new_rate_limiter rules) es)) \<le> nat \<lceil>rp_limit p\<rceil>"
  using under_policy_legal [OF assms(1-3)] assms(4) by (rule mw.window_bound) simp

theorem sliding_window_limit_witness:
  "let cfg = new_config False None None;
       p = \<lparr>po_limit = Some 2, po_windowMs = Some 1000, po_burst = None, po_strategy = Some SlidingWindow\<rparr>;
       call = (\<lambda>t. (\<lparr>en_checkedAt = t, en_ping = False, en_reply = None, en_now = t\<rparr>,
          \<lparr>cc_key = ''user:7'', cc_policy = p, cc_tracker = None, cc_scope = None, cc_tier = None\<rparr>))
   in length (in_window 1000 700 (admissions (consume_step cfg) (\<lambda>_. call_of ''user:7'') call_time (new_rate_limiter None)
        (map call [0, 500, 700]))) \<le> 2"
proof -
  let ?p = "\<lparr>po_limit = Some 2, po_windowMs = Some 1000, po_burst = None, po_strategy = Some SlidingWindow\<rparr>"
  let ?call = "\<lambda>t. (\<lparr>en_checkedAt = t, en_ping = False, en_reply = None, en_now = t\<rparr>,
      \<lparr>cc_key = ''user:7'', cc_policy = ?p, cc_tracker = None, cc_scope = None, cc_tier = None\<rparr>)"
  show ?thesis
    using sliding_window_limit [of "new_config False None None" "resolve_policy (new_config False None None) ?p"
        "''user:7''" "map ?call [0, 500, 700]" 700 None]
    by (simp add: new_config_def resolve_policy_def under_policy_def call_of_def call_time_def Let_def)
qed



text \<open>
  The advertised delay is enough: in every state a history under one policy reaches, a
  caller that is refused with a retry-after of \<open>w\<close> milliseconds and comes back no earlier than
  that is admitted, under both strategies.
\<close>

theorem retry_after_is_enough:
  assumes mem: "\<not> rc_redis cfg" and pol: "0 < rp_limit p" "0 < rp_windowMs p" "1 \<le> rp_burst p"
    and past: "list_all (under_policy cfg key p) past" "s = after (consume_step cfg) (new_rate_limiter rules) past"
    and c: "cc_key c = key" "resolve_policy cfg (cc_policy c) = p"
    and refused: "\<not> rd_allowed (fst (consume cfg env c s))" "rd_retryAfterMs (fst (consume cfg env c s)) = Some w"
    and later: "en_now env + w \<le> en_now env'"
  shows "rd_allowed (fst (consume cfg env' c (snd (consume cfg env c s))))"
proof (cases "rp_strategy p")
  case SlidingWindow
  let ?k = "rc_keyPrefix cfg @ key"
  have d: "fst (consume cfg env c s) = fst (consumeMemorySlidingWindow ?k p (en_now env) s)"
    using SlidingWindow c by (simp add: consume_decision [OF mem] consumeMemory_def)
  obtain u us where
    u: "filter (\<lambda>v. en_now env - rp_windowMs p < v) (nullish (Map_get ?k (rl_windows s)) []) = u # us"
      "u + rp_windowMs p \<le> en_now env + w"
    using refused sliding_retry [of ?k p "en_now env" s w] pol(1) d by metis
  have cap: "length (window_of cfg key s) \<le> nat \<lceil>rp_limit p\<rceil>"
    using mw.entries_after [OF under_policy_legal [OF mem SlidingWindow past(1)], of "new_rate_limiter rules"] past(2) by simp
  show ?thesis
    using mw.admitted_after_oldest [of cfg p key "(env, c)" "(env', c)" s u us] mem SlidingWindow c cap u later
      limit_cap_pos [OF pol(1)] refused(1)
    by (simp add: under_policy_def call_of_def consume_fst consume_snd window_of_def call_time_def)
next
  case TokenBucket
  let ?k = "rc_keyPrefix cfg @ key" and ?s = "snd (consume cfg env c s)"
  have d: "fst (consume cfg env c s) = fst (consumeMemoryTokenBucket ?k p (en_now env) s)"
    and b: "rl_buckets ?s = rl_buckets (snd (consumeMemoryTokenBucket ?k p (en_now env) s))"
    using TokenBucket c consume_step_memory(3) [OF mem, of s env c]
    by (simp_all add: consume_decision [OF mem] consumeMemory_def consume_snd)
  obtain bk where bk: "bucket_of cfg key ?s = Some bk"
    by (simp add: bucket_of_def b consumeMemoryTokenBucket_def Let_def)
  have "(1 - mb_tokens bk) / (rate_per_sec p / 1000) \<le> w"
    using bucket_retry [of ?k p "en_now env" s w bk] refused d bk b by (simp add: bucket_of_def)
  moreover have "0 < rate_per_sec p / 1000" using pol by (simp add: rate_per_sec_def)
  ultimately show ?thesis
    using mt.admitted_after_refill [of cfg p key "(env, c)" "(env', c)" s] mem TokenBucket c pol(3) refused(1) later bk
    by (simp add: under_policy_def call_of_def consume_fst consume_snd call_time_def)
qed

theorem retry_after_is_enough_witness:
  "let cfg = new_config False None None;
       p = \<lparr>po_limit = Some 1, po_windowMs = Some 1000, po_burst = None, po_strategy = Some SlidingWindow\<rparr>;
       env = (\<lambda>t. \<lparr>en_checkedAt = t, en_ping = False, en_reply = None, en_now = t\<rparr>);
       c = \<lparr>cc_key = ''user:7'', cc_policy = p, cc_tracker = None, cc_scope = None, cc_tier = None\<rparr>;
       s = after (consume_step cfg) (new_rate_limiter None) [(env 0, c)]
   in rd_retryAfterMs (fst (consume cfg (env 100) c s)) = Some 900 \<and>
      rd_allowed (fst (consume cfg (env 1000) c (snd (consume cfg (env 100) c s))))"
proof -
  let ?cfg = "new_config False None None"
  let ?at = "\<lambda>t. \<lparr>en_checkedAt = t, en_ping = False, en_reply = None, en_now = t\<rparr>"
  let ?c = "\<lparr>cc_key = ''user:7'', cc_policy = \<lparr>po_limit = Some 1, po_windowMs = Some 1000, po_burst = None,
      po_strategy = Some SlidingWindow\<rparr>, cc_tracker = None, cc_scope = None, cc_tier = None\<rparr>"
  let ?s = "after (consume_step ?cfg) (new_rate_limiter None) [(?at 0, ?c)]"
  let ?p = "resolve_policy ?cfg (cc_policy ?c)"
  have denied: "\<not> rd_allowed (fst (consume ?cfg (?at 100) ?c ?s))" by code_simp
  have wait: "rd_retryAfterMs (fst (consume ?cfg (?at 100) ?c ?s)) = Some 900" by code_simp
  have pol: "\<not> rc_redis ?cfg" "0 < rp_limit ?p" "0 < rp_windowMs ?p" "1 \<le> rp_burst ?p"
    by (simp_all add: new_config_def resolve_policy_def)
  have past: "list_all (under_policy ?cfg ''user:7'' ?p) [(?at 0, ?c)]" by (simp add: under_policy_def)
  have "rd_allowed (fst (consume ?cfg (?at 1000) ?c (snd (consume ?cfg (?at 100) ?c ?s))))"
    by (rule retry_after_is_enough [OF pol past refl _ refl denied wait]) simp_all
  with wait show ?thesis unfolding Let_def by (rule conjI)
qed

text \<open>
  The registry counts every decision: after any history of requests, served by Redis, by
  its fallback or from memory, the entry of a key exists exactly when the key was used and
  holds the number of its admitted and of its refused requests.
\<close>

theorem registry_counts_decisions:
  "map_option (\<lambda>m. (me_allowed m, me_denied m))
     (Map_get key (rl_registry (after (consume_step cfg) (new_rate_limiter rules) es))) =
   (let ds = decisions_on cfg key (new_rate_limiter rules) es
    in if ds = [] then None else Some (int (length (filter id ds)), int (length (filter Not ds))))"
  by (simp add: registry_counts_from new_rate_limiter_def Let_def)

end
