(* ===== verification/Redis_Scripts.thy ===== *)
theory Redis_Scripts
  imports Rate_Limiter
begin

text \<open>
  The two Lua scripts that \<open>RateLimiterService\<close> runs inside Redis (the string constants
  \<open>TOKEN_BUCKET_LUA\<close> and \<open>SLIDING_WINDOW_LUA\<close>). A script touches one key; the Redis commands
  on that key are parameters with their documented laws: a hash and a sorted set whose
  contents disappear when the time to live is over. Redis and the service are taken to read
  the same clock, and \<open>tostring\<close> to keep a number exactly.
\<close>

record 'h hash_ops =
  h_mget :: "'h \<Rightarrow> rat \<Rightarrow> (rat \<times> rat) option"
  h_mset_expire :: "'h \<Rightarrow> rat \<times> rat \<Rightarrow> rat \<Rightarrow> rat \<Rightarrow> 'h"

record 'z zset_ops =
  z_card :: "'z \<Rightarrow> rat \<Rightarrow> nat"
  z_first :: "'z \<Rightarrow> rat \<Rightarrow> rat option"
  z_remrange :: "'z \<Rightarrow> rat \<Rightarrow> rat \<Rightarrow> rat \<Rightarrow> 'z"
  z_add :: "'z \<Rightarrow> rat \<Rightarrow> string \<Rightarrow> rat \<Rightarrow> 'z"
  z_pexpire :: "'z \<Rightarrow> rat \<Rightarrow> rat \<Rightarrow> 'z"

definition TOKEN_BUCKET_LUA :: "'h hash_ops \<Rightarrow> rat \<Rightarrow> rat \<Rightarrow> rat \<Rightarrow> rat \<Rightarrow> 'h \<Rightarrow> script_reply \<times> 'h" where
  "TOKEN_BUCKET_LUA ops capacity rate now_ms cost key =
     (let (tokens0, ts0) = (case h_mget ops key now_ms of None \<Rightarrow> (capacity, now_ms) | Some data \<Rightarrow> data);
          level = min capacity (tokens0 + (now_ms - ts0) * rate / 1000)
      in if level \<ge> cost
         then let tokens = level - cost;
                  ttl = of_int \<lceil>(capacity - tokens + 1) / rate\<rceil>
              in ((1, of_int \<lfloor>tokens\<rfloor>, 0), h_mset_expire ops key (tokens, now_ms) (if ttl < 1 then 1 else ttl) now_ms)
         else let wait_ms = of_int \<lceil>(cost - level) / rate * 1000\<rceil>;
                  ttl = of_int \<lceil>(cost - level + 1) / rate\<rceil>
              in ((0, of_int \<lfloor>level\<rfloor>, wait_ms), h_mset_expire ops key (level, now_ms) (if ttl < 1 then 1 else ttl) now_ms))"

definition SLIDING_WINDOW_LUA :: "'z zset_ops \<Rightarrow> rat \<Rightarrow> rat \<Rightarrow> rat \<Rightarrow> string \<Rightarrow> 'z \<Rightarrow> script_reply \<times> 'z" where
  "SLIDING_WINDOW_LUA ops limit window_ms now_ms request_id key =
     (let key1 = z_remrange ops key 0 (now_ms - window_ms) now_ms;
          count = of_nat (z_card ops key1 now_ms)
      in if count < limit
         then ((1, limit - count - 1, 0), z_pexpire ops (z_add ops key1 now_ms request_id now_ms) window_ms now_ms)
         else (let reset_at = (case z_first ops key1 now_ms of None \<Rightarrow> now_ms | Some score \<Rightarrow> score + window_ms)
               in ((0, 0, max 0 (reset_at - now_ms)), key1)))"

section \<open>What the scripts rely on\<close>

locale redis_hash =
  fixes ops :: "'h hash_ops"
  assumes mget_mset: "now \<le> t \<Longrightarrow>
      h_mget ops (h_mset_expire ops h v ttl now) t = (if t < now + ttl * 1000 then Some v else None)"

locale redis_zset =
  fixes ops :: "'z zset_ops"
    and scores :: "'z \<Rightarrow> rat \<Rightarrow> rat list"
    and members :: "'z \<Rightarrow> string list"
  assumes card_scores: "z_card ops z t = length (scores z t)"
    and first_scores: "z_first ops z t = (case scores z t of [] \<Rightarrow> None | u # _ \<Rightarrow> Some u)"
    and scores_remrange: "now \<le> t \<Longrightarrow> scores (z_remrange ops z lo hi now) t = filter (\<lambda>u. u < lo \<or> hi < u) (scores z t)"
    and scores_add: "i \<notin> set (members z) \<Longrightarrow> scores (z_add ops z u i now) now = insort u (scores z now)"
    and scores_pexpire: "now \<le> t \<Longrightarrow> scores (z_pexpire ops z w now) t = (if t < now + w then scores z now else [])"
    and members_step: "set (members (z_remrange ops z lo hi now)) \<subseteq> set (members z)"
      "set (members (z_add ops z u i now)) \<subseteq> insert i (set (members z))"
      "set (members (z_pexpire ops z w now)) \<subseteq> set (members z)"

text \<open>A key with a time to live: the stored value and the time it disappears.\<close>

type_synonym 'v ttl_key = "('v \<times> rat option) option"

definition live :: "'v ttl_key \<Rightarrow> rat \<Rightarrow> 'v option" where
  "live k t = (case k of None \<Rightarrow> None
     | Some (v, None) \<Rightarrow> Some v
     | Some (v, Some e) \<Rightarrow> if t < e then Some v else None)"

definition ttl_hash :: "(rat \<times> rat) ttl_key hash_ops" where
  "ttl_hash = \<lparr>h_mget = live, h_mset_expire = (\<lambda>k v ttl now. Some (v, Some (now + ttl * 1000)))\<rparr>"

definition zscores :: "(string \<times> rat) list ttl_key \<Rightarrow> rat \<Rightarrow> rat list" where
  "zscores k t = sort (map snd (nullish (live k t) []))"

definition zmembers :: "(string \<times> rat) list ttl_key \<Rightarrow> string list" where
  "zmembers k = (case k of None \<Rightarrow> [] | Some (v, _) \<Rightarrow> map fst v)"

definition ttl_zset :: "(string \<times> rat) list ttl_key zset_ops" where
  "ttl_zset = \<lparr>z_card = (\<lambda>k t. length (zscores k t)),
     z_first = (\<lambda>k t. case zscores k t of [] \<Rightarrow> None | u # _ \<Rightarrow> Some u),
     z_remrange = (\<lambda>k lo hi now. map_option (\<lambda>(v, e). (filter (\<lambda>(_, u). u < lo \<or> hi < u) v, e)) k),
     z_add = (\<lambda>k u i now. case live k now of
         None \<Rightarrow> Some ([(i, u)], None)
       | Some v \<Rightarrow> Some ((i, u) # filter (\<lambda>(j, _). j \<noteq> i) v, (case k of Some (_, e) \<Rightarrow> e | None \<Rightarrow> None))),
     z_pexpire = (\<lambda>k w now. case live k now of None \<Rightarrow> None | Some v \<Rightarrow> Some (v, Some (now + w)))\<rparr>"

text \<open>Histories of one key: the decisions taken from the script's replies and those of the memory limiter.\<close>

fun script_run :: "'z zset_ops \<Rightarrow> rate_policy \<Rightarrow> 'z \<Rightarrow> (rat \<times> string) list \<Rightarrow> rate_decision list" where
  "script_run ops p z [] = []"
| "script_run ops p z ((now, i) # es) =
     (let (r, z') = SLIDING_WINDOW_LUA ops (rp_limit p) (rp_windowMs p) now i z
      in reply_decision p now r # script_run ops p z' es)"

fun memory_run :: "string \<Rightarrow> rate_policy \<Rightarrow> rate_limiter \<Rightarrow> (rat \<times> string) list \<Rightarrow> rate_decision list" where
  "memory_run key p s [] = []"
| "memory_run key p s ((now, i) # es) =
     (let (d, s') = consumeMemory key p now s in d # memory_run key p s' es)"

text \<open>The token level a key stands for at a time, in Redis and in memory.\<close>

definition redis_level :: "'h hash_ops \<Rightarrow> rate_policy \<Rightarrow> 'h \<Rightarrow> rat \<Rightarrow> rat" where
  "redis_level ops p h t = (case h_mget ops h t of None \<Rightarrow> rp_burst p
     | Some (tokens, ts) \<Rightarrow> min (rp_burst p) (tokens + (t - ts) * rate_per_sec p / 1000))"

definition memory_level :: "string \<Rightarrow> rate_policy \<Rightarrow> rate_limiter \<Rightarrow> rat \<Rightarrow> rat" where
  "memory_level key p s t = (case Map_get key (rl_buckets s) of None \<Rightarrow> rp_burst p
     | Some b \<Rightarrow> min (rp_burst p) (mb_tokens b + (t - mb_ts b) * rate_per_sec p / 1000))"

text \<open>
  The memory window of a key, and when a sorted set stands for it: from the last request on
  both have the same scores inside the window, however the key expires.
\<close>

definition window_at :: "string \<Rightarrow> rate_limiter \<Rightarrow> rat list" where
  "window_at key s = nullish (Map_get key (rl_windows s)) []"

definition window_sim :: "('z \<Rightarrow> rat \<Rightarrow> rat list) \<Rightarrow> rat \<Rightarrow> 'z \<Rightarrow> rat list \<Rightarrow> rat \<Rightarrow> bool" where
  "window_sim scores W z us upto_t \<longleftrightarrow>
     sorted us \<and> (\<forall>u \<in> set us. 0 \<le> u \<and> u \<le> upto_t) \<and>
     (\<forall>t \<ge> upto_t. filter (\<lambda>u. t - W < u) (scores z t) = filter (\<lambda>u. t - W < u) us \<and> (\<forall>u \<in> set (scores z t). 0 \<le> u))"

section \<open>Interpretations\<close>

interpretation th: redis_hash ttl_hash
  by unfold_locales (simp add: ttl_hash_def live_def)

lemma filter_snd: "map snd (filter (\<lambda>(_, u). P u) v) = filter P (map snd v)"
  by (induction v) auto

lemma filter_other: "i \<notin> fst ` set v \<Longrightarrow> filter (\<lambda>(j, _). j \<noteq> i) v = v"
  by (induction v) auto

lemma live_remrange: "live (map_option (\<lambda>(v, e). (f v, e)) k) t = map_option f (live k t)"
  by (auto simp: live_def split: option.splits)

lemma live_members: "live z now = Some v \<Longrightarrow> fst ` set v \<subseteq> set (zmembers z)"
  by (cases z) (auto simp: live_def zmembers_def image_iff split: option.splits if_splits, force+)

interpretation tz: redis_zset ttl_zset zscores zmembers
proof (unfold_locales, goal_cases)
  case (3 now t z lo hi)
  then show ?case
    by (cases "live z t") (simp_all add: ttl_zset_def zscores_def live_remrange filter_snd filter_sort)
next
  case (4 i z u now)
  show ?case
  proof (cases "live z now")
    case None
    then show ?thesis by (simp add: ttl_zset_def zscores_def) (simp add: live_def)
  next
    case (Some v)
    then have "i \<notin> fst ` set v" using live_members [OF Some] 4 by auto
    then show ?thesis using Some
      by (auto simp: ttl_zset_def zscores_def filter_other live_def split: option.splits if_splits)
  qed
next
  case (5 now t z w)
  then show ?case by (cases "live z now") (simp_all add: ttl_zset_def zscores_def, simp_all add: live_def)
next
  case (6 z lo hi now)
  then show ?case by (auto simp: ttl_zset_def zmembers_def split: option.splits)
next
  case (7 z u i now)
  then show ?case
  proof (cases "live z now")
    case (Some v)
    have "zmembers (z_add ttl_zset z u i now) = i # map fst (filter (\<lambda>(j, _). j \<noteq> i) v)"
      by (simp add: ttl_zset_def Some) (simp add: zmembers_def)
    then show ?thesis using live_members [OF Some] by auto
  qed (simp add: ttl_zset_def zmembers_def)
next
  case (8 z w now)
  then show ?case
  proof (cases "live z now")
    case (Some v)
    have "zmembers (z_pexpire ttl_zset z w now) = map fst v"
      by (simp add: ttl_zset_def Some) (simp add: zmembers_def)
    then show ?thesis using live_members [OF Some] by auto
  qed (simp add: ttl_zset_def zmembers_def)
qed (simp_all add: ttl_zset_def)

section \<open>The sliding-window script and the memory window\<close>

lemma memory_window_step:
  assumes "0 < rp_limit p" and "filter (\<lambda>u. now - rp_windowMs p < u) (window_at key s) = us"
  shows "consumeMemorySlidingWindow key p now s =
    (if of_nat (length us) < rp_limit p
     then (\<lparr>rd_allowed = True, rd_remaining = max 0 (rp_limit p - of_nat (length us) - 1), rd_resetAt = now + rp_windowMs p,
            rd_retryAfterMs = None\<rparr>, s\<lparr>rl_windows := Map_set key (us @ [now]) (rl_windows s)\<rparr>)
     else (\<lparr>rd_allowed = False, rd_remaining = 0, rd_resetAt = hd us + rp_windowMs p,
            rd_retryAfterMs = Some (max 0 (hd us + rp_windowMs p - now))\<rparr>,
           s\<lparr>rl_windows := Map_set key us (rl_windows s)\<rparr>))"
  using assms(1)
  by (cases us) (simp_all add: consumeMemorySlidingWindow_def assms(2) [unfolded window_at_def] Let_def)

lemma insort_max: "sorted us \<Longrightarrow> (\<And>u. u \<in> set us \<Longrightarrow> u \<le> x) \<Longrightarrow> insort x us = us @ [x :: rat]"
proof (induction us)
  case (Cons y us)
  have ih: "insort x us = us @ [x]" using Cons by auto
  show ?case
  proof (cases "x \<le> y")
    case True
    then have "insort x us = x # us" using Cons.prems(1) by (intro insort_is_Cons) auto
    then have "x # us = us @ [x]" using ih by simp
    moreover have "x = y" using True Cons.prems(2) [of y] by simp
    moreover have "insort x (y # us) = x # y # us" using True by simp
    ultimately show ?thesis by (metis append_Cons)
  qed (simp add: ih)
qed simp

context redis_zset
begin

lemma script_live:
  assumes "window_sim scores W z us upto_t" and "upto_t \<le> now" and "now \<le> t"
  shows "filter (\<lambda>u. t - W < u) (scores (z_remrange ops z 0 (now - W) now) t) = filter (\<lambda>u. t - W < u) us"
    and "scores (z_remrange ops z 0 (now - W) now) now = filter (\<lambda>u. now - W < u) us"
    and "\<forall>u \<in> set (scores (z_remrange ops z 0 (now - W) now) t). 0 \<le> u"
proof -
  have t: "filter (\<lambda>u. x - W < u) (scores z x) = filter (\<lambda>u. x - W < u) us"
    "\<forall>u \<in> set (scores z x). 0 \<le> u" if "now \<le> x" for x
    using assms(1,2) that unfolding window_sim_def by (meson order_trans)+
  have r: "scores (z_remrange ops z 0 (now - W) now) x = filter (\<lambda>u. now - W < u) (scores z x)" if "now \<le> x" for x
    unfolding scores_remrange [OF that] using t(2) [OF that] by (intro filter_cong) (auto simp: not_less)
  show "scores (z_remrange ops z 0 (now - W) now) now = filter (\<lambda>u. now - W < u) us" using r t(1) by simp
  have "filter (\<lambda>u. t - W < u) (filter (\<lambda>u. now - W < u) (scores z t)) = filter (\<lambda>u. t - W < u) (scores z t)"
    using assms(3) by (auto intro: filter_cong)
  then show "filter (\<lambda>u. t - W < u) (scores (z_remrange ops z 0 (now - W) now) t) = filter (\<lambda>u. t - W < u) us"
    using r [OF assms(3)] t(1) [OF assms(3)] by simp
  show "\<forall>u \<in> set (scores (z_remrange ops z 0 (now - W) now) t). 0 \<le> u" using r [OF assms(3)] t(2) [OF assms(3)] by simp
qed

text \<open>One request: the script answers as the memory limiter does, and the two stay together.\<close>

lemma script_step:
  assumes sim: "window_sim scores (rp_windowMs p) z (window_at key s) upto_t" and "upto_t \<le> now" and "0 \<le> now"
    and "0 < rp_limit p" and "rp_strategy p = SlidingWindow" and "i \<notin> set (members z)"
    and script: "SLIDING_WINDOW_LUA ops (rp_limit p) (rp_windowMs p) now i z = (r, z')"
    and mem: "consumeMemorySlidingWindow key p now s = (d, s')"
  shows "reply_decision p now r = d"
    and "window_sim scores (rp_windowMs p) z' (window_at key s') now"
    and "set (members z') \<subseteq> insert i (set (members z))"
proof -
  let ?W = "rp_windowMs p"
  let ?z1 = "z_remrange ops z 0 (now - ?W) now"
  obtain us where us_def: "filter (\<lambda>u. now - ?W < u) (window_at key s) = us" by blast
  note live = script_live [OF sim assms(2)]
  have z1: "scores ?z1 now = us" using live(2) [OF order_refl] us_def by (rule trans)
  have us: "sorted us" "\<And>u. u \<in> set us \<Longrightarrow> 0 \<le> u \<and> u \<le> now \<and> now - ?W < u"
    using sim assms(2) sorted_filter [of "\<lambda>u. u" "window_at key s"]
    by (auto simp: us_def [symmetric] window_sim_def)
  have fresh: "i \<notin> set (members ?z1)" using assms(6) members_step(1) by blast
  note m = memory_window_step [OF assms(4) us_def]
  show "reply_decision p now r = d"
  proof (cases us)
    case Nil
    then show ?thesis
      using script mem m assms(4,5) by (auto simp: SLIDING_WINDOW_LUA_def reply_decision_def Let_def card_scores first_scores z1)
  next
    case (Cons u vs)
    then have "now - ?W < u" using us(2) by simp
    then show ?thesis
      using script mem m assms(4,5) Cons
      by (auto simp: SLIDING_WINDOW_LUA_def reply_decision_def Let_def card_scores first_scores z1 split: if_splits)
  qed
  show "set (members z') \<subseteq> insert i (set (members z))"
    using script members_step(1) [of z 0 "now - ?W" now] members_step(2) [of ?z1 now i now]
      members_step(3) [of "z_add ops ?z1 now i now" ?W now]
    by (auto simp: SLIDING_WINDOW_LUA_def Let_def split: if_splits)
  show "window_sim scores ?W z' (window_at key s') now"
  proof (cases "of_nat (length us) < rp_limit p")
    case True
    then have z': "z' = z_pexpire ops (z_add ops ?z1 now i now) ?W now" and s': "window_at key s' = us @ [now]"
      using script mem m by (auto simp: SLIDING_WINDOW_LUA_def Let_def card_scores z1 window_at_def)
    have sc: "scores z' t = (if t < now + ?W then us @ [now] else [])" if "now \<le> t" for t
      using scores_pexpire [OF that] scores_add [OF fresh] us by (simp add: z' z1 insort_max)
    have gone: "filter (\<lambda>u. t - ?W < u) (us @ [now]) = []" if "\<not> t < now + ?W" for t
      using that us(2) by (fastforce simp: filter_empty_conv)
    show ?thesis
      unfolding window_sim_def s'
      using us assms(3) gone by (auto simp: sorted_append sc)
  next
    case False
    then have z': "z' = ?z1" and s': "window_at key s' = us"
      using script mem m by (auto simp: SLIDING_WINDOW_LUA_def Let_def card_scores z1 window_at_def)
    have "filter (\<lambda>u. t - ?W < u) us = filter (\<lambda>u. t - ?W < u) (window_at key s)" if "now \<le> t" for t
      using that by (auto simp: us_def [symmetric] intro: filter_cong)
    then show ?thesis
      unfolding window_sim_def s' z' using us live(1,3) by simp
  qed
qed

lemma script_run_memory:
  assumes "0 < rp_limit p" and "rp_strategy p = SlidingWindow"
  shows "window_sim scores (rp_windowMs p) z (window_at key s) upto_t \<Longrightarrow> sorted (upto_t # map fst es) \<Longrightarrow> 0 \<le> upto_t \<Longrightarrow>
    distinct (map snd es) \<Longrightarrow> set (members z) \<inter> snd ` set es = {} \<Longrightarrow>
    script_run ops p z es = memory_run key p s es"
proof (induction es arbitrary: z s upto_t)
  case (Cons e es)
  obtain now i where e: "e = (now, i)" by force
  obtain r z' where script: "SLIDING_WINDOW_LUA ops (rp_limit p) (rp_windowMs p) now i z = (r, z')" by fastforce
  obtain d s' where mem: "consumeMemorySlidingWindow key p now s = (d, s')" by fastforce
  have now: "upto_t \<le> now" "0 \<le> now" and i: "i \<notin> set (members z)" using Cons.prems e by auto
  note st = script_step [OF Cons.prems(1) now assms i script mem]
  have "i \<notin> snd ` set es" "set (members z) \<inter> snd ` set es = {}" using Cons.prems(4,5) e by auto
  then have "set (members z') \<inter> snd ` set es = {}" using st(3) by blast
  then have "script_run ops p z' es = memory_run key p s' es"
    using Cons.prems(2,4) e now by (intro Cons.IH [OF st(2)]) auto
  then show ?case using st(1) script mem assms(2) e by (simp add: consumeMemory_def)
qed simp

end

section \<open>The token-bucket script\<close>

lemma script_level:
  "TOKEN_BUCKET_LUA ops (rp_burst p) (rate_per_sec p) now 1 h =
     (let L = redis_level ops p h now;
          ttl_ok = of_int \<lceil>(rp_burst p - (L - 1) + 1) / rate_per_sec p\<rceil>;
          ttl_no = of_int \<lceil>(1 - L + 1) / rate_per_sec p\<rceil>
      in if 1 \<le> L
         then ((1, of_int \<lfloor>L - 1\<rfloor>, 0), h_mset_expire ops h (L - 1, now) (if ttl_ok < 1 then 1 else ttl_ok) now)
         else ((0, of_int \<lfloor>L\<rfloor>, of_int \<lceil>(1 - L) / rate_per_sec p * 1000\<rceil>),
               h_mset_expire ops h (L, now) (if ttl_no < 1 then 1 else ttl_no) now))"
  by (cases "h_mget ops h now") (auto simp: TOKEN_BUCKET_LUA_def redis_level_def Let_def)

context redis_hash
begin

text \<open>After an admitted request the time to live covers the refill: its expiry cannot be seen.\<close>

lemma admitted_level:
  assumes "0 < rate_per_sec p" and "now \<le> t" and "1 \<le> redis_level ops p h now"
    and "TOKEN_BUCKET_LUA ops (rp_burst p) (rate_per_sec p) now 1 h = (r, h')"
  shows "r = (1, of_int \<lfloor>redis_level ops p h now - 1\<rfloor>, 0)"
    and "redis_level ops p h' t =
      min (rp_burst p) (redis_level ops p h now - 1 + (t - now) * rate_per_sec p / 1000)"
proof -
  let ?L = "redis_level ops p h now - 1"
  define ttl :: rat where "ttl = of_int \<lceil>(rp_burst p - ?L + 1) / rate_per_sec p\<rceil>"
  have h': "r = (1, of_int \<lfloor>?L\<rfloor>, 0)" "h' = h_mset_expire ops h (?L, now) (if ttl < 1 then 1 else ttl) now"
    using assms(3,4) by (auto simp: script_level Let_def ttl_def)
  then show "r = (1, of_int \<lfloor>?L\<rfloor>, 0)" by simp
  show "redis_level ops p h' t = min (rp_burst p) (?L + (t - now) * rate_per_sec p / 1000)"
  proof (cases "t < now + (if ttl < 1 then 1 else ttl) * 1000")
    case True
    then show ?thesis by (simp add: redis_level_def h'(2) mget_mset [OF assms(2)])
  next
    case False
    have "(rp_burst p - ?L + 1) / rate_per_sec p \<le> ttl" unfolding ttl_def by (rule le_of_int_ceiling)
    then have "(rp_burst p - ?L + 1) / rate_per_sec p \<le> (if ttl < 1 then 1 else ttl)" by (simp split: if_splits)
    then have "(rp_burst p - ?L + 1) / rate_per_sec p * 1000 \<le> (if ttl < 1 then 1 else ttl) * 1000"
      by (rule mult_right_mono) simp
    also have "\<dots> \<le> t - now" using False by simp
    finally have "(rp_burst p - ?L + 1) / rate_per_sec p * 1000 \<le> t - now" .
    then have "rp_burst p - ?L + 1 \<le> (t - now) * rate_per_sec p / 1000" using assms(1) by (simp add: field_simps)
    then show ?thesis using False by (simp add: redis_level_def h'(2) mget_mset [OF assms(2)] min_def)
  qed
qed

text \<open>After a refused request the key expires early, and the bucket is full again.\<close>

lemma refused_level:
  assumes "redis_level ops p h now < 1"
    and "TOKEN_BUCKET_LUA ops (rp_burst p) (rate_per_sec p) now 1 h = (r, h')"
    and "now + max 1 (of_int \<lceil>(2 - redis_level ops p h now) / rate_per_sec p\<rceil>) * 1000 \<le> t"
  shows "redis_level ops p h' t = rp_burst p" and "fst r = 0"
proof -
  let ?L = "redis_level ops p h now"
  define ttl :: rat where "ttl = of_int \<lceil>(1 - ?L + 1) / rate_per_sec p\<rceil>"
  have h': "fst r = 0" "h' = h_mset_expire ops h (?L, now) (if ttl < 1 then 1 else ttl) now"
    using assms(1,2) by (auto simp: script_level Let_def ttl_def)
  then show "fst r = 0" by simp
  have "ttl = of_int \<lceil>(2 - ?L) / rate_per_sec p\<rceil>" by (simp add: ttl_def)
  then have t: "now + (if ttl < 1 then 1 else ttl) * 1000 \<le> t" using assms(3) by (auto simp: max_def split: if_splits)
  moreover have "now \<le> now + (if ttl < 1 then 1 else ttl) * 1000" by simp
  ultimately have "now \<le> t" by (rule order_trans [rotated])
  then show "redis_level ops p h' t = rp_burst p"
    using t mget_mset [of now t h "(?L, now)"] by (simp add: redis_level_def h'(2) not_less)
qed

end

section \<open>Properties\<close>



text \<open>
  The token-bucket script keeps the memory bucket's level through admitted requests: when
  a key stands for the same level in Redis and in memory from some time on, an admitted request
  gets the same answer from both, and both stand for the same level at every later time,
  whether or not the Redis key has expired by then.
\<close>

theorem redis_bucket_refines_memory:
  assumes "redis_hash ops" and "0 < rate_per_sec p" and "rp_strategy p = TokenBucket"
    and "redis_level ops p h now = memory_level key p s now" and "1 \<le> memory_level key p s now"
  shows "case (TOKEN_BUCKET_LUA ops (rp_burst p) (rate_per_sec p) now 1 h, consumeMemory key p now s) of
      ((r, h'), (d, s')) \<Rightarrow> rd_allowed (reply_decision p now r) \<and> rd_allowed d \<and>
        rd_remaining (reply_decision p now r) = rd_remaining d \<and>
        (\<forall>t \<ge> now. redis_level ops p h' t = memory_level key p s' t)"
proof -
  let ?L = "memory_level key p s now"
  obtain r h' where script: "TOKEN_BUCKET_LUA ops (rp_burst p) (rate_per_sec p) now 1 h = (r, h')" by fastforce
  obtain d s' where mem: "consumeMemory key p now s = (d, s')" by fastforce
  have d: "rd_allowed d" "rd_remaining d = max 0 (of_int \<lfloor>?L - 1\<rfloor>)"
    "Map_get key (rl_buckets s') = Some \<lparr>mb_tokens = ?L - 1, mb_ts = now\<rparr>"
    using mem assms(3,5)
    by (auto simp: consumeMemory_def consumeMemoryTokenBucket_def memory_level_def Let_def split: option.splits)
  note lv = redis_hash.admitted_level [OF assms(1,2) _ _ script, unfolded assms(4), OF _ assms(5)]
  show ?thesis
    using lv(1) [OF order_refl] lv(2) d by (simp add: script mem reply_decision_def memory_level_def)
qed

theorem redis_bucket_refines_memory_witness:
  "let p = \<lparr>rp_limit = 60, rp_windowMs = 60000, rp_burst = 2, rp_strategy = TokenBucket\<rparr>
   in case (TOKEN_BUCKET_LUA ttl_hash 2 1 0 1 None, consumeMemory ''k'' p 0 (new_rate_limiter None)) of
      ((r, h'), (d, s')) \<Rightarrow> rd_allowed d \<and> (\<forall>t \<ge> 0. redis_level ttl_hash p h' t = memory_level ''k'' p s' t)"
proof -
  let ?p = "\<lparr>rp_limit = 60, rp_windowMs = 60000, rp_burst = 2, rp_strategy = TokenBucket\<rparr>"
  have "rate_per_sec ?p = 1" by (simp add: rate_per_sec_def)
  moreover have "redis_level ttl_hash ?p None 0 = memory_level ''k'' ?p (new_rate_limiter None) 0"
    "1 \<le> memory_level ''k'' ?p (new_rate_limiter None) 0"
    by (simp_all add: redis_level_def memory_level_def ttl_hash_def live_def new_rate_limiter_def)
  ultimately show ?thesis
    using redis_bucket_refines_memory [OF th.redis_hash_axioms, of ?p None 0 "''k''" "new_rate_limiter None"]
    by (simp add: split_beta Let_def)
qed

text \<open>
  A refused request refills the Redis bucket: the script gives the key of a refused request
  a time to live of about two tokens' refill, and when it is over the bucket is full. A
  caller refused at a level below one that pauses so long gets a level of a whole burst,
  where the memory bucket has only refilled by the time that passed.
\<close>

theorem redis_refusal_refills_bucket:
  assumes "redis_hash ops" and "redis_level ops p h now < 1" and "memory_level key p s now = redis_level ops p h now"
    and "rp_strategy p = TokenBucket"
    and "now + max 1 (of_int \<lceil>(2 - redis_level ops p h now) / rate_per_sec p\<rceil>) * 1000 \<le> t"
  shows "redis_level ops p (snd (TOKEN_BUCKET_LUA ops (rp_burst p) (rate_per_sec p) now 1 h)) t = rp_burst p \<and>
    memory_level key p (snd (consumeMemory key p now s)) t =
      min (rp_burst p) (memory_level key p s now + (t - now) * rate_per_sec p / 1000)"
proof
  show "redis_level ops p (snd (TOKEN_BUCKET_LUA ops (rp_burst p) (rate_per_sec p) now 1 h)) t = rp_burst p"
    using redis_hash.refused_level(1) [OF assms(1,2) _ assms(5)] by (metis prod.collapse)
  have "memory_level key p s now < 1" using assms(2,3) by simp
  then have "Map_get key (rl_buckets (snd (consumeMemory key p now s))) = Some \<lparr>mb_tokens = memory_level key p s now, mb_ts = now\<rparr>"
    using assms(4) by (auto simp: consumeMemory_def consumeMemoryTokenBucket_def memory_level_def Let_def split: option.splits)
  then show "memory_level key p (snd (consumeMemory key p now s)) t =
      min (rp_burst p) (memory_level key p s now + (t - now) * rate_per_sec p / 1000)"
    by (simp add: memory_level_def)
qed

theorem redis_refusal_refills_bucket_witness:
  "let p = \<lparr>rp_limit = 60, rp_windowMs = 60000, rp_burst = 100, rp_strategy = TokenBucket\<rparr>;
       h = Some ((0, 0), Some 500000); s = new_rate_limiter None\<lparr>rl_buckets := [(''k'', \<lparr>mb_tokens = 0, mb_ts = 0\<rparr>)]\<rparr>
   in redis_level ttl_hash p (snd (TOKEN_BUCKET_LUA ttl_hash 100 1 0 1 h)) 2000 = 100 \<and>
      memory_level ''k'' p (snd (consumeMemory ''k'' p 0 s)) 2000 = 2"
proof -
  let ?p = "\<lparr>rp_limit = 60, rp_windowMs = 60000, rp_burst = 100, rp_strategy = TokenBucket\<rparr>"
  let ?h = "Some ((0, 0), Some 500000) :: (rat \<times> rat) ttl_key"
  let ?s = "new_rate_limiter None\<lparr>rl_buckets := [(''k'', \<lparr>mb_tokens = 0, mb_ts = 0\<rparr>)]\<rparr>"
  have "rate_per_sec ?p = 1" by (simp add: rate_per_sec_def)
  moreover have "redis_level ttl_hash ?p ?h 0 = 0" "memory_level ''k'' ?p ?s 0 = 0"
    by (simp_all add: redis_level_def memory_level_def ttl_hash_def live_def Map_get_def)
  ultimately show ?thesis
    using redis_refusal_refills_bucket [OF th.redis_hash_axioms, of ?p ?h 0 "''k''" ?s 2000] by simp
qed

end
