(* ===== verification/Access_Lists.thy ===== *)
theory Access_Lists
  imports Rate_Limiter
begin

text \<open>
  The whitelist and the blacklist of \<open>RateLimiterService\<close>. Both are kept in memory and, when
  Redis answers, in a Redis hash: the commands an operation sends are part of its result, the
  reply to \<open>hgetall\<close> is part of its environment (None when the call threw or an entry did not
  parse). \<open>JSON.parse\<close> after \<open>JSON.stringify\<close> gives back the entry.
\<close>

record list_env =
  ln_checkedAt :: rat
  ln_ping :: bool
  ln_raw :: "list_entry list option"
  ln_now :: rat
  ln_later :: rat

datatype redis_cmd = HSet string string list_entry | HDel string "string list"

fun type_name :: "list_entry_type \<Rightarrow> string" where
  "type_name IpEntry = ''ip''"
| "type_name UserEntry = ''user''"
| "type_name KeyEntry = ''key''"
| "type_name PathEntry = ''path''"

definition normalize_value :: "string \<Rightarrow> string" where
  "normalize_value value = toLowerCase (trim value)"

record new_entry =
  ne_type :: list_entry_type
  ne_value :: string
  ne_reason :: "string option"
  ne_expiresAt :: "rat option"

definition make_entry :: "new_entry \<Rightarrow> rat \<Rightarrow> list_entry" where
  "make_entry e now =
     \<lparr>le_id = type_name (ne_type e) @ '':'' @ ne_value e, le_type = ne_type e, le_value = normalize_value (ne_value e),
      le_reason = ne_reason e, le_createdAt = now, le_expiresAt = ne_expiresAt e\<rparr>"

definition addWhitelist ::
  "rl_config \<Rightarrow> list_env \<Rightarrow> new_entry \<Rightarrow> rate_limiter \<Rightarrow> list_entry \<times> redis_cmd list \<times> rate_limiter" where
  "addWhitelist cfg env e s =
     (let item = make_entry e (ln_checkedAt env);
          (healthy, s') = isRedisHealthy cfg (ln_ping env) (ln_checkedAt env)
             (s\<lparr>rl_whitelist := Map_set (le_id item) item (rl_whitelist s)\<rparr>)
      in (item, if healthy then [HSet (rc_keyPrefix cfg @ ''whitelist'') (le_id item) item] else [], s'))"

definition addBlacklist ::
  "rl_config \<Rightarrow> list_env \<Rightarrow> new_entry \<Rightarrow> rate_limiter \<Rightarrow> list_entry \<times> redis_cmd list \<times> rate_limiter" where
  "addBlacklist cfg env e s =
     (let item = make_entry e (ln_checkedAt env);
          (healthy, s') = isRedisHealthy cfg (ln_ping env) (ln_checkedAt env)
             (s\<lparr>rl_blacklist := Map_set (le_id item) item (rl_blacklist s)\<rparr>)
      in (item, if healthy then [HSet (rc_keyPrefix cfg @ ''blacklist'') (le_id item) item] else [], s'))"

text \<open>Both removals delete every entry with that normalised value or with that id.\<close>

definition removed_by :: "string \<Rightarrow> string \<Rightarrow> list_entry \<Rightarrow> bool" where
  "removed_by value i e \<longleftrightarrow> le_value e = normalize_value value \<or> i = value"

definition removeWhitelist ::
  "rl_config \<Rightarrow> list_env \<Rightarrow> string \<Rightarrow> rate_limiter \<Rightarrow> bool \<times> redis_cmd list \<times> rate_limiter" where
  "removeWhitelist cfg env value s =
     (let removed = list_ex (\<lambda>(i, e). removed_by value i e) (rl_whitelist s);
          (healthy, s') = isRedisHealthy cfg (ln_ping env) (ln_checkedAt env)
             (s\<lparr>rl_whitelist := Map_filter (\<lambda>i e. \<not> removed_by value i e) (rl_whitelist s)\<rparr>)
      in (removed, if healthy then [HDel (rc_keyPrefix cfg @ ''whitelist'') [value, normalize_value value]] else [], s'))"

definition removeBlacklist ::
  "rl_config \<Rightarrow> list_env \<Rightarrow> string \<Rightarrow> rate_limiter \<Rightarrow> bool \<times> redis_cmd list \<times> rate_limiter" where
  "removeBlacklist cfg env value s =
     (let removed = list_ex (\<lambda>(i, e). removed_by value i e) (rl_blacklist s);
          (healthy, s') = isRedisHealthy cfg (ln_ping env) (ln_checkedAt env)
             (s\<lparr>rl_blacklist := Map_filter (\<lambda>i e. \<not> removed_by value i e) (rl_blacklist s)\<rparr>)
      in (removed, if healthy then [HDel (rc_keyPrefix cfg @ ''blacklist'') [value, normalize_value value]] else [], s'))"

text \<open>An expiry of 0 is falsy and counts as none.\<close>

definition unexpired :: "rat \<Rightarrow> list_entry \<Rightarrow> bool" where
  "unexpired now e = (case le_expiresAt e of None \<Rightarrow> True | Some x \<Rightarrow> x = 0 \<or> x > now)"

definition listWhitelist :: "rl_config \<Rightarrow> list_env \<Rightarrow> rate_limiter \<Rightarrow> list_entry list \<times> rate_limiter" where
  "listWhitelist cfg env s =
     (let (healthy, s') = isRedisHealthy cfg (ln_ping env) (ln_checkedAt env) s
      in case (if healthy then ln_raw env else None) of
           Some raw \<Rightarrow>
             (let result = filter (unexpired (ln_now env)) raw
              in (result, s'\<lparr>rl_whitelist := fold (\<lambda>e m. Map_set (le_id e) e m) result (rl_whitelist s')\<rparr>))
         | None \<Rightarrow> (filter (unexpired (ln_now env)) (Map_values (rl_whitelist s')), s'))"

definition listBlacklist :: "rl_config \<Rightarrow> list_env \<Rightarrow> rate_limiter \<Rightarrow> list_entry list \<times> rate_limiter" where
  "listBlacklist cfg env s =
     (let (healthy, s') = isRedisHealthy cfg (ln_ping env) (ln_checkedAt env) s
      in case (if healthy then ln_raw env else None) of
           Some raw \<Rightarrow>
             (let result = filter (unexpired (ln_now env)) raw
              in (result, s'\<lparr>rl_blacklist := fold (\<lambda>e m. Map_set (le_id e) e m) result (rl_blacklist s')\<rparr>))
         | None \<Rightarrow> (filter (unexpired (ln_now env)) (Map_values (rl_blacklist s')), s'))"

definition matchIpPattern :: "string \<Rightarrow> string \<Rightarrow> bool" where
  "matchIpPattern ip pattern =
     (if pattern = ip then True
      else if endsWith pattern ''*'' then startsWith ip (butlast pattern)
      else False)"

definition matchPathPattern :: "string \<Rightarrow> string \<Rightarrow> bool" where
  "matchPathPattern path pattern =
     (if pattern = path \<or> pattern = ''*'' then True
      else if endsWith pattern ''*'' then startsWith path (butlast pattern)
      else False)"

text \<open>An optional argument that is missing or empty is falsy and is not compared.\<close>

definition given :: "string option \<Rightarrow> (string \<Rightarrow> bool) \<Rightarrow> bool" where
  "given x P = (case x of None \<Rightarrow> False | Some v \<Rightarrow> v \<noteq> [] \<and> P v)"

definition white_match :: "string option \<Rightarrow> string option \<Rightarrow> string option \<Rightarrow> string option \<Rightarrow> list_entry \<Rightarrow> bool" where
  "white_match ip userId key path e =
     (le_type e = IpEntry \<and> given ip (\<lambda>v. le_value e = toLowerCase v \<or> le_value e = ''*'' \<or> matchIpPattern v (le_value e)) \<or>
      le_type e = UserEntry \<and> given userId (\<lambda>v. le_value e = toLowerCase v) \<or>
      le_type e = KeyEntry \<and> given key (\<lambda>v. le_value e = toLowerCase v) \<or>
      le_type e = PathEntry \<and> given path (\<lambda>v. matchPathPattern v (le_value e)))"

definition black_match :: "string option \<Rightarrow> string option \<Rightarrow> string option \<Rightarrow> list_entry \<Rightarrow> bool" where
  "black_match ip userId key e =
     (le_type e = IpEntry \<and> given ip (\<lambda>v. le_value e = toLowerCase v \<or> matchIpPattern v (le_value e)) \<or>
      le_type e = UserEntry \<and> given userId (\<lambda>v. le_value e = toLowerCase v) \<or>
      le_type e = KeyEntry \<and> given key (\<lambda>v. le_value e = toLowerCase v))"

definition isWhitelisted ::
  "rl_config \<Rightarrow> list_env \<Rightarrow> string option \<Rightarrow> string option \<Rightarrow> string option \<Rightarrow> string option \<Rightarrow> rate_limiter \<Rightarrow> bool \<times> rate_limiter"
  where
  "isWhitelisted cfg env ip userId key path s =
     (let (es, s') = listWhitelist cfg env s
      in (list_ex (\<lambda>e. unexpired (ln_later env) e \<and> white_match ip userId key path e) es, s'))"

definition isBlacklisted ::
  "rl_config \<Rightarrow> list_env \<Rightarrow> string option \<Rightarrow> string option \<Rightarrow> string option \<Rightarrow> rate_limiter \<Rightarrow> bool \<times> rate_limiter"
  where
  "isBlacklisted cfg env ip userId key s =
     (let (es, s') = listBlacklist cfg env s
      in (list_ex (\<lambda>e. unexpired (ln_later env) e \<and> black_match ip userId key e) es, s'))"

section \<open>Specification\<close>

datatype list_call =
    AddWhite list_env new_entry
  | RemoveWhite list_env string
  | AddBlack list_env new_entry
  | RemoveBlack list_env string
  | CheckWhite list_env "string option" "string option" "string option" "string option"
  | CheckBlack list_env "string option" "string option" "string option"

fun list_step :: "rl_config \<Rightarrow> rate_limiter \<Rightarrow> list_call \<Rightarrow> rate_limiter" where
  "list_step cfg s (AddWhite env e) = snd (snd (addWhitelist cfg env e s))"
| "list_step cfg s (RemoveWhite env v) = snd (snd (removeWhitelist cfg env v s))"
| "list_step cfg s (AddBlack env e) = snd (snd (addBlacklist cfg env e s))"
| "list_step cfg s (RemoveBlack env v) = snd (snd (removeBlacklist cfg env v s))"
| "list_step cfg s (CheckWhite env ip u k p) = snd (isWhitelisted cfg env ip u k p s)"
| "list_step cfg s (CheckBlack env ip u k) = snd (isBlacklisted cfg env ip u k s)"

text \<open>A call that neither removes the blacklist entry \<open>b\<close> nor writes another entry under its id.\<close>

fun leaves_ban :: "list_entry \<Rightarrow> list_call \<Rightarrow> bool" where
  "leaves_ban b (AddBlack env e) = (le_id (make_entry e 0) \<noteq> le_id b)"
| "leaves_ban b (RemoveBlack env v) = (\<not> removed_by v (le_id b) b)"
| "leaves_ban b _ = True"

text \<open>What the commands do to a Redis hash.\<close>

fun apply_cmd ::
  "(string \<Rightarrow> list_entry \<Rightarrow> 'h \<Rightarrow> 'h) \<Rightarrow> (string \<Rightarrow> 'h \<Rightarrow> 'h) \<Rightarrow> redis_cmd \<Rightarrow> 'h \<Rightarrow> 'h" where
  "apply_cmd hset hdel (HSet _ f v) h = hset f v h"
| "apply_cmd hset hdel (HDel _ fs) h = fold hdel fs h"

section \<open>Facts\<close>

lemma isRedisHealthy_off [simp]: "\<not> rc_redis cfg \<Longrightarrow> isRedisHealthy cfg b now s = (False, s)"
  by (simp add: isRedisHealthy_def)

lemma isRedisHealthy_lists [simp]:
  "rl_blacklist (snd (isRedisHealthy cfg b now s)) = rl_blacklist s"
  "rl_whitelist (snd (isRedisHealthy cfg b now s)) = rl_whitelist s"
  by (simp_all add: isRedisHealthy_def)

lemma length_trim: "length (trim v) \<le> length v"
  unfolding trim_def using length_dropWhile_le by (metis le_trans length_rev)

lemma id_not_value: "le_id (make_entry e now) \<noteq> ne_value e \<and> le_id (make_entry e now) \<noteq> normalize_value (ne_value e)"
proof -
  have "length (ne_value e) < length (le_id (make_entry e now))" by (simp add: make_entry_def)
  moreover have "length (normalize_value (ne_value e)) \<le> length (ne_value e)" by (simp add: normalize_value_def length_trim)
  ultimately show ?thesis by auto
qed

lemma toLowerCase_normalize: "toLowerCase (normalize_value v) = normalize_value v"
proof -
  have "to_lower_char (to_lower_char x) = to_lower_char x" for x
    by (auto simp: to_lower_char_def Let_def)
  then show ?thesis by (simp add: normalize_value_def toLowerCase_def)
qed

lemma le_id_make_entry: "le_id (make_entry e t) = le_id (make_entry e 0)"
  by (simp add: make_entry_def)

text \<open>Without Redis every call keeps the entry, and the keys of the map stay unique.\<close>

lemma leaves_ban_step:
  assumes "\<not> rc_redis cfg" and "leaves_ban b c" and "Map_wf (rl_blacklist s)" and "Map_get (le_id b) (rl_blacklist s) = Some b"
  shows "Map_get (le_id b) (rl_blacklist (list_step cfg s c)) = Some b \<and> Map_wf (rl_blacklist (list_step cfg s c))"
  using assms
proof (cases c)
  case (AddBlack env e)
  then show ?thesis
    using assms le_id_make_entry [of e "ln_checkedAt env"] by (simp add: addBlacklist_def Let_def)
next
  case (RemoveBlack env v)
  then show ?thesis using assms by (simp add: removeBlacklist_def Let_def Map_get_filter Map_wf_filter)
qed (simp_all add: addWhitelist_def removeWhitelist_def isWhitelisted_def listWhitelist_def isBlacklisted_def
    listBlacklist_def Let_def)

lemma leaves_ban_run:
  assumes "\<not> rc_redis cfg"
  shows "list_all (leaves_ban b) cs \<Longrightarrow> Map_wf (rl_blacklist s) \<Longrightarrow> Map_get (le_id b) (rl_blacklist s) = Some b \<Longrightarrow>
    Map_get (le_id b) (rl_blacklist (run (list_step cfg) s cs)) = Some b \<and> Map_wf (rl_blacklist (run (list_step cfg) s cs))"
proof (induction cs arbitrary: s)
  case (Cons c cs)
  then show ?case using leaves_ban_step [OF assms, of b c s] by simp
qed simp

lemma isBlacklisted_memory:
  assumes "\<not> rc_redis cfg" and "Map_wf (rl_blacklist s)" and "ln_now env \<le> ln_later env"
  shows "fst (isBlacklisted cfg env ip userId key s) \<longleftrightarrow>
    (\<exists>i e. Map_get i (rl_blacklist s) = Some e \<and> unexpired (ln_later env) e \<and> black_match ip userId key e)"
proof -
  have "unexpired (ln_now env) e" if "unexpired (ln_later env) e" for e
    using that assms(3) by (auto simp: unexpired_def split: option.splits)
  then show ?thesis
    using assms(1) by (auto simp: isBlacklisted_def listBlacklist_def Let_def list_ex_iff set_Map_values [OF assms(2)])
qed

section \<open>Properties\<close>

text \<open>
  A ban holds: without Redis, an address added to the blacklist is reported as blacklisted,
  in any letter case, after every further history of list operations that does not remove the
  entry or write over it, until the entry expires.
\<close>

theorem ban_holds_until_expiry:
  assumes "\<not> rc_redis cfg" and "Map_wf (rl_blacklist s)" and "ne_type e = IpEntry"
    and "addBlacklist cfg env0 e s = (b, cmds, s')" and "list_all (leaves_ban b) cs"
    and "toLowerCase ip = normalize_value (ne_value e)" and "ip \<noteq> []"
    and "unexpired (ln_later env) b" and "ln_now env \<le> ln_later env"
  shows "fst (isBlacklisted cfg env (Some ip) userId key (run (list_step cfg) s' cs))"
proof -
  have b: "b = make_entry e (ln_checkedAt env0)" and s': "s' = s\<lparr>rl_blacklist := Map_set (le_id b) b (rl_blacklist s)\<rparr>"
    using assms(1,4) by (auto simp: addBlacklist_def Let_def)
  have kept: "Map_get (le_id b) (rl_blacklist (run (list_step cfg) s' cs)) = Some b \<and>
      Map_wf (rl_blacklist (run (list_step cfg) s' cs))"
    using assms(2) s' by (intro leaves_ban_run [OF assms(1,5)]) auto
  moreover have "black_match (Some ip) userId key b"
    using assms(3,6,7) by (simp add: black_match_def given_def b make_entry_def)
  ultimately show ?thesis using assms(8) isBlacklisted_memory [OF assms(1) _ assms(9)] by blast
qed

theorem ban_holds_until_expiry_witness:
  "let cfg = new_config False None None; env = \<lparr>ln_checkedAt = 0, ln_ping = False, ln_raw = None, ln_now = 5, ln_later = 5\<rparr>;
       e = \<lparr>ne_type = IpEntry, ne_value = '' 10.0.0.FE '', ne_reason = None, ne_expiresAt = Some 9\<rparr>
   in fst (isBlacklisted cfg env (Some ''10.0.0.fe'') None None
        (run (list_step cfg) (snd (snd (addBlacklist cfg env e (new_rate_limiter None)))) [RemoveBlack env ''10.0.0.1'']))"
proof -
  let ?cfg = "new_config False None None"
  let ?env = "\<lparr>ln_checkedAt = 0, ln_ping = False, ln_raw = None, ln_now = 5, ln_later = 5\<rparr>"
  let ?e = "\<lparr>ne_type = IpEntry, ne_value = '' 10.0.0.FE '', ne_reason = None, ne_expiresAt = Some 9\<rparr>"
  let ?b = "make_entry ?e 0" and ?s = "new_rate_limiter None"
  have add: "addBlacklist ?cfg ?env ?e ?s = (?b, fst (snd (addBlacklist ?cfg ?env ?e ?s)), snd (snd (addBlacklist ?cfg ?env ?e ?s)))"
    by (simp add: addBlacklist_def Let_def new_config_def)
  have other: "list_all (leaves_ban ?b) [RemoveBlack ?env ''10.0.0.1'']" by code_simp
  have "toLowerCase ''10.0.0.fe'' = normalize_value (ne_value ?e)" "Map_wf (rl_blacklist ?s)" "\<not> rc_redis ?cfg"
    "unexpired (ln_later ?env) ?b" by code_simp+
  then show ?thesis
    unfolding Let_def using ban_holds_until_expiry [OF _ _ _ add other, of "''10.0.0.fe''" ?env None None] by simp
qed

text \<open>
  With Redis a ban cannot be lifted by its value: the entry is stored under the field
  \<open>type:value\<close>, the removal deletes the fields \<open>value\<close> and its normalised form. Over any hash
  that keeps the laws of a keyed store, the entry is still there after it was added and then
  removed by its value, and the next check that reads the hash reports the address as banned.
\<close>

theorem redis_ban_survives_removal:
  assumes "keyed_store hget hset hdel hash_ok" and "ne_type e = IpEntry" and "normalize_value (ne_value e) \<noteq> []"
    and "addBlacklist cfg env e s = (b, [set_cmd], s1)" and "removeBlacklist cfg env' (ne_value e) s2 = (ok, [del_cmd], s3)"
    and "fst (isRedisHealthy cfg (ln_ping env'') (ln_checkedAt env'') s3)" and "ln_raw env'' = Some raw"
    and "unexpired (ln_now env'') b" and "unexpired (ln_later env'') b"
  shows "hget (le_id b) (apply_cmd hset hdel del_cmd (apply_cmd hset hdel set_cmd h)) = Some b \<and>
    (b \<in> set raw \<longrightarrow> fst (isBlacklisted cfg env'' (Some (normalize_value (ne_value e))) None None s3))"
proof -
  have b: "b = make_entry e (ln_checkedAt env)"
    and cmds: "set_cmd = HSet (rc_keyPrefix cfg @ ''blacklist'') (le_id b) b"
      "del_cmd = HDel (rc_keyPrefix cfg @ ''blacklist'') [ne_value e, normalize_value (ne_value e)]"
    using assms(4,5) by (auto simp: addBlacklist_def removeBlacklist_def Let_def split: prod.splits if_splits)
  have "hget (le_id b) (apply_cmd hset hdel del_cmd (apply_cmd hset hdel set_cmd h)) = Some b"
    using keyed_store.lookup_store [OF assms(1)] keyed_store.lookup_remove [OF assms(1)] id_not_value [of e "ln_checkedAt env"]
    by (simp add: cmds b [symmetric])
  moreover have "black_match (Some (normalize_value (ne_value e))) None None b"
    using assms(2,3) b by (simp add: black_match_def given_def make_entry_def toLowerCase_normalize)
  ultimately show ?thesis
    using assms(6-9) by (auto simp: isBlacklisted_def listBlacklist_def Let_def list_ex_iff split: prod.splits)
qed

theorem redis_ban_survives_removal_witness:
  "let cfg = new_config True None None;
       e = \<lparr>ne_type = IpEntry, ne_value = ''10.0.0.1'', ne_reason = None, ne_expiresAt = None\<rparr>;
       env = \<lparr>ln_checkedAt = 6000, ln_ping = True, ln_raw = Some [make_entry e 6000], ln_now = 6000, ln_later = 6000\<rparr>;
       s1 = snd (snd (addBlacklist cfg env e (new_rate_limiter None)));
       s2 = snd (snd (removeBlacklist cfg env ''10.0.0.1'' s1))
   in Map_get (le_id (make_entry e 6000)) (rl_blacklist s2) = None \<and> fst (isBlacklisted cfg env (Some ''10.0.0.1'') None None s2)"
proof -
  let ?cfg = "new_config True None None"
  let ?e = "\<lparr>ne_type = IpEntry, ne_value = ''10.0.0.1'', ne_reason = None, ne_expiresAt = None\<rparr>"
  let ?env = "\<lparr>ln_checkedAt = 6000, ln_ping = True, ln_raw = Some [make_entry ?e 6000], ln_now = 6000, ln_later = 6000\<rparr>"
  let ?b = "make_entry ?e 6000" and ?h = "''alian:rl:blacklist''"
  let ?s1 = "snd (snd (addBlacklist ?cfg ?env ?e (new_rate_limiter None)))"
  let ?s2 = "snd (snd (removeBlacklist ?cfg ?env ''10.0.0.1'' ?s1))"
  have add: "addBlacklist ?cfg ?env ?e (new_rate_limiter None) = (?b, [HSet ?h (le_id ?b) ?b], ?s1)" by code_simp
  have rm: "removeBlacklist ?cfg ?env (ne_value ?e) ?s1 = (True, [HDel ?h [''10.0.0.1'', ''10.0.0.1'']], ?s2)" by code_simp
  have rest: "fst (isRedisHealthy ?cfg (ln_ping ?env) (ln_checkedAt ?env) ?s2)" "Map_get (le_id ?b) (rl_blacklist ?s2) = None"
    by code_simp+
  have norm: "normalize_value (ne_value ?e) = ''10.0.0.1''" by code_simp
  have nonempty: "normalize_value (ne_value ?e) \<noteq> []" by code_simp
  have "fst (isBlacklisted ?cfg ?env (Some (normalize_value (ne_value ?e))) None None ?s2)"
    using redis_ban_survives_removal [OF jm.keyed_store_axioms _ nonempty add rm rest(1), of "[?b]"]
    by (simp add: unexpired_def make_entry_def)
  with rest(2) show ?thesis unfolding norm Let_def by (rule conjI)
qed

end
