(* ===== verification/Rate_Analytics.thy ===== *)
theory Rate_Analytics
  imports Access_Lists
begin

text \<open>
  The rest of \<open>RateLimiterService\<close>: the record of violations and its analytics, the endpoint
  rules and the queries on the registry. Replies of Redis are arguments, None when the call
  threw. \<open>Record\<close> objects are maps in insertion order (keys that look like array indices, which
  JavaScript would put first, do not occur among trackers and routes); a five-minute bucket is
  identified by its start in milliseconds, whose order is that of the ISO strings.
\<close>

text \<open>\<open>xs.slice(0, n)\<close>.\<close>

definition slice_to :: "int \<Rightarrow> 'a list \<Rightarrow> 'a list" where
  "slice_to n xs = take (nat (if n \<ge> 0 then n else int (length xs) + n)) xs"

section \<open>Violations\<close>

datatype violation_cmd = LPush string violation | LTrim string int int

definition recordViolation ::
  "rl_config \<Rightarrow> bool \<Rightarrow> rat \<Rightarrow> string \<Rightarrow> violation \<Rightarrow> rate_limiter \<Rightarrow> violation \<times> violation_cmd list \<times> rate_limiter" where
  "recordViolation cfg ping now i v s =
     (let r = v\<lparr>rv_id := i, rv_timestamp := now\<rparr>;
          (healthy, s') = isRedisHealthy cfg ping now (s\<lparr>rl_violations := take 2000 (r # rl_violations s)\<rparr>)
      in (r, if healthy then [LPush (rc_keyPrefix cfg @ ''violations'') r, LTrim (rc_keyPrefix cfg @ ''violations'') 0 1999] else [], s'))"

record violation_filter =
  vf_tracker :: "string option"
  vf_ip :: "string option"
  vf_userId :: "string option"
  vf_route :: "string option"
  vf_limit :: "int option"
  vf_since :: "rat option"

definition truthy_filter :: "string option \<Rightarrow> (string \<Rightarrow> 'a \<Rightarrow> bool) \<Rightarrow> 'a list \<Rightarrow> 'a list" where
  "truthy_filter x P vs = (if truthy x then filter (P (the x)) vs else vs)"

definition getViolations ::
  "rl_config \<Rightarrow> bool \<Rightarrow> rat \<Rightarrow> violation list option \<Rightarrow> violation_filter \<Rightarrow> rate_limiter \<Rightarrow> violation list \<times> rate_limiter" where
  "getViolations cfg ping now raw f s =
     (let (healthy, s') = isRedisHealthy cfg ping now s;
          vs = (if healthy then nullish raw (rl_violations s') else rl_violations s');
          vs1 = filter (\<lambda>v. rv_timestamp v \<ge> nullish (vf_since f) 0) vs;
          vs2 = truthy_filter (vf_tracker f) (\<lambda>x v. rv_tracker v = x) vs1;
          vs3 = truthy_filter (vf_ip f) (\<lambda>x v. rv_ip v = x) vs2;
          vs4 = truthy_filter (vf_userId f) (\<lambda>x v. rv_userId v = Some x) vs3;
          vs5 = truthy_filter (vf_route f) (\<lambda>x v. includes_str (rv_route v) x) vs4
      in (slice_to (nullish (vf_limit f) 100) vs5, s'))"

definition count_into :: "('k, int) js_map \<Rightarrow> 'k \<Rightarrow> ('k, int) js_map" where
  "count_into m k = Map_set k (nullish (Map_get k m) 0 + 1) m"

definition tracker_key :: "violation \<Rightarrow> string" where
  "tracker_key v = (if rv_tracker v \<noteq> [] then rv_tracker v else if rv_ip v \<noteq> [] then rv_ip v else ''unknown'')"

definition time_bucket :: "violation \<Rightarrow> int" where
  "time_bucket v = \<lfloor>rv_timestamp v / 300000\<rfloor> * 300000"

definition by_count_desc :: "'k \<times> int \<Rightarrow> 'k \<times> int \<Rightarrow> int" where
  "by_count_desc a b = snd b - snd a"

definition by_key :: "int \<times> int \<Rightarrow> int \<times> int \<Rightarrow> int" where
  "by_key a b = fst a - fst b"

record rate_analytics =
  ra_timestamp :: rat
  ra_totalViolations :: int
  ra_uniqueViolators :: int
  ra_topViolators :: "(string \<times> int) list"
  ra_topRoutes :: "(string \<times> int) list"
  ra_violationsByTier :: "(string, int) js_map"
  ra_violationsByStrategy :: "(strategy, int) js_map"
  ra_timeSeries :: "(int \<times> int) list"

definition getAnalytics ::
  "rl_config \<Rightarrow> bool \<Rightarrow> rat \<Rightarrow> violation list option \<Rightarrow> rat \<Rightarrow> rate_limiter \<Rightarrow> rate_analytics \<times> rate_limiter" where
  "getAnalytics cfg ping now raw sinceMs s =
     (let (violations, s') = getViolations cfg ping now raw
            \<lparr>vf_tracker = None, vf_ip = None, vf_userId = None, vf_route = None, vf_limit = Some 2000, vf_since = Some (now - sinceMs)\<rparr> s;
          violatorCounts = foldl count_into [] (map tracker_key violations);
          routeCounts = foldl count_into [] (map rv_route violations)
      in (\<lparr>ra_timestamp = now,
           ra_totalViolations = int (length violations),
           ra_uniqueViolators = int (length violatorCounts),
           ra_topViolators = slice_to 10 (sort_by by_count_desc violatorCounts),
           ra_topRoutes = slice_to 10 (sort_by by_count_desc routeCounts),
           ra_violationsByTier = foldl count_into [] (map rv_tier violations),
           ra_violationsByStrategy = foldl count_into [] (map rv_strategy violations),
           ra_timeSeries = sort_by by_key (foldl count_into [] (map time_bucket violations))\<rparr>, s'))"

section \<open>Endpoint rules\<close>

definition addEndpointRule :: "endpoint_rule \<Rightarrow> rate_limiter \<Rightarrow> rate_limiter" where
  "addEndpointRule r s = s\<lparr>rl_endpointRules := rl_endpointRules s @ [r]\<rparr>"

definition rule_matches :: "string \<Rightarrow> string option \<Rightarrow> endpoint_rule \<Rightarrow> bool" where
  "rule_matches path mtd r =
     ((\<not> truthy (er_method r) \<or> er_method r = Some ''*'' \<or>
       map_option toUpperCase (er_method r) = map_option toUpperCase mtd) \<and>
      matchPathPattern path (er_pathPattern r))"

definition getEndpointRule :: "string \<Rightarrow> string option \<Rightarrow> rate_limiter \<Rightarrow> endpoint_rule option" where
  "getEndpointRule path mtd s = find (rule_matches path mtd) (rl_endpointRules s)"

section \<open>Entries\<close>

record rate_entry =
  re_key :: string
  re_tracker :: string
  re_scope :: string
  re_tier :: string
  re_strategy :: strategy
  re_limit :: rat
  re_windowMs :: rat
  re_remaining :: rat
  re_resetAt :: rat
  re_allowed :: int
  re_denied :: int

definition entry_of :: "string \<Rightarrow> memory_entry \<Rightarrow> rat \<Rightarrow> rate_entry" where
  "entry_of key e remaining =
     \<lparr>re_key = key, re_tracker = me_tracker e, re_scope = me_scope e, re_tier = me_tier e, re_strategy = me_strategy e,
      re_limit = me_limit e, re_windowMs = me_windowMs e, re_remaining = remaining, re_resetAt = me_lastResetAt e,
      re_allowed = me_allowed e, re_denied = me_denied e\<rparr>"

text \<open>The reply is the count of the window (\<open>zcount\<close>) or the stored tokens, 0 when there are none.\<close>

definition getEntry ::
  "rl_config \<Rightarrow> bool \<Rightarrow> rat \<Rightarrow> rat option \<Rightarrow> string \<Rightarrow> rate_limiter \<Rightarrow> rate_entry option \<times> rate_limiter" where
  "getEntry cfg ping now reply key s =
     (case Map_get key (rl_registry s) of
        None \<Rightarrow> (None, s)
      | Some e \<Rightarrow>
          (let (healthy, s') = isRedisHealthy cfg ping now s;
               remaining = (case (if healthy then reply else None) of
                   Some r \<Rightarrow> (if me_strategy e = SlidingWindow then max 0 (me_limit e - r) else max 0 (of_int \<lfloor>r\<rfloor>))
                 | None \<Rightarrow> me_lastRemaining e)
           in (Some (entry_of key e remaining), s')))"

text \<open>\<open>del_ok\<close>: the Redis \<open>DEL\<close> did not throw. It is sent as the result's first component.\<close>

definition reset_rl :: "rl_config \<Rightarrow> bool \<Rightarrow> rat \<Rightarrow> bool \<Rightarrow> string \<Rightarrow> rate_limiter \<Rightarrow> string list \<times> rate_limiter" where
  "reset_rl cfg ping now del_ok key s =
     (let storageKey = rc_keyPrefix cfg @ key;
          (healthy, s') = isRedisHealthy cfg ping now s
      in if healthy \<and> del_ok
         then ([storageKey], s'\<lparr>rl_registry := Map_delete key (rl_registry s')\<rparr>)
         else (if healthy then [storageKey] else [],
               s'\<lparr>rl_buckets := Map_delete storageKey (rl_buckets s'),
                  rl_windows := Map_delete storageKey (rl_windows s'),
                  rl_registry := Map_delete key (rl_registry s')\<rparr>))"

definition listEntries :: "int \<Rightarrow> rate_limiter \<Rightarrow> rate_entry list" where
  "listEntries limit s = map (\<lambda>(key, e). entry_of key e (me_lastRemaining e)) (slice_to limit (rl_registry s))"

datatype rate_storage = RedisStorage | MemoryStorage

definition getStorageHealth :: "rl_config \<Rightarrow> bool \<Rightarrow> rat \<Rightarrow> rate_limiter \<Rightarrow> rate_storage \<times> rate_limiter" where
  "getStorageHealth cfg ping now s =
     (if \<not> rc_redis cfg then (MemoryStorage, s)
      else let (healthy, s') = isRedisHealthy cfg ping now s in (if healthy then RedisStorage else MemoryStorage, s'))"

section \<open>Specification\<close>

definition occurrences :: "'k \<Rightarrow> 'k list \<Rightarrow> int" where
  "occurrences k ks = int (length (filter (\<lambda>x. x = k) ks))"

text \<open>A tally of a list: the keys that occur, once each, with the number of their occurrences.\<close>

definition tallies :: "('k, int) js_map \<Rightarrow> 'k list \<Rightarrow> bool" where
  "tallies m ks \<longleftrightarrow> Map_wf m \<and> (\<forall>k. Map_get k m = (if k \<in> set ks then Some (occurrences k ks) else None))"

definition record_step :: "rl_config \<Rightarrow> rate_limiter \<Rightarrow> bool \<times> rat \<times> string \<times> violation \<Rightarrow> rate_limiter" where
  "record_step cfg s = (\<lambda>(ping, now, i, v). snd (snd (recordViolation cfg ping now i v s)))"

definition recorded :: "bool \<times> rat \<times> string \<times> violation \<Rightarrow> violation" where
  "recorded = (\<lambda>(ping, now, i, v). v\<lparr>rv_id := i, rv_timestamp := now\<rparr>)"

section \<open>Facts\<close>

lemma tallies_Nil: "tallies [] []"
  by (simp add: tallies_def)

lemma tallies_count: "tallies m ks \<Longrightarrow> tallies (count_into m k) (ks @ [k])"
  by (auto simp: tallies_def count_into_def occurrences_def filter_empty_conv)

lemma tallies_from: "tallies m ks \<Longrightarrow> tallies (foldl count_into m js) (ks @ js)"
  by (induction js arbitrary: m ks) (simp_all, metis append.assoc append_Cons append_Nil tallies_count)

lemma tallies_foldl: "tallies (foldl count_into [] ks) ks"
  using tallies_from [OF tallies_Nil] by simp

lemma sum_Map_set: "sum_list (map snd (Map_set k v m)) = sum_list (map snd m) + v - nullish (Map_get k m) (0 :: int)"
  unfolding Map_set_def Map_get_def by (induction m) auto

lemma sum_foldl_count: "sum_list (map snd (foldl count_into m ks)) = sum_list (map snd m) + int (length ks)"
  by (induction ks arbitrary: m) (simp_all add: count_into_def sum_Map_set)

interpretation bc: comparator by_count_desc
  by unfold_locales (auto simp: by_count_desc_def)

interpretation bk: comparator by_key
  by unfold_locales (auto simp: by_key_def)

lemma isRedisHealthy_violations [simp]:
  "rl_violations (snd (isRedisHealthy cfg b now s)) = rl_violations s"
  by (simp add: isRedisHealthy_def)

lemma record_step_violations: "rl_violations (record_step cfg s e) = take 2000 (recorded e # rl_violations s)"
proof -
  obtain ping now i v where e: "e = (ping, now, i, v)" by (cases e)
  let ?r = "v\<lparr>rv_id := i, rv_timestamp := now\<rparr>"
  have "snd (snd (recordViolation cfg ping now i v s)) =
      snd (isRedisHealthy cfg ping now (s\<lparr>rl_violations := take 2000 (?r # rl_violations s)\<rparr>))"
    by (simp add: recordViolation_def Let_def split: prod.splits)
  then show ?thesis by (simp add: e record_step_def recorded_def)
qed

lemma take_take_Cons: "take n (x # take n xs) = take n (x # xs)"
  by (cases n) (simp_all add: min_def)

lemma slice_to_prefix: "set (slice_to n xs) \<subseteq> set xs"
  by (simp add: slice_to_def set_take_subset)

lemma sorted_wrt_slice: "sorted_wrt P xs \<Longrightarrow> sorted_wrt P (slice_to n xs)"
  by (simp add: slice_to_def sorted_wrt_take)

lemma tallies_member: "tallies m ks \<Longrightarrow> (k, n) \<in> set m \<Longrightarrow> k \<in> set ks \<and> n = occurrences k ks"
  unfolding tallies_def by (metis Map_get_in_set option.distinct(1) option.inject)

lemma tallies_length: "tallies m ks \<Longrightarrow> length m = card (set ks)"
proof -
  assume t: "tallies m ks"
  have "set (map fst m) = set ks"
    using t set_Map_keys [of m] by (auto simp: tallies_def Map_keys_def split: if_splits)
  then show ?thesis using t distinct_card [of "map fst m"] by (simp add: tallies_def Map_wf_def)
qed

section \<open>Properties\<close>

text \<open>
  The violations kept in memory are the newest 2000, newest first, after any history of
  recorded violations.
\<close>

theorem violations_newest_first:
  "rl_violations (run (record_step cfg) (new_rate_limiter rules) es) = take 2000 (rev (map recorded es))"
proof (induction es rule: rev_induct)
  case Nil
  then show ?case by (simp add: new_rate_limiter_def)
next
  case (snoc e es)
  then show ?case by (simp add: record_step_violations take_take_Cons del: take_Suc_Cons take_Cons_numeral)
qed

text \<open>
  The analytics are consistent with the violations they are computed from: the counts by
  tier and by strategy add up to the total, the number of violators is the number of
  different trackers, and each list of top violators or routes has at most ten entries, most
  frequent first, each with its exact number of violations.
\<close>

theorem analytics_consistent:
  "let vs = fst (getViolations cfg ping now raw
          \<lparr>vf_tracker = None, vf_ip = None, vf_userId = None, vf_route = None, vf_limit = Some 2000, vf_since = Some (now - sinceMs)\<rparr> s);
       a = fst (getAnalytics cfg ping now raw sinceMs s)
   in ra_totalViolations a = int (length vs) \<and>
      sum_list (map snd (ra_violationsByTier a)) = int (length vs) \<and>
      sum_list (map snd (ra_violationsByStrategy a)) = int (length vs) \<and>
      ra_uniqueViolators a = int (card (tracker_key ` set vs)) \<and>
      length (ra_topRoutes a) \<le> 10 \<and> length (ra_topViolators a) \<le> 10 \<and>
      sorted_wrt (\<lambda>x y. snd y \<le> snd x) (ra_topRoutes a) \<and> sorted_wrt (\<lambda>x y. snd y \<le> snd x) (ra_topViolators a) \<and>
      set (ra_topRoutes a) \<subseteq> (\<lambda>r. (r, occurrences r (map rv_route vs))) ` rv_route ` set vs \<and>
      set (ra_topViolators a) \<subseteq> (\<lambda>k. (k, occurrences k (map tracker_key vs))) ` tracker_key ` set vs"
proof -
  obtain vs s' where vs: "getViolations cfg ping now raw
      \<lparr>vf_tracker = None, vf_ip = None, vf_userId = None, vf_route = None, vf_limit = Some 2000, vf_since = Some (now - sinceMs)\<rparr> s = (vs, s')"
    by fastforce
  have ten: "length (slice_to 10 xs) \<le> 10" for xs :: "(string \<times> int) list" by (simp add: slice_to_def)
  have desc: "sorted_wrt (\<lambda>x y. snd y \<le> snd x) (slice_to 10 (sort_by by_count_desc m))" for m :: "(string, int) js_map"
    using sorted_wrt_slice [OF bc.ordered_sort_by [of m], of 10] by (simp add: by_count_desc_def)
  have exact: "set (slice_to 10 (sort_by by_count_desc (foldl count_into [] (map f vs)))) \<subseteq>
      (\<lambda>k. (k, occurrences k (map f vs))) ` f ` set vs" for f :: "violation \<Rightarrow> string"
    using slice_to_prefix [of 10 "sort_by by_count_desc (foldl count_into [] (map f vs))"]
      tallies_member [OF tallies_foldl [of "map f vs"]] by (force simp: bc.set_sort_by)
  show ?thesis
    unfolding getAnalytics_def vs Let_def prod.case fst_conv
    using ten desc exact tallies_length [OF tallies_foldl [of "map tracker_key vs"]]
    by (simp add: sum_foldl_count)
qed

text \<open>
  A reset gives a key its full allowance back and touches no other: without Redis, the
  next request of the key is answered as by a new limiter, and a request of another key as
  if no reset had happened.
\<close>

theorem reset_restores_allowance:
  assumes "\<not> rc_redis cfg"
  shows "fst (consume cfg env c (snd (reset_rl cfg ping now ok key s))) =
     (if cc_key c = key then fst (consume cfg env c (new_rate_limiter rules)) else fst (consume cfg env c s))"
proof -
  have r: "snd (reset_rl cfg ping now ok key s) =
      s\<lparr>rl_buckets := Map_delete (rc_keyPrefix cfg @ key) (rl_buckets s), rl_windows := Map_delete (rc_keyPrefix cfg @ key) (rl_windows s),
        rl_registry := Map_delete key (rl_registry s)\<rparr>"
    using assms by (simp add: reset_rl_def Let_def)
  show ?thesis
    unfolding consume_decision [OF assms] r
    by (simp add: consumeMemory_def consumeMemorySlidingWindow_def consumeMemoryTokenBucket_def new_rate_limiter_def Let_def)
qed

theorem reset_restores_allowance_witness:
  "let cfg = new_config False None None;
       c = \<lparr>cc_key = ''k'', cc_policy = \<lparr>po_limit = Some 1, po_windowMs = None, po_burst = None, po_strategy = None\<rparr>,
            cc_tracker = None, cc_scope = None, cc_tier = None\<rparr>;
       env = \<lparr>en_checkedAt = 0, en_ping = False, en_reply = None, en_now = 0\<rparr>;
       s = snd (consume cfg env c (new_rate_limiter None))
   in \<not> rd_allowed (fst (consume cfg env c s)) \<and> rd_allowed (fst (consume cfg env c (snd (reset_rl cfg False 0 True ''k'' s))))"
proof -
  let ?cfg = "new_config False None None"
  let ?c = "\<lparr>cc_key = ''k'', cc_policy = \<lparr>po_limit = Some 1, po_windowMs = None, po_burst = None, po_strategy = None\<rparr>,
      cc_tracker = None, cc_scope = None, cc_tier = None\<rparr>"
  let ?env = "\<lparr>en_checkedAt = 0, en_ping = False, en_reply = None, en_now = 0\<rparr>"
  let ?s = "snd (consume ?cfg ?env ?c (new_rate_limiter None))"
  have "\<not> rc_redis ?cfg" by (simp add: new_config_def)
  then have "fst (consume ?cfg ?env ?c (snd (reset_rl ?cfg False 0 True ''k'' ?s))) = fst (consume ?cfg ?env ?c (new_rate_limiter None))"
    using reset_restores_allowance [of ?cfg ?env ?c False 0 True "''k''" ?s None] by simp
  moreover have "\<not> rd_allowed (fst (consume ?cfg ?env ?c ?s))" by code_simp
  moreover have "rd_allowed (fst (consume ?cfg ?env ?c (new_rate_limiter None)))" by code_simp
  ultimately show ?thesis unfolding Let_def by (simp only: simp_thms)
qed

end
