(* ===== verification/Quota.thy ===== *)
theory Quota
  imports Rate_Limiter
begin

text \<open>
  The quota configuration (config/quota.config.ts), the request data the guards read, and the
  in-process \<open>QuotaGuard\<close> (common/guard/quota.guard.ts). The environment is a function from a
  variable's name to the finite number \<open>Number(value)\<close> gives for it, None when it is not one.
  A user id that is a number is its decimal string.
\<close>

section \<open>Tiers and policies\<close>

datatype rate_tier = Free | Paid | Enterprise

fun tier_name :: "rate_tier \<Rightarrow> string" where
  "tier_name Free = ''free''"
| "tier_name Paid = ''paid''"
| "tier_name Enterprise = ''enterprise''"

record tier_config =
  tc_limit :: rat
  tc_windowMs :: rat
  tc_burst :: rat

definition DEFAULT_WINDOW_MS :: rat where "DEFAULT_WINDOW_MS = 60000"

definition DEFAULT_BURST_MULTIPLIER :: rat where "DEFAULT_BURST_MULTIPLIER = 12 / 10"

definition readEnvNumber :: "rat option \<Rightarrow> rat \<Rightarrow> rat" where
  "readEnvNumber parsed fallback = (case parsed of None \<Rightarrow> fallback | Some x \<Rightarrow> if x > 0 then x else fallback)"

definition normalizeRateLimitTier :: "string option \<Rightarrow> rate_tier" where
  "normalizeRateLimitTier value =
     (let normalized = toLowerCase (trim (nullish value ''''))
      in if normalized = ''paid'' \<or> normalized = ''standard'' \<or> normalized = ''premium'' then Paid
         else if normalized = ''enterprise'' \<or> normalized = ''internal'' then Enterprise
         else Free)"

fun default_limit :: "rate_tier \<Rightarrow> rat" where
  "default_limit Free = 100"
| "default_limit Paid = 1000"
| "default_limit Enterprise = 10000"

fun env_key :: "rate_tier \<Rightarrow> string" where
  "env_key Free = ''RATE_LIMIT_FREE_PER_MINUTE''"
| "env_key Paid = ''RATE_LIMIT_PAID_PER_MINUTE''"
| "env_key Enterprise = ''RATE_LIMIT_ENTERPRISE_PER_MINUTE''"

definition getRateLimitPolicyFromEnv :: "rate_tier \<Rightarrow> (string \<Rightarrow> rat option) \<Rightarrow> tier_config" where
  "getRateLimitPolicyFromEnv tier env =
     (let limit = readEnvNumber (env (env_key tier)) (default_limit tier);
          windowMs = readEnvNumber (env ''RATE_LIMIT_WINDOW_MS'') DEFAULT_WINDOW_MS;
          burstMultiplier = readEnvNumber (env ''RATE_LIMIT_BURST_MULTIPLIER'') DEFAULT_BURST_MULTIPLIER
      in \<lparr>tc_limit = limit, tc_windowMs = windowMs, tc_burst = max limit (of_int \<lceil>limit * burstMultiplier\<rceil>)\<rparr>)"

definition resolveRateLimitTierFromRole :: "string option \<Rightarrow> string option \<Rightarrow> string option \<Rightarrow> rate_tier" where
  "resolveRateLimitTierFromRole role authType explicitTier =
     (if truthy explicitTier then normalizeRateLimitTier explicitTier
      else if authType = Some ''api-key'' then Enterprise
      else (let normalizedRole = toLowerCase (trim (nullish role ''''))
            in if normalizedRole = ''admin'' then Enterprise
               else if normalizedRole = ''kyc_operator'' \<or> normalizedRole = ''operator'' \<or> normalizedRole = ''service'' then Paid
               else Free))"

record quota_config =
  qc_name :: string
  qc_limit :: rat
  qc_windowMs :: rat
  qc_burst :: rat

definition QUOTA_LEVELS :: "(string, quota_config) js_map" where
  "QUOTA_LEVELS =
     [(''free'', \<lparr>qc_name = ''Free Tier'', qc_limit = 100, qc_windowMs = 60000, qc_burst = 120\<rparr>),
      (''standard'', \<lparr>qc_name = ''Standard Tier'', qc_limit = 1000, qc_windowMs = 60000, qc_burst = 1200\<rparr>),
      (''premium'', \<lparr>qc_name = ''Premium Tier'', qc_limit = 10000, qc_windowMs = 60000, qc_burst = 12000\<rparr>),
      (''internal'', \<lparr>qc_name = ''Internal Services'', qc_limit = 10000, qc_windowMs = 60000, qc_burst = 15000\<rparr>)]"

section \<open>Requests\<close>

record http_user =
  hu_id :: "string option"
  hu_sub :: "string option"
  hu_address :: "string option"
  hu_role :: "string option"
  hu_tier :: "string option"
  hu_type :: "string option"

record http_request =
  hr_ip :: "string option"
  hr_forwardedFor :: "string option"
  hr_user :: "http_user option"
  hr_authType :: "string option"
  hr_routePath :: "string option"
  hr_originalUrl :: "string option"
  hr_url :: "string option"
  hr_method :: "string option"

record rate_options =
  ro_level :: "string option"
  ro_limit :: "rat option"
  ro_windowMs :: "rat option"
  ro_burst :: "rat option"
  ro_strategy :: "strategy option"
  ro_key :: "string option"

datatype header_value = HNumber rat | HString string | HDate rat

definition user_field :: "(http_user \<Rightarrow> string option) \<Rightarrow> http_request \<Rightarrow> string option" where
  "user_field f r = (case hr_user r of None \<Rightarrow> None | Some u \<Rightarrow> f u)"

text \<open>\<open>a ?? b\<close> and \<open>a || b\<close> on optional strings.\<close>

definition coalesce :: "'a option \<Rightarrow> 'a option \<Rightarrow> 'a option" where
  "coalesce a b = (case a of None \<Rightarrow> b | Some _ \<Rightarrow> a)"

definition or_str :: "string option \<Rightarrow> string option \<Rightarrow> string option" where
  "or_str a b = (if truthy a then a else b)"

definition resolveRequestTier :: "http_request \<Rightarrow> rate_tier" where
  "resolveRequestTier r =
     (let explicitTier = user_field hu_tier r;
          authType = coalesce (hr_authType r) (user_field hu_type r)
      in if authType = Some ''api-key'' then normalizeRateLimitTier (Some (nullish explicitTier ''enterprise''))
         else resolveRateLimitTierFromRole (user_field hu_role r) authType explicitTier)"

definition getTrackerKey :: "http_request \<Rightarrow> string" where
  "getTrackerKey r =
     (case coalesce (user_field hu_id r) (user_field hu_sub r) of
        Some userId \<Rightarrow> ''user:'' @ userId
      | None \<Rightarrow>
          if truthy (user_field hu_address r) then ''wallet:'' @ toLowerCase (the (user_field hu_address r))
          else if truthy (hr_forwardedFor r) then ''ip:'' @ trim (hd (split_char CHR '','' (the (hr_forwardedFor r))))
          else ''ip:'' @ nullish (hr_ip r) ''unknown'')"

record resolved_policy =
  rs_tier :: rate_tier
  rs_label :: string
  rs_limit :: rat
  rs_windowMs :: rat
  rs_burst :: rat

definition resolvePolicy_qg :: "(string \<Rightarrow> rat option) \<Rightarrow> rate_options option \<Rightarrow> rate_tier \<Rightarrow> resolved_policy" where
  "resolvePolicy_qg env opts tier =
     (case opts of
        None \<Rightarrow>
          (let p = getRateLimitPolicyFromEnv tier env
           in \<lparr>rs_tier = tier, rs_label = tier_name tier, rs_limit = tc_limit p, rs_windowMs = tc_windowMs p, rs_burst = tc_burst p\<rparr>)
      | Some op \<Rightarrow>
          (let configuredTier = (if truthy (ro_level op) then normalizeRateLimitTier (ro_level op) else tier);
               p = getRateLimitPolicyFromEnv configuredTier env
           in \<lparr>rs_tier = configuredTier,
               rs_label = (if truthy (ro_level op) then the (ro_level op) else tier_name configuredTier),
               rs_limit = nullish (ro_limit op) (tc_limit p),
               rs_windowMs = nullish (ro_windowMs op) (tc_windowMs p),
               rs_burst = nullish (ro_burst op) (tc_burst p)\<rparr>))"

definition getScope_qg :: "http_request \<Rightarrow> rate_options option \<Rightarrow> string" where
  "getScope_qg r opts =
     (case opts of None \<Rightarrow> ''global''
      | Some _ \<Rightarrow> the (or_str (hr_routePath r) (or_str (hr_originalUrl r) (or_str (hr_url r) (Some ''route'')))))"

section \<open>The quota guard\<close>

record rate_window =
  rw_count :: nat
  rw_resetAt :: rat

record quota_guard =
  qg_windows :: "(string, rate_window) js_map"
  qg_lastCleanupAt :: rat

definition new_quota_guard :: "rat \<Rightarrow> quota_guard" where
  "new_quota_guard now = \<lparr>qg_windows = [], qg_lastCleanupAt = now\<rparr>"

definition cleanupExpired :: "rat \<Rightarrow> quota_guard \<Rightarrow> quota_guard" where
  "cleanupExpired now g =
     (if length (qg_windows g) = 0 then g
      else if now - qg_lastCleanupAt g < 30000 \<and> length (qg_windows g) < 1000 then g
      else g\<lparr>qg_windows := Map_filter (\<lambda>_ w. \<not> rw_resetAt w \<le> now) (qg_windows g), qg_lastCleanupAt := now\<rparr>)"

definition consume_qg :: "string \<Rightarrow> rat \<Rightarrow> rat \<Rightarrow> rat \<Rightarrow> quota_guard \<Rightarrow> (bool \<times> rat \<times> rat) \<times> quota_guard" where
  "consume_qg key limit windowMs now g =
     (let st = (case Map_get key (qg_windows g) of
                  None \<Rightarrow> \<lparr>rw_count = 0, rw_resetAt = now + windowMs\<rparr>
                | Some w \<Rightarrow> if rw_resetAt w \<le> now then \<lparr>rw_count = 0, rw_resetAt = now + windowMs\<rparr> else w);
          w = st\<lparr>rw_count := rw_count st + 1\<rparr>
      in ((of_nat (rw_count w) \<le> limit, max 0 (limit - of_nat (rw_count w)), rw_resetAt w),
          cleanupExpired now (g\<lparr>qg_windows := Map_set key w (qg_windows g)\<rparr>)))"

definition applyHeaders_qg :: "resolved_policy \<Rightarrow> rat \<Rightarrow> rat \<Rightarrow> (string \<times> header_value) list" where
  "applyHeaders_qg p remaining resetAt =
     [(''X-RateLimit-Limit'', HNumber (rs_limit p)), (''X-RateLimit-Remaining'', HNumber remaining),
      (''X-RateLimit-Reset'', HDate resetAt), (''X-RateLimit-Tier'', HString (tier_name (rs_tier p)))]"

text \<open>The body of the 429 answer.\<close>

record too_many =
  tm_limit :: rat
  tm_remaining :: rat
  tm_resetAt :: rat
  tm_tier :: rate_tier

definition canActivate_qg ::
  "(string \<Rightarrow> rat option) \<Rightarrow> rate_options option \<Rightarrow> http_request \<Rightarrow> rat \<Rightarrow> quota_guard \<Rightarrow>
     (too_many + bool) \<times> (string \<times> header_value) list \<times> quota_guard" where
  "canActivate_qg env opts r now g =
     (let p = resolvePolicy_qg env opts (resolveRequestTier r);
          key = getTrackerKey r @ '':'' @ getScope_qg r opts @ '':'' @ tier_name (rs_tier p);
          ((allowed, remaining, resetAt), g') = consume_qg key (rs_limit p) (rs_windowMs p) now g
      in (if allowed then Inr True
          else Inl \<lparr>tm_limit = rs_limit p, tm_remaining = 0, tm_resetAt = resetAt, tm_tier = rs_tier p\<rparr>,
          applyHeaders_qg p remaining resetAt, g'))"

section \<open>Specification\<close>

text \<open>A request to the guard: the route's options, the request and its time.\<close>

type_synonym guard_request = "rate_options option \<times> http_request \<times> rat"

definition qg_step :: "(string \<Rightarrow> rat option) \<Rightarrow> quota_guard \<Rightarrow> guard_request \<Rightarrow> bool \<times> quota_guard" where
  "qg_step env g = (\<lambda>(opts, r, now). let (res, _, g') = canActivate_qg env opts r now g in (\<not> isl res, g'))"

definition qg_policy :: "(string \<Rightarrow> rat option) \<Rightarrow> guard_request \<Rightarrow> resolved_policy" where
  "qg_policy env = (\<lambda>(opts, r, now). resolvePolicy_qg env opts (resolveRequestTier r))"

definition qg_key :: "(string \<Rightarrow> rat option) \<Rightarrow> guard_request \<Rightarrow> string" where
  "qg_key env = (\<lambda>(opts, r, now). getTrackerKey r @ '':'' @ getScope_qg r opts @ '':'' @
      tier_name (rs_tier (qg_policy env (opts, r, now))))"

definition qg_time :: "guard_request \<Rightarrow> rat" where
  "qg_time = (\<lambda>(opts, r, now). now)"

definition qg_window :: "string \<Rightarrow> quota_guard \<Rightarrow> (nat \<times> rat) option" where
  "qg_window key g = map_option (\<lambda>w. (rw_count w, rw_resetAt w)) (Map_get key (qg_windows g))"

text \<open>The window a request of the key falls into: the open one, or a new one.\<close>

definition qg_open :: "string \<Rightarrow> rat \<Rightarrow> rat \<Rightarrow> quota_guard \<Rightarrow> nat \<times> rat" where
  "qg_open key windowMs now g =
     (case qg_window key g of None \<Rightarrow> (0, now + windowMs)
      | Some (c, R) \<Rightarrow> if R \<le> now then (0, now + windowMs) else (c, R))"

definition under_quota :: "(string \<Rightarrow> rat option) \<Rightarrow> string \<Rightarrow> rat \<Rightarrow> rat \<Rightarrow> guard_request \<Rightarrow> bool" where
  "under_quota env key limit windowMs q \<longleftrightarrow>
     (qg_key env q = key \<longrightarrow> rs_limit (qg_policy env q) = limit \<and> rs_windowMs (qg_policy env q) = windowMs) \<and>
     0 < rs_windowMs (qg_policy env q)"

section \<open>Facts\<close>

lemma readEnvNumber_pos: "0 < fallback \<Longrightarrow> 0 < readEnvNumber parsed fallback"
  by (simp add: readEnvNumber_def split: option.splits)

lemma cleanupExpired_get:
  "Map_wf (qg_windows g) \<Longrightarrow> Map_get k (qg_windows (cleanupExpired now g)) = Map_get k (qg_windows g) \<or>
     Map_get k (qg_windows (cleanupExpired now g)) = None \<and> (\<forall>w. Map_get k (qg_windows g) = Some w \<longrightarrow> rw_resetAt w \<le> now)"
  by (auto simp: cleanupExpired_def Map_get_filter split: option.splits)

lemma cleanupExpired_wf: "Map_wf (qg_windows g) \<Longrightarrow> Map_wf (qg_windows (cleanupExpired now g))"
  by (simp add: cleanupExpired_def Map_wf_filter)

lemma qg_step_eq:
  "fst (qg_step env g q) =
     fst (fst (consume_qg (qg_key env q) (rs_limit (qg_policy env q)) (rs_windowMs (qg_policy env q)) (qg_time q) g))"
  "snd (qg_step env g q) =
     snd (consume_qg (qg_key env q) (rs_limit (qg_policy env q)) (rs_windowMs (qg_policy env q)) (qg_time q) g)"
  by (cases q; simp add: qg_step_def canActivate_qg_def qg_key_def qg_policy_def qg_time_def Let_def split: prod.splits)+

lemma rw_count_upd: "a\<lparr>rw_count := n\<rparr> = \<lparr>rw_count = n, rw_resetAt = rw_resetAt a\<rparr>"
  by (cases a) simp

lemma consume_qg_wf: "Map_wf (qg_windows g) \<Longrightarrow> Map_wf (qg_windows (snd (consume_qg k l w now g)))"
  by (simp add: consume_qg_def Let_def cleanupExpired_wf)

lemma consume_qg_window:
  assumes "Map_wf (qg_windows g)" and "0 < w"
  shows "fst (fst (consume_qg k l w now g)) \<longleftrightarrow> of_nat (Suc (fst (qg_open k w now g))) \<le> l"
    and "qg_window k (snd (consume_qg k l w now g)) = Some (Suc (fst (qg_open k w now g)), snd (qg_open k w now g))"
proof -
  let ?w = "\<lparr>rw_count = Suc (fst (qg_open k w now g)), rw_resetAt = snd (qg_open k w now g)\<rparr>"
  let ?g = "g\<lparr>qg_windows := Map_set k ?w (qg_windows g)\<rparr>"
  have c: "consume_qg k l w now g = ((of_nat (Suc (fst (qg_open k w now g))) \<le> l,
      max 0 (l - of_nat (Suc (fst (qg_open k w now g)))), snd (qg_open k w now g)), cleanupExpired now ?g)"
    by (cases "Map_get k (qg_windows g)") (simp_all add: consume_qg_def qg_window_def qg_open_def rw_count_upd Let_def)
  show "fst (fst (consume_qg k l w now g)) \<longleftrightarrow> of_nat (Suc (fst (qg_open k w now g))) \<le> l" by (simp add: c)
  have "now < snd (qg_open k w now g)" using assms(2) by (auto simp: qg_open_def split: option.splits)
  then show "qg_window k (snd (consume_qg k l w now g)) = Some (Suc (fst (qg_open k w now g)), snd (qg_open k w now g))"
    using cleanupExpired_get [of ?g k now] assms(1) by (simp add: c qg_window_def)
qed

lemma consume_qg_other:
  assumes "Map_wf (qg_windows g)" and "j \<noteq> k"
  shows "qg_window j (snd (consume_qg k l w now g)) = qg_window j g \<or>
    qg_window j (snd (consume_qg k l w now g)) = None \<and> (\<forall>c R. qg_window j g = Some (c, R) \<longrightarrow> R \<le> now)"
proof -
  obtain x where "snd (consume_qg k l w now g) = cleanupExpired now (g\<lparr>qg_windows := Map_set k x (qg_windows g)\<rparr>)"
    by (simp add: consume_qg_def Let_def)
  then show ?thesis
    using cleanupExpired_get [of "g\<lparr>qg_windows := Map_set k x (qg_windows g)\<rparr>" j now] assms
    by (auto simp: qg_window_def)
qed

lemma of_nat_le_limit: "of_nat (Suc n) \<le> (x :: rat) \<longleftrightarrow> Suc n \<le> nat \<lfloor>x\<rfloor>"
proof -
  have "of_nat (Suc n) \<le> x \<longleftrightarrow> int (Suc n) \<le> \<lfloor>x\<rfloor>" by (simp add: le_floor_iff)
  then show ?thesis by linarith
qed

interpretation qf: fixed_window_limiter "qg_step env" "under_quota env key limit windowMs"
    "\<lambda>_ q. qg_key env q = key" qg_time "\<lambda>g. Map_wf (qg_windows g)" "qg_window key" windowMs "nat \<lfloor>limit\<rfloor>" for env key limit windowMs
proof (unfold_locales, goal_cases)
  case (1 q g)
  then show ?case by (simp add: qg_step_eq consume_qg_wf)
next
  case (2 q g c R)
  then show ?case
    using consume_qg_window [of g windowMs key limit "qg_time q"]
    by (simp add: qg_open_def qg_step_eq under_quota_def of_nat_le_limit [of c, simplified])
next
  case (3 q g)
  then have "qg_open key windowMs (qg_time q) g = (0, qg_time q + windowMs)"
    by (auto simp: qg_open_def split: option.splits)
  then show ?case
    using 3 consume_qg_window [of g windowMs key limit "qg_time q"]
    by (simp add: qg_step_eq under_quota_def of_nat_le_limit [of 0, simplified])
next
  case (4 q g)
  then show ?case using consume_qg_other [of g key "qg_key env q"] by (simp add: qg_step_eq)
qed

section \<open>Properties\<close>

text \<open>
  The quota guard admits at most twice its limit in any span of one window: when all
  requests of a tracker, scope and tier resolve to one limit and window, then among those the
  guard let through at most \<open>2 * limit\<close> fall into any time span as long as the window,
  whatever other callers do and whenever expired windows are cleaned up. (The factor is
  inherent in windows that start with the first request; a fractional limit counts as the
  integer below.)
\<close>

theorem quota_span_bound:
  assumes "list_all (under_quota env key limit windowMs) qs" and "sorted (map qg_time qs)"
  shows "length (in_window windowMs t
     (admissions (qg_step env) (\<lambda>_ q. qg_key env q = key) qg_time (new_quota_guard t0) qs)) \<le> 2 * nat \<lfloor>limit\<rfloor>"
  by (rule qf.span_bound [OF assms]) (simp_all add: new_quota_guard_def qg_window_def)

theorem quota_span_bound_witness:
  "let r = \<lparr>hr_ip = Some ''10.0.0.1'', hr_forwardedFor = None, hr_user = None, hr_authType = None, hr_routePath = None,
            hr_originalUrl = None, hr_url = None, hr_method = None\<rparr>;
       env = (\<lambda>k. if k = ''RATE_LIMIT_FREE_PER_MINUTE'' then Some 1 else None)
   in length (in_window 60000 60000 (admissions (qg_step env) (\<lambda>_ q. qg_key env q = ''ip:10.0.0.1:global:free'') qg_time
        (new_quota_guard 0) [(None, r, 0), (None, r, 59000), (None, r, 60000)])) \<le> 2"
proof -
  let ?r = "\<lparr>hr_ip = Some ''10.0.0.1'', hr_forwardedFor = None, hr_user = None, hr_authType = None, hr_routePath = None,
      hr_originalUrl = None, hr_url = None, hr_method = None\<rparr>"
  let ?env = "\<lambda>k. if k = ''RATE_LIMIT_FREE_PER_MINUTE'' then Some 1 else None :: rat option"
  let ?qs = "[(None, ?r, 0), (None, ?r, 59000), (None, ?r, 60000)]"
  have "list_all (under_quota ?env ''ip:10.0.0.1:global:free'' 1 60000) ?qs" by code_simp
  then show ?thesis
    using quota_span_bound [of ?env "''ip:10.0.0.1:global:free''" 1 60000 ?qs 60000 0] by (simp add: qg_time_def)
qed

text \<open>The policy read from the environment is usable, whatever the environment holds.\<close>

lemma env_policy_bounds:
  "0 < tc_limit (getRateLimitPolicyFromEnv tier env) \<and> 0 < tc_windowMs (getRateLimitPolicyFromEnv tier env) \<and>
   tc_limit (getRateLimitPolicyFromEnv tier env) \<le> tc_burst (getRateLimitPolicyFromEnv tier env)"
  by (cases tier) (simp_all add: getRateLimitPolicyFromEnv_def Let_def readEnvNumber_pos DEFAULT_WINDOW_MS_def)

end
