(* ===== verification/Rate_Limit_Guard.thy ===== *)
theory Rate_Limit_Guard
  imports Rate_Analytics Quota
begin

text \<open>
  The two places that enforce the distributed rate limit: \<open>DistributedRateLimitGuard\<close>
  (rate-limiting/rate-limiting.guard.ts) on a handler and \<open>RateLimitMiddleware\<close>
  (rate-limiting/rate-limit.middleware.ts) on every request. Headers and metric increments are
  effects of the result, in the order they are made. The Redis replies and clock readings of
  one request are a \<open>guard_env\<close>; the process environment is split into its numbers and the
  default strategy string.
\<close>

record guard_env =
  ge_black :: list_env
  ge_white :: list_env
  ge_consume :: redis_env
  ge_ping :: bool
  ge_violationAt :: rat
  ge_violationId :: string
  ge_now :: rat

record process_env =
  pe_number :: "string \<Rightarrow> rat option"
  pe_strategy :: "string option"

record dist_policy = resolved_policy +
  dp_strategy :: strategy

datatype guard_effect =
    Header string header_value
  | MetricAllowed rate_tier string strategy
  | MetricDenied rate_tier string strategy

record limit_body =
  lb_limit :: rat
  lb_remaining :: rat
  lb_resetAt :: rat
  lb_retryAfter :: int
  lb_tier :: rate_tier
  lb_strategy :: strategy

datatype guard_result = Passed | ForbiddenBlacklisted | TooManyRequestsBody limit_body

fun strategy_name :: "strategy \<Rightarrow> string" where
  "strategy_name TokenBucket = ''token-bucket''"
| "strategy_name SlidingWindow = ''sliding-window''"

section \<open>What both read from a request\<close>

definition getUserId :: "http_request \<Rightarrow> string option" where
  "getUserId r = coalesce (user_field hu_id r) (coalesce (user_field hu_sub r) (user_field hu_address r))"

definition truthy_user :: "http_request \<Rightarrow> string option" where
  "truthy_user r = (if truthy (getUserId r) then getUserId r else None)"

definition client_tracker :: "http_request \<Rightarrow> string \<Rightarrow> string" where
  "client_tracker r ip = (case truthy_user r of Some u \<Rightarrow> ''user:'' @ u | None \<Rightarrow> ''ip:'' @ ip)"

definition retry_seconds :: "rate_decision \<Rightarrow> rat \<Rightarrow> int" where
  "retry_seconds d now =
     (case rd_retryAfterMs d of
        Some w \<Rightarrow> if w \<noteq> 0 then \<lceil>w / 1000\<rceil> else \<lceil>(rd_resetAt d - now) / 1000\<rceil>
      | None \<Rightarrow> \<lceil>(rd_resetAt d - now) / 1000\<rceil>)"

definition limit_headers :: "rat \<Rightarrow> rate_tier \<Rightarrow> strategy \<Rightarrow> rate_decision \<Rightarrow> guard_effect list" where
  "limit_headers limit tier strat d =
     [Header ''X-RateLimit-Limit'' (HNumber limit), Header ''X-RateLimit-Remaining'' (HNumber (rd_remaining d)),
      Header ''X-RateLimit-Reset'' (HDate (rd_resetAt d)), Header ''X-RateLimit-Tier'' (HString (tier_name tier)),
      Header ''X-RateLimit-Strategy'' (HString (strategy_name strat))] @
     (case rd_retryAfterMs d of
        Some w \<Rightarrow> if \<not> rd_allowed d \<and> w \<noteq> 0 then [Header ''Retry-After'' (HNumber (of_int \<lceil>w / 1000\<rceil>))] else []
      | None \<Rightarrow> [])"

definition recordMetrics :: "rate_tier \<Rightarrow> string \<Rightarrow> strategy \<Rightarrow> rate_decision \<Rightarrow> guard_effect list" where
  "recordMetrics tier scope strat d = (if rd_allowed d then [MetricAllowed tier scope strat] else [MetricDenied tier scope strat])"

definition violation_of :: "string \<Rightarrow> string \<Rightarrow> string option \<Rightarrow> string \<Rightarrow> string \<Rightarrow> string \<Rightarrow> strategy \<Rightarrow> rat \<Rightarrow> violation_reason \<Rightarrow> violation"
  where
  "violation_of ip tracker userId route mtd tier strat limit reason =
     \<lparr>rv_id = [], rv_timestamp = 0, rv_ip = ip, rv_tracker = tracker, rv_userId = userId, rv_route = route, rv_method = mtd,
      rv_tier = tier, rv_strategy = strat, rv_limit = limit, rv_reason = reason\<rparr>"

section \<open>The guard\<close>

definition getClientIp :: "http_request \<Rightarrow> string" where
  "getClientIp r =
     (if truthy (hr_forwardedFor r) then trim (hd (split_char CHR '','' (the (hr_forwardedFor r))))
      else nullish (hr_ip r) ''127.0.0.1'')"

definition getScope :: "http_request \<Rightarrow> rate_options option \<Rightarrow> string" where
  "getScope r opts =
     (case opts of None \<Rightarrow> ''global''
      | Some op \<Rightarrow>
          if truthy (ro_key op) then the (ro_key op)
          else the (or_str (hr_routePath r) (or_str (hr_originalUrl r) (or_str (hr_url r) (Some ''route'')))))"

definition resolveStrategy :: "process_env \<Rightarrow> strategy option \<Rightarrow> strategy" where
  "resolveStrategy env strat =
     (case strat of Some st \<Rightarrow> st
      | None \<Rightarrow> if toLowerCase (nullish (pe_strategy env) ''token-bucket'') = ''sliding-window'' then SlidingWindow else TokenBucket)"

definition resolvePolicy :: "process_env \<Rightarrow> rate_options option \<Rightarrow> rate_tier \<Rightarrow> dist_policy" where
  "resolvePolicy env opts tier =
     (case opts of
        None \<Rightarrow>
          (let p = getRateLimitPolicyFromEnv tier (pe_number env)
           in \<lparr>rs_tier = tier, rs_label = tier_name tier, rs_limit = tc_limit p, rs_windowMs = tc_windowMs p,
               rs_burst = tc_burst p, dp_strategy = resolveStrategy env None\<rparr>)
      | Some op \<Rightarrow>
          (let configuredTier = (if truthy (ro_level op) then normalizeRateLimitTier (ro_level op) else tier);
               p = getRateLimitPolicyFromEnv configuredTier (pe_number env)
           in \<lparr>rs_tier = configuredTier,
               rs_label = (if truthy (ro_level op) then the (ro_level op) else tier_name configuredTier),
               rs_limit = nullish (ro_limit op) (tc_limit p),
               rs_windowMs = nullish (ro_windowMs op) (tc_windowMs p),
               rs_burst = nullish (ro_burst op) (tc_burst p),
               dp_strategy = resolveStrategy env (ro_strategy op)\<rparr>))"

definition buildRateLimitKey :: "string \<Rightarrow> string \<Rightarrow> string \<Rightarrow> string" where
  "buildRateLimitKey tracker scope tier = tracker @ '':'' @ scope @ '':'' @ tier"

definition guard_call :: "process_env \<Rightarrow> rate_options option \<Rightarrow> http_request \<Rightarrow> consume_call" where
  "guard_call env opts r =
     (let p = resolvePolicy env opts (resolveRequestTier r); tracker = getTrackerKey r; scope = getScope r opts
      in \<lparr>cc_key = buildRateLimitKey tracker scope (tier_name (rs_tier p)),
          cc_policy = \<lparr>po_limit = Some (rs_limit p), po_windowMs = Some (rs_windowMs p), po_burst = Some (rs_burst p),
                       po_strategy = Some (dp_strategy p)\<rparr>,
          cc_tracker = Some tracker, cc_scope = Some scope, cc_tier = Some (tier_name (rs_tier p))\<rparr>)"

definition canActivate ::
  "rl_config \<Rightarrow> process_env \<Rightarrow> guard_env \<Rightarrow> rate_options option \<Rightarrow> http_request \<Rightarrow> rate_limiter \<Rightarrow>
     guard_result \<times> guard_effect list \<times> rate_limiter" where
  "canActivate cfg env ge opts r s =
     (let ip = getClientIp r; userId = truthy_user r; path = getScope r opts;
          mtd = the (or_str (hr_method r) (Some ''GET''));
          (black, s1) = isBlacklisted cfg (ge_black ge) (Some ip) userId None s
      in if black
         then (let (_, _, s2) = recordViolation cfg (ge_ping ge) (ge_violationAt ge) (ge_violationId ge)
                     (violation_of ip (client_tracker r ip) userId path mtd ''blacklisted'' TokenBucket 0 Blacklisted) s1
               in (ForbiddenBlacklisted, [Header ''X-RateLimit-Blocked'' (HString ''blacklisted'')], s2))
         else
           (let (white, s2) = isWhitelisted cfg (ge_white ge) (Some ip) userId None (Some path) s1
            in if white then (Passed, [Header ''X-RateLimit-Whitelisted'' (HString ''true'')], s2)
               else
                 (let tier = resolveRequestTier r; p = resolvePolicy env opts tier; c = guard_call env opts r;
                      (d, s3) = consume cfg (ge_consume ge) c s2;
                      effs = limit_headers (rs_limit p) (rs_tier p) (dp_strategy p) d @ recordMetrics tier path (dp_strategy p) d
                  in if rd_allowed d then (Passed, effs, s3)
                     else
                       (let (_, _, s4) = recordViolation cfg (ge_ping ge) (ge_violationAt ge) (ge_violationId ge)
                              (violation_of ip (getTrackerKey r) userId path mtd (tier_name (rs_tier p)) (dp_strategy p)
                                 (rs_limit p) RateLimitExceeded) s3
                        in (TooManyRequestsBody
                              \<lparr>lb_limit = rs_limit p, lb_remaining = 0, lb_resetAt = rd_resetAt d,
                               lb_retryAfter = retry_seconds d (ge_now ge), lb_tier = rs_tier p, lb_strategy = dp_strategy p\<rparr>,
                            effs, s4)))))"

section \<open>The middleware\<close>

record mw_request = http_request +
  mr_baseUrl :: "string option"
  mr_path :: "string option"
  mr_remoteAddress :: "string option"

definition getClientIp_mw :: "mw_request \<Rightarrow> string" where
  "getClientIp_mw r =
     (if truthy (hr_forwardedFor r) then trim (hd (split_char CHR '','' (the (hr_forwardedFor r))))
      else the (or_str (hr_ip r) (or_str (mr_remoteAddress r) (Some ''127.0.0.1''))))"

definition resolveStrategy_mw :: "string option \<Rightarrow> strategy" where
  "resolveStrategy_mw strat =
     (if truthy strat \<and> toLowerCase (the strat) = ''sliding-window'' then SlidingWindow else TokenBucket)"

definition mw_path :: "mw_request \<Rightarrow> string" where
  "mw_path r = the (or_str (mr_baseUrl r) (or_str (mr_path r) (or_str (hr_originalUrl r) (Some ''/''))))"

definition mw_policy :: "process_env \<Rightarrow> endpoint_rule option \<Rightarrow> rate_tier \<Rightarrow> rate_policy" where
  "mw_policy env rule tier =
     (let e = getRateLimitPolicyFromEnv tier (pe_number env);
          field = (\<lambda>f d. nullish (case rule of None \<Rightarrow> None | Some q \<Rightarrow> f q) d)
      in \<lparr>rp_limit = field er_limit (tc_limit e), rp_windowMs = field er_windowMs (tc_windowMs e),
          rp_burst = field er_burst (tc_burst e),
          rp_strategy = nullish (case rule of None \<Rightarrow> None | Some q \<Rightarrow> er_strategy q) (resolveStrategy_mw (pe_strategy env))\<rparr>)"

definition use ::
  "rl_config \<Rightarrow> process_env \<Rightarrow> guard_env \<Rightarrow> mw_request \<Rightarrow> rate_limiter \<Rightarrow> guard_result \<times> guard_effect list \<times> rate_limiter" where
  "use cfg env ge r s =
     (let q = http_request.truncate r; ip = getClientIp_mw r; userId = truthy_user q; path = mw_path r; mtd = nullish (hr_method r) [];
          (black, s1) = isBlacklisted cfg (ge_black ge) (Some ip) userId None s
      in if black
         then (let (_, _, s2) = recordViolation cfg (ge_ping ge) (ge_violationAt ge) (ge_violationId ge)
                     (violation_of ip (client_tracker q ip) userId path mtd ''blacklisted'' TokenBucket 0 Blacklisted) s1
               in (ForbiddenBlacklisted, [Header ''X-RateLimit-Blocked'' (HString ''blacklisted'')], s2))
         else
           (let (white, s2) = isWhitelisted cfg (ge_white ge) (Some ip) userId None (Some path) s1
            in if white then (Passed, [Header ''X-RateLimit-Whitelisted'' (HString ''true'')], s2)
               else
                 (let rule = getEndpointRule path (hr_method r) s2; tier = resolveRequestTier q; p = mw_policy env rule tier;
                      tracker = client_tracker q ip;
                      scope = (case rule of Some x \<Rightarrow> er_pathPattern x | None \<Rightarrow> path);
                      (d, s3) = consume cfg (ge_consume ge)
                        \<lparr>cc_key = tracker @ '':'' @ scope @ '':'' @ tier_name tier,
                         cc_policy = \<lparr>po_limit = Some (rp_limit p), po_windowMs = Some (rp_windowMs p), po_burst = Some (rp_burst p),
                                      po_strategy = Some (rp_strategy p)\<rparr>,
                         cc_tracker = Some tracker, cc_scope = Some scope, cc_tier = Some (tier_name tier)\<rparr> s2;
                      effs = limit_headers (rp_limit p) tier (rp_strategy p) d @ recordMetrics tier scope (rp_strategy p) d
                  in if rd_allowed d then (Passed, effs, s3)
                     else
                       (let (_, _, s4) = recordViolation cfg (ge_ping ge) (ge_violationAt ge) (ge_violationId ge)
                              (violation_of ip tracker userId path mtd (tier_name tier) (rp_strategy p) (rp_limit p) RateLimitExceeded) s3
                        in (TooManyRequestsBody
                              \<lparr>lb_limit = rp_limit p, lb_remaining = 0, lb_resetAt = rd_resetAt d,
                               lb_retryAfter = retry_seconds d (ge_now ge), lb_tier = tier, lb_strategy = rp_strategy p\<rparr>,
                            effs, s4)))))"

section \<open>Specification\<close>

type_synonym guarded_request = "guard_env \<times> rate_options option \<times> http_request"

definition dg_black :: "rl_config \<Rightarrow> rate_limiter \<Rightarrow> guarded_request \<Rightarrow> bool" where
  "dg_black cfg s = (\<lambda>(ge, opts, r). fst (isBlacklisted cfg (ge_black ge) (Some (getClientIp r)) (truthy_user r) None s))"

definition dg_white :: "rl_config \<Rightarrow> rate_limiter \<Rightarrow> guarded_request \<Rightarrow> bool" where
  "dg_white cfg s = (\<lambda>(ge, opts, r).
     fst (isWhitelisted cfg (ge_white ge) (Some (getClientIp r)) (truthy_user r) None (Some (getScope r opts)) s))"

definition dg_step :: "rl_config \<Rightarrow> process_env \<Rightarrow> rate_limiter \<Rightarrow> guarded_request \<Rightarrow> bool \<times> rate_limiter" where
  "dg_step cfg env s = (\<lambda>(ge, opts, r). let (res, _, s') = canActivate cfg env ge opts r s in (res = Passed, s'))"

definition dg_time :: "guarded_request \<Rightarrow> rat" where
  "dg_time = (\<lambda>(ge, opts, r). en_now (ge_consume ge))"

definition dg_call :: "process_env \<Rightarrow> guarded_request \<Rightarrow> consume_call" where
  "dg_call env = (\<lambda>(ge, opts, r). guard_call env opts r)"

text \<open>A request that is neither on the blacklist nor on the whitelist and counts for the key.\<close>

definition dg_counted :: "rl_config \<Rightarrow> process_env \<Rightarrow> string \<Rightarrow> rate_limiter \<Rightarrow> guarded_request \<Rightarrow> bool" where
  "dg_counted cfg env key s q \<longleftrightarrow> \<not> dg_black cfg s q \<and> \<not> dg_white cfg s q \<and> cc_key (dg_call env q) = key"

definition dg_policy :: "rl_config \<Rightarrow> process_env \<Rightarrow> guarded_request \<Rightarrow> rate_policy" where
  "dg_policy cfg env q = resolve_policy cfg (cc_policy (dg_call env q))"

definition dg_legal :: "rl_config \<Rightarrow> process_env \<Rightarrow> string \<Rightarrow> rate_policy \<Rightarrow> guarded_request \<Rightarrow> bool" where
  "dg_legal cfg env key p q \<longleftrightarrow> \<not> rc_redis cfg \<and> rp_strategy p = SlidingWindow \<and>
     (cc_key (dg_call env q) = key \<longrightarrow> dg_policy cfg env q = p)"

section \<open>Facts\<close>

lemma lists_memory:
  "\<not> rc_redis cfg \<Longrightarrow> snd (isBlacklisted cfg env ip u k s) = s"
  "\<not> rc_redis cfg \<Longrightarrow> snd (isWhitelisted cfg env ip u k p s) = s"
  by (simp_all add: isBlacklisted_def isWhitelisted_def listBlacklist_def listWhitelist_def Let_def)

lemma recordViolation_memory:
  "\<not> rc_redis cfg \<Longrightarrow> snd (snd (recordViolation cfg ping now i v s)) =
     s\<lparr>rl_violations := take 2000 (v\<lparr>rv_id := i, rv_timestamp := now\<rparr> # rl_violations s)\<rparr>"
  by (simp add: recordViolation_def Let_def)

lemma guard_black:
  assumes "\<not> rc_redis cfg" and "dg_black cfg s (ge, opts, r)"
  shows "fst (canActivate cfg env ge opts r s) = ForbiddenBlacklisted"
    and "\<exists>v. rv_reason v = Blacklisted \<and> rv_id v = ge_violationId ge \<and>
      snd (snd (canActivate cfg env ge opts r s)) = s\<lparr>rl_violations := take 2000 (v # rl_violations s)\<rparr>"
proof -
  let ?v = "violation_of (getClientIp r) (client_tracker r (getClientIp r)) (truthy_user r) (getScope r opts)
      (the (or_str (hr_method r) (Some ''GET''))) ''blacklisted'' TokenBucket 0 Blacklisted"
  obtain s1 where b: "isBlacklisted cfg (ge_black ge) (Some (getClientIp r)) (truthy_user r) None s = (True, s1)"
    using assms(2) by (cases "isBlacklisted cfg (ge_black ge) (Some (getClientIp r)) (truthy_user r) None s") (auto simp: dg_black_def)
  then have s1: "s1 = s" using lists_memory(1) [OF assms(1)] by (metis snd_conv)
  have act: "canActivate cfg env ge opts r s =
      (ForbiddenBlacklisted, [Header ''X-RateLimit-Blocked'' (HString ''blacklisted'')],
       snd (snd (recordViolation cfg (ge_ping ge) (ge_violationAt ge) (ge_violationId ge) ?v s)))"
    by (simp add: canActivate_def b s1 Let_def split_beta)
  then show "fst (canActivate cfg env ge opts r s) = ForbiddenBlacklisted" by simp
  show "\<exists>v. rv_reason v = Blacklisted \<and> rv_id v = ge_violationId ge \<and>
      snd (snd (canActivate cfg env ge opts r s)) = s\<lparr>rl_violations := take 2000 (v # rl_violations s)\<rparr>"
    by (rule exI [of _ "?v\<lparr>rv_id := ge_violationId ge, rv_timestamp := ge_violationAt ge\<rparr>"])
      (simp add: act recordViolation_memory [OF assms(1)] violation_of_def)
qed

lemma guard_white:
  assumes "\<not> rc_redis cfg" and "\<not> dg_black cfg s (ge, opts, r)" and "dg_white cfg s (ge, opts, r)"
  shows "canActivate cfg env ge opts r s = (Passed, [Header ''X-RateLimit-Whitelisted'' (HString ''true'')], s)"
proof -
  have "isBlacklisted cfg (ge_black ge) (Some (getClientIp r)) (truthy_user r) None s = (False, s)"
    using assms(1,2) lists_memory(1) [OF assms(1), of "ge_black ge" "Some (getClientIp r)" "truthy_user r" None s]
    by (auto simp: dg_black_def prod_eq_iff)
  moreover have "isWhitelisted cfg (ge_white ge) (Some (getClientIp r)) (truthy_user r) None (Some (getScope r opts)) s = (True, s)"
    using assms(1,3) lists_memory(2) [OF assms(1), of "ge_white ge" "Some (getClientIp r)" "truthy_user r" None "Some (getScope r opts)" s]
    by (auto simp: dg_white_def prod_eq_iff)
  ultimately show ?thesis by (simp add: canActivate_def Let_def)
qed

lemma guard_counted:
  assumes "\<not> rc_redis cfg" and "\<not> dg_black cfg s (ge, opts, r)" and "\<not> dg_white cfg s (ge, opts, r)"
    and "consume cfg (ge_consume ge) (guard_call env opts r) s = (d, s')"
  shows "rd_allowed d \<Longrightarrow> fst (canActivate cfg env ge opts r s) = Passed \<and> snd (snd (canActivate cfg env ge opts r s)) = s'"
    and "\<not> rd_allowed d \<Longrightarrow> (\<exists>b. fst (canActivate cfg env ge opts r s) = TooManyRequestsBody b \<and>
        lb_retryAfter b = retry_seconds d (ge_now ge)) \<and>
      (\<exists>v. rv_reason v = RateLimitExceeded \<and> rv_id v = ge_violationId ge \<and>
        snd (snd (canActivate cfg env ge opts r s)) = s'\<lparr>rl_violations := take 2000 (v # rl_violations s')\<rparr>)"
proof -
  let ?p = "resolvePolicy env opts (resolveRequestTier r)"
  let ?v = "violation_of (getClientIp r) (getTrackerKey r) (truthy_user r) (getScope r opts)
      (the (or_str (hr_method r) (Some ''GET''))) (tier_name (rs_tier ?p)) (dp_strategy ?p) (rs_limit ?p) RateLimitExceeded"
  have b: "isBlacklisted cfg (ge_black ge) (Some (getClientIp r)) (truthy_user r) None s = (False, s)"
    using assms(1,2) lists_memory(1) [OF assms(1), of "ge_black ge" "Some (getClientIp r)" "truthy_user r" None s]
    by (auto simp: dg_black_def prod_eq_iff)
  have w: "isWhitelisted cfg (ge_white ge) (Some (getClientIp r)) (truthy_user r) None (Some (getScope r opts)) s = (False, s)"
    using assms(1,3) lists_memory(2) [OF assms(1), of "ge_white ge" "Some (getClientIp r)" "truthy_user r" None "Some (getScope r opts)" s]
    by (auto simp: dg_white_def prod_eq_iff)
  show "rd_allowed d \<Longrightarrow> fst (canActivate cfg env ge opts r s) = Passed \<and> snd (snd (canActivate cfg env ge opts r s)) = s'"
    by (simp add: canActivate_def b w assms(4) Let_def)
  assume no: "\<not> rd_allowed d"
  have act: "snd (snd (canActivate cfg env ge opts r s)) =
      snd (snd (recordViolation cfg (ge_ping ge) (ge_violationAt ge) (ge_violationId ge) ?v s'))"
    using no by (simp add: canActivate_def b w assms(4) Let_def split_beta)
  show "(\<exists>b. fst (canActivate cfg env ge opts r s) = TooManyRequestsBody b \<and> lb_retryAfter b = retry_seconds d (ge_now ge)) \<and>
      (\<exists>v. rv_reason v = RateLimitExceeded \<and> rv_id v = ge_violationId ge \<and>
        snd (snd (canActivate cfg env ge opts r s)) = s'\<lparr>rl_violations := take 2000 (v # rl_violations s')\<rparr>)"
  proof
    show "\<exists>b. fst (canActivate cfg env ge opts r s) = TooManyRequestsBody b \<and> lb_retryAfter b = retry_seconds d (ge_now ge)"
      using no by (simp add: canActivate_def b w assms(4) Let_def split_beta)
    show "\<exists>v. rv_reason v = RateLimitExceeded \<and> rv_id v = ge_violationId ge \<and>
        snd (snd (canActivate cfg env ge opts r s)) = s'\<lparr>rl_violations := take 2000 (v # rl_violations s')\<rparr>"
      by (rule exI [of _ "?v\<lparr>rv_id := ge_violationId ge, rv_timestamp := ge_violationAt ge\<rparr>"])
        (simp add: act recordViolation_memory [OF assms(1)] violation_of_def)
  qed
qed

text \<open>The window of a key after one request at the guard.\<close>

lemma dg_step_counted:
  assumes "\<not> rc_redis cfg" and "\<not> dg_black cfg s q" and "\<not> dg_white cfg s q"
  shows "fst (dg_step cfg env s q) = fst (consume_step cfg s (ge_consume (fst q), dg_call env q))"
    and "window_of cfg key (snd (dg_step cfg env s q)) = window_of cfg key (snd (consume_step cfg s (ge_consume (fst q), dg_call env q)))"
proof -
  obtain ge opts r where q: "q = (ge, opts, r)" by (cases q)
  obtain d s' where c: "consume cfg (ge_consume ge) (guard_call env opts r) s = (d, s')" by fastforce
  note g = guard_counted [OF assms(1) assms(2,3) [unfolded q] c]
  have st: "fst (dg_step cfg env s q) = (fst (canActivate cfg env ge opts r s) = Passed)"
    "snd (dg_step cfg env s q) = snd (snd (canActivate cfg env ge opts r s))"
    by (simp_all add: dg_step_def q split_beta Let_def)
  have "fst (dg_step cfg env s q) = rd_allowed d" using st(1) g by (cases "rd_allowed d") auto
  then show "fst (dg_step cfg env s q) = fst (consume_step cfg s (ge_consume (fst q), dg_call env q))"
    by (simp add: q dg_call_def consume_fst c)
  have "rl_windows (snd (dg_step cfg env s q)) = rl_windows s'" using st(2) g by (cases "rd_allowed d") auto
  then show "window_of cfg key (snd (dg_step cfg env s q)) = window_of cfg key (snd (consume_step cfg s (ge_consume (fst q), dg_call env q)))"
    by (simp add: q dg_call_def consume_snd c window_of_def)
qed

lemma dg_step_listed:
  assumes "\<not> rc_redis cfg" and "dg_black cfg s q \<or> dg_white cfg s q"
  shows "window_of cfg key (snd (dg_step cfg env s q)) = window_of cfg key s"
proof -
  obtain ge opts r where q: "q = (ge, opts, r)" by (cases q)
  have st: "snd (dg_step cfg env s q) = snd (snd (canActivate cfg env ge opts r s))"
    by (simp add: dg_step_def q split_beta Let_def)
  show ?thesis
  proof (cases "dg_black cfg s q")
    case True
    then show ?thesis using guard_black(2) [OF assms(1), of s ge opts r env] q st by (auto simp: window_of_def)
  next
    case False
    then show ?thesis using guard_white [OF assms(1), of s ge opts r env] assms(2) q st by simp
  qed
qed

interpretation dg: window_limiter "dg_step cfg env" "dg_legal cfg env key p" "dg_counted cfg env key" dg_time
    "window_of cfg key" "rp_windowMs p" "nat \<lceil>rp_limit p\<rceil>" for cfg env key p
proof (unfold_locales, goal_cases)
  case (1 q s)
  let ?e = "(ge_consume (fst q), dg_call env q)"
  have t: "call_time ?e = dg_time q" by (cases q) (simp add: call_time_def dg_time_def)
  have m: "\<not> rc_redis cfg \<and> rp_strategy p = SlidingWindow \<and> under_policy cfg key p ?e" "call_of key ?e"
    using 1 by (auto simp: dg_legal_def dg_counted_def under_policy_def call_of_def dg_policy_def)
  show ?case using mw.admit_iff [OF m, of s] dg_step_counted(1) [where cfg = cfg and s = s and q = q and env = env] 1 t by (simp add: dg_legal_def dg_counted_def)
next
  case (2 q s)
  let ?e = "(ge_consume (fst q), dg_call env q)"
  have t: "call_time ?e = dg_time q" by (cases q) (simp add: call_time_def dg_time_def)
  have m: "\<not> rc_redis cfg \<and> rp_strategy p = SlidingWindow \<and> under_policy cfg key p ?e" "call_of key ?e"
    using 2 by (auto simp: dg_legal_def dg_counted_def under_policy_def call_of_def dg_policy_def)
  show ?case using mw.entries_step [OF m, of s] dg_step_counted [where cfg = cfg and s = s and q = q and env = env] 2 t by (simp add: dg_legal_def dg_counted_def)
next
  case (3 q s)
  let ?e = "(ge_consume (fst q), dg_call env q)"
  show ?case
  proof (cases "dg_black cfg s q \<or> dg_white cfg s q")
    case True
    then show ?thesis using dg_step_listed 3 by (simp add: dg_legal_def)
  next
    case False
    then have m: "\<not> rc_redis cfg \<and> rp_strategy p = SlidingWindow \<and> under_policy cfg key p ?e" "\<not> call_of key ?e"
      using 3 by (auto simp: dg_legal_def dg_counted_def under_policy_def call_of_def dg_policy_def)
    show ?thesis using mw.entries_frame [OF m, of s] dg_step_counted(2) [where cfg = cfg and s = s and q = q and env = env] False 3 by (simp add: dg_legal_def)
  qed
qed

lemma consume_violations: "rl_violations (snd (consume cfg env c s)) = rl_violations s"
proof -
  have cm: "rl_violations (snd (consumeMemory k p now t)) = rl_violations t" for k p now t
    by (simp add: consumeMemory_def consumeMemorySlidingWindow_def consumeMemoryTokenBucket_def Let_def)
  have cr: "rl_violations (snd (consumeRedis k p rep now t)) = rl_violations t" for k p rep now t
    by (simp add: consumeRedis_def cm split: option.splits)
  show ?thesis
    by (simp add: consume_def updateRegistry_def Let_def split_beta cm cr)
qed

section \<open>Properties\<close>



text \<open>
  What the guard does with a request, without Redis: one on the blacklist is refused with
  403 even when it is on the whitelist, consumes nothing and leaves one violation; one on the
  whitelist only passes and changes nothing; any other passes exactly when the limiter admits
  it, and otherwise gets a 429 with the limiter's delay and leaves one violation.
\<close>

theorem guard_verdicts:
  assumes "\<not> rc_redis cfg"
  shows "case (canActivate cfg env ge opts r s, consume cfg (ge_consume ge) (guard_call env opts r) s) of
     ((res, effs, s'), (d, sc)) \<Rightarrow>
       if dg_black cfg s (ge, opts, r)
       then res = ForbiddenBlacklisted \<and>
         (\<exists>v. rv_reason v = Blacklisted \<and> s' = s\<lparr>rl_violations := take 2000 (v # rl_violations s)\<rparr>)
       else if dg_white cfg s (ge, opts, r) then res = Passed \<and> s' = s
       else if rd_allowed d then res = Passed \<and> s' = sc
       else (\<exists>b. res = TooManyRequestsBody b \<and> lb_retryAfter b = retry_seconds d (ge_now ge)) \<and>
         (\<exists>v. rv_reason v = RateLimitExceeded \<and> s' = sc\<lparr>rl_violations := take 2000 (v # rl_violations s)\<rparr>)"
proof -
  obtain res effs s' where act: "canActivate cfg env ge opts r s = (res, effs, s')" by (metis prod_cases3)
  obtain d sc where c: "consume cfg (ge_consume ge) (guard_call env opts r) s = (d, sc)" by fastforce
  have vio: "rl_violations sc = rl_violations s"
    using consume_violations [of cfg "ge_consume ge" "guard_call env opts r" s] c by simp
  show ?thesis
    using guard_black [OF assms, of s ge opts r env] guard_white [OF assms, of s ge opts r env]
      guard_counted [OF assms _ _ c] act c vio by auto
qed

theorem guard_verdicts_witness:
  "let cfg = new_config False None None; env = \<lparr>pe_number = (\<lambda>_. None), pe_strategy = None\<rparr>;
       le = \<lparr>ln_checkedAt = 0, ln_ping = False, ln_raw = None, ln_now = 0, ln_later = 0\<rparr>;
       e = \<lparr>ne_type = IpEntry, ne_value = ''10.0.0.1'', ne_reason = None, ne_expiresAt = None\<rparr>;
       s = snd (snd (addWhitelist cfg le e (snd (snd (addBlacklist cfg le e (new_rate_limiter None))))));
       r = \<lparr>hr_ip = Some ''10.0.0.1'', hr_forwardedFor = None, hr_user = None, hr_authType = None, hr_routePath = None,
            hr_originalUrl = None, hr_url = None, hr_method = None\<rparr>;
       ge = \<lparr>ge_black = le, ge_white = le, ge_consume = \<lparr>en_checkedAt = 0, en_ping = False, en_reply = None, en_now = 0\<rparr>,
             ge_ping = False, ge_violationAt = 0, ge_violationId = ''v'', ge_now = 0\<rparr>
   in fst (canActivate cfg env ge None r s) = ForbiddenBlacklisted"
proof -
  let ?cfg = "new_config False None None" and ?env = "\<lparr>pe_number = (\<lambda>_. None), pe_strategy = None\<rparr>"
  let ?le = "\<lparr>ln_checkedAt = 0, ln_ping = False, ln_raw = None, ln_now = 0, ln_later = 0\<rparr>"
  let ?e = "\<lparr>ne_type = IpEntry, ne_value = ''10.0.0.1'', ne_reason = None, ne_expiresAt = None\<rparr>"
  let ?s = "snd (snd (addWhitelist ?cfg ?le ?e (snd (snd (addBlacklist ?cfg ?le ?e (new_rate_limiter None))))))"
  let ?r = "\<lparr>hr_ip = Some ''10.0.0.1'', hr_forwardedFor = None, hr_user = None, hr_authType = None, hr_routePath = None,
      hr_originalUrl = None, hr_url = None, hr_method = None\<rparr>"
  let ?ge = "\<lparr>ge_black = ?le, ge_white = ?le, ge_consume = \<lparr>en_checkedAt = 0, en_ping = False, en_reply = None, en_now = 0\<rparr>,
      ge_ping = False, ge_violationAt = 0, ge_violationId = ''v'', ge_now = 0\<rparr>"
  have off: "\<not> rc_redis ?cfg" and black: "dg_black ?cfg ?s (?ge, None, ?r)" by code_simp+
  have "fst (canActivate ?cfg ?env ?ge None ?r ?s) = ForbiddenBlacklisted"
    using guard_verdicts [OF off, where env = ?env and ge = ?ge and opts = None and r = ?r and s = ?s] black by (auto split: prod.splits)
  then show ?thesis unfolding Let_def .
qed

text \<open>
  The middleware leaves a trace of every request it stops: without Redis, a request that
  is passed on adds no violation, and one that is stopped adds exactly one, with the client's
  address and the reason of the answer it gets.
\<close>

theorem middleware_records_refusals:
  assumes "\<not> rc_redis cfg"
  shows "case use cfg env ge r s of (res, effs, s') \<Rightarrow>
     (if res = Passed then rl_violations s' = rl_violations s
      else \<exists>v. rl_violations s' = take 2000 (v # rl_violations s) \<and> rv_ip v = getClientIp_mw r \<and>
        rv_reason v = (if res = ForbiddenBlacklisted then Blacklisted else RateLimitExceeded))"
proof -
  have "snd (isBlacklisted cfg e ip u k s) = s" "snd (isWhitelisted cfg e ip u k p s) = s" for e ip u k p
    using lists_memory [OF assms] by simp_all
  then show ?thesis
    using consume_violations [of cfg "ge_consume ge"]
    by (auto simp: use_def Let_def split_beta recordViolation_memory [OF assms] violation_of_def)
qed

theorem middleware_records_refusals_witness:
  "let cfg = new_config False None None; env = \<lparr>pe_number = (\<lambda>_. None), pe_strategy = None\<rparr>;
       le = \<lparr>ln_checkedAt = 0, ln_ping = False, ln_raw = None, ln_now = 0, ln_later = 0\<rparr>;
       e = \<lparr>ne_type = IpEntry, ne_value = ''10.0.0.*'', ne_reason = None, ne_expiresAt = None\<rparr>;
       s = snd (snd (addBlacklist cfg le e (new_rate_limiter None)));
       r = \<lparr>hr_ip = Some ''10.0.0.1'', hr_forwardedFor = None, hr_user = None, hr_authType = None, hr_routePath = None,
            hr_originalUrl = None, hr_url = None, hr_method = Some ''GET'', mr_baseUrl = None, mr_path = Some ''/x'', mr_remoteAddress = None\<rparr>;
       ge = \<lparr>ge_black = le, ge_white = le, ge_consume = \<lparr>en_checkedAt = 0, en_ping = False, en_reply = None, en_now = 0\<rparr>,
             ge_ping = False, ge_violationAt = 0, ge_violationId = ''v'', ge_now = 0\<rparr>
   in \<exists>v. rl_violations (snd (snd (use cfg env ge r s))) = take 2000 (v # rl_violations s) \<and> rv_reason v = Blacklisted"
proof -
  let ?cfg = "new_config False None None" and ?env = "\<lparr>pe_number = (\<lambda>_. None), pe_strategy = None\<rparr>"
  let ?le = "\<lparr>ln_checkedAt = 0, ln_ping = False, ln_raw = None, ln_now = 0, ln_later = 0\<rparr>"
  let ?e = "\<lparr>ne_type = IpEntry, ne_value = ''10.0.0.*'', ne_reason = None, ne_expiresAt = None\<rparr>"
  let ?s = "snd (snd (addBlacklist ?cfg ?le ?e (new_rate_limiter None)))"
  let ?r = "\<lparr>hr_ip = Some ''10.0.0.1'', hr_forwardedFor = None, hr_user = None, hr_authType = None, hr_routePath = None,
      hr_originalUrl = None, hr_url = None, hr_method = Some ''GET'', mr_baseUrl = None, mr_path = Some ''/x'', mr_remoteAddress = None\<rparr>"
  let ?ge = "\<lparr>ge_black = ?le, ge_white = ?le, ge_consume = \<lparr>en_checkedAt = 0, en_ping = False, en_reply = None, en_now = 0\<rparr>,
      ge_ping = False, ge_violationAt = 0, ge_violationId = ''v'', ge_now = 0\<rparr>"
  have off: "\<not> rc_redis ?cfg" and res: "fst (use ?cfg ?env ?ge ?r ?s) = ForbiddenBlacklisted" by code_simp+
  have "\<exists>v. rl_violations (snd (snd (use ?cfg ?env ?ge ?r ?s))) = take 2000 (v # rl_violations ?s) \<and> rv_reason v = Blacklisted"
    using middleware_records_refusals [OF off, where env = ?env and ge = ?ge and r = ?r and s = ?s] res
    by (auto split: prod.splits simp del: take_Suc_Cons take_Cons_numeral)
  then show ?thesis unfolding Let_def .
qed

end
