(* ===== verification/Trade_Lock.thy ===== *)
theory Trade_Lock
  imports Js_Prelude
begin

text \<open>
  \<open>TradeLockService\<close> (defi/trade-lock.service.ts) with its interleavings. The code between two
  awaits of a request is one step; a request that awaits is a process in the state
  \<open>trade_proc\<close>, and \<open>Resume\<close> runs its next section: after the promise of the lock it waits
  for, after the processing timer, or after \<open>fn()\<close> settled. A lock is a number; it is resolved
  when \<open>releaseLock\<close> was called.
\<close>

datatype trade_side = Buy | Sell | OtherSide string

record trade_request =
  tq_idempotencyKey :: string
  tq_userId :: string
  tq_asset :: string
  tq_amount :: rat
  tq_side :: trade_side

text \<open>\<open>tradeId\<close> is made of the counter and the time, so it is the pair of both.\<close>

record trade_result =
  tr_tradeId :: "int \<times> timestamp"
  tr_idempotencyKey :: string
  tr_userId :: string
  tr_asset :: string
  tr_amount :: rat
  tr_side :: trade_side
  tr_executedAt :: timestamp

datatype trade_proc =
    WaitingLock trade_request nat
  | Trading trade_request nat "int \<times> timestamp"
  | Releasing trade_request nat trade_result
  | Finished "trade_result result"

record trade_lock =
  tl_userLocks :: "(string, nat) js_map"
  tl_idempotencyCache :: "(string, trade_result \<times> timestamp) js_map"
  tl_tradeCounter :: int
  tl_nextLock :: nat
  tl_resolved :: "nat list"
  tl_procs :: "(nat, trade_proc) js_map"

definition new_trade_lock :: trade_lock where
  "new_trade_lock = \<lparr>tl_userLocks = [], tl_idempotencyCache = [], tl_tradeCounter = 0, tl_nextLock = 0, tl_resolved = [], tl_procs = []\<rparr>"

definition validateRequest :: "trade_request \<Rightarrow> unit result" where
  "validateRequest q =
     (if tq_idempotencyKey q = [] then Inl (BadRequest ''idempotencyKey is required'')
      else if tq_userId q = [] then Inl (BadRequest ''userId is required'')
      else if tq_asset q = [] then Inl (BadRequest ''asset is required'')
      else if tq_amount q \<le> 0 then Inl (BadRequest ''amount must be positive'')
      else if tq_side q \<noteq> Buy \<and> tq_side q \<noteq> Sell then Inl (BadRequest ''side must be buy or sell'')
      else Inr ())"

definition set_proc :: "nat \<Rightarrow> trade_proc \<Rightarrow> trade_lock \<Rightarrow> trade_lock" where
  "set_proc pid p s = s\<lparr>tl_procs := Map_set pid p (tl_procs s)\<rparr>"

text \<open>
  From taking the lock to the first await inside it: the second look at the cache, and the
  start of \<open>performTrade\<close> up to its timer.
\<close>

definition enter_lock :: "timestamp \<Rightarrow> nat \<Rightarrow> trade_request \<Rightarrow> trade_lock \<Rightarrow> trade_lock" where
  "enter_lock now pid q s =
     (let lock = tl_nextLock s;
          s1 = s\<lparr>tl_userLocks := Map_set (tq_userId q) lock (tl_userLocks s), tl_nextLock := lock + 1\<rparr>
      in case Map_get (tq_idempotencyKey q) (tl_idempotencyCache s1) of
           Some (result, expiresAt) \<Rightarrow>
             if now < expiresAt then set_proc pid (Releasing q lock result) s1
             else set_proc pid (Trading q lock (tl_tradeCounter s1 + 1, now)) (s1\<lparr>tl_tradeCounter := tl_tradeCounter s1 + 1\<rparr>)
         | None \<Rightarrow> set_proc pid (Trading q lock (tl_tradeCounter s1 + 1, now)) (s1\<lparr>tl_tradeCounter := tl_tradeCounter s1 + 1\<rparr>))"

definition executeTrade :: "timestamp \<Rightarrow> nat \<Rightarrow> trade_request \<Rightarrow> trade_lock \<Rightarrow> trade_lock" where
  "executeTrade now pid q s =
     (case validateRequest q of
        Inl e \<Rightarrow> set_proc pid (Finished (Inl e)) s
      | Inr _ \<Rightarrow>
          (let proceed = (\<lambda>s. case Map_get (tq_userId q) (tl_userLocks s) of
                 Some existing \<Rightarrow> set_proc pid (WaitingLock q existing) s
               | None \<Rightarrow> enter_lock now pid q s)
           in case Map_get (tq_idempotencyKey q) (tl_idempotencyCache s) of
                Some (result, expiresAt) \<Rightarrow>
                  if now < expiresAt then set_proc pid (Finished (Inr result)) s
                  else proceed (s\<lparr>tl_idempotencyCache := Map_delete (tq_idempotencyKey q) (tl_idempotencyCache s)\<rparr>)
              | None \<Rightarrow> proceed s))"

text \<open>The end of \<open>performTrade\<close> and the write to the cache.\<close>

definition finish_trade :: "timestamp \<Rightarrow> trade_request \<Rightarrow> int \<times> timestamp \<Rightarrow> trade_result" where
  "finish_trade now q tradeId =
     \<lparr>tr_tradeId = tradeId, tr_idempotencyKey = tq_idempotencyKey q, tr_userId = tq_userId q, tr_asset = tq_asset q,
      tr_amount = tq_amount q, tr_side = tq_side q, tr_executedAt = now\<rparr>"

text \<open>The \<open>finally\<close> block of \<open>withUserLock\<close>.\<close>

definition releaseLock :: "string \<Rightarrow> nat \<Rightarrow> trade_lock \<Rightarrow> trade_lock" where
  "releaseLock userId lock s =
     s\<lparr>tl_resolved := Set_add lock (tl_resolved s),
       tl_userLocks := (if Map_get userId (tl_userLocks s) = Some lock then Map_delete userId (tl_userLocks s) else tl_userLocks s)\<rparr>"

definition resume :: "timestamp \<Rightarrow> nat \<Rightarrow> trade_lock \<Rightarrow> trade_lock" where
  "resume now pid s =
     (case Map_get pid (tl_procs s) of
        Some (WaitingLock q lock) \<Rightarrow> if lock \<in> set (tl_resolved s) then enter_lock now pid q s else s
      | Some (Trading q lock tradeId) \<Rightarrow>
          (let result = finish_trade now q tradeId
           in set_proc pid (Releasing q lock result)
                (s\<lparr>tl_idempotencyCache := Map_set (tq_idempotencyKey q) (result, now + 86400000) (tl_idempotencyCache s)\<rparr>))
      | Some (Releasing q lock result) \<Rightarrow> set_proc pid (Finished (Inr result)) (releaseLock (tq_userId q) lock s)
      | _ \<Rightarrow> s)"

definition cleanupExpiredCache :: "timestamp \<Rightarrow> trade_lock \<Rightarrow> trade_lock" where
  "cleanupExpiredCache now s =
     s\<lparr>tl_idempotencyCache := Map_filter (\<lambda>_ (_, expiresAt). \<not> now \<ge> expiresAt) (tl_idempotencyCache s)\<rparr>"

section \<open>Specification\<close>

datatype trade_event = Arrive timestamp nat trade_request | Resume timestamp nat | CleanUp timestamp

fun event_time :: "trade_event \<Rightarrow> timestamp" where
  "event_time (Arrive t _ _) = t"
| "event_time (Resume t _) = t"
| "event_time (CleanUp t) = t"

fun trade_step :: "trade_lock \<Rightarrow> trade_event \<Rightarrow> trade_lock" where
  "trade_step s (Arrive now pid q) = executeTrade now pid q s"
| "trade_step s (Resume now pid) = resume now pid s"
| "trade_step s (CleanUp now) = cleanupExpiredCache now s"

text \<open>The idempotency key a process is still working for.\<close>

fun working_for :: "trade_proc \<Rightarrow> string option" where
  "working_for (WaitingLock q _) = Some (tq_idempotencyKey q)"
| "working_for (Trading q _ _) = Some (tq_idempotencyKey q)"
| "working_for (Releasing q _ _) = Some (tq_idempotencyKey q)"
| "working_for (Finished _) = None"

text \<open>The key's result is cached and no request for the key is under way.\<close>

definition settled :: "string \<Rightarrow> trade_result \<times> timestamp \<Rightarrow> trade_lock \<Rightarrow> bool" where
  "settled key entry s \<longleftrightarrow> Map_wf (tl_idempotencyCache s) \<and> Map_get key (tl_idempotencyCache s) = Some entry \<and>
     (\<forall>pid p. Map_get pid (tl_procs s) = Some p \<longrightarrow> working_for p \<noteq> Some key)"

text \<open>The trades under way, with the numbers they were given.\<close>

fun trade_number :: "trade_proc \<Rightarrow> int option" where
  "trade_number (Trading _ _ i) = Some (fst i)"
| "trade_number _ = None"

definition numbers_ok :: "trade_lock \<Rightarrow> bool" where
  "numbers_ok s \<longleftrightarrow>
     (\<forall>pid p n. Map_get pid (tl_procs s) = Some p \<longrightarrow> trade_number p = Some n \<longrightarrow> n \<le> tl_tradeCounter s) \<and>
     (\<forall>pid p pid' p' n. Map_get pid (tl_procs s) = Some p \<longrightarrow> Map_get pid' (tl_procs s) = Some p' \<longrightarrow>
        trade_number p = Some n \<longrightarrow> trade_number p' = Some n \<longrightarrow> pid = pid')"

section \<open>Facts\<close>

lemma set_proc_simps [simp]:
  "tl_idempotencyCache (set_proc pid p s) = tl_idempotencyCache s"
  "tl_procs (set_proc pid p s) = Map_set pid p (tl_procs s)"
  "tl_tradeCounter (set_proc pid p s) = tl_tradeCounter s"
  by (simp_all add: set_proc_def)

lemma releaseLock_simps [simp]:
  "tl_idempotencyCache (releaseLock u l s) = tl_idempotencyCache s"
  "tl_procs (releaseLock u l s) = tl_procs s"
  by (simp_all add: releaseLock_def)

lemma enter_lock_cache [simp]: "tl_idempotencyCache (enter_lock now pid q s) = tl_idempotencyCache s"
  by (simp add: enter_lock_def Let_def split: option.splits)

lemma enter_lock_proc:
  "\<exists>p. tl_procs (enter_lock now pid q s) = Map_set pid p (tl_procs s) \<and> working_for p = Some (tq_idempotencyKey q)"
  by (auto simp: enter_lock_def Let_def split: option.splits)

lemma settled_other_proc:
  "settled key e s \<Longrightarrow> working_for p \<noteq> Some key \<Longrightarrow> tl_idempotencyCache s' = tl_idempotencyCache s \<Longrightarrow>
     tl_procs s' = Map_set pid p (tl_procs s) \<Longrightarrow> settled key e s'"
  by (auto simp: settled_def split: if_splits)

lemma settled_set_proc: "settled key e s \<Longrightarrow> working_for p \<noteq> Some key \<Longrightarrow> settled key e (set_proc pid p s)"
  by (erule settled_other_proc) simp_all

lemma settled_release [simp]: "settled key e (releaseLock u l s) = settled key e s"
  by (simp add: settled_def)

lemma settled_enter:
  assumes "settled key e s" and "tq_idempotencyKey q \<noteq> key"
  shows "settled key e (enter_lock now pid q s)"
proof -
  obtain p where "tl_procs (enter_lock now pid q s) = Map_set pid p (tl_procs s)" "working_for p = Some (tq_idempotencyKey q)"
    using enter_lock_proc by blast
  then show ?thesis using assms by (intro settled_other_proc [OF assms(1)]) auto
qed

lemma settled_cache_other:
  "settled key e s \<Longrightarrow> k \<noteq> key \<Longrightarrow> settled key e (s\<lparr>tl_idempotencyCache := Map_delete k (tl_idempotencyCache s)\<rparr>)"
  "settled key e s \<Longrightarrow> k \<noteq> key \<Longrightarrow> settled key e (s\<lparr>tl_idempotencyCache := Map_set k v (tl_idempotencyCache s)\<rparr>)"
  by (simp_all add: settled_def)

lemma executeTrade_cached:
  assumes "settled (tq_idempotencyKey q) (result, expiresAt) s" and "now < expiresAt"
  shows "executeTrade now pid q s = set_proc pid (Finished (case validateRequest q of Inl e \<Rightarrow> Inl e | Inr _ \<Rightarrow> Inr result)) s"
  using assms by (simp add: executeTrade_def settled_def split: sum.splits)

lemma settled_arrive:
  assumes "settled key (result, expiresAt) s" and "now < expiresAt"
  shows "settled key (result, expiresAt) (executeTrade now pid q s)"
proof (cases "tq_idempotencyKey q = key")
  case True
  then show ?thesis using assms by (auto simp: executeTrade_cached intro: settled_set_proc)
next
  case False
  let ?proceed = "\<lambda>s. case Map_get (tq_userId q) (tl_userLocks s) of
      Some existing \<Rightarrow> set_proc pid (WaitingLock q existing) s | None \<Rightarrow> enter_lock now pid q s"
  have proceed: "settled key (result, expiresAt) (?proceed s')" if "settled key (result, expiresAt) s'" for s'
    using that False settled_enter [of key "(result, expiresAt)" s' q now pid]
    by (cases "Map_get (tq_userId q) (tl_userLocks s')") (auto intro: settled_set_proc)
  show ?thesis
  proof (cases "Map_get (tq_idempotencyKey q) (tl_idempotencyCache s)")
    case None
    then show ?thesis
      using proceed [OF assms(1)] settled_set_proc [OF assms(1)] by (simp add: executeTrade_def Let_def split: sum.splits)
  next
    case (Some c)
    then show ?thesis
      using proceed [OF settled_cache_other(1) [OF assms(1) False]] settled_set_proc [OF assms(1)]
      by (simp add: executeTrade_def Let_def split: sum.splits prod.splits)
  qed
qed

lemma settled_resume:
  assumes "settled key e s"
  shows "settled key e (resume now pid s)"
proof (cases "Map_get pid (tl_procs s)")
  case (Some p)
  then have other: "working_for p \<noteq> Some key" using assms by (auto simp: settled_def)
  show ?thesis
  proof (cases p)
    case (WaitingLock q lock)
    then show ?thesis using assms other Some settled_enter by (simp add: resume_def)
  next
    case (Trading q lock tradeId)
    then have "tq_idempotencyKey q \<noteq> key" using other by simp
    then show ?thesis
      using Trading Some settled_cache_other(2) [OF assms, of "tq_idempotencyKey q"]
      by (simp add: resume_def Let_def settled_set_proc)
  next
    case (Releasing q lock result)
    then show ?thesis using assms Some by (simp add: resume_def settled_set_proc)
  next
    case (Finished r)
    then show ?thesis using assms Some by (simp add: resume_def)
  qed
qed (use assms in \<open>simp add: resume_def\<close>)

lemma settled_cleanup:
  "settled key (result, expiresAt) s \<Longrightarrow> now < expiresAt \<Longrightarrow> settled key (result, expiresAt) (cleanupExpiredCache now s)"
  by (simp add: settled_def cleanupExpiredCache_def Map_get_filter Map_wf_filter)

interpretation ts: guarded_system trade_step "\<lambda>s e. event_time e < expiresAt" "settled key (result, expiresAt)" for key result expiresAt
proof (unfold_locales, goal_cases)
  case (1 s e)
  then show ?case by (cases e) (simp_all add: settled_arrive settled_resume settled_cleanup)
qed

lemma guarded_before: "\<forall>e \<in> set es. event_time e < t \<Longrightarrow> guarded trade_step (\<lambda>s e. event_time e < t) s es"
  by (induction es arbitrary: s) simp_all

lemma numbers_ok_other:
  "numbers_ok s \<Longrightarrow> trade_number p = None \<Longrightarrow> tl_procs s' = Map_set pid p (tl_procs s) \<Longrightarrow>
     tl_tradeCounter s' = tl_tradeCounter s \<Longrightarrow> numbers_ok s'"
  unfolding numbers_ok_def by (metis Map_get_set option.distinct(1) option.inject)

lemma numbers_ok_set_proc: "numbers_ok s \<Longrightarrow> trade_number p = None \<Longrightarrow> numbers_ok (set_proc pid p s)"
  by (erule numbers_ok_other) simp_all

lemma numbers_ok_upd [simp]:
  "numbers_ok (s\<lparr>tl_idempotencyCache := c\<rparr>) = numbers_ok s"
  "numbers_ok (s\<lparr>tl_userLocks := l, tl_nextLock := n\<rparr>) = numbers_ok s"
  "numbers_ok (releaseLock u k s) = numbers_ok s"
  by (simp_all add: numbers_ok_def releaseLock_def)

lemma numbers_ok_trading:
  assumes "numbers_ok s" and procs: "tl_procs s' = Map_set pid (Trading q l (tl_tradeCounter s + 1, t)) (tl_procs s)"
    and "tl_tradeCounter s' = tl_tradeCounter s + 1"
  shows "numbers_ok s'"
proof -
  have low: "n \<le> tl_tradeCounter s" if "Map_get i (tl_procs s) = Some p" "trade_number p = Some n" for i p n
    using assms(1) that unfolding numbers_ok_def by blast
  have uniq: "i = j" if "Map_get i (tl_procs s) = Some p" "Map_get j (tl_procs s) = Some p'"
      "trade_number p = Some n" "trade_number p' = Some n" for i j p p' n
    using assms(1) that unfolding numbers_ok_def by blast
  have new: "n \<le> tl_tradeCounter s \<or> i = pid \<and> n = tl_tradeCounter s + 1"
    if "Map_get i (tl_procs s') = Some p" "trade_number p = Some n" for i p n
    using that low by (auto simp: procs split: if_splits)
  show ?thesis
    unfolding numbers_ok_def
  proof (intro conjI allI impI)
    fix i p n assume "Map_get i (tl_procs s') = Some p" "trade_number p = Some n"
    then show "n \<le> tl_tradeCounter s'" using new assms(3) by fastforce
  next
    fix i p j p' n
    assume a: "Map_get i (tl_procs s') = Some p" "Map_get j (tl_procs s') = Some p'" "trade_number p = Some n" "trade_number p' = Some n"
    show "i = j"
    proof (cases "i = pid \<or> j = pid")
      case True
      then have "n = tl_tradeCounter s + 1" using a by (auto simp: procs split: if_splits)
      then show ?thesis using new [OF a(1,3)] new [OF a(2,4)] by auto
    next
      case False
      then show ?thesis using a uniq by (auto simp: procs)
    qed
  qed
qed

lemma numbers_ok_enter: "numbers_ok s \<Longrightarrow> numbers_ok (enter_lock now pid q s)"
  unfolding enter_lock_def Let_def
  by (auto split: option.splits intro: numbers_ok_set_proc numbers_ok_trading)

interpretation tn: invariant_system trade_step numbers_ok
proof (unfold_locales, goal_cases)
  case (1 s e)
  show ?case
  proof (cases e)
    case (Arrive now pid q)
    then show ?thesis
      using 1 by (auto simp: executeTrade_def Let_def numbers_ok_enter numbers_ok_set_proc split: sum.splits option.splits)
  next
    case (Resume now pid)
    show ?thesis
    proof (cases "Map_get pid (tl_procs s)")
      case (Some p)
      then show ?thesis
        using 1 Resume by (cases p) (auto simp: resume_def Let_def numbers_ok_enter numbers_ok_set_proc)
    qed (use 1 Resume in \<open>simp add: resume_def\<close>)
  next
    case (CleanUp now)
    then show ?thesis using 1 by (simp add: cleanupExpiredCache_def)
  qed
qed

section \<open>Properties\<close>

text \<open>
  C8. A completed trade is replayed: when the result of an idempotency key is cached and no
  request for the key is under way, then through every further interleaving of requests,
  resumptions and clean-ups, until the entry expires, a valid request with the key gets that
  result at once and no trade is executed for it.
\<close>

theorem completed_trade_is_replayed:
  assumes "settled (tq_idempotencyKey q) (result, expiresAt) s" and "\<forall>e \<in> set es. event_time e < expiresAt"
    and "now < expiresAt" and "validateRequest q = Inr ()"
  shows "let s' = run trade_step s es; s'' = executeTrade now pid q s'
     in Map_get pid (tl_procs s'') = Some (Finished (Inr result)) \<and> tl_tradeCounter s'' = tl_tradeCounter s'"
  using ts.guarded_run_inv [OF guarded_before [OF assms(2)] assms(1)] assms(3,4)
  by (simp add: executeTrade_cached Let_def)

theorem completed_trade_is_replayed_witness:
  "let q = \<lparr>tq_idempotencyKey = ''k'', tq_userId = ''u'', tq_asset = ''XLM'', tq_amount = 5, tq_side = Buy\<rparr>;
       s = run trade_step new_trade_lock [Arrive 0 1 q, Resume 10 1, Resume 10 1]
   in Map_get 2 (tl_procs (executeTrade 99 2 q (run trade_step s [CleanUp 50]))) = Some (Finished (Inr (finish_trade 10 q (1, 0))))"
proof -
  let ?q = "\<lparr>tq_idempotencyKey = ''k'', tq_userId = ''u'', tq_asset = ''XLM'', tq_amount = 5, tq_side = Buy\<rparr>"
  let ?s = "run trade_step new_trade_lock [Arrive 0 1 ?q, Resume 10 1, Resume 10 1]"
  have s: "tl_idempotencyCache ?s = [(''k'', finish_trade 10 ?q (1, 0), 86400010)]"
    "tl_procs ?s = [(1, Finished (Inr (finish_trade 10 ?q (1, 0))))]" by code_simp+
  have "settled (tq_idempotencyKey ?q) (finish_trade 10 ?q (1, 0), 86400010) ?s"
    unfolding settled_def s by (auto simp: Map_wf_def Map_get_def)
  moreover have "validateRequest ?q = Inr ()" by code_simp
  ultimately show ?thesis
    using completed_trade_is_replayed [of ?q "finish_trade 10 ?q (1, 0)" 86400010 ?s "[CleanUp 50]" 99 2] by (simp add: Let_def)
qed

text \<open>
  The user lock does not exclude two requests that wait for the same lock: when one request
  of a user is under way and two more with one idempotency key arrive, both waiters enter when
  the first leaves, neither finds the other's result, and the trade is executed twice, with two
  trade numbers for one idempotency key.
\<close>

theorem two_waiters_execute_twice:
  "let first = \<lparr>tq_idempotencyKey = ''a'', tq_userId = ''u'', tq_asset = ''XLM'', tq_amount = 5, tq_side = Buy\<rparr>;
       again = first\<lparr>tq_idempotencyKey := ''b''\<rparr>;
       s = run trade_step new_trade_lock
         [Arrive 0 1 first, Arrive 1 2 again, Arrive 2 3 again, Resume 10 1, Resume 10 1, Resume 10 2, Resume 10 3];
       s' = run trade_step s [Resume 20 2, Resume 20 3, Resume 20 2, Resume 20 3]
   in Map_get 2 (tl_procs s) = Some (Trading again 1 (2, 10)) \<and> Map_get 3 (tl_procs s) = Some (Trading again 2 (3, 10)) \<and>
      Map_get 2 (tl_procs s') = Some (Finished (Inr (finish_trade 20 again (2, 10)))) \<and>
      Map_get 3 (tl_procs s') = Some (Finished (Inr (finish_trade 20 again (3, 10))))"
  by code_simp

text \<open>
  Trade numbers are never shared: in every interleaving of requests, resumptions and
  clean-ups two different requests that are executing a trade have different trade numbers.
\<close>

theorem trade_numbers_unique:
  assumes "Map_get i (tl_procs (run trade_step new_trade_lock es)) = Some (Trading q l (n, t))"
    and "Map_get j (tl_procs (run trade_step new_trade_lock es)) = Some (Trading q' l' (n, t'))"
  shows "i = j"
proof -
  have "numbers_ok (run trade_step new_trade_lock es)" by (rule tn.run_inv) (simp add: numbers_ok_def new_trade_lock_def)
  then show ?thesis using assms unfolding numbers_ok_def by (metis fst_conv trade_number.simps(1))
qed

theorem trade_numbers_unique_witness:
  "let q = \<lparr>tq_idempotencyKey = ''k'', tq_userId = ''u'', tq_asset = ''XLM'', tq_amount = 5, tq_side = Buy\<rparr>;
       s = run trade_step new_trade_lock [Arrive 0 1 q, Arrive 0 2 (q\<lparr>tq_userId := ''v''\<rparr>)]
   in Map_get 1 (tl_procs s) = Some (Trading q 0 (1, 0)) \<and> (\<forall>j q' l t. Map_get j (tl_procs s) = Some (Trading q' l (1, t)) \<longrightarrow> 1 = j)"
proof -
  let ?q = "\<lparr>tq_idempotencyKey = ''k'', tq_userId = ''u'', tq_asset = ''XLM'', tq_amount = 5, tq_side = Buy\<rparr>"
  let ?es = "[Arrive 0 1 ?q, Arrive 0 2 (?q\<lparr>tq_userId := ''v''\<rparr>)]"
  have one: "Map_get 1 (tl_procs (run trade_step new_trade_lock ?es)) = Some (Trading ?q 0 (1, 0))" by code_simp
  show ?thesis
    unfolding Let_def using one trade_numbers_unique [OF one] by (intro conjI) blast+
qed

end
