(* ===== verification/Sql_Table.thy ===== *)
theory Sql_Table
  imports Js_Prelude
begin

text \<open>
  Async functions, and TypeORM repositories as a parameter. An async function is a map from a
  state to a result or a thrown error and a new state. A repository is a record of the calls the
  services make, with the \<open>where\<close> clause as a predicate on rows; the locale \<open>sql_table\<close> says what
  the services rely on, and \<open>mem_table_ops\<close> is a table in memory whose calls can be made to fail.
\<close>

section \<open>Async functions\<close>

type_synonym ('s, 'a) io = "'s \<Rightarrow> 'a result \<times> 's"

definition io_return :: "'a \<Rightarrow> ('s, 'a) io" where
  "io_return x s = (Inr x, s)"

definition io_throw :: "http_error \<Rightarrow> ('s, 'a) io" where
  "io_throw e s = (Inl e, s)"

definition io_bind :: "('s, 'a) io \<Rightarrow> ('a \<Rightarrow> ('s, 'b) io) \<Rightarrow> ('s, 'b) io" where
  "io_bind m f s = (case m s of (Inl e, s') \<Rightarrow> (Inl e, s') | (Inr x, s') \<Rightarrow> f x s')"

definition io_catch :: "('s, 'a) io \<Rightarrow> (http_error \<Rightarrow> ('s, 'a) io) \<Rightarrow> ('s, 'a) io" where
  "io_catch m h s = (case m s of (Inl e, s') \<Rightarrow> h e s' | (Inr x, s') \<Rightarrow> (Inr x, s'))"

fun error_message :: "http_error \<Rightarrow> string" where
  "error_message (BadRequest m) = m"
| "error_message (Unauthorized m) = m"
| "error_message (Forbidden m) = m"
| "error_message (NotFound m) = m"
| "error_message (Conflict m) = m"
| "error_message TooManyRequests = ''ThrottlerException: Too Many Requests''"
| "error_message (InternalServerError m) = m"
| "error_message (PlainError m) = m"

text \<open>\<open>on_part\<close> runs a call on one field of a larger state.\<close>

definition on_part :: "('w \<Rightarrow> 's) \<Rightarrow> ('s \<Rightarrow> 'w \<Rightarrow> 'w) \<Rightarrow> ('s, 'a) io \<Rightarrow> ('w, 'a) io" where
  "on_part get put m w = (case m (get w) of (r, s) \<Rightarrow> (r, put s w))"

text \<open>A predicate on the state that a call keeps, whatever its outcome.\<close>

definition io_keeps :: "('s \<Rightarrow> bool) \<Rightarrow> ('s, 'a) io \<Rightarrow> bool" where
  "io_keeps I m \<longleftrightarrow> (\<forall>s. I s \<longrightarrow> I (snd (m s)))"

text \<open>A specification of a call: what holds after it returns a value, and what after it throws.\<close>

definition io_triple :: "('s \<Rightarrow> bool) \<Rightarrow> ('s, 'a) io \<Rightarrow> ('a \<Rightarrow> 's \<Rightarrow> bool) \<Rightarrow> ('s \<Rightarrow> bool) \<Rightarrow> bool" where
  "io_triple P m Q E \<longleftrightarrow> 
     (\<forall>s. P s \<longrightarrow> (\<forall>x. fst (m s) = Inr x \<longrightarrow> Q x (snd (m s))) \<and> (\<forall>e. fst (m s) = Inl e \<longrightarrow> E (snd (m s))))"

named_theorems io_keeps_rules \<open>rules for what async functions keep\<close>

section \<open>Repositories\<close>

record ('db, 'row) table_ops =
  to_findOne :: "('row \<Rightarrow> bool) \<Rightarrow> ('row \<Rightarrow> 'row \<Rightarrow> int) \<Rightarrow> ('db, 'row option) io"
  to_find :: "('row \<Rightarrow> bool) \<Rightarrow> ('row \<Rightarrow> 'row \<Rightarrow> int) \<Rightarrow> ('db, 'row list) io"
  to_save :: "'row \<Rightarrow> ('db, unit) io"
  to_update :: "('row \<Rightarrow> bool) \<Rightarrow> ('row \<Rightarrow> 'row) \<Rightarrow> ('db, unit) io"
  to_delete :: "('row \<Rightarrow> bool) \<Rightarrow> ('db, unit) io"

text \<open>A query that asks for no order.\<close>

definition any_order :: "'row \<Rightarrow> 'row \<Rightarrow> int" where
  "any_order a b = 0"

text \<open>The errors of the database driver are none of the HTTP exceptions the services throw.\<close>

definition driver_result :: "'a result \<Rightarrow> bool" where
  "driver_result r = (case r of Inl (PlainError _) \<Rightarrow> True | Inl _ \<Rightarrow> False | Inr _ \<Rightarrow> True)"

text \<open>
  A query throws or reports the rows, and leaves them alone. A write throws and changes no row,
  or has its effect on the rows.
\<close>

locale sql_table =
  fixes ops :: "('db, 'row) table_ops"
    and key :: "'row \<Rightarrow> string"
    and rows :: "'db \<Rightarrow> string \<Rightarrow> 'row option"
  assumes row_key: "rows db k = Some r \<Longrightarrow> key r = k"
    and findOne_rows: "rows (snd (to_findOne ops P ord db)) = rows db"
    and findOne_some: "fst (to_findOne ops P ord db) = Inr (Some r) \<Longrightarrow> P r \<and> rows db (key r) = Some r"
    and findOne_none: "fst (to_findOne ops P ord db) = Inr None \<Longrightarrow> rows db k = Some r \<Longrightarrow> \<not> P r"
    and find_rows: "rows (snd (to_find ops P ord db)) = rows db"
    and find_set: "fst (to_find ops P ord db) = Inr rs \<Longrightarrow> set rs = {r. P r \<and> (\<exists>k. rows db k = Some r)}"
    and find_distinct: "fst (to_find ops P ord db) = Inr rs \<Longrightarrow> distinct (map key rs)"
    and save_ok: "fst (to_save ops r db) = Inr u \<Longrightarrow> rows (snd (to_save ops r db)) = (rows db)(key r \<mapsto> r)"
    and save_err: "fst (to_save ops r db) = Inl e \<Longrightarrow> rows (snd (to_save ops r db)) = rows db"
    and update_ok: "fst (to_update ops P f db) = Inr u \<Longrightarrow> (\<And>r. key (f r) = key r) \<Longrightarrow>
      rows (snd (to_update ops P f db)) k = map_option (\<lambda>r. if P r then f r else r) (rows db k)"
    and update_err: "fst (to_update ops P f db) = Inl e \<Longrightarrow> rows (snd (to_update ops P f db)) = rows db"
    and delete_ok: "fst (to_delete ops P db) = Inr u \<Longrightarrow>
      rows (snd (to_delete ops P db)) k = (case rows db k of Some r \<Rightarrow> if P r then None else Some r | None \<Rightarrow> None)"
    and delete_err: "fst (to_delete ops P db) = Inl e \<Longrightarrow> rows (snd (to_delete ops P db)) = rows db"
    and driver_queries: "driver_result (fst (to_findOne ops P ord db))" "driver_result (fst (to_find ops P ord db))"
    and driver_writes: "driver_result (fst (to_save ops r db))" "driver_result (fst (to_update ops P f db))"
      "driver_result (fst (to_delete ops P db))"
    and findOne_order: "fst (to_findOne ops P ord db) = Inr (Some r) \<Longrightarrow> rows db k = Some r' \<Longrightarrow> P r' \<Longrightarrow>
      (\<And>a b. ord a b = measure_of a - measure_of b) \<Longrightarrow> measure_of r \<le> measure_of r'"

text \<open>Calls that never throw.\<close>

definition reliable_table :: "('db, 'row) table_ops \<Rightarrow> bool" where
  "reliable_table ops \<longleftrightarrow>
     (\<forall>P ord db. \<exists>x. fst (to_findOne ops P ord db) = Inr x) \<and> (\<forall>P ord db. \<exists>x. fst (to_find ops P ord db) = Inr x) \<and>
     (\<forall>r db. fst (to_save ops r db) = Inr ()) \<and> (\<forall>P f db. fst (to_update ops P f db) = Inr ()) \<and>
     (\<forall>P db. fst (to_delete ops P db) = Inr ())"

section \<open>A table in memory\<close>

text \<open>The rows in insertion order, and the outcome of each coming call: None lets it through.\<close>

record 'row mem_table =
  mt_rows :: "'row list"
  mt_faults :: "string option list"

definition table_call :: "('row mem_table \<Rightarrow> 'a \<times> 'row mem_table) \<Rightarrow> ('row mem_table, 'a) io" where
  "table_call f db =
     (let db' = db\<lparr>mt_faults := tl (mt_faults db)\<rparr>
      in case mt_faults db of
           Some e # _ \<Rightarrow> (Inl (PlainError e), db')
         | _ \<Rightarrow> (Inr (fst (f db')), snd (f db')))"

definition table_row :: "('row \<Rightarrow> string) \<Rightarrow> 'row mem_table \<Rightarrow> string \<Rightarrow> 'row option" where
  "table_row key db k = List.find (\<lambda>r. key r = k) (mt_rows db)"

fun visible :: "('row \<Rightarrow> string) \<Rightarrow> 'row list \<Rightarrow> 'row list" where
  "visible key [] = []"
| "visible key (r # rs) = r # filter (\<lambda>x. key x \<noteq> key r) (visible key rs)"

definition put_row :: "('row \<Rightarrow> string) \<Rightarrow> 'row \<Rightarrow> 'row list \<Rightarrow> 'row list" where
  "put_row key r rs =
     (if list_ex (\<lambda>x. key x = key r) rs then map (\<lambda>x. if key x = key r then r else x) rs else rs @ [r])"

definition select_rows :: "('row \<Rightarrow> string) \<Rightarrow> ('row \<Rightarrow> bool) \<Rightarrow> ('row \<Rightarrow> 'row \<Rightarrow> int) \<Rightarrow> 'row mem_table \<Rightarrow> 'row list" where
  "select_rows key P ord db = sort_by ord (filter P (visible key (mt_rows db)))"

definition mem_table_ops :: "('row \<Rightarrow> string) \<Rightarrow> ('row mem_table, 'row) table_ops" where
  "mem_table_ops key =
     \<lparr>to_findOne = (\<lambda>P ord. table_call (\<lambda>db. (case select_rows key P ord db of [] \<Rightarrow> None | r # _ \<Rightarrow> Some r, db))),
      to_find = (\<lambda>P ord. table_call (\<lambda>db. (select_rows key P ord db, db))),
      to_save = (\<lambda>r. table_call (\<lambda>db. ((), db\<lparr>mt_rows := put_row key r (mt_rows db)\<rparr>))),
      to_update = (\<lambda>P f. table_call (\<lambda>db. ((), db\<lparr>mt_rows := map (\<lambda>r. if P r then f r else r) (visible key (mt_rows db))\<rparr>))),
      to_delete = (\<lambda>P. table_call (\<lambda>db. ((), db\<lparr>mt_rows := filter (\<lambda>r. \<not> P r) (visible key (mt_rows db))\<rparr>)))\<rparr>"

text \<open>The same table without failures.\<close>

definition calm_table_ops :: "('row \<Rightarrow> string) \<Rightarrow> ('row mem_table, 'row) table_ops" where
  "calm_table_ops key =
     \<lparr>to_findOne = (\<lambda>P ord db. to_findOne (mem_table_ops key) P ord (db\<lparr>mt_faults := []\<rparr>)),
      to_find = (\<lambda>P ord db. to_find (mem_table_ops key) P ord (db\<lparr>mt_faults := []\<rparr>)),
      to_save = (\<lambda>r db. to_save (mem_table_ops key) r (db\<lparr>mt_faults := []\<rparr>)),
      to_update = (\<lambda>P f db. to_update (mem_table_ops key) P f (db\<lparr>mt_faults := []\<rparr>)),
      to_delete = (\<lambda>P db. to_delete (mem_table_ops key) P (db\<lparr>mt_faults := []\<rparr>))\<rparr>"

text \<open>
  A unique index: a save of a row that clashes with another one throws. \<open>indexed_table_ops\<close> is the table in
  memory with such an index.
\<close>

definition refuses_clashes :: "('db, 'row) table_ops \<Rightarrow> ('row \<Rightarrow> string) \<Rightarrow> ('db \<Rightarrow> string \<Rightarrow> 'row option) \<Rightarrow> ('row \<Rightarrow> 'row \<Rightarrow> bool) \<Rightarrow> bool" where
  "refuses_clashes ops key rows clash \<longleftrightarrow>
     (\<forall>db r k x. rows db k = Some x \<and> k \<noteq> key r \<and> clash x r \<longrightarrow> (\<exists>e. fst (to_save ops r db) = Inl e))"

definition indexed_table_ops :: "('row \<Rightarrow> string) \<Rightarrow> ('row \<Rightarrow> 'row \<Rightarrow> bool) \<Rightarrow> ('row mem_table, 'row) table_ops" where
  "indexed_table_ops key clash = (calm_table_ops key)\<lparr>to_save := (\<lambda>r db.
     if list_ex (\<lambda>x. key x \<noteq> key r \<and> clash x r) (mt_rows db)
     then (Inl (PlainError ''duplicate key value violates unique constraint''), db)
     else to_save (calm_table_ops key) r db)\<rparr>"

section \<open>Facts\<close>

lemmas io_defs [js_defs] = io_return_def io_throw_def io_bind_def io_catch_def

lemma io_bind_run:
  "io_bind m f s = (case fst (m s) of Inl e \<Rightarrow> (Inl e, snd (m s)) | Inr x \<Rightarrow> f x (snd (m s)))"
  by (auto simp: io_bind_def split: prod.splits sum.splits)

lemma io_bind_Inr:
  "fst (io_bind m f s) = Inr y \<longleftrightarrow> (\<exists>x. fst (m s) = Inr x \<and> fst (f x (snd (m s))) = Inr y)"
  by (auto simp: io_bind_run split: sum.splits)

lemma io_bind_step: "fst (m s) = Inr x \<Longrightarrow> io_bind m f s = f x (snd (m s))"
  by (simp add: io_bind_run)

lemma io_bind_InrE:
  assumes "fst (io_bind m f s) = Inr y"
  obtains x where "fst (m s) = Inr x" "fst (f x (snd (m s))) = Inr y" "io_bind m f s = f x (snd (m s))"
  using assms by (auto simp: io_bind_run split: sum.splits)

lemma io_keepsD: "io_keeps I m \<Longrightarrow> I s \<Longrightarrow> I (snd (m s))"
  by (simp add: io_keeps_def)

lemma io_keeps_return [io_keeps_rules]: "io_keeps I (io_return x)"
  by (simp add: io_keeps_def io_return_def)

lemma io_keeps_throw [io_keeps_rules]: "io_keeps I (io_throw e)"
  by (simp add: io_keeps_def io_throw_def)

lemma io_keeps_bind [io_keeps_rules]: "io_keeps I m \<Longrightarrow> (\<And>x. io_keeps I (f x)) \<Longrightarrow> io_keeps I (io_bind m f)"
  by (auto simp: io_keeps_def io_bind_run split: sum.splits)

lemma io_keeps_if [io_keeps_rules]: "(P \<Longrightarrow> io_keeps I m) \<Longrightarrow> (\<not> P \<Longrightarrow> io_keeps I n) \<Longrightarrow> io_keeps I (if P then m else n)"
  by simp

lemma io_keeps_option [io_keeps_rules]:
  "io_keeps I m \<Longrightarrow> (\<And>x. io_keeps I (f x)) \<Longrightarrow> io_keeps I (case y of None \<Rightarrow> m | Some x \<Rightarrow> f x)"
  by (cases y) simp_all

lemma io_keeps_pair [io_keeps_rules]: "(\<And>a b. io_keeps I (f a b)) \<Longrightarrow> io_keeps I (case p of (a, b) \<Rightarrow> f a b)"
  by (cases p) simp

lemma io_keeps_catch [io_keeps_rules]: "io_keeps I m \<Longrightarrow> (\<And>e. io_keeps I (h e)) \<Longrightarrow> io_keeps I (io_catch m h)"
  by (auto simp: io_keeps_def io_catch_def split: sum.splits prod.splits)

lemma io_triple_bind:
  "io_triple P m Q E \<Longrightarrow> (\<And>x. io_triple (Q x) (f x) R E) \<Longrightarrow> io_triple P (io_bind m f) R E"
  unfolding io_triple_def by (auto simp: io_bind_run split: sum.splits)

lemma io_triple_return: "(\<And>s. P s \<Longrightarrow> Q x s) \<Longrightarrow> io_triple P (io_return x) Q E"
  by (simp add: io_triple_def io_return_def)

lemma io_triple_throw: "(\<And>s. P s \<Longrightarrow> E s) \<Longrightarrow> io_triple P (io_throw e) Q E"
  by (simp add: io_triple_def io_throw_def)

lemma io_triple_if: "(c \<Longrightarrow> io_triple P m Q E) \<Longrightarrow> (\<not> c \<Longrightarrow> io_triple P n Q E) \<Longrightarrow> io_triple P (if c then m else n) Q E"
  by simp

lemma io_triple_option:
  "(y = None \<Longrightarrow> io_triple P m Q E) \<Longrightarrow> (\<And>x. y = Some x \<Longrightarrow> io_triple P (f x) Q E) \<Longrightarrow>
    io_triple P (case y of None \<Rightarrow> m | Some x \<Rightarrow> f x) Q E"
  by (cases y) simp_all

lemma io_triple_keeps: "io_triple I m (\<lambda>_. I) I \<Longrightarrow> I s \<Longrightarrow> I (snd (m s))"
  by (cases "fst (m s)") (auto simp: io_triple_def)

lemmas io_triple_rules = io_triple_bind io_triple_if io_triple_option

lemma on_part_eq: "on_part get put m w = (fst (m (get w)), put (snd (m (get w))) w)"
  by (simp add: on_part_def split: prod.splits)

lemma find_key: "List.find (\<lambda>r. key r = k) rs = Some x \<Longrightarrow> key x = k"
  by (induction rs) (auto split: if_splits)

lemma set_visible: "set (visible key rs) = {r. List.find (\<lambda>x. key x = key r) rs = Some r}"
  by (induction rs) (auto dest: find_key)

lemma distinct_visible: "distinct (map key (visible key rs))"
  by (induction rs) (auto simp: distinct_map_filter)

lemma find_filter: "(\<And>x. key x = k \<Longrightarrow> P x) \<Longrightarrow> List.find (\<lambda>r. key r = k) (filter P rs) = List.find (\<lambda>r. key r = k) rs"
  by (induction rs) auto

lemma find_visible: "List.find (\<lambda>r. key r = k) (visible key rs) = List.find (\<lambda>r. key r = k) rs"
  by (induction rs) (auto simp: find_filter)

lemma find_replaced_other:
  "k \<noteq> key r \<Longrightarrow> List.find (\<lambda>x. key x = k) (map (\<lambda>x. if key x = key r then r else x) rs) = List.find (\<lambda>x. key x = k) rs"
  by (induction rs) auto

lemma find_put_row:
  "List.find (\<lambda>x. key x = k) (put_row key r rs) = (if k = key r then Some r else List.find (\<lambda>x. key x = k) rs)"
proof (cases "list_ex (\<lambda>x. key x = key r) rs")
  case True
  then have "List.find (\<lambda>x. key x = k) (map (\<lambda>x. if key x = key r then r else x) rs) =
      (if k = key r then Some r else List.find (\<lambda>x. key x = k) rs)"
    by (induction rs) (auto simp: find_replaced_other)
  then show ?thesis using True by (simp add: put_row_def)
next
  case False
  then have "List.find (\<lambda>x. key x = k) (rs @ [r]) = (if k = key r then Some r else List.find (\<lambda>x. key x = k) rs)"
    by (induction rs) auto
  then show ?thesis using False by (simp add: put_row_def)
qed

lemma find_map_update:
  "(\<And>r. key (f r) = key r) \<Longrightarrow>
    List.find (\<lambda>x. key x = k) (map (\<lambda>r. if P r then f r else r) rs) =
      map_option (\<lambda>r. if P r then f r else r) (List.find (\<lambda>x. key x = k) rs)"
  by (induction rs) auto

lemma find_filter_distinct:
  "distinct (map key rs) \<Longrightarrow> List.find (\<lambda>x. key x = k) (filter (\<lambda>r. \<not> P r) rs) =
    (case List.find (\<lambda>x. key x = k) rs of Some r \<Rightarrow> if P r then None else Some r | None \<Rightarrow> None)"
proof (induction rs)
  case (Cons r rs)
  have "List.find (\<lambda>x. key x = k) rs = None" if "key r = k" using Cons.prems that by (auto simp: find_None_iff image_iff)
  then show ?case using Cons by auto
qed simp

lemma set_insert_by_any: "set (insert_by cmp x ys) = insert x (set ys)"
  by (induction ys) auto

lemma distinct_insert_by: "distinct (map f (insert_by cmp x ys)) = distinct (map f (x # ys))"
  by (induction ys) (auto simp: set_insert_by_any)

lemma set_sort_by_any: "set (sort_by cmp xs) = set xs"
  by (induction xs) (auto simp: sort_by_def set_insert_by_any)

lemma distinct_sort_by: "distinct (map f (sort_by cmp xs)) = distinct (map f xs)"
proof (induction xs)
  case (Cons x xs)
  then show ?case using set_sort_by_any [of cmp xs] by (simp add: sort_by_def distinct_insert_by)
qed (simp add: sort_by_def)

lemma hd_sort_by:
  fixes f :: "'a \<Rightarrow> int"
  assumes "\<And>a b. cmp a b = f a - f b"
  shows "sort_by cmp xs = y # ys \<Longrightarrow> x \<in> set xs \<Longrightarrow> f y \<le> f x"
proof (induction xs arbitrary: x y ys)
  case (Cons z xs)
  show ?case
  proof (cases "sort_by cmp xs")
    case Nil
    then have "xs = []" using set_sort_by_any [of cmp xs] by simp
    then show ?thesis using Cons.prems by (simp add: sort_by_def)
  next
    case (Cons v vs)
    then have "f v \<le> f u" if "u \<in> set xs" for u using Cons.IH that by blast
    moreover have "insert_by cmp z (v # vs) = y # ys" using Cons.prems(1) Cons by (simp add: sort_by_def)
    then have "y = (if f z \<le> f v then z else v)" using assms [of z v] by (auto split: if_splits)
    ultimately show ?thesis using Cons.prems(2) by fastforce
  qed
qed (simp add: sort_by_def)

lemma select_least:
  assumes "select_rows key P ord db = r # rs" "table_row key db k = Some r'" "P r'" "\<And>a b. ord a b = f a - f b"
  shows "(f r :: int) \<le> f r'"
proof -
  have "key r' = k" by (rule find_key [OF assms(2) [unfolded table_row_def]])
  then have "r' \<in> set (filter P (visible key (mt_rows db)))" using assms(2,3) by (simp add: set_visible table_row_def)
  from hd_sort_by [OF assms(4) assms(1) [unfolded select_rows_def] this] show ?thesis .
qed

lemma select_spec:
  "set (select_rows key P ord db) = {r. P r \<and> (\<exists>k. table_row key db k = Some r)}"
  "distinct (map key (select_rows key P ord db))"
  by (auto simp: select_rows_def set_sort_by_any distinct_sort_by distinct_map_filter distinct_visible set_visible table_row_def
      dest: find_key)

lemma table_row_faults [simp]: "table_row key (db\<lparr>mt_faults := fs\<rparr>) = table_row key db"
  by (rule ext) (simp add: table_row_def)

lemma select_rows_faults [simp]: "select_rows key P ord (db\<lparr>mt_faults := fs\<rparr>) = select_rows key P ord db"
  by (simp add: select_rows_def)

lemma table_call_Inr:
  "fst (table_call f db) = Inr x \<Longrightarrow>
    x = fst (f (db\<lparr>mt_faults := tl (mt_faults db)\<rparr>)) \<and> snd (table_call f db) = snd (f (db\<lparr>mt_faults := tl (mt_faults db)\<rparr>))"
  by (auto simp: table_call_def Let_def split: list.splits option.splits)

lemma table_call_Inl: "fst (table_call f db) = Inl e \<Longrightarrow> snd (table_call f db) = db\<lparr>mt_faults := tl (mt_faults db)\<rparr>"
  by (auto simp: table_call_def Let_def split: list.splits option.splits)

lemma table_call_query: "table_row key (snd (table_call (\<lambda>db. (f db, db)) db)) = table_row key db"
  by (auto simp: table_call_def Let_def split: list.splits option.splits)

lemma table_call_driver: "driver_result (fst (table_call f db))"
  by (simp add: table_call_def driver_result_def Let_def split: list.splits option.splits)

lemma driver_resultD: "driver_result r \<Longrightarrow> r = Inl e \<Longrightarrow> \<exists>m. e = PlainError m"
  by (cases e) (auto simp: driver_result_def)

interpretation mt: sql_table "mem_table_ops key" key "table_row key" for key
proof (unfold_locales, goal_cases)
  case (1 db k r) then show ?case by (auto simp: table_row_def dest: find_key)
next
  case (2 P ord db) show ?case by (simp add: mem_table_ops_def table_call_query)
next
  case (3 P ord db r)
  then have "r \<in> set (select_rows key P ord db)"
    by (auto simp: mem_table_ops_def dest!: table_call_Inr split: list.splits)
  then show ?case by (auto simp: select_spec table_row_def dest: find_key)
next
  case (4 P ord db k r)
  then have "select_rows key P ord db = []" by (auto simp: mem_table_ops_def dest!: table_call_Inr split: list.splits)
  then show ?case using 4(2) select_spec(1) [of key P ord db] by auto
next
  case (5 P ord db) show ?case by (simp add: mem_table_ops_def table_call_query)
next
  case (6 P ord db rs) then show ?case by (auto simp: mem_table_ops_def select_spec dest!: table_call_Inr)
next
  case (7 P ord db rs) then show ?case by (auto simp: mem_table_ops_def select_spec dest!: table_call_Inr)
next
  case (8 r db u) then show ?case
    by (auto simp: mem_table_ops_def table_row_def find_put_row dest!: table_call_Inr intro!: ext)
next
  case (9 r db e) then show ?case by (auto simp: mem_table_ops_def dest!: table_call_Inl)
next
  case (10 P f db u k) then show ?case
    by (auto simp: mem_table_ops_def table_row_def find_map_update find_visible dest!: table_call_Inr)
next
  case (11 P f db e) then show ?case by (auto simp: mem_table_ops_def dest!: table_call_Inl)
next
  case (12 P db u k) then show ?case
    by (auto simp: mem_table_ops_def table_row_def find_filter_distinct distinct_visible find_visible dest!: table_call_Inr)
next
  case (13 P db e) then show ?case by (auto simp: mem_table_ops_def dest!: table_call_Inl)
next
  case (19 P ord db r k r' f)
  have "\<exists>rs. select_rows key P ord db = r # rs"
    using 19(1) by (auto simp: mem_table_ops_def dest!: table_call_Inr split: list.splits)
  then obtain rs where "select_rows key P ord db = r # rs" by blast
  from select_least [OF this 19(2,3,4)] show ?case .
qed (simp_all add: mem_table_ops_def table_call_driver)

interpretation ct: sql_table "calm_table_ops key" key "table_row key" for key
proof (unfold_locales, goal_cases)
  case (1 db k r) then show ?case by (rule mt.row_key)
next
  case (2 P ord db) then show ?case by (simp add: calm_table_ops_def mt.findOne_rows)
next
  case (3 P ord db r) then show ?case using mt.findOne_some [of key P ord "db\<lparr>mt_faults := []\<rparr>" r] by (simp add: calm_table_ops_def)
next
  case (4 P ord db k r) then show ?case using mt.findOne_none [of key P ord "db\<lparr>mt_faults := []\<rparr>" k r] by (simp add: calm_table_ops_def)
next
  case (5 P ord db) then show ?case by (simp add: calm_table_ops_def mt.find_rows)
next
  case (6 P ord db rs) then show ?case using mt.find_set [of key P ord "db\<lparr>mt_faults := []\<rparr>" rs] by (simp add: calm_table_ops_def)
next
  case (7 P ord db rs) then show ?case using mt.find_distinct [of key P ord "db\<lparr>mt_faults := []\<rparr>" rs] by (simp add: calm_table_ops_def)
next
  case (8 r db u) then show ?case using mt.save_ok [of key r "db\<lparr>mt_faults := []\<rparr>" u] by (simp add: calm_table_ops_def)
next
  case (9 r db e) then show ?case using mt.save_err [of key r "db\<lparr>mt_faults := []\<rparr>" e] by (simp add: calm_table_ops_def)
next
  case (10 P f db u k) then show ?case using mt.update_ok [of key P f "db\<lparr>mt_faults := []\<rparr>" u k] by (simp add: calm_table_ops_def)
next
  case (11 P f db e) then show ?case using mt.update_err [of key P f "db\<lparr>mt_faults := []\<rparr>" e] by (simp add: calm_table_ops_def)
next
  case (12 P db u k) then show ?case using mt.delete_ok [of key P "db\<lparr>mt_faults := []\<rparr>" u k] by (simp add: calm_table_ops_def)
next
  case (13 P db e) then show ?case using mt.delete_err [of key P "db\<lparr>mt_faults := []\<rparr>" e] by (simp add: calm_table_ops_def)
next
  case (19 P ord db r k r' f)
  have "fst (to_findOne (mem_table_ops key) P ord (db\<lparr>mt_faults := []\<rparr>)) = Inr (Some r)" using 19(1) by (simp add: calm_table_ops_def)
  from mt.findOne_order [OF this _ 19(3,4)] 19(2) show ?case by simp
qed (simp_all add: calm_table_ops_def mt.driver_queries mt.driver_writes)

lemma reliable_queries:
  assumes "reliable_table ops"
  obtains x where "fst (to_findOne ops P ord db) = Inr x"
  using assms unfolding reliable_table_def by blast

lemma reliable_lists:
  assumes "reliable_table ops"
  obtains x where "fst (to_find ops P ord db) = Inr x"
  using assms unfolding reliable_table_def by blast

lemma reliable_writes:
  assumes "reliable_table ops"
  shows "fst (to_save ops r db) = Inr ()" "fst (to_update ops P f db) = Inr ()" "fst (to_delete ops P db) = Inr ()"
  using assms by (simp_all add: reliable_table_def)

lemma calm_table_reliable: "reliable_table (calm_table_ops key)"
  by (simp add: reliable_table_def calm_table_ops_def mem_table_ops_def table_call_def)

lemma indexed_same:
  "to_findOne (indexed_table_ops key clash) = to_findOne (calm_table_ops key)" "to_find (indexed_table_ops key clash) = to_find (calm_table_ops key)"
  "to_update (indexed_table_ops key clash) = to_update (calm_table_ops key)" "to_delete (indexed_table_ops key clash) = to_delete (calm_table_ops key)"
  by (simp_all add: indexed_table_ops_def)

lemma indexed_save:
  "to_save (indexed_table_ops key clash) r db =
     (if list_ex (\<lambda>x. key x \<noteq> key r \<and> clash x r) (mt_rows db)
      then (Inl (PlainError ''duplicate key value violates unique constraint''), db)
      else to_save (calm_table_ops key) r db)"
  by (simp add: indexed_table_ops_def)

interpretation xt: sql_table "indexed_table_ops key clash" key "table_row key" for key clash
proof (unfold_locales, goal_cases)
  case (1 db k r) then show ?case by (rule ct.row_key)
next
  case (2 P ord db) show ?case unfolding indexed_same by (rule ct.findOne_rows)
next
  case (3 P ord db r) then show ?case unfolding indexed_same by (rule ct.findOne_some)
next
  case (4 P ord db k r) then show ?case unfolding indexed_same by (rule ct.findOne_none)
next
  case (5 P ord db) show ?case unfolding indexed_same by (rule ct.find_rows)
next
  case (6 P ord db rs) then show ?case unfolding indexed_same by (rule ct.find_set)
next
  case (7 P ord db rs) then show ?case unfolding indexed_same by (rule ct.find_distinct)
next
  case (8 r db u) then show ?case by (auto simp: indexed_save ct.save_ok split: if_splits)
next
  case (9 r db e) then show ?case by (auto simp: indexed_save ct.save_err split: if_splits)
next
  case (10 P f db u k) then show ?case unfolding indexed_same by (rule ct.update_ok)
next
  case (11 P f db e) then show ?case unfolding indexed_same by (rule ct.update_err)
next
  case (12 P db u k) then show ?case unfolding indexed_same by (rule ct.delete_ok)
next
  case (13 P db e) then show ?case unfolding indexed_same by (rule ct.delete_err)
next
  case (14 P ord db) show ?case unfolding indexed_same by (rule ct.driver_queries)
next
  case (15 P ord db) show ?case unfolding indexed_same by (rule ct.driver_queries)
next
  case (16 r db) then show ?case by (simp add: indexed_save ct.driver_writes driver_result_def [of "Inl _"])
next
  case (17 P f db) show ?case unfolding indexed_same by (rule ct.driver_writes)
next
  case (18 P db) show ?case unfolding indexed_same by (rule ct.driver_writes)
next
  case (19 P ord db r k r' f)
  from ct.findOne_order [of key P ord db r k r' f] 19 show ?case by (simp add: indexed_same)
qed

lemma indexed_refuses: "refuses_clashes (indexed_table_ops key clash) key (table_row key) clash"
  unfolding refuses_clashes_def
proof (intro allI impI, elim conjE)
  fix db :: "'a mem_table" and r k x assume *: "table_row key db k = Some x" "k \<noteq> key r" "clash x r"
  then have "x \<in> set (mt_rows db)" "key x = k" by (auto simp: table_row_def find_Some_iff)
  then have "list_ex (\<lambda>x. key x \<noteq> key r \<and> clash x r) (mt_rows db)" using * by (auto simp: list_ex_iff)
  then show "\<exists>e. fst (to_save (indexed_table_ops key clash) r db) = Inl e" by (simp add: indexed_save)
qed

end
