(* ===== verification/Payload_Table.thy ===== *)
theory Payload_Table
  imports Sql_Table
begin

text \<open>
  What the services of the oracle share: the entity \<open>SignedPayload\<close>
  (blockchain/oracle/entities/signed-payload.entity.ts), its TypeORM repository as a record of
  operations. The repository is a parameter: the locale \<open>payload_table\<close> says what the
  services rely on, and \<open>mem_ops\<close> is a table in memory whose calls can be made to fail.
\<close>

section \<open>The entity\<close>

datatype payload_status = PENDING | SUBMITTED | CONFIRMED | FAILED

datatype payload_type = ORACLE_UPDATE | AGENT_RESULT | PRICE_FEED | COMPUTE_PROOF

datatype failure_type = RETRYABLE | PERMANENT

text \<open>JSON columns hold their JSON text, bigint columns the number.\<close>

record signed_payload =
  sp_id :: string
  sp_payloadType :: payload_type
  sp_signerAddress :: string
  sp_nonce :: int
  sp_payload :: string
  sp_payloadHash :: string
  sp_structuredDataHash :: string
  sp_signature :: string
  sp_expiresAt :: timestamp
  sp_status :: payload_status
  sp_transactionHash :: "string option"
  sp_blockNumber :: "int option"
  sp_submissionAttempts :: int
  sp_errorMessage :: "string option"
  sp_metadata :: "string option"
  sp_createdAt :: timestamp
  sp_updatedAt :: timestamp
  sp_submittedAt :: "timestamp option"
  sp_confirmedAt :: "timestamp option"

section \<open>The repository\<close>

datatype payload_order = Unordered | CreatedAsc | CreatedDesc | UpdatedAsc

record 'db payload_ops =
  po_findOne :: "string \<Rightarrow> ('db, signed_payload option) io"
  po_find :: "(signed_payload \<Rightarrow> bool) \<Rightarrow> payload_order \<Rightarrow> nat option \<Rightarrow> ('db, signed_payload list) io"
  po_count :: "(signed_payload \<Rightarrow> bool) \<Rightarrow> ('db, int) io"
  po_save :: "timestamp \<Rightarrow> signed_payload \<Rightarrow> ('db, signed_payload) io"
  po_saveAll :: "timestamp \<Rightarrow> signed_payload list \<Rightarrow> ('db, unit) io"

text \<open>
  A query either throws or reports the rows, and leaves them alone. A save either throws and
  changes no row, or writes the row under its id with a new update time; several rows are saved
  in one transaction.
\<close>

definition put_rows ::
  "timestamp \<Rightarrow> signed_payload list \<Rightarrow> (string \<Rightarrow> signed_payload option) \<Rightarrow> string \<Rightarrow> signed_payload option" where
  "put_rows now rs m = fold (\<lambda>r m. m(sp_id r \<mapsto> r\<lparr>sp_updatedAt := now\<rparr>)) rs m"

locale payload_table =
  fixes ops :: "'db payload_ops"
    and rows :: "'db \<Rightarrow> string \<Rightarrow> signed_payload option"
  assumes row_id: "rows db k = Some r \<Longrightarrow> sp_id r = k"
    and findOne_rows: "rows (snd (po_findOne ops k db)) = rows db"
    and findOne_val: "fst (po_findOne ops k db) = Inr x \<Longrightarrow> x = rows db k"
    and find_rows: "rows (snd (po_find ops P ord limit db)) = rows db"
    and find_sound: "fst (po_find ops P ord limit db) = Inr rs \<Longrightarrow> r \<in> set rs \<Longrightarrow> P r \<and> rows db (sp_id r) = Some r"
    and find_distinct: "fst (po_find ops P ord limit db) = Inr rs \<Longrightarrow> distinct (map sp_id rs)"
    and find_take: "fst (po_find ops P ord (Some n) db) = Inr rs \<Longrightarrow> length rs \<le> n"
    and find_all: "fst (po_find ops P ord None db) = Inr rs \<Longrightarrow> rows db k = Some r \<Longrightarrow> P r \<Longrightarrow> r \<in> set rs"
    and count_rows: "rows (snd (po_count ops P db)) = rows db"
    and save_done: "fst (po_save ops now r db) = Inr r' \<Longrightarrow>
      r' = r\<lparr>sp_updatedAt := now\<rparr> \<and> rows (snd (po_save ops now r db)) = (rows db)(sp_id r \<mapsto> r')"
    and save_failed: "fst (po_save ops now r db) = Inl e \<Longrightarrow> rows (snd (po_save ops now r db)) = rows db"
    and saveAll_done: "fst (po_saveAll ops now rs db) = Inr u \<Longrightarrow> rows (snd (po_saveAll ops now rs db)) = put_rows now rs (rows db)"
    and saveAll_failed: "fst (po_saveAll ops now rs db) = Inl e \<Longrightarrow> rows (snd (po_saveAll ops now rs db)) = rows db"

section \<open>A table in memory\<close>

text \<open>The rows in insertion order, and the outcome of each coming call: None lets it through.\<close>

record mem_db =
  md_rows :: "(string, signed_payload) js_map"
  md_faults :: "string option list"

definition mem_call :: "(mem_db \<Rightarrow> 'a \<times> mem_db) \<Rightarrow> (mem_db, 'a) io" where
  "mem_call f db =
     (let db' = db\<lparr>md_faults := tl (md_faults db)\<rparr>
      in case md_faults db of
           Some e # _ \<Rightarrow> (Inl (PlainError e), db')
         | _ \<Rightarrow> (Inr (fst (f db')), snd (f db')))"

definition mem_rows :: "mem_db \<Rightarrow> string \<Rightarrow> signed_payload option" where
  "mem_rows db k = (case Map_get k (md_rows db) of None \<Rightarrow> None | Some r \<Rightarrow> if sp_id r = k then Some r else None)"

fun order_cmp :: "payload_order \<Rightarrow> signed_payload \<Rightarrow> signed_payload \<Rightarrow> int" where
  "order_cmp Unordered a b = 0"
| "order_cmp CreatedAsc a b = sp_createdAt a - sp_createdAt b"
| "order_cmp CreatedDesc a b = sp_createdAt b - sp_createdAt a"
| "order_cmp UpdatedAsc a b = sp_updatedAt a - sp_updatedAt b"

definition mem_select :: "(signed_payload \<Rightarrow> bool) \<Rightarrow> mem_db \<Rightarrow> signed_payload list" where
  "mem_select P db = filter P (List.map_filter (mem_rows db) (remdups (Map_keys (md_rows db))))"

definition mem_ops :: "mem_db payload_ops" where
  "mem_ops = \<lparr>po_findOne = (\<lambda>k. mem_call (\<lambda>db. (mem_rows db k, db))),
     po_find = (\<lambda>P ord limit. mem_call (\<lambda>db.
       let rs = sort_by (order_cmp ord) (mem_select P db)
       in (case limit of None \<Rightarrow> rs | Some n \<Rightarrow> take n rs, db))),
     po_count = (\<lambda>P. mem_call (\<lambda>db. (int (length (mem_select P db)), db))),
     po_save = (\<lambda>now r. mem_call (\<lambda>db.
       let r' = r\<lparr>sp_updatedAt := now\<rparr> in (r', db\<lparr>md_rows := Map_set (sp_id r) r' (md_rows db)\<rparr>))),
     po_saveAll = (\<lambda>now rs. mem_call (\<lambda>db.
       ((), db\<lparr>md_rows := fold (\<lambda>r m. Map_set (sp_id r) (r\<lparr>sp_updatedAt := now\<rparr>) m) rs (md_rows db)\<rparr>)))\<rparr>"

text \<open>The same table without failures.\<close>

definition calm_ops :: "mem_db payload_ops" where
  "calm_ops = \<lparr>po_findOne = (\<lambda>k db. po_findOne mem_ops k (db\<lparr>md_faults := []\<rparr>)),
     po_find = (\<lambda>P ord limit db. po_find mem_ops P ord limit (db\<lparr>md_faults := []\<rparr>)),
     po_count = (\<lambda>P db. po_count mem_ops P (db\<lparr>md_faults := []\<rparr>)),
     po_save = (\<lambda>now r db. po_save mem_ops now r (db\<lparr>md_faults := []\<rparr>)),
     po_saveAll = (\<lambda>now rs db. po_saveAll mem_ops now rs (db\<lparr>md_faults := []\<rparr>))\<rparr>"

text \<open>Calls that never throw.\<close>

definition reliable_saves :: "'db payload_ops \<Rightarrow> bool" where
  "reliable_saves ops \<longleftrightarrow> (\<forall>now r db. \<exists>r'. fst (po_save ops now r db) = Inr r')"

definition reliable_finds :: "'db payload_ops \<Rightarrow> bool" where
  "reliable_finds ops \<longleftrightarrow> (\<forall>k db. \<exists>x. fst (po_findOne ops k db) = Inr x) \<and>
     (\<forall>P ord limit db. \<exists>x. fst (po_find ops P ord limit db) = Inr x)"

section \<open>Facts\<close>

lemma order_cmp_comparator: "comparator (order_cmp ord)"
  by (cases ord; unfold_locales) auto

lemma mem_rows_id: "mem_rows db k = Some r \<Longrightarrow> sp_id r = k"
  by (simp add: mem_rows_def split: option.splits if_splits)

lemma mem_rows_faults [simp]: "mem_rows (db\<lparr>md_faults := fs\<rparr>) = mem_rows db"
  by (simp add: mem_rows_def fun_eq_iff)

lemma mem_call_rows:
  "(\<And>db. mem_rows (snd (f db)) = mem_rows db) \<Longrightarrow> mem_rows (snd (mem_call f db)) = mem_rows db"
  by (simp add: mem_call_def Let_def split: list.splits option.splits)

lemma mem_call_val:
  "fst (mem_call f db) = Inr x \<Longrightarrow> x = fst (f (db\<lparr>md_faults := tl (md_faults db)\<rparr>)) \<and>
     snd (mem_call f db) = snd (f (db\<lparr>md_faults := tl (md_faults db)\<rparr>))"
  by (auto simp: mem_call_def Let_def split: list.splits option.splits)

lemma mem_select_faults [simp]: "mem_select P (db\<lparr>md_faults := fs\<rparr>) = mem_select P db"
  by (simp add: mem_select_def)

lemma set_map_filter_eq: "set (List.map_filter g xs) = {y. \<exists>x \<in> set xs. g x = Some y}"
  by (induction xs) (auto simp: map_filter_simps split: option.splits)

lemma map_filter_ids:
  "(\<And>k r. g k = Some r \<Longrightarrow> sp_id r = k) \<Longrightarrow> distinct ks \<Longrightarrow>
     distinct (map sp_id (List.map_filter g ks)) \<and> sp_id ` set (List.map_filter g ks) \<subseteq> set ks"
  by (induction ks) (fastforce simp: map_filter_simps split: option.splits)+

lemma distinct_filter_ids: "distinct (map sp_id rs) \<Longrightarrow> distinct (map sp_id (filter P rs))"
  by (induction rs) auto

lemma mem_select_spec:
  "distinct (map sp_id (mem_select P db))" "r \<in> set (mem_select P db) \<longleftrightarrow> P r \<and> mem_rows db (sp_id r) = Some r"
proof -
  show "distinct (map sp_id (mem_select P db))"
    using map_filter_ids [of "mem_rows db" "remdups (Map_keys (md_rows db))"] mem_rows_id
    by (auto simp: mem_select_def intro!: distinct_filter_ids)
  have "mem_rows db k = Some r \<Longrightarrow> k \<in> set (Map_keys (md_rows db))" for k
    by (auto simp: mem_rows_def set_Map_keys split: option.splits)
  then show "r \<in> set (mem_select P db) \<longleftrightarrow> P r \<and> mem_rows db (sp_id r) = Some r"
    by (auto simp: mem_select_def set_map_filter_eq dest: mem_rows_id)
qed

lemma mem_find_spec:
  assumes "fst (po_find mem_ops P ord limit db) = Inr rs"
  shows "rs = (case limit of None \<Rightarrow> sort_by (order_cmp ord) (mem_select P db) | Some n \<Rightarrow> take n (sort_by (order_cmp ord) (mem_select P db)))"
  using assms by (auto simp: mem_ops_def Let_def dest!: mem_call_val split: option.splits)

lemma mem_save_spec:
  assumes "fst (po_save mem_ops now r db) = Inr r'"
  shows "r' = r\<lparr>sp_updatedAt := now\<rparr> \<and> mem_rows (snd (po_save mem_ops now r db)) = (mem_rows db)(sp_id r \<mapsto> r')"
  using assms mem_call_val [of _ db r'] by (fastforce simp: mem_ops_def Let_def mem_rows_def fun_eq_iff)

lemma mem_rows_fold:
  "mem_rows (db\<lparr>md_rows := fold (\<lambda>r m. Map_set (sp_id r) (r\<lparr>sp_updatedAt := now\<rparr>) m) rs m\<rparr>) = put_rows now rs (mem_rows (db\<lparr>md_rows := m\<rparr>))"
proof (induction rs arbitrary: m)
  case (Cons r rs)
  have "mem_rows (db\<lparr>md_rows := Map_set (sp_id r) (r\<lparr>sp_updatedAt := now\<rparr>) m\<rparr>) =
      (mem_rows (db\<lparr>md_rows := m\<rparr>))(sp_id r \<mapsto> r\<lparr>sp_updatedAt := now\<rparr>)"
    by (auto simp: mem_rows_def fun_eq_iff)
  then show ?case using Cons by (simp add: put_rows_def)
qed (simp add: put_rows_def)

lemma mem_saveAll_spec:
  "fst (po_saveAll mem_ops now rs db) = Inr u \<Longrightarrow> mem_rows (snd (po_saveAll mem_ops now rs db)) = put_rows now rs (mem_rows db)"
  using mem_rows_fold [where db = "db\<lparr>md_faults := tl (md_faults db)\<rparr>" and now = now and rs = rs and m = "md_rows db"]
  by (auto simp: mem_ops_def mem_call_def Let_def split: list.splits option.splits)

interpretation mt_table: payload_table mem_ops mem_rows
proof (unfold_locales, goal_cases)
  case (3 k db x)
  then show ?case using mem_call_val by (fastforce simp: mem_ops_def)
next
  case (5 P ord limit db rs r)
  then show ?case
    using mem_find_spec [OF 5(1)] by (auto simp: set_sort_by_any mem_select_spec split: option.splits dest!: in_set_takeD)
next
  case (6 P ord limit db rs)
  then show ?case
    using mem_find_spec [OF 6] by (auto simp: take_map [symmetric] distinct_sort_by mem_select_spec split: option.splits intro!: distinct_take)
next
  case (7 P ord n db rs)
  then show ?case using mem_find_spec [OF 7] by auto
next
  case (8 P ord db rs k r)
  then show ?case using mem_find_spec [OF 8(1)] mem_rows_id by (auto simp: set_sort_by_any mem_select_spec)
next
  case (10 now r db r')
  then show ?case by (rule mem_save_spec)
next
  case (11 now r db e)
  then show ?case by (auto simp: mem_ops_def mem_call_def Let_def split: list.splits option.splits)
next
  case (12 now rs db u)
  then show ?case by (rule mem_saveAll_spec)
next
  case (13 now rs db e)
  then show ?case by (auto simp: mem_ops_def mem_call_def Let_def split: list.splits option.splits)
qed (auto simp: mem_ops_def mem_rows_id Let_def intro!: mem_call_rows)

interpretation ct_table: payload_table calm_ops mem_rows
proof (unfold_locales, goal_cases)
  case (5 P ord limit db rs r)
  then show ?case using mt_table.find_sound [of P ord limit "db\<lparr>md_faults := []\<rparr>" rs r] by (simp add: calm_ops_def)
next
  case (8 P ord db rs k r)
  then show ?case using mt_table.find_all [of P ord "db\<lparr>md_faults := []\<rparr>" rs k r] by (simp add: calm_ops_def)
next
  case (10 now r db r')
  then show ?case using mt_table.save_done [of now r "db\<lparr>md_faults := []\<rparr>" r'] by (simp add: calm_ops_def)
next
  case (12 now rs db u)
  then show ?case using mt_table.saveAll_done [of now rs "db\<lparr>md_faults := []\<rparr>" u] by (simp add: calm_ops_def)
qed (auto simp: calm_ops_def mem_rows_id mt_table.findOne_rows mt_table.find_rows mt_table.count_rows
    dest: mt_table.findOne_val mt_table.find_distinct mt_table.find_take mt_table.save_failed mt_table.saveAll_failed)

lemma calm_reliable: "reliable_saves calm_ops" "reliable_finds calm_ops"
  by (simp_all add: reliable_saves_def reliable_finds_def calm_ops_def mem_ops_def mem_call_def Let_def)

context payload_table
begin

lemma found_row: "reliable_finds ops \<Longrightarrow> fst (po_findOne ops k db) = Inr (rows db k)"
  using findOne_val [of k db] unfolding reliable_finds_def by force

end

end
