(* ===== verification/Payload_Submitter.thy ===== *)
theory Payload_Submitter
  imports Payload_Table
begin

text \<open>
  \<open>SubmitterService\<close> (blockchain/oracle/services/submitter.service.ts): sends signed payloads to
  the oracle contract with retries and follows the transactions. The repository and the node are
  parameters (\<open>payload_ops\<close>, \<open>chain_ops\<close>). A call that is started and not awaited,
  \<open>monitorTransaction\<close>, is recorded in \<open>su_monitors\<close> and runs as a step of its own; the delays
  awaited between attempts are recorded in \<open>su_waits\<close>. Each attempt reads the clock: \<open>clk 0\<close> is
  the time of the expiry check, \<open>clk i\<close> that of attempt \<open>i\<close>.
\<close>

section \<open>Configuration and state\<close>

record submitter_config =
  su_configured :: bool
  su_maxRetries :: int
  su_initialRetryDelay :: rat
  su_maxRetryDelay :: rat
  su_backoffMultiplier :: rat
  su_gasLimitMultiplier :: rat

text \<open>The constructor: without a node, a key and a contract the service is disabled.\<close>

definition init_submitter ::
  "string option \<Rightarrow> string option \<Rightarrow> string option \<Rightarrow> int \<Rightarrow> rat \<Rightarrow> rat \<Rightarrow> rat \<Rightarrow> rat \<Rightarrow> submitter_config" where
  "init_submitter rpcUrl privateKey contractAddress maxRetries initialDelay maxDelay multiplier gasMultiplier =
     (if \<not> truthy rpcUrl \<or> \<not> truthy privateKey \<or> \<not> truthy contractAddress
      then \<lparr>su_configured = False, su_maxRetries = 0, su_initialRetryDelay = 0, su_maxRetryDelay = 0,
            su_backoffMultiplier = 0, su_gasLimitMultiplier = 0\<rparr>
      else \<lparr>su_configured = True, su_maxRetries = maxRetries, su_initialRetryDelay = initialDelay,
            su_maxRetryDelay = maxDelay, su_backoffMultiplier = multiplier, su_gasLimitMultiplier = gasMultiplier\<rparr>)"

text \<open>The arguments of the contract call.\<close>

record wire =
  w_payloadType :: payload_type
  w_payloadHash :: string
  w_nonce :: int
  w_expiresAt :: int
  w_data :: string
  w_signature :: string

definition wire_of :: "signed_payload \<Rightarrow> wire" where
  "wire_of p = \<lparr>w_payloadType = sp_payloadType p, w_payloadHash = sp_payloadHash p, w_nonce = sp_nonce p,
     w_expiresAt = sp_expiresAt p div 1000, w_data = sp_payload p, w_signature = sp_signature p\<rparr>"

record receipt =
  rc_status :: int
  rc_blockNumber :: int

record 'c chain_ops =
  eth_estimateGas :: "wire \<Rightarrow> ('c, int) io"
  eth_submitPayload :: "wire \<Rightarrow> int \<Rightarrow> ('c, string) io"
  eth_waitForTransaction :: "string \<Rightarrow> ('c, receipt option) io"
  eth_verifyPayload :: "wire \<Rightarrow> string \<Rightarrow> ('c, bool) io"

record ('db, 'c) submitter =
  su_db :: 'db
  su_chain :: 'c
  su_monitors :: "(string \<times> string) list"
  su_waits :: "rat list"

record ('db, 'c) submitter_env =
  se_config :: submitter_config
  se_table :: "'db payload_ops"
  se_eth :: "'c chain_ops"

definition on_db :: "('db, 'a) io \<Rightarrow> (('db, 'c) submitter, 'a) io" where
  "on_db f s = (let (r, db) = f (su_db s) in (r, s\<lparr>su_db := db\<rparr>))"

definition on_chain :: "('c, 'a) io \<Rightarrow> (('db, 'c) submitter, 'a) io" where
  "on_chain f s = (let (r, c) = f (su_chain s) in (r, s\<lparr>su_chain := c\<rparr>))"

section \<open>Operations\<close>

definition calculateRetryDelay_su :: "submitter_config \<Rightarrow> int \<Rightarrow> rat" where
  "calculateRetryDelay_su cfg attempt =
     (let delay = su_initialRetryDelay cfg * su_backoffMultiplier cfg ^ nat (attempt - 1)
      in min delay (su_maxRetryDelay cfg))"

definition permanentPatterns :: "string list" where
  "permanentPatterns = [''expired'', ''invalid signature'', ''unauthorized'', ''insufficient funds'',
     ''nonce too low'', ''already submitted'', ''execution reverted'', ''vm exception'']"

definition retryablePatterns :: "string list" where
  "retryablePatterns = [''network error'', ''timeout'', ''econnreset'', ''socket hang up'', ''temporary'',
     ''service unavailable'', ''gateway error'', ''rate limit'']"

definition categorizeFailure_su :: "http_error \<Rightarrow> failure_type" where
  "categorizeFailure_su e =
     (let message = toLowerCase (error_message e)
      in if list_ex (includes_str message) permanentPatterns then PERMANENT
         else if list_ex (includes_str message) retryablePatterns then RETRYABLE
         else RETRYABLE)"

text \<open>A failed estimate is replaced by a default.\<close>

definition estimateGas :: "('db, 'c) submitter_env \<Rightarrow> signed_payload \<Rightarrow> (('db, 'c) submitter, int) io" where
  "estimateGas env p = io_catch (on_chain (eth_estimateGas (se_eth env) (wire_of p))) (\<lambda>_. io_return 300000)"

definition start_monitor :: "string \<Rightarrow> string \<Rightarrow> ('db, 'c) submitter \<Rightarrow> ('db, 'c) submitter" where
  "start_monitor payloadId txHash s = s\<lparr>su_monitors := su_monitors s @ [(payloadId, txHash)]\<rparr>"

text \<open>
  The body of the \<open>try\<close> in the loop. The payload object is updated before it is saved, so a save
  that throws leaves the updated object behind for the handler.
\<close>

definition attempt_submission ::
  "('db, 'c) submitter_env \<Rightarrow> timestamp \<Rightarrow> int \<Rightarrow> signed_payload \<Rightarrow> ('db, 'c) submitter \<Rightarrow>
   string result \<times> signed_payload \<times> ('db, 'c) submitter" where
  "attempt_submission env now attempt p s =
     (case estimateGas env p s of
        (Inl e, s1) \<Rightarrow> (Inl e, p, s1)
      | (Inr gas, s1) \<Rightarrow>
          (let gasLimit = \<lceil>of_int gas * su_gasLimitMultiplier (se_config env)\<rceil>
           in case on_chain (eth_submitPayload (se_eth env) (wire_of p) gasLimit) s1 of
                (Inl e, s2) \<Rightarrow> (Inl e, p, s2)
              | (Inr txHash, s2) \<Rightarrow>
                  (let p2 = p\<lparr>sp_transactionHash := Some txHash, sp_status := SUBMITTED, sp_submittedAt := Some now,
                              sp_submissionAttempts := attempt, sp_errorMessage := None\<rparr>
                   in case on_db (po_save (se_table env) now p2) s2 of
                        (Inl e, s3) \<Rightarrow> (Inl e, p2, s3)
                      | (Inr p3, s3) \<Rightarrow> (Inr txHash, p3, s3))))"

fun submit_loop ::
  "('db, 'c) submitter_env \<Rightarrow> (nat \<Rightarrow> timestamp) \<Rightarrow> string \<Rightarrow> nat \<Rightarrow> int \<Rightarrow> http_error \<Rightarrow> signed_payload \<Rightarrow>
   (('db, 'c) submitter, string \<times> signed_payload) io" where
  "submit_loop env clk payloadId 0 attempt lastError p s = (Inl lastError, s)"
| "submit_loop env clk payloadId (Suc n) attempt lastError p s =
     (case attempt_submission env (clk (nat attempt)) attempt p s of
        (Inr txHash, p', s') \<Rightarrow> (Inr (txHash, p'), start_monitor payloadId txHash s')
      | (Inl e, p', s') \<Rightarrow>
          (let failureType = categorizeFailure_su e;
               p1 = p'\<lparr>sp_submissionAttempts := attempt, sp_errorMessage := Some (error_message e)\<rparr>;
               isLastAttempt = attempt > su_maxRetries (se_config env);
               isPermanentFailure = (failureType = PERMANENT)
           in if isLastAttempt \<or> isPermanentFailure
              then io_bind (on_db (po_save (se_table env) (clk (nat attempt)) (p1\<lparr>sp_status := FAILED\<rparr>)))
                     (\<lambda>_. io_throw e) s'
              else submit_loop env clk payloadId n (attempt + 1) e p1
                     (s'\<lparr>su_waits := su_waits s' @ [calculateRetryDelay_su (se_config env) attempt]\<rparr>)))"

fun status_text :: "payload_status \<Rightarrow> string" where
  "status_text PENDING = ''pending''"
| "status_text SUBMITTED = ''submitted''"
| "status_text CONFIRMED = ''confirmed''"
| "status_text FAILED = ''failed''"

definition submitPayload ::
  "('db, 'c) submitter_env \<Rightarrow> (nat \<Rightarrow> timestamp) \<Rightarrow> string \<Rightarrow> (('db, 'c) submitter, string \<times> signed_payload) io" where
  "submitPayload env clk payloadId =
     (if \<not> su_configured (se_config env)
      then io_throw (BadRequest ''SubmitterService is not configured. Blockchain features are disabled.'')
      else io_bind (on_db (po_findOne (se_table env) payloadId)) (\<lambda>found.
        case found of
          None \<Rightarrow> io_throw (BadRequest (''Payload '' @ payloadId @ '' not found''))
        | Some p \<Rightarrow>
            if sp_status p = CONFIRMED \<and> truthy (sp_transactionHash p)
            then io_return (nullish (sp_transactionHash p) [], p)
            else if sp_status p = SUBMITTED \<and> truthy (sp_transactionHash p)
            then (\<lambda>s. (Inr (nullish (sp_transactionHash p) [], p),
                        start_monitor payloadId (nullish (sp_transactionHash p) []) s))
            else if sp_status p \<noteq> PENDING
            then io_throw (BadRequest (''Payload '' @ payloadId @ '' is not in PENDING status (current: '' @
                   status_text (sp_status p) @ '')''))
            else if sp_signature p = [] then io_throw (BadRequest (''Payload '' @ payloadId @ '' is not signed''))
            else if clk 0 > sp_expiresAt p
            then io_bind (on_db (po_save (se_table env) (clk 0)
                   (p\<lparr>sp_status := FAILED, sp_errorMessage := Some ''Payload expired before submission''\<rparr>)))
                   (\<lambda>_. io_throw (BadRequest ''Payload has expired''))
            else submit_loop env clk payloadId (nat (su_maxRetries (se_config env) + 1)) 1 (PlainError ''null'') p))"

text \<open>Find the row, if it is still there, and save a changed version of it.\<close>

definition update_row ::
  "('db, 'c) submitter_env \<Rightarrow> timestamp \<Rightarrow> string \<Rightarrow> (signed_payload \<Rightarrow> signed_payload) \<Rightarrow> (('db, 'c) submitter, unit) io" where
  "update_row env now payloadId g =
     io_bind (on_db (po_findOne (se_table env) payloadId)) (\<lambda>row.
       case row of
         None \<Rightarrow> io_return ()
       | Some p \<Rightarrow> io_bind (on_db (po_save (se_table env) now (g p))) (\<lambda>_. io_return ()))"

definition with_receipt :: "timestamp \<Rightarrow> receipt \<Rightarrow> signed_payload \<Rightarrow> signed_payload" where
  "with_receipt now receipt p =
     (if rc_status receipt = 1
      then p\<lparr>sp_status := CONFIRMED, sp_blockNumber := Some (rc_blockNumber receipt),
             sp_confirmedAt := Some now, sp_errorMessage := None\<rparr>
      else p\<lparr>sp_status := FAILED, sp_errorMessage := Some ''Transaction reverted on-chain''\<rparr>)"

definition with_monitor_error :: "http_error \<Rightarrow> signed_payload \<Rightarrow> signed_payload" where
  "with_monitor_error e p =
     p\<lparr>sp_status := FAILED, sp_errorMessage := Some (''Transaction monitoring failed: '' @ error_message e)\<rparr>"

definition monitorTransaction ::
  "('db, 'c) submitter_env \<Rightarrow> timestamp \<Rightarrow> string \<Rightarrow> string \<Rightarrow> (('db, 'c) submitter, unit) io" where
  "monitorTransaction env now payloadId txHash =
     io_catch
       (io_bind (on_chain (eth_waitForTransaction (se_eth env) txHash)) (\<lambda>found.
          case found of
            None \<Rightarrow> io_throw (PlainError ''Transaction receipt is null'')
          | Some receipt \<Rightarrow> update_row env now payloadId (with_receipt now receipt)))
       (\<lambda>e. update_row env now payloadId (with_monitor_error e))"

definition retrySubmission ::
  "('db, 'c) submitter_env \<Rightarrow> (nat \<Rightarrow> timestamp) \<Rightarrow> string \<Rightarrow> (('db, 'c) submitter, string \<times> signed_payload) io" where
  "retrySubmission env clk payloadId =
     io_bind (on_db (po_findOne (se_table env) payloadId)) (\<lambda>found.
       case found of
         None \<Rightarrow> io_throw (BadRequest (''Payload '' @ payloadId @ '' not found''))
       | Some p \<Rightarrow>
           if sp_submissionAttempts p \<ge> su_maxRetries (se_config env)
           then io_throw (BadRequest ''Payload has exceeded maximum retry attempts'')
           else io_bind (on_db (po_save (se_table env) (clk 0) (p\<lparr>sp_status := PENDING, sp_errorMessage := None\<rparr>)))
                  (\<lambda>_. submitPayload env clk payloadId))"

definition verifyPayloadOnChain ::
  "('db, 'c) submitter_env \<Rightarrow> signed_payload \<Rightarrow> string \<Rightarrow> (('db, 'c) submitter, bool) io" where
  "verifyPayloadOnChain env p expectedSigner =
     io_catch (on_chain (eth_verifyPayload (se_eth env) (wire_of p) expectedSigner)) (\<lambda>_. io_return False)"

record submit_result =
  sr_payloadId :: string
  sr_transactionHash :: string
  sr_success :: bool
  sr_errorMessage :: "string option"

text \<open>One payload after another; a delay of 500 ms follows each success.\<close>

fun batchSubmitPayloads ::
  "('db, 'c) submitter_env \<Rightarrow> (nat \<Rightarrow> nat \<Rightarrow> timestamp) \<Rightarrow> string list \<Rightarrow> ('db, 'c) submitter \<Rightarrow>
   submit_result list \<times> ('db, 'c) submitter" where
  "batchSubmitPayloads env clk [] s = ([], s)"
| "batchSubmitPayloads env clk (payloadId # ids) s =
     (case submitPayload env (clk 0) payloadId s of
        (Inr (txHash, _), s') \<Rightarrow>
          (let (rs, s'') = batchSubmitPayloads env (\<lambda>i. clk (Suc i)) ids (s'\<lparr>su_waits := su_waits s' @ [500]\<rparr>)
           in (\<lparr>sr_payloadId = payloadId, sr_transactionHash = txHash, sr_success = True, sr_errorMessage = None\<rparr> # rs, s''))
      | (Inl e, s') \<Rightarrow>
          (let (rs, s'') = batchSubmitPayloads env (\<lambda>i. clk (Suc i)) ids s'
           in (\<lparr>sr_payloadId = payloadId, sr_transactionHash = [], sr_success = False,
                sr_errorMessage = Some (error_message e)\<rparr> # rs, s'')))"

text \<open>The statistics; the sums over a column come from the database (None is NULL).\<close>

definition status_counts ::
  "('db, 'c) submitter_env \<Rightarrow> (('db, 'c) submitter, int \<times> int \<times> int \<times> int) io" where
  "status_counts env =
     (let count = (\<lambda>st. on_db (po_count (se_table env) (\<lambda>p. sp_status p = st)))
      in io_bind (count PENDING) (\<lambda>pending. io_bind (count SUBMITTED) (\<lambda>submitted.
         io_bind (count CONFIRMED) (\<lambda>confirmed. io_bind (count FAILED) (\<lambda>failed.
           io_return (pending, submitted, confirmed, failed))))))"

definition getSubmissionStats ::
  "('db, 'c) submitter_env \<Rightarrow> int option \<Rightarrow> (('db, 'c) submitter, (int \<times> int \<times> int \<times> int) \<times> int) io" where
  "getSubmissionStats env total_attempts =
     io_bind (status_counts env) (\<lambda>counts. io_return (counts, nullish total_attempts 0))"

definition round2 :: "rat \<Rightarrow> rat" where
  "round2 x = of_int \<lfloor>x * 100 + 1 / 2\<rfloor> / 100"

record detailed_stats =
  ds_counts :: "int \<times> int \<times> int \<times> int"
  ds_totalAttempts :: int
  ds_avgAttempts :: rat
  ds_successRate :: rat

definition getDetailedStats ::
  "('db, 'c) submitter_env \<Rightarrow> rat option \<Rightarrow> int option \<Rightarrow> (('db, 'c) submitter, detailed_stats) io" where
  "getDetailedStats env avg_attempts total_attempts =
     io_bind (status_counts env) (\<lambda>(pending, submitted, confirmed, failed).
       let totalSubmissions = confirmed + failed;
           successRate = (if totalSubmissions > 0 then of_int confirmed / of_int totalSubmissions * 100 else 100)
       in io_return \<lparr>ds_counts = (pending, submitted, confirmed, failed), ds_totalAttempts = nullish total_attempts 0,
            ds_avgAttempts = round2 (nullish avg_attempts 0), ds_successRate = round2 successRate\<rparr>)"

section \<open>Specification\<close>

text \<open>\<open>sent c\<close> are the contract calls the node has accepted. An accepted call has a hash.\<close>

locale oracle_chain =
  fixes eth :: "'c chain_ops"
    and sent :: "'c \<Rightarrow> wire list"
  assumes estimate_sent: "sent (snd (eth_estimateGas eth w c)) = sent c"
    and submit_accepted: "fst (eth_submitPayload eth w g c) = Inr h \<Longrightarrow> h \<noteq> [] \<and> sent (snd (eth_submitPayload eth w g c)) = sent c @ [w]"
    and submit_rejected: "fst (eth_submitPayload eth w g c) = Inl e \<Longrightarrow> sent (snd (eth_submitPayload eth w g c)) = sent c"
    and wait_sent: "sent (snd (eth_waitForTransaction eth h c)) = sent c"
    and verify_sent: "sent (snd (eth_verifyPayload eth w a c)) = sent c"

locale submitter_service =
  fixes env :: "('db, 'c) submitter_env"
    and rows :: "'db \<Rightarrow> string \<Rightarrow> signed_payload option"
    and sent :: "'c \<Rightarrow> wire list"
  assumes table_laws: "payload_table (se_table env) rows"
    and chain_laws: "oracle_chain (se_eth env) sent"

sublocale submitter_service \<subseteq> tbl: payload_table "se_table env" rows
  by (rule table_laws)

sublocale submitter_service \<subseteq> eth: oracle_chain "se_eth env" sent
  by (rule chain_laws)

datatype submitter_call =
    Submit "nat \<Rightarrow> timestamp" string
  | Monitor timestamp string string
  | Retry "nat \<Rightarrow> timestamp" string

fun submitter_step :: "('db, 'c) submitter_env \<Rightarrow> ('db, 'c) submitter \<Rightarrow> submitter_call \<Rightarrow> ('db, 'c) submitter" where
  "submitter_step env s (Submit clk i) = snd (submitPayload env clk i s)"
| "submitter_step env s (Monitor now i h) = snd (monitorTransaction env now i h s)"
| "submitter_step env s (Retry clk i) = snd (retrySubmission env clk i s)"

fun is_retry :: "submitter_call \<Rightarrow> bool" where
  "is_retry (Retry _ _) = True"
| "is_retry _ = False"

fun call_id :: "submitter_call \<Rightarrow> string" where
  "call_id (Submit _ i) = i"
| "call_id (Monitor _ i _) = i"
| "call_id (Retry _ i) = i"

text \<open>How many contract calls the node accepted during the calls of a history for one payload.\<close>

fun sends_of ::
  "('db, 'c) submitter_env \<Rightarrow> ('c \<Rightarrow> wire list) \<Rightarrow> string \<Rightarrow> ('db, 'c) submitter \<Rightarrow> submitter_call list \<Rightarrow> nat" where
  "sends_of env sent i s [] = 0"
| "sends_of env sent i s (c # cs) =
     (if call_id c = i then length (sent (su_chain (submitter_step env s c))) - length (sent (su_chain s)) else 0) +
     sends_of env sent i (submitter_step env s c) cs"

definition is_pending :: "('db \<Rightarrow> string \<Rightarrow> signed_payload option) \<Rightarrow> string \<Rightarrow> ('db, 'c) submitter \<Rightarrow> bool" where
  "is_pending rows i s \<longleftrightarrow> (\<exists>p. rows (su_db s) i = Some p \<and> sp_status p = PENDING)"

text \<open>
  What a run of the loop with \<open>n\<close> attempts left, from attempt \<open>a\<close>, does to the node and the table:
  it sends the payload at most \<open>n\<close> times, touches no other row, and a result is a saved row.
\<close>

definition loop_ok ::
  "('db \<Rightarrow> string \<Rightarrow> signed_payload option) \<Rightarrow> ('c \<Rightarrow> wire list) \<Rightarrow> nat \<Rightarrow> int \<Rightarrow> signed_payload \<Rightarrow> ('db, 'c) submitter \<Rightarrow>
   (string \<times> signed_payload) result \<times> ('db, 'c) submitter \<Rightarrow> bool" where
  "loop_ok rows sent n a p s out \<longleftrightarrow>
     (\<exists>k \<le> n. sent (su_chain (snd out)) = sent (su_chain s) @ replicate k (wire_of p)) \<and>
     (\<forall>j. j \<noteq> sp_id p \<longrightarrow> rows (su_db (snd out)) j = rows (su_db s) j) \<and>
     (case fst out of
        Inr (h, p') \<Rightarrow> h \<noteq> [] \<and> sp_status p' = SUBMITTED \<and> sp_transactionHash p' = Some h \<and> wire_of p' = wire_of p \<and>
          a \<le> sp_submissionAttempts p' \<and> sp_submissionAttempts p' < a + int n \<and>
          rows (su_db (snd out)) = (rows (su_db s))(sp_id p \<mapsto> p')
      | Inl e \<Rightarrow> rows (su_db (snd out)) = rows (su_db s) \<or>
          (\<exists>p'. rows (su_db (snd out)) = (rows (su_db s))(sp_id p \<mapsto> p') \<and> sp_status p' = FAILED))"

section \<open>Facts\<close>

lemma on_db_simps [simp]:
  "fst (on_db f s) = fst (f (su_db s))" "su_db (snd (on_db f s)) = snd (f (su_db s))"
  "su_chain (snd (on_db f s)) = su_chain s" "su_waits (snd (on_db f s)) = su_waits s"
  by (simp_all add: on_db_def split: prod.splits)

lemma on_chain_simps [simp]:
  "fst (on_chain f s) = fst (f (su_chain s))" "su_db (snd (on_chain f s)) = su_db s"
  "su_chain (snd (on_chain f s)) = snd (f (su_chain s))" "su_waits (snd (on_chain f s)) = su_waits s"
  by (simp_all add: on_chain_def split: prod.splits)

lemma start_monitor_simps [simp]:
  "su_db (start_monitor i h s) = su_db s" "su_chain (start_monitor i h s) = su_chain s"
  "su_waits (start_monitor i h s) = su_waits s"
  by (simp_all add: start_monitor_def)

text \<open>A call seen through its two results.\<close>

lemma io_bind_eq:
  "io_bind m f s = (case fst (m s) of Inl e \<Rightarrow> (Inl e, snd (m s)) | Inr x \<Rightarrow> f x (snd (m s)))"
  by (simp add: io_bind_def split: prod.splits sum.splits)

lemma io_catch_eq:
  "io_catch m h s = (case fst (m s) of Inl e \<Rightarrow> h e (snd (m s)) | Inr x \<Rightarrow> (Inr x, snd (m s)))"
  by (simp add: io_catch_def split: prod.splits sum.splits)

lemma io_simps [simp]: "io_return x s = (Inr x, s)" "io_throw e s = (Inl e, s)"
  by (simp_all add: io_return_def io_throw_def)

lemma estimateGas_keeps:
  "su_db (snd (estimateGas env p s)) = su_db s" "su_waits (snd (estimateGas env p s)) = su_waits s"
  "\<exists>gas. fst (estimateGas env p s) = Inr gas"
  by (auto simp: estimateGas_def io_catch_eq split: sum.splits)

lemma attempt_eq:
  "attempt_submission env now attempt p s =
     (let s1 = snd (estimateGas env p s);
          g = \<lceil>of_int (projr (fst (estimateGas env p s))) * su_gasLimitMultiplier (se_config env)\<rceil>;
          sub = eth_submitPayload (se_eth env) (wire_of p) g (su_chain s1);
          s2 = s1\<lparr>su_chain := snd sub\<rparr>
      in case fst sub of
           Inl e \<Rightarrow> (Inl e, p, s2)
         | Inr txHash \<Rightarrow>
             (let p2 = p\<lparr>sp_transactionHash := Some txHash, sp_status := SUBMITTED, sp_submittedAt := Some now,
                         sp_submissionAttempts := attempt, sp_errorMessage := None\<rparr>;
                  sv = po_save (se_table env) now p2 (su_db s);
                  s3 = s2\<lparr>su_db := snd sv\<rparr>
              in case fst sv of Inl e \<Rightarrow> (Inl e, p2, s3) | Inr p3 \<Rightarrow> (Inr txHash, p3, s3)))"
  using estimateGas_keeps [of env p s]
  by (auto simp: attempt_submission_def Let_def on_chain_def on_db_def split: prod.splits sum.splits)

lemma wire_of_updates [simp]:
  "wire_of (p\<lparr>sp_status := st\<rparr>) = wire_of p" "wire_of (p\<lparr>sp_errorMessage := m\<rparr>) = wire_of p"
  "wire_of (p\<lparr>sp_submissionAttempts := n\<rparr>) = wire_of p" "wire_of (p\<lparr>sp_transactionHash := h\<rparr>) = wire_of p"
  "wire_of (p\<lparr>sp_submittedAt := t\<rparr>) = wire_of p" "wire_of (p\<lparr>sp_updatedAt := u\<rparr>) = wire_of p"
  by (simp_all add: wire_of_def)

lemma replicate_single [simp]: "replicate k w = [w] \<longleftrightarrow> k = 1"
  by (cases k) auto

context submitter_service
begin

lemma estimate_chain: "sent (su_chain (snd (estimateGas env p s))) = sent (su_chain s)"
  by (simp add: estimateGas_def io_catch_eq eth.estimate_sent split: sum.splits)

lemma attempt_cases:
  assumes "attempt_submission env now a p s = (r, p', s')"
  obtains (rejected) e where "r = Inl e" "p' = p" "sent (su_chain s') = sent (su_chain s)" "rows (su_db s') = rows (su_db s)"
  | (lost) e where "r = Inl e" "sent (su_chain s') = sent (su_chain s) @ [wire_of p]" "rows (su_db s') = rows (su_db s)"
      "\<not> reliable_saves (se_table env)"
  | (accepted) h where "r = Inr h" "h \<noteq> []" "sent (su_chain s') = sent (su_chain s) @ [wire_of p]" "sp_status p' = SUBMITTED"
      "sp_transactionHash p' = Some h" "sp_submissionAttempts p' = a" "rows (su_db s') = (rows (su_db s))(sp_id p \<mapsto> p')"
proof -
  define s1 where "s1 = snd (estimateGas env p s)"
  define g where "g = \<lceil>of_int (projr (fst (estimateGas env p s))) * su_gasLimitMultiplier (se_config env)\<rceil>"
  define sub where "sub = eth_submitPayload (se_eth env) (wire_of p) g (su_chain s1)"
  note eqs = assms [unfolded attempt_eq Let_def, folded s1_def g_def, folded sub_def]
  have s1: "su_db s1 = su_db s" "sent (su_chain s1) = sent (su_chain s)"
    by (simp_all add: s1_def estimateGas_keeps estimate_chain)
  show thesis
  proof (cases "fst sub")
    case (Inl e)
    then show ?thesis
      using eqs s1 eth.submit_rejected [of "wire_of p" g "su_chain s1" e] by (intro rejected [of e]) (auto simp: sub_def)
  next
    case (Inr h)
    define p2 where "p2 = p\<lparr>sp_transactionHash := Some h, sp_status := SUBMITTED, sp_submittedAt := Some now,
                         sp_submissionAttempts := a, sp_errorMessage := None\<rparr>"
    define sv where "sv = po_save (se_table env) now p2 (su_db s)"
    note eqs' = eqs [unfolded Inr sum.case, folded p2_def, folded sv_def]
    have acc: "h \<noteq> []" "sent (snd sub) = sent (su_chain s) @ [wire_of p]"
      using eth.submit_accepted [of "wire_of p" g "su_chain s1" h] Inr s1 by (simp_all add: sub_def)
    show ?thesis
    proof (cases "fst sv")
      case (Inl e)
      then show ?thesis
        using eqs' acc tbl.save_failed [of now p2 "su_db s" e]
        by (intro lost [of e]) (auto simp: sv_def reliable_saves_def, metis Inl_Inr_False)
    next
      case (Inr p3)
      then have "p3 = p2\<lparr>sp_updatedAt := now\<rparr>" "rows (snd sv) = (rows (su_db s))(sp_id p \<mapsto> p3)"
        using tbl.save_done [of now p2 "su_db s" p3] by (auto simp: sv_def p2_def)
      then show ?thesis using eqs' acc Inr by (intro accepted [of h]) (auto simp: p2_def)
    qed
  qed
qed

lemma attempt_keeps:
  assumes "attempt_submission env now a p s = (r, p', s')"
  shows "sp_id p' = sp_id p" "wire_of p' = wire_of p" "su_waits s' = su_waits s"
  using assms unfolding attempt_eq Let_def
  by (auto simp: estimateGas_keeps split: sum.splits dest: tbl.save_done)

lemma give_up_ok:
  assumes "sent (su_chain s') = sent (su_chain s) @ replicate k (wire_of p)" "k \<le> n" "rows (su_db s') = rows (su_db s)"
    and "sp_id p1 = sp_id p"
  shows "loop_ok rows sent n a p s (io_bind (on_db (po_save (se_table env) now (p1\<lparr>sp_status := FAILED\<rparr>))) (\<lambda>_. io_throw e) s')"
proof (cases "fst (po_save (se_table env) now (p1\<lparr>sp_status := FAILED\<rparr>) (su_db s'))")
  case (Inl e')
  then show ?thesis using assms tbl.save_failed by (auto simp: io_bind_eq loop_ok_def)
next
  case (Inr r')
  then show ?thesis using assms tbl.save_done [OF Inr] by (auto simp: io_bind_eq loop_ok_def)
qed

lemma loop_ok_later:
  assumes "loop_ok rows sent n (a + 1) p1 s1 out" "sent (su_chain s1) = sent (su_chain s) @ replicate k (wire_of p)" "k \<le> 1"
    and "rows (su_db s1) = rows (su_db s)" "sp_id p1 = sp_id p" "wire_of p1 = wire_of p"
  shows "loop_ok rows sent (Suc n) a p s out"
proof -
  obtain k' where "k' \<le> n" "sent (su_chain (snd out)) = sent (su_chain s1) @ replicate k' (wire_of p1)"
    using assms(1) by (auto simp: loop_ok_def)
  then have "k + k' \<le> Suc n" "sent (su_chain (snd out)) = sent (su_chain s) @ replicate (k + k') (wire_of p)"
    using assms(2,3,6) by (auto simp: replicate_add)
  then show ?thesis using assms(1,4,5,6) by (auto simp: loop_ok_def split: sum.splits)
qed

lemma loop_ok: "loop_ok rows sent n a p s (submit_loop env clk i n a e0 p s)"
proof (induction n arbitrary: a e0 p s)
  case (Suc n)
  obtain r p' s' where att: "attempt_submission env (clk (nat a)) a p s = (r, p', s')"
    by (cases "attempt_submission env (clk (nat a)) a p s") auto
  note keeps = attempt_keeps [OF att]
  have failing: ?case if r: "r = Inl e" and sd: "sent (su_chain s') = sent (su_chain s) @ replicate k (wire_of p)" "k \<le> 1"
    and rw: "rows (su_db s') = rows (su_db s)" for e k
  proof -
    let ?p1 = "p'\<lparr>sp_submissionAttempts := a, sp_errorMessage := Some (error_message e)\<rparr>"
    let ?s1 = "s'\<lparr>su_waits := su_waits s' @ [calculateRetryDelay_su (se_config env) a]\<rparr>"
    have "loop_ok rows sent (Suc n) a p s (submit_loop env clk i n (a + 1) e ?p1 ?s1)"
      using loop_ok_later [OF Suc.IH [of "a + 1" ?p1 ?s1 e], of s k p] sd rw keeps by simp
    moreover have "loop_ok rows sent (Suc n) a p s
      (io_bind (on_db (po_save (se_table env) (clk (nat a)) (?p1\<lparr>sp_status := FAILED\<rparr>))) (\<lambda>_. io_throw e) s')"
      using sd rw keeps by (intro give_up_ok [of s' s k]) auto
    ultimately show ?thesis using r att by (simp add: Let_def)
  qed
  from att show ?case
  proof (cases rule: attempt_cases)
    case (accepted h)
    have "\<exists>k \<le> Suc n. sent (su_chain s) @ [wire_of p] = sent (su_chain s) @ replicate k (wire_of p)"
      by (rule exI [of _ 1]) simp
    then show ?thesis using accepted att keeps by (simp add: loop_ok_def)
  next
    case (rejected e)
    then show ?thesis using failing [of e 0] by simp
  next
    case (lost e)
    then show ?thesis using failing [of e 1] by simp
  qed
qed (simp add: loop_ok_def)

text \<open>With saves that do not throw, the loop sends once and reports the hash, or sends nothing and marks the row.\<close>

lemma loop_reliable:
  assumes "reliable_saves (se_table env)" "int n = su_maxRetries (se_config env) + 2 - a" "n > 0"
  shows "case submit_loop env clk i n a e0 p s of
      (Inr _, s') \<Rightarrow> sent (su_chain s') = sent (su_chain s) @ [wire_of p]
    | (Inl _, s') \<Rightarrow> sent (su_chain s') = sent (su_chain s) \<and> (\<exists>p'. rows (su_db s') (sp_id p) = Some p' \<and> sp_status p' = FAILED)"
  using assms(2,3)
proof (induction n arbitrary: a e0 p s)
  case (Suc n)
  obtain r p' s' where att: "attempt_submission env (clk (nat a)) a p s = (r, p', s')"
    by (cases "attempt_submission env (clk (nat a)) a p s") auto
  from att show ?case
  proof (cases rule: attempt_cases)
    case (rejected e)
    let ?p1 = "p\<lparr>sp_submissionAttempts := a, sp_errorMessage := Some (error_message e)\<rparr>"
    let ?s1 = "s'\<lparr>su_waits := su_waits s' @ [calculateRetryDelay_su (se_config env) a]\<rparr>"
    obtain r' where sv: "fst (po_save (se_table env) (clk (nat a)) (?p1\<lparr>sp_status := FAILED\<rparr>) (su_db s')) = Inr r'"
      using assms(1) unfolding reliable_saves_def by blast
    show ?thesis
    proof (cases "a > su_maxRetries (se_config env) \<or> categorizeFailure_su e = PERMANENT")
      case True
      then show ?thesis using rejected att tbl.save_done [OF sv] sv by (auto simp: io_bind_eq)
    next
      case False
      then have "n > 0" using Suc.prems by simp
      then show ?thesis using False rejected att Suc.IH [where a = "a + 1" and p = ?p1 and s = ?s1 and ?e0.0 = e] Suc.prems by (auto split: prod.splits sum.splits)
    qed
  qed (use assms(1) att in auto)
qed simp

text \<open>A call of \<open>submitPayload\<close> ends before the loop, marks an expired row, or enters the loop.\<close>

lemma submit_cases:
  obtains (quiet) "sent (su_chain (snd (submitPayload env clk i s))) = sent (su_chain s)"
      "rows (su_db (snd (submitPayload env clk i s))) = rows (su_db s)"
      "\<And>h p. fst (submitPayload env clk i s) = Inr (h, p) \<Longrightarrow> h \<noteq> [] \<and> rows (su_db s) i = Some p \<and>
        sp_transactionHash p = Some h \<and> sp_status p \<in> {SUBMITTED, CONFIRMED}"
  | (expired) p' where "sent (su_chain (snd (submitPayload env clk i s))) = sent (su_chain s)"
      "rows (su_db (snd (submitPayload env clk i s))) = (rows (su_db s))(i \<mapsto> p')" "sp_status p' = FAILED"
      "\<exists>e. fst (submitPayload env clk i s) = Inl e"
  | (looped) p s1 where "rows (su_db s) i = Some p" "sp_id p = i" "sp_status p = PENDING" "sp_signature p \<noteq> []" "clk 0 \<le> sp_expiresAt p"
      "submitPayload env clk i s = submit_loop env clk i (nat (su_maxRetries (se_config env) + 1)) 1 (PlainError ''null'') p s1"
      "rows (su_db s1) = rows (su_db s)" "su_chain s1 = su_chain s"
proof -
  let ?find = "on_db (po_findOne (se_table env) i) s"
  consider (off) "\<not> su_configured (se_config env)" | (err) e where "su_configured (se_config env)" "fst ?find = Inl e"
    | (none) "su_configured (se_config env)" "fst ?find = Inr None" | (row) p where "su_configured (se_config env)" "fst ?find = Inr (Some p)"
    by (metis not_None_eq sum.exhaust)
  then show thesis
  proof cases
    case off
    then show ?thesis by (intro quiet) (simp_all add: submitPayload_def)
  next
    case err
    then show ?thesis using tbl.findOne_rows by (intro quiet) (simp_all add: submitPayload_def io_bind_eq)
  next
    case none
    then show ?thesis using tbl.findOne_rows by (intro quiet) (simp_all add: submitPayload_def io_bind_eq)
  next
    case row
    have p: "rows (su_db s) i = Some p" using row tbl.findOne_val [of i "su_db s"] by (metis on_db_simps(1))
    then have i: "sp_id p = i" by (rule tbl.row_id)
    have find: "rows (su_db (snd ?find)) = rows (su_db s)" "su_chain (snd ?find) = su_chain s" by (simp_all add: tbl.findOne_rows)
    note unfold = submitPayload_def io_bind_eq
    show ?thesis
    proof (cases "sp_status p = PENDING \<and> sp_signature p \<noteq> []")
      case False
      then show ?thesis using row p find by (intro quiet) (auto simp: unfold nullish_def truthy_def split: option.splits if_splits)
    next
      case pend: True
      show ?thesis
      proof (cases "clk 0 > sp_expiresAt p")
        case False
        then show ?thesis using row p i find pend by (intro looped [of p "snd ?find"]) (simp_all add: unfold)
      next
        case True
        let ?p' = "p\<lparr>sp_status := FAILED, sp_errorMessage := Some ''Payload expired before submission''\<rparr>"
        show ?thesis
        proof (cases "fst (po_save (se_table env) (clk 0) ?p' (su_db (snd ?find)))")
          case (Inl e)
          then show ?thesis
            using row find pend True tbl.save_failed [OF Inl] by (intro quiet) (simp_all add: unfold)
        next
          case (Inr r')
          then show ?thesis
            using row i find pend True tbl.save_done [OF Inr] by (intro expired [of r']) (simp_all add: unfold)
        qed
      qed
    qed
  qed
qed

lemma update_row_spec:
  assumes "\<And>p. sp_status (g p) \<noteq> PENDING"
  shows "su_chain (snd (update_row env now i g s)) = su_chain s"
    and "rows (su_db (snd (update_row env now i g s))) j = rows (su_db s) j \<or>
      (\<exists>p. rows (su_db (snd (update_row env now i g s))) j = Some p \<and> sp_status p \<noteq> PENDING)"
proof -
  show "su_chain (snd (update_row env now i g s)) = su_chain s"
    by (simp add: update_row_def io_bind_eq split: sum.splits option.splits)
  let ?db = "snd (po_findOne (se_table env) i (su_db s))"
  show "rows (su_db (snd (update_row env now i g s))) j = rows (su_db s) j \<or>
      (\<exists>p. rows (su_db (snd (update_row env now i g s))) j = Some p \<and> sp_status p \<noteq> PENDING)"
  proof (cases "fst (po_findOne (se_table env) i (su_db s))")
    case (Inr row)
    show ?thesis
    proof (cases row)
      case (Some p)
      then show ?thesis
        using Inr assms [of p] tbl.findOne_rows tbl.save_failed [of now "g p" ?db] tbl.save_done [of now "g p" ?db]
        by (cases "fst (po_save (se_table env) now (g p) ?db)") (auto simp: update_row_def io_bind_eq)
    qed (use Inr tbl.findOne_rows in \<open>simp add: update_row_def io_bind_eq\<close>)
  qed (use tbl.findOne_rows in \<open>simp add: update_row_def io_bind_eq\<close>)
qed

lemma monitor_spec:
  "sent (su_chain (snd (monitorTransaction env now i h s))) = sent (su_chain s)"
  "rows (su_db (snd (monitorTransaction env now i h s))) j = rows (su_db s) j \<or>
   (\<exists>p. rows (su_db (snd (monitorTransaction env now i h s))) j = Some p \<and> sp_status p \<noteq> PENDING)"
proof -
  define body where "body = io_bind (on_chain (eth_waitForTransaction (se_eth env) h))
    (\<lambda>found. case found of None \<Rightarrow> io_throw (PlainError ''Transaction receipt is null'')
      | Some rc \<Rightarrow> update_row env now i (with_receipt now rc))"
  have m: "monitorTransaction env now i h = io_catch body (\<lambda>e. update_row env now i (with_monitor_error e))"
    unfolding monitorTransaction_def body_def by (rule refl)
  note mg = update_row_spec [of "with_receipt now rc" for rc]
  note mf = update_row_spec [of "with_monitor_error e" for e]
  have np: "sp_status (with_receipt now rc p) \<noteq> PENDING" "sp_status (with_monitor_error e p) \<noteq> PENDING" for rc e p
    by (simp_all add: with_receipt_def with_monitor_error_def)
  have body: "sent (su_chain (snd (body s))) = sent (su_chain s)"
    "rows (su_db (snd (body s))) j = rows (su_db s) j \<or> (\<exists>p. rows (su_db (snd (body s))) j = Some p \<and> sp_status p \<noteq> PENDING)"
    using mg [where s = "snd (on_chain (eth_waitForTransaction (se_eth env) h) s)"] np eth.wait_sent
    by (auto simp: body_def io_bind_eq split: sum.splits option.splits)
  show "sent (su_chain (snd (monitorTransaction env now i h s))) = sent (su_chain s)"
    using body(1) mf(1) np by (simp add: m io_catch_eq split: sum.splits)
  show "rows (su_db (snd (monitorTransaction env now i h s))) j = rows (su_db s) j \<or>
   (\<exists>p. rows (su_db (snd (monitorTransaction env now i h s))) j = Some p \<and> sp_status p \<noteq> PENDING)"
    using body(2) mf(2) [where s = "snd (body s)" and j = j] np by (fastforce simp: m io_catch_eq split: sum.splits)
qed

text \<open>One call, seen from one row: it stays or becomes closed, and only a pending row is sent, once.\<close>

lemma step_closes:
  assumes "reliable_saves (se_table env)" "\<not> is_retry c" "0 \<le> su_maxRetries (se_config env)"
  shows "(if call_id c = i then length (sent (su_chain (submitter_step env s c))) - length (sent (su_chain s)) else 0) +
    (if is_pending rows i (submitter_step env s c) then 1 else 0) \<le> (if is_pending rows i s then 1 else 0 :: nat)"
proof (cases c)
  case (Submit clk j)
  show ?thesis
  proof (cases rule: submit_cases [of clk j s])
    case quiet
    then show ?thesis by (auto simp: Submit is_pending_def)
  next
    case (expired p')
    then show ?thesis by (auto simp: Submit is_pending_def)
  next
    case (looped p s1)
    let ?n = "nat (su_maxRetries (se_config env) + 1)"
    let ?out = "submit_loop env clk j ?n 1 (PlainError ''null'') p s1"
    have ok: "loop_ok rows sent ?n 1 p s1 ?out" by (rule loop_ok)
    have rel: "case ?out of
      (Inr _, s') \<Rightarrow> sent (su_chain s') = sent (su_chain s1) @ [wire_of p]
    | (Inl _, s') \<Rightarrow> sent (su_chain s') = sent (su_chain s1) \<and> (\<exists>p'. rows (su_db s') (sp_id p) = Some p' \<and> sp_status p' = FAILED)"
      using assms(1,3) by (intro loop_reliable) auto
    show ?thesis
    proof (cases "j = i")
      case True
      then show ?thesis
        using ok rel looped by (auto simp: Submit is_pending_def loop_ok_def split: prod.splits sum.splits)
    next
      case False
      then show ?thesis using ok looped by (auto simp: Submit is_pending_def loop_ok_def)
    qed
  qed
next
  case (Monitor now j h)
  then show ?thesis using monitor_spec(1) [of now j h s] monitor_spec(2) [of now j h s i] by (auto simp: is_pending_def split: if_splits) (metis option.inject)+
qed (use assms(2) in simp)

lemma sends_bound:
  assumes "reliable_saves (se_table env)" "0 \<le> su_maxRetries (se_config env)" "list_all (\<lambda>c. \<not> is_retry c) cs"
  shows "sends_of env sent i s cs \<le> (if is_pending rows i s then 1 else 0)"
  using assms(3)
proof (induction cs arbitrary: s)
  case (Cons c cs)
  have "sends_of env sent i (submitter_step env s c) cs \<le> (if is_pending rows i (submitter_step env s c) then 1 else 0)"
    using Cons by simp
  moreover have "(if call_id c = i then length (sent (su_chain (submitter_step env s c))) - length (sent (su_chain s)) else 0) +
    (if is_pending rows i (submitter_step env s c) then 1 else 0) \<le> (if is_pending rows i s then 1 else 0 :: nat)"
    using Cons.prems by (intro step_closes [OF assms(1) _ assms(2)]) simp
  ultimately show ?case unfolding sends_of.simps by linarith
qed simp

lemma loop_accepts:
  assumes "reliable_saves (se_table env)" "\<And>w g c. \<exists>h. fst (eth_submitPayload (se_eth env) w g c) = Inr h" "n > 0"
  shows "\<exists>x. fst (submit_loop env clk i n a e0 p s) = Inr x"
proof -
  obtain m where "n = Suc m" using assms(3) gr0_conv_Suc by blast
  moreover obtain r p' s' where att: "attempt_submission env (clk (nat a)) a p s = (r, p', s')"
    by (cases "attempt_submission env (clk (nat a)) a p s") auto
  moreover have "\<exists>h. r = Inr h"
  proof -
    define g where "g = \<lceil>of_int (projr (fst (estimateGas env p s))) * su_gasLimitMultiplier (se_config env)\<rceil>"
    obtain h where h: "fst (eth_submitPayload (se_eth env) (wire_of p) g (su_chain (snd (estimateGas env p s)))) = Inr h"
      using assms(2) by blast
    define p2 where "p2 = p\<lparr>sp_transactionHash := Some h, sp_status := SUBMITTED, sp_submittedAt := Some (clk (nat a)),
                         sp_submissionAttempts := a, sp_errorMessage := None\<rparr>"
    obtain p3 where "fst (po_save (se_table env) (clk (nat a)) p2 (su_db s)) = Inr p3"
      using assms(1) unfolding reliable_saves_def by blast
    then have "r = Inr h"
      using att h by (auto simp: attempt_eq Let_def g_def [symmetric] p2_def [symmetric])
    then show ?thesis ..
  qed
  ultimately show ?thesis by auto
qed

lemma submit_accepts:
  assumes "reliable_saves (se_table env)" "\<And>w g c. \<exists>h. fst (eth_submitPayload (se_eth env) w g c) = Inr h"
    and "reliable_finds (se_table env)" "su_configured (se_config env)" "0 \<le> su_maxRetries (se_config env)"
    and "rows (su_db s) i = Some p" "sp_status p = PENDING" "sp_signature p \<noteq> []" "clk 0 \<le> sp_expiresAt p"
  shows "\<exists>h p' s'. submitPayload env clk i s = (Inr (h, p'), s') \<and> sent (su_chain s') = sent (su_chain s) @ [wire_of p] \<and>
    rows (su_db s') = (rows (su_db s))(i \<mapsto> p') \<and> sp_status p' = SUBMITTED \<and> sp_transactionHash p' = Some h \<and> wire_of p' = wire_of p"
proof -
  let ?n = "nat (su_maxRetries (se_config env) + 1)" and ?e = "PlainError ''null''"
  define s1 where "s1 = snd (on_db (po_findOne (se_table env) i) s)"
  have s1: "rows (su_db s1) = rows (su_db s)" "su_chain s1 = su_chain s" by (simp_all add: s1_def tbl.findOne_rows)
  have eq: "submitPayload env clk i s = submit_loop env clk i ?n 1 ?e p s1"
    using assms(4,6-9) tbl.found_row [OF assms(3), of i "su_db s"] by (simp add: submitPayload_def io_bind_eq s1_def)
  have n: "int ?n = su_maxRetries (se_config env) + 2 - 1" "?n > 0" using assms(5) by auto
  obtain h p' s' where out: "submit_loop env clk i ?n 1 ?e p s1 = (Inr (h, p'), s')"
    using loop_accepts [OF assms(1,2) n(2), of clk i 1 ?e p s1] by (metis prod.collapse surj_pair)
  then have "sent (su_chain s') = sent (su_chain s1) @ [wire_of p]"
    using loop_reliable [OF assms(1) n, where clk = clk and i = i and ?e0.0 = ?e and p = p and s = s1] by simp
  moreover have "loop_ok rows sent ?n 1 p s1 (Inr (h, p'), s')"
    using loop_ok [where n = ?n and a = 1 and p = p and s = s1 and clk = clk and i = i and ?e0.0 = ?e] out by simp
  moreover have "sp_id p = i" by (rule tbl.row_id [OF assms(6)])
  ultimately show ?thesis using eq out s1 by (auto simp: loop_ok_def)
qed

lemma monitor_confirms:
  assumes "reliable_saves (se_table env)" "reliable_finds (se_table env)" "rows (su_db s) i = Some p"
    and "fst (eth_waitForTransaction (se_eth env) h (su_chain s)) = Inr (Some rc)" "rc_status rc = 1"
  shows "\<exists>q. rows (su_db (snd (monitorTransaction env now i h s))) = (rows (su_db s))(i \<mapsto> q) \<and> sp_status q = CONFIRMED \<and>
    sp_blockNumber q = Some (rc_blockNumber rc) \<and> sp_transactionHash q = sp_transactionHash p"
proof -
  let ?p = "with_receipt now rc p"
  define s1 where "s1 = snd (on_chain (eth_waitForTransaction (se_eth env) h) s)"
  define db where "db = snd (po_findOne (se_table env) i (su_db s))"
  have db: "rows db = rows (su_db s)" by (simp add: db_def tbl.findOne_rows)
  obtain q where q: "fst (po_save (se_table env) now ?p db) = Inr q" using assms(1) unfolding reliable_saves_def by blast
  have "snd (monitorTransaction env now i h s) = snd (on_db (po_save (se_table env) now ?p) (snd (on_db (po_findOne (se_table env) i) s1)))"
    using assms(4) tbl.found_row [OF assms(2), of i "su_db s"] assms(3) q
    by (simp add: monitorTransaction_def io_catch_eq io_bind_eq update_row_def s1_def db_def)
  then have "rows (su_db (snd (monitorTransaction env now i h s))) = rows (snd (po_save (se_table env) now ?p db))"
    by (simp add: s1_def db_def)
  then show ?thesis
    using tbl.save_done [OF q] assms(5) tbl.row_id [OF assms(3)] db by (auto simp: with_receipt_def)
qed

lemma retry_resends:
  assumes "reliable_saves (se_table env)" "\<And>w g c. \<exists>h. fst (eth_submitPayload (se_eth env) w g c) = Inr h"
    and "reliable_finds (se_table env)" "su_configured (se_config env)"
    and "rows (su_db s) i = Some p" "sp_submissionAttempts p < su_maxRetries (se_config env)"
    and "sp_signature p \<noteq> []" "clk 0 \<le> sp_expiresAt p" "0 \<le> su_maxRetries (se_config env)"
  shows "sent (su_chain (snd (retrySubmission env clk i s))) = sent (su_chain s) @ [wire_of p]"
proof -
  let ?n = "nat (su_maxRetries (se_config env) + 1)"
  note found = tbl.found_row [OF assms(3)]
  define s1 where "s1 = snd (on_db (po_findOne (se_table env) i) s)"
  have s1: "rows (su_db s1) = rows (su_db s)" "su_chain s1 = su_chain s" by (simp_all add: s1_def tbl.findOne_rows)
  define p1 where "p1 = p\<lparr>sp_status := PENDING, sp_errorMessage := None\<rparr>"
  obtain p2 where sv: "fst (po_save (se_table env) (clk 0) p1 (su_db s1)) = Inr p2"
    using assms(1) unfolding reliable_saves_def by blast
  define s2 where "s2 = snd (on_db (po_save (se_table env) (clk 0) p1) s1)"
  have p2: "p2 = p1\<lparr>sp_updatedAt := clk 0\<rparr>" "rows (su_db s2) i = Some p2" "su_chain s2 = su_chain s"
    using tbl.save_done [OF sv] tbl.row_id [OF assms(5)] s1 by (simp_all add: s2_def p1_def)
  define s3 where "s3 = snd (on_db (po_findOne (se_table env) i) s2)"
  have "retrySubmission env clk i s = submitPayload env clk i s2"
    using assms(5,6) found sv by (simp add: retrySubmission_def io_bind_eq s1_def [symmetric] s2_def [symmetric] p1_def [symmetric])
  also have "\<dots> = submit_loop env clk i ?n 1 (PlainError ''null'') p2 s3"
    using assms(4,7,8) p2 found by (simp add: submitPayload_def io_bind_eq s3_def [symmetric] p1_def)
  finally have eq: "retrySubmission env clk i s = submit_loop env clk i ?n 1 (PlainError ''null'') p2 s3" .
  have n: "int ?n = su_maxRetries (se_config env) + 2 - 1" "?n > 0" using assms(9) by auto
  show ?thesis
    using loop_accepts [OF assms(1,2) n(2), of clk i 1 "PlainError ''null''" p2 s3]
      loop_reliable [OF assms(1) n, where clk = clk and i = i and ?e0.0 = "PlainError ''null''" and p = p2 and s = s3] p2
    by (auto simp: eq s3_def p1_def split: prod.splits)
qed

end

section \<open>A node in memory\<close>

text \<open>It logs the calls it accepts and confirms every transaction; an outcome of None lets a call through.\<close>

record mem_chain =
  mc_sent :: "wire list"
  mc_faults :: "string option list"

definition mem_eth :: "mem_chain chain_ops" where
  "mem_eth = \<lparr>eth_estimateGas = (\<lambda>w c. (Inr 21000, c)),
     eth_submitPayload = (\<lambda>w g c. case mc_faults c of
         Some e # fs \<Rightarrow> (Inl (PlainError e), c\<lparr>mc_faults := fs\<rparr>)
       | _ \<Rightarrow> (Inr ''0xfeed'', c\<lparr>mc_sent := mc_sent c @ [w], mc_faults := tl (mc_faults c)\<rparr>)),
     eth_waitForTransaction = (\<lambda>h c. (Inr (Some \<lparr>rc_status = 1, rc_blockNumber = 7\<rparr>), c)),
     eth_verifyPayload = (\<lambda>w a c. (Inr True, c))\<rparr>"

interpretation mc: oracle_chain mem_eth mc_sent
  by unfold_locales (auto simp: mem_eth_def split: list.splits option.splits)

definition mem_config :: submitter_config where
  "mem_config = init_submitter (Some ''http://node'') (Some ''key'') (Some ''0xc0'') 5 1000 60000 2 (6 / 5)"

definition mem_env :: "(mem_db, mem_chain) submitter_env" where
  "mem_env = \<lparr>se_config = mem_config, se_table = mem_ops, se_eth = mem_eth\<rparr>"

definition calm_eth :: "mem_chain chain_ops" where
  "calm_eth = mem_eth\<lparr>eth_submitPayload := (\<lambda>w g c. eth_submitPayload mem_eth w g (c\<lparr>mc_faults := []\<rparr>))\<rparr>"

interpretation cc: oracle_chain calm_eth mc_sent
  by unfold_locales (auto simp: calm_eth_def mem_eth_def)

definition calm_env :: "(mem_db, mem_chain) submitter_env" where
  "calm_env = \<lparr>se_config = mem_config, se_table = calm_ops, se_eth = calm_eth\<rparr>"

interpretation cs: submitter_service calm_env mem_rows mc_sent
  by (rule submitter_service.intro) (simp_all add: calm_env_def ct_table.payload_table_axioms cc.oracle_chain_axioms)

interpretation ms: submitter_service mem_env mem_rows mc_sent
  by (rule submitter_service.intro) (simp_all add: mem_env_def mt_table.payload_table_axioms mc.oracle_chain_axioms)

text \<open>A run on the node in memory with retryable rejections ahead: each costs one delay.\<close>

lemma loop_through_faults:
  assumes "list_all (\<lambda>e. categorizeFailure_su (PlainError e) = RETRYABLE) es" "int (length es) + a \<le> su_maxRetries cfg + 1"
    and "length es < n" "md_faults (su_db s) = []" "mc_faults (su_chain s) = map Some es"
  shows "\<exists>p' s'. submit_loop \<lparr>se_config = cfg, se_table = mem_ops, se_eth = mem_eth\<rparr> clk i n a e0 p s = (Inr (''0xfeed'', p'), s') \<and>
    sp_submissionAttempts p' = a + int (length es) \<and> mc_sent (su_chain s') = mc_sent (su_chain s) @ [wire_of p] \<and>
    su_waits s' = su_waits s @ map (\<lambda>k. calculateRetryDelay_su cfg (a + int k)) [0 ..< length es]"
  using assms
proof (induction es arbitrary: n a e0 p s)
  case Nil
  then obtain m where "n = Suc m" using gr0_conv_Suc by auto
  then show ?case
    using Nil by (simp add: attempt_eq Let_def estimateGas_def io_catch_eq mem_eth_def mem_ops_def mem_call_def start_monitor_def on_chain_def)
next
  case (Cons e es)
  obtain m where m: "n = Suc m" using Cons.prems(3) by (cases n) auto
  let ?env = "\<lparr>se_config = cfg, se_table = mem_ops, se_eth = mem_eth\<rparr>"
  let ?p1 = "p\<lparr>sp_submissionAttempts := a, sp_errorMessage := Some e\<rparr>"
  let ?s1 = "s\<lparr>su_chain := (su_chain s)\<lparr>mc_faults := map Some es\<rparr>, su_waits := su_waits s @ [calculateRetryDelay_su cfg a]\<rparr>"
  have att: "attempt_submission ?env (clk (nat a)) a p s = (Inl (PlainError e), p, s\<lparr>su_chain := (su_chain s)\<lparr>mc_faults := map Some es\<rparr>\<rparr>)"
    using Cons.prems by (simp add: attempt_eq Let_def estimateGas_def io_catch_eq mem_eth_def on_chain_def)
  have "submit_loop ?env clk i n a e0 p s = submit_loop ?env clk i m (a + 1) (PlainError e) ?p1 ?s1"
    using att Cons.prems by (simp add: m)
  moreover have "\<exists>p' s'. submit_loop ?env clk i m (a + 1) (PlainError e) ?p1 ?s1 = (Inr (''0xfeed'', p'), s') \<and>
    sp_submissionAttempts p' = a + 1 + int (length es) \<and> mc_sent (su_chain s') = mc_sent (su_chain ?s1) @ [wire_of ?p1] \<and>
    su_waits s' = su_waits ?s1 @ map (\<lambda>k. calculateRetryDelay_su cfg (a + 1 + int k)) [0 ..< length es]"
    using Cons.prems m by (intro Cons.IH) auto
  moreover have "map (\<lambda>k. calculateRetryDelay_su cfg (a + int k)) [0 ..< Suc k] =
      calculateRetryDelay_su cfg a # map (\<lambda>k. calculateRetryDelay_su cfg (a + 1 + int k)) [0 ..< k]" for k
    by (simp add: upt_conv_Cons map_Suc_upt [symmetric] del: upt_Suc) (simp add: comp_def algebra_simps)
  ultimately show ?case by (auto simp: algebra_simps simp del: upt_Suc)
qed

section \<open>Properties\<close>

definition sample_payload :: signed_payload where
  "sample_payload = \<lparr>sp_id = ''p1'', sp_payloadType = PRICE_FEED, sp_signerAddress = ''0xaa'', sp_nonce = 4, sp_payload = ''{}'',
     sp_payloadHash = ''0x01'', sp_structuredDataHash = ''0x01'', sp_signature = ''0x5159'', sp_expiresAt = 9000, sp_status = PENDING,
     sp_transactionHash = None, sp_blockNumber = None, sp_submissionAttempts = 0, sp_errorMessage = None, sp_metadata = None,
     sp_createdAt = 0, sp_updatedAt = 0, sp_submittedAt = None, sp_confirmedAt = None\<rparr>"

definition sample_state :: "signed_payload \<Rightarrow> string option list \<Rightarrow> string option list \<Rightarrow> (mem_db, mem_chain) submitter" where
  "sample_state p dbf chf = \<lparr>su_db = \<lparr>md_rows = [(sp_id p, p)], md_faults = dbf\<rparr>, su_chain = \<lparr>mc_sent = [], mc_faults = chf\<rparr>,
     su_monitors = [], su_waits = []\<rparr>"

text \<open>
  What a submission may send and return, whatever fails: only a pending, signed payload that
  had not expired is sent, at most once per attempt; no other row changes; and a returned hash is
  that of the row, which is then submitted or confirmed.
\<close>

theorem submit_sends_valid:
  assumes "submitter_service env rows sent"
  shows "case submitPayload env clk i s of (out, s') \<Rightarrow>
    (sent (su_chain s') = sent (su_chain s) \<or>
      (\<exists>p k. rows (su_db s) i = Some p \<and> sp_status p = PENDING \<and> sp_signature p \<noteq> [] \<and> clk 0 \<le> sp_expiresAt p \<and>
        k \<le> nat (su_maxRetries (se_config env) + 1) \<and> sent (su_chain s') = sent (su_chain s) @ replicate k (wire_of p))) \<and>
    (\<forall>j. j \<noteq> i \<longrightarrow> rows (su_db s') j = rows (su_db s) j) \<and>
    (\<forall>h p'. out = Inr (h, p') \<longrightarrow> h \<noteq> [] \<and> rows (su_db s') i = Some p' \<and> sp_transactionHash p' = Some h \<and>
      sp_status p' \<in> {SUBMITTED, CONFIRMED})"
proof (cases rule: submitter_service.submit_cases [OF assms, of clk i s])
  case (3 p s1)
  let ?out = "submit_loop env clk i (nat (su_maxRetries (se_config env) + 1)) 1 (PlainError ''null'') p s1"
  have "loop_ok rows sent (nat (su_maxRetries (se_config env) + 1)) 1 p s1 ?out"
    by (rule submitter_service.loop_ok [OF assms])
  then show ?thesis using 3 by (auto simp: loop_ok_def split: prod.splits)
qed (auto split: prod.splits)

theorem submit_sends_valid_witness:
  "mc_sent (su_chain (snd (submitPayload mem_env (\<lambda>_. 5000) ''p1'' (sample_state sample_payload [] [])))) = [wire_of sample_payload] \<and>
   (case submitPayload mem_env (\<lambda>_. 5000) ''p1'' (sample_state sample_payload [] []) of (out, s') \<Rightarrow>
     (\<forall>h p'. out = Inr (h, p') \<longrightarrow> sp_transactionHash p' = Some h))"
proof
  show "mc_sent (su_chain (snd (submitPayload mem_env (\<lambda>_. 5000) ''p1'' (sample_state sample_payload [] [])))) = [wire_of sample_payload]"
    by code_simp
  show "case submitPayload mem_env (\<lambda>_. 5000) ''p1'' (sample_state sample_payload [] []) of (out, s') \<Rightarrow>
     (\<forall>h p'. out = Inr (h, p') \<longrightarrow> sp_transactionHash p' = Some h)"
    using submit_sends_valid [OF ms.submitter_service_axioms, where clk = "\<lambda>_. 5000" and i = "''p1''" and s = "sample_state sample_payload [] []"]
    by (auto split: prod.splits)
qed



text \<open>
  A retry does not look at the status: a payload that is already confirmed, with attempts
  left, is made pending and sent to the contract again.
\<close>

theorem retry_resends_confirmed:
  assumes "submitter_service env rows sent" and "reliable_saves (se_table env)"
    and "\<forall>w g c. \<exists>h. fst (eth_submitPayload (se_eth env) w g c) = Inr h" and "reliable_finds (se_table env)"
    and "su_configured (se_config env)" and "rows (su_db s) i = Some p" and "sp_status p = CONFIRMED"
    and "0 \<le> sp_submissionAttempts p" and "sp_submissionAttempts p < su_maxRetries (se_config env)"
    and "sp_signature p \<noteq> []" and "clk 0 \<le> sp_expiresAt p"
  shows "sent (su_chain (snd (retrySubmission env clk i s))) = sent (su_chain s) @ [wire_of p]"
  by (rule submitter_service.retry_resends [where rows = rows]) (use assms in auto)

theorem retry_resends_confirmed_witness:
  "mc_sent (su_chain (snd (retrySubmission calm_env (\<lambda>_. 5000) ''p1'' (sample_state (sample_payload\<lparr>sp_status := CONFIRMED\<rparr>) [] [])))) =
     [wire_of sample_payload]"
  using retry_resends_confirmed [OF cs.submitter_service_axioms, where i = "''p1''" and p = "sample_payload\<lparr>sp_status := CONFIRMED\<rparr>"
      and s = "sample_state (sample_payload\<lparr>sp_status := CONFIRMED\<rparr>) [] []" and clk = "\<lambda>_. 5000"]
    calm_reliable
  by (simp add: calm_env_def calm_eth_def mem_eth_def mem_config_def init_submitter_def mem_rows_def sample_state_def sample_payload_def Map_get_def wire_of_def)

text \<open>
  A save that fails after the send repeats the send: with the first save of the row lost
  to a time-out, the payload is sent to the contract twice.
\<close>

theorem lost_save_sends_twice:
  assumes "sp_status p = PENDING" and "sp_signature p \<noteq> []" and "clk 0 \<le> sp_expiresAt p"
  shows "mc_sent (su_chain (snd (submitPayload mem_env clk (sp_id p) (sample_state p [None, Some ''timeout''] [])))) = [wire_of p, wire_of p]"
proof -
  have cat: "categorizeFailure_su (PlainError ''timeout'') = RETRYABLE" by code_simp
  have cfg: "su_configured mem_config" "su_maxRetries mem_config = 5" by (simp_all add: mem_config_def init_submitter_def)
  obtain m where n: "nat (su_maxRetries mem_config + 1) = Suc (Suc m)" by (simp add: cfg eval_nat_numeral)
  show ?thesis
    using assms cat unfolding mem_env_def submitPayload_def io_bind_eq submitter_env.simps n
    by (simp add: cfg on_db_def io_bind_eq sample_state_def mem_ops_def mem_call_def mem_rows_def Map_get_def
        attempt_eq Let_def estimateGas_def io_catch_eq mem_eth_def start_monitor_def on_chain_def split: prod.splits)
qed


theorem lost_save_sends_twice_witness:
  "mc_sent (su_chain (snd (submitPayload mem_env (\<lambda>_. 5000) (sp_id sample_payload) (sample_state sample_payload [None, Some ''timeout''] [])))) =
     [wire_of sample_payload, wire_of sample_payload]"
  by (rule lost_save_sends_twice) (simp_all add: sample_payload_def)

text \<open>
  A submission survives rejections: when the node rejects the first attempts with retryable
  errors, at most \<open>maxRetries\<close> of them, the next attempt is recorded with its number, the payload
  is sent once, and the delays waited are the initial delay times the powers of the multiplier,
  capped at the maximum.
\<close>

theorem submit_survives_rejections:
  assumes "su_configured cfg" and "sp_status p = PENDING" and "sp_signature p \<noteq> []" and "clk 0 \<le> sp_expiresAt p"
    and "list_all (\<lambda>e. categorizeFailure_su (PlainError e) = RETRYABLE) es" and "int (length es) \<le> su_maxRetries cfg"
  shows "case submitPayload \<lparr>se_config = cfg, se_table = mem_ops, se_eth = mem_eth\<rparr> clk (sp_id p) (sample_state p [] (map Some es)) of
    (out, s') \<Rightarrow> (\<exists>p'. out = Inr (''0xfeed'', p') \<and> sp_submissionAttempts p' = 1 + int (length es)) \<and>
      mc_sent (su_chain s') = [wire_of p] \<and>
      su_waits s' = map (\<lambda>k. min (su_initialRetryDelay cfg * su_backoffMultiplier cfg ^ k) (su_maxRetryDelay cfg)) [0 ..< length es]"
proof -
  let ?env = "\<lparr>se_config = cfg, se_table = mem_ops, se_eth = mem_eth\<rparr>"
  let ?s = "sample_state p [] (map Some es)"
  have eq: "submitPayload ?env clk (sp_id p) ?s = submit_loop ?env clk (sp_id p) (nat (su_maxRetries cfg + 1)) 1 (PlainError ''null'') p ?s"
    using assms(1-4)
    by (simp add: submitPayload_def io_bind_eq on_db_def sample_state_def mem_ops_def mem_call_def mem_rows_def Map_get_def)
  have l: "length es < nat (su_maxRetries cfg + 1)" using assms(6) by simp
  show ?thesis
    using loop_through_faults [OF assms(5) _ l, where cfg = cfg and a = 1 and s = ?s and clk = clk and i = "sp_id p"
        and ?e0.0 = "PlainError ''null''" and p = p] assms(6)
    unfolding eq by (auto simp: sample_state_def calculateRetryDelay_su_def)
qed

theorem submit_survives_rejections_witness:
  "case submitPayload \<lparr>se_config = mem_config, se_table = mem_ops, se_eth = mem_eth\<rparr> (\<lambda>_. 5000) (sp_id sample_payload)
      (sample_state sample_payload [] (map Some [''timeout'', ''Rate limit hit''])) of
    (out, s') \<Rightarrow> (\<exists>p'. out = Inr (''0xfeed'', p') \<and> sp_submissionAttempts p' = 3) \<and> su_waits s' = [1000, 2000]"
proof -
  have cfg: "su_initialRetryDelay mem_config = 1000" "su_backoffMultiplier mem_config = 2" "su_maxRetryDelay mem_config = 60000"
    by (simp_all add: mem_config_def init_submitter_def)
  have "list_all (\<lambda>e. categorizeFailure_su (PlainError e) = RETRYABLE) [''timeout'', ''Rate limit hit'']" by code_simp
  then show ?thesis
    using submit_survives_rejections [of mem_config sample_payload "\<lambda>_. 5000" "[''timeout'', ''Rate limit hit'']"]
    by (auto simp: cfg sample_payload_def mem_config_def init_submitter_def split: prod.splits)
qed

end
