(* ===== verification/Submission_Batch.thy ===== *)
theory Submission_Batch
  imports Payload_Submitter
begin

text \<open>
  \<open>SubmissionBatchService\<close> (blockchain/oracle/services/submission-batch.service.ts): batches of
  payloads with an in-flight table, retries with back-off. The submission itself is the
  placeholder the source has: it draws a transaction hash and saves the row as submitted, so an
  attempt fails exactly when the save throws. The clock and the hash an attempt reads are given
  by \<open>draws\<close>, for a payload id and an attempt number. The payloads a chunk of
  \<open>retryFailedPayloads\<close> handles at the same time are distinct rows and run one after another here.
\<close>

section \<open>Configuration and state\<close>

record batch_config =
  bc_batchSize :: nat
  bc_maxRetries :: int
  bc_initialRetryDelayMs :: rat
  bc_maxRetryDelayMs :: rat
  bc_retryBackoffMultiplier :: rat
  bc_preserveOrder :: bool

record 'db batch_service =
  bs_inFlight :: "(string, bool) js_map"
  bs_db :: 'db
  bs_waits :: "rat list"

record draws =
  dr_now :: "string \<Rightarrow> int \<Rightarrow> timestamp"
  dr_hash :: "string \<Rightarrow> int \<Rightarrow> string"

record submission_result =
  re_payloadId :: string
  re_success :: bool
  re_transactionHash :: "string option"
  re_errorMessage :: "string option"
  re_failureType :: "failure_type option"
  re_attemptNumber :: int

record batch_submission_result =
  br_batchId :: string
  br_results :: "submission_result list"
  br_totalPayloads :: int
  br_successfulPayloads :: int
  br_failedPayloads :: int

definition b_db :: "('db, 'a) io \<Rightarrow> ('db batch_service, 'a) io" where
  "b_db f s = (let (r, db) = f (bs_db s) in (r, s\<lparr>bs_db := db\<rparr>))"

definition wait_ms :: "rat \<Rightarrow> 'db batch_service \<Rightarrow> 'db batch_service" where
  "wait_ms ms s = s\<lparr>bs_waits := bs_waits s @ [ms]\<rparr>"

section \<open>Helpers\<close>

definition isInFlight :: "string \<Rightarrow> 'db batch_service \<Rightarrow> bool" where
  "isInFlight payloadId s = (Map_get payloadId (bs_inFlight s) = Some True)"

definition markInFlight :: "string \<Rightarrow> 'db batch_service \<Rightarrow> 'db batch_service" where
  "markInFlight payloadId s = s\<lparr>bs_inFlight := Map_set payloadId True (bs_inFlight s)\<rparr>"

definition clearInFlight :: "string \<Rightarrow> 'db batch_service \<Rightarrow> 'db batch_service" where
  "clearInFlight payloadId s = s\<lparr>bs_inFlight := Map_delete payloadId (bs_inFlight s)\<rparr>"

text \<open>The two lists of patterns are those of the submitter.\<close>

definition categorizeFailure :: "http_error \<Rightarrow> failure_type" where
  "categorizeFailure e =
     (let message = toLowerCase (error_message e)
      in if list_ex (includes_str message) permanentPatterns then PERMANENT
         else if list_ex (includes_str message) retryablePatterns then RETRYABLE
         else RETRYABLE)"

definition isRetryableError :: "string \<Rightarrow> bool" where
  "isRetryableError errorMessage = (categorizeFailure (PlainError errorMessage) = RETRYABLE)"

definition calculateRetryDelay :: "batch_config \<Rightarrow> int \<Rightarrow> rat" where
  "calculateRetryDelay cfg attempt =
     (let delay = bc_initialRetryDelayMs cfg * bc_retryBackoffMultiplier cfg ^ nat (attempt - 1)
      in min delay (bc_maxRetryDelayMs cfg))"

text \<open>Errors of the table are logged and dropped.\<close>

definition markAsFailed ::
  "'db payload_ops \<Rightarrow> timestamp \<Rightarrow> string \<Rightarrow> string \<Rightarrow> int \<Rightarrow> 'db batch_service \<Rightarrow> 'db batch_service" where
  "markAsFailed ops now payloadId errorMessage attemptNumber s =
     snd (io_bind (b_db (po_findOne ops payloadId)) (\<lambda>found.
       case found of
         None \<Rightarrow> io_return ()
       | Some p \<Rightarrow> io_bind (b_db (po_save ops now (p\<lparr>sp_status := FAILED, sp_errorMessage := Some errorMessage,
                                 sp_submissionAttempts := attemptNumber\<rparr>))) (\<lambda>_. io_return ())) s)"

definition submitPayload_b ::
  "'db payload_ops \<Rightarrow> timestamp \<Rightarrow> string \<Rightarrow> signed_payload \<Rightarrow> ('db batch_service, string) io" where
  "submitPayload_b ops now transactionHash p =
     io_bind (b_db (po_save ops now (p\<lparr>sp_status := SUBMITTED, sp_transactionHash := Some transactionHash,
                sp_submittedAt := Some now, sp_submissionAttempts := sp_submissionAttempts p + 1\<rparr>)))
       (\<lambda>_. io_return transactionHash)"

definition succeeded :: "string \<Rightarrow> string option \<Rightarrow> int \<Rightarrow> submission_result" where
  "succeeded payloadId transactionHash attempt = \<lparr>re_payloadId = payloadId, re_success = True,
     re_transactionHash = transactionHash, re_errorMessage = None, re_failureType = None, re_attemptNumber = attempt\<rparr>"

definition failed_result :: "string \<Rightarrow> string option \<Rightarrow> failure_type \<Rightarrow> int \<Rightarrow> submission_result" where
  "failed_result payloadId errorMessage failureType attempt = \<lparr>re_payloadId = payloadId, re_success = False,
     re_transactionHash = None, re_errorMessage = errorMessage, re_failureType = Some failureType, re_attemptNumber = attempt\<rparr>"

definition batch_summary :: "string \<Rightarrow> int \<Rightarrow> submission_result list \<Rightarrow> batch_submission_result" where
  "batch_summary batchId totalPayloads results = \<lparr>br_batchId = batchId, br_results = results, br_totalPayloads = totalPayloads,
     br_successfulPayloads = int (length (filter re_success results)),
     br_failedPayloads = int (length (filter (\<lambda>r. \<not> re_success r) results))\<rparr>"

section \<open>Batches\<close>

text \<open>
  \<open>signature: In([null, ""])\<close> is the SQL condition \<open>signature IN (NULL, '')\<close>, which holds of the
  empty signature only. \<open>limit || this.batchSize\<close> takes a limit of 0 for none. The failures of
  expired payloads are recorded by calls that are not awaited.
\<close>

definition getPayloadsForBatching ::
  "'db payload_ops \<Rightarrow> batch_config \<Rightarrow> timestamp \<Rightarrow> nat option \<Rightarrow> ('db batch_service, signed_payload list) io" where
  "getPayloadsForBatching ops cfg now limit =
     (let batchSize = (case limit of None \<Rightarrow> bc_batchSize cfg | Some n \<Rightarrow> if n = 0 then bc_batchSize cfg else n)
      in io_bind (b_db (po_find ops (\<lambda>p. sp_status p = PENDING \<and> sp_signature p = []) CreatedAsc (Some (batchSize * 2))))
           (\<lambda>payloads s.
             let validPayloads = filter (\<lambda>p. \<not> sp_expiresAt p < now \<and> \<not> isInFlight (sp_id p) s) payloads;
                 result = take batchSize validPayloads;
                 s1 = (if bc_preserveOrder cfg then fold (\<lambda>p. markInFlight (sp_id p)) result s else s);
                 s2 = fold (\<lambda>p. markAsFailed ops now (sp_id p) ''Payload expired before batch submission'' 1)
                        (filter (\<lambda>p. sp_expiresAt p < now) payloads) s1
             in (Inr result, s2)))"

text \<open>One pass over the rows found, in their order.\<close>

fun validate_rows ::
  "'db payload_ops \<Rightarrow> timestamp \<Rightarrow> signed_payload list \<Rightarrow> 'db batch_service \<Rightarrow> signed_payload list \<times> 'db batch_service" where
  "validate_rows ops now [] s = ([], s)"
| "validate_rows ops now (p # ps) s =
     (if sp_expiresAt p < now then validate_rows ops now ps (markAsFailed ops now (sp_id p) ''Payload expired'' 1 s)
      else if sp_status p = CONFIRMED \<or> sp_status p = SUBMITTED then validate_rows ops now ps s
      else if sp_signature p = [] then validate_rows ops now ps (markAsFailed ops now (sp_id p) ''Payload has no signature'' 1 s)
      else if isInFlight (sp_id p) s then validate_rows ops now ps s
      else (let (valid, s') = validate_rows ops now ps (markInFlight (sp_id p) s) in (p # valid, s')))"

definition validatePayloadsForBatch ::
  "'db payload_ops \<Rightarrow> timestamp \<Rightarrow> string list \<Rightarrow> ('db batch_service, signed_payload list) io" where
  "validatePayloadsForBatch ops now payloadIds =
     (if payloadIds = [] then io_return []
      else io_bind (b_db (po_find ops (\<lambda>p. sp_id p \<in> set payloadIds) Unordered None))
             (\<lambda>payloads s. let (valid, s') = validate_rows ops now payloads s in (Inr valid, s')))"

fun processSequentially ::
  "'db payload_ops \<Rightarrow> draws \<Rightarrow> signed_payload list \<Rightarrow> 'db batch_service \<Rightarrow> submission_result list \<times> 'db batch_service" where
  "processSequentially ops dr [] s = ([], s)"
| "processSequentially ops dr (p # ps) s =
     (let now = dr_now dr (sp_id p) 1;
          (r, s1) = (case submitPayload_b ops now (dr_hash dr (sp_id p) 1) p s of
              (Inr transactionHash, s') \<Rightarrow> (succeeded (sp_id p) (Some transactionHash) 1, s')
            | (Inl e, s') \<Rightarrow> (failed_result (sp_id p) (Some (error_message e)) (categorizeFailure e) 1,
                              markAsFailed ops now (sp_id p) (error_message e) 1 s'));
          (rs, s2) = processSequentially ops dr ps (wait_ms 100 s1)
      in (r # rs, s2))"

text \<open>The saves are issued for all payloads in order; the failures are recorded when all are settled.\<close>

fun settle_all ::
  "'db payload_ops \<Rightarrow> draws \<Rightarrow> signed_payload list \<Rightarrow> 'db batch_service \<Rightarrow> string result list \<times> 'db batch_service" where
  "settle_all ops dr [] s = ([], s)"
| "settle_all ops dr (p # ps) s =
     (let (r, s1) = submitPayload_b ops (dr_now dr (sp_id p) 1) (dr_hash dr (sp_id p) 1) p s;
          (rs, s2) = settle_all ops dr ps s1
      in (r # rs, s2))"

fun collect_results ::
  "'db payload_ops \<Rightarrow> draws \<Rightarrow> (signed_payload \<times> string result) list \<Rightarrow> 'db batch_service \<Rightarrow>
   submission_result list \<times> 'db batch_service" where
  "collect_results ops dr [] s = ([], s)"
| "collect_results ops dr ((p, r) # prs) s =
     (let (x, s1) = (case r of
              Inr transactionHash \<Rightarrow> (succeeded (sp_id p) (Some transactionHash) 1, s)
            | Inl e \<Rightarrow> (failed_result (sp_id p) (Some (error_message e)) (categorizeFailure e) 1,
                        markAsFailed ops (dr_now dr (sp_id p) 1) (sp_id p) (error_message e) 1 s));
          (xs, s2) = collect_results ops dr prs s1
      in (x # xs, s2))"

definition processConcurrently ::
  "'db payload_ops \<Rightarrow> draws \<Rightarrow> signed_payload list \<Rightarrow> 'db batch_service \<Rightarrow> submission_result list \<times> 'db batch_service" where
  "processConcurrently ops dr payloads s =
     (let (rs, s1) = settle_all ops dr payloads s in collect_results ops dr (zip payloads rs) s1)"

definition processBatch ::
  "'db payload_ops \<Rightarrow> batch_config \<Rightarrow> draws \<Rightarrow> timestamp \<Rightarrow> string list \<Rightarrow> string \<Rightarrow>
   ('db batch_service, batch_submission_result) io" where
  "processBatch ops cfg dr now payloadIds batchId =
     io_bind (validatePayloadsForBatch ops now payloadIds) (\<lambda>payloads s.
       if payloads = [] then (Inr (batch_summary batchId 0 []), s)
       else (let (results, s1) = (if bc_preserveOrder cfg then processSequentially ops dr payloads s
                                  else processConcurrently ops dr payloads s);
                 s2 = fold (\<lambda>p. clearInFlight (sp_id p)) payloads s1
             in (Inr (batch_summary batchId (int (length payloads)) results), s2)))"

section \<open>Retries\<close>

text \<open>What the body of the \<open>try\<close> does: it returns a result, or throws.\<close>

definition try_payload ::
  "'db payload_ops \<Rightarrow> draws \<Rightarrow> string \<Rightarrow> int \<Rightarrow> ('db batch_service, submission_result) io" where
  "try_payload ops dr payloadId attempt =
     io_bind (b_db (po_findOne ops payloadId)) (\<lambda>found.
       case found of
         None \<Rightarrow> io_return (failed_result payloadId (Some ''Payload not found'') PERMANENT attempt)
       | Some p \<Rightarrow>
           if sp_status p = CONFIRMED \<or> sp_status p = SUBMITTED
           then io_return (succeeded payloadId (if truthy (sp_transactionHash p) then sp_transactionHash p else None) attempt)
           else if sp_status p = FAILED \<and> \<not> isRetryableError (nullish (sp_errorMessage p) [])
           then io_return (failed_result payloadId (sp_errorMessage p) PERMANENT attempt)
           else io_bind (submitPayload_b ops (dr_now dr payloadId attempt) (dr_hash dr payloadId attempt) p)
                  (\<lambda>transactionHash s. (Inr (succeeded payloadId (Some transactionHash) attempt), clearInFlight payloadId s)))"

fun retry_loop ::
  "'db payload_ops \<Rightarrow> batch_config \<Rightarrow> draws \<Rightarrow> string \<Rightarrow> int \<Rightarrow> nat \<Rightarrow> int \<Rightarrow> string option \<Rightarrow> 'db batch_service \<Rightarrow>
   submission_result \<times> 'db batch_service" where
  "retry_loop ops cfg dr payloadId attempts 0 attempt lastError s =
     (failed_result payloadId (Some (if truthy lastError then nullish lastError [] else ''Unknown error'')) RETRYABLE attempts,
      clearInFlight payloadId s)"
| "retry_loop ops cfg dr payloadId attempts (Suc n) attempt lastError s =
     (case try_payload ops dr payloadId attempt s of
        (Inr r, s') \<Rightarrow> (r, s')
      | (Inl e, s') \<Rightarrow>
          (let failureType = categorizeFailure e
           in if failureType \<noteq> RETRYABLE \<or> attempt \<ge> attempts
              then (failed_result payloadId (Some (error_message e)) failureType attempt,
                    clearInFlight payloadId
                      (markAsFailed ops (dr_now dr payloadId attempt) payloadId (error_message e) attempt s'))
              else retry_loop ops cfg dr payloadId attempts n (attempt + 1) (Some (error_message e))
                     (wait_ms (calculateRetryDelay cfg attempt) s')))"

definition processWithRetry ::
  "'db payload_ops \<Rightarrow> batch_config \<Rightarrow> draws \<Rightarrow> string \<Rightarrow> int option \<Rightarrow> 'db batch_service \<Rightarrow>
   submission_result \<times> 'db batch_service" where
  "processWithRetry ops cfg dr payloadId maxRetries s =
     (let attempts = nullish maxRetries (bc_maxRetries cfg)
      in retry_loop ops cfg dr payloadId attempts (nat attempts) 1 None s)"

definition retryable_row :: "batch_config \<Rightarrow> timestamp \<Rightarrow> signed_payload \<Rightarrow> bool" where
  "retryable_row cfg now p \<longleftrightarrow> isRetryableError (nullish (sp_errorMessage p) []) \<and>
     sp_submissionAttempts p < bc_maxRetries cfg \<and> sp_updatedAt p > now - 24 * 60 * 60 * 1000"

definition getRetryablePayloads ::
  "'db payload_ops \<Rightarrow> batch_config \<Rightarrow> timestamp \<Rightarrow> nat option \<Rightarrow> ('db batch_service, signed_payload list) io" where
  "getRetryablePayloads ops cfg now limit =
     (let size = (case limit of None \<Rightarrow> bc_batchSize cfg | Some n \<Rightarrow> if n = 0 then bc_batchSize cfg else n)
      in io_bind (b_db (po_find ops (\<lambda>p. sp_status p = FAILED) UpdatedAsc (Some size)))
           (\<lambda>payloads. io_return (filter (retryable_row cfg now) payloads)))"

fun retry_each ::
  "'db payload_ops \<Rightarrow> batch_config \<Rightarrow> draws \<Rightarrow> signed_payload list \<Rightarrow> 'db batch_service \<Rightarrow> submission_result list \<times> 'db batch_service" where
  "retry_each ops cfg dr [] s = ([], s)"
| "retry_each ops cfg dr (p # ps) s =
     (let (r, s1) = processWithRetry ops cfg dr (sp_id p) None s; (rs, s2) = retry_each ops cfg dr ps s1 in (r # rs, s2))"

text \<open>A pause of 500 ms separates two chunks.\<close>

function retry_chunks ::
  "'db payload_ops \<Rightarrow> batch_config \<Rightarrow> draws \<Rightarrow> nat \<Rightarrow> signed_payload list \<Rightarrow> 'db batch_service \<Rightarrow>
   submission_result list \<times> 'db batch_service" where
  "retry_chunks ops cfg dr k ps s =
     (if ps = [] \<or> k = 0 then ([], s)
      else (let (rs, s1) = retry_each ops cfg dr (take k ps) s;
                s2 = (if k < length ps then wait_ms 500 s1 else s1);
                (rs', s3) = retry_chunks ops cfg dr k (drop k ps) s2
            in (rs @ rs', s3)))"
  by pat_completeness auto
termination by (relation "measure (\<lambda>(_, _, _, _, ps, _). length ps)") auto

definition retryFailedPayloads ::
  "'db payload_ops \<Rightarrow> batch_config \<Rightarrow> draws \<Rightarrow> timestamp \<Rightarrow> string list option \<Rightarrow> nat option \<Rightarrow> string \<Rightarrow>
   ('db batch_service, batch_submission_result) io" where
  "retryFailedPayloads ops cfg dr now payloadIds maxConcurrent batchId =
     io_bind (case payloadIds of
         Some (i # is) \<Rightarrow> b_db (po_find ops (\<lambda>p. sp_id p \<in> set (i # is)) Unordered None)
       | _ \<Rightarrow> getRetryablePayloads ops cfg now None)
       (\<lambda>payloads s.
         if payloads = [] then (Inr (batch_summary batchId 0 []), s)
         else (let k = (case maxConcurrent of None \<Rightarrow> 5 | Some n \<Rightarrow> if n = 0 then 5 else n);
                   (results, s') = retry_chunks ops cfg dr k payloads s
               in (Inr (batch_summary batchId (int (length payloads)) results), s')))"

text \<open>The SQL pattern \<open>%network%timeout%\<close>.\<close>

fun like_network_timeout :: "string \<Rightarrow> bool" where
  "like_network_timeout [] = False"
| "like_network_timeout (c # m) =
     (if startsWith (c # m) ''network'' then includes_str (drop 7 (c # m)) ''timeout'' else like_network_timeout m)"

record batch_stats =
  bt_pendingPayloads :: int
  bt_inFlightPayloads :: int
  bt_retryableFailures :: int
  bt_permanentFailures :: int
  bt_batchSize :: nat
  bt_maxRetries :: int

definition getBatchStats :: "'db payload_ops \<Rightarrow> batch_config \<Rightarrow> ('db batch_service, batch_stats) io" where
  "getBatchStats ops cfg =
     io_bind (b_db (po_count ops (\<lambda>p. sp_status p = PENDING))) (\<lambda>pending.
     io_bind (b_db (po_count ops (\<lambda>p. sp_status p = FAILED \<and>
                      (case sp_errorMessage p of None \<Rightarrow> False | Some m \<Rightarrow> like_network_timeout m)))) (\<lambda>retryable.
     io_bind (b_db (po_count ops (\<lambda>p. sp_status p = FAILED))) (\<lambda>permanent s.
       (Inr \<lparr>bt_pendingPayloads = pending, bt_inFlightPayloads = int (length (bs_inFlight s)), bt_retryableFailures = retryable,
             bt_permanentFailures = permanent - retryable, bt_batchSize = bc_batchSize cfg, bt_maxRetries = bc_maxRetries cfg\<rparr>, s))))"

section \<open>Specification\<close>

text \<open>A reported success is in the table: the row is submitted, signed, and has the reported hash.\<close>

definition delivered ::
  "('db \<Rightarrow> string \<Rightarrow> signed_payload option) \<Rightarrow> 'db batch_service \<Rightarrow> submission_result \<Rightarrow> bool" where
  "delivered rows s x \<longleftrightarrow> (re_success x \<longrightarrow> (\<exists>q h. rows (bs_db s) (re_payloadId x) = Some q \<and> sp_status q = SUBMITTED \<and>
     sp_transactionHash q = Some h \<and> re_transactionHash x = Some h \<and> sp_signature q \<noteq> []))"

section \<open>Facts\<close>

lemma b_db_simps [simp]:
  "fst (b_db f s) = fst (f (bs_db s))" "bs_db (snd (b_db f s)) = snd (f (bs_db s))"
  "bs_inFlight (snd (b_db f s)) = bs_inFlight s"
  by (simp_all add: b_db_def split: prod.splits)

lemma batch_state_simps [simp]:
  "bs_db (wait_ms ms s) = bs_db s" "bs_db (markInFlight i s) = bs_db s" "bs_db (clearInFlight i s) = bs_db s"
  "bs_inFlight (wait_ms ms s) = bs_inFlight s"
  by (simp_all add: wait_ms_def markInFlight_def clearInFlight_def)

lemma isInFlight_simps [simp]:
  "isInFlight i (markInFlight j s) \<longleftrightarrow> i = j \<or> isInFlight i s" "isInFlight i (clearInFlight j s) \<longleftrightarrow> i \<noteq> j \<and> isInFlight i s"
  by (auto simp: isInFlight_def markInFlight_def clearInFlight_def)

lemma delivered_failed [simp]: "delivered rows s (failed_result i m f n)"
  by (simp add: delivered_def failed_result_def)

context payload_table
begin

text \<open>A failure mark either changes nothing, or the one row, to a failed version of what it was.\<close>

lemma mark_rows:
  "rows (bs_db (markAsFailed ops now i m n s)) = rows (bs_db s) \<or>
   (\<exists>p. rows (bs_db s) i = Some p \<and> rows (bs_db (markAsFailed ops now i m n s)) =
     (rows (bs_db s))(i \<mapsto> p\<lparr>sp_status := FAILED, sp_errorMessage := Some m, sp_submissionAttempts := n, sp_updatedAt := now\<rparr>))"
proof (cases "fst (po_findOne ops i (bs_db s))")
  case (Inr row)
  let ?db = "snd (po_findOne ops i (bs_db s))"
  show ?thesis
  proof (cases row)
    case (Some p)
    let ?p = "p\<lparr>sp_status := FAILED, sp_errorMessage := Some m, sp_submissionAttempts := n\<rparr>"
    have p: "rows (bs_db s) i = Some p" "sp_id p = i" using findOne_val [OF Inr] Some row_id by auto
    then show ?thesis
      using Inr Some findOne_rows save_failed [of now ?p ?db] save_done [of now ?p ?db]
      by (cases "fst (po_save ops now ?p ?db)") (auto simp: markAsFailed_def io_bind_eq)
  qed (use Inr findOne_rows in \<open>simp add: markAsFailed_def io_bind_eq\<close>)
qed (use findOne_rows in \<open>simp add: markAsFailed_def io_bind_eq\<close>)

lemma mark_reliable:
  assumes "reliable_saves ops" "reliable_finds ops" "rows (bs_db s) i = Some p"
  shows "rows (bs_db (markAsFailed ops now i m n s)) =
     (rows (bs_db s))(i \<mapsto> p\<lparr>sp_status := FAILED, sp_errorMessage := Some m, sp_submissionAttempts := n, sp_updatedAt := now\<rparr>)"
proof -
  let ?p = "p\<lparr>sp_status := FAILED, sp_errorMessage := Some m, sp_submissionAttempts := n\<rparr>"
  let ?db = "snd (po_findOne ops i (bs_db s))"
  obtain r' where sv: "fst (po_save ops now ?p ?db) = Inr r'" using assms(1) unfolding reliable_saves_def by blast
  show ?thesis
    using save_done [OF sv] sv row_id [OF assms(3)] assms(3) found_row [OF assms(2), of i "bs_db s"] findOne_rows [of i "bs_db s"]
    by (simp add: markAsFailed_def io_bind_eq)
qed

lemma submit_b_rows:
  "case submitPayload_b ops now h p s of
     (Inr h', s') \<Rightarrow> h' = h \<and> rows (bs_db s') = (rows (bs_db s))(sp_id p \<mapsto> p\<lparr>sp_status := SUBMITTED, sp_transactionHash := Some h,
                sp_submittedAt := Some now, sp_submissionAttempts := sp_submissionAttempts p + 1, sp_updatedAt := now\<rparr>)
   | (Inl e, s') \<Rightarrow> rows (bs_db s') = rows (bs_db s) \<and> \<not> reliable_saves ops"
proof -
  let ?p = "p\<lparr>sp_status := SUBMITTED, sp_transactionHash := Some h, sp_submittedAt := Some now, sp_submissionAttempts := sp_submissionAttempts p + 1\<rparr>"
  show ?thesis
  proof (cases "fst (po_save ops now ?p (bs_db s))")
    case (Inl e)
    then have "\<not> reliable_saves ops" unfolding reliable_saves_def by (metis Inl_Inr_False)
    then show ?thesis using Inl save_failed [OF Inl] by (simp add: submitPayload_b_def io_bind_eq)
  next
    case (Inr r)
    then show ?thesis using save_done [OF Inr] by (simp add: submitPayload_b_def io_bind_eq)
  qed
qed

lemma mark_inFlight [simp]: "bs_inFlight (markAsFailed ops now i m n s) = bs_inFlight s"
  by (auto simp: markAsFailed_def io_bind_eq split: sum.splits option.splits)

lemma mark_other: "k \<noteq> i \<Longrightarrow> rows (bs_db (markAsFailed ops now i m n s)) k = rows (bs_db s) k"
  using mark_rows [where now = now and i = i and m = m and n = n and s = s] by auto

lemma submit_b_other: "k \<noteq> sp_id p \<Longrightarrow> rows (bs_db (snd (submitPayload_b ops now h p s))) k = rows (bs_db s) k"
  using submit_b_rows [where now = now and h = h and p = p and s = s] by (auto split: prod.splits sum.splits)

lemma submit_b_inFlight [simp]: "bs_inFlight (snd (submitPayload_b ops now h p s)) = bs_inFlight s"
  by (auto simp: submitPayload_b_def io_bind_eq split: sum.splits)

lemma submit_b_delivers:
  "submitPayload_b ops now h p s = (Inr h', s') \<Longrightarrow> sp_signature p \<noteq> [] \<Longrightarrow> delivered rows s' (succeeded (sp_id p) (Some h') n)"
  using submit_b_rows [where now = now and h = h and p = p and s = s] by (auto simp: delivered_def succeeded_def)

lemma sequential_results:
  assumes "distinct (map sp_id ps)" "\<forall>p \<in> set ps. sp_signature p \<noteq> []" "processSequentially ops dr ps s = (rs, s')"
  shows "map re_payloadId rs = map sp_id ps" "\<forall>x \<in> set rs. delivered rows s' x" "bs_inFlight s' = bs_inFlight s"
    "k \<notin> sp_id ` set ps \<Longrightarrow> rows (bs_db s') k = rows (bs_db s) k"
proof -
  have "map re_payloadId rs = map sp_id ps \<and> (\<forall>x \<in> set rs. delivered rows s' x) \<and> bs_inFlight s' = bs_inFlight s \<and>
    (\<forall>k. k \<notin> sp_id ` set ps \<longrightarrow> rows (bs_db s') k = rows (bs_db s) k)"
    using assms
  proof (induction ps arbitrary: s rs s')
    case (Cons p ps)
    let ?now = "dr_now dr (sp_id p) 1" and ?h = "dr_hash dr (sp_id p) 1"
    obtain o1 s1 where sub: "submitPayload_b ops ?now ?h p s = (o1, s1)" by (cases "submitPayload_b ops ?now ?h p s")
    define s2 where "s2 = (case o1 of Inr _ \<Rightarrow> s1 | Inl e \<Rightarrow> markAsFailed ops ?now (sp_id p) (error_message e) 1 s1)"
    define x where "x = (case o1 of Inr h \<Rightarrow> succeeded (sp_id p) (Some h) 1
       | Inl e \<Rightarrow> failed_result (sp_id p) (Some (error_message e)) (categorizeFailure e) 1)"
    obtain ys s3 where rest: "processSequentially ops dr ps (wait_ms 100 s2) = (ys, s3)" by (cases "processSequentially ops dr ps (wait_ms 100 s2)")
    have out: "rs = x # ys" "s' = s3"
      using Cons.prems(3) sub rest by (auto simp: Let_def x_def s2_def split: sum.splits prod.splits)
    have ih: "map re_payloadId ys = map sp_id ps" "\<forall>x \<in> set ys. delivered rows s3 x" "bs_inFlight s3 = bs_inFlight s2"
      "\<And>k. k \<notin> sp_id ` set ps \<Longrightarrow> rows (bs_db s3) k = rows (bs_db s2) k"
      using Cons.IH [of "wait_ms 100 s2" ys s3] Cons.prems(1,2) rest by auto
    have s2: "bs_inFlight s2 = bs_inFlight s" "\<And>k. k \<noteq> sp_id p \<Longrightarrow> rows (bs_db s2) k = rows (bs_db s) k"
      using submit_b_inFlight [where now = ?now and h = ?h and p = p and s = s] submit_b_other [where now = ?now and h = ?h and p = p and s = s] sub
      by (auto simp: s2_def mark_other split: sum.splits)
    have x: "re_payloadId x = sp_id p" by (auto simp: x_def succeeded_def failed_result_def split: sum.splits)
    have "delivered rows s2 x"
      using submit_b_delivers [where now = ?now and h = ?h and p = p and s = s] sub Cons.prems(2)
      by (auto simp: x_def s2_def failed_result_def delivered_def split: sum.splits)
    moreover have "rows (bs_db s3) (sp_id p) = rows (bs_db s2) (sp_id p)" using ih(4) Cons.prems(1) by auto
    ultimately have "delivered rows s3 x" using x by (simp add: delivered_def)
    then show ?case using out ih s2 x by auto
  qed simp
  then show "map re_payloadId rs = map sp_id ps" "\<forall>x \<in> set rs. delivered rows s' x" "bs_inFlight s' = bs_inFlight s"
    "k \<notin> sp_id ` set ps \<Longrightarrow> rows (bs_db s') k = rows (bs_db s) k" by auto
qed

lemma settle_results:
  assumes "distinct (map sp_id ps)" "\<forall>p \<in> set ps. sp_signature p \<noteq> []" "settle_all ops dr ps s = (rs, s')"
  shows "length rs = length ps \<and> bs_inFlight s' = bs_inFlight s \<and>
    (\<forall>p h. (p, Inr h) \<in> set (zip ps rs) \<longrightarrow> delivered rows s' (succeeded (sp_id p) (Some h) 1)) \<and>
    (\<forall>k. k \<notin> sp_id ` set ps \<longrightarrow> rows (bs_db s') k = rows (bs_db s) k)"
  using assms
proof (induction ps arbitrary: s rs s')
  case (Cons p ps)
  let ?now = "dr_now dr (sp_id p) 1" and ?h = "dr_hash dr (sp_id p) 1"
  obtain o1 s1 where sub: "submitPayload_b ops ?now ?h p s = (o1, s1)" by (cases "submitPayload_b ops ?now ?h p s")
  obtain rs' s2 where rest: "settle_all ops dr ps s1 = (rs', s2)" by (cases "settle_all ops dr ps s1")
  have out: "rs = o1 # rs'" "s' = s2" using Cons.prems(3) sub rest by auto
  have ih: "length rs' = length ps" "bs_inFlight s2 = bs_inFlight s1"
    "\<And>p h. (p, Inr h) \<in> set (zip ps rs') \<Longrightarrow> delivered rows s2 (succeeded (sp_id p) (Some h) 1)"
    "\<And>k. k \<notin> sp_id ` set ps \<Longrightarrow> rows (bs_db s2) k = rows (bs_db s1) k"
    using Cons.IH [of s1 rs' s2] Cons.prems(1,2) rest by auto
  have s1: "bs_inFlight s1 = bs_inFlight s" "\<And>k. k \<noteq> sp_id p \<Longrightarrow> rows (bs_db s1) k = rows (bs_db s) k"
    using submit_b_inFlight [where now = ?now and h = ?h and p = p and s = s]
      submit_b_other [where now = ?now and h = ?h and p = p and s = s] sub by auto
  have "rows (bs_db s2) (sp_id p) = rows (bs_db s1) (sp_id p)" using ih(4) Cons.prems(1) by auto
  then have "o1 = Inr h \<Longrightarrow> delivered rows s2 (succeeded (sp_id p) (Some h) 1)" for h
    using submit_b_delivers [where now = ?now and h = ?h and p = p and s = s] sub Cons.prems(2)
    by (force simp: delivered_def succeeded_def)
  then show ?case using out ih s1 by auto
qed simp

lemma collect_spec:
  assumes "distinct (map (\<lambda>(p, r). sp_id p) prs)" "collect_results ops dr prs s = (xs, s')"
    and "\<forall>p h. (p, Inr h) \<in> set prs \<longrightarrow> delivered rows s (succeeded (sp_id p) (Some h) 1)"
  shows "map re_payloadId xs = map (\<lambda>(p, r). sp_id p) prs \<and> bs_inFlight s' = bs_inFlight s \<and>
    (\<forall>x \<in> set xs. delivered rows s' x) \<and> (\<forall>k. k \<notin> (\<lambda>(p, r). sp_id p) ` set prs \<longrightarrow> rows (bs_db s') k = rows (bs_db s) k)"
  using assms
proof (induction prs arbitrary: s xs s')
  case (Cons pr prs)
  obtain p r where pr: "pr = (p, r)" by (cases pr)
  let ?now = "dr_now dr (sp_id p) 1"
  define s1 where "s1 = (case r of Inr _ \<Rightarrow> s | Inl e \<Rightarrow> markAsFailed ops ?now (sp_id p) (error_message e) 1 s)"
  define x where "x = (case r of Inr h \<Rightarrow> succeeded (sp_id p) (Some h) 1
     | Inl e \<Rightarrow> failed_result (sp_id p) (Some (error_message e)) (categorizeFailure e) 1)"
  obtain ys s2 where rest: "collect_results ops dr prs s1 = (ys, s2)" by (cases "collect_results ops dr prs s1")
  have out: "xs = x # ys" "s' = s2" using Cons.prems(2) rest by (auto simp: pr Let_def x_def s1_def split: sum.splits)
  have s1: "bs_inFlight s1 = bs_inFlight s" "\<And>k. k \<noteq> sp_id p \<Longrightarrow> rows (bs_db s1) k = rows (bs_db s) k"
    by (auto simp: s1_def mark_other split: sum.splits)
  have "delivered rows s1 (succeeded (sp_id q) (Some h) 1)" if "(q, Inr h) \<in> set prs" for q h
  proof -
    have "sp_id q \<noteq> sp_id p" using Cons.prems(1) that by (force simp: pr)
    then show ?thesis using Cons.prems(3) that s1(2) by (auto simp: pr delivered_def succeeded_def)
  qed
  then have ih: "map re_payloadId ys = map (\<lambda>(p, r). sp_id p) prs" "bs_inFlight s2 = bs_inFlight s1" "\<forall>x \<in> set ys. delivered rows s2 x"
    "\<And>k. k \<notin> (\<lambda>(p, r). sp_id p) ` set prs \<Longrightarrow> rows (bs_db s2) k = rows (bs_db s1) k"
    using Cons.IH [OF _ rest] Cons.prems(1) by auto
  have x: "re_payloadId x = sp_id p" by (auto simp: x_def succeeded_def failed_result_def split: sum.splits)
  have "delivered rows s1 x" using Cons.prems(3) by (auto simp: x_def s1_def pr split: sum.splits)
  moreover have "rows (bs_db s2) (sp_id p) = rows (bs_db s1) (sp_id p)" using ih(4) Cons.prems(1) by (auto simp: pr)
  ultimately have "delivered rows s2 x" using x by (simp add: delivered_def)
  then show ?case using out ih s1 x by (auto simp: pr)
qed simp

lemma concurrent_results:
  assumes "distinct (map sp_id ps)" "\<forall>p \<in> set ps. sp_signature p \<noteq> []" "processConcurrently ops dr ps s = (rs, s')"
  shows "map re_payloadId rs = map sp_id ps" "\<forall>x \<in> set rs. delivered rows s' x" "bs_inFlight s' = bs_inFlight s"
    "k \<notin> sp_id ` set ps \<Longrightarrow> rows (bs_db s') k = rows (bs_db s) k"
proof -
  obtain os s1 where st: "settle_all ops dr ps s = (os, s1)" by (cases "settle_all ops dr ps s")
  note sr = settle_results [OF assms(1,2) st]
  then have ids: "map (\<lambda>(p, r). sp_id p) (zip ps os) = map sp_id ps"
    by (auto simp: list_eq_iff_nth_eq)
  have "collect_results ops dr (zip ps os) s1 = (rs, s')" using assms(3) st by (simp add: processConcurrently_def)
  from collect_spec [OF _ this] sr ids assms(1)
  have c: "map re_payloadId rs = map sp_id ps \<and> bs_inFlight s' = bs_inFlight s1 \<and> (\<forall>x \<in> set rs. delivered rows s' x) \<and>
      (\<forall>k. k \<notin> (\<lambda>(p, r). sp_id p) ` set (zip ps os) \<longrightarrow> rows (bs_db s') k = rows (bs_db s1) k)" by simp
  moreover have "(\<lambda>(p, r). sp_id p) ` set (zip ps os) = sp_id ` set ps" using ids by (metis set_map)
  ultimately show "map re_payloadId rs = map sp_id ps" "\<forall>x \<in> set rs. delivered rows s' x" "bs_inFlight s' = bs_inFlight s"
    "k \<notin> sp_id ` set ps \<Longrightarrow> rows (bs_db s') k = rows (bs_db s) k" using sr by auto
qed

text \<open>What the validation lets through, and what it does to the table.\<close>

lemma validate_spec:
  assumes "distinct (map sp_id ps)" "validate_rows ops now ps s = (valid, s')"
  shows "set valid \<subseteq> set ps \<and> distinct (map sp_id valid) \<and> (\<forall>p \<in> set valid. sp_signature p \<noteq> [] \<and> now \<le> sp_expiresAt p \<and>
      sp_status p \<notin> {CONFIRMED, SUBMITTED} \<and> \<not> isInFlight (sp_id p) s) \<and>
    (\<forall>k. isInFlight k s' \<longleftrightarrow> isInFlight k s \<or> k \<in> sp_id ` set valid) \<and>
    (\<forall>k. k \<notin> sp_id ` set ps \<or> k \<in> sp_id ` set valid \<longrightarrow> rows (bs_db s') k = rows (bs_db s) k)"
  using assms
proof (induction ps arbitrary: s valid s')
  case (Cons p ps)
  have dist: "distinct (map sp_id ps)" "sp_id p \<notin> sp_id ` set ps" using Cons.prems(1) by auto
  have skip: ?case if t: "validate_rows ops now ps t = (valid, s')" and same: "\<And>k. isInFlight k t = isInFlight k s"
    "\<And>k. k \<noteq> sp_id p \<Longrightarrow> rows (bs_db t) k = rows (bs_db s) k" for t
    using Cons.IH [OF dist(1) t] same dist(2) by (auto, (metis image_eqI subsetD)+)
  have mark: "isInFlight k (markAsFailed ops now i m n s) = isInFlight k s" for k i m n by (simp add: isInFlight_def)
  consider (expired) "sp_expiresAt p < now" | (settled) "\<not> sp_expiresAt p < now" "sp_status p = CONFIRMED \<or> sp_status p = SUBMITTED"
    | (unsigned) "\<not> sp_expiresAt p < now" "\<not> (sp_status p = CONFIRMED \<or> sp_status p = SUBMITTED)" "sp_signature p = []"
    | (flying) "\<not> sp_expiresAt p < now" "\<not> (sp_status p = CONFIRMED \<or> sp_status p = SUBMITTED)" "sp_signature p \<noteq> []" "isInFlight (sp_id p) s"
    | (ok) "\<not> sp_expiresAt p < now" "\<not> (sp_status p = CONFIRMED \<or> sp_status p = SUBMITTED)" "sp_signature p \<noteq> []" "\<not> isInFlight (sp_id p) s"
    by blast
  then show ?case
  proof cases
    case expired
    then show ?thesis
      using Cons.prems(2) by (intro skip [of "markAsFailed ops now (sp_id p) ''Payload expired'' 1 s"]) (auto simp: mark mark_other)
  next
    case settled
    then show ?thesis using Cons.prems(2) by (intro skip [of s]) auto
  next
    case unsigned
    then show ?thesis
      using Cons.prems(2) by (intro skip [of "markAsFailed ops now (sp_id p) ''Payload has no signature'' 1 s"]) (auto simp: mark mark_other)
  next
    case flying
    then show ?thesis using Cons.prems(2) by (intro skip [of s]) auto
  next
    case ok
    obtain vs t where t: "validate_rows ops now ps (markInFlight (sp_id p) s) = (vs, t)"
      by (cases "validate_rows ops now ps (markInFlight (sp_id p) s)")
    have "valid = p # vs" "s' = t" using Cons.prems(2) t ok by auto
    then show ?thesis using Cons.IH [OF dist(1) t] dist(2) ok by auto
  qed
qed auto

lemma fold_clear [simp]:
  "isInFlight k (fold (\<lambda>p. clearInFlight (sp_id p)) ps s) \<longleftrightarrow> isInFlight k s \<and> k \<notin> sp_id ` set ps"
  "bs_db (fold (\<lambda>p. clearInFlight (sp_id p)) ps s) = bs_db s"
  by (induction ps arbitrary: s) auto

lemma validate_payloads:
  assumes "validatePayloadsForBatch ops now ids s = (Inr valid, s1)"
  shows "distinct (map sp_id valid)" "sp_id ` set valid \<subseteq> set ids"
    "\<forall>p \<in> set valid. sp_signature p \<noteq> [] \<and> now \<le> sp_expiresAt p \<and> sp_status p \<notin> {CONFIRMED, SUBMITTED} \<and> \<not> isInFlight (sp_id p) s"
    "isInFlight k s1 \<longleftrightarrow> isInFlight k s \<or> k \<in> sp_id ` set valid" "k \<notin> set ids \<Longrightarrow> rows (bs_db s1) k = rows (bs_db s) k"
proof -
  have "distinct (map sp_id valid) \<and> sp_id ` set valid \<subseteq> set ids \<and>
    (\<forall>p \<in> set valid. sp_signature p \<noteq> [] \<and> now \<le> sp_expiresAt p \<and> sp_status p \<notin> {CONFIRMED, SUBMITTED} \<and> \<not> isInFlight (sp_id p) s) \<and>
    (\<forall>k. isInFlight k s1 \<longleftrightarrow> isInFlight k s \<or> k \<in> sp_id ` set valid) \<and> (\<forall>k. k \<notin> set ids \<longrightarrow> rows (bs_db s1) k = rows (bs_db s) k)"
  proof (cases "ids = []")
    case False
    let ?P = "\<lambda>p. sp_id p \<in> set ids"
    obtain rs where rs: "fst (po_find ops ?P Unordered None (bs_db s)) = Inr rs"
      using assms False by (auto simp: validatePayloadsForBatch_def io_bind_eq split: sum.splits)
    define t where "t = snd (b_db (po_find ops ?P Unordered None) s)"
    have t: "rows (bs_db t) = rows (bs_db s)" "bs_inFlight t = bs_inFlight s" by (simp_all add: t_def find_rows)
    have "validate_rows ops now rs t = (valid, s1)"
      using assms False rs by (auto simp: validatePayloadsForBatch_def io_bind_eq t_def split: prod.splits)
    from validate_spec [OF find_distinct [OF rs] this] show ?thesis
      using find_sound [OF rs] t by (auto simp: isInFlight_def) (metis imageE)
  qed (use assms in \<open>auto simp: validatePayloadsForBatch_def\<close>)
  then show "distinct (map sp_id valid)" "sp_id ` set valid \<subseteq> set ids"
    "\<forall>p \<in> set valid. sp_signature p \<noteq> [] \<and> now \<le> sp_expiresAt p \<and> sp_status p \<notin> {CONFIRMED, SUBMITTED} \<and> \<not> isInFlight (sp_id p) s"
    "isInFlight k s1 \<longleftrightarrow> isInFlight k s \<or> k \<in> sp_id ` set valid" "k \<notin> set ids \<Longrightarrow> rows (bs_db s1) k = rows (bs_db s) k" by auto
qed

lemma batch_accounts_spec:
  assumes "processBatch ops cfg dr now ids b s = (Inr r, s')"
  shows "br_totalPayloads r = int (length (br_results r)) \<and> br_totalPayloads r = br_successfulPayloads r + br_failedPayloads r \<and>
    distinct (map re_payloadId (br_results r)) \<and> set (map re_payloadId (br_results r)) \<subseteq> set ids \<and>
    (\<forall>x \<in> set (br_results r). delivered rows s' x \<and> \<not> isInFlight (re_payloadId x) s \<and> \<not> isInFlight (re_payloadId x) s') \<and>
    (\<forall>k. k \<notin> set ids \<longrightarrow> rows (bs_db s') k = rows (bs_db s) k)"
proof -
  obtain valid s1 where v: "validatePayloadsForBatch ops now ids s = (Inr valid, s1)"
    using assms by (cases "validatePayloadsForBatch ops now ids s") (auto simp: processBatch_def io_bind_def split: sum.splits)
  note vp = validate_payloads [OF v]
  show ?thesis
  proof (cases "valid = []")
    case True
    then show ?thesis using assms v vp by (auto simp: processBatch_def io_bind_def batch_summary_def)
  next
    case False
    obtain xs s2 where run: "(if bc_preserveOrder cfg then processSequentially ops dr valid s1 else processConcurrently ops dr valid s1) = (xs, s2)"
      by (meson surj_pair)
    have sg: "\<forall>p \<in> set valid. sp_signature p \<noteq> []" using vp(3) by blast
    have res: "map re_payloadId xs = map sp_id valid" "\<forall>x \<in> set xs. delivered rows s2 x"
      "\<And>k. k \<notin> sp_id ` set valid \<Longrightarrow> rows (bs_db s2) k = rows (bs_db s1) k"
      using sequential_results [OF vp(1) sg] concurrent_results [OF vp(1) sg] run by (auto split: if_splits)
    have r: "r = batch_summary b (int (length valid)) xs" "s' = fold (\<lambda>p. clearInFlight (sp_id p)) valid s2"
      using assms v False run by (auto simp: processBatch_def io_bind_def)
    have len: "length xs = length valid" using res(1) map_eq_imp_length_eq by blast
    have ids: "re_payloadId x \<in> sp_id ` set valid" if "x \<in> set xs" for x using res(1) that by (metis image_eqI image_set)
    have "int (length xs) = int (length (filter re_success xs)) + int (length (filter (\<lambda>x. \<not> re_success x) xs))"
      using sum_length_filter_compl [of re_success xs] by linarith
    moreover have "\<forall>x \<in> set xs. delivered rows s' x \<and> \<not> isInFlight (re_payloadId x) s \<and> \<not> isInFlight (re_payloadId x) s'"
    proof
      fix x
      assume x: "x \<in> set xs"
      then obtain p where p: "p \<in> set valid" "re_payloadId x = sp_id p" using ids by blast
      have "delivered rows s' x" using res(2) x by (auto simp: r(2) delivered_def)
      then show "delivered rows s' x \<and> \<not> isInFlight (re_payloadId x) s \<and> \<not> isInFlight (re_payloadId x) s'"
        using p vp(3) by (auto simp: r(2))
    qed
    moreover have "set (map re_payloadId xs) \<subseteq> set ids" using ids vp(2) by auto
    moreover have "rows (bs_db s2) k = rows (bs_db s) k" if "k \<notin> set ids" for k
      using res(3) [of k] vp(2) vp(5) [of k] that by auto
    ultimately show ?thesis using vp res len by (auto simp: r batch_summary_def)
  qed
qed

text \<open>A payload that is already submitted is left alone by a retry.\<close>

lemma retry_leaves_submitted:
  assumes "reliable_finds ops" "rows (bs_db s) i = Some p" "sp_status p \<in> {SUBMITTED, CONFIRMED}" "0 < nullish m (bc_maxRetries cfg)"
  shows "\<exists>s'. processWithRetry ops cfg dr i m s = (succeeded i (if truthy (sp_transactionHash p) then sp_transactionHash p else None) 1, s') \<and>
    rows (bs_db s') = rows (bs_db s)"
proof -
  obtain n where n: "nat (nullish m (bc_maxRetries cfg)) = Suc n" using assms(4) by (cases "nat (nullish m (bc_maxRetries cfg))") auto
  have "fst (b_db (po_findOne ops i) s) = Inr (Some p)" using found_row [OF assms(1)] assms(2) by simp
  then show ?thesis
    using assms(3) findOne_rows by (auto simp: processWithRetry_def Let_def n try_payload_def io_bind_eq)
qed

text \<open>A pending payload, or one whose failure reads as retryable, is submitted on a reliable table.\<close>

lemma retry_submits:
  assumes "reliable_finds ops" "reliable_saves ops" "rows (bs_db s) i = Some p" "0 < nullish m (bc_maxRetries cfg)"
    and "sp_status p = PENDING \<or> sp_status p = FAILED \<and> isRetryableError (nullish (sp_errorMessage p) [])"
  shows "\<exists>s' q. processWithRetry ops cfg dr i m s = (succeeded i (Some (dr_hash dr i 1)) 1, s') \<and>
    rows (bs_db s') = (rows (bs_db s))(i \<mapsto> q) \<and> sp_status q = SUBMITTED \<and> sp_signature q = sp_signature p \<and>
    sp_expiresAt q = sp_expiresAt p \<and> sp_transactionHash q = Some (dr_hash dr i 1) \<and>
    bs_inFlight s' = Map_delete i (bs_inFlight s)"
proof -
  obtain n where n: "nat (nullish m (bc_maxRetries cfg)) = Suc n" using assms(4) by (cases "nat (nullish m (bc_maxRetries cfg))") auto
  define s1 where "s1 = snd (b_db (po_findOne ops i) s)"
  have s1: "rows (bs_db s1) = rows (bs_db s)" "bs_inFlight s1 = bs_inFlight s" by (simp_all add: s1_def findOne_rows)
  have find: "fst (b_db (po_findOne ops i) s) = Inr (Some p)" using found_row [OF assms(1)] assms(3) by simp
  have st: "\<not> (sp_status p = CONFIRMED \<or> sp_status p = SUBMITTED)" using assms(5) by auto
  let ?now = "dr_now dr i 1" and ?h = "dr_hash dr i 1"
  obtain o1 s2 where sub: "submitPayload_b ops ?now ?h p s1 = (o1, s2)" by (cases "submitPayload_b ops ?now ?h p s1")
  have "o1 = Inr ?h" and s2: "rows (bs_db s2) = (rows (bs_db s))(i \<mapsto> p\<lparr>sp_status := SUBMITTED, sp_transactionHash := Some ?h,
                sp_submittedAt := Some ?now, sp_submissionAttempts := sp_submissionAttempts p + 1, sp_updatedAt := ?now\<rparr>)"
    using submit_b_rows [where now = ?now and h = ?h and p = p and s = s1] sub assms(2) row_id [OF assms(3)] s1
    by (auto split: sum.splits)
  moreover have "bs_inFlight s2 = bs_inFlight s"
    using submit_b_inFlight [where now = ?now and h = ?h and p = p and s = s1] sub s1 by simp
  moreover have "try_payload ops dr i 1 s = io_bind (submitPayload_b ops ?now ?h p)
      (\<lambda>h s. (Inr (succeeded i (Some h) 1), clearInFlight i s)) s1"
    using find st assms(5) by (auto simp: try_payload_def io_bind_eq s1_def)
  ultimately show ?thesis
    using sub by (simp add: processWithRetry_def Let_def n io_bind_def clearInFlight_def) (rule exI, rule conjI, rule refl, simp)
qed

lemma find_single:
  assumes "reliable_finds ops" "rows db i = Some p"
  shows "fst (po_find ops (\<lambda>p. sp_id p \<in> set [i]) Unordered None db) = Inr [p]"
proof -
  obtain rs where rs: "fst (po_find ops (\<lambda>p. sp_id p \<in> set [i]) Unordered None db) = Inr rs"
    using assms(1) unfolding reliable_finds_def by blast
  have "r = p" if "r \<in> set rs" for r
    using find_sound [OF rs that] assms(2) by auto
  moreover have "p \<in> set rs" using find_all [OF rs assms(2)] row_id [OF assms(2)] by simp
  ultimately have "set rs = {p}" by blast
  moreover have "distinct rs" using find_distinct [OF rs] by (simp add: distinct_map)
  ultimately have "rs = [p]"
  proof (cases rs)
    case (Cons a as)
    then have "set as \<subseteq> {p}" "p \<notin> set as" using \<open>set rs = {p}\<close> \<open>distinct rs\<close> by auto
    then have "as = []" by (cases as) auto
    then show ?thesis using Cons \<open>set rs = {p}\<close> by simp
  qed simp
  then show ?thesis using rs by simp
qed

text \<open>The validation of unsigned pending rows marks every one of them failed.\<close>

lemma validate_unsigned:
  assumes "reliable_finds ops" "reliable_saves ops" "distinct (map sp_id ps)"
    and "\<forall>p \<in> set ps. rows (bs_db s) (sp_id p) = Some p \<and> sp_status p = PENDING \<and> sp_signature p = []"
  shows "fst (validate_rows ops now ps s) = []"
    and "\<forall>p \<in> set ps. \<exists>q. rows (bs_db (snd (validate_rows ops now ps s))) (sp_id p) = Some q \<and> sp_status q = FAILED"
proof -
  have "fst (validate_rows ops now ps s) = [] \<and>
    (\<forall>p \<in> set ps. \<exists>q. rows (bs_db (snd (validate_rows ops now ps s))) (sp_id p) = Some q \<and> sp_status q = FAILED) \<and>
    (\<forall>k. k \<notin> sp_id ` set ps \<longrightarrow> rows (bs_db (snd (validate_rows ops now ps s))) k = rows (bs_db s) k)"
    using assms(3,4)
  proof (induction ps arbitrary: s)
    case (Cons p ps)
    define m where "m = (if sp_expiresAt p < now then ''Payload expired'' else ''Payload has no signature'')"
    define t where "t = markAsFailed ops now (sp_id p) m 1 s"
    have eq: "validate_rows ops now (p # ps) s = validate_rows ops now ps t"
      using Cons.prems(2) by (simp add: t_def m_def)
    have t: "rows (bs_db t) = (rows (bs_db s))(sp_id p \<mapsto> p\<lparr>sp_status := FAILED, sp_errorMessage := Some m, sp_submissionAttempts := 1, sp_updatedAt := now\<rparr>)"
      using mark_reliable [OF assms(2,1)] Cons.prems(2) by (simp add: t_def)
    have "\<forall>q \<in> set ps. sp_id q \<noteq> sp_id p" using Cons.prems(1) by (auto simp: image_iff)
    then have "\<forall>q \<in> set ps. rows (bs_db t) (sp_id q) = Some q \<and> sp_status q = PENDING \<and> sp_signature q = []"
      using Cons.prems(2) t by simp
    from Cons.IH [OF _ this] Cons.prems(1) show ?case unfolding eq by (auto simp: t)
  qed simp
  then show "fst (validate_rows ops now ps s) = []"
    and "\<forall>p \<in> set ps. \<exists>q. rows (bs_db (snd (validate_rows ops now ps s))) (sp_id p) = Some q \<and> sp_status q = FAILED" by auto
qed

lemma fold_mark_other:
  "k \<notin> sp_id ` set ps \<Longrightarrow> rows (bs_db (fold (\<lambda>p. markAsFailed ops now (sp_id p) m n) ps s)) k = rows (bs_db s) k"
  by (induction ps arbitrary: s) (auto simp: mark_other)

lemma fold_in_flight_db [simp]: "bs_db (fold (\<lambda>p. markInFlight (sp_id p)) ps s) = bs_db s"
  by (induction ps arbitrary: s) auto

lemma selected_rows:
  assumes "getPayloadsForBatching ops cfg now limit s = (Inr ps, s1)"
  shows "distinct (map sp_id ps)"
    and "\<forall>p \<in> set ps. rows (bs_db s1) (sp_id p) = Some p \<and> sp_status p = PENDING \<and> sp_signature p = []"
proof -
  define n where "n = (case limit of None \<Rightarrow> bc_batchSize cfg | Some n \<Rightarrow> if n = 0 then bc_batchSize cfg else n)"
  let ?P = "\<lambda>p. sp_status p = PENDING \<and> sp_signature p = []"
  obtain rs where rs: "fst (po_find ops ?P CreatedAsc (Some (n * 2)) (bs_db s)) = Inr rs"
    using assms by (auto simp: getPayloadsForBatching_def io_bind_eq n_def [symmetric] Let_def split: sum.splits)
  define t where "t = snd (b_db (po_find ops ?P CreatedAsc (Some (n * 2))) s)"
  define ex where "ex = filter (\<lambda>p. sp_expiresAt p < now) rs"
  have out: "ps = take n (filter (\<lambda>p. \<not> sp_expiresAt p < now \<and> \<not> isInFlight (sp_id p) t) rs)"
    "s1 = fold (\<lambda>p. markAsFailed ops now (sp_id p) ''Payload expired before batch submission'' 1) ex
            (if bc_preserveOrder cfg then fold (\<lambda>p. markInFlight (sp_id p)) ps t else t)"
    using assms rs unfolding getPayloadsForBatching_def n_def [symmetric]
    by (auto simp: io_bind_eq Let_def t_def ex_def)
  show "distinct (map sp_id ps)"
    using distinct_filter_ids [OF find_distinct [OF rs]] by (auto simp: out(1) take_map [symmetric] intro!: distinct_take)
  show "\<forall>p \<in> set ps. rows (bs_db s1) (sp_id p) = Some p \<and> sp_status p = PENDING \<and> sp_signature p = []"
  proof
    fix p
    assume "p \<in> set ps"
    then have p: "p \<in> set rs" "\<not> sp_expiresAt p < now" by (auto simp: out(1) dest!: in_set_takeD)
    have "inj_on sp_id (set rs)" using find_distinct [OF rs] by (simp add: distinct_map)
    then have "sp_id p \<notin> sp_id ` set ex" using p by (auto simp: ex_def inj_on_def)
    then have "rows (bs_db s1) (sp_id p) = rows (bs_db s) (sp_id p)"
      by (simp add: out(2) fold_mark_other t_def find_rows)
    then show "rows (bs_db s1) (sp_id p) = Some p \<and> sp_status p = PENDING \<and> sp_signature p = []"
      using find_sound [OF rs p(1)] by simp
  qed
qed

end

section \<open>Properties\<close>

definition sample_cfg :: batch_config where
  "sample_cfg = \<lparr>bc_batchSize = 10, bc_maxRetries = 5, bc_initialRetryDelayMs = 1000, bc_maxRetryDelayMs = 60000,
     bc_retryBackoffMultiplier = 2, bc_preserveOrder = True\<rparr>"

definition sample_draws :: draws where
  "sample_draws = \<lparr>dr_now = (\<lambda>_ _. 5000), dr_hash = (\<lambda>i n. ''0x'' @ i)\<rparr>"

definition sample_batch :: "signed_payload list \<Rightarrow> string option list \<Rightarrow> mem_db batch_service" where
  "sample_batch ps faults = \<lparr>bs_inFlight = [], bs_db = \<lparr>md_rows = map (\<lambda>p. (sp_id p, p)) ps, md_faults = faults\<rparr>, bs_waits = []\<rparr>"

text \<open>
  The report of a batch is the truth, in both modes and whatever the table does: every result
  is of a requested payload, once; the totals add up; a reported success is a signed row that is
  submitted under the reported hash; no payload already in flight is processed, none processed is
  left in flight, and no other row changes.
\<close>

theorem batch_report_sound:
  assumes "payload_table ops rows" and "processBatch ops cfg dr now ids b s = (Inr r, s')"
  shows "br_totalPayloads r = int (length (br_results r)) \<and> br_totalPayloads r = br_successfulPayloads r + br_failedPayloads r \<and>
    distinct (map re_payloadId (br_results r)) \<and> set (map re_payloadId (br_results r)) \<subseteq> set ids \<and>
    (\<forall>x \<in> set (br_results r). delivered rows s' x \<and> \<not> isInFlight (re_payloadId x) s \<and> \<not> isInFlight (re_payloadId x) s') \<and>
    (\<forall>k. k \<notin> set ids \<longrightarrow> rows (bs_db s') k = rows (bs_db s) k)"
  by (rule payload_table.batch_accounts_spec [OF assms])

theorem batch_report_sound_witness:
  "case processBatch calm_ops sample_cfg sample_draws 5000 [''p1''] ''b'' (sample_batch [sample_payload] []) of (out, s') \<Rightarrow>
     (\<exists>r. out = Inr r \<and> br_totalPayloads r = 1 \<and> (\<forall>x \<in> set (br_results r). delivered mem_rows s' x))"
proof -
  obtain r s' where out: "processBatch calm_ops sample_cfg sample_draws 5000 [''p1''] ''b'' (sample_batch [sample_payload] []) = (Inr r, s')"
    and total: "br_totalPayloads r = 1"
  proof -
    have "case processBatch calm_ops sample_cfg sample_draws 5000 [''p1''] ''b'' (sample_batch [sample_payload] []) of (Inr r, s') \<Rightarrow> br_totalPayloads r = 1 | _ \<Rightarrow> False"
      by code_simp
    then show thesis using that by (auto split: prod.splits sum.splits)
  qed
  show ?thesis using batch_report_sound [OF ct_table.payload_table_axioms out] out total by simp
qed

text \<open>
  The selection for a batch takes the unsigned payloads, so a batch made of it submits nothing:
  every selected payload is marked failed instead.
\<close>

theorem selected_batch_submits_nothing:
  assumes "payload_table ops rows" and "reliable_finds ops" and "reliable_saves ops"
    and "getPayloadsForBatching ops cfg now limit s = (Inr ps, s1)"
  shows "\<exists>s2. processBatch ops cfg dr now' (map sp_id ps) b s1 = (Inr (batch_summary b 0 []), s2) \<and>
    (\<forall>p \<in> set ps. \<exists>q. rows (bs_db s2) (sp_id p) = Some q \<and> sp_status q = FAILED)"
proof (cases "ps = []")
  case True
  then show ?thesis by (simp add: processBatch_def validatePayloadsForBatch_def io_bind_eq)
next
  case False
  let ?ids = "map sp_id ps" and ?P = "\<lambda>p. sp_id p \<in> set (map sp_id ps)"
  note sel = payload_table.selected_rows [OF assms(1,4)]
  obtain rs where rs: "fst (po_find ops ?P Unordered None (bs_db s1)) = Inr rs" using assms(2) unfolding reliable_finds_def by blast
  define t where "t = snd (b_db (po_find ops ?P Unordered None) s1)"
  have t: "rows (bs_db t) = rows (bs_db s1)" by (simp add: t_def payload_table.find_rows [OF assms(1)])
  have all: "set ps \<subseteq> set rs" using payload_table.find_all [OF assms(1) rs] sel(2) by auto
  have "\<forall>p \<in> set rs. rows (bs_db t) (sp_id p) = Some p \<and> sp_status p = PENDING \<and> sp_signature p = []"
    using payload_table.find_sound [OF assms(1) rs] sel(2) t by fastforce
  note vu = payload_table.validate_unsigned [OF assms(1-3) payload_table.find_distinct [OF assms(1) rs] this, of now']
  obtain w where w: "validate_rows ops now' rs t = ([], w)" using vu(1) by (cases "validate_rows ops now' rs t") auto
  have "processBatch ops cfg dr now' ?ids b s1 = (Inr (batch_summary b 0 []), w)"
    using False rs w by (simp add: processBatch_def validatePayloadsForBatch_def io_bind_eq t_def)
  then show ?thesis using vu(2) w all by auto
qed

theorem selected_batch_submits_nothing_witness:
  "case getPayloadsForBatching calm_ops sample_cfg 5000 None (sample_batch [sample_payload\<lparr>sp_signature := []\<rparr>] []) of (out, s1) \<Rightarrow>
     out = Inr [sample_payload\<lparr>sp_signature := []\<rparr>] \<and>
     (\<exists>s2. processBatch calm_ops sample_cfg sample_draws 5000 [''p1''] ''b'' s1 = (Inr (batch_summary ''b'' 0 []), s2))"
proof -
  obtain s1 where out: "getPayloadsForBatching calm_ops sample_cfg 5000 None (sample_batch [sample_payload\<lparr>sp_signature := []\<rparr>] []) =
      (Inr [sample_payload\<lparr>sp_signature := []\<rparr>], s1)"
  proof -
    have "fst (getPayloadsForBatching calm_ops sample_cfg 5000 None (sample_batch [sample_payload\<lparr>sp_signature := []\<rparr>] [])) =
      Inr [sample_payload\<lparr>sp_signature := []\<rparr>]" by code_simp
    then show thesis using that by (metis prod.collapse)
  qed
  show ?thesis
    using selected_batch_submits_nothing [OF ct_table.payload_table_axioms calm_reliable(2,1) out,
        where dr = sample_draws and now' = 5000 and b = "''b''"] out
    by (auto simp: sample_payload_def)
qed

text \<open>
  The retry does not check what the batch checks: a payload a batch rejected for its missing
  signature is taken for a retryable failure, and the retry submits it without a signature.
\<close>

theorem retry_submits_unsigned:
  assumes "payload_table ops rows" and "reliable_finds ops" and "reliable_saves ops"
    and "rows (bs_db s) i = Some p" and "sp_status p = PENDING" and "sp_signature p = []" and "now \<le> sp_expiresAt p"
    and "0 < bc_maxRetries cfg"
  shows "case processBatch ops cfg dr now [i] b s of (out, s1) \<Rightarrow> out = Inr (batch_summary b 0 []) \<and>
    (case retryFailedPayloads ops cfg dr' now' (Some [i]) None b' s1 of (out', s2) \<Rightarrow>
      (\<exists>r q. out' = Inr r \<and> br_successfulPayloads r = 1 \<and> rows (bs_db s2) i = Some q \<and> sp_status q = SUBMITTED \<and> sp_signature q = []))"
proof -
  let ?P = "\<lambda>p. sp_id p \<in> set [i]"
  let ?m = "''Payload has no signature''"
  note single = payload_table.find_single [OF assms(1,2)]
  define t where "t = snd (b_db (po_find ops ?P Unordered None) s)"
  define s1 where "s1 = markAsFailed ops now i ?m 1 t"
  have t: "rows (bs_db t) = rows (bs_db s)" by (simp add: t_def payload_table.find_rows [OF assms(1)])
  have pi: "sp_id p = i" by (rule payload_table.row_id [OF assms(1,4)])
  define q where "q = p\<lparr>sp_status := FAILED, sp_errorMessage := Some ?m, sp_submissionAttempts := 1, sp_updatedAt := now\<rparr>"
  have q: "rows (bs_db s1) i = Some q"
    using payload_table.mark_reliable [OF assms(1,3,2)] assms(4) t by (simp add: s1_def q_def)
  have one: "processBatch ops cfg dr now [i] b s = (Inr (batch_summary b 0 []), s1)"
    using single [OF assms(4)] assms(5-7) pi
    by (simp add: processBatch_def validatePayloadsForBatch_def io_bind_eq t_def s1_def)
  define u where "u = snd (b_db (po_find ops ?P Unordered None) s1)"
  have u: "rows (bs_db u) = rows (bs_db s1)" by (simp add: u_def payload_table.find_rows [OF assms(1)])
  have rt: "isRetryableError ?m" by code_simp
  obtain s2 r where two: "processWithRetry ops cfg dr' i None u = (succeeded i (Some (dr_hash dr' i 1)) 1, s2)"
    "rows (bs_db s2) = (rows (bs_db u))(i \<mapsto> r)" "sp_status r = SUBMITTED" "sp_signature r = []"
    using payload_table.retry_submits [OF assms(1-3), of u i q None cfg dr'] q u rt assms(6,8) by (auto simp: q_def)
  have "retryFailedPayloads ops cfg dr' now' (Some [i]) None b' s1 = (Inr (batch_summary b' 1 [succeeded i (Some (dr_hash dr' i 1)) 1]), s2)"
    using single [OF q] two(1) pi by (simp add: retryFailedPayloads_def io_bind_eq u_def q_def)
  then show ?thesis using one two by (simp add: batch_summary_def succeeded_def)
qed

theorem retry_submits_unsigned_witness:
  "case processBatch calm_ops sample_cfg sample_draws 5000 [''p1''] ''b'' (sample_batch [sample_payload\<lparr>sp_signature := []\<rparr>] []) of
     (out, s1) \<Rightarrow> (case retryFailedPayloads calm_ops sample_cfg sample_draws 6000 (Some [''p1'']) None ''r'' s1 of (out', s2) \<Rightarrow>
       (\<exists>q. mem_rows (bs_db s2) ''p1'' = Some q \<and> sp_status q = SUBMITTED \<and> sp_signature q = []))"
proof -
  have "mem_rows (bs_db (sample_batch [sample_payload\<lparr>sp_signature := []\<rparr>] [])) ''p1'' = Some (sample_payload\<lparr>sp_signature := []\<rparr>)"
    by code_simp
  from retry_submits_unsigned [OF ct_table.payload_table_axioms calm_reliable(2,1) this,
      where now = 5000 and cfg = sample_cfg and dr = sample_draws and b = "''b''" and dr' = sample_draws and now' = 6000 and b' = "''r''"]
  show ?thesis by (auto simp: sample_payload_def sample_cfg_def split: prod.splits)
qed

text \<open>A run of the retry loop against a table whose lookups all time out.\<close>

lemma retry_through_faults:
  assumes "mem_rows (bs_db s) i = Some p" "md_faults (bs_db s) = replicate n (Some ''timeout'')" "attempts = attempt + int n - 1" "0 < n"
  shows "case retry_loop mem_ops cfg dr i attempts n attempt e s of (r, s') \<Rightarrow> \<not> re_success r \<and> md_faults (bs_db s') = [] \<and>
    mem_rows (bs_db s') i = Some (p\<lparr>sp_status := FAILED, sp_errorMessage := Some ''timeout'', sp_submissionAttempts := attempts,
      sp_updatedAt := dr_now dr i attempts\<rparr>)"
  using assms
proof (induction n arbitrary: attempt e s)
  case (Suc n)
  have ret: "categorizeFailure (PlainError ''timeout'') = RETRYABLE" by code_simp
  define t where "t = s\<lparr>bs_db := (bs_db s)\<lparr>md_faults := replicate n (Some ''timeout'')\<rparr>\<rparr>"
  have tr: "try_payload mem_ops dr i attempt s = (Inl (PlainError ''timeout''), t)"
    using Suc.prems(2) by (simp add: try_payload_def io_bind_eq b_db_def mem_ops_def mem_call_def t_def)
  have t: "mem_rows (bs_db t) i = Some p" "md_faults (bs_db t) = replicate n (Some ''timeout'')"
    using Suc.prems(1) by (simp_all add: t_def)
  show ?case
  proof (cases "n = 0")
    case True
    then have a: "attempt = attempts" using Suc.prems(3) by simp
    have i: "sp_id p = i" using mem_rows_id Suc.prems(1) by blast
    have "mem_rows (bs_db (markAsFailed mem_ops (dr_now dr i attempts) i ''timeout'' attempts t)) i = Some (p\<lparr>sp_status := FAILED,
      sp_errorMessage := Some ''timeout'', sp_submissionAttempts := attempts, sp_updatedAt := dr_now dr i attempts\<rparr>) \<and>
      md_faults (bs_db (markAsFailed mem_ops (dr_now dr i attempts) i ''timeout'' attempts t)) = []"
      using t True i by (simp add: markAsFailed_def io_bind_eq mem_ops_def mem_call_def Let_def b_db_def) (simp add: mem_rows_def)
    then show ?thesis using tr ret a True by (simp add: failed_result_def)
  next
    case False
    have "case retry_loop mem_ops cfg dr i attempts n (attempt + 1) (Some ''timeout'') (wait_ms (calculateRetryDelay cfg attempt) t) of
      (r, s') \<Rightarrow> \<not> re_success r \<and> md_faults (bs_db s') = [] \<and> mem_rows (bs_db s') i = Some (p\<lparr>sp_status := FAILED,
      sp_errorMessage := Some ''timeout'', sp_submissionAttempts := attempts, sp_updatedAt := dr_now dr i attempts\<rparr>)"
      using t False Suc.prems(3) by (intro Suc.IH) auto
    then show ?thesis using tr ret False Suc.prems(3) by simp
  qed
next
  case 0
  from 0(4) show ?case by simp
qed

text \<open>
  Lookups that time out undo a submission: when every lookup of a retry times out, a payload
  that is already submitted is marked failed, and the next retry submits it again under a new hash.
\<close>

theorem timeouts_undo_submission:
  assumes "sp_status p = SUBMITTED" and "0 < bc_maxRetries cfg"
  shows "case processWithRetry mem_ops cfg dr (sp_id p) None (sample_batch [p] (replicate (nat (bc_maxRetries cfg)) (Some ''timeout''))) of
    (r, s1) \<Rightarrow> \<not> re_success r \<and>
      (case processWithRetry mem_ops cfg dr' (sp_id p) None s1 of (r', s2) \<Rightarrow>
        re_success r' \<and> re_transactionHash r' = Some (dr_hash dr' (sp_id p) 1))"
proof -
  let ?n = "nat (bc_maxRetries cfg)" and ?i = "sp_id p"
  let ?s = "sample_batch [p] (replicate ?n (Some ''timeout''))"
  obtain r s1 where one: "processWithRetry mem_ops cfg dr ?i None ?s = (r, s1)" by (cases "processWithRetry mem_ops cfg dr ?i None ?s")
  define q where "q = p\<lparr>sp_status := FAILED, sp_errorMessage := Some ''timeout'', sp_submissionAttempts := bc_maxRetries cfg,
      sp_updatedAt := dr_now dr ?i (bc_maxRetries cfg)\<rparr>"
  have "mem_rows (bs_db ?s) ?i = Some p" "md_faults (bs_db ?s) = replicate ?n (Some ''timeout'')"
    by (simp_all add: sample_batch_def mem_rows_def Map_get_def)
  from retry_through_faults [OF this, where attempts = "bc_maxRetries cfg" and attempt = 1 and cfg = cfg and dr = dr and e = None] one assms(2)
  have s1: "\<not> re_success r" "md_faults (bs_db s1) = []" "mem_rows (bs_db s1) ?i = Some q"
    by (auto simp: processWithRetry_def Let_def q_def)
  have ret: "isRetryableError ''timeout''" by code_simp
  obtain n where n: "?n = Suc n" using assms(2) by (cases ?n) auto
  have "fst (try_payload mem_ops dr' ?i 1 s1) = Inr (succeeded ?i (Some (dr_hash dr' ?i 1)) 1)"
    using s1 ret by (simp add: try_payload_def io_bind_eq b_db_def mem_ops_def mem_call_def Let_def submitPayload_b_def q_def)
  then obtain s2 where "try_payload mem_ops dr' ?i 1 s1 = (Inr (succeeded ?i (Some (dr_hash dr' ?i 1)) 1), s2)"
    by (metis prod.collapse)
  then have "fst (processWithRetry mem_ops cfg dr' ?i None s1) = succeeded ?i (Some (dr_hash dr' ?i 1)) 1"
    by (simp add: processWithRetry_def Let_def n)
  then show ?thesis using one s1(1) by (auto simp: succeeded_def split: prod.splits)
qed

theorem timeouts_undo_submission_witness:
  "case processWithRetry mem_ops sample_cfg sample_draws ''p1''  None
      (sample_batch [sample_payload\<lparr>sp_status := SUBMITTED\<rparr>] (replicate (nat (bc_maxRetries sample_cfg)) (Some ''timeout''))) of
    (r, s1) \<Rightarrow> \<not> re_success r \<and> re_success (fst (processWithRetry mem_ops sample_cfg sample_draws ''p1'' None s1))"
  using timeouts_undo_submission [of "sample_payload\<lparr>sp_status := SUBMITTED\<rparr>" sample_cfg sample_draws sample_draws]
  by (auto simp: sample_payload_def sample_cfg_def split: prod.splits)

end
