(* ===== verification/Nonce_Management.thy ===== *)
theory Nonce_Management
  imports Js_Prelude
begin

text \<open>
  \<open>NonceManagementService\<close> (blockchain/oracle/services/nonce-management.service.ts). The table
  of nonces and ethers' \<open>getAddress\<close> (None when it throws) are parameters, \<open>nonce_ops\<close>. A nonce
  is the integer its decimal string stands for. The transaction of \<open>getAndIncrementNonce\<close> is
  one step; \<open>getCurrentNonce\<close> awaits the table between its look at the cache and its write to
  it, so it is also given as the two steps \<open>fetch_nonce\<close> and \<open>cache_nonce\<close>.
\<close>

record nonce_row =
  nr_address :: string
  nr_nonce :: int
  nr_lastUsedAt :: "timestamp option"

record nonce_cached =
  nc_nonce :: int
  nc_lastFetch :: timestamp

record 'db nonce_ops =
  no_getAddress :: "string \<Rightarrow> string option"
  no_findOne :: "'db \<Rightarrow> string \<Rightarrow> nonce_row option"
  no_save :: "'db \<Rightarrow> nonce_row \<Rightarrow> 'db"
  no_find :: "'db \<Rightarrow> string list \<Rightarrow> nonce_row list"
  no_delete :: "'db \<Rightarrow> (nonce_row \<Rightarrow> bool) \<Rightarrow> int \<times> 'db"

record 'db nonce_service =
  ns_cache :: "(string, nonce_cached) js_map"
  ns_db :: 'db

definition CACHE_TTL :: int where "CACHE_TTL = 60000"

definition bad_address :: http_error where
  "bad_address = PlainError ''invalid address''"

text \<open>The key of an address in the cache and in the table.\<close>

definition address_key :: "'db nonce_ops \<Rightarrow> string \<Rightarrow> string option" where
  "address_key ops address = map_option toLowerCase (no_getAddress ops address)"

definition cached_nonce :: "timestamp \<Rightarrow> string \<Rightarrow> 'db nonce_service \<Rightarrow> int option" where
  "cached_nonce now key s =
     (case Map_get key (ns_cache s) of
        Some c \<Rightarrow> if now - nc_lastFetch c < CACHE_TTL then Some (nc_nonce c) else None
      | None \<Rightarrow> None)"

text \<open>The read of the table, which creates a missing row.\<close>

definition fetch_nonce :: "'db nonce_ops \<Rightarrow> string \<Rightarrow> 'db nonce_service \<Rightarrow> int \<times> 'db nonce_service" where
  "fetch_nonce ops key s =
     (case no_findOne ops (ns_db s) key of
        Some r \<Rightarrow> (nr_nonce r, s)
      | None \<Rightarrow> (0, s\<lparr>ns_db := no_save ops (ns_db s) \<lparr>nr_address = key, nr_nonce = 0, nr_lastUsedAt = None\<rparr>\<rparr>))"

definition cache_nonce :: "timestamp \<Rightarrow> string \<Rightarrow> int \<Rightarrow> 'db nonce_service \<Rightarrow> 'db nonce_service" where
  "cache_nonce now key n s = s\<lparr>ns_cache := Map_set key \<lparr>nc_nonce = n, nc_lastFetch = now\<rparr> (ns_cache s)\<rparr>"

definition getCurrentNonce ::
  "'db nonce_ops \<Rightarrow> timestamp \<Rightarrow> string \<Rightarrow> 'db nonce_service \<Rightarrow> int result \<times> 'db nonce_service" where
  "getCurrentNonce ops now address s =
     (case address_key ops address of
        None \<Rightarrow> (Inl bad_address, s)
      | Some key \<Rightarrow>
          (case cached_nonce now key s of
             Some n \<Rightarrow> (Inr n, s)
           | None \<Rightarrow> (let (n, s') = fetch_nonce ops key s in (Inr n, cache_nonce now key n s'))))"

definition getAndIncrementNonce ::
  "'db nonce_ops \<Rightarrow> timestamp \<Rightarrow> string \<Rightarrow> 'db nonce_service \<Rightarrow> int result \<times> 'db nonce_service" where
  "getAndIncrementNonce ops now address s =
     (case address_key ops address of
        None \<Rightarrow> (Inl bad_address, s)
      | Some key \<Rightarrow>
          (let r = (case no_findOne ops (ns_db s) key of
                      Some r \<Rightarrow> r
                    | None \<Rightarrow> \<lparr>nr_address = key, nr_nonce = 0, nr_lastUsedAt = None\<rparr>);
               currentNonce = nr_nonce r
           in (Inr currentNonce,
               s\<lparr>ns_db := no_save ops (ns_db s) (r\<lparr>nr_nonce := currentNonce + 1, nr_lastUsedAt := Some now\<rparr>),
                 ns_cache := Map_delete key (ns_cache s)\<rparr>)))"

text \<open>\<open>getAddress\<close> is applied to its own result on the way.\<close>

definition validateNonce ::
  "'db nonce_ops \<Rightarrow> timestamp \<Rightarrow> string \<Rightarrow> int \<Rightarrow> 'db nonce_service \<Rightarrow> bool result \<times> 'db nonce_service" where
  "validateNonce ops now address nonce s =
     (case no_getAddress ops address of
        None \<Rightarrow> (Inl bad_address, s)
      | Some checksumAddress \<Rightarrow>
          (case getCurrentNonce ops now checksumAddress s of
             (Inl e, s') \<Rightarrow> (Inl e, s')
           | (Inr currentNonce, s') \<Rightarrow> (Inr (nonce = currentNonce), s')))"

definition setNonce :: "'db nonce_ops \<Rightarrow> string \<Rightarrow> int \<Rightarrow> 'db nonce_service \<Rightarrow> unit result \<times> 'db nonce_service" where
  "setNonce ops address nonce s =
     (case address_key ops address of
        None \<Rightarrow> (Inl bad_address, s)
      | Some key \<Rightarrow>
          (let r = (case no_findOne ops (ns_db s) key of
                      None \<Rightarrow> \<lparr>nr_address = key, nr_nonce = nonce, nr_lastUsedAt = None\<rparr>
                    | Some r \<Rightarrow> r\<lparr>nr_nonce := nonce\<rparr>)
           in (Inr (), s\<lparr>ns_db := no_save ops (ns_db s) r, ns_cache := Map_delete key (ns_cache s)\<rparr>)))"

definition resetNonce :: "'db nonce_ops \<Rightarrow> string \<Rightarrow> 'db nonce_service \<Rightarrow> unit result \<times> 'db nonce_service" where
  "resetNonce ops address s = setNonce ops address 0 s"

fun checksum_all :: "'db nonce_ops \<Rightarrow> string list \<Rightarrow> string list option" where
  "checksum_all ops [] = Some []"
| "checksum_all ops (a # as) =
     (case no_getAddress ops a of None \<Rightarrow> None
      | Some c \<Rightarrow> map_option (\<lambda>cs. c # cs) (checksum_all ops as))"

definition getNoncesForAddresses :: "'db nonce_ops \<Rightarrow> string list \<Rightarrow> 'db nonce_service \<Rightarrow> (string, int) js_map result" where
  "getNoncesForAddresses ops addresses s =
     (case checksum_all ops addresses of
        None \<Rightarrow> Inl bad_address
      | Some cs \<Rightarrow>
          (let rows = no_find ops (ns_db s) (map toLowerCase cs)
           in Inr (foldl (\<lambda>m c. Map_set c (case find (\<lambda>r. nr_address r = toLowerCase c) rows of
                                        None \<Rightarrow> 0 | Some r \<Rightarrow> nr_nonce r) m) [] cs)))"

definition clearStaleCache :: "timestamp \<Rightarrow> 'db nonce_service \<Rightarrow> 'db nonce_service" where
  "clearStaleCache now s = s\<lparr>ns_cache := Map_filter (\<lambda>_ c. \<not> now - nc_lastFetch c > CACHE_TTL) (ns_cache s)\<rparr>"

text \<open>The two aggregates come from the database; None is a NULL sum.\<close>

definition getNonceStats :: "int \<Rightarrow> int option \<Rightarrow> int \<times> int \<times> rat" where
  "getNonceStats count sum_nonces =
     (let totalNonces = nullish sum_nonces 0
      in (count, totalNonces, if count > 0 then of_int totalNonces / of_int count else 0))"

definition cleanupOldNonces :: "'db nonce_ops \<Rightarrow> timestamp \<Rightarrow> 'db nonce_service \<Rightarrow> int \<times> 'db nonce_service" where
  "cleanupOldNonces ops cutoffDate s =
     (let (affected, db) = no_delete ops (ns_db s)
            (\<lambda>r. (case nr_lastUsedAt r of None \<Rightarrow> False | Some t \<Rightarrow> t < cutoffDate) \<and> nr_nonce r = 0)
      in (affected, s\<lparr>ns_db := db\<rparr>))"

section \<open>Specification\<close>

locale nonce_table =
  fixes ops :: "'db nonce_ops"
  assumes table: "repository (no_findOne ops) (no_save ops) nr_address"
    and row_address: "no_findOne ops db k = Some r \<Longrightarrow> nr_address r = k"
    and find_delete: "no_findOne ops (snd (no_delete ops db P)) k =
      (case no_findOne ops db k of None \<Rightarrow> None | Some r \<Rightarrow> if P r then None else Some r)"
    and find_many: "set (no_find ops db ks) = {r. \<exists>k \<in> set ks. no_findOne ops db k = Some r}"

text \<open>The nonce an address stands at: a missing row stands for 0.\<close>

definition nonce_of :: "'db nonce_ops \<Rightarrow> 'db \<Rightarrow> string \<Rightarrow> int" where
  "nonce_of ops db key = (case no_findOne ops db key of None \<Rightarrow> 0 | Some r \<Rightarrow> nr_nonce r)"

datatype nonce_call =
    GetCurrent timestamp string
  | GetAndIncrement timestamp string
  | Validate timestamp string int
  | SetNonce string int
  | ResetNonce string
  | ClearStale timestamp
  | CleanupOld timestamp

fun nonce_step :: "'db nonce_ops \<Rightarrow> 'db nonce_service \<Rightarrow> nonce_call \<Rightarrow> 'db nonce_service" where
  "nonce_step ops s (GetCurrent now a) = snd (getCurrentNonce ops now a s)"
| "nonce_step ops s (GetAndIncrement now a) = snd (getAndIncrementNonce ops now a s)"
| "nonce_step ops s (Validate now a n) = snd (validateNonce ops now a n s)"
| "nonce_step ops s (SetNonce a n) = snd (setNonce ops a n s)"
| "nonce_step ops s (ResetNonce a) = snd (resetNonce ops a s)"
| "nonce_step ops s (ClearStale now) = clearStaleCache now s"
| "nonce_step ops s (CleanupOld cutoff) = snd (cleanupOldNonces ops cutoff s)"

text \<open>The nonces a history of calls hands out for one key, and the calls that do not set it by hand.\<close>

fun handed_out :: "'db nonce_ops \<Rightarrow> string \<Rightarrow> 'db nonce_service \<Rightarrow> nonce_call list \<Rightarrow> int list" where
  "handed_out ops key s [] = []"
| "handed_out ops key s (c # cs) =
     (case c of
        GetAndIncrement now a \<Rightarrow>
          (if address_key ops a = Some key then (case fst (getAndIncrementNonce ops now a s) of Inr n \<Rightarrow> [n] | Inl _ \<Rightarrow> []) else [])
      | _ \<Rightarrow> []) @ handed_out ops key (nonce_step ops s c) cs"

fun not_by_hand :: "'db nonce_ops \<Rightarrow> string \<Rightarrow> nonce_call \<Rightarrow> bool" where
  "not_by_hand ops key (SetNonce a n) = (address_key ops a \<noteq> Some key)"
| "not_by_hand ops key (ResetNonce a) = (address_key ops a \<noteq> Some key)"
| "not_by_hand ops key _ = True"

text \<open>Every cached nonce is the one in the table.\<close>

definition coherent :: "'db nonce_ops \<Rightarrow> 'db nonce_service \<Rightarrow> bool" where
  "coherent ops s \<longleftrightarrow> Map_wf (ns_cache s) \<and>
     (\<forall>k c. Map_get k (ns_cache s) = Some c \<longrightarrow> nc_nonce c = nonce_of ops (ns_db s) k)"

text \<open>A table as a function from addresses to rows.\<close>

definition map_ops :: "(string \<Rightarrow> nonce_row option) nonce_ops" where
  "map_ops = \<lparr>no_getAddress = Some,
     no_findOne = (\<lambda>db k. case db k of Some r \<Rightarrow> if nr_address r = k then Some r else None | None \<Rightarrow> None),
     no_save = (\<lambda>db r. db(nr_address r \<mapsto> r)),
     no_find = (\<lambda>db ks. List.map_filter (\<lambda>k. case db k of Some r \<Rightarrow> if nr_address r = k then Some r else None | None \<Rightarrow> None) ks),
     no_delete = (\<lambda>db P. (0, \<lambda>k. case db k of Some r \<Rightarrow> if P r then None else Some r | None \<Rightarrow> None))\<rparr>"

lemma consecutive_Cons: "n # map (\<lambda>i. n + 1 + int i) [0 ..< m] = map (\<lambda>i. n + int i) [0 ..< Suc m]"
  by (induction m) simp_all

interpretation mo: nonce_table map_ops
proof (unfold_locales, goal_cases)
  case (3 db P k)
  then show ?case by (auto simp: map_ops_def split: option.splits)
next
  case (4 db ks)
  then show ?case by (induction ks) (auto simp: map_ops_def map_filter_simps split: option.splits if_splits)
qed (auto simp: map_ops_def split: option.splits if_splits)

context nonce_table
begin

lemma nonce_of_save: "nonce_of ops (no_save ops db r) k = (if k = nr_address r then nr_nonce r else nonce_of ops db k)"
  using repository.find_save [OF table] by (simp add: nonce_of_def)

lemma fetch_nonce_spec:
  "fst (fetch_nonce ops key s) = nonce_of ops (ns_db s) key"
  "nonce_of ops (ns_db (snd (fetch_nonce ops key s))) k = nonce_of ops (ns_db s) k"
  "ns_cache (snd (fetch_nonce ops key s)) = ns_cache s"
  by (auto simp: fetch_nonce_def nonce_of_def repository.find_save [OF table] split: option.splits)

lemma increment_spec:
  assumes "address_key ops a = Some key"
  shows "fst (getAndIncrementNonce ops now a s) = Inr (nonce_of ops (ns_db s) key)"
    and "nonce_of ops (ns_db (snd (getAndIncrementNonce ops now a s))) k =
      (if k = key then nonce_of ops (ns_db s) key + 1 else nonce_of ops (ns_db s) k)"
    and "ns_cache (snd (getAndIncrementNonce ops now a s)) = Map_delete key (ns_cache s)"
  using assms row_address [of "ns_db s" key]
  by (auto simp: getAndIncrementNonce_def nonce_of_save Let_def split: option.splits) (auto simp: nonce_of_def)

lemma set_spec:
  assumes "address_key ops a = Some key"
  shows "nonce_of ops (ns_db (snd (setNonce ops a n s))) k = (if k = key then n else nonce_of ops (ns_db s) k)"
    and "ns_cache (snd (setNonce ops a n s)) = Map_delete key (ns_cache s)"
  using assms row_address [of "ns_db s" key]
  by (auto simp: setNonce_def nonce_of_save Let_def split: option.splits)

lemma cleanup_spec:
  "nonce_of ops (ns_db (snd (cleanupOldNonces ops cutoff s))) k = nonce_of ops (ns_db s) k"
  "ns_cache (snd (cleanupOldNonces ops cutoff s)) = ns_cache s"
  by (auto simp: cleanupOldNonces_def nonce_of_def find_delete Let_def split_beta split: option.splits)

lemma current_db: "nonce_of ops (ns_db (snd (getCurrentNonce ops now a s))) k = nonce_of ops (ns_db s) k"
  by (auto simp: getCurrentNonce_def cache_nonce_def fetch_nonce_spec split_beta Let_def split: option.splits)

lemma validate_snd: "snd (validateNonce ops now a n s) =
    (case no_getAddress ops a of None \<Rightarrow> s | Some c \<Rightarrow> snd (getCurrentNonce ops now c s))"
  by (simp add: validateNonce_def split: option.splits prod.splits sum.splits)

lemma coherent_current: "coherent ops s \<Longrightarrow> coherent ops (snd (getCurrentNonce ops now a s))"
  by (auto simp: coherent_def getCurrentNonce_def cache_nonce_def fetch_nonce_spec split_beta Let_def split: option.splits)

lemma coherent_step: "coherent ops s \<Longrightarrow> coherent ops (nonce_step ops s c)"
proof (induction c)
  case (GetAndIncrement now a)
  then show ?case
    by (cases "address_key ops a") (auto simp: coherent_def increment_spec, simp_all add: getAndIncrementNonce_def)
next
  case (SetNonce a n)
  then show ?case by (cases "address_key ops a") (auto simp: coherent_def set_spec, simp_all add: setNonce_def)
next
  case (ResetNonce a)
  then show ?case
    by (cases "address_key ops a") (auto simp: coherent_def resetNonce_def set_spec, simp_all add: setNonce_def)
next
  case (ClearStale now)
  then show ?case by (auto simp: coherent_def clearStaleCache_def Map_get_filter Map_wf_filter split: option.splits if_splits)
next
  case (CleanupOld cutoff)
  then show ?case by (simp add: coherent_def cleanup_spec)
qed (auto simp: coherent_current validate_snd split: option.splits)

lemma current_coherent:
  "coherent ops s \<Longrightarrow> address_key ops a = Some key \<Longrightarrow> fst (getCurrentNonce ops now a s) = Inr (nonce_of ops (ns_db s) key)"
  by (auto simp: getCurrentNonce_def cached_nonce_def coherent_def fetch_nonce_spec split_beta Let_def split: option.splits)

lemma step_other:
  "not_by_hand ops key c \<Longrightarrow> nonce_of ops (ns_db (nonce_step ops s c)) key =
     (case c of GetAndIncrement now a \<Rightarrow> nonce_of ops (ns_db s) key + (if address_key ops a = Some key then 1 else 0)
      | _ \<Rightarrow> nonce_of ops (ns_db s) key)"
proof (induction c)
  case (GetAndIncrement now a)
  then show ?case by (cases "address_key ops a") (auto simp: increment_spec, simp_all add: getAndIncrementNonce_def)
next
  case (SetNonce a n)
  then show ?case by (cases "address_key ops a") (auto simp: set_spec, simp_all add: setNonce_def)
next
  case (ResetNonce a)
  then show ?case by (cases "address_key ops a") (auto simp: resetNonce_def set_spec, simp_all add: setNonce_def)
next
  case (ClearStale now)
  then show ?case by (simp add: clearStaleCache_def)
qed (simp_all add: current_db cleanup_spec validate_snd split: option.splits)

lemma handed_out_consecutive:
  "list_all (not_by_hand ops key) cs \<Longrightarrow>
     handed_out ops key s cs = map (\<lambda>i. nonce_of ops (ns_db s) key + int i) [0 ..< length (handed_out ops key s cs)]"
proof (induction cs arbitrary: s)
  case (Cons c cs)
  let ?s = "nonce_step ops s c"
  have ih: "handed_out ops key ?s cs = map (\<lambda>i. nonce_of ops (ns_db ?s) key + int i) [0 ..< length (handed_out ops key ?s cs)]"
    using Cons by simp
  have st: "nonce_of ops (ns_db ?s) key = (case c of
      GetAndIncrement now a \<Rightarrow> nonce_of ops (ns_db s) key + (if address_key ops a = Some key then 1 else 0)
      | _ \<Rightarrow> nonce_of ops (ns_db s) key)" using step_other Cons.prems by simp
  show ?case
  proof (cases "\<exists>now a. c = GetAndIncrement now a \<and> address_key ops a = Some key")
    case True
    then obtain now a where c: "c = GetAndIncrement now a" "address_key ops a = Some key" by blast
    let ?n = "nonce_of ops (ns_db s) key" and ?H = "handed_out ops key ?s cs"
    have hd: "handed_out ops key s (c # cs) = ?n # ?H" by (simp add: c increment_spec)
    have "nonce_of ops (ns_db ?s) key = ?n + 1" using st c by simp
    then have "?n # ?H = ?n # map (\<lambda>i. ?n + 1 + int i) [0 ..< length ?H]" using ih by simp
    also have "\<dots> = map (\<lambda>i. ?n + int i) [0 ..< Suc (length ?H)]" by (rule consecutive_Cons)
    finally show ?thesis unfolding hd by simp
  next
    case False
    then have "handed_out ops key s (c # cs) = handed_out ops key ?s cs" and "nonce_of ops (ns_db ?s) key = nonce_of ops (ns_db s) key"
      using st by (auto split: nonce_call.splits)
    then show ?thesis using ih by simp
  qed
qed simp

end

section \<open>Properties\<close>

text \<open>
  C9. No nonce is handed out twice: over any table with the documented behaviour and through
  every history of calls that does not set the address's nonce by hand, the nonces handed out
  for an address are consecutive, starting with the one in the table, however the address is
  written and whatever is looked up, cached or cleaned up in between.
\<close>

theorem nonces_consecutive:
  assumes "nonce_table ops" and "list_all (not_by_hand ops key) cs"
  shows "handed_out ops key s cs =
     map (\<lambda>i. nonce_of ops (ns_db s) key + int i) [0 ..< length (handed_out ops key s cs)]"
  by (rule nonce_table.handed_out_consecutive [OF assms])

theorem nonces_consecutive_witness:
  "let s = \<lparr>ns_cache = [], ns_db = (\<lambda>_. None)\<rparr>;
       cs = [GetAndIncrement 1 ''0xAB'', GetCurrent 2 ''0xab'', CleanupOld 9, GetAndIncrement 3 ''0xab'']
   in handed_out map_ops ''0xab'' s cs = [0, 1]"
proof -
  let ?s = "\<lparr>ns_cache = [], ns_db = (\<lambda>_. None)\<rparr> :: (string \<Rightarrow> nonce_row option) nonce_service"
  let ?cs = "[GetAndIncrement 1 ''0xAB'', GetCurrent 2 ''0xab'', CleanupOld 9, GetAndIncrement 3 ''0xab'']"
  have "length (handed_out map_ops ''0xab'' ?s ?cs) = 2" by code_simp
  moreover have "nonce_of map_ops (ns_db ?s) ''0xab'' = 0" by code_simp
  moreover have "list_all (not_by_hand map_ops ''0xab'') ?cs" by code_simp
  ultimately show ?thesis
    unfolding Let_def using nonces_consecutive [OF mo.nonce_table_axioms, of "''0xab''" ?cs ?s] by (simp add: numeral_2_eq_2)
qed

text \<open>
  The cache is transparent when calls do not overlap: after every history of complete
  calls from an empty cache, the nonce reported for an address is the one in the table,
  cached or not.
\<close>

theorem cache_transparent:
  assumes "nonce_table ops" and "address_key ops a = Some key"
  shows "let s = run (nonce_step ops) \<lparr>ns_cache = [], ns_db = db\<rparr> cs
     in fst (getCurrentNonce ops now a s) = Inr (nonce_of ops (ns_db s) key)"
proof -
  have "coherent ops (run (nonce_step ops) s cs)" if "coherent ops s" for s
    using that by (induction cs arbitrary: s) (simp_all add: nonce_table.coherent_step [OF assms(1)])
  moreover have "coherent ops \<lparr>ns_cache = [], ns_db = db\<rparr>" by (simp add: coherent_def)
  ultimately show ?thesis
    unfolding Let_def using nonce_table.current_coherent [OF assms(1) _ assms(2)] by blast
qed

theorem cache_transparent_witness:
  "let s = run (nonce_step map_ops) \<lparr>ns_cache = [], ns_db = (\<lambda>_. None)\<rparr> [GetCurrent 1 ''0xAB'', GetAndIncrement 2 ''0xab'']
   in fst (getCurrentNonce map_ops 3 ''0xAB'' s) = Inr (nonce_of map_ops (ns_db s) ''0xab'')"
proof -
  have "address_key map_ops ''0xAB'' = Some ''0xab''" by code_simp
  from cache_transparent [OF mo.nonce_table_axioms this, of "\<lambda>_. None" "[GetCurrent 1 ''0xAB'', GetAndIncrement 2 ''0xab'']" 3]
  show ?thesis .
qed

text \<open>
  An overlap makes a used nonce valid again: when a lookup reads the table, an increment
  hands out that nonce, and the lookup then writes what it read to the cache, the nonce that
  was handed out is reported as the valid next nonce until the cache entry is a minute old.
\<close>

theorem stale_cache_accepts_used_nonce:
  assumes "nonce_table ops" and "address_key ops a = Some key" and "no_getAddress ops a = Some c" and "address_key ops c = Some key"
    and "fetch_nonce ops key s = (n, s1)" and "getAndIncrementNonce ops t1 a s1 = (r, s2)" and "now - t2 < CACHE_TTL"
  shows "r = Inr n \<and> nonce_of ops (ns_db (cache_nonce t2 key n s2)) key = n + 1 \<and>
     fst (validateNonce ops now a n (cache_nonce t2 key n s2)) = Inr True"
proof -
  have n: "n = nonce_of ops (ns_db s1) key"
    using nonce_table.fetch_nonce_spec(1,2) [OF assms(1), of key s] assms(5) by simp
  have "r = Inr n" "nonce_of ops (ns_db s2) key = n + 1"
    using nonce_table.increment_spec(1,2) [OF assms(1,2), of t1 s1] assms(6) n by simp_all
  moreover have "fst (getCurrentNonce ops now c (cache_nonce t2 key n s2)) = Inr n"
    using assms(4,7) by (simp add: getCurrentNonce_def cached_nonce_def cache_nonce_def)
  then have "fst (validateNonce ops now a n (cache_nonce t2 key n s2)) = Inr True"
    using assms(3) by (auto simp: validateNonce_def split: prod.splits sum.splits)
  ultimately show ?thesis by (simp add: cache_nonce_def)
qed

theorem stale_cache_accepts_used_nonce_witness:
  "let s = \<lparr>ns_cache = [], ns_db = (\<lambda>_. None)\<rparr>; (n, s1) = fetch_nonce map_ops ''0xab'' s;
       (r, s2) = getAndIncrementNonce map_ops 5 ''0xab'' s1
   in r = Inr n \<and> fst (validateNonce map_ops 59000 ''0xab'' n (cache_nonce 7 ''0xab'' n s2)) = Inr True"
proof -
  let ?s = "\<lparr>ns_cache = [], ns_db = (\<lambda>_. None)\<rparr> :: (string \<Rightarrow> nonce_row option) nonce_service"
  obtain n s1 where f: "fetch_nonce map_ops ''0xab'' ?s = (n, s1)" by fastforce
  obtain r s2 where i: "getAndIncrementNonce map_ops 5 ''0xab'' s1 = (r, s2)" by fastforce
  have k: "address_key map_ops ''0xab'' = Some ''0xab''" by code_simp
  have c: "no_getAddress map_ops ''0xab'' = Some ''0xab''" by (simp add: map_ops_def)
  show ?thesis
    using stale_cache_accepts_used_nonce [OF mo.nonce_table_axioms k c k f i, of 59000 7] f i by (simp add: CACHE_TTL_def)
qed

end
