(* ===== verification/Oracle_Service.thy ===== *)
theory Oracle_Service
  imports Submission_Batch Nonce_Management
begin

text \<open>
  \<open>OracleService\<close> and \<open>PayloadSigningService\<close> (blockchain/oracle/services/oracle.service.ts and
  payload-signing.service.ts): payloads are created with the next nonce of their signer, signed,
  and handed to the submitter. The functions of ethers are the parameter \<open>eth_crypto\<close>; the id the
  database draws for a new row is an argument. A JSON value is its text, a bigint a number.
\<close>

section \<open>Signing\<close>

record oracle_domain =
  od_name :: string
  od_version :: string
  od_chainId :: int
  od_verifyingContract :: string

record oracle_payload =
  op_payloadType :: payload_type
  op_payloadHash :: string
  op_nonce :: int
  op_expiresAt :: int
  op_data :: string

record eth_crypto =
  ec_keccak256 :: "string \<Rightarrow> string"
  ec_walletAddress :: "string \<Rightarrow> string result"
  ec_getAddress :: "string \<Rightarrow> string result"
  ec_signTypedData :: "string \<Rightarrow> oracle_domain \<Rightarrow> oracle_payload \<Rightarrow> string result"
  ec_verifyTypedData :: "oracle_domain \<Rightarrow> oracle_payload \<Rightarrow> string \<Rightarrow> string result"

text \<open>The domain, from the configured chain id (decimal, 1 by default) and contract address.\<close>

definition oracle_domain_of :: "int option \<Rightarrow> string option \<Rightarrow> oracle_domain" where
  "oracle_domain_of chainId contract = \<lparr>od_name = ''alian-structure Oracle'', od_version = ''1'', od_chainId = nullish chainId 1,
     od_verifyingContract = nullish contract ''0x0000000000000000000000000000000000000000''\<rparr>"

definition hashPayload :: "eth_crypto \<Rightarrow> string \<Rightarrow> string" where
  "hashPayload ec payload = ec_keccak256 ec payload"

definition createStructuredData :: "payload_type \<Rightarrow> string \<Rightarrow> int \<Rightarrow> int \<Rightarrow> string \<Rightarrow> oracle_payload" where
  "createStructuredData payloadType payloadHash nonce expiresAt data =
     \<lparr>op_payloadType = payloadType, op_payloadHash = payloadHash, op_nonce = nonce, op_expiresAt = expiresAt, op_data = data\<rparr>"

text \<open>Every error is rethrown with a prefix.\<close>

definition signing_failed :: "http_error \<Rightarrow> http_error" where
  "signing_failed e = PlainError (''Payload signing failed: '' @ error_message e)"

definition signPayload_ps ::
  "eth_crypto \<Rightarrow> oracle_domain \<Rightarrow> string \<Rightarrow> payload_type \<Rightarrow> string \<Rightarrow> int \<Rightarrow> int \<Rightarrow> string \<Rightarrow> (string \<times> string) result" where
  "signPayload_ps ec domain privateKey payloadType payloadHash nonce expiresAt data =
     (case ec_walletAddress ec privateKey of
        Inl e \<Rightarrow> Inl (signing_failed e)
      | Inr signerAddress \<Rightarrow>
          (case ec_signTypedData ec privateKey domain (createStructuredData payloadType payloadHash nonce expiresAt data) of
             Inl e \<Rightarrow> Inl (signing_failed e)
           | Inr signature \<Rightarrow>
               (case ec_getAddress ec signerAddress of
                  Inl e \<Rightarrow> Inl (signing_failed e)
                | Inr checksummed \<Rightarrow> Inr (signature, checksummed))))"

definition verifySignature_ps ::
  "eth_crypto \<Rightarrow> oracle_domain \<Rightarrow> string \<Rightarrow> payload_type \<Rightarrow> string \<Rightarrow> int \<Rightarrow> int \<Rightarrow> string \<Rightarrow> string \<Rightarrow> bool" where
  "verifySignature_ps ec domain signature payloadType payloadHash nonce expiresAt data expectedSigner =
     (case ec_verifyTypedData ec domain (createStructuredData payloadType payloadHash nonce expiresAt data) signature of
        Inl _ \<Rightarrow> False
      | Inr recoveredAddress \<Rightarrow> toLowerCase recoveredAddress = toLowerCase expectedSigner)"

definition computeStructuredDataHash :: "payload_type \<Rightarrow> string \<Rightarrow> int \<Rightarrow> int \<Rightarrow> string \<Rightarrow> string" where
  "computeStructuredDataHash payloadType payloadHash nonce expiresAt data = payloadHash"

section \<open>The service\<close>

record ('db, 'c, 'n) oracle_env =
  oe_submitter :: "('db, 'c) submitter_env"
  oe_nonces :: "'n nonce_ops"
  oe_crypto :: eth_crypto
  oe_domain :: oracle_domain

record ('db, 'c, 'n) oracle_state =
  or_submitter :: "('db, 'c) submitter"
  or_nonces :: "'n nonce_service"

definition defaultExpirationMinutes :: int where "defaultExpirationMinutes = 30"

record payload_response =
  pr_payload :: signed_payload
  pr_signature :: "string option"

definition mapToResponseDto :: "signed_payload \<Rightarrow> payload_response" where
  "mapToResponseDto p = \<lparr>pr_payload = p, pr_signature = (if sp_signature p = [] then None else Some (sp_signature p))\<rparr>"

definition or_sub :: "(('db, 'c) submitter, 'a) io \<Rightarrow> (('db, 'c, 'n) oracle_state, 'a) io" where
  "or_sub f s = (let (r, t) = f (or_submitter s) in (r, s\<lparr>or_submitter := t\<rparr>))"

definition or_db :: "('db, 'a) io \<Rightarrow> (('db, 'c, 'n) oracle_state, 'a) io" where
  "or_db f = or_sub (on_db f)"

definition or_nonce ::
  "('n nonce_service \<Rightarrow> 'a result \<times> 'n nonce_service) \<Rightarrow> (('db, 'c, 'n) oracle_state, 'a) io" where
  "or_nonce f s = (let (r, t) = f (or_nonces s) in (r, s\<lparr>or_nonces := t\<rparr>))"

abbreviation oe_table :: "('db, 'c, 'n) oracle_env \<Rightarrow> 'db payload_ops" where
  "oe_table env \<equiv> se_table (oe_submitter env)"

record create_payload_dto =
  cp_payloadType :: payload_type
  cp_payload :: string
  cp_metadata :: "string option"

definition new_payload ::
  "eth_crypto \<Rightarrow> timestamp \<Rightarrow> string \<Rightarrow> string \<Rightarrow> create_payload_dto \<Rightarrow> int \<Rightarrow> signed_payload" where
  "new_payload ec now newId signerAddress dto nonce =
     (let payloadHash = hashPayload ec (cp_payload dto);
          expiresAt = now + defaultExpirationMinutes * 60000
      in \<lparr>sp_id = newId, sp_payloadType = cp_payloadType dto, sp_signerAddress = toLowerCase signerAddress, sp_nonce = nonce,
          sp_payload = cp_payload dto, sp_payloadHash = payloadHash,
          sp_structuredDataHash = computeStructuredDataHash (cp_payloadType dto) payloadHash nonce (expiresAt div 1000) (cp_payload dto),
          sp_signature = [], sp_expiresAt = expiresAt, sp_status = PENDING, sp_transactionHash = None, sp_blockNumber = None,
          sp_submissionAttempts = 0, sp_errorMessage = None, sp_metadata = cp_metadata dto, sp_createdAt = now, sp_updatedAt = now,
          sp_submittedAt = None, sp_confirmedAt = None\<rparr>)"

definition createPayload ::
  "('db, 'c, 'n) oracle_env \<Rightarrow> timestamp \<Rightarrow> string \<Rightarrow> string \<Rightarrow> create_payload_dto \<Rightarrow>
   (('db, 'c, 'n) oracle_state, payload_response) io" where
  "createPayload env now newId signerAddress dto =
     io_bind (or_nonce (getAndIncrementNonce (oe_nonces env) now signerAddress)) (\<lambda>nonce.
     io_bind (or_db (po_save (oe_table env) now (new_payload (oe_crypto env) now newId signerAddress dto nonce))) (\<lambda>savedPayload.
       io_return (mapToResponseDto savedPayload)))"

definition signPayload ::
  "('db, 'c, 'n) oracle_env \<Rightarrow> timestamp \<Rightarrow> string \<Rightarrow> string \<Rightarrow> (('db, 'c, 'n) oracle_state, payload_response) io" where
  "signPayload env now payloadId privateKey =
     io_bind (or_db (po_findOne (oe_table env) payloadId)) (\<lambda>found.
       case found of
         None \<Rightarrow> io_throw (NotFound (''Payload '' @ payloadId @ '' not found''))
       | Some p \<Rightarrow>
           if sp_signature p \<noteq> [] then io_throw (BadRequest (''Payload '' @ payloadId @ '' is already signed''))
           else if now > sp_expiresAt p then io_throw (BadRequest (''Payload '' @ payloadId @ '' has expired''))
           else (case signPayload_ps (oe_crypto env) (oe_domain env) privateKey (sp_payloadType p) (sp_payloadHash p) (sp_nonce p)
                        (sp_expiresAt p div 1000) (sp_payload p) of
                   Inl e \<Rightarrow> io_throw e
                 | Inr (signature, signerAddress) \<Rightarrow>
                     if toLowerCase signerAddress \<noteq> toLowerCase (sp_signerAddress p)
                     then io_throw (BadRequest (''Signer address '' @ signerAddress @ '' does not match expected address '' @ sp_signerAddress p))
                     else io_bind (or_db (po_save (oe_table env) now (p\<lparr>sp_signature := signature\<rparr>)))
                            (\<lambda>updatedPayload. io_return (mapToResponseDto updatedPayload))))"

definition submitPayload_os ::
  "('db, 'c, 'n) oracle_env \<Rightarrow> (nat \<Rightarrow> timestamp) \<Rightarrow> string \<Rightarrow> (('db, 'c, 'n) oracle_state, string \<times> payload_response) io" where
  "submitPayload_os env clk payloadId =
     io_bind (or_sub (submitPayload (oe_submitter env) clk payloadId)) (\<lambda>(h, p). io_return (h, mapToResponseDto p))"

definition verifySignature ::
  "('db, 'c, 'n) oracle_env \<Rightarrow> string \<Rightarrow> string \<Rightarrow> (('db, 'c, 'n) oracle_state, bool) io" where
  "verifySignature env payloadId expectedSigner =
     io_bind (or_db (po_findOne (oe_table env) payloadId)) (\<lambda>found.
       case found of
         None \<Rightarrow> io_throw (NotFound (''Payload '' @ payloadId @ '' not found''))
       | Some p \<Rightarrow>
           if sp_signature p = [] then io_throw (BadRequest (''Payload '' @ payloadId @ '' is not signed''))
           else io_return (verifySignature_ps (oe_crypto env) (oe_domain env) (sp_signature p) (sp_payloadType p) (sp_payloadHash p)
                  (sp_nonce p) (sp_expiresAt p div 1000) (sp_payload p) expectedSigner))"

definition getPayload :: "('db, 'c, 'n) oracle_env \<Rightarrow> string \<Rightarrow> (('db, 'c, 'n) oracle_state, payload_response) io" where
  "getPayload env payloadId =
     io_bind (or_db (po_findOne (oe_table env) payloadId)) (\<lambda>found.
       case found of
         None \<Rightarrow> io_throw (NotFound (''Payload '' @ payloadId @ '' not found''))
       | Some p \<Rightarrow> io_return (mapToResponseDto p))"

definition getPayloadsForAddress ::
  "('db, 'c, 'n) oracle_env \<Rightarrow> string \<Rightarrow> payload_status option \<Rightarrow> nat \<Rightarrow> (('db, 'c, 'n) oracle_state, payload_response list) io" where
  "getPayloadsForAddress env address status limit =
     io_bind (or_db (po_find (oe_table env) (\<lambda>p. sp_signerAddress p = toLowerCase address \<and>
         (case status of None \<Rightarrow> True | Some st \<Rightarrow> sp_status p = st)) CreatedDesc (Some limit)))
       (\<lambda>payloads. io_return (map mapToResponseDto payloads))"

text \<open>The query is the one of the batch service: \<open>signature IN (NULL, '')\<close>.\<close>

definition getPendingPayloads ::
  "('db, 'c, 'n) oracle_env \<Rightarrow> timestamp \<Rightarrow> nat \<Rightarrow> (('db, 'c, 'n) oracle_state, payload_response list) io" where
  "getPendingPayloads env now limit =
     io_bind (or_db (po_find (oe_table env) (\<lambda>p. sp_status p = PENDING \<and> sp_signature p = []) CreatedAsc (Some limit)))
       (\<lambda>payloads. io_return (map mapToResponseDto (filter (\<lambda>p. sp_expiresAt p > now \<and> sp_signature p \<noteq> []) payloads)))"

definition retrySubmission_os ::
  "('db, 'c, 'n) oracle_env \<Rightarrow> (nat \<Rightarrow> timestamp) \<Rightarrow> string \<Rightarrow> (('db, 'c, 'n) oracle_state, string \<times> payload_response) io" where
  "retrySubmission_os env clk payloadId =
     io_bind (or_sub (retrySubmission (oe_submitter env) clk payloadId)) (\<lambda>(h, p). io_return (h, mapToResponseDto p))"

definition cleanupExpiredPayloads :: "('db, 'c, 'n) oracle_env \<Rightarrow> timestamp \<Rightarrow> (('db, 'c, 'n) oracle_state, int) io" where
  "cleanupExpiredPayloads env now =
     io_bind (or_db (po_find (oe_table env) (\<lambda>p. sp_status p = PENDING) Unordered None)) (\<lambda>pending.
       let toUpdate = filter (\<lambda>p. sp_expiresAt p < now) pending;
           updated = map (\<lambda>p. p\<lparr>sp_status := FAILED, sp_errorMessage := Some ''Payload expired''\<rparr>) toUpdate
       in if toUpdate \<noteq> [] then io_bind (or_db (po_saveAll (oe_table env) now updated)) (\<lambda>_. io_return (int (length toUpdate)))
          else io_return (int (length toUpdate)))"

text \<open>The aggregates over a column come from the database.\<close>

definition getStatistics ::
  "('db, 'c, 'n) oracle_env \<Rightarrow> int \<Rightarrow> int option \<Rightarrow> int option \<Rightarrow>
   (('db, 'c, 'n) oracle_state, (int \<times> int \<times> int \<times> int) \<times> (int \<times> int \<times> rat) \<times> ((int \<times> int \<times> int \<times> int) \<times> int)) io" where
  "getStatistics env nonce_count nonce_sum total_attempts =
     io_bind (or_sub (status_counts (oe_submitter env))) (\<lambda>payloadStats.
     io_bind (or_sub (getSubmissionStats (oe_submitter env) total_attempts)) (\<lambda>submissionStats.
       io_return (payloadStats, getNonceStats nonce_count nonce_sum, submissionStats)))"

section \<open>Specification\<close>

text \<open>What ethers promises: a signature is recovered to the address that made it, and a check-summed address differs in case only.\<close>

locale typed_signatures =
  fixes ec :: eth_crypto
  assumes recover: "ec_walletAddress ec k = Inr a \<Longrightarrow> ec_signTypedData ec k d v = Inr sg \<Longrightarrow> sg \<noteq> [] \<and> ec_verifyTypedData ec d v sg = Inr a"
    and checksum_case: "ec_getAddress ec a = Inr c \<Longrightarrow> toLowerCase c = toLowerCase a"

datatype oracle_call =
    Create timestamp string string create_payload_dto
  | Sign timestamp string string
  | SubmitP "nat \<Rightarrow> timestamp" string
  | RetryP "nat \<Rightarrow> timestamp" string
  | Follow timestamp string string
  | Expire timestamp

fun oracle_step :: "('db, 'c, 'n) oracle_env \<Rightarrow> ('db, 'c, 'n) oracle_state \<Rightarrow> oracle_call \<Rightarrow> ('db, 'c, 'n) oracle_state" where
  "oracle_step env s (Create now i a dto) = snd (createPayload env now i a dto s)"
| "oracle_step env s (Sign now i k) = snd (signPayload env now i k s)"
| "oracle_step env s (SubmitP clk i) = snd (submitPayload_os env clk i s)"
| "oracle_step env s (RetryP clk i) = snd (retrySubmission_os env clk i s)"
| "oracle_step env s (Follow now i h) = s\<lparr>or_submitter := snd (monitorTransaction (oe_submitter env) now i h (or_submitter s))\<rparr>"
| "oracle_step env s (Expire now) = snd (cleanupExpiredPayloads env now s)"

text \<open>The nonces of the payloads a history creates for one signer.\<close>

fun created_nonces :: "('db, 'c, 'n) oracle_env \<Rightarrow> string \<Rightarrow> ('db, 'c, 'n) oracle_state \<Rightarrow> oracle_call list \<Rightarrow> int list" where
  "created_nonces env key s [] = []"
| "created_nonces env key s (c # cs) =
     (case c of
        Create now i a dto \<Rightarrow>
          (if address_key (oe_nonces env) a = Some key
           then (case fst (createPayload env now i a dto s) of Inr r \<Rightarrow> [sp_nonce (pr_payload r)] | Inl _ \<Rightarrow> []) else [])
      | _ \<Rightarrow> []) @ created_nonces env key (oracle_step env s c) cs"

section \<open>Facts\<close>

lemma or_sub_simps [simp]:
  "fst (or_sub f s) = fst (f (or_submitter s))" "or_submitter (snd (or_sub f s)) = snd (f (or_submitter s))"
  "or_nonces (snd (or_sub f s)) = or_nonces s"
  by (simp_all add: or_sub_def split: prod.splits)

lemma or_db_simps [simp]:
  "fst (or_db f s) = fst (f (su_db (or_submitter s)))" "su_db (or_submitter (snd (or_db f s))) = snd (f (su_db (or_submitter s)))"
  "su_chain (or_submitter (snd (or_db f s))) = su_chain (or_submitter s)" "or_nonces (snd (or_db f s)) = or_nonces s"
  by (simp_all add: or_db_def)

lemma or_nonce_simps [simp]:
  "fst (or_nonce f s) = fst (f (or_nonces s))" "or_submitter (snd (or_nonce f s)) = or_submitter s"
  "or_nonces (snd (or_nonce f s)) = snd (f (or_nonces s))"
  by (simp_all add: or_nonce_def split: prod.splits)

lemma nonces_untouched:
  "(\<And>now i a dto. c \<noteq> Create now i a dto) \<Longrightarrow> or_nonces (oracle_step env s c) = or_nonces s"
  by (cases c) (auto simp: signPayload_def submitPayload_os_def retrySubmission_os_def cleanupExpiredPayloads_def io_bind_eq Let_def
      split: sum.splits option.splits prod.splits)

lemma create_spec:
  assumes "nonce_table (oe_nonces env)" "payload_table (oe_table env) rows" "address_key (oe_nonces env) a = Some k"
    and "fst (createPayload env now i a dto s) = Inr r"
    and p: "p = new_payload (oe_crypto env) now i a dto (nonce_of (oe_nonces env) (ns_db (or_nonces s)) k)"
  shows "r = mapToResponseDto p" "rows (su_db (or_submitter (snd (createPayload env now i a dto s)))) = (rows (su_db (or_submitter s)))(i \<mapsto> p)"
proof -
  have n: "fst (getAndIncrementNonce (oe_nonces env) now a (or_nonces s)) = Inr (nonce_of (oe_nonces env) (ns_db (or_nonces s)) k)"
    by (rule nonce_table.increment_spec(1) [OF assms(1,3)])
  obtain q where q: "fst (po_save (oe_table env) now p (su_db (or_submitter s))) = Inr q" and r: "r = mapToResponseDto q"
    using assms(4) n by (auto simp: createPayload_def io_bind_eq p split: sum.splits)
  have "sp_id p = i" "p\<lparr>sp_updatedAt := now\<rparr> = p" by (simp_all add: p new_payload_def Let_def)
  then show "r = mapToResponseDto p" "rows (su_db (or_submitter (snd (createPayload env now i a dto s)))) = (rows (su_db (or_submitter s)))(i \<mapsto> p)"
    using payload_table.save_done [OF assms(2) q] r n q by (simp_all add: createPayload_def io_bind_eq p)
qed

lemma create_nonce:
  assumes "nonce_table (oe_nonces env)" "address_key (oe_nonces env) a = Some k"
  shows "nonce_of (oe_nonces env) (ns_db (or_nonces (snd (createPayload env now i a dto s)))) key =
      (if key = k then nonce_of (oe_nonces env) (ns_db (or_nonces s)) k + 1 else nonce_of (oe_nonces env) (ns_db (or_nonces s)) key)"
proof -
  have "or_nonces (snd (createPayload env now i a dto s)) = snd (getAndIncrementNonce (oe_nonces env) now a (or_nonces s))"
    by (simp add: createPayload_def io_bind_eq split: sum.splits)
  then show ?thesis using nonce_table.increment_spec(2) [OF assms] by simp
qed

lemma created_increasing:
  assumes "nonce_table (oe_nonces env)" "payload_table (oe_table env) rows"
  shows "sorted_wrt (<) (created_nonces env key s cs) \<and>
    (\<forall>n \<in> set (created_nonces env key s cs). nonce_of (oe_nonces env) (ns_db (or_nonces s)) key \<le> n)"
proof (induction cs arbitrary: s)
  case (Cons c cs)
  let ?t = "oracle_step env s c"
  note ih = Cons.IH [of ?t]
  show ?case
  proof (cases "\<exists>now i a dto. c = Create now i a dto")
    case False
    then have "or_nonces ?t = or_nonces s" by (intro nonces_untouched) auto
    moreover have "created_nonces env key s (c # cs) = created_nonces env key ?t cs" using False by (cases c) simp_all
    ultimately show ?thesis using ih by simp
  next
    case True
    then obtain now i a dto where c: "c = Create now i a dto" by blast
    show ?thesis
    proof (cases "address_key (oe_nonces env) a")
      case None
      then have "or_nonces ?t = or_nonces s" by (simp add: c createPayload_def io_bind_eq getAndIncrementNonce_def)
      then show ?thesis using ih None by (simp add: c)
    next
      case (Some k)
      let ?n = "nonce_of (oe_nonces env) (ns_db (or_nonces s))"
      have t: "nonce_of (oe_nonces env) (ns_db (or_nonces ?t)) key = (if key = k then ?n k + 1 else ?n key)"
        using create_nonce [OF assms(1) Some] by (simp add: c)
      have "sp_nonce (pr_payload r) = ?n k" if "fst (createPayload env now i a dto s) = Inr r" for r
        using create_spec(1) [OF assms Some that refl] by (simp add: mapToResponseDto_def new_payload_def Let_def)
      then have "created_nonces env key s (c # cs) = (if key = k \<and> isl (fst (createPayload env now i a dto s)) = False then [?n k] else []) @
          created_nonces env key ?t cs"
        unfolding c by (cases "fst (createPayload env now i a dto s)") (simp_all add: Some)
      then show ?thesis using ih t by (auto split: if_splits)
    qed
  qed
qed simp

lemma sign_spec:
  assumes "payload_table (oe_table env) rows" "signPayload env now i key s = (Inr r, s')"
  obtains p sg a where "rows (su_db (or_submitter s)) i = Some p" "sp_id p = i" "sp_signature p = []" "now \<le> sp_expiresAt p"
    "signPayload_ps (oe_crypto env) (oe_domain env) key (sp_payloadType p) (sp_payloadHash p) (sp_nonce p) (sp_expiresAt p div 1000)
       (sp_payload p) = Inr (sg, a)" "toLowerCase a = toLowerCase (sp_signerAddress p)"
    "rows (su_db (or_submitter s')) = (rows (su_db (or_submitter s)))(i \<mapsto> p\<lparr>sp_signature := sg, sp_updatedAt := now\<rparr>)"
    "r = mapToResponseDto (p\<lparr>sp_signature := sg, sp_updatedAt := now\<rparr>)"
proof -
  let ?db = "su_db (or_submitter s)"
  obtain p where find: "fst (po_findOne (oe_table env) i ?db) = Inr (Some p)"
    using assms(2) by (auto simp: signPayload_def io_bind_eq split: sum.splits option.splits)
  have row: "rows ?db i = Some p" using payload_table.findOne_val [OF assms(1) find] by simp
  have i: "sp_id p = i" by (rule payload_table.row_id [OF assms(1) row])
  define s1 where "s1 = snd (or_db (po_findOne (oe_table env) i) s)"
  have s1: "rows (su_db (or_submitter s1)) = rows ?db" by (simp add: s1_def payload_table.findOne_rows [OF assms(1)])
  have ok: "sp_signature p = []" "now \<le> sp_expiresAt p"
    using assms(2) find by (auto simp: signPayload_def io_bind_eq split: if_splits)
  obtain sg a where ps: "signPayload_ps (oe_crypto env) (oe_domain env) key (sp_payloadType p) (sp_payloadHash p) (sp_nonce p)
      (sp_expiresAt p div 1000) (sp_payload p) = Inr (sg, a)" and a: "toLowerCase a = toLowerCase (sp_signerAddress p)"
    using assms(2) find ok by (auto simp: signPayload_def io_bind_eq split: sum.splits if_splits)
  have out: "io_bind (or_db (po_save (oe_table env) now (p\<lparr>sp_signature := sg\<rparr>))) (\<lambda>q. io_return (mapToResponseDto q)) s1 = (Inr r, s')"
    using assms(2) find ok ps a by (simp add: signPayload_def io_bind_eq s1_def)
  then obtain q where q: "fst (po_save (oe_table env) now (p\<lparr>sp_signature := sg\<rparr>) (su_db (or_submitter s1))) = Inr q"
    by (auto simp: io_bind_eq split: sum.splits)
  note sv = payload_table.save_done [OF assms(1) q]
  show thesis
    using out q sv s1 i by (intro that [OF row i ok ps a]) (auto simp: io_bind_eq)
qed

context typed_signatures
begin

lemma sign_then_verify:
  assumes "signPayload_ps ec d key t h n e x = Inr (sg, a)" "toLowerCase a = toLowerCase b"
  shows "sg \<noteq> []" "verifySignature_ps ec d sg t h n e x b"
proof -
  obtain w where w: "ec_walletAddress ec key = Inr w" "ec_signTypedData ec key d (createStructuredData t h n e x) = Inr sg" "ec_getAddress ec w = Inr a"
    using assms(1) by (auto simp: signPayload_ps_def split: sum.splits)
  then have "toLowerCase w = toLowerCase b" using checksum_case assms(2) by metis
  then show "sg \<noteq> []" "verifySignature_ps ec d sg t h n e x b"
    using recover [OF w(1,2)] by (simp_all add: verifySignature_ps_def)
qed

end

lemma oracle_chain_kept [simp]:
  "su_chain (or_submitter (snd (createPayload env now i a dto s))) = su_chain (or_submitter s)"
  "su_chain (or_submitter (snd (signPayload env now i key s))) = su_chain (or_submitter s)"
  by (simp_all add: createPayload_def signPayload_def io_bind_eq split: sum.splits option.splits prod.splits)

lemma create_succeeds:
  assumes "nonce_table (oe_nonces env)" "address_key (oe_nonces env) a = Some k" "reliable_saves (oe_table env)"
  shows "\<exists>r. fst (createPayload env now i a dto s) = Inr r"
  using nonce_table.increment_spec(1) [OF assms(1,2), of now "or_nonces s"] assms(3) [unfolded reliable_saves_def, rule_format]
  by (auto simp: createPayload_def io_bind_eq split: sum.splits) (metis Inl_Inr_False)

lemma sign_succeeds:
  assumes "payload_table (oe_table env) rows" "reliable_saves (oe_table env)" "reliable_finds (oe_table env)"
    and "rows (su_db (or_submitter s)) i = Some p" "sp_signature p = []" "now \<le> sp_expiresAt p"
    and "signPayload_ps (oe_crypto env) (oe_domain env) key (sp_payloadType p) (sp_payloadHash p) (sp_nonce p) (sp_expiresAt p div 1000)
       (sp_payload p) = Inr (sg, a)" "toLowerCase a = toLowerCase (sp_signerAddress p)"
  shows "\<exists>r. fst (signPayload env now i key s) = Inr r"
proof -
  have "fst (po_findOne (oe_table env) i (su_db (or_submitter s))) = Inr (Some p)"
    using payload_table.found_row [OF assms(1,3)] assms(4) by simp
  moreover obtain q where "fst (po_save (oe_table env) now (p\<lparr>sp_signature := sg\<rparr>) (snd (po_findOne (oe_table env) i (su_db (or_submitter s))))) = Inr q"
    using assms(2) unfolding reliable_saves_def by blast
  ultimately show ?thesis using assms(5-8) by (simp add: signPayload_def io_bind_eq)
qed

section \<open>A wallet in memory\<close>

definition mem_crypto :: eth_crypto where
  "mem_crypto = \<lparr>ec_keccak256 = (\<lambda>x. ''0x'' @ x), ec_walletAddress = Inr, ec_getAddress = Inr,
     ec_signTypedData = (\<lambda>k d v. Inr (''sig:'' @ k)), ec_verifyTypedData = (\<lambda>d v sg. Inr (drop 4 sg))\<rparr>"

interpretation mcr: typed_signatures mem_crypto
  by unfold_locales (auto simp: mem_crypto_def)

definition mem_oracle :: "(mem_db, mem_chain, string \<Rightarrow> nonce_row option) oracle_env" where
  "mem_oracle = \<lparr>oe_submitter = calm_env, oe_nonces = map_ops, oe_crypto = mem_crypto, oe_domain = oracle_domain_of None None\<rparr>"

definition mem_oracle_state :: "(mem_db, mem_chain, string \<Rightarrow> nonce_row option) oracle_state" where
  "mem_oracle_state = \<lparr>or_submitter = \<lparr>su_db = \<lparr>md_rows = [], md_faults = []\<rparr>, su_chain = \<lparr>mc_sent = [], mc_faults = []\<rparr>,
     su_monitors = [], su_waits = []\<rparr>, or_nonces = \<lparr>ns_cache = [], ns_db = (\<lambda>_. None)\<rparr>\<rparr>"

definition sample_dto :: create_payload_dto where
  "sample_dto = \<lparr>cp_payloadType = PRICE_FEED, cp_payload = ''{}'', cp_metadata = None\<rparr>"

lemma mem_oracle_table: "payload_table (oe_table mem_oracle) mem_rows" "reliable_saves (oe_table mem_oracle)" "reliable_finds (oe_table mem_oracle)"
  using ct_table.payload_table_axioms calm_reliable by (simp_all add: mem_oracle_def calm_env_def)

lemma mem_oracle_parts:
  "submitter_service (oe_submitter mem_oracle) mem_rows mc_sent" "nonce_table (oe_nonces mem_oracle)" "typed_signatures (oe_crypto mem_oracle)"
  using cs.submitter_service_axioms mo.nonce_table_axioms mcr.typed_signatures_axioms by (simp_all add: mem_oracle_def)

section \<open>Properties\<close>



text \<open>
  A payload signed by the service carries a signature that verifies: after a successful
  \<open>signPayload\<close>, \<open>verifySignature\<close> accepts it for the signer the payload was created for.
\<close>

theorem signed_payload_verifies:
  assumes "payload_table (oe_table env) rows" and "typed_signatures (oe_crypto env)" and "reliable_finds (oe_table env)"
    and "signPayload env now i key s = (Inr r, s')"
  shows "fst (verifySignature env i (sp_signerAddress (pr_payload r)) s') = Inr True"
proof -
  obtain p sg a where sp: "rows (su_db (or_submitter s)) i = Some p"
    "signPayload_ps (oe_crypto env) (oe_domain env) key (sp_payloadType p) (sp_payloadHash p) (sp_nonce p) (sp_expiresAt p div 1000)
       (sp_payload p) = Inr (sg, a)" "toLowerCase a = toLowerCase (sp_signerAddress p)"
    "rows (su_db (or_submitter s')) = (rows (su_db (or_submitter s)))(i \<mapsto> p\<lparr>sp_signature := sg, sp_updatedAt := now\<rparr>)"
    "r = mapToResponseDto (p\<lparr>sp_signature := sg, sp_updatedAt := now\<rparr>)"
    by (rule sign_spec [OF assms(1,4)])
  note sv = typed_signatures.sign_then_verify [OF assms(2) sp(2,3)]
  have "fst (po_findOne (oe_table env) i (su_db (or_submitter s'))) = Inr (Some (p\<lparr>sp_signature := sg, sp_updatedAt := now\<rparr>))"
    using payload_table.found_row [OF assms(1,3)] sp(4) by simp
  then show ?thesis using sv sp(5) by (simp add: verifySignature_def io_bind_eq mapToResponseDto_def)
qed

theorem signed_payload_verifies_witness:
  "case createPayload mem_oracle 0 ''p1'' ''0xab'' sample_dto mem_oracle_state of (_, s1) \<Rightarrow>
     (case signPayload mem_oracle 1000 ''p1'' ''0xab'' s1 of (out, s2) \<Rightarrow>
       (\<exists>r. out = Inr r \<and> fst (verifySignature mem_oracle ''p1'' (sp_signerAddress (pr_payload r)) s2) = Inr True))"
proof -
  obtain o1 s1 where one: "createPayload mem_oracle 0 ''p1'' ''0xab'' sample_dto mem_oracle_state = (o1, s1)"
    by (cases "createPayload mem_oracle 0 ''p1'' ''0xab'' sample_dto mem_oracle_state")
  have "case createPayload mem_oracle 0 ''p1'' ''0xab'' sample_dto mem_oracle_state of (_, s1) \<Rightarrow>
     (case signPayload mem_oracle 1000 ''p1'' ''0xab'' s1 of (Inr _, _) \<Rightarrow> True | _ \<Rightarrow> False)" by code_simp
  then obtain r s2 where two: "signPayload mem_oracle 1000 ''p1'' ''0xab'' s1 = (Inr r, s2)"
    using one by (auto split: prod.splits sum.splits)
  show ?thesis
    using signed_payload_verifies [OF mem_oracle_table(1) mem_oracle_parts(3) mem_oracle_table(3) two] one two by simp
qed

text \<open>
  Replay protection: through every history of creations, signatures, submissions, retries,
  confirmations and clean-ups, the payloads created for one signer carry strictly increasing
  nonces, none below the one the signer stood at.
\<close>

theorem created_nonces_increase:
  assumes "nonce_table (oe_nonces env)" and "payload_table (oe_table env) rows"
  shows "sorted_wrt (<) (created_nonces env key s cs) \<and>
    (\<forall>n \<in> set (created_nonces env key s cs). nonce_of (oe_nonces env) (ns_db (or_nonces s)) key \<le> n)"
  by (rule created_increasing [OF assms])

theorem created_nonces_increase_witness:
  "sorted_wrt (<) (created_nonces mem_oracle ''0xab'' mem_oracle_state
     [Create 0 ''p1'' ''0xab'' sample_dto, Sign 5 ''p1'' ''0xab'', Create 6 ''p2'' ''0xAB'' sample_dto]) \<and>
   created_nonces mem_oracle ''0xab'' mem_oracle_state
     [Create 0 ''p1'' ''0xab'' sample_dto, Sign 5 ''p1'' ''0xab'', Create 6 ''p2'' ''0xAB'' sample_dto] = [0, 1]"
proof
  show "sorted_wrt (<) (created_nonces mem_oracle ''0xab'' mem_oracle_state
     [Create 0 ''p1'' ''0xab'' sample_dto, Sign 5 ''p1'' ''0xab'', Create 6 ''p2'' ''0xAB'' sample_dto])"
    using created_nonces_increase [OF mem_oracle_parts(2) mem_oracle_table(1)] by blast
  show "created_nonces mem_oracle ''0xab'' mem_oracle_state
     [Create 0 ''p1'' ''0xab'' sample_dto, Sign 5 ''p1'' ''0xab'', Create 6 ''p2'' ''0xAB'' sample_dto] = [0, 1]" by code_simp
qed

text \<open>
  The list of pending payloads is always empty: the query asks for rows without a signature,
  and the filter keeps only those that have one.
\<close>

theorem pending_list_always_empty:
  assumes "payload_table (oe_table env) rows" and "fst (getPendingPayloads env now limit s) = Inr rs"
  shows "rs = []"
  using assms(2) payload_table.find_sound [OF assms(1)]
  by (auto simp: getPendingPayloads_def io_bind_eq split: sum.splits) (metis (no_types, lifting) filter_False)

theorem pending_list_always_empty_witness:
  "case createPayload mem_oracle 0 ''p1'' ''0xab'' sample_dto mem_oracle_state of (_, s1) \<Rightarrow>
     (case signPayload mem_oracle 1000 ''p1'' ''0xab'' s1 of (_, s2) \<Rightarrow> fst (getPendingPayloads mem_oracle 2000 100 s2) = Inr [])"
proof -
  have "\<exists>rs. fst (getPendingPayloads mem_oracle 2000 100 s) = Inr rs" for s
    using mem_oracle_table(3) unfolding reliable_finds_def getPendingPayloads_def io_bind_eq by (auto split: sum.splits) (metis Inl_Inr_False)
  then have "fst (getPendingPayloads mem_oracle 2000 100 s) = Inr []" for s
    using pending_list_always_empty [OF mem_oracle_table(1)] by metis
  then show ?thesis by (simp split: prod.splits)
qed

end
