(* ===== verification/Billing.thy ===== *)
theory Billing
  imports Js_Prelude
begin

text \<open>
  \<open>BillingService\<close> (billing/billing.service.ts): plans, metered usage with idempotency keys,
  invoice previews and the CSV and Stripe exports. A recorded time is its epoch milliseconds;
  the texts JavaScript makes of a number and of a date are arguments of the CSV export. The two
  Prometheus metrics are dropped.
\<close>

record billing_plan =
  bp_id :: string
  bp_name :: string
  bp_monthlyPriceCents :: rat
  bp_includedUnits :: rat
  bp_unitPriceCents :: rat

record usage_input =
  ui_metric :: string
  ui_quantity :: rat
  ui_tokenizedAccessId :: "string option"
  ui_idempotencyKey :: "string option"

record usage_record =
  ur_accountId :: string
  ur_metric :: string
  ur_quantity :: rat
  ur_tokenizedAccessId :: "string option"
  ur_idempotencyKey :: "string option"
  ur_recordedAt :: timestamp

record line_item =
  li_description :: string
  li_quantity :: rat
  li_unitPriceCents :: rat
  li_amountCents :: rat

record invoice_preview =
  iv_accountId :: string
  iv_planId :: string
  iv_periodStart :: timestamp
  iv_periodEnd :: timestamp
  iv_subtotalCents :: rat
  iv_currency :: string
  iv_lineItems :: "line_item list"

record stripe_item =
  si_price :: string
  si_quantity :: rat
  si_timestamp :: timestamp
  si_tokenizedAccessId :: "string option"

definition PLANS :: "billing_plan list" where
  "PLANS =
     [\<lparr>bp_id = ''free'', bp_name = ''Free'', bp_monthlyPriceCents = 0, bp_includedUnits = 100, bp_unitPriceCents = 0\<rparr>,
      \<lparr>bp_id = ''starter'', bp_name = ''Starter'', bp_monthlyPriceCents = 1900, bp_includedUnits = 10000, bp_unitPriceCents = 1\<rparr>,
      \<lparr>bp_id = ''growth'', bp_name = ''Growth'', bp_monthlyPriceCents = 9900, bp_includedUnits = 100000, bp_unitPriceCents = 1\<rparr>]"

record billing =
  bl_accountPlans :: "(string, string) js_map"
  bl_usage :: "(string, usage_record list) js_map"
  bl_idempotencyKeys :: "(string, usage_record) js_map"

definition new_billing :: billing where
  "new_billing = \<lparr>bl_accountPlans = [], bl_usage = [], bl_idempotencyKeys = []\<rparr>"

definition getPlans :: "billing_plan list" where
  "getPlans = PLANS"

definition findPlan :: "string \<Rightarrow> billing_plan result" where
  "findPlan planId =
     (case find (\<lambda>p. bp_id p = planId) PLANS of
        None \<Rightarrow> Inl (NotFound (''Unknown billing plan: '' @ planId))
      | Some p \<Rightarrow> Inr p)"

definition setPlan :: "string \<Rightarrow> string \<Rightarrow> billing \<Rightarrow> billing_plan result \<times> billing" where
  "setPlan accountId planId s =
     (case findPlan planId of
        Inl e \<Rightarrow> (Inl e, s)
      | Inr p \<Rightarrow> (Inr p, s\<lparr>bl_accountPlans := Map_set accountId (bp_id p) (bl_accountPlans s)\<rparr>))"

definition getPlan :: "string \<Rightarrow> billing \<Rightarrow> billing_plan result" where
  "getPlan accountId s = findPlan (nullish (Map_get accountId (bl_accountPlans s)) ''free'')"

text \<open>The key a record is remembered under; an empty key is falsy.\<close>

definition usage_key :: "string \<Rightarrow> string option \<Rightarrow> string option" where
  "usage_key accountId key = (if truthy key then Some (accountId @ '':'' @ the key) else None)"

definition recordUsage :: "timestamp \<Rightarrow> string \<Rightarrow> usage_input \<Rightarrow> billing \<Rightarrow> usage_record \<times> billing" where
  "recordUsage now accountId i s =
     (let idempotencyKey = usage_key accountId (ui_idempotencyKey i)
      in case (case idempotencyKey of None \<Rightarrow> None | Some k \<Rightarrow> Map_get k (bl_idempotencyKeys s)) of
           Some r \<Rightarrow> (r, s)
         | None \<Rightarrow>
             (let r = \<lparr>ur_accountId = accountId, ur_metric = ui_metric i, ur_quantity = ui_quantity i,
                       ur_tokenizedAccessId = ui_tokenizedAccessId i, ur_idempotencyKey = ui_idempotencyKey i, ur_recordedAt = now\<rparr>;
                  records = nullish (Map_get accountId (bl_usage s)) []
              in (r, s\<lparr>bl_usage := Map_set accountId (records @ [r]) (bl_usage s),
                       bl_idempotencyKeys := (case idempotencyKey of None \<Rightarrow> bl_idempotencyKeys s
                                              | Some k \<Rightarrow> Map_set k r (bl_idempotencyKeys s))\<rparr>)))"

definition getUsage :: "string \<Rightarrow> billing \<Rightarrow> usage_record list" where
  "getUsage accountId s = nullish (Map_get accountId (bl_usage s)) []"

definition createInvoicePreview :: "string \<Rightarrow> timestamp \<Rightarrow> timestamp \<Rightarrow> billing \<Rightarrow> invoice_preview result" where
  "createInvoicePreview accountId periodStart periodEnd s =
     (case getPlan accountId s of
        Inl e \<Rightarrow> Inl e
      | Inr plan \<Rightarrow>
          (let units = foldl (\<lambda>t r. t + ur_quantity r) 0
                 (filter (\<lambda>r. ur_recordedAt r \<ge> periodStart \<and> ur_recordedAt r \<le> periodEnd) (getUsage accountId s));
               overage = max 0 (units - bp_includedUnits plan);
               lineItems =
                 [\<lparr>li_description = bp_name plan @ '' monthly plan'', li_quantity = 1,
                   li_unitPriceCents = bp_monthlyPriceCents plan, li_amountCents = bp_monthlyPriceCents plan\<rparr>] @
                 (if overage > 0
                  then [\<lparr>li_description = ''Metered usage overage'', li_quantity = overage,
                         li_unitPriceCents = bp_unitPriceCents plan, li_amountCents = overage * bp_unitPriceCents plan\<rparr>]
                  else [])
           in Inr \<lparr>iv_accountId = accountId, iv_planId = bp_id plan, iv_periodStart = periodStart, iv_periodEnd = periodEnd,
                   iv_subtotalCents = foldl (\<lambda>t i. t + li_amountCents i) 0 lineItems, iv_currency = ''usd'', iv_lineItems = lineItems\<rparr>))"

definition quote :: char where "quote = CHR 0x22"

definition comma :: char where "comma = CHR '',''"

definition newline :: char where "newline = CHR 0x0A"

definition csv :: "string \<Rightarrow> string" where
  "csv text =
     (if list_ex (\<lambda>c. c = quote \<or> c = comma \<or> c = newline) text
      then [quote] @ concat (map (\<lambda>c. if c = quote then [quote, quote] else [c]) text) @ [quote]
      else text)"

definition csv_header :: string where
  "csv_header = ''account_id,metric,quantity,recorded_at,tokenized_access_id''"

definition usage_fields :: "(rat \<Rightarrow> string) \<Rightarrow> (timestamp \<Rightarrow> string) \<Rightarrow> string \<Rightarrow> usage_record \<Rightarrow> string list" where
  "usage_fields num iso_text accountId r =
     [accountId, ur_metric r, num (ur_quantity r), iso_text (ur_recordedAt r), nullish (ur_tokenizedAccessId r) []]"

definition exportUsage_csv :: "(rat \<Rightarrow> string) \<Rightarrow> (timestamp \<Rightarrow> string) \<Rightarrow> string \<Rightarrow> billing \<Rightarrow> string" where
  "exportUsage_csv num iso_text accountId s =
     join_with [newline]
       (csv_header # map (\<lambda>r. join_with [comma] (map csv (usage_fields num iso_text accountId r))) (getUsage accountId s))"

definition exportUsage_stripe :: "string \<Rightarrow> billing \<Rightarrow> string \<times> stripe_item list" where
  "exportUsage_stripe accountId s =
     (accountId, map (\<lambda>r. \<lparr>si_price = ''metered_'' @ ur_metric r, si_quantity = ur_quantity r, si_timestamp = ur_recordedAt r,
        si_tokenizedAccessId = (if truthy (ur_tokenizedAccessId r) then ur_tokenizedAccessId r else None)\<rparr>) (getUsage accountId s))"

section \<open>Specification\<close>

datatype billing_call = SetPlan string string | RecordUsage timestamp string usage_input

fun billing_step :: "billing \<Rightarrow> billing_call \<Rightarrow> billing" where
  "billing_step s (SetPlan a p) = snd (setPlan a p s)"
| "billing_step s (RecordUsage now a i) = snd (recordUsage now a i s)"

definition units_in :: "timestamp \<Rightarrow> timestamp \<Rightarrow> usage_record list \<Rightarrow> rat" where
  "units_in from_t to_t rs = sum_list (map ur_quantity (filter (\<lambda>r. from_t \<le> ur_recordedAt r \<and> ur_recordedAt r \<le> to_t) rs))"

text \<open>Every account has a known plan; every remembered record of an account is in its usage, once per key.\<close>

definition keys_of :: "usage_record list \<Rightarrow> string list" where
  "keys_of rs = map (\<lambda>r. the (ur_idempotencyKey r)) (filter (\<lambda>r. truthy (ur_idempotencyKey r)) rs)"

definition bl_inv :: "billing \<Rightarrow> bool" where
  "bl_inv s \<longleftrightarrow>
     (\<forall>a p. Map_get a (bl_accountPlans s) = Some p \<longrightarrow> (\<exists>q \<in> set PLANS. bp_id q = p)) \<and>
     (\<forall>a. distinct (keys_of (getUsage a s))) \<and>
     (\<forall>a k. k \<in> set (keys_of (getUsage a s)) \<longrightarrow> Map_get (a @ '':'' @ k) (bl_idempotencyKeys s) \<noteq> None)"

text \<open>
  A reader of CSV as a reference: fields are separated by commas and lines by newlines, a
  field that starts with a quote ends with the next quote that is not doubled.
\<close>

datatype csv_mode = FieldStart | InPlain | InQuoted

fun add_char :: "char \<Rightarrow> string list list \<Rightarrow> string list list" where
  "add_char c ((f # fs) # rows) = ((c # f) # fs) # rows"
| "add_char c rows = rows"

fun new_field :: "string list list \<Rightarrow> string list list" where
  "new_field (fs # rows) = ([] # fs) # rows"
| "new_field [] = []"

fun parse_csv :: "csv_mode \<Rightarrow> string \<Rightarrow> string list list" where
  "parse_csv m [] = [[[]]]"
| "parse_csv InQuoted [c] = (if c = quote then [[[]]] else [[[c]]])"
| "parse_csv InQuoted (c # d # s) =
     (if c = quote then (if d = quote then add_char quote (parse_csv InQuoted s) else parse_csv InPlain (d # s))
      else add_char c (parse_csv InQuoted (d # s)))"
| "parse_csv m (c # s) =
     (if c = comma then new_field (parse_csv FieldStart s)
      else if c = newline then [[]] # parse_csv FieldStart s
      else if m = FieldStart \<and> c = quote then parse_csv InQuoted s
      else add_char c (parse_csv InPlain s))"

fun attach :: "string \<Rightarrow> string list list \<Rightarrow> string list list" where
  "attach f ((g # gs) # rows) = ((f @ g) # gs) # rows"
| "attach f rows = rows"

text \<open>What may follow a field: the end, a comma or a newline; and the lines after the end of a line.\<close>

definition field_end :: "string \<Rightarrow> bool" where
  "field_end r = (case r of [] \<Rightarrow> True | c # _ \<Rightarrow> c = comma \<or> c = newline)"

definition header_fields :: "string list" where
  "header_fields = [''account_id'', ''metric'', ''quantity'', ''recorded_at'', ''tokenized_access_id'']"

section \<open>The CSV format\<close>

lemma special_chars [simp]: "comma \<noteq> quote" "comma \<noteq> newline" "newline \<noteq> quote" "newline \<noteq> comma" "quote \<noteq> comma" "quote \<noteq> newline"
  by (simp_all add: comma_def newline_def quote_def)

lemma add_char_attach: "add_char c (attach f rows) = attach (c # f) rows"
  by (cases "(f, rows)" rule: attach.cases) simp_all

lemma attach_Nil [simp]: "attach [] rows = rows"
  by (cases "([] :: string, rows)" rule: attach.cases) simp_all

lemma parse_plain:
  "\<forall>c \<in> set f. c \<noteq> comma \<and> c \<noteq> newline \<Longrightarrow> parse_csv InPlain (f @ r) = attach f (parse_csv InPlain r)"
  by (induction f) (auto simp: add_char_attach)

lemma parse_start_end: "field_end r \<Longrightarrow> parse_csv FieldStart r = parse_csv InPlain r"
  by (cases r) (auto simp: field_end_def)

lemma parse_start_plain:
  assumes "\<forall>c \<in> set f. c \<noteq> quote \<and> c \<noteq> comma \<and> c \<noteq> newline" and "field_end r"
  shows "parse_csv FieldStart (f @ r) = attach f (parse_csv InPlain r)"
proof (cases f)
  case (Cons c g)
  then show ?thesis using assms(1) parse_plain [of g r] by (simp add: add_char_attach)
qed (simp add: parse_start_end [OF assms(2)])

lemma parse_quoted_plain: "c \<noteq> quote \<Longrightarrow> parse_csv InQuoted (c # s) = add_char c (parse_csv InQuoted s)"
  by (cases s) simp_all

lemma parse_quoted:
  assumes "field_end r"
  shows "parse_csv InQuoted (concat (map (\<lambda>c. if c = quote then [quote, quote] else [c]) f) @ quote # r) = attach f (parse_csv InPlain r)"
proof (induction f)
  case Nil
  show ?case using assms by (cases r) (auto simp: field_end_def)
next
  case (Cons c f)
  then show ?case by (simp add: parse_quoted_plain add_char_attach)
qed

lemma parse_csv_field: "field_end r \<Longrightarrow> parse_csv FieldStart (csv f @ r) = attach f (parse_csv InPlain r)"
  using parse_quoted [of r f] parse_start_plain [of f r]
  by (auto simp: csv_def list_ex_iff)

lemma parse_line:
  assumes "parse_csv InPlain r = [[]] # rows" and "field_end r"
  shows "fs \<noteq> [] \<Longrightarrow> parse_csv FieldStart (join_with [comma] (map csv fs) @ r) = fs # rows"
proof (induction fs)
  case (Cons f fs)
  show ?case
  proof (cases fs)
    case Nil
    then show ?thesis using parse_csv_field [OF assms(2), of f] assms(1) by simp
  next
    case (Cons g gs)
    let ?rest = "join_with [comma] (map csv fs) @ r"
    have "parse_csv FieldStart (join_with [comma] (map csv (f # fs)) @ r) = parse_csv FieldStart (csv f @ comma # ?rest)"
      using Cons by simp
    also have "\<dots> = attach f (new_field (parse_csv FieldStart ?rest))"
      by (subst parse_csv_field) (simp_all add: field_end_def)
    also have "parse_csv FieldStart ?rest = fs # rows" using Cons.IH Cons by simp
    finally show ?thesis by simp
  qed
qed simp

lemma parse_document:
  "rs \<noteq> [] \<Longrightarrow> \<forall>fs \<in> set rs. fs \<noteq> [] \<Longrightarrow>
     parse_csv FieldStart (join_with [newline] (map (\<lambda>fs. join_with [comma] (map csv fs)) rs)) = rs"
proof (induction rs)
  case (Cons fs rs)
  show ?case
  proof (cases rs)
    case Nil
    then show ?thesis using parse_line [of "[]" "[]" fs] Cons.prems by (simp add: field_end_def)
  next
    case (Cons gs rs')
    let ?rest = "join_with [newline] (map (\<lambda>fs. join_with [comma] (map csv fs)) rs)"
    have "parse_csv FieldStart ?rest = rs" using Cons.IH Cons.prems Cons by simp
    then show ?thesis using parse_line [of "newline # ?rest" rs fs] Cons.prems Cons by (simp add: field_end_def)
  qed
qed simp

section \<open>The invariant\<close>

lemma findPlan_known: "(\<exists>q \<in> set PLANS. bp_id q = p) \<Longrightarrow> \<exists>q \<in> set PLANS. findPlan p = Inr q \<and> bp_id q = p"
  by (auto simp: findPlan_def PLANS_def)

lemma findPlan_Inr: "findPlan p = Inr q \<Longrightarrow> q \<in> set PLANS \<and> bp_id q = p"
  by (auto simp: findPlan_def find_Some_iff split: option.splits)

lemma keys_of_append: "keys_of (rs @ [r]) = keys_of rs @ (if truthy (ur_idempotencyKey r) then [the (ur_idempotencyKey r)] else [])"
  by (simp add: keys_of_def)

lemma bl_inv_setPlan: "bl_inv s \<Longrightarrow> bl_inv (snd (setPlan a p s))"
  using findPlan_Inr [of p] by (auto simp: bl_inv_def setPlan_def getUsage_def split: sum.splits)

lemma recordUsage_cases:
  obtains (replay) k r where "usage_key a (ui_idempotencyKey i) = Some k" "Map_get k (bl_idempotencyKeys s) = Some r"
      "recordUsage now a i s = (r, s)"
    | (stored) r s' where "recordUsage now a i s = (r, s')" "ur_idempotencyKey r = ui_idempotencyKey i"
      "bl_accountPlans s' = bl_accountPlans s" "\<And>b. getUsage b s' = (if b = a then getUsage a s @ [r] else getUsage b s)"
      "usage_key a (ui_idempotencyKey i) = None \<and> bl_idempotencyKeys s' = bl_idempotencyKeys s \<or>
       (\<exists>k. usage_key a (ui_idempotencyKey i) = Some k \<and> Map_get k (bl_idempotencyKeys s) = None \<and>
            bl_idempotencyKeys s' = Map_set k r (bl_idempotencyKeys s))"
proof (cases "usage_key a (ui_idempotencyKey i)")
  case None
  obtain r s' where eq: "recordUsage now a i s = (r, s')" by fastforce
  then show ?thesis using None by (intro stored [OF eq]) (auto simp: recordUsage_def getUsage_def Let_def)
next
  case (Some k)
  obtain r s' where eq: "recordUsage now a i s = (r, s')" by fastforce
  show ?thesis
  proof (cases "Map_get k (bl_idempotencyKeys s)")
    case None
    then show ?thesis using eq Some by (intro stored [OF eq]) (auto simp: recordUsage_def getUsage_def Let_def)
  next
    case (Some r)
    then show ?thesis using \<open>usage_key a (ui_idempotencyKey i) = Some k\<close> by (intro replay) (simp_all add: recordUsage_def)
  qed
qed

lemma bl_inv_recordUsage:
  assumes inv: "bl_inv s"
  shows "bl_inv (snd (recordUsage now a i s))"
proof (rule recordUsage_cases [of a i s now])
  fix r s'
  assume st: "recordUsage now a i s = (r, s')" "ur_idempotencyKey r = ui_idempotencyKey i" "bl_accountPlans s' = bl_accountPlans s"
    "\<And>b. getUsage b s' = (if b = a then getUsage a s @ [r] else getUsage b s)"
    and keys: "usage_key a (ui_idempotencyKey i) = None \<and> bl_idempotencyKeys s' = bl_idempotencyKeys s \<or>
       (\<exists>k. usage_key a (ui_idempotencyKey i) = Some k \<and> Map_get k (bl_idempotencyKeys s) = None \<and>
            bl_idempotencyKeys s' = Map_set k r (bl_idempotencyKeys s))"
  have known: "Map_get (b @ '':'' @ k) (bl_idempotencyKeys s) \<noteq> None" if "k \<in> set (keys_of (getUsage b s))" for b k
    using inv that by (simp add: bl_inv_def)
  have grow: "Map_get k (bl_idempotencyKeys s) \<noteq> None \<Longrightarrow> Map_get k (bl_idempotencyKeys s') \<noteq> None" for k
    using keys by auto
  have new: "the (ui_idempotencyKey i) \<notin> set (keys_of (getUsage a s)) \<and>
      Map_get (a @ '':'' @ the (ui_idempotencyKey i)) (bl_idempotencyKeys s') \<noteq> None" if "truthy (ui_idempotencyKey i)"
    using keys known [of "the (ui_idempotencyKey i)" a] that by (auto simp: usage_key_def)
  show ?thesis
    unfolding bl_inv_def st(1) snd_conv
  proof (intro conjI allI impI)
    show "\<exists>q \<in> set PLANS. bp_id q = p" if "Map_get b (bl_accountPlans s') = Some p" for b p
      using inv that st(3) by (simp add: bl_inv_def)
    show "distinct (keys_of (getUsage b s'))" for b
      using inv new st(2,4) by (auto simp: bl_inv_def keys_of_append)
    show "Map_get (b @ '':'' @ k) (bl_idempotencyKeys s') \<noteq> None" if "k \<in> set (keys_of (getUsage b s'))" for b k
      using that new known [of k b] grow st(2,4) by (auto simp: keys_of_append split: if_splits)
  qed
qed (use inv in simp)

interpretation bi: invariant_system billing_step bl_inv
proof (unfold_locales, goal_cases)
  case (1 s e)
  then show ?case by (cases e) (simp_all add: bl_inv_setPlan bl_inv_recordUsage)
qed

lemma bl_inv_new: "bl_inv new_billing"
  by (simp add: bl_inv_def new_billing_def getUsage_def keys_of_def)

lemma foldl_sum: "foldl (\<lambda>t x. t + f x) (a :: rat) xs = a + sum_list (map f xs)"
  by (induction xs arbitrary: a) (simp_all add: algebra_simps)

section \<open>Properties\<close>

text \<open>
  C27. An invoice preview is always produced and exact: after every history of plan changes and
  usage records, the subtotal is the plan's monthly price and the price of the units recorded
  in the period beyond the included ones, and the line items add up to it.
\<close>

theorem invoice_exact:
  "let s = run billing_step new_billing cs
   in \<exists>plan inv. getPlan a s = Inr plan \<and> plan \<in> set PLANS \<and> createInvoicePreview a t1 t2 s = Inr inv \<and>
      iv_subtotalCents inv = bp_monthlyPriceCents plan + max 0 (units_in t1 t2 (getUsage a s) - bp_includedUnits plan) * bp_unitPriceCents plan \<and>
      sum_list (map li_amountCents (iv_lineItems inv)) = iv_subtotalCents inv"
proof -
  let ?s = "run billing_step new_billing cs"
  have "bl_inv ?s" by (rule bi.run_inv [OF bl_inv_new])
  then have "\<exists>q \<in> set PLANS. bp_id q = nullish (Map_get a (bl_accountPlans ?s)) ''free''"
    by (cases "Map_get a (bl_accountPlans ?s)") (auto simp: bl_inv_def PLANS_def)
  from findPlan_known [OF this] obtain plan where "plan \<in> set PLANS" "getPlan a ?s = Inr plan" by (auto simp: getPlan_def)
  then show ?thesis
    unfolding Let_def
    by (intro exI [of _ plan] exI [of _ "projr (createInvoicePreview a t1 t2 ?s)"])
      (simp add: createInvoicePreview_def units_in_def foldl_sum Let_def conj_commute max_def)
qed

text \<open>
  Usage is metered once per idempotency key: after every history of calls, no two usage
  records of an account carry the same idempotency key.
\<close>

theorem usage_once_per_key: "distinct (keys_of (getUsage a (run billing_step new_billing cs)))"
  using bi.run_inv [OF bl_inv_new, of cs] by (simp add: bl_inv_def)

text \<open>
  Idempotency keys of different accounts collide: the remembered key is the account, a
  colon and the key, so usage of the account \<open>x\<close> under the key \<open>y:k\<close> makes the account
  \<open>x:y\<close>'s first usage under the key \<open>k\<close> look repeated: it is not metered, and the other
  account's record is returned for it.
\<close>

theorem usage_key_collision:
  assumes "k \<noteq> []" and "ui_idempotencyKey i = Some (y @ '':'' @ k)" and "ui_idempotencyKey j = Some k"
    and "Map_get (x @ '':'' @ y @ '':'' @ k) (bl_idempotencyKeys s) = None"
  shows "let (r, s1) = recordUsage t1 x i s in recordUsage t2 (x @ '':'' @ y) j s1 = (r, s1) \<and> ur_accountId r = x"
  using assms by (simp add: recordUsage_def usage_key_def Let_def)

theorem usage_key_collision_witness:
  "let i = \<lparr>ui_metric = ''calls'', ui_quantity = 1, ui_tokenizedAccessId = None, ui_idempotencyKey = Some ''eu:7''\<rparr>;
       (r, s1) = recordUsage 0 ''acme'' i new_billing
   in getUsage ''acme:eu'' (snd (recordUsage 5 ''acme:eu'' (i\<lparr>ui_quantity := 500, ui_idempotencyKey := Some ''7''\<rparr>) s1)) = []"
proof -
  let ?i = "\<lparr>ui_metric = ''calls'', ui_quantity = 1, ui_tokenizedAccessId = None, ui_idempotencyKey = Some ''eu:7''\<rparr>"
  obtain r s1 where r: "recordUsage 0 ''acme'' ?i new_billing = (r, s1)" by fastforce
  have "snd (recordUsage 5 ''acme:eu'' (?i\<lparr>ui_quantity := 500, ui_idempotencyKey := Some ''7''\<rparr>) s1) = s1"
    using usage_key_collision [of "''7''" ?i "''eu''" "?i\<lparr>ui_quantity := 500, ui_idempotencyKey := Some ''7''\<rparr>" "''acme''" new_billing 0 5] r
    by (simp add: new_billing_def)
  moreover have "getUsage ''acme:eu'' s1 = []" using r by (auto simp: recordUsage_def new_billing_def getUsage_def usage_key_def Let_def)
  ultimately show ?thesis using r by simp
qed

text \<open>
  C28. The CSV export can be read back: a CSV reader gets from it the header and, for each usage
  record of the account in order, exactly the field texts that were written, whatever quotes,
  commas or newlines they contain.
\<close>

theorem csv_roundtrip:
  "parse_csv FieldStart (exportUsage_csv num iso_text a s) = header_fields # map (usage_fields num iso_text a) (getUsage a s)"
proof -
  have "csv_header = join_with [comma] (map csv header_fields)" by code_simp
  then have "exportUsage_csv num iso_text a s = join_with [newline] (map (\<lambda>fs. join_with [comma] (map csv fs))
      (header_fields # map (usage_fields num iso_text a) (getUsage a s)))"
    by (simp add: exportUsage_csv_def comp_def)
  then show ?thesis by (simp only: parse_document) (subst parse_document, simp_all add: header_fields_def usage_fields_def)
qed

end
