(* ===== verification/Challenge.thy ===== *)
theory Challenge
  imports Js_Prelude
begin

text \<open>
  \<open>ChallengeService\<close> (core/auth/challenge.service.ts): one-time messages a wallet signs to log
  in. The random id is an argument of the operation that draws it.
\<close>

record challenge =
  ch_id :: string
  ch_message :: string
  ch_createdAt :: timestamp
  ch_expiresAt :: timestamp
  ch_address :: string

type_synonym challenges = "(string, challenge) js_map"

definition challengeExpiration :: int where "challengeExpiration = 5 * 60 * 1000"

definition message_prefix :: string where
  "message_prefix = ''Sign this message to authenticate: ''"

definition issueChallengeForAddress :: "timestamp \<Rightarrow> string \<Rightarrow> string \<Rightarrow> challenges \<Rightarrow> string \<times> challenges" where
  "issueChallengeForAddress now challengeId address m =
     (let message = message_prefix @ challengeId
      in (message, Map_set challengeId
           \<lparr>ch_id = challengeId, ch_message = message, ch_createdAt = now, ch_expiresAt = now + challengeExpiration,
            ch_address = toLowerCase address\<rparr> m))"

definition getChallenge :: "timestamp \<Rightarrow> string \<Rightarrow> challenges \<Rightarrow> challenge option \<times> challenges" where
  "getChallenge now challengeId m =
     (case Map_get challengeId m of
        None \<Rightarrow> (None, m)
      | Some c \<Rightarrow> if now > ch_expiresAt c then (None, Map_delete challengeId m) else (Some c, m))"

definition consumeChallenge :: "timestamp \<Rightarrow> string \<Rightarrow> challenges \<Rightarrow> challenge option \<times> challenges" where
  "consumeChallenge now challengeId m =
     (case getChallenge now challengeId m of
        (Some c, m') \<Rightarrow> (Some c, Map_delete challengeId m')
      | (None, m') \<Rightarrow> (None, m'))"

text \<open>
  The regular expression \<open>/Sign this message to authenticate: (.+)$/\<close>: the leftmost occurrence
  of the prefix that is followed by at least one character and no line break up to the end.
\<close>

definition line_break :: "char \<Rightarrow> bool" where
  "line_break c \<longleftrightarrow> c = CHR 0x0A \<or> c = CHR 0x0D"

fun extractChallengeId :: "string \<Rightarrow> string option" where
  "extractChallengeId [] = None"
| "extractChallengeId (c # s) =
     (let rest = drop (length message_prefix) (c # s)
      in if startsWith (c # s) message_prefix \<and> rest \<noteq> [] \<and> \<not> list_ex line_break rest then Some rest
         else extractChallengeId s)"

section \<open>Specification\<close>

datatype challenge_call = Issue timestamp string string | Get timestamp string | Consume timestamp string

fun challenge_step :: "challenges \<Rightarrow> challenge_call \<Rightarrow> challenges" where
  "challenge_step m (Issue now i a) = snd (issueChallengeForAddress now i a m)"
| "challenge_step m (Get now i) = snd (getChallenge now i m)"
| "challenge_step m (Consume now i) = snd (consumeChallenge now i m)"

fun issues :: "string \<Rightarrow> challenge_call \<Rightarrow> bool" where
  "issues i (Issue _ j _) = (i = j)"
| "issues i _ = False"

text \<open>The calls of a history that get the challenge \<open>i\<close> consumed.\<close>

fun consumptions :: "string \<Rightarrow> challenges \<Rightarrow> challenge_call list \<Rightarrow> challenge list" where
  "consumptions i m [] = []"
| "consumptions i m (c # cs) =
     (case c of Consume now j \<Rightarrow> (case fst (consumeChallenge now j m) of Some ch \<Rightarrow> if j = i then [ch] else [] | None \<Rightarrow> []) | _ \<Rightarrow> [])
       @ consumptions i (challenge_step m c) cs"

text \<open>A call that neither issues nor consumes the challenge \<open>i\<close> and comes before a time.\<close>

fun harmless :: "string \<Rightarrow> timestamp \<Rightarrow> challenge_call \<Rightarrow> bool" where
  "harmless i t (Issue _ j _) = (j \<noteq> i)"
| "harmless i t (Get now j) = (j = i \<longrightarrow> now \<le> t)"
| "harmless i t (Consume _ j) = (j \<noteq> i)"

section \<open>Facts\<close>

lemma consume_get:
  "Map_get i (snd (consumeChallenge now j m)) = (if i = j then None else Map_get i m)"
  by (auto simp: consumeChallenge_def getChallenge_def split: option.splits)

lemma get_get: "Map_get i (snd (getChallenge now j m)) = None \<or> Map_get i (snd (getChallenge now j m)) = Map_get i m"
  by (auto simp: getChallenge_def split: option.splits)

lemma consume_some: "fst (consumeChallenge now i m) = Some ch \<Longrightarrow> Map_get i m \<noteq> None"
  by (auto simp: consumeChallenge_def getChallenge_def split: option.splits if_splits)

lemma consumptions_bound:
  "length (consumptions i m cs) \<le> (if Map_get i m = None then 0 else 1) + length (filter (issues i) cs)"
proof (induction cs arbitrary: m)
  case (Cons c cs)
  show ?case
  proof (cases c)
    case (Issue now j a)
    then show ?thesis using Cons [of "challenge_step m c"] by (auto simp: issueChallengeForAddress_def Let_def split: if_splits)
  next
    case (Get now j)
    then show ?thesis using Cons [of "challenge_step m c"] get_get [of i now j m] by (auto split: if_splits)
  next
    case (Consume now j)
    then show ?thesis
      using Cons [of "challenge_step m c"] consume_get [of i now j m] consume_some [of now i m]
      by (cases "fst (consumeChallenge now j m)") (auto split: if_splits)
  qed
qed simp

lemma harmless_run:
  "list_all (harmless i (ch_expiresAt ch)) cs \<Longrightarrow> Map_get i m = Some ch \<Longrightarrow> Map_get i (run challenge_step m cs) = Some ch"
proof (induction cs arbitrary: m)
  case (Cons c cs)
  have "Map_get i (challenge_step m c) = Some ch"
    using Cons.prems
    by (cases c) (auto simp: issueChallengeForAddress_def getChallenge_def consume_get Let_def split: option.splits)
  then show ?case using Cons by simp
qed simp

lemma extract_issued:
  assumes "i \<noteq> []" and "\<not> list_ex line_break i"
  shows "extractChallengeId (message_prefix @ i) = Some i"
proof -
  obtain c s where cs: "message_prefix @ i = c # s" by (cases "message_prefix @ i") (auto simp: message_prefix_def)
  have "drop (length message_prefix) (c # s) = i" "startsWith (c # s) message_prefix" unfolding cs [symmetric] by simp_all
  then show ?thesis using assms unfolding cs by simp
qed

section \<open>Properties\<close>

text \<open>
  A challenge is used at most once: through every history of calls, a challenge id is
  consumed no more often than it was issued, from a store that does not hold it yet.
\<close>

theorem challenge_used_once: "length (consumptions i [] cs) \<le> length (filter (issues i) cs)"
  using consumptions_bound [of i "[]" cs] by simp

text \<open>
  An issued challenge can be answered: the id is recovered from the message, and through
  every history that does not consume or reissue it, a consumption within five minutes returns
  the challenge with the address it was issued for, in lower case.
\<close>

theorem challenge_answerable:
  assumes "issueChallengeForAddress t i a m = (message, m')" and "i \<noteq> []" and "\<not> list_ex line_break i"
    and "list_all (harmless i (t + challengeExpiration)) cs" and "now \<le> t + challengeExpiration"
  shows "extractChallengeId message = Some i \<and>
    (\<exists>ch. fst (consumeChallenge now i (run challenge_step m' cs)) = Some ch \<and> ch_address ch = toLowerCase a \<and> ch_message ch = message)"
proof -
  let ?ch = "\<lparr>ch_id = i, ch_message = message, ch_createdAt = t, ch_expiresAt = t + challengeExpiration, ch_address = toLowerCase a\<rparr>"
  have "message = message_prefix @ i" "Map_get i m' = Some ?ch" using assms(1) by (auto simp: issueChallengeForAddress_def Let_def)
  moreover from this have "Map_get i (run challenge_step m' cs) = Some ?ch" using assms(4) by (intro harmless_run) auto
  ultimately show ?thesis
    using extract_issued [OF assms(2,3)] assms(5) by (simp add: consumeChallenge_def getChallenge_def)
qed

theorem challenge_answerable_witness:
  "let (message, m) = issueChallengeForAddress 0 ''c0ffee'' ''0xAB'' []
   in extractChallengeId message = Some ''c0ffee'' \<and>
      (\<exists>ch. fst (consumeChallenge 9000 ''c0ffee'' (run challenge_step m [Get 8000 ''c0ffee'', Issue 8500 ''beef'' ''0xCD''])) = Some ch \<and>
        ch_address ch = ''0xab'')"
proof -
  obtain message m where i: "issueChallengeForAddress 0 ''c0ffee'' ''0xAB'' [] = (message, m)" by fastforce
  have h: "\<not> list_ex line_break ''c0ffee''" "toLowerCase ''0xAB'' = ''0xab''"
    "list_all (harmless ''c0ffee'' (0 + challengeExpiration)) [Get 8000 ''c0ffee'', Issue 8500 ''beef'' ''0xCD'']" by code_simp+
  show ?thesis
    using challenge_answerable [OF i _ h(1,3), of 9000] i h(2) by (auto simp: challengeExpiration_def)
qed

end
