(* ===== verification/Roles.thy ===== *)
theory Roles
  imports Js_Prelude
begin

text \<open>
  Roles and the guard that checks them (common/guard/roles.enum.ts, roles.guard.ts). Strings are
  Latin-1: of the letters there whose upper case lies outside (the sharp s apart) none occurs in
  the name of a role, and they are left as they are.
\<close>

datatype role = USER | OPERATOR | ADMIN | GOVERNANCE_OPERATOR | KYC_OPERATOR

fun role_value :: "role \<Rightarrow> string" where
  "role_value USER = ''USER''"
| "role_value OPERATOR = ''OPERATOR''"
| "role_value ADMIN = ''ADMIN''"
| "role_value GOVERNANCE_OPERATOR = ''GOVERNANCE_OPERATOR''"
| "role_value KYC_OPERATOR = ''KYC_OPERATOR''"

definition ROLE_VALUES :: "role list" where
  "ROLE_VALUES = [USER, OPERATOR, ADMIN, GOVERNANCE_OPERATOR, KYC_OPERATOR]"

definition normalizeRole :: "string option \<Rightarrow> role" where
  "normalizeRole value =
     (let normalized = toUpperCase (trim (nullish value ''''))
      in nullish (List.find (\<lambda>r. role_value r = normalized) ROLE_VALUES) USER)"

definition ROLE_HIERARCHY :: "role list" where
  "ROLE_HIERARCHY = [USER, OPERATOR, ADMIN]"

definition CONFLICTING_ROLE_PAIRS :: "(role \<times> role) list" where
  "CONFLICTING_ROLE_PAIRS = [(GOVERNANCE_OPERATOR, KYC_OPERATOR)]"

definition hasConflictingRoles :: "role list \<Rightarrow> bool" where
  "hasConflictingRoles roles = list_ex (\<lambda>(a, b). a \<in> set roles \<and> b \<in> set roles) CONFLICTING_ROLE_PAIRS"

fun indexOf :: "'a list \<Rightarrow> 'a \<Rightarrow> int" where
  "indexOf [] x = -1"
| "indexOf (y # ys) x = (if y = x then 0 else (let i = indexOf ys x in if i = -1 then -1 else i + 1))"

definition hasRole :: "role \<Rightarrow> role \<Rightarrow> bool" where
  "hasRole candidate required =
     (if candidate = required then True
      else if candidate = ADMIN then True
      else (let candidateIdx = indexOf ROLE_HIERARCHY candidate; requiredIdx = indexOf ROLE_HIERARCHY required
            in if candidateIdx = -1 \<or> requiredIdx = -1 then False else candidateIdx \<ge> requiredIdx))"

section \<open>The guard\<close>

text \<open>\<open>request.user\<close> as the guard reads it, and the roles the route asks for, if it has any.\<close>

record role_claims =
  rc_id :: "string option"
  rc_address :: "string option"
  rc_role :: "string option"
  rc_roles :: "string list option"

definition roles_canActivate :: "role list option \<Rightarrow> role_claims option \<Rightarrow> bool result" where
  "roles_canActivate requiredRoles user =
     (case requiredRoles of
        None \<Rightarrow> Inr True
      | Some [] \<Rightarrow> Inr True
      | Some required \<Rightarrow>
          (case user of
             None \<Rightarrow> Inl (Unauthorized ''No authenticated user found on request'')
           | Some u \<Rightarrow>
               (let rawRoles = nullish (rc_roles u) (if truthy (rc_role u) then [the (rc_role u)] else []);
                    userRoles = map (\<lambda>r. normalizeRole (Some r)) rawRoles
                in if userRoles = [] then Inl (Forbidden ''User has no role assigned'')
                   else if list_ex (\<lambda>req. list_ex (\<lambda>c. hasRole c req) userRoles) required then Inr True
                   else Inl (Forbidden (''Insufficient permissions. Required: ['' @
                          join_with '', '' (map role_value required) @ '']'')))))"

section \<open>Specification\<close>

text \<open>The relation the comment on \<open>hasRole\<close> describes: who directly stands above whom.\<close>

inductive supersedes :: "role \<Rightarrow> role \<Rightarrow> bool" where
  operator: "supersedes OPERATOR USER"
| admin: "supersedes ADMIN OPERATOR"
| governance: "supersedes ADMIN GOVERNANCE_OPERATOR"
| kyc: "supersedes ADMIN KYC_OPERATOR"

section \<open>Facts\<close>

inductive_simps supersedes_simps [simp]: "supersedes r s"

lemma supersedes_hasRole: "supersedes\<^sup>*\<^sup>* r s \<Longrightarrow> hasRole r s"
proof (induction rule: converse_rtranclp_induct)
  case base then show ?case by (simp add: hasRole_def)
next
  case (step y z)
  then show ?case by (cases z; cases s) (auto simp: hasRole_def ROLE_HIERARCHY_def)
qed

lemma hasRole_supersedes: "hasRole r s \<Longrightarrow> supersedes\<^sup>*\<^sup>* r s"
proof -
  have a: "supersedes\<^sup>*\<^sup>* ADMIN OPERATOR" "supersedes\<^sup>*\<^sup>* OPERATOR USER" "supersedes\<^sup>*\<^sup>* ADMIN GOVERNANCE_OPERATOR"
      "supersedes\<^sup>*\<^sup>* ADMIN KYC_OPERATOR"
    by (auto intro: r_into_rtranclp)
  then have "supersedes\<^sup>*\<^sup>* ADMIN USER" using rtranclp_trans [of supersedes ADMIN OPERATOR USER] by simp
  then show "hasRole r s \<Longrightarrow> supersedes\<^sup>*\<^sup>* r s" using a by (cases r; cases s) (auto simp: hasRole_def ROLE_HIERARCHY_def)
qed

lemma hasRole_trans: "hasRole a b \<Longrightarrow> hasRole b c \<Longrightarrow> hasRole a c"
  using supersedes_hasRole hasRole_supersedes rtranclp_trans by metis

lemma hasRole_antisym: "hasRole a b \<Longrightarrow> hasRole b a \<Longrightarrow> a = b"
  by (cases a; cases b) (auto simp: hasRole_def ROLE_HIERARCHY_def)

lemma all_roles: "list_all P ROLE_VALUES \<Longrightarrow> P r"
  by (cases r) (auto simp: ROLE_VALUES_def)

lemma normalize_value: "normalizeRole (Some (role_value r)) = r"
  by (rule all_roles) code_simp

lemma normalize_lower: "normalizeRole (Some (toLowerCase (role_value r))) = r"
  by (rule all_roles) code_simp

lemma normalize_none: "normalizeRole None = USER"
  by code_simp

section \<open>Properties\<close>

text \<open>
  C25. The role check is the documented order: \<open>hasRole\<close> holds exactly along chains of the direct
  relations OPERATOR over USER and ADMIN over OPERATOR, GOVERNANCE\_OPERATOR and KYC\_OPERATOR. It
  is a partial order, the specialised roles give access to nothing but themselves, and every
  role is read back from its name in upper and in lower case.
\<close>

theorem hasRole_is_hierarchy:
  "hasRole = supersedes\<^sup>*\<^sup>* \<and> reflp hasRole \<and> transp hasRole \<and> antisymp hasRole \<and>
   (\<forall>s. hasRole GOVERNANCE_OPERATOR s = (s = GOVERNANCE_OPERATOR) \<and> hasRole KYC_OPERATOR s = (s = KYC_OPERATOR)) \<and>
   (\<forall>r. normalizeRole (Some (role_value r)) = r \<and> normalizeRole (Some (toLowerCase (role_value r))) = r)"
proof -
  have "hasRole = supersedes\<^sup>*\<^sup>*" using supersedes_hasRole hasRole_supersedes by (intro ext) blast
  moreover have "reflp hasRole" by (simp add: reflp_def hasRole_def)
  moreover have "transp hasRole" by (rule transpI) (rule hasRole_trans)
  moreover have "antisymp hasRole" by (rule antisympI) (rule hasRole_antisym)
  moreover have "hasRole GOVERNANCE_OPERATOR s = (s = GOVERNANCE_OPERATOR)" "hasRole KYC_OPERATOR s = (s = KYC_OPERATOR)" for s
    by (cases s; simp add: hasRole_def ROLE_HIERARCHY_def)+
  ultimately show ?thesis by (simp add: normalize_value normalize_lower)
qed

end
