(* ===== verification/Auth_Tables.thy ===== *)
theory Auth_Tables
  imports Sql_Table Roles Challenge
begin

text \<open>
  The entities of the accounts (core/user/entities/user.entity.ts, core/auth/entities/*.ts) and
  the state the authentication services share: five TypeORM tables, each a parameter with the
  laws of \<open>sql_table\<close>, the challenges, the recovery sessions and the token blacklist. The columns
  \<open>createdAt\<close> and \<open>updatedAt\<close> that no service reads are left out.
\<close>

section \<open>Entities\<close>

datatype kyc_status = UNVERIFIED | KYC_PENDING | IN_REVIEW | KYC_VERIFIED | KYC_REJECTED

record user =
  us_id :: string
  us_username :: "string option"
  us_walletAddress :: string
  us_email :: "string option"
  us_password :: "string option"
  us_emailVerified :: bool
  us_role :: role
  us_kycStatus :: kyc_status
  us_isActive :: bool
  us_lastLoginAt :: "timestamp option"
  us_referralCode :: "string option"
  us_referredById :: "string option"

datatype wallet_status = ACTIVE | PENDING | REVOKED | UNLINKED

datatype wallet_type = PRIMARY | SECONDARY | DELEGATED | HARDWARE

record wallet =
  wa_id :: string
  wa_address :: string
  wa_userId :: string
  wa_type :: wallet_type
  wa_status :: wallet_status
  wa_isPrimary :: bool
  wa_name :: "string option"
  wa_verificationSignature :: "string option"
  wa_verificationChallenge :: "string option"
  wa_verifiedAt :: "timestamp option"
  wa_linkedIp :: "string option"
  wa_linkedUserAgent :: "string option"
  wa_delegatedById :: "string option"
  wa_delegationExpiresAt :: "timestamp option"
  wa_delegationPermissions :: "string list option"
  wa_lastUsedAt :: "timestamp option"
  wa_recoveryCodeHash :: "string option"
  wa_recoveryEnabled :: bool
  wa_nonce :: string
  wa_createdAt :: timestamp

record refresh_token =
  rt_id :: string
  rt_userId :: string
  rt_token :: string
  rt_expiresAt :: timestamp
  rt_revoked :: bool
  rt_revokedAt :: "timestamp option"
  rt_replacedByToken :: "string option"
  rt_ipAddress :: string
  rt_userAgent :: "string option"

datatype two_factor_type = TOTP | SMS | EMAIL

datatype two_factor_status = TF_PENDING | TF_VERIFIED | TF_DISABLED

text \<open>The JSON array of hashes in the column \<open>backupCodes\<close> is a list.\<close>

record two_factor_auth =
  tf_id :: string
  tf_userId :: string
  tf_type :: two_factor_type
  tf_status :: two_factor_status
  tf_secret :: string
  tf_backupCodes :: "string list option"
  tf_isEnabled :: bool
  tf_failedAttempts :: int
  tf_lockedUntil :: "timestamp option"
  tf_verifiedAt :: "timestamp option"
  tf_lastUsedAt :: "timestamp option"

record email_verification =
  ev_id :: string
  ev_email :: string
  ev_token :: string
  ev_walletAddress :: string
  ev_expiresAt :: timestamp

text \<open>\<open>RecoveryMethod\<close> and \<open>RecoverySession\<close> of session-recovery.service.ts.\<close>

datatype recovery_type = Backup_code | Email_code | Social

record recovery_method =
  rm_type :: recovery_type
  rm_identifier :: string
  rm_verified :: bool

record recovery_session =
  rs_id :: string
  rs_userId :: string
  rs_walletId :: string
  rs_method :: recovery_method
  rs_expiresAt :: timestamp
  rs_attempts :: int
  rs_verified :: bool

section \<open>The shared state\<close>

record ('u, 'w, 'r, 'f, 'v) auth_repos =
  ar_users :: "('u, user) table_ops"
  ar_wallets :: "('w, wallet) table_ops"
  ar_refresh :: "('r, refresh_token) table_ops"
  ar_twoFactor :: "('f, two_factor_auth) table_ops"
  ar_verifications :: "('v, email_verification) table_ops"

record ('u, 'w, 'r, 'f, 'v) auth_world =
  aw_users :: 'u
  aw_wallets :: 'w
  aw_refresh :: 'r
  aw_twoFactor :: 'f
  aw_verifications :: 'v
  aw_challenges :: challenges
  aw_sessions :: "(string, recovery_session) js_map"
  aw_blacklist :: "(string, timestamp) js_map"

definition on_users :: "('u, 'a) io \<Rightarrow> (('u, 'w, 'r, 'f, 'v) auth_world, 'a) io" where
  "on_users = on_part aw_users (\<lambda>d w. w\<lparr>aw_users := d\<rparr>)"

definition on_wallets :: "('w, 'a) io \<Rightarrow> (('u, 'w, 'r, 'f, 'v) auth_world, 'a) io" where
  "on_wallets = on_part aw_wallets (\<lambda>d w. w\<lparr>aw_wallets := d\<rparr>)"

definition on_refresh :: "('r, 'a) io \<Rightarrow> (('u, 'w, 'r, 'f, 'v) auth_world, 'a) io" where
  "on_refresh = on_part aw_refresh (\<lambda>d w. w\<lparr>aw_refresh := d\<rparr>)"

definition on_twoFactor :: "('f, 'a) io \<Rightarrow> (('u, 'w, 'r, 'f, 'v) auth_world, 'a) io" where
  "on_twoFactor = on_part aw_twoFactor (\<lambda>d w. w\<lparr>aw_twoFactor := d\<rparr>)"

definition on_verifications :: "('v, 'a) io \<Rightarrow> (('u, 'w, 'r, 'f, 'v) auth_world, 'a) io" where
  "on_verifications = on_part aw_verifications (\<lambda>d w. w\<lparr>aw_verifications := d\<rparr>)"

definition on_challenges :: "(challenges \<Rightarrow> 'a \<times> challenges) \<Rightarrow> (('u, 'w, 'r, 'f, 'v) auth_world, 'a) io" where
  "on_challenges f w = (case f (aw_challenges w) of (x, c) \<Rightarrow> (Inr x, w\<lparr>aw_challenges := c\<rparr>))"

definition on_sessions ::
  "((string, recovery_session) js_map \<Rightarrow> 'a \<times> (string, recovery_session) js_map) \<Rightarrow> (('u, 'w, 'r, 'f, 'v) auth_world, 'a) io" where
  "on_sessions f w = (case f (aw_sessions w) of (x, m) \<Rightarrow> (Inr x, w\<lparr>aw_sessions := m\<rparr>))"

text \<open>A lookup of a user by id, which also serves \<open>relations: ["user"]\<close>: the row the foreign key names.\<close>

definition find_user ::
  "('u, 'w, 'r, 'f, 'v) auth_repos \<Rightarrow> (user \<Rightarrow> bool) \<Rightarrow> (('u, 'w, 'r, 'f, 'v) auth_world, user option) io" where
  "find_user rp P = on_users (to_findOne (ar_users rp) P any_order)"

definition save_user ::
  "('u, 'w, 'r, 'f, 'v) auth_repos \<Rightarrow> user \<Rightarrow> (('u, 'w, 'r, 'f, 'v) auth_world, unit) io" where
  "save_user rp r = on_users (to_save (ar_users rp) r)"

definition find_wallet ::
  "('u, 'w, 'r, 'f, 'v) auth_repos \<Rightarrow> (wallet \<Rightarrow> bool) \<Rightarrow> (('u, 'w, 'r, 'f, 'v) auth_world, wallet option) io" where
  "find_wallet rp P = on_wallets (to_findOne (ar_wallets rp) P any_order)"

definition save_wallet ::
  "('u, 'w, 'r, 'f, 'v) auth_repos \<Rightarrow> wallet \<Rightarrow> (('u, 'w, 'r, 'f, 'v) auth_world, unit) io" where
  "save_wallet rp r = on_wallets (to_save (ar_wallets rp) r)"

section \<open>The laws of the tables\<close>

locale auth_tables =
  u: sql_table "ar_users rp" us_id urows +
  w: sql_table "ar_wallets rp" wa_id wrows +
  r: sql_table "ar_refresh rp" rt_id rrows +
  f: sql_table "ar_twoFactor rp" tf_id frows +
  v: sql_table "ar_verifications rp" ev_id vrows
  for rp :: "('u, 'w, 'r, 'f, 'v) auth_repos" and urows and wrows and rrows and frows and vrows

section \<open>Tables in memory\<close>

type_synonym mem_world =
  "(user mem_table, wallet mem_table, refresh_token mem_table, two_factor_auth mem_table, email_verification mem_table) auth_world"

definition mem_repos ::
  "(user mem_table, wallet mem_table, refresh_token mem_table, two_factor_auth mem_table, email_verification mem_table) auth_repos" where
  "mem_repos = \<lparr>ar_users = mem_table_ops us_id, ar_wallets = mem_table_ops wa_id, ar_refresh = mem_table_ops rt_id,
     ar_twoFactor = mem_table_ops tf_id, ar_verifications = mem_table_ops ev_id\<rparr>"

definition calm_repos ::
  "(user mem_table, wallet mem_table, refresh_token mem_table, two_factor_auth mem_table, email_verification mem_table) auth_repos" where
  "calm_repos = \<lparr>ar_users = calm_table_ops us_id, ar_wallets = calm_table_ops wa_id, ar_refresh = calm_table_ops rt_id,
     ar_twoFactor = calm_table_ops tf_id, ar_verifications = calm_table_ops ev_id\<rparr>"

definition mem_world_of ::
  "user list \<Rightarrow> wallet list \<Rightarrow> refresh_token list \<Rightarrow> two_factor_auth list \<Rightarrow> email_verification list \<Rightarrow> mem_world" where
  "mem_world_of us ws rs fs vs =
     \<lparr>aw_users = \<lparr>mt_rows = us, mt_faults = []\<rparr>, aw_wallets = \<lparr>mt_rows = ws, mt_faults = []\<rparr>,
      aw_refresh = \<lparr>mt_rows = rs, mt_faults = []\<rparr>, aw_twoFactor = \<lparr>mt_rows = fs, mt_faults = []\<rparr>,
      aw_verifications = \<lparr>mt_rows = vs, mt_faults = []\<rparr>, aw_challenges = [], aw_sessions = [], aw_blacklist = []\<rparr>"

text \<open>All tables without failures.\<close>

definition reliable_repos :: "('u, 'w, 'r, 'f, 'v) auth_repos \<Rightarrow> bool" where
  "reliable_repos rp \<longleftrightarrow> reliable_table (ar_users rp) \<and> reliable_table (ar_wallets rp) \<and> reliable_table (ar_refresh rp) \<and>
     reliable_table (ar_twoFactor rp) \<and> reliable_table (ar_verifications rp)"

text \<open>An example account.\<close>

definition sample_user :: user where
  "sample_user = \<lparr>us_id = ''u1'', us_username = Some ''ann'', us_walletAddress = ''0xaa'', us_email = Some ''a@x.io'',
     us_password = Some ''pw'', us_emailVerified = True, us_role = USER, us_kycStatus = UNVERIFIED, us_isActive = True,
     us_lastLoginAt = None, us_referralCode = None, us_referredById = None\<rparr>"

section \<open>Facts\<close>

lemmas world_parts [js_defs] = on_users_def on_wallets_def on_refresh_def on_twoFactor_def on_verifications_def on_part_eq
  find_user_def save_user_def find_wallet_def save_wallet_def

lemma on_challenges_eq: "on_challenges f w = (Inr (fst (f (aw_challenges w))), w\<lparr>aw_challenges := snd (f (aw_challenges w))\<rparr>)"
  by (simp add: on_challenges_def split: prod.splits)

lemma on_sessions_eq: "on_sessions f w = (Inr (fst (f (aw_sessions w))), w\<lparr>aw_sessions := snd (f (aw_sessions w))\<rparr>)"
  by (simp add: on_sessions_def split: prod.splits)

interpretation ma: auth_tables mem_repos "table_row us_id" "table_row wa_id" "table_row rt_id" "table_row tf_id" "table_row ev_id"
  unfolding auth_tables_def mem_repos_def auth_repos.simps by (intro conjI mt.sql_table_axioms)

interpretation ca: auth_tables calm_repos "table_row us_id" "table_row wa_id" "table_row rt_id" "table_row tf_id" "table_row ev_id"
  unfolding auth_tables_def calm_repos_def auth_repos.simps by (intro conjI ct.sql_table_axioms)

lemma calm_repos_reliable: "reliable_repos calm_repos"
  by (simp add: reliable_repos_def calm_repos_def calm_table_reliable)

text \<open>Specifications over the rows of the wallet table, and the calls that leave them alone.\<close>

context auth_tables
begin

lemma find_wallet_triple:
  assumes "\<And>t rows. K rows \<Longrightarrow> rows (wa_id t) = Some t \<Longrightarrow> P t \<Longrightarrow> Q (Some t) rows"
    and "\<And>rows. K rows \<Longrightarrow> \<forall>k t. rows k = Some t \<longrightarrow> \<not> P t \<Longrightarrow> Q None rows" and "\<And>rows. K rows \<Longrightarrow> E rows"
  shows "io_triple (\<lambda>w. K (wrows (aw_wallets w))) (find_wallet rp P) (\<lambda>x w. Q x (wrows (aw_wallets w))) (\<lambda>w. E (wrows (aw_wallets w)))"
proof -
  have "Q x (wrows (snd (to_findOne (ar_wallets rp) P any_order d)))" if K: "K (wrows d)" and x: "fst (to_findOne (ar_wallets rp) P any_order d) = Inr x" for d x
    using x
      assms(1) [OF K] assms(2) [OF K] w.findOne_some [of P any_order d] w.findOne_none [of P any_order d] w.findOne_rows [of P any_order d]
    by (cases x) auto
  then show ?thesis using assms(3) by (simp add: io_triple_def find_wallet_def on_wallets_def on_part_eq w.findOne_rows)
qed

lemma findOne_wallet_triple:
  assumes "\<And>t rows. K rows \<Longrightarrow> rows (wa_id t) = Some t \<Longrightarrow> P t \<Longrightarrow> Q (Some t) rows"
    and "\<And>rows. K rows \<Longrightarrow> Q None rows" and "\<And>rows. K rows \<Longrightarrow> E rows"
  shows "io_triple (\<lambda>w. K (wrows (aw_wallets w))) (on_wallets (to_findOne (ar_wallets rp) P ord)) (\<lambda>x w. Q x (wrows (aw_wallets w)))
    (\<lambda>w. E (wrows (aw_wallets w)))"
proof -
  have "Q x (wrows (snd (to_findOne (ar_wallets rp) P ord d)))" if K: "K (wrows d)" and x: "fst (to_findOne (ar_wallets rp) P ord d) = Inr x" for d x
    using x
      assms(1) [OF K] assms(2) [OF K] w.findOne_some [of P ord d] w.findOne_rows [of P ord d]
    by (cases x) auto
  then show ?thesis using assms(3) by (simp add: io_triple_def on_wallets_def on_part_eq w.findOne_rows)
qed

lemma find_wallets_triple:
  assumes "\<And>rows ts. K rows \<Longrightarrow> set ts = {t. P t \<and> (\<exists>k. rows k = Some t)} \<Longrightarrow> Q ts rows" and "\<And>rows. K rows \<Longrightarrow> E rows"
  shows "io_triple (\<lambda>w. K (wrows (aw_wallets w))) (on_wallets (to_find (ar_wallets rp) P ord)) (\<lambda>x w. Q x (wrows (aw_wallets w)))
    (\<lambda>w. E (wrows (aw_wallets w)))"
  using assms w.find_set [of P ord] w.find_rows [of P ord]
  by (auto simp: io_triple_def on_wallets_def on_part_eq split: sum.splits)

lemma save_wallet_triple:
  assumes "\<And>rows. K rows \<Longrightarrow> Q (rows(wa_id t \<mapsto> t))" and "\<And>rows. K rows \<Longrightarrow> E rows"
  shows "io_triple (\<lambda>w. K (wrows (aw_wallets w))) (save_wallet rp t) (\<lambda>_ w. Q (wrows (aw_wallets w))) (\<lambda>w. E (wrows (aw_wallets w)))"
  using assms w.save_ok [of t] w.save_err [of t]
  by (auto simp: io_triple_def save_wallet_def on_wallets_def on_part_eq split: sum.splits)

lemma update_wallet_triple:
  assumes "\<And>rows. K rows \<Longrightarrow> Q (\<lambda>k. map_option (\<lambda>r. if P r then g r else r) (rows k))" and "\<And>rows. K rows \<Longrightarrow> E rows"
    and "\<And>r. wa_id (g r) = wa_id r"
  shows "io_triple (\<lambda>w. K (wrows (aw_wallets w))) (on_wallets (to_update (ar_wallets rp) P g)) (\<lambda>_ w. Q (wrows (aw_wallets w)))
    (\<lambda>w. E (wrows (aw_wallets w)))"
proof -
  have "wrows (snd (to_update (ar_wallets rp) P g d)) = (\<lambda>k. map_option (\<lambda>r. if P r then g r else r) (wrows d k))"
    if "fst (to_update (ar_wallets rp) P g d) = Inr x" for d x
    using w.update_ok [OF that assms(3)] by auto
  then show ?thesis using assms(1,2) w.update_err [of P g]
    by (auto simp: io_triple_def on_wallets_def on_part_eq split: sum.splits)
qed

lemma other_parts_triple:
  assumes "\<And>rows. K rows \<Longrightarrow> E rows"
  shows "io_triple (\<lambda>w. K (wrows (aw_wallets w))) (find_user rp P) (\<lambda>_ w. K (wrows (aw_wallets w))) (\<lambda>w. E (wrows (aw_wallets w)))"
    "io_triple (\<lambda>w. K (wrows (aw_wallets w))) (on_users m) (\<lambda>_ w. K (wrows (aw_wallets w))) (\<lambda>w. E (wrows (aw_wallets w)))"
    "io_triple (\<lambda>w. K (wrows (aw_wallets w))) (on_challenges f) (\<lambda>_ w. K (wrows (aw_wallets w))) (\<lambda>w. E (wrows (aw_wallets w)))"
    "io_triple (\<lambda>w. K (wrows (aw_wallets w))) (on_sessions g) (\<lambda>_ w. K (wrows (aw_wallets w))) (\<lambda>w. E (wrows (aw_wallets w)))"
  using assms
  by (auto simp: io_triple_def find_user_def on_users_def on_part_eq on_challenges_eq on_sessions_eq split: sum.splits)

end

end
