(* ===== verification/Jwt_Session.thy ===== *)
theory Jwt_Session
  imports Auth_Tables Quota
begin

text \<open>
  Access tokens: the blacklist (core/auth/token-blacklist.service.ts), the strategy that turns a
  verified token into the principal of a request (jwt.strategy.ts), the log-out of
  auth.service.ts and the token lifetimes of config/jwt.config.ts. Signing and verifying tokens
  is done by \<^verbatim>\<open>jsonwebtoken\<close>, a parameter with the laws of the locale \<open>jwt_service\<close>.
\<close>

section \<open>Token blacklist\<close>

type_synonym blacklist = "(string, timestamp) js_map"

definition revoke :: "string \<Rightarrow> timestamp \<Rightarrow> blacklist \<Rightarrow> blacklist" where
  "revoke jti expiresAt b = Map_set jti expiresAt b"

definition isRevoked :: "timestamp \<Rightarrow> string \<Rightarrow> blacklist \<Rightarrow> bool \<times> blacklist" where
  "isRevoked now jti b =
     (case Map_get jti b of
        None \<Rightarrow> (False, b)
      | Some expiry \<Rightarrow> if now > expiry then (False, Map_delete jti b) else (True, b))"

definition cleanup_blacklist :: "timestamp \<Rightarrow> blacklist \<Rightarrow> blacklist" where
  "cleanup_blacklist now b = Map_filter (\<lambda>_ expiry. \<not> now > expiry) b"

section \<open>Tokens\<close>

definition ACCESS_TOKEN_TTL_SECONDS :: int where "ACCESS_TOKEN_TTL_SECONDS = 15 * 60"

definition REFRESH_TOKEN_TTL_MS :: int where "REFRESH_TOKEN_TTL_MS = 7 * 24 * 60 * 60 * 1000"

record jwt_payload =
  jp_sub :: "string option"
  jp_address :: "string option"
  jp_email :: "string option"
  jp_username :: "string option"
  jp_role :: "string option"
  jp_tier :: "rate_tier option"
  jp_jti :: "string option"
  jp_twoFactorVerified :: "bool option"
  jp_iat :: "int option"
  jp_exp :: "int option"

datatype principal_type = Traditional | Wallet_principal

record principal =
  pr_id :: "string option"
  pr_sub :: "string option"
  pr_address :: "string option"
  pr_email :: "string option"
  pr_username :: "string option"
  pr_role :: role
  pr_roles :: "role list"
  pr_tier :: "rate_tier option"
  pr_jti :: "string option"
  pr_twoFactorVerified :: bool
  pr_exp :: "int option"
  pr_type :: principal_type

text \<open>\<open>jwtService.sign\<close> with a lifetime in seconds, and the check of signature and expiry.\<close>

record 'tok jwt_ops =
  jo_sign :: "timestamp \<Rightarrow> int \<Rightarrow> jwt_payload \<Rightarrow> 'tok"
  jo_verify :: "timestamp \<Rightarrow> 'tok \<Rightarrow> jwt_payload option"

definition stamp_payload :: "timestamp \<Rightarrow> int \<Rightarrow> jwt_payload \<Rightarrow> jwt_payload" where
  "stamp_payload now ttl p =
     (let iat = nullish (jp_iat p) (now div 1000) in p\<lparr>jp_iat := Some iat, jp_exp := Some (iat + ttl)\<rparr>)"

locale jwt_service =
  fixes jwt :: "'tok jwt_ops"
  assumes verify_sign: "now div 1000 < the (jp_exp (stamp_payload t ttl p)) \<Longrightarrow>
      jo_verify jwt now (jo_sign jwt t ttl p) = Some (stamp_payload t ttl p)"
    and verify_exp: "jo_verify jwt now tok = Some p \<Longrightarrow> jp_exp p = Some e \<Longrightarrow> now div 1000 < e"
    and verify_same: "jo_verify jwt now tok = Some p \<Longrightarrow> jo_verify jwt now' tok = Some p' \<Longrightarrow> p' = p"

definition plain_jwt :: "jwt_payload jwt_ops" where
  "plain_jwt = \<lparr>jo_sign = stamp_payload,
     jo_verify = (\<lambda>now p. case jp_exp p of None \<Rightarrow> Some p | Some e \<Rightarrow> if now div 1000 < e then Some p else None)\<rparr>"

section \<open>The strategy\<close>

definition validate_jwt :: "timestamp \<Rightarrow> jwt_payload \<Rightarrow> blacklist \<Rightarrow> principal result \<times> blacklist" where
  "validate_jwt now payload b =
     (let (revoked, b') = (if truthy (jp_jti payload) then isRevoked now (the (jp_jti payload)) b else (False, b))
      in if revoked then (Inl (Unauthorized ''Token has been revoked''), b')
         else
           let isTraditionalAuth = truthy (jp_sub payload);
               isWalletAuth = truthy (jp_address payload)
           in if \<not> isTraditionalAuth \<and> \<not> isWalletAuth
              then (Inl (Unauthorized ''Invalid token payload - missing user identifier''), b')
              else
                let r = normalizeRole (jp_role payload)
                in (Inr (if isTraditionalAuth
                         then \<lparr>pr_id = jp_sub payload, pr_sub = jp_sub payload, pr_address = None, pr_email = jp_email payload,
                               pr_username = jp_username payload, pr_role = r, pr_roles = [r], pr_tier = jp_tier payload,
                               pr_jti = jp_jti payload, pr_twoFactorVerified = nullish (jp_twoFactorVerified payload) False,
                               pr_exp = jp_exp payload, pr_type = Traditional\<rparr>
                         else \<lparr>pr_id = None, pr_sub = None, pr_address = jp_address payload, pr_email = jp_email payload,
                               pr_username = None, pr_role = r, pr_roles = [r], pr_tier = jp_tier payload,
                               pr_jti = jp_jti payload, pr_twoFactorVerified = nullish (jp_twoFactorVerified payload) False,
                               pr_exp = jp_exp payload, pr_type = Wallet_principal\<rparr>), b'))"

text \<open>\<open>JwtAuthGuard\<close>: passport verifies the bearer token and calls the strategy.\<close>

definition jwt_guard :: "'tok jwt_ops \<Rightarrow> timestamp \<Rightarrow> 'tok \<Rightarrow> blacklist \<Rightarrow> principal result \<times> blacklist" where
  "jwt_guard jwt now tok b =
     (case jo_verify jwt now tok of
        None \<Rightarrow> (Inl (Unauthorized ''Unauthorized''), b)
      | Some p \<Rightarrow> validate_jwt now p b)"

text \<open>\<open>AuthService.logout\<close>: the expiry claim is in seconds.\<close>

definition logout :: "string \<Rightarrow> int \<Rightarrow> blacklist \<Rightarrow> blacklist" where
  "logout jti expiry b = revoke jti (expiry * 1000) b"

text \<open>The claims of a principal that the guard of roles.guard.ts reads.\<close>

definition role_claims_of :: "principal \<Rightarrow> role_claims" where
  "role_claims_of p = \<lparr>rc_id = pr_id p, rc_address = pr_address p, rc_role = Some (role_value (pr_role p)),
     rc_roles = Some (map role_value (pr_roles p))\<rparr>"

section \<open>Specification\<close>

datatype blacklist_call = Revoke timestamp string int | Check timestamp string | Cleanup timestamp

fun blacklist_step :: "blacklist \<Rightarrow> blacklist_call \<Rightarrow> blacklist" where
  "blacklist_step b (Revoke now jti expiry) = logout jti expiry b"
| "blacklist_step b (Check now jti) = snd (isRevoked now jti b)"
| "blacklist_step b (Cleanup now) = cleanup_blacklist now b"

fun call_time :: "blacklist_call \<Rightarrow> timestamp" where
  "call_time (Revoke now jti expiry) = now"
| "call_time (Check now jti) = now"
| "call_time (Cleanup now) = now"

text \<open>A later log-out with the same token id names the same expiry.\<close>

fun same_expiry :: "string \<Rightarrow> int \<Rightarrow> blacklist_call \<Rightarrow> bool" where
  "same_expiry jti expiry (Revoke now j e) = (j = jti \<longrightarrow> e = expiry)"
| "same_expiry jti expiry _ = True"

text \<open>An example token.\<close>

definition sample_payload :: jwt_payload where
  "sample_payload = \<lparr>jp_sub = Some ''u1'', jp_address = None, jp_email = None, jp_username = None, jp_role = Some ''admin'',
     jp_tier = None, jp_jti = Some ''j1'', jp_twoFactorVerified = None, jp_iat = Some 100, jp_exp = Some 1000\<rparr>"

section \<open>Facts\<close>

interpretation pj: jwt_service plain_jwt
  by unfold_locales (auto simp: plain_jwt_def stamp_payload_def Let_def split: option.splits if_splits)

lemma blacklist_step_keeps:
  assumes "Map_wf b" "Map_get jti b = Some (expiry * 1000)" "call_time c \<le> expiry * 1000" "same_expiry jti expiry c"
  shows "Map_wf (blacklist_step b c)" "Map_get jti (blacklist_step b c) = Some (expiry * 1000)"
  using assms
  by (cases c; auto simp: logout_def revoke_def isRevoked_def cleanup_blacklist_def Map_get_filter jm.wf_store jm.wf_remove
      split: option.splits)+

lemma blacklist_run_keeps:
  "Map_wf b \<Longrightarrow> Map_get jti b = Some (expiry * 1000) \<Longrightarrow> \<forall>c \<in> set cs. call_time c \<le> expiry * 1000 \<Longrightarrow> list_all (same_expiry jti expiry) cs \<Longrightarrow>
    Map_get jti (run blacklist_step b cs) = Some (expiry * 1000)"
proof (induction cs arbitrary: b)
  case (Cons c cs)
  then show ?case using blacklist_step_keeps [of b jti expiry c] by simp
qed simp

lemma revoked_rejected:
  assumes "jp_jti p = Some jti" "jti \<noteq> []" "Map_get jti b = Some e" "now \<le> e"
  shows "fst (validate_jwt now p b) = Inl (Unauthorized ''Token has been revoked'')"
  using assms by (simp add: validate_jwt_def isRevoked_def)

lemma validate_role: "fst (validate_jwt now p b) = Inr u \<Longrightarrow> pr_role u = normalizeRole (jp_role p) \<and> pr_roles u = [normalizeRole (jp_role p)]"
  by (auto simp: validate_jwt_def Let_def split: if_splits prod.splits)

section \<open>Properties\<close>

text \<open>
  C24. A token that was logged out is refused from then on: after \<open>logout\<close> with the id and expiry
  of the token, through every history of further log-outs, checks and clean-ups up to the time of
  a request, the request with that token is refused, either because the id is on the blacklist or
  because the token has expired.
\<close>

theorem logged_out_token_refused:
  assumes jwt: "jwt_service jwt" and b: "Map_wf b"
    and p: "jo_verify jwt t0 tok = Some p" "jp_jti p = Some jti" "jti \<noteq> []" "jp_exp p = Some expiry"
    and cs: "\<forall>c \<in> set cs. call_time c \<le> now" "list_all (same_expiry jti expiry) cs"
  shows "\<exists>e. fst (jwt_guard jwt now tok (run blacklist_step (logout jti expiry b) cs)) = Inl e"
proof (cases "jo_verify jwt now tok")
  case None
  then show ?thesis by (simp add: jwt_guard_def)
next
  case (Some p')
  then have "p' = p" using jwt_service.verify_same [OF jwt p(1)] by simp
  then have "now \<le> expiry * 1000" using jwt_service.verify_exp [OF jwt, of now tok p expiry] Some p by simp
  then have "Map_get jti (run blacklist_step (logout jti expiry b) cs) = Some (expiry * 1000)"
    using cs b by (intro blacklist_run_keeps) (auto simp: logout_def revoke_def jm.wf_store)
  then show ?thesis using revoked_rejected [OF p(2,3)] \<open>now \<le> expiry * 1000\<close> \<open>p' = p\<close> Some by (simp add: jwt_guard_def)
qed

theorem logged_out_token_refused_witness:
  "\<exists>e. fst (jwt_guard plain_jwt 500000 sample_payload
      (run blacklist_step (logout ''j1'' 1000 []) [Check 200000 ''j1'', Cleanup 300000])) = Inl e"
  by (rule logged_out_token_refused [OF pj.jwt_service_axioms, where ?t0.0 = 150000 and p = sample_payload])
    (simp_all add: plain_jwt_def sample_payload_def)

text \<open>
  C15. What a token can reach is bounded by its role claim: a request that passes the strategy and
  then the role guard of a route with required roles carries a role claim that normalises to a
  role at or above a required one. A token without a claim, or with an unknown one, reaches only
  the routes of USER.
\<close>

theorem token_reaches_only_its_roles:
  assumes "jwt_guard jwt now tok b = (Inr u, b')"
    and "required \<noteq> []"
    and "roles_canActivate (Some required) (Some (role_claims_of u)) = Inr ok"
  shows "\<exists>p. jo_verify jwt now tok = Some p \<and> (\<exists>req \<in> set required. supersedes\<^sup>*\<^sup>* (normalizeRole (jp_role p)) req \<and>
    (jp_role p = None \<longrightarrow> req = USER))"
proof -
  obtain p where p: "jo_verify jwt now tok = Some p" "fst (validate_jwt now p b) = Inr u"
    using assms(1) by (auto simp: jwt_guard_def split: option.splits)
  have "pr_roles u = [normalizeRole (jp_role p)]" using validate_role [OF p(2)] by simp
  then obtain req where req: "req \<in> set required" "hasRole (normalizeRole (jp_role p)) req"
    using assms(2,3)
    by (auto simp: roles_canActivate_def role_claims_of_def normalize_value list_ex_iff split: list.splits if_splits)
  have "req = USER" if "jp_role p = None"
  proof -
    have "hasRole USER req" using that req normalize_none by simp
    then show ?thesis by (cases req) (auto simp: hasRole_def ROLE_HIERARCHY_def)
  qed
  then show ?thesis using p(1) req hasRole_supersedes [OF req(2)] by (intro exI conjI bexI [of _ req]) auto
qed

theorem token_reaches_only_its_roles_witness:
  "\<exists>p. jo_verify plain_jwt 500000 sample_payload = Some p \<and>
    (\<exists>req \<in> set [OPERATOR]. supersedes\<^sup>*\<^sup>* (normalizeRole (jp_role p)) req \<and> (jp_role p = None \<longrightarrow> req = USER))"
proof (rule token_reaches_only_its_roles)
  show "jwt_guard plain_jwt 500000 sample_payload [] =
      (Inr \<lparr>pr_id = Some ''u1'', pr_sub = Some ''u1'', pr_address = None, pr_email = None, pr_username = None, pr_role = ADMIN,
        pr_roles = [ADMIN], pr_tier = None, pr_jti = Some ''j1'', pr_twoFactorVerified = False, pr_exp = Some 1000,
        pr_type = Traditional\<rparr>, [])"
    by code_simp
  show "[OPERATOR] \<noteq> []" by simp
  show "roles_canActivate (Some [OPERATOR]) (Some (role_claims_of
      \<lparr>pr_id = Some ''u1'', pr_sub = Some ''u1'', pr_address = None, pr_email = None, pr_username = None, pr_role = ADMIN,
        pr_roles = [ADMIN], pr_tier = None, pr_jti = Some ''j1'', pr_twoFactorVerified = False, pr_exp = Some 1000,
        pr_type = Traditional\<rparr>)) = Inr True"
    by code_simp
qed

end
