(* ===== verification/Enhanced_Auth.thy ===== *)
theory Enhanced_Auth
  imports Jwt_Session
begin

text \<open>
  \<open>EnhancedAuthService\<close> (core/auth/enhanced-auth.service.ts): registration and log-in by password,
  rotation of refresh tokens and the second factor with its lock-out, and the guard that asks
  administrators for it (guards/admin-two-factor.guard.ts). bcrypt, TOTP, SHA-256 and the token
  library are parameters, random values are arguments. The security mails change nothing here:
  their failures are swallowed.
\<close>

section \<open>Parameters\<close>

record 'tok auth_env =
  ae_jwt :: "'tok jwt_ops"
  ae_hash :: "string \<Rightarrow> string \<Rightarrow> string"
  ae_compare :: "string \<Rightarrow> string \<Rightarrow> bool"
  ae_totp :: "timestamp \<Rightarrow> string \<Rightarrow> string \<Rightarrow> bool"
  ae_sha256 :: "string \<Rightarrow> string"
  ae_number :: "int \<Rightarrow> string"

definition MAX_2FA_ATTEMPTS :: int where "MAX_2FA_ATTEMPTS = 5"

definition LOCKOUT_DURATION_MS :: int where "LOCKOUT_DURATION_MS = 15 * 60 * 1000"

definition BACKUP_CODE_COUNT :: nat where "BACKUP_CODE_COUNT = 10"

record register_dto =
  rd_email :: string
  rd_password :: string
  rd_username :: "string option"
  rd_referralCode :: "string option"

record two_factor_dto =
  td_code :: "string option"
  td_backupCode :: "string option"

record 'tok token_pair =
  tp_accessToken :: 'tok
  tp_refreshToken :: string

record 'tok login_result =
  lr_accessToken :: 'tok
  lr_refreshToken :: string
  lr_userId :: string
  lr_role :: role
  lr_tier :: rate_tier
  lr_requiresTwoFactor :: bool

text \<open>The random values of one call: the id of a new row and the 64 random bytes in hex.\<close>

record token_draw =
  dr_rowId :: string
  dr_token :: string

section \<open>Tokens\<close>

definition access_payload :: "user \<Rightarrow> bool \<Rightarrow> jwt_payload" where
  "access_payload u verified =
     \<lparr>jp_sub = Some (us_id u), jp_address = None, jp_email = us_email u, jp_username = us_username u,
      jp_role = Some (role_value (normalizeRole (Some (role_value (us_role u))))),
      jp_tier = Some (resolveRateLimitTierFromRole (Some (role_value (us_role u))) None None),
      jp_jti = None, jp_twoFactorVerified = Some verified, jp_iat = None, jp_exp = None\<rparr>"

definition generateTokens ::
  "'tok auth_env \<Rightarrow> ('u, 'w, 'r, 'f, 'v) auth_repos \<Rightarrow> timestamp \<Rightarrow> token_draw \<Rightarrow> user \<Rightarrow> string \<Rightarrow> string option \<Rightarrow> bool \<Rightarrow>
    (('u, 'w, 'r, 'f, 'v) auth_world, 'tok token_pair) io" where
  "generateTokens env rp now draw u ipAddress userAgent twoFactorVerified =
     (let accessToken = jo_sign (ae_jwt env) now ACCESS_TOKEN_TTL_SECONDS (access_payload u twoFactorVerified)
      in io_bind (on_refresh (to_save (ar_refresh rp)
            \<lparr>rt_id = dr_rowId draw, rt_userId = us_id u, rt_token = dr_token draw, rt_expiresAt = now + REFRESH_TOKEN_TTL_MS,
             rt_revoked = False, rt_revokedAt = None, rt_replacedByToken = None, rt_ipAddress = ipAddress,
             rt_userAgent = userAgent\<rparr>)) (\<lambda>_.
          io_return \<lparr>tp_accessToken = accessToken, tp_refreshToken = dr_token draw\<rparr>))"

definition isTwoFactorEnabled ::
  "('u, 'w, 'r, 'f, 'v) auth_repos \<Rightarrow> string \<Rightarrow> (('u, 'w, 'r, 'f, 'v) auth_world, bool) io" where
  "isTwoFactorEnabled rp userId =
     io_bind (on_twoFactor (to_findOne (ar_twoFactor rp) (\<lambda>t. tf_userId t = userId \<and> tf_isEnabled t) any_order))
       (\<lambda>t. io_return (t \<noteq> None))"

text \<open>
  What TypeORM makes of a condition whose value is undefined is left open: \<open>undef\<close> says whether
  it holds.
\<close>

definition revokeAllRefreshTokens ::
  "bool \<Rightarrow> ('u, 'w, 'r, 'f, 'v) auth_repos \<Rightarrow> timestamp \<Rightarrow> string option \<Rightarrow> (('u, 'w, 'r, 'f, 'v) auth_world, unit) io" where
  "revokeAllRefreshTokens undef rp now userId =
     on_refresh (to_update (ar_refresh rp)
       (\<lambda>t. (case userId of None \<Rightarrow> undef | Some i \<Rightarrow> rt_userId t = i) \<and> \<not> rt_revoked t)
       (\<lambda>t. t\<lparr>rt_revoked := True, rt_revokedAt := Some now\<rparr>))"

definition validateUser ::
  "('u, 'w, 'r, 'f, 'v) auth_repos \<Rightarrow> string \<Rightarrow> (('u, 'w, 'r, 'f, 'v) auth_world, user option) io" where
  "validateUser rp userId = find_user rp (\<lambda>u. us_id u = userId)"

section \<open>Registration, log-in and refresh\<close>

definition login_result_of :: "user \<Rightarrow> bool \<Rightarrow> 'tok token_pair \<Rightarrow> 'tok login_result" where
  "login_result_of u twoFactor tokens =
     \<lparr>lr_accessToken = tp_accessToken tokens, lr_refreshToken = tp_refreshToken tokens, lr_userId = us_id u,
      lr_role = normalizeRole (Some (role_value (us_role u))),
      lr_tier = resolveRateLimitTierFromRole (Some (role_value (us_role u))) None None, lr_requiresTwoFactor = twoFactor\<rparr>"

definition new_user ::
  "'tok auth_env \<Rightarrow> string \<Rightarrow> string \<Rightarrow> string \<Rightarrow> register_dto \<Rightarrow> user option \<Rightarrow> user" where
  "new_user env userId salt uuid dto referredBy =
     \<lparr>us_id = userId, us_username = rd_username dto, us_walletAddress = ''email_'' @ rd_email dto,
      us_email = Some (rd_email dto), us_password = Some (ae_hash env salt (rd_password dto)), us_emailVerified = False,
      us_role = USER, us_kycStatus = UNVERIFIED, us_isActive = True, us_lastLoginAt = None,
      us_referralCode = Some (toUpperCase (take 8 uuid)), us_referredById = map_option us_id referredBy\<rparr>"

definition register ::
  "'tok auth_env \<Rightarrow> ('u, 'w, 'r, 'f, 'v) auth_repos \<Rightarrow> timestamp \<Rightarrow> string \<Rightarrow> string \<Rightarrow> string \<Rightarrow> token_draw \<Rightarrow> register_dto \<Rightarrow>
    string \<Rightarrow> string option \<Rightarrow> (('u, 'w, 'r, 'f, 'v) auth_world, 'tok login_result) io" where
  "register env rp now userId salt uuid draw dto ipAddress userAgent =
     io_bind (find_user rp (\<lambda>u. us_email u = Some (rd_email dto) \<or> rd_username dto \<noteq> None \<and> us_username u = rd_username dto)) (\<lambda>existing.
       case existing of
         Some e \<Rightarrow>
           (if us_email e = Some (rd_email dto) then io_throw (Conflict ''Email already registered'')
            else io_throw (Conflict ''Username already taken''))
       | None \<Rightarrow>
           io_bind (if truthy (rd_referralCode dto)
                    then io_bind (find_user rp (\<lambda>u. us_referralCode u = Some (toUpperCase (the (rd_referralCode dto))))) (\<lambda>rb.
                           if rb = None then io_throw (BadRequest ''Invalid referral code'') else io_return rb)
                    else io_return None) (\<lambda>referredBy.
             let u = new_user env userId salt uuid dto referredBy
             in io_bind (save_user rp u) (\<lambda>_.
                  io_bind (generateTokens env rp now draw u ipAddress userAgent True) (\<lambda>tokens.
                    io_return (login_result_of u False tokens)))))"

definition login ::
  "'tok auth_env \<Rightarrow> ('u, 'w, 'r, 'f, 'v) auth_repos \<Rightarrow> timestamp \<Rightarrow> token_draw \<Rightarrow> string \<Rightarrow> string \<Rightarrow> string \<Rightarrow> string option \<Rightarrow>
    (('u, 'w, 'r, 'f, 'v) auth_world, 'tok login_result) io" where
  "login env rp now draw email password ipAddress userAgent =
     io_bind (find_user rp (\<lambda>u. us_email u = Some email)) (\<lambda>found.
       case found of
         None \<Rightarrow> io_throw (Unauthorized ''Invalid credentials'')
       | Some u \<Rightarrow>
           if \<not> us_isActive u then io_throw (Unauthorized ''Account is deactivated'')
           else if \<not> truthy (us_password u)
           then io_throw (BadRequest ''This account uses wallet authentication. Please use wallet login.'')
           else if \<not> ae_compare env password (the (us_password u)) then io_throw (Unauthorized ''Invalid credentials'')
           else io_bind (on_users (to_update (ar_users rp) (\<lambda>x. us_id x = us_id u) (\<lambda>x. x\<lparr>us_lastLoginAt := Some now\<rparr>))) (\<lambda>_.
             io_bind (isTwoFactorEnabled rp (us_id u)) (\<lambda>twoFactorEnabled.
               io_bind (generateTokens env rp now draw u ipAddress userAgent (\<not> twoFactorEnabled)) (\<lambda>tokens.
                 io_return (login_result_of u twoFactorEnabled tokens)))))"

text \<open>The part of \<open>refreshToken\<close> after the checks: new tokens, then the old one is revoked.\<close>

definition rotate_token ::
  "'tok auth_env \<Rightarrow> ('u, 'w, 'r, 'f, 'v) auth_repos \<Rightarrow> timestamp \<Rightarrow> token_draw \<Rightarrow> string \<Rightarrow> string option \<Rightarrow> refresh_token \<Rightarrow> user \<Rightarrow>
    (('u, 'w, 'r, 'f, 'v) auth_world, 'tok token_pair) io" where
  "rotate_token env rp now draw ipAddress userAgent t u =
     io_bind (isTwoFactorEnabled rp (us_id u)) (\<lambda>twoFactorEnabled.
       io_bind (generateTokens env rp now draw u ipAddress userAgent (\<not> twoFactorEnabled)) (\<lambda>newTokens.
         io_bind (on_refresh (to_update (ar_refresh rp) (\<lambda>x. rt_id x = rt_id t)
             (\<lambda>x. x\<lparr>rt_revoked := True, rt_revokedAt := Some now, rt_replacedByToken := Some (tp_refreshToken newTokens)\<rparr>)))
           (\<lambda>_. io_return newTokens)))"

definition refreshToken ::
  "'tok auth_env \<Rightarrow> ('u, 'w, 'r, 'f, 'v) auth_repos \<Rightarrow> timestamp \<Rightarrow> token_draw \<Rightarrow> string \<Rightarrow> string \<Rightarrow> string option \<Rightarrow>
    (('u, 'w, 'r, 'f, 'v) auth_world, 'tok token_pair) io" where
  "refreshToken env rp now draw token ipAddress userAgent =
     io_bind (on_refresh (to_findOne (ar_refresh rp) (\<lambda>t. rt_token t = token \<and> \<not> rt_revoked t) any_order)) (\<lambda>found.
       case found of
         None \<Rightarrow> io_throw (Unauthorized ''Invalid or expired refresh token'')
       | Some t \<Rightarrow>
           io_bind (find_user rp (\<lambda>u. us_id u = rt_userId t)) (\<lambda>owner.
             if rt_expiresAt t < now then io_throw (Unauthorized ''Invalid or expired refresh token'')
             else case owner of
               None \<Rightarrow> io_throw (PlainError ''Cannot read properties of null'')
             | Some u \<Rightarrow> rotate_token env rp now draw ipAddress userAgent t u))"

section \<open>The second factor\<close>

text \<open>The hash of a backup code: upper case, without white space and hyphens.\<close>

definition hashBackupCode :: "'tok auth_env \<Rightarrow> string \<Rightarrow> string" where
  "hashBackupCode env code = ae_sha256 env (filter (\<lambda>c. \<not> is_js_space c \<and> c \<noteq> CHR ''-'') (toUpperCase code))"

definition generateBackupCodes_ea :: "'tok auth_env \<Rightarrow> string list \<Rightarrow> string list \<times> string list" where
  "generateBackupCodes_ea env raws =
     (let plaintext = map (\<lambda>raw. let r = toUpperCase raw in take 4 r @ ''-'' @ drop 4 r) (take BACKUP_CODE_COUNT raws)
      in (plaintext, map (hashBackupCode env) plaintext))"

definition safeEqual :: "string \<Rightarrow> string \<Rightarrow> bool" where
  "safeEqual a b = (if length a \<noteq> length b then False else a = b)"

definition setupTwoFactor ::
  "'tok auth_env \<Rightarrow> ('u, 'w, 'r, 'f, 'v) auth_repos \<Rightarrow> string \<Rightarrow> string \<Rightarrow> string list \<Rightarrow> string \<Rightarrow>
    (('u, 'w, 'r, 'f, 'v) auth_world, string \<times> string list) io" where
  "setupTwoFactor env rp rowId secret raws userId =
     io_bind (find_user rp (\<lambda>u. us_id u = userId)) (\<lambda>u.
       if u = None then io_throw (NotFound ''User not found'')
       else io_bind (on_twoFactor (to_findOne (ar_twoFactor rp) (\<lambda>t. tf_userId t = userId \<and> tf_isEnabled t) any_order)) (\<lambda>existing2FA.
         if existing2FA \<noteq> None then io_throw (BadRequest ''Two-factor authentication is already enabled'')
         else
           let (plaintext, hashed) = generateBackupCodes_ea env raws
           in io_bind (on_twoFactor (to_delete (ar_twoFactor rp) (\<lambda>t. tf_userId t = userId \<and> \<not> tf_isEnabled t))) (\<lambda>_.
                io_bind (on_twoFactor (to_save (ar_twoFactor rp)
                    \<lparr>tf_id = rowId, tf_userId = userId, tf_type = TOTP, tf_status = TF_PENDING, tf_secret = secret,
                     tf_backupCodes = Some hashed, tf_isEnabled = False, tf_failedAttempts = 0, tf_lockedUntil = None,
                     tf_verifiedAt = None, tf_lastUsedAt = None\<rparr>)) (\<lambda>_.
                  io_return (secret, plaintext)))))"

definition verifyTwoFactorSetup ::
  "'tok auth_env \<Rightarrow> ('u, 'w, 'r, 'f, 'v) auth_repos \<Rightarrow> timestamp \<Rightarrow> string \<Rightarrow> string \<Rightarrow> (('u, 'w, 'r, 'f, 'v) auth_world, bool) io" where
  "verifyTwoFactorSetup env rp now userId code =
     io_bind (on_twoFactor (to_findOne (ar_twoFactor rp) (\<lambda>t. tf_userId t = userId \<and> tf_status t = TF_PENDING) any_order)) (\<lambda>found.
       case found of
         None \<Rightarrow> io_throw (NotFound ''Two-factor authentication setup not found'')
       | Some t \<Rightarrow>
           (let verified = ae_totp env now (tf_secret t) code
            in if \<not> verified then io_return False
               else io_bind (on_twoFactor (to_update (ar_twoFactor rp) (\<lambda>x. tf_id x = tf_id t)
                   (\<lambda>x. x\<lparr>tf_status := TF_VERIFIED, tf_isEnabled := True, tf_verifiedAt := Some now,
                         tf_failedAttempts := 0, tf_lockedUntil := None\<rparr>))) (\<lambda>_.
                 io_bind (find_user rp (\<lambda>u. us_id u = userId)) (\<lambda>_. io_return True))))"

definition invalid_message :: string where
  "invalid_message = ''Invalid two-factor authentication code''"

definition lockout_message :: string where
  "lockout_message = ''Account locked due to too many failed 2FA attempts. Try again in 15 minutes.''"

text \<open>
  \<open>verifyTwoFactorCode\<close> suspends after it has read the row. \<open>check_code\<close> is the part between the
  read and the write: whether the code is right, and the row to save.
\<close>

definition locked_message :: "'tok auth_env \<Rightarrow> int \<Rightarrow> string" where
  "locked_message env minutes =
     ''Account locked due to too many failed 2FA attempts. Try again in '' @ ae_number env minutes @ '' minute(s).''"

definition check_code :: "'tok auth_env \<Rightarrow> timestamp \<Rightarrow> two_factor_dto \<Rightarrow> two_factor_auth \<Rightarrow> bool \<times> two_factor_auth" where
  "check_code env now dto t =
     (let (verified, t1) =
        (if truthy (td_code dto) then (ae_totp env now (tf_secret t) (the (td_code dto)), t)
         else
           let storedHashes = nullish (tf_backupCodes t) [];
               candidate = hashBackupCode env (the (td_backupCode dto))
           in if list_ex (\<lambda>h. safeEqual h candidate) storedHashes
              then (True, t\<lparr>tf_backupCodes := Some (remove1 candidate storedHashes)\<rparr>) else (False, t))
      in if verified
         then (True, t1\<lparr>tf_failedAttempts := 0, tf_lockedUntil := None, tf_lastUsedAt := Some now\<rparr>)
         else (False,
           let t2 = t1\<lparr>tf_failedAttempts := tf_failedAttempts t1 + 1\<rparr>
           in if tf_failedAttempts t2 \<ge> MAX_2FA_ATTEMPTS
              then t2\<lparr>tf_lockedUntil := Some (now + LOCKOUT_DURATION_MS), tf_failedAttempts := 0\<rparr> else t2))"

definition finish_code ::
  "'tok auth_env \<Rightarrow> ('u, 'w, 'r, 'f, 'v) auth_repos \<Rightarrow> timestamp \<Rightarrow> two_factor_dto \<Rightarrow> two_factor_auth option \<Rightarrow>
    (('u, 'w, 'r, 'f, 'v) auth_world, unit) io" where
  "finish_code env rp now dto found =
     (case found of
        None \<Rightarrow> io_throw (BadRequest ''Two-factor authentication not enabled'')
      | Some t \<Rightarrow>
          if (case tf_lockedUntil t of None \<Rightarrow> False | Some l \<Rightarrow> l > now)
          then io_throw (Unauthorized (locked_message env (\<lceil>of_int (the (tf_lockedUntil t) - now) / (60000 :: rat)\<rceil>)))
          else if \<not> truthy (td_code dto) \<and> \<not> truthy (td_backupCode dto)
          then io_throw (BadRequest ''A TOTP code or backup code is required'')
          else
            let (verified, t') = check_code env now dto t
            in io_bind (on_twoFactor (to_save (ar_twoFactor rp) t')) (\<lambda>_.
                 if verified then io_return ()
                 else io_throw (Unauthorized
                   (if tf_failedAttempts t + 1 \<ge> MAX_2FA_ATTEMPTS then lockout_message else invalid_message))))"

definition read_two_factor ::
  "('u, 'w, 'r, 'f, 'v) auth_repos \<Rightarrow> string \<Rightarrow> (('u, 'w, 'r, 'f, 'v) auth_world, two_factor_auth option) io" where
  "read_two_factor rp userId =
     on_twoFactor (to_findOne (ar_twoFactor rp) (\<lambda>t. tf_userId t = userId \<and> tf_isEnabled t) any_order)"

definition verifyTwoFactorCode ::
  "'tok auth_env \<Rightarrow> ('u, 'w, 'r, 'f, 'v) auth_repos \<Rightarrow> timestamp \<Rightarrow> string \<Rightarrow> two_factor_dto \<Rightarrow>
    (('u, 'w, 'r, 'f, 'v) auth_world, unit) io" where
  "verifyTwoFactorCode env rp now userId dto = io_bind (read_two_factor rp userId) (finish_code env rp now dto)"

definition verifyTwoFactorLogin ::
  "'tok auth_env \<Rightarrow> ('u, 'w, 'r, 'f, 'v) auth_repos \<Rightarrow> timestamp \<Rightarrow> token_draw \<Rightarrow> string \<Rightarrow> two_factor_dto \<Rightarrow>
    string option \<Rightarrow> string option \<Rightarrow> (('u, 'w, 'r, 'f, 'v) auth_world, 'tok token_pair) io" where
  "verifyTwoFactorLogin env rp now draw userId dto ipAddress userAgent =
     io_bind (verifyTwoFactorCode env rp now userId dto) (\<lambda>_.
       io_bind (find_user rp (\<lambda>u. us_id u = userId)) (\<lambda>found.
         case found of
           None \<Rightarrow> io_throw (NotFound ''User not found'')
         | Some u \<Rightarrow> generateTokens env rp now draw u (nullish ipAddress ''0.0.0.0'')
             (Some (nullish userAgent ''2FA Verification'')) True))"

definition password_user ::
  "'tok auth_env \<Rightarrow> ('u, 'w, 'r, 'f, 'v) auth_repos \<Rightarrow> string \<Rightarrow> string \<Rightarrow> (('u, 'w, 'r, 'f, 'v) auth_world, user) io" where
  "password_user env rp userId password =
     io_bind (find_user rp (\<lambda>u. us_id u = userId)) (\<lambda>found.
       case found of
         None \<Rightarrow> io_throw (NotFound ''User not found'')
       | Some u \<Rightarrow>
           if \<not> truthy (us_password u) then io_throw (NotFound ''User not found'')
           else if \<not> ae_compare env password (the (us_password u)) then io_throw (Unauthorized ''Invalid password'')
           else io_return u)"

definition regenerateBackupCodes ::
  "'tok auth_env \<Rightarrow> ('u, 'w, 'r, 'f, 'v) auth_repos \<Rightarrow> string list \<Rightarrow> string \<Rightarrow> string \<Rightarrow> (('u, 'w, 'r, 'f, 'v) auth_world, string list) io" where
  "regenerateBackupCodes env rp raws userId password =
     io_bind (password_user env rp userId password) (\<lambda>_.
       io_bind (read_two_factor rp userId) (\<lambda>found.
         case found of
           None \<Rightarrow> io_throw (BadRequest ''Two-factor authentication not enabled'')
         | Some t \<Rightarrow>
             (let (plaintext, hashed) = generateBackupCodes_ea env raws
              in io_bind (on_twoFactor (to_save (ar_twoFactor rp) (t\<lparr>tf_backupCodes := Some hashed\<rparr>))) (\<lambda>_.
                   io_return plaintext))))"

record two_factor_state =
  ts_enabled :: bool
  ts_pending :: bool
  ts_remainingBackupCodes :: nat
  ts_lockedUntil :: "timestamp option"

definition getTwoFactorStatus ::
  "('u, 'w, 'r, 'f, 'v) auth_repos \<Rightarrow> timestamp \<Rightarrow> string \<Rightarrow> (('u, 'w, 'r, 'f, 'v) auth_world, two_factor_state) io" where
  "getTwoFactorStatus rp now userId =
     io_bind (on_twoFactor (to_find (ar_twoFactor rp) (\<lambda>t. tf_userId t = userId) any_order)) (\<lambda>records.
       let enabledRecord = List.find tf_isEnabled records;
           pendingRecord = List.find (\<lambda>r. \<not> tf_isEnabled r \<and> tf_status r = TF_PENDING) records
       in io_return
         \<lparr>ts_enabled = enabledRecord \<noteq> None, ts_pending = pendingRecord \<noteq> None,
          ts_remainingBackupCodes = (case enabledRecord of None \<Rightarrow> 0 | Some r \<Rightarrow> length (nullish (tf_backupCodes r) [])),
          ts_lockedUntil = (case enabledRecord of None \<Rightarrow> None
            | Some r \<Rightarrow> (case tf_lockedUntil r of None \<Rightarrow> None | Some l \<Rightarrow> if l > now then Some l else None))\<rparr>)"

definition disableTwoFactor ::
  "'tok auth_env \<Rightarrow> ('u, 'w, 'r, 'f, 'v) auth_repos \<Rightarrow> string \<Rightarrow> string \<Rightarrow> (('u, 'w, 'r, 'f, 'v) auth_world, bool) io" where
  "disableTwoFactor env rp userId password =
     io_bind (password_user env rp userId password) (\<lambda>_.
       io_bind (on_twoFactor (to_update (ar_twoFactor rp) (\<lambda>t. tf_userId t = userId)
           (\<lambda>t. t\<lparr>tf_isEnabled := False, tf_status := TF_DISABLED, tf_failedAttempts := 0, tf_lockedUntil := None\<rparr>))) (\<lambda>_.
         io_return True))"

section \<open>The guard of the admin routes\<close>

definition isAdmin :: "role \<Rightarrow> bool" where
  "isAdmin r = (toLowerCase (role_value r) = ''admin'')"

definition resolveUserId ::
  "('u, 'w, 'r, 'f, 'v) auth_repos \<Rightarrow> principal \<Rightarrow> (('u, 'w, 'r, 'f, 'v) auth_world, string option) io" where
  "resolveUserId rp p =
     (if truthy (pr_id p) \<or> truthy (pr_sub p) then io_return (case pr_id p of None \<Rightarrow> pr_sub p | Some i \<Rightarrow> Some i)
      else if truthy (pr_address p)
      then io_bind (find_user rp (\<lambda>u. us_walletAddress u = toLowerCase (the (pr_address p)))) (\<lambda>owner. io_return (map_option us_id owner))
      else io_return None)"

definition admin_two_factor_guard ::
  "('u, 'w, 'r, 'f, 'v) auth_repos \<Rightarrow> principal option \<Rightarrow> (('u, 'w, 'r, 'f, 'v) auth_world, bool) io" where
  "admin_two_factor_guard rp user =
     (case user of
        None \<Rightarrow> io_throw (Unauthorized ''No authenticated user found on request'')
      | Some p \<Rightarrow>
          if \<not> isAdmin (pr_role p) then io_return True
          else io_bind (resolveUserId rp p) (\<lambda>userId.
            if \<not> truthy userId then io_throw (Forbidden ''Unable to resolve admin account identity'')
            else io_bind (isTwoFactorEnabled rp (the userId)) (\<lambda>enabled.
              if \<not> enabled
              then io_throw (Forbidden ''Admin accounts must enable two-factor authentication before accessing admin endpoints.'')
              else if \<not> pr_twoFactorVerified p
              then io_throw (Forbidden ''Two-factor verification required to access admin endpoints.'')
              else io_return True)))"

text \<open>\<open>AuthController.logout\<close> (auth.controller.ts) for the principal of the request.\<close>

definition logout_route ::
  "bool \<Rightarrow> ('u, 'w, 'r, 'f, 'v) auth_repos \<Rightarrow> timestamp \<Rightarrow> principal \<Rightarrow> (('u, 'w, 'r, 'f, 'v) auth_world, unit) io" where
  "logout_route undef rp now p w =
     (let w' = (if truthy (pr_jti p) \<and> (case pr_exp p of None \<Rightarrow> False | Some e \<Rightarrow> e \<noteq> 0)
                then w\<lparr>aw_blacklist := revoke (the (pr_jti p)) (the (pr_exp p) * 1000) (aw_blacklist w)\<rparr> else w)
      in revokeAllRefreshTokens undef rp now (pr_sub p) w')"

section \<open>Specification\<close>

text \<open>The answer to a guess that was wrong, as against one refused unseen.\<close>

definition wrong_guess :: "unit result \<Rightarrow> bool" where
  "wrong_guess r \<longleftrightarrow> r = Inl (Unauthorized invalid_message) \<or> r = Inl (Unauthorized lockout_message)"

text \<open>The times of the wrong guesses in a history of attempts on the account of a user.\<close>

fun wrong_guesses ::
  "'tok auth_env \<Rightarrow> ('u, 'w, 'r, 'f, 'v) auth_repos \<Rightarrow> string \<Rightarrow> ('u, 'w, 'r, 'f, 'v) auth_world \<Rightarrow> (timestamp \<times> two_factor_dto) list \<Rightarrow>
    timestamp list" where
  "wrong_guesses env rp userId w [] = []"
| "wrong_guesses env rp userId w ((now, dto) # cs) =
     (case verifyTwoFactorCode env rp now userId dto w of
        (r, w') \<Rightarrow> (if wrong_guess r then [now] else []) @ wrong_guesses env rp userId w' cs)"

fun all_refused ::
  "'tok auth_env \<Rightarrow> ('u, 'w, 'r, 'f, 'v) auth_repos \<Rightarrow> string \<Rightarrow> ('u, 'w, 'r, 'f, 'v) auth_world \<Rightarrow> (timestamp \<times> two_factor_dto) list \<Rightarrow> bool" where
  "all_refused env rp userId w [] = True"
| "all_refused env rp userId w ((now, dto) # cs) =
     (case verifyTwoFactorCode env rp now userId dto w of (r, w') \<Rightarrow> r \<noteq> Inr () \<and> all_refused env rp userId w' cs)"

text \<open>The one enabled second factor of a user.\<close>

definition enabled_row :: "(string \<Rightarrow> two_factor_auth option) \<Rightarrow> string \<Rightarrow> two_factor_auth \<Rightarrow> bool" where
  "enabled_row rows userId t \<longleftrightarrow>
     rows (tf_id t) = Some t \<and> tf_userId t = userId \<and> tf_isEnabled t \<and>
     (\<forall>k x. rows k = Some x \<longrightarrow> tf_userId x = userId \<longrightarrow> tf_isEnabled x \<longrightarrow> k = tf_id t)"

text \<open>
  The guesses in the window from \<open>t0\<close> on, by the row they start from: none while the lock lasts
  through the window, and otherwise as many as the counter leaves.
\<close>

definition guesses_left :: "timestamp \<Rightarrow> two_factor_auth \<Rightarrow> int" where
  "guesses_left t0 t =
     (if (case tf_lockedUntil t of None \<Rightarrow> False | Some l \<Rightarrow> l \<ge> t0 + LOCKOUT_DURATION_MS) then 0
      else MAX_2FA_ATTEMPTS - tf_failedAttempts t)"

text \<open>No valid row carries the refresh token any more.\<close>

definition dead_token :: "(string \<Rightarrow> refresh_token option) \<Rightarrow> string \<Rightarrow> bool" where
  "dead_token rows token \<longleftrightarrow> (\<forall>k r. rows k = Some r \<longrightarrow> rt_token r = token \<longrightarrow> rt_revoked r)"

text \<open>The calls that touch the table of refresh tokens; none draws \<open>token\<close> again.\<close>

inductive token_step ::
  "'tok auth_env \<Rightarrow> ('u, 'w, 'r, 'f, 'v) auth_repos \<Rightarrow> string \<Rightarrow> ('u, 'w, 'r, 'f, 'v) auth_world \<Rightarrow> ('u, 'w, 'r, 'f, 'v) auth_world \<Rightarrow> bool"
  for env rp token where
  registered: "dr_token draw \<noteq> token \<Longrightarrow> token_step env rp token w (snd (register env rp now i salt uuid draw dto ip ua w))"
| logged_in: "dr_token draw \<noteq> token \<Longrightarrow> token_step env rp token w (snd (login env rp now draw email pw ip ua w))"
| refreshed: "dr_token draw \<noteq> token \<Longrightarrow> token_step env rp token w (snd (refreshToken env rp now draw tok ip ua w))"
| second_factor: "dr_token draw \<noteq> token \<Longrightarrow> token_step env rp token w (snd (verifyTwoFactorLogin env rp now draw i dto' ip' ua w))"
| logged_out: "token_step env rp token w (snd (logout_route undef rp now pr w))"

text \<open>Example parameters: hashes are the texts themselves and a TOTP code is right when it is the secret.\<close>

definition sample_env :: "jwt_payload auth_env" where
  "sample_env = \<lparr>ae_jwt = plain_jwt, ae_hash = (\<lambda>salt p. p), ae_compare = (\<lambda>p h. p = h), ae_totp = (\<lambda>now s c. c = s),
     ae_sha256 = (\<lambda>x. x), ae_number = (\<lambda>n. ''n'')\<rparr>"

definition sample_two_factor :: two_factor_auth where
  "sample_two_factor = \<lparr>tf_id = ''f1'', tf_userId = ''u1'', tf_type = TOTP, tf_status = TF_VERIFIED, tf_secret = ''111111'',
     tf_backupCodes = Some [''AAAABBBB''], tf_isEnabled = True, tf_failedAttempts = 0, tf_lockedUntil = None,
     tf_verifiedAt = Some 0, tf_lastUsedAt = None\<rparr>"

definition sample_refresh :: refresh_token where
  "sample_refresh = \<lparr>rt_id = ''r1'', rt_userId = ''u1'', rt_token = ''tok1'', rt_expiresAt = 1000000, rt_revoked = False,
     rt_revokedAt = None, rt_replacedByToken = None, rt_ipAddress = ''1.2.3.4'', rt_userAgent = None\<rparr>"

definition sample_world :: mem_world where
  "sample_world = mem_world_of [sample_user\<lparr>us_role := ADMIN\<rparr>] [] [sample_refresh] [sample_two_factor] []"

definition guess :: "string \<Rightarrow> two_factor_dto" where
  "guess c = \<lparr>td_code = Some c, td_backupCode = None\<rparr>"

definition sample_login :: "jwt_payload login_result result \<times> mem_world" where
  "sample_login = login sample_env mem_repos 1000 \<lparr>dr_rowId = ''r2'', dr_token = ''tok2''\<rparr> ''a@x.io'' ''pw'' ''ip'' None sample_world"

definition early_login :: "jwt_payload login_result result \<times> mem_world" where
  "early_login = login sample_env calm_repos 1000 \<lparr>dr_rowId = ''r2'', dr_token = ''tok2''\<rparr> ''a@x.io'' ''pw'' ''ip'' None
     (mem_world_of [sample_user\<lparr>us_role := ADMIN\<rparr>] [] [] [] [])"

section \<open>Facts\<close>

lemma locked_message_other: "locked_message env n \<noteq> lockout_message" "locked_message env n \<noteq> invalid_message"
proof -
  have r: "rev (locked_message env n) ! 1 = CHR '')''" by (simp add: locked_message_def)
  have l: "rev lockout_message ! 1 \<noteq> CHR '')''" "rev invalid_message ! 1 \<noteq> CHR '')''" by code_simp+
  show "locked_message env n \<noteq> lockout_message" using r l(1) by metis
  show "locked_message env n \<noteq> invalid_message" using r l(2) by metis
qed

lemma check_code_frame:
  assumes "check_code env now dto t = (v, t')"
  shows "tf_id t' = tf_id t" "tf_userId t' = tf_userId t" "tf_isEnabled t' = tf_isEnabled t"
  using assms by (auto simp: check_code_def Let_def split: if_splits prod.splits)

lemma check_code_wrong:
  assumes "check_code env now dto t = (False, t')"
  shows "tf_failedAttempts t + 1 \<ge> MAX_2FA_ATTEMPTS \<and> tf_failedAttempts t' = 0 \<and> tf_lockedUntil t' = Some (now + LOCKOUT_DURATION_MS) \<or>
    tf_failedAttempts t + 1 < MAX_2FA_ATTEMPTS \<and> tf_failedAttempts t' = tf_failedAttempts t + 1 \<and> tf_lockedUntil t' = tf_lockedUntil t"
  using assms by (auto simp: check_code_def Let_def split: if_splits prod.splits)

lemma read_run: "read_two_factor rp i w =
    (fst (to_findOne (ar_twoFactor rp) (\<lambda>t. tf_userId t = i \<and> tf_isEnabled t) any_order (aw_twoFactor w)),
     w\<lparr>aw_twoFactor := snd (to_findOne (ar_twoFactor rp) (\<lambda>t. tf_userId t = i \<and> tf_isEnabled t) any_order (aw_twoFactor w))\<rparr>)"
  by (simp add: read_two_factor_def on_twoFactor_def on_part_eq)

lemma twoFactor_save_run: "on_twoFactor (to_save (ar_twoFactor rp) t) w =
    (fst (to_save (ar_twoFactor rp) t (aw_twoFactor w)), w\<lparr>aw_twoFactor := snd (to_save (ar_twoFactor rp) t (aw_twoFactor w))\<rparr>)"
  by (simp add: on_twoFactor_def on_part_eq)

text \<open>What a step of the second factor does to the enabled row: counted guesses and all others.\<close>

context auth_tables
begin

lemma finish_code_cases:
  assumes fin: "finish_code env rp now dto (Some t) w = (res, w')" and "res \<noteq> Inr ()"
  obtains (refused) "frows (aw_twoFactor w') = frows (aw_twoFactor w)" "\<not> wrong_guess res" |
    (wrong) t' where "check_code env now dto t = (False, t')" "case tf_lockedUntil t of None \<Rightarrow> True | Some l \<Rightarrow> l \<le> now"
      "wrong_guess res" "frows (aw_twoFactor w') = (frows (aw_twoFactor w))(tf_id t \<mapsto> t')"
proof -
  define locked where "locked = (case tf_lockedUntil t of None \<Rightarrow> False | Some l \<Rightarrow> l > now)"
  define missing where "missing = (\<not> truthy (td_code dto) \<and> \<not> truthy (td_backupCode dto))"
  obtain v t' where c: "check_code env now dto t = (v, t')" by (cases "check_code env now dto t") auto
  let ?save = "to_save (ar_twoFactor rp) t' (aw_twoFactor w)"
  consider "locked" | "\<not> locked" "missing" | "\<not> locked" "\<not> missing" by blast
  then show thesis
  proof cases
    case 1
    then show ?thesis using fin refused locked_message_other
      by (auto simp: finish_code_def locked_def [symmetric] io_throw_def wrong_guess_def)
  next
    case 2
    then show ?thesis using fin refused
      by (auto simp: finish_code_def locked_def [symmetric] missing_def [symmetric] io_throw_def wrong_guess_def)
  next
    case 3
    have run: "(res, w') = io_bind (on_twoFactor (to_save (ar_twoFactor rp) t')) (\<lambda>_. if v then io_return ()
        else io_throw (Unauthorized (if tf_failedAttempts t + 1 \<ge> MAX_2FA_ATTEMPTS then lockout_message else invalid_message))) w"
      using 3 fin c by (simp add: finish_code_def locked_def [symmetric] missing_def [symmetric])
    show ?thesis
    proof (cases "fst ?save")
      case (Inl e)
      then have "\<exists>m. e = PlainError m" using f.driver_writes(1) [of t' "aw_twoFactor w"] driver_resultD by blast
      then show ?thesis using refused f.save_err [OF Inl] Inl run
        by (auto simp: io_bind_run twoFactor_save_run wrong_guess_def)
    next
      case (Inr u)
      have "\<not> v" using assms(2) Inr run by (auto simp: io_bind_run twoFactor_save_run io_return_def)
      then have "check_code env now dto t = (False, t')" using c by simp
      then show ?thesis using wrong f.save_ok [OF Inr] 3(1) Inr run \<open>\<not> v\<close> check_code_frame [OF c]
        by (auto simp: io_bind_run twoFactor_save_run io_throw_def wrong_guess_def locked_def split: option.splits)
    qed
  qed
qed

lemma enabled_row_found:
  assumes "enabled_row (frows d) i t"
    and "fst (to_findOne (ar_twoFactor rp) (\<lambda>t. tf_userId t = i \<and> tf_isEnabled t) any_order d) = Inr x"
  shows "x = Some t"
proof (cases x)
  case None
  then show ?thesis using f.findOne_none [of "\<lambda>t. tf_userId t = i \<and> tf_isEnabled t" any_order d "tf_id t" t] assms
    by (auto simp: enabled_row_def)
next
  case (Some y)
  then have "tf_userId y = i" "tf_isEnabled y" "frows d (tf_id y) = Some y"
    using f.findOne_some [of "\<lambda>t. tf_userId t = i \<and> tf_isEnabled t" any_order d y] assms(2) by simp_all
  then have "tf_id y = tf_id t" using assms(1) unfolding enabled_row_def by blast
  then have "y = t" using assms(1) \<open>frows d (tf_id y) = Some y\<close> by (simp add: enabled_row_def)
  then show ?thesis using Some by simp
qed

lemma verify_code_cases:
  assumes row: "enabled_row (frows (aw_twoFactor w)) i t"
    and ver: "verifyTwoFactorCode env rp now i dto w = (res, w')" and res: "res \<noteq> Inr ()"
  obtains (refused) "frows (aw_twoFactor w') = frows (aw_twoFactor w)" "\<not> wrong_guess res" |
    (wrong) t' where "check_code env now dto t = (False, t')" "case tf_lockedUntil t of None \<Rightarrow> True | Some l \<Rightarrow> l \<le> now"
      "wrong_guess res" "frows (aw_twoFactor w') = (frows (aw_twoFactor w))(tf_id t \<mapsto> t')"
proof -
  let ?find = "to_findOne (ar_twoFactor rp) (\<lambda>t. tf_userId t = i \<and> tf_isEnabled t) any_order (aw_twoFactor w)"
  have rows: "frows (snd ?find) = frows (aw_twoFactor w)" by (rule f.findOne_rows)
  show thesis
  proof (cases "fst ?find")
    case (Inl e)
    then have "\<exists>m. e = PlainError m" using f.driver_queries(1) driver_resultD by blast
    then show ?thesis using refused Inl ver rows
      by (auto simp: verifyTwoFactorCode_def io_bind_run read_run wrong_guess_def)
  next
    case (Inr x)
    then have "x = Some t" by (rule enabled_row_found [OF row])
    then have fin: "finish_code env rp now dto (Some t) (w\<lparr>aw_twoFactor := snd ?find\<rparr>) = (res, w')"
      using ver Inr by (simp add: verifyTwoFactorCode_def io_bind_run read_run)
    from fin res show ?thesis
    proof (cases rule: finish_code_cases)
      case refused then show ?thesis using that(1) rows by simp
    next
      case (wrong t') then show ?thesis using that(2) rows by simp
    qed
  qed
qed

lemma enabled_row_put:
  "enabled_row rows i t \<Longrightarrow> tf_id t' = tf_id t \<Longrightarrow> tf_userId t' = tf_userId t \<Longrightarrow> tf_isEnabled t' = tf_isEnabled t \<Longrightarrow>
    enabled_row (rows(tf_id t \<mapsto> t')) i t'"
  by (auto simp: enabled_row_def split: if_splits)

lemma guesses_left_step:
  assumes "check_code env now dto t = (False, t')" "case tf_lockedUntil t of None \<Rightarrow> True | Some l \<Rightarrow> l \<le> now"
    and "0 \<le> tf_failedAttempts t" "tf_failedAttempts t < MAX_2FA_ATTEMPTS" "t0 \<le> now"
  shows "guesses_left t0 t' + (if now < t0 + LOCKOUT_DURATION_MS then 1 else 0) \<le> guesses_left t0 t"
    "0 \<le> tf_failedAttempts t'" "tf_failedAttempts t' < MAX_2FA_ATTEMPTS"
  using check_code_wrong [OF assms(1)] assms(2-)
  by (auto simp: guesses_left_def MAX_2FA_ATTEMPTS_def split: option.splits)

lemma wrong_guesses_after:
  assumes "enabled_row (frows (aw_twoFactor w)) i t" "0 \<le> tf_failedAttempts t" "tf_failedAttempts t < MAX_2FA_ATTEMPTS"
    and "all_refused env rp i w cs" "\<forall>c \<in> set cs. t0 \<le> fst c"
  shows "int (length (filter (\<lambda>x. t0 \<le> x \<and> x < t0 + LOCKOUT_DURATION_MS) (wrong_guesses env rp i w cs))) \<le> guesses_left t0 t"
  using assms
proof (induction cs arbitrary: w t)
  case Nil
  then show ?case by (simp add: guesses_left_def MAX_2FA_ATTEMPTS_def split: option.splits)
next
  case (Cons c cs)
  obtain now dto where c: "c = (now, dto)" by (cases c) auto
  obtain res w' where ver: "verifyTwoFactorCode env rp now i dto w = (res, w')" by (cases "verifyTwoFactorCode env rp now i dto w") auto
  have rest: "res \<noteq> Inr ()" "all_refused env rp i w' cs" using Cons.prems(4) c ver by simp_all
  from Cons.prems(1) ver rest(1) show ?case
  proof (cases rule: verify_code_cases)
    case refused
    then show ?thesis using Cons.IH [of w' t] Cons.prems c ver rest by simp
  next
    case (wrong t')
    have row: "enabled_row (frows (aw_twoFactor w')) i t'"
      using enabled_row_put [OF Cons.prems(1)] check_code_frame [OF wrong(1)] wrong(4) by simp
    have "t0 \<le> now" using Cons.prems(5) c by simp
    note step = guesses_left_step [OF wrong(1,2) Cons.prems(2,3) this]
    show ?thesis using Cons.IH [OF row step(2,3) rest(2)] Cons.prems(5) step(1) wrong(3) c ver by (auto split: if_splits)
  qed
qed

lemma wrong_guesses_bound:
  assumes "enabled_row (frows (aw_twoFactor w)) i t" "0 \<le> tf_failedAttempts t" "tf_failedAttempts t < MAX_2FA_ATTEMPTS"
    and "all_refused env rp i w cs" "sorted (map fst cs)"
  shows "int (length (filter (\<lambda>x. t0 \<le> x \<and> x < t0 + LOCKOUT_DURATION_MS) (wrong_guesses env rp i w cs))) \<le> MAX_2FA_ATTEMPTS"
  using assms
proof (induction cs arbitrary: w t)
  case Nil
  then show ?case by (simp add: MAX_2FA_ATTEMPTS_def)
next
  case (Cons c cs)
  obtain now dto where c: "c = (now, dto)" by (cases c) auto
  obtain res w' where ver: "verifyTwoFactorCode env rp now i dto w = (res, w')" by (cases "verifyTwoFactorCode env rp now i dto w") auto
  have rest: "res \<noteq> Inr ()" "all_refused env rp i w' cs" using Cons.prems(4) c ver by simp_all
  show ?case
  proof (cases "t0 \<le> now")
    case True
    then have "\<forall>x \<in> set (c # cs). t0 \<le> fst x" using Cons.prems(5) c by auto
    from wrong_guesses_after [OF Cons.prems(1-4) this]
    show ?thesis using Cons.prems(2) by (auto simp: guesses_left_def MAX_2FA_ATTEMPTS_def split: if_splits)
  next
    case False
    have "\<exists>t'. enabled_row (frows (aw_twoFactor w')) i t' \<and> 0 \<le> tf_failedAttempts t' \<and> tf_failedAttempts t' < MAX_2FA_ATTEMPTS"
      using Cons.prems(1) ver rest(1)
    proof (cases rule: verify_code_cases)
      case refused
      then show ?thesis using Cons.prems by (intro exI [of _ t]) simp
    next
      case (wrong t')
      then show ?thesis using enabled_row_put [OF Cons.prems(1)] check_code_frame [OF wrong(1)] check_code_wrong [OF wrong(1)] Cons.prems(2)
        by (intro exI [of _ t']) (auto simp: MAX_2FA_ATTEMPTS_def)
    qed
    then show ?thesis using Cons.IH [of w'] Cons.prems(5) rest c ver False by auto
  qed
qed

lemma find_user_keeps_dead [io_keeps_rules]: "io_keeps (\<lambda>w. dead_token (rrows (aw_refresh w)) token) (find_user rp P)"
  by (simp add: io_keeps_def find_user_def on_users_def on_part_eq)

lemma users_keep_dead [io_keeps_rules]: "io_keeps (\<lambda>w. dead_token (rrows (aw_refresh w)) token) (on_users m)"
  by (simp add: io_keeps_def on_users_def on_part_eq)

lemma save_user_keeps_dead [io_keeps_rules]: "io_keeps (\<lambda>w. dead_token (rrows (aw_refresh w)) token) (save_user rp u)"
  by (simp add: io_keeps_def save_user_def on_users_def on_part_eq)

lemma twoFactor_keeps_dead [io_keeps_rules]: "io_keeps (\<lambda>w. dead_token (rrows (aw_refresh w)) token) (on_twoFactor m)"
  by (simp add: io_keeps_def on_twoFactor_def on_part_eq)

lemma refresh_find_keeps_dead [io_keeps_rules]:
  "io_keeps (\<lambda>w. dead_token (rrows (aw_refresh w)) token) (on_refresh (to_findOne (ar_refresh rp) P ord))"
  by (simp add: io_keeps_def on_refresh_def on_part_eq r.findOne_rows)

lemma refresh_save_dead:
  "rt_token t \<noteq> token \<Longrightarrow> dead_token (rrows d) token \<Longrightarrow> dead_token (rrows (snd (to_save (ar_refresh rp) t d))) token"
  using r.save_ok [of t d] r.save_err [of t d]
  by (cases "fst (to_save (ar_refresh rp) t d)") (auto simp: dead_token_def)

lemma refresh_update_dead:
  assumes "\<And>t. rt_id (g t) = rt_id t" "\<And>t. rt_token (g t) = rt_token t" "\<And>t. rt_revoked t \<Longrightarrow> rt_revoked (g t)"
    and "dead_token (rrows d) token"
  shows "dead_token (rrows (snd (to_update (ar_refresh rp) P g d))) token"
  using r.update_ok [of P g d, OF _ assms(1)] r.update_err [of P g d] assms(2-)
  by (cases "fst (to_update (ar_refresh rp) P g d)") (auto simp: dead_token_def)

lemma refresh_save_keeps_dead:
  "rt_token t \<noteq> token \<Longrightarrow> io_keeps (\<lambda>w. dead_token (rrows (aw_refresh w)) token) (on_refresh (to_save (ar_refresh rp) t))"
  by (simp add: io_keeps_def on_refresh_def on_part_eq refresh_save_dead)

lemma refresh_update_keeps_dead:
  assumes "\<And>t. rt_id (g t) = rt_id t" "\<And>t. rt_token (g t) = rt_token t" "\<And>t. rt_revoked t \<Longrightarrow> rt_revoked (g t)"
  shows "io_keeps (\<lambda>w. dead_token (rrows (aw_refresh w)) token) (on_refresh (to_update (ar_refresh rp) P g))"
  using refresh_update_dead [OF assms] by (simp add: io_keeps_def on_refresh_def on_part_eq)

lemma generateTokens_keeps_dead [io_keeps_rules]:
  "dr_token draw \<noteq> token \<Longrightarrow> io_keeps (\<lambda>w. dead_token (rrows (aw_refresh w)) token) (generateTokens env rp now draw u ip ua v)"
  unfolding generateTokens_def Let_def by (intro io_keeps_rules refresh_save_keeps_dead) simp

lemma isTwoFactorEnabled_keeps_dead [io_keeps_rules]:
  "io_keeps (\<lambda>w. dead_token (rrows (aw_refresh w)) token) (isTwoFactorEnabled rp i)"
  unfolding isTwoFactorEnabled_def by (intro io_keeps_rules)

lemma revokeAll_keeps_dead [io_keeps_rules]:
  "io_keeps (\<lambda>w. dead_token (rrows (aw_refresh w)) token) (revokeAllRefreshTokens undef rp now i)"
  unfolding revokeAllRefreshTokens_def by (rule refresh_update_keeps_dead) simp_all

lemma register_keeps_dead:
  "dr_token draw \<noteq> token \<Longrightarrow> io_keeps (\<lambda>w. dead_token (rrows (aw_refresh w)) token) (register env rp now i salt uuid draw dto ip ua)"
  unfolding register_def Let_def by (intro io_keeps_rules)

lemma login_keeps_dead:
  "dr_token draw \<noteq> token \<Longrightarrow> io_keeps (\<lambda>w. dead_token (rrows (aw_refresh w)) token) (login env rp now draw email pw ip ua)"
  unfolding login_def by (intro io_keeps_rules)

lemma refreshToken_keeps_dead:
  "dr_token draw \<noteq> token \<Longrightarrow> io_keeps (\<lambda>w. dead_token (rrows (aw_refresh w)) token) (refreshToken env rp now draw tok ip ua)"
  unfolding refreshToken_def rotate_token_def by (intro io_keeps_rules refresh_update_keeps_dead) simp_all

lemma verifyTwoFactorLogin_keeps_dead:
  "dr_token draw \<noteq> token \<Longrightarrow> io_keeps (\<lambda>w. dead_token (rrows (aw_refresh w)) token) (verifyTwoFactorLogin env rp now draw i dto ip ua)"
  unfolding verifyTwoFactorLogin_def verifyTwoFactorCode_def read_two_factor_def finish_code_def Let_def by (intro io_keeps_rules)

lemma token_step_dead:
  "token_step env rp token w w' \<Longrightarrow> dead_token (rrows (aw_refresh w)) token \<Longrightarrow> dead_token (rrows (aw_refresh w')) token"
proof (induction rule: token_step.induct)
  case registered then show ?case using io_keepsD [OF register_keeps_dead] by blast
next
  case logged_in then show ?case using io_keepsD [OF login_keeps_dead] by blast
next
  case refreshed then show ?case using io_keepsD [OF refreshToken_keeps_dead] by blast
next
  case second_factor then show ?case using io_keepsD [OF verifyTwoFactorLogin_keeps_dead] by blast
next
  case (logged_out w undef now pr)
  then show ?case unfolding logout_route_def Let_def by (intro io_keepsD [OF revokeAll_keeps_dead]) simp
qed

lemma dead_token_refused:
  assumes "dead_token (rrows (aw_refresh w)) token"
  shows "\<exists>e. fst (refreshToken env rp now draw token ip ua w) = Inl e"
proof (cases "fst (to_findOne (ar_refresh rp) (\<lambda>t. rt_token t = token \<and> \<not> rt_revoked t) any_order (aw_refresh w))")
  case (Inl e)
  then show ?thesis by (simp add: refreshToken_def io_bind_run on_refresh_def on_part_eq)
next
  case (Inr x)
  have "x = None"
  proof (rule ccontr)
    assume "x \<noteq> None"
    then obtain t where "x = Some t" by blast
    then have "rt_token t = token \<and> \<not> rt_revoked t \<and> rrows (aw_refresh w) (rt_id t) = Some t"
      using r.findOne_some [of "\<lambda>t. rt_token t = token \<and> \<not> rt_revoked t" any_order "aw_refresh w" t] Inr by simp
    then show False using assms by (auto simp: dead_token_def)
  qed
  then show ?thesis using Inr by (simp add: refreshToken_def io_bind_run on_refresh_def on_part_eq io_throw_def)
qed

lemma isTwoFactorEnabled_run:
  "aw_refresh (snd (isTwoFactorEnabled rp i w)) = aw_refresh w" "aw_blacklist (snd (isTwoFactorEnabled rp i w)) = aw_blacklist w"
  "frows (aw_twoFactor (snd (isTwoFactorEnabled rp i w))) = frows (aw_twoFactor w)"
  by (simp_all add: isTwoFactorEnabled_def io_bind_run on_twoFactor_def on_part_eq io_return_def f.findOne_rows split: sum.splits)

lemma isTwoFactorEnabled_Inr:
  assumes "fst (isTwoFactorEnabled rp i w) = Inr b"
  shows "b \<longleftrightarrow> (\<exists>k t. frows (aw_twoFactor w) k = Some t \<and> tf_userId t = i \<and> tf_isEnabled t)"
proof -
  let ?find = "to_findOne (ar_twoFactor rp) (\<lambda>t. tf_userId t = i \<and> tf_isEnabled t) any_order (aw_twoFactor w)"
  obtain x where x: "fst ?find = Inr x" and b: "b = (x \<noteq> None)"
    using assms by (auto simp: isTwoFactorEnabled_def io_bind_run on_twoFactor_def on_part_eq io_return_def split: sum.splits)
  show ?thesis
  proof (cases x)
    case None
    then show ?thesis using b f.findOne_none [of _ _ "aw_twoFactor w"] x by fastforce
  next
    case (Some t)
    then show ?thesis using b f.findOne_some [of "\<lambda>t. tf_userId t = i \<and> tf_isEnabled t" any_order "aw_twoFactor w" t] x by auto
  qed
qed

lemma generateTokens_Inr:
  assumes "fst (generateTokens env rp now draw u ip ua v w) = Inr tp"
  shows "tp = \<lparr>tp_accessToken = jo_sign (ae_jwt env) now ACCESS_TOKEN_TTL_SECONDS (access_payload u v), tp_refreshToken = dr_token draw\<rparr>"
    "\<exists>t. rt_token t = dr_token draw \<and> rrows (aw_refresh (snd (generateTokens env rp now draw u ip ua v w))) = (rrows (aw_refresh w))(dr_rowId draw \<mapsto> t)"
proof -
  define t where "t = \<lparr>rt_id = dr_rowId draw, rt_userId = us_id u, rt_token = dr_token draw, rt_expiresAt = now + REFRESH_TOKEN_TTL_MS,
    rt_revoked = False, rt_revokedAt = None, rt_replacedByToken = None, rt_ipAddress = ip, rt_userAgent = ua\<rparr>"
  have g: "generateTokens env rp now draw u ip ua v w = io_bind (on_refresh (to_save (ar_refresh rp) t)) (\<lambda>_. io_return
      \<lparr>tp_accessToken = jo_sign (ae_jwt env) now ACCESS_TOKEN_TTL_SECONDS (access_payload u v), tp_refreshToken = dr_token draw\<rparr>) w"
    by (simp add: generateTokens_def t_def Let_def)
  have ok: "fst (to_save (ar_refresh rp) t (aw_refresh w)) = Inr ()"
    using assms unfolding g by (auto simp: io_bind_run on_refresh_def on_part_eq io_return_def split: sum.splits)
  show "tp = \<lparr>tp_accessToken = jo_sign (ae_jwt env) now ACCESS_TOKEN_TTL_SECONDS (access_payload u v), tp_refreshToken = dr_token draw\<rparr>"
    using assms ok unfolding g by (simp add: io_bind_run on_refresh_def on_part_eq io_return_def)
  have "rrows (aw_refresh (snd (generateTokens env rp now draw u ip ua v w))) = (rrows (aw_refresh w))(dr_rowId draw \<mapsto> t)"
    using r.save_ok [OF ok] ok unfolding g by (simp add: io_bind_run on_refresh_def on_part_eq io_return_def t_def)
  then show "\<exists>t. rt_token t = dr_token draw \<and>
      rrows (aw_refresh (snd (generateTokens env rp now draw u ip ua v w))) = (rrows (aw_refresh w))(dr_rowId draw \<mapsto> t)"
    by (intro exI [of _ t]) (simp add: t_def)
qed

lemma rotate_token_dead:
  assumes ok: "fst (rotate_token env rp now draw ip ua t u w) = Inr tp" and draw: "dr_token draw \<noteq> token"
    and only: "\<And>k x. rrows (aw_refresh w) k = Some x \<Longrightarrow> rt_token x = token \<Longrightarrow> k = rt_id t"
  shows "dead_token (rrows (aw_refresh (snd (rotate_token env rp now draw ip ua t u w)))) token"
proof -
  obtain b where b: "fst (isTwoFactorEnabled rp (us_id u) w) = Inr b" using ok by (auto simp: rotate_token_def io_bind_run split: sum.splits)
  define w1 where "w1 = snd (isTwoFactorEnabled rp (us_id u) w)"
  have rows1: "rrows (aw_refresh w1) = rrows (aw_refresh w)" using isTwoFactorEnabled_run(1) [of "us_id u" w] by (simp add: w1_def)
  obtain new where new: "fst (generateTokens env rp now draw u ip ua (\<not> b) w1) = Inr new"
    using ok b by (auto simp: rotate_token_def io_bind_run w1_def split: sum.splits)
  define w2 where "w2 = snd (generateTokens env rp now draw u ip ua (\<not> b) w1)"
  obtain x where "rt_token x = dr_token draw" "rrows (aw_refresh w2) = (rrows (aw_refresh w1))(dr_rowId draw \<mapsto> x)"
    using generateTokens_Inr(2) [OF new] w2_def by blast
  then have only2: "rrows (aw_refresh w2) k = Some x \<Longrightarrow> rt_token x = token \<Longrightarrow> k = rt_id t" for k x
    using only [of k x] rows1 draw by (auto split: if_splits)
  define g where "g = (\<lambda>x :: refresh_token. x\<lparr>rt_revoked := True, rt_revokedAt := Some now, rt_replacedByToken := Some (tp_refreshToken new)\<rparr>)"
  define upd where "upd = to_update (ar_refresh rp) (\<lambda>x. rt_id x = rt_id t) g (aw_refresh w2)"
  have run: "rotate_token env rp now draw ip ua t u w = io_bind (on_refresh (to_update (ar_refresh rp) (\<lambda>x. rt_id x = rt_id t) g)) (\<lambda>_. io_return new) w2"
    unfolding rotate_token_def g_def using b new by (simp add: io_bind_step w1_def w2_def)
  have up: "fst upd = Inr ()" using ok unfolding run by (auto simp: upd_def io_bind_run on_refresh_def on_part_eq split: sum.splits)
  have "rrows (snd upd) k = map_option (\<lambda>x. if rt_id x = rt_id t then g x else x) (rrows (aw_refresh w2) k)" for k
    unfolding upd_def by (rule r.update_ok) (use up in \<open>simp_all add: upd_def g_def\<close>)
  moreover have "rt_revoked (g x)" "rt_token (g x) = rt_token x" for x by (simp_all add: g_def)
  ultimately have "dead_token (rrows (snd upd)) token"
    unfolding dead_token_def using only2 r.row_key by (auto split: if_splits)
  then show ?thesis unfolding run using up by (simp add: io_bind_run on_refresh_def on_part_eq io_return_def upd_def)
qed

lemma refreshed_token_dead:
  assumes ok: "fst (refreshToken env rp now draw token ip ua w) = Inr tp" and draw: "dr_token draw \<noteq> token"
    and uniq: "\<And>k x k' x'. rrows (aw_refresh w) k = Some x \<Longrightarrow> rrows (aw_refresh w) k' = Some x' \<Longrightarrow>
      rt_token x = token \<Longrightarrow> rt_token x' = token \<Longrightarrow> k = k'"
  shows "dead_token (rrows (aw_refresh (snd (refreshToken env rp now draw token ip ua w)))) token"
proof -
  let ?P = "\<lambda>t. rt_token t = token \<and> \<not> rt_revoked t"
  let ?find = "to_findOne (ar_refresh rp) ?P any_order (aw_refresh w)"
  obtain t where t: "fst ?find = Inr (Some t)"
    using ok by (auto simp: refreshToken_def io_bind_run on_refresh_def on_part_eq io_throw_def split: sum.splits option.splits)
  have row: "rt_token t = token" "rrows (aw_refresh w) (rt_id t) = Some t" using r.findOne_some [OF t] by auto
  define w1 where "w1 = w\<lparr>aw_refresh := snd ?find\<rparr>"
  have rows1: "rrows (aw_refresh w1) = rrows (aw_refresh w)" by (simp add: w1_def r.findOne_rows)
  obtain u where u: "fst (find_user rp (\<lambda>u. us_id u = rt_userId t) w1) = Inr (Some u)"
    and run: "refreshToken env rp now draw token ip ua w = rotate_token env rp now draw ip ua t u (snd (find_user rp (\<lambda>u. us_id u = rt_userId t) w1))"
    using ok t by (auto simp: refreshToken_def io_bind_run on_refresh_def on_part_eq io_throw_def w1_def split: sum.splits option.splits if_splits)
  have "rrows (aw_refresh (snd (find_user rp (\<lambda>u. us_id u = rt_userId t) w1))) = rrows (aw_refresh w)"
    using rows1 by (simp add: find_user_def on_users_def on_part_eq)
  then show ?thesis unfolding run using ok row uniq draw by (intro rotate_token_dead) (auto simp: run)
qed

lemma login_Inr:
  assumes "fst (login env rp now draw email pw ip ua w) = Inr res"
  obtains u b where "lr_accessToken res = jo_sign (ae_jwt env) now ACCESS_TOKEN_TTL_SECONDS (access_payload u (\<not> b))"
    "urows (aw_users w) (us_id u) = Some u" "us_email u = Some email" "us_isActive u" "lr_userId res = us_id u"
    "b \<longleftrightarrow> (\<exists>k t. frows (aw_twoFactor w) k = Some t \<and> tf_userId t = us_id u \<and> tf_isEnabled t)" "lr_requiresTwoFactor res = b"
    "lr_role res = us_role u"
    "\<exists>h. us_password u = Some h \<and> ae_compare env pw h"
proof -
  let ?find = "to_findOne (ar_users rp) (\<lambda>u. us_email u = Some email) any_order (aw_users w)"
  obtain x where x: "fst ?find = Inr x"
    using assms by (auto simp: login_def io_bind_run find_user_def on_users_def on_part_eq split: sum.splits)
  then obtain u where u: "fst ?find = Inr (Some u)"
    using assms by (cases x) (auto simp: login_def io_bind_run find_user_def on_users_def on_part_eq io_throw_def)
  define w1 where "w1 = w\<lparr>aw_users := snd ?find\<rparr>"
  have pre: "us_isActive u" "truthy (us_password u)" "ae_compare env pw (the (us_password u))"
    using assms u by (auto simp: login_def io_bind_run find_user_def on_users_def on_part_eq io_throw_def split: if_splits)
  define upd :: "(('u, 'w, 'r, 'f, 'v) auth_world, unit) io" where "upd = on_users (to_update (ar_users rp) (\<lambda>x. us_id x = us_id u) (\<lambda>x. x\<lparr>us_lastLoginAt := Some now\<rparr>))"
  have run: "login env rp now draw email pw ip ua w = io_bind upd (\<lambda>_. io_bind (isTwoFactorEnabled rp (us_id u)) (\<lambda>b.
      io_bind (generateTokens env rp now draw u ip ua (\<not> b)) (\<lambda>tokens. io_return (login_result_of u b tokens)))) w1"
    unfolding login_def upd_def using u pre by (simp add: io_bind_run find_user_def on_users_def on_part_eq w1_def)
  obtain y where y: "fst (upd w1) = Inr y" using assms unfolding run by (auto elim: io_bind_InrE)
  define w2 where "w2 = snd (upd w1)"
  have w2: "aw_twoFactor w2 = aw_twoFactor w" by (simp add: w2_def upd_def on_users_def on_part_eq w1_def)
  obtain b where b: "fst (isTwoFactorEnabled rp (us_id u) w2) = Inr b"
    using assms y unfolding run by (auto simp: io_bind_step w2_def elim: io_bind_InrE)
  obtain tp where tp: "fst (generateTokens env rp now draw u ip ua (\<not> b) (snd (isTwoFactorEnabled rp (us_id u) w2))) = Inr tp"
    and res: "res = login_result_of u b tp"
    using assms y b unfolding run by (auto simp: io_bind_step w2_def io_return_def elim: io_bind_InrE)
  show thesis
    by (rule that [of u b])
      (use generateTokens_Inr(1) [OF tp] u.findOne_some [OF u] pre isTwoFactorEnabled_Inr [OF b] res w2
        in \<open>auto simp: login_result_of_def truthy_def normalize_value split: option.splits\<close>)
qed

end

lemma validate_access_payload:
  assumes "us_id u \<noteq> []"
  shows "validate_jwt now (stamp_payload t ttl (access_payload u v)) b =
    (Inr \<lparr>pr_id = Some (us_id u), pr_sub = Some (us_id u), pr_address = None, pr_email = us_email u, pr_username = us_username u,
      pr_role = us_role u, pr_roles = [us_role u], pr_tier = Some (resolveRateLimitTierFromRole (Some (role_value (us_role u))) None None),
      pr_jti = None, pr_twoFactorVerified = v, pr_exp = Some (t div 1000 + ttl), pr_type = Traditional\<rparr>, b)"
  using assms by (simp add: validate_jwt_def stamp_payload_def access_payload_def normalize_value Let_def)

lemma stamped_exp: "the (jp_exp (stamp_payload t ttl (access_payload u v))) = t div 1000 + ttl"
  by (simp add: stamp_payload_def access_payload_def Let_def)

lemma guard_access_token:
  assumes "jwt_service jwt" "us_id u \<noteq> []" "now div 1000 < t div 1000 + ttl"
  shows "jwt_guard jwt now (jo_sign jwt t ttl (access_payload u v)) b = validate_jwt now (stamp_payload t ttl (access_payload u v)) b"
  using jwt_service.verify_sign [OF assms(1), of now t ttl "access_payload u v"] assms(3) by (simp add: jwt_guard_def stamped_exp)

lemma isAdmin_iff: "isAdmin r \<longleftrightarrow> r = ADMIN"
proof -
  have "list_all (\<lambda>r. isAdmin r \<longleftrightarrow> r = ADMIN) ROLE_VALUES" by code_simp
  then show ?thesis by (rule all_roles)
qed

lemma unverified_admin_refused:
  assumes "pr_role p = ADMIN" "\<not> pr_twoFactorVerified p"
  shows "fst (admin_two_factor_guard rp (Some p) w) \<noteq> Inr x"
  using assms by (simp add: admin_two_factor_guard_def isAdmin_iff io_bind_run io_throw_def split: sum.splits)

lemma sample_login_ok:
  obtains res w1 where "login sample_env mem_repos 1000 \<lparr>dr_rowId = ''r2'', dr_token = ''tok2''\<rparr> ''a@x.io'' ''pw'' ''ip'' None sample_world = (Inr res, w1)"
    "sample_login = (Inr res, w1)" "lr_userId res \<noteq> []"
proof -
  have "(case fst sample_login of Inr res \<Rightarrow> lr_userId res \<noteq> [] | Inl e \<Rightarrow> False)" by code_simp
  then obtain res where "fst sample_login = Inr res" "lr_userId res \<noteq> []" by (auto split: sum.splits)
  then show thesis using that [of res "snd sample_login"] by (metis prod.collapse sample_login_def)
qed

section \<open>Properties\<close>

text \<open>
  C13. Guessing the second factor is bounded: in any history of attempts on one account in the
  order of their times, none of which succeeds, at most five wrong guesses are answered in any
  stretch of fifteen minutes, for every table and whatever fails in it.
\<close>

theorem second_factor_guess_bound:
  assumes "auth_tables rp urows wrows rrows frows vrows"
    and "enabled_row (frows (aw_twoFactor w)) userId t" "0 \<le> tf_failedAttempts t" "tf_failedAttempts t < MAX_2FA_ATTEMPTS"
    and "all_refused env rp userId w cs" "sorted (map fst cs)"
  shows "int (length (filter (\<lambda>x. t0 \<le> x \<and> x < t0 + 15 * 60 * 1000) (wrong_guesses env rp userId w cs))) \<le> 5"
  using auth_tables.wrong_guesses_bound [OF assms, of t0] by (simp add: LOCKOUT_DURATION_MS_def MAX_2FA_ATTEMPTS_def)

theorem second_factor_guess_bound_witness:
  "int (length (filter (\<lambda>x. 0 \<le> x \<and> x < 0 + 15 * 60 * 1000)
      (wrong_guesses sample_env mem_repos ''u1'' sample_world (map (\<lambda>n. (n, guess ''0'')) [1, 2, 3, 4, 5, 6, 7])))) \<le> 5"
proof (rule second_factor_guess_bound [OF ma.auth_tables_axioms])
  show "enabled_row (table_row tf_id (aw_twoFactor sample_world)) ''u1'' sample_two_factor"
    by (auto simp: enabled_row_def sample_world_def mem_world_of_def table_row_def sample_two_factor_def split: if_splits)
  show "0 \<le> tf_failedAttempts sample_two_factor" "tf_failedAttempts sample_two_factor < MAX_2FA_ATTEMPTS"
    by (simp_all add: sample_two_factor_def MAX_2FA_ATTEMPTS_def)
  show "all_refused sample_env mem_repos ''u1'' sample_world (map (\<lambda>n. (n, guess ''0'')) [1, 2, 3, 4, 5, 6, 7])" by code_simp
  show "sorted (map fst (map (\<lambda>n. (n :: timestamp, guess ''0'')) [1, 2, 3, 4, 5, 6, 7]))" by simp
qed

text \<open>
  The lock-out can be avoided by sending the guesses at once: requests that have all read the
  row before the first of them writes count as a single failure, however many they are, and each
  of them is told that its code is wrong.
\<close>

theorem overlapping_guesses_count_once:
  assumes tables: "auth_tables rp urows wrows rrows frows vrows" and saves: "reliable_table (ar_twoFactor rp)"
    and t: "tf_lockedUntil t = None" "tf_failedAttempts t = 0"
    and wrong: "\<forall>c \<in> set cs. truthy (td_code (snd c)) \<and> \<not> ae_totp env (fst c) (tf_secret t) (the (td_code (snd c)))"
    and cs: "cs \<noteq> []"
  shows "frows (aw_twoFactor (run (\<lambda>w c. snd (finish_code env rp (fst c) (snd c) (Some t) w)) w cs)) (tf_id t) =
      Some (t\<lparr>tf_failedAttempts := 1\<rparr>) \<and>
    (\<forall>c \<in> set cs. \<forall>w. fst (finish_code env rp (fst c) (snd c) (Some t) w) = Inl (Unauthorized invalid_message))"
proof -
  have fin: "finish_code env rp (fst c) (snd c) (Some t) w =
      (Inl (Unauthorized invalid_message), w\<lparr>aw_twoFactor := snd (to_save (ar_twoFactor rp) (t\<lparr>tf_failedAttempts := 1\<rparr>) (aw_twoFactor w))\<rparr>)"
    if "c \<in> set cs" for c w
  proof -
    have "check_code env (fst c) (snd c) t = (False, t\<lparr>tf_failedAttempts := 1\<rparr>)"
      using wrong that t by (simp add: check_code_def MAX_2FA_ATTEMPTS_def)
    then show ?thesis using wrong that t saves
      by (simp add: finish_code_def io_bind_run twoFactor_save_run io_throw_def reliable_table_def MAX_2FA_ATTEMPTS_def)
  qed
  have put: "frows (snd (to_save (ar_twoFactor rp) (t\<lparr>tf_failedAttempts := 1\<rparr>) d)) (tf_id t) = Some (t\<lparr>tf_failedAttempts := 1\<rparr>)" for d
    using sql_table.save_ok [of "ar_twoFactor rp" tf_id frows "t\<lparr>tf_failedAttempts := 1\<rparr>" d "()"] saves tables
    by (simp add: auth_tables_def reliable_table_def)
  have "frows (aw_twoFactor (run (\<lambda>w c. snd (finish_code env rp (fst c) (snd c) (Some t) w)) w cs)) (tf_id t) =
      Some (t\<lparr>tf_failedAttempts := 1\<rparr>)"
    using cs fin
  proof (induction cs arbitrary: w)
    case (Cons c cs)
    then show ?case by (cases "cs = []") (simp_all add: put)
  qed simp
  then show ?thesis using fin by simp
qed

theorem overlapping_guesses_count_once_witness:
  "table_row tf_id (aw_twoFactor (run (\<lambda>w c. snd (finish_code sample_env calm_repos (fst c) (snd c) (Some sample_two_factor) w)) sample_world
      (map (\<lambda>n. (n, guess ''0'')) [1, 2, 3, 4, 5, 6, 7]))) (tf_id sample_two_factor) = Some (sample_two_factor\<lparr>tf_failedAttempts := 1\<rparr>) \<and>
    (\<forall>c \<in> set (map (\<lambda>n. (n, guess ''0'')) [1, 2, 3, 4, 5, 6, 7]). \<forall>w.
      fst (finish_code sample_env calm_repos (fst c) (snd c) (Some sample_two_factor) w) = Inl (Unauthorized invalid_message))"
  by (rule overlapping_guesses_count_once [OF ca.auth_tables_axioms])
    (auto simp: calm_repos_def calm_table_reliable sample_two_factor_def sample_env_def guess_def)

text \<open>
  C14. A refresh token works once: after a successful refresh with a token that a single row
  carries, through every sequence of registrations, log-ins, refreshes, second factors and
  log-outs that do not draw the same token again, a refresh with it fails.
\<close>

theorem refresh_token_used_once:
  assumes tables: "auth_tables rp urows wrows rrows frows vrows"
    and ok: "refreshToken env rp now draw token ip ua w = (Inr tp, w1)" and draw: "dr_token draw \<noteq> token"
    and uniq: "\<forall>k x k' x'. rrows (aw_refresh w) k = Some x \<and> rrows (aw_refresh w) k' = Some x' \<and> rt_token x = token \<and> rt_token x' = token \<longrightarrow> k = k'"
    and steps: "(token_step env rp token)\<^sup>*\<^sup>* w1 w2"
  shows "\<exists>e. fst (refreshToken env rp now' draw' token ip' ua' w2) = Inl e"
proof -
  have fst_ok: "fst (refreshToken env rp now draw token ip ua w) = Inr tp" using ok by simp
  have "dead_token (rrows (aw_refresh (snd (refreshToken env rp now draw token ip ua w)))) token"
    by (rule auth_tables.refreshed_token_dead [OF tables fst_ok draw]) (use uniq in blast)
  then have "dead_token (rrows (aw_refresh w1)) token" using ok by simp
  with steps have "dead_token (rrows (aw_refresh w2)) token"
    by (induction rule: rtranclp_induct) (auto intro: auth_tables.token_step_dead [OF tables])
  then show ?thesis by (rule auth_tables.dead_token_refused [OF tables])
qed

theorem refresh_token_used_once_witness:
  "\<exists>e. fst (refreshToken sample_env mem_repos 900 \<lparr>dr_rowId = ''r3'', dr_token = ''tok3''\<rparr> ''tok1'' ''ip'' None
      (snd (refreshToken sample_env mem_repos 500 \<lparr>dr_rowId = ''r2'', dr_token = ''tok2''\<rparr> ''tok1'' ''ip'' None sample_world))) = Inl e"
proof -
  have ok: "\<exists>tp. fst (refreshToken sample_env mem_repos 500 \<lparr>dr_rowId = ''r2'', dr_token = ''tok2''\<rparr> ''tok1'' ''ip'' None sample_world) = Inr tp"
  proof -
    have "(case fst (refreshToken sample_env mem_repos 500 \<lparr>dr_rowId = ''r2'', dr_token = ''tok2''\<rparr> ''tok1'' ''ip'' None sample_world) of
        Inr tp \<Rightarrow> True | Inl e \<Rightarrow> False)" by code_simp
    then show ?thesis by (auto split: sum.splits)
  qed
  then obtain tp w1 where run: "refreshToken sample_env mem_repos 500 \<lparr>dr_rowId = ''r2'', dr_token = ''tok2''\<rparr> ''tok1'' ''ip'' None sample_world = (Inr tp, w1)"
    by (metis prod.collapse)
  have "\<exists>e. fst (refreshToken sample_env mem_repos 900 \<lparr>dr_rowId = ''r3'', dr_token = ''tok3''\<rparr> ''tok1'' ''ip'' None w1) = Inl e"
    by (rule refresh_token_used_once [OF ma.auth_tables_axioms run])
      (auto simp: sample_world_def mem_world_of_def table_row_def split: if_splits)
  then show ?thesis by (simp add: run)
qed

text \<open>
  The password alone does not open the admin routes of an account with a second factor: a log-in
  of an administrator whose second factor is enabled returns a token that the token guard accepts
  during its fifteen minutes and that the admin guard refuses in every later state.
\<close>

theorem password_alone_is_refused:
  assumes tables: "auth_tables rp urows wrows rrows frows vrows" and jwt: "jwt_service (ae_jwt env)"
    and ok: "login env rp now draw email pw ip ua w = (Inr res, w1)"
    and admin: "\<forall>k u. urows (aw_users w) k = Some u \<and> us_email u = Some email \<longrightarrow> us_role u = ADMIN \<and> us_id u \<noteq> []"
    and enabled: "\<forall>k u. urows (aw_users w) k = Some u \<and> us_email u = Some email \<longrightarrow>
      (\<exists>j t. frows (aw_twoFactor w) j = Some t \<and> tf_userId t = us_id u \<and> tf_isEnabled t)"
    and t: "t div 1000 < now div 1000 + 15 * 60"
  shows "\<exists>p. fst (jwt_guard (ae_jwt env) t (lr_accessToken res) b) = Inr p \<and> pr_role p = ADMIN \<and> lr_requiresTwoFactor res \<and>
    (\<forall>w2 x. fst (admin_two_factor_guard rp (Some p) w2) \<noteq> Inr x)"
proof -
  have "fst (login env rp now draw email pw ip ua w) = Inr res" using ok by simp
  then obtain u c where u: "lr_accessToken res = jo_sign (ae_jwt env) now ACCESS_TOKEN_TTL_SECONDS (access_payload u (\<not> c))"
      "urows (aw_users w) (us_id u) = Some u" "us_email u = Some email"
      "c \<longleftrightarrow> (\<exists>k t. frows (aw_twoFactor w) k = Some t \<and> tf_userId t = us_id u \<and> tf_isEnabled t)" "lr_requiresTwoFactor res = c"
    by (rule auth_tables.login_Inr [OF tables])
  have c: "c" and r: "us_role u = ADMIN" "us_id u \<noteq> []" using u admin enabled by blast+
  have "t div 1000 < now div 1000 + ACCESS_TOKEN_TTL_SECONDS" using t by (simp add: ACCESS_TOKEN_TTL_SECONDS_def)
  note g = guard_access_token [OF jwt r(2) this, of "\<not> c" b]
  show ?thesis
    unfolding u(1) g validate_access_payload [OF r(2)] using c r u(5) by (simp add: unverified_admin_refused)
qed

theorem password_alone_is_refused_witness:
  "\<exists>p. fst (jwt_guard plain_jwt 2000 (lr_accessToken (projr (fst sample_login))) []) = Inr p \<and> pr_role p = ADMIN \<and>
    lr_requiresTwoFactor (projr (fst sample_login)) \<and> (\<forall>w2 x. fst (admin_two_factor_guard mem_repos (Some p) w2) \<noteq> Inr x)"
proof -
  obtain res w1 where run: "login sample_env mem_repos 1000 \<lparr>dr_rowId = ''r2'', dr_token = ''tok2''\<rparr> ''a@x.io'' ''pw'' ''ip'' None sample_world = (Inr res, w1)"
      and eq: "sample_login = (Inr res, w1)"
    by (rule sample_login_ok)
  have jwt: "jwt_service (ae_jwt sample_env)" by (simp add: sample_env_def pj.jwt_service_axioms)
  have "\<exists>p. fst (jwt_guard (ae_jwt sample_env) 2000 (lr_accessToken res) []) = Inr p \<and> pr_role p = ADMIN \<and> lr_requiresTwoFactor res \<and>
      (\<forall>w2 x. fst (admin_two_factor_guard mem_repos (Some p) w2) \<noteq> Inr x)"
    by (rule password_alone_is_refused [OF ma.auth_tables_axioms jwt run])
      (auto simp: sample_world_def mem_world_of_def table_row_def sample_user_def sample_two_factor_def split: if_splits)
  then show ?thesis by (simp add: eq sample_env_def)
qed

text \<open>
  A log-out leaves the access token of this service valid: the tokens carry no id, so the
  blacklist does not change, and until the token expires every request with it is accepted as
  before the log-out.
\<close>

theorem access_token_survives_logout:
  assumes tables: "auth_tables rp urows wrows rrows frows vrows" and jwt: "jwt_service (ae_jwt env)"
    and ok: "login env rp now draw email pw ip ua w = (Inr res, w1)" and user: "lr_userId res \<noteq> []"
    and t: "t div 1000 < now div 1000 + 15 * 60" "t' div 1000 < now div 1000 + 15 * 60"
  shows "\<exists>p. fst (jwt_guard (ae_jwt env) t (lr_accessToken res) (aw_blacklist w1)) = Inr p \<and>
    fst (jwt_guard (ae_jwt env) t' (lr_accessToken res) (aw_blacklist (snd (logout_route undef rp t p w1)))) = Inr p"
proof -
  have "fst (login env rp now draw email pw ip ua w) = Inr res" using ok by simp
  then obtain u c where u: "lr_accessToken res = jo_sign (ae_jwt env) now ACCESS_TOKEN_TTL_SECONDS (access_payload u (\<not> c))"
      "lr_userId res = us_id u"
    by (rule auth_tables.login_Inr [OF tables])
  have i: "us_id u \<noteq> []" using u(2) user by simp
  have "x div 1000 < now div 1000 + ACCESS_TOKEN_TTL_SECONDS" if "x \<in> {t, t'}" for x using t that by (auto simp: ACCESS_TOKEN_TTL_SECONDS_def)
  then have g: "jwt_guard (ae_jwt env) x (lr_accessToken res) b =
      validate_jwt x (stamp_payload now ACCESS_TOKEN_TTL_SECONDS (access_payload u (\<not> c))) b" if "x \<in> {t, t'}" for x b
    using guard_access_token [OF jwt i] that u(1) by simp
  show ?thesis by (simp add: g validate_access_payload [OF i])
qed

theorem access_token_survives_logout_witness:
  "\<exists>p. fst (jwt_guard plain_jwt 2000 (lr_accessToken (projr (fst sample_login))) (aw_blacklist (snd sample_login))) = Inr p \<and>
    fst (jwt_guard plain_jwt 3000 (lr_accessToken (projr (fst sample_login)))
      (aw_blacklist (snd (logout_route False mem_repos 2000 p (snd sample_login))))) = Inr p"
proof -
  obtain res w1 where run: "login sample_env mem_repos 1000 \<lparr>dr_rowId = ''r2'', dr_token = ''tok2''\<rparr> ''a@x.io'' ''pw'' ''ip'' None sample_world = (Inr res, w1)"
      and eq: "sample_login = (Inr res, w1)" "lr_userId res \<noteq> []"
    by (rule sample_login_ok)
  have jwt: "jwt_service (ae_jwt sample_env)" by (simp add: sample_env_def pj.jwt_service_axioms)
  show ?thesis
    using access_token_survives_logout [OF ma.auth_tables_axioms jwt run eq(2), of 2000 3000 False] by (simp add: eq sample_env_def)
qed

text \<open>
  A token from before the second factor was enabled opens the admin routes: the token of an
  administrator who logged in without a second factor passes the admin guard in every state in
  which the account has one, although no code was ever asked for.
\<close>

theorem old_token_passes_admin_guard:
  assumes tables: "auth_tables rp urows wrows rrows frows vrows" and jwt: "jwt_service (ae_jwt env)"
    and ok: "login env rp now draw email pw ip ua w = (Inr res, w1)" and none: "\<not> lr_requiresTwoFactor res"
    and user: "lr_userId res \<noteq> []" "lr_role res = ADMIN"
    and t: "t div 1000 < now div 1000 + 15 * 60"
    and later: "frows (aw_twoFactor w2) k = Some x" "tf_userId x = lr_userId res" "tf_isEnabled x"
      "reliable_table (ar_twoFactor rp)"
  shows "\<exists>p. fst (jwt_guard (ae_jwt env) t (lr_accessToken res) b) = Inr p \<and> fst (admin_two_factor_guard rp (Some p) w2) = Inr True"
proof -
  have "fst (login env rp now draw email pw ip ua w) = Inr res" using ok by simp
  then obtain u c where u: "lr_accessToken res = jo_sign (ae_jwt env) now ACCESS_TOKEN_TTL_SECONDS (access_payload u (\<not> c))"
      "lr_userId res = us_id u" "lr_role res = us_role u" "lr_requiresTwoFactor res = c"
    by (rule auth_tables.login_Inr [OF tables])
  have i: "us_id u \<noteq> []" using u(2) user by simp
  have "t div 1000 < now div 1000 + ACCESS_TOKEN_TTL_SECONDS" using t by (simp add: ACCESS_TOKEN_TTL_SECONDS_def)
  note g = guard_access_token [OF jwt i this, of "\<not> c" b]
  obtain y where "fst (to_findOne (ar_twoFactor rp) (\<lambda>t. tf_userId t = us_id u \<and> tf_isEnabled t) any_order (aw_twoFactor w2)) = Inr y"
    using later(4) unfolding reliable_table_def by blast
  then have e: "fst (isTwoFactorEnabled rp (us_id u) w2) = Inr (y \<noteq> None)"
    by (simp add: isTwoFactorEnabled_def io_bind_run on_twoFactor_def on_part_eq io_return_def)
  have "y \<noteq> None" using auth_tables.isTwoFactorEnabled_Inr [OF tables e] later(1-3) u(2) by auto
  then show ?thesis
    unfolding u(1) g validate_access_payload [OF i] using none u(3,4) user(2) i e
    by (simp add: admin_two_factor_guard_def isAdmin_iff resolveUserId_def io_bind_run io_return_def)
qed

theorem old_token_passes_admin_guard_witness:
  "\<exists>p. fst (jwt_guard plain_jwt 2000 (lr_accessToken (projr (fst early_login))) []) = Inr p \<and>
    fst (admin_two_factor_guard calm_repos (Some p) sample_world) = Inr True"
proof -
  have "(case fst early_login of Inr res \<Rightarrow> lr_userId res = ''u1'' \<and> lr_role res = ADMIN \<and> \<not> lr_requiresTwoFactor res | Inl e \<Rightarrow> False)" by code_simp
  then obtain res where res: "fst early_login = Inr res" "lr_userId res = ''u1''" "lr_role res = ADMIN" "\<not> lr_requiresTwoFactor res"
    by (auto split: sum.splits)
  have run: "login sample_env calm_repos 1000 \<lparr>dr_rowId = ''r2'', dr_token = ''tok2''\<rparr> ''a@x.io'' ''pw'' ''ip'' None
      (mem_world_of [sample_user\<lparr>us_role := ADMIN\<rparr>] [] [] [] []) = (Inr res, snd early_login)"
    using res(1) by (metis prod.collapse early_login_def)
  have jwt: "jwt_service (ae_jwt sample_env)" by (simp add: sample_env_def pj.jwt_service_axioms)
  have "\<exists>p. fst (jwt_guard (ae_jwt sample_env) 2000 (lr_accessToken res) []) = Inr p \<and>
      fst (admin_two_factor_guard calm_repos (Some p) sample_world) = Inr True"
    by (rule old_token_passes_admin_guard [OF ca.auth_tables_axioms jwt run, where k = "''f1''" and x = sample_two_factor])
      (simp_all add: res sample_world_def mem_world_of_def table_row_def sample_two_factor_def calm_repos_def calm_table_reliable)
  then show ?thesis by (simp add: res sample_env_def)
qed

end
