(* ===== verification/Wallet_Auth.thy ===== *)
theory Wallet_Auth
  imports Enhanced_Auth
begin

text \<open>
  \<open>WalletAuthService\<close> (core/auth/wallet-auth.service.ts): log-in by a signed challenge, the wallets
  linked to an account and the choice of the primary one. \<open>verifyMessage\<close> of ethers is a parameter
  (None when it throws), as is the outcome of the audit record written before a token is
  returned. Mails and the audit of failures change nothing: their errors are swallowed.
\<close>

definition auth_payload :: "timestamp \<Rightarrow> string \<Rightarrow> user option \<Rightarrow> jwt_payload" where
  "auth_payload now address u =
     \<lparr>jp_sub = None, jp_address = Some address,
      jp_email = (case u of None \<Rightarrow> None | Some x \<Rightarrow> if us_emailVerified x then us_email x else None), jp_username = None,
      jp_role = Some (role_value (normalizeRole (map_option (\<lambda>x. role_value (us_role x)) u))),
      jp_tier = Some (resolveRateLimitTierFromRole (map_option (\<lambda>x. role_value (us_role x)) u) None None),
      jp_jti = None, jp_twoFactorVerified = None, jp_iat = Some (now div 1000), jp_exp = None\<rparr>"

text \<open>The checks before a token is issued: the challenge is consumed first, then the signature is checked.\<close>

definition check_wallet_login ::
  "(string \<Rightarrow> string \<Rightarrow> string option) \<Rightarrow> ('u, 'w, 'r, 'f, 'v) auth_repos \<Rightarrow> timestamp \<Rightarrow> string \<Rightarrow> string \<Rightarrow>
    (('u, 'w, 'r, 'f, 'v) auth_world, string \<times> user option) io" where
  "check_wallet_login verifyMessage rp now message signature =
     (case extractChallengeId message of
        None \<Rightarrow> io_throw (Unauthorized ''Invalid challenge message format'')
      | Some challengeId \<Rightarrow>
          io_bind (on_challenges (consumeChallenge now challengeId)) (\<lambda>ch.
            case ch of
              None \<Rightarrow> io_throw (Unauthorized ''Challenge not found or expired. Please request a new challenge.'')
            | Some challenge \<Rightarrow>
                (case verifyMessage message signature of
                   None \<Rightarrow> io_throw (Unauthorized ''Invalid signature'')
                 | Some recoveredAddress \<Rightarrow>
                     if toLowerCase recoveredAddress \<noteq> ch_address challenge
                     then io_throw (Unauthorized ''Signature does not match challenge address'')
                     else
                       let normalized = toLowerCase recoveredAddress
                       in io_bind (find_wallet rp (\<lambda>x. wa_address x = normalized)) (\<lambda>found.
                            case found of
                              None \<Rightarrow> io_throw (Unauthorized ''Wallet not linked to any account'')
                            | Some wallet \<Rightarrow>
                                if wa_type wallet = DELEGATED \<and> ''authenticate'' \<notin> set (nullish (wa_delegationPermissions wallet) []) \<and>
                                  ''AUTHENTICATE'' \<notin> set (nullish (wa_delegationPermissions wallet) [])
                                then io_throw (Unauthorized ''Delegated wallet does not have authenticate permission'')
                                else io_bind (find_user rp (\<lambda>u. us_id u = wa_userId wallet)) (\<lambda>u. io_return (normalized, u))))))"

definition verifySignatureAndIssueToken ::
  "(string \<Rightarrow> string \<Rightarrow> string option) \<Rightarrow> 'tok auth_env \<Rightarrow> ('u, 'w, 'r, 'f, 'v) auth_repos \<Rightarrow> unit result \<Rightarrow> timestamp \<Rightarrow> string \<Rightarrow> string \<Rightarrow>
    (('u, 'w, 'r, 'f, 'v) auth_world, 'tok \<times> string) io" where
  "verifySignatureAndIssueToken verifyMessage env rp audit now message signature =
     io_bind (check_wallet_login verifyMessage rp now message signature) (\<lambda>(normalized, u).
       let token = jo_sign (ae_jwt env) now ACCESS_TOKEN_TTL_SECONDS ((auth_payload now normalized u)\<lparr>jp_sub := map_option us_id u\<rparr>)
       in case audit of Inl e \<Rightarrow> io_throw e | Inr _ \<Rightarrow> io_return (token, normalized))"

definition issueWalletToken :: "'tok auth_env \<Rightarrow> timestamp \<Rightarrow> string \<Rightarrow> user option \<Rightarrow> bool \<Rightarrow> 'tok" where
  "issueWalletToken env now address u twoFactorVerified =
     jo_sign (ae_jwt env) now ACCESS_TOKEN_TTL_SECONDS
       ((auth_payload now (toLowerCase address) u)\<lparr>jp_twoFactorVerified := Some twoFactorVerified\<rparr>)"

definition verifyWalletTwoFactorAndIssueToken ::
  "'tok auth_env \<Rightarrow> ('u, 'w, 'r, 'f, 'v) auth_repos \<Rightarrow> timestamp \<Rightarrow> string \<Rightarrow> two_factor_dto \<Rightarrow> (('u, 'w, 'r, 'f, 'v) auth_world, 'tok \<times> string) io" where
  "verifyWalletTwoFactorAndIssueToken env rp now userId dto =
     io_bind (verifyTwoFactorCode env rp now userId dto) (\<lambda>_.
       io_bind (find_user rp (\<lambda>u. us_id u = userId)) (\<lambda>found.
         case found of
           None \<Rightarrow> io_throw (NotFound ''User not found'')
         | Some u \<Rightarrow> io_return (issueWalletToken env now (us_walletAddress u) (Some u) True, us_walletAddress u)))"

definition validateToken :: "'tok auth_env \<Rightarrow> timestamp \<Rightarrow> 'tok \<Rightarrow> jwt_payload result" where
  "validateToken env now token =
     (case jo_verify (ae_jwt env) now token of None \<Rightarrow> Inl (Unauthorized ''Invalid token'') | Some p \<Rightarrow> Inr p)"

section \<open>Linked wallets\<close>

text \<open>The signature check of \<open>linkWallet\<close>: the challenge may have been issued for any address.\<close>

definition check_link_signature ::
  "(string \<Rightarrow> string \<Rightarrow> string option) \<Rightarrow> timestamp \<Rightarrow> string \<Rightarrow> string \<Rightarrow> string \<Rightarrow> (('u, 'w, 'r, 'f, 'v) auth_world, unit) io" where
  "check_link_signature verifyMessage now normalizedNew message signature =
     (case extractChallengeId message of
        None \<Rightarrow> io_throw (Unauthorized ''Invalid challenge message format'')
      | Some challengeId \<Rightarrow>
          io_bind (on_challenges (consumeChallenge now challengeId)) (\<lambda>ch.
            if ch = None then io_throw (Unauthorized ''Challenge not found or expired. Please request a new challenge.'')
            else (case verifyMessage message signature of
                    None \<Rightarrow> io_throw (Unauthorized ''Invalid signature'')
                  | Some recoveredAddress \<Rightarrow>
                      if toLowerCase recoveredAddress \<noteq> normalizedNew
                      then io_throw (Unauthorized ''Signature does not match the new wallet address'')
                      else io_return ())))"

record link_request =
  lq_message :: string
  lq_signature :: string
  lq_walletName :: "string option"
  lq_permissions :: "string list option"
  lq_ip :: "string option"
  lq_userAgent :: "string option"

definition new_wallet ::
  "'tok auth_env \<Rightarrow> timestamp \<Rightarrow> string \<Rightarrow> string \<Rightarrow> string \<Rightarrow> link_request \<Rightarrow> nat \<Rightarrow> wallet" where
  "new_wallet env now walletId currentUserId normalizedNew q count =
     (let isFirstWallet = count = 0
      in \<lparr>wa_id = walletId, wa_address = normalizedNew, wa_userId = currentUserId,
          wa_type = (if isFirstWallet then PRIMARY else SECONDARY), wa_status = ACTIVE, wa_isPrimary = isFirstWallet,
          wa_name = Some (if truthy (lq_walletName q) then the (lq_walletName q) else ''Wallet '' @ ae_number env (int count + 1)),
          wa_verificationSignature = Some (lq_signature q), wa_verificationChallenge = Some (lq_message q), wa_verifiedAt = Some now,
          wa_linkedIp = lq_ip q, wa_linkedUserAgent = lq_userAgent q, wa_delegatedById = None, wa_delegationExpiresAt = None,
          wa_delegationPermissions = (case lq_permissions q of Some ps \<Rightarrow> if ps \<noteq> [] then Some ps else None | None \<Rightarrow> None),
          wa_lastUsedAt = None, wa_recoveryCodeHash = None, wa_recoveryEnabled = False, wa_nonce = ''0'', wa_createdAt = now\<rparr>)"

definition linkWallet ::
  "(string \<Rightarrow> string \<Rightarrow> string option) \<Rightarrow> 'tok auth_env \<Rightarrow> ('u, 'w, 'r, 'f, 'v) auth_repos \<Rightarrow> int \<Rightarrow> timestamp \<Rightarrow> string \<Rightarrow> string \<Rightarrow> string \<Rightarrow>
    link_request \<Rightarrow> (('u, 'w, 'r, 'f, 'v) auth_world, wallet) io" where
  "linkWallet verifyMessage env rp maxWallets now walletId currentUserId newWalletAddress q =
     (let normalizedNew = toLowerCase newWalletAddress
      in io_bind (check_link_signature verifyMessage now normalizedNew (lq_message q) (lq_signature q)) (\<lambda>_.
           io_bind (find_wallet rp (\<lambda>x. wa_address x = normalizedNew)) (\<lambda>existingWallet.
             case existingWallet of
               Some x \<Rightarrow>
                 (if wa_userId x = currentUserId then io_throw (Conflict ''This wallet is already linked to your account'')
                  else io_throw (Conflict ''This wallet address is already linked to another account''))
             | None \<Rightarrow>
                 io_bind (on_wallets (to_find (ar_wallets rp) (\<lambda>x. wa_userId x = currentUserId) any_order)) (\<lambda>existingWallets.
                   if int (length existingWallets) \<ge> maxWallets
                   then io_throw (BadRequest (''Wallet limit reached. Maximum allowed: '' @ ae_number env maxWallets))
                   else
                     let wallet = new_wallet env now walletId currentUserId normalizedNew q (length existingWallets)
                     in io_bind (save_wallet rp wallet) (\<lambda>_.
                          io_bind (if wa_isPrimary wallet
                                   then on_users (to_update (ar_users rp) (\<lambda>u. us_id u = currentUserId)
                                          (\<lambda>u. u\<lparr>us_walletAddress := normalizedNew\<rparr>))
                                   else io_return ()) (\<lambda>_.
                            io_bind (find_user rp (\<lambda>u. us_id u = currentUserId)) (\<lambda>_. io_return wallet)))))))"

definition primary_first :: "wallet \<Rightarrow> wallet \<Rightarrow> int" where
  "primary_first a b =
     or_else ((if wa_isPrimary b then 1 else 0) - (if wa_isPrimary a then 1 else 0)) (wa_createdAt a - wa_createdAt b)"

definition getUserWallets :: "('u, 'w, 'r, 'f, 'v) auth_repos \<Rightarrow> string \<Rightarrow> (('u, 'w, 'r, 'f, 'v) auth_world, wallet list) io" where
  "getUserWallets rp userId = on_wallets (to_find (ar_wallets rp) (\<lambda>x. wa_userId x = userId) primary_first)"

definition getWallet :: "('u, 'w, 'r, 'f, 'v) auth_repos \<Rightarrow> string \<Rightarrow> string \<Rightarrow> (('u, 'w, 'r, 'f, 'v) auth_world, wallet) io" where
  "getWallet rp walletId userId =
     io_bind (find_wallet rp (\<lambda>x. wa_id x = walletId \<and> wa_userId x = userId)) (\<lambda>found.
       case found of None \<Rightarrow> io_throw (NotFound ''Wallet not found'') | Some x \<Rightarrow> io_return x)"

definition setPrimaryWallet :: "('u, 'w, 'r, 'f, 'v) auth_repos \<Rightarrow> string \<Rightarrow> string \<Rightarrow> (('u, 'w, 'r, 'f, 'v) auth_world, string) io" where
  "setPrimaryWallet rp walletId userId =
     io_bind (getWallet rp walletId userId) (\<lambda>wallet.
       if wa_status wallet \<noteq> ACTIVE then io_throw (BadRequest ''Wallet must be active to set as primary'')
       else io_bind (on_wallets (to_update (ar_wallets rp) (\<lambda>x. wa_userId x = userId \<and> wa_isPrimary x) (\<lambda>x. x\<lparr>wa_isPrimary := False\<rparr>))) (\<lambda>_.
         io_bind (save_wallet rp (wallet\<lparr>wa_isPrimary := True, wa_type := PRIMARY\<rparr>)) (\<lambda>_.
           io_bind (on_users (to_update (ar_users rp) (\<lambda>u. us_id u = userId) (\<lambda>u. u\<lparr>us_walletAddress := wa_address wallet\<rparr>))) (\<lambda>_.
             io_return (wa_id wallet)))))"

definition oldest_first :: "wallet \<Rightarrow> wallet \<Rightarrow> int" where
  "oldest_first a b = wa_createdAt a - wa_createdAt b"

definition unlinkWallet :: "('u, 'w, 'r, 'f, 'v) auth_repos \<Rightarrow> string \<Rightarrow> string \<Rightarrow> (('u, 'w, 'r, 'f, 'v) auth_world, string) io" where
  "unlinkWallet rp userId walletId =
     io_bind (getWallet rp walletId userId) (\<lambda>wallet.
       io_bind (on_wallets (to_find (ar_wallets rp) (\<lambda>x. wa_userId x = userId \<and> wa_status x = ACTIVE) any_order)) (\<lambda>activeWallets.
         io_bind (if length activeWallets = 1
                  then io_bind (find_user rp (\<lambda>u. us_id u = userId)) (\<lambda>u.
                         if (case u of None \<Rightarrow> True | Some x \<Rightarrow> \<not> truthy (us_email x) \<or> \<not> us_emailVerified x)
                         then io_throw (BadRequest ''Cannot unlink your only wallet without verified email for recovery'')
                         else io_return ())
                  else io_return ()) (\<lambda>_.
           io_bind (save_wallet rp (wallet\<lparr>wa_status := UNLINKED\<rparr>)) (\<lambda>_.
             io_bind (if \<not> wa_isPrimary wallet then io_return ()
                      else io_bind (on_wallets (to_findOne (ar_wallets rp)
                                (\<lambda>x. wa_userId x = userId \<and> wa_status x = ACTIVE \<and> wa_id x \<noteq> walletId) oldest_first)) (\<lambda>remaining.
                             case remaining of
                               None \<Rightarrow> io_return ()
                             | Some x \<Rightarrow>
                                 io_bind (save_wallet rp (x\<lparr>wa_isPrimary := True, wa_type := PRIMARY\<rparr>)) (\<lambda>_.
                                   on_users (to_update (ar_users rp) (\<lambda>u. us_id u = userId) (\<lambda>u. u\<lparr>us_walletAddress := wa_address x\<rparr>))))) (\<lambda>_.
               io_return (wa_id wallet))))))"

definition recoverWallet ::
  "('u, 'w, 'r, 'f, 'v) auth_repos \<Rightarrow> timestamp \<Rightarrow> string \<Rightarrow> string \<Rightarrow> (('u, 'w, 'r, 'f, 'v) auth_world, string \<times> string) io" where
  "recoverWallet rp now challengeId email =
     io_bind (find_user rp (\<lambda>u. us_email u = Some (toLowerCase email) \<and> us_emailVerified u)) (\<lambda>found.
       case found of
         None \<Rightarrow> io_throw (BadRequest ''No verified account found with this email'')
       | Some u \<Rightarrow>
           io_bind (on_challenges (issueChallengeForAddress now challengeId (us_walletAddress u))) (\<lambda>msg.
             io_return (us_walletAddress u, msg)))"

section \<open>Specification\<close>

text \<open>
  The wallet table is sound: a row with a stored challenge was proven by the key of its address, a
  delegated wallet has none stored, and no two rows share an address.
\<close>

definition proven :: "(string \<Rightarrow> string \<Rightarrow> string option) \<Rightarrow> wallet \<Rightarrow> bool" where
  "proven verifyMessage t \<longleftrightarrow>
     (wa_type t = DELEGATED \<longrightarrow> wa_verificationChallenge t = None) \<and>
     (case (wa_verificationChallenge t, wa_verificationSignature t) of
        (Some m, Some s) \<Rightarrow> (case verifyMessage m s of None \<Rightarrow> False | Some a \<Rightarrow> toLowerCase a = wa_address t)
      | _ \<Rightarrow> True)"

definition wallets_ok :: "(string \<Rightarrow> string \<Rightarrow> string option) \<Rightarrow> (string \<Rightarrow> wallet option) \<Rightarrow> bool" where
  "wallets_ok verifyMessage rows \<longleftrightarrow>
     (\<forall>k t. rows k = Some t \<longrightarrow> wa_id t = k \<and> proven verifyMessage t) \<and>
     (\<forall>k t k' t'. rows k = Some t \<longrightarrow> rows k' = Some t' \<longrightarrow> wa_address t = wa_address t' \<longrightarrow> k = k')"

text \<open>Two versions of a row that agree on what the table owes to the proof of ownership.\<close>

definition same_proof :: "wallet \<Rightarrow> wallet \<Rightarrow> bool" where
  "same_proof t t' \<longleftrightarrow> wa_id t' = wa_id t \<and> wa_address t' = wa_address t \<and> (wa_type t' = DELEGATED \<longrightarrow> wa_type t = DELEGATED) \<and>
     (wa_verificationChallenge t' = None \<or>
      wa_verificationChallenge t' = wa_verificationChallenge t \<and> wa_verificationSignature t' = wa_verificationSignature t)"

text \<open>An example: a signature is the text of the address that signs.\<close>

definition signed_by_text :: "string \<Rightarrow> string \<Rightarrow> string option" where
  "signed_by_text message signature = Some signature"

definition sample_wallet :: wallet where
  "sample_wallet = \<lparr>wa_id = ''w1'', wa_address = ''0xaa'', wa_userId = ''u1'', wa_type = PRIMARY, wa_status = ACTIVE, wa_isPrimary = True,
     wa_name = None, wa_verificationSignature = None, wa_verificationChallenge = None, wa_verifiedAt = None, wa_linkedIp = None,
     wa_linkedUserAgent = None, wa_delegatedById = None, wa_delegationExpiresAt = None, wa_delegationPermissions = None, wa_lastUsedAt = None,
     wa_recoveryCodeHash = None, wa_recoveryEnabled = False, wa_nonce = ''0'', wa_createdAt = 0\<rparr>"

definition wallet_world :: mem_world where
  "wallet_world = (mem_world_of [sample_user] [sample_wallet] [] [] [])
     \<lparr>aw_challenges := snd (issueChallengeForAddress 1000 ''c1'' ''0xAA'' [])\<rparr>"

section \<open>Facts\<close>

lemma same_proof_proven: "proven vm t \<Longrightarrow> same_proof t t' \<Longrightarrow> proven vm t'"
  by (auto simp: proven_def same_proof_def split: option.splits)

lemma wallets_ok_put:
  assumes ok: "wallets_ok vm rows" and t: "rows (wa_id t) = Some t" and same: "same_proof t t'"
  shows "wallets_ok vm (rows(wa_id t' \<mapsto> t'))"
proof -
  have p: "proven vm t'" using same_proof_proven [OF _ same] ok t by (auto simp: wallets_ok_def)
  have e: "wa_id t' = wa_id t" "wa_address t' = wa_address t" using same by (auto simp: same_proof_def)
  have old: "\<exists>x0. rows k = Some x0 \<and> wa_address x0 = wa_address x" if "(rows(wa_id t' \<mapsto> t')) k = Some x" for k x
    using that t e by (auto split: if_splits)
  show ?thesis
    unfolding wallets_ok_def
  proof (intro conjI allI impI)
    fix k x assume "(rows(wa_id t' \<mapsto> t')) k = Some x"
    then show "wa_id x = k" "proven vm x" using ok p unfolding wallets_ok_def by (auto split: if_splits)
  next
    fix k x k' x' assume "(rows(wa_id t' \<mapsto> t')) k = Some x" "(rows(wa_id t' \<mapsto> t')) k' = Some x'" "wa_address x = wa_address x'"
    with old obtain y y' where "rows k = Some y" "rows k' = Some y'" "wa_address y = wa_address y'" by metis
    then show "k = k'" using ok unfolding wallets_ok_def by blast
  qed
qed

lemma wallets_ok_add:
  "wallets_ok vm rows \<Longrightarrow> proven vm t \<Longrightarrow> \<forall>k x. rows k = Some x \<longrightarrow> wa_address x \<noteq> wa_address t \<Longrightarrow> wallets_ok vm (rows(wa_id t \<mapsto> t))"
  unfolding wallets_ok_def by (auto split: if_splits; blast)

lemma wallets_ok_update:
  assumes "wallets_ok vm rows" "\<And>t. same_proof t (g t)"
  shows "wallets_ok vm (\<lambda>k. map_option (\<lambda>r. if P r then g r else r) (rows k))"
proof -
  have "proven vm (g t)" if "proven vm t" for t using same_proof_proven [OF that assms(2)] .
  moreover have "wa_id (g t) = wa_id t" "wa_address (g t) = wa_address t" for t using assms(2) [of t] by (simp_all add: same_proof_def)
  ultimately show ?thesis using assms(1) unfolding wallets_ok_def by (auto split: if_splits)
qed

context auth_tables
begin

lemma check_link_signature_ok:
  "io_triple (\<lambda>w. K (wrows (aw_wallets w))) (check_link_signature vm now addr message signature)
    (\<lambda>_ w. K (wrows (aw_wallets w)) \<and> (\<exists>a. vm message signature = Some a \<and> toLowerCase a = addr)) (\<lambda>w. K (wrows (aw_wallets w)))"
  by (auto simp: io_triple_def check_link_signature_def io_bind_run on_challenges_eq io_throw_def io_return_def split: option.splits)

lemma getWallet_ok:
  "io_triple (\<lambda>w. K (wrows (aw_wallets w))) (getWallet rp walletId userId)
    (\<lambda>t w. K (wrows (aw_wallets w)) \<and> wrows (aw_wallets w) (wa_id t) = Some t \<and> wa_id t = walletId \<and> wa_userId t = userId) (\<lambda>w. K (wrows (aw_wallets w)))"
proof -
  have *: "wa_id t = walletId \<and> wa_userId t = userId \<and> wrows d (wa_id t) = Some t"
    if "fst (to_findOne (ar_wallets rp) (\<lambda>x. wa_id x = walletId \<and> wa_userId x = userId) any_order d) = Inr (Some t)" for d t
    using w.findOne_some [OF that] by auto
  show ?thesis
    using w.findOne_rows [of "\<lambda>x. wa_id x = walletId \<and> wa_userId x = userId" any_order]
    by (auto simp: io_triple_def getWallet_def io_bind_run find_wallet_def on_wallets_def on_part_eq io_throw_def io_return_def
        split: option.splits sum.splits dest: *)
qed

lemma linkWallet_ok:
  "io_triple (\<lambda>w. wallets_ok vm (wrows (aw_wallets w))) (linkWallet vm env rp mx now i uid addr q)
    (\<lambda>_ w. wallets_ok vm (wrows (aw_wallets w))) (\<lambda>w. wallets_ok vm (wrows (aw_wallets w)))"
proof -
  let ?a = "toLowerCase addr"
  let ?signed = "\<exists>a. vm (lq_message q) (lq_signature q) = Some a \<and> toLowerCase a = ?a"
  let ?K1 = "\<lambda>rows. wallets_ok vm rows \<and> ?signed"
  let ?K2 = "\<lambda>rows. ?K1 rows \<and> (\<forall>k x. rows k = Some x \<longrightarrow> wa_address x \<noteq> ?a)"
  have new: "wallets_ok vm (rows(wa_id (new_wallet env now i uid ?a q n) \<mapsto> new_wallet env now i uid ?a q n))" if "?K2 rows" for rows n
    using that by (intro wallets_ok_add) (auto simp: new_wallet_def Let_def proven_def)
  have check: "io_triple (\<lambda>w. wallets_ok vm (wrows (aw_wallets w))) (check_link_signature vm now ?a (lq_message q) (lq_signature q))
      (\<lambda>_ w. ?K1 (wrows (aw_wallets w))) (\<lambda>w. wallets_ok vm (wrows (aw_wallets w)))"
    by (rule check_link_signature_ok)
  have find: "io_triple (\<lambda>w. ?K1 (wrows (aw_wallets w))) (find_wallet rp (\<lambda>x. wa_address x = ?a))
      (\<lambda>y w. case y of None \<Rightarrow> ?K2 (wrows (aw_wallets w)) | Some t \<Rightarrow> ?K1 (wrows (aw_wallets w))) (\<lambda>w. wallets_ok vm (wrows (aw_wallets w)))"
    by (rule find_wallet_triple [where K = ?K1 and Q = "\<lambda>y rows. case y of None \<Rightarrow> ?K2 rows | Some t \<Rightarrow> ?K1 rows"]) auto
  have find_all: "io_triple (\<lambda>w. ?K2 (wrows (aw_wallets w))) (on_wallets (to_find (ar_wallets rp) (\<lambda>x. wa_userId x = uid) any_order))
      (\<lambda>_ w. ?K2 (wrows (aw_wallets w))) (\<lambda>w. wallets_ok vm (wrows (aw_wallets w)))"
    by (rule find_wallets_triple [where K = ?K2 and Q = "\<lambda>_. ?K2"]) auto
  have save: "io_triple (\<lambda>w. ?K2 (wrows (aw_wallets w))) (save_wallet rp (new_wallet env now i uid ?a q n))
      (\<lambda>_ w. wallets_ok vm (wrows (aw_wallets w))) (\<lambda>w. wallets_ok vm (wrows (aw_wallets w)))" for n
    by (rule save_wallet_triple [where K = ?K2], rule new, assumption, simp)
  note parts = other_parts_triple [where K = "wallets_ok vm" and E = "wallets_ok vm"]
  show ?thesis
    unfolding linkWallet_def Let_def
    apply (rule io_triple_bind [OF check])
    apply (rule io_triple_bind [OF find])
    apply (rule io_triple_option)
     apply (simp only: option.case)
     apply (rule io_triple_bind [OF find_all])
     apply (rule io_triple_if)
      apply (rule io_triple_throw, simp)
     apply (rule io_triple_bind [OF save])
     apply (rule io_triple_bind [where Q = "\<lambda>_ w. wallets_ok vm (wrows (aw_wallets w))"])
      apply (rule io_triple_if)
       apply (rule parts(2), assumption)
      apply (rule io_triple_return, assumption)
     apply (rule io_triple_bind [OF parts(1)], assumption)
     apply (rule io_triple_return, assumption)
    apply (rule io_triple_if)
     apply (rule io_triple_throw, simp)
    apply (rule io_triple_throw, simp)
    done
qed

lemma save_found_ok:
  assumes "\<And>rows. K rows \<Longrightarrow> wallets_ok vm rows \<and> rows (wa_id t) = Some t" "same_proof t t'"
  shows "io_triple (\<lambda>w. K (wrows (aw_wallets w))) (save_wallet rp t') (\<lambda>_ w. wallets_ok vm (wrows (aw_wallets w)))
    (\<lambda>w. wallets_ok vm (wrows (aw_wallets w)))"
  by (rule save_wallet_triple [where K = K]) (use assms wallets_ok_put [OF _ _ assms(2)] in blast)+

lemma setPrimaryWallet_ok:
  "io_triple (\<lambda>w. wallets_ok vm (wrows (aw_wallets w))) (setPrimaryWallet rp i uid)
    (\<lambda>_ w. wallets_ok vm (wrows (aw_wallets w))) (\<lambda>w. wallets_ok vm (wrows (aw_wallets w)))"
proof -
  let ?K = "\<lambda>t rows. wallets_ok vm rows \<and> rows (wa_id t) = Some t \<and> wa_id t = i \<and> wa_userId t = uid"
  let ?K' = "\<lambda>t rows. wallets_ok vm rows \<and> (\<exists>b. rows (wa_id t) = Some (t\<lparr>wa_isPrimary := b\<rparr>))"
  have get: "io_triple (\<lambda>w. wallets_ok vm (wrows (aw_wallets w))) (getWallet rp i uid) (\<lambda>t w. ?K t (wrows (aw_wallets w)))
      (\<lambda>w. wallets_ok vm (wrows (aw_wallets w)))"
    by (rule getWallet_ok)
  have clear: "io_triple (\<lambda>w. ?K t (wrows (aw_wallets w)))
      (on_wallets (to_update (ar_wallets rp) (\<lambda>x. wa_userId x = uid \<and> wa_isPrimary x) (\<lambda>x. x\<lparr>wa_isPrimary := False\<rparr>)))
      (\<lambda>_ w. ?K' t (wrows (aw_wallets w))) (\<lambda>w. wallets_ok vm (wrows (aw_wallets w)))" for t
  proof (rule update_wallet_triple [where K = "?K t" and Q = "?K' t"])
    fix rows assume K: "?K t rows"
    then have "wallets_ok vm (\<lambda>k. map_option (\<lambda>r. if wa_userId r = uid \<and> wa_isPrimary r then r\<lparr>wa_isPrimary := False\<rparr> else r) (rows k))"
      by (intro wallets_ok_update) (auto simp: same_proof_def)
    moreover have "map_option (\<lambda>r. if wa_userId r = uid \<and> wa_isPrimary r then r\<lparr>wa_isPrimary := False\<rparr> else r) (rows (wa_id t)) =
        Some (t\<lparr>wa_isPrimary := False\<rparr>)" using K by (cases t) auto
    ultimately show "?K' t (\<lambda>k. map_option (\<lambda>r. if wa_userId r = uid \<and> wa_isPrimary r then r\<lparr>wa_isPrimary := False\<rparr> else r) (rows k))"
      by blast
  qed auto
  have save: "io_triple (\<lambda>w. ?K' t (wrows (aw_wallets w))) (save_wallet rp (t\<lparr>wa_isPrimary := True, wa_type := PRIMARY\<rparr>))
      (\<lambda>_ w. wallets_ok vm (wrows (aw_wallets w))) (\<lambda>w. wallets_ok vm (wrows (aw_wallets w)))" for t
  proof (rule save_wallet_triple [where K = "?K' t"])
    fix rows assume "?K' t rows"
    then obtain b where "wallets_ok vm rows" "rows (wa_id (t\<lparr>wa_isPrimary := b\<rparr>)) = Some (t\<lparr>wa_isPrimary := b\<rparr>)" by auto
    then show "wallets_ok vm (rows(wa_id (t\<lparr>wa_isPrimary := True, wa_type := PRIMARY\<rparr>) \<mapsto> t\<lparr>wa_isPrimary := True, wa_type := PRIMARY\<rparr>))"
      by (rule wallets_ok_put) (simp add: same_proof_def)
  qed auto
  note parts = other_parts_triple [where K = "wallets_ok vm" and E = "wallets_ok vm"]
  show ?thesis
    unfolding setPrimaryWallet_def
    by (rule io_triple_bind [OF get], rule io_triple_if, rule io_triple_throw, simp, rule io_triple_bind [OF clear],
        rule io_triple_bind [OF save], rule io_triple_bind [OF parts(2)], assumption, rule io_triple_return, assumption)
qed

lemma unlinkWallet_ok:
  "io_triple (\<lambda>w. wallets_ok vm (wrows (aw_wallets w))) (unlinkWallet rp uid i)
    (\<lambda>_ w. wallets_ok vm (wrows (aw_wallets w))) (\<lambda>w. wallets_ok vm (wrows (aw_wallets w)))"
proof -
  let ?ok = "wallets_ok vm"
  let ?K = "\<lambda>t rows. ?ok rows \<and> rows (wa_id t) = Some t \<and> wa_id t = i \<and> wa_userId t = uid"
  let ?F = "\<lambda>y rows. case y of None \<Rightarrow> ?ok rows | Some x \<Rightarrow> ?ok rows \<and> rows (wa_id x) = Some x"
  have get: "io_triple (\<lambda>w. ?ok (wrows (aw_wallets w))) (getWallet rp i uid) (\<lambda>t w. ?K t (wrows (aw_wallets w))) (\<lambda>w. ?ok (wrows (aw_wallets w)))"
    by (rule getWallet_ok)
  have find: "io_triple (\<lambda>w. ?K t (wrows (aw_wallets w))) (on_wallets (to_find (ar_wallets rp) P ord)) (\<lambda>_ w. ?K t (wrows (aw_wallets w)))
      (\<lambda>w. ?ok (wrows (aw_wallets w)))" for t P ord
    by (rule find_wallets_triple [where K = "?K t" and Q = "\<lambda>_. ?K t"]) auto
  have save: "io_triple (\<lambda>w. ?K t (wrows (aw_wallets w))) (save_wallet rp (t\<lparr>wa_status := UNLINKED\<rparr>)) (\<lambda>_ w. ?ok (wrows (aw_wallets w)))
      (\<lambda>w. ?ok (wrows (aw_wallets w)))" for t
    by (rule save_found_ok [where K = "?K t"]) (auto simp: same_proof_def)
  have successor: "io_triple (\<lambda>w. ?ok (wrows (aw_wallets w))) (on_wallets (to_findOne (ar_wallets rp) P ord))
      (\<lambda>y w. ?F y (wrows (aw_wallets w))) (\<lambda>w. ?ok (wrows (aw_wallets w)))" for P ord
    by (rule findOne_wallet_triple [where K = ?ok and Q = ?F]) auto
  have promote: "io_triple (\<lambda>w. ?F (Some x) (wrows (aw_wallets w))) (save_wallet rp (x\<lparr>wa_isPrimary := True, wa_type := PRIMARY\<rparr>))
      (\<lambda>_ w. ?ok (wrows (aw_wallets w))) (\<lambda>w. ?ok (wrows (aw_wallets w)))" for x
    by (rule save_found_ok [where K = "?F (Some x)"]) (auto simp: same_proof_def)
  note user = other_parts_triple(1) [where K = "?K t" and E = ?ok for t]
  note users = other_parts_triple(2) [where K = ?ok and E = ?ok]
  have guard: "io_triple (\<lambda>w. ?K t (wrows (aw_wallets w))) (if c then io_bind (find_user rp P) (\<lambda>u. if d u then io_throw e else io_return ())
      else io_return ()) (\<lambda>_ w. ?K t (wrows (aw_wallets w))) (\<lambda>w. ?ok (wrows (aw_wallets w)))" for t c d e P
    by (rule io_triple_if, rule io_triple_bind [OF user], simp, rule io_triple_if, rule io_triple_throw, simp, rule io_triple_return, assumption,
        rule io_triple_return, assumption)
  have rest: "io_triple (\<lambda>w. ?ok (wrows (aw_wallets w))) (if \<not> p then io_return () else io_bind (on_wallets (to_findOne (ar_wallets rp) P ord))
      (\<lambda>remaining. case remaining of None \<Rightarrow> io_return () | Some x \<Rightarrow> io_bind (save_wallet rp (x\<lparr>wa_isPrimary := True, wa_type := PRIMARY\<rparr>))
        (\<lambda>_. on_users (m x)))) (\<lambda>_ w. ?ok (wrows (aw_wallets w))) (\<lambda>w. ?ok (wrows (aw_wallets w)))" for p P ord m
    by (rule io_triple_if, rule io_triple_return, assumption, rule io_triple_bind [OF successor], rule io_triple_option,
        rule io_triple_return, simp, simp, rule io_triple_bind [OF promote [simplified]], rule users, assumption)
  show ?thesis
    unfolding unlinkWallet_def
    by (rule io_triple_bind [OF get], rule io_triple_bind [OF find], rule io_triple_bind [OF guard], rule io_triple_bind [OF save],
        rule io_triple_bind [OF rest], rule io_triple_return, assumption)
qed

text \<open>An unlinked wallet stays in the table.\<close>

lemma unlinkWallet_row:
  "io_triple (\<lambda>w. wrows (aw_wallets w) i = Some t) (unlinkWallet rp uid i) (\<lambda>_ w. wrows (aw_wallets w) i = Some (t\<lparr>wa_status := UNLINKED\<rparr>)) (\<lambda>_. True)"
proof -
  let ?K = "\<lambda>rows. rows i = Some t" and ?U = "\<lambda>rows. rows i = Some (t\<lparr>wa_status := UNLINKED\<rparr>)"
  let ?G = "\<lambda>x rows. rows (wa_id x) = Some x \<and> wa_id x = i \<and> rows i = Some t"
  let ?F = "\<lambda>y rows. ?U rows \<and> (\<forall>x. y = Some x \<longrightarrow> wa_id x \<noteq> i)"
  have get: "io_triple (\<lambda>w. ?K (wrows (aw_wallets w))) (getWallet rp i uid) (\<lambda>x w. ?G x (wrows (aw_wallets w))) (\<lambda>_. True)"
    using getWallet_ok [of ?K i uid] unfolding io_triple_def by blast
  have find: "io_triple (\<lambda>w. ?G x (wrows (aw_wallets w))) (on_wallets (to_find (ar_wallets rp) P ord)) (\<lambda>_ w. ?G x (wrows (aw_wallets w))) (\<lambda>_. True)" for x P ord
    by (rule find_wallets_triple [where K = "?G x" and Q = "\<lambda>_. ?G x" and E = "\<lambda>_. True"]) auto
  have save: "io_triple (\<lambda>w. ?G x (wrows (aw_wallets w))) (save_wallet rp (x\<lparr>wa_status := UNLINKED\<rparr>)) (\<lambda>_ w. ?U (wrows (aw_wallets w))) (\<lambda>_. True)" for x
    by (rule save_wallet_triple [where K = "?G x" and E = "\<lambda>_. True"]) auto
  have successor: "io_triple (\<lambda>w. ?U (wrows (aw_wallets w))) (on_wallets (to_findOne (ar_wallets rp)
        (\<lambda>x. wa_userId x = uid \<and> wa_status x = ACTIVE \<and> wa_id x \<noteq> i) ord)) (\<lambda>y w. ?F y (wrows (aw_wallets w))) (\<lambda>_. True)" for ord
    by (rule findOne_wallet_triple [where K = ?U and Q = ?F and E = "\<lambda>_. True"]) auto
  have promote: "io_triple (\<lambda>w. ?F (Some x) (wrows (aw_wallets w))) (save_wallet rp (x\<lparr>wa_isPrimary := True, wa_type := PRIMARY\<rparr>))
      (\<lambda>_ w. ?U (wrows (aw_wallets w))) (\<lambda>_. True)" for x
    by (rule save_wallet_triple [where K = "?F (Some x)" and E = "\<lambda>_. True"]) auto
  note user = other_parts_triple(1) [where K = "?G x" and E = "\<lambda>_. True" for x]
  note users = other_parts_triple(2) [where K = ?U and E = "\<lambda>_. True"]
  have guard: "io_triple (\<lambda>w. ?G x (wrows (aw_wallets w))) (if c then io_bind (find_user rp P) (\<lambda>u. if d u then io_throw e else io_return ())
      else io_return ()) (\<lambda>_ w. ?G x (wrows (aw_wallets w))) (\<lambda>_. True)" for x c d e P
    by (rule io_triple_if, rule io_triple_bind [OF user], simp, rule io_triple_if, rule io_triple_throw, simp, rule io_triple_return, assumption,
        rule io_triple_return, assumption)
  have rest: "io_triple (\<lambda>w. ?U (wrows (aw_wallets w))) (if \<not> p then io_return () else io_bind (on_wallets (to_findOne (ar_wallets rp)
        (\<lambda>x. wa_userId x = uid \<and> wa_status x = ACTIVE \<and> wa_id x \<noteq> i) ord))
      (\<lambda>remaining. case remaining of None \<Rightarrow> io_return () | Some x \<Rightarrow> io_bind (save_wallet rp (x\<lparr>wa_isPrimary := True, wa_type := PRIMARY\<rparr>))
        (\<lambda>_. on_users (m x)))) (\<lambda>_ w. ?U (wrows (aw_wallets w))) (\<lambda>_. True)" for p ord m
    by (rule io_triple_if, rule io_triple_return, assumption, rule io_triple_bind [OF successor], rule io_triple_option,
        rule io_triple_return, simp, simp, rule io_triple_bind [OF promote [simplified]], rule users, simp)
  show ?thesis
    unfolding unlinkWallet_def
    by (rule io_triple_bind [OF get], rule io_triple_bind [OF find], rule io_triple_bind [OF guard], rule io_triple_bind [OF save],
        rule io_triple_bind [OF rest], rule io_triple_return, assumption)
qed

lemma check_wallet_login_Inr:
  assumes "fst (check_wallet_login vm rp now message signature w) = Inr (a, u)"
  shows "\<exists>cid ch x t. extractChallengeId message = Some cid \<and> Map_get cid (aw_challenges w) = Some ch \<and> now \<le> ch_expiresAt ch \<and>
    vm message signature = Some x \<and> a = toLowerCase x \<and> ch_address ch = a \<and> wrows (aw_wallets w) (wa_id t) = Some t \<and> wa_address t = a \<and>
    Map_get cid (aw_challenges (snd (check_wallet_login vm rp now message signature w))) = None"
proof -
  obtain cid where cid: "extractChallengeId message = Some cid"
    using assms by (auto simp: check_wallet_login_def io_throw_def split: option.splits)
  obtain ch where ch: "fst (consumeChallenge now cid (aw_challenges w)) = Some ch"
    using assms cid by (auto simp: check_wallet_login_def io_bind_run on_challenges_eq io_throw_def split: option.splits)
  have live: "Map_get cid (aw_challenges w) = Some ch" "now \<le> ch_expiresAt ch"
    using ch by (auto simp: consumeChallenge_def getChallenge_def split: option.splits if_splits)
  obtain x where x: "vm message signature = Some x" "toLowerCase x = ch_address ch"
    using assms cid ch by (auto simp: check_wallet_login_def io_bind_run on_challenges_eq io_throw_def split: option.splits if_splits)
  define w1 where "w1 = w\<lparr>aw_challenges := snd (consumeChallenge now cid (aw_challenges w))\<rparr>"
  let ?P = "\<lambda>y. wa_address y = toLowerCase x"
  let ?find = "to_findOne (ar_wallets rp) ?P any_order (aw_wallets w)"
  obtain t where t: "fst ?find = Inr (Some t)"
    using assms cid ch x
    by (auto simp: check_wallet_login_def io_bind_run on_challenges_eq io_throw_def find_wallet_def on_wallets_def on_part_eq Let_def
        split: option.splits sum.splits)
  have "a = toLowerCase x \<and> aw_challenges (snd (check_wallet_login vm rp now message signature w)) = snd (consumeChallenge now cid (aw_challenges w))"
    using assms cid ch x t
    by (auto simp: check_wallet_login_def io_bind_run on_challenges_eq io_throw_def io_return_def find_wallet_def find_user_def on_users_def
        on_wallets_def on_part_eq Let_def split: option.splits sum.splits if_splits)
  then show ?thesis using cid live x w.findOne_some [OF t] consume_get [of cid now cid "aw_challenges w"] by auto
qed

text \<open>A log-in with a wallet in the table, whatever its status.\<close>

lemma linked_wallet_logs_in:
  assumes rel: "reliable_repos rp" and ok: "wallets_ok vm (wrows (aw_wallets w))"
    and t: "wrows (aw_wallets w) i = Some t" "wa_type t \<noteq> DELEGATED \<or> ''authenticate'' \<in> set (nullish (wa_delegationPermissions t) [])"
    and ch: "extractChallengeId message = Some cid" "Map_get cid (aw_challenges w) = Some ch" "now \<le> ch_expiresAt ch" "ch_address ch = wa_address t"
    and sig: "vm message signature = Some x" "toLowerCase x = wa_address t"
  shows "\<exists>tok. fst (verifySignatureAndIssueToken vm env rp (Inr ()) now message signature w) = Inr (tok, wa_address t)"
proof -
  have cons: "fst (consumeChallenge now cid (aw_challenges w)) = Some ch"
    using ch by (simp add: consumeChallenge_def getChallenge_def)
  let ?find = "to_findOne (ar_wallets rp) (\<lambda>y. wa_address y = wa_address t) any_order (aw_wallets w)"
  have rels: "reliable_table (ar_wallets rp)" "reliable_table (ar_users rp)" using rel by (simp_all add: reliable_repos_def)
  obtain y where y: "fst ?find = Inr y" by (rule reliable_queries [OF rels(1)])
  have "y \<noteq> None" using w.findOne_none [of "\<lambda>y. wa_address y = wa_address t" any_order "aw_wallets w" i t] y t by auto
  then obtain t' where t': "fst ?find = Inr (Some t')" using y by auto
  have "wa_address t' = wa_address t" "wrows (aw_wallets w) (wa_id t') = Some t'" using w.findOne_some [OF t'] by auto
  then have "wa_id t' = i" using ok t(1) unfolding wallets_ok_def by blast
  then have "t' = t" using \<open>wrows (aw_wallets w) (wa_id t') = Some t'\<close> t(1) by simp
  then have found: "fst ?find = Inr (Some t)" using t' by simp
  obtain u where u: "fst (to_findOne (ar_users rp) (\<lambda>u. us_id u = wa_userId t) any_order (aw_users w)) = Inr u"
    by (rule reliable_queries [OF rels(2)])
  have "fst (check_wallet_login vm rp now message signature w) = Inr (wa_address t, u)"
    using ch(1,4) cons sig found t(2) u
    by (auto simp: check_wallet_login_def io_bind_run on_challenges_eq find_wallet_def find_user_def on_users_def on_wallets_def on_part_eq
        io_return_def Let_def)
  then show ?thesis by (simp add: verifySignatureAndIssueToken_def io_bind_run io_return_def Let_def)
qed

end

section \<open>Properties\<close>



text \<open>
  Unlinking a wallet does not end its access: after a successful unlink, the wallet logs in with
  a signature over a fresh challenge and is given a token for its account.
\<close>

theorem unlinked_wallet_logs_in:
  assumes tables: "auth_tables rp urows wrows rrows frows vrows" and rel: "reliable_repos rp"
    and ok: "wallets_ok verifyMessage (wrows (aw_wallets w))" and t: "wrows (aw_wallets w) walletId = Some t" "wa_type t \<noteq> DELEGATED"
    and unlink: "unlinkWallet rp userId walletId w = (Inr r, w1)"
    and issue: "issueChallengeForAddress now cid (wa_address t) (aw_challenges w1) = (message, chs)" "toLowerCase (wa_address t) = wa_address t"
      "cid \<noteq> []" "\<not> list_ex line_break cid"
    and sig: "verifyMessage message signature = Some x" "toLowerCase x = wa_address t"
  shows "\<exists>t'. wrows (aw_wallets w1) walletId = Some t' \<and> wa_status t' = UNLINKED \<and>
    (\<exists>tok. fst (verifySignatureAndIssueToken verifyMessage env rp (Inr ()) now message signature (w1\<lparr>aw_challenges := chs\<rparr>)) = Inr (tok, wa_address t))"
proof -
  let ?t = "t\<lparr>wa_status := UNLINKED\<rparr>"
  have row: "wrows (aw_wallets w1) walletId = Some ?t"
    using auth_tables.unlinkWallet_row [OF tables, of walletId t userId] t(1) unlink unfolding io_triple_def by (metis fst_conv snd_conv)
  have ok1: "wallets_ok verifyMessage (wrows (aw_wallets w1))"
    using io_triple_keeps [OF auth_tables.unlinkWallet_ok [OF tables], where s = w] ok unlink by (metis snd_conv)
  have m: "message = message_prefix @ cid" "Map_get cid chs = Some \<lparr>ch_id = cid, ch_message = message, ch_createdAt = now,
      ch_expiresAt = now + challengeExpiration, ch_address = wa_address t\<rparr>"
    using issue by (auto simp: issueChallengeForAddress_def Let_def)
  have "\<exists>tok. fst (verifySignatureAndIssueToken verifyMessage env rp (Inr ()) now message signature (w1\<lparr>aw_challenges := chs\<rparr>)) = Inr (tok, wa_address ?t)"
    by (rule auth_tables.linked_wallet_logs_in [OF tables rel, where i = walletId and t = ?t and cid = cid])
      (use ok1 row t(2) m extract_issued [OF issue(3,4)] sig in \<open>auto simp: challengeExpiration_def\<close>)
  then show ?thesis using row by auto
qed

theorem unlinked_wallet_logs_in_witness:
  "\<exists>t'. table_row wa_id (aw_wallets (snd (unlinkWallet calm_repos ''u1'' ''w1'' wallet_world))) ''w1'' = Some t' \<and> wa_status t' = UNLINKED \<and>
    (\<exists>tok. fst (verifySignatureAndIssueToken signed_by_text sample_env calm_repos (Inr ()) 5000 (message_prefix @ ''c2'') ''0xAA''
      ((snd (unlinkWallet calm_repos ''u1'' ''w1'' wallet_world))\<lparr>aw_challenges := snd (issueChallengeForAddress 5000 ''c2'' ''0xaa''
        (aw_challenges (snd (unlinkWallet calm_repos ''u1'' ''w1'' wallet_world))))\<rparr>)) = Inr (tok, ''0xaa''))"
proof -
  let ?w1 = "snd (unlinkWallet calm_repos ''u1'' ''w1'' wallet_world)"
  have "fst (unlinkWallet calm_repos ''u1'' ''w1'' wallet_world) = Inr ''w1''" by code_simp
  then have un: "unlinkWallet calm_repos ''u1'' ''w1'' wallet_world = (Inr ''w1'', ?w1)" by (metis prod.collapse)
  have issued: "issueChallengeForAddress 5000 ''c2'' (wa_address sample_wallet) (aw_challenges ?w1) =
      (message_prefix @ ''c2'', snd (issueChallengeForAddress 5000 ''c2'' ''0xaa'' (aw_challenges ?w1)))"
    by (simp add: issueChallengeForAddress_def Let_def sample_wallet_def)
  have low: "toLowerCase ''0xaa'' = ''0xaa''" "toLowerCase ''0xAA'' = ''0xaa''" by code_simp+
  have rows: "table_row wa_id (aw_wallets wallet_world) = (\<lambda>k. if k = ''w1'' then Some sample_wallet else None)"
    by (auto simp: wallet_world_def mem_world_of_def table_row_def sample_wallet_def)
  have ok: "wallets_ok signed_by_text (table_row wa_id (aw_wallets wallet_world))"
    unfolding rows by (auto simp: wallets_ok_def proven_def sample_wallet_def split: if_splits)
  have "\<exists>t'. table_row wa_id (aw_wallets ?w1) ''w1'' = Some t' \<and> wa_status t' = UNLINKED \<and>
    (\<exists>tok. fst (verifySignatureAndIssueToken signed_by_text sample_env calm_repos (Inr ()) 5000 (message_prefix @ ''c2'') ''0xAA''
      (?w1\<lparr>aw_challenges := snd (issueChallengeForAddress 5000 ''c2'' ''0xaa'' (aw_challenges ?w1))\<rparr>)) = Inr (tok, wa_address sample_wallet))"
    by (rule unlinked_wallet_logs_in [OF ca.auth_tables_axioms calm_repos_reliable ok _ _ un issued])
      (simp_all add: rows sample_wallet_def signed_by_text_def low(1) line_break_def, rule low(2))
  then show ?thesis by (simp add: sample_wallet_def)
qed

end
