(* ===== verification/Session_Recovery.thy ===== *)
theory Session_Recovery
  imports Wallet_Auth
begin

text \<open>
  \<open>SessionRecoveryService\<close> (core/auth/session-recovery.service.ts): backup codes of a wallet,
  recovery sessions opened by such a code or by e-mail, and their completion by a signature.
  SHA-256, random values and the sending of the mail are parameters; the audit only logs.
\<close>

definition MAX_ATTEMPTS :: int where "MAX_ATTEMPTS = 3"

definition SESSION_EXPIRY :: int where "SESSION_EXPIRY = 15 * 60 * 1000"

fun groups_of_4 :: "string \<Rightarrow> string list" where
  "groups_of_4 (a # b # c # d # s) = [a, b, c, d] # groups_of_4 s"
| "groups_of_4 _ = []"

text \<open>The argument is the hexadecimal text of six random bytes.\<close>

definition generateRecoveryCode :: "string \<Rightarrow> string" where
  "generateRecoveryCode hex = join_with ''-'' (groups_of_4 (toUpperCase hex))"

definition hashRecoveryCode :: "(string \<Rightarrow> string) \<Rightarrow> string \<Rightarrow> string" where
  "hashRecoveryCode sha256 code = sha256 (filter (\<lambda>c. c \<noteq> CHR ''-'') (toUpperCase code))"

definition generateBackupCodes ::
  "(string \<Rightarrow> string) \<Rightarrow> ('u, 'w, 'r, 'f, 'v) auth_repos \<Rightarrow> string list \<Rightarrow> string \<Rightarrow> string \<Rightarrow>
    (('u, 'w, 'r, 'f, 'v) auth_world, string list \<times> string list) io" where
  "generateBackupCodes sha256 rp hexes walletId userId =
     io_bind (find_wallet rp (\<lambda>x. wa_id x = walletId \<and> wa_userId x = userId)) (\<lambda>found.
       case found of
         None \<Rightarrow> io_throw (NotFound ''Wallet not found'')
       | Some wallet \<Rightarrow>
           (let codes = map generateRecoveryCode (take 10 hexes);
                hashedCodes = map (hashRecoveryCode sha256) codes
            in io_bind (save_wallet rp (wallet\<lparr>wa_recoveryCodeHash := Some (join_with '','' hashedCodes), wa_recoveryEnabled := True\<rparr>)) (\<lambda>_.
                 io_return (codes, hashedCodes))))"

definition new_session :: "timestamp \<Rightarrow> string \<Rightarrow> string \<Rightarrow> string \<Rightarrow> recovery_method \<Rightarrow> recovery_session" where
  "new_session now sessionId userId walletId method =
     \<lparr>rs_id = sessionId, rs_userId = userId, rs_walletId = walletId, rs_method = method, rs_expiresAt = now + SESSION_EXPIRY,
      rs_attempts = 0, rs_verified = rm_verified method\<rparr>"

text \<open>The hashes a wallet has left: \<open>recoveryCodeHash?.split(",") || []\<close>.\<close>

definition storedHashes :: "wallet \<Rightarrow> string list" where
  "storedHashes wallet = (case wa_recoveryCodeHash wallet of None \<Rightarrow> [] | Some s \<Rightarrow> split_char (CHR '','') s)"

definition initiateBackupCodeRecovery ::
  "(string \<Rightarrow> string) \<Rightarrow> ('u, 'w, 'r, 'f, 'v) auth_repos \<Rightarrow> timestamp \<Rightarrow> string \<Rightarrow> string \<Rightarrow> string \<Rightarrow> string \<Rightarrow>
    (('u, 'w, 'r, 'f, 'v) auth_world, string \<times> string) io" where
  "initiateBackupCodeRecovery sha256 rp now sessionId challengeId walletAddress backupCode =
     (let normalizedAddress = toLowerCase walletAddress
      in io_bind (find_wallet rp (\<lambda>x. wa_address x = normalizedAddress \<and> wa_status x = ACTIVE)) (\<lambda>found.
           case found of
             None \<Rightarrow> io_throw (Unauthorized ''Recovery not enabled for this wallet'')
           | Some wallet \<Rightarrow>
               if \<not> wa_recoveryEnabled wallet then io_throw (Unauthorized ''Recovery not enabled for this wallet'')
               else
                 let hashedInput = hashRecoveryCode sha256 backupCode
                 in if hashedInput \<notin> set (storedHashes wallet) then io_throw (Unauthorized ''Invalid recovery code'')
                    else
                      let updatedHashes = filter (\<lambda>h. h \<noteq> hashedInput) (storedHashes wallet)
                      in io_bind (save_wallet rp (wallet\<lparr>wa_recoveryCodeHash := Some (join_with '','' updatedHashes)\<rparr>)) (\<lambda>_.
                           io_bind (on_sessions (\<lambda>m. ((), Map_set sessionId (new_session now sessionId (wa_userId wallet) (wa_id wallet)
                               \<lparr>rm_type = Backup_code, rm_identifier = walletAddress, rm_verified = True\<rparr>) m))) (\<lambda>_.
                             io_bind (on_challenges (issueChallengeForAddress now challengeId normalizedAddress)) (\<lambda>challenge.
                               io_return (sessionId, challenge))))))"

definition initiateEmailRecovery ::
  "('u, 'w, 'r, 'f, 'v) auth_repos \<Rightarrow> (string \<Rightarrow> string \<Rightarrow> unit result) \<Rightarrow> timestamp \<Rightarrow> string \<Rightarrow> string \<Rightarrow> string \<Rightarrow>
    (('u, 'w, 'r, 'f, 'v) auth_world, string) io" where
  "initiateEmailRecovery rp sendRecoveryEmail now sessionId verificationCode email =
     (let normalizedEmail = toLowerCase email
      in io_bind (find_user rp (\<lambda>u. us_email u = Some normalizedEmail \<and> us_emailVerified u)) (\<lambda>found.
           case found of
             None \<Rightarrow> io_throw (Unauthorized ''Recovery email sent if account exists'')
           | Some u \<Rightarrow>
               io_bind (find_wallet rp (\<lambda>x. wa_userId x = us_id u \<and> wa_isPrimary x \<and> wa_status x = ACTIVE)) (\<lambda>wfound.
                 case wfound of
                   None \<Rightarrow> io_throw (Unauthorized ''No active wallet found for recovery'')
                 | Some wallet \<Rightarrow>
                     io_bind (on_sessions (\<lambda>m. ((), Map_set sessionId (new_session now sessionId (us_id u) (wa_id wallet)
                         \<lparr>rm_type = Email_code, rm_identifier = normalizedEmail, rm_verified = False\<rparr>) m))) (\<lambda>_.
                       case sendRecoveryEmail normalizedEmail verificationCode of
                         Inl e \<Rightarrow> io_throw e
                       | Inr _ \<Rightarrow> io_return sessionId))))"

definition getValidSession ::
  "timestamp \<Rightarrow> string \<Rightarrow> (string, recovery_session) js_map \<Rightarrow> recovery_session option \<times> (string, recovery_session) js_map" where
  "getValidSession now sessionId m =
     (case Map_get sessionId m of
        None \<Rightarrow> (None, m)
      | Some s \<Rightarrow> if now > rs_expiresAt s then (None, Map_delete sessionId m) else (Some s, m))"

text \<open>The placeholder: the session and the code that was mailed are not looked at.\<close>

definition verifyRecoveryCode :: "recovery_session \<Rightarrow> string \<Rightarrow> bool" where
  "verifyRecoveryCode session code = (length code = 6 \<and> list_all is_digit code)"

definition verifyEmailRecoveryCode ::
  "('u, 'w, 'r, 'f, 'v) auth_repos \<Rightarrow> timestamp \<Rightarrow> string \<Rightarrow> string \<Rightarrow> string \<Rightarrow> (('u, 'w, 'r, 'f, 'v) auth_world, string) io" where
  "verifyEmailRecoveryCode rp now challengeId sessionId code =
     io_bind (on_sessions (getValidSession now sessionId)) (\<lambda>found.
       case found of
         None \<Rightarrow> io_throw (Unauthorized ''Invalid or expired recovery session'')
       | Some session \<Rightarrow>
           if rm_type (rs_method session) \<noteq> Email_code then io_throw (BadRequest ''Invalid recovery method'')
           else if rs_attempts session \<ge> MAX_ATTEMPTS
           then io_bind (on_sessions (\<lambda>m. ((), Map_delete sessionId m))) (\<lambda>_.
                  io_throw (Unauthorized ''Too many failed attempts. Please start over.''))
           else io_bind (on_sessions (\<lambda>m. ((), Map_upd sessionId (\<lambda>s. s\<lparr>rs_attempts := rs_attempts s + 1\<rparr>) m))) (\<lambda>_.
             if \<not> verifyRecoveryCode session code then io_throw (Unauthorized ''Invalid verification code'')
             else io_bind (on_sessions (\<lambda>m. ((), Map_upd sessionId (\<lambda>s. s\<lparr>rs_verified := True,
                      rs_method := (rs_method s)\<lparr>rm_verified := True\<rparr>\<rparr>) m))) (\<lambda>_.
               io_bind (find_wallet rp (\<lambda>x. wa_id x = rs_walletId session)) (\<lambda>wfound.
                 case wfound of
                   None \<Rightarrow> io_throw (NotFound ''Wallet not found'')
                 | Some wallet \<Rightarrow> on_challenges (issueChallengeForAddress now challengeId (wa_address wallet))))))"

definition recovery_payload :: "timestamp \<Rightarrow> wallet \<Rightarrow> user \<Rightarrow> jwt_payload" where
  "recovery_payload now wallet u =
     \<lparr>jp_sub = Some (wa_userId wallet), jp_address = Some (wa_address wallet),
      jp_email = (if us_emailVerified u then us_email u else None), jp_username = None, jp_role = Some (role_value (us_role u)),
      jp_tier = None, jp_jti = None, jp_twoFactorVerified = None, jp_iat = Some (now div 1000), jp_exp = None\<rparr>"

definition completeRecovery ::
  "(string \<Rightarrow> string \<Rightarrow> string option) \<Rightarrow> 'tok auth_env \<Rightarrow> ('u, 'w, 'r, 'f, 'v) auth_repos \<Rightarrow> timestamp \<Rightarrow> string \<Rightarrow> string \<Rightarrow> string \<Rightarrow>
    (('u, 'w, 'r, 'f, 'v) auth_world, 'tok \<times> string) io" where
  "completeRecovery verifyMessage env rp now sessionId message signature =
     io_bind (on_sessions (getValidSession now sessionId)) (\<lambda>found.
       case found of
         None \<Rightarrow> io_throw (Unauthorized ''Recovery session not verified'')
       | Some session \<Rightarrow>
           if \<not> rs_verified session then io_throw (Unauthorized ''Recovery session not verified'')
           else io_bind (find_wallet rp (\<lambda>x. wa_id x = rs_walletId session)) (\<lambda>wfound.
             case wfound of
               None \<Rightarrow> io_throw (NotFound ''Wallet not found'')
             | Some wallet \<Rightarrow>
                 io_bind (find_user rp (\<lambda>u. us_id u = wa_userId wallet)) (\<lambda>owner.
                   case verifyMessage message signature of
                     None \<Rightarrow> io_throw (Unauthorized ''Invalid signature'')
                   | Some recoveredAddress \<Rightarrow>
                       if toLowerCase recoveredAddress \<noteq> toLowerCase (wa_address wallet)
                       then io_throw (Unauthorized ''Signature does not match wallet address'')
                       else io_bind (case extractChallengeId message of
                                       None \<Rightarrow> io_return None
                                     | Some cid \<Rightarrow> on_challenges (consumeChallenge now cid)) (\<lambda>challenge.
                         if challenge = None then io_throw (Unauthorized ''Challenge expired or invalid'')
                         else case owner of
                           None \<Rightarrow> io_throw (PlainError ''Cannot read properties of null'')
                         | Some u \<Rightarrow>
                             (let token = jo_sign (ae_jwt env) now ACCESS_TOKEN_TTL_SECONDS (recovery_payload now wallet u)
                              in io_bind (save_wallet rp (wallet\<lparr>wa_lastUsedAt := Some now\<rparr>)) (\<lambda>_.
                                   io_bind (on_sessions (\<lambda>m. ((), Map_delete sessionId m))) (\<lambda>_.
                                     io_return (token, wa_address wallet))))))))"

definition cancelRecovery :: "string \<Rightarrow> (('u, 'w, 'r, 'f, 'v) auth_world, unit) io" where
  "cancelRecovery sessionId = on_sessions (\<lambda>m. ((), Map_delete sessionId m))"

record recovery_status =
  st_recoveryEnabled :: bool
  st_remainingCodes :: nat
  st_methods :: "string list"

definition getRecoveryStatus ::
  "('u, 'w, 'r, 'f, 'v) auth_repos \<Rightarrow> string \<Rightarrow> string \<Rightarrow> (('u, 'w, 'r, 'f, 'v) auth_world, recovery_status) io" where
  "getRecoveryStatus rp walletId userId =
     io_bind (find_wallet rp (\<lambda>x. wa_id x = walletId \<and> wa_userId x = userId)) (\<lambda>found.
       case found of
         None \<Rightarrow> io_throw (NotFound ''Wallet not found'')
       | Some wallet \<Rightarrow>
           (let remainingCodes = (if truthy (wa_recoveryCodeHash wallet) then length (split_char (CHR '','') (the (wa_recoveryCodeHash wallet))) else 0)
            in io_bind (find_user rp (\<lambda>u. us_id u = userId)) (\<lambda>u.
                 io_return \<lparr>st_recoveryEnabled = wa_recoveryEnabled wallet, st_remainingCodes = remainingCodes,
                   st_methods = (if wa_recoveryEnabled wallet then [''backup_code''] else []) @
                     (case u of None \<Rightarrow> [] | Some x \<Rightarrow> if us_emailVerified x then [''email''] else [])\<rparr>)))"

text \<open>An example: the hash of a code is the code without commas, with a mark in front.\<close>

definition mark_hash :: "string \<Rightarrow> string" where
  "mark_hash x = CHR ''#'' # filter (\<lambda>c. c \<noteq> CHR '','') x"

definition backup_run :: "(string list \<times> string list) result \<times> mem_world" where
  "backup_run = generateBackupCodes mark_hash calm_repos [''0000aaaabbbb'', ''111122223333''] ''w1'' ''u1'' wallet_world"

definition recovery_world :: mem_world where
  "recovery_world = snd (initiateBackupCodeRecovery mark_hash calm_repos 3000 ''s1'' ''c5'' ''0xAA'' ''0000-AAAA-BBBB'' (snd backup_run))"

section \<open>Facts\<close>

text \<open>One recovery by a code: it is accepted exactly when its hash is among those stored.\<close>

context auth_tables
begin

lemma recovery_finds_wallet:
  assumes rel: "reliable_repos rp" and ok: "wallets_ok vm (wrows (aw_wallets w))"
    and t: "wrows (aw_wallets w) i = Some t" "wa_address t = a" "wa_status t = ACTIVE"
  shows "fst (to_findOne (ar_wallets rp) (\<lambda>x. wa_address x = a \<and> wa_status x = ACTIVE) any_order (aw_wallets w)) = Inr (Some t)"
proof -
  let ?P = "\<lambda>x. wa_address x = a \<and> wa_status x = ACTIVE"
  have "reliable_table (ar_wallets rp)" using rel by (simp add: reliable_repos_def)
  then obtain y where y: "fst (to_findOne (ar_wallets rp) ?P any_order (aw_wallets w)) = Inr y" by (rule reliable_queries)
  have "y \<noteq> None" using w.findOne_none [of ?P any_order "aw_wallets w" i t] y t by auto
  then obtain t' where t': "y = Some t'" by auto
  then have f: "wa_address t' = a" "wrows (aw_wallets w) (wa_id t') = Some t'" using w.findOne_some [of ?P any_order "aw_wallets w" t'] y by auto
  then have "wa_id t' = i" using ok t unfolding wallets_ok_def by blast
  then show ?thesis using y t' f(2) t(1) by simp
qed

lemma backup_code_run:
  assumes rel: "reliable_repos rp" and ok: "wallets_ok vm (wrows (aw_wallets w))"
    and t: "wrows (aw_wallets w) i = Some t" "wa_address t = toLowerCase addr" "wa_status t = ACTIVE" "wa_recoveryEnabled t"
    and h: "h = hashRecoveryCode sha256 code"
  shows "h \<notin> set (storedHashes t) \<Longrightarrow> fst (initiateBackupCodeRecovery sha256 rp now sid cid addr code w) = Inl (Unauthorized ''Invalid recovery code'')"
    and "h \<in> set (storedHashes t) \<Longrightarrow>
      fst (initiateBackupCodeRecovery sha256 rp now sid cid addr code w) = Inr (sid, message_prefix @ cid) \<and>
      wrows (aw_wallets (snd (initiateBackupCodeRecovery sha256 rp now sid cid addr code w))) =
        (wrows (aw_wallets w))(i \<mapsto> t\<lparr>wa_recoveryCodeHash := Some (join_with '','' (filter (\<lambda>x. x \<noteq> h) (storedHashes t)))\<rparr>)"
proof -
  let ?find = "to_findOne (ar_wallets rp) (\<lambda>x. wa_address x = toLowerCase addr \<and> wa_status x = ACTIVE) any_order (aw_wallets w)"
  have f: "fst ?find = Inr (Some t)" by (rule recovery_finds_wallet [OF rel ok t(1-3)])
  have rows: "wrows (snd ?find) = wrows (aw_wallets w)" by (rule w.findOne_rows)
  have fw: "find_wallet rp (\<lambda>x. wa_address x = toLowerCase addr \<and> wa_status x = ACTIVE) w = (Inr (Some t), w\<lparr>aw_wallets := snd ?find\<rparr>)"
    using f by (simp add: find_wallet_def on_wallets_def on_part_eq)
  show "fst (initiateBackupCodeRecovery sha256 rp now sid cid addr code w) = Inl (Unauthorized ''Invalid recovery code'')" if "h \<notin> set (storedHashes t)"
    using f t(4) that h by (simp add: initiateBackupCodeRecovery_def io_bind_run find_wallet_def on_wallets_def on_part_eq io_throw_def Let_def)
  assume h_in: "h \<in> set (storedHashes t)"
  define t' where "t' = t\<lparr>wa_recoveryCodeHash := Some (join_with '','' (filter (\<lambda>x. x \<noteq> h) (storedHashes t)))\<rparr>"
  have sv: "fst (to_save (ar_wallets rp) t' (snd ?find)) = Inr ()" using rel reliable_writes(1) by (auto simp: reliable_repos_def)
  have i: "wa_id t' = i" using w.row_key [OF t(1)] by (simp add: t'_def)
  have "initiateBackupCodeRecovery sha256 rp now sid cid addr code w =
      io_bind (save_wallet rp t') (\<lambda>_. io_bind (on_sessions (\<lambda>m. ((), Map_set sid (new_session now sid (wa_userId t) (wa_id t)
        \<lparr>rm_type = Backup_code, rm_identifier = addr, rm_verified = True\<rparr>) m))) (\<lambda>_.
          io_bind (on_challenges (issueChallengeForAddress now cid (toLowerCase addr))) (\<lambda>challenge. io_return (sid, challenge))))
      (w\<lparr>aw_wallets := snd ?find\<rparr>)"
    using f t(4) h_in h unfolding t'_def
    by (simp add: initiateBackupCodeRecovery_def io_bind_run [of "find_wallet rp P" for P] fw Let_def)
  then show "fst (initiateBackupCodeRecovery sha256 rp now sid cid addr code w) = Inr (sid, message_prefix @ cid) \<and>
      wrows (aw_wallets (snd (initiateBackupCodeRecovery sha256 rp now sid cid addr code w))) =
        (wrows (aw_wallets w))(i \<mapsto> t\<lparr>wa_recoveryCodeHash := Some (join_with '','' (filter (\<lambda>x. x \<noteq> h) (storedHashes t)))\<rparr>)"
    using sv w.save_ok [OF sv] rows i unfolding t'_def [symmetric]
    by (simp add: io_bind_run save_wallet_def on_wallets_def on_part_eq on_sessions_eq on_challenges_eq io_return_def issueChallengeForAddress_def Let_def)
qed

lemma generateBackupCodes_run:
  assumes rel: "reliable_repos rp" and t: "wrows (aw_wallets w) i = Some t" "wa_userId t = uid"
    and gen: "generateBackupCodes sha256 rp hexes i uid w = (Inr (codes, hashes), w1)"
  shows "hashes = map (hashRecoveryCode sha256) codes"
    "wrows (aw_wallets w1) = (wrows (aw_wallets w))(i \<mapsto> t\<lparr>wa_recoveryCodeHash := Some (join_with '','' hashes), wa_recoveryEnabled := True\<rparr>)"
proof -
  let ?P = "\<lambda>x. wa_id x = i \<and> wa_userId x = uid"
  let ?find = "to_findOne (ar_wallets rp) ?P any_order (aw_wallets w)"
  have rels: "reliable_table (ar_wallets rp)" using rel by (simp add: reliable_repos_def)
  then obtain y where y: "fst ?find = Inr y" by (rule reliable_queries)
  have i: "wa_id t = i" by (rule w.row_key [OF t(1)])
  have "y \<noteq> None" using w.findOne_none [of ?P any_order "aw_wallets w" i t] y t i by auto
  then obtain t' where t': "y = Some t'" by auto
  then have "wa_id t' = i" "wrows (aw_wallets w) (wa_id t') = Some t'" using w.findOne_some [of ?P any_order "aw_wallets w" t'] y by auto
  then have "t' = t" using t(1) by simp
  then have fw: "find_wallet rp ?P w = (Inr (Some t), w\<lparr>aw_wallets := snd ?find\<rparr>)"
    using y t' by (simp add: find_wallet_def on_wallets_def on_part_eq)
  have sv: "fst (to_save (ar_wallets rp) r d) = Inr ()" for r d by (rule reliable_writes(1) [OF rels])
  have h: "hashes = map (hashRecoveryCode sha256) (map generateRecoveryCode (take 10 hexes))" "codes = map generateRecoveryCode (take 10 hexes)"
    using gen sv by (auto simp: generateBackupCodes_def io_bind_run fw Let_def save_wallet_def on_wallets_def on_part_eq io_return_def)
  show "hashes = map (hashRecoveryCode sha256) codes" using h by simp
  have "w1 = w\<lparr>aw_wallets := snd (to_save (ar_wallets rp) (t\<lparr>wa_recoveryCodeHash := Some (join_with '','' hashes), wa_recoveryEnabled := True\<rparr>) (snd ?find))\<rparr>"
    using gen sv h by (auto simp: generateBackupCodes_def io_bind_run fw Let_def save_wallet_def on_wallets_def on_part_eq io_return_def)
  then show "wrows (aw_wallets w1) = (wrows (aw_wallets w))(i \<mapsto> t\<lparr>wa_recoveryCodeHash := Some (join_with '','' hashes), wa_recoveryEnabled := True\<rparr>)"
    using w.save_ok [OF sv] w.findOne_rows i by simp
qed

lemma complete_Inr:
  assumes ok: "completeRecovery vm env rp now sid message signature w = (Inr (tok, a), w1)"
  shows "\<exists>s t x cid ch. Map_get sid (aw_sessions w) = Some s \<and> rs_verified s \<and> now \<le> rs_expiresAt s \<and>
    wrows (aw_wallets w) (rs_walletId s) = Some t \<and> wa_address t = a \<and> vm message signature = Some x \<and> toLowerCase x = toLowerCase a \<and>
    extractChallengeId message = Some cid \<and> Map_get cid (aw_challenges w) = Some ch \<and> now \<le> ch_expiresAt ch \<and>
    Map_get cid (aw_challenges w1) = None \<and> Map_get sid (aw_sessions w1) = None"
proof -
  obtain s where s: "getValidSession now sid (aw_sessions w) = (Some s, aw_sessions w)" "rs_verified s" "Map_get sid (aw_sessions w) = Some s" "now \<le> rs_expiresAt s"
    using ok by (auto simp: completeRecovery_def io_bind_run on_sessions_eq getValidSession_def io_throw_def split: option.splits if_splits)
  let ?P = "\<lambda>x. wa_id x = rs_walletId s"
  let ?find = "to_findOne (ar_wallets rp) ?P any_order (aw_wallets w)"
  obtain t where t: "fst ?find = Inr (Some t)"
    using ok s by (auto simp: completeRecovery_def io_bind_run on_sessions_eq io_throw_def find_wallet_def on_wallets_def on_part_eq split: option.splits sum.splits)
  have fw: "find_wallet rp ?P w = (Inr (Some t), w\<lparr>aw_wallets := snd ?find\<rparr>)" using t by (simp add: find_wallet_def on_wallets_def on_part_eq)
  have upd: "w\<lparr>aw_sessions := aw_sessions w\<rparr> = w" by simp
  define w2 where "w2 = w\<lparr>aw_wallets := snd ?find\<rparr>"
  obtain u where u: "fst (find_user rp (\<lambda>u. us_id u = wa_userId t) w2) = Inr u"
    using ok s by (auto simp: completeRecovery_def io_bind_run on_sessions_eq fw upd w2_def split: sum.splits)
  have u2: "snd (find_user rp P w2) = w2\<lparr>aw_users := snd (to_findOne (ar_users rp) P any_order (aw_users w))\<rparr>" for P
    by (simp add: find_user_def on_users_def on_part_eq w2_def)
  obtain x where x: "vm message signature = Some x" "toLowerCase x = toLowerCase (wa_address t)"
    using ok s u by (auto simp: completeRecovery_def io_bind_run on_sessions_eq fw upd w2_def io_throw_def split: option.splits if_splits)
  obtain cid where cid: "extractChallengeId message = Some cid"
    using ok s u x by (auto simp: completeRecovery_def io_bind_run on_sessions_eq fw upd w2_def io_throw_def io_return_def split: option.splits)
  obtain ch where ch: "fst (consumeChallenge now cid (aw_challenges w)) = Some ch"
    using ok s u x cid u2
    by (cases "fst (consumeChallenge now cid (aw_challenges w))")
      (auto simp: completeRecovery_def io_bind_run on_sessions_eq on_challenges_eq fw upd w2_def io_throw_def split: option.splits)
  have live: "Map_get cid (aw_challenges w) = Some ch" "now \<le> ch_expiresAt ch"
    using ch by (auto simp: consumeChallenge_def getChallenge_def split: option.splits if_splits)
  have fin: "wa_address t = a \<and> aw_challenges w1 = snd (consumeChallenge now cid (aw_challenges w)) \<and> Map_get sid (aw_sessions w1) = None"
    using ok s u x cid ch u2
    by (auto simp: completeRecovery_def io_bind_run on_sessions_eq on_challenges_eq fw upd w2_def io_throw_def io_return_def Let_def
        save_wallet_def on_wallets_def on_part_eq split: option.splits sum.splits)
  show ?thesis
    using s live x cid fin w.findOne_some [OF t] consume_get [of cid now cid "aw_challenges w"] by auto
qed

lemma email_session:
  assumes ok: "initiateEmailRecovery rp send now sid c email w = (Inr r, w1)"
  shows "\<exists>x. wrows (aw_wallets w1) (wa_id x) = Some x \<and> (\<exists>s. Map_get sid (aw_sessions w1) = Some s \<and> rs_walletId s = wa_id x \<and>
    rm_type (rs_method s) = Email_code \<and> rs_attempts s = 0 \<and> rs_expiresAt s = now + SESSION_EXPIRY)"
proof -
  obtain u where u: "fst (find_user rp (\<lambda>u. us_email u = Some (toLowerCase email) \<and> us_emailVerified u) w) = Inr (Some u)"
    using ok by (auto simp: initiateEmailRecovery_def io_bind_run io_throw_def Let_def split: sum.splits option.splits)
  define w0 where "w0 = snd (find_user rp (\<lambda>u. us_email u = Some (toLowerCase email) \<and> us_emailVerified u) w)"
  let ?P = "\<lambda>x. wa_userId x = us_id u \<and> wa_isPrimary x \<and> wa_status x = ACTIVE"
  let ?find = "to_findOne (ar_wallets rp) ?P any_order (aw_wallets w0)"
  obtain x where x: "fst ?find = Inr (Some x)"
    using ok u by (auto simp: initiateEmailRecovery_def io_bind_run io_throw_def Let_def w0_def find_wallet_def on_wallets_def on_part_eq
        split: sum.splits option.splits)
  have row: "wrows (snd ?find) (wa_id x) = Some x" using w.findOne_some [OF x] w.findOne_rows [of ?P any_order "aw_wallets w0"] by simp
  have run: "initiateEmailRecovery rp send now sid c email w =
      (case send (toLowerCase email) c of Inl e \<Rightarrow> io_throw e | Inr _ \<Rightarrow> io_return sid)
        (w0\<lparr>aw_wallets := snd ?find, aw_sessions := Map_set sid (new_session now sid (us_id u) (wa_id x)
          \<lparr>rm_type = Email_code, rm_identifier = toLowerCase email, rm_verified = False\<rparr>) (aw_sessions w0)\<rparr>)"
    using u x by (simp add: initiateEmailRecovery_def io_bind_run Let_def w0_def find_wallet_def on_wallets_def on_part_eq on_sessions_eq)
  show ?thesis
    using ok row unfolding run
    by (auto simp: io_throw_def io_return_def new_session_def split: sum.splits intro!: exI [of _ x])
qed

end

section \<open>Properties\<close>


text \<open>
  C23. A recovery ends in a token only with the key of the wallet: the session was verified and has
  not expired, the signature recovers to the address of its wallet and is over a message with a
  live challenge. Challenge and session are used up, so the same call fails afterwards.
\<close>

theorem recovery_needs_wallet_key:
  assumes tables: "auth_tables rp urows wrows rrows frows vrows"
    and ok: "completeRecovery verifyMessage env rp now sessionId message signature w = (Inr (tok, a), w1)"
  shows "(\<exists>s t x cid ch. Map_get sessionId (aw_sessions w) = Some s \<and> rs_verified s \<and> now \<le> rs_expiresAt s \<and>
      wrows (aw_wallets w) (rs_walletId s) = Some t \<and> wa_address t = a \<and> verifyMessage message signature = Some x \<and>
      toLowerCase x = toLowerCase a \<and> extractChallengeId message = Some cid \<and> Map_get cid (aw_challenges w) = Some ch \<and> now \<le> ch_expiresAt ch) \<and>
    (\<forall>now'. fst (completeRecovery verifyMessage env rp now' sessionId message signature w1) = Inl (Unauthorized ''Recovery session not verified''))"
proof -
  note facts = auth_tables.complete_Inr [OF tables ok]
  then have "Map_get sessionId (aw_sessions w1) = None" by blast
  then have "fst (completeRecovery verifyMessage env rp now' sessionId message signature w1) = Inl (Unauthorized ''Recovery session not verified'')" for now'
    by (simp add: completeRecovery_def io_bind_run on_sessions_eq getValidSession_def io_throw_def)
  then show ?thesis using facts by blast
qed


theorem recovery_needs_wallet_key_witness:
  "(\<exists>s t x cid ch. Map_get ''s1'' (aw_sessions recovery_world) = Some s \<and> rs_verified s \<and> 3500 \<le> rs_expiresAt s \<and>
      table_row wa_id (aw_wallets recovery_world) (rs_walletId s) = Some t \<and> wa_address t = ''0xaa'' \<and> signed_by_text (message_prefix @ ''c5'') ''0xAA'' = Some x \<and>
      toLowerCase x = toLowerCase ''0xaa'' \<and> extractChallengeId (message_prefix @ ''c5'') = Some cid \<and> Map_get cid (aw_challenges recovery_world) = Some ch \<and>
      3500 \<le> ch_expiresAt ch) \<and>
    (\<forall>now'. fst (completeRecovery signed_by_text sample_env calm_repos now' ''s1'' (message_prefix @ ''c5'') ''0xAA''
      (snd (completeRecovery signed_by_text sample_env calm_repos 3500 ''s1'' (message_prefix @ ''c5'') ''0xAA'' recovery_world))) =
      Inl (Unauthorized ''Recovery session not verified''))"
proof -
  let ?run = "completeRecovery signed_by_text sample_env calm_repos 3500 ''s1'' (message_prefix @ ''c5'') ''0xAA'' recovery_world"
  have "(case fst ?run of Inr (tok, a) \<Rightarrow> a = ''0xaa'' | Inl e \<Rightarrow> False)" by code_simp
  then obtain tok where "fst ?run = Inr (tok, ''0xaa'')" by (auto split: sum.splits)
  then have "?run = (Inr (tok, ''0xaa''), snd ?run)" by (metis prod.collapse)
  from recovery_needs_wallet_key [OF ca.auth_tables_axioms this] show ?thesis .
qed

text \<open>
  The mailed code is not checked: whatever code a recovery by e-mail mails, any six digits verify
  the session it opens, within fifteen minutes, and are answered with a challenge for the wallet.
\<close>

theorem any_six_digits_verify:
  assumes tables: "auth_tables rp urows wrows rrows frows vrows" and rel: "reliable_repos rp"
    and ok: "initiateEmailRecovery rp send now sid mailedCode email w = (Inr r, w1)"
    and t: "now' \<le> now + 15 * 60 * 1000" and code: "length code = 6" "list_all is_digit code"
  shows "fst (verifyEmailRecoveryCode rp now' cid sid code w1) = Inr (message_prefix @ cid) \<and>
    (\<exists>s. Map_get sid (aw_sessions (snd (verifyEmailRecoveryCode rp now' cid sid code w1))) = Some s \<and> rs_verified s)"
proof -
  obtain x where x: "wrows (aw_wallets w1) (wa_id x) = Some x"
    and s: "\<exists>s. Map_get sid (aw_sessions w1) = Some s \<and> rs_walletId s = wa_id x \<and> rm_type (rs_method s) = Email_code \<and> rs_attempts s = 0 \<and>
      rs_expiresAt s = now + SESSION_EXPIRY"
    using auth_tables.email_session [OF tables, of send now sid mailedCode email w r] ok by auto
  then obtain s where s: "Map_get sid (aw_sessions w1) = Some s" "rs_walletId s = wa_id x" "rm_type (rs_method s) = Email_code" "rs_attempts s = 0"
      "rs_expiresAt s = now + SESSION_EXPIRY" by blast
  have live: "getValidSession now' sid (aw_sessions w1) = (Some s, aw_sessions w1)" using s t by (simp add: getValidSession_def SESSION_EXPIRY_def)
  let ?P = "\<lambda>y. wa_id y = wa_id x"
  have "reliable_table (ar_wallets rp)" using rel by (simp add: reliable_repos_def)
  then obtain y where y: "fst (to_findOne (ar_wallets rp) ?P any_order (aw_wallets w1)) = Inr y" by (rule reliable_queries)
  have wt: "sql_table (ar_wallets rp) wa_id wrows" using tables by (simp add: auth_tables_def)
  have "y \<noteq> None" using sql_table.findOne_none [OF wt, of ?P any_order "aw_wallets w1" "wa_id x" x] y x by auto
  then obtain y' where "fst (to_findOne (ar_wallets rp) ?P any_order (aw_wallets w1)) = Inr (Some y')" using y by auto
  then show ?thesis using code s
    by (auto simp: verifyEmailRecoveryCode_def io_bind_run on_sessions_eq on_challenges_eq live verifyRecoveryCode_def MAX_ATTEMPTS_def
        find_wallet_def on_wallets_def on_part_eq issueChallengeForAddress_def Let_def)
qed

theorem any_six_digits_verify_witness:
  "fst (verifyEmailRecoveryCode calm_repos 2000 ''c9'' ''s9'' ''000000''
      (snd (initiateEmailRecovery calm_repos (\<lambda>to c. Inr ()) 1000 ''s9'' ''731946'' ''A@x.io'' wallet_world))) = Inr (message_prefix @ ''c9'') \<and>
    (\<exists>s. Map_get ''s9'' (aw_sessions (snd (verifyEmailRecoveryCode calm_repos 2000 ''c9'' ''s9'' ''000000''
      (snd (initiateEmailRecovery calm_repos (\<lambda>to c. Inr ()) 1000 ''s9'' ''731946'' ''A@x.io'' wallet_world))))) = Some s \<and> rs_verified s)"
proof -
  let ?run = "initiateEmailRecovery calm_repos (\<lambda>to c. Inr ()) 1000 ''s9'' ''731946'' ''A@x.io'' wallet_world"
  have "fst ?run = Inr ''s9''" by code_simp
  then have "?run = (Inr ''s9'', snd ?run)" by (metis prod.collapse)
  from any_six_digits_verify [OF ca.auth_tables_axioms calm_repos_reliable this, of 2000 "''000000''" "''c9''"]
  show ?thesis by (simp add: is_digit_def)
qed

end
