(* ===== verification/Delegation.thy ===== *)
theory Delegation
  imports Wallet_Auth
begin

text \<open>
  \<open>DelegationService\<close> (core/auth/delegation.service.ts): a wallet is given signing authority for
  another one. Permissions are their strings. Parameters are \<open>verifyMessage\<close>, the text of a date and
  the random values; the audit only logs.
\<close>

definition validPermissions :: "string list" where
  "validPermissions = [''sign_messages'', ''sign_transactions'', ''authenticate'', ''read_data'']"

record delegation_request =
  dq_delegatorWalletId :: string
  dq_delegateAddress :: string
  dq_permissions :: "string list"
  dq_expiresAt :: timestamp

datatype delegation_status = Active | Expired | Revoked

record delegation_record =
  dl_id :: string
  dl_delegatorWalletId :: "string option"
  dl_delegateWalletId :: string
  dl_permissions :: "string list"
  dl_grantedAt :: "timestamp option"
  dl_expiresAt :: "timestamp option"
  dl_revokedAt :: "timestamp option"
  dl_status :: delegation_status

definition validatePermissions :: "string list \<Rightarrow> unit result" where
  "validatePermissions permissions =
     (case List.find (\<lambda>p. p \<notin> set validPermissions) permissions of
        Some p \<Rightarrow> Inl (BadRequest (''Invalid permission: '' @ p))
      | None \<Rightarrow> if length permissions = 0 then Inl (BadRequest ''At least one permission must be granted'') else Inr ())"

definition generateDelegationChallenge ::
  "(timestamp \<Rightarrow> string) \<Rightarrow> string \<Rightarrow> string \<Rightarrow> string \<Rightarrow> string list \<Rightarrow> timestamp \<Rightarrow> string" where
  "generateDelegationChallenge toISOString nonce delegatorAddress delegateAddress permissions expiresAt =
     ''Delegate signing authority from '' @ delegatorAddress @ '' to '' @ delegateAddress @ [CHR 0x0A] @
     ''Permissions: '' @ join_with '', '' permissions @ [CHR 0x0A] @
     ''Expires: '' @ toISOString expiresAt @ [CHR 0x0A] @
     ''Nonce: '' @ nonce"

definition MAX_DELEGATION :: int where "MAX_DELEGATION = 90 * 24 * 60 * 60 * 1000"

definition pending_delegate :: "timestamp \<Rightarrow> string \<Rightarrow> string \<Rightarrow> wallet \<Rightarrow> string \<Rightarrow> delegation_request \<Rightarrow> wallet" where
  "pending_delegate now rowId delegatorUserId delegator address q =
     \<lparr>wa_id = rowId, wa_address = address, wa_userId = delegatorUserId, wa_type = DELEGATED, wa_status = PENDING, wa_isPrimary = False,
      wa_name = Some (''Delegated by '' @ (if truthy (wa_name delegator) then the (wa_name delegator) else take 8 (wa_address delegator))),
      wa_verificationSignature = None, wa_verificationChallenge = None, wa_verifiedAt = None, wa_linkedIp = None, wa_linkedUserAgent = None,
      wa_delegatedById = Some (wa_id delegator), wa_delegationExpiresAt = Some (dq_expiresAt q),
      wa_delegationPermissions = Some (dq_permissions q), wa_lastUsedAt = None, wa_recoveryCodeHash = None, wa_recoveryEnabled = False,
      wa_nonce = ''0'', wa_createdAt = now\<rparr>"

definition requestDelegation ::
  "(timestamp \<Rightarrow> string) \<Rightarrow> ('u, 'w, 'r, 'f, 'v) auth_repos \<Rightarrow> timestamp \<Rightarrow> string \<Rightarrow> string \<Rightarrow> string \<Rightarrow> string \<Rightarrow> delegation_request \<Rightarrow>
    (('u, 'w, 'r, 'f, 'v) auth_world, string \<times> string) io" where
  "requestDelegation toISOString rp now rowId delegationId nonce delegatorUserId q =
     io_bind (find_wallet rp (\<lambda>x. wa_id x = dq_delegatorWalletId q \<and> wa_userId x = delegatorUserId \<and> wa_status x = ACTIVE)) (\<lambda>dfound.
       case dfound of
         None \<Rightarrow> io_throw (NotFound ''Delegator wallet not found or not active'')
       | Some delegator \<Rightarrow>
           if \<not> wa_isPrimary delegator \<and> wa_type delegator \<noteq> SECONDARY
           then io_throw (Forbidden ''Only primary or secondary wallets can delegate authority'')
           else
             let address = toLowerCase (dq_delegateAddress q)
             in io_bind (find_wallet rp (\<lambda>x. wa_address x = address)) (\<lambda>existing.
                  if (case existing of None \<Rightarrow> False | Some x \<Rightarrow> wa_userId x \<noteq> delegatorUserId)
                  then io_throw (Conflict ''Delegate address is already linked to another account'')
                  else (case validatePermissions (dq_permissions q) of
                    Inl e \<Rightarrow> io_throw e
                  | Inr _ \<Rightarrow>
                      if dq_expiresAt q \<le> now then io_throw (BadRequest ''Expiration date must be in the future'')
                      else if dq_expiresAt q > now + MAX_DELEGATION then io_throw (BadRequest ''Delegation cannot exceed 90 days'')
                      else
                        let challenge = generateDelegationChallenge toISOString nonce (wa_address delegator) address (dq_permissions q) (dq_expiresAt q)
                        in io_bind (if existing = None then save_wallet rp (pending_delegate now rowId delegatorUserId delegator address q)
                                    else io_return ()) (\<lambda>_.
                             io_return (delegationId, challenge)))))"

definition completeDelegation ::
  "(string \<Rightarrow> string \<Rightarrow> string option) \<Rightarrow> (timestamp \<Rightarrow> string) \<Rightarrow> ('u, 'w, 'r, 'f, 'v) auth_repos \<Rightarrow> timestamp \<Rightarrow> string \<Rightarrow> string \<Rightarrow> string \<Rightarrow>
    string \<Rightarrow> (('u, 'w, 'r, 'f, 'v) auth_world, delegation_record) io" where
  "completeDelegation verifyMessage toISOString rp now nonce delegatorUserId delegateWalletId signature =
     io_bind (find_wallet rp (\<lambda>x. wa_id x = delegateWalletId \<and> wa_userId x = delegatorUserId \<and> wa_type x = DELEGATED \<and> wa_status x = PENDING)) (\<lambda>found.
       case found of
         None \<Rightarrow> io_throw (NotFound ''Pending delegation not found'')
       | Some delegate \<Rightarrow>
           io_bind (find_wallet rp (\<lambda>x. Some (wa_id x) = wa_delegatedById delegate)) (\<lambda>dfound.
             case dfound of
               None \<Rightarrow> io_throw (NotFound ''Delegator wallet not found'')
             | Some delegator \<Rightarrow>
                 (if wa_delegationExpiresAt delegate = None then io_throw (PlainError ''Cannot read properties of null'')
                  else
                    let challenge = generateDelegationChallenge toISOString nonce (wa_address delegator) (wa_address delegate)
                        (nullish (wa_delegationPermissions delegate) []) (the (wa_delegationExpiresAt delegate))
                    in case verifyMessage challenge signature of
                       None \<Rightarrow> io_throw (Unauthorized ''Invalid signature'')
                     | Some recoveredAddress \<Rightarrow>
                         if toLowerCase recoveredAddress \<noteq> toLowerCase (wa_address delegator)
                         then io_throw (Unauthorized ''Signature does not match delegator wallet'')
                         else io_bind (save_wallet rp (delegate\<lparr>wa_status := ACTIVE, wa_verifiedAt := Some now,
                                wa_verificationSignature := Some signature\<rparr>)) (\<lambda>_.
                           io_return \<lparr>dl_id = wa_id delegate, dl_delegatorWalletId = Some (wa_id delegator), dl_delegateWalletId = wa_id delegate,
                             dl_permissions = [], dl_grantedAt = Some now, dl_expiresAt = wa_delegationExpiresAt delegate, dl_revokedAt = None,
                             dl_status = Active\<rparr>))))"

definition revokeDelegation ::
  "('u, 'w, 'r, 'f, 'v) auth_repos \<Rightarrow> string \<Rightarrow> string \<Rightarrow> (('u, 'w, 'r, 'f, 'v) auth_world, unit) io" where
  "revokeDelegation rp userId delegationId =
     io_bind (find_wallet rp (\<lambda>x. wa_id x = delegationId \<and> wa_userId x = userId \<and> wa_type x = DELEGATED)) (\<lambda>found.
       case found of
         None \<Rightarrow> io_throw (NotFound ''Delegation not found'')
       | Some delegate \<Rightarrow>
           if wa_status delegate \<noteq> ACTIVE then io_throw (BadRequest ''Delegation is not active'')
           else save_wallet rp (delegate\<lparr>wa_status := REVOKED\<rparr>))"

definition getDelegationStatus :: "timestamp \<Rightarrow> wallet \<Rightarrow> delegation_status" where
  "getDelegationStatus now wallet =
     (if wa_status wallet = REVOKED then Revoked
      else if (case wa_delegationExpiresAt wallet of None \<Rightarrow> False | Some e \<Rightarrow> e < now) then Expired
      else if wa_status wallet = ACTIVE then Active
      else Expired)"

definition delegation_of :: "timestamp \<Rightarrow> string option \<Rightarrow> wallet \<Rightarrow> delegation_record" where
  "delegation_of now delegator x =
     \<lparr>dl_id = wa_id x, dl_delegatorWalletId = delegator, dl_delegateWalletId = wa_id x,
      dl_permissions = nullish (wa_delegationPermissions x) [], dl_grantedAt = wa_verifiedAt x, dl_expiresAt = wa_delegationExpiresAt x,
      dl_revokedAt = (if wa_status x = REVOKED then Some now else None), dl_status = getDelegationStatus now x\<rparr>"

text \<open>The lookups of the delegators are made and their results not used.\<close>

fun lookup_delegators :: "('u, 'w, 'r, 'f, 'v) auth_repos \<Rightarrow> wallet list \<Rightarrow> (('u, 'w, 'r, 'f, 'v) auth_world, unit) io" where
  "lookup_delegators rp [] = io_return ()"
| "lookup_delegators rp (x # xs) =
     io_bind (find_wallet rp (\<lambda>y. Some (wa_id y) = wa_delegatedById x)) (\<lambda>_. lookup_delegators rp xs)"

definition getUserDelegations ::
  "('u, 'w, 'r, 'f, 'v) auth_repos \<Rightarrow> timestamp \<Rightarrow> string \<Rightarrow> (('u, 'w, 'r, 'f, 'v) auth_world, delegation_record list \<times> delegation_record list) io" where
  "getUserDelegations rp now userId =
     io_bind (on_wallets (to_find (ar_wallets rp) (\<lambda>x. wa_userId x = userId \<and> wa_type x = DELEGATED) any_order)) (\<lambda>grantedWallets.
       io_bind (lookup_delegators rp grantedWallets) (\<lambda>_.
         io_return (map (\<lambda>x. delegation_of now (wa_delegatedById x) x) grantedWallets, [])))"

definition getWalletDelegations ::
  "('u, 'w, 'r, 'f, 'v) auth_repos \<Rightarrow> timestamp \<Rightarrow> string \<Rightarrow> string \<Rightarrow> (('u, 'w, 'r, 'f, 'v) auth_world, delegation_record list) io" where
  "getWalletDelegations rp now walletId userId =
     io_bind (getWallet rp walletId userId) (\<lambda>_.
       io_bind (on_wallets (to_find (ar_wallets rp) (\<lambda>x. wa_delegatedById x = Some walletId \<and> wa_type x = DELEGATED) any_order)) (\<lambda>delegatedWallets.
         io_return (map (delegation_of now (Some walletId)) delegatedWallets)))"

record permission_check =
  pc_valid :: bool
  pc_delegatorWalletId :: "string option"
  pc_permissions :: "string list option"
  pc_expiresAt :: "timestamp option"

definition verifyDelegationPermission ::
  "('u, 'w, 'r, 'f, 'v) auth_repos \<Rightarrow> timestamp \<Rightarrow> string \<Rightarrow> string \<Rightarrow> (('u, 'w, 'r, 'f, 'v) auth_world, permission_check) io" where
  "verifyDelegationPermission rp now delegateAddress requiredPermission =
     (let normalizedAddress = toLowerCase delegateAddress;
          invalid = \<lparr>pc_valid = False, pc_delegatorWalletId = None, pc_permissions = None, pc_expiresAt = None\<rparr>
      in io_bind (find_wallet rp (\<lambda>x. wa_address x = normalizedAddress \<and> wa_type x = DELEGATED \<and> wa_status x = ACTIVE)) (\<lambda>found.
           case found of
             None \<Rightarrow> io_return invalid
           | Some delegate \<Rightarrow>
               if (case wa_delegationExpiresAt delegate of None \<Rightarrow> False | Some e \<Rightarrow> e < now)
               then io_bind (save_wallet rp (delegate\<lparr>wa_status := UNLINKED\<rparr>)) (\<lambda>_. io_return invalid)
               else if requiredPermission \<notin> set (nullish (wa_delegationPermissions delegate) [])
               then io_return (invalid\<lparr>pc_delegatorWalletId := wa_delegatedById delegate, pc_permissions := Some []\<rparr>)
               else io_return \<lparr>pc_valid = True, pc_delegatorWalletId = wa_delegatedById delegate, pc_permissions = Some [],
                      pc_expiresAt = wa_delegationExpiresAt delegate\<rparr>))"

fun unlink_each :: "('u, 'w, 'r, 'f, 'v) auth_repos \<Rightarrow> wallet list \<Rightarrow> (('u, 'w, 'r, 'f, 'v) auth_world, unit) io" where
  "unlink_each rp [] = io_return ()"
| "unlink_each rp (x # xs) = io_bind (save_wallet rp (x\<lparr>wa_status := UNLINKED\<rparr>)) (\<lambda>_. unlink_each rp xs)"

definition expired_delegate :: "timestamp \<Rightarrow> wallet \<Rightarrow> bool" where
  "expired_delegate now x \<longleftrightarrow> wa_type x = DELEGATED \<and> wa_status x = ACTIVE \<and>
     (case wa_delegationExpiresAt x of None \<Rightarrow> False | Some e \<Rightarrow> e < now)"

definition cleanupExpiredDelegations :: "('u, 'w, 'r, 'f, 'v) auth_repos \<Rightarrow> timestamp \<Rightarrow> (('u, 'w, 'r, 'f, 'v) auth_world, nat) io" where
  "cleanupExpiredDelegations rp now =
     io_bind (on_wallets (to_find (ar_wallets rp) (expired_delegate now) any_order)) (\<lambda>expiredWallets.
       io_bind (unlink_each rp expiredWallets) (\<lambda>_. io_return (length expiredWallets)))"

text \<open>An example.\<close>

definition sample_request :: delegation_request where
  "sample_request = \<lparr>dq_delegatorWalletId = ''w1'', dq_delegateAddress = ''0xbb'', dq_permissions = [''authenticate''], dq_expiresAt = 9000\<rparr>"

definition delegation_run :: "(string \<times> string) result \<times> mem_world" where
  "delegation_run = requestDelegation (\<lambda>t. ''date'') calm_repos 2000 ''d1'' ''x1'' ''n1'' ''u1'' sample_request wallet_world"

section \<open>Facts\<close>

lemma find_wallet_run:
  "find_wallet rp P w = (fst (to_findOne (ar_wallets rp) P any_order (aw_wallets w)),
     w\<lparr>aw_wallets := snd (to_findOne (ar_wallets rp) P any_order (aw_wallets w))\<rparr>)"
  by (simp add: find_wallet_def on_wallets_def on_part_eq)

lemma save_wallet_run:
  "save_wallet rp t w = (fst (to_save (ar_wallets rp) t (aw_wallets w)), w\<lparr>aw_wallets := snd (to_save (ar_wallets rp) t (aw_wallets w))\<rparr>)"
  by (simp add: save_wallet_def on_wallets_def on_part_eq)

text \<open>Different nonces give different challenges.\<close>

lemma challenge_nonce:
  "length n = length n' \<Longrightarrow> n \<noteq> n' \<Longrightarrow> generateDelegationChallenge txt_of n a b ps e \<noteq> generateDelegationChallenge txt_of n' a' b' ps' e'"
proof
  assume l: "length n = length n'" and d: "n \<noteq> n'" and eq: "generateDelegationChallenge txt_of n a b ps e = generateDelegationChallenge txt_of n' a' b' ps' e'"
  have "drop (length s - length n) s = n" if "s = p @ n" for s p :: string using that by simp
  then have "rev (take (length n) (rev (generateDelegationChallenge txt_of n a b ps e))) = n"
    "rev (take (length n') (rev (generateDelegationChallenge txt_of n' a' b' ps' e'))) = n'"
    by (simp_all add: generateDelegationChallenge_def)
  then show False using l d eq by simp
qed

context auth_tables
begin

lemma unlink_each_rows:
  assumes "reliable_table (ar_wallets rp)" "distinct (map wa_id xs)" "\<forall>x \<in> set xs. wrows (aw_wallets w) (wa_id x) = Some x"
  shows "wrows (aw_wallets (snd (unlink_each rp xs w))) k =
      (if k \<in> wa_id ` set xs then map_option (\<lambda>x. x\<lparr>wa_status := UNLINKED\<rparr>) (wrows (aw_wallets w) k) else wrows (aw_wallets w) k)"
    and "fst (unlink_each rp xs w) = Inr ()"
proof -
  have "wrows (aw_wallets (snd (unlink_each rp xs w))) k =
      (if k \<in> wa_id ` set xs then map_option (\<lambda>x. x\<lparr>wa_status := UNLINKED\<rparr>) (wrows (aw_wallets w) k) else wrows (aw_wallets w) k) \<and>
    fst (unlink_each rp xs w) = Inr ()"
    using assms(2,3)
  proof (induction xs arbitrary: w)
    case (Cons x xs)
    let ?u = "x\<lparr>wa_status := UNLINKED\<rparr>"
    let ?w = "snd (save_wallet rp ?u w)"
    have ok: "fst (to_save (ar_wallets rp) ?u (aw_wallets w)) = Inr ()" by (rule reliable_writes(1) [OF assms(1)])
    have rows: "wrows (aw_wallets ?w) = (wrows (aw_wallets w))(wa_id x \<mapsto> ?u)" using w.save_ok [OF ok] by (simp add: save_wallet_run)
    have "wrows (aw_wallets ?w) (wa_id y) = Some y" if y: "y \<in> set xs" for y
    proof -
      have "wa_id y \<in> wa_id ` set xs" using y by (rule imageI)
      then have "wa_id y \<noteq> wa_id x" using Cons.prems(1) by (metis distinct.simps(2) list.simps(9) set_map)
      moreover have "wrows (aw_wallets w) (wa_id y) = Some y" using Cons.prems(2) y by (simp only: list.set_intros(2))
      ultimately show ?thesis unfolding rows by simp
    qed
    then have "\<forall>y \<in> set xs. wrows (aw_wallets ?w) (wa_id y) = Some y" by blast
    moreover have "distinct (map wa_id xs)" using Cons.prems(1) by simp
    ultimately have IH: "wrows (aw_wallets (snd (unlink_each rp xs ?w))) k =
          (if k \<in> wa_id ` set xs then map_option (\<lambda>x. x\<lparr>wa_status := UNLINKED\<rparr>) (wrows (aw_wallets ?w) k) else wrows (aw_wallets ?w) k)"
        "fst (unlink_each rp xs ?w) = Inr ()"
      using Cons.IH [of ?w] by blast+
    have run: "unlink_each rp (x # xs) w = unlink_each rp xs ?w" using ok by (simp add: io_bind_run save_wallet_run)
    have "k \<in> wa_id ` set (x # xs) \<longleftrightarrow> k = wa_id x \<or> k \<in> wa_id ` set xs" by auto
    moreover have "wa_id x \<notin> wa_id ` set xs" using Cons.prems(1) by auto
    moreover have "wrows (aw_wallets w) (wa_id x) = Some x" using Cons.prems(2) by simp
    ultimately show ?case unfolding run IH rows by simp
  qed (simp add: io_return_def)
  then show "wrows (aw_wallets (snd (unlink_each rp xs w))) k =
      (if k \<in> wa_id ` set xs then map_option (\<lambda>x. x\<lparr>wa_status := UNLINKED\<rparr>) (wrows (aw_wallets w) k) else wrows (aw_wallets w) k)"
    "fst (unlink_each rp xs w) = Inr ()" by simp_all
qed

lemma cleanup_rows:
  assumes rel: "reliable_table (ar_wallets rp)"
  shows "wrows (aw_wallets (snd (cleanupExpiredDelegations rp now w))) k =
    map_option (\<lambda>x. if expired_delegate now x then x\<lparr>wa_status := UNLINKED\<rparr> else x) (wrows (aw_wallets w) k)"
proof -
  obtain xs where xs: "fst (to_find (ar_wallets rp) (expired_delegate now) any_order (aw_wallets w)) = Inr xs" by (rule reliable_lists [OF rel])
  define w1 where "w1 = w\<lparr>aw_wallets := snd (to_find (ar_wallets rp) (expired_delegate now) any_order (aw_wallets w))\<rparr>"
  have rows1: "wrows (aw_wallets w1) = wrows (aw_wallets w)" by (simp add: w1_def w.find_rows)
  have set: "set xs = {x. expired_delegate now x \<and> (\<exists>k. wrows (aw_wallets w) k = Some x)}" by (rule w.find_set [OF xs])
  have all: "\<forall>x \<in> set xs. wrows (aw_wallets w1) (wa_id x) = Some x" using set rows1 w.row_key by auto
  note u = unlink_each_rows [OF rel w.find_distinct [OF xs] all]
  have run: "cleanupExpiredDelegations rp now w = (Inr (length xs), snd (unlink_each rp xs w1))"
    using xs u(2) by (simp add: cleanupExpiredDelegations_def io_bind_run on_wallets_def on_part_eq w1_def io_return_def)
  have "k \<in> wa_id ` set xs \<longleftrightarrow> (\<exists>x. wrows (aw_wallets w) k = Some x \<and> expired_delegate now x)"
    using set w.row_key by (auto simp: image_iff)
  then show ?thesis unfolding run by (cases "wrows (aw_wallets w) k") (auto simp: u(1) rows1)
qed

lemma verify_none:
  assumes rel: "reliable_table (ar_wallets rp)"
    and none: "\<forall>k t. wrows (aw_wallets w) k = Some t \<longrightarrow> \<not> (wa_address t = toLowerCase addr \<and> wa_type t = DELEGATED \<and> wa_status t = ACTIVE)"
  shows "fst (verifyDelegationPermission rp now addr perm w) =
    Inr \<lparr>pc_valid = False, pc_delegatorWalletId = None, pc_permissions = None, pc_expiresAt = None\<rparr>"
proof -
  let ?P = "\<lambda>x. wa_address x = toLowerCase addr \<and> wa_type x = DELEGATED \<and> wa_status x = ACTIVE"
  obtain y where y: "fst (to_findOne (ar_wallets rp) ?P any_order (aw_wallets w)) = Inr y" by (rule reliable_queries [OF rel])
  have "y = None"
  proof (rule ccontr)
    assume "y \<noteq> None"
    then obtain t where "y = Some t" by blast
    then have "?P t \<and> wrows (aw_wallets w) (wa_id t) = Some t" using w.findOne_some [of ?P any_order "aw_wallets w" t] y by simp
    then show False using none by blast
  qed
  then show ?thesis using y by (simp add: verifyDelegationPermission_def io_bind_run find_wallet_run io_return_def Let_def)
qed

lemma verify_some:
  assumes rel: "reliable_table (ar_wallets rp)" and ok: "wallets_ok vm (wrows (aw_wallets w))"
    and t: "wrows (aw_wallets w) i = Some t" "wa_address t = toLowerCase addr" "wa_type t = DELEGATED" "wa_status t = ACTIVE"
  shows "fst (verifyDelegationPermission rp now addr perm w) = Inr
    (if expired_delegate now t then \<lparr>pc_valid = False, pc_delegatorWalletId = None, pc_permissions = None, pc_expiresAt = None\<rparr>
     else if perm \<notin> set (nullish (wa_delegationPermissions t) [])
     then \<lparr>pc_valid = False, pc_delegatorWalletId = wa_delegatedById t, pc_permissions = Some [], pc_expiresAt = None\<rparr>
     else \<lparr>pc_valid = True, pc_delegatorWalletId = wa_delegatedById t, pc_permissions = Some [], pc_expiresAt = wa_delegationExpiresAt t\<rparr>)"
proof -
  let ?P = "\<lambda>x. wa_address x = toLowerCase addr \<and> wa_type x = DELEGATED \<and> wa_status x = ACTIVE"
  obtain y where y: "fst (to_findOne (ar_wallets rp) ?P any_order (aw_wallets w)) = Inr y" by (rule reliable_queries [OF rel])
  have "y \<noteq> None" using w.findOne_none [of ?P any_order "aw_wallets w" i t] y t by auto
  then obtain t' where t': "y = Some t'" by auto
  then have f: "wa_address t' = toLowerCase addr" "wrows (aw_wallets w) (wa_id t') = Some t'"
    using w.findOne_some [of ?P any_order "aw_wallets w" t'] y by auto
  then have "wa_id t' = i" using ok t unfolding wallets_ok_def by metis
  then have "t' = t" using f(2) t(1) by simp
  then have fw: "fst (to_findOne (ar_wallets rp) ?P any_order (aw_wallets w)) = Inr (Some t)" using y t' by simp
  have exp: "expired_delegate now t = (case wa_delegationExpiresAt t of None \<Rightarrow> False | Some e \<Rightarrow> e < now)" using t by (simp add: expired_delegate_def)
  show ?thesis unfolding exp
    using fw reliable_writes(1) [OF rel] by (simp add: verifyDelegationPermission_def io_bind_run find_wallet_run save_wallet_run io_return_def Let_def)
qed

lemma requestDelegation_new:
  assumes req: "requestDelegation toISO rp now rowId did nonce uid q w = (Inr (d, challenge), w1)"
    and fresh: "\<forall>k x. wrows (aw_wallets w) k = Some x \<longrightarrow> wa_address x \<noteq> toLowerCase (dq_delegateAddress q)"
  shows "\<exists>delegator. wrows (aw_wallets w1) = (wrows (aw_wallets w))(rowId \<mapsto> pending_delegate now rowId uid delegator (toLowerCase (dq_delegateAddress q)) q)"
proof -
  let ?P = "\<lambda>x. wa_id x = dq_delegatorWalletId q \<and> wa_userId x = uid \<and> wa_status x = ACTIVE"
  let ?Q = "\<lambda>x. wa_address x = toLowerCase (dq_delegateAddress q)"
  let ?d1 = "snd (to_findOne (ar_wallets rp) ?P any_order (aw_wallets w))"
  obtain dg where dg: "fst (to_findOne (ar_wallets rp) ?P any_order (aw_wallets w)) = Inr (Some dg)"
    using req by (auto simp: requestDelegation_def io_bind_run find_wallet_run io_throw_def split: sum.splits option.splits)
  have rows1: "wrows ?d1 = wrows (aw_wallets w)" by (rule w.findOne_rows)
  have pr: "wa_isPrimary dg \<or> wa_type dg = SECONDARY"
    using req dg by (auto simp: requestDelegation_def io_bind_run find_wallet_run io_throw_def split: if_splits)
  obtain y where y: "fst (to_findOne (ar_wallets rp) ?Q any_order ?d1) = Inr y"
    using req dg pr by (auto simp: requestDelegation_def io_bind_run find_wallet_run io_throw_def Let_def split: sum.splits if_splits)
  have "y = None"
  proof (rule ccontr)
    assume "y \<noteq> None"
    then obtain t where "y = Some t" by blast
    then have "?Q t \<and> wrows ?d1 (wa_id t) = Some t" using w.findOne_some [of ?Q any_order ?d1 t] y by simp
    then show False using fresh rows1 by auto
  qed
  define d2 where "d2 = snd (to_findOne (ar_wallets rp) ?Q any_order ?d1)"
  have rows2: "wrows d2 = wrows (aw_wallets w)" unfolding d2_def using w.findOne_rows rows1 by simp
  let ?new = "pending_delegate now rowId uid dg (toLowerCase (dq_delegateAddress q)) q"
  have res: "fst (to_save (ar_wallets rp) ?new d2) = Inr () \<and> w1 = w\<lparr>aw_wallets := snd (to_save (ar_wallets rp) ?new d2)\<rparr>"
    using req dg pr y \<open>y = None\<close>
    by (auto simp: requestDelegation_def io_bind_run find_wallet_run save_wallet_run io_throw_def io_return_def Let_def d2_def
        split: sum.splits if_splits)
  then have "wrows (aw_wallets w1) = (wrows (aw_wallets w))(rowId \<mapsto> ?new)"
    using w.save_ok [of ?new d2 "()"] rows2 by (simp add: pending_delegate_def)
  then show ?thesis by blast
qed

lemma request_challenge:
  assumes "requestDelegation toISO rp now rowId did nonce uid q w = (Inr (d, challenge), w1)"
  shows "\<exists>a b. challenge = generateDelegationChallenge toISO nonce a b (dq_permissions q) (dq_expiresAt q)"
  using assms
  by (auto simp: requestDelegation_def io_bind_run io_throw_def io_return_def Let_def split: sum.splits option.splits if_splits)

lemma complete_signed:
  assumes "fst (completeDelegation vm toISO rp now nonce uid i signature w) = Inr r"
  shows "\<exists>a b ps e x t. vm (generateDelegationChallenge toISO nonce a b ps e) signature = Some x \<and>
    wrows (aw_wallets w) (wa_id t) = Some t \<and> toLowerCase x = toLowerCase (wa_address t)"
proof -
  let ?P = "\<lambda>x. wa_id x = i \<and> wa_userId x = uid \<and> wa_type x = DELEGATED \<and> wa_status x = PENDING"
  let ?d1 = "snd (to_findOne (ar_wallets rp) ?P any_order (aw_wallets w))"
  obtain g where g: "fst (to_findOne (ar_wallets rp) ?P any_order (aw_wallets w)) = Inr (Some g)"
    using assms by (auto simp: completeDelegation_def io_bind_run find_wallet_run io_throw_def split: sum.splits option.splits)
  let ?Q = "\<lambda>x. Some (wa_id x) = wa_delegatedById g"
  obtain t where t: "fst (to_findOne (ar_wallets rp) ?Q any_order ?d1) = Inr (Some t)"
    using assms g by (auto simp: completeDelegation_def io_bind_run find_wallet_run io_throw_def split: sum.splits option.splits)
  have "wrows (aw_wallets w) (wa_id t) = Some t" using w.findOne_some [OF t] w.findOne_rows by simp
  moreover have "\<exists>a b ps e x. vm (generateDelegationChallenge toISO nonce a b ps e) signature = Some x \<and> toLowerCase x = toLowerCase (wa_address t)"
    using assms g t
    by (auto simp: completeDelegation_def io_bind_run find_wallet_run io_throw_def Let_def split: sum.splits option.splits if_splits) blast
  ultimately show ?thesis by blast
qed

end

section \<open>Properties\<close>

text \<open>
  A requested delegation can never be completed: the service makes a new challenge with a new
  nonce when the signature arrives, so a signature over the challenge that was issued is refused in
  every state in which it recovers to a linked wallet's address for that message only.
\<close>

theorem delegation_never_completes:
  assumes tables: "auth_tables rp urows wrows rrows frows vrows"
    and req: "requestDelegation toISOString rp now rowId delegationId nonce userId q w = (Inr (d, challenge), w1)"
    and sig: "\<forall>m x k t. verifyMessage m signature = Some x \<and> wrows (aw_wallets w2) k = Some t \<and> toLowerCase x = toLowerCase (wa_address t) \<longrightarrow> m = challenge"
    and nonces: "length nonce' = length nonce" "nonce' \<noteq> nonce"
  shows "\<exists>e. fst (completeDelegation verifyMessage toISOString rp now' nonce' userId delegateId signature w2) = Inl e"
proof (rule ccontr)
  assume "\<nexists>e. fst (completeDelegation verifyMessage toISOString rp now' nonce' userId delegateId signature w2) = Inl e"
  then obtain r where "fst (completeDelegation verifyMessage toISOString rp now' nonce' userId delegateId signature w2) = Inr r"
    by (cases "fst (completeDelegation verifyMessage toISOString rp now' nonce' userId delegateId signature w2)") auto
  from auth_tables.complete_signed [OF tables this] obtain a b ps e x t where
    "verifyMessage (generateDelegationChallenge toISOString nonce' a b ps e) signature = Some x"
    "wrows (aw_wallets w2) (wa_id t) = Some t" "toLowerCase x = toLowerCase (wa_address t)"
    by blast
  then have "generateDelegationChallenge toISOString nonce' a b ps e = challenge" using sig by blast
  then show False using auth_tables.request_challenge [OF tables req] challenge_nonce [OF nonces] by metis
qed

theorem delegation_never_completes_witness:
  "\<exists>e. fst (completeDelegation (\<lambda>m s. if m = snd (projr (fst delegation_run)) then Some ''0xaa'' else Some ''0xff'') (\<lambda>t. ''date'') calm_repos 3000
      ''n2'' ''u1'' ''d1'' ''sig'' (snd delegation_run)) = Inl e"
proof -
  have "fst delegation_run = Inr (''x1'', snd (projr (fst delegation_run)))" by code_simp
  then have req: "requestDelegation (\<lambda>t. ''date'') calm_repos 2000 ''d1'' ''x1'' ''n1'' ''u1'' sample_request wallet_world =
      (Inr (''x1'', snd (projr (fst delegation_run))), snd delegation_run)"
    by (metis delegation_run_def prod.collapse)
  have rows: "list_all (\<lambda>t. toLowerCase ''0xff'' \<noteq> toLowerCase (wa_address t)) (mt_rows (aw_wallets (snd delegation_run)))" by code_simp
  have sig: "\<forall>m x k t. (if m = snd (projr (fst delegation_run)) then Some ''0xaa'' else Some ''0xff'') = Some x \<and>
      table_row wa_id (aw_wallets (snd delegation_run)) k = Some t \<and> toLowerCase x = toLowerCase (wa_address t) \<longrightarrow> m = snd (projr (fst delegation_run))"
  proof (intro allI impI)
    fix m x k t
    assume a: "(if m = snd (projr (fst delegation_run)) then Some ''0xaa'' else Some ''0xff'') = Some x \<and>
      table_row wa_id (aw_wallets (snd delegation_run)) k = Some t \<and> toLowerCase x = toLowerCase (wa_address t)"
    then have "t \<in> set (mt_rows (aw_wallets (snd delegation_run)))" unfolding table_row_def by (auto simp: find_Some_iff)
    then show "m = snd (projr (fst delegation_run))" using a rows by (auto simp: list_all_iff split: if_splits)
  qed
  show ?thesis
    by (rule delegation_never_completes
        [where verifyMessage = "\<lambda>m s. if m = snd (projr (fst delegation_run)) then Some ''0xaa'' else Some ''0xff''",
          OF ca.auth_tables_axioms req sig]) simp_all
qed

text \<open>
  The signature of the delegator is not needed: as soon as a delegation with the permission
  \<open>authenticate\<close> has been requested for an address without a wallet, while the delegation is still
  pending, the holder of that address logs in with its own signature and is given a token.
\<close>

theorem pending_delegate_logs_in:
  assumes tables: "auth_tables rp urows wrows rrows frows vrows" and rel: "reliable_repos rp"
    and ok: "wallets_ok verifyMessage (wrows (aw_wallets w))"
    and req: "requestDelegation toISOString rp now rowId delegationId nonce userId q w = (Inr (d, challenge), w1)"
    and fresh: "\<forall>k x. wrows (aw_wallets w) k = Some x \<longrightarrow> wa_address x \<noteq> toLowerCase (dq_delegateAddress q)"
    and perm: "''authenticate'' \<in> set (dq_permissions q)"
    and issue: "issueChallengeForAddress now' cid (dq_delegateAddress q) (aw_challenges w1) = (message, chs)" "cid \<noteq> []" "\<not> list_ex line_break cid"
    and sig: "verifyMessage message signature = Some x" "toLowerCase x = toLowerCase (dq_delegateAddress q)"
  shows "\<exists>t. wrows (aw_wallets w1) rowId = Some t \<and> wa_status t = PENDING \<and> wa_verificationSignature t = None \<and> wa_userId t = userId \<and>
    (\<exists>tok. fst (verifySignatureAndIssueToken verifyMessage env rp (Inr ()) now' message signature (w1\<lparr>aw_challenges := chs\<rparr>)) =
      Inr (tok, toLowerCase (dq_delegateAddress q)))"
proof -
  let ?a = "toLowerCase (dq_delegateAddress q)"
  obtain dg where rows: "wrows (aw_wallets w1) = (wrows (aw_wallets w))(rowId \<mapsto> pending_delegate now rowId userId dg ?a q)"
    using auth_tables.requestDelegation_new [OF tables req fresh] by blast
  let ?t = "pending_delegate now rowId userId dg ?a q"
  have t: "wrows (aw_wallets w1) rowId = Some ?t" using rows by simp
  have "wallets_ok verifyMessage ((wrows (aw_wallets w))(wa_id ?t \<mapsto> ?t))"
    by (rule wallets_ok_add [OF ok]) (use fresh in \<open>simp_all add: proven_def pending_delegate_def\<close>)
  then have ok1: "wallets_ok verifyMessage (wrows (aw_wallets w1))" using rows by (simp add: pending_delegate_def)
  have m: "message = message_prefix @ cid" "Map_get cid chs = Some \<lparr>ch_id = cid, ch_message = message, ch_createdAt = now',
      ch_expiresAt = now' + challengeExpiration, ch_address = ?a\<rparr>"
    using issue by (auto simp: issueChallengeForAddress_def Let_def)
  have "\<exists>tok. fst (verifySignatureAndIssueToken verifyMessage env rp (Inr ()) now' message signature (w1\<lparr>aw_challenges := chs\<rparr>)) = Inr (tok, wa_address ?t)"
    by (rule auth_tables.linked_wallet_logs_in [OF tables rel, where i = rowId and t = ?t and cid = cid and x = x])
      (use ok1 t m perm extract_issued [OF issue(2,3)] sig in \<open>auto simp: challengeExpiration_def pending_delegate_def\<close>)
  then show ?thesis using t by (auto simp: pending_delegate_def)
qed

theorem pending_delegate_logs_in_witness:
  "\<exists>t. table_row wa_id (aw_wallets (snd delegation_run)) ''d1'' = Some t \<and> wa_status t = PENDING \<and> wa_verificationSignature t = None \<and> wa_userId t = ''u1'' \<and>
    (\<exists>tok. fst (verifySignatureAndIssueToken signed_by_text sample_env calm_repos (Inr ()) 5000 (message_prefix @ ''c2'') ''0xbb''
      ((snd delegation_run)\<lparr>aw_challenges := snd (issueChallengeForAddress 5000 ''c2'' ''0xbb'' (aw_challenges (snd delegation_run)))\<rparr>)) =
      Inr (tok, toLowerCase ''0xbb''))"
proof -
  have "fst delegation_run = Inr (''x1'', snd (projr (fst delegation_run)))" by code_simp
  then have req: "requestDelegation (\<lambda>t. ''date'') calm_repos 2000 ''d1'' ''x1'' ''n1'' ''u1'' sample_request wallet_world =
      (Inr (''x1'', snd (projr (fst delegation_run))), snd delegation_run)"
    by (metis delegation_run_def prod.collapse)
  have rows: "table_row wa_id (aw_wallets wallet_world) = (\<lambda>k. if k = ''w1'' then Some sample_wallet else None)"
    by (auto simp: wallet_world_def mem_world_of_def table_row_def sample_wallet_def)
  have ok: "wallets_ok signed_by_text (table_row wa_id (aw_wallets wallet_world))"
    unfolding rows by (auto simp: wallets_ok_def proven_def sample_wallet_def split: if_splits)
  have fresh: "\<forall>k x. table_row wa_id (aw_wallets wallet_world) k = Some x \<longrightarrow> wa_address x \<noteq> toLowerCase (dq_delegateAddress sample_request)"
  proof -
    have "wa_address sample_wallet \<noteq> toLowerCase (dq_delegateAddress sample_request)" by code_simp
    then show ?thesis by (auto simp: rows split: if_splits)
  qed
  have issued: "issueChallengeForAddress 5000 ''c2'' (dq_delegateAddress sample_request) (aw_challenges (snd delegation_run)) =
      (message_prefix @ ''c2'', snd (issueChallengeForAddress 5000 ''c2'' ''0xbb'' (aw_challenges (snd delegation_run))))"
    by (simp add: issueChallengeForAddress_def Let_def sample_request_def)
  show ?thesis
    using pending_delegate_logs_in [OF ca.auth_tables_axioms calm_repos_reliable ok req fresh _ issued, where signature = "''0xbb''" and x = "''0xbb''"]
    by (simp add: sample_request_def signed_by_text_def line_break_def)
qed

text \<open>
  The permission check is exact and the clean-up cannot be observed through it: it answers valid
  exactly when the address has an active delegated wallet that has not expired and carries the
  permission, and it answers the same right after a clean-up as without one.
\<close>

theorem permission_check_exact:
  assumes tables: "auth_tables rp urows wrows rrows frows vrows" and rel: "reliable_repos rp"
    and ok: "wallets_ok verifyMessage (wrows (aw_wallets w))"
  shows "(\<exists>r. fst (verifyDelegationPermission rp now addr perm w) = Inr r \<and>
      (pc_valid r \<longleftrightarrow> (\<exists>k t. wrows (aw_wallets w) k = Some t \<and> wa_address t = toLowerCase addr \<and> wa_type t = DELEGATED \<and> wa_status t = ACTIVE \<and>
        \<not> expired_delegate now t \<and> perm \<in> set (nullish (wa_delegationPermissions t) [])))) \<and>
    fst (verifyDelegationPermission rp now addr perm (snd (cleanupExpiredDelegations rp now w))) = fst (verifyDelegationPermission rp now addr perm w)"
proof -
  have rw: "reliable_table (ar_wallets rp)" using rel by (simp add: reliable_repos_def)
  let ?c = "\<lambda>x. if expired_delegate now x then x\<lparr>wa_status := UNLINKED\<rparr> else x"
  have rows: "wrows (aw_wallets (snd (cleanupExpiredDelegations rp now w))) = (\<lambda>k. map_option ?c (wrows (aw_wallets w) k))"
    using auth_tables.cleanup_rows [OF tables rw] by (intro ext)
  have ok': "wallets_ok verifyMessage (wrows (aw_wallets (snd (cleanupExpiredDelegations rp now w))))"
    unfolding rows using ok by (rule wallets_ok_update) (simp add: same_proof_def)
  note none = auth_tables.verify_none [OF tables rw]
  note some = auth_tables.verify_some [OF tables rw]
  let ?P = "\<lambda>t. wa_address t = toLowerCase addr \<and> wa_type t = DELEGATED \<and> wa_status t = ACTIVE"
  show ?thesis
  proof (cases "\<exists>k t. wrows (aw_wallets w) k = Some t \<and> ?P t")
    case False
    have "\<forall>k t. wrows (aw_wallets (snd (cleanupExpiredDelegations rp now w))) k = Some t \<longrightarrow> \<not> ?P t"
      using False unfolding rows by (auto split: if_splits)
    then have "fst (verifyDelegationPermission rp now addr perm (snd (cleanupExpiredDelegations rp now w))) =
        fst (verifyDelegationPermission rp now addr perm w)"
      using none [of w addr now perm] none [of "snd (cleanupExpiredDelegations rp now w)" addr now perm] False by auto
    moreover have "fst (verifyDelegationPermission rp now addr perm w) =
        Inr \<lparr>pc_valid = False, pc_delegatorWalletId = None, pc_permissions = None, pc_expiresAt = None\<rparr>" using none False by blast
    ultimately show ?thesis using False by auto
  next
    case True
    then obtain k t where t: "wrows (aw_wallets w) k = Some t" "wa_address t = toLowerCase addr" "wa_type t = DELEGATED" "wa_status t = ACTIVE" by blast
    note v = some [OF ok t, of now perm]
    have only: "k' = k \<and> t' = t" if "wrows (aw_wallets w) k' = Some t'" "wa_address t' = toLowerCase addr" for k' t'
      using ok that t(1,2) unfolding wallets_ok_def by (metis option.inject)
    have same: "fst (verifyDelegationPermission rp now addr perm (snd (cleanupExpiredDelegations rp now w))) =
        fst (verifyDelegationPermission rp now addr perm w)"
    proof (cases "expired_delegate now t")
      case True
      have "\<forall>k' t'. wrows (aw_wallets (snd (cleanupExpiredDelegations rp now w))) k' = Some t' \<longrightarrow> \<not> ?P t'"
      proof (intro allI impI)
        fix k' t' assume "wrows (aw_wallets (snd (cleanupExpiredDelegations rp now w))) k' = Some t'"
        then obtain z where z: "wrows (aw_wallets w) k' = Some z" "t' = ?c z" unfolding rows by auto
        show "\<not> ?P t'"
        proof (cases "expired_delegate now z")
          case True then show ?thesis using z(2) by simp
        next
          case False then show ?thesis using z only [OF z(1)] \<open>expired_delegate now t\<close> by auto
        qed
      qed
      then show ?thesis using none [of "snd (cleanupExpiredDelegations rp now w)" addr now perm] v True by simp
    next
      case False
      then have "wrows (aw_wallets (snd (cleanupExpiredDelegations rp now w))) k = Some t" unfolding rows using t(1) by simp
      from some [OF ok' this t(2-4), of now perm] show ?thesis using v by simp
    qed
    have ex: "(\<exists>k' t'. wrows (aw_wallets w) k' = Some t' \<and> wa_address t' = toLowerCase addr \<and> wa_type t' = DELEGATED \<and> wa_status t' = ACTIVE \<and>
        \<not> expired_delegate now t' \<and> perm \<in> set (nullish (wa_delegationPermissions t') [])) \<longleftrightarrow>
      \<not> expired_delegate now t \<and> perm \<in> set (nullish (wa_delegationPermissions t) [])"
      using only t by blast
    show ?thesis unfolding ex v using same v by simp
  qed
qed

theorem permission_check_exact_witness:
  "(\<exists>r. fst (verifyDelegationPermission calm_repos 3000 ''0xbb'' ''authenticate'' wallet_world) = Inr r \<and>
      (pc_valid r \<longleftrightarrow> (\<exists>k t. table_row wa_id (aw_wallets wallet_world) k = Some t \<and> wa_address t = toLowerCase ''0xbb'' \<and> wa_type t = DELEGATED \<and>
        wa_status t = ACTIVE \<and> \<not> expired_delegate 3000 t \<and> ''authenticate'' \<in> set (nullish (wa_delegationPermissions t) [])))) \<and>
    fst (verifyDelegationPermission calm_repos 3000 ''0xbb'' ''authenticate'' (snd (cleanupExpiredDelegations calm_repos 3000 wallet_world))) =
      fst (verifyDelegationPermission calm_repos 3000 ''0xbb'' ''authenticate'' wallet_world)"
proof -
  have rows: "table_row wa_id (aw_wallets wallet_world) = (\<lambda>k. if k = ''w1'' then Some sample_wallet else None)"
    by (auto simp: wallet_world_def mem_world_of_def table_row_def sample_wallet_def)
  have ok: "wallets_ok signed_by_text (table_row wa_id (aw_wallets wallet_world))"
    unfolding rows by (auto simp: wallets_ok_def proven_def sample_wallet_def split: if_splits)
  show ?thesis by (rule permission_check_exact [OF ca.auth_tables_axioms calm_repos_reliable ok])
qed

end
