(* ===== verification/Email_Linking.thy ===== *)
theory Email_Linking
  imports Session_Recovery Delegation
begin

text \<open>
  \<open>EmailLinkingService\<close> (core/auth/email-linking.service.ts) and \<open>RecoveryService\<close>
  (recovery.service.ts): an address is linked to the account of a wallet by a token sent to it. The
  sending of a mail is a parameter that returns the preview address or throws.
\<close>

definition is_email_char :: "char \<Rightarrow> bool" where
  "is_email_char c \<longleftrightarrow> \<not> is_js_space c \<and> c \<noteq> CHR ''@''"

text \<open>
  The expression \<^verbatim>\<open>/^[^\s@]+@[^\s@]+\.[^\s@]+$/\<close>: one at sign with something before it, and after it a
  dot that is neither the first nor the last character.
\<close>

definition emailRegex :: "string \<Rightarrow> bool" where
  "emailRegex s =
     (let l = takeWhile is_email_char s; r = dropWhile is_email_char s
      in l \<noteq> [] \<and> r \<noteq> [] \<and> hd r = CHR ''@'' \<and> list_all is_email_char (tl r) \<and> CHR ''.'' \<in> set (butlast (tl (tl r))))"

definition find_verification ::
  "('u, 'w, 'r, 'f, 'v) auth_repos \<Rightarrow> (email_verification \<Rightarrow> bool) \<Rightarrow> (('u, 'w, 'r, 'f, 'v) auth_world, email_verification option) io" where
  "find_verification rp P = on_verifications (to_findOne (ar_verifications rp) P any_order)"

definition delete_verifications ::
  "('u, 'w, 'r, 'f, 'v) auth_repos \<Rightarrow> (email_verification \<Rightarrow> bool) \<Rightarrow> (('u, 'w, 'r, 'f, 'v) auth_world, unit) io" where
  "delete_verifications rp P = on_verifications (to_delete (ar_verifications rp) P)"

text \<open>A wallet with its user, \<open>relations: ["user"]\<close>.\<close>

definition find_wallet_user ::
  "('u, 'w, 'r, 'f, 'v) auth_repos \<Rightarrow> string \<Rightarrow> (('u, 'w, 'r, 'f, 'v) auth_world, (wallet \<times> user option) option) io" where
  "find_wallet_user rp address =
     io_bind (find_wallet rp (\<lambda>x. wa_address x = address)) (\<lambda>found.
       case found of
         None \<Rightarrow> io_return None
       | Some x \<Rightarrow> io_bind (find_user rp (\<lambda>u. us_id u = wa_userId x)) (\<lambda>u. io_return (Some (x, u))))"

definition initiateEmailLinking ::
  "(string \<Rightarrow> string \<Rightarrow> string result) \<Rightarrow> ('u, 'w, 'r, 'f, 'v) auth_repos \<Rightarrow> timestamp \<Rightarrow> string \<Rightarrow> string \<Rightarrow> string \<Rightarrow> string \<Rightarrow>
    (('u, 'w, 'r, 'f, 'v) auth_world, string) io" where
  "initiateEmailLinking sendVerificationEmail rp now rowId token walletAddress email =
     (if \<not> emailRegex email then io_throw (BadRequest ''Invalid email format'')
      else
        let normalizedWallet = toLowerCase walletAddress; normalizedEmail = toLowerCase email
        in io_bind (find_wallet_user rp normalizedWallet) (\<lambda>found.
             case found of
               None \<Rightarrow> io_throw (NotFound ''Wallet not found'')
             | Some (x, u) \<Rightarrow>
                 io_bind (find_user rp (\<lambda>y. us_email y = Some normalizedEmail)) (\<lambda>existing.
                   if (case existing of None \<Rightarrow> False | Some y \<Rightarrow> Some (us_id y) \<noteq> map_option us_id u)
                   then io_throw (Conflict ''Email is already linked to another account'')
                   else if (case u of None \<Rightarrow> False | Some y \<Rightarrow> us_email y = Some normalizedEmail \<and> us_emailVerified y)
                   then io_throw (Conflict ''Email is already verified for this account'')
                   else io_bind (delete_verifications rp (\<lambda>v. ev_walletAddress v = normalizedWallet)) (\<lambda>_.
                     io_bind (on_verifications (to_save (ar_verifications rp)
                         \<lparr>ev_id = rowId, ev_email = normalizedEmail, ev_token = token, ev_walletAddress = normalizedWallet,
                          ev_expiresAt = now + 15 * 60 * 1000\<rparr>)) (\<lambda>_.
                       case sendVerificationEmail normalizedEmail token of Inl e \<Rightarrow> io_throw e | Inr url \<Rightarrow> io_return url)))))"

definition verifyEmailAndLink ::
  "('u, 'w, 'r, 'f, 'v) auth_repos \<Rightarrow> timestamp \<Rightarrow> string \<Rightarrow> (('u, 'w, 'r, 'f, 'v) auth_world, string \<times> string) io" where
  "verifyEmailAndLink rp now token =
     io_bind (find_verification rp (\<lambda>v. ev_token v = token)) (\<lambda>found.
       case found of
         None \<Rightarrow> io_throw (NotFound ''Invalid or expired verification token'')
       | Some v \<Rightarrow>
           if now > ev_expiresAt v
           then io_bind (delete_verifications rp (\<lambda>v. ev_token v = token)) (\<lambda>_. io_throw (Unauthorized ''Verification token has expired''))
           else io_bind (find_wallet_user rp (ev_walletAddress v)) (\<lambda>wfound.
             case wfound of
               Some (x, Some u) \<Rightarrow>
                 io_bind (save_user rp (u\<lparr>us_email := Some (ev_email v), us_emailVerified := True\<rparr>)) (\<lambda>_.
                   io_bind (delete_verifications rp (\<lambda>v. ev_token v = token)) (\<lambda>_.
                     io_return (us_walletAddress u, ev_email v)))
             | _ \<Rightarrow> io_throw (NotFound ''User not found'')))"

record account_info =
  ai_walletAddress :: string
  ai_email :: "string option"
  ai_emailVerified :: bool

definition getAccountInfo ::
  "('u, 'w, 'r, 'f, 'v) auth_repos \<Rightarrow> string \<Rightarrow> (('u, 'w, 'r, 'f, 'v) auth_world, account_info) io" where
  "getAccountInfo rp walletAddress =
     (let normalizedWallet = toLowerCase walletAddress
      in io_bind (find_wallet_user rp normalizedWallet) (\<lambda>found.
           case found of
             Some (x, Some u) \<Rightarrow> io_return \<lparr>ai_walletAddress = wa_address x, ai_email = us_email u, ai_emailVerified = us_emailVerified u\<rparr>
           | _ \<Rightarrow> io_return \<lparr>ai_walletAddress = normalizedWallet, ai_email = None, ai_emailVerified = False\<rparr>))"

definition unlinkEmail :: "('u, 'w, 'r, 'f, 'v) auth_repos \<Rightarrow> string \<Rightarrow> (('u, 'w, 'r, 'f, 'v) auth_world, unit) io" where
  "unlinkEmail rp walletAddress =
     (let normalizedWallet = toLowerCase walletAddress
      in io_bind (find_wallet_user rp normalizedWallet) (\<lambda>found.
           case found of
             Some (x, Some u) \<Rightarrow>
               (if \<not> truthy (us_email u) then io_throw (NotFound ''No email linked to this wallet'')
                else io_bind (save_user rp (u\<lparr>us_email := None, us_emailVerified := False\<rparr>)) (\<lambda>_.
                  delete_verifications rp (\<lambda>v. ev_walletAddress v = normalizedWallet)))
           | _ \<Rightarrow> io_throw (NotFound ''No email linked to this wallet'')))"

definition getUserByEmail :: "('u, 'w, 'r, 'f, 'v) auth_repos \<Rightarrow> string \<Rightarrow> (('u, 'w, 'r, 'f, 'v) auth_world, user option) io" where
  "getUserByEmail rp email = find_user rp (\<lambda>u. us_email u = Some (toLowerCase email) \<and> us_emailVerified u)"

definition requestRecovery ::
  "(string \<Rightarrow> string \<Rightarrow> string result) \<Rightarrow> ('u, 'w, 'r, 'f, 'v) auth_repos \<Rightarrow> string \<Rightarrow> (('u, 'w, 'r, 'f, 'v) auth_world, string) io" where
  "requestRecovery sendRecoveryEmail rp email =
     (let normalizedEmail = toLowerCase email
      in io_bind (getUserByEmail rp normalizedEmail) (\<lambda>found.
           case found of
             None \<Rightarrow> io_throw (NotFound ''No verified account found with this email address'')
           | Some u \<Rightarrow> (case sendRecoveryEmail normalizedEmail (us_walletAddress u) of Inl e \<Rightarrow> io_throw e | Inr url \<Rightarrow> io_return url)))"

definition verifyRecoveryAndGetChallenge ::
  "('u, 'w, 'r, 'f, 'v) auth_repos \<Rightarrow> timestamp \<Rightarrow> string \<Rightarrow> string \<Rightarrow> (('u, 'w, 'r, 'f, 'v) auth_world, string \<times> string) io" where
  "verifyRecoveryAndGetChallenge rp now challengeId email =
     (let normalizedEmail = toLowerCase email
      in io_bind (getUserByEmail rp normalizedEmail) (\<lambda>found.
           case found of
             None \<Rightarrow> io_throw (NotFound ''No verified account found with this email address'')
           | Some u \<Rightarrow> io_bind (on_challenges (issueChallengeForAddress now challengeId (us_walletAddress u))) (\<lambda>msg.
               io_return (msg, us_walletAddress u))))"

section \<open>Specification\<close>

text \<open>
  Every call that writes to the table of wallets or to the accounts behind it, with any arguments
  and whatever the table does.
\<close>

inductive wallet_step ::
  "(string \<Rightarrow> string \<Rightarrow> string option) \<Rightarrow> 'tok auth_env \<Rightarrow> ('u, 'w, 'r, 'f, 'v) auth_repos \<Rightarrow> ('u, 'w, 'r, 'f, 'v) auth_world \<Rightarrow> ('u, 'w, 'r, 'f, 'v) auth_world \<Rightarrow> bool"
  for vm env rp where
  link: "wallet_step vm env rp w (snd (linkWallet vm env rp maxWallets now i uid addr q w))"
| primary: "wallet_step vm env rp w (snd (setPrimaryWallet rp i uid w))"
| unlink: "wallet_step vm env rp w (snd (unlinkWallet rp uid i w))"
| login: "wallet_step vm env rp w (snd (verifySignatureAndIssueToken vm env rp audit now message signature w))"
| codes: "wallet_step vm env rp w (snd (generateBackupCodes sha rp hexes i uid w))"
| recover_code: "wallet_step vm env rp w (snd (initiateBackupCodeRecovery sha rp now sid cid addr code w))"
| recover_email: "wallet_step vm env rp w (snd (initiateEmailRecovery rp send now sid mailed email w))"
| recover_verify: "wallet_step vm env rp w (snd (verifyEmailRecoveryCode rp now cid sid code w))"
| recover_complete: "wallet_step vm env rp w (snd (completeRecovery vm env rp now sid message signature w))"
| request: "wallet_step vm env rp w (snd (requestDelegation toISO rp now i did nonce uid dq w))"
| complete: "wallet_step vm env rp w (snd (completeDelegation vm toISO rp now nonce uid i signature w))"
| revoke: "wallet_step vm env rp w (snd (revokeDelegation rp uid i w))"
| check: "wallet_step vm env rp w (snd (verifyDelegationPermission rp now addr perm w))"
| cleanup: "wallet_step vm env rp w (snd (cleanupExpiredDelegations rp now w))"
| link_email: "wallet_step vm env rp w (snd (verifyEmailAndLink rp now token w))"
| unlink_email: "wallet_step vm env rp w (snd (unlinkEmail rp addr w))"

definition wallets_sound ::
  "('w \<Rightarrow> string \<Rightarrow> wallet option) \<Rightarrow> (string \<Rightarrow> string \<Rightarrow> string option) \<Rightarrow> ('u, 'w, 'r, 'f, 'v) auth_world \<Rightarrow> bool" where
  "wallets_sound rows vm w \<longleftrightarrow> wallets_ok vm (rows (aw_wallets w))"

definition sound_with ::
  "('w \<Rightarrow> string \<Rightarrow> wallet option) \<Rightarrow> (string \<Rightarrow> string \<Rightarrow> string option) \<Rightarrow> wallet \<Rightarrow> ('u, 'w, 'r, 'f, 'v) auth_world \<Rightarrow> bool" where
  "sound_with rows vm t w \<longleftrightarrow> wallets_ok vm (rows (aw_wallets w)) \<and> rows (aw_wallets w) (wa_id t) = Some t"

section \<open>Facts\<close>

named_theorems wallet_rules \<open>what keeps the table of wallets sound\<close>

lemma wallet_rule_sum [wallet_rules]:
  "(\<And>e. io_triple P (f e) Q E) \<Longrightarrow> (\<And>x. io_triple P (g x) Q E) \<Longrightarrow> io_triple P (case r of Inl e \<Rightarrow> f e | Inr x \<Rightarrow> g x) Q E"
  by (cases r) simp_all

lemma wallet_rule_prod [wallet_rules]: "(\<And>a b. io_triple P (f a b) Q E) \<Longrightarrow> io_triple P (case p of (a, b) \<Rightarrow> f a b) Q E"
  by (cases p) simp

lemma io_bind_return: "io_bind (io_return x) g = g x"
  by (rule ext) (simp add: io_bind_def io_return_def)

lemma wallets_ok_proven: "wallets_ok vm rows \<Longrightarrow> rows k = Some t \<Longrightarrow> proven vm t"
  by (simp add: wallets_ok_def)

lemmas [wallet_rules] = io_triple_if io_triple_option

context auth_tables
begin

abbreviation sound where "sound \<equiv> wallets_sound wrows"
abbreviation sound_at where "sound_at \<equiv> sound_with wrows"

lemma sound_end [wallet_rules]:
  "io_triple (sound vm) (io_throw e) (\<lambda>_. sound vm) (sound vm)" "io_triple (sound_at vm t) (io_throw e) (\<lambda>_. sound vm) (sound vm)"
  "io_triple (sound vm) (io_return x) (\<lambda>_. sound vm) (sound vm)" "io_triple (sound_at vm t) (io_return x) (\<lambda>_. sound vm) (sound vm)"
  by (simp_all add: io_triple_def io_throw_def io_return_def wallets_sound_def sound_with_def)

lemma sound_find [wallet_rules]:
  assumes "io_triple (sound vm) none (\<lambda>_. sound vm) (sound vm)" "\<And>t. P t \<Longrightarrow> proven vm t \<Longrightarrow> io_triple (sound_at vm t) (some t) (\<lambda>_. sound vm) (sound vm)"
  shows "io_triple (sound vm) (io_bind (find_wallet rp P) (case_option none some)) (\<lambda>_. sound vm) (sound vm)"
proof -
  let ?Q = "\<lambda>x rows. case x of None \<Rightarrow> wallets_ok vm rows | Some t \<Rightarrow> P t \<and> proven vm t \<and> wallets_ok vm rows \<and> rows (wa_id t) = Some t"
  have find: "io_triple (\<lambda>w. wallets_ok vm (wrows (aw_wallets w))) (find_wallet rp P) (\<lambda>x w. ?Q x (wrows (aw_wallets w)))
      (\<lambda>w. wallets_ok vm (wrows (aw_wallets w)))"
    by (rule find_wallet_triple [where K = "wallets_ok vm" and Q = ?Q]) (auto dest: wallets_ok_proven)
  have cont: "io_triple (\<lambda>w. ?Q x (wrows (aw_wallets w))) (case_option none some x) (\<lambda>_. sound vm) (sound vm)" for x
  proof (cases x)
    case None
    then show ?thesis using assms(1) by (simp add: io_triple_def wallets_sound_def)
  next
    case (Some t)
    then show ?thesis using assms(2) [of t] by (auto simp: io_triple_def sound_with_def)
  qed
  have "io_triple (sound vm) (find_wallet rp P) (\<lambda>x w. ?Q x (wrows (aw_wallets w))) (sound vm)"
    using find by (simp add: io_triple_def wallets_sound_def)
  from io_triple_bind [OF this cont] show ?thesis .
qed

lemma sound_last_save [wallet_rules]:
  assumes "same_proof t t'"
  shows "io_triple (sound_at vm t) (save_wallet rp t') (\<lambda>_. sound vm) (sound vm)"
proof -
  let ?K = "\<lambda>rows. wallets_ok vm rows \<and> rows (wa_id t) = Some t"
  have "io_triple (\<lambda>w. ?K (wrows (aw_wallets w))) (save_wallet rp t') (\<lambda>_ w. wallets_ok vm (wrows (aw_wallets w)))
      (\<lambda>w. wallets_ok vm (wrows (aw_wallets w)))"
    by (rule save_found_ok [where K = ?K and t = t]) (use assms(1) in auto)
  then show ?thesis by (simp add: io_triple_def wallets_sound_def sound_with_def)
qed

lemma sound_save [wallet_rules]:
  assumes "same_proof t t'" "\<And>x. io_triple (sound vm) (g x) (\<lambda>_. sound vm) (sound vm)"
  shows "io_triple (sound_at vm t) (io_bind (save_wallet rp t') g) (\<lambda>_. sound vm) (sound vm)"
  by (rule io_triple_bind [OF sound_last_save [OF assms(1)] assms(2)])

lemma other_keeps:
  "aw_wallets (snd (find_user rp P w)) = aw_wallets w" "aw_wallets (snd (on_users m w)) = aw_wallets w"
  "aw_wallets (snd (save_user rp u w)) = aw_wallets w"
  "aw_wallets (snd (on_challenges f w)) = aw_wallets w" "aw_wallets (snd (on_sessions g w)) = aw_wallets w"
  "aw_wallets (snd (on_verifications n w)) = aw_wallets w" "wrows (aw_wallets (snd (find_wallet rp R w))) = wrows (aw_wallets w)"
  "aw_wallets (snd (find_verification rp S w)) = aw_wallets w" "aw_wallets (snd (delete_verifications rp S w)) = aw_wallets w"
  by (simp_all add: find_user_def save_user_def find_verification_def delete_verifications_def on_users_def on_verifications_def on_part_eq
      on_challenges_eq on_sessions_eq find_wallet_run w.findOne_rows)

lemma sound_other:
  assumes "\<And>w. wrows (aw_wallets (snd (m w))) = wrows (aw_wallets w)"
  shows "(\<And>x. io_triple (sound vm) (g x) (\<lambda>_. sound vm) (sound vm)) \<Longrightarrow> io_triple (sound vm) (io_bind m g) (\<lambda>_. sound vm) (sound vm)"
    and "(\<And>x. io_triple (sound_at vm t) (h x) (\<lambda>_. sound vm) (sound vm)) \<Longrightarrow> io_triple (sound_at vm t) (io_bind m h) (\<lambda>_. sound vm) (sound vm)"
    and "io_triple (sound vm) m (\<lambda>_. sound vm) (sound vm)" "io_triple (sound_at vm t) m (\<lambda>_. sound vm) (sound vm)"
proof -
  have s: "io_triple (sound vm) m (\<lambda>_. sound vm) (sound vm)" and
    a: "io_triple (sound_at vm t) m (\<lambda>_. sound_at vm t) (sound vm)" and l: "io_triple (sound_at vm t) m (\<lambda>_. sound vm) (sound vm)"
    using assms by (simp_all add: io_triple_def wallets_sound_def sound_with_def)
  show "(\<And>x. io_triple (sound vm) (g x) (\<lambda>_. sound vm) (sound vm)) \<Longrightarrow> io_triple (sound vm) (io_bind m g) (\<lambda>_. sound vm) (sound vm)"
    using io_triple_bind [OF s] by blast
  show "(\<And>x. io_triple (sound_at vm t) (h x) (\<lambda>_. sound vm) (sound vm)) \<Longrightarrow> io_triple (sound_at vm t) (io_bind m h) (\<lambda>_. sound vm) (sound vm)"
    using io_triple_bind [OF a] by blast
  show "io_triple (sound vm) m (\<lambda>_. sound vm) (sound vm)" "io_triple (sound_at vm t) m (\<lambda>_. sound vm) (sound vm)" by (fact s, fact l)
qed

lemmas sound_others [wallet_rules] =
  sound_other [OF other_keeps(1) [THEN arg_cong]] sound_other [OF other_keeps(2) [THEN arg_cong]] sound_other [OF other_keeps(3) [THEN arg_cong]]
  sound_other [OF other_keeps(4) [THEN arg_cong]] sound_other [OF other_keeps(5) [THEN arg_cong]] sound_other [OF other_keeps(6) [THEN arg_cong]]
  sound_other [OF other_keeps(8) [THEN arg_cong]] sound_other [OF other_keeps(9) [THEN arg_cong]] sound_other(2) [OF other_keeps(7)]

lemma sound_codes: "io_triple (sound vm) (generateBackupCodes sha rp hexes i uid) (\<lambda>_. sound vm) (sound vm)"
  unfolding generateBackupCodes_def Let_def by (intro wallet_rules) (simp_all add: same_proof_def)

lemma sound_recover_code: "io_triple (sound vm) (initiateBackupCodeRecovery sha rp now sid cid addr code) (\<lambda>_. sound vm) (sound vm)"
  unfolding initiateBackupCodeRecovery_def Let_def by (intro wallet_rules) (simp_all add: same_proof_def)

lemma sound_recover_email: "io_triple (sound vm) (initiateEmailRecovery rp send now sid mailed email) (\<lambda>_. sound vm) (sound vm)"
  unfolding initiateEmailRecovery_def Let_def by (intro wallet_rules)

lemma sound_recover_verify: "io_triple (sound vm) (verifyEmailRecoveryCode rp now cid sid code) (\<lambda>_. sound vm) (sound vm)"
  unfolding verifyEmailRecoveryCode_def by (intro wallet_rules)

lemma sound_revoke: "io_triple (sound vm) (revokeDelegation rp uid i) (\<lambda>_. sound vm) (sound vm)"
  unfolding revokeDelegation_def by (intro wallet_rules) (simp_all add: same_proof_def)

lemma sound_check: "io_triple (sound vm) (verifyDelegationPermission rp now addr perm) (\<lambda>_. sound vm) (sound vm)"
  unfolding verifyDelegationPermission_def Let_def by (intro wallet_rules) (simp_all add: same_proof_def)

lemma find_wallet_user_rows: "wrows (aw_wallets (snd (find_wallet_user rp addr w))) = wrows (aw_wallets w)"
  by (auto simp: find_wallet_user_def io_bind_run other_keeps io_return_def split: sum.splits option.splits)

lemma sound_recover_complete: "io_triple (sound vm) (completeRecovery vm env rp now sid message signature) (\<lambda>_. sound vm) (sound vm)"
proof -
  have consume: "io_triple (sound_at vm t) (io_bind (case c of None \<Rightarrow> io_return None | Some i \<Rightarrow> on_challenges (f i)) g) (\<lambda>_. sound vm) (sound vm)"
    if "\<And>x. io_triple (sound_at vm t) (g x) (\<lambda>_. sound vm) (sound vm)" for t c f and g :: "challenge option \<Rightarrow> (('u, 'w, 'r, 'f, 'v) auth_world, 'z) io"
  proof (cases c)
    case None
    then show ?thesis using that [of None] by (simp add: io_bind_return)
  next
    case (Some i)
    show ?thesis unfolding Some option.case by (rule sound_other(2) [OF other_keeps(4) [THEN arg_cong]], rule that)
  qed
  show ?thesis
    unfolding completeRecovery_def Let_def by (intro wallet_rules consume) (simp_all add: same_proof_def)
qed

lemma sound_login: "io_triple (sound vm) (verifySignatureAndIssueToken vm env rp audit now message signature) (\<lambda>_. sound vm) (sound vm)"
proof -
  have "io_triple (sound vm) (check_wallet_login vm rp now message signature) (\<lambda>_. sound vm) (sound vm)"
    unfolding check_wallet_login_def Let_def by (intro wallet_rules)
  then show ?thesis
    unfolding verifySignatureAndIssueToken_def Let_def by (rule io_triple_bind) (intro wallet_rules)
qed

lemma sound_complete: "io_triple (sound vm) (completeDelegation vm toISO rp now nonce uid i signature) (\<lambda>_. sound vm) (sound vm)"
  unfolding completeDelegation_def Let_def by (intro wallet_rules) (simp_all add: same_proof_def proven_def)

lemma sound_link_email: "io_triple (sound vm) (verifyEmailAndLink rp now token) (\<lambda>_. sound vm) (sound vm)"
  unfolding verifyEmailAndLink_def Let_def by (intro wallet_rules sound_other(1) [OF find_wallet_user_rows])

lemma sound_unlink_email: "io_triple (sound vm) (unlinkEmail rp addr) (\<lambda>_. sound vm) (sound vm)"
  unfolding unlinkEmail_def Let_def by (intro wallet_rules sound_other(1) [OF find_wallet_user_rows])

lemma sound_iff: "io_triple (sound vm) m (\<lambda>_. sound vm) (sound vm) \<longleftrightarrow>
    io_triple (\<lambda>w. wallets_ok vm (wrows (aw_wallets w))) m (\<lambda>_ w. wallets_ok vm (wrows (aw_wallets w))) (\<lambda>w. wallets_ok vm (wrows (aw_wallets w)))"
  by (simp add: io_triple_def wallets_sound_def)

lemma sound_request: "io_triple (sound vm) (requestDelegation toISO rp now i did nonce uid q) (\<lambda>_. sound vm) (sound vm)"
proof -
  let ?a = "toLowerCase (dq_delegateAddress q)"
  let ?ok = "\<lambda>w. wallets_ok vm (wrows (aw_wallets w))"
  let ?F = "\<lambda>y rows. wallets_ok vm rows \<and> (y = None \<longrightarrow> (\<forall>k x. rows k = Some x \<longrightarrow> wa_address x \<noteq> ?a))"
  have first: "io_triple ?ok (find_wallet rp P) (\<lambda>_. ?ok) ?ok" for P
    by (rule find_wallet_triple [where K = "wallets_ok vm" and Q = "\<lambda>_. wallets_ok vm" and E = "wallets_ok vm"]) auto
  have second: "io_triple ?ok (find_wallet rp (\<lambda>x. wa_address x = ?a)) (\<lambda>y w. ?F y (wrows (aw_wallets w))) ?ok"
    by (rule find_wallet_triple [where K = "wallets_ok vm" and Q = ?F and E = "wallets_ok vm"]) auto
  have save: "io_triple (\<lambda>w. ?F None (wrows (aw_wallets w))) (save_wallet rp (pending_delegate now i uid d ?a q)) (\<lambda>_. ?ok) ?ok" for d
  proof -
    have "proven vm (pending_delegate now i uid d ?a q)" "wa_address (pending_delegate now i uid d ?a q) = ?a"
      by (simp_all add: pending_delegate_def proven_def)
    then have "wallets_ok vm (rows(wa_id (pending_delegate now i uid d ?a q) \<mapsto> pending_delegate now i uid d ?a q))" if "?F None rows" for rows
      using that by (intro wallets_ok_add) auto
    then show ?thesis by (intro save_wallet_triple [where K = "?F None" and E = "wallets_ok vm"]) blast+
  qed
  have step: "io_triple (\<lambda>w. ?F y (wrows (aw_wallets w))) (if y = None then save_wallet rp (pending_delegate now i uid d ?a q) else io_return ())
      (\<lambda>_. ?ok) ?ok" for y d
    using save [of d] by (auto intro: io_triple_return)
  show ?thesis
    unfolding sound_iff requestDelegation_def Let_def
    by (rule io_triple_bind [OF first], intro io_triple_option io_triple_if wallet_rule_sum io_triple_bind [OF second] io_triple_bind [OF step])
      (auto intro!: io_triple_throw io_triple_return)
qed

lemma sound_cleanup: "io_triple (sound vm) (cleanupExpiredDelegations rp now) (\<lambda>_. sound vm) (sound vm)"
proof -
  let ?ok = "\<lambda>w. wallets_ok vm (wrows (aw_wallets w))"
  let ?U = "\<lambda>x. x\<lparr>wa_status := UNLINKED\<rparr>"
  let ?K = "\<lambda>xs rows. wallets_ok vm rows \<and> (\<forall>x \<in> set xs. rows (wa_id x) = Some x \<or> rows (wa_id x) = Some (?U x))"
  have save: "io_triple (\<lambda>w. ?K (x # xs) (wrows (aw_wallets w))) (save_wallet rp (?U x)) (\<lambda>_ w. ?K xs (wrows (aw_wallets w))) ?ok" for x xs
  proof (rule save_wallet_triple [where K = "?K (x # xs)" and Q = "?K xs" and E = "wallets_ok vm"])
    fix rows assume K: "?K (x # xs) rows"
    then obtain x0 where x0: "rows (wa_id x0) = Some x0" "wa_id x0 = wa_id x" "x0 = x \<or> x0 = ?U x" by auto
    have "wallets_ok vm (rows(wa_id (?U x) \<mapsto> ?U x))"
      by (rule wallets_ok_put [where t = x0]) (use K x0 in \<open>auto simp: same_proof_def\<close>)
    moreover have "(rows(wa_id (?U x) \<mapsto> ?U x)) (wa_id y) = Some y \<or> (rows(wa_id (?U x) \<mapsto> ?U x)) (wa_id y) = Some (?U y)" if "y \<in> set xs" for y
    proof (cases "wa_id y = wa_id x")
      case True
      then have "x0 = y \<or> x0 = ?U y" using K x0 that by auto
      then have "?U x0 = ?U y" by auto
      then have "?U x = ?U y" using x0(3) by auto
      then show ?thesis using True by auto
    next
      case False
      then show ?thesis using K that by auto
    qed
    ultimately show "?K xs (rows(wa_id (?U x) \<mapsto> ?U x))" by blast
  qed auto
  have each: "io_triple (\<lambda>w. ?K xs (wrows (aw_wallets w))) (unlink_each rp xs) (\<lambda>_. ?ok) ?ok" for xs
  proof (induction xs)
    case (Cons x xs)
    show ?case unfolding unlink_each.simps by (rule io_triple_bind [OF save Cons.IH])
  qed (auto intro: io_triple_return)
  have find: "io_triple ?ok (on_wallets (to_find (ar_wallets rp) P ord)) (\<lambda>xs w. ?K xs (wrows (aw_wallets w))) ?ok" for P ord
    by (rule find_wallets_triple [where K = "wallets_ok vm" and Q = ?K and E = "wallets_ok vm"]) (auto simp: wallets_ok_def)
  show ?thesis
    unfolding sound_iff cleanupExpiredDelegations_def
    by (rule io_triple_bind [OF find], rule io_triple_bind [OF each], rule io_triple_return, assumption)
qed

lemmas sound_steps = sound_codes sound_recover_code sound_recover_email sound_recover_verify sound_revoke sound_check sound_recover_complete
  sound_login sound_complete sound_link_email sound_unlink_email sound_request sound_cleanup
  linkWallet_ok [folded sound_iff] setPrimaryWallet_ok [folded sound_iff] unlinkWallet_ok [folded sound_iff]

lemma wallet_step_sound: "wallet_step vm env rp w w' \<Longrightarrow> sound vm w \<Longrightarrow> sound vm w'"
  by (induction rule: wallet_step.induct) (rule io_triple_keeps [OF sound_steps(14)] io_triple_keeps [OF sound_steps(15)]
    io_triple_keeps [OF sound_steps(16)] io_triple_keeps [OF sound_login] io_triple_keeps [OF sound_codes] io_triple_keeps [OF sound_recover_code]
    io_triple_keeps [OF sound_recover_email] io_triple_keeps [OF sound_recover_verify] io_triple_keeps [OF sound_recover_complete]
    io_triple_keeps [OF sound_request] io_triple_keeps [OF sound_complete] io_triple_keeps [OF sound_revoke] io_triple_keeps [OF sound_check]
    io_triple_keeps [OF sound_cleanup] io_triple_keeps [OF sound_link_email] io_triple_keeps [OF sound_unlink_email], assumption)+

end

text \<open>
  C1. The table of wallets stays sound under every call of the authentication services that reaches
  it, in any order, with any arguments and whatever the tables and the other services do: no two
  rows share an address, and a row that records a challenge and a signature records a signature of
  that challenge by the key of its own address, and is not a delegated wallet.
\<close>

theorem wallet_table_sound:
  assumes tables: "auth_tables rp urows wrows rrows frows vrows"
    and ok: "wallets_ok verifyMessage (wrows (aw_wallets w))"
    and steps: "(wallet_step verifyMessage env rp)\<^sup>*\<^sup>* w w'"
  shows "(\<forall>k k' t t'. wrows (aw_wallets w') k = Some t \<and> wrows (aw_wallets w') k' = Some t' \<and> wa_address t = wa_address t' \<longrightarrow> k = k') \<and>
    (\<forall>k t m s. wrows (aw_wallets w') k = Some t \<and> wa_verificationChallenge t = Some m \<and> wa_verificationSignature t = Some s \<longrightarrow>
      wa_type t \<noteq> DELEGATED \<and> (\<exists>a. verifyMessage m s = Some a \<and> toLowerCase a = wa_address t))"
proof -
  have "wallets_sound wrows verifyMessage w'"
    using steps
  proof (induction rule: rtranclp_induct)
    case base
    show ?case using ok by (simp add: wallets_sound_def)
  next
    case (step w1 w2)
    from auth_tables.wallet_step_sound [OF tables step.hyps(2) step.IH] show ?case .
  qed
  then have ok': "wallets_ok verifyMessage (wrows (aw_wallets w'))" by (simp add: wallets_sound_def)
  have "k = k'" if "wrows (aw_wallets w') k = Some t" "wrows (aw_wallets w') k' = Some t'" "wa_address t = wa_address t'" for k k' t t'
    using ok' that unfolding wallets_ok_def by blast
  moreover have "wa_type t \<noteq> DELEGATED \<and> (\<exists>a. verifyMessage m s = Some a \<and> toLowerCase a = wa_address t)"
    if "wrows (aw_wallets w') k = Some t" "wa_verificationChallenge t = Some m" "wa_verificationSignature t = Some s" for k t m s
    using wallets_ok_proven [OF ok' that(1)] that(2,3) by (auto simp: proven_def split: option.splits)
  ultimately show ?thesis by blast
qed

theorem wallet_table_sound_witness:
  "let w' = snd (linkWallet signed_by_text sample_env calm_repos 10 2000 ''w2'' ''u1'' ''0xBB''
      \<lparr>lq_message = message_prefix @ ''c1'', lq_signature = ''0xBB'', lq_walletName = None, lq_permissions = None, lq_ip = None, lq_userAgent = None\<rparr>
      wallet_world)
   in (\<exists>t. table_row wa_id (aw_wallets w') ''w2'' = Some t \<and> wa_verificationSignature t = Some ''0xBB'') \<and>
      (\<forall>t m s. table_row wa_id (aw_wallets w') ''w2'' = Some t \<and> wa_verificationChallenge t = Some m \<and> wa_verificationSignature t = Some s \<longrightarrow>
        (\<exists>a. signed_by_text m s = Some a \<and> toLowerCase a = wa_address t))"
proof -
  let ?q = "\<lparr>lq_message = message_prefix @ ''c1'', lq_signature = ''0xBB'', lq_walletName = None, lq_permissions = None, lq_ip = None, lq_userAgent = None\<rparr>"
  let ?w = "snd (linkWallet signed_by_text sample_env calm_repos 10 2000 ''w2'' ''u1'' ''0xBB'' ?q wallet_world)"
  have rows: "table_row wa_id (aw_wallets wallet_world) = (\<lambda>k. if k = ''w1'' then Some sample_wallet else None)"
    by (auto simp: wallet_world_def mem_world_of_def table_row_def sample_wallet_def)
  have ok: "wallets_ok signed_by_text (table_row wa_id (aw_wallets wallet_world))"
    unfolding rows by (auto simp: wallets_ok_def proven_def sample_wallet_def split: if_splits)
  have "(wallet_step signed_by_text sample_env calm_repos)\<^sup>*\<^sup>* wallet_world ?w" by (rule r_into_rtranclp, rule wallet_step.link)
  from wallet_table_sound [OF ca.auth_tables_axioms ok this]
  have sound: "\<exists>a. signed_by_text m s = Some a \<and> toLowerCase a = wa_address t"
    if "table_row wa_id (aw_wallets ?w) ''w2'' = Some t" "wa_verificationChallenge t = Some m" "wa_verificationSignature t = Some s" for t m s
    using that by blast
  have "(case table_row wa_id (aw_wallets ?w) ''w2'' of Some t \<Rightarrow> wa_verificationSignature t = Some ''0xBB'' | None \<Rightarrow> False)" by code_simp
  then show ?thesis using sound unfolding Let_def by (auto split: option.splits)
qed

end
