(* ===== verification/Users.thy ===== *)
theory Users
  imports Auth_Tables
begin

text \<open>
  \<open>UserService\<close> (core/user/user.service.ts), the admin routes that assign roles
  (admin-role.controller.ts) and the seeder that promotes the first administrator at start-up
  (role-seeder.service.ts).
\<close>

definition findAll :: "('u, 'w, 'r, 'f, 'v) auth_repos \<Rightarrow> (('u, 'w, 'r, 'f, 'v) auth_world, user list) io" where
  "findAll rp = on_users (to_find (ar_users rp) (\<lambda>_. True) any_order)"

definition findOne :: "('u, 'w, 'r, 'f, 'v) auth_repos \<Rightarrow> string \<Rightarrow> (('u, 'w, 'r, 'f, 'v) auth_world, user option) io" where
  "findOne rp userId = find_user rp (\<lambda>u. us_id u = userId)"

definition findManyByIds ::
  "('u, 'w, 'r, 'f, 'v) auth_repos \<Rightarrow> string list \<Rightarrow> (('u, 'w, 'r, 'f, 'v) auth_world, user list) io" where
  "findManyByIds rp ids =
     (let uniqueIds = fold Set_add ids []
      in if length uniqueIds = 0 then io_return []
         else on_users (to_find (ar_users rp) (\<lambda>u. us_id u \<in> set uniqueIds) any_order))"

definition findOneOrFail :: "('u, 'w, 'r, 'f, 'v) auth_repos \<Rightarrow> string \<Rightarrow> (('u, 'w, 'r, 'f, 'v) auth_world, user) io" where
  "findOneOrFail rp userId =
     io_bind (findOne rp userId) (\<lambda>u.
       case u of None \<Rightarrow> io_throw (NotFound (''User '' @ userId @ '' not found'')) | Some x \<Rightarrow> io_return x)"

definition remove_user :: "('u, 'w, 'r, 'f, 'v) auth_repos \<Rightarrow> string \<Rightarrow> (('u, 'w, 'r, 'f, 'v) auth_world, unit) io" where
  "remove_user rp userId = on_users (to_delete (ar_users rp) (\<lambda>u. us_id u = userId))"

text \<open>The conflicting pairs of this service, which differ from those of roles.enum.ts.\<close>

definition CONFLICTING_ROLE_PAIRS_us :: "(role \<times> role) list" where
  "CONFLICTING_ROLE_PAIRS_us = [(ADMIN, KYC_OPERATOR)]"

definition assertNoRoleConflict :: "role \<Rightarrow> role \<Rightarrow> unit result" where
  "assertNoRoleConflict currentRole newRole =
     (if currentRole = newRole then Inr ()
      else if list_ex (\<lambda>(a, b). currentRole = a \<and> newRole = b \<or> currentRole = b \<and> newRole = a) CONFLICTING_ROLE_PAIRS_us
      then Inl (BadRequest (''Role conflict: a user cannot hold both '' @ role_value currentRole @ '' and '' @ role_value newRole))
      else Inr ())"

definition assignRole ::
  "('u, 'w, 'r, 'f, 'v) auth_repos \<Rightarrow> string \<Rightarrow> role \<Rightarrow> (('u, 'w, 'r, 'f, 'v) auth_world, user) io" where
  "assignRole rp userId newRole =
     io_bind (findOneOrFail rp userId) (\<lambda>u.
       case assertNoRoleConflict (us_role u) newRole of
         Inl e \<Rightarrow> io_throw e
       | Inr _ \<Rightarrow> (let u' = u\<lparr>us_role := newRole\<rparr> in io_bind (save_user rp u') (\<lambda>_. io_return u')))"

section \<open>Admin routes\<close>

definition listRoles :: "role list" where
  "listRoles = ROLE_VALUES"

definition getUserRole ::
  "('u, 'w, 'r, 'f, 'v) auth_repos \<Rightarrow> string \<Rightarrow> (('u, 'w, 'r, 'f, 'v) auth_world, string \<times> role) io" where
  "getUserRole rp userId = io_bind (findOneOrFail rp userId) (\<lambda>u. io_return (us_id u, us_role u))"

definition assignRole_route ::
  "('u, 'w, 'r, 'f, 'v) auth_repos \<Rightarrow> string \<Rightarrow> role \<Rightarrow> (('u, 'w, 'r, 'f, 'v) auth_world, string \<times> role) io" where
  "assignRole_route rp userId r = io_bind (assignRole rp userId r) (\<lambda>u. io_return (us_id u, us_role u))"

definition resetRole ::
  "('u, 'w, 'r, 'f, 'v) auth_repos \<Rightarrow> string \<Rightarrow> (('u, 'w, 'r, 'f, 'v) auth_world, string \<times> role) io" where
  "resetRole rp userId = io_bind (assignRole rp userId USER) (\<lambda>u. io_return (us_id u, us_role u))"

section \<open>The seeder\<close>

definition seedBootstrapAdmin ::
  "('u, 'w, 'r, 'f, 'v) auth_repos \<Rightarrow> string option \<Rightarrow> string option \<Rightarrow> (('u, 'w, 'r, 'f, 'v) auth_world, unit) io" where
  "seedBootstrapAdmin rp cfg_email cfg_wallet =
     (let email = map_option trim cfg_email; wallet = map_option trim cfg_wallet
      in if \<not> truthy email \<and> \<not> truthy wallet then io_return ()
         else io_bind (find_user rp (\<lambda>u. if truthy email then us_email u = email
                                         else us_walletAddress u = toLowerCase (the wallet))) (\<lambda>found.
           case found of
             None \<Rightarrow> io_return ()
           | Some u \<Rightarrow> if us_role u = ADMIN then io_return () else save_user rp (u\<lparr>us_role := ADMIN\<rparr>)))"

section \<open>Facts\<close>

text \<open>A save keeps every row but the saved one, whatever its outcome.\<close>

lemma find_user_run:
  "find_user rp P w = (fst (to_findOne (ar_users rp) P any_order (aw_users w)), w\<lparr>aw_users := snd (to_findOne (ar_users rp) P any_order (aw_users w))\<rparr>)"
  by (simp add: find_user_def on_users_def on_part_eq)

lemma save_user_run:
  "save_user rp u w = (fst (to_save (ar_users rp) u (aw_users w)), w\<lparr>aw_users := snd (to_save (ar_users rp) u (aw_users w))\<rparr>)"
  by (simp add: save_user_def on_users_def on_part_eq)

lemma conflict_iff:
  "assertNoRoleConflict a b = Inr () \<longleftrightarrow> {a, b} \<noteq> {ADMIN, KYC_OPERATOR}"
  by (cases a; cases b) (auto simp: assertNoRoleConflict_def CONFLICTING_ROLE_PAIRS_us_def doubleton_eq_iff)

context auth_tables
begin

lemma findOneOrFail_Inr:
  "fst (findOneOrFail rp i w) = Inr u \<Longrightarrow> urows (aw_users w) i = Some u \<and> us_id u = i"
  using u.findOne_some [of "\<lambda>u. us_id u = i" any_order "aw_users w" u]
  by (auto simp: findOneOrFail_def findOne_def find_user_run io_bind_run io_throw_def io_return_def
      split: sum.splits option.splits)

lemma findOneOrFail_rows: "urows (aw_users (snd (findOneOrFail rp i w))) = urows (aw_users w)"
  using u.findOne_rows [of "\<lambda>u. us_id u = i" any_order "aw_users w"]
  by (auto simp: findOneOrFail_def findOne_def find_user_run io_bind_run io_throw_def io_return_def
      split: sum.splits option.splits)

lemma assignRole_Inr:
  assumes "fst (assignRole rp i r w) = Inr u'"
  obtains u where "urows (aw_users w) i = Some u" "us_id u = i" "{us_role u, r} \<noteq> {ADMIN, KYC_OPERATOR}"
    "u' = u\<lparr>us_role := r\<rparr>" "urows (aw_users (snd (assignRole rp i r w))) = (urows (aw_users w))(i \<mapsto> u')"
proof -
  obtain u where u: "fst (findOneOrFail rp i w) = Inr u"
    using assms by (auto simp: assignRole_def io_bind_run split: sum.splits)
  have c: "assertNoRoleConflict (us_role u) r = Inr ()"
    using assms u by (auto simp: assignRole_def io_bind_run io_throw_def split: sum.splits)
  define w' where "w' = snd (findOneOrFail rp i w)"
  have run: "assignRole rp i r w = io_bind (save_user rp (u\<lparr>us_role := r\<rparr>)) (\<lambda>_. io_return (u\<lparr>us_role := r\<rparr>)) w'"
    using u c by (simp add: assignRole_def io_bind_run [of "findOneOrFail rp i"] w'_def Let_def)
  have ok: "fst (to_save (ar_users rp) (u\<lparr>us_role := r\<rparr>) (aw_users w')) = Inr ()" and u': "u' = u\<lparr>us_role := r\<rparr>"
    using assms unfolding run by (auto simp: io_bind_run save_user_run io_return_def split: sum.splits)
  have "urows (aw_users (snd (assignRole rp i r w))) = (urows (aw_users w))(i \<mapsto> u')"
    using u.save_ok [OF ok] findOneOrFail_Inr [OF u] findOneOrFail_rows [of i w] ok u'
    unfolding run by (simp add: io_bind_run save_user_run io_return_def w'_def)
  then show thesis using that findOneOrFail_Inr [OF u] c u' by (simp add: conflict_iff)
qed

end

section \<open>Properties\<close>

text \<open>
  Separation of duties: an assignment of a role that returns changes nothing but the role of the
  named user and never turns an administrator into a KYC operator or back.
\<close>

theorem role_assignment_separates:
  assumes "auth_tables rp urows wrows rrows frows vrows"
    and "fst (assignRole rp i r w) = Inr u'"
  shows "\<exists>u. urows (aw_users w) i = Some u \<and> {us_role u, r} \<noteq> {ADMIN, KYC_OPERATOR} \<and> u' = u\<lparr>us_role := r\<rparr> \<and>
    urows (aw_users (snd (assignRole rp i r w))) = (urows (aw_users w))(i \<mapsto> u')"
  using auth_tables.assignRole_Inr [OF assms] by metis

theorem role_assignment_separates_witness:
  "\<exists>u. table_row us_id (aw_users (mem_world_of [sample_user] [] [] [] [])) ''u1'' = Some u \<and> {us_role u, OPERATOR} \<noteq> {ADMIN, KYC_OPERATOR} \<and>
    sample_user\<lparr>us_role := OPERATOR\<rparr> = u\<lparr>us_role := OPERATOR\<rparr> \<and>
    table_row us_id (aw_users (snd (assignRole mem_repos ''u1'' OPERATOR (mem_world_of [sample_user] [] [] [] [])))) =
      (table_row us_id (aw_users (mem_world_of [sample_user] [] [] [] [])))(''u1'' \<mapsto> sample_user\<lparr>us_role := OPERATOR\<rparr>)"
proof (rule role_assignment_separates [OF ma.auth_tables_axioms])
  show "fst (assignRole mem_repos ''u1'' OPERATOR (mem_world_of [sample_user] [] [] [] [])) = Inr (sample_user\<lparr>us_role := OPERATOR\<rparr>)"
    by code_simp
qed

end
