(* ===== verification/Decimal.thy ===== *)
theory Decimal
  imports Js_Prelude "HOL-Library.Code_Target_Nat"
begin

text \<open>
  Decimal text of integers as JavaScript prints and reads it (\<open>BigInt(s)\<close>, \<open>String(n)\<close>,
  \<open>padStart\<close>, \<open>padEnd\<close>), and what the components that parse amounts need of it. It models no file
  of the repository.
\<close>

definition digit_char :: "nat \<Rightarrow> char" where
  "digit_char d = char_of (48 + d)"

definition digit_value :: "char \<Rightarrow> nat" where
  "digit_value c = of_char c - 48"

fun decimal :: "nat \<Rightarrow> string" where
  "decimal n = (if n < 10 then [digit_char n] else decimal (n div 10) @ [digit_char (n mod 10)])"

declare decimal.simps [simp del]

definition int_text :: "int \<Rightarrow> string" where
  "int_text n = (if n < 0 then ''-'' @ decimal (nat (- n)) else decimal (nat n))"

definition parse_decimal :: "string \<Rightarrow> nat" where
  "parse_decimal s = foldl (\<lambda>n c. 10 * n + digit_value c) 0 s"

definition padStart :: "nat \<Rightarrow> char \<Rightarrow> string \<Rightarrow> string" where
  "padStart n c s = replicate (n - length s) c @ s"

definition padEnd :: "nat \<Rightarrow> char \<Rightarrow> string \<Rightarrow> string" where
  "padEnd n c s = s @ replicate (n - length s) c"

section \<open>Facts\<close>

lemma digit_char_props [simp]:
  "d < 10 \<Longrightarrow> digit_value (digit_char d) = d" "d < 10 \<Longrightarrow> is_digit (digit_char d)"
  by (simp_all add: digit_char_def digit_value_def is_digit_def)

lemma digit_zero [simp]: "digit_value (CHR ''0'') = 0" "is_digit (CHR ''0'')"
  by (simp_all add: digit_value_def is_digit_def)

lemma digit_value_less: "is_digit c \<Longrightarrow> digit_value c < 10"
  by (auto simp: digit_value_def is_digit_def Let_def)

lemma point_no_digit [simp]: "\<not> is_digit (CHR ''.'')"
  by (simp add: is_digit_def)

lemma digit_no_space: "is_digit c \<Longrightarrow> \<not> is_js_space c"
  by (auto simp: is_digit_def is_js_space_def Let_def)

lemma decimal_digits: "list_all is_digit (decimal n)" and decimal_nonempty [simp]: "decimal n \<noteq> []"
  by (induction n rule: decimal.induct) (subst decimal.simps; simp)+

lemma parse_append: "foldl (\<lambda>n c. 10 * n + digit_value c) a (s @ t) = foldl (\<lambda>n c. 10 * n + digit_value c) 0 t + 10 ^ length t * foldl (\<lambda>n c. 10 * n + digit_value c) a s"
proof (induction t rule: rev_induct)
  case (snoc c t)
  then show ?case by (simp add: algebra_simps)
qed simp

lemma parse_decimal_append: "parse_decimal (s @ t) = parse_decimal t + 10 ^ length t * parse_decimal s"
  unfolding parse_decimal_def by (rule parse_append)

lemma parse_decimal_nil [simp]: "parse_decimal [] = 0"
  by (simp add: parse_decimal_def)

lemma parse_decimal_single [simp]: "parse_decimal [c] = digit_value c"
  by (simp add: parse_decimal_def)

lemma parse_decimal_decimal [simp]: "parse_decimal (decimal n) = n"
proof (induction n rule: decimal.induct)
  case (1 n)
  then show ?case by (subst decimal.simps) (simp add: parse_decimal_append)
qed

lemma parse_decimal_Cons: "parse_decimal (c # s) = parse_decimal s + 10 ^ length s * digit_value c"
  using parse_decimal_append [of "[c]" s] by simp

lemma parse_decimal_zeros [simp]: "parse_decimal (replicate n (CHR ''0'')) = 0"
  by (induction n) (simp_all add: parse_decimal_Cons)

lemma parse_decimal_less: "list_all is_digit s \<Longrightarrow> parse_decimal s < 10 ^ length s"
proof (induction s rule: rev_induct)
  case (snoc c s)
  then have "parse_decimal s < 10 ^ length s" "digit_value c < 10" by (simp_all add: digit_value_less)
  then show ?case by (simp add: parse_decimal_append)
qed simp

lemma length_decimal: "n < 10 ^ k \<Longrightarrow> 0 < k \<Longrightarrow> length (decimal n) \<le> k"
proof (induction n arbitrary: k rule: decimal.induct)
  case (1 n)
  show ?case
  proof (cases "n < 10")
    case True
    then show ?thesis using 1(3) by (subst decimal.simps) simp
  next
    case False
    then obtain j where j: "k = Suc j" "0 < j" using 1(2,3) by (cases k; cases "k - 1") auto
    then have "n div 10 < 10 ^ j" using 1(2) by (simp add: less_mult_imp_div_less)
    then show ?thesis using 1(1) [OF False] j False by (subst decimal.simps) auto
  qed
qed

lemma padStart_decimal:
  assumes "n < 10 ^ k" "0 < k"
  shows "length (padStart k (CHR ''0'') (decimal n)) = k" "parse_decimal (padStart k (CHR ''0'') (decimal n)) = n"
    "list_all is_digit (padStart k (CHR ''0'') (decimal n))"
  using length_decimal [OF assms] decimal_digits [of n] by (auto simp: padStart_def parse_decimal_append list_all_iff)

lemma takeWhile_digits: "list_all is_digit s \<Longrightarrow> \<not> is_digit c \<Longrightarrow> takeWhile is_digit (s @ c # t) = s \<and> dropWhile is_digit (s @ c # t) = c # t"
  by (induction s) auto

lemma takeWhile_all_digits: "list_all is_digit s \<Longrightarrow> takeWhile is_digit s = s \<and> dropWhile is_digit s = []"
  by (induction s) auto

end
