(* ===== verification/Reconciliation.thy ===== *)
theory Reconciliation
  imports Sql_Table Decimal
begin

text \<open>
  \<open>ReconciliationService\<close> (reconciliation/reconciliation.service.ts): payments seen on the Stellar
  network are matched with invoices. The two tables and the append-only table of audits are
  parameters, as are the row ids and the answer of the Horizon server. Amounts are the strings the
  code stores; \<open>bigint\<close> units are natural numbers. An entity passed to a method that changes it is
  returned changed. JSON columns the code only passes through are their text; the metadata of an
  audit, which no code reads, is left out.
\<close>

section \<open>Entities\<close>

datatype invoice_status = Invoice_Open | Invoice_Partial | Invoice_Paid | Invoice_Failed

record recon_invoice =
  ri_id :: string
  ri_invoiceId :: string
  ri_expectedAmount :: string
  ri_paidAmount :: string
  ri_assetCode :: string
  ri_destinationAccount :: string
  ri_paymentReference :: "string option"
  ri_status :: invoice_status
  ri_metadata :: "string option"
  ri_createdAt :: timestamp

datatype stellar_status = Tx_Unmatched | Tx_Partial | Tx_Matched | Tx_Failed

record stellar_tx =
  sx_id :: string
  sx_transactionId :: string
  sx_ledger :: "string option"
  sx_sourceAccount :: "string option"
  sx_destinationAccount :: string
  sx_amount :: string
  sx_assetCode :: string
  sx_memo :: "string option"
  sx_paymentReference :: "string option"
  sx_status :: stellar_status
  sx_failureReason :: "string option"
  sx_observedAt :: timestamp
  sx_rawPayload :: "string option"
  sx_createdAt :: timestamp

datatype recon_decision = Decided_Matched | Decided_Partial | Decided_Unmatched | Decided_Failed | Decided_Retry

record recon_audit =
  au_invoiceId :: "string option"
  au_transactionId :: "string option"
  au_decision :: recon_decision
  au_reason :: string
  au_attempt :: nat

section \<open>State\<close>

record ('i, 't, 'a) recon_repos =
  rp_invoices :: "('i, recon_invoice) table_ops"
  rp_txs :: "('t, stellar_tx) table_ops"
  rp_insertAudit :: "recon_audit \<Rightarrow> ('a, unit) io"
  rp_findAudits :: "(recon_audit \<Rightarrow> bool) \<Rightarrow> ('a, recon_audit list) io"

record ('i, 't, 'a) recon_world =
  rw_invoices :: 'i
  rw_txs :: 't
  rw_audits :: 'a
  rw_horizonCursor :: "string option"

definition on_invoices :: "('i, 'x) io \<Rightarrow> (('i, 't, 'a) recon_world, 'x) io" where
  "on_invoices = on_part rw_invoices (\<lambda>d w. w\<lparr>rw_invoices := d\<rparr>)"

definition on_txs :: "('t, 'x) io \<Rightarrow> (('i, 't, 'a) recon_world, 'x) io" where
  "on_txs = on_part rw_txs (\<lambda>d w. w\<lparr>rw_txs := d\<rparr>)"

definition on_audits :: "('a, 'x) io \<Rightarrow> (('i, 't, 'a) recon_world, 'x) io" where
  "on_audits = on_part rw_audits (\<lambda>d w. w\<lparr>rw_audits := d\<rparr>)"

section \<open>Amounts\<close>

definition SCALE :: nat where "SCALE = 7"

definition SCALE_FACTOR :: nat where "SCALE_FACTOR = 10 ^ SCALE"

text \<open>The expression \<^verbatim>\<open>/^\d+(\.\d+)?$/\<close>.\<close>

definition is_amount :: "string \<Rightarrow> bool" where
  "is_amount s =
     (let r = dropWhile is_digit s
      in takeWhile is_digit s \<noteq> [] \<and> (r = [] \<or> hd r = CHR ''.'' \<and> tl r \<noteq> [] \<and> list_all is_digit (tl r)))"

definition toUnits :: "string \<Rightarrow> nat result" where
  "toUnits value =
     (let normalized = trim value
      in if \<not> is_amount normalized then Inl (PlainError (''Invalid Stellar amount: '' @ value))
         else
           let parts = split_char (CHR ''.'') normalized;
               whole = hd parts; fraction = (case tl parts of [] \<Rightarrow> '''' | f # _ \<Rightarrow> f)
           in Inr (parse_decimal whole * SCALE_FACTOR + parse_decimal (take SCALE (padEnd SCALE (CHR ''0'') fraction))))"

definition fromUnits :: "nat \<Rightarrow> string" where
  "fromUnits units =
     decimal (units div SCALE_FACTOR) @ ''.'' @ padStart SCALE (CHR ''0'') (decimal (units mod SCALE_FACTOR))"

definition normalizeAmount :: "string \<Rightarrow> string result" where
  "normalizeAmount value = (case toUnits value of Inl e \<Rightarrow> Inl e | Inr n \<Rightarrow> Inr (fromUnits n))"

section \<open>Matching\<close>

definition matchesInvoice :: "stellar_tx \<Rightarrow> recon_invoice \<Rightarrow> bool" where
  "matchesInvoice transaction invoice =
     (if sx_destinationAccount transaction \<noteq> ri_destinationAccount invoice then False
      else if sx_assetCode transaction \<noteq> ri_assetCode invoice then False
      else if truthy (ri_paymentReference invoice) \<and> ri_paymentReference invoice \<noteq> sx_paymentReference transaction then False
      else True)"

definition writeAudit :: "('i, 't, 'a) recon_repos \<Rightarrow> recon_audit \<Rightarrow> (('i, 't, 'a) recon_world, unit) io" where
  "writeAudit rp values = on_audits (rp_insertAudit rp values)"

definition created_first :: "recon_invoice \<Rightarrow> recon_invoice \<Rightarrow> int" where
  "created_first a b = ri_createdAt a - ri_createdAt b"

definition credit_invoice :: "recon_invoice \<Rightarrow> nat \<Rightarrow> nat \<Rightarrow> recon_invoice" where
  "credit_invoice invoice paidUnits expectedUnits =
     invoice\<lparr>ri_paidAmount := fromUnits paidUnits,
       ri_status := (if paidUnits \<ge> expectedUnits then Invoice_Paid else Invoice_Partial)\<rparr>"

definition reconcileTransaction ::
  "('i, 't, 'a) recon_repos \<Rightarrow> stellar_tx \<Rightarrow> string option \<Rightarrow> (('i, 't, 'a) recon_world, stellar_tx) io" where
  "reconcileTransaction rp transaction reason =
     io_bind (on_invoices (to_findOne (rp_invoices rp) (\<lambda>i. ri_destinationAccount i = sx_destinationAccount transaction) created_first)) (\<lambda>found.
       if (case found of None \<Rightarrow> True | Some i \<Rightarrow> \<not> matchesInvoice transaction i)
       then io_bind (writeAudit rp \<lparr>au_invoiceId = map_option ri_invoiceId found, au_transactionId = Some (sx_transactionId transaction),
              au_decision = Decided_Unmatched, au_reason = nullish reason ''No invoice matched destination, asset, and reference'', au_attempt = 0\<rparr>) (\<lambda>_.
              io_return (transaction\<lparr>sx_status := Tx_Unmatched\<rparr>))
       else
         let invoice = the found
         in case (toUnits (ri_paidAmount invoice), toUnits (sx_amount transaction), toUnits (ri_expectedAmount invoice)) of
              (Inl e, _, _) \<Rightarrow> io_throw e
            | (_, Inl e, _) \<Rightarrow> io_throw e
            | (_, _, Inl e) \<Rightarrow> io_throw e
            | (Inr paid, Inr amount, Inr expectedUnits) \<Rightarrow>
                (let isPaid = paid + amount \<ge> expectedUnits
                 in io_bind (on_invoices (to_save (rp_invoices rp) (credit_invoice invoice (paid + amount) expectedUnits))) (\<lambda>_.
                      io_bind (writeAudit rp \<lparr>au_invoiceId = Some (ri_invoiceId invoice), au_transactionId = Some (sx_transactionId transaction),
                        au_decision = (if isPaid then Decided_Matched else Decided_Partial),
                        au_reason = nullish reason (if isPaid then ''Invoice fully paid'' else ''Invoice partially paid''), au_attempt = 0\<rparr>) (\<lambda>_.
                        io_return (transaction\<lparr>sx_status := (if isPaid then Tx_Matched else Tx_Partial)\<rparr>)))))"

text \<open>The loop over candidates: the ones that match the invoice are reconciled and saved.\<close>

fun reconcile_each ::
  "('i, 't, 'a) recon_repos \<Rightarrow> recon_invoice \<Rightarrow> string \<Rightarrow> stellar_tx list \<Rightarrow> (('i, 't, 'a) recon_world, unit) io" where
  "reconcile_each rp invoice reason [] = io_return ()"
| "reconcile_each rp invoice reason (t # ts) =
     (if matchesInvoice t invoice
      then io_bind (reconcileTransaction rp t (Some reason)) (\<lambda>t'.
             io_bind (on_txs (to_save (rp_txs rp) t')) (\<lambda>_. reconcile_each rp invoice reason ts))
      else reconcile_each rp invoice reason ts)"

definition observed_first :: "stellar_tx \<Rightarrow> stellar_tx \<Rightarrow> int" where
  "observed_first a b = sx_observedAt a - sx_observedAt b"

section \<open>Operations\<close>

record invoice_dto =
  di_invoiceId :: string
  di_expectedAmount :: string
  di_destinationAccount :: string
  di_paymentReference :: "string option"
  di_assetCode :: "string option"
  di_metadata :: "string option"

definition new_invoice :: "timestamp \<Rightarrow> string \<Rightarrow> invoice_dto \<Rightarrow> string \<Rightarrow> recon_invoice" where
  "new_invoice now rowId dto expectedAmount =
     \<lparr>ri_id = rowId, ri_invoiceId = di_invoiceId dto, ri_expectedAmount = expectedAmount, ri_paidAmount = ''0.0000000'',
      ri_assetCode = toUpperCase (nullish (di_assetCode dto) ''XLM''), ri_destinationAccount = di_destinationAccount dto,
      ri_paymentReference = di_paymentReference dto, ri_status = Invoice_Open, ri_metadata = di_metadata dto, ri_createdAt = now\<rparr>"

definition createInvoice ::
  "('i, 't, 'a) recon_repos \<Rightarrow> timestamp \<Rightarrow> string \<Rightarrow> invoice_dto \<Rightarrow> (('i, 't, 'a) recon_world, recon_invoice) io" where
  "createInvoice rp now rowId dto =
     io_bind (on_invoices (to_findOne (rp_invoices rp) (\<lambda>i. ri_invoiceId i = di_invoiceId dto) any_order)) (\<lambda>found.
       case found of
         Some existing \<Rightarrow> io_return existing
       | None \<Rightarrow>
           (case normalizeAmount (di_expectedAmount dto) of
              Inl e \<Rightarrow> io_throw e
            | Inr expected \<Rightarrow>
                (let saved = new_invoice now rowId dto expected
                 in io_bind (on_invoices (to_save (rp_invoices rp) saved)) (\<lambda>_.
                      io_bind (on_txs (to_find (rp_txs rp) (\<lambda>t. sx_destinationAccount t = ri_destinationAccount saved \<and>
                          sx_assetCode t = ri_assetCode saved \<and> sx_status t = Tx_Unmatched) observed_first)) (\<lambda>candidates.
                        io_bind (reconcile_each rp saved ''Invoice registered after payment'' candidates) (\<lambda>_. io_return saved))))))"

record payment_dto =
  dp_transactionId :: string
  dp_ledger :: "string option"
  dp_sourceAccount :: "string option"
  dp_destinationAccount :: string
  dp_amount :: string
  dp_assetCode :: "string option"
  dp_memo :: "string option"
  dp_observedAt :: "timestamp option"
  dp_rawPayload :: "string option"

definition new_transaction :: "timestamp \<Rightarrow> string \<Rightarrow> payment_dto \<Rightarrow> string \<Rightarrow> stellar_tx" where
  "new_transaction now rowId dto amount =
     \<lparr>sx_id = rowId, sx_transactionId = dp_transactionId dto, sx_ledger = dp_ledger dto, sx_sourceAccount = dp_sourceAccount dto,
      sx_destinationAccount = dp_destinationAccount dto, sx_amount = amount, sx_assetCode = toUpperCase (nullish (dp_assetCode dto) ''XLM''),
      sx_memo = dp_memo dto, sx_paymentReference = dp_memo dto, sx_status = Tx_Unmatched, sx_failureReason = None,
      sx_observedAt = nullish (dp_observedAt dto) now, sx_rawPayload = dp_rawPayload dto, sx_createdAt = now\<rparr>"

definition ingestTransaction ::
  "('i, 't, 'a) recon_repos \<Rightarrow> timestamp \<Rightarrow> string \<Rightarrow> payment_dto \<Rightarrow> (('i, 't, 'a) recon_world, stellar_tx) io" where
  "ingestTransaction rp now rowId dto =
     io_bind (on_txs (to_findOne (rp_txs rp) (\<lambda>t. sx_transactionId t = dp_transactionId dto) any_order)) (\<lambda>found.
       case found of
         Some existing \<Rightarrow>
           io_bind (writeAudit rp \<lparr>au_invoiceId = None, au_transactionId = Some (sx_transactionId existing), au_decision = Decided_Retry,
               au_reason = ''Duplicate transaction event ignored'', au_attempt = 0\<rparr>) (\<lambda>_. io_return existing)
       | None \<Rightarrow>
           (case normalizeAmount (dp_amount dto) of
              Inl e \<Rightarrow> io_throw e
            | Inr amount \<Rightarrow>
                (let saved = new_transaction now rowId dto amount
                 in io_bind (on_txs (to_save (rp_txs rp) saved)) (\<lambda>_.
                      io_bind (io_catch (reconcileTransaction rp saved None) (\<lambda>e.
                          io_bind (writeAudit rp \<lparr>au_invoiceId = None, au_transactionId = Some (sx_transactionId saved),
                              au_decision = Decided_Failed, au_reason = error_message e, au_attempt = 1\<rparr>) (\<lambda>_.
                            io_return (saved\<lparr>sx_status := Tx_Failed, sx_failureReason := Some (error_message e)\<rparr>)))) (\<lambda>t'.
                        io_bind (on_txs (to_save (rp_txs rp) t')) (\<lambda>_. io_return t'))))))"

definition getTransaction ::
  "('i, 't, 'a) recon_repos \<Rightarrow> string \<Rightarrow> (('i, 't, 'a) recon_world, stellar_tx \<times> recon_audit list) io" where
  "getTransaction rp transactionId =
     io_bind (on_txs (to_findOne (rp_txs rp) (\<lambda>t. sx_transactionId t = transactionId) any_order)) (\<lambda>found.
       case found of
         None \<Rightarrow> io_throw (NotFound (''Stellar transaction '' @ transactionId @ '' not found''))
       | Some t \<Rightarrow> io_bind (on_audits (rp_findAudits rp (\<lambda>a. au_transactionId a = Some transactionId))) (\<lambda>audits. io_return (t, audits)))"

definition getInvoice ::
  "('i, 't, 'a) recon_repos \<Rightarrow> string \<Rightarrow> (('i, 't, 'a) recon_world, recon_invoice \<times> recon_audit list) io" where
  "getInvoice rp invoiceId =
     io_bind (on_invoices (to_findOne (rp_invoices rp) (\<lambda>i. ri_invoiceId i = invoiceId) any_order)) (\<lambda>found.
       case found of
         None \<Rightarrow> io_throw (NotFound (''Invoice '' @ invoiceId @ '' not found''))
       | Some i \<Rightarrow> io_bind (on_audits (rp_findAudits rp (\<lambda>a. au_invoiceId a = Some invoiceId))) (\<lambda>audits. io_return (i, audits)))"

definition newest_tx_first :: "stellar_tx \<Rightarrow> stellar_tx \<Rightarrow> int" where
  "newest_tx_first a b = sx_createdAt b - sx_createdAt a"

definition listUnmatched :: "('i, 't, 'a) recon_repos \<Rightarrow> int \<Rightarrow> (('i, 't, 'a) recon_world, stellar_tx list) io" where
  "listUnmatched rp limit =
     io_bind (on_txs (to_find (rp_txs rp) (\<lambda>t. sx_status t = Tx_Unmatched) newest_tx_first)) (\<lambda>ts.
       io_return (take (nat (min (max limit 1) 200)) ts))"

definition listAudits ::
  "('i, 't, 'a) recon_repos \<Rightarrow> string option \<Rightarrow> string option \<Rightarrow> (('i, 't, 'a) recon_world, recon_audit list) io" where
  "listAudits rp invoiceId transactionId =
     io_bind (on_audits (rp_findAudits rp (\<lambda>a. (truthy invoiceId \<longrightarrow> au_invoiceId a = invoiceId) \<and>
         (truthy transactionId \<longrightarrow> au_transactionId a = transactionId)))) (\<lambda>audits.
       io_return (take 200 audits))"

definition manualReconcile ::
  "('i, 't, 'a) recon_repos \<Rightarrow> string \<Rightarrow> string option \<Rightarrow> (('i, 't, 'a) recon_world, recon_invoice \<times> recon_audit list) io" where
  "manualReconcile rp invoiceId note =
     io_bind (on_invoices (to_findOne (rp_invoices rp) (\<lambda>i. ri_invoiceId i = invoiceId) any_order)) (\<lambda>found.
       case found of
         None \<Rightarrow> io_throw (NotFound (''Invoice '' @ invoiceId @ '' not found''))
       | Some invoice \<Rightarrow>
           io_bind (on_txs (to_find (rp_txs rp) (\<lambda>t. sx_destinationAccount t = ri_destinationAccount invoice \<and>
               sx_assetCode t = ri_assetCode invoice \<and> sx_status t \<in> {Tx_Unmatched, Tx_Partial}) observed_first)) (\<lambda>candidates.
             io_bind (reconcile_each rp invoice (nullish note ''Manual retry'') candidates) (\<lambda>_. getInvoice rp invoiceId)))"

section \<open>Polling\<close>

text \<open>A record of the answer of Horizon; a field is None when it is missing or has not the type the code tests for.\<close>

record horizon_record =
  hz_type :: "string option"
  hz_transaction_hash :: "string option"
  hz_paging_token :: "string option"
  hz_ledger :: "string option"
  hz_from :: "string option"
  hz_to :: "string option"
  hz_amount :: "string option"
  hz_asset_type :: "string option"
  hz_asset_code :: "string option"
  hz_memo :: "string option"
  hz_json :: string

definition payment_of :: "horizon_record \<Rightarrow> payment_dto" where
  "payment_of r =
     \<lparr>dp_transactionId = the (hz_transaction_hash r), dp_ledger = hz_ledger r, dp_sourceAccount = hz_from r,
      dp_destinationAccount = nullish (hz_to r) '''', dp_amount = nullish (hz_amount r) ''0'',
      dp_assetCode = Some (if hz_asset_type r = Some ''native'' then ''XLM'' else nullish (hz_asset_code r) ''XLM''),
      dp_memo = hz_memo r, dp_observedAt = None, dp_rawPayload = Some (hz_json r)\<rparr>"

definition advance_cursor :: "horizon_record \<Rightarrow> (('i, 't, 'a) recon_world, unit) io" where
  "advance_cursor r w =
     (Inr (), case hz_paging_token r of None \<Rightarrow> w | Some p \<Rightarrow> w\<lparr>rw_horizonCursor := Some p\<rparr>)"

fun poll_records ::
  "('i, 't, 'a) recon_repos \<Rightarrow> timestamp \<Rightarrow> (nat \<Rightarrow> string) \<Rightarrow> nat \<Rightarrow> horizon_record list \<Rightarrow> (('i, 't, 'a) recon_world, nat) io" where
  "poll_records rp now newId ingested [] = io_return ingested"
| "poll_records rp now newId ingested (r # rs) =
     (if hz_type r \<noteq> Some ''payment'' \<or> hz_transaction_hash r = None
      then io_bind (advance_cursor r) (\<lambda>_. poll_records rp now newId ingested rs)
      else io_bind (ingestTransaction rp now (newId ingested) (payment_of r)) (\<lambda>_.
        io_bind (advance_cursor r) (\<lambda>_. poll_records rp now newId (ingested + 1) rs)))"

text \<open>\<open>horizon\<close> is the answer to a request with the account and the cursor: records, or an error thrown.\<close>

definition pollHorizon ::
  "('i, 't, 'a) recon_repos \<Rightarrow> (string \<Rightarrow> string option \<Rightarrow> horizon_record list result) \<Rightarrow> string option \<Rightarrow> timestamp \<Rightarrow> (nat \<Rightarrow> string) \<Rightarrow>
    (('i, 't, 'a) recon_world, bool \<times> nat) io" where
  "pollHorizon rp horizon account now newId =
     (if \<not> truthy account then io_return (True, 0)
      else io_catch
        (\<lambda>w. case horizon (the account) (rw_horizonCursor w) of
               Inl e \<Rightarrow> (Inl e, w)
             | Inr records \<Rightarrow> io_bind (poll_records rp now newId 0 records) (\<lambda>n. io_return (False, n)) w)
        (\<lambda>e. io_bind (writeAudit rp \<lparr>au_invoiceId = None, au_transactionId = None, au_decision = Decided_Retry,
            au_reason = error_message e, au_attempt = 1\<rparr>) (\<lambda>_. io_return (False, 0))))"

section \<open>Specification\<close>

definition reliable_recon :: "('i, 't, 'a) recon_repos \<Rightarrow> bool" where
  "reliable_recon rp \<longleftrightarrow> reliable_table (rp_invoices rp) \<and> reliable_table (rp_txs rp) \<and>
     (\<forall>a d. fst (rp_insertAudit rp a d) = Inr ()) \<and> (\<forall>P d. \<exists>x. fst (rp_findAudits rp P d) = Inr x)"

definition units :: "string \<Rightarrow> nat" where
  "units s = (case toUnits s of Inr n \<Rightarrow> n | Inl _ \<Rightarrow> 0)"

text \<open>What the books hold of a payment, and the sum of a quantity over the rows of a table.\<close>

definition credited :: "stellar_tx \<Rightarrow> nat" where
  "credited t = (if sx_status t = Tx_Partial \<or> sx_status t = Tx_Matched then units (sx_amount t) else 0)"

definition row_total :: "('row \<Rightarrow> nat) \<Rightarrow> (string \<Rightarrow> 'row option) \<Rightarrow> nat" where
  "row_total f rows = (\<Sum>k\<in>dom rows. f (the (rows k)))"

definition paid :: "recon_invoice \<Rightarrow> nat" where
  "paid i = units (ri_paidAmount i)"

definition invoice_ok :: "recon_invoice \<Rightarrow> bool" where
  "invoice_ok i \<longleftrightarrow> (\<exists>p e. toUnits (ri_paidAmount i) = Inr p \<and> toUnits (ri_expectedAmount i) = Inr e \<and>
     (case ri_status i of Invoice_Open \<Rightarrow> p = 0 | Invoice_Partial \<Rightarrow> p < e | Invoice_Paid \<Rightarrow> e \<le> p | Invoice_Failed \<Rightarrow> False))"

definition books_ok :: "(string \<Rightarrow> recon_invoice option) \<Rightarrow> (string \<Rightarrow> stellar_tx option) \<Rightarrow> bool" where
  "books_ok I T \<longleftrightarrow> finite (dom I) \<and> finite (dom T) \<and> (\<forall>k i. I k = Some i \<longrightarrow> invoice_ok i) \<and>
     (\<forall>k t. T k = Some t \<longrightarrow> (\<exists>n. toUnits (sx_amount t) = Inr n)) \<and> row_total paid I = row_total credited T"

definition books_at ::
  "('i \<Rightarrow> string \<Rightarrow> recon_invoice option) \<Rightarrow> ('t \<Rightarrow> string \<Rightarrow> stellar_tx option) \<Rightarrow> ('i, 't, 'a) recon_world \<Rightarrow> bool" where
  "books_at irows trows w \<longleftrightarrow> books_ok (irows (rw_invoices w)) (trows (rw_txs w))"

locale recon_tables =
  i: sql_table "rp_invoices rp" ri_id irows +
  t: sql_table "rp_txs rp" sx_id trows
  for rp :: "('i, 't, 'a) recon_repos" and irows and trows

text \<open>The calls of the service in any order, new rows with new ids.\<close>

inductive recon_step ::
  "('i, 't, 'a) recon_repos \<Rightarrow> ('i \<Rightarrow> string \<Rightarrow> recon_invoice option) \<Rightarrow> ('t \<Rightarrow> string \<Rightarrow> stellar_tx option) \<Rightarrow>
    ('i, 't, 'a) recon_world \<Rightarrow> ('i, 't, 'a) recon_world \<Rightarrow> bool"
  for rp irows trows where
  create: "irows (rw_invoices w) rowId = None \<Longrightarrow> recon_step rp irows trows w (snd (createInvoice rp now rowId dto w))"
| ingest: "trows (rw_txs w) rowId = None \<Longrightarrow> recon_step rp irows trows w (snd (ingestTransaction rp now rowId dto' w))"
| poll: "inj newId \<Longrightarrow> \<forall>n. trows (rw_txs w) (newId n) = None \<Longrightarrow> recon_step rp irows trows w (snd (pollHorizon rp horizon account now newId w))"
| read_tx: "recon_step rp irows trows w (snd (getTransaction rp transactionId w))"
| read_invoice: "recon_step rp irows trows w (snd (getInvoice rp invoiceId w))"
| unmatched: "recon_step rp irows trows w (snd (listUnmatched rp limit w))"
| audits: "recon_step rp irows trows w (snd (listAudits rp invoiceId' transactionId' w))"

section \<open>Tables in memory\<close>

type_synonym mem_recon_world = "(recon_invoice mem_table, stellar_tx mem_table, recon_audit list) recon_world"

definition calm_recon :: "(recon_invoice mem_table, stellar_tx mem_table, recon_audit list) recon_repos" where
  "calm_recon = \<lparr>rp_invoices = calm_table_ops ri_id, rp_txs = calm_table_ops sx_id,
     rp_insertAudit = (\<lambda>a d. (Inr (), d @ [a])), rp_findAudits = (\<lambda>P d. (Inr (filter P d), d))\<rparr>"

definition empty_books :: mem_recon_world where
  "empty_books = \<lparr>rw_invoices = \<lparr>mt_rows = [], mt_faults = []\<rparr>, rw_txs = \<lparr>mt_rows = [], mt_faults = []\<rparr>, rw_audits = [], rw_horizonCursor = None\<rparr>"

definition sample_invoice :: "string \<Rightarrow> string \<Rightarrow> invoice_dto" where
  "sample_invoice i r = \<lparr>di_invoiceId = i, di_expectedAmount = ''10.5'', di_destinationAccount = ''GDEST'', di_paymentReference = Some r,
     di_assetCode = None, di_metadata = None\<rparr>"

definition sample_payment :: "string \<Rightarrow> string \<Rightarrow> string \<Rightarrow> payment_dto" where
  "sample_payment t amount r = \<lparr>dp_transactionId = t, dp_ledger = None, dp_sourceAccount = None, dp_destinationAccount = ''GDEST'',
     dp_amount = amount, dp_assetCode = None, dp_memo = Some r, dp_observedAt = None, dp_rawPayload = None\<rparr>"

definition sample_books :: mem_recon_world where
  "sample_books = snd (ingestTransaction calm_recon 20 ''t1'' (sample_payment ''p1'' ''4'' ''r1'')
     (snd (createInvoice calm_recon 10 ''i1'' (sample_invoice ''INV-1'' ''r1'') empty_books)))"

definition second_event_books :: mem_recon_world where
  "second_event_books = snd (ingestTransaction calm_recon 30 ''t2'' (sample_payment ''p1'' ''6.5'' ''r1'') sample_books)"

definition two_invoices :: mem_recon_world where
  "two_invoices = snd (createInvoice calm_recon 12 ''i2'' (sample_invoice ''INV-2'' ''r2'') (snd (createInvoice calm_recon 10 ''i1'' (sample_invoice ''INV-1'' ''r1'') empty_books)))"

definition twice_credited_books :: mem_recon_world where
  "twice_credited_books = snd (manualReconcile calm_recon ''INV-1'' None sample_books)"

section \<open>Facts about amounts\<close>

lemma trim_no_space: "list_all (\<lambda>c. \<not> is_js_space c) s \<Longrightarrow> trim s = s"
proof -
  have "list_all (\<lambda>c. \<not> is_js_space c) u \<Longrightarrow> dropWhile is_js_space u = u" for u by (cases u) auto
  then show "list_all (\<lambda>c. \<not> is_js_space c) s \<Longrightarrow> trim s = s" by (simp add: trim_def)
qed

lemma toUnits_decimal:
  assumes "list_all is_digit w" "w \<noteq> []" "list_all is_digit f" "f \<noteq> []"
  shows "toUnits (w @ ''.'' @ f) = Inr (parse_decimal w * 10 ^ 7 + parse_decimal (take 7 (padEnd 7 (CHR ''0'') f)))"
proof -
  have "list_all (\<lambda>c. \<not> is_js_space c) (w @ ''.'' @ f)"
    using assms(1,3) by (auto simp: list_all_iff digit_no_space) (simp add: is_js_space_def)
  moreover have "is_amount (w @ CHR ''.'' # f)"
    using takeWhile_digits [OF assms(1), of "CHR ''.''" f] assms by (simp add: is_amount_def)
  moreover have "split_char (CHR ''.'') (w @ CHR ''.'' # f) = [w, f]"
  proof -
    have "CHR ''.'' \<notin> set w" "CHR ''.'' \<notin> set f" using assms(1,3) by (auto simp: list_all_iff)
    then show ?thesis by (simp add: split_append_sep split_no_sep)
  qed
  ultimately show ?thesis by (simp add: toUnits_def trim_no_space SCALE_def SCALE_FACTOR_def)
qed

lemma toUnits_fromUnits [simp]: "toUnits (fromUnits n) = Inr n"
proof -
  let ?f = "padStart SCALE (CHR ''0'') (decimal (n mod SCALE_FACTOR))"
  have "n mod SCALE_FACTOR < 10 ^ 7" by (simp add: SCALE_FACTOR_def SCALE_def)
  from padStart_decimal [OF this] have f: "length ?f = 7" "parse_decimal ?f = n mod SCALE_FACTOR" "list_all is_digit ?f"
    by (simp_all add: SCALE_def)
  moreover have "take 7 (padEnd 7 (CHR ''0'') ?f) = ?f" using f(1) by (simp add: padEnd_def)
  moreover have "?f \<noteq> []" using f(1) by auto
  ultimately have "toUnits (fromUnits n) = Inr (n div SCALE_FACTOR * 10 ^ 7 + n mod SCALE_FACTOR)"
    unfolding fromUnits_def using toUnits_decimal [of "decimal (n div SCALE_FACTOR)" ?f] decimal_digits by simp
  then show ?thesis using div_mult_mod_eq [of n SCALE_FACTOR] by (simp add: SCALE_FACTOR_def SCALE_def)
qed

lemma toUnits_zero: "toUnits ''0.0000000'' = Inr 0"
  using toUnits_decimal [of "''0''" "''0000000''"] by (simp add: padEnd_def parse_decimal_Cons)

lemma seven_digits:
  assumes "list_all is_digit f"
  shows "parse_decimal (take 7 (padEnd 7 (CHR ''0'') f)) = parse_decimal f * 10 ^ 7 div 10 ^ length f"
proof (cases "length f \<le> 7")
  case True
  then have "take 7 (padEnd 7 (CHR ''0'') f) = f @ replicate (7 - length f) (CHR ''0'')" by (simp add: padEnd_def)
  moreover have "(10::nat) ^ 7 = 10 ^ (7 - length f) * 10 ^ length f" using True by (simp flip: power_add)
  then have e: "parse_decimal f * 10 ^ 7 = (parse_decimal f * 10 ^ (7 - length f)) * 10 ^ length f" by (simp only: mult.assoc)
  have "parse_decimal f * 10 ^ 7 div 10 ^ length f = parse_decimal f * 10 ^ (7 - length f)" unfolding e by simp
  ultimately show ?thesis by (simp add: parse_decimal_append)
next
  case False
  define g h where "g = take 7 f" and "h = drop 7 f"
  have f: "f = g @ h" and g: "length g = 7" using False by (simp_all add: g_def h_def)
  have "list_all is_digit h" using assms unfolding f by simp
  then have h: "parse_decimal h < 10 ^ length h" by (rule parse_decimal_less)
  have l: "(10::nat) ^ length f = 10 ^ length h * 10 ^ 7" unfolding f using g by (simp add: power_add)
  have "parse_decimal f * 10 ^ 7 div 10 ^ length f = parse_decimal f div 10 ^ length h"
    unfolding l by (rule div_mult_mult2) simp
  also have "\<dots> = (parse_decimal h + 10 ^ length h * parse_decimal g) div 10 ^ length h" by (simp only: f parse_decimal_append)
  also have "\<dots> = parse_decimal g" using h by simp
  finally show ?thesis using g False by (simp add: f padEnd_def)
qed

section \<open>Facts about the books\<close>

lemma row_total_new: "finite (dom rows) \<Longrightarrow> rows k = None \<Longrightarrow> row_total f (rows(k \<mapsto> r)) = row_total f rows + f r"
proof -
  assume fin: "finite (dom rows)" and k: "rows k = None"
  have "row_total f (rows(k \<mapsto> r)) = f r + (\<Sum>j\<in>dom rows. f (the ((rows(k \<mapsto> r)) j)))"
    unfolding row_total_def using fin k by (subst dom_fun_upd) (auto simp: domIff intro!: sum.insert)
  also have "(\<Sum>j\<in>dom rows. f (the ((rows(k \<mapsto> r)) j))) = row_total f rows"
    unfolding row_total_def using k by (intro sum.cong) auto
  finally show ?thesis by (rule trans) (rule add.commute)
qed

lemma row_total_put:
  assumes fin: "finite (dom rows)" and k: "rows k = Some r0"
  shows "row_total f (rows(k \<mapsto> r)) + f r0 = row_total f rows + f r"
proof -
  let ?rest = "rows(k := None)"
  have "row_total f (?rest(k \<mapsto> r')) = row_total f ?rest + f r'" for r'
    by (rule row_total_new) (use fin in auto)
  from this [of r] this [of r0] have "row_total f (rows(k \<mapsto> r)) = row_total f ?rest + f r" "row_total f rows = row_total f ?rest + f r0"
    using k by (simp_all add: fun_upd_idem)
  then show ?thesis by simp
qed

lemma units_fromUnits [simp]: "units (fromUnits n) = n"
  by (simp add: units_def)

lemma credit_ok: "toUnits (ri_expectedAmount i) = Inr e \<Longrightarrow> invoice_ok (credit_invoice i p e)"
  by (simp add: invoice_ok_def credit_invoice_def)

lemma paid_credit [simp]: "paid (credit_invoice i p e) = p"
  by (simp add: paid_def credit_invoice_def)

lemma on_parts_eq:
  "on_invoices m w = (fst (m (rw_invoices w)), w\<lparr>rw_invoices := snd (m (rw_invoices w))\<rparr>)"
  "on_txs n w = (fst (n (rw_txs w)), w\<lparr>rw_txs := snd (n (rw_txs w))\<rparr>)"
  "on_audits a w = (fst (a (rw_audits w)), w\<lparr>rw_audits := snd (a (rw_audits w))\<rparr>)"
  by (simp_all add: on_invoices_def on_txs_def on_audits_def on_part_eq)

context recon_tables
begin

lemma reconcile_hit:
  assumes rel: "reliable_recon rp" and found: "fst (to_findOne (rp_invoices rp) (\<lambda>i. ri_destinationAccount i = sx_destinationAccount t)
      created_first (rw_invoices w)) = Inr (Some i)" and match: "matchesInvoice t i"
    and units: "toUnits (ri_paidAmount i) = Inr p" "toUnits (sx_amount t) = Inr n" "toUnits (ri_expectedAmount i) = Inr e"
  shows "fst (reconcileTransaction rp t reason w) = Inr (t\<lparr>sx_status := (if p + n \<ge> e then Tx_Matched else Tx_Partial)\<rparr>)"
    "irows (rw_invoices (snd (reconcileTransaction rp t reason w))) = (irows (rw_invoices w))(ri_id i \<mapsto> credit_invoice i (p + n) e)"
    "rw_txs (snd (reconcileTransaction rp t reason w)) = rw_txs w"
proof -
  let ?d = "snd (to_findOne (rp_invoices rp) (\<lambda>i. ri_destinationAccount i = sx_destinationAccount t) created_first (rw_invoices w))"
  let ?i = "credit_invoice i (p + n) e"
  have save: "fst (to_save (rp_invoices rp) ?i d) = Inr ()" for d using rel reliable_writes(1) by (auto simp: reliable_recon_def)
  have audit: "fst (rp_insertAudit rp a b) = Inr ()" for a b using rel by (simp add: reliable_recon_def)
  show "fst (reconcileTransaction rp t reason w) = Inr (t\<lparr>sx_status := (if p + n \<ge> e then Tx_Matched else Tx_Partial)\<rparr>)"
    "rw_txs (snd (reconcileTransaction rp t reason w)) = rw_txs w"
    using match units by (simp_all add: reconcileTransaction_def io_bind_run on_parts_eq found writeAudit_def audit io_return_def save Let_def)
  have "rw_invoices (snd (reconcileTransaction rp t reason w)) = snd (to_save (rp_invoices rp) ?i ?d)"
    using match units by (simp add: reconcileTransaction_def io_bind_run on_parts_eq found writeAudit_def audit io_return_def save Let_def)
  then show "irows (rw_invoices (snd (reconcileTransaction rp t reason w))) = (irows (rw_invoices w))(ri_id i \<mapsto> ?i)"
    using i.save_ok [OF save, of ?d] i.findOne_rows [of "\<lambda>i. ri_destinationAccount i = sx_destinationAccount t" created_first "rw_invoices w"]
    by (simp add: credit_invoice_def)
qed

text \<open>What one reconciliation does to the books: nothing, or it credits one invoice.\<close>

lemma reconcile_run:
  assumes rel: "reliable_recon rp" and inv: "\<forall>k i. irows (rw_invoices w) k = Some i \<longrightarrow> invoice_ok i"
    and amount: "toUnits (sx_amount t) = Inr n" and fin: "finite (dom (irows (rw_invoices w)))"
  obtains s where "fst (reconcileTransaction rp t reason w) = Inr (t\<lparr>sx_status := s\<rparr>)" "s \<noteq> Tx_Failed"
    "trows (rw_txs (snd (reconcileTransaction rp t reason w))) = trows (rw_txs w)"
    "\<forall>k i. irows (rw_invoices (snd (reconcileTransaction rp t reason w))) k = Some i \<longrightarrow> invoice_ok i"
    "dom (irows (rw_invoices (snd (reconcileTransaction rp t reason w)))) = dom (irows (rw_invoices w))"
    "row_total paid (irows (rw_invoices (snd (reconcileTransaction rp t reason w)))) =
      row_total paid (irows (rw_invoices w)) + credited (t\<lparr>sx_status := s\<rparr>)"
proof -
  let ?P = "\<lambda>i. ri_destinationAccount i = sx_destinationAccount t"
  let ?d = "snd (to_findOne (rp_invoices rp) ?P created_first (rw_invoices w))"
  have d: "irows ?d = irows (rw_invoices w)" by (rule i.findOne_rows)
  obtain y where y: "fst (to_findOne (rp_invoices rp) ?P created_first (rw_invoices w)) = Inr y"
    using rel reliable_queries unfolding reliable_recon_def by metis
  have audit: "fst (rp_insertAudit rp a b) = Inr ()" for a b using rel by (simp add: reliable_recon_def)
  show thesis
  proof (cases "case y of None \<Rightarrow> True | Some i \<Rightarrow> \<not> matchesInvoice t i")
    case True
    then have "fst (reconcileTransaction rp t reason w) = Inr (t\<lparr>sx_status := Tx_Unmatched\<rparr>)"
      "rw_invoices (snd (reconcileTransaction rp t reason w)) = ?d" "rw_txs (snd (reconcileTransaction rp t reason w)) = rw_txs w"
      by (simp_all add: reconcileTransaction_def io_bind_run on_parts_eq y writeAudit_def audit io_return_def)
    then show ?thesis using d inv by (intro that [of Tx_Unmatched]) (simp_all add: credited_def)
  next
    case False
    then obtain i where i: "y = Some i" "matchesInvoice t i" by (auto split: option.splits)
    have row: "irows (rw_invoices w) (ri_id i) = Some i" using i.findOne_some [of ?P created_first "rw_invoices w" i] y i(1) by simp
    with inv have "invoice_ok i" by blast
    then obtain p e where pe: "toUnits (ri_paidAmount i) = Inr p" "toUnits (ri_expectedAmount i) = Inr e" unfolding invoice_ok_def by blast
    let ?i = "credit_invoice i (p + n) e" and ?s = "if p + n \<ge> e then Tx_Matched else Tx_Partial"
    note run = reconcile_hit [OF rel y [unfolded i(1)] i(2) pe(1) amount pe(2)]
    have "row_total paid ((irows (rw_invoices w))(ri_id i \<mapsto> ?i)) + paid i = row_total paid (irows (rw_invoices w)) + paid ?i"
      by (rule row_total_put [OF fin row])
    moreover have "paid i = p" using pe by (simp add: paid_def units_def)
    moreover have "credited (t\<lparr>sx_status := ?s\<rparr>) = n" using amount by (simp add: credited_def units_def)
    ultimately have total: "row_total paid ((irows (rw_invoices w))(ri_id i \<mapsto> ?i)) = row_total paid (irows (rw_invoices w)) + credited (t\<lparr>sx_status := ?s\<rparr>)"
      by simp
    show ?thesis
    proof (rule that [OF run(1)])
      show "?s \<noteq> Tx_Failed" by simp
      show "trows (rw_txs (snd (reconcileTransaction rp t reason w))) = trows (rw_txs w)" by (simp add: run)
      show "\<forall>k j. irows (rw_invoices (snd (reconcileTransaction rp t reason w))) k = Some j \<longrightarrow> invoice_ok j"
        using inv credit_ok [OF pe(2)] by (simp add: run)
      show "dom (irows (rw_invoices (snd (reconcileTransaction rp t reason w)))) = dom (irows (rw_invoices w))"
        using row by (auto simp: run)
      show "row_total paid (irows (rw_invoices (snd (reconcileTransaction rp t reason w)))) =
          row_total paid (irows (rw_invoices w)) + credited (t\<lparr>sx_status := ?s\<rparr>)" unfolding run by (rule total)
    qed
  qed
qed

lemma reconcile_save:
  assumes rel: "reliable_recon rp" and inv: "\<forall>k i. irows (rw_invoices w) k = Some i \<longrightarrow> invoice_ok i"
    and amount: "toUnits (sx_amount t) = Inr n" and fin: "finite (dom (irows (rw_invoices w)))"
  obtains s w1 w2 where "reconcileTransaction rp t reason w = (Inr (t\<lparr>sx_status := s\<rparr>), w1)" "s \<noteq> Tx_Failed"
    "on_txs (to_save (rp_txs rp) (t\<lparr>sx_status := s\<rparr>)) w1 = (Inr (), w2)"
    "trows (rw_txs w2) = (trows (rw_txs w))(sx_id t \<mapsto> t\<lparr>sx_status := s\<rparr>)"
    "\<forall>k i. irows (rw_invoices w2) k = Some i \<longrightarrow> invoice_ok i" "dom (irows (rw_invoices w2)) = dom (irows (rw_invoices w))"
    "row_total paid (irows (rw_invoices w2)) = row_total paid (irows (rw_invoices w)) + credited (t\<lparr>sx_status := s\<rparr>)"
proof -
  let ?w1 = "snd (reconcileTransaction rp t reason w)"
  obtain s where s: "fst (reconcileTransaction rp t reason w) = Inr (t\<lparr>sx_status := s\<rparr>)" "s \<noteq> Tx_Failed" "trows (rw_txs ?w1) = trows (rw_txs w)"
    "\<forall>k i. irows (rw_invoices ?w1) k = Some i \<longrightarrow> invoice_ok i" "dom (irows (rw_invoices ?w1)) = dom (irows (rw_invoices w))"
    "row_total paid (irows (rw_invoices ?w1)) = row_total paid (irows (rw_invoices w)) + credited (t\<lparr>sx_status := s\<rparr>)"
    by (rule reconcile_run [OF rel inv amount fin])
  let ?save = "to_save (rp_txs rp) (t\<lparr>sx_status := s\<rparr>) (rw_txs ?w1)"
  have save: "fst ?save = Inr ()" using rel reliable_writes(1) by (auto simp: reliable_recon_def)
  show thesis
  proof (rule that)
    show "reconcileTransaction rp t reason w = (Inr (t\<lparr>sx_status := s\<rparr>), ?w1)" using s(1) by (metis prod.collapse)
    show "on_txs (to_save (rp_txs rp) (t\<lparr>sx_status := s\<rparr>)) ?w1 = (Inr (), ?w1\<lparr>rw_txs := snd ?save\<rparr>)" by (simp add: on_parts_eq save)
    show "trows (rw_txs (?w1\<lparr>rw_txs := snd ?save\<rparr>)) = (trows (rw_txs w))(sx_id t \<mapsto> t\<lparr>sx_status := s\<rparr>)"
      using t.save_ok [OF save] s(3) by simp
  qed (use s in simp_all)
qed

abbreviation books where "books \<equiv> books_at irows trows"

lemmas books_def = books_at_def

lemma each_books:
  assumes rel: "reliable_recon rp"
  shows "books w \<Longrightarrow> distinct (map sx_id ts) \<Longrightarrow> \<forall>t \<in> set ts. trows (rw_txs w) (sx_id t) = Some t \<and> credited t = 0 \<Longrightarrow>
    fst (reconcile_each rp i reason ts w) = Inr () \<and> books (snd (reconcile_each rp i reason ts w)) \<and>
    dom (trows (rw_txs (snd (reconcile_each rp i reason ts w)))) = dom (trows (rw_txs w))"
proof (induction ts arbitrary: w)
  case Nil
  then show ?case by (simp add: io_return_def)
next
  case (Cons t ts)
  have ok: "\<forall>k i. irows (rw_invoices w) k = Some i \<longrightarrow> invoice_ok i" "finite (dom (irows (rw_invoices w)))" "finite (dom (trows (rw_txs w)))"
    "row_total paid (irows (rw_invoices w)) = row_total credited (trows (rw_txs w))"
    "\<forall>k t. trows (rw_txs w) k = Some t \<longrightarrow> (\<exists>n. toUnits (sx_amount t) = Inr n)"
    using Cons.prems(1) by (simp_all add: books_def books_ok_def)
  have row: "trows (rw_txs w) (sx_id t) = Some t" "credited t = 0" using Cons.prems(3) by simp_all
  then obtain n where n: "toUnits (sx_amount t) = Inr n" using ok(5) by blast
  show ?case
  proof (cases "matchesInvoice t i")
    case True
    obtain s w1 w2 where s: "reconcileTransaction rp t (Some reason) w = (Inr (t\<lparr>sx_status := s\<rparr>), w1)"
      "on_txs (to_save (rp_txs rp) (t\<lparr>sx_status := s\<rparr>)) w1 = (Inr (), w2)"
      "trows (rw_txs w2) = (trows (rw_txs w))(sx_id t \<mapsto> t\<lparr>sx_status := s\<rparr>)"
      "\<forall>k i. irows (rw_invoices w2) k = Some i \<longrightarrow> invoice_ok i" "dom (irows (rw_invoices w2)) = dom (irows (rw_invoices w))"
      "row_total paid (irows (rw_invoices w2)) = row_total paid (irows (rw_invoices w)) + credited (t\<lparr>sx_status := s\<rparr>)"
      by (rule reconcile_save [OF rel ok(1) n ok(2)])
    have "row_total credited (trows (rw_txs w2)) + credited t = row_total credited (trows (rw_txs w)) + credited (t\<lparr>sx_status := s\<rparr>)"
      unfolding s(3) by (rule row_total_put [OF ok(3) row(1)])
    then have "books w2" using s(3-6) ok n row(2) by (simp add: books_def books_ok_def)
    moreover have "\<forall>u \<in> set ts. trows (rw_txs w2) (sx_id u) = Some u \<and> credited u = 0"
      using Cons.prems(2,3) s(3) by (auto simp: image_iff)
    moreover have "dom (trows (rw_txs w2)) = dom (trows (rw_txs w))" using row(1) s(3) by auto
    ultimately show ?thesis using Cons.IH [of w2] Cons.prems(2) True s(1,2) by (simp add: io_bind_run)
  next
    case False
    then show ?thesis using Cons by simp
  qed
qed

lemma createInvoice_books:
  assumes rel: "reliable_recon rp" and ok: "books w" and fresh: "irows (rw_invoices w) rowId = None"
  shows "books (snd (createInvoice rp now rowId dto w))"
proof -
  let ?P = "\<lambda>i. ri_invoiceId i = di_invoiceId dto"
  let ?d = "snd (to_findOne (rp_invoices rp) ?P any_order (rw_invoices w))"
  have d: "irows ?d = irows (rw_invoices w)" by (rule i.findOne_rows)
  obtain y where y: "fst (to_findOne (rp_invoices rp) ?P any_order (rw_invoices w)) = Inr y"
    using rel reliable_queries unfolding reliable_recon_def by metis
  show ?thesis
  proof (cases "y = None \<and> (\<exists>e. toUnits (di_expectedAmount dto) = Inr e)")
    case False
    then have "rw_invoices (snd (createInvoice rp now rowId dto w)) = ?d" "rw_txs (snd (createInvoice rp now rowId dto w)) = rw_txs w"
      by (auto simp: createInvoice_def io_bind_run on_parts_eq y normalizeAmount_def io_throw_def io_return_def split: option.splits sum.splits)
    then show ?thesis using ok d by (simp add: books_def)
  next
    case True
    then obtain e where e: "toUnits (di_expectedAmount dto) = Inr e" by blast
    let ?i = "new_invoice now rowId dto (fromUnits e)"
    let ?Q = "\<lambda>t. sx_destinationAccount t = ri_destinationAccount ?i \<and> sx_assetCode t = ri_assetCode ?i \<and> sx_status t = Tx_Unmatched"
    let ?w1 = "w\<lparr>rw_invoices := snd (to_save (rp_invoices rp) ?i ?d), rw_txs := snd (to_find (rp_txs rp) ?Q observed_first (rw_txs w))\<rparr>"
    have save: "fst (to_save (rp_invoices rp) ?i d) = Inr ()" for d using rel reliable_writes(1) by (auto simp: reliable_recon_def)
    have "reliable_table (rp_txs rp)" using rel by (simp add: reliable_recon_def)
    then obtain ts where ts: "fst (to_find (rp_txs rp) ?Q observed_first (rw_txs w)) = Inr ts" by (rule reliable_lists)
    have run: "snd (createInvoice rp now rowId dto w) = snd (io_bind (reconcile_each rp ?i ''Invoice registered after payment'' ts) (\<lambda>_. io_return ?i) ?w1)"
      using True by (simp add: createInvoice_def io_bind_run [of "on_invoices m" for m] io_bind_run [of "on_txs m" for m] on_parts_eq y e
          normalizeAmount_def save ts Let_def)
    have i: "paid ?i = 0" "invoice_ok ?i" "ri_id ?i = rowId"
    proof -
      have "toUnits (ri_paidAmount ?i) = Inr 0" "toUnits (ri_expectedAmount ?i) = Inr e" "ri_status ?i = Invoice_Open"
        by (simp_all add: new_invoice_def toUnits_zero)
      then show "paid ?i = 0" "invoice_ok ?i" "ri_id ?i = rowId" by (simp_all add: paid_def units_def invoice_ok_def new_invoice_def [of _ rowId])
    qed
    have rows: "irows (rw_invoices ?w1) = (irows (rw_invoices w))(rowId \<mapsto> ?i)" "trows (rw_txs ?w1) = trows (rw_txs w)"
      using i.save_ok [OF save, of ?d] d i(3) t.find_rows by simp_all
    have "row_total paid ((irows (rw_invoices w))(rowId \<mapsto> ?i)) = row_total paid (irows (rw_invoices w)) + paid ?i"
      by (rule row_total_new) (use ok fresh in \<open>simp_all add: books_def books_ok_def\<close>)
    then have "books ?w1" using ok rows i by (auto simp: books_def books_ok_def)
    moreover have "distinct (map sx_id ts)" by (rule t.find_distinct [OF ts])
    moreover have "trows (rw_txs ?w1) (sx_id t) = Some t \<and> credited t = 0" if "t \<in> set ts" for t
    proof -
      have "sx_status t = Tx_Unmatched" "\<exists>k. trows (rw_txs w) k = Some t" using that unfolding t.find_set [OF ts] by simp_all
      then show ?thesis using t.row_key unfolding rows(2) credited_def by auto
    qed
    ultimately have "fst (reconcile_each rp ?i ''Invoice registered after payment'' ts ?w1) = Inr () \<and>
        books (snd (reconcile_each rp ?i ''Invoice registered after payment'' ts ?w1))"
      using each_books [OF rel] by blast
    then show ?thesis unfolding run by (simp add: io_bind_run io_return_def)
  qed
qed

lemma ingestTransaction_books:
  assumes rel: "reliable_recon rp" and ok: "books w" and fresh: "trows (rw_txs w) rowId = None"
  shows "books (snd (ingestTransaction rp now rowId dto w))"
    and "dom (trows (rw_txs (snd (ingestTransaction rp now rowId dto w)))) \<subseteq> insert rowId (dom (trows (rw_txs w)))"
proof -
  let ?P = "\<lambda>t. sx_transactionId t = dp_transactionId dto"
  let ?d = "snd (to_findOne (rp_txs rp) ?P any_order (rw_txs w))"
  have d: "trows ?d = trows (rw_txs w)" by (rule t.findOne_rows)
  have "reliable_table (rp_txs rp)" using rel by (simp add: reliable_recon_def)
  then obtain y where y: "fst (to_findOne (rp_txs rp) ?P any_order (rw_txs w)) = Inr y" by (rule reliable_queries)
  have "books (snd (ingestTransaction rp now rowId dto w)) \<and>
    dom (trows (rw_txs (snd (ingestTransaction rp now rowId dto w)))) \<subseteq> insert rowId (dom (trows (rw_txs w)))"
  proof (cases "y = None \<and> (\<exists>e. toUnits (dp_amount dto) = Inr e)")
    case False
    then have "rw_txs (snd (ingestTransaction rp now rowId dto w)) = ?d" "rw_invoices (snd (ingestTransaction rp now rowId dto w)) = rw_invoices w"
      by (auto simp: ingestTransaction_def io_bind_run on_parts_eq y normalizeAmount_def io_throw_def io_return_def writeAudit_def
          split: option.splits sum.splits)
    then show ?thesis using ok d by (auto simp: books_def)
  next
    case True
    then obtain n where n: "toUnits (dp_amount dto) = Inr n" by blast
    let ?t = "new_transaction now rowId dto (fromUnits n)"
    let ?w1 = "w\<lparr>rw_txs := snd (to_save (rp_txs rp) ?t ?d)\<rparr>"
    have save: "fst (to_save (rp_txs rp) x e) = Inr ()" for x e using rel reliable_writes(1) by (auto simp: reliable_recon_def)
    have t: "sx_id ?t = rowId" "sx_amount ?t = fromUnits n" "credited ?t = 0" by (simp_all add: new_transaction_def credited_def)
    have rows: "trows (rw_txs ?w1) = (trows (rw_txs w))(rowId \<mapsto> ?t)" using t.save_ok [OF save, of ?t ?d] d t(1) by simp
    have fin: "finite (dom (trows (rw_txs w)))" using ok by (simp add: books_def books_ok_def)
    have inv: "\<forall>k i. irows (rw_invoices ?w1) k = Some i \<longrightarrow> invoice_ok i" "finite (dom (irows (rw_invoices ?w1)))"
      using ok by (simp_all add: books_def books_ok_def)
    have amount: "toUnits (sx_amount ?t) = Inr n" by (simp add: t)
    obtain s w2 w3 where s: "reconcileTransaction rp ?t None ?w1 = (Inr (?t\<lparr>sx_status := s\<rparr>), w2)"
      "on_txs (to_save (rp_txs rp) (?t\<lparr>sx_status := s\<rparr>)) w2 = (Inr (), w3)"
      "trows (rw_txs w3) = (trows (rw_txs ?w1))(sx_id ?t \<mapsto> ?t\<lparr>sx_status := s\<rparr>)"
      "\<forall>k i. irows (rw_invoices w3) k = Some i \<longrightarrow> invoice_ok i" "dom (irows (rw_invoices w3)) = dom (irows (rw_invoices ?w1))"
      "row_total paid (irows (rw_invoices w3)) = row_total paid (irows (rw_invoices ?w1)) + credited (?t\<lparr>sx_status := s\<rparr>)"
      by (rule reconcile_save [OF rel inv(1) amount inv(2)])
    have run: "snd (ingestTransaction rp now rowId dto w) = w3"
      using True by (simp add: ingestTransaction_def io_bind_run io_catch_def on_parts_eq(2) [of "to_findOne _ _ _"] y n normalizeAmount_def Let_def
          on_parts_eq(2) [of "to_save _ ?t"] save s(1,2) io_return_def)
    have rows3: "trows (rw_txs w3) = (trows (rw_txs w))(rowId \<mapsto> ?t\<lparr>sx_status := s\<rparr>)" unfolding s(3) rows t(1) by simp
    have "row_total credited (trows (rw_txs w3)) = row_total credited (trows (rw_txs w)) + credited (?t\<lparr>sx_status := s\<rparr>)"
      unfolding rows3 by (rule row_total_new [OF fin]) (rule fresh)
    then have "books w3" using s(4-6) ok fin rows3 t by (simp add: books_def books_ok_def)
    moreover have "dom (trows (rw_txs w3)) \<subseteq> insert rowId (dom (trows (rw_txs w)))" by (auto simp: rows3)
    ultimately show ?thesis by (simp add: run)
  qed
  then show "books (snd (ingestTransaction rp now rowId dto w))"
    "dom (trows (rw_txs (snd (ingestTransaction rp now rowId dto w)))) \<subseteq> insert rowId (dom (trows (rw_txs w)))" by simp_all
qed

lemma books_cursor [simp]: "books (w\<lparr>rw_horizonCursor := c\<rparr>) = books w"
  by (simp add: books_def)

lemma poll_books:
  assumes rel: "reliable_recon rp" and inj: "inj newId"
  shows "books w \<Longrightarrow> \<forall>m\<ge>n. trows (rw_txs w) (newId m) = None \<Longrightarrow> books (snd (poll_records rp now newId n rs w))"
proof (induction rs arbitrary: n w)
  case (Cons r rs)
  have step: "books (snd (advance_cursor r w)) = books w" "rw_txs (snd (advance_cursor r w)) = rw_txs w" "fst (advance_cursor r w) = Inr ()" for w
    by (simp_all add: advance_cursor_def split: option.splits)
  show ?case
  proof (cases "hz_type r \<noteq> Some ''payment'' \<or> hz_transaction_hash r = None")
    case True
    then show ?thesis using Cons.IH [of "snd (advance_cursor r w)" n] Cons.prems by (simp add: io_bind_run step)
  next
    case False
    let ?w = "snd (ingestTransaction rp now (newId n) (payment_of r) w)"
    have ok: "books ?w" "dom (trows (rw_txs ?w)) \<subseteq> insert (newId n) (dom (trows (rw_txs w)))"
      using ingestTransaction_books [OF rel Cons.prems(1), of "newId n"] Cons.prems(2) by simp_all
    have "trows (rw_txs ?w) (newId m) = None" if "Suc n \<le> m" for m
    proof -
      have "newId m \<noteq> newId n" using inj that by (auto dest: injD)
      moreover have "newId m \<notin> dom (trows (rw_txs w))" using Cons.prems(2) that by (auto simp: domIff)
      ultimately show ?thesis using ok(2) by (auto simp: domIff)
    qed
    then show ?thesis using Cons.IH [of "snd (advance_cursor r ?w)" "Suc n"] ok(1) False by (auto simp: io_bind_run step split: sum.splits)
  qed
qed (simp add: io_return_def)

lemma pollHorizon_books:
  assumes rel: "reliable_recon rp" and inj: "inj newId" and ok: "books w" and fresh: "\<forall>n. trows (rw_txs w) (newId n) = None"
  shows "books (snd (pollHorizon rp horizon account now newId w))"
proof -
  have audits: "books (w\<lparr>rw_audits := a\<rparr>) = books w" for w a by (simp add: books_def)
  have "books (snd (poll_records rp now newId 0 rs w))" for rs by (rule poll_books [OF rel inj ok]) (use fresh in simp)
  then show ?thesis using ok
    by (auto simp: pollHorizon_def io_catch_def io_bind_run io_return_def writeAudit_def on_parts_eq audits split: sum.splits prod.splits)
qed

lemma recon_step_books: "recon_step rp irows trows w w' \<Longrightarrow> reliable_recon rp \<Longrightarrow> books w \<Longrightarrow> books w'"
proof (induction rule: recon_step.induct)
  case (create w rowId now dto)
  then show ?case using createInvoice_books by blast
next
  case (ingest w rowId now dto')
  then show ?case using ingestTransaction_books(1) by blast
next
  case (poll newId w horizon account now)
  then show ?case using pollHorizon_books by blast
qed (simp_all add: books_def getTransaction_def getInvoice_def listUnmatched_def listAudits_def io_bind_run on_parts_eq io_throw_def io_return_def
    i.findOne_rows t.findOne_rows t.find_rows split: sum.splits option.splits)

lemma ingest_known:
  assumes "trows (rw_txs w) k = Some x" "sx_transactionId x = dp_transactionId dto"
  shows "irows (rw_invoices (snd (ingestTransaction rp now rowId dto w))) = irows (rw_invoices w) \<and>
    trows (rw_txs (snd (ingestTransaction rp now rowId dto w))) = trows (rw_txs w)"
proof -
  let ?P = "\<lambda>t. sx_transactionId t = dp_transactionId dto"
  have "fst (to_findOne (rp_txs rp) ?P any_order (rw_txs w)) \<noteq> Inr None"
    using t.findOne_none [of ?P any_order "rw_txs w" k x] assms by auto
  then show ?thesis using t.findOne_rows [of ?P any_order "rw_txs w"]
    by (auto simp: ingestTransaction_def io_bind_run on_parts_eq writeAudit_def io_return_def split: sum.splits option.splits)
qed

lemma ingested_row:
  assumes "ingestTransaction rp now rowId dto w = (Inr t, w1)"
  obtains k x where "trows (rw_txs w1) k = Some x" "sx_transactionId x = dp_transactionId dto"
proof -
  let ?P = "\<lambda>t. sx_transactionId t = dp_transactionId dto"
  have id: "sx_transactionId t' = sx_transactionId t0" if "fst (reconcileTransaction rp t0 r w0) = Inr t'" for t0 t' r w0
    using that by (auto simp: reconcileTransaction_def io_bind_run io_return_def io_throw_def Let_def split: sum.splits option.splits if_splits)
  have id': "sx_transactionId t' = sx_transactionId t0" if "reconcileTransaction rp t0 r w0 = (Inr t', w2)" for t0 t' r w0 w2
    using id [of t0 r w0 t'] that by simp
  have new: "sx_transactionId (new_transaction now rowId dto a) = dp_transactionId dto" for a by (simp add: new_transaction_def)
  obtain y where y: "fst (to_findOne (rp_txs rp) ?P any_order (rw_txs w)) = Inr y"
    using assms by (auto simp: ingestTransaction_def io_bind_run on_parts_eq split: sum.splits)
  show thesis
  proof (cases y)
    case (Some x)
    then have "sx_transactionId x = dp_transactionId dto \<and> trows (rw_txs w) (sx_id x) = Some x" using t.findOne_some y by auto
    moreover have "trows (rw_txs w1) = trows (rw_txs w)"
      using assms y Some t.findOne_rows [of ?P any_order "rw_txs w"]
      by (auto simp: ingestTransaction_def io_bind_run on_parts_eq writeAudit_def io_return_def split: sum.splits)
    ultimately show ?thesis using that by metis
  next
    case None
    have "\<exists>w2. fst (on_txs (to_save (rp_txs rp) t) w2) = Inr () \<and> w1 = snd (on_txs (to_save (rp_txs rp) t) w2) \<and> sx_transactionId t = dp_transactionId dto"
      using assms y None id' new
      by (fastforce simp: ingestTransaction_def io_bind_run io_catch_def on_parts_eq(2) [of "to_findOne _ _ _"] io_return_def io_throw_def Let_def
          split: sum.splits prod.splits)
    then obtain w2 where w2: "fst (to_save (rp_txs rp) t (rw_txs w2)) = Inr ()" "w1 = snd (on_txs (to_save (rp_txs rp) t) w2)"
      "sx_transactionId t = dp_transactionId dto" by (auto simp: on_parts_eq)
    have "trows (rw_txs w1) (sx_id t) = Some t" using t.save_ok [OF w2(1)] by (simp add: w2(2) on_parts_eq)
    then show ?thesis using that w2(3) by blast
  qed
qed

text \<open>The invoice that is looked at is the oldest of its account.\<close>

lemma oldest_found:
  assumes i0: "irows d k0 = Some i0" and oldest: "\<forall>k i. irows d k = Some i \<and> ri_destinationAccount i = ri_destinationAccount i0 \<longrightarrow>
      k = k0 \<or> ri_createdAt i0 < ri_createdAt i"
    and y: "fst (to_findOne (rp_invoices rp) (\<lambda>i. ri_destinationAccount i = ri_destinationAccount i0) created_first d) = Inr y"
  shows "y = Some i0"
proof -
  let ?P = "\<lambda>i. ri_destinationAccount i = ri_destinationAccount i0"
  have "y \<noteq> None" using i.findOne_none [of ?P created_first d k0 i0] y i0 by auto
  then obtain x where x: "y = Some x" by blast
  have px: "?P x" "irows d (ri_id x) = Some x" using i.findOne_some [of ?P created_first d x] y x by simp_all
  have "ri_createdAt x \<le> ri_createdAt i0"
    by (rule i.findOne_order [of ?P created_first d x k0 i0 ri_createdAt]) (use y x i0 in \<open>simp_all add: created_first_def\<close>)
  then have "ri_id x = k0" using oldest px by force
  then show ?thesis using px(2) i0 x by simp
qed

lemma reconcile_misses:
  assumes i0: "irows (rw_invoices w) k0 = Some i0" and oldest: "\<forall>k i. irows (rw_invoices w) k = Some i \<and> ri_destinationAccount i = ri_destinationAccount i0 \<longrightarrow>
      k = k0 \<or> ri_createdAt i0 < ri_createdAt i"
    and t: "sx_destinationAccount t = ri_destinationAccount i0" "\<not> matchesInvoice t i0"
  shows "irows (rw_invoices (snd (reconcileTransaction rp t reason w))) = irows (rw_invoices w)"
proof (cases "fst (to_findOne (rp_invoices rp) (\<lambda>i. ri_destinationAccount i = ri_destinationAccount i0) created_first (rw_invoices w))")
  case (Inl e)
  then show ?thesis using t i.findOne_rows by (simp add: reconcileTransaction_def io_bind_run on_parts_eq)
next
  case (Inr y)
  with oldest_found [OF i0 oldest Inr] t show ?thesis
    using i.findOne_rows [of "\<lambda>i. ri_destinationAccount i = ri_destinationAccount i0" created_first "rw_invoices w"]
    by (simp add: reconcileTransaction_def io_bind_run on_parts_eq writeAudit_def io_return_def split: sum.splits)
qed

lemma each_misses:
  assumes "ri_destinationAccount i1 = ri_destinationAccount i0" "truthy (ri_paymentReference i0)" "truthy (ri_paymentReference i1)"
    "ri_paymentReference i1 \<noteq> ri_paymentReference i0"
  shows "irows (rw_invoices w) k0 = Some i0 \<Longrightarrow> \<forall>k i. irows (rw_invoices w) k = Some i \<and> ri_destinationAccount i = ri_destinationAccount i0 \<longrightarrow>
      k = k0 \<or> ri_createdAt i0 < ri_createdAt i \<Longrightarrow>
    irows (rw_invoices (snd (reconcile_each rp i1 reason ts w))) = irows (rw_invoices w)"
proof (induction ts arbitrary: w)
  case (Cons t ts)
  show ?case
  proof (cases "matchesInvoice t i1")
    case True
    then have t: "sx_destinationAccount t = ri_destinationAccount i0" "\<not> matchesInvoice t i0"
      using assms by (auto simp: matchesInvoice_def split: if_splits)
    let ?w1 = "snd (reconcileTransaction rp t (Some reason) w)"
    have r1: "irows (rw_invoices ?w1) = irows (rw_invoices w)" by (rule reconcile_misses [OF Cons.prems t])
    have "irows (rw_invoices (snd (on_txs m ?w1))) = irows (rw_invoices w)" for m :: "('t, unit) io" using r1 by (simp add: on_parts_eq)
    then show ?thesis using True r1 Cons.IH Cons.prems by (simp add: io_bind_run split: sum.splits)
  qed (use Cons in simp)
qed (simp add: io_return_def)

lemma ingest_misses:
  assumes i0: "irows (rw_invoices w) k0 = Some i0" and oldest: "\<forall>k i. irows (rw_invoices w) k = Some i \<and> ri_destinationAccount i = ri_destinationAccount i0 \<longrightarrow>
      k = k0 \<or> ri_createdAt i0 < ri_createdAt i"
    and ref: "truthy (ri_paymentReference i0)" "dp_memo dto \<noteq> ri_paymentReference i0" "dp_destinationAccount dto = ri_destinationAccount i0"
  shows "irows (rw_invoices (snd (ingestTransaction rp now rowId dto w))) = irows (rw_invoices w)"
proof -
  have t: "sx_destinationAccount (new_transaction now rowId dto a) = ri_destinationAccount i0" "\<not> matchesInvoice (new_transaction now rowId dto a) i0" for a
    using ref by (auto simp: new_transaction_def matchesInvoice_def)
  have hit: "irows (rw_invoices (snd (reconcileTransaction rp (new_transaction now rowId dto a) None (w\<lparr>rw_txs := d\<rparr>)))) = irows (rw_invoices w)" for a d
    using reconcile_misses [of "w\<lparr>rw_txs := d\<rparr>", OF _ _ t] i0 oldest by simp
  show ?thesis
    by (auto simp: ingestTransaction_def io_bind_run io_catch_def on_parts_eq writeAudit_def io_return_def io_throw_def Let_def hit
        split: sum.splits option.splits prod.splits) (use hit in \<open>metis snd_conv\<close>)+
qed

lemma getInvoice_rows: "irows (rw_invoices (snd (getInvoice rp j w))) = irows (rw_invoices w)"
  by (auto simp: getInvoice_def io_bind_run on_parts_eq io_throw_def io_return_def i.findOne_rows split: sum.splits option.splits)

lemma manual_misses:
  assumes i0: "irows (rw_invoices w) k0 = Some i0" and oldest: "\<forall>k i. irows (rw_invoices w) k = Some i \<and> ri_destinationAccount i = ri_destinationAccount i0 \<longrightarrow>
      k = k0 \<or> ri_createdAt i0 < ri_createdAt i"
    and i1: "ri_destinationAccount i1 = ri_destinationAccount i0" "\<forall>k i. irows (rw_invoices w) k = Some i \<and> ri_invoiceId i = ri_invoiceId i1 \<longrightarrow> i = i1"
    and refs: "truthy (ri_paymentReference i0)" "truthy (ri_paymentReference i1)" "ri_paymentReference i1 \<noteq> ri_paymentReference i0"
  shows "irows (rw_invoices (snd (manualReconcile rp (ri_invoiceId i1) note w))) = irows (rw_invoices w)"
proof -
  let ?P = "\<lambda>i. ri_invoiceId i = ri_invoiceId i1"
  have rows: "irows (snd (to_findOne (rp_invoices rp) ?P any_order (rw_invoices w))) = irows (rw_invoices w)" by (rule i.findOne_rows)
  have found: "x = i1" if "fst (to_findOne (rp_invoices rp) ?P any_order (rw_invoices w)) = Inr (Some x)" for x
    using i.findOne_some [OF that] i1(2) by blast
  have each: "irows (rw_invoices (snd (reconcile_each rp i1 reason ts (w\<lparr>rw_invoices := d, rw_txs := e\<rparr>)))) = irows (rw_invoices w)"
    if "irows d = irows (rw_invoices w)" for reason ts d e
    using each_misses [OF i1(1) refs, of "w\<lparr>rw_invoices := d, rw_txs := e\<rparr>" k0 reason ts] that i0 oldest by simp
  show ?thesis
  proof (cases "fst (to_findOne (rp_invoices rp) ?P any_order (rw_invoices w))")
    case (Inr y)
    show ?thesis
    proof (cases y)
      case (Some x)
      then have "x = i1" using found Inr by simp
      then show ?thesis using Inr Some each [OF rows] rows
        by (simp add: manualReconcile_def io_bind_run on_parts_eq getInvoice_rows split: sum.splits)
    qed (use Inr rows in \<open>simp add: manualReconcile_def io_bind_run on_parts_eq io_throw_def\<close>)
  qed (use rows in \<open>simp add: manualReconcile_def io_bind_run on_parts_eq\<close>)
qed

text \<open>A manual reconciliation takes a partial payment as a candidate again.\<close>

lemma manual_hit:
  assumes rel: "reliable_recon rp" and i0: "irows (rw_invoices w) k0 = Some i0"
    and only: "\<forall>k i. irows (rw_invoices w) k = Some i \<and> (ri_destinationAccount i = ri_destinationAccount i0 \<or> ri_invoiceId i = ri_invoiceId i0) \<longrightarrow> i = i0"
    and t: "trows (rw_txs w) kt = Some t" "sx_status t = Tx_Partial" "matchesInvoice t i0"
    and candidate: "\<forall>k u. trows (rw_txs w) k = Some u \<and> sx_destinationAccount u = ri_destinationAccount i0 \<and>
      sx_assetCode u = ri_assetCode i0 \<and> sx_status u \<in> {Tx_Unmatched, Tx_Partial} \<longrightarrow> u = t"
    and units: "toUnits (ri_paidAmount i0) = Inr p" "toUnits (sx_amount t) = Inr n" "toUnits (ri_expectedAmount i0) = Inr e"
  shows "irows (rw_invoices (snd (manualReconcile rp (ri_invoiceId i0) note w))) = (irows (rw_invoices w))(k0 \<mapsto> credit_invoice i0 (p + n) e)"
    "trows (rw_txs (snd (manualReconcile rp (ri_invoiceId i0) note w))) =
      (trows (rw_txs w))(kt \<mapsto> t\<lparr>sx_status := (if p + n \<ge> e then Tx_Matched else Tx_Partial)\<rparr>)"
proof -
  let ?P = "\<lambda>i. ri_invoiceId i = ri_invoiceId i0"
  let ?Q = "\<lambda>u. sx_destinationAccount u = ri_destinationAccount i0 \<and> sx_assetCode u = ri_assetCode i0 \<and> sx_status u \<in> {Tx_Unmatched, Tx_Partial}"
  let ?t' = "t\<lparr>sx_status := (if p + n \<ge> e then Tx_Matched else Tx_Partial)\<rparr>"
  have tables: "reliable_table (rp_invoices rp)" "reliable_table (rp_txs rp)" using rel by (simp_all add: reliable_recon_def)
  have dest: "sx_destinationAccount t = ri_destinationAccount i0" "sx_assetCode t = ri_assetCode i0"
    using t(3) by (auto simp: matchesInvoice_def split: if_splits)
  have keys: "ri_id i0 = k0" "sx_id t = kt" using i.row_key [OF i0] t.row_key [OF t(1)] by simp_all
  obtain y where y: "fst (to_findOne (rp_invoices rp) ?P any_order (rw_invoices w)) = Inr y" by (rule reliable_queries [OF tables(1)])
  have "y \<noteq> None" using i.findOne_none [of ?P any_order "rw_invoices w" k0 i0] y i0 by auto
  then obtain x where x: "y = Some x" by blast
  have "x = i0" using i.findOne_some [of ?P any_order "rw_invoices w" x] y x only by blast
  with y x have found: "fst (to_findOne (rp_invoices rp) ?P any_order (rw_invoices w)) = Inr (Some i0)" by simp
  obtain rs where rs: "fst (to_find (rp_txs rp) ?Q observed_first (rw_txs w)) = Inr rs" by (rule reliable_lists [OF tables(2)])
  have "set rs = {t}" using t.find_set [OF rs] t(1,2) dest candidate by auto
  moreover have "distinct rs" using t.find_distinct [OF rs] by (simp add: distinct_map)
  ultimately have rs1: "rs = [t]" by (cases rs rule: remdups_adj.cases) auto
  let ?w = "w\<lparr>rw_invoices := snd (to_findOne (rp_invoices rp) ?P any_order (rw_invoices w)), rw_txs := snd (to_find (rp_txs rp) ?Q observed_first (rw_txs w))\<rparr>"
  have rows: "irows (rw_invoices ?w) = irows (rw_invoices w)" "trows (rw_txs ?w) = trows (rw_txs w)" by (simp_all add: i.findOne_rows t.find_rows)
  have save: "fst (to_save (rp_txs rp) r d) = Inr ()" for r d using tables(2) by (rule reliable_writes(1))
  have each: "fst (reconcile_each rp i0 reason [t] v) = Inr () \<and>
    irows (rw_invoices (snd (reconcile_each rp i0 reason [t] v))) = (irows (rw_invoices w))(k0 \<mapsto> credit_invoice i0 (p + n) e) \<and>
    trows (rw_txs (snd (reconcile_each rp i0 reason [t] v))) = (trows (rw_txs w))(kt \<mapsto> ?t')"
    if v: "irows (rw_invoices v) = irows (rw_invoices w)" "trows (rw_txs v) = trows (rw_txs w)" for reason v
  proof -
    obtain z where z: "fst (to_findOne (rp_invoices rp) (\<lambda>i. ri_destinationAccount i = ri_destinationAccount i0) created_first (rw_invoices v)) = Inr z"
      by (rule reliable_queries [OF tables(1)])
    have "z = Some i0" using oldest_found [of "rw_invoices v" k0 i0, OF _ _ z] v(1) i0 only i.row_key by metis
    with z dest have z: "fst (to_findOne (rp_invoices rp) (\<lambda>i. ri_destinationAccount i = sx_destinationAccount t) created_first (rw_invoices v)) = Inr (Some i0)" by simp
    show ?thesis using t(3) by (simp add: io_bind_run reconcile_hit [OF rel z t(3) units] on_parts_eq save io_return_def keys v t.save_ok [OF save])
  qed
  note each = each [of ?w, OF rows]
  have getInvoice_txs: "rw_txs (snd (getInvoice rp j v)) = rw_txs v" for j v
    by (auto simp: getInvoice_def io_bind_run on_parts_eq io_throw_def io_return_def split: sum.splits option.splits)
  have run: "snd (manualReconcile rp (ri_invoiceId i0) note w) = snd (getInvoice rp (ri_invoiceId i0) (snd (reconcile_each rp i0 (nullish note ''Manual retry'') [t] ?w)))"
    using each [of "nullish note ''Manual retry''"] by (simp add: manualReconcile_def io_bind_run on_parts_eq found rs rs1 del: reconcile_each.simps insert_iff)
  show "irows (rw_invoices (snd (manualReconcile rp (ri_invoiceId i0) note w))) = (irows (rw_invoices w))(k0 \<mapsto> credit_invoice i0 (p + n) e)"
    unfolding run getInvoice_rows by (rule each [THEN conjunct2, THEN conjunct1])
  show "trows (rw_txs (snd (manualReconcile rp (ri_invoiceId i0) note w))) = (trows (rw_txs w))(kt \<mapsto> ?t')"
    unfolding run getInvoice_txs by (rule each [THEN conjunct2, THEN conjunct2])
qed

end

lemma table_row_in: "table_row key db k = Some r \<Longrightarrow> r \<in> set (mt_rows db) \<and> key r = k"
  by (auto simp: table_row_def find_Some_iff)

lemma calm_recon_reliable: "reliable_recon calm_recon"
  by (simp add: reliable_recon_def calm_recon_def calm_table_reliable)

interpretation cr: recon_tables calm_recon "table_row ri_id" "table_row sx_id"
  unfolding recon_tables_def calm_recon_def recon_repos.simps by (intro conjI ct.sql_table_axioms)

section \<open>Properties\<close>

text \<open>
  Amounts are exact: the text of every number of units is read back as that number, and a
  decimal text is read as its value in units of ten to the minus seven, cut off after the seventh
  place and never rounded up. Normalising an amount that was normalised changes nothing.
\<close>

theorem stellar_amounts_exact:
  assumes "list_all is_digit w" "w \<noteq> []" "list_all is_digit f" "f \<noteq> []"
  shows "toUnits (fromUnits n) = Inr n \<and> normalizeAmount (fromUnits n) = Inr (fromUnits n) \<and>
    toUnits (w @ ''.'' @ f) = Inr (parse_decimal (w @ f) * 10 ^ 7 div 10 ^ length f)"
proof -
  have "parse_decimal (w @ f) * 10 ^ 7 div 10 ^ length f = (parse_decimal f * 10 ^ 7 + 10 ^ length f * (parse_decimal w * 10 ^ 7)) div 10 ^ length f"
    by (simp only: parse_decimal_append add_mult_distrib mult.assoc)
  also have "\<dots> = parse_decimal w * 10 ^ 7 + parse_decimal f * 10 ^ 7 div 10 ^ length f" by (subst div_mult_self2) simp_all
  also have "\<dots> = parse_decimal w * 10 ^ 7 + parse_decimal (take 7 (padEnd 7 (CHR ''0'') f))" by (simp only: seven_digits [OF assms(3)])
  finally show ?thesis using toUnits_decimal [OF assms] by (simp add: normalizeAmount_def)
qed

theorem stellar_amounts_exact_witness:
  "toUnits ''12.34567891'' = Inr 123456789"
proof -
  have "toUnits (''12'' @ ''.'' @ ''34567891'') = Inr (parse_decimal (''12'' @ ''34567891'') * 10 ^ 7 div 10 ^ length ''34567891'')"
    by (rule stellar_amounts_exact [THEN conjunct2, THEN conjunct2]) (simp_all add: is_digit_def)
  then show ?thesis by (simp add: parse_decimal_Cons digit_value_def)
qed



text \<open>
  A payment event counts once: after an event with a transaction id was taken in, every further
  event with that id, with any amount and destination and whatever the tables do, changes no
  invoice and no payment. A second payment made in the same transaction is such an event.
\<close>

theorem payment_event_counts_once:
  assumes tables: "recon_tables rp irows trows"
    and first: "ingestTransaction rp now rowId dto w = (Inr t, w1)" and same: "dp_transactionId dto' = dp_transactionId dto"
  shows "irows (rw_invoices (snd (ingestTransaction rp now' rowId' dto' w1))) = irows (rw_invoices w1) \<and>
    trows (rw_txs (snd (ingestTransaction rp now' rowId' dto' w1))) = trows (rw_txs w1)"
proof -
  obtain k x where x: "trows (rw_txs w1) k = Some x" "sx_transactionId x = dp_transactionId dto"
    by (rule recon_tables.ingested_row [OF tables first])
  then have "sx_transactionId x = dp_transactionId dto'" using same by simp
  from recon_tables.ingest_known [OF tables x(1) this] show ?thesis .
qed

theorem payment_event_counts_once_witness:
  "table_row ri_id (rw_invoices second_event_books) = table_row ri_id (rw_invoices sample_books) \<and>
   table_row sx_id (rw_txs second_event_books) = table_row sx_id (rw_txs sample_books)"
proof -
  let ?w1 = "snd (createInvoice calm_recon 10 ''i1'' (sample_invoice ''INV-1'' ''r1'') empty_books)"
  have "case fst (ingestTransaction calm_recon 20 ''t1'' (sample_payment ''p1'' ''4'' ''r1'') ?w1) of Inr t \<Rightarrow> True | Inl e \<Rightarrow> False" by code_simp
  then obtain t where "ingestTransaction calm_recon 20 ''t1'' (sample_payment ''p1'' ''4'' ''r1'') ?w1 = (Inr t, sample_books)"
    unfolding sample_books_def by (cases "fst (ingestTransaction calm_recon 20 ''t1'' (sample_payment ''p1'' ''4'' ''r1'') ?w1)")
      (simp, metis prod.collapse)
  from payment_event_counts_once [OF cr.recon_tables_axioms this, of "sample_payment ''p1'' ''6.5'' ''r1''"]
  show ?thesis unfolding second_event_books_def by (simp add: sample_payment_def)
qed

text \<open>
  Of the invoices of one account only the oldest is ever looked at: while the oldest invoice has a
  payment reference, no event with the reference of a younger invoice and no manual reconciliation
  of that invoice credits any invoice, whatever the tables do.
\<close>

theorem younger_invoice_never_credited:
  assumes tables: "recon_tables rp irows trows"
    and i0: "irows (rw_invoices w) k0 = Some i0"
    and oldest: "\<forall>k i. irows (rw_invoices w) k = Some i \<and> ri_destinationAccount i = ri_destinationAccount i0 \<longrightarrow> k = k0 \<or> ri_createdAt i0 < ri_createdAt i"
    and i1: "ri_destinationAccount i1 = ri_destinationAccount i0" "\<forall>k i. irows (rw_invoices w) k = Some i \<and> ri_invoiceId i = ri_invoiceId i1 \<longrightarrow> i = i1"
    and refs: "truthy (ri_paymentReference i0)" "truthy (ri_paymentReference i1)" "ri_paymentReference i1 \<noteq> ri_paymentReference i0"
    and event: "dp_destinationAccount dto = ri_destinationAccount i1" "dp_memo dto = ri_paymentReference i1"
  shows "irows (rw_invoices (snd (ingestTransaction rp now rowId dto w))) = irows (rw_invoices w) \<and>
    irows (rw_invoices (snd (manualReconcile rp (ri_invoiceId i1) note w))) = irows (rw_invoices w)"
proof -
  have "irows (rw_invoices (snd (ingestTransaction rp now rowId dto w))) = irows (rw_invoices w)"
    by (rule recon_tables.ingest_misses [OF tables i0 oldest refs(1)]) (use i1 refs event in simp_all)
  moreover have "irows (rw_invoices (snd (manualReconcile rp (ri_invoiceId i1) note w))) = irows (rw_invoices w)"
    by (rule recon_tables.manual_misses [OF tables i0 oldest i1 refs])
  ultimately show ?thesis ..
qed

theorem younger_invoice_never_credited_witness:
  "table_row ri_id (rw_invoices (snd (ingestTransaction calm_recon 20 ''t1'' (sample_payment ''p1'' ''10.5'' ''r2'') two_invoices))) =
     table_row ri_id (rw_invoices two_invoices) \<and>
   table_row ri_id (rw_invoices (snd (manualReconcile calm_recon ''INV-2'' None two_invoices))) = table_row ri_id (rw_invoices two_invoices)"
proof -
  have "case table_row ri_id (rw_invoices two_invoices) ''i1'' of
      Some i \<Rightarrow> i = new_invoice 10 ''i1'' (sample_invoice ''INV-1'' ''r1'') ''10.5000000'' | None \<Rightarrow> False" by code_simp
  then have i0: "table_row ri_id (rw_invoices two_invoices) ''i1'' = Some (new_invoice 10 ''i1'' (sample_invoice ''INV-1'' ''r1'') ''10.5000000'')"
    by (simp split: option.splits)
  have all: "list_all (\<lambda>i. (ri_id i = ''i1'' \<or> 10 < ri_createdAt i) \<and>
      (ri_invoiceId i = ''INV-2'' \<longrightarrow> i = new_invoice 12 ''i2'' (sample_invoice ''INV-2'' ''r2'') ''10.5000000'')) (mt_rows (rw_invoices two_invoices))" by code_simp
  have rows: "(k = ''i1'' \<or> 10 < ri_createdAt i) \<and> (ri_invoiceId i = ''INV-2'' \<longrightarrow> i = new_invoice 12 ''i2'' (sample_invoice ''INV-2'' ''r2'') ''10.5000000'')"
    if "table_row ri_id (rw_invoices two_invoices) k = Some i" for k i
    using table_row_in [OF that] all by (auto simp: list_all_iff)
  have "table_row ri_id (rw_invoices (snd (ingestTransaction calm_recon 20 ''t1'' (sample_payment ''p1'' ''10.5'' ''r2'') two_invoices))) = table_row ri_id (rw_invoices two_invoices) \<and>
     table_row ri_id (rw_invoices (snd (manualReconcile calm_recon (ri_invoiceId (new_invoice 12 ''i2'' (sample_invoice ''INV-2'' ''r2'') ''10.5000000'')) None two_invoices))) =
       table_row ri_id (rw_invoices two_invoices)"
    by (rule younger_invoice_never_credited [OF cr.recon_tables_axioms i0])
      (use rows in \<open>auto simp: new_invoice_def sample_invoice_def sample_payment_def truthy_def\<close>)
  then show ?thesis by (simp add: new_invoice_def sample_invoice_def)
qed

text \<open>
  A partial payment can be counted twice: when the invoice of an account was paid in part by one
  payment, a manual reconciliation credits the amount of that payment a second time, while the sum
  of the credited payments stays what it was.
\<close>

theorem partial_payment_counted_twice:
  assumes tables: "recon_tables rp irows trows" and rel: "reliable_recon rp" and fin: "finite (dom (trows (rw_txs w)))"
    and i0: "irows (rw_invoices w) k0 = Some i0"
    and only: "\<forall>k i. irows (rw_invoices w) k = Some i \<and> (ri_destinationAccount i = ri_destinationAccount i0 \<or> ri_invoiceId i = ri_invoiceId i0) \<longrightarrow> i = i0"
    and t: "trows (rw_txs w) kt = Some t" "sx_status t = Tx_Partial" "matchesInvoice t i0"
    and candidate: "\<forall>k u. trows (rw_txs w) k = Some u \<and> sx_destinationAccount u = ri_destinationAccount i0 \<and>
      sx_assetCode u = ri_assetCode i0 \<and> sx_status u \<in> {Tx_Unmatched, Tx_Partial} \<longrightarrow> u = t"
    and amounts: "toUnits (ri_paidAmount i0) = Inr p" "toUnits (sx_amount t) = Inr n" "toUnits (ri_expectedAmount i0) = Inr e"
  shows "\<exists>i. irows (rw_invoices (snd (manualReconcile rp (ri_invoiceId i0) note w))) k0 = Some i \<and> units (ri_paidAmount i) = p + n \<and>
    row_total credited (trows (rw_txs (snd (manualReconcile rp (ri_invoiceId i0) note w)))) = row_total credited (trows (rw_txs w))"
proof -
  note credit = recon_tables.manual_hit [OF tables rel i0 only t candidate amounts, of "note"]
  let ?t = "t\<lparr>sx_status := (if p + n \<ge> e then Tx_Matched else Tx_Partial)\<rparr>"
  have "row_total credited ((trows (rw_txs w))(kt \<mapsto> ?t)) + credited t = row_total credited (trows (rw_txs w)) + credited ?t"
    by (rule row_total_put [OF fin t(1)])
  moreover have "credited ?t = credited t" using t(2) by (simp add: credited_def)
  ultimately show ?thesis unfolding credit using paid_credit [of i0 "p + n" e] by (simp add: paid_def)
qed

theorem partial_payment_counted_twice_witness:
  "\<exists>i. table_row ri_id (rw_invoices twice_credited_books) ''i1'' = Some i \<and> units (ri_paidAmount i) = 80000000"
proof -
  let ?i = "credit_invoice (new_invoice 10 ''i1'' (sample_invoice ''INV-1'' ''r1'') ''10.5000000'') 40000000 105000000"
  let ?t = "(new_transaction 20 ''t1'' (sample_payment ''p1'' ''4'' ''r1'') ''4.0000000'')\<lparr>sx_status := Tx_Partial\<rparr>"
  have rows: "mt_rows (rw_invoices sample_books) = [?i]" "mt_rows (rw_txs sample_books) = [?t]" by code_simp+
  have i: "table_row ri_id (rw_invoices sample_books) k = (if k = ''i1'' then Some ?i else None)" for k
    by (simp add: table_row_def rows credit_invoice_def new_invoice_def)
  have t: "table_row sx_id (rw_txs sample_books) k = (if k = ''t1'' then Some ?t else None)" for k
    by (simp add: table_row_def rows new_transaction_def)
  have m: "matchesInvoice ?t ?i" by code_simp
  have u: "toUnits (ri_paidAmount ?i) = Inr 40000000" "toUnits (sx_amount ?t) = Inr 40000000" "toUnits (ri_expectedAmount ?i) = Inr 105000000" by code_simp+
  have f: "finite (dom (table_row sx_id (rw_txs sample_books)))" by (rule finite_subset [of _ "{''t1''}"]) (auto simp: t split: if_splits)
  have row: "table_row ri_id (rw_invoices sample_books) ''i1'' = Some ?i" "table_row sx_id (rw_txs sample_books) ''t1'' = Some ?t" by (simp_all only: i t if_True refl)
  have only: "j = ?i" if "table_row ri_id (rw_invoices sample_books) k = Some j \<and> Q" for k j Q
    using that unfolding i by (cases "k = ''i1''") simp_all
  have candidate: "v = ?t" if "table_row sx_id (rw_txs sample_books) k = Some v \<and> Q" for k v Q
    using that unfolding t by (cases "k = ''t1''") simp_all
  have "sx_status ?t = Tx_Partial" by simp
  from partial_payment_counted_twice [OF cr.recon_tables_axioms calm_recon_reliable f row(1) _ row(2) this m _ u, of None] only candidate
  have "\<exists>j. table_row ri_id (rw_invoices (snd (manualReconcile calm_recon (ri_invoiceId ?i) None sample_books))) ''i1'' = Some j \<and> units (ri_paidAmount j) = 40000000 + 40000000"
    by blast
  then show ?thesis by (simp add: twice_credited_books_def credit_invoice_def new_invoice_def sample_invoice_def)
qed

end
