(* ===== verification/Client_Reconnection.thy ===== *)
theory Client_Reconnection
  imports Dashboard_Gateway
begin

text \<open>
  The client of the dashboard (dashboard/websocket/services/reconnection.service.ts):
  \<open>ReconnectionService\<close> spaces the attempts to reconnect, \<open>WebSocketClientManager\<close> reacts to the
  events of the socket. The timers of the host are part of the state; \<open>Math.random()\<close> is an argument,
  as is what the socket library makes of a call. Callbacks are names, their calls are effects.
\<close>

section \<open>The back-off\<close>

datatype attempt_limit = Unlimited | Attempts int

record reconnection_config =
  cf_maxDelay :: rat
  cf_baseDelay :: rat
  cf_maxAttempts :: attempt_limit
  cf_factor :: rat

record reconnection_config_opt =
  co_maxDelay :: "rat option"
  co_baseDelay :: "rat option"
  co_maxAttempts :: "attempt_limit option"
  co_factor :: "rat option"

definition defaultConfig :: reconnection_config where
  "defaultConfig = \<lparr>cf_maxDelay = 30000, cf_baseDelay = 1000, cf_maxAttempts = Unlimited, cf_factor = 2\<rparr>"

definition spread_config :: "reconnection_config \<Rightarrow> reconnection_config_opt \<Rightarrow> reconnection_config" where
  "spread_config c opts =
     \<lparr>cf_maxDelay = nullish (co_maxDelay opts) (cf_maxDelay c), cf_baseDelay = nullish (co_baseDelay opts) (cf_baseDelay c),
      cf_maxAttempts = nullish (co_maxAttempts opts) (cf_maxAttempts c), cf_factor = nullish (co_factor opts) (cf_factor c)\<rparr>"

text \<open>The last two fields are the pending timers of the host and the next handle it gives out.\<close>

record 'c reconnection =
  rc_config :: reconnection_config
  rc_currentDelay :: rat
  rc_attempts :: nat
  rc_isReconnecting :: bool
  rc_reconnectTimer :: "nat option"
  rc_onReconnect :: "'c option"
  rc_onReconnectAttempt :: "'c option"
  rc_onReconnectFailed :: "'c option"
  rc_pending :: "(nat \<times> rat) list"
  rc_nextHandle :: nat

datatype 'c rc_effect =
    Attempt_Announced 'c nat rat
  | Attempts_Exhausted 'c nat rat
  | Timer_Started nat rat
  | Reconnect_Called 'c

definition new_reconnection :: "reconnection_config_opt \<Rightarrow> 'c reconnection" where
  "new_reconnection opts =
     (let c = spread_config defaultConfig opts
      in \<lparr>rc_config = c, rc_currentDelay = cf_baseDelay c, rc_attempts = 0, rc_isReconnecting = False, rc_reconnectTimer = None,
          rc_onReconnect = None, rc_onReconnectAttempt = None, rc_onReconnectFailed = None, rc_pending = [], rc_nextHandle = 0\<rparr>)"

definition clear_timer :: "'c reconnection \<Rightarrow> 'c reconnection" where
  "clear_timer s =
     (case rc_reconnectTimer s of
        None \<Rightarrow> s
      | Some t \<Rightarrow> s\<lparr>rc_pending := filter (\<lambda>(h, _). h \<noteq> t) (rc_pending s), rc_reconnectTimer := None\<rparr>)"

definition reset_rc :: "'c reconnection \<Rightarrow> 'c reconnection" where
  "reset_rc s = clear_timer (s\<lparr>rc_currentDelay := cf_baseDelay (rc_config s), rc_attempts := 0, rc_isReconnecting := False\<rparr>)"

definition configure_rc :: "reconnection_config_opt \<Rightarrow> 'c reconnection \<Rightarrow> 'c reconnection" where
  "configure_rc opts s = reset_rc (s\<lparr>rc_config := spread_config (rc_config s) opts\<rparr>)"

definition stopReconnection :: "'c reconnection \<Rightarrow> 'c reconnection" where
  "stopReconnection s = clear_timer (s\<lparr>rc_isReconnecting := False\<rparr>)"

definition notifySuccess :: "'c reconnection \<Rightarrow> 'c reconnection" where
  "notifySuccess s = (reset_rc s)\<lparr>rc_isReconnecting := False\<rparr>"

definition shouldAttempt :: "'c reconnection \<Rightarrow> bool" where
  "shouldAttempt s =
     (if \<not> rc_isReconnecting s then False
      else case cf_maxAttempts (rc_config s) of Unlimited \<Rightarrow> True | Attempts n \<Rightarrow> int (rc_attempts s) < n)"

definition calculateNextDelay :: "rat \<Rightarrow> 'c reconnection \<Rightarrow> rat" where
  "calculateNextDelay random s =
     (let jitter = random * (3 / 10) * rc_currentDelay s in min (rc_currentDelay s + jitter) (cf_maxDelay (rc_config s)))"

record rc_state =
  st_isReconnecting :: bool
  st_attempts :: nat
  st_currentDelay :: rat
  st_nextDelay :: rat

definition getState_rc :: "rat \<Rightarrow> 'c reconnection \<Rightarrow> rc_state" where
  "getState_rc random s =
     \<lparr>st_isReconnecting = rc_isReconnecting s, st_attempts = rc_attempts s, st_currentDelay = rc_currentDelay s,
      st_nextDelay = calculateNextDelay random s\<rparr>"

fun total_delay_loop :: "reconnection_config \<Rightarrow> nat \<Rightarrow> rat \<Rightarrow> rat \<Rightarrow> rat" where
  "total_delay_loop c 0 t delay = t"
| "total_delay_loop c (Suc n) t delay = total_delay_loop c n (t + delay) (min (delay * cf_factor c) (cf_maxDelay c))"

definition calculateTotalDelay :: "'c reconnection \<Rightarrow> rat" where
  "calculateTotalDelay s = total_delay_loop (rc_config s) (rc_attempts s) 0 (cf_baseDelay (rc_config s))"

definition called :: "('c \<Rightarrow> 'c rc_effect) \<Rightarrow> 'c option \<Rightarrow> 'c rc_effect list" where
  "called f c = (case c of None \<Rightarrow> [] | Some k \<Rightarrow> [f k])"

definition scheduleReconnect :: "rat \<Rightarrow> 'c reconnection \<Rightarrow> 'c rc_effect list \<times> 'c reconnection" where
  "scheduleReconnect random s =
     (if \<not> shouldAttempt s
      then (called (\<lambda>k. Attempts_Exhausted k (rc_attempts s) (calculateTotalDelay s)) (rc_onReconnectFailed s),
            s\<lparr>rc_isReconnecting := False\<rparr>)
      else
        let s1 = s\<lparr>rc_attempts := rc_attempts s + 1\<rparr>;
            delay = calculateNextDelay random s1;
            h = rc_nextHandle s1
        in (called (\<lambda>k. Attempt_Announced k (rc_attempts s1) delay) (rc_onReconnectAttempt s1) @ [Timer_Started h delay],
            s1\<lparr>rc_pending := rc_pending s1 @ [(h, delay)], rc_nextHandle := h + 1, rc_reconnectTimer := Some h,
               rc_currentDelay := min (rc_currentDelay s1 * cf_factor (rc_config s1)) (cf_maxDelay (rc_config s1))\<rparr>))"

definition startReconnection_rc ::
  "rat \<Rightarrow> 'c \<Rightarrow> 'c option \<Rightarrow> 'c option \<Rightarrow> 'c reconnection \<Rightarrow> 'c rc_effect list \<times> 'c reconnection" where
  "startReconnection_rc random onReconnect onAttempt onFailed s =
     scheduleReconnect random (s\<lparr>rc_onReconnect := Some onReconnect, rc_onReconnectAttempt := onAttempt,
       rc_onReconnectFailed := onFailed, rc_isReconnecting := True\<rparr>)"

definition triggerAttempt :: "rat \<Rightarrow> 'c reconnection \<Rightarrow> 'c rc_effect list \<times> 'c reconnection" where
  "triggerAttempt random s =
     (if shouldAttempt s
      then scheduleReconnect random (case rc_reconnectTimer s of
             None \<Rightarrow> s | Some t \<Rightarrow> s\<lparr>rc_pending := filter (\<lambda>(h, _). h \<noteq> t) (rc_pending s)\<rparr>)
      else ([], s))"

text \<open>The host runs the function passed to \<^verbatim>\<open>setTimeout\<close> once, if the timer was not cleared.\<close>

definition timer_fires :: "nat \<Rightarrow> 'c reconnection \<Rightarrow> 'c rc_effect list \<times> 'c reconnection" where
  "timer_fires h s =
     (if h \<in> fst ` set (rc_pending s)
      then (called Reconnect_Called (rc_onReconnect s), s\<lparr>rc_pending := filter (\<lambda>(i, _). i \<noteq> h) (rc_pending s)\<rparr>)
      else ([], s))"

section \<open>The client\<close>

datatype connection_state = Disconnected | Connecting | Connected | Reconnecting

datatype client_callback = Attempt_Reconnect | Log_Attempt | Give_Up

datatype 'd client_message = Portfolio_Ref string | Custom 'd

text \<open>What a handler is called with; \<^verbatim>\<open>reconnection:success\<close> carries the missed events.\<close>

datatype 'd client_payload = Event_Data 'd | Reconnected nat "'d buffered_event list option"

record ('d, 'h) ws_client =
  wc_socket :: "nat option"
  wc_reconnectService :: "client_callback reconnection"
  wc_eventBuffer :: "(string \<times> 'd client_message \<times> timestamp) list"
  wc_messageHandlers :: "(string, 'h list) js_map"
  wc_connectionState :: connection_state
  wc_token :: "string option"
  wc_userId :: "string option"

datatype ('d, 'h) client_effect =
    Socket_Connect nat string
  | Socket_Emit nat string "'d client_message"
  | Socket_Disconnect nat
  | Handler_Called 'h "'d client_payload"
  | Timer_Set nat rat

text \<open>The promise a method returns; an emitted message is settled by the answer of the server.\<close>

datatype sent = Resolved | Rejected string | Awaiting

definition new_client :: "reconnection_config_opt \<Rightarrow> ('d, 'h) ws_client" where
  "new_client opts =
     \<lparr>wc_socket = None, wc_reconnectService = new_reconnection opts, wc_eventBuffer = [], wc_messageHandlers = [],
      wc_connectionState = Disconnected, wc_token = None, wc_userId = None\<rparr>"

text \<open>\<open>attemptReconnect\<close>; an exception of the socket library is only logged.\<close>

definition attemptReconnect :: "('d, 'h) ws_client \<Rightarrow> ('d, 'h) client_effect list" where
  "attemptReconnect s =
     (if wc_socket s = None \<or> \<not> truthy (wc_token s) then []
      else [Socket_Connect (the (wc_socket s)) (the (wc_token s))])"

text \<open>The calls of the reconnection service, in order: the callbacks act on the client.\<close>

fun perform :: "('d, 'h) client_effect list \<times> ('d, 'h) ws_client \<Rightarrow> client_callback rc_effect \<Rightarrow> ('d, 'h) client_effect list \<times> ('d, 'h) ws_client" where
  "perform (out, s) (Timer_Started h delay) = (out @ [Timer_Set h delay], s)"
| "perform (out, s) (Attempt_Announced k n delay) = (out, s)"
| "perform (out, s) (Attempts_Exhausted k n t) = (out, s\<lparr>wc_connectionState := Disconnected\<rparr>)"
| "perform (out, s) (Reconnect_Called k) = (out @ attemptReconnect s, s)"

definition with_service ::
  "(client_callback reconnection \<Rightarrow> client_callback rc_effect list \<times> client_callback reconnection) \<Rightarrow> ('d, 'h) ws_client \<Rightarrow>
    ('d, 'h) client_effect list \<times> ('d, 'h) ws_client" where
  "with_service f s =
     (let (effs, rc) = f (wc_reconnectService s) in foldl perform ([], s\<lparr>wc_reconnectService := rc\<rparr>) effs)"

definition startReconnection :: "rat \<Rightarrow> ('d, 'h) ws_client \<Rightarrow> ('d, 'h) client_effect list \<times> ('d, 'h) ws_client" where
  "startReconnection random s =
     with_service (startReconnection_rc random Attempt_Reconnect (Some Log_Attempt) (Some Give_Up)) (s\<lparr>wc_connectionState := Reconnecting\<rparr>)"

definition handleConnectionFailure :: "rat \<Rightarrow> ('d, 'h) ws_client \<Rightarrow> ('d, 'h) client_effect list \<times> ('d, 'h) ws_client" where
  "handleConnectionFailure random s = startReconnection random (s\<lparr>wc_connectionState := Disconnected\<rparr>)"

text \<open>\<open>created\<close> is the new socket, or the error of loading the library or of creating it.\<close>

definition connect :: "(string + nat) \<Rightarrow> rat \<Rightarrow> string \<Rightarrow> string \<Rightarrow> ('d, 'h) ws_client \<Rightarrow> ('d, 'h) client_effect list \<times> ('d, 'h) ws_client" where
  "connect created random token userId s =
     (let s1 = s\<lparr>wc_token := Some token, wc_userId := Some userId, wc_connectionState := Connecting\<rparr>
      in case created of
           Inl e \<Rightarrow> handleConnectionFailure random s1
         | Inr socket \<Rightarrow> ([], s1\<lparr>wc_socket := Some socket\<rparr>))"

definition bufferEvent_wc :: "timestamp \<Rightarrow> string \<Rightarrow> 'd client_message \<Rightarrow> ('d, 'h) ws_client \<Rightarrow> ('d, 'h) ws_client" where
  "bufferEvent_wc now event data s =
     (let pushed = wc_eventBuffer s @ [(event, data, now)]
      in s\<lparr>wc_eventBuffer := (if length pushed > 1000 then tl pushed else pushed)\<rparr>)"

definition flushBufferedEvents :: "('d, 'h) ws_client \<Rightarrow> ('d, 'h) ws_client" where
  "flushBufferedEvents s = (if length (wc_eventBuffer s) = 0 then s else s\<lparr>wc_eventBuffer := []\<rparr>)"

definition resubscribe :: "('d, 'h) ws_client \<Rightarrow> ('d, 'h) client_effect list" where
  "resubscribe s = []"

text \<open>The listeners of the socket.\<close>

definition on_connect :: "('d, 'h) ws_client \<Rightarrow> ('d, 'h) client_effect list \<times> ('d, 'h) ws_client" where
  "on_connect s =
     (let s1 = s\<lparr>wc_connectionState := Connected, wc_reconnectService := notifySuccess (wc_reconnectService s)\<rparr>;
          s2 = flushBufferedEvents s1
      in (resubscribe s2, s2))"

definition on_disconnect :: "rat \<Rightarrow> string \<Rightarrow> ('d, 'h) ws_client \<Rightarrow> ('d, 'h) client_effect list \<times> ('d, 'h) ws_client" where
  "on_disconnect random reason s =
     (let s1 = s\<lparr>wc_connectionState := Disconnected\<rparr>
      in if reason \<noteq> ''io client disconnect'' then startReconnection random s1 else ([], s1))"

definition on_connect_error :: "rat \<Rightarrow> ('d, 'h) ws_client \<Rightarrow> ('d, 'h) client_effect list \<times> ('d, 'h) ws_client" where
  "on_connect_error = handleConnectionFailure"

definition dashboard_events :: "string list" where
  "dashboard_events =
     [''portfolio:update'', ''portfolio:performance:update'', ''portfolio:allocation:update'', ''portfolio:risk:update'',
      ''portfolio:holdings:update'', ''connection:stale'', ''reconnection:success'', ''heartbeat'']"

definition handlers_of :: "string \<Rightarrow> ('d, 'h) ws_client \<Rightarrow> 'h list" where
  "handlers_of event s = nullish (Map_get event (wc_messageHandlers s)) []"

text \<open>An exception of a handler is caught here,\<close>

definition on_dashboard_event :: "string \<Rightarrow> 'd client_payload \<Rightarrow> ('d, 'h) ws_client \<Rightarrow> ('d, 'h) client_effect list" where
  "on_dashboard_event event data s =
     (if event \<in> set dashboard_events then map (\<lambda>h. Handler_Called h data) (handlers_of event s) else [])"

text \<open>but not where missed events are replayed: it ends both loops. \<open>throws\<close> tells whether a call of a handler throws.\<close>

fun call_each :: "('h \<Rightarrow> 'd client_payload \<Rightarrow> bool) \<Rightarrow> ('h \<times> 'd client_payload) list \<Rightarrow> ('d, 'h) client_effect list" where
  "call_each throws [] = []"
| "call_each throws ((h, p) # hs) = Handler_Called h p # (if throws h p then [] else call_each throws hs)"

definition on_reconnection_success ::
  "('h \<Rightarrow> 'd client_payload \<Rightarrow> bool) \<Rightarrow> nat \<Rightarrow> 'd buffered_event list option \<Rightarrow> ('d, 'h) ws_client \<Rightarrow> ('d, 'h) client_effect list" where
  "on_reconnection_success throws missed events s =
     on_dashboard_event ''reconnection:success'' (Reconnected missed events) s @
     (case events of
        None \<Rightarrow> []
      | Some es \<Rightarrow> call_each throws (concat (map (\<lambda>e. map (\<lambda>h. (h, Event_Data (be_data e))) (handlers_of (be_event e) s)) es)))"

section \<open>The methods of the client\<close>

definition emit_or_reject :: "string \<Rightarrow> 'd client_message \<Rightarrow> ('d, 'h) ws_client \<Rightarrow> ('d, 'h) client_effect list \<times> sent" where
  "emit_or_reject event data s =
     (case wc_socket s of
        None \<Rightarrow> ([], Rejected ''Socket not connected'')
      | Some k \<Rightarrow> ([Socket_Emit k event data], Awaiting))"

definition subscribePortfolio ::
  "timestamp \<Rightarrow> string \<Rightarrow> ('d, 'h) ws_client \<Rightarrow> (('d, 'h) client_effect list \<times> sent) \<times> ('d, 'h) ws_client" where
  "subscribePortfolio now portfolioId s =
     (if wc_connectionState s = Disconnected
      then (([], Resolved), bufferEvent_wc now ''portfolio:subscribe'' (Portfolio_Ref portfolioId) s)
      else (emit_or_reject ''portfolio:subscribe'' (Portfolio_Ref portfolioId) s, s))"

definition send ::
  "timestamp \<Rightarrow> string \<Rightarrow> 'd \<Rightarrow> ('d, 'h) ws_client \<Rightarrow> (('d, 'h) client_effect list \<times> sent) \<times> ('d, 'h) ws_client" where
  "send now event data s =
     (if wc_connectionState s = Disconnected
      then (([], Rejected ''Not connected''), bufferEvent_wc now event (Custom data) s)
      else (emit_or_reject event (Custom data) s, s))"

text \<open>The answer of the server to an emitted message: its \<open>error\<close>, if any.\<close>

definition settle :: "string option \<Rightarrow> sent" where
  "settle err = (if truthy err then Rejected (the err) else Resolved)"

definition on :: "string \<Rightarrow> 'h \<Rightarrow> ('d, 'h) ws_client \<Rightarrow> ('d, 'h) ws_client" where
  "on event handler s =
     s\<lparr>wc_messageHandlers := Map_set event (handlers_of event s @ [handler]) (wc_messageHandlers s)\<rparr>"

definition off :: "string \<Rightarrow> 'h \<Rightarrow> ('d, 'h) ws_client \<Rightarrow> ('d, 'h) ws_client" where
  "off event handler s = s\<lparr>wc_messageHandlers := Map_upd event (remove1 handler) (wc_messageHandlers s)\<rparr>"

definition disconnect :: "('d, 'h) ws_client \<Rightarrow> ('d, 'h) client_effect list \<times> ('d, 'h) ws_client" where
  "disconnect s =
     ((case wc_socket s of None \<Rightarrow> [] | Some k \<Rightarrow> [Socket_Disconnect k]),
      s\<lparr>wc_reconnectService := stopReconnection (wc_reconnectService s), wc_socket := None,
        wc_connectionState := Disconnected, wc_eventBuffer := []\<rparr>)"

definition isConnected :: "('d, 'h) ws_client \<Rightarrow> bool" where
  "isConnected s \<longleftrightarrow> wc_connectionState s = Connected"

section \<open>Histories\<close>

text \<open>
  What can happen to a client: the calls of its owner, the events of its socket and the timers of the
  host. A call that schedules an attempt carries its random number.
\<close>

datatype ('d, 'h) client_call =
    Call_Connect "string + nat" rat string string
  | Socket_Connected
  | Socket_Disconnected rat string
  | Socket_Error rat
  | Timer_Fired nat
  | Event_Arrived string "'d client_payload"
  | Missed_Arrived nat "'d buffered_event list option"
  | Call_Subscribe timestamp string
  | Call_Send timestamp string 'd
  | Call_On string 'h
  | Call_Off string 'h
  | Call_Disconnect

fun client_step ::
  "('h \<Rightarrow> 'd client_payload \<Rightarrow> bool) \<Rightarrow> ('d, 'h) ws_client \<Rightarrow> ('d, 'h) client_call \<Rightarrow> ('d, 'h) client_effect list \<times> ('d, 'h) ws_client" where
  "client_step throws s (Call_Connect created random token userId) = connect created random token userId s"
| "client_step throws s Socket_Connected = on_connect s"
| "client_step throws s (Socket_Disconnected random reason) = on_disconnect random reason s"
| "client_step throws s (Socket_Error random) = on_connect_error random s"
| "client_step throws s (Timer_Fired h) = with_service (timer_fires h) s"
| "client_step throws s (Event_Arrived event data) = (on_dashboard_event event data s, s)"
| "client_step throws s (Missed_Arrived n es) = (on_reconnection_success throws n es s, s)"
| "client_step throws s (Call_Subscribe now portfolioId) = (fst (fst (subscribePortfolio now portfolioId s)), snd (subscribePortfolio now portfolioId s))"
| "client_step throws s (Call_Send now event data) = (fst (fst (send now event data s)), snd (send now event data s))"
| "client_step throws s (Call_On event h) = ([], on event h s)"
| "client_step throws s (Call_Off event h) = ([], off event h s)"
| "client_step throws s Call_Disconnect = disconnect s"

fun client_run ::
  "('h \<Rightarrow> 'd client_payload \<Rightarrow> bool) \<Rightarrow> ('d, 'h) ws_client \<Rightarrow> ('d, 'h) client_call list \<Rightarrow> ('d, 'h) client_effect list \<times> ('d, 'h) ws_client" where
  "client_run throws s [] = ([], s)"
| "client_run throws s (c # cs) =
     (let (out, s1) = client_step throws s c; (rest, s2) = client_run throws s1 cs in (out @ rest, s2))"

fun is_timer_set :: "('d, 'h) client_effect \<Rightarrow> bool" where
  "is_timer_set (Timer_Set h delay) = True"
| "is_timer_set _ = False"

text \<open>The calls that schedule an attempt, with a random number below one.\<close>

fun random_ok :: "('d, 'h) client_call \<Rightarrow> bool" where
  "random_ok (Call_Connect created r token userId) = (0 \<le> r \<and> r < 1)"
| "random_ok (Socket_Disconnected r reason) = (0 \<le> r \<and> r < 1)"
| "random_ok (Socket_Error r) = (0 \<le> r \<and> r < 1)"
| "random_ok _ = True"

text \<open>The k-th delay without jitter.\<close>

definition backoff :: "reconnection_config \<Rightarrow> nat \<Rightarrow> rat" where
  "backoff c k = min (cf_baseDelay c * cf_factor c ^ k) (cf_maxDelay c)"

definition sensible :: "reconnection_config \<Rightarrow> bool" where
  "sensible c \<longleftrightarrow> 0 \<le> cf_baseDelay c \<and> cf_baseDelay c \<le> cf_maxDelay c \<and> 1 \<le> cf_factor c"

text \<open>The calls that start a reconnection, and those that no owner of the client makes.\<close>

fun is_failure :: "('d, 'h) client_call \<Rightarrow> bool" where
  "is_failure (Call_Connect created r token userId) = (\<exists>e. created = Inl e)"
| "is_failure (Socket_Disconnected r reason) = (reason \<noteq> ''io client disconnect'')"
| "is_failure (Socket_Error r) = True"
| "is_failure _ = False"

fun is_event :: "('d, 'h) client_call \<Rightarrow> bool" where
  "is_event Socket_Connected = True"
| "is_event (Socket_Disconnected r reason) = True"
| "is_event (Socket_Error r) = True"
| "is_event (Timer_Fired h) = True"
| "is_event (Event_Arrived event data) = True"
| "is_event (Missed_Arrived n es) = True"
| "is_event _ = False"

definition timers_of :: "('d, 'h) client_effect list \<Rightarrow> ('d, 'h) client_effect list" where
  "timers_of out = filter is_timer_set out"

definition sample_config :: reconnection_config_opt where
  "sample_config = \<lparr>co_maxDelay = None, co_baseDelay = None, co_maxAttempts = Some (Attempts 2), co_factor = None\<rparr>"

definition sample_calls :: "(nat, nat) client_call list" where
  "sample_calls = [Call_Connect (Inr 7) 0 ''tok'' ''u'', Socket_Connected, Socket_Disconnected (1 / 2) ''transport close'', Timer_Fired 0, Socket_Error (1 / 2), Timer_Fired 1]"

section \<open>Facts\<close>

lemma backoff_Suc:
  assumes "sensible c"
  shows "min (backoff c k * cf_factor c) (cf_maxDelay c) = backoff c (Suc k)"
proof (cases "cf_baseDelay c * cf_factor c ^ k \<le> cf_maxDelay c")
  case True
  then show ?thesis by (simp add: backoff_def mult.assoc mult.commute [of "cf_factor c"])
next
  case False
  have f: "1 \<le> cf_factor c" and m: "0 \<le> cf_maxDelay c" using assms by (auto simp: sensible_def)
  have "cf_maxDelay c * 1 \<le> cf_maxDelay c * cf_factor c" by (rule mult_left_mono [OF f m])
  moreover have "cf_baseDelay c * cf_factor c ^ k * 1 \<le> cf_baseDelay c * cf_factor c ^ k * cf_factor c"
    by (rule mult_left_mono [OF f]) (use False m in simp)
  ultimately show ?thesis using False by (simp add: backoff_def mult.assoc mult.commute [of "cf_factor c"] min_def)
qed

lemma backoff_0 [simp]: "sensible c \<Longrightarrow> backoff c 0 = cf_baseDelay c"
  by (simp add: backoff_def sensible_def)

lemma clear_timer_fields [simp]:
  "rc_config (clear_timer s) = rc_config s" "rc_currentDelay (clear_timer s) = rc_currentDelay s"
  "rc_attempts (clear_timer s) = rc_attempts s" "rc_isReconnecting (clear_timer s) = rc_isReconnecting s"
  by (simp_all add: clear_timer_def split: option.splits)

lemma jitter_bounds: "0 \<le> j \<Longrightarrow> j \<le> 3 / 10 * D \<Longrightarrow> D \<le> M \<Longrightarrow> D \<le> min (D + j) M \<and> min (D + j) M \<le> 13 / 10 * D \<and> min (D + j) M \<le> (M::rat)"
  unfolding min_def by (cases "D + j \<le> M") auto

text \<open>What a step does to the service, and which timers it starts.\<close>

lemma perform_service [simp]: "wc_reconnectService (snd (foldl perform (out, s) effs)) = wc_reconnectService s"
proof (induction effs arbitrary: out s)
  case (Cons e effs)
  then show ?case by (cases e) simp_all
qed simp

lemma service_only [simp]:
  "wc_reconnectService (snd (with_service f s)) = snd (f (wc_reconnectService s))"
  by (simp add: with_service_def split: prod.splits)

lemma start_failure:
  fixes s :: "('d, 'h) ws_client"
  defines "r \<equiv> wc_reconnectService s"
  assumes more: "case cf_maxAttempts (rc_config r) of Unlimited \<Rightarrow> True | Attempts n \<Rightarrow> int (rc_attempts r) < n"
  shows "fst (startReconnection random s) = [Timer_Set (rc_nextHandle r) (min (rc_currentDelay r + random * (3 / 10) * rc_currentDelay r) (cf_maxDelay (rc_config r)))] \<and>
    rc_attempts (wc_reconnectService (snd (startReconnection random s))) = Suc (rc_attempts r) \<and>
    rc_config (wc_reconnectService (snd (startReconnection random s))) = rc_config r \<and>
    rc_currentDelay (wc_reconnectService (snd (startReconnection random s))) = min (rc_currentDelay r * cf_factor (rc_config r)) (cf_maxDelay (rc_config r))"
  using more by (simp add: r_def startReconnection_def with_service_def startReconnection_rc_def scheduleReconnect_def shouldAttempt_def
      calculateNextDelay_def Let_def called_def split: attempt_limit.splits)

lemma start_exhausted:
  fixes s :: "('d, 'h) ws_client"
  defines "r \<equiv> wc_reconnectService s"
  assumes limit: "cf_maxAttempts (rc_config r) = Attempts n" "n \<le> int (rc_attempts r)"
  shows "fst (startReconnection random s) = [] \<and> wc_connectionState (snd (startReconnection random s)) = Disconnected \<and>
    rc_attempts (wc_reconnectService (snd (startReconnection random s))) = rc_attempts r \<and>
    rc_config (wc_reconnectService (snd (startReconnection random s))) = rc_config r \<and>
    rc_currentDelay (wc_reconnectService (snd (startReconnection random s))) = rc_currentDelay r \<and>
    \<not> rc_isReconnecting (wc_reconnectService (snd (startReconnection random s)))"
  using limit by (simp add: r_def startReconnection_def with_service_def startReconnection_rc_def scheduleReconnect_def shouldAttempt_def
      called_def)

lemma failure_step:
  "is_failure c \<Longrightarrow> \<exists>random s'. client_step throws s c = startReconnection random s' \<and> wc_reconnectService s' = wc_reconnectService s \<and>
    (random_ok c \<longrightarrow> 0 \<le> random \<and> random < 1)"
proof (cases c)
  case (Call_Connect created random token userId)
  assume "is_failure c"
  then show ?thesis unfolding Call_Connect
    by (intro exI [of _ random] exI [of _ "s\<lparr>wc_token := Some token, wc_userId := Some userId, wc_connectionState := Disconnected\<rparr>"])
      (auto simp: connect_def handleConnectionFailure_def Let_def)
next
  case (Socket_Disconnected random reason)
  assume "is_failure c"
  then show ?thesis unfolding Socket_Disconnected
    by (intro exI [of _ random] exI [of _ "s\<lparr>wc_connectionState := Disconnected\<rparr>"]) (simp add: on_disconnect_def Let_def)
next
  case (Socket_Error random)
  then show ?thesis
    by (intro exI [of _ random] exI [of _ "s\<lparr>wc_connectionState := Disconnected\<rparr>"]) (simp add: on_connect_error_def handleConnectionFailure_def)
qed auto

lemma timer_fires_quiet:
  "timers_of (fst (with_service (timer_fires h) s)) = []" "rc_attempts (snd (timer_fires h r)) = rc_attempts r"
  "rc_config (snd (timer_fires h r)) = rc_config r" "rc_currentDelay (snd (timer_fires h r)) = rc_currentDelay r"
  "rc_isReconnecting (snd (timer_fires h r)) = rc_isReconnecting r"
  by (auto simp: with_service_def timer_fires_def called_def attemptReconnect_def timers_of_def split: option.splits)

lemma handlers_quiet:
  "timers_of (on_dashboard_event event data s) = []" "timers_of (call_each throws hs) = []"
proof -
  show "timers_of (on_dashboard_event event data s) = []" by (auto simp: on_dashboard_event_def timers_of_def filter_empty_conv)
  show "timers_of (call_each throws hs) = []" by (induction throws hs rule: call_each.induct) (auto simp: timers_of_def)
qed

lemma timers_of_append [simp]: "timers_of (xs @ ys) = timers_of xs @ timers_of ys" by (simp add: timers_of_def)

lemma quiet_step:
  assumes "\<not> is_failure c" "c \<noteq> Socket_Connected"
  shows "timers_of (fst (client_step throws s c)) = [] \<and>
    rc_attempts (wc_reconnectService (snd (client_step throws s c))) = rc_attempts (wc_reconnectService s) \<and>
    rc_config (wc_reconnectService (snd (client_step throws s c))) = rc_config (wc_reconnectService s) \<and>
    rc_currentDelay (wc_reconnectService (snd (client_step throws s c))) = rc_currentDelay (wc_reconnectService s) \<and>
    (rc_isReconnecting (wc_reconnectService (snd (client_step throws s c))) \<longrightarrow> rc_isReconnecting (wc_reconnectService s))"
proof (cases c)
  case (Timer_Fired h)
  then show ?thesis by (simp add: timer_fires_quiet)
next
  case (Missed_Arrived n es)
  then show ?thesis by (simp add: on_reconnection_success_def handlers_quiet split: option.splits) (simp add: timers_of_def)
next
  case (Event_Arrived event data)
  then show ?thesis by (simp add: handlers_quiet)
qed (use assms in \<open>auto simp: connect_def on_disconnect_def subscribePortfolio_def send_def emit_or_reject_def bufferEvent_wc_def on_def off_def
      disconnect_def stopReconnection_def timers_of_def Let_def split: sum.splits option.splits\<close>)

lemma connected_step:
  "timers_of (fst (client_step throws s Socket_Connected)) = []"
  "rc_attempts (wc_reconnectService (snd (client_step throws s Socket_Connected))) = 0"
  "rc_config (wc_reconnectService (snd (client_step throws s Socket_Connected))) = rc_config (wc_reconnectService s)"
  "rc_currentDelay (wc_reconnectService (snd (client_step throws s Socket_Connected))) = cf_baseDelay (rc_config (wc_reconnectService s))"
  by (simp_all add: on_connect_def resubscribe_def flushBufferedEvents_def notifySuccess_def reset_rc_def timers_of_def Let_def)

lemma client_run_append:
  "client_run throws s (cs @ [c]) =
    (fst (client_run throws s cs) @ fst (client_step throws (snd (client_run throws s cs)) c), snd (client_step throws (snd (client_run throws s cs)) c))"
  by (induction cs arbitrary: s) (simp_all add: Let_def split: prod.splits)

lemma client_config:
  "rc_config (wc_reconnectService (snd (client_step throws s c))) = rc_config (wc_reconnectService s)"
proof (cases "is_failure c")
  case True
  then obtain random s' where step: "client_step throws s c = startReconnection random s'" "wc_reconnectService s' = wc_reconnectService s"
    using failure_step by blast
  show ?thesis
  proof (cases "cf_maxAttempts (rc_config (wc_reconnectService s))")
    case (Attempts n)
    then show ?thesis using start_failure [of s' random] start_exhausted [of s' n random] step by (cases "int (rc_attempts (wc_reconnectService s)) < n") simp_all
  qed (use start_failure [of s' random] step in simp)
next
  case False
  then show ?thesis using quiet_step connected_step by blast
qed

text \<open>Without a limit or below it the delay follows the back-off; once the limit is reached nothing moves.\<close>

lemma backoff_step:
  assumes c: "sensible (rc_config (wc_reconnectService s))"
    and d: "rc_currentDelay (wc_reconnectService s) = backoff (rc_config (wc_reconnectService s)) (rc_attempts (wc_reconnectService s))"
  shows "rc_currentDelay (wc_reconnectService (snd (client_step throws s c))) =
    backoff (rc_config (wc_reconnectService s)) (rc_attempts (wc_reconnectService (snd (client_step throws s c))))"
proof (cases "is_failure c")
  case True
  then obtain random s' where step: "client_step throws s c = startReconnection random s'" "wc_reconnectService s' = wc_reconnectService s"
    using failure_step by blast
  note more = start_failure [of s' random, unfolded step]
  show ?thesis
  proof (cases "case cf_maxAttempts (rc_config (wc_reconnectService s)) of Unlimited \<Rightarrow> True | Attempts n \<Rightarrow> int (rc_attempts (wc_reconnectService s)) < n")
    case True
    then show ?thesis using more step d backoff_Suc [OF c] by simp
  next
    case False
    then obtain n where "cf_maxAttempts (rc_config (wc_reconnectService s)) = Attempts n" "n \<le> int (rc_attempts (wc_reconnectService s))"
      by (auto split: attempt_limit.splits)
    then show ?thesis using start_exhausted [of s' n random] step d by simp
  qed
next
  case False
  then show ?thesis using quiet_step [of c throws s] connected_step [of throws s] d c by (cases "c = Socket_Connected") simp_all
qed

lemma backoff_run:
  assumes "sensible (spread_config defaultConfig opts)"
  shows "rc_config (wc_reconnectService (snd (client_run throws (new_client opts) cs))) = spread_config defaultConfig opts \<and>
    rc_currentDelay (wc_reconnectService (snd (client_run throws (new_client opts) cs))) =
      backoff (spread_config defaultConfig opts) (rc_attempts (wc_reconnectService (snd (client_run throws (new_client opts) cs))))"
proof (induction cs rule: rev_induct)
  case Nil
  then show ?case using assms by (simp add: new_client_def new_reconnection_def Let_def)
next
  case (snoc c cs)
  then show ?case using backoff_step [of "snd (client_run throws (new_client opts) cs)" throws c] client_config [of throws _ c] assms by (simp add: client_run_append)
qed

lemma limited_run:
  assumes limit: "cf_maxAttempts (spread_config defaultConfig opts) = Attempts (int n)"
  shows "Socket_Connected \<notin> set cs \<Longrightarrow> let (out, s) = client_run throws (new_client opts) cs; f = length (filter is_failure cs)
    in length (timers_of out) = min f n \<and> rc_attempts (wc_reconnectService s) = min f n \<and>
       rc_config (wc_reconnectService s) = spread_config defaultConfig opts \<and> (f > n \<longrightarrow> \<not> rc_isReconnecting (wc_reconnectService s))"
proof (induction cs rule: rev_induct)
  case Nil
  then show ?case by (simp add: new_client_def new_reconnection_def timers_of_def Let_def)
next
  case (snoc c cs)
  let ?s = "snd (client_run throws (new_client opts) cs)"
  have IH: "length (timers_of (fst (client_run throws (new_client opts) cs))) = min (length (filter is_failure cs)) n"
    "rc_attempts (wc_reconnectService ?s) = min (length (filter is_failure cs)) n" "rc_config (wc_reconnectService ?s) = spread_config defaultConfig opts"
    "length (filter is_failure cs) > n \<longrightarrow> \<not> rc_isReconnecting (wc_reconnectService ?s)"
    using snoc by (simp_all add: Let_def split: prod.splits)
  show ?case
  proof (cases "is_failure c")
    case True
    then obtain random s' where step: "client_step throws ?s c = startReconnection random s'" "wc_reconnectService s' = wc_reconnectService ?s"
      using failure_step by blast
    show ?thesis
    proof (cases "length (filter is_failure cs) < n")
      case less: True
      then show ?thesis using start_failure [of s' random] step IH limit True by (simp add: client_run_append Let_def timers_of_def)
    next
      case False
      then show ?thesis using start_exhausted [of s' "int n" random] step IH limit True by (simp add: client_run_append Let_def timers_of_def)
    qed
  next
    case False
    then show ?thesis using quiet_step [of c throws ?s] snoc.prems IH by (auto simp: client_run_append Let_def)
  qed
qed

lemma events_emit_nothing: "list_all is_event cs \<Longrightarrow> Socket_Emit k event data \<notin> set (fst (client_run throws s cs))"
proof (induction cs arbitrary: s)
  case (Cons c cs)
  have perform: "Socket_Emit k event data \<notin> set (fst (foldl perform (out, s') effs))" if "Socket_Emit k event data \<notin> set out"
    for out :: "('a, 'b) client_effect list" and s' effs
    using that
  proof (induction effs arbitrary: out s')
    case (Cons e effs)
    then show ?case by (cases e) (auto simp: attemptReconnect_def)
  qed simp
  have service: "Socket_Emit k event data \<notin> set (fst (with_service f s'))" for f and s' :: "('a, 'b) ws_client"
    by (simp add: with_service_def perform split: prod.splits)
  have each: "Socket_Emit k event data \<notin> set (call_each throws hs)" for hs by (induction throws hs rule: call_each.induct) auto
  have "Socket_Emit k event data \<notin> set (fst (client_step throws s c))"
    using Cons.prems by (cases c) (auto simp: on_connect_def resubscribe_def on_disconnect_def on_connect_error_def handleConnectionFailure_def
        startReconnection_def service on_dashboard_event_def on_reconnection_success_def each Let_def split: option.splits)
  then show ?case using Cons by (simp add: Let_def case_prod_beta)
qed simp

section \<open>Properties\<close>

text \<open>
  In every history of a client whose configuration has a factor of at least one and a base delay within the
  maximum, a timer for the (k+1)-st attempt since the last connection waits at least the k-th
  exponential delay, cut off at the maximum, at most 1.3 times that delay, and never longer than
  the maximum.
\<close>

theorem backoff_bounds:
  assumes config: "sensible (spread_config defaultConfig opts)" and random: "random_ok c"
    and timer: "Timer_Set h delay \<in> set (fst (client_step throws (snd (client_run throws (new_client opts) cs)) c))"
  shows "let k = rc_attempts (wc_reconnectService (snd (client_run throws (new_client opts) cs)))
    in backoff (spread_config defaultConfig opts) k \<le> delay \<and> delay \<le> 13 / 10 * backoff (spread_config defaultConfig opts) k \<and>
       delay \<le> cf_maxDelay (spread_config defaultConfig opts)"
proof -
  let ?s = "snd (client_run throws (new_client opts) cs)" and ?c = "spread_config defaultConfig opts"
  define D where "D = backoff ?c (rc_attempts (wc_reconnectService ?s))"
  have s: "rc_config (wc_reconnectService ?s) = ?c" "rc_currentDelay (wc_reconnectService ?s) = D"
    using backoff_run [OF config, of throws cs] by (simp_all add: D_def)
  have "Timer_Set h delay \<in> set (timers_of (fst (client_step throws ?s c)))" using timer by (simp add: timers_of_def)
  then have "is_failure c" using quiet_step [of c throws ?s] connected_step(1) [of throws ?s] by fastforce
  then obtain random s' where step: "client_step throws ?s c = startReconnection random s'" "wc_reconnectService s' = wc_reconnectService ?s"
    "0 \<le> random" "random < 1" using failure_step random by blast
  have d: "delay = min (D + random * (3 / 10) * D) (cf_maxDelay ?c)"
  proof (cases "case cf_maxAttempts (rc_config (wc_reconnectService s')) of Unlimited \<Rightarrow> True | Attempts n \<Rightarrow> int (rc_attempts (wc_reconnectService s')) < n")
    case True
    then show ?thesis using start_failure [of s' random] timer step s by simp
  next
    case False
    then obtain n where "cf_maxAttempts (rc_config (wc_reconnectService s')) = Attempts n" "n \<le> int (rc_attempts (wc_reconnectService s'))"
      by (auto split: attempt_limit.splits)
    then show ?thesis using start_exhausted [of s' n random] timer step(1) by simp
  qed
  have "0 \<le> cf_factor ?c ^ k" for k using config by (simp add: sensible_def)
  then have D: "0 \<le> D" "D \<le> cf_maxDelay ?c" using config by (auto simp: D_def backoff_def sensible_def)
  have "D * random \<le> D * 1" by (rule mult_left_mono) (use step D in simp_all)
  moreover have "0 \<le> D * random" using step D by simp
  moreover have "random * (3 / 10) * D = 3 / 10 * (D * random)" by simp
  ultimately have "0 \<le> random * (3 / 10) * D" "random * (3 / 10) * D \<le> 3 / 10 * D" by simp_all
  then have "D \<le> delay \<and> delay \<le> 13 / 10 * D \<and> delay \<le> cf_maxDelay ?c" unfolding d by (rule jitter_bounds) (rule D)
  then show ?thesis by (simp add: D_def Let_def)
qed

theorem backoff_bounds_witness:
  "7 / 2 * (1000 :: rat) \<le> 4000 \<and> Timer_Set 1 2300 \<in> set (fst (client_step (\<lambda>h p. False) (snd (client_run (\<lambda>h p. False) (new_client sample_config) (take 4 sample_calls))) (Socket_Error (1 / 2)))) \<and>
   (2300 :: rat) \<le> 13 / 10 * backoff (spread_config defaultConfig sample_config) 1"
proof -
  let ?s = "snd (client_run (\<lambda>h p. False) (new_client sample_config) (take 4 sample_calls))"
  have c: "sensible (spread_config defaultConfig sample_config)" by code_simp
  have t: "Timer_Set 1 2300 \<in> set (fst (client_step (\<lambda>h p. False) ?s (Socket_Error (1 / 2))))" by code_simp
  have k: "rc_attempts (wc_reconnectService ?s) = 1" by code_simp
  from backoff_bounds [OF c _ t] k t show ?thesis by (simp add: Let_def)
qed

text \<open>
  C33. A server that stays unreachable is given up: with a limit of n attempts and no successful connection, the
  number of timers ever started is the number of failures or n, whichever is less, in every
  interleaving with other calls; after more than n failures no reconnection is under way, and a
  further failure starts no timer and leaves the client disconnected.
\<close>

theorem unreachable_server_given_up:
  assumes limit: "cf_maxAttempts (spread_config defaultConfig opts) = Attempts (int n)"
    and unreachable: "Socket_Connected \<notin> set cs"
  shows "let (out, s) = client_run throws (new_client opts) cs; f = length (filter is_failure cs)
    in length (filter is_timer_set out) = min f n \<and> (f > n \<longrightarrow> \<not> rc_isReconnecting (wc_reconnectService s)) \<and>
       (\<forall>random. f \<ge> n \<longrightarrow> fst (client_step throws s (Socket_Error random)) = [] \<and> wc_connectionState (snd (client_step throws s (Socket_Error random))) = Disconnected)"
proof -
  let ?s = "snd (client_run throws (new_client opts) cs)" and ?f = "length (filter is_failure cs)"
  have run: "length (timers_of (fst (client_run throws (new_client opts) cs))) = min ?f n" "rc_attempts (wc_reconnectService ?s) = min ?f n"
    "rc_config (wc_reconnectService ?s) = spread_config defaultConfig opts" "?f > n \<longrightarrow> \<not> rc_isReconnecting (wc_reconnectService ?s)"
    using limited_run [OF limit unreachable, of throws] by (simp_all add: Let_def split: prod.splits)
  have "fst (client_step throws ?s (Socket_Error random)) = [] \<and> wc_connectionState (snd (client_step throws ?s (Socket_Error random))) = Disconnected"
    if f: "?f \<ge> n" for random
  proof -
    obtain r s' where step: "client_step throws ?s (Socket_Error random) = startReconnection r s'" "wc_reconnectService s' = wc_reconnectService ?s"
      using failure_step [of "Socket_Error random" throws ?s] by auto
    then show ?thesis using start_exhausted [of s' "int n" r] run limit f by simp
  qed
  then show ?thesis using run by (simp add: timers_of_def Let_def case_prod_beta del: client_step.simps)
qed

theorem unreachable_server_given_up_witness:
  "let (out, s) = client_run (\<lambda>h p. False) (new_client sample_config) [Socket_Error 0, Timer_Fired 0, Socket_Error 0, Timer_Fired 1, Socket_Error 0 :: (nat, nat) client_call]
   in length (filter is_timer_set out) = 2 \<and> \<not> rc_isReconnecting (wc_reconnectService s)"
proof -
  have "cf_maxAttempts (spread_config defaultConfig sample_config) = Attempts (int 2)" by code_simp
  from unreachable_server_given_up [OF this, of "[Socket_Error 0, Timer_Fired 0, Socket_Error 0, Timer_Fired 1, Socket_Error 0 :: (nat, nat) client_call]" "\<lambda>h p. False"]
  show ?thesis by (simp add: Let_def case_prod_beta del: client_run.simps client_step.simps)
qed

text \<open>
  A subscription made while the client is disconnected is reported as a success and never reaches the
  server: nothing is emitted by the call, nor by any later event of the socket or timer, and the
  buffered request is dropped when the connection is back.
\<close>

theorem offline_subscription_lost:
  assumes "wc_connectionState s = Disconnected" and events: "list_all is_event cs"
  shows "let ((out, promise), s1) = subscribePortfolio now portfolioId s; (out', s2) = client_run throws s1 cs
    in promise = Resolved \<and> out = [] \<and> (\<forall>k event data. Socket_Emit k event data \<notin> set out') \<and> wc_eventBuffer (snd (on_connect s2)) = []"
proof -
  have "Socket_Emit k event data \<notin> set (fst (client_run throws s1 cs))" for k event data s1 by (rule events_emit_nothing [OF events])
  then show ?thesis using assms(1)
    by (simp add: subscribePortfolio_def on_connect_def flushBufferedEvents_def Let_def case_prod_beta)
qed

theorem offline_subscription_lost_witness:
  "let ((out, promise), s1) = subscribePortfolio 5 ''p1'' (new_client sample_config :: (nat, nat) ws_client);
       (out', s2) = client_run (\<lambda>h p. False) s1 [Socket_Connected, Event_Arrived ''heartbeat'' (Event_Data 3)]
   in promise = Resolved \<and> length (wc_eventBuffer s1) = 1 \<and> (\<forall>k. Socket_Emit k ''portfolio:subscribe'' (Portfolio_Ref ''p1'') \<notin> set out')"
proof -
  have s: "wc_connectionState (new_client sample_config :: (nat, nat) ws_client) = Disconnected" by (simp add: new_client_def)
  have cs: "list_all is_event [Socket_Connected, Event_Arrived ''heartbeat'' (Event_Data 3) :: (nat, nat) client_call]" by simp
  have "length (wc_eventBuffer (snd (subscribePortfolio 5 ''p1'' (new_client sample_config :: (nat, nat) ws_client)))) = 1" by code_simp
  then show ?thesis using offline_subscription_lost [OF s cs, of 5 "''p1''" "\<lambda>h p. False"]
    by (simp add: Let_def case_prod_beta del: client_run.simps client_step.simps)
qed

text \<open>
  A reconnection loses the portfolio subscriptions: the gateway registers the new connection without any and
  lets it join no portfolio room, and neither the connection event nor any later event makes the
  client ask for them again.
\<close>

theorem reconnect_forgets_subscriptions:
  assumes auth: "authenticated verify hs = Some userId" and events: "list_all is_event cs"
  shows "let (effs, g') = handleConnection verify now clientId hs g
    in (\<exists>i. getConnectionInfo clientId (gw_conns g') = Some i \<and> ci_subscriptions i = []) \<and>
       (\<forall>portfolioId. JoinRoom clientId (''portfolio:'' @ portfolioId) \<notin> set effs) \<and>
       (\<forall>k event data. Socket_Emit k event data \<notin> set (fst (client_run throws s (Socket_Connected # cs))))"
proof -
  have "list_all is_event (Socket_Connected # cs)" using events by simp
  then have "Socket_Emit k event data \<notin> set (fst (client_run throws s (Socket_Connected # cs)))" for k event data by (rule events_emit_nothing)
  moreover have "''user:'' @ userId \<noteq> ''portfolio:'' @ portfolioId" for portfolioId by simp
  ultimately show ?thesis using auth
    by (simp add: handleConnection_authenticated connect_user_def getConnectionInfo_def register_get Let_def case_prod_beta del: client_run.simps)
qed

theorem reconnect_forgets_subscriptions_witness:
  "let verify = (\<lambda>t. if t = ''tok'' then Some (Some ''u'', None) else None);
       hs = \<lparr>hs_authorization = Some ''Bearer tok'', hs_auth_token = None, hs_query_token = None\<rparr>
   in \<exists>i. getConnectionInfo ''b'' (gw_conns (snd (handleConnection verify 9 ''b'' hs (\<lparr>gw_conns = init_conn_manager, gw_buffer = init_event_buffer\<rparr> :: (nat, nat) gateway)))) = Some i \<and> ci_subscriptions i = []"
proof -
  let ?v = "\<lambda>t. if t = ''tok'' then Some (Some ''u'', None) else None"
  let ?hs = "\<lparr>hs_authorization = Some ''Bearer tok'', hs_auth_token = None, hs_query_token = None\<rparr>"
  have "authenticated ?v ?hs = Some ''u''" by (simp add: authenticated_def extractToken_def startsWith_def token_user_def)
  moreover have "list_all is_event ([] :: (nat, nat) client_call list)" by simp
  ultimately show ?thesis using reconnect_forgets_subscriptions [of ?v ?hs "''u''" "[] :: (nat, nat) client_call list" 9 "''b''" "\<lparr>gw_conns = init_conn_manager, gw_buffer = init_event_buffer\<rparr> :: (nat, nat) gateway"]
    by (simp add: Let_def case_prod_beta)
qed

text \<open>
  Replay of missed events: they reach their handlers in order, each as often as it is registered, up to and
  including the first call of a handler that throws; every later missed event is lost.
\<close>

theorem replay_until_throw:
  assumes "calls = concat (map (\<lambda>e. map (\<lambda>h. (h, Event_Data (be_data e))) (handlers_of (be_event e) s)) es)"
  shows "on_reconnection_success throws n (Some es) s =
    map (\<lambda>h. Handler_Called h (Reconnected n (Some es))) (handlers_of ''reconnection:success'' s) @
    map (\<lambda>(h, p). Handler_Called h p) (takeWhile (\<lambda>(h, p). \<not> throws h p) calls @ take 1 (dropWhile (\<lambda>(h, p). \<not> throws h p) calls))"
proof -
  have "call_each throws cs = map (\<lambda>(h, p). Handler_Called h p) (takeWhile (\<lambda>(h, p). \<not> throws h p) cs @ take 1 (dropWhile (\<lambda>(h, p). \<not> throws h p) cs))"
    for cs :: "('a \<times> 'b client_payload) list" by (induction throws cs rule: call_each.induct) auto
  then show ?thesis using assms by (simp add: on_reconnection_success_def on_dashboard_event_def dashboard_events_def)
qed

theorem replay_until_throw_witness:
  "on_reconnection_success (\<lambda>h p. h = (2 :: nat)) 2 (Some [\<lparr>be_event = ''x'', be_data = 5 :: nat, be_timestamp = 1\<rparr>, \<lparr>be_event = ''x'', be_data = 6, be_timestamp = 2\<rparr>])
     (on ''x'' 2 (on ''x'' 1 (new_client sample_config))) = [Handler_Called 1 (Event_Data 5), Handler_Called 2 (Event_Data 5)]"
  by (subst replay_until_throw [OF refl]) (simp add: on_def handlers_of_def new_client_def)

end
