(* ===== verification/Log_Sanitizer.thy ===== *)
theory Log_Sanitizer
  imports Decimal
begin

text \<open>
  What the service writes to its log: the redaction of values (logging/sanitize.util.ts), the logger all
  entries go through (logging/logger.service.ts) and the middleware that logs requests and responses
  (logging/http-logging.middleware.ts). A JavaScript value is a possibly infinite tree, so a cyclic
  object is one too; the winston transport is the list of what it is called with. The key
  \<^verbatim>\<open>__proto__\<close>, whose assignment makes no property, is taken not to occur.
\<close>

section \<open>Values\<close>

text \<open>\<open>Other\<close> holds numbers, booleans and functions by their text.\<close>

codatatype js_value =
    Undefined
  | Null
  | Text string
  | Other string
  | Date_Value timestamp
  | Js_Array "js_value list"
  | Js_Object "(string \<times> js_value) list"

type_synonym js_fields = "(string \<times> js_value) list"

section \<open>The registry\<close>

definition SENSITIVE_FIELDS :: "string list" where
  "SENSITIVE_FIELDS =
     [''password'', ''passwordconfirm'', ''oldpassword'', ''newpassword'', ''currentpassword'', ''confirmpassword'', ''token'',
      ''accesstoken'', ''refreshtoken'', ''idtoken'', ''authtoken'', ''sessiontoken'', ''bearertoken'', ''secret'', ''apikey'',
      ''api_key'', ''clientsecret'', ''client_secret'', ''clientid'', ''ssn'', ''socialsecuritynumber'', ''creditcard'', ''cardnumber'',
      ''cvv'', ''cvc'', ''pin'', ''dateofbirth'', ''dob'', ''privatekey'', ''private_key'', ''mnemonic'', ''seed'', ''seedphrase'',
      ''walletpassphrase'', ''keystorepassword'', ''databasepassword'', ''db_password'', ''smtppassword'', ''smtp_password'',
      ''redispassword'', ''redis_password'']"

definition SENSITIVE_HEADERS :: "string list" where
  "SENSITIVE_HEADERS =
     [''authorization'', ''cookie'', ''set-cookie'', ''x-api-key'', ''x-auth-token'', ''x-access-token'', ''x-refresh-token'',
      ''proxy-authorization'', ''www-authenticate'']"

definition REDACTED :: string where "REDACTED = ''[REDACTED]''"

definition MAX_DEPTH :: nat where "MAX_DEPTH = 8"

definition MAX_ARRAY_LENGTH :: nat where "MAX_ARRAY_LENGTH = 50"

section \<open>Sanitising\<close>

text \<open>\<^verbatim>\<open>key.toLowerCase().replace(/[-_\s]/g, "")\<close>\<close>

definition normal_key :: "string \<Rightarrow> string" where
  "normal_key key = filter (\<lambda>c. \<not> (c = CHR ''-'' \<or> c = CHR ''_'' \<or> is_js_space c)) (toLowerCase key)"

definition is_sensitive :: "string list \<Rightarrow> string \<Rightarrow> bool" where
  "is_sensitive extra key \<longleftrightarrow> normal_key key \<in> set SENSITIVE_FIELDS \<or> normal_key key \<in> set extra"

text \<open>\<open>sanitizeValue\<close> with \<open>sanitizeObject\<close> in it; the depth bounds the recursion on any value.\<close>

function sanitizeValue :: "string list \<Rightarrow> nat \<Rightarrow> js_value \<Rightarrow> js_value" where
  "sanitizeValue extra depth value =
     (if value = Null \<or> value = Undefined then value
      else if depth > MAX_DEPTH then Text ''[MAX_DEPTH]''
      else case value of
             Js_Array items \<Rightarrow> Js_Array (map (sanitizeValue extra (depth + 1)) (take MAX_ARRAY_LENGTH items))
           | Js_Object fields \<Rightarrow>
               Js_Object (map (\<lambda>(key, val). (key, if is_sensitive extra key then Text REDACTED
                                                   else sanitizeValue extra (depth + 1) val)) fields)
           | _ \<Rightarrow> value)"
  by pat_completeness auto

termination
  by (relation "measure (\<lambda>(extra, depth, value). MAX_DEPTH + 1 - depth)") auto

declare sanitizeValue.simps [simp del]

definition sanitizeObject :: "string list \<Rightarrow> nat \<Rightarrow> js_fields \<Rightarrow> js_fields" where
  "sanitizeObject extra depth obj =
     map (\<lambda>(key, val). (key, if is_sensitive extra key then Text REDACTED else sanitizeValue extra (depth + 1) val)) obj"

definition sanitizeHeaders :: "string list \<Rightarrow> js_fields \<Rightarrow> js_fields" where
  "sanitizeHeaders extra headers =
     map (\<lambda>(key, value). (key, if toLowerCase key \<in> set SENSITIVE_HEADERS \<or> toLowerCase key \<in> set extra
                               then Text REDACTED else value)) headers"

definition sanitizeQuery :: "js_fields \<Rightarrow> js_fields" where
  "sanitizeQuery query =
     map (\<lambda>(key, value). (key, if toLowerCase key \<in> set SENSITIVE_FIELDS then Text REDACTED else value)) query"

section \<open>Error messages\<close>

text \<open>
  \<^verbatim>\<open>replace\<close> with a global expression: at each place the expression is tried with the character before it,
  and gives the number of characters it takes and their replacement. Each expression here has one
  way to match, since the classes of neighbouring repetitions are disjoint.
\<close>

type_synonym matcher = "char option \<Rightarrow> string \<Rightarrow> (nat \<times> string) option"

function replace_all :: "matcher \<Rightarrow> char option \<Rightarrow> string \<Rightarrow> string" where
  "replace_all m before [] = []"
| "replace_all m before (c # s) =
     (case m before (c # s) of
        None \<Rightarrow> c # replace_all m (Some c) s
      | Some (n, r) \<Rightarrow> r @ replace_all m (Some (last (take (max 1 n) (c # s)))) (drop (max 1 n) (c # s)))"
  by pat_completeness auto

termination
  by (relation "measure (\<lambda>(m, before, s). length s)") (auto simp: max_def)

definition between :: "char \<Rightarrow> char \<Rightarrow> char \<Rightarrow> bool" where
  "between a b c \<longleftrightarrow> (of_char a :: nat) \<le> of_char c \<and> (of_char c :: nat) \<le> of_char b"

definition is_word :: "char \<Rightarrow> bool" where
  "is_word c \<longleftrightarrow> is_digit c \<or> between (CHR ''A'') (CHR ''Z'') c \<or> between (CHR ''a'') (CHR ''z'') c \<or> c = CHR ''_''"

definition is_hex :: "char \<Rightarrow> bool" where
  "is_hex c \<longleftrightarrow> is_digit c \<or> between (CHR ''A'') (CHR ''F'') c \<or> between (CHR ''a'') (CHR ''f'') c"

definition is_base64url :: "char \<Rightarrow> bool" where
  "is_base64url c \<longleftrightarrow> is_word c \<or> c = CHR ''-''"

definition is_base64 :: "char \<Rightarrow> bool" where
  "is_base64 c \<longleftrightarrow> is_word c \<and> c \<noteq> CHR ''_'' \<or> c \<in> {CHR ''+'', CHR ''/'', CHR ''=''}"

definition head_is :: "(char \<Rightarrow> bool) \<Rightarrow> string \<Rightarrow> bool" where
  "head_is P s = (case s of [] \<Rightarrow> False | c # _ \<Rightarrow> P c)"

definition jwt_match :: matcher where
  "jwt_match before s =
     (let a = takeWhile is_base64url (drop 3 s); s1 = drop (3 + length a) s;
          b = takeWhile is_base64url (drop 1 s1); s2 = drop (1 + length b) s1;
          c = takeWhile is_base64url (drop 1 s2)
      in if startsWith s ''eyJ'' \<and> a \<noteq> [] \<and> head_is (\<lambda>x. x = CHR ''.'') s1 \<and> b \<noteq> [] \<and> head_is (\<lambda>x. x = CHR ''.'') s2
         then Some (3 + length a + 1 + length b + 1 + length c, REDACTED) else None)"

definition hex_match :: matcher where
  "hex_match before s =
     (let start = (if startsWith s ''0x'' then 2 else 0);
          h = takeWhile is_hex (drop start s)
      in if (case before of None \<Rightarrow> True | Some c \<Rightarrow> \<not> is_word c) \<and> 64 \<le> length h \<and> length h \<le> 128 \<and>
            \<not> head_is is_word (drop (start + length h) s)
         then Some (start + length h, REDACTED) else None)"

definition scheme_match :: "string \<Rightarrow> (char \<Rightarrow> bool) \<Rightarrow> matcher" where
  "scheme_match scheme P before s =
     (let n = length scheme; blanks = takeWhile is_js_space (drop n s); w = takeWhile P (drop (n + length blanks) s)
      in if toLowerCase (take n s) = toLowerCase scheme \<and> blanks \<noteq> [] \<and> w \<noteq> []
         then Some (n + length blanks + length w, scheme @ '' '' @ REDACTED) else None)"

definition assignment_match :: matcher where
  "assignment_match before s =
     (case filter (\<lambda>w. toLowerCase (take (length w) s) = w) [''password'', ''secret'', ''key'', ''token''] of
        [] \<Rightarrow> None
      | w # _ \<Rightarrow>
          (let n = length w; b1 = takeWhile is_js_space (drop n s); s1 = drop (n + length b1) s;
               b2 = takeWhile is_js_space (drop 1 s1); v = takeWhile (\<lambda>c. \<not> is_js_space c) (drop (1 + length b2) s1)
           in if head_is (\<lambda>x. x = CHR ''='') s1 \<and> v \<noteq> []
              then Some (n + length b1 + 1 + length b2 + length v, take n s @ ''='' @ REDACTED) else None))"

definition sanitizeErrorMessage :: "string \<Rightarrow> string" where
  "sanitizeErrorMessage message =
     replace_all assignment_match None
       (replace_all (scheme_match ''Basic'' is_base64) None
         (replace_all (scheme_match ''Bearer'' (\<lambda>c. \<not> is_js_space c)) None
           (replace_all hex_match None (replace_all jwt_match None message))))"

text \<open>What was thrown: an error with its enumerable properties, or any other value by its text.\<close>

datatype thrown =
    Thrown_Error (te_type: string) (te_message: string) (te_stack: "string option") (te_props: js_fields)
  | Thrown_Other string

definition thrown_text :: "thrown \<Rightarrow> string" where
  "thrown_text e = (case e of Thrown_Error t m s ps \<Rightarrow> m | Thrown_Other t \<Rightarrow> t)"

definition assign_fields :: "js_fields \<Rightarrow> js_fields \<Rightarrow> js_fields" where
  "assign_fields base more = foldl (\<lambda>m (k, v). Map_set k v m) base more"

definition formatError :: "bool \<Rightarrow> thrown \<Rightarrow> js_fields" where
  "formatError includeStack e =
     (case e of
        Thrown_Other t \<Rightarrow> [(''message'', Text (sanitizeErrorMessage t)), (''type'', Text ''unknown'')]
      | Thrown_Error t m stack props \<Rightarrow>
          assign_fields
            ([(''type'', Text t), (''message'', Text (sanitizeErrorMessage m))] @
             (if includeStack \<and> truthy stack then [(''stack'', Text (the stack))] else []))
            (map (\<lambda>(k, v). (k, sanitizeValue [] 0 v)) (filter (\<lambda>(k, v). k \<noteq> ''message'' \<and> k \<noteq> ''stack'') props)))"

section \<open>The logger\<close>

datatype log_level = Fatal | Error_Level | Warn | Info | Debug | Verbose

record log_call =
  lc_level :: log_level
  lc_message :: string
  lc_meta :: js_fields

text \<open>\<open>str\<close> and \<open>json\<close> are \<^verbatim>\<open>String\<close> and \<^verbatim>\<open>JSON.stringify\<close> of the language.\<close>

definition log_to :: "(js_value \<Rightarrow> string) \<Rightarrow> log_level \<Rightarrow> js_fields \<Rightarrow> log_call" where
  "log_to str level entry =
     \<lparr>lc_level = level, lc_message = str (nullish (Map_get ''message'' entry) Undefined),
      lc_meta = sanitizeObject [] 0 (filter (\<lambda>(k, v). k \<noteq> ''message'') entry)\<rparr>"

definition falsy :: "js_value \<Rightarrow> bool" where
  "falsy v = (case v of Undefined \<Rightarrow> True | Null \<Rightarrow> True | Text t \<Rightarrow> t = []
     | Other t \<Rightarrow> t \<in> {''0'', ''false'', ''NaN'', ''0n''} | _ \<Rightarrow> False)"

definition defined_or :: "js_value option \<Rightarrow> js_value \<Rightarrow> js_value" where
  "defined_or x d = (case x of None \<Rightarrow> d | Some v \<Rightarrow> (case v of Undefined \<Rightarrow> d | Null \<Rightarrow> d | _ \<Rightarrow> v))"

definition text_or_undefined :: "string option \<Rightarrow> js_value" where
  "text_or_undefined t = (case t of None \<Rightarrow> Undefined | Some s \<Rightarrow> Text s)"

definition own_fields :: "js_value \<Rightarrow> js_fields" where
  "own_fields v =
     (case v of Js_Object fs \<Rightarrow> fs | Js_Array vs \<Rightarrow> map (\<lambda>i. (decimal i, vs ! i)) [0..<length vs] | _ \<Rightarrow> [])"

definition toEntry :: "(js_value \<Rightarrow> string) \<Rightarrow> (js_value \<Rightarrow> string) \<Rightarrow> string option \<Rightarrow> js_value \<Rightarrow> string option \<Rightarrow> js_fields" where
  "toEntry str json own_context message context =
     (if (case message of Js_Object _ \<Rightarrow> True | Js_Array _ \<Rightarrow> True | Date_Value _ \<Rightarrow> True | _ \<Rightarrow> False)
      then assign_fields
             [(''message'', defined_or (Map_get ''message'' (own_fields message)) (Text (json message))),
              (''context'', case context of Some c \<Rightarrow> Text c | None \<Rightarrow> nullish (Map_get ''context'' (own_fields message)) Undefined)]
             (own_fields message)
      else [(''message'', Text (str message)),
            (''context'', text_or_undefined (case context of Some c \<Rightarrow> Some c | None \<Rightarrow> own_context))])"

definition sanitiseMeta :: "js_fields option \<Rightarrow> js_fields" where
  "sanitiseMeta meta = (case meta of None \<Rightarrow> [] | Some fs \<Rightarrow> own_fields (sanitizeValue [] 0 (Js_Object fs)))"

definition normalise_entry :: "string option \<Rightarrow> js_value \<Rightarrow> js_fields option \<Rightarrow> js_fields" where
  "normalise_entry own_context entry meta =
     (let base = (case entry of Text t \<Rightarrow> [(''message'', entry)] | _ \<Rightarrow> own_fields entry);
          base1 = (if truthy own_context \<and> falsy (nullish (Map_get ''context'' base) Undefined)
                   then Map_set ''context'' (Text (the own_context)) base else base)
      in assign_fields base1 (sanitiseMeta meta))"

datatype logger_op =
    Op_Log js_value "string option"
  | Op_Error js_value "string option" "string option"
  | Op_Warn js_value "string option"
  | Op_Debug js_value "string option"
  | Op_Verbose js_value "string option"
  | Op_Info js_value "js_fields option"
  | Op_Fatal js_value "js_fields option"
  | Op_LogError bool thrown "string option" "js_fields option"
  | Op_Performance js_fields

definition logError_entry :: "string option \<Rightarrow> bool \<Rightarrow> thrown \<Rightarrow> string option \<Rightarrow> js_fields option \<Rightarrow> js_fields" where
  "logError_entry own_context includeStack e context extra =
     assign_fields
       [(''message'', Text (thrown_text e)),
        (''context'', text_or_undefined (case context of Some c \<Rightarrow> Some c | None \<Rightarrow> own_context)),
        (''error'', Js_Object (formatError includeStack e))]
       (sanitiseMeta extra)"

fun log_op :: "(js_value \<Rightarrow> string) \<Rightarrow> (js_value \<Rightarrow> string) \<Rightarrow> string option \<Rightarrow> logger_op \<Rightarrow> log_call" where
  "log_op str json ctx (Op_Log m c) = log_to str Info (normalise_entry ctx (Js_Object (toEntry str json ctx m c)) None)"
| "log_op str json ctx (Op_Error m trace c) =
     log_to str Error_Level (let entry = toEntry str json ctx m c in if truthy trace then Map_set ''stack'' (Text (the trace)) entry else entry)"
| "log_op str json ctx (Op_Warn m c) = log_to str Warn (toEntry str json ctx m c)"
| "log_op str json ctx (Op_Debug m c) = log_to str Debug (toEntry str json ctx m c)"
| "log_op str json ctx (Op_Verbose m c) = log_to str Verbose (toEntry str json ctx m c)"
| "log_op str json ctx (Op_Info entry meta) = log_to str Info (normalise_entry ctx entry meta)"
| "log_op str json ctx (Op_Fatal entry meta) = log_to str Fatal (normalise_entry ctx entry meta)"
| "log_op str json ctx (Op_LogError stack e c extra) = log_to str Error_Level (logError_entry ctx stack e c extra)"
| "log_op str json ctx (Op_Performance metric) =
     log_to str Info (assign_fields
       [(''message'', Text (''Performance metric: '' @ str (nullish (Map_get ''operation'' metric) Undefined))), (''type'', Text ''performance'')] metric)"

section \<open>The middleware\<close>

datatype route_level = At log_level | Silent

text \<open>A route pattern, a prefix or a regular expression, is the predicate it tests.\<close>

record http_logging_config =
  hc_enabled :: bool
  hc_extraSensitiveHeaders :: "string list"
  hc_extraSensitiveBodyFields :: "string list"
  hc_maxBodySizeBytes :: int
  hc_routeOverrides :: "((string \<Rightarrow> bool) \<times> route_level) list"

definition default_http_config :: http_logging_config where
  "default_http_config =
     \<lparr>hc_enabled = True, hc_extraSensitiveHeaders = [], hc_extraSensitiveBodyFields = [], hc_maxBodySizeBytes = 10 * 1024,
      hc_routeOverrides = [(\<lambda>p. startsWith p ''/health'', At Debug), (\<lambda>p. startsWith p ''/metrics'', Silent),
        (\<lambda>p. startsWith p ''/api/v1/health'', At Debug)]\<rparr>"

record logged_request =
  rq_method :: string
  rq_path :: string
  rq_headers :: js_fields
  rq_query :: js_fields
  rq_body :: js_value
  rq_ip :: "string option"

definition REQUEST_ID_HEADER :: string where "REQUEST_ID_HEADER = ''x-request-id''"

fun first_match :: "string \<Rightarrow> ((string \<Rightarrow> bool) \<times> route_level) list \<Rightarrow> route_level" where
  "first_match path [] = At Info"
| "first_match path ((matched, level) # rest) = (if matched path then level else first_match path rest)"

definition resolveLevel :: "http_logging_config \<Rightarrow> string \<Rightarrow> route_level" where
  "resolveLevel cfg path = first_match path (hc_routeOverrides cfg)"

definition responseLevel :: "int \<Rightarrow> route_level \<Rightarrow> route_level" where
  "responseLevel statusCode routeLevel =
     (if routeLevel = Silent then Silent
      else if statusCode \<ge> 500 then At Error_Level
      else if statusCode \<ge> 400 then At Warn
      else routeLevel)"

text \<open>\<^verbatim>\<open>parseInt(s, 10)\<close>, None for NaN.\<close>

definition parseInt :: "string \<Rightarrow> int option" where
  "parseInt s =
     (let t = dropWhile is_js_space s;
          neg = head_is (\<lambda>c. c = CHR ''-'') t;
          ds = takeWhile is_digit (if neg \<or> head_is (\<lambda>c. c = CHR ''+'') t then tl t else t)
      in if ds = [] then None else Some (if neg then - int (parse_decimal ds) else int (parse_decimal ds)))"

definition header_text :: "string \<Rightarrow> js_fields \<Rightarrow> string option" where
  "header_text name headers = (case Map_get name headers of Some (Text t) \<Rightarrow> Some t | _ \<Rightarrow> None)"

definition maybeBody :: "http_logging_config \<Rightarrow> logged_request \<Rightarrow> js_value" where
  "maybeBody cfg req =
     (let body = (if falsy (rq_body req) \<or> own_fields (rq_body req) = [] then Undefined
                  else Js_Object (sanitizeObject (hc_extraSensitiveBodyFields cfg) 0 (own_fields (rq_body req))))
      in case parseInt (nullish (header_text ''content-length'' (rq_headers req)) ''0'') of
           Some n \<Rightarrow> if n > hc_maxBodySizeBytes cfg then Text (''[BODY_TOO_LARGE: '' @ int_text n @ '' bytes]'') else body
         | None \<Rightarrow> body)"

definition clientIp :: "logged_request \<Rightarrow> string" where
  "clientIp req =
     (case header_text ''x-forwarded-for'' (rq_headers req) of
        Some xff \<Rightarrow> if xff \<noteq> [] then trim (hd (split_char (CHR '','') xff)) else nullish (rq_ip req) ''unknown''
      | None \<Rightarrow> nullish (rq_ip req) ''unknown'')"

text \<open>\<open>logger[level]\<close> applied to an entry.\<close>

definition level_op :: "log_level \<Rightarrow> js_fields \<Rightarrow> logger_op" where
  "level_op level entry =
     (case level of
        Info \<Rightarrow> Op_Info (Js_Object entry) None | Fatal \<Rightarrow> Op_Fatal (Js_Object entry) None
      | Error_Level \<Rightarrow> Op_Error (Js_Object entry) None None | Warn \<Rightarrow> Op_Warn (Js_Object entry) None
      | Debug \<Rightarrow> Op_Debug (Js_Object entry) None | Verbose \<Rightarrow> Op_Verbose (Js_Object entry) None)"

definition request_id :: "string \<Rightarrow> logged_request \<Rightarrow> string" where
  "request_id uuid req =
     (if truthy (header_text REQUEST_ID_HEADER (rq_headers req)) then the (header_text REQUEST_ID_HEADER (rq_headers req)) else uuid)"

text \<open>The arrows in the messages are written as ASCII here.\<close>

definition request_entry :: "http_logging_config \<Rightarrow> string \<Rightarrow> logged_request \<Rightarrow> js_fields" where
  "request_entry cfg requestId req =
     [(''message'', Text (''-> '' @ rq_method req @ '' '' @ rq_path req)), (''context'', Text ''HttpLogging''), (''requestId'', Text requestId),
      (''http'', Js_Object
         [(''method'', Text (rq_method req)), (''path'', Text (rq_path req)), (''query'', Js_Object (sanitizeQuery (rq_query req))),
          (''headers'', Js_Object (sanitizeHeaders (hc_extraSensitiveHeaders cfg) (rq_headers req))), (''body'', maybeBody cfg req),
          (''ip'', Text (clientIp req)), (''userAgent'', nullish (Map_get ''user-agent'' (rq_headers req)) Undefined)])]"

text \<open>\<open>latency\<close> is the latency in milliseconds as the two roundings of it are printed, and whether it exceeds a second.\<close>

record latency =
  lt_fixed2 :: string
  lt_fixed3 :: string
  lt_slow :: bool

definition response_entry :: "string \<Rightarrow> logged_request \<Rightarrow> int \<Rightarrow> latency \<Rightarrow> string option \<Rightarrow> js_fields" where
  "response_entry requestId req statusCode lt contentLength =
     [(''message'', Text (''<- '' @ rq_method req @ '' '' @ rq_path req @ '' '' @ int_text statusCode @ '' ('' @ lt_fixed2 lt @ ''ms)'')),
      (''context'', Text ''HttpLogging''), (''requestId'', Text requestId),
      (''http'', Js_Object
         [(''method'', Text (rq_method req)), (''path'', Text (rq_path req)), (''statusCode'', Other (int_text statusCode)),
          (''latencyMs'', Other (lt_fixed3 lt)),
          (''responseSize'', Other (case parseInt (nullish contentLength ''0'') of Some n \<Rightarrow> int_text n | None \<Rightarrow> ''NaN''))])]"

definition slow_entry :: "string \<Rightarrow> logged_request \<Rightarrow> int \<Rightarrow> latency \<Rightarrow> js_fields" where
  "slow_entry requestId req statusCode lt =
     [(''message'', Text (''Slow request detected: '' @ rq_method req @ '' '' @ rq_path req @ '' took '' @ lt_fixed2 lt @ ''ms'')),
      (''context'', Text ''HttpLogging''), (''requestId'', Text requestId),
      (''slowRequest'', Js_Object
         [(''method'', Text (rq_method req)), (''path'', Text (rq_path req)), (''latencyMs'', Other (lt_fixed3 lt)),
          (''statusCode'', Other (int_text statusCode))])]"

definition on_request :: "http_logging_config \<Rightarrow> string \<Rightarrow> logged_request \<Rightarrow> logger_op list" where
  "on_request cfg uuid req =
     (if \<not> hc_enabled cfg then []
      else case resolveLevel cfg (rq_path req) of
             Silent \<Rightarrow> []
           | At level \<Rightarrow> [level_op level (request_entry cfg (request_id uuid req) req)])"

definition on_finish :: "http_logging_config \<Rightarrow> string \<Rightarrow> logged_request \<Rightarrow> int \<Rightarrow> latency \<Rightarrow> string option \<Rightarrow> logger_op list" where
  "on_finish cfg uuid req statusCode lt contentLength =
     (if \<not> hc_enabled cfg then []
      else case responseLevel statusCode (resolveLevel cfg (rq_path req)) of
             Silent \<Rightarrow> []
           | At level \<Rightarrow>
               level_op level (response_entry (request_id uuid req) req statusCode lt contentLength) #
               (if lt_slow lt then [level_op Warn (slow_entry (request_id uuid req) req statusCode lt)] else []))"

section \<open>Specification\<close>

text \<open>A field of a value, at any depth.\<close>

inductive field_in :: "js_value \<Rightarrow> string \<Rightarrow> js_value \<Rightarrow> bool" where
  here: "(k, v) \<in> set fs \<Longrightarrow> field_in (Js_Object fs) k v"
| below: "(j, w) \<in> set fs \<Longrightarrow> field_in w k v \<Longrightarrow> field_in (Js_Object fs) k v"
| item: "w \<in> set vs \<Longrightarrow> field_in w k v \<Longrightarrow> field_in (Js_Array vs) k v"

inductive_simps field_in_simps: "field_in (Js_Object fs) k v" "field_in (Js_Array vs) k v" "field_in (Text t) k v"
  "field_in Null k v" "field_in Undefined k v" "field_in (Other t) k v" "field_in (Date_Value d) k v"

text \<open>A finite tree of at most that depth, with bounded arrays.\<close>

fun bounded_tree :: "nat \<Rightarrow> js_value \<Rightarrow> bool" where
  "bounded_tree n v =
     (case v of
        Js_Array vs \<Rightarrow> (case n of 0 \<Rightarrow> False | Suc k \<Rightarrow> length vs \<le> MAX_ARRAY_LENGTH \<and> list_all (bounded_tree k) vs)
      | Js_Object fs \<Rightarrow> (case n of 0 \<Rightarrow> False | Suc k \<Rightarrow> list_all (\<lambda>p. bounded_tree k (snd p)) fs)
      | _ \<Rightarrow> True)"

text \<open>An object that contains itself.\<close>

primcorec self_object :: js_value where
  "self_object = Js_Object [(''password'', Text ''hunter2''), (''self'', self_object)]"

definition sample_request :: logged_request where
  "sample_request =
     \<lparr>rq_method = ''POST'', rq_path = ''/login'', rq_headers = [(''Authorization'', Text ''Bearer abc''), (''host'', Text ''api'')],
      rq_query = [(''access_token'', Text ''t0p'')], rq_body = self_object, rq_ip = Some ''10.0.0.1''\<rparr>"

definition sample_str :: "js_value \<Rightarrow> string" where
  "sample_str v = (case v of Text t \<Rightarrow> t | Other t \<Rightarrow> t | _ \<Rightarrow> ''[object Object]'')"

section \<open>Facts\<close>

declare bounded_tree.simps [simp del]

lemma bounded_leaf [simp]:
  "bounded_tree n (Text t)" "bounded_tree n Null" "bounded_tree n Undefined" "bounded_tree n (Other t)" "bounded_tree n (Date_Value d)"
  by (simp_all add: bounded_tree.simps)

lemma sanitize_simps:
  "depth \<le> MAX_DEPTH \<Longrightarrow> sanitizeValue extra depth (Js_Array items) = Js_Array (map (sanitizeValue extra (Suc depth)) (take MAX_ARRAY_LENGTH items))"
  "depth \<le> MAX_DEPTH \<Longrightarrow> sanitizeValue extra depth (Js_Object fs) = Js_Object (sanitizeObject extra depth fs)"
  "sanitizeValue extra depth Null = Null" "sanitizeValue extra depth Undefined = Undefined"
  "depth \<le> MAX_DEPTH \<Longrightarrow> sanitizeValue extra depth (Text t) = Text t"
  "depth \<le> MAX_DEPTH \<Longrightarrow> sanitizeValue extra depth (Other t) = Other t"
  "depth \<le> MAX_DEPTH \<Longrightarrow> sanitizeValue extra depth (Date_Value ts) = Date_Value ts"
  by (simp_all add: sanitizeValue.simps [of extra depth] sanitizeObject_def)

lemma sanitize_deep: "MAX_DEPTH < depth \<Longrightarrow> sanitizeValue extra depth v \<in> {Null, Undefined, Text ''[MAX_DEPTH]''}"
  by (simp add: sanitizeValue.simps [of extra depth v])

lemma sanitized_field:
  "field_in (sanitizeValue extra depth v) key val \<Longrightarrow> is_sensitive extra key \<Longrightarrow> val = Text REDACTED"
proof (induction "Suc MAX_DEPTH - depth" arbitrary: depth v)
  case 0
  then show ?case using sanitize_deep [of depth extra v] by (auto simp: field_in_simps)
next
  case (Suc n)
  then have d: "depth \<le> MAX_DEPTH" and n: "n = Suc MAX_DEPTH - Suc depth" by simp_all
  have IH: "field_in (sanitizeValue extra (Suc depth) w) key val \<Longrightarrow> val = Text REDACTED" for w
    using Suc.hyps(1) [OF n] Suc.prems(2) by blast
  show ?case
    using Suc.prems d IH by (cases v) (auto simp: sanitize_simps sanitizeObject_def field_in_simps split: if_splits)
qed

lemma sanitized_object_field:
  "field_in (Js_Object (sanitizeObject extra depth obj)) key val \<Longrightarrow> is_sensitive extra key \<Longrightarrow> val = Text REDACTED"
  by (auto simp: sanitizeObject_def field_in_simps split: if_splits dest: sanitized_field)

lemma sanitized_bounded: "bounded_tree (Suc MAX_DEPTH - depth) (sanitizeValue extra depth v)"
proof (induction "Suc MAX_DEPTH - depth" arbitrary: depth v)
  case 0
  then show ?case using sanitize_deep [of depth extra v] by auto
next
  case (Suc n)
  then have d: "depth \<le> MAX_DEPTH" and m: "n = Suc MAX_DEPTH - Suc depth" and n: "Suc MAX_DEPTH - depth = Suc (Suc MAX_DEPTH - Suc depth)"
    by (simp_all add: Suc_diff_le)
  note IH = Suc.hyps(1) [OF m]
  show ?case
    unfolding n using d IH by (cases v) (auto simp: sanitize_simps sanitizeObject_def bounded_tree.simps [of "Suc _"] list_all_iff)
qed

lemma log_to_meta: "\<exists>fs. lc_meta (log_op str json ctx opr) = sanitizeObject [] 0 fs"
  by (cases opr) (auto simp: log_to_def)

lemma request_meta:
  "lc_meta (log_op str json ctx (level_op level (request_entry cfg requestId req))) = sanitizeObject [] 0 (tl (request_entry cfg requestId req))"
  by (cases level) (simp_all add: level_op_def log_to_def normalise_entry_def toEntry_def own_fields_def sanitiseMeta_def assign_fields_def
      request_entry_def falsy_def Map_set_def Map_get_def Let_def)

lemma plain_keys: "\<not> is_sensitive [] ''http''" "\<not> is_sensitive [] ''headers''"
  by code_simp+

lemma error_keys: "\<not> is_sensitive [] ''error''" "\<not> is_sensitive [] ''type''" "\<not> is_sensitive [] ''message''" "\<not> is_sensitive [] ''context''"
  by code_simp+

lemma request_headers:
  assumes "(''http'', Js_Object http) \<in> set (sanitizeObject [] 0 (tl (request_entry cfg requestId req)))" "(''headers'', Js_Object hs) \<in> set http"
  shows "hs = sanitizeObject [] 2 (sanitizeHeaders (hc_extraSensitiveHeaders cfg) (rq_headers req))"
proof -
  have d: "1 \<le> MAX_DEPTH" "2 \<le> MAX_DEPTH" by (simp_all add: MAX_DEPTH_def)
  have "Js_Object http = sanitizeValue [] 1 (snd (last (request_entry cfg requestId req)))"
    using assms(1) plain_keys by (auto simp: sanitizeObject_def request_entry_def split: if_splits)
  then have "http = sanitizeObject [] 1 (own_fields (snd (last (request_entry cfg requestId req))))"
    using d by (simp add: request_entry_def sanitize_simps own_fields_def)
  then have "Js_Object hs = sanitizeValue [] 2 (Js_Object (sanitizeHeaders (hc_extraSensitiveHeaders cfg) (rq_headers req)))"
    using assms(2) plain_keys by (auto simp: sanitizeObject_def request_entry_def own_fields_def numeral_2_eq_2 split: if_splits)
  then show ?thesis using d by (simp add: sanitize_simps)
qed

lemma redacted_headers:
  "(name, v) \<in> set (sanitizeObject [] 2 (sanitizeHeaders extra headers)) \<Longrightarrow> toLowerCase name \<in> set SENSITIVE_HEADERS \<Longrightarrow> v = Text REDACTED"
  by (auto simp: sanitizeObject_def sanitizeHeaders_def sanitize_simps MAX_DEPTH_def split: if_splits)

section \<open>Properties\<close>



text \<open>
  C32. Sanitising ends on every value, cyclic ones included, with a finite tree: at most nine levels of objects
  and arrays, and no array longer than 50; so is the metadata of every log entry.
\<close>

theorem log_trees_bounded:
  "bounded_tree 9 (sanitizeValue extra 0 v) \<and> bounded_tree 9 (Js_Object (lc_meta (log_op str json ctx opr)))"
proof -
  have n: "Suc MAX_DEPTH - 0 = 9" by (simp add: MAX_DEPTH_def)
  have "bounded_tree 9 (sanitizeValue e 0 w)" for e w using sanitized_bounded [of 0 e w] unfolding n .
  moreover from this [of "[]" "Js_Object fs" for fs] have "bounded_tree 9 (Js_Object (sanitizeObject [] 0 fs))" for fs
    by (simp add: sanitize_simps)
  ultimately show ?thesis using log_to_meta [of str json ctx opr] by metis
qed

text \<open>
  The message of an error that is logged is not redacted: \<open>logError\<close> hands winston the message as it was
  thrown, while only its copy in the field \<open>error\<close> goes through \<open>sanitizeErrorMessage\<close>.
\<close>

theorem error_message_logged_raw:
  assumes "\<forall>t. str (Text t) = t"
  shows "lc_message (log_op str json ctx (Op_LogError includeStack (Thrown_Error t m stack []) context None)) = m \<and>
    Map_get ''error'' (lc_meta (log_op str json ctx (Op_LogError False (Thrown_Error t m stack []) context None))) =
      Some (Js_Object [(''type'', Text t), (''message'', Text (sanitizeErrorMessage m))])"
  using assms error_keys by (simp add: log_to_def logError_entry_def sanitiseMeta_def assign_fields_def thrown_text_def formatError_def
      sanitizeObject_def sanitize_simps MAX_DEPTH_def Map_get_def)

theorem error_message_logged_raw_witness:
  "lc_message (log_op sample_str sample_str None (Op_LogError True (Thrown_Error ''Error'' ''login failed: password = hunter2'' None []) None None)) =
     ''login failed: password = hunter2'' \<and>
   sanitizeErrorMessage ''login failed: password = hunter2'' = ''login failed: password=[REDACTED]''"
proof -
  have "\<forall>t. sample_str (Text t) = t" by (simp add: sample_str_def)
  from error_message_logged_raw [OF this, of sample_str None True "''Error''" "''login failed: password = hunter2''" None None]
  have "lc_message (log_op sample_str sample_str None (Op_LogError True (Thrown_Error ''Error'' ''login failed: password = hunter2'' None []) None None)) =
     ''login failed: password = hunter2''" by (rule conjunct1)
  moreover have "sanitizeErrorMessage ''login failed: password = hunter2'' = ''login failed: password=[REDACTED]''" by code_simp
  ultimately show ?thesis by (rule conjI)
qed

text \<open>
  The registered name \<^verbatim>\<open>db_password\<close> redacts nothing: keys lose their underscores before they are looked
  up, so no key is ever equal to it, and a field of that very name is logged as it is.
\<close>

theorem db_password_is_logged:
  "''db_password'' \<in> set SENSITIVE_FIELDS \<and> normal_key key \<noteq> ''db_password'' \<and>
   sanitizeObject [] 0 [(''db_password'', Text p)] = [(''db_password'', Text p)]"
proof -
  have "CHR ''_'' \<notin> set (normal_key key)" by (simp add: normal_key_def)
  then have "normal_key key \<noteq> ''db_password''" by auto
  moreover have "\<not> is_sensitive [] ''db_password''" by code_simp
  ultimately show ?thesis by (simp add: SENSITIVE_FIELDS_def sanitizeObject_def sanitize_simps MAX_DEPTH_def)
qed

end
