(* ===== verification/Portfolio_Constraints.thy ===== *)
theory Portfolio_Constraints
  imports Js_Prelude
begin

text \<open>
  The two engines that check a portfolio against limits: \<open>PortfolioValidation\<close>
  (investment/portfolio/algorithms/portfolio-validation.ts) and \<open>PortfolioConstraintService\<close>
  (investment/portfolio/services/portfolio-constraint.service.ts). Numbers are exact rationals, a
  result that is NaN is None. The sentence of an issue repeats its numbers and is left out.
\<close>

section \<open>Validation of holdings\<close>

record holding =
  ho_ticker :: string
  ho_category :: "string option"
  ho_value :: rat

record portfolio_constraints =
  pc_maxAssetAllocationPct :: rat
  pc_maxCategoryAllocationPct :: rat
  pc_minAssets :: rat
  pc_maxRiskScore :: rat

record portfolio_constraints_opt =
  po_maxAssetAllocationPct :: "rat option"
  po_maxCategoryAllocationPct :: "rat option"
  po_minAssets :: "rat option"
  po_maxRiskScore :: "rat option"

definition DEFAULT_CONSTRAINTS :: portfolio_constraints where
  "DEFAULT_CONSTRAINTS =
     \<lparr>pc_maxAssetAllocationPct = 40, pc_maxCategoryAllocationPct = 60, pc_minAssets = 3, pc_maxRiskScore = 70\<rparr>"

datatype violation_severity = Warning | Violation

datatype meta_value = Meta_Number rat | Meta_Text string

record constraint_issue =
  is_rule :: string
  is_severity :: violation_severity
  is_overridable :: bool
  is_meta :: "(string \<times> meta_value) list"

record validation_result =
  vr_valid :: bool
  vr_issues :: "constraint_issue list"
  vr_riskScore :: "rat option"
  vr_allocations :: "(string, rat) js_map"
  vr_categoryAllocations :: "(string, rat) js_map"
  vr_totalValue :: rat

definition resolveConstraints :: "portfolio_constraints_opt option \<Rightarrow> portfolio_constraints" where
  "resolveConstraints partial =
     (case partial of
        None \<Rightarrow> DEFAULT_CONSTRAINTS
      | Some p \<Rightarrow>
          \<lparr>pc_maxAssetAllocationPct = nullish (po_maxAssetAllocationPct p) (pc_maxAssetAllocationPct DEFAULT_CONSTRAINTS),
           pc_maxCategoryAllocationPct = nullish (po_maxCategoryAllocationPct p) (pc_maxCategoryAllocationPct DEFAULT_CONSTRAINTS),
           pc_minAssets = nullish (po_minAssets p) (pc_minAssets DEFAULT_CONSTRAINTS),
           pc_maxRiskScore = nullish (po_maxRiskScore p) (pc_maxRiskScore DEFAULT_CONSTRAINTS)\<rparr>)"

text \<open>\<^verbatim>\<open>round(n)\<close> to two places; \<^verbatim>\<open>Math.round\<close> rounds halves up.\<close>

definition round_pct :: "rat \<Rightarrow> rat" where
  "round_pct n = of_int \<lfloor>(n + 1 / 2 ^ 52) * 100 + 1 / 2\<rfloor> / 100"

definition totalValue :: "holding list \<Rightarrow> rat" where
  "totalValue holdings = foldl (\<lambda>acc h. acc + (if ho_value h > 0 then ho_value h else 0)) 0 holdings"

definition allocations :: "holding list \<Rightarrow> (string, rat) js_map" where
  "allocations holdings =
     (let t = totalValue holdings
      in if t \<le> 0 then []
         else foldl (\<lambda>out h. if ho_value h \<le> 0 then out else Map_set (ho_ticker h) (round_pct (ho_value h / t * 100)) out) [] holdings)"

definition category_of :: "holding \<Rightarrow> string" where
  "category_of h = nullish (ho_category h) ''uncategorized''"

definition categoryAllocations :: "holding list \<Rightarrow> (string, rat) js_map" where
  "categoryAllocations holdings =
     (let t = totalValue holdings
      in if t \<le> 0 then []
         else map (\<lambda>(cat, v). (cat, round_pct (v / t * 100)))
                (foldl (\<lambda>out h. if ho_value h \<le> 0 then out
                                else Map_set (category_of h) (nullish (Map_get (category_of h) out) 0 + ho_value h) out) [] holdings))"

definition riskScore :: "holding list \<Rightarrow> portfolio_constraints \<Rightarrow> rat option" where
  "riskScore holdings constraints =
     (let allocs = Map_values (allocations holdings)
      in if length allocs = 0 then Some 0
         else
           let hhi = foldl (\<lambda>acc pct. acc + (pct / 100) ^ 2) 0 allocs;
               concentration = hhi * 100;
               shortfall = max 0 (pc_minAssets constraints - of_nat (length allocs))
           in if pc_minAssets constraints = 0 then None
              else Some (round_pct (min 100 (concentration + shortfall / pc_minAssets constraints * 25))))"

definition asset_issues :: "portfolio_constraints \<Rightarrow> (string, rat) js_map \<Rightarrow> constraint_issue list" where
  "asset_issues c allocs =
     map (\<lambda>(ticker, pct). \<lparr>is_rule = ''maxAssetAllocation'', is_severity = Violation, is_overridable = True,
            is_meta = [(''ticker'', Meta_Text ticker), (''allocation'', Meta_Number pct), (''limit'', Meta_Number (pc_maxAssetAllocationPct c))]\<rparr>)
       (filter (\<lambda>(ticker, pct). pct > pc_maxAssetAllocationPct c) allocs)"

definition category_issues :: "portfolio_constraints \<Rightarrow> (string, rat) js_map \<Rightarrow> constraint_issue list" where
  "category_issues c allocs =
     map (\<lambda>(category, pct). \<lparr>is_rule = ''maxCategoryAllocation'', is_severity = Violation, is_overridable = True,
            is_meta = [(''category'', Meta_Text category), (''allocation'', Meta_Number pct), (''limit'', Meta_Number (pc_maxCategoryAllocationPct c))]\<rparr>)
       (filter (\<lambda>(category, pct). pct > pc_maxCategoryAllocationPct c) allocs)"

definition diversification_issues :: "portfolio_constraints \<Rightarrow> rat \<Rightarrow> nat \<Rightarrow> constraint_issue list" where
  "diversification_issues c t assetCount =
     (if t > 0 \<and> of_nat assetCount < pc_minAssets c
      then [\<lparr>is_rule = ''minDiversification'', is_severity = Warning, is_overridable = True,
             is_meta = [(''assets'', Meta_Number (of_nat assetCount)), (''minimum'', Meta_Number (pc_minAssets c))]\<rparr>] else [])"

text \<open>A comparison with NaN is false.\<close>

definition risk_issues :: "portfolio_constraints \<Rightarrow> rat option \<Rightarrow> constraint_issue list" where
  "risk_issues c score =
     (case score of
        None \<Rightarrow> []
      | Some r \<Rightarrow>
          if r > pc_maxRiskScore c
          then [\<lparr>is_rule = ''maxRiskScore'', is_severity = Violation, is_overridable = True,
                 is_meta = [(''riskScore'', Meta_Number r), (''limit'', Meta_Number (pc_maxRiskScore c))]\<rparr>] else [])"

definition no_violation :: "constraint_issue list \<Rightarrow> bool" where
  "no_violation issues \<longleftrightarrow> \<not> list_ex (\<lambda>i. is_severity i = Violation) issues"

definition validate :: "holding list \<Rightarrow> portfolio_constraints_opt option \<Rightarrow> validation_result" where
  "validate holdings partial =
     (let constraints = resolveConstraints partial;
          allocs = allocations holdings;
          categories = categoryAllocations holdings;
          t = totalValue holdings;
          score = riskScore holdings constraints;
          issues = asset_issues constraints allocs @ category_issues constraints categories @
            diversification_issues constraints t (length (Map_keys allocs)) @ risk_issues constraints score
      in \<lparr>vr_valid = no_violation issues, vr_issues = issues, vr_riskScore = score, vr_allocations = allocs,
          vr_categoryAllocations = categories, vr_totalValue = t\<rparr>)"

text \<open>The first holding of the ticker takes the value.\<close>

fun merge_into :: "holding list \<Rightarrow> holding \<Rightarrow> holding list option" where
  "merge_into [] incoming = None"
| "merge_into (h # hs) incoming =
     (if ho_ticker h = ho_ticker incoming
      then Some (h\<lparr>ho_value := ho_value h + ho_value incoming,
                   ho_category := (case ho_category incoming of None \<Rightarrow> ho_category h | c \<Rightarrow> c)\<rparr> # hs)
      else map_option ((#) h) (merge_into hs incoming))"

definition mergeHolding :: "holding list \<Rightarrow> holding \<Rightarrow> holding list" where
  "mergeHolding current incoming = (case merge_into current incoming of Some out \<Rightarrow> out | None \<Rightarrow> current @ [incoming])"

definition validateNewHolding :: "holding list \<Rightarrow> holding \<Rightarrow> portfolio_constraints_opt option \<Rightarrow> validation_result" where
  "validateNewHolding current incoming partial = validate (mergeHolding current incoming) partial"

definition applyOverride :: "validation_result \<Rightarrow> string list \<Rightarrow> validation_result" where
  "applyOverride result acknowledgedRules =
     (let issues = map (\<lambda>i. if is_severity i = Violation \<and> is_overridable i \<and> is_rule i \<in> set acknowledgedRules
                           then i\<lparr>is_severity := Warning\<rparr> else i) (vr_issues result)
      in result\<lparr>vr_issues := issues, vr_valid := no_violation issues\<rparr>)"

section \<open>The constraint service\<close>

datatype asset_type = STOCK | BOND | CRYPTOCURRENCY | COMMODITY | ETF | MUTUAL_FUND | REAL_ESTATE | OTHER

datatype portfolio_type = MANUAL | AUTOMATED | TRADING | HODL | OTHER_PORTFOLIO

record portfolio_constraint_config =
  cc_maxAssetAllocation :: rat
  cc_maxCategoryAllocation :: rat
  cc_minDiversifiedAssets :: rat
  cc_riskScoreLimit :: rat
  cc_warningThresholdPercent :: rat

record portfolio_constraint_config_opt =
  oc_maxAssetAllocation :: "rat option"
  oc_maxCategoryAllocation :: "rat option"
  oc_minDiversifiedAssets :: "rat option"
  oc_riskScoreLimit :: "rat option"
  oc_warningThresholdPercent :: "rat option"

definition constraint_defaults :: portfolio_constraint_config where
  "constraint_defaults =
     \<lparr>cc_maxAssetAllocation = 40, cc_maxCategoryAllocation = 60, cc_minDiversifiedAssets = 3, cc_riskScoreLimit = 70,
      cc_warningThresholdPercent = 90\<rparr>"

text \<open>The columns of a portfolio and of an asset that are read; a missing value counts as 0.\<close>

record constrained_portfolio =
  cp_type :: portfolio_type
  cp_strategy :: "string option"
  cp_constraintConfig :: "portfolio_constraint_config_opt option"

record constrained_asset =
  ca_ticker :: string
  ca_type :: asset_type
  ca_value :: rat
  ca_volatility :: "rat option"

datatype constraint_code =
    MAX_ASSET_ALLOCATION_EXCEEDED
  | MAX_CATEGORY_ALLOCATION_EXCEEDED
  | CATEGORY_ALLOCATION_NEAR_LIMIT
  | MIN_DIVERSIFICATION_NOT_MET
  | RISK_SCORE_LIMIT_EXCEEDED
  | RISK_SCORE_NEAR_LIMIT

datatype issue_details =
    Asset_Details string rat rat
  | Category_Details asset_type rat rat
  | Count_Details nat rat
  | Score_Details rat rat

type_synonym constraint_violation = "constraint_code \<times> issue_details"

record constraint_evaluation =
  ev_valid :: bool
  ev_riskScore :: rat
  ev_violations :: "constraint_violation list"
  ev_warnings :: "constraint_violation list"
  ev_config :: portfolio_constraint_config

definition getConfig :: "constrained_portfolio \<Rightarrow> portfolio_constraint_config" where
  "getConfig portfolio =
     (case cp_constraintConfig portfolio of
        None \<Rightarrow> constraint_defaults
      | Some o' \<Rightarrow>
          \<lparr>cc_maxAssetAllocation = nullish (oc_maxAssetAllocation o') (cc_maxAssetAllocation constraint_defaults),
           cc_maxCategoryAllocation = nullish (oc_maxCategoryAllocation o') (cc_maxCategoryAllocation constraint_defaults),
           cc_minDiversifiedAssets = nullish (oc_minDiversifiedAssets o') (cc_minDiversifiedAssets constraint_defaults),
           cc_riskScoreLimit = nullish (oc_riskScoreLimit o') (cc_riskScoreLimit constraint_defaults),
           cc_warningThresholdPercent = nullish (oc_warningThresholdPercent o') (cc_warningThresholdPercent constraint_defaults)\<rparr>)"

definition assets_value :: "constrained_asset list \<Rightarrow> rat" where
  "assets_value assets = foldl (\<lambda>sum a. sum + ca_value a) 0 assets"

definition getDefaultVolatility :: "asset_type \<Rightarrow> rat" where
  "getDefaultVolatility t =
     (case t of BOND \<Rightarrow> 5 / 100 | STOCK \<Rightarrow> 15 / 100 | ETF \<Rightarrow> 15 / 100 | MUTUAL_FUND \<Rightarrow> 15 / 100 | REAL_ESTATE \<Rightarrow> 12 / 100
      | COMMODITY \<Rightarrow> 18 / 100 | CRYPTOCURRENCY \<Rightarrow> 35 / 100 | OTHER \<Rightarrow> 20 / 100)"

text \<open>\<^verbatim>\<open>Math.max(...xs)\<close> of a list that is not empty.\<close>

fun max_of :: "rat list \<Rightarrow> rat" where
  "max_of [] = 0"
| "max_of [x] = x"
| "max_of (x # xs) = max x (max_of xs)"

definition getConcentrationPenalty :: "constrained_asset list \<Rightarrow> rat \<Rightarrow> rat" where
  "getConcentrationPenalty assets t =
     (let maxAllocation = max_of (map (\<lambda>a. ca_value a / t) assets)
      in if maxAllocation > 1 / 2 then (maxAllocation - 1 / 2) * 40 else 0)"

text \<open>The shares of the categories, in units of \<open>unit\<close>.\<close>

definition category_shares :: "rat \<Rightarrow> rat \<Rightarrow> constrained_asset list \<Rightarrow> (asset_type, rat) js_map" where
  "category_shares unit t assets =
     foldl (\<lambda>m a. Map_set (ca_type a) (nullish (Map_get (ca_type a) m) 0 + ca_value a / t * unit) m) [] assets"

definition getCategoryConcentrationPenalty :: "constrained_asset list \<Rightarrow> rat \<Rightarrow> rat" where
  "getCategoryConcentrationPenalty assets t =
     (let maxCategoryWeight = max_of (Map_values (category_shares 1 t assets))
      in if maxCategoryWeight > 1 / 2 then (maxCategoryWeight - 1 / 2) * 30 else 0)"

text \<open>\<^verbatim>\<open>Number(x.toFixed(2))\<close>.\<close>

definition toFixed2 :: "rat \<Rightarrow> rat" where
  "toFixed2 x = (if x < 0 then - (of_int \<lfloor>- x * 100 + 1 / 2\<rfloor> / 100) else of_int \<lfloor>x * 100 + 1 / 2\<rfloor> / 100)"

definition calculateRiskScore :: "constrained_asset list \<Rightarrow> rat" where
  "calculateRiskScore assets =
     (let t = assets_value assets
      in if t \<le> 0 \<or> length assets = 0 then 0
         else
           let weightedRisk = foldl (\<lambda>sum a. sum + ca_value a / t * (nullish (ca_volatility a) (getDefaultVolatility (ca_type a)) * 100)) 0 assets
           in min 100 (toFixed2 (weightedRisk + getConcentrationPenalty assets t + getCategoryConcentrationPenalty assets t)))"

definition allocation_violations :: "portfolio_constraint_config \<Rightarrow> rat \<Rightarrow> constrained_asset list \<Rightarrow> constraint_violation list" where
  "allocation_violations config t assets =
     map (\<lambda>a. (MAX_ASSET_ALLOCATION_EXCEEDED, Asset_Details (ca_ticker a) (ca_value a / t * 100) (cc_maxAssetAllocation config)))
       (filter (\<lambda>a. ca_value a / t * 100 > cc_maxAssetAllocation config) assets)"

definition categoryErrorThreshold :: "portfolio_constraint_config \<Rightarrow> rat" where
  "categoryErrorThreshold config = cc_maxCategoryAllocation config * (2 - cc_warningThresholdPercent config / 100)"

definition category_violations :: "portfolio_constraint_config \<Rightarrow> rat \<Rightarrow> constrained_asset list \<Rightarrow> constraint_violation list" where
  "category_violations config t assets =
     map (\<lambda>(c, x). (MAX_CATEGORY_ALLOCATION_EXCEEDED, Category_Details c x (cc_maxCategoryAllocation config)))
       (filter (\<lambda>(c, x). x > categoryErrorThreshold config) (category_shares 100 t assets))"

definition category_warnings :: "portfolio_constraint_config \<Rightarrow> rat \<Rightarrow> constrained_asset list \<Rightarrow> constraint_violation list" where
  "category_warnings config t assets =
     map (\<lambda>(c, x). (CATEGORY_ALLOCATION_NEAR_LIMIT, Category_Details c x (cc_maxCategoryAllocation config)))
       (filter (\<lambda>(c, x). \<not> x > categoryErrorThreshold config \<and> x > cc_maxCategoryAllocation config) (category_shares 100 t assets))"

definition evaluatePortfolio :: "constrained_portfolio \<Rightarrow> constrained_asset list \<Rightarrow> constraint_evaluation" where
  "evaluatePortfolio portfolio assets =
     (let config = getConfig portfolio;
          t = assets_value assets;
          v1 = (if t > 0 then allocation_violations config t assets @ category_violations config t assets else []);
          w1 = (if t > 0 then category_warnings config t assets else []);
          requiresDiversification = (cp_type portfolio = AUTOMATED \<or> cp_strategy portfolio = Some ''balanced'');
          v2 = (if requiresDiversification \<and> length assets > 0 \<and> of_nat (length assets) < cc_minDiversifiedAssets config
                then [(MIN_DIVERSIFICATION_NOT_MET, Count_Details (length assets) (cc_minDiversifiedAssets config))] else []);
          score = calculateRiskScore assets;
          v3 = (if score > cc_riskScoreLimit config then [(RISK_SCORE_LIMIT_EXCEEDED, Score_Details score (cc_riskScoreLimit config))] else []);
          w2 = (if \<not> score > cc_riskScoreLimit config \<and> score \<ge> cc_riskScoreLimit config * (cc_warningThresholdPercent config / 100)
                then [(RISK_SCORE_NEAR_LIMIT, Score_Details score (cc_riskScoreLimit config))] else []);
          violations = v1 @ v2 @ v3
      in \<lparr>ev_valid = (length violations = 0), ev_riskScore = score, ev_violations = violations, ev_warnings = w1 @ w2, ev_config = config\<rparr>)"

section \<open>Specification\<close>

text \<open>The share of a category in per cent.\<close>

definition category_pct :: "constrained_asset list \<Rightarrow> asset_type \<Rightarrow> rat" where
  "category_pct assets c = (\<Sum>a\<leftarrow>filter (\<lambda>a. ca_type a = c) assets. ca_value a) / assets_value assets * 100"

definition needs_diversification :: "constrained_portfolio \<Rightarrow> bool" where
  "needs_diversification p \<longleftrightarrow> cp_type p = AUTOMATED \<or> cp_strategy p = Some ''balanced''"

definition rows_of :: "string \<Rightarrow> holding list \<Rightarrow> holding list" where
  "rows_of ticker holdings = filter (\<lambda>h. ho_ticker h = ticker \<and> 0 < ho_value h) holdings"

definition sample_asset :: "string \<Rightarrow> asset_type \<Rightarrow> rat \<Rightarrow> constrained_asset" where
  "sample_asset ticker t v = \<lparr>ca_ticker = ticker, ca_type = t, ca_value = v, ca_volatility = None\<rparr>"

definition sample_portfolio :: constrained_portfolio where
  "sample_portfolio = \<lparr>cp_type = MANUAL, cp_strategy = None, cp_constraintConfig = None\<rparr>"

definition sample_assets :: "constrained_asset list" where
  "sample_assets = [sample_asset ''A'' STOCK 32, sample_asset ''B'' STOCK 31, sample_asset ''C'' BOND 37]"

definition sample_holding :: "string \<Rightarrow> rat \<Rightarrow> holding" where
  "sample_holding ticker v = \<lparr>ho_ticker = ticker, ho_category = None, ho_value = v\<rparr>"

section \<open>Facts\<close>

lemma category_shares_get:
  "Map_get c (category_shares u t assets) =
    (if c \<in> ca_type ` set assets then Some (\<Sum>a\<leftarrow>filter (\<lambda>a. ca_type a = c) assets. ca_value a / t * u) else None)"
proof (induction assets rule: rev_induct)
  case (snoc a assets)
  have "c \<notin> ca_type ` set assets \<Longrightarrow> filter (\<lambda>b. ca_type b = c) assets = []" by (auto simp: filter_empty_conv)
  then show ?case using snoc by (auto simp: category_shares_def)
qed (simp add: category_shares_def)

lemma category_shares_wf: "Map_wf (category_shares u t assets)"
  by (induction assets rule: rev_induct) (simp_all add: category_shares_def)

lemma sum_list_scale: "(\<Sum>a\<leftarrow>xs. f a * u / t) = (\<Sum>a\<leftarrow>xs. f a) * u / (t :: rat)"
  by (induction xs) (simp_all add: add_divide_distrib distrib_right)

lemma category_shares_mem:
  "(c, x) \<in> set (category_shares 100 (assets_value assets) assets) \<longleftrightarrow> c \<in> ca_type ` set assets \<and> x = category_pct assets c"
  using Map_get_in_set [OF category_shares_wf, of c 100 "assets_value assets" assets x]
  by (auto simp: category_shares_get category_pct_def sum_list_scale split: if_splits)

lemma foldl_add: "foldl (\<lambda>acc x. acc + f x) (z :: rat) xs = z + (\<Sum>x\<leftarrow>xs. f x)"
  by (induction xs arbitrary: z) simp_all

lemma totalValue_ge: "h \<in> set hs \<Longrightarrow> ho_value h \<le> totalValue hs"
proof -
  assume "h \<in> set hs"
  then have "(if 0 < ho_value h then ho_value h else 0) \<le> (\<Sum>h\<leftarrow>hs. if 0 < ho_value h then ho_value h else 0)"
    by (intro member_le_sum_list) auto
  then show ?thesis by (simp add: totalValue_def foldl_add split: if_splits)
qed

lemma allocations_fold:
  "Map_get k (foldl (\<lambda>out h. if ho_value h \<le> 0 then out else Map_set (ho_ticker h) (f h) out) [] hs) =
    (if rows_of k hs = [] then None else Some (f (last (rows_of k hs))))"
  "Map_wf (foldl (\<lambda>out h. if ho_value h \<le> 0 then out else Map_set (ho_ticker h) (f h) out) [] hs)"
  by (induction hs rule: rev_induct) (auto simp: rows_of_def)

lemma allocations_get:
  "Map_get k (allocations hs) =
    (if rows_of k hs = [] then None else Some (round_pct (ho_value (last (rows_of k hs)) / totalValue hs * 100)))"
proof (cases "totalValue hs \<le> 0")
  case True
  then have "rows_of k hs = []" using totalValue_ge by (force simp: rows_of_def filter_empty_conv)
  then show ?thesis using True by (simp add: allocations_def)
qed (simp add: allocations_def Let_def allocations_fold)

lemma allocations_wf: "Map_wf (allocations hs)"
  by (simp add: allocations_def Let_def allocations_fold)

lemma round_pct_nonneg: "0 \<le> x \<Longrightarrow> 0 \<le> round_pct x"
  by (simp add: round_pct_def)

lemma round_pct_100: "x \<le> 100 \<Longrightarrow> round_pct x \<le> 100"
proof -
  assume "x \<le> 100"
  then have "(x + 1 / 2 ^ 52) * 100 + 1 / 2 < of_int 10001" by simp
  then have "\<lfloor>(x + 1 / 2 ^ 52) * 100 + 1 / 2\<rfloor> < 10001" by (simp only: floor_less_iff)
  then have "\<lfloor>(x + 1 / 2 ^ 52) * 100 + 1 / 2\<rfloor> \<le> 10000" by simp
  then have "(of_int \<lfloor>(x + 1 / 2 ^ 52) * 100 + 1 / 2\<rfloor> :: rat) \<le> of_int 10000" by (simp only: of_int_le_iff)
  then show ?thesis by (simp add: round_pct_def)
qed

lemma asset_issue:
  "(\<exists>i \<in> set (asset_issues c allocs). is_rule i = ''maxAssetAllocation'' \<and> Map_get ''ticker'' (is_meta i) = Some (Meta_Text ticker)) \<longleftrightarrow>
    (\<exists>pct. (ticker, pct) \<in> set allocs \<and> pc_maxAssetAllocationPct c < pct)"
  by (force simp: asset_issues_def Map_get_def)

lemma other_issues:
  "i \<in> set (category_issues c allocs) \<Longrightarrow> is_rule i \<noteq> ''maxAssetAllocation''"
  "i \<in> set (diversification_issues c t n) \<Longrightarrow> is_rule i \<noteq> ''maxAssetAllocation''"
  "i \<in> set (risk_issues c score) \<Longrightarrow> is_rule i \<noteq> ''maxAssetAllocation''"
  by (auto simp: category_issues_def diversification_issues_def risk_issues_def split: option.splits if_splits)

section \<open>Properties\<close>

text \<open>
  C30. The check of a portfolio of positive value is exact: it is valid if and only if no asset exceeds its limit, no
  category exceeds its limit by more than the tolerance, enough assets are held where that is
  required, and the risk score is within its limit. A category above its limit but within the
  tolerance is a warning and nothing else; with the defaults that is any share up to 66 per cent
  under a limit of 60.
\<close>

theorem constraint_check_exact:
  assumes t: "0 < assets_value assets"
  shows "(ev_valid (evaluatePortfolio p assets) \<longleftrightarrow>
      (\<forall>a \<in> set assets. ca_value a / assets_value assets * 100 \<le> cc_maxAssetAllocation (getConfig p)) \<and>
      (\<forall>c \<in> ca_type ` set assets. category_pct assets c \<le>
        cc_maxCategoryAllocation (getConfig p) * (2 - cc_warningThresholdPercent (getConfig p) / 100)) \<and>
      (needs_diversification p \<longrightarrow> cc_minDiversifiedAssets (getConfig p) \<le> of_nat (length assets)) \<and>
      calculateRiskScore assets \<le> cc_riskScoreLimit (getConfig p)) \<and>
    (\<forall>c x l. (CATEGORY_ALLOCATION_NEAR_LIMIT, Category_Details c x l) \<in> set (ev_warnings (evaluatePortfolio p assets)) \<longleftrightarrow>
      c \<in> ca_type ` set assets \<and> x = category_pct assets c \<and> l = cc_maxCategoryAllocation (getConfig p) \<and>
      l < x \<and> x \<le> l * (2 - cc_warningThresholdPercent (getConfig p) / 100))"
proof -
  have n: "assets \<noteq> []" using t by (auto simp: assets_value_def)
  have v: "allocation_violations config (assets_value assets) assets = [] \<longleftrightarrow> (\<forall>a \<in> set assets. ca_value a / assets_value assets * 100 \<le> cc_maxAssetAllocation config)"
    for config by (auto simp: allocation_violations_def filter_empty_conv)
  have c: "category_violations config (assets_value assets) assets = [] \<longleftrightarrow> (\<forall>c \<in> ca_type ` set assets. category_pct assets c \<le> categoryErrorThreshold config)"
    for config
  proof -
    have "category_violations config (assets_value assets) assets = [] \<longleftrightarrow>
        (\<forall>c x. (c, x) \<in> set (category_shares 100 (assets_value assets) assets) \<longrightarrow> \<not> categoryErrorThreshold config < x)"
      by (auto simp: category_violations_def filter_empty_conv)
    then show ?thesis by (auto simp: category_shares_mem not_less)
  qed
  have w: "(CATEGORY_ALLOCATION_NEAR_LIMIT, Category_Details c x l) \<in> set (category_warnings config (assets_value assets) assets) \<longleftrightarrow>
      c \<in> ca_type ` set assets \<and> x = category_pct assets c \<and> l = cc_maxCategoryAllocation config \<and> l < x \<and> x \<le> categoryErrorThreshold config" for config c x l
    by (auto simp: category_warnings_def category_shares_mem not_less image_iff)
  show ?thesis using t n by (auto simp: evaluatePortfolio_def Let_def v c w needs_diversification_def categoryErrorThreshold_def not_less)
qed

theorem constraint_check_exact_witness:
  "ev_valid (evaluatePortfolio sample_portfolio sample_assets) \<and>
   (CATEGORY_ALLOCATION_NEAR_LIMIT, Category_Details STOCK 63 60) \<in> set (ev_warnings (evaluatePortfolio sample_portfolio sample_assets))"
proof -
  have t: "0 < assets_value sample_assets" by code_simp
  have "\<forall>a \<in> set sample_assets. ca_value a / assets_value sample_assets * 100 \<le> cc_maxAssetAllocation (getConfig sample_portfolio)"
    "\<forall>c \<in> ca_type ` set sample_assets. category_pct sample_assets c \<le>
        cc_maxCategoryAllocation (getConfig sample_portfolio) * (2 - cc_warningThresholdPercent (getConfig sample_portfolio) / 100)"
    "\<not> needs_diversification sample_portfolio" "calculateRiskScore sample_assets \<le> cc_riskScoreLimit (getConfig sample_portfolio)"
    "STOCK \<in> ca_type ` set sample_assets" "category_pct sample_assets STOCK = 63"
    "cc_maxCategoryAllocation (getConfig sample_portfolio) = 60" "cc_warningThresholdPercent (getConfig sample_portfolio) = 90" by code_simp+
  with constraint_check_exact [OF t, of sample_portfolio] show ?thesis by simp
qed

text \<open>
  The validation compares one row per ticker with the per-asset limit: there is an issue for a ticker if and
  only if the last row of the ticker with a positive value has too large a share, whatever its
  other rows hold. An asset split over rows escapes the limit.
\<close>

theorem asset_limit_reads_last_row:
  "(\<exists>i \<in> set (vr_issues (validate holdings partial)). is_rule i = ''maxAssetAllocation'' \<and> Map_get ''ticker'' (is_meta i) = Some (Meta_Text ticker)) \<longleftrightarrow>
   rows_of ticker holdings \<noteq> [] \<and>
   pc_maxAssetAllocationPct (resolveConstraints partial) < round_pct (ho_value (last (rows_of ticker holdings)) / totalValue holdings * 100)"
proof -
  have "(\<exists>i \<in> set (vr_issues (validate holdings partial)). is_rule i = ''maxAssetAllocation'' \<and> Map_get ''ticker'' (is_meta i) = Some (Meta_Text ticker)) \<longleftrightarrow>
      (\<exists>pct. (ticker, pct) \<in> set (allocations holdings) \<and> pc_maxAssetAllocationPct (resolveConstraints partial) < pct)"
    using asset_issue [of "resolveConstraints partial" "allocations holdings" ticker] other_issues
    by (simp add: validate_def Let_def bex_Un)
  also have "\<dots> \<longleftrightarrow> (\<exists>pct. Map_get ticker (allocations holdings) = Some pct \<and> pc_maxAssetAllocationPct (resolveConstraints partial) < pct)"
    using Map_get_in_set [OF allocations_wf] by metis
  finally show ?thesis by (auto simp: allocations_get)
qed

text \<open>
  A risk score lies between 0 and 100, or it is not a number; it is not a number exactly when something is held
  and the minimal number of assets is zero, and then no limit on the risk score is ever reported.
\<close>

theorem risk_score_range:
  "(case riskScore holdings c of
      None \<Rightarrow> pc_minAssets c = 0 \<and> 0 < totalValue holdings
    | Some r \<Rightarrow> 0 \<le> r \<and> r \<le> 100 \<and> (pc_minAssets c = 0 \<longrightarrow> totalValue holdings \<le> 0)) \<and>
   (pc_minAssets c = 0 \<and> 0 < totalValue holdings \<longrightarrow> risk_issues c (riskScore holdings c) = [])"
proof -
  have sq: "0 \<le> (\<Sum>pct\<leftarrow>xs. (pct / 100) ^ 2)" for xs :: "rat list" by (rule sum_list_nonneg) auto
  have "allocations holdings = [] \<longleftrightarrow> totalValue holdings \<le> 0"
  proof
    assume none: "allocations holdings = []"
    show "totalValue holdings \<le> 0"
    proof (rule ccontr)
      assume t: "\<not> totalValue holdings \<le> 0"
      have "\<exists>h \<in> set holdings. 0 < ho_value h"
      proof (rule ccontr)
        assume "\<not> (\<exists>h \<in> set holdings. 0 < ho_value h)"
        then have "(\<Sum>h\<leftarrow>holdings. if 0 < ho_value h then ho_value h else 0) = (\<Sum>h\<leftarrow>holdings. 0)"
          by (intro arg_cong [of _ _ sum_list] map_cong) auto
        with t show False by (simp add: totalValue_def foldl_add)
      qed
      then obtain h where "h \<in> set holdings" "0 < ho_value h" by blast
      then have "Map_get (ho_ticker h) (allocations holdings) \<noteq> None" by (auto simp: allocations_get rows_of_def filter_empty_conv)
      with none show False by simp
    qed
  qed (simp add: allocations_def)
  then have len: "length (Map_values (allocations holdings)) = 0 \<longleftrightarrow> totalValue holdings \<le> 0" by (simp add: Map_values_def)
  have pen: "0 \<le> max 0 (m - of_nat k) * 25 / m" for m :: rat and k
  proof (cases "0 \<le> m")
    case False
    have "m - of_nat k \<le> m" by simp
    with False show ?thesis by (simp add: max_def)
  qed simp
  show ?thesis
    using len by (auto simp: riskScore_def Let_def foldl_add risk_issues_def intro!: round_pct_nonneg round_pct_100 add_nonneg_nonneg sq pen split: option.splits)
qed

theorem risk_score_range_witness:
  "riskScore [sample_holding ''A'' 5] (resolveConstraints (Some \<lparr>po_maxAssetAllocationPct = None, po_maxCategoryAllocationPct = None, po_minAssets = Some 0, po_maxRiskScore = None\<rparr>)) = None \<and>
   (\<exists>r. riskScore [sample_holding ''A'' 5] DEFAULT_CONSTRAINTS = Some r \<and> 0 \<le> r \<and> r \<le> 100)"
proof -
  let ?c = "resolveConstraints (Some \<lparr>po_maxAssetAllocationPct = None, po_maxCategoryAllocationPct = None, po_minAssets = Some 0, po_maxRiskScore = None\<rparr>)"
  have "pc_minAssets ?c = 0" "0 < totalValue [sample_holding ''A'' 5]" "pc_minAssets DEFAULT_CONSTRAINTS \<noteq> 0" by code_simp+
  then show ?thesis using risk_score_range [of ?c "[sample_holding ''A'' 5]"] risk_score_range [of DEFAULT_CONSTRAINTS "[sample_holding ''A'' 5]"]
    by (auto split: option.splits)
qed

text \<open>
  Acknowledgement is exact: after a validation is overridden it is valid if and only if every rule that was
  violated is acknowledged; nothing else of the result changes, and the number and order of the
  issues stay.
\<close>

theorem override_exact:
  "(vr_valid (applyOverride (validate holdings partial) acks) \<longleftrightarrow>
      (\<forall>i \<in> set (vr_issues (validate holdings partial)). is_severity i = Warning \<or> is_rule i \<in> set acks)) \<and>
   map is_rule (vr_issues (applyOverride (validate holdings partial) acks)) = map is_rule (vr_issues (validate holdings partial)) \<and>
   vr_riskScore (applyOverride (validate holdings partial) acks) = vr_riskScore (validate holdings partial)"
proof -
  have "is_overridable i" if "i \<in> set (vr_issues (validate holdings partial))" for i
    using that by (auto simp: validate_def Let_def asset_issues_def category_issues_def diversification_issues_def risk_issues_def split: option.splits if_splits)
  moreover have "is_severity i = Warning \<longleftrightarrow> is_severity i \<noteq> Violation" for i by (cases "is_severity i") auto
  ultimately show ?thesis by (auto simp: applyOverride_def no_violation_def Let_def list_ex_iff)
qed

end
