(* ===== verification/Webhooks.thy ===== *)
theory Webhooks
  imports Sql_Table Decimal
begin

text \<open>
  Webhooks (infrastructure/webhooks/): subscriptions, events, their deliveries with the signed HTTP
  request, dead letters, and the queue whose jobs process deliveries. The four tables are parameters,
  as are the HMAC, \<^verbatim>\<open>JSON.stringify\<close> of the request body, random values and what the receiver answers.
  The state records the requests made and the ids of the queued jobs. JSON columns the code only
  passes through are their text.
\<close>

section \<open>Entities\<close>

datatype subscription_status = Sub_Active | Sub_Paused | Sub_Disabled

type_synonym headers = "(string, string) js_map"

record webhook_subscription =
  ws_id :: string
  ws_userId :: string
  ws_url :: string
  ws_signingKey :: string
  ws_events :: "string list"
  ws_status :: subscription_status
  ws_description :: "string option"
  ws_maxRetries :: int
  ws_retryDelayMs :: rat
  ws_backoffMultiplier :: rat
  ws_timeoutMs :: int
  ws_rateLimitPerMinute :: int
  ws_headers :: headers
  ws_metadata :: "string option"
  ws_createdAt :: timestamp

datatype event_status = Ev_Pending | Ev_Delivering | Ev_Delivered | Ev_Failed

record webhook_event =
  we_id :: string
  we_eventType :: string
  we_payload :: string
  we_aggregateId :: "string option"
  we_status :: event_status
  we_deliveryCount :: nat
  we_successCount :: nat
  we_failureCount :: nat
  we_metadata :: "string option"
  we_createdAt :: timestamp

datatype delivery_status = Dl_Pending | Dl_Delivering | Dl_Success | Dl_Failed | Dl_Dead_Lettered

record attempt_record =
  at_attempt :: nat
  at_statusCode :: "int option"
  at_error :: "string option"
  at_durationMs :: int
  at_timestamp :: timestamp

record webhook_delivery =
  wd_id :: string
  wd_subscriptionId :: string
  wd_eventId :: string
  wd_status :: delivery_status
  wd_attempts :: nat
  wd_maxAttempts :: int
  wd_statusCode :: "int option"
  wd_responseBody :: "string option"
  wd_errorMessage :: "string option"
  wd_durationMs :: int
  wd_lastAttemptAt :: "timestamp option"
  wd_nextRetryAt :: "timestamp option"
  wd_deliveredAt :: "timestamp option"
  wd_requestHeaders :: "headers option"
  wd_responseHeaders :: "headers option"
  wd_log :: "attempt_record list"
  wd_createdAt :: timestamp

record dead_letter =
  dl_id :: string
  dl_deliveryId :: string
  dl_subscriptionId :: string
  dl_eventId :: string
  dl_url :: string
  dl_eventPayload :: string
  dl_requestHeaders :: headers
  dl_lastStatusCode :: "int option"
  dl_lastErrorMessage :: "string option"
  dl_totalAttempts :: nat
  dl_userId :: string
  dl_allAttempts :: "attempt_record list"
  dl_retried :: bool
  dl_createdAt :: timestamp

section \<open>State\<close>

record ('s, 'e, 'd, 'l) hook_repos =
  hr_subs :: "('s, webhook_subscription) table_ops"
  hr_events :: "('e, webhook_event) table_ops"
  hr_deliveries :: "('d, webhook_delivery) table_ops"
  hr_dead :: "('l, dead_letter) table_ops"
  hr_hmac :: "string \<Rightarrow> string \<Rightarrow> string"
  hr_body :: "webhook_event \<Rightarrow> timestamp \<Rightarrow> nat \<Rightarrow> string"

record hook_request =
  hq_deliveryId :: string
  hq_url :: string
  hq_body :: string
  hq_headers :: headers

record ('s, 'e, 'd, 'l) hook_world =
  hw_subs :: 's
  hw_events :: 'e
  hw_deliveries :: 'd
  hw_dead :: 'l
  hw_queue :: "string list"
  hw_requests :: "hook_request list"

definition on_subs :: "('s, 'x) io \<Rightarrow> (('s, 'e, 'd, 'l) hook_world, 'x) io" where
  "on_subs = on_part hw_subs (\<lambda>d w. w\<lparr>hw_subs := d\<rparr>)"

definition on_events :: "('e, 'x) io \<Rightarrow> (('s, 'e, 'd, 'l) hook_world, 'x) io" where
  "on_events = on_part hw_events (\<lambda>d w. w\<lparr>hw_events := d\<rparr>)"

definition on_deliveries :: "('d, 'x) io \<Rightarrow> (('s, 'e, 'd, 'l) hook_world, 'x) io" where
  "on_deliveries = on_part hw_deliveries (\<lambda>d w. w\<lparr>hw_deliveries := d\<rparr>)"

definition on_dead :: "('l, 'x) io \<Rightarrow> (('s, 'e, 'd, 'l) hook_world, 'x) io" where
  "on_dead = on_part hw_dead (\<lambda>d w. w\<lparr>hw_dead := d\<rparr>)"

section \<open>Signatures\<close>

definition sign :: "('s, 'e, 'd, 'l) hook_repos \<Rightarrow> string \<Rightarrow> string \<Rightarrow> string" where
  "sign rp payload secret = ''sha256='' @ hr_hmac rp secret payload"

definition assign_headers :: "headers \<Rightarrow> headers \<Rightarrow> headers" where
  "assign_headers base extra = foldl (\<lambda>m (k, v). Map_set k v m) base extra"

definition buildSignedHeaders ::
  "('s, 'e, 'd, 'l) hook_repos \<Rightarrow> timestamp \<Rightarrow> string \<Rightarrow> string \<Rightarrow> string \<Rightarrow> string \<Rightarrow> headers \<Rightarrow> headers" where
  "buildSignedHeaders rp now signingKey payload eventId eventType extraHeaders =
     assign_headers
       [(''Content-Type'', ''application/json''), (''X-Webhook-Event-Id'', eventId), (''X-Webhook-Event-Type'', eventType),
        (''X-Webhook-Signature'', sign rp payload signingKey), (''X-Webhook-Timestamp'', decimal (nat now)),
        (''User-Agent'', ''AlianStructure-Webhook/1.0'')] extraHeaders"

text \<open>The comparison in constant time throws on different lengths, which is caught.\<close>

definition verify_hook :: "('s, 'e, 'd, 'l) hook_repos \<Rightarrow> string \<Rightarrow> string \<Rightarrow> string \<Rightarrow> bool" where
  "verify_hook rp payload secret receivedSignature \<longleftrightarrow> sign rp payload secret = receivedSignature"

section \<open>Deliveries\<close>

definition new_delivery :: "timestamp \<Rightarrow> string \<Rightarrow> string \<Rightarrow> string \<Rightarrow> int \<Rightarrow> webhook_delivery" where
  "new_delivery now rowId subscriptionId eventId maxAttempts =
     \<lparr>wd_id = rowId, wd_subscriptionId = subscriptionId, wd_eventId = eventId, wd_status = Dl_Pending, wd_attempts = 0,
      wd_maxAttempts = maxAttempts, wd_statusCode = None, wd_responseBody = None, wd_errorMessage = None, wd_durationMs = 0,
      wd_lastAttemptAt = None, wd_nextRetryAt = None, wd_deliveredAt = None, wd_requestHeaders = None, wd_responseHeaders = None,
      wd_log = [], wd_createdAt = now\<rparr>"

text \<open>The ids of the new rows are \<open>newId 0\<close>, \<open>newId 1\<close> and so on.\<close>

fun createDeliveries ::
  "('s, 'e, 'd, 'l) hook_repos \<Rightarrow> timestamp \<Rightarrow> (nat \<Rightarrow> string) \<Rightarrow> nat \<Rightarrow> webhook_event \<Rightarrow> webhook_subscription list \<Rightarrow>
    (('s, 'e, 'd, 'l) hook_world, webhook_delivery list) io" where
  "createDeliveries rp now newId n event [] = io_return []"
| "createDeliveries rp now newId n event (sub # subs) =
     (let saved = new_delivery now (newId n) (ws_id sub) (we_id event) (ws_maxRetries sub)
      in io_bind (on_deliveries (to_save (hr_deliveries rp) saved)) (\<lambda>_.
           io_bind (createDeliveries rp now newId (n + 1) event subs) (\<lambda>rest. io_return (saved # rest))))"

text \<open>The answer of a receiver, or the message of a failed request, and its duration.\<close>

datatype hook_answer = Answer int string headers int | No_Answer string int

record delivery_result =
  dr_statusCode :: "int option"
  dr_responseBody :: "string option"
  dr_durationMs :: int
  dr_error :: "string option"
  dr_responseHeaders :: "headers option"

definition http_post :: "hook_request \<Rightarrow> (('s, 'e, 'd, 'l) hook_world, unit) io" where
  "http_post q w = (Inr (), w\<lparr>hw_requests := hw_requests w @ [q]\<rparr>)"

definition result_of_answer :: "hook_answer \<Rightarrow> delivery_result" where
  "result_of_answer a =
     (case a of
        Answer code body hs ms \<Rightarrow>
          \<lparr>dr_statusCode = Some code, dr_responseBody = Some (take 10000 body), dr_durationMs = ms,
           dr_error = (if 200 \<le> code \<and> code < 300 then None else Some (''HTTP '' @ int_text code)), dr_responseHeaders = Some hs\<rparr>
      | No_Answer e ms \<Rightarrow>
          \<lparr>dr_statusCode = None, dr_responseBody = None, dr_durationMs = ms,
           dr_error = Some (if e = [] then ''Unknown delivery error'' else e), dr_responseHeaders = None\<rparr>)"

text \<open>The delivery is returned as the method leaves it.\<close>

definition deliver_to ::
  "('s, 'e, 'd, 'l) hook_repos \<Rightarrow> timestamp \<Rightarrow> hook_answer \<Rightarrow> webhook_delivery \<Rightarrow> webhook_subscription \<Rightarrow> webhook_event \<Rightarrow>
    (('s, 'e, 'd, 'l) hook_world, delivery_result \<times> webhook_delivery) io" where
  "deliver_to rp now answer delivery s e =
     (let payload = hr_body rp e now (wd_attempts delivery + 1);
          hs = buildSignedHeaders rp now (ws_signingKey s) payload (we_id e) (we_eventType e) (ws_headers s);
          d = delivery\<lparr>wd_status := Dl_Delivering, wd_requestHeaders := Some hs, wd_lastAttemptAt := Some now\<rparr>
      in io_bind (on_deliveries (to_save (hr_deliveries rp) d)) (\<lambda>_.
           io_bind (http_post \<lparr>hq_deliveryId = wd_id d, hq_url = ws_url s, hq_body = payload, hq_headers = hs\<rparr>) (\<lambda>_.
             io_return (result_of_answer answer, d))))"

definition executeDelivery ::
  "('s, 'e, 'd, 'l) hook_repos \<Rightarrow> timestamp \<Rightarrow> hook_answer \<Rightarrow> webhook_delivery \<Rightarrow>
    (('s, 'e, 'd, 'l) hook_world, delivery_result \<times> webhook_delivery) io" where
  "executeDelivery rp now answer delivery =
     io_bind (on_subs (to_findOne (hr_subs rp) (\<lambda>s. ws_id s = wd_subscriptionId delivery) any_order)) (\<lambda>subscription.
     io_bind (on_events (to_findOne (hr_events rp) (\<lambda>e. we_id e = wd_eventId delivery) any_order)) (\<lambda>event.
       case (subscription, event) of
         (Some s, Some e) \<Rightarrow> deliver_to rp now answer delivery s e
       | _ \<Rightarrow> io_return (\<lparr>dr_statusCode = None, dr_responseBody = None, dr_durationMs = 0,
                dr_error = Some ''Subscription or event not found'', dr_responseHeaders = None\<rparr>, delivery)))"

definition calculateRetryDelay_wh :: "rat \<Rightarrow> rat \<Rightarrow> rat \<Rightarrow> nat \<Rightarrow> rat" where
  "calculateRetryDelay_wh random baseDelayMs multiplier attempt =
     (let exponential = baseDelayMs * multiplier ^ (attempt - 1); jitter = exponential * (2 / 10) * random
      in min (exponential + jitter) 300000)"

definition is_success :: "delivery_result \<Rightarrow> bool" where
  "is_success r = (case dr_statusCode r of None \<Rightarrow> False | Some c \<Rightarrow> 200 \<le> c \<and> c < 300)"

definition succeeded_delivery :: "timestamp \<Rightarrow> delivery_result \<Rightarrow> attempt_record list \<Rightarrow> webhook_delivery \<Rightarrow> webhook_delivery" where
  "succeeded_delivery now r tries d =
     d\<lparr>wd_status := Dl_Success, wd_statusCode := dr_statusCode r, wd_durationMs := dr_durationMs r, wd_deliveredAt := Some now,
       wd_responseBody := dr_responseBody r, wd_responseHeaders := dr_responseHeaders r, wd_attempts := wd_attempts d + 1, wd_log := tries\<rparr>"

definition failed_delivery :: "delivery_result \<Rightarrow> attempt_record list \<Rightarrow> webhook_delivery \<Rightarrow> webhook_delivery" where
  "failed_delivery r tries d =
     d\<lparr>wd_attempts := wd_attempts d + 1, wd_statusCode := dr_statusCode r, wd_durationMs := dr_durationMs r, wd_errorMessage := dr_error r,
       wd_responseBody := dr_responseBody r, wd_responseHeaders := dr_responseHeaders r, wd_log := tries\<rparr>"

definition letter_of ::
  "timestamp \<Rightarrow> string \<Rightarrow> webhook_subscription \<Rightarrow> webhook_event option \<Rightarrow> delivery_result \<Rightarrow> webhook_delivery \<Rightarrow> dead_letter" where
  "letter_of now rowId s event r d =
     \<lparr>dl_id = rowId, dl_deliveryId = wd_id d, dl_subscriptionId = wd_subscriptionId d, dl_eventId = wd_eventId d, dl_url = ws_url s,
      dl_eventPayload = (case event of None \<Rightarrow> ''{}'' | Some e \<Rightarrow> we_payload e), dl_requestHeaders = nullish (wd_requestHeaders d) [],
      dl_lastStatusCode = dr_statusCode r, dl_lastErrorMessage = dr_error r, dl_totalAttempts = wd_attempts d, dl_userId = ws_userId s,
      dl_allAttempts = wd_log d, dl_retried = False, dl_createdAt = now\<rparr>"

text \<open>What follows the attempt, and the whole.\<close>

definition record_attempt ::
  "('s, 'e, 'd, 'l) hook_repos \<Rightarrow> timestamp \<Rightarrow> rat \<Rightarrow> string \<Rightarrow> webhook_subscription \<Rightarrow> delivery_result \<Rightarrow> webhook_delivery \<Rightarrow>
    (('s, 'e, 'd, 'l) hook_world, webhook_delivery) io" where
  "record_attempt rp now random letterId s r d =
     (let attemptNum = wd_attempts d + 1;
          tries = wd_log d @ [\<lparr>at_attempt = attemptNum, at_statusCode = dr_statusCode r, at_error = dr_error r,
            at_durationMs = dr_durationMs r, at_timestamp = now\<rparr>]
      in if is_success r
         then let d1 = succeeded_delivery now r tries d
              in io_bind (on_deliveries (to_save (hr_deliveries rp) d1)) (\<lambda>_.
                   io_bind (on_events (to_update (hr_events rp) (\<lambda>e. we_id e = wd_eventId d) (\<lambda>e. e\<lparr>we_successCount := we_successCount e + 1\<rparr>))) (\<lambda>_.
                     io_return d1))
         else
           let d1 = failed_delivery r tries d
           in if int attemptNum \<ge> wd_maxAttempts d
              then let d2 = d1\<lparr>wd_status := Dl_Dead_Lettered\<rparr>
                   in io_bind (on_deliveries (to_save (hr_deliveries rp) d2)) (\<lambda>_.
                        io_bind (on_events (to_findOne (hr_events rp) (\<lambda>e. we_id e = wd_eventId d) any_order)) (\<lambda>event.
                          io_bind (on_dead (to_save (hr_dead rp) (letter_of now letterId s event r d2))) (\<lambda>_.
                            io_bind (on_events (to_update (hr_events rp) (\<lambda>e. we_id e = wd_eventId d) (\<lambda>e. e\<lparr>we_failureCount := we_failureCount e + 1\<rparr>))) (\<lambda>_.
                              io_return d2))))
              else let d2 = d1\<lparr>wd_status := Dl_Failed,
                         wd_nextRetryAt := Some (now + \<lfloor>calculateRetryDelay_wh random (ws_retryDelayMs s) (ws_backoffMultiplier s) attemptNum\<rfloor>)\<rparr>
                   in io_bind (on_deliveries (to_save (hr_deliveries rp) d2)) (\<lambda>_. io_return d2))"

definition processDelivery ::
  "('s, 'e, 'd, 'l) hook_repos \<Rightarrow> timestamp \<Rightarrow> rat \<Rightarrow> string \<Rightarrow> hook_answer \<Rightarrow> string \<Rightarrow> (('s, 'e, 'd, 'l) hook_world, webhook_delivery) io" where
  "processDelivery rp now random letterId answer deliveryId =
     io_bind (on_deliveries (to_findOne (hr_deliveries rp) (\<lambda>d. wd_id d = deliveryId) any_order)) (\<lambda>found.
       case found of
         None \<Rightarrow> io_throw (PlainError (''Delivery '' @ deliveryId @ '' not found''))
       | Some delivery \<Rightarrow>
           io_bind (on_subs (to_findOne (hr_subs rp) (\<lambda>s. ws_id s = wd_subscriptionId delivery) any_order)) (\<lambda>subscription.
             case subscription of
               None \<Rightarrow> io_throw (PlainError (''Subscription '' @ wd_subscriptionId delivery @ '' not found''))
             | Some s \<Rightarrow> io_bind (executeDelivery rp now answer delivery) (\<lambda>(r, d). record_attempt rp now random letterId s r d)))"

definition created_asc :: "webhook_delivery \<Rightarrow> webhook_delivery \<Rightarrow> int" where
  "created_asc a b = wd_createdAt a - wd_createdAt b"

definition getDeliveriesByEvent :: "('s, 'e, 'd, 'l) hook_repos \<Rightarrow> string \<Rightarrow> (('s, 'e, 'd, 'l) hook_world, webhook_delivery list) io" where
  "getDeliveriesByEvent rp eventId = on_deliveries (to_find (hr_deliveries rp) (\<lambda>d. wd_eventId d = eventId) created_asc)"

definition oldest_letter :: "dead_letter \<Rightarrow> dead_letter \<Rightarrow> int" where
  "oldest_letter a b = dl_createdAt a - dl_createdAt b"

definition getPendingRetries :: "('s, 'e, 'd, 'l) hook_repos \<Rightarrow> (('s, 'e, 'd, 'l) hook_world, dead_letter list) io" where
  "getPendingRetries rp = io_bind (on_dead (to_find (hr_dead rp) (\<lambda>l. \<not> dl_retried l) oldest_letter)) (\<lambda>ls. io_return (take 50 ls))"

definition requeue ::
  "('s, 'e, 'd, 'l) hook_repos \<Rightarrow> timestamp \<Rightarrow> string \<Rightarrow> dead_letter \<Rightarrow> (('s, 'e, 'd, 'l) hook_world, webhook_delivery option) io" where
  "requeue rp now rowId dl =
     io_bind (on_subs (to_findOne (hr_subs rp) (\<lambda>s. ws_id s = dl_subscriptionId dl) any_order)) (\<lambda>subscription.
       case subscription of
         None \<Rightarrow> io_return None
       | Some s \<Rightarrow>
           if ws_status s \<noteq> Sub_Active then io_return None
           else
             let saved = new_delivery now rowId (dl_subscriptionId dl) (dl_eventId dl) (ws_maxRetries s)
             in io_bind (on_deliveries (to_save (hr_deliveries rp) saved)) (\<lambda>_.
                  io_bind (on_dead (to_save (hr_dead rp) (dl\<lparr>dl_retried := True\<rparr>))) (\<lambda>_. io_return (Some saved))))"

definition retryDeadLetter ::
  "('s, 'e, 'd, 'l) hook_repos \<Rightarrow> timestamp \<Rightarrow> string \<Rightarrow> string \<Rightarrow> (('s, 'e, 'd, 'l) hook_world, webhook_delivery option) io" where
  "retryDeadLetter rp now rowId deadLetterId =
     io_bind (on_dead (to_findOne (hr_dead rp) (\<lambda>l. dl_id l = deadLetterId) any_order)) (\<lambda>found.
       case found of
         None \<Rightarrow> io_return None
       | Some dl \<Rightarrow> if dl_retried dl then io_return None else requeue rp now rowId dl)"

definition newest_letter :: "dead_letter \<Rightarrow> dead_letter \<Rightarrow> int" where
  "newest_letter a b = dl_createdAt b - dl_createdAt a"

definition getDeadLetters ::
  "('s, 'e, 'd, 'l) hook_repos \<Rightarrow> string option \<Rightarrow> nat \<Rightarrow> nat \<Rightarrow> (('s, 'e, 'd, 'l) hook_world, dead_letter list) io" where
  "getDeadLetters rp userId limit offset =
     io_bind (on_dead (to_find (hr_dead rp) (\<lambda>l. truthy userId \<longrightarrow> Some (dl_userId l) = userId) newest_letter)) (\<lambda>ls.
       io_return (take limit (drop offset ls)))"

section \<open>Subscriptions\<close>

record create_subscription_dto =
  cs_url :: string
  cs_events :: "string list"
  cs_description :: "string option"
  cs_maxRetries :: "int option"
  cs_retryDelayMs :: "rat option"
  cs_backoffMultiplier :: "rat option"
  cs_timeoutMs :: "int option"
  cs_rateLimitPerMinute :: "int option"
  cs_headers :: headers
  cs_metadata :: "string option"

record update_subscription_dto =
  us_url :: "string option"
  us_events :: "string list option"
  us_status :: "subscription_status option"
  us_description :: "string option"
  us_maxRetries :: "int option"
  us_retryDelayMs :: "rat option"
  us_backoffMultiplier :: "rat option"
  us_timeoutMs :: "int option"
  us_rateLimitPerMinute :: "int option"
  us_headers :: "headers option"

text \<open>\<open>randomHex\<close> is the text of 32 random bytes.\<close>

definition generateSigningKey :: "string \<Rightarrow> string" where
  "generateSigningKey randomHex = ''whsec_'' @ randomHex"

definition create_subscription ::
  "('s, 'e, 'd, 'l) hook_repos \<Rightarrow> timestamp \<Rightarrow> string \<Rightarrow> string \<Rightarrow> string \<Rightarrow> create_subscription_dto \<Rightarrow>
    (('s, 'e, 'd, 'l) hook_world, webhook_subscription) io" where
  "create_subscription rp now rowId randomHex userId dto =
     (let saved = \<lparr>ws_id = rowId, ws_userId = userId, ws_url = cs_url dto, ws_signingKey = generateSigningKey randomHex,
            ws_events = cs_events dto, ws_status = Sub_Active, ws_description = cs_description dto,
            ws_maxRetries = nullish (cs_maxRetries dto) 5, ws_retryDelayMs = nullish (cs_retryDelayMs dto) 1000,
            ws_backoffMultiplier = nullish (cs_backoffMultiplier dto) 2, ws_timeoutMs = nullish (cs_timeoutMs dto) 30000,
            ws_rateLimitPerMinute = nullish (cs_rateLimitPerMinute dto) 10, ws_headers = cs_headers dto,
            ws_metadata = cs_metadata dto, ws_createdAt = now\<rparr>
      in io_bind (on_subs (to_save (hr_subs rp) saved)) (\<lambda>_. io_return saved))"

definition newest_sub :: "webhook_subscription \<Rightarrow> webhook_subscription \<Rightarrow> int" where
  "newest_sub a b = ws_createdAt b - ws_createdAt a"

definition findAll_subs :: "('s, 'e, 'd, 'l) hook_repos \<Rightarrow> string \<Rightarrow> (('s, 'e, 'd, 'l) hook_world, webhook_subscription list) io" where
  "findAll_subs rp userId = on_subs (to_find (hr_subs rp) (\<lambda>s. ws_userId s = userId) newest_sub)"

definition findOne_sub :: "('s, 'e, 'd, 'l) hook_repos \<Rightarrow> string \<Rightarrow> string \<Rightarrow> (('s, 'e, 'd, 'l) hook_world, webhook_subscription) io" where
  "findOne_sub rp i userId =
     io_bind (on_subs (to_findOne (hr_subs rp) (\<lambda>s. ws_id s = i \<and> ws_userId s = userId) any_order)) (\<lambda>found.
       case found of None \<Rightarrow> io_throw (NotFound (''Webhook subscription '' @ i @ '' not found'')) | Some s \<Rightarrow> io_return s)"

definition findActiveForEvent :: "('s, 'e, 'd, 'l) hook_repos \<Rightarrow> string \<Rightarrow> (('s, 'e, 'd, 'l) hook_world, webhook_subscription list) io" where
  "findActiveForEvent rp eventType =
     io_bind (on_subs (to_find (hr_subs rp) (\<lambda>s. ws_status s = Sub_Active) any_order)) (\<lambda>allActive.
       io_return (filter (\<lambda>s. ''*'' \<in> set (ws_events s) \<or> eventType \<in> set (ws_events s)) allActive))"

definition assign_subscription :: "update_subscription_dto \<Rightarrow> webhook_subscription \<Rightarrow> webhook_subscription" where
  "assign_subscription dto s =
     s\<lparr>ws_url := nullish (us_url dto) (ws_url s), ws_events := nullish (us_events dto) (ws_events s),
       ws_status := nullish (us_status dto) (ws_status s),
       ws_description := (case us_description dto of None \<Rightarrow> ws_description s | Some x \<Rightarrow> Some x),
       ws_maxRetries := nullish (us_maxRetries dto) (ws_maxRetries s), ws_retryDelayMs := nullish (us_retryDelayMs dto) (ws_retryDelayMs s),
       ws_backoffMultiplier := nullish (us_backoffMultiplier dto) (ws_backoffMultiplier s),
       ws_timeoutMs := nullish (us_timeoutMs dto) (ws_timeoutMs s),
       ws_rateLimitPerMinute := nullish (us_rateLimitPerMinute dto) (ws_rateLimitPerMinute s),
       ws_headers := nullish (us_headers dto) (ws_headers s)\<rparr>"

definition change_subscription ::
  "('s, 'e, 'd, 'l) hook_repos \<Rightarrow> string \<Rightarrow> string \<Rightarrow> (webhook_subscription \<Rightarrow> webhook_subscription) \<Rightarrow>
    (('s, 'e, 'd, 'l) hook_world, webhook_subscription) io" where
  "change_subscription rp i userId f =
     io_bind (findOne_sub rp i userId) (\<lambda>s. io_bind (on_subs (to_save (hr_subs rp) (f s))) (\<lambda>_. io_return (f s)))"

definition update_subscription ::
  "('s, 'e, 'd, 'l) hook_repos \<Rightarrow> string \<Rightarrow> string \<Rightarrow> update_subscription_dto \<Rightarrow> (('s, 'e, 'd, 'l) hook_world, webhook_subscription) io" where
  "update_subscription rp i userId dto = change_subscription rp i userId (assign_subscription dto)"

definition remove_subscription :: "('s, 'e, 'd, 'l) hook_repos \<Rightarrow> string \<Rightarrow> string \<Rightarrow> (('s, 'e, 'd, 'l) hook_world, unit) io" where
  "remove_subscription rp i userId =
     io_bind (change_subscription rp i userId (\<lambda>s. s\<lparr>ws_status := Sub_Disabled\<rparr>)) (\<lambda>_. io_return ())"

definition rotateKey ::
  "('s, 'e, 'd, 'l) hook_repos \<Rightarrow> string \<Rightarrow> string \<Rightarrow> string \<Rightarrow> (('s, 'e, 'd, 'l) hook_world, webhook_subscription) io" where
  "rotateKey rp randomHex i userId = change_subscription rp i userId (\<lambda>s. s\<lparr>ws_signingKey := generateSigningKey randomHex\<rparr>)"

definition toggleStatus ::
  "('s, 'e, 'd, 'l) hook_repos \<Rightarrow> string \<Rightarrow> string \<Rightarrow> subscription_status \<Rightarrow> (('s, 'e, 'd, 'l) hook_world, webhook_subscription) io" where
  "toggleStatus rp i userId status = change_subscription rp i userId (\<lambda>s. s\<lparr>ws_status := status\<rparr>)"

section \<open>Events\<close>

record publish_dto =
  pe_eventType :: string
  pe_payload :: string
  pe_aggregateId :: "string option"
  pe_metadata :: "string option"

definition new_event :: "timestamp \<Rightarrow> string \<Rightarrow> publish_dto \<Rightarrow> webhook_event" where
  "new_event now rowId dto =
     \<lparr>we_id = rowId, we_eventType = pe_eventType dto, we_payload = pe_payload dto, we_aggregateId = pe_aggregateId dto,
      we_status = Ev_Pending, we_deliveryCount = 0, we_successCount = 0, we_failureCount = 0, we_metadata = pe_metadata dto, we_createdAt = now\<rparr>"

text \<open>A job with one attempt is added to the queue.\<close>

definition enqueue :: "string list \<Rightarrow> (('s, 'e, 'd, 'l) hook_world, unit) io" where
  "enqueue ids w = (Inr (), w\<lparr>hw_queue := hw_queue w @ ids\<rparr>)"

definition publishEvent ::
  "('s, 'e, 'd, 'l) hook_repos \<Rightarrow> timestamp \<Rightarrow> string \<Rightarrow> (nat \<Rightarrow> string) \<Rightarrow> publish_dto \<Rightarrow> (('s, 'e, 'd, 'l) hook_world, webhook_event) io" where
  "publishEvent rp now rowId newId dto =
     (let saved = new_event now rowId dto
      in io_bind (on_events (to_save (hr_events rp) saved)) (\<lambda>_.
           io_bind (findActiveForEvent rp (pe_eventType dto)) (\<lambda>subscribers.
             if length subscribers = 0
             then let e = saved\<lparr>we_status := Ev_Delivered, we_deliveryCount := 0\<rparr>
                  in io_bind (on_events (to_save (hr_events rp) e)) (\<lambda>_. io_return e)
             else io_bind (createDeliveries rp now newId 0 saved subscribers) (\<lambda>deliveries.
                    io_bind (enqueue (map wd_id deliveries)) (\<lambda>_.
                      let e = saved\<lparr>we_status := Ev_Delivering, we_deliveryCount := length deliveries\<rparr>
                      in io_bind (on_events (to_save (hr_events rp) e)) (\<lambda>_. io_return e))))))"

definition getEvent :: "('s, 'e, 'd, 'l) hook_repos \<Rightarrow> string \<Rightarrow> (('s, 'e, 'd, 'l) hook_world, webhook_event option) io" where
  "getEvent rp eventId = on_events (to_findOne (hr_events rp) (\<lambda>e. we_id e = eventId) any_order)"

definition newest_event :: "webhook_event \<Rightarrow> webhook_event \<Rightarrow> int" where
  "newest_event a b = we_createdAt b - we_createdAt a"

definition listEvents :: "('s, 'e, 'd, 'l) hook_repos \<Rightarrow> string option \<Rightarrow> nat \<Rightarrow> nat \<Rightarrow> (('s, 'e, 'd, 'l) hook_world, webhook_event list) io" where
  "listEvents rp eventType limit offset =
     io_bind (on_events (to_find (hr_events rp) (\<lambda>e. truthy eventType \<longrightarrow> Some (we_eventType e) = eventType) newest_event)) (\<lambda>es.
       io_return (take limit (drop offset es)))"

text \<open>\<open>replayed\<close> adds \<^verbatim>\<open>replayedFrom\<close> to the metadata.\<close>

definition replayEvent ::
  "('s, 'e, 'd, 'l) hook_repos \<Rightarrow> (string option \<Rightarrow> string \<Rightarrow> string) \<Rightarrow> timestamp \<Rightarrow> string \<Rightarrow> (nat \<Rightarrow> string) \<Rightarrow> string \<Rightarrow>
    (('s, 'e, 'd, 'l) hook_world, webhook_event option) io" where
  "replayEvent rp replayed now rowId newId eventId =
     io_bind (on_events (to_findOne (hr_events rp) (\<lambda>e. we_id e = eventId) any_order)) (\<lambda>found.
       case found of
         None \<Rightarrow> io_return None
       | Some original \<Rightarrow>
           io_bind (publishEvent rp now rowId newId \<lparr>pe_eventType = we_eventType original, pe_payload = we_payload original,
               pe_aggregateId = we_aggregateId original, pe_metadata = Some (replayed (we_metadata original) (we_id original))\<rparr>)
             (\<lambda>e. io_return (Some e)))"

text \<open>The processor takes the first job of the queue; a job that throws is not tried again.\<close>

definition handleDelivery ::
  "('s, 'e, 'd, 'l) hook_repos \<Rightarrow> timestamp \<Rightarrow> rat \<Rightarrow> string \<Rightarrow> hook_answer \<Rightarrow> (('s, 'e, 'd, 'l) hook_world, webhook_delivery option) io" where
  "handleDelivery rp now random letterId answer w =
     (case hw_queue w of
        [] \<Rightarrow> (Inr None, w)
      | deliveryId # rest \<Rightarrow>
          io_bind (processDelivery rp now random letterId answer deliveryId) (\<lambda>d. io_return (Some d)) (w\<lparr>hw_queue := rest\<rparr>))"

section \<open>Specification\<close>

locale hook_tables =
  s: sql_table "hr_subs rp" ws_id srows +
  e: sql_table "hr_events rp" we_id erows +
  d: sql_table "hr_deliveries rp" wd_id drows +
  l: sql_table "hr_dead rp" dl_id lrows
  for rp :: "('s, 'e, 'd, 'l) hook_repos" and srows and erows and drows and lrows

text \<open>The calls of the services and of the processor in any order, deliveries created with new ids.\<close>

inductive hook_step ::
  "('s, 'e, 'd, 'l) hook_repos \<Rightarrow> ('d \<Rightarrow> string \<Rightarrow> webhook_delivery option) \<Rightarrow> ('s, 'e, 'd, 'l) hook_world \<Rightarrow> ('s, 'e, 'd, 'l) hook_world \<Rightarrow> bool"
  for rp drows where
  subscribe: "hook_step rp drows w (snd (create_subscription rp now rowId randomHex userId cdto w))"
| change: "hook_step rp drows w (snd (update_subscription rp i userId udto w))"
| remove: "hook_step rp drows w (snd (remove_subscription rp i userId w))"
| rotate: "hook_step rp drows w (snd (rotateKey rp randomHex i userId w))"
| toggle: "hook_step rp drows w (snd (toggleStatus rp i userId status w))"
| publish: "inj newId \<Longrightarrow> \<forall>n. drows (hw_deliveries w) (newId n) = None \<Longrightarrow> hook_step rp drows w (snd (publishEvent rp now rowId newId pdto w))"
| replay: "inj newId \<Longrightarrow> \<forall>n. drows (hw_deliveries w) (newId n) = None \<Longrightarrow> hook_step rp drows w (snd (replayEvent rp replayed now rowId newId eventId w))"
| handle: "hook_step rp drows w (snd (handleDelivery rp now random letterId answer w))"
| retry: "drows (hw_deliveries w) rowId = None \<Longrightarrow> hook_step rp drows w (snd (retryDeadLetter rp now rowId letterId w))"
| list_subs: "hook_step rp drows w (snd (findAll_subs rp userId w))"
| one_sub: "hook_step rp drows w (snd (findOne_sub rp i userId w))"
| deliveries: "hook_step rp drows w (snd (getDeliveriesByEvent rp eventId w))"
| pending: "hook_step rp drows w (snd (getPendingRetries rp w))"
| letters: "hook_step rp drows w (snd (getDeadLetters rp userId' limit offset w))"
| one_event: "hook_step rp drows w (snd (getEvent rp eventId w))"
| events: "hook_step rp drows w (snd (listEvents rp eventType limit offset w))"

definition sent_ids :: "('s, 'e, 'd, 'l) hook_world \<Rightarrow> string list" where
  "sent_ids w = map hq_deliveryId (hw_requests w)"

text \<open>What a step may do: add rows, some of which it queues; or work off the first job of the queue.\<close>

definition extends ::
  "('d \<Rightarrow> string \<Rightarrow> webhook_delivery option) \<Rightarrow> ('s, 'e, 'd, 'l) hook_world \<Rightarrow> ('s, 'e, 'd, 'l) hook_world \<Rightarrow> bool" where
  "extends drows w w' \<longleftrightarrow> hw_requests w' = hw_requests w \<and>
     (\<exists>ids. hw_queue w' = hw_queue w @ ids \<and> distinct ids \<and> (\<forall>i \<in> set ids. drows (hw_deliveries w) i = None \<and> drows (hw_deliveries w') i \<noteq> None)) \<and>
     (\<forall>i r. drows (hw_deliveries w) i = Some r \<longrightarrow> drows (hw_deliveries w') i = Some r) \<and>
     (\<forall>i r. drows (hw_deliveries w) i = None \<and> drows (hw_deliveries w') i = Some r \<longrightarrow> wd_attempts r = 0)"

definition works ::
  "('d \<Rightarrow> string \<Rightarrow> webhook_delivery option) \<Rightarrow> ('s, 'e, 'd, 'l) hook_world \<Rightarrow> ('s, 'e, 'd, 'l) hook_world \<Rightarrow> bool" where
  "works drows w w' \<longleftrightarrow> (\<exists>i. hw_queue w = i # hw_queue w' \<and>
     (\<forall>j. j \<noteq> i \<longrightarrow> drows (hw_deliveries w') j = drows (hw_deliveries w) j) \<and>
     (drows (hw_deliveries w') i = None \<longleftrightarrow> drows (hw_deliveries w) i = None) \<and>
     (\<forall>r r'. drows (hw_deliveries w) i = Some r \<and> drows (hw_deliveries w') i = Some r' \<longrightarrow> wd_attempts r' \<le> wd_attempts r + 1) \<and>
     (hw_requests w' = hw_requests w \<or> (\<exists>q. hq_deliveryId q = i \<and> hw_requests w' = hw_requests w @ [q])))"

definition hooks_ok :: "('d \<Rightarrow> string \<Rightarrow> webhook_delivery option) \<Rightarrow> ('s, 'e, 'd, 'l) hook_world \<Rightarrow> bool" where
  "hooks_ok drows w \<longleftrightarrow> distinct (hw_queue w) \<and> distinct (sent_ids w) \<and>
     (\<forall>i \<in> set (hw_queue w). i \<notin> set (sent_ids w) \<and> (\<exists>r. drows (hw_deliveries w) i = Some r \<and> wd_attempts r = 0)) \<and>
     (\<forall>i \<in> set (sent_ids w). drows (hw_deliveries w) i \<noteq> None) \<and>
     (\<forall>i r. drows (hw_deliveries w) i = Some r \<longrightarrow> wd_attempts r \<le> 1)"

text \<open>The deliveries, the queue and the requests are as given; and while a delivery is processed.\<close>

definition untouched ::
  "('d \<Rightarrow> string \<Rightarrow> webhook_delivery option) \<Rightarrow> (string \<Rightarrow> webhook_delivery option) \<Rightarrow> string list \<Rightarrow> hook_request list \<Rightarrow>
    ('s, 'e, 'd, 'l) hook_world \<Rightarrow> bool" where
  "untouched drows R Q P w \<longleftrightarrow> drows (hw_deliveries w) = R \<and> hw_queue w = Q \<and> hw_requests w = P"

definition processing ::
  "('d \<Rightarrow> string \<Rightarrow> webhook_delivery option) \<Rightarrow> webhook_delivery \<Rightarrow> bool \<Rightarrow> (string \<Rightarrow> webhook_delivery option) \<Rightarrow> string list \<Rightarrow>
    hook_request list \<Rightarrow> ('s, 'e, 'd, 'l) hook_world \<Rightarrow> bool" where
  "processing drows r posted R Q P w \<longleftrightarrow> hw_queue w = Q \<and> (\<forall>j. j \<noteq> wd_id r \<longrightarrow> drows (hw_deliveries w) j = R j) \<and>
     (\<exists>r'. drows (hw_deliveries w) (wd_id r) = Some r' \<and> wd_attempts r' \<le> wd_attempts r + 1) \<and>
     (hw_requests w = P \<or> posted \<and> (\<exists>q. hq_deliveryId q = wd_id r \<and> hw_requests w = P @ [q]))"

section \<open>Sample data\<close>

definition calm_hooks ::
  "(webhook_subscription mem_table, webhook_event mem_table, webhook_delivery mem_table, dead_letter mem_table) hook_repos" where
  "calm_hooks = \<lparr>hr_subs = calm_table_ops ws_id, hr_events = calm_table_ops we_id, hr_deliveries = calm_table_ops wd_id,
     hr_dead = calm_table_ops dl_id, hr_hmac = (\<lambda>payload secret. secret @ payload), hr_body = (\<lambda>e now n. we_payload e)\<rparr>"

type_synonym sample_hook_world =
  "(webhook_subscription mem_table, webhook_event mem_table, webhook_delivery mem_table, dead_letter mem_table) hook_world"

definition no_hooks :: sample_hook_world where
  "no_hooks = \<lparr>hw_subs = \<lparr>mt_rows = [], mt_faults = []\<rparr>, hw_events = \<lparr>mt_rows = [], mt_faults = []\<rparr>,
     hw_deliveries = \<lparr>mt_rows = [], mt_faults = []\<rparr>, hw_dead = \<lparr>mt_rows = [], mt_faults = []\<rparr>, hw_queue = [], hw_requests = []\<rparr>"

definition sample_subscribe :: "int \<Rightarrow> create_subscription_dto" where
  "sample_subscribe n = \<lparr>cs_url = ''https://a.example'', cs_events = [''invoice.paid''], cs_description = None, cs_maxRetries = Some n,
     cs_retryDelayMs = None, cs_backoffMultiplier = None, cs_timeoutMs = None, cs_rateLimitPerMinute = None, cs_headers = [], cs_metadata = None\<rparr>"

definition sample_ids :: "nat \<Rightarrow> string" where
  "sample_ids n = CHR ''d'' # replicate n (CHR ''x'')"

definition sample_publish :: publish_dto where
  "sample_publish = \<lparr>pe_eventType = ''invoice.paid'', pe_payload = ''{}'', pe_aggregateId = None, pe_metadata = None\<rparr>"

text \<open>One subscriber with \<open>n\<close> attempts, one event, and its delivery answered with a server error.\<close>

definition subscribed :: "int \<Rightarrow> sample_hook_world" where
  "subscribed n = snd (create_subscription calm_hooks 10 ''s1'' ''ab'' ''u1'' (sample_subscribe n) no_hooks)"

definition published :: "int \<Rightarrow> sample_hook_world" where
  "published n = snd (publishEvent calm_hooks 20 ''e1'' sample_ids sample_publish (subscribed n))"

definition answered :: "int \<Rightarrow> sample_hook_world" where
  "answered n = snd (handleDelivery calm_hooks 30 0 ''l1'' (Answer 500 ''error'' [] 7) (published n))"

section \<open>Facts\<close>

lemma hook_parts_eq:
  "on_subs m w = (fst (m (hw_subs w)), w\<lparr>hw_subs := snd (m (hw_subs w))\<rparr>)"
  "on_events m1 w = (fst (m1 (hw_events w)), w\<lparr>hw_events := snd (m1 (hw_events w))\<rparr>)"
  "on_deliveries m2 w = (fst (m2 (hw_deliveries w)), w\<lparr>hw_deliveries := snd (m2 (hw_deliveries w))\<rparr>)"
  "on_dead m3 w = (fst (m3 (hw_dead w)), w\<lparr>hw_dead := snd (m3 (hw_dead w))\<rparr>)"
  by (simp_all add: on_subs_def on_events_def on_deliveries_def on_dead_def on_part_eq)

lemma extends_ok: "extends drows w w' \<Longrightarrow> hooks_ok drows w \<Longrightarrow> hooks_ok drows w'"
proof -
  assume ext: "extends drows w w'" and ok: "hooks_ok drows w"
  then obtain ids where ids: "hw_queue w' = hw_queue w @ ids" "distinct ids"
      "\<forall>i \<in> set ids. drows (hw_deliveries w) i = None \<and> drows (hw_deliveries w') i \<noteq> None"
    and old: "\<And>i r. drows (hw_deliveries w) i = Some r \<Longrightarrow> drows (hw_deliveries w') i = Some r"
    and new: "\<And>i r. drows (hw_deliveries w) i = None \<Longrightarrow> drows (hw_deliveries w') i = Some r \<Longrightarrow> wd_attempts r = 0"
    using ext unfolding extends_def by blast
  have req: "sent_ids w' = sent_ids w" using ext by (simp add: extends_def sent_ids_def)
  have "set (hw_queue w) \<inter> set ids = {}" using ok ids(3) by (fastforce simp: hooks_ok_def)
  moreover have "i \<notin> set (sent_ids w) \<and> (\<exists>r. drows (hw_deliveries w') i = Some r \<and> wd_attempts r = 0)" if "i \<in> set ids" for i
    using that ok ids(3) new by (fastforce simp: hooks_ok_def)
  moreover have "wd_attempts r \<le> 1" if "drows (hw_deliveries w') i = Some r" for i r
    using that ok old new by (cases "drows (hw_deliveries w) i") (fastforce simp: hooks_ok_def)+
  moreover have "i \<notin> set (sent_ids w) \<and> (\<exists>r. drows (hw_deliveries w') i = Some r \<and> wd_attempts r = 0)" if "i \<in> set (hw_queue w)" for i
    using that ok old unfolding hooks_ok_def by blast
  moreover have "drows (hw_deliveries w') i \<noteq> None" if "i \<in> set (sent_ids w)" for i
  proof -
    have "drows (hw_deliveries w) i \<noteq> None" using that ok unfolding hooks_ok_def by blast
    then show ?thesis using old by auto
  qed
  moreover have "distinct (hw_queue w)" "distinct (sent_ids w)" using ok by (simp_all add: hooks_ok_def)
  ultimately show "hooks_ok drows w'" unfolding hooks_ok_def req ids(1) using ids(2) by auto
qed

lemma works_ok: "works drows w w' \<Longrightarrow> hooks_ok drows w \<Longrightarrow> hooks_ok drows w'"
proof -
  assume wk: "works drows w w'" and ok: "hooks_ok drows w"
  then obtain i where i: "hw_queue w = i # hw_queue w'" "\<And>j. j \<noteq> i \<Longrightarrow> drows (hw_deliveries w') j = drows (hw_deliveries w) j"
      "drows (hw_deliveries w') i = None \<longleftrightarrow> drows (hw_deliveries w) i = None"
      "\<And>r r'. drows (hw_deliveries w) i = Some r \<Longrightarrow> drows (hw_deliveries w') i = Some r' \<Longrightarrow> wd_attempts r' \<le> wd_attempts r + 1"
      "sent_ids w' = sent_ids w \<or> sent_ids w' = sent_ids w @ [i]"
    unfolding works_def sent_ids_def by auto
  obtain r where r: "drows (hw_deliveries w) i = Some r" "wd_attempts r = 0" "i \<notin> set (sent_ids w)" "i \<notin> set (hw_queue w')"
    using ok i(1) unfolding hooks_ok_def by (metis distinct.simps(2) list.set_intros(1))
  have "wd_attempts r' \<le> 1" if "drows (hw_deliveries w') j = Some r'" for j r'
    using that i(2,4) r ok by (cases "j = i") (fastforce simp: hooks_ok_def)+
  moreover have "j \<notin> set (sent_ids w') \<and> (\<exists>r. drows (hw_deliveries w') j = Some r \<and> wd_attempts r = 0)" if "j \<in> set (hw_queue w')" for j
  proof -
    have "j \<noteq> i" "j \<in> set (hw_queue w)" using that r(4) i(1) by auto
    then have "j \<notin> set (sent_ids w) \<and> (\<exists>r. drows (hw_deliveries w) j = Some r \<and> wd_attempts r = 0)" using ok unfolding hooks_ok_def by blast
    then show ?thesis using i(2) [OF \<open>j \<noteq> i\<close>] i(5) \<open>j \<noteq> i\<close> by auto
  qed
  moreover have "drows (hw_deliveries w') j \<noteq> None" if "j \<in> set (sent_ids w')" for j
    using that i(2,3,5) r(1) ok by (cases "j = i") (auto simp: hooks_ok_def)
  moreover have "distinct (sent_ids w')" "distinct (hw_queue w')" using i(1,5) r(3) ok by (auto simp: hooks_ok_def)
  ultimately show "hooks_ok drows w'" unfolding hooks_ok_def by blast
qed

lemma untouched_extends: "untouched drows (drows (hw_deliveries w)) (hw_queue w) (hw_requests w) w' \<Longrightarrow> extends drows w w'"
  by (auto simp: untouched_def extends_def)

context hook_tables
begin

lemma untouched_parts [io_keeps_rules]:
  "io_keeps (untouched drows R Q P) (on_subs m)" "io_keeps (untouched drows R Q P) (on_events m1)" "io_keeps (untouched drows R Q P) (on_dead m3)"
  by (simp_all add: io_keeps_def hook_parts_eq untouched_def)

lemma untouched_queries [io_keeps_rules]:
  "io_keeps (untouched drows R Q P) (on_deliveries (to_findOne (hr_deliveries rp) A ord))"
  "io_keeps (untouched drows R Q P) (on_deliveries (to_find (hr_deliveries rp) A ord'))"
  by (simp_all add: io_keeps_def hook_parts_eq untouched_def d.findOne_rows d.find_rows)

lemma untouched_steps:
  "io_keeps (untouched drows R Q P) (create_subscription rp now rowId randomHex userId cdto)"
  "io_keeps (untouched drows R Q P) (update_subscription rp i userId udto)"
  "io_keeps (untouched drows R Q P) (remove_subscription rp i userId)"
  "io_keeps (untouched drows R Q P) (rotateKey rp randomHex i userId)"
  "io_keeps (untouched drows R Q P) (toggleStatus rp i userId status)"
  "io_keeps (untouched drows R Q P) (findAll_subs rp userId)"
  "io_keeps (untouched drows R Q P) (findOne_sub rp i userId)"
  "io_keeps (untouched drows R Q P) (findActiveForEvent rp eventType)"
  "io_keeps (untouched drows R Q P) (getDeliveriesByEvent rp eventId)"
  "io_keeps (untouched drows R Q P) (getPendingRetries rp)"
  "io_keeps (untouched drows R Q P) (getDeadLetters rp userId' limit offset)"
  "io_keeps (untouched drows R Q P) (getEvent rp eventId)"
  "io_keeps (untouched drows R Q P) (listEvents rp eventType' limit offset)"
  unfolding create_subscription_def update_subscription_def remove_subscription_def rotateKey_def toggleStatus_def change_subscription_def
    findAll_subs_def findOne_sub_def findActiveForEvent_def getDeliveriesByEvent_def getPendingRetries_def getDeadLetters_def getEvent_def listEvents_def Let_def
  by (intro io_keeps_rules)+

lemma untouched_refl: "untouched drows (drows (hw_deliveries w)) (hw_queue w) (hw_requests w) w"
  by (simp add: untouched_def)

lemma createDeliveries_run:
  assumes fresh: "\<forall>k. drows (hw_deliveries w) (newId (n + k)) = None" and inj: "inj newId"
  shows "let w' = snd (createDeliveries rp now newId n event subs w)
    in hw_queue w' = hw_queue w \<and> hw_requests w' = hw_requests w \<and>
       (\<forall>i. i \<notin> newId ` {n..} \<longrightarrow> drows (hw_deliveries w') i = drows (hw_deliveries w) i) \<and>
       (\<forall>i r. i \<in> newId ` {n..} \<and> drows (hw_deliveries w') i = Some r \<longrightarrow> wd_attempts r = 0) \<and>
       (\<forall>ds. fst (createDeliveries rp now newId n event subs w) = Inr ds \<longrightarrow>
         ds = map (\<lambda>k. new_delivery now (newId (n + k)) (ws_id (subs ! k)) (we_id event) (ws_maxRetries (subs ! k))) [0..<length subs] \<and>
         (\<forall>d \<in> set ds. drows (hw_deliveries w') (wd_id d) = Some d))"
  using fresh
proof (induction subs arbitrary: n w)
  case Nil
  then show ?case by (auto simp: io_return_def) (metis le_Suc_ex option.distinct(1))
next
  case (Cons s subs)
  let ?x = "new_delivery now (newId n) (ws_id s) (we_id event) (ws_maxRetries s)"
  let ?w1 = "snd (on_deliveries (to_save (hr_deliveries rp) ?x) w)"
  have new: "newId n \<in> newId ` {n..}" "newId ` {Suc n..} \<subseteq> newId ` {n..}" by auto
  have old: "newId n \<notin> newId ` {Suc n..}" using inj by (auto dest: injD)
  show ?case
  proof (cases "fst (to_save (hr_deliveries rp) ?x (hw_deliveries w))")
    case (Inl e)
    then have "drows (snd (to_save (hr_deliveries rp) ?x (hw_deliveries w))) = drows (hw_deliveries w)" by (rule d.save_err)
    then show ?thesis using Inl Cons.prems by (auto simp: io_bind_run hook_parts_eq Let_def) (metis le_Suc_ex option.distinct(1))
  next
    case (Inr u)
    have w1: "drows (hw_deliveries ?w1) = (drows (hw_deliveries w))(newId n \<mapsto> ?x)" "hw_queue ?w1 = hw_queue w" "hw_requests ?w1 = hw_requests w"
      using d.save_ok [OF Inr] by (simp_all add: hook_parts_eq new_delivery_def)
    have "\<forall>k. drows (hw_deliveries ?w1) (newId (Suc n + k)) = None"
      using Cons.prems inj by (auto simp: w1 dest: injD) (metis add_Suc_right)
    note IH = Cons.IH [OF this, unfolded Let_def w1]
    have run: "createDeliveries rp now newId n event (s # subs) w =
        (case fst (createDeliveries rp now newId (Suc n) event subs ?w1) of Inl e \<Rightarrow> (Inl e, snd (createDeliveries rp now newId (Suc n) event subs ?w1))
         | Inr rest \<Rightarrow> (Inr (?x # rest), snd (createDeliveries rp now newId (Suc n) event subs ?w1)))"
      using Inr by (simp add: io_bind_run hook_parts_eq(3) io_return_def Let_def split: sum.splits)
    have snd: "snd (createDeliveries rp now newId n event (s # subs) w) = snd (createDeliveries rp now newId (Suc n) event subs ?w1)"
      unfolding run by (simp split: sum.splits)
    have id: "wd_id ?x = newId n" "wd_attempts ?x = 0" by (simp_all add: new_delivery_def)
    show ?thesis
      unfolding Let_def snd
    proof (intro conjI allI impI)
      show "hw_queue (snd (createDeliveries rp now newId (Suc n) event subs ?w1)) = hw_queue w"
        "hw_requests (snd (createDeliveries rp now newId (Suc n) event subs ?w1)) = hw_requests w" using IH by simp_all
      show "drows (hw_deliveries (snd (createDeliveries rp now newId (Suc n) event subs ?w1))) i = drows (hw_deliveries w) i"
        if "i \<notin> newId ` {n..}" for i
      proof -
        have "i \<noteq> newId n" "i \<notin> newId ` {Suc n..}" using that new by blast+
        then show ?thesis using IH by simp
      qed
      show "wd_attempts r = 0"
        if "i \<in> newId ` {n..} \<and> drows (hw_deliveries (snd (createDeliveries rp now newId (Suc n) event subs ?w1))) i = Some r" for i r
      proof (cases "i = newId n")
        case True
        then have "r = ?x" using that IH old by auto
        then show ?thesis by (simp add: id)
      next
        case False
        have "i \<in> newId ` {n..}" using that by blast
        then obtain x where "i = newId x" "n \<le> x" by auto
        with False have "Suc n \<le> x" by (cases "x = n") auto
        then have "i \<in> newId ` {Suc n..}" using \<open>i = newId x\<close> by blast
        then show ?thesis using that IH by blast
      qed
    next
      fix ds
      assume "fst (createDeliveries rp now newId n event (s # subs) w) = Inr ds"
      then obtain rest where rest: "fst (createDeliveries rp now newId (Suc n) event subs ?w1) = Inr rest" "ds = ?x # rest"
        unfolding run by (auto split: sum.splits)
      show "ds = map (\<lambda>k. new_delivery now (newId (n + k)) (ws_id ((s # subs) ! k)) (we_id event) (ws_maxRetries ((s # subs) ! k))) [0..<length (s # subs)]"
        using IH rest by (simp add: map_upt_Suc del: upt_Suc)
      show "\<forall>d \<in> set ds. drows (hw_deliveries (snd (createDeliveries rp now newId (Suc n) event subs ?w1))) (wd_id d) = Some d"
        using IH rest old by (auto simp: id)
    qed
  qed
qed

abbreviation untouched_from :: "('s, 'e, 'd, 'l) hook_world \<Rightarrow> ('s, 'e, 'd, 'l) hook_world \<Rightarrow> bool" where
  "untouched_from w0 \<equiv> untouched drows (drows (hw_deliveries w0)) (hw_queue w0) (hw_requests w0)"

lemma extends_events: "io_keeps (extends drows w0) (on_events m)"
  by (simp add: io_keeps_def hook_parts_eq extends_def)

lemma untouched_triple:
  "io_keeps (untouched_from w0) m \<Longrightarrow> io_triple (untouched_from w0) m (\<lambda>_. untouched_from w0) (extends drows w0)"
  by (auto simp: io_triple_def io_keeps_def intro: untouched_extends)

lemma untouched_extends_triple:
  "io_keeps (untouched_from w0) m \<Longrightarrow> io_triple (untouched_from w0) m (\<lambda>_. extends drows w0) (extends drows w0)"
  by (auto simp: io_triple_def io_keeps_def intro: untouched_extends)

lemma extends_triple: "io_keeps (extends drows w0) m \<Longrightarrow> io_triple (extends drows w0) m (\<lambda>_. extends drows w0) (extends drows w0)"
  by (simp add: io_triple_def io_keeps_def)

lemma created_and_queued:
  assumes fresh: "\<forall>k. drows (hw_deliveries w0) (newId k) = None" and inj: "inj newId"
  shows "io_triple (untouched_from w0) (createDeliveries rp now newId 0 event subs)
    (\<lambda>ds w. extends drows w0 (snd (enqueue (map wd_id ds) w))) (extends drows w0)"
  unfolding io_triple_def
proof (intro allI impI)
  fix w
  assume w: "untouched_from w0 w"
  let ?w' = "snd (createDeliveries rp now newId 0 event subs w)"
  have same: "drows (hw_deliveries w) = drows (hw_deliveries w0)" "hw_queue w = hw_queue w0" "hw_requests w = hw_requests w0"
    using w by (simp_all add: untouched_def)
  have "\<forall>k. drows (hw_deliveries w) (newId (0 + k)) = None" using fresh by (simp add: same)
  note run = createDeliveries_run [OF this inj, of now event subs, unfolded Let_def]
  have q: "hw_queue ?w' = hw_queue w0" "hw_requests ?w' = hw_requests w0"
    and other: "\<And>i. i \<notin> range newId \<Longrightarrow> drows (hw_deliveries ?w') i = drows (hw_deliveries w0) i"
    and zero: "\<And>i r. i \<in> range newId \<Longrightarrow> drows (hw_deliveries ?w') i = Some r \<Longrightarrow> wd_attempts r = 0"
    using run same by simp_all
  have rows: "drows (hw_deliveries w0) i = Some r \<Longrightarrow> drows (hw_deliveries ?w') i = Some r"
    "drows (hw_deliveries w0) i = None \<Longrightarrow> drows (hw_deliveries ?w') i = Some r \<Longrightarrow> wd_attempts r = 0" for i r
    using fresh other zero by (cases "i \<in> range newId"; fastforce)+
  have "extends drows w0 ?w'" using q rows by (auto simp: extends_def)
  moreover have "extends drows w0 (snd (enqueue (map wd_id ds) ?w'))"
    if "fst (createDeliveries rp now newId 0 event subs w) = Inr ds" for ds
  proof -
    have ds: "ds = map (\<lambda>k. new_delivery now (newId k) (ws_id (subs ! k)) (we_id event) (ws_maxRetries (subs ! k))) [0..<length subs]"
      and saved: "\<forall>d \<in> set ds. drows (hw_deliveries ?w') (wd_id d) = Some d" using run that by simp_all
    have ids: "map wd_id ds = map newId [0..<length subs]" unfolding ds by (simp add: new_delivery_def comp_def)
    then have "distinct (map wd_id ds)" using inj by (simp add: distinct_map inj_on_def)
    moreover have "drows (hw_deliveries w0) i = None \<and> drows (hw_deliveries ?w') i \<noteq> None" if "i \<in> set (map wd_id ds)" for i
    proof
      have "i \<in> range newId" using that unfolding ids by auto
      then show "drows (hw_deliveries w0) i = None" using fresh by auto
      show "drows (hw_deliveries ?w') i \<noteq> None" using that saved by auto
    qed
    ultimately show ?thesis using q rows unfolding extends_def enqueue_def by simp blast
  qed
  ultimately show "(\<forall>x. fst (createDeliveries rp now newId 0 event subs w) = Inr x \<longrightarrow> extends drows w0 (snd (enqueue (map wd_id x) ?w'))) \<and>
      (\<forall>e. fst (createDeliveries rp now newId 0 event subs w) = Inl e \<longrightarrow> extends drows w0 ?w')" by blast
qed

lemma queued_triple:
  "io_keeps (extends drows w0) m \<Longrightarrow>
    io_triple (\<lambda>w. extends drows w0 (snd (enqueue ids w))) (io_bind (enqueue ids) (\<lambda>_. m)) (\<lambda>_. extends drows w0) (extends drows w0)"
  by (auto simp: io_triple_def io_keeps_def io_bind_run enqueue_def)

lemma publish_triple:
  assumes fresh: "\<forall>k. drows (hw_deliveries w0) (newId k) = None" and inj: "inj newId"
  shows "io_triple (untouched_from w0) (publishEvent rp now rowId newId dto) (\<lambda>_. extends drows w0) (extends drows w0)"
  unfolding publishEvent_def Let_def
proof (rule io_triple_bind [OF untouched_triple [OF untouched_parts(2)]], rule io_triple_bind [OF untouched_triple [OF untouched_steps(8)]],
    rule io_triple_if)
  show "io_triple (untouched_from w0) (io_bind (on_events m) (\<lambda>_. io_return e)) (\<lambda>_. extends drows w0) (extends drows w0)" for m e
    by (intro untouched_extends_triple io_keeps_rules)
qed (rule io_triple_bind [OF created_and_queued [OF fresh inj]], rule queued_triple, intro io_keeps_rules extends_events)

lemma replay_triple:
  assumes fresh: "\<forall>k. drows (hw_deliveries w0) (newId k) = None" and inj: "inj newId"
  shows "io_triple (untouched_from w0) (replayEvent rp replayed now rowId newId eventId) (\<lambda>_. extends drows w0) (extends drows w0)"
  unfolding replayEvent_def
proof (rule io_triple_bind [OF untouched_triple [OF untouched_parts(2)]], rule io_triple_option)
  show "io_triple (untouched_from w0) (io_return None) (\<lambda>_. extends drows w0) (extends drows w0)"
    by (intro untouched_extends_triple io_keeps_rules)
  show "io_triple (untouched_from w0) (io_bind (publishEvent rp now rowId newId dto) (\<lambda>e. io_return (Some e))) (\<lambda>_. extends drows w0) (extends drows w0)" for dto
    by (rule io_triple_bind [OF publish_triple [OF fresh inj]]) (intro extends_triple io_keeps_rules)
qed

lemma requeue_triple:
  assumes fresh: "drows (hw_deliveries w0) rowId = None"
  shows "io_triple (untouched_from w0) (requeue rp now rowId dl) (\<lambda>_. extends drows w0) (extends drows w0)"
  unfolding requeue_def Let_def
proof (rule io_triple_bind [OF untouched_triple [OF untouched_parts(1)]], rule io_triple_option)
  show quiet: "io_triple (untouched_from w0) (io_return None) (\<lambda>_. extends drows w0) (extends drows w0)"
    by (intro untouched_extends_triple io_keeps_rules)
  fix s
  let ?x = "new_delivery now rowId (dl_subscriptionId dl) (dl_eventId dl) (ws_maxRetries s)"
  have "extends drows w0 (w\<lparr>hw_deliveries := snd (to_save (hr_deliveries rp) ?x (hw_deliveries w))\<rparr>)" if w: "untouched_from w0 w" for w
  proof (cases "fst (to_save (hr_deliveries rp) ?x (hw_deliveries w))")
    case (Inl e)
    then show ?thesis using d.save_err [OF Inl] w by (intro untouched_extends) (simp add: untouched_def)
  next
    case (Inr u)
    then show ?thesis using d.save_ok [OF Inr] w fresh by (auto simp: untouched_def extends_def new_delivery_def)
  qed
  then have "io_triple (untouched_from w0) (on_deliveries (to_save (hr_deliveries rp) ?x)) (\<lambda>_. extends drows w0) (extends drows w0)"
    by (simp add: io_triple_def hook_parts_eq)
  then show "io_triple (untouched_from w0) (if ws_status s \<noteq> Sub_Active then io_return None
      else io_bind (on_deliveries (to_save (hr_deliveries rp) ?x)) (\<lambda>_.
        io_bind (on_dead (to_save (hr_dead rp) (dl\<lparr>dl_retried := True\<rparr>))) (\<lambda>_. io_return (Some ?x)))) (\<lambda>_. extends drows w0) (extends drows w0)"
    by (intro io_triple_if [OF quiet], elim io_triple_bind)
      (intro extends_triple io_keeps_rules, simp add: io_keeps_def hook_parts_eq extends_def)
qed

lemma retry_triple:
  assumes fresh: "drows (hw_deliveries w0) rowId = None"
  shows "io_triple (untouched_from w0) (retryDeadLetter rp now rowId letterId) (\<lambda>_. extends drows w0) (extends drows w0)"
  unfolding retryDeadLetter_def
proof (rule io_triple_bind [OF untouched_triple [OF untouched_parts(3)]], rule io_triple_option)
  show quiet: "io_triple (untouched_from w0) (io_return None) (\<lambda>_. extends drows w0) (extends drows w0)"
    by (intro untouched_extends_triple io_keeps_rules)
  show "io_triple (untouched_from w0) (if dl_retried dl then io_return None else requeue rp now rowId dl)
      (\<lambda>_. extends drows w0) (extends drows w0)" for dl
    by (intro io_triple_if [OF quiet] requeue_triple [OF fresh])
qed

text \<open>Processing one delivery.\<close>

lemma processing_parts [io_keeps_rules]:
  "io_keeps (processing drows r posted R Q P) (on_subs m)" "io_keeps (processing drows r posted R Q P) (on_events m1)"
  "io_keeps (processing drows r posted R Q P) (on_dead m3)"
  by (simp_all add: io_keeps_def hook_parts_eq processing_def)

lemma processing_save:
  assumes "wd_id x = wd_id r" "wd_attempts x \<le> wd_attempts r + 1"
  shows "io_keeps (processing drows r posted R Q P) (on_deliveries (to_save (hr_deliveries rp) x) :: (('s, 'e, 'd, 'l) hook_world, unit) io)"
  unfolding io_keeps_def
proof (intro allI impI)
  fix w :: "('s, 'e, 'd, 'l) hook_world"
  assume w: "processing drows r posted R Q P w"
  show "processing drows r posted R Q P (snd (on_deliveries (to_save (hr_deliveries rp) x) w))"
  proof (cases "fst (to_save (hr_deliveries rp) x (hw_deliveries w))")
    case (Inl e)
    then show ?thesis using w d.save_err [OF Inl] by (simp add: processing_def hook_parts_eq)
  next
    case (Inr u)
    then show ?thesis using w d.save_ok [OF Inr] assms by (simp add: processing_def hook_parts_eq)
  qed
qed

lemma processing_posted: "processing drows r p R Q P w \<Longrightarrow> processing drows r True R Q P w"
  by (auto simp: processing_def)

lemma processing_call:
  assumes "wd_id x = wd_id r" "wd_attempts x \<le> wd_attempts r + 1"
  shows "io_triple (processing drows r p R Q P) (on_deliveries (to_save (hr_deliveries rp) x) :: (('s, 'e, 'd, 'l) hook_world, unit) io)
    (\<lambda>_. processing drows r p R Q P) (processing drows r True R Q P)"
  using processing_save [OF assms, where posted = p and R = R and Q = Q and P = P] unfolding io_triple_def io_keeps_def
  by (auto intro: processing_posted)

lemma deliver_triple:
  "io_triple (processing drows r False R Q P) (deliver_to rp now answer r s e)
    (\<lambda>y w. processing drows r True R Q P w \<and> wd_id (snd y) = wd_id r \<and> wd_attempts (snd y) = wd_attempts r) (processing drows r True R Q P)"
  unfolding deliver_to_def Let_def
  by (rule io_triple_bind [OF processing_call]) (auto simp: io_triple_def io_bind_run http_post_def io_return_def processing_def)

lemma processing_keeps:
  "io_keeps (processing drows r True R Q P) m \<Longrightarrow>
    io_triple (processing drows r True R Q P) m (\<lambda>_. processing drows r True R Q P) (processing drows r True R Q P)"
  by (simp add: io_triple_def io_keeps_def)

lemma processing_starts:
  "io_keeps (processing drows r False R Q P) m \<Longrightarrow>
    io_triple (processing drows r False R Q P) m (\<lambda>_. processing drows r False R Q P) (processing drows r True R Q P)"
  by (auto simp: io_triple_def io_keeps_def intro: processing_posted)

lemma execute_triple:
  "io_triple (processing drows r False R Q P) (executeDelivery rp now answer r)
    (\<lambda>y w. processing drows r True R Q P w \<and> wd_id (snd y) = wd_id r \<and> wd_attempts (snd y) = wd_attempts r) (processing drows r True R Q P)"
  unfolding executeDelivery_def
  by (rule io_triple_bind [OF processing_starts [OF processing_parts(1)]], rule io_triple_bind [OF processing_starts [OF processing_parts(2)]])
    (auto intro!: deliver_triple io_triple_return intro: processing_posted split: option.split)

lemma record_triple:
  assumes "wd_id x = wd_id r" "wd_attempts x = wd_attempts r"
  shows "io_keeps (processing drows r True R Q P) (record_attempt rp now random letterId s y x)"
  unfolding record_attempt_def Let_def
  by (intro io_keeps_rules processing_save) (simp_all add: succeeded_delivery_def failed_delivery_def assms)

lemma process_triple:
  "io_triple (\<lambda>w. processing drows r False R Q P w) (io_bind (executeDelivery rp now answer r) (\<lambda>(y, x). record_attempt rp now random letterId s y x))
    (\<lambda>_. processing drows r True R Q P) (processing drows r True R Q P)"
proof (rule io_triple_bind [OF execute_triple])
  fix y :: "delivery_result \<times> webhook_delivery"
  show "io_triple (\<lambda>w. processing drows r True R Q P w \<and> wd_id (snd y) = wd_id r \<and> wd_attempts (snd y) = wd_attempts r)
      (case y of (z, x) \<Rightarrow> record_attempt rp now random letterId s z x) (\<lambda>_. processing drows r True R Q P) (processing drows r True R Q P)"
    using record_triple [of "snd y" r R Q P now random letterId s "fst y"] by (auto simp: io_triple_def io_keeps_def case_prod_beta)
qed

lemma handle_works:
  assumes q: "hw_queue w = i # rest"
  shows "works drows w (snd (handleDelivery rp now random letterId answer w))"
proof -
  let ?find = "on_deliveries (to_findOne (hr_deliveries rp) (\<lambda>d. wd_id d = i) any_order)" and ?w = "w\<lparr>hw_queue := rest\<rparr>"
  let ?w1 = "snd (?find ?w)"
  have w1: "drows (hw_deliveries ?w1) = drows (hw_deliveries w)" "hw_queue ?w1 = rest" "hw_requests ?w1 = hw_requests w"
    by (simp_all add: hook_parts_eq d.findOne_rows)
  have snd: "snd (handleDelivery rp now random letterId answer w) = snd (processDelivery rp now random letterId answer i ?w)"
    using q by (simp add: handleDelivery_def io_bind_run io_return_def split: sum.splits)
  have same: "works drows w w'"
    if "drows (hw_deliveries w') = drows (hw_deliveries w)" "hw_queue w' = rest" "hw_requests w' = hw_requests w" for w' :: "('s, 'e, 'd, 'l) hook_world"
    using that q by (auto simp: works_def)
  show ?thesis
  proof (cases "fst (?find ?w)")
    case (Inl e)
    then show ?thesis unfolding snd processDelivery_def using w1 by (simp add: io_bind_run same)
  next
    case (Inr found)
    show ?thesis
    proof (cases found)
      case None
      then show ?thesis unfolding snd processDelivery_def using Inr w1 by (simp add: io_bind_run io_throw_def same)
    next
      case (Some r)
      have r: "wd_id r = i" "drows (hw_deliveries w) i = Some r"
        using d.findOne_some [of "\<lambda>d. wd_id d = i" any_order "hw_deliveries w" r] Inr Some by (auto simp: hook_parts_eq)
      define R where "R = drows (hw_deliveries w)"
      have start: "processing drows r False R rest (hw_requests w) ?w1" using w1 r by (simp add: processing_def R_def)
      let ?rest = "io_bind (on_subs (to_findOne (hr_subs rp) (\<lambda>s. ws_id s = wd_subscriptionId r) any_order)) (\<lambda>subscription.
             case subscription of
               None \<Rightarrow> io_throw (PlainError (''Subscription '' @ wd_subscriptionId r @ '' not found''))
             | Some s \<Rightarrow> io_bind (executeDelivery rp now answer r) (\<lambda>(y, x). record_attempt rp now random letterId s y x))"
      have triple: "io_triple (processing drows r False R rest (hw_requests w)) ?rest (\<lambda>_. processing drows r True R rest (hw_requests w))
          (processing drows r True R rest (hw_requests w))"
        by (rule io_triple_bind [OF processing_starts [OF processing_parts(1)]], rule io_triple_option,
            rule io_triple_throw, erule processing_posted, rule process_triple)
      have fin: "processing drows r True R rest (hw_requests w) (snd (?rest ?w1))"
        using triple [unfolded io_triple_def, rule_format, OF start] by (cases "fst (?rest ?w1)") blast+
      have "snd (processDelivery rp now random letterId answer i ?w) = snd (?rest ?w1)"
        unfolding processDelivery_def using Inr Some by (simp add: io_bind_run [of ?find])
      then show ?thesis unfolding snd works_def using fin r q by (intro exI [of _ i]) (auto simp: processing_def R_def)
    qed
  qed
qed

lemma hook_step_cases:
  assumes "hook_step rp drows w w'"
  shows "extends drows w w' \<or> works drows w w'"
proof -
  have run: "extends drows w0 (snd (m w0))"
    if "io_triple (untouched_from w0) m (\<lambda>_. extends drows w0) (extends drows w0)" for w0 and m :: "(('s, 'e, 'd, 'l) hook_world, 'x) io"
    using that untouched_refl [of w0] by (cases "fst (m w0)") (auto simp: io_triple_def)
  have quiet: "extends drows w0 (snd (m w0))" if "io_keeps (untouched_from w0) m" for w0 and m :: "(('s, 'e, 'd, 'l) hook_world, 'x) io"
    using that untouched_refl [of w0] by (auto simp: io_keeps_def intro: untouched_extends)
  show ?thesis
    using assms
  proof cases
    case (handle now random letterId answer)
    show ?thesis
    proof (cases "hw_queue w")
      case Nil
      then show ?thesis using handle by (simp add: handleDelivery_def untouched_extends [OF untouched_refl])
    next
      case (Cons i rest)
      then show ?thesis using handle handle_works by blast
    qed
  next
    case (publish newId now rowId pdto)
    then show ?thesis by (auto intro: run publish_triple)
  next
    case (replay newId replayed now rowId eventId)
    then show ?thesis by (auto intro: run replay_triple)
  next
    case (retry rowId now letterId)
    then show ?thesis by (auto intro: run retry_triple)
  qed (simp_all add: quiet untouched_steps)
qed

lemma hooks_reachable: "(hook_step rp drows)\<^sup>*\<^sup>* w w' \<Longrightarrow> hooks_ok drows w \<Longrightarrow> hooks_ok drows w'"
  by (induction rule: rtranclp_induct) (auto dest: hook_step_cases intro: extends_ok works_ok)

lemma active_result:
  assumes "fst (findActiveForEvent rp eventType w) = Inr subs"
  shows "set subs = {s. (\<exists>k. srows (hw_subs w) k = Some s) \<and> ws_status s = Sub_Active \<and> (''*'' \<in> set (ws_events s) \<or> eventType \<in> set (ws_events s))} \<and>
    distinct (map ws_id subs)"
proof -
  obtain xs where xs: "fst (to_find (hr_subs rp) (\<lambda>s. ws_status s = Sub_Active) any_order (hw_subs w)) = Inr xs"
    and subs: "subs = filter (\<lambda>s. ''*'' \<in> set (ws_events s) \<or> eventType \<in> set (ws_events s)) xs"
    using assms unfolding findActiveForEvent_def by (auto simp: io_bind_run hook_parts_eq io_return_def split: sum.splits)
  show ?thesis using s.find_set [OF xs] s.find_distinct [OF xs] by (auto simp: subs distinct_map_filter)
qed

lemma publish_result:
  assumes ids: "inj newId" "\<forall>n. drows (hw_deliveries w) (newId n) = None" and run: "publishEvent rp now rowId newId dto w = (Inr e, w')"
  obtains subs where "set subs = {s. (\<exists>k. srows (hw_subs w) k = Some s) \<and> ws_status s = Sub_Active \<and>
        (''*'' \<in> set (ws_events s) \<or> pe_eventType dto \<in> set (ws_events s))}" "distinct (map ws_id subs)"
      "hw_queue w' = hw_queue w @ map newId [0..<length subs]"
      "\<forall>n < length subs. drows (hw_deliveries w') (newId n) = Some (new_delivery now (newId n) (ws_id (subs ! n)) rowId (ws_maxRetries (subs ! n)))"
proof -
  let ?e = "new_event now rowId dto"
  let ?w1 = "snd (on_events (to_save (hr_events rp) ?e) w)"
  let ?w2 = "snd (findActiveForEvent rp (pe_eventType dto) ?w1)"
  have fst: "fst (publishEvent rp now rowId newId dto w) = Inr e" using run by simp
  from fst obtain subs where subs: "fst (findActiveForEvent rp (pe_eventType dto) ?w1) = Inr subs"
    and rest: "publishEvent rp now rowId newId dto w =
      (if length subs = 0 then let x = ?e\<lparr>we_status := Ev_Delivered, we_deliveryCount := 0\<rparr> in io_bind (on_events (to_save (hr_events rp) x)) (\<lambda>_. io_return x)
       else io_bind (createDeliveries rp now newId 0 ?e subs) (\<lambda>ds. io_bind (enqueue (map wd_id ds)) (\<lambda>_.
         let x = ?e\<lparr>we_status := Ev_Delivering, we_deliveryCount := length ds\<rparr> in io_bind (on_events (to_save (hr_events rp) x)) (\<lambda>_. io_return x)))) ?w2"
    unfolding publishEvent_def Let_def by (elim io_bind_InrE) simp
  have "untouched drows (drows (hw_deliveries w)) (hw_queue w) (hw_requests w) ?w2"
    using untouched_refl [of w] untouched_parts(2) untouched_steps(8) unfolding io_keeps_def by blast
  then have w2: "drows (hw_deliveries ?w2) = drows (hw_deliveries w)" "hw_queue ?w2 = hw_queue w" by (simp_all add: untouched_def)
  have "hw_subs ?w1 = hw_subs w" by (simp add: hook_parts_eq)
  note act = active_result [OF subs, unfolded this]
  show ?thesis
  proof (cases "subs = []")
    case True
    then show ?thesis using act w2 rest run by (intro that [of subs]) (auto simp: Let_def io_bind_run hook_parts_eq io_return_def split: sum.splits)
  next
    case False
    have "\<forall>k. drows (hw_deliveries ?w2) (newId (0 + k)) = None" using ids(2) w2 by simp
    note cr = createDeliveries_run [OF this ids(1), of now ?e subs, unfolded Let_def]
    from fst False rest obtain ds where ds: "fst (createDeliveries rp now newId 0 ?e subs ?w2) = Inr ds"
      by (simp add: io_bind_Inr) blast
    let ?w3 = "snd (createDeliveries rp now newId 0 ?e subs ?w2)"
    have w': "hw_queue w' = hw_queue ?w3 @ map wd_id ds" "hw_deliveries w' = hw_deliveries ?w3"
      using run rest False ds by (auto simp: Let_def io_bind_run hook_parts_eq io_return_def enqueue_def split: sum.splits)
    have "hw_queue ?w3 = hw_queue w" using cr w2 by simp
    moreover have eq: "ds = map (\<lambda>k. new_delivery now (newId (0 + k)) (ws_id (subs ! k)) (we_id ?e) (ws_maxRetries (subs ! k))) [0..<length subs]"
      and saved: "\<forall>d \<in> set ds. drows (hw_deliveries ?w3) (wd_id d) = Some d" using cr ds by blast+
    ultimately have "hw_queue w' = hw_queue w @ map newId [0..<length subs]" using w'(1) by (simp add: new_delivery_def comp_def)
    moreover have "drows (hw_deliveries w') (newId n) = Some (new_delivery now (newId n) (ws_id (subs ! n)) rowId (ws_maxRetries (subs ! n)))"
      if "n < length subs" for n
    proof -
      have "new_delivery now (newId n) (ws_id (subs ! n)) rowId (ws_maxRetries (subs ! n)) \<in> set ds"
        using that unfolding eq by (auto simp: new_event_def)
      from saved [rule_format, OF this] show ?thesis using w'(2) by (simp add: new_delivery_def)
    qed
    ultimately show ?thesis using act by (intro that [of subs]) simp_all
  qed
qed

lemma requeue_result:
  assumes "requeue rp now rowId dl w = (Inr (Some d), w1)"
  shows "wd_id d = rowId \<and> drows (hw_deliveries w1) rowId = Some d \<and> hw_queue w1 = hw_queue w \<and> hw_requests w1 = hw_requests w"
  using assms unfolding requeue_def Let_def
  by (auto simp: io_bind_run hook_parts_eq io_return_def new_delivery_def dest!: d.save_ok split: sum.splits option.splits if_splits)

lemma retry_result:
  assumes "retryDeadLetter rp now rowId letterId w = (Inr (Some d), w1)"
  shows "wd_id d = rowId \<and> drows (hw_deliveries w1) rowId = Some d \<and> hw_queue w1 = hw_queue w \<and> hw_requests w1 = hw_requests w"
  using assms unfolding retryDeadLetter_def
  by (auto simp: io_bind_run hook_parts_eq io_return_def dest!: requeue_result split: sum.splits option.splits if_splits)

lemma settled_step:
  assumes "hook_step rp drows w w'" "drows (hw_deliveries w) i \<noteq> None" "i \<notin> set (hw_queue w)"
  shows "drows (hw_deliveries w') i \<noteq> None \<and> i \<notin> set (hw_queue w') \<and> filter (\<lambda>q. hq_deliveryId q = i) (hw_requests w') = filter (\<lambda>q. hq_deliveryId q = i) (hw_requests w)"
  using hook_step_cases [OF assms(1)] assms(2,3)
proof (elim disjE)
  assume "extends drows w w'"
  then show ?thesis using assms(2,3) by (auto simp: extends_def)
next
  assume "works drows w w'"
  then obtain j where "hw_queue w = j # hw_queue w'" "\<forall>k. k \<noteq> j \<longrightarrow> drows (hw_deliveries w') k = drows (hw_deliveries w) k"
    "hw_requests w' = hw_requests w \<or> (\<exists>q. hq_deliveryId q = j \<and> hw_requests w' = hw_requests w @ [q])" unfolding works_def by blast
  then show ?thesis using assms(2,3) by (cases "i = j") auto
qed

lemma settled_stays:
  assumes "(hook_step rp drows)\<^sup>*\<^sup>* w w'" "drows (hw_deliveries w) i \<noteq> None" "i \<notin> set (hw_queue w)"
  shows "drows (hw_deliveries w') i \<noteq> None \<and> i \<notin> set (hw_queue w') \<and> filter (\<lambda>q. hq_deliveryId q = i) (hw_requests w') = filter (\<lambda>q. hq_deliveryId q = i) (hw_requests w)"
  using assms by (induction rule: rtranclp_induct) (auto dest: settled_step)

end

interpretation ch: hook_tables calm_hooks "table_row ws_id" "table_row we_id" "table_row wd_id" "table_row dl_id"
  unfolding hook_tables_def calm_hooks_def hook_repos.simps by (intro conjI ct.sql_table_axioms)

lemma handled_settles:
  assumes tables: "hook_tables rp srows erows drows lrows" and ok: "hooks_ok drows w" and q: "hw_queue w = i # rest"
  shows "drows (hw_deliveries (snd (handleDelivery rp now random letterId answer w))) i \<noteq> None \<and>
    i \<notin> set (hw_queue (snd (handleDelivery rp now random letterId answer w)))"
proof -
  have "works drows w (snd (handleDelivery rp now random letterId answer w))" by (rule hook_tables.handle_works [OF tables q])
  moreover have "drows (hw_deliveries w) i \<noteq> None" "distinct (i # rest)" using ok q by (auto simp: hooks_ok_def)
  ultimately show ?thesis using q by (auto simp: works_def)
qed

lemma hooks_ok_start: "drows (hw_deliveries w) = Map.empty \<Longrightarrow> hw_queue w = [] \<Longrightarrow> hw_requests w = [] \<Longrightarrow> hooks_ok drows w"
  by (simp add: hooks_ok_def sent_ids_def)

lemma sample_ids_inj: "inj sample_ids"
  by (rule injI) (auto simp: sample_ids_def dest: arg_cong [where f = length])

lemma sample_history:
  "hook_step calm_hooks (table_row wd_id) no_hooks (subscribed n)"
  "hook_step calm_hooks (table_row wd_id) (subscribed n) (published n)"
  "hook_step calm_hooks (table_row wd_id) (published n) (answered n)"
proof -
  show "hook_step calm_hooks (table_row wd_id) no_hooks (subscribed n)" unfolding subscribed_def by (rule hook_step.subscribe)
  have "table_row wd_id (hw_deliveries (subscribed n)) k = None" for k
    by (simp add: subscribed_def create_subscription_def Let_def io_bind_run on_subs_def on_part_eq io_return_def no_hooks_def table_row_def split: sum.splits)
  then show "hook_step calm_hooks (table_row wd_id) (subscribed n) (published n)"
    unfolding published_def by (intro hook_step.publish sample_ids_inj) simp
  show "hook_step calm_hooks (table_row wd_id) (published n) (answered n)" unfolding answered_def by (rule hook_step.handle)
qed

section \<open>Properties\<close>



text \<open>
  C26. A failed delivery is never tried again: once the queue job of a delivery has run, and though the
  delivery may be marked failed with a time for its next try, no later history sends a request for
  it and its job never returns to the queue.
\<close>

theorem failed_delivery_never_retried:
  assumes tables: "hook_tables rp srows erows drows lrows"
    and start: "drows (hw_deliveries w0) = Map.empty" "hw_queue w0 = []" "hw_requests w0 = []"
    and before: "(hook_step rp drows)\<^sup>*\<^sup>* w0 w" "hw_queue w = i # rest"
    and after: "(hook_step rp drows)\<^sup>*\<^sup>* (snd (handleDelivery rp now random letterId answer w)) w'"
  shows "i \<notin> set (hw_queue w') \<and>
    filter (\<lambda>q. hq_deliveryId q = i) (hw_requests w') = filter (\<lambda>q. hq_deliveryId q = i) (hw_requests (snd (handleDelivery rp now random letterId answer w)))"
proof -
  have "hooks_ok drows w" by (rule hook_tables.hooks_reachable [OF tables before(1) hooks_ok_start [of drows w0, OF start]])
  note settled = handled_settles [OF tables this before(2), of now random letterId answer]
  from hook_tables.settled_stays [OF tables after settled [THEN conjunct1] settled [THEN conjunct2]] show ?thesis by blast
qed

theorem failed_delivery_never_retried_witness:
  "(case table_row wd_id (hw_deliveries (answered 5)) ''d'' of
      Some d \<Rightarrow> wd_status d = Dl_Failed \<and> wd_attempts d = 1 \<and> wd_maxAttempts d = 5 \<and> wd_nextRetryAt d = Some 1030 | None \<Rightarrow> False) \<and>
   {w'. (hook_step calm_hooks (table_row wd_id))\<^sup>*\<^sup>* (answered 5) w'} \<subseteq>
     {w'. length (filter (\<lambda>q. hq_deliveryId q = ''d'') (hw_requests w')) = 1}"
proof (intro conjI Collect_mono impI)
  show "case table_row wd_id (hw_deliveries (answered 5)) ''d'' of
      Some d \<Rightarrow> wd_status d = Dl_Failed \<and> wd_attempts d = 1 \<and> wd_maxAttempts d = 5 \<and> wd_nextRetryAt d = Some 1030 | None \<Rightarrow> False"
    by code_simp
  fix w'
  assume after: "(hook_step calm_hooks (table_row wd_id))\<^sup>*\<^sup>* (answered 5) w'"
  have start: "table_row wd_id (hw_deliveries no_hooks) = Map.empty" "hw_queue no_hooks = []" "hw_requests no_hooks = []"
    by (auto simp: no_hooks_def table_row_def)
  have "(hook_step calm_hooks (table_row wd_id))\<^sup>*\<^sup>* no_hooks (published 5)"
    by (meson sample_history rtranclp.rtrancl_refl rtranclp.rtrancl_into_rtrancl)
  moreover have "hw_queue (published 5) = ''d'' # []" by code_simp
  ultimately have "filter (\<lambda>q. hq_deliveryId q = ''d'') (hw_requests w') = filter (\<lambda>q. hq_deliveryId q = ''d'') (hw_requests (answered 5))"
    unfolding answered_def by (rule failed_delivery_never_retried [OF ch.hook_tables_axioms start _ _ after [unfolded answered_def], THEN conjunct2])
  moreover have "length (filter (\<lambda>q. hq_deliveryId q = ''d'') (hw_requests (answered 5))) = 1" by code_simp
  ultimately show "length (filter (\<lambda>q. hq_deliveryId q = ''d'') (hw_requests w')) = 1" by simp
qed

text \<open>
  A dead letter that is retried is never sent: the delivery the retry reports as requeued is saved
  but not queued, so that no later history sends a request for it.
\<close>

theorem retried_letter_never_sent:
  assumes tables: "hook_tables rp srows erows drows lrows"
    and start: "drows (hw_deliveries w0) = Map.empty" "hw_queue w0 = []" "hw_requests w0 = []"
    and before: "(hook_step rp drows)\<^sup>*\<^sup>* w0 w" and fresh: "drows (hw_deliveries w) rowId = None"
    and retry: "retryDeadLetter rp now rowId letterId w = (Inr (Some d), w1)"
    and after: "(hook_step rp drows)\<^sup>*\<^sup>* w1 w'"
  shows "wd_id d = rowId \<and> drows (hw_deliveries w1) rowId = Some d \<and> (\<forall>q \<in> set (hw_requests w'). hq_deliveryId q \<noteq> rowId)"
proof -
  have "hooks_ok drows w" by (rule hook_tables.hooks_reachable [OF tables before hooks_ok_start [of drows w0, OF start]])
  then have new: "rowId \<notin> set (hw_queue w)" "rowId \<notin> set (sent_ids w)" using fresh by (fastforce simp: hooks_ok_def)+
  note res = hook_tables.retry_result [OF tables retry]
  have "filter (\<lambda>q. hq_deliveryId q = rowId) (hw_requests w') = filter (\<lambda>q. hq_deliveryId q = rowId) (hw_requests w1)"
    using hook_tables.settled_stays [OF tables after, of rowId] res new(1) by simp
  moreover have "filter (\<lambda>q. hq_deliveryId q = rowId) (hw_requests w1) = []"
    using res new(2) by (simp add: sent_ids_def filter_empty_conv) blast
  ultimately show ?thesis using res by (simp add: filter_empty_conv)
qed

theorem retried_letter_never_sent_witness:
  "(case fst (retryDeadLetter calm_hooks 40 ''e2'' ''l1'' (answered 1)) of Inr (Some d) \<Rightarrow> wd_status d = Dl_Pending \<and> wd_id d = ''e2'' | _ \<Rightarrow> False) \<and>
   {w'. (hook_step calm_hooks (table_row wd_id))\<^sup>*\<^sup>* (snd (retryDeadLetter calm_hooks 40 ''e2'' ''l1'' (answered 1))) w'} \<subseteq>
     {w'. ''e2'' \<notin> set (map hq_deliveryId (hw_requests w'))}"
proof (intro conjI Collect_mono impI)
  let ?r = "retryDeadLetter calm_hooks 40 ''e2'' ''l1'' (answered 1)"
  show some: "case fst ?r of Inr (Some d) \<Rightarrow> wd_status d = Dl_Pending \<and> wd_id d = ''e2'' | _ \<Rightarrow> False" by code_simp
  fix w'
  assume after: "(hook_step calm_hooks (table_row wd_id))\<^sup>*\<^sup>* (snd ?r) w'"
  from some obtain d where d: "?r = (Inr (Some d), snd ?r)" by (auto simp: prod_eq_iff split: sum.splits option.splits)
  have start: "table_row wd_id (hw_deliveries no_hooks) = Map.empty" "hw_queue no_hooks = []" "hw_requests no_hooks = []"
    by (auto simp: no_hooks_def table_row_def)
  have hist: "(hook_step calm_hooks (table_row wd_id))\<^sup>*\<^sup>* no_hooks (answered 1)"
    by (meson sample_history rtranclp.rtrancl_refl rtranclp.rtrancl_into_rtrancl)
  have "table_row wd_id (hw_deliveries (answered 1)) ''e2'' = None" by code_simp
  from retried_letter_never_sent [OF ch.hook_tables_axioms start hist this d after]
  show "''e2'' \<notin> set (map hq_deliveryId (hw_requests w'))" by auto
qed

text \<open>
  Publishing reaches every subscriber: an event that is published gets one pending delivery for every
  active subscription that names its type or the wildcard, in the table and, in the same order, at the
  end of the queue; and no other subscription gets one.
\<close>

theorem published_to_every_subscriber:
  assumes tables: "hook_tables rp srows erows drows lrows" and ids: "inj newId" "\<forall>n. drows (hw_deliveries w) (newId n) = None"
    and run: "publishEvent rp now rowId newId dto w = (Inr e, w')"
  shows "\<exists>subs. set subs = {s. (\<exists>k. srows (hw_subs w) k = Some s) \<and> ws_status s = Sub_Active \<and>
        (''*'' \<in> set (ws_events s) \<or> pe_eventType dto \<in> set (ws_events s))} \<and> distinct (map ws_id subs) \<and>
      hw_queue w' = hw_queue w @ map newId [0..<length subs] \<and>
      (\<forall>n < length subs. drows (hw_deliveries w') (newId n) = Some (new_delivery now (newId n) (ws_id (subs ! n)) rowId (ws_maxRetries (subs ! n))))"
  by (rule hook_tables.publish_result [OF tables ids run]) blast

theorem published_to_every_subscriber_witness:
  "\<exists>subs. set subs = {s. (\<exists>k. table_row ws_id (hw_subs (subscribed 5)) k = Some s) \<and> ws_status s = Sub_Active \<and>
        (''*'' \<in> set (ws_events s) \<or> ''invoice.paid'' \<in> set (ws_events s))} \<and>
      [''d''] = map sample_ids [0..<length subs]"
proof -
  let ?r = "publishEvent calm_hooks 20 ''e1'' sample_ids sample_publish (subscribed 5)"
  have "case fst ?r of Inr e \<Rightarrow> True | Inl x \<Rightarrow> False" by code_simp
  then obtain e where e: "?r = (Inr e, published 5)" by (auto simp: prod_eq_iff published_def split: sum.splits)
  have "hw_deliveries (subscribed 5) = \<lparr>mt_rows = [], mt_faults = []\<rparr>" by code_simp
  then have fresh: "\<forall>n. table_row wd_id (hw_deliveries (subscribed 5)) (sample_ids n) = None" by (simp add: table_row_def)
  have q: "hw_queue (subscribed 5) = []" "hw_queue (published 5) = [''d'']" by code_simp+
  have ty: "pe_eventType sample_publish = ''invoice.paid''" by (simp add: sample_publish_def)
  from published_to_every_subscriber [OF ch.hook_tables_axioms sample_ids_inj fresh e, unfolded q ty append_Nil] show ?thesis
    by (elim exE conjE) (intro exI conjI, assumption+)
qed

end
