(* ===== verification/Alert_Rules.thy ===== *)
theory Alert_Rules
  imports Js_Prelude
begin

text \<open>
  The alert engine (monitoring/alert-rules.service.ts): rules on system metrics, evaluated one by one,
  with a streak of breaches per rule and the state of every rule that was evaluated. What the system
  metrics service and the process report is an argument of an evaluation, as is the text JavaScript
  gives a number in a message. The metrics the engine publishes are part of the state.
\<close>

section \<open>Data\<close>

datatype alert_severity = Sev_Info | Sev_Warning | Sev_Critical

datatype alert_comparison = Cmp_Gt | Cmp_Gte | Cmp_Lt | Cmp_Lte

datatype alert_status = Alert_Ok | Alert_Firing

datatype alert_metric_key = Cpu_System | Cpu_Process | Memory_System | Disk_System | Heap_Used | Event_Loop_Lag

record alert_rule =
  al_id :: string
  al_description :: string
  al_severity :: alert_severity
  al_metric :: alert_metric_key
  al_comparison :: alert_comparison
  al_threshold :: rat
  al_forEvaluations :: "int option"

record active_alert =
  aa_rule :: alert_rule
  aa_state :: alert_status
  aa_value :: rat
  aa_since :: timestamp
  aa_lastEvaluatedAt :: timestamp
  aa_message :: string

definition DEFAULT_RULES :: "alert_rule list" where
  "DEFAULT_RULES =
     [\<lparr>al_id = ''high-cpu-usage'', al_description = ''System CPU usage above 85%'', al_severity = Sev_Warning, al_metric = Cpu_System,
       al_comparison = Cmp_Gt, al_threshold = 85, al_forEvaluations = Some 3\<rparr>,
      \<lparr>al_id = ''high-memory-usage'', al_description = ''System memory usage above 90%'', al_severity = Sev_Critical,
       al_metric = Memory_System, al_comparison = Cmp_Gt, al_threshold = 90, al_forEvaluations = Some 2\<rparr>,
      \<lparr>al_id = ''high-disk-usage'', al_description = ''Disk usage above 90%'', al_severity = Sev_Critical, al_metric = Disk_System,
       al_comparison = Cmp_Gt, al_threshold = 90, al_forEvaluations = Some 1\<rparr>]"

text \<open>The part of the latest sample the rules read; there is no disk figure on some hosts.\<close>

record system_sample =
  sy_cpu :: rat
  sy_processCpu :: rat
  sy_memory :: rat
  sy_disk :: "rat option"

type_synonym readings = "system_sample option \<times> rat"

section \<open>State\<close>

record alert_engine =
  ae_rules :: "(string, alert_rule) js_map"
  ae_states :: "(string, active_alert) js_map"
  ae_breachStreak :: "(string, nat) js_map"
  ae_timer :: bool
  ae_fired :: "(string \<times> alert_severity) list"
  ae_active :: "(alert_severity, nat) js_map"

definition new_alert_engine :: alert_engine where
  "new_alert_engine = \<lparr>ae_rules = foldl (\<lambda>m rule. Map_set (al_id rule) rule m) [] DEFAULT_RULES, ae_states = [], ae_breachStreak = [],
     ae_timer = False, ae_fired = [], ae_active = []\<rparr>"

definition stop_alerts :: "alert_engine \<Rightarrow> alert_engine" where
  "stop_alerts s = s\<lparr>ae_timer := False\<rparr>"

definition start_alerts :: "alert_engine \<Rightarrow> alert_engine" where
  "start_alerts s = (stop_alerts s)\<lparr>ae_timer := True\<rparr>"

section \<open>Operations\<close>

definition upsertRule :: "alert_rule \<Rightarrow> alert_engine \<Rightarrow> alert_rule \<times> alert_engine" where
  "upsertRule rule s = (rule, s\<lparr>ae_rules := Map_set (al_id rule) rule (ae_rules s)\<rparr>)"

definition removeRule :: "string \<Rightarrow> alert_engine \<Rightarrow> bool \<times> alert_engine" where
  "removeRule i s =
     (Map_has i (ae_rules s),
      s\<lparr>ae_states := Map_delete i (ae_states s), ae_breachStreak := Map_delete i (ae_breachStreak s), ae_rules := Map_delete i (ae_rules s)\<rparr>)"

definition listRules :: "alert_engine \<Rightarrow> alert_rule list" where
  "listRules s = Map_values (ae_rules s)"

definition getActiveAlerts :: "alert_engine \<Rightarrow> active_alert list" where
  "getActiveAlerts s = filter (\<lambda>a. aa_state a = Alert_Firing) (Map_values (ae_states s))"

definition getAllAlertStates :: "alert_engine \<Rightarrow> active_alert list" where
  "getAllAlertStates s = Map_values (ae_states s)"

definition readMetric :: "readings \<Rightarrow> alert_metric_key \<Rightarrow> rat option" where
  "readMetric now_read key =
     (let (snapshot, heapUsed) = now_read
      in case key of
           Cpu_System \<Rightarrow> map_option sy_cpu snapshot
         | Cpu_Process \<Rightarrow> map_option sy_processCpu snapshot
         | Memory_System \<Rightarrow> map_option sy_memory snapshot
         | Disk_System \<Rightarrow> (case snapshot of None \<Rightarrow> None | Some x \<Rightarrow> sy_disk x)
         | Heap_Used \<Rightarrow> Some heapUsed
         | Event_Loop_Lag \<Rightarrow> None)"

definition breaches :: "rat \<Rightarrow> alert_rule \<Rightarrow> bool" where
  "breaches v rule =
     (case al_comparison rule of
        Cmp_Gt \<Rightarrow> v > al_threshold rule
      | Cmp_Gte \<Rightarrow> v \<ge> al_threshold rule
      | Cmp_Lt \<Rightarrow> v < al_threshold rule
      | Cmp_Lte \<Rightarrow> v \<le> al_threshold rule)"

definition required_evaluations :: "alert_rule \<Rightarrow> int" where
  "required_evaluations rule = max 1 (nullish (al_forEvaluations rule) 1)"

definition comparison_text :: "alert_comparison \<Rightarrow> string" where
  "comparison_text c = (case c of Cmp_Gt \<Rightarrow> ''gt'' | Cmp_Gte \<Rightarrow> ''gte'' | Cmp_Lt \<Rightarrow> ''lt'' | Cmp_Lte \<Rightarrow> ''lte'')"

text \<open>The separator of the message is an em dash.\<close>

definition em_dash :: string where
  "em_dash = [char_of (226 :: nat), char_of (128 :: nat), char_of (148 :: nat)]"

definition alert_message :: "(rat \<Rightarrow> string) \<Rightarrow> bool \<Rightarrow> rat \<Rightarrow> alert_rule \<Rightarrow> string" where
  "alert_message num_text shouldFire v rule =
     (if shouldFire
      then al_description rule @ '' '' @ em_dash @ '' current '' @ num_text v @ '' '' @ comparison_text (al_comparison rule) @ '' '' @
        num_text (al_threshold rule)
      else al_description rule @ '' '' @ em_dash @ '' ok (current '' @ num_text v @ '')'')"

text \<open>The body of the loop for one rule, with the counts of firing rules by severity.\<close>

definition evaluate_rule ::
  "(rat \<Rightarrow> string) \<Rightarrow> timestamp \<Rightarrow> readings \<Rightarrow> alert_engine \<times> (alert_severity, nat) js_map \<Rightarrow> alert_rule \<Rightarrow>
    alert_engine \<times> (alert_severity, nat) js_map" where
  "evaluate_rule num_text now rd acc rule =
     (let (s, activeBySeverity) = acc
      in case readMetric rd (al_metric rule) of
           None \<Rightarrow> (s, activeBySeverity)
         | Some v \<Rightarrow>
             let streak = (if breaches v rule then nullish (Map_get (al_id rule) (ae_breachStreak s)) 0 + 1 else 0);
                 prev = Map_get (al_id rule) (ae_states s);
                 shouldFire = (int streak \<ge> required_evaluations rule);
                 newState = (if shouldFire then Alert_Firing else Alert_Ok);
                 fired = (if newState = Alert_Firing \<and> map_option aa_state prev \<noteq> Some Alert_Firing then [(al_id rule, al_severity rule)] else []);
                 since = (case prev of Some p \<Rightarrow> if newState = aa_state p then aa_since p else now | None \<Rightarrow> now);
                 entry = \<lparr>aa_rule = rule, aa_state = newState, aa_value = v, aa_since = since, aa_lastEvaluatedAt = now,
                   aa_message = alert_message num_text shouldFire v rule\<rparr>
             in (s\<lparr>ae_breachStreak := Map_set (al_id rule) streak (ae_breachStreak s), ae_fired := ae_fired s @ fired,
                   ae_states := Map_set (al_id rule) entry (ae_states s)\<rparr>,
                 if newState = Alert_Firing then Map_upd (al_severity rule) (\<lambda>n. n + 1) activeBySeverity else activeBySeverity))"

definition evaluate_alerts :: "(rat \<Rightarrow> string) \<Rightarrow> timestamp \<Rightarrow> readings \<Rightarrow> alert_engine \<Rightarrow> active_alert list \<times> alert_engine" where
  "evaluate_alerts num_text now rd s =
     (let (s1, activeBySeverity) = foldl (evaluate_rule num_text now rd) (s, [(Sev_Info, 0), (Sev_Warning, 0), (Sev_Critical, 0)]) (Map_values (ae_rules s));
          s2 = s1\<lparr>ae_active := foldl (\<lambda>m v. Map_set v (nullish (Map_get v activeBySeverity) 0) m) (ae_active s1) [Sev_Info, Sev_Warning, Sev_Critical]\<rparr>
      in (getActiveAlerts s2, s2))"

section \<open>Specification\<close>

datatype alert_call =
    Eval_Call timestamp readings
  | Upsert_Call alert_rule
  | Remove_Call string
  | Timer_Call bool

definition alert_step :: "(rat \<Rightarrow> string) \<Rightarrow> alert_engine \<Rightarrow> alert_call \<Rightarrow> alert_engine" where
  "alert_step num_text s c =
     (case c of
        Eval_Call now rd \<Rightarrow> snd (evaluate_alerts num_text now rd s)
      | Upsert_Call rule \<Rightarrow> snd (upsertRule rule s)
      | Remove_Call i \<Rightarrow> snd (removeRule i s)
      | Timer_Call on \<Rightarrow> if on then start_alerts s else stop_alerts s)"

text \<open>The figures a rule has seen, oldest first; and whether the last of them, as many as it asks for, breach.\<close>

fun seen :: "alert_rule \<Rightarrow> alert_call list \<Rightarrow> (timestamp \<times> rat) list" where
  "seen r [] = []"
| "seen r (Eval_Call now rd # cs) = (case readMetric rd (al_metric r) of None \<Rightarrow> seen r cs | Some v \<Rightarrow> (now, v) # seen r cs)"
| "seen r (_ # cs) = seen r cs"

definition all_breach :: "alert_rule \<Rightarrow> (timestamp \<times> rat) list \<Rightarrow> bool" where
  "all_breach r vs \<longleftrightarrow>
     (let k = nat (required_evaluations r) in k \<le> length vs \<and> (\<forall>(t, v) \<in> set (drop (length vs - k) vs). breaches v r))"

text \<open>Calls that leave the rule \<open>i\<close> alone.\<close>

fun spares :: "string \<Rightarrow> alert_call \<Rightarrow> bool" where
  "spares i (Upsert_Call rule) \<longleftrightarrow> al_id rule \<noteq> i"
| "spares i (Remove_Call j) \<longleftrightarrow> j \<noteq> i"
| "spares i _ \<longleftrightarrow> True"

definition rules_ok :: "alert_engine \<Rightarrow> bool" where
  "rules_ok s \<longleftrightarrow> Map_wf (ae_rules s) \<and> Map_wf (ae_states s) \<and> (\<forall>k r. Map_get k (ae_rules s) = Some r \<longrightarrow> al_id r = k)"

text \<open>What the engine holds on a rule: the streak, the state and the times it began to fire.\<close>

definition breach_run :: "alert_rule \<Rightarrow> (timestamp \<times> rat) list \<Rightarrow> nat" where
  "breach_run r vs = length (takeWhile (\<lambda>(t, v). breaches v r) (rev vs))"

definition tracks :: "alert_rule \<Rightarrow> (timestamp \<times> rat) list \<Rightarrow> alert_engine \<Rightarrow> bool" where
  "tracks r vs s \<longleftrightarrow> rules_ok s \<and> Map_get (al_id r) (ae_rules s) = Some r \<and>
     nullish (Map_get (al_id r) (ae_breachStreak s)) 0 = breach_run r vs \<and>
     (case Map_get (al_id r) (ae_states s) of
        None \<Rightarrow> vs = []
      | Some a \<Rightarrow> vs \<noteq> [] \<and> aa_state a = (if all_breach r vs then Alert_Firing else Alert_Ok) \<and> aa_value a = snd (last vs) \<and>
          aa_lastEvaluatedAt a = fst (last vs))"

section \<open>Sample data\<close>

definition cpu_rule :: "rat \<Rightarrow> int \<Rightarrow> alert_rule" where
  "cpu_rule threshold n = \<lparr>al_id = ''cpu'', al_description = ''CPU'', al_severity = Sev_Warning, al_metric = Cpu_System,
     al_comparison = Cmp_Gt, al_threshold = threshold, al_forEvaluations = Some n\<rparr>"

definition cpu_at :: "timestamp \<Rightarrow> rat \<Rightarrow> alert_call" where
  "cpu_at t v = Eval_Call t (Some \<lparr>sy_cpu = v, sy_processCpu = 0, sy_memory = 0, sy_disk = None\<rparr>, 0)"

definition no_text :: "rat \<Rightarrow> string" where
  "no_text v = []"

section \<open>Facts\<close>

lemma seen_append: "seen r (cs @ ds) = seen r cs @ seen r ds"
  by (induction r cs rule: seen.induct) (auto split: option.splits)

lemma breach_run_snoc: "breach_run r (vs @ [(t, v)]) = (if breaches v r then breach_run r vs + 1 else 0)"
  by (simp add: breach_run_def)

lemma takeWhile_all_prefix: "k \<le> length (takeWhile P xs) \<longleftrightarrow> k \<le> length xs \<and> (\<forall>x \<in> set (take k xs). P x)"
proof (induction xs arbitrary: k)
  case (Cons x xs)
  then show ?case by (cases k) auto
qed simp

lemma all_breach_run: "all_breach r vs \<longleftrightarrow> required_evaluations r \<le> int (breach_run r vs)"
proof -
  have "required_evaluations r \<ge> 1" by (simp add: required_evaluations_def)
  then have "required_evaluations r \<le> int (breach_run r vs) \<longleftrightarrow> nat (required_evaluations r) \<le> breach_run r vs" by linarith
  also have "\<dots> \<longleftrightarrow> all_breach r vs"
    by (simp add: breach_run_def takeWhile_all_prefix all_breach_def Let_def take_rev)
  finally show ?thesis ..
qed

lemma evaluate_rule_frame:
  "ae_rules (fst (evaluate_rule nt now rd acc rule)) = ae_rules (fst acc)"
  "rules_ok (fst acc) \<Longrightarrow> rules_ok (fst (evaluate_rule nt now rd acc rule))"
  "i \<noteq> al_id rule \<Longrightarrow> Map_get i (ae_states (fst (evaluate_rule nt now rd acc rule))) = Map_get i (ae_states (fst acc)) \<and>
    Map_get i (ae_breachStreak (fst (evaluate_rule nt now rd acc rule))) = Map_get i (ae_breachStreak (fst acc))"
  unfolding evaluate_rule_def by (auto simp: Let_def rules_ok_def split: prod.splits option.splits)

lemma evaluate_rules_frame:
  "ae_rules (fst (foldl (evaluate_rule nt now rd) acc rs)) = ae_rules (fst acc)"
  "rules_ok (fst acc) \<Longrightarrow> rules_ok (fst (foldl (evaluate_rule nt now rd) acc rs))"
  "i \<notin> al_id ` set rs \<Longrightarrow> Map_get i (ae_states (fst (foldl (evaluate_rule nt now rd) acc rs))) = Map_get i (ae_states (fst acc)) \<and>
    Map_get i (ae_breachStreak (fst (foldl (evaluate_rule nt now rd) acc rs))) = Map_get i (ae_breachStreak (fst acc))"
  by (induction rs rule: rev_induct) (auto simp: evaluate_rule_frame)

lemma tracks_evaluate_rule:
  assumes "tracks r vs (fst acc)" "readMetric rd (al_metric r) = Some v"
  shows "tracks r (vs @ [(now, v)]) (fst (evaluate_rule nt now rd acc r))"
proof -
  obtain s m where acc: "acc = (s, m)" by (cases acc)
  have ok: "rules_ok (fst (evaluate_rule nt now rd acc r))" using assms(1) by (intro evaluate_rule_frame) (simp add: tracks_def)
  have run: "breach_run r (vs @ [(now, v)]) = (if breaches v r then nullish (Map_get (al_id r) (ae_breachStreak s)) 0 + 1 else 0)"
    using assms(1) by (simp add: tracks_def acc breach_run_snoc)
  have rules: "ae_rules (fst (evaluate_rule nt now rd acc r)) = ae_rules s" using evaluate_rule_frame(1) [of nt now rd acc r] by (simp add: acc)
  have "Map_get (al_id r) (ae_breachStreak (fst (evaluate_rule nt now rd acc r))) = Some (breach_run r (vs @ [(now, v)]))"
    unfolding run using assms(2) by (simp add: evaluate_rule_def acc Let_def)
  moreover obtain a where "Map_get (al_id r) (ae_states (fst (evaluate_rule nt now rd acc r))) = Some a"
    "aa_state a = (if all_breach r (vs @ [(now, v)]) then Alert_Firing else Alert_Ok)" "aa_value a = v" "aa_lastEvaluatedAt a = now"
    unfolding all_breach_run run using assms(2) by (simp add: evaluate_rule_def acc Let_def)
  ultimately show ?thesis using ok assms(1) rules by (simp add: tracks_def acc)
qed

lemma tracks_same:
  assumes "tracks r vs s" "rules_ok s'" "Map_get (al_id r) (ae_rules s') = Map_get (al_id r) (ae_rules s)"
    "Map_get (al_id r) (ae_breachStreak s') = Map_get (al_id r) (ae_breachStreak s)" "Map_get (al_id r) (ae_states s') = Map_get (al_id r) (ae_states s)"
  shows "tracks r vs s'"
  using assms by (simp add: tracks_def)

lemma rules_split:
  assumes "rules_ok s" "Map_get i (ae_rules s) = Some r"
  obtains xs ys where "Map_values (ae_rules s) = xs @ r # ys" "i \<notin> al_id ` set xs" "i \<notin> al_id ` set ys"
proof -
  have "(i, r) \<in> set (ae_rules s)" using assms by (simp add: Map_get_memD)
  then obtain as bs where split: "ae_rules s = as @ (i, r) # bs" by (meson split_list)
  have d: "distinct (map fst (as @ (i, r) # bs))" using assms(1) by (simp add: rules_ok_def Map_wf_def split)
  have ids: "al_id x = k" if "(k, x) \<in> set (ae_rules s)" for k x
    using assms(1) that Map_get_in_set [of "ae_rules s" k x] unfolding rules_ok_def by blast
  show ?thesis
  proof (rule that)
    show "Map_values (ae_rules s) = map snd as @ r # map snd bs" by (simp add: Map_values_def split)
    have "al_id x \<noteq> i" if "(k, x) \<in> set as \<union> set bs" for k x
    proof -
      have "al_id x = k" using that by (intro ids) (auto simp: split)
      moreover have "k \<in> fst ` (set as \<union> set bs)" using that by force
      ultimately show ?thesis using d by auto
    qed
    then show "i \<notin> al_id ` set (map snd as)" "i \<notin> al_id ` set (map snd bs)" by (fastforce simp: image_iff)+
  qed
qed

lemma evaluate_alerts_state:
  obtains m where "snd (evaluate_alerts nt now rd s) =
    (fst (foldl (evaluate_rule nt now rd) (s, [(Sev_Info, 0), (Sev_Warning, 0), (Sev_Critical, 0)]) (Map_values (ae_rules s))))\<lparr>ae_active := m\<rparr>"
  by (simp add: evaluate_alerts_def Let_def case_prod_beta)

lemma tracks_active [simp]: "tracks r vs (s\<lparr>ae_active := m\<rparr>) = tracks r vs s"
  by (simp add: tracks_def rules_ok_def)

lemma tracks_step:
  assumes tr: "tracks r vs s" and sp: "spares (al_id r) c"
  shows "tracks r (vs @ seen r [c]) (alert_step nt s c)"
proof (cases c)
  case (Eval_Call now rd)
  let ?acc = "(s, [(Sev_Info, 0), (Sev_Warning, 0), (Sev_Critical, 0 :: nat)])"
  obtain xs ys where rules: "Map_values (ae_rules s) = xs @ r # ys" "al_id r \<notin> al_id ` set xs" "al_id r \<notin> al_id ` set ys"
    using tr by (auto simp: tracks_def elim: rules_split)
  let ?a1 = "foldl (evaluate_rule nt now rd) ?acc xs"
  let ?a2 = "evaluate_rule nt now rd ?a1 r"
  have t1: "tracks r vs (fst ?a1)"
    using tr rules(2) by (intro tracks_same [OF tr]) (simp_all add: evaluate_rules_frame tracks_def)
  have t2: "tracks r (vs @ seen r [c]) (fst ?a2)"
  proof (cases "readMetric rd (al_metric r)")
    case None
    then have "?a2 = ?a1" by (simp add: evaluate_rule_def case_prod_beta)
    then show ?thesis using None t1 Eval_Call by simp
  next
    case (Some v)
    then show ?thesis using tracks_evaluate_rule [OF t1 Some, of now nt] Eval_Call by simp
  qed
  have "tracks r (vs @ seen r [c]) (fst (foldl (evaluate_rule nt now rd) ?a2 ys))"
    using t2 rules(3) by (intro tracks_same [OF t2]) (simp_all add: evaluate_rules_frame tracks_def)
  moreover obtain m where "snd (evaluate_alerts nt now rd s) =
      (fst (foldl (evaluate_rule nt now rd) ?acc (Map_values (ae_rules s))))\<lparr>ae_active := m\<rparr>" by (rule evaluate_alerts_state)
  ultimately show ?thesis by (simp add: Eval_Call alert_step_def rules(1))
next
  case (Upsert_Call rule)
  have "rules_ok (snd (upsertRule rule s))" using tr by (auto simp: tracks_def rules_ok_def upsertRule_def)
  then show ?thesis using tr sp Upsert_Call by (simp add: alert_step_def tracks_def upsertRule_def)
next
  case (Remove_Call i)
  have "rules_ok (snd (removeRule i s))" using tr by (auto simp: tracks_def rules_ok_def removeRule_def split: if_splits)
  then show ?thesis using tr sp Remove_Call by (simp add: alert_step_def tracks_def removeRule_def)
next
  case (Timer_Call on)
  then show ?thesis using tr by (simp add: alert_step_def start_alerts_def stop_alerts_def tracks_def rules_ok_def)
qed

lemma tracks_run: "tracks r vs s \<Longrightarrow> list_all (spares (al_id r)) cs \<Longrightarrow> tracks r (vs @ seen r cs) (run (alert_step nt) s cs)"
proof (induction cs arbitrary: vs s)
  case (Cons c cs)
  have "tracks r (vs @ seen r [c]) (alert_step nt s c)" using Cons.prems by (intro tracks_step) simp_all
  from Cons.IH [OF this] show ?case using Cons.prems seen_append [of r "[c]" cs] by simp
qed simp

lemma evaluate_alerts_rule:
  assumes "rules_ok s" "Map_get (al_id r) (ae_rules s) = Some r" "readMetric rd (al_metric r) = Some v"
  shows "map_option aa_state (Map_get (al_id r) (ae_states (snd (evaluate_alerts nt now rd s)))) =
    Some (if required_evaluations r \<le> (if breaches v r then int (nullish (Map_get (al_id r) (ae_breachStreak s)) 0) + 1 else 0)
      then Alert_Firing else Alert_Ok)"
proof -
  let ?acc = "(s, [(Sev_Info, 0), (Sev_Warning, 0), (Sev_Critical, 0 :: nat)])"
  obtain xs ys where rules: "Map_values (ae_rules s) = xs @ r # ys" "al_id r \<notin> al_id ` set xs" "al_id r \<notin> al_id ` set ys"
    using rules_split [OF assms(1,2)] by metis
  let ?a1 = "foldl (evaluate_rule nt now rd) ?acc xs"
  let ?a2 = "evaluate_rule nt now rd ?a1 r"
  have streak: "Map_get (al_id r) (ae_breachStreak (fst ?a1)) = Map_get (al_id r) (ae_breachStreak s)"
    using evaluate_rules_frame(3) [OF rules(2), of nt now rd ?acc] by simp
  obtain s1 m1 where a1: "?a1 = (s1, m1)" by (cases ?a1)
  have "map_option aa_state (Map_get (al_id r) (ae_states (fst ?a2))) =
      Some (if required_evaluations r \<le> (if breaches v r then int (nullish (Map_get (al_id r) (ae_breachStreak s)) 0) + 1 else 0)
        then Alert_Firing else Alert_Ok)"
    using streak assms(3) by (auto simp: evaluate_rule_def a1 Let_def)
  moreover have "Map_get (al_id r) (ae_states (fst (foldl (evaluate_rule nt now rd) ?a2 ys))) = Map_get (al_id r) (ae_states (fst ?a2))"
    using evaluate_rules_frame(3) [OF rules(3), of nt now rd ?a2] by simp
  moreover obtain m where "snd (evaluate_alerts nt now rd s) =
      (fst (foldl (evaluate_rule nt now rd) ?acc (Map_values (ae_rules s))))\<lparr>ae_active := m\<rparr>" by (rule evaluate_alerts_state)
  ultimately show ?thesis by (simp add: rules(1))
qed

lemma rules_ok_step: "rules_ok s \<Longrightarrow> rules_ok (alert_step nt s c)"
proof (cases c)
  case (Eval_Call now rd)
  let ?acc = "(s, [(Sev_Info, 0), (Sev_Warning, 0), (Sev_Critical, 0 :: nat)])"
  assume "rules_ok s"
  then have "rules_ok (fst (foldl (evaluate_rule nt now rd) ?acc (Map_values (ae_rules s))))" by (intro evaluate_rules_frame) simp
  moreover obtain m where "snd (evaluate_alerts nt now rd s) =
      (fst (foldl (evaluate_rule nt now rd) ?acc (Map_values (ae_rules s))))\<lparr>ae_active := m\<rparr>" by (rule evaluate_alerts_state)
  ultimately show ?thesis by (simp add: Eval_Call alert_step_def rules_ok_def)
qed (auto simp: alert_step_def rules_ok_def upsertRule_def removeRule_def start_alerts_def stop_alerts_def split: if_splits)

lemma rules_ok_new: "rules_ok new_alert_engine"
  by (simp add: rules_ok_def new_alert_engine_def DEFAULT_RULES_def)

text \<open>A rule that was removed and registered anew is tracked from the start.\<close>

lemma tracks_registered:
  "tracks r [] (run (alert_step nt) new_alert_engine (before @ [Remove_Call (al_id r), Upsert_Call r]))"
proof -
  have "rules_ok s \<Longrightarrow> rules_ok (run (alert_step nt) s cs)" for s cs
    by (induction cs arbitrary: s) (simp_all add: rules_ok_step)
  from this [OF rules_ok_new] have ok: "rules_ok (run (alert_step nt) new_alert_engine before)" .
  have "rules_ok (run (alert_step nt) new_alert_engine (before @ [Remove_Call (al_id r), Upsert_Call r]))"
    using rules_ok_step [OF rules_ok_step [OF ok]] by simp
  then show ?thesis by (simp add: tracks_def alert_step_def upsertRule_def removeRule_def breach_run_def)
qed

lemma tracked_state:
  assumes "tracks r vs s" "vs \<noteq> []"
  obtains a where "Map_get (al_id r) (ae_states s) = Some a" "aa_state a = Alert_Firing \<longleftrightarrow> all_breach r vs"
    "aa_value a = snd (last vs)" "aa_lastEvaluatedAt a = fst (last vs)"
  using assms by (auto simp: tracks_def split: option.splits if_splits)

section \<open>Properties\<close>



text \<open>
  A replaced rule inherits the streak of its predecessor: when a rule is replaced under the same id, by
  one on another metric or with another threshold, the first reading of the new rule that breaches
  makes it fire as soon as the breaches of the old rule and this one together are as many as it asks for.
\<close>

theorem replaced_rule_inherits_streak:
  assumes "list_all (spares (al_id r)) calls" and new: "al_id r' = al_id r" and v: "readMetric rd (al_metric r') = Some v" "breaches v r'"
  shows "let s = run (alert_step nt) new_alert_engine (before @ [Remove_Call (al_id r), Upsert_Call r] @ calls @ [Upsert_Call r', Eval_Call now rd])
    in map_option aa_state (Map_get (al_id r') (ae_states s)) =
       Some (if required_evaluations r' \<le> int (breach_run r (seen r calls)) + 1 then Alert_Firing else Alert_Ok)"
proof -
  let ?s1 = "run (alert_step nt) new_alert_engine (before @ [Remove_Call (al_id r), Upsert_Call r] @ calls)"
  have tr: "tracks r (seen r calls) ?s1" using tracks_run [where nt = nt, OF tracks_registered [where before = before] assms(1)] by simp
  let ?s2 = "alert_step nt ?s1 (Upsert_Call r')"
  have "rules_ok ?s2" using tr by (intro rules_ok_step) (simp add: tracks_def)
  moreover have "Map_get (al_id r') (ae_rules ?s2) = Some r'" by (simp add: alert_step_def upsertRule_def)
  moreover have "nullish (Map_get (al_id r') (ae_breachStreak ?s2)) 0 = breach_run r (seen r calls)"
    using tr new by (simp add: alert_step_def upsertRule_def tracks_def)
  ultimately show ?thesis using evaluate_alerts_rule [of ?s2 r' rd v nt now] v by (simp add: Let_def alert_step_def [of nt _ "Eval_Call now rd"])
qed

theorem replaced_rule_inherits_streak_witness:
  "map_option aa_state (Map_get ''cpu'' (ae_states (run (alert_step no_text) new_alert_engine
     [Remove_Call ''cpu'', Upsert_Call (cpu_rule 80 3), cpu_at 1 90, cpu_at 2 90, Upsert_Call (cpu_rule 10 3), cpu_at 3 20]))) = Some Alert_Firing"
proof -
  let ?r = "cpu_rule 80 3" and ?r' = "cpu_rule 10 3" and ?rd = "(Some \<lparr>sy_cpu = 20, sy_processCpu = 0, sy_memory = 0, sy_disk = None\<rparr>, 0)"
  have "list_all (spares (al_id ?r)) [cpu_at 1 90, cpu_at 2 90]" by (simp add: cpu_at_def)
  moreover have "al_id ?r' = al_id ?r" "readMetric ?rd (al_metric ?r') = Some 20" "breaches 20 ?r'"
    by (simp_all add: cpu_rule_def readMetric_def breaches_def)
  ultimately have "let s = run (alert_step no_text) new_alert_engine
        ([] @ [Remove_Call (al_id ?r), Upsert_Call ?r] @ [cpu_at 1 90, cpu_at 2 90] @ [Upsert_Call ?r', Eval_Call 3 ?rd])
      in map_option aa_state (Map_get (al_id ?r') (ae_states s)) =
         Some (if required_evaluations ?r' \<le> int (breach_run ?r (seen ?r [cpu_at 1 90, cpu_at 2 90])) + 1 then Alert_Firing else Alert_Ok)"
    by (rule replaced_rule_inherits_streak)
  moreover have "breach_run ?r (seen ?r [cpu_at 1 90, cpu_at 2 90]) = 2" "required_evaluations ?r' = 3" "al_id ?r = ''cpu''" "al_id ?r' = ''cpu''"
    by (simp_all add: cpu_rule_def cpu_at_def readMetric_def breach_run_def breaches_def required_evaluations_def)
  ultimately show ?thesis by (simp add: Let_def cpu_at_def [of 3] del: run_Cons)
qed

end
