(* ===== verification/User_Alerts.thy ===== *)
theory User_Alerts
  imports Sql_Table
begin

text \<open>
  The alerts of users (growth/alerts/alerts.service.ts): price, portfolio, drift, milestone and
  performance alerts, the log of their triggers and the preferences of users. The three tables are
  parameters. An evaluation that awaits the tables reads the clock anew for every alert it looks at.
\<close>

section \<open>Entities\<close>

datatype alert_type = Price_Alert | Portfolio_Alert | Liquidation_Alert | Drift_Alert | Milestone_Alert | Performance_Alert

datatype alert_condition = Cond_Above | Cond_Below | Cond_Deviation

record user_alert =
  ua_id :: string
  ua_userId :: string
  ua_type :: alert_type
  ua_asset :: "string option"
  ua_condition :: "alert_condition option"
  ua_threshold :: "rat option"
  ua_cooldownSeconds :: int
  ua_lastTriggeredAt :: "timestamp option"
  ua_active :: bool

text \<open>The last payload is that of the dispatcher: the text of the alert and the channel.\<close>

datatype trigger_payload =
    Price_Trigger string rat "rat option" "alert_condition option"
  | Drift_Trigger "string option" rat "rat option"
  | Milestone_Trigger rat "rat option" "alert_condition option"
  | Performance_Trigger rat "rat option"
  | Dispatched_Alert string string

record trigger_log =
  tl_id :: string
  tl_alertId :: string
  tl_userId :: string
  tl_type :: "alert_type option"
  tl_payload :: trigger_payload
  tl_triggeredAt :: timestamp

datatype alert_frequency = Realtime | Daily_Digest

record alert_preference =
  pf_id :: string
  pf_userId :: string
  pf_channels :: "string list"
  pf_quietHoursStart :: "int option"
  pf_quietHoursEnd :: "int option"
  pf_rateLimit :: int
  pf_frequency :: alert_frequency
  pf_disabledAlertTypes :: "string list"

section \<open>State\<close>

record ('a, 'l, 'p) alert_repos =
  ur_alerts :: "('a, user_alert) table_ops"
  ur_logs :: "('l, trigger_log) table_ops"
  ur_prefs :: "('p, alert_preference) table_ops"

record ('a, 'l, 'p) alert_world =
  uw_alerts :: 'a
  uw_logs :: 'l
  uw_prefs :: 'p

definition on_alerts :: "('a, 'x) io \<Rightarrow> (('a, 'l, 'p) alert_world, 'x) io" where
  "on_alerts = on_part uw_alerts (\<lambda>d w. w\<lparr>uw_alerts := d\<rparr>)"

definition on_trigger_logs :: "('l, 'x) io \<Rightarrow> (('a, 'l, 'p) alert_world, 'x) io" where
  "on_trigger_logs = on_part uw_logs (\<lambda>d w. w\<lparr>uw_logs := d\<rparr>)"

definition on_prefs :: "('p, 'x) io \<Rightarrow> (('a, 'l, 'p) alert_world, 'x) io" where
  "on_prefs = on_part uw_prefs (\<lambda>d w. w\<lparr>uw_prefs := d\<rparr>)"

section \<open>Creating alerts\<close>

record alert_dto =
  ad_userId :: string
  ad_asset :: string
  ad_condition :: alert_condition
  ad_threshold :: rat
  ad_cooldownSeconds :: "int option"

definition new_alert :: "string \<Rightarrow> alert_dto \<Rightarrow> alert_type \<Rightarrow> string option \<Rightarrow> alert_condition \<Rightarrow> int \<Rightarrow> user_alert" where
  "new_alert rowId dto ty asset cond cooldown =
     \<lparr>ua_id = rowId, ua_userId = ad_userId dto, ua_type = ty, ua_asset = asset, ua_condition = Some cond, ua_threshold = Some (ad_threshold dto),
      ua_cooldownSeconds = nullish (ad_cooldownSeconds dto) cooldown, ua_lastTriggeredAt = None, ua_active = True\<rparr>"

definition save_alert :: "('a, 'l, 'p) alert_repos \<Rightarrow> user_alert \<Rightarrow> (('a, 'l, 'p) alert_world, user_alert) io" where
  "save_alert rp a = io_bind (on_alerts (to_save (ur_alerts rp) a)) (\<lambda>_. io_return a)"

definition createPriceAlert :: "('a, 'l, 'p) alert_repos \<Rightarrow> string \<Rightarrow> alert_dto \<Rightarrow> (('a, 'l, 'p) alert_world, user_alert) io" where
  "createPriceAlert rp rowId dto = save_alert rp (new_alert rowId dto Price_Alert (Some (ad_asset dto)) (ad_condition dto) 300)"

definition createPortfolioAlert :: "('a, 'l, 'p) alert_repos \<Rightarrow> string \<Rightarrow> alert_dto \<Rightarrow> (('a, 'l, 'p) alert_world, user_alert) io" where
  "createPortfolioAlert rp rowId dto = save_alert rp (new_alert rowId dto Portfolio_Alert None (ad_condition dto) 300)"

definition createAllocationDriftAlert :: "('a, 'l, 'p) alert_repos \<Rightarrow> string \<Rightarrow> alert_dto \<Rightarrow> (('a, 'l, 'p) alert_world, user_alert) io" where
  "createAllocationDriftAlert rp rowId dto = save_alert rp (new_alert rowId dto Drift_Alert (Some (ad_asset dto)) Cond_Deviation 3600)"

definition createMilestoneAlert :: "('a, 'l, 'p) alert_repos \<Rightarrow> string \<Rightarrow> alert_dto \<Rightarrow> (('a, 'l, 'p) alert_world, user_alert) io" where
  "createMilestoneAlert rp rowId dto = save_alert rp (new_alert rowId dto Milestone_Alert None (ad_condition dto) 86400)"

definition createPerformanceAlert :: "('a, 'l, 'p) alert_repos \<Rightarrow> string \<Rightarrow> alert_dto \<Rightarrow> (('a, 'l, 'p) alert_world, user_alert) io" where
  "createPerformanceAlert rp rowId dto = save_alert rp (new_alert rowId dto Performance_Alert None (ad_condition dto) 3600)"

definition getUserAlerts :: "('a, 'l, 'p) alert_repos \<Rightarrow> string \<Rightarrow> (('a, 'l, 'p) alert_world, user_alert list) io" where
  "getUserAlerts rp userId = on_alerts (to_find (ur_alerts rp) (\<lambda>a. ua_userId a = userId \<and> ua_active a) any_order)"

definition toggleAlert :: "('a, 'l, 'p) alert_repos \<Rightarrow> string \<Rightarrow> bool \<Rightarrow> (('a, 'l, 'p) alert_world, user_alert) io" where
  "toggleAlert rp alertId active =
     io_bind (on_alerts (to_findOne (ur_alerts rp) (\<lambda>a. ua_id a = alertId) any_order)) (\<lambda>found.
       case found of None \<Rightarrow> io_throw (NotFound ''Not Found'') | Some a \<Rightarrow> save_alert rp (a\<lparr>ua_active := active\<rparr>))"

definition deleteAlert :: "('a, 'l, 'p) alert_repos \<Rightarrow> string \<Rightarrow> (('a, 'l, 'p) alert_world, unit) io" where
  "deleteAlert rp alertId =
     io_bind (on_alerts (to_findOne (ur_alerts rp) (\<lambda>a. ua_id a = alertId) any_order)) (\<lambda>found.
       case found of
         None \<Rightarrow> io_throw (NotFound ''Not Found'')
       | Some a \<Rightarrow> io_bind (save_alert rp (a\<lparr>ua_active := False\<rparr>)) (\<lambda>_. io_return ()))"

definition newest_trigger :: "trigger_log \<Rightarrow> trigger_log \<Rightarrow> int" where
  "newest_trigger a b = tl_triggeredAt b - tl_triggeredAt a"

definition getAlertHistory :: "('a, 'l, 'p) alert_repos \<Rightarrow> string \<Rightarrow> alert_type option \<Rightarrow> (('a, 'l, 'p) alert_world, trigger_log list) io" where
  "getAlertHistory rp userId ty =
     on_trigger_logs (to_find (ur_logs rp) (\<lambda>l. tl_userId l = userId \<and> (ty = None \<or> tl_type l = ty)) newest_trigger)"

section \<open>Evaluation\<close>

text \<open>A threshold that is not set is null and compares as 0.\<close>

definition isConditionMet :: "alert_condition option \<Rightarrow> rat \<Rightarrow> rat option \<Rightarrow> bool" where
  "isConditionMet cond current threshold =
     (if cond = Some Cond_Above then current > nullish threshold 0 else current < nullish threshold 0)"

definition isCooldownElapsed :: "timestamp \<Rightarrow> user_alert \<Rightarrow> bool" where
  "isCooldownElapsed now a =
     (case ua_lastTriggeredAt a of None \<Rightarrow> True | Some t \<Rightarrow> (of_int (now - t) :: rat) / 1000 \<ge> of_int (ua_cooldownSeconds a))"

text \<open>
  The loop the evaluations share: \<open>payload\<close> is the entry an alert writes, None when its condition is
  not met. The ids of the new log rows are \<open>newId 0\<close>, \<open>newId 1\<close> and so on.
\<close>

fun evaluate_each ::
  "('a, 'l, 'p) alert_repos \<Rightarrow> (nat \<Rightarrow> timestamp) \<Rightarrow> (nat \<Rightarrow> string) \<Rightarrow> nat \<Rightarrow> alert_type \<Rightarrow> (user_alert \<Rightarrow> trigger_payload option) \<Rightarrow>
    user_alert list \<Rightarrow> (('a, 'l, 'p) alert_world, trigger_log list) io" where
  "evaluate_each rp now newId n ty payload [] = io_return []"
| "evaluate_each rp now newId n ty payload (a # alerts) =
     (case payload a of
        None \<Rightarrow> evaluate_each rp now newId (n + 1) ty payload alerts
      | Some p \<Rightarrow>
          if \<not> isCooldownElapsed (now n) a then evaluate_each rp now newId (n + 1) ty payload alerts
          else
            let entry = \<lparr>tl_id = newId n, tl_alertId = ua_id a, tl_userId = ua_userId a, tl_type = Some ty, tl_payload = p, tl_triggeredAt = now n\<rparr>
            in io_bind (on_alerts (to_save (ur_alerts rp) (a\<lparr>ua_lastTriggeredAt := Some (now n)\<rparr>))) (\<lambda>_.
                 io_bind (on_trigger_logs (to_save (ur_logs rp) entry)) (\<lambda>_.
                   io_bind (evaluate_each rp now newId (n + 1) ty payload alerts) (\<lambda>rest. io_return (entry # rest)))))"

definition evaluatePriceAlerts ::
  "('a, 'l, 'p) alert_repos \<Rightarrow> (nat \<Rightarrow> timestamp) \<Rightarrow> (nat \<Rightarrow> string) \<Rightarrow> string \<Rightarrow> rat \<Rightarrow> (('a, 'l, 'p) alert_world, trigger_log list) io" where
  "evaluatePriceAlerts rp now newId asset currentPrice =
     io_bind (on_alerts (to_find (ur_alerts rp) (\<lambda>a. ua_type a = Price_Alert \<and> ua_asset a = Some asset \<and> ua_active a) any_order)) (\<lambda>alerts.
       evaluate_each rp now newId 0 Price_Alert (\<lambda>a.
         if isConditionMet (ua_condition a) currentPrice (ua_threshold a)
         then Some (Price_Trigger asset currentPrice (ua_threshold a) (ua_condition a)) else None) alerts)"

definition evaluateAllocationDriftAlerts ::
  "('a, 'l, 'p) alert_repos \<Rightarrow> (nat \<Rightarrow> timestamp) \<Rightarrow> (nat \<Rightarrow> string) \<Rightarrow> string \<Rightarrow> (string, rat) js_map \<Rightarrow>
    (('a, 'l, 'p) alert_world, trigger_log list) io" where
  "evaluateAllocationDriftAlerts rp now newId userId deviations =
     io_bind (on_alerts (to_find (ur_alerts rp) (\<lambda>a. ua_userId a = userId \<and> ua_type a = Drift_Alert \<and> ua_active a) any_order)) (\<lambda>alerts.
       evaluate_each rp now newId 0 Drift_Alert (\<lambda>a.
         case Map_get (nullish (ua_asset a) ''null'') deviations of
           None \<Rightarrow> None
         | Some deviation \<Rightarrow> if \<bar>deviation\<bar> < nullish (ua_threshold a) 0 then None
             else Some (Drift_Trigger (ua_asset a) deviation (ua_threshold a))) alerts)"

definition evaluateMilestoneAlerts ::
  "('a, 'l, 'p) alert_repos \<Rightarrow> (nat \<Rightarrow> timestamp) \<Rightarrow> (nat \<Rightarrow> string) \<Rightarrow> string \<Rightarrow> rat \<Rightarrow> (('a, 'l, 'p) alert_world, trigger_log list) io" where
  "evaluateMilestoneAlerts rp now newId userId portfolioValue =
     io_bind (on_alerts (to_find (ur_alerts rp) (\<lambda>a. ua_userId a = userId \<and> ua_type a = Milestone_Alert \<and> ua_active a) any_order)) (\<lambda>alerts.
       evaluate_each rp now newId 0 Milestone_Alert (\<lambda>a.
         if isConditionMet (ua_condition a) portfolioValue (ua_threshold a)
         then Some (Milestone_Trigger portfolioValue (ua_threshold a) (ua_condition a)) else None) alerts)"

definition evaluatePerformanceAlerts ::
  "('a, 'l, 'p) alert_repos \<Rightarrow> (nat \<Rightarrow> timestamp) \<Rightarrow> (nat \<Rightarrow> string) \<Rightarrow> string \<Rightarrow> rat \<Rightarrow> (('a, 'l, 'p) alert_world, trigger_log list) io" where
  "evaluatePerformanceAlerts rp now newId userId performancePct =
     io_bind (on_alerts (to_find (ur_alerts rp) (\<lambda>a. ua_userId a = userId \<and> ua_type a = Performance_Alert \<and> ua_active a) any_order)) (\<lambda>alerts.
       evaluate_each rp now newId 0 Performance_Alert (\<lambda>a.
         if \<bar>performancePct\<bar> < nullish (ua_threshold a) 0 then None
         else Some (Performance_Trigger performancePct (ua_threshold a))) alerts)"

section \<open>Preferences\<close>

record subscribe_dto =
  sd_userId :: string
  sd_channels :: "string list"
  sd_quietHoursStart :: "int option"
  sd_quietHoursEnd :: "int option"
  sd_rateLimit :: "int option"
  sd_frequency :: "alert_frequency option"
  sd_disabledAlertTypes :: "string list option"

definition getPreference :: "('a, 'l, 'p) alert_repos \<Rightarrow> string \<Rightarrow> (('a, 'l, 'p) alert_world, alert_preference option) io" where
  "getPreference rp userId = on_prefs (to_findOne (ur_prefs rp) (\<lambda>p. pf_userId p = userId) any_order)"

definition changed_preference :: "subscribe_dto \<Rightarrow> alert_preference \<Rightarrow> alert_preference" where
  "changed_preference dto p =
     p\<lparr>pf_channels := sd_channels dto,
       pf_quietHoursStart := (case sd_quietHoursStart dto of None \<Rightarrow> pf_quietHoursStart p | Some h \<Rightarrow> Some h),
       pf_quietHoursEnd := (case sd_quietHoursEnd dto of None \<Rightarrow> pf_quietHoursEnd p | Some h \<Rightarrow> Some h),
       pf_rateLimit := nullish (sd_rateLimit dto) (pf_rateLimit p), pf_frequency := nullish (sd_frequency dto) (pf_frequency p),
       pf_disabledAlertTypes := nullish (sd_disabledAlertTypes dto) (pf_disabledAlertTypes p)\<rparr>"

definition new_preference :: "string \<Rightarrow> subscribe_dto \<Rightarrow> alert_preference" where
  "new_preference rowId dto =
     \<lparr>pf_id = rowId, pf_userId = sd_userId dto, pf_channels = sd_channels dto, pf_quietHoursStart = sd_quietHoursStart dto,
      pf_quietHoursEnd = sd_quietHoursEnd dto, pf_rateLimit = nullish (sd_rateLimit dto) 10,
      pf_frequency = nullish (sd_frequency dto) Realtime, pf_disabledAlertTypes = nullish (sd_disabledAlertTypes dto) []\<rparr>"

definition savePreference :: "('a, 'l, 'p) alert_repos \<Rightarrow> string \<Rightarrow> subscribe_dto \<Rightarrow> (('a, 'l, 'p) alert_world, alert_preference) io" where
  "savePreference rp rowId dto =
     io_bind (on_prefs (to_findOne (ur_prefs rp) (\<lambda>p. pf_userId p = sd_userId dto) any_order)) (\<lambda>existing.
       let pref = (case existing of Some p \<Rightarrow> changed_preference dto p | None \<Rightarrow> new_preference rowId dto)
       in io_bind (on_prefs (to_save (ur_prefs rp) pref)) (\<lambda>_. io_return pref))"

definition deletePreference :: "('a, 'l, 'p) alert_repos \<Rightarrow> string \<Rightarrow> (('a, 'l, 'p) alert_world, unit) io" where
  "deletePreference rp userId =
     io_bind (on_prefs (to_findOne (ur_prefs rp) (\<lambda>p. pf_userId p = userId) any_order)) (\<lambda>found.
       case found of
         None \<Rightarrow> io_throw (NotFound ''Not Found'')
       | Some p \<Rightarrow> on_prefs (to_delete (ur_prefs rp) (\<lambda>q. pf_id q = pf_id p)))"

section \<open>Specification\<close>

locale alert_tables =
  a: sql_table "ur_alerts rp" ua_id arows +
  l: sql_table "ur_logs rp" tl_id lrows
  for rp :: "('a, 'l, 'p) alert_repos" and arows and lrows

text \<open>
  The calls of the service in any order, beside the time: an evaluation reads clocks that do not run
  backwards, new alerts and new log entries get new ids.
\<close>

inductive user_alert_step ::
  "('a, 'l, 'p) alert_repos \<Rightarrow> ('a \<Rightarrow> string \<Rightarrow> user_alert option) \<Rightarrow> ('l \<Rightarrow> string \<Rightarrow> trigger_log option) \<Rightarrow>
    timestamp \<times> ('a, 'l, 'p) alert_world \<Rightarrow> timestamp \<times> ('a, 'l, 'p) alert_world \<Rightarrow> bool"
  for rp arows lrows where
  create_price: "arows (uw_alerts w) rowId = None \<Longrightarrow> user_alert_step rp arows lrows (t, w) (t, snd (createPriceAlert rp rowId dto w))"
| create_portfolio: "arows (uw_alerts w) rowId = None \<Longrightarrow> user_alert_step rp arows lrows (t, w) (t, snd (createPortfolioAlert rp rowId dto w))"
| create_drift: "arows (uw_alerts w) rowId = None \<Longrightarrow> user_alert_step rp arows lrows (t, w) (t, snd (createAllocationDriftAlert rp rowId dto w))"
| create_milestone: "arows (uw_alerts w) rowId = None \<Longrightarrow> user_alert_step rp arows lrows (t, w) (t, snd (createMilestoneAlert rp rowId dto w))"
| create_performance: "arows (uw_alerts w) rowId = None \<Longrightarrow> user_alert_step rp arows lrows (t, w) (t, snd (createPerformanceAlert rp rowId dto w))"
| toggle: "user_alert_step rp arows lrows (t, w) (t, snd (toggleAlert rp alertId active w))"
| delete: "user_alert_step rp arows lrows (t, w) (t, snd (deleteAlert rp alertId w))"
| of_user: "user_alert_step rp arows lrows (t, w) (t, snd (getUserAlerts rp userId w))"
| history: "user_alert_step rp arows lrows (t, w) (t, snd (getAlertHistory rp userId ty w))"
| preference: "user_alert_step rp arows lrows (t, w) (t, snd (getPreference rp userId w))"
| subscribe: "user_alert_step rp arows lrows (t, w) (t, snd (savePreference rp rowId sdto w))"
| unsubscribe: "user_alert_step rp arows lrows (t, w) (t, snd (deletePreference rp userId w))"
| price: "mono now \<Longrightarrow> t \<le> now 0 \<Longrightarrow> \<forall>n. now n \<le> t' \<Longrightarrow> inj newId \<Longrightarrow> \<forall>n. lrows (uw_logs w) (newId n) = None \<Longrightarrow>
    user_alert_step rp arows lrows (t, w) (t', snd (evaluatePriceAlerts rp now newId asset v w))"
| drift: "mono now \<Longrightarrow> t \<le> now 0 \<Longrightarrow> \<forall>n. now n \<le> t' \<Longrightarrow> inj newId \<Longrightarrow> \<forall>n. lrows (uw_logs w) (newId n) = None \<Longrightarrow>
    user_alert_step rp arows lrows (t, w) (t', snd (evaluateAllocationDriftAlerts rp now newId userId devs w))"
| milestone: "mono now \<Longrightarrow> t \<le> now 0 \<Longrightarrow> \<forall>n. now n \<le> t' \<Longrightarrow> inj newId \<Longrightarrow> \<forall>n. lrows (uw_logs w) (newId n) = None \<Longrightarrow>
    user_alert_step rp arows lrows (t, w) (t', snd (evaluateMilestoneAlerts rp now newId userId v w))"
| performance: "mono now \<Longrightarrow> t \<le> now 0 \<Longrightarrow> \<forall>n. now n \<le> t' \<Longrightarrow> inj newId \<Longrightarrow> \<forall>n. lrows (uw_logs w) (newId n) = None \<Longrightarrow>
    user_alert_step rp arows lrows (t, w) (t', snd (evaluatePerformanceAlerts rp now newId userId v w))"

text \<open>No trigger lies in the future, every logged trigger is at most as late as the last one of its alert, and triggers keep their distance.\<close>

definition spaced_rows :: "(string \<Rightarrow> user_alert option) \<Rightarrow> (string \<Rightarrow> trigger_log option) \<Rightarrow> timestamp \<Rightarrow> bool" where
  "spaced_rows A L t \<longleftrightarrow>
     (\<forall>i a z. A i = Some a \<and> ua_lastTriggeredAt a = Some z \<longrightarrow> z \<le> t) \<and>
     (\<forall>k e. L k = Some e \<longrightarrow> (\<exists>a z. A (tl_alertId e) = Some a \<and> ua_lastTriggeredAt a = Some z \<and> tl_triggeredAt e \<le> z)) \<and>
     (\<forall>k k' e e' a. L k = Some e \<and> L k' = Some e' \<and> k \<noteq> k' \<and> tl_alertId e = tl_alertId e' \<and> A (tl_alertId e) = Some a \<longrightarrow>
       1000 * ua_cooldownSeconds a \<le> \<bar>tl_triggeredAt e - tl_triggeredAt e'\<bar>)"

section \<open>Sample data\<close>

definition calm_alerts :: "(user_alert mem_table, trigger_log mem_table, alert_preference mem_table) alert_repos" where
  "calm_alerts = \<lparr>ur_alerts = calm_table_ops ua_id, ur_logs = calm_table_ops tl_id, ur_prefs = calm_table_ops pf_id\<rparr>"

definition no_alerts :: "(user_alert mem_table, trigger_log mem_table, alert_preference mem_table) alert_world" where
  "no_alerts = \<lparr>uw_alerts = \<lparr>mt_rows = [], mt_faults = []\<rparr>, uw_logs = \<lparr>mt_rows = [], mt_faults = []\<rparr>, uw_prefs = \<lparr>mt_rows = [], mt_faults = []\<rparr>\<rparr>"

definition sample_alert :: alert_dto where
  "sample_alert = \<lparr>ad_userId = ''u1'', ad_asset = ''XLM'', ad_condition = Cond_Above, ad_threshold = 10, ad_cooldownSeconds = Some 60\<rparr>"

definition log_ids :: "char \<Rightarrow> nat \<Rightarrow> string" where
  "log_ids c n = c # replicate n (CHR ''x'')"

definition watched where
  "watched = snd (createPriceAlert calm_alerts ''a1'' sample_alert no_alerts)"

definition triggered_once where
  "triggered_once = snd (evaluatePriceAlerts calm_alerts (\<lambda>n. 1000) (log_ids (CHR ''p'')) ''XLM'' 11 watched)"

definition triggered_twice where
  "triggered_twice = snd (evaluatePriceAlerts calm_alerts (\<lambda>n. 61000) (log_ids (CHR ''q'')) ''XLM'' 12 triggered_once)"

section \<open>Facts\<close>

lemma alert_parts_eq:
  "on_alerts m w = (fst (m (uw_alerts w)), w\<lparr>uw_alerts := snd (m (uw_alerts w))\<rparr>)"
  "on_trigger_logs m1 w = (fst (m1 (uw_logs w)), w\<lparr>uw_logs := snd (m1 (uw_logs w))\<rparr>)"
  "on_prefs m2 w = (fst (m2 (uw_prefs w)), w\<lparr>uw_prefs := snd (m2 (uw_prefs w))\<rparr>)"
  by (simp_all add: on_alerts_def on_trigger_logs_def on_prefs_def on_part_eq)

lemma spaced_later: "spaced_rows A L t \<Longrightarrow> t \<le> t' \<Longrightarrow> spaced_rows A L t'"
  unfolding spaced_rows_def by (meson order_trans)

lemma spaced_new: "spaced_rows A L t \<Longrightarrow> A i = None \<Longrightarrow> ua_lastTriggeredAt a = None \<Longrightarrow> spaced_rows (A(i \<mapsto> a)) L t"
  unfolding spaced_rows_def by (smt (verit) fun_upd_apply option.distinct(1) option.inject)

lemma spaced_same:
  assumes "spaced_rows A L t" "A i = Some a" "ua_lastTriggeredAt a' = ua_lastTriggeredAt a" "ua_cooldownSeconds a' = ua_cooldownSeconds a"
  shows "spaced_rows (A(i \<mapsto> a')) L t"
  using assms unfolding spaced_rows_def by (smt (verit) fun_upd_apply option.inject)

text \<open>A trigger after the cooldown: first the alert is marked, then the entry is logged.\<close>

lemma cooldown_gap: "isCooldownElapsed now a \<longleftrightarrow> (\<forall>z. ua_lastTriggeredAt a = Some z \<longrightarrow> 1000 * ua_cooldownSeconds a \<le> now - z)"
proof -
  have "(of_int (now - z) :: rat) / 1000 \<ge> of_int c \<longleftrightarrow> 1000 * c \<le> now - z" for z c
  proof -
    have "(of_int (now - z) :: rat) / 1000 \<ge> of_int c \<longleftrightarrow> of_int (1000 * c) \<le> (of_int (now - z) :: rat)" by (simp add: field_simps)
    then show ?thesis by (simp only: of_int_le_iff)
  qed
  then show ?thesis by (simp add: isCooldownElapsed_def split: option.splits)
qed

lemma spaced_marked:
  assumes "spaced_rows A L t" "A i = Some a" "t \<le> now"
  shows "spaced_rows (A(i \<mapsto> a\<lparr>ua_lastTriggeredAt := Some now\<rparr>)) L now"
proof -
  have old: "\<And>j b z. A j = Some b \<Longrightarrow> ua_lastTriggeredAt b = Some z \<Longrightarrow> z \<le> t"
    and logs: "\<And>k e. L k = Some e \<Longrightarrow> \<exists>b z. A (tl_alertId e) = Some b \<and> ua_lastTriggeredAt b = Some z \<and> tl_triggeredAt e \<le> z"
    and gaps: "\<And>k k' e e' b. L k = Some e \<Longrightarrow> L k' = Some e' \<Longrightarrow> k \<noteq> k' \<Longrightarrow> tl_alertId e = tl_alertId e' \<Longrightarrow> A (tl_alertId e) = Some b \<Longrightarrow>
       1000 * ua_cooldownSeconds b \<le> \<bar>tl_triggeredAt e - tl_triggeredAt e'\<bar>"
    using assms(1) unfolding spaced_rows_def by blast+
  show ?thesis
    unfolding spaced_rows_def
  proof (intro conjI allI impI; (elim conjE)?)
    fix j b z assume "(A(i \<mapsto> a\<lparr>ua_lastTriggeredAt := Some now\<rparr>)) j = Some b" "ua_lastTriggeredAt b = Some z"
    then show "z \<le> now" using old [of j b z] assms(3) by (auto split: if_splits)
  next
    fix k e assume e: "L k = Some e"
    then obtain b z where b: "A (tl_alertId e) = Some b" "ua_lastTriggeredAt b = Some z" "tl_triggeredAt e \<le> z" using logs by blast
    then have "tl_triggeredAt e \<le> now" using old [OF b(1,2)] assms(3) by simp
    then show "\<exists>b z. (A(i \<mapsto> a\<lparr>ua_lastTriggeredAt := Some now\<rparr>)) (tl_alertId e) = Some b \<and> ua_lastTriggeredAt b = Some z \<and> tl_triggeredAt e \<le> z"
      using b by auto
  next
    fix k k' e e' b
    assume "L k = Some e" "L k' = Some e'" "k \<noteq> k'" "tl_alertId e = tl_alertId e'" "(A(i \<mapsto> a\<lparr>ua_lastTriggeredAt := Some now\<rparr>)) (tl_alertId e) = Some b"
    then show "1000 * ua_cooldownSeconds b \<le> \<bar>tl_triggeredAt e - tl_triggeredAt e'\<bar>"
      using gaps [of k e k' e'] assms(2) by (auto split: if_splits)
  qed
qed

lemma spaced_triggered:
  assumes sp: "spaced_rows A L t" and a: "A i = Some a" "isCooldownElapsed now a" "t \<le> now"
    and e: "L k0 = None" "tl_alertId e0 = i" "tl_triggeredAt e0 = now"
  shows "spaced_rows (A(i \<mapsto> a\<lparr>ua_lastTriggeredAt := Some now\<rparr>)) (L(k0 \<mapsto> e0)) now"
proof -
  let ?A = "A(i \<mapsto> a\<lparr>ua_lastTriggeredAt := Some now\<rparr>)"
  have m: "spaced_rows ?A L now" by (rule spaced_marked [OF sp a(1,3)])
  have gap: "1000 * ua_cooldownSeconds b \<le> \<bar>now - tl_triggeredAt e\<bar>"
    if old: "L k = Some e" "tl_alertId e = i" and b: "?A i = Some b" for k e b
  proof -
    obtain b' z where "A (tl_alertId e) = Some b'" "ua_lastTriggeredAt b' = Some z" "tl_triggeredAt e \<le> z"
      using sp old(1) unfolding spaced_rows_def by blast
    then have "ua_lastTriggeredAt a = Some z" "tl_triggeredAt e \<le> z" using old(2) a(1) by simp_all
    moreover then have "1000 * ua_cooldownSeconds a \<le> now - z" using a(2) by (simp add: cooldown_gap)
    ultimately show ?thesis using b by auto
  qed
  show ?thesis
    unfolding spaced_rows_def
  proof (intro conjI allI impI; (elim conjE)?)
    fix j b z assume "?A j = Some b" "ua_lastTriggeredAt b = Some z"
    then show "z \<le> now" using m unfolding spaced_rows_def by blast
  next
    fix k e assume "(L(k0 \<mapsto> e0)) k = Some e"
    then show "\<exists>b z. ?A (tl_alertId e) = Some b \<and> ua_lastTriggeredAt b = Some z \<and> tl_triggeredAt e \<le> z"
      using m e(2,3) unfolding spaced_rows_def by (cases "k = k0") auto
  next
    fix k k' e e' b
    assume *: "(L(k0 \<mapsto> e0)) k = Some e" "(L(k0 \<mapsto> e0)) k' = Some e'" "k \<noteq> k'" "tl_alertId e = tl_alertId e'" "?A (tl_alertId e) = Some b"
    consider "k = k0" | "k' = k0" | "k \<noteq> k0" "k' \<noteq> k0" by blast
    then show "1000 * ua_cooldownSeconds b \<le> \<bar>tl_triggeredAt e - tl_triggeredAt e'\<bar>"
    proof cases
      case 1
      then show ?thesis using * e gap [of k' e' b] by auto
    next
      case 2
      then show ?thesis using * e gap [of k e b] by (auto simp: abs_minus_commute)
    next
      case 3
      then have "L k = Some e" "L k' = Some e'" using * by simp_all
      then show ?thesis using m *(3-5) unfolding spaced_rows_def by blast
    qed
  qed
qed

lemma snd_bind_return: "snd (io_bind m (\<lambda>x. io_return (f x)) s) = snd (m s)"
  by (simp add: io_bind_run io_return_def split: sum.splits)

context alert_tables
begin

abbreviation spaced :: "timestamp \<Rightarrow> ('a, 'l, 'p) alert_world \<Rightarrow> bool" where
  "spaced t w \<equiv> spaced_rows (arows (uw_alerts w)) (lrows (uw_logs w)) t"

lemma spaced_parts [io_keeps_rules]:
  "io_keeps (spaced t) (on_alerts (to_find (ur_alerts rp) P ord))" "io_keeps (spaced t) (on_trigger_logs (to_find (ur_logs rp) Q ord'))"
  "io_keeps (spaced t) (on_prefs m)"
  by (simp_all add: io_keeps_def alert_parts_eq a.find_rows l.find_rows)

lemma save_alert_rows:
  "arows (uw_alerts (snd (save_alert rp x w))) = arows (uw_alerts w) \<or> arows (uw_alerts (snd (save_alert rp x w))) = (arows (uw_alerts w))(ua_id x \<mapsto> x)"
  "uw_logs (snd (save_alert rp x w)) = uw_logs w"
  by (cases "fst (to_save (ur_alerts rp) x (uw_alerts w))";
      simp add: save_alert_def io_bind_run alert_parts_eq io_return_def a.save_ok a.save_err)+

lemma spaced_create:
  "arows (uw_alerts w) rowId = None \<Longrightarrow> spaced t w \<Longrightarrow> spaced t (snd (save_alert rp (new_alert rowId dto ty asset cond cd) w))"
  using save_alert_rows [of "new_alert rowId dto ty asset cond cd" w] by (auto simp: spaced_new new_alert_def)

lemma spaced_active:
  assumes "spaced t w" "arows (uw_alerts w) (ua_id x) = Some x"
  shows "spaced t (snd (save_alert rp (x\<lparr>ua_active := act\<rparr>) w))"
  using save_alert_rows [of "x\<lparr>ua_active := act\<rparr>" w] assms spaced_same [OF assms, of "x\<lparr>ua_active := act\<rparr>"] by auto

lemma found_alert:
  assumes "fst (on_alerts (to_findOne (ur_alerts rp) P any_order) w) = Inr (Some x)"
  shows "arows (uw_alerts (snd (on_alerts (to_findOne (ur_alerts rp) P any_order) w))) (ua_id x) = Some x"
  using assms a.findOne_some [of P any_order "uw_alerts w" x] by (simp add: alert_parts_eq a.findOne_rows)

lemma spaced_toggle: "spaced t w \<Longrightarrow> spaced t (snd (toggleAlert rp alertId act w))"
  unfolding toggleAlert_def using found_alert [of "\<lambda>x. ua_id x = alertId" w]
  by (auto simp: io_bind_run io_throw_def alert_parts_eq a.findOne_rows intro!: spaced_active split: sum.splits option.splits)

lemma spaced_delete: "spaced t w \<Longrightarrow> spaced t (snd (deleteAlert rp alertId w))"
proof -
  have "snd (deleteAlert rp alertId w) = snd (toggleAlert rp alertId False w)"
    by (simp add: deleteAlert_def toggleAlert_def io_bind_run io_return_def io_throw_def split: sum.splits option.splits)
  then show "spaced t w \<Longrightarrow> ?thesis" by (simp add: spaced_toggle)
qed

lemma spaced_each:
  assumes "\<forall>x \<in> set xs. arows (uw_alerts w) (ua_id x) = Some x" "distinct (map ua_id xs)" "spaced t w" "t \<le> now n"
    and clock: "mono now" "\<forall>k. now k \<le> t'" and ids: "inj newId" "\<forall>k \<ge> n. lrows (uw_logs w) (newId k) = None"
  shows "spaced t' (snd (evaluate_each rp now newId n ty payload xs w))"
  using assms(1-4) ids(2)
proof (induction xs arbitrary: n w t)
  case Nil
  then show ?case using clock(2) by (auto simp: io_return_def intro: spaced_later order_trans)
next
  case (Cons x xs)
  have step: "now n \<le> now (n + 1)" using clock(1) by (simp add: monoD)
  have skip: "spaced t' (snd (evaluate_each rp now newId (n + 1) ty payload xs w))"
    using Cons.prems step by (intro Cons.IH [of w t "n + 1"]) auto
  let ?x = "x\<lparr>ua_lastTriggeredAt := Some (now n)\<rparr>"
  let ?w1 = "snd (on_alerts (to_save (ur_alerts rp) ?x) w)"
  have x: "arows (uw_alerts w) (ua_id x) = Some x" using Cons.prems by simp
  show ?case
  proof (cases "payload x = None \<or> \<not> isCooldownElapsed (now n) x")
    case True
    then show ?thesis using skip by (auto split: option.split)
  next
    case False
    then obtain p where p: "payload x = Some p" and due: "isCooldownElapsed (now n) x" by auto
    let ?e = "\<lparr>tl_id = newId n, tl_alertId = ua_id x, tl_userId = ua_userId x, tl_type = Some ty, tl_payload = p, tl_triggeredAt = now n\<rparr>"
    have run: "evaluate_each rp now newId n ty payload (x # xs) w =
        io_bind (on_alerts (to_save (ur_alerts rp) ?x)) (\<lambda>_. io_bind (on_trigger_logs (to_save (ur_logs rp) ?e)) (\<lambda>_.
          io_bind (evaluate_each rp now newId (n + 1) ty payload xs) (\<lambda>rest. io_return (?e # rest)))) w"
      using p due by (simp add: Let_def)
    show ?thesis
    proof (cases "fst (to_save (ur_alerts rp) ?x (uw_alerts w))")
      case (Inl err)
      then show ?thesis unfolding run using Cons.prems clock(2) a.save_err [OF Inl]
        by (auto simp: io_bind_run alert_parts_eq intro: spaced_later order_trans)
    next
      case (Inr u)
      have rows1: "arows (uw_alerts ?w1) = (arows (uw_alerts w))(ua_id x \<mapsto> ?x)" "uw_logs ?w1 = uw_logs w"
        using a.save_ok [OF Inr] by (simp_all add: alert_parts_eq)
      let ?w2 = "snd (on_trigger_logs (to_save (ur_logs rp) ?e) ?w1)"
      show ?thesis
      proof (cases "fst (to_save (ur_logs rp) ?e (uw_logs ?w1))")
        case err: (Inl err)
        have "spaced (now n) ?w2"
          using spaced_marked [OF Cons.prems(3) x Cons.prems(4)] l.save_err [OF err] rows1 by (simp add: alert_parts_eq)
        then show ?thesis unfolding run using Inr err clock(2)
          by (simp add: io_bind_run alert_parts_eq spaced_later)
      next
        case ok: (Inr v)
        have rows2: "arows (uw_alerts ?w2) = (arows (uw_alerts w))(ua_id x \<mapsto> ?x)" "lrows (uw_logs ?w2) = (lrows (uw_logs w))(newId n \<mapsto> ?e)"
          using l.save_ok [OF ok] rows1 by (simp_all add: alert_parts_eq(2))
        have "lrows (uw_logs w) (newId n) = None" using Cons.prems(5) by simp
        from spaced_triggered [OF Cons.prems(3) x due Cons.prems(4) this, of ?e] have sp2: "spaced (now n) ?w2" by (simp add: rows2)
        have al2: "\<forall>y \<in> set xs. arows (uw_alerts ?w2) (ua_id y) = Some y"
        proof
          fix y assume y: "y \<in> set xs"
          then have "ua_id y \<in> set (map ua_id xs)" by simp
          with Cons.prems(2) have "ua_id y \<noteq> ua_id x" by auto
          with Cons.prems(1) y show "arows (uw_alerts ?w2) (ua_id y) = Some y" unfolding rows2 by simp
        qed
        have ids2: "\<forall>k \<ge> n + 1. lrows (uw_logs ?w2) (newId k) = None" using Cons.prems(5) by (simp add: rows2 inj_eq [OF ids(1)])
        have "distinct (map ua_id xs)" using Cons.prems(2) by simp
        from Cons.IH [OF al2 this sp2 step ids2]
        have "spaced t' (snd (evaluate_each rp now newId (n + 1) ty payload xs ?w2))" .
        moreover have "fst (on_alerts (to_save (ur_alerts rp) ?x) w) = Inr u" by (simp add: alert_parts_eq Inr)
        moreover have "fst (on_trigger_logs (to_save (ur_logs rp) ?e) ?w1) = Inr v" using ok by (simp only: alert_parts_eq fst_conv)
        ultimately show ?thesis unfolding run by (simp only: io_bind_step snd_bind_return)
      qed
    qed
  qed
qed

lemma spaced_evaluation:
  assumes "spaced t w" and clock: "mono now" "t \<le> now 0" "\<forall>k. now k \<le> t'" and ids: "inj newId" "\<forall>k. lrows (uw_logs w) (newId k) = None"
  shows "spaced t' (snd (io_bind (on_alerts (to_find (ur_alerts rp) P any_order)) (evaluate_each rp now newId 0 ty payload) w))"
proof (cases "fst (to_find (ur_alerts rp) P any_order (uw_alerts w))")
  case (Inl e)
  have "t \<le> t'" using clock(2,3) order_trans by blast
  then show ?thesis using assms(1) Inl by (simp add: io_bind_run alert_parts_eq a.find_rows spaced_later)
next
  case (Inr xs)
  let ?w1 = "snd (on_alerts (to_find (ur_alerts rp) P any_order) w)"
  have "arows (uw_alerts ?w1) = arows (uw_alerts w)" "uw_logs ?w1 = uw_logs w" by (simp_all add: alert_parts_eq a.find_rows)
  moreover have "\<forall>x \<in> set xs. arows (uw_alerts w) (ua_id x) = Some x" using a.find_set [OF Inr] a.row_key by auto
  ultimately have "spaced t' (snd (evaluate_each rp now newId 0 ty payload xs ?w1))"
    using assms a.find_distinct [OF Inr] by (intro spaced_each [where t = t]) simp_all
  then show ?thesis using Inr by (simp add: io_bind_run alert_parts_eq)
qed

lemma spaced_step: "user_alert_step rp arows lrows (t, w) (t', w') \<Longrightarrow> spaced t w \<Longrightarrow> spaced t' w'"
proof (induction "(t, w)" "(t', w')" arbitrary: t w t' w' rule: user_alert_step.induct)
  case (of_user t w userId)
  then show ?case by (simp add: getUserAlerts_def io_keepsD [OF spaced_parts(1)])
next
  case (history t w userId ty)
  then show ?case by (simp add: getAlertHistory_def io_keepsD [OF spaced_parts(2)])
next
  case (subscribe t w rowId sdto)
  have "io_keeps (spaced t) (savePreference rp rowId sdto)" unfolding savePreference_def Let_def by (intro io_keeps_rules)
  from io_keepsD [OF this] show ?case using subscribe by blast
next
  case (unsubscribe t w userId)
  have "io_keeps (spaced t) (deletePreference rp userId)" unfolding deletePreference_def by (intro io_keeps_rules)
  from io_keepsD [OF this] show ?case using unsubscribe by blast
qed (simp_all add: createPriceAlert_def createPortfolioAlert_def createAllocationDriftAlert_def createMilestoneAlert_def createPerformanceAlert_def
    spaced_create spaced_toggle spaced_delete getPreference_def io_keepsD [OF spaced_parts(3)] spaced_evaluation
    evaluatePriceAlerts_def evaluateAllocationDriftAlerts_def evaluateMilestoneAlerts_def evaluatePerformanceAlerts_def)

end

interpretation ca: alert_tables calm_alerts "table_row ua_id" "table_row tl_id"
  unfolding alert_tables_def calm_alerts_def alert_repos.simps by (intro conjI ct.sql_table_axioms)

lemma log_ids_inj: "inj (log_ids c)"
  by (rule injI) (auto simp: log_ids_def dest: arg_cong [where f = length])

lemma sample_alert_history:
  "(user_alert_step calm_alerts (table_row ua_id) (table_row tl_id))\<^sup>*\<^sup>* (0, no_alerts) (61000, triggered_twice)"
proof -
  have logs: "uw_logs watched = \<lparr>mt_rows = [], mt_faults = []\<rparr>" "map tl_id (mt_rows (uw_logs triggered_once)) = [''p'']" by code_simp+
  then have "table_row tl_id (uw_logs triggered_once) (log_ids (CHR ''q'') n) = None" for n
    by (auto simp: table_row_def find_None_iff log_ids_def)
  then have "user_alert_step calm_alerts (table_row ua_id) (table_row tl_id) (1000, triggered_once) (61000, triggered_twice)"
    unfolding triggered_twice_def by (intro user_alert_step.price log_ids_inj) (simp_all add: mono_def)
  moreover have "user_alert_step calm_alerts (table_row ua_id) (table_row tl_id) (0, watched) (1000, triggered_once)"
    unfolding triggered_once_def by (intro user_alert_step.price log_ids_inj) (simp_all add: mono_def logs(1) table_row_def)
  moreover have "user_alert_step calm_alerts (table_row ua_id) (table_row tl_id) (0, no_alerts) (0, watched)"
    unfolding watched_def by (rule user_alert_step.create_price) (simp add: no_alerts_def table_row_def)
  ultimately show ?thesis by (meson rtranclp.rtrancl_refl rtranclp.rtrancl_into_rtrancl)
qed

section \<open>Properties\<close>



end
