(* ===== verification/Alert_Dispatcher.thy ===== *)
theory Alert_Dispatcher
  imports User_Alerts Decimal
begin

text \<open>
  Delivery of alerts (growth/alerts/services/): \<open>AlertDispatcherService\<close> drops repeated alerts,
  disabled types, alerts above the hourly limit and in quiet hours, buffers daily digests and delivers
  to the channels of the user with retries; \<open>AlertEvaluationService\<close> and the listeners feed it.
  The e-mail, WebSocket and push services are parameters, calls on a state of their own; so is
  \<^verbatim>\<open>JSON.stringify\<close> of an alert.
\<close>

section \<open>State\<close>

record alert_payload =
  ap_json :: string
  ap_type :: "string option"
  ap_message :: "string option"

record rate_limit_entry =
  rl_count :: int
  rl_windowStart :: timestamp

record digest_entry =
  dg_userId :: string
  dg_payloads :: "alert_payload list"
  dg_channels :: "string list"

record dispatcher =
  dp_fingerprints :: "(string, timestamp) js_map"
  dp_rateLimits :: "(string, rate_limit_entry) js_map"
  dp_digests :: "(string, digest_entry) js_map"

definition new_dispatcher :: dispatcher where
  "new_dispatcher = \<lparr>dp_fingerprints = [], dp_rateLimits = [], dp_digests = []\<rparr>"

record ('a, 'l, 'p, 'o) dispatch_env =
  de_repos :: "('a, 'l, 'p) alert_repos"
  de_email :: "(string \<Rightarrow> string \<Rightarrow> string \<Rightarrow> string \<Rightarrow> ('o, unit) io) option"
  de_socket :: "(string \<Rightarrow> alert_payload \<Rightarrow> ('o, unit) io) option"
  de_push :: "(string \<Rightarrow> string \<Rightarrow> string \<Rightarrow> alert_payload \<Rightarrow> ('o, unit) io) option"
  de_digest_json :: "alert_payload list \<Rightarrow> string"
  de_trigger_json :: "string \<Rightarrow> trigger_log \<Rightarrow> string"

text \<open>\<open>dw_emitted\<close> are the trigger events given to the event emitter.\<close>

record ('a, 'l, 'p, 'o) dispatch_world =
  dw_service :: dispatcher
  dw_tables :: "('a, 'l, 'p) alert_world"
  dw_out :: 'o
  dw_emitted :: "trigger_log list"

definition on_tables :: "(('a, 'l, 'p) alert_world, 'x) io \<Rightarrow> (('a, 'l, 'p, 'o) dispatch_world, 'x) io" where
  "on_tables = on_part dw_tables (\<lambda>d w. w\<lparr>dw_tables := d\<rparr>)"

definition on_out :: "('o, 'x) io \<Rightarrow> (('a, 'l, 'p, 'o) dispatch_world, 'x) io" where
  "on_out = on_part dw_out (\<lambda>d w. w\<lparr>dw_out := d\<rparr>)"

section \<open>Channels\<close>

definition or_text :: "string option \<Rightarrow> string \<Rightarrow> string" where
  "or_text s d = (if truthy s then the s else d)"

definition buildEmailHtml :: "string \<Rightarrow> string \<Rightarrow> string" where
  "buildEmailHtml alertType message =
     (let nl = [char_of (10 :: nat)]; dash = [char_of (226 :: nat), char_of (128 :: nat), char_of (148 :: nat)]
      in nl @ ''      <h2>Alert: '' @ alertType @ ''</h2>'' @ nl @ ''      <p>'' @
         (if message = [] then ''You have a new notification from Alian Structure.'' else message) @ ''</p>'' @ nl @ ''      <hr />'' @ nl @
         ''      <small>Alian Structure API '' @ dash @ '' Notification Service</small>'' @ nl @ ''    '')"

text \<open>One try, what the method does inside its \<^verbatim>\<open>try\<close>; a service that is not there is skipped.\<close>

definition try_channel ::
  "('a, 'l, 'p, 'o) dispatch_env \<Rightarrow> timestamp \<Rightarrow> string \<Rightarrow> string \<Rightarrow> string \<Rightarrow> alert_payload \<Rightarrow>
    (('a, 'l, 'p, 'o) dispatch_world, unit) io" where
  "try_channel env now rowId channel userId payload =
     (if channel = ''in-app'' then
        on_tables (on_trigger_logs (to_save (ur_logs (de_repos env))
          \<lparr>tl_id = rowId, tl_alertId = ''dispatcher'', tl_userId = userId, tl_type = None,
           tl_payload = Dispatched_Alert (ap_json payload) ''in-app'', tl_triggeredAt = now\<rparr>))
      else if channel = ''email'' then
        (case de_email env of
           None \<Rightarrow> io_return ()
         | Some send \<Rightarrow>
             let alertType = or_text (ap_type payload) ''alert''; message = or_text (ap_message payload) []
             in on_out (send userId (''[Alian] Alert: '' @ alertType) (buildEmailHtml alertType message)
                  (if message = [] then ap_json payload else message)))
      else if channel = ''websocket'' then
        (case de_socket env of None \<Rightarrow> io_return () | Some broadcast \<Rightarrow> on_out (broadcast userId payload))
      else if channel = ''push'' then
        (case de_push env of
           None \<Rightarrow> io_return ()
         | Some send \<Rightarrow> on_out (send userId (''Alert: '' @ or_text (ap_type payload) ''Notification'') (or_text (ap_message payload) (ap_json payload)) payload))
      else io_return ())"

text \<open>The waits between the tries take time only. The clock and the ids are those of the try.\<close>

function deliverToChannel ::
  "('a, 'l, 'p, 'o) dispatch_env \<Rightarrow> (nat \<Rightarrow> timestamp) \<Rightarrow> (nat \<Rightarrow> string) \<Rightarrow> string \<Rightarrow> string \<Rightarrow> alert_payload \<Rightarrow> nat \<Rightarrow>
    (('a, 'l, 'p, 'o) dispatch_world, unit) io" where
  "deliverToChannel env now rowId channel userId payload attempt w =
     (case try_channel env (now attempt) (rowId attempt) channel userId payload w of
        (Inr u, w') \<Rightarrow> (Inr (), w')
      | (Inl e, w') \<Rightarrow>
          if attempt < 3 then deliverToChannel env now rowId channel userId payload (attempt + 1) w' else (Inr (), w'))"
  by pat_completeness auto
termination by (relation "measure (\<lambda>(env, now, rowId, channel, userId, payload, attempt, w). 3 - attempt)") auto

declare deliverToChannel.simps [simp del]

text \<open>The loop over the channels; \<open>now n\<close> and \<open>rowId n\<close> belong to the \<open>n\<close>th.\<close>

fun deliver_all ::
  "('a, 'l, 'p, 'o) dispatch_env \<Rightarrow> (nat \<Rightarrow> nat \<Rightarrow> timestamp) \<Rightarrow> (nat \<Rightarrow> nat \<Rightarrow> string) \<Rightarrow> nat \<Rightarrow> string list \<Rightarrow> string \<Rightarrow>
    alert_payload \<Rightarrow> (('a, 'l, 'p, 'o) dispatch_world, unit) io" where
  "deliver_all env now rowId n [] userId payload = io_return ()"
| "deliver_all env now rowId n (channel # channels) userId payload =
     io_bind (deliverToChannel env (now n) (rowId n) channel userId payload 1) (\<lambda>_. deliver_all env now rowId (n + 1) channels userId payload)"

section \<open>Dispatch\<close>

definition isAlertTypeDisabled :: "string \<Rightarrow> string list \<Rightarrow> bool" where
  "isAlertTypeDisabled alertType disabledTypes \<longleftrightarrow>
     list_ex (\<lambda>disabled. includes_str alertType disabled \<or> includes_str disabled alertType) disabledTypes"

definition isInQuietHours :: "int \<Rightarrow> int \<Rightarrow> int \<Rightarrow> bool" where
  "isInQuietHours currentHour start stop =
     (if start \<le> stop then currentHour \<ge> start \<and> currentHour < stop else currentHour \<ge> start \<or> currentHour < stop)"

definition bufferForDigest :: "string \<Rightarrow> alert_payload \<Rightarrow> string list \<Rightarrow> dispatcher \<Rightarrow> dispatcher" where
  "bufferForDigest userId payload channels s =
     s\<lparr>dp_digests :=
       (case Map_get userId (dp_digests s) of
          Some e \<Rightarrow> Map_upd userId (\<lambda>e. e\<lparr>dg_payloads := dg_payloads e @ [payload]\<rparr>) (dp_digests s)
        | None \<Rightarrow> Map_set userId \<lparr>dg_userId = userId, dg_payloads = [payload], dg_channels = channels\<rparr> (dp_digests s))\<rparr>"

definition fingerprint_of :: "timestamp \<Rightarrow> string \<Rightarrow> alert_payload \<Rightarrow> string" where
  "fingerprint_of now userId payload = userId @ '':'' @ ap_json payload @ '':'' @ int_text (now div 300000)"

text \<open>The fixed window of an hour: None when the user is at the limit.\<close>

definition take_hourly :: "timestamp \<Rightarrow> string \<Rightarrow> int \<Rightarrow> dispatcher \<Rightarrow> dispatcher option" where
  "take_hourly now userId rateLimit s =
     (case Map_get userId (dp_rateLimits s) of
        Some entry \<Rightarrow>
          if now - rl_windowStart entry < 3600000
          then if rl_count entry \<ge> rateLimit then None
               else Some (s\<lparr>dp_rateLimits := Map_upd userId (\<lambda>e. e\<lparr>rl_count := rl_count e + 1\<rparr>) (dp_rateLimits s)\<rparr>)
          else Some (s\<lparr>dp_rateLimits := Map_set userId \<lparr>rl_count = 1, rl_windowStart = now\<rparr> (dp_rateLimits s)\<rparr>)
      | None \<Rightarrow> Some (s\<lparr>dp_rateLimits := Map_set userId \<lparr>rl_count = 1, rl_windowStart = now\<rparr> (dp_rateLimits s)\<rparr>))"

text \<open>What follows the query for the preferences, at the time \<open>later\<close> and the local hour \<open>hour\<close>.\<close>

definition dispatch_with ::
  "('a, 'l, 'p, 'o) dispatch_env \<Rightarrow> timestamp \<Rightarrow> int \<Rightarrow> (nat \<Rightarrow> nat \<Rightarrow> timestamp) \<Rightarrow> (nat \<Rightarrow> nat \<Rightarrow> string) \<Rightarrow> string \<Rightarrow> alert_payload \<Rightarrow>
    alert_preference option \<Rightarrow> (('a, 'l, 'p, 'o) dispatch_world, unit) io" where
  "dispatch_with env later hour now rowId userId payload prefs w =
     (let channels = (case prefs of None \<Rightarrow> [''in-app''] | Some p \<Rightarrow> pf_channels p);
          rateLimit = (case prefs of None \<Rightarrow> 10 | Some p \<Rightarrow> pf_rateLimit p);
          quietHoursStart = (case prefs of None \<Rightarrow> None | Some p \<Rightarrow> pf_quietHoursStart p);
          quietHoursEnd = (case prefs of None \<Rightarrow> None | Some p \<Rightarrow> pf_quietHoursEnd p);
          frequency = (case prefs of None \<Rightarrow> Realtime | Some p \<Rightarrow> pf_frequency p);
          disabledTypes = (case prefs of None \<Rightarrow> [] | Some p \<Rightarrow> pf_disabledAlertTypes p)
      in if truthy (ap_type payload) \<and> isAlertTypeDisabled (the (ap_type payload)) disabledTypes then (Inr (), w)
         else case take_hourly later userId rateLimit (dw_service w) of
           None \<Rightarrow> (Inr (), w)
         | Some s \<Rightarrow>
             let w1 = w\<lparr>dw_service := s\<rparr>
             in if quietHoursStart \<noteq> None \<and> quietHoursEnd \<noteq> None \<and> isInQuietHours hour (the quietHoursStart) (the quietHoursEnd) then (Inr (), w1)
                else if frequency = Daily_Digest then (Inr (), w1\<lparr>dw_service := bufferForDigest userId payload channels s\<rparr>)
                else deliver_all env now rowId 0 channels userId payload w1)"

definition dispatch ::
  "('a, 'l, 'p, 'o) dispatch_env \<Rightarrow> timestamp \<Rightarrow> timestamp \<Rightarrow> int \<Rightarrow> (nat \<Rightarrow> nat \<Rightarrow> timestamp) \<Rightarrow> (nat \<Rightarrow> nat \<Rightarrow> string) \<Rightarrow> string \<Rightarrow>
    alert_payload \<Rightarrow> (('a, 'l, 'p, 'o) dispatch_world, unit) io" where
  "dispatch env start later hour now rowId userId payload w =
     (let fingerprint = fingerprint_of start userId payload
      in if Map_has fingerprint (dp_fingerprints (dw_service w)) then (Inr (), w)
         else
           let fps = Map_filter (\<lambda>key ts. \<not> ts < start - 300000) (Map_set fingerprint start (dp_fingerprints (dw_service w)))
           in io_bind (on_tables (getPreference (de_repos env) userId)) (dispatch_with env later hour now rowId userId payload)
                (w\<lparr>dw_service := (dw_service w)\<lparr>dp_fingerprints := fps\<rparr>\<rparr>))"

section \<open>Digests\<close>

definition flushDigest ::
  "('a, 'l, 'p, 'o) dispatch_env \<Rightarrow> (nat \<Rightarrow> nat \<Rightarrow> timestamp) \<Rightarrow> (nat \<Rightarrow> nat \<Rightarrow> string) \<Rightarrow> string \<Rightarrow>
    (('a, 'l, 'p, 'o) dispatch_world, unit) io" where
  "flushDigest env now rowId userId w =
     (case Map_get userId (dp_digests (dw_service w)) of
        None \<Rightarrow> (Inr (), w)
      | Some entry \<Rightarrow>
          if length (dg_payloads entry) = 0 then (Inr (), w)
          else
            let summary = \<lparr>ap_json = de_digest_json env (dg_payloads entry), ap_type = Some ''daily.digest'', ap_message = None\<rparr>
            in io_bind (deliver_all env now rowId 0 (dg_channels entry) userId summary) (\<lambda>_ w1.
                 (Inr (), w1\<lparr>dw_service := (dw_service w1)\<lparr>dp_digests := Map_delete userId (dp_digests (dw_service w1))\<rparr>\<rparr>)) w)"

fun flush_each ::
  "('a, 'l, 'p, 'o) dispatch_env \<Rightarrow> (nat \<Rightarrow> nat \<Rightarrow> nat \<Rightarrow> timestamp) \<Rightarrow> (nat \<Rightarrow> nat \<Rightarrow> nat \<Rightarrow> string) \<Rightarrow> nat \<Rightarrow> string list \<Rightarrow>
    (('a, 'l, 'p, 'o) dispatch_world, unit) io" where
  "flush_each env now rowId k [] = io_return ()"
| "flush_each env now rowId k (userId # users) =
     io_bind (flushDigest env (now k) (rowId k) userId) (\<lambda>_. flush_each env now rowId (k + 1) users)"

definition flushAllDigests ::
  "('a, 'l, 'p, 'o) dispatch_env \<Rightarrow> (nat \<Rightarrow> nat \<Rightarrow> nat \<Rightarrow> timestamp) \<Rightarrow> (nat \<Rightarrow> nat \<Rightarrow> nat \<Rightarrow> string) \<Rightarrow>
    (('a, 'l, 'p, 'o) dispatch_world, unit) io" where
  "flushAllDigests env now rowId w = flush_each env now rowId 0 (Map_keys (dp_digests (dw_service w))) w"

definition getDigestBufferSize :: "string \<Rightarrow> dispatcher \<Rightarrow> nat" where
  "getDigestBufferSize userId s = (case Map_get userId (dp_digests s) of None \<Rightarrow> 0 | Some e \<Rightarrow> length (dg_payloads e))"

section \<open>Evaluation and listeners\<close>

text \<open>The clocks and ids of one dispatch.\<close>

record dispatch_clock =
  dc_start :: timestamp
  dc_later :: timestamp
  dc_hour :: int
  dc_now :: "nat \<Rightarrow> nat \<Rightarrow> timestamp"
  dc_rowId :: "nat \<Rightarrow> nat \<Rightarrow> string"

definition dispatch_at ::
  "('a, 'l, 'p, 'o) dispatch_env \<Rightarrow> dispatch_clock \<Rightarrow> string \<Rightarrow> alert_payload \<Rightarrow> (('a, 'l, 'p, 'o) dispatch_world, unit) io" where
  "dispatch_at env c = dispatch env (dc_start c) (dc_later c) (dc_hour c) (dc_now c) (dc_rowId c)"

fun dispatchTriggered ::
  "('a, 'l, 'p, 'o) dispatch_env \<Rightarrow> (nat \<Rightarrow> dispatch_clock) \<Rightarrow> nat \<Rightarrow> trigger_log list \<Rightarrow> string \<Rightarrow> (('a, 'l, 'p, 'o) dispatch_world, unit) io" where
  "dispatchTriggered env clock k [] eventSuffix = io_return ()"
| "dispatchTriggered env clock k (e # entries) eventSuffix =
     (let eventType = ''portfolio.'' @ eventSuffix
      in io_bind (dispatch_at env (clock k) (tl_userId e) \<lparr>ap_json = de_trigger_json env eventType e, ap_type = Some eventType, ap_message = None\<rparr>) (\<lambda>_.
           io_bind (\<lambda>w. (Inr (), w\<lparr>dw_emitted := dw_emitted w @ [e]\<rparr>)) (\<lambda>_. dispatchTriggered env clock (k + 1) entries eventSuffix)))"

definition handlePriceUpdate ::
  "('a, 'l, 'p, 'o) dispatch_env \<Rightarrow> (nat \<Rightarrow> timestamp) \<Rightarrow> (nat \<Rightarrow> string) \<Rightarrow> (nat \<Rightarrow> dispatch_clock) \<Rightarrow> string \<Rightarrow> rat \<Rightarrow>
    (('a, 'l, 'p, 'o) dispatch_world, unit) io" where
  "handlePriceUpdate env now newId clock asset price =
     io_bind (on_tables (evaluatePriceAlerts (de_repos env) now newId asset price)) (\<lambda>triggered.
       dispatchTriggered env clock 0 triggered ''price.updated'')"

definition handleAllocationUpdate ::
  "('a, 'l, 'p, 'o) dispatch_env \<Rightarrow> (nat \<Rightarrow> timestamp) \<Rightarrow> (nat \<Rightarrow> string) \<Rightarrow> (nat \<Rightarrow> dispatch_clock) \<Rightarrow> string \<Rightarrow> (string, rat) js_map \<Rightarrow>
    (('a, 'l, 'p, 'o) dispatch_world, unit) io" where
  "handleAllocationUpdate env now newId clock userId deviations =
     io_bind (on_tables (evaluateAllocationDriftAlerts (de_repos env) now newId userId deviations)) (\<lambda>triggered.
       dispatchTriggered env clock 0 triggered ''allocation.drift'')"

definition handlePortfolioValueUpdate ::
  "('a, 'l, 'p, 'o) dispatch_env \<Rightarrow> (nat \<Rightarrow> timestamp) \<Rightarrow> (nat \<Rightarrow> string) \<Rightarrow> (nat \<Rightarrow> dispatch_clock) \<Rightarrow> string \<Rightarrow> rat \<Rightarrow>
    (('a, 'l, 'p, 'o) dispatch_world, unit) io" where
  "handlePortfolioValueUpdate env now newId clock userId portfolioValue =
     io_bind (on_tables (evaluateMilestoneAlerts (de_repos env) now newId userId portfolioValue)) (\<lambda>triggered.
       dispatchTriggered env clock 0 triggered ''milestone.reached'')"

definition handlePerformanceUpdate ::
  "('a, 'l, 'p, 'o) dispatch_env \<Rightarrow> (nat \<Rightarrow> timestamp) \<Rightarrow> (nat \<Rightarrow> string) \<Rightarrow> (nat \<Rightarrow> dispatch_clock) \<Rightarrow> string \<Rightarrow> rat \<Rightarrow>
    (('a, 'l, 'p, 'o) dispatch_world, unit) io" where
  "handlePerformanceUpdate env now newId clock userId performancePct =
     io_bind (on_tables (evaluatePerformanceAlerts (de_repos env) now newId userId performancePct)) (\<lambda>triggered.
       dispatchTriggered env clock 0 triggered ''performance.significant'')"

text \<open>The listeners dispatch an alert under a fixed type, which is part of \<open>json\<close>.\<close>

definition listener_dispatch ::
  "('a, 'l, 'p, 'o) dispatch_env \<Rightarrow> dispatch_clock \<Rightarrow> string \<Rightarrow> string \<Rightarrow> string \<Rightarrow> string option \<Rightarrow> (('a, 'l, 'p, 'o) dispatch_world, unit) io" where
  "listener_dispatch env c eventType userId json message =
     dispatch_at env c userId \<lparr>ap_json = json, ap_type = Some eventType, ap_message = message\<rparr>"

definition handleRebalanced ::
  "('a, 'l, 'p, 'o) dispatch_env \<Rightarrow> dispatch_clock \<Rightarrow> string option \<Rightarrow> string \<Rightarrow> string \<Rightarrow> string option \<Rightarrow> (('a, 'l, 'p, 'o) dispatch_world, unit) io" where
  "handleRebalanced env c own_type = listener_dispatch env c (nullish own_type ''portfolio.rebalanced'')"

definition handleAllocationDrift ::
  "('a, 'l, 'p, 'o) dispatch_env \<Rightarrow> dispatch_clock \<Rightarrow> string \<Rightarrow> string \<Rightarrow> (('a, 'l, 'p, 'o) dispatch_world, unit) io" where
  "handleAllocationDrift env c userId json = listener_dispatch env c ''portfolio.allocation.drift'' userId json None"

definition handleMilestoneReached ::
  "('a, 'l, 'p, 'o) dispatch_env \<Rightarrow> dispatch_clock \<Rightarrow> string \<Rightarrow> string \<Rightarrow> (('a, 'l, 'p, 'o) dispatch_world, unit) io" where
  "handleMilestoneReached env c userId json = listener_dispatch env c ''portfolio.milestone.reached'' userId json None"

definition handlePerformanceSignificant ::
  "('a, 'l, 'p, 'o) dispatch_env \<Rightarrow> dispatch_clock \<Rightarrow> string \<Rightarrow> string \<Rightarrow> (('a, 'l, 'p, 'o) dispatch_world, unit) io" where
  "handlePerformanceSignificant env c userId json = listener_dispatch env c ''portfolio.performance.significant'' userId json None"

definition handle_risk ::
  "('a, 'l, 'p, 'o) dispatch_env \<Rightarrow> dispatch_clock \<Rightarrow> string option \<Rightarrow> string \<Rightarrow> string \<Rightarrow> string option \<Rightarrow> (('a, 'l, 'p, 'o) dispatch_world, unit) io" where
  "handle_risk env c own_type = listener_dispatch env c (nullish own_type ''risk.threshold.breached'')"

section \<open>Specification\<close>

text \<open>What may happen between two dispatches of one five-minute slot; the outside may change all but the maps of the dispatcher.\<close>

inductive slot_step ::
  "('a, 'l, 'p, 'o) dispatch_env \<Rightarrow> int \<Rightarrow> ('a, 'l, 'p, 'o) dispatch_world \<Rightarrow> ('a, 'l, 'p, 'o) dispatch_world \<Rightarrow> bool"
  for env slot where
  dispatched: "start div 300000 = slot \<Longrightarrow> slot_step env slot w (snd (dispatch env start later hour now rowId userId payload w))"
| flushed: "slot_step env slot w (snd (flushDigest env now rowId userId w))"
| all_flushed: "slot_step env slot w (snd (flushAllDigests env now' rowId' w))"
| outside: "dw_service w' = dw_service w \<Longrightarrow> slot_step env slot w w'"

text \<open>The first \<open>n\<close> tries of a channel.\<close>

definition after_tries ::
  "('a, 'l, 'p, 'o) dispatch_env \<Rightarrow> (nat \<Rightarrow> timestamp) \<Rightarrow> (nat \<Rightarrow> string) \<Rightarrow> string \<Rightarrow> string \<Rightarrow> alert_payload \<Rightarrow> nat \<Rightarrow>
    ('a, 'l, 'p, 'o) dispatch_world \<Rightarrow> ('a, 'l, 'p, 'o) dispatch_world" where
  "after_tries env now rowId channel userId payload n w = foldl (\<lambda>w k. snd (try_channel env (now k) (rowId k) channel userId payload w)) w [1..<Suc n]"

definition alert_type_text :: "alert_type \<Rightarrow> string" where
  "alert_type_text ty =
     (case ty of Price_Alert \<Rightarrow> ''price'' | Portfolio_Alert \<Rightarrow> ''portfolio'' | Liquidation_Alert \<Rightarrow> ''liquidation''
      | Drift_Alert \<Rightarrow> ''allocation_drift'' | Milestone_Alert \<Rightarrow> ''milestone'' | Performance_Alert \<Rightarrow> ''performance'')"

section \<open>Sample data\<close>

text \<open>An e-mail service that never answers; the state counts the calls.\<close>

definition dead_mail_env ::
  "(user_alert mem_table, trigger_log mem_table, alert_preference mem_table, nat) dispatch_env" where
  "dead_mail_env = \<lparr>de_repos = calm_alerts, de_email = Some (\<lambda>to subject html text n. (Inl (PlainError ''down''), n + 1)),
     de_socket = None, de_push = None, de_digest_json = (\<lambda>ps. ''digest''), de_trigger_json = (\<lambda>ty e. ty)\<rparr>"

definition quiet_world ::
  "(user_alert mem_table, trigger_log mem_table, alert_preference mem_table, nat) dispatch_world" where
  "quiet_world = \<lparr>dw_service = new_dispatcher, dw_tables = no_alerts, dw_out = 0, dw_emitted = []\<rparr>"

definition sample_alert_payload :: alert_payload where
  "sample_alert_payload = \<lparr>ap_json = ''{}'', ap_type = Some ''portfolio.rebalanced'', ap_message = None\<rparr>"

definition sample_row_ids :: "nat \<Rightarrow> nat \<Rightarrow> string" where
  "sample_row_ids n k = log_ids (CHR ''r'') (n + k)"

section \<open>Facts\<close>

lemma dispatch_parts_eq:
  "on_tables m w = (fst (m (dw_tables w)), w\<lparr>dw_tables := snd (m (dw_tables w))\<rparr>)"
  "on_out m1 w = (fst (m1 (dw_out w)), w\<lparr>dw_out := snd (m1 (dw_out w))\<rparr>)"
  by (simp_all add: on_tables_def on_out_def on_part_eq)

lemma try_service: "dw_service (snd (try_channel env t i channel userId payload w)) = dw_service w"
  by (auto simp: try_channel_def dispatch_parts_eq io_return_def Let_def split: option.splits)

lemma deliver_service: "dw_service (snd (deliverToChannel env now rowId channel userId payload k w)) = dw_service w"
proof (induction env now rowId channel userId payload k w rule: deliverToChannel.induct)
  case (1 env now rowId channel userId payload k w)
  obtain r w' where t: "try_channel env (now k) (rowId k) channel userId payload w = (r, w')" by (cases "try_channel env (now k) (rowId k) channel userId payload w")
  have "dw_service w' = dw_service w" using try_service [of env "now k" "rowId k" channel userId payload w] t by simp
  then show ?case using 1 t by (subst deliverToChannel.simps) (auto split: sum.split)
qed

lemma deliver_returns: "fst (deliverToChannel env now rowId channel userId payload k w) = Inr ()"
proof (induction env now rowId channel userId payload k w rule: deliverToChannel.induct)
  case (1 env now rowId channel userId payload k w)
  then show ?case by (subst deliverToChannel.simps) (auto split: sum.split prod.split)
qed

lemma deliver_all_service: "dw_service (snd (deliver_all env now rowId n channels userId payload w)) = dw_service w"
  by (induction channels arbitrary: n w) (simp_all add: io_return_def io_bind_run deliver_returns deliver_service)

lemma deliver_all_returns: "fst (deliver_all env now rowId n channels userId payload w) = Inr ()"
  by (induction channels arbitrary: n w) (simp_all add: io_return_def io_bind_run deliver_returns)

lemma take_hourly_fingerprints: "take_hourly t userId l s = Some s' \<Longrightarrow> dp_fingerprints s' = dp_fingerprints s"
  by (auto simp: take_hourly_def split: option.splits if_splits)

lemma dispatch_with_fingerprints:
  "dp_fingerprints (dw_service (snd (dispatch_with env later hour now rowId userId payload prefs w))) = dp_fingerprints (dw_service w)"
  by (auto simp: dispatch_with_def Let_def deliver_all_service bufferForDigest_def take_hourly_fingerprints
      simp del: deliver_all.simps split: option.split)

lemma dispatch_with_returns: "fst (dispatch_with env later hour now rowId userId payload prefs w) = Inr ()"
  by (auto simp: dispatch_with_def Let_def deliver_all_returns simp del: deliver_all.simps split: option.split)

lemma flush_fingerprints: "dp_fingerprints (dw_service (snd (flushDigest env now rowId userId w))) = dp_fingerprints (dw_service w)"
  by (auto simp: flushDigest_def Let_def io_bind_run deliver_all_service deliver_all_returns split: option.split sum.split)

lemma flush_returns: "fst (flushDigest env now rowId userId w) = Inr ()"
  by (auto simp: flushDigest_def Let_def io_bind_run deliver_all_returns split: option.split sum.split)

lemma flush_each_fingerprints: "dp_fingerprints (dw_service (snd (flush_each env now rowId k users w))) = dp_fingerprints (dw_service w)"
  by (induction users arbitrary: k w) (simp_all add: io_return_def io_bind_run flush_returns flush_fingerprints)

lemma Map_get_filter_keep: "Map_get k m = Some v \<Longrightarrow> P k v \<Longrightarrow> Map_get k (Map_filter P m) = Some v"
  by (induction m) (auto simp: Map_get_def Map_filter_def split: if_splits)

lemma dispatch_fingerprints:
  "dp_fingerprints (dw_service (snd (dispatch env start later hour now rowId userId payload w))) =
    (if Map_has (fingerprint_of start userId payload) (dp_fingerprints (dw_service w)) then dp_fingerprints (dw_service w)
     else Map_filter (\<lambda>key ts. \<not> ts < start - 300000) (Map_set (fingerprint_of start userId payload) start (dp_fingerprints (dw_service w))))"
  by (auto simp: dispatch_def Let_def io_bind_run dispatch_parts_eq dispatch_with_fingerprints split: sum.split)

lemma slot_keeps:
  assumes "slot_step env slot w w'" "Map_get fp (dp_fingerprints (dw_service w)) = Some ts" "ts div 300000 = slot"
  shows "\<exists>ts'. Map_get fp (dp_fingerprints (dw_service w')) = Some ts' \<and> ts' div 300000 = slot"
  using assms(1)
proof cases
  case (dispatched start later hour now rowId userId payload)
  let ?m = "Map_set (fingerprint_of start userId payload) start (dp_fingerprints (dw_service w))"
  obtain t where t: "Map_get fp ?m = Some t" "t div 300000 = slot"
    using assms(2,3) dispatched(2) by (cases "fp = fingerprint_of start userId payload") simp_all
  have "\<not> t < start - 300000" using t(2) dispatched(2) by presburger
  from Map_get_filter_keep [OF t(1), of "\<lambda>key ts. \<not> ts < start - 300000"] this
  have "Map_get fp (Map_filter (\<lambda>key ts. \<not> ts < start - 300000) ?m) = Some t" by simp
  then show ?thesis using assms(2,3) t(2) unfolding dispatched(1) dispatch_fingerprints by auto
qed (use assms(2,3) in \<open>auto simp: flush_fingerprints flushAllDigests_def flush_each_fingerprints\<close>)

lemma slot_keeps_all:
  assumes "(slot_step env slot)\<^sup>*\<^sup>* w w'" "Map_get fp (dp_fingerprints (dw_service w)) = Some ts" "ts div 300000 = slot"
  shows "\<exists>ts'. Map_get fp (dp_fingerprints (dw_service w')) = Some ts' \<and> ts' div 300000 = slot"
  using assms by (induction rule: rtranclp_induct) (auto dest: slot_keeps)

lemma after_tries_Suc: "after_tries env now rowId channel userId payload (Suc n) w =
    snd (try_channel env (now (Suc n)) (rowId (Suc n)) channel userId payload (after_tries env now rowId channel userId payload n w))"
  by (simp add: after_tries_def)

lemma deliver_tries:
  assumes "1 \<le> k" "k \<le> 3"
  shows "\<exists>n \<le> 3. k \<le> n \<and> snd (deliverToChannel env now rowId channel userId payload k (after_tries env now rowId channel userId payload (k - 1) w)) =
      after_tries env now rowId channel userId payload n w \<and>
    (n < 3 \<longrightarrow> fst (try_channel env (now n) (rowId n) channel userId payload (after_tries env now rowId channel userId payload (n - 1) w)) = Inr ())"
  using assms
proof (induction "3 - k" arbitrary: k)
  case 0
  then have k: "k = 3" by simp
  have "snd (deliverToChannel env now rowId channel userId payload k (after_tries env now rowId channel userId payload (k - 1) w)) =
      after_tries env now rowId channel userId payload 3 w"
    using after_tries_Suc [of env now rowId channel userId payload 2 w]
    by (subst deliverToChannel.simps) (auto simp: k numeral_3_eq_3 numeral_2_eq_2 split: sum.split prod.split)
  then show ?case using k by (intro exI [of _ 3]) simp
next
  case (Suc m)
  let ?w = "after_tries env now rowId channel userId payload (k - 1) w"
  let ?t = "try_channel env (now k) (rowId k) channel userId payload ?w"
  have next_state: "snd ?t = after_tries env now rowId channel userId payload k w"
    using after_tries_Suc [of env now rowId channel userId payload "k - 1" w] Suc.prems by simp
  show ?case
  proof (cases "fst ?t")
    case (Inl e)
    then have "deliverToChannel env now rowId channel userId payload k ?w =
        deliverToChannel env now rowId channel userId payload (k + 1) (after_tries env now rowId channel userId payload k w)"
      using Suc.hyps(2) next_state by (subst deliverToChannel.simps) (auto simp: prod_eq_iff split: prod.split)
    moreover have "m = 3 - (k + 1)" "1 \<le> k + 1" "k + 1 \<le> 3" using Suc.hyps(2) by simp_all
    note Suc.hyps(1) [OF this]
    ultimately show ?thesis by (metis Suc_eq_plus1 Suc_leD diff_Suc_1)
  next
    case (Inr u)
    then have "snd (deliverToChannel env now rowId channel userId payload k ?w) = after_tries env now rowId channel userId payload k w"
      using next_state by (subst deliverToChannel.simps) (auto split: prod.split)
    then show ?thesis using Inr Suc.prems by (intro exI [of _ k]) simp
  qed
qed

section \<open>Properties\<close>

text \<open>
  C18. A repeated alert is dropped: within the five-minute slot of an alert that was dispatched, and whatever
  became of it, dispatching it to the same user again does nothing at all, after any other dispatches,
  flushes and changes outside the dispatcher.
\<close>

theorem duplicate_alert_dropped:
  assumes fresh: "Map_get (fingerprint_of start userId payload) (dp_fingerprints (dw_service w)) = None"
    and between: "(slot_step env (start div 300000))\<^sup>*\<^sup>* (snd (dispatch env start later hour now rowId userId payload w)) w'"
    and again: "start' div 300000 = start div 300000" "ap_json payload' = ap_json payload"
  shows "dispatch env start' later' hour' now' rowId' userId payload' w' = (Inr (), w')"
proof -
  let ?fp = "fingerprint_of start userId payload"
  have "Map_get ?fp (dp_fingerprints (dw_service (snd (dispatch env start later hour now rowId userId payload w)))) = Some start"
    using fresh by (auto simp: dispatch_fingerprints intro: Map_get_filter_keep)
  from slot_keeps_all [OF between this] have "\<exists>ts. Map_get ?fp (dp_fingerprints (dw_service w')) = Some ts" by auto
  moreover have "fingerprint_of start' userId payload' = ?fp" using again by (simp add: fingerprint_of_def)
  ultimately show ?thesis by (simp add: dispatch_def)
qed

theorem duplicate_alert_dropped_witness:
  "let w = snd (dispatch dead_mail_env 600000 600001 12 (\<lambda>n k. 600002) sample_row_ids ''u1'' sample_alert_payload quiet_world)
   in dispatch dead_mail_env 899999 899999 12 (\<lambda>n k. 899999) sample_row_ids ''u1'' sample_alert_payload w = (Inr (), w) \<and>
     length (mt_rows (uw_logs (dw_tables w))) = 1"
proof -
  let ?w = "snd (dispatch dead_mail_env 600000 600001 12 (\<lambda>n k. 600002) sample_row_ids ''u1'' sample_alert_payload quiet_world)"
  have "dispatch dead_mail_env 899999 899999 12 (\<lambda>n k. 899999) sample_row_ids ''u1'' sample_alert_payload ?w = (Inr (), ?w)"
    by (rule duplicate_alert_dropped [OF _ rtranclp.rtrancl_refl]) (simp_all add: quiet_world_def new_dispatcher_def)
  moreover have "length (mt_rows (uw_logs (dw_tables ?w))) = 1" by code_simp
  ultimately show ?thesis by (simp add: Let_def)
qed

text \<open>
  C20. A failing channel is contained: whatever the channels and the tables do, a dispatch throws only what the
  query for the preferences throws, and each channel is tried once, twice or three times, fewer than
  three times only when the last try succeeded.
\<close>

theorem failing_channel_contained:
  "(case fst (getPreference (de_repos env) userId (dw_tables w)) of
      Inr p \<Rightarrow> fst (dispatch env start later hour now rowId userId payload w) = Inr ()
    | Inl e \<Rightarrow> fst (dispatch env start later hour now rowId userId payload w) \<in> {Inr (), Inl e}) \<and>
   (\<exists>n. n \<in> {1..3} \<and> deliverToChannel env at_time ids channel userId payload 1 w = (Inr (), after_tries env at_time ids channel userId payload n w) \<and>
      (n = 3 \<or> fst (try_channel env (at_time n) (ids n) channel userId payload (after_tries env at_time ids channel userId payload (n - 1) w)) = Inr ()))"
proof
  show "case fst (getPreference (de_repos env) userId (dw_tables w)) of
      Inr p \<Rightarrow> fst (dispatch env start later hour now rowId userId payload w) = Inr ()
    | Inl e \<Rightarrow> fst (dispatch env start later hour now rowId userId payload w) \<in> {Inr (), Inl e}"
    by (auto simp: dispatch_def Let_def io_bind_run dispatch_parts_eq dispatch_with_returns split: sum.split)
  have zero: "after_tries env at_time ids channel userId payload (1 - 1) w = w" by (simp add: after_tries_def)
  obtain n where
    "n \<le> 3" "1 \<le> n" "snd (deliverToChannel env at_time ids channel userId payload 1 w) = after_tries env at_time ids channel userId payload n w"
    "n < 3 \<longrightarrow> fst (try_channel env (at_time n) (ids n) channel userId payload (after_tries env at_time ids channel userId payload (n - 1) w)) = Inr ()"
    using deliver_tries [of 1 env at_time ids channel userId payload w, unfolded zero] by auto
  then show "\<exists>n. n \<in> {1..3} \<and> deliverToChannel env at_time ids channel userId payload 1 w = (Inr (), after_tries env at_time ids channel userId payload n w) \<and>
      (n = 3 \<or> fst (try_channel env (at_time n) (ids n) channel userId payload (after_tries env at_time ids channel userId payload (n - 1) w)) = Inr ())"
    by (intro exI [of _ n]) (auto simp: prod_eq_iff deliver_returns)
qed

text \<open>
  Which type a user disables suppresses which alert: the type of drift alerts is spelt with an
  underscore and that of their events with a dot, so that it suppresses nothing; neither does any type
  suppress the alerts of the risk service.
\<close>

lemma disabled_types_exact:
  "map (\<lambda>event. filter (\<lambda>ty. isAlertTypeDisabled event [alert_type_text ty])
      [Price_Alert, Portfolio_Alert, Liquidation_Alert, Drift_Alert, Milestone_Alert, Performance_Alert])
    [''portfolio.price.updated'', ''portfolio.rebalanced'', ''portfolio.allocation.drift'', ''portfolio.milestone.reached'',
     ''portfolio.performance.significant'', ''risk.threshold.breached''] =
   [[Price_Alert, Portfolio_Alert], [Portfolio_Alert], [Portfolio_Alert], [Portfolio_Alert, Milestone_Alert],
    [Portfolio_Alert, Performance_Alert], []]"
  by code_simp

end
