(* ===== verification/Notification_Preferences.thy ===== *)
theory Notification_Preferences
  imports Sql_Table
begin

text \<open>
  Notification preferences (notifications/services/notification-preference.service.ts): what a user
  wants to receive in which category over which channel. The table and the collation
  of the database are parameters.
\<close>

section \<open>Data\<close>

text \<open>The channel of a row is any text; the enum has the texts that have a provider.\<close>

datatype notification_channel = Ch_Email | Ch_Sms | Ch_Push | Ch_Webhook | Ch_In_App

datatype notification_category =
  Cat_System | Cat_Security | Cat_Transaction | Cat_Portfolio | Cat_Alert | Cat_Marketing | Cat_Social | Cat_Billing | Cat_Compliance

datatype channel_preference = Pref_Enabled | Pref_Disabled | Pref_Digest

record notification_preference =
  np_id :: string
  np_userId :: string
  np_category :: notification_category
  np_channel :: string
  np_preference :: channel_preference
  np_digestFrequency :: "string option"
  np_quietHoursStart :: "int option"
  np_quietHoursEnd :: "int option"
  np_timezone :: "string option"
  np_emailAddress :: "string option"
  np_phoneNumber :: "string option"
  np_pushToken :: "string option"
  np_webhookUrl :: "string option"
  np_minPriority :: "string option"
  np_active :: bool
  np_metadata :: "string option"

definition channel_text :: "notification_channel \<Rightarrow> string" where
  "channel_text c =
     (case c of Ch_Email \<Rightarrow> ''email'' | Ch_Sms \<Rightarrow> ''sms'' | Ch_Push \<Rightarrow> ''push'' | Ch_Webhook \<Rightarrow> ''webhook'' | Ch_In_App \<Rightarrow> ''in_app'')"

definition all_channels :: "string list" where
  "all_channels = map channel_text [Ch_Email, Ch_Sms, Ch_Push, Ch_Webhook, Ch_In_App]"

definition all_categories :: "notification_category list" where
  "all_categories = [Cat_System, Cat_Security, Cat_Transaction, Cat_Portfolio, Cat_Alert, Cat_Marketing, Cat_Social, Cat_Billing, Cat_Compliance]"

text \<open>The object a repository creates: what is not given is null or the default of its column.\<close>

definition blank_preference :: "string \<Rightarrow> string \<Rightarrow> notification_category \<Rightarrow> string \<Rightarrow> channel_preference \<Rightarrow> notification_preference" where
  "blank_preference rowId userId category channel pref =
     \<lparr>np_id = rowId, np_userId = userId, np_category = category, np_channel = channel, np_preference = pref, np_digestFrequency = None,
      np_quietHoursStart = None, np_quietHoursEnd = None, np_timezone = None, np_emailAddress = None, np_phoneNumber = None,
      np_pushToken = None, np_webhookUrl = None, np_minPriority = None, np_active = True, np_metadata = None\<rparr>"

record update_preference_dto =
  up_category :: notification_category
  up_channel :: string
  up_preference :: channel_preference
  up_digestFrequency :: "string option"
  up_quietHoursStart :: "int option"
  up_quietHoursEnd :: "int option"
  up_timezone :: "string option"
  up_emailAddress :: "string option"
  up_phoneNumber :: "string option"
  up_pushToken :: "string option"
  up_webhookUrl :: "string option"
  up_minPriority :: "string option"
  up_active :: "bool option"
  up_metadata :: "string option"

section \<open>Operations\<close>

definition same_slot :: "string \<Rightarrow> notification_category \<Rightarrow> string \<Rightarrow> notification_preference \<Rightarrow> bool" where
  "same_slot userId category channel p \<longleftrightarrow> np_userId p = userId \<and> np_category p = category \<and> np_channel p = channel"

definition category_index :: "notification_category \<Rightarrow> int" where
  "category_index c =
     (case c of Cat_System \<Rightarrow> 0 | Cat_Security \<Rightarrow> 1 | Cat_Transaction \<Rightarrow> 2 | Cat_Portfolio \<Rightarrow> 3 | Cat_Alert \<Rightarrow> 4
      | Cat_Marketing \<Rightarrow> 5 | Cat_Social \<Rightarrow> 6 | Cat_Billing \<Rightarrow> 7 | Cat_Compliance \<Rightarrow> 8)"

definition by_category_channel :: "(string \<Rightarrow> string \<Rightarrow> int) \<Rightarrow> notification_preference \<Rightarrow> notification_preference \<Rightarrow> int" where
  "by_category_channel collate p q =
     or_else (category_index (np_category p) - category_index (np_category q)) (collate (np_channel p) (np_channel q))"

definition getPreferences ::
  "('p, notification_preference) table_ops \<Rightarrow> (string \<Rightarrow> string \<Rightarrow> int) \<Rightarrow> string \<Rightarrow> ('p, notification_preference list) io" where
  "getPreferences ops collate userId = to_find ops (\<lambda>p. np_userId p = userId) (by_category_channel collate)"

definition getPreference_of ::
  "('p, notification_preference) table_ops \<Rightarrow> string \<Rightarrow> notification_category \<Rightarrow> string \<Rightarrow> ('p, notification_preference option) io" where
  "getPreference_of ops userId category channel = to_findOne ops (same_slot userId category channel) any_order"

text \<open>What an update leaves out is undefined: a row that is saved keeps its columns, and a new one gets the defaults.\<close>

definition assign_preference :: "update_preference_dto \<Rightarrow> notification_preference \<Rightarrow> notification_preference" where
  "assign_preference dto p =
     (let given = (\<lambda>new old. case new of None \<Rightarrow> old | Some x \<Rightarrow> Some x);
          given_hour = (\<lambda>new old. case new of None \<Rightarrow> old | Some x \<Rightarrow> Some x)
      in p\<lparr>np_preference := up_preference dto, np_digestFrequency := given (up_digestFrequency dto) (np_digestFrequency p),
           np_quietHoursStart := given_hour (up_quietHoursStart dto) (np_quietHoursStart p),
           np_quietHoursEnd := given_hour (up_quietHoursEnd dto) (np_quietHoursEnd p),
           np_timezone := given (up_timezone dto) (np_timezone p), np_emailAddress := given (up_emailAddress dto) (np_emailAddress p),
           np_phoneNumber := given (up_phoneNumber dto) (np_phoneNumber p), np_pushToken := given (up_pushToken dto) (np_pushToken p),
           np_webhookUrl := given (up_webhookUrl dto) (np_webhookUrl p), np_minPriority := given (up_minPriority dto) (np_minPriority p),
           np_active := nullish (up_active dto) (np_active p), np_metadata := given (up_metadata dto) (np_metadata p)\<rparr>)"

definition updatePreference ::
  "('p, notification_preference) table_ops \<Rightarrow> string \<Rightarrow> string \<Rightarrow> update_preference_dto \<Rightarrow> ('p, notification_preference) io" where
  "updatePreference ops rowId userId dto =
     io_bind (to_findOne ops (same_slot userId (up_category dto) (up_channel dto)) any_order) (\<lambda>found.
       let base = (case found of Some p \<Rightarrow> p | None \<Rightarrow> blank_preference rowId userId (up_category dto) (up_channel dto) (up_preference dto));
           saved = assign_preference dto base
       in io_bind (to_save ops saved) (\<lambda>_. io_return saved))"

fun bulkUpdate ::
  "('p, notification_preference) table_ops \<Rightarrow> (nat \<Rightarrow> string) \<Rightarrow> nat \<Rightarrow> string \<Rightarrow> update_preference_dto list \<Rightarrow>
    ('p, notification_preference list) io" where
  "bulkUpdate ops newId n userId [] = io_return []"
| "bulkUpdate ops newId n userId (dto # dtos) =
     io_bind (updatePreference ops (newId n) userId dto) (\<lambda>p.
       io_bind (bulkUpdate ops newId (n + 1) userId dtos) (\<lambda>rest. io_return (p # rest)))"

definition preset_value :: "string \<Rightarrow> notification_category \<Rightarrow> string \<Rightarrow> channel_preference" where
  "preset_value preset category channel =
     (if preset = ''all_on'' then Pref_Enabled
      else if preset = ''all_off'' then Pref_Disabled
      else if preset = ''in_app_only'' then (if channel = channel_text Ch_In_App then Pref_Enabled else Pref_Disabled)
      else if preset = ''essential_only'' then
        (if channel = channel_text Ch_In_App \<or> category = Cat_Security \<or> category = Cat_Transaction then Pref_Enabled else Pref_Disabled)
      else Pref_Enabled)"

definition slots_of :: "notification_category list \<Rightarrow> (notification_category \<times> string) list" where
  "slots_of categories = concat (map (\<lambda>category. map (\<lambda>channel. (category, channel)) all_channels) categories)"

text \<open>The two nested loops as one over the pairs.\<close>

fun set_slots ::
  "('p, notification_preference) table_ops \<Rightarrow> (nat \<Rightarrow> string) \<Rightarrow> nat \<Rightarrow> string \<Rightarrow> string \<Rightarrow>
    (notification_category \<times> string) list \<Rightarrow> ('p, notification_preference list) io" where
  "set_slots ops newId n userId preset [] = io_return []"
| "set_slots ops newId n userId preset ((category, channel) # slots) =
     (let pref = preset_value preset category channel
      in io_bind (to_findOne ops (same_slot userId category channel) any_order) (\<lambda>found.
           let preference = (case found of Some p \<Rightarrow> p\<lparr>np_preference := pref\<rparr> | None \<Rightarrow> blank_preference (newId n) userId category channel pref)
           in io_bind (to_save ops preference) (\<lambda>_.
                io_bind (set_slots ops newId (n + 1) userId preset slots) (\<lambda>rest. io_return (preference # rest)))))"

definition setAllChannels ::
  "('p, notification_preference) table_ops \<Rightarrow> (nat \<Rightarrow> string) \<Rightarrow> string \<Rightarrow> notification_category option \<Rightarrow> string \<Rightarrow>
    ('p, notification_preference list) io" where
  "setAllChannels ops newId userId category preset =
     set_slots ops newId 0 userId preset (slots_of (case category of Some c \<Rightarrow> [c] | None \<Rightarrow> all_categories))"

definition default_value :: "notification_category \<Rightarrow> string \<Rightarrow> channel_preference" where
  "default_value category channel =
     (if category = Cat_Security \<or> category = Cat_Transaction \<or> channel = channel_text Ch_In_App then Pref_Enabled else Pref_Disabled)"

fun seed_slots ::
  "('p, notification_preference) table_ops \<Rightarrow> (nat \<Rightarrow> string) \<Rightarrow> nat \<Rightarrow> string \<Rightarrow>
    (notification_category \<times> string) list \<Rightarrow> ('p, unit) io" where
  "seed_slots ops newId n userId [] = io_return ()"
| "seed_slots ops newId n userId ((category, channel) # slots) =
     io_bind (to_findOne ops (same_slot userId category channel) any_order) (\<lambda>existing.
       case existing of
         Some p \<Rightarrow> seed_slots ops newId (n + 1) userId slots
       | None \<Rightarrow> io_bind (to_save ops (blank_preference (newId n) userId category channel (default_value category channel))) (\<lambda>_.
           seed_slots ops newId (n + 1) userId slots))"

definition seedDefaults :: "('p, notification_preference) table_ops \<Rightarrow> (nat \<Rightarrow> string) \<Rightarrow> string \<Rightarrow> ('p, unit) io" where
  "seedDefaults ops newId userId = seed_slots ops newId 0 userId (slots_of all_categories)"

definition deleteAll_prefs :: "('p, notification_preference) table_ops \<Rightarrow> string \<Rightarrow> ('p, unit) io" where
  "deleteAll_prefs ops userId = to_delete ops (\<lambda>p. np_userId p = userId)"

section \<open>Specification\<close>

text \<open>Unused ids for new rows.\<close>

definition fresh_ids :: "(string \<Rightarrow> 'row option) \<Rightarrow> (nat \<Rightarrow> string) \<Rightarrow> nat \<Rightarrow> bool" where
  "fresh_ids rows newId n \<longleftrightarrow> inj newId \<and> (\<forall>k \<ge> n. rows (newId k) = None)"

definition one_per_slot :: "(string \<Rightarrow> notification_preference option) \<Rightarrow> bool" where
  "one_per_slot rows \<longleftrightarrow>
     (\<forall>k k' p p'. rows k = Some p \<and> rows k' = Some p' \<and> same_slot (np_userId p) (np_category p) (np_channel p) p' \<longrightarrow> k = k')"

text \<open>A table with one row, and ids for new ones.\<close>

definition sample_prefs :: "notification_preference mem_table" where
  "sample_prefs = \<lparr>mt_rows = [blank_preference ''r'' ''u'' Cat_Marketing ''sms'' Pref_Digest], mt_faults = []\<rparr>"

definition sample_row_id :: "nat \<Rightarrow> string" where
  "sample_row_id n = ''n'' @ replicate n CHR ''x''"

section \<open>Facts\<close>

lemma slots_of_mem: "(c, ch) \<in> set (slots_of cs) \<longleftrightarrow> c \<in> set cs \<and> ch \<in> set all_channels"
  by (auto simp: slots_of_def)

lemma distinct_slots: "distinct (slots_of all_categories)"
  by code_simp

lemma fresh_ids_put: "fresh_ids rows newId n \<Longrightarrow> i = newId n \<or> rows i \<noteq> None \<Longrightarrow> fresh_ids (rows(i \<mapsto> r)) newId (n + 1)"
  by (auto simp: fresh_ids_def dest: injD)

text \<open>Saving a row of a slot, an old one or a new one, leaves one row per slot and the other slots alone.\<close>

lemma one_per_slot_put:
  assumes one: "one_per_slot rows" and new: "\<And>k p. rows k = Some p \<Longrightarrow> same_slot u c ch p \<Longrightarrow> k = i"
    and old: "\<And>p. rows i = Some p \<Longrightarrow> same_slot u c ch p" and r: "same_slot u c ch r"
  shows "one_per_slot (rows(i \<mapsto> r))"
  unfolding one_per_slot_def
proof (intro allI impI; elim conjE)
  fix k k' p p'
  assume *: "(rows(i \<mapsto> r)) k = Some p" "(rows(i \<mapsto> r)) k' = Some p'" "same_slot (np_userId p) (np_category p) (np_channel p) p'"
  show "k = k'"
  proof (cases "k = i"; cases "k' = i")
    assume "k = i" "k' \<noteq> i"
    then have "p = r" "rows k' = Some p'" using * by simp_all
    then show ?thesis using new [of k' p'] * r by (simp add: same_slot_def \<open>k = i\<close>)
  next
    assume "k \<noteq> i" "k' = i"
    then have "p' = r" "rows k = Some p" using * by simp_all
    then show ?thesis using new [of k p] * r by (simp add: same_slot_def \<open>k' = i\<close>)
  next
    assume "k \<noteq> i" "k' \<noteq> i"
    then show ?thesis using * one unfolding one_per_slot_def by (metis fun_upd_other)
  qed simp
qed

text \<open>One round of the loops: the row of the slot is found or created, then saved.\<close>

lemma slot_round:
  assumes tab: "sql_table ops np_id rows" and found: "fst (to_findOne ops (same_slot u c ch) any_order db) = Inr found"
    and one: "one_per_slot (rows db)" and fresh: "fresh_ids (rows db) newId n"
    and r: "r = (case found of Some p \<Rightarrow> f p | None \<Rightarrow> blank_preference (newId n) u c ch v)"
    and f: "\<And>p. np_id (f p) = np_id p \<and> np_userId (f p) = np_userId p \<and> np_category (f p) = np_category p \<and> np_channel (f p) = np_channel p"
    and saved: "fst (to_save ops r (snd (to_findOne ops (same_slot u c ch) any_order db))) = Inr ()"
  defines "rows' \<equiv> rows (snd (to_save ops r (snd (to_findOne ops (same_slot u c ch) any_order db))))"
  shows "rows' = (rows db)(np_id r \<mapsto> r)" "same_slot u c ch r" "one_per_slot rows'" "fresh_ids rows' newId (n + 1)"
    "rows db k = Some q \<Longrightarrow> \<not> same_slot u c ch q \<Longrightarrow> rows' k = Some q"
proof -
  have slot: "same_slot u c ch p \<and> rows db (np_id p) = Some p" if "found = Some p" for p
    using sql_table.findOne_some [OF tab] found that by auto
  have none: "\<not> same_slot u c ch q" if "found = None" "rows db k = Some q" for k q
    using sql_table.findOne_none [OF tab] found that by blast
  show eq: "rows' = (rows db)(np_id r \<mapsto> r)"
    unfolding rows'_def sql_table.save_ok [OF tab saved] sql_table.findOne_rows [OF tab] ..
  show same: "same_slot u c ch r"
    using slot f by (cases found) (auto simp: r same_slot_def blank_preference_def)
  have only: "k = np_id r" if "rows db k = Some q" "same_slot u c ch q" for k q
  proof (cases found)
    case None
    then show ?thesis using none that by blast
  next
    case (Some p)
    then have "rows db (np_id p) = Some p" "same_slot u c ch p" using slot by simp_all
    then have "k = np_id p" using one that unfolding one_per_slot_def same_slot_def by metis
    then show ?thesis using Some f [of p] by (simp add: r)
  qed
  have held: "same_slot u c ch q" if "rows db (np_id r) = Some q" for q
  proof (cases found)
    case None
    then show ?thesis using that fresh by (simp add: r blank_preference_def fresh_ids_def)
  next
    case (Some p)
    then show ?thesis using that slot f [of p] by (auto simp: r)
  qed
  show "one_per_slot rows'" unfolding eq by (rule one_per_slot_put [OF one only held same])
  have "np_id r = newId n \<or> rows db (np_id r) \<noteq> None"
    using slot f by (cases found) (auto simp: r blank_preference_def)
  then show "fresh_ids rows' newId (n + 1)" unfolding eq by (rule fresh_ids_put [OF fresh])
  show "rows db k = Some q \<Longrightarrow> \<not> same_slot u c ch q \<Longrightarrow> rows' k = Some q" using held by (auto simp: eq)
qed

lemma set_slots_run:
  assumes tab: "sql_table ops np_id rows" and run: "fst (set_slots ops newId n u preset slots db) = Inr ps"
    and one: "one_per_slot (rows db)" and fresh: "fresh_ids (rows db) newId n" and dist: "distinct slots"
  shows "let rows' = rows (snd (set_slots ops newId n u preset slots db))
    in one_per_slot rows' \<and>
      (\<forall>(c, ch) \<in> set slots. \<exists>k p. rows' k = Some p \<and> same_slot u c ch p \<and> np_preference p = preset_value preset c ch) \<and>
      (\<forall>k p. rows db k = Some p \<and> \<not> (np_userId p = u \<and> (np_category p, np_channel p) \<in> set slots) \<longrightarrow> rows' k = Some p)"
  using run one fresh dist
proof (induction slots arbitrary: n db ps)
  case Nil
  then show ?case by (simp add: io_return_def)
next
  case (Cons s slots)
  obtain c ch where s: "s = (c, ch)" by (cases s)
  let ?v = "preset_value preset c ch" and ?find = "to_findOne ops (same_slot u c ch) any_order"
  obtain found where found: "fst (?find db) = Inr found"
    using Cons.prems(1) by (auto simp: s Let_def elim: io_bind_InrE)
  define r where "r = (case found of Some p \<Rightarrow> p\<lparr>np_preference := ?v\<rparr> | None \<Rightarrow> blank_preference (newId n) u c ch ?v)"
  let ?db1 = "snd (to_save ops r (snd (?find db)))"
  have run1: "set_slots ops newId n u preset (s # slots) db =
      io_bind (to_save ops r) (\<lambda>_. io_bind (set_slots ops newId (n + 1) u preset slots) (\<lambda>rest. io_return (r # rest))) (snd (?find db))"
    by (simp add: s Let_def io_bind_step [where m = ?find and s = db, OF found] r_def)
  have saved: "fst (to_save ops r (snd (?find db))) = Inr ()"
    using Cons.prems(1) unfolding run1 by (auto elim: io_bind_InrE)
  have run2: "set_slots ops newId n u preset (s # slots) db = io_bind (set_slots ops newId (n + 1) u preset slots) (\<lambda>rest. io_return (r # rest)) ?db1"
    unfolding run1 by (rule io_bind_step) (rule saved)
  obtain rest where rest: "fst (set_slots ops newId (n + 1) u preset slots ?db1) = Inr rest"
    using Cons.prems(1) unfolding run2 by (auto elim: io_bind_InrE)
  have end_state: "snd (set_slots ops newId n u preset (s # slots) db) = snd (set_slots ops newId (n + 1) u preset slots ?db1)"
    unfolding run2 using rest by (simp add: io_bind_run io_return_def)
  note round = slot_round [OF tab found Cons.prems(2,3) r_def _ saved, simplified]
  have IH: "let rows' = rows (snd (set_slots ops newId (n + 1) u preset slots ?db1))
    in one_per_slot rows' \<and>
      (\<forall>(c, ch) \<in> set slots. \<exists>k p. rows' k = Some p \<and> same_slot u c ch p \<and> np_preference p = preset_value preset c ch) \<and>
      (\<forall>k p. rows ?db1 k = Some p \<and> \<not> (np_userId p = u \<and> (np_category p, np_channel p) \<in> set slots) \<longrightarrow> rows' k = Some p)"
    using round(3,4) Cons.prems(4) by (intro Cons.IH [OF rest]) (simp_all add: r_def)
  have v: "np_preference r = ?v" by (simp add: r_def blank_preference_def split: option.split)
  have not_later: "\<not> (np_userId r = u \<and> (np_category r, np_channel r) \<in> set slots)"
    using round(2) Cons.prems(4) by (auto simp: same_slot_def s)
  have "rows ?db1 (np_id r) = Some r" using round(1) by simp
  then have kept: "rows (snd (set_slots ops newId (n + 1) u preset slots ?db1)) (np_id r) = Some r"
    using IH not_later by (simp add: Let_def)
  show ?case
    unfolding Let_def end_state
  proof (intro conjI allI impI)
    show "one_per_slot (rows (snd (set_slots ops newId (n + 1) u preset slots ?db1)))" using IH by (simp add: Let_def)
    show "\<forall>(c, ch) \<in> set (s # slots). \<exists>k p. rows (snd (set_slots ops newId (n + 1) u preset slots ?db1)) k = Some p \<and> same_slot u c ch p \<and>
        np_preference p = preset_value preset c ch"
      using IH kept round(2) v by (auto simp: Let_def s)
    fix k p assume "rows db k = Some p \<and> \<not> (np_userId p = u \<and> (np_category p, np_channel p) \<in> set (s # slots))"
    then have p: "rows db k = Some p" "\<not> same_slot u c ch p" "\<not> (np_userId p = u \<and> (np_category p, np_channel p) \<in> set slots)"
      by (auto simp: s same_slot_def)
    have "rows ?db1 k = Some p" by (rule round(5) [OF p(1,2)])
    then show "rows (snd (set_slots ops newId (n + 1) u preset slots ?db1)) k = Some p" using IH p(3) by (simp add: Let_def)
  qed
qed

lemma seed_slots_run:
  assumes tab: "sql_table ops np_id rows" and run: "fst (seed_slots ops newId n u slots db) = Inr x"
    and one: "one_per_slot (rows db)" and fresh: "fresh_ids (rows db) newId n"
  shows "let rows' = rows (snd (seed_slots ops newId n u slots db))
    in one_per_slot rows' \<and>
      (\<forall>(c, ch) \<in> set slots. \<exists>k p. rows' k = Some p \<and> same_slot u c ch p) \<and>
      (\<forall>k p. rows db k = Some p \<longrightarrow> rows' k = Some p) \<and>
      (\<forall>k p. rows' k = Some p \<longrightarrow> rows db k = Some p \<or> np_preference p = default_value (np_category p) (np_channel p))"
  using run one fresh
proof (induction slots arbitrary: n db)
  case Nil
  then show ?case by (simp add: io_return_def)
next
  case (Cons s slots)
  obtain c ch where s: "s = (c, ch)" by (cases s)
  let ?find = "to_findOne ops (same_slot u c ch) any_order"
  obtain found where found: "fst (?find db) = Inr found"
    using Cons.prems(1) by (auto simp: s elim: io_bind_InrE)
  show ?case
  proof (cases found)
    case (Some p)
    then have step: "seed_slots ops newId n u (s # slots) db = seed_slots ops newId (n + 1) u slots (snd (?find db))"
      using found by (simp add: s io_bind_run)
    have same: "rows (snd (?find db)) = rows db" by (rule sql_table.findOne_rows [OF tab])
    have slot: "same_slot u c ch p" "rows db (np_id p) = Some p"
      using sql_table.findOne_some [OF tab] found Some by auto
    have fresh': "fresh_ids (rows (snd (?find db))) newId (n + 1)" using Cons.prems(3) by (simp add: fresh_ids_def same)
    have IH: "let rows' = rows (snd (seed_slots ops newId (n + 1) u slots (snd (?find db))))
      in one_per_slot rows' \<and>
        (\<forall>(c, ch) \<in> set slots. \<exists>k p. rows' k = Some p \<and> same_slot u c ch p) \<and>
        (\<forall>k p. rows (snd (?find db)) k = Some p \<longrightarrow> rows' k = Some p) \<and>
        (\<forall>k p. rows' k = Some p \<longrightarrow> rows (snd (?find db)) k = Some p \<or> np_preference p = default_value (np_category p) (np_channel p))"
      using Cons.prems fresh' by (intro Cons.IH) (simp_all add: step same)
    then have "rows (snd (seed_slots ops newId (n + 1) u slots (snd (?find db)))) (np_id p) = Some p"
      using slot(2) by (simp add: Let_def same)
    then show ?thesis using IH slot(1) unfolding step unfolding Let_def same by (auto simp: s)
  next
    case None
    define r where "r = blank_preference (newId n) u c ch (default_value c ch)"
    let ?db1 = "snd (to_save ops r (snd (?find db)))"
    have step: "seed_slots ops newId n u (s # slots) db =
        io_bind (to_save ops r) (\<lambda>_. seed_slots ops newId (n + 1) u slots) (snd (?find db))"
      using found None by (simp add: s io_bind_run r_def)
    have saved: "fst (to_save ops r (snd (?find db))) = Inr ()"
      using Cons.prems(1) unfolding step by (auto elim: io_bind_InrE)
    have run: "seed_slots ops newId n u (s # slots) db = seed_slots ops newId (n + 1) u slots ?db1"
      unfolding step using saved by (simp add: io_bind_run)
    have r_case: "r = (case found of Some p \<Rightarrow> p | None \<Rightarrow> blank_preference (newId n) u c ch (default_value c ch))"
      by (simp add: r_def None)
    note round = slot_round [where f = "\<lambda>p. p", OF tab found Cons.prems(2,3) r_case _ saved, simplified]
    have IH: "let rows' = rows (snd (seed_slots ops newId (n + 1) u slots ?db1))
      in one_per_slot rows' \<and>
        (\<forall>(c, ch) \<in> set slots. \<exists>k p. rows' k = Some p \<and> same_slot u c ch p) \<and>
        (\<forall>k p. rows ?db1 k = Some p \<longrightarrow> rows' k = Some p) \<and>
        (\<forall>k p. rows' k = Some p \<longrightarrow> rows ?db1 k = Some p \<or> np_preference p = default_value (np_category p) (np_channel p))"
      using Cons.prems(1) round(3,4) by (intro Cons.IH) (simp_all add: run)
    have v: "np_preference r = default_value (np_category r) (np_channel r)" by (simp add: r_def blank_preference_def)
    have "rows db (np_id r) = None" using Cons.prems(3) by (simp add: r_def blank_preference_def fresh_ids_def)
    then have kept: "rows ?db1 k = Some p" if "rows db k = Some p" for k p using that round(1) by auto
    have "rows ?db1 (np_id r) = Some r" using round(1) by simp
    then have "rows (snd (seed_slots ops newId (n + 1) u slots ?db1)) (np_id r) = Some r" using IH by (simp add: Let_def)
    moreover have "rows db k = Some p \<or> np_preference p = default_value (np_category p) (np_channel p)" if "rows ?db1 k = Some p" for k p
      using that round(1) v by (auto split: if_splits)
    then have "rows db k = Some p \<or> np_preference p = default_value (np_category p) (np_channel p)"
      if "rows (snd (seed_slots ops newId (n + 1) u slots ?db1)) k = Some p" for k p
      using IH that unfolding Let_def by blast
    ultimately show ?thesis using IH round(2) kept unfolding run unfolding Let_def by (auto simp: s)
  qed
qed

text \<open>Over a table whose calls never throw the loops return.\<close>

lemma set_slots_returns: "reliable_table ops \<Longrightarrow> \<exists>ps. fst (set_slots ops newId n u preset slots db) = Inr ps"
proof (induction slots arbitrary: n db)
  case (Cons s slots)
  obtain c ch where s: "s = (c, ch)" by (cases s)
  obtain found where "fst (to_findOne ops (same_slot u c ch) any_order db) = Inr found"
    using Cons.prems unfolding reliable_table_def by blast
  moreover have "fst (to_save ops r db') = Inr ()" for r db' using Cons.prems unfolding reliable_table_def by blast
  ultimately show ?case using Cons.IH [OF Cons.prems] by (simp add: s Let_def io_bind_Inr) (simp add: io_return_def)
qed (simp add: io_return_def)

lemma setAllChannels_returns: "reliable_table ops \<Longrightarrow> \<exists>ps. fst (setAllChannels ops newId u category preset db) = Inr ps"
  unfolding setAllChannels_def by (rule set_slots_returns)

lemma seed_slots_returns: "reliable_table ops \<Longrightarrow> \<exists>x. fst (seed_slots ops newId n u slots db) = Inr x"
proof (induction slots arbitrary: n db)
  case (Cons s slots)
  obtain c ch where s: "s = (c, ch)" by (cases s)
  obtain found where found: "fst (to_findOne ops (same_slot u c ch) any_order db) = Inr found"
    using Cons.prems unfolding reliable_table_def by blast
  moreover have "fst (to_save ops r db') = Inr ()" for r db' using Cons.prems unfolding reliable_table_def by blast
  ultimately show ?case using Cons.IH [OF Cons.prems] by (cases found) (simp_all add: s io_bind_Inr)
qed (simp add: io_return_def)

lemma seedDefaults_returns: "reliable_table ops \<Longrightarrow> \<exists>x. fst (seedDefaults ops newId u db) = Inr x"
  unfolding seedDefaults_def by (rule seed_slots_returns)

lemma sample_prefs_one: "one_per_slot (table_row np_id sample_prefs)"
  by (auto simp: one_per_slot_def table_row_def sample_prefs_def split: if_splits)

lemma sample_prefs_fresh: "fresh_ids (table_row np_id sample_prefs) sample_row_id 0"
  by (auto simp: fresh_ids_def table_row_def sample_prefs_def sample_row_id_def blank_preference_def inj_def)

lemma calm_prefs_reliable: "reliable_table (calm_table_ops np_id)"
  by (simp add: reliable_table_def calm_table_ops_def mem_table_ops_def table_call_def Let_def)

lemma distinct_slots1: "distinct (slots_of [c])"
  by (cases c) code_simp+

text \<open>
  A preset sets its whole scope: when setAllChannels returns, each channel of the category (of
  every category, when none is given) has exactly one row of the user, with the value of the preset;
  rows outside the scope, those of other users among them, are as they were.
\<close>

theorem preset_applied:
  assumes tab: "sql_table ops np_id rows" and run: "fst (setAllChannels ops newId u category preset db) = Inr ps"
    and one: "one_per_slot (rows db)" and fresh: "fresh_ids (rows db) newId 0"
  shows "let rows' = rows (snd (setAllChannels ops newId u category preset db));
      scope = (case category of Some c \<Rightarrow> [c] | None \<Rightarrow> all_categories)
    in one_per_slot rows' \<and>
      (\<forall>c \<in> set scope. \<forall>ch \<in> set all_channels. \<exists>k p. rows' k = Some p \<and> same_slot u c ch p \<and> np_preference p = preset_value preset c ch) \<and>
      (\<forall>k p. rows db k = Some p \<and> \<not> (np_userId p = u \<and> np_category p \<in> set scope \<and> np_channel p \<in> set all_channels) \<longrightarrow> rows' k = Some p)"
proof -
  define scope where "scope = (case category of Some c \<Rightarrow> [c] | None \<Rightarrow> all_categories)"
  define rows' where "rows' = rows (snd (setAllChannels ops newId u category preset db))"
  have dist: "distinct (slots_of scope)"
    by (cases category) (simp_all add: scope_def distinct_slots distinct_slots1)
  have run': "fst (set_slots ops newId 0 u preset (slots_of scope) db) = Inr ps"
    using run by (simp add: setAllChannels_def scope_def)
  have rows': "rows' = rows (snd (set_slots ops newId 0 u preset (slots_of scope) db))"
    by (simp add: rows'_def setAllChannels_def scope_def)
  note * = set_slots_run [OF tab run' one fresh dist, folded rows', unfolded Let_def]
  have "\<exists>k p. rows' k = Some p \<and> same_slot u c ch p \<and> np_preference p = preset_value preset c ch"
    if "c \<in> set scope" "ch \<in> set all_channels" for c ch
  proof -
    have "(c, ch) \<in> set (slots_of scope)" using that by (simp add: slots_of_mem)
    then show ?thesis using * by blast
  qed
  then show ?thesis
    unfolding Let_def scope_def [symmetric] rows'_def [symmetric] using * by (simp add: slots_of_mem)
qed

theorem preset_applied_witness:
  "\<exists>k p. table_row np_id (snd (setAllChannels (calm_table_ops np_id) sample_row_id ''u'' (Some Cat_Marketing) ''essential_only'' sample_prefs)) k = Some p \<and>
     same_slot ''u'' Cat_Marketing ''sms'' p \<and> np_preference p = Pref_Disabled"
proof -
  have "\<exists>ps. fst (setAllChannels (calm_table_ops np_id) sample_row_id ''u'' (Some Cat_Marketing) ''essential_only'' sample_prefs) = Inr ps"
    by (rule setAllChannels_returns) (rule calm_prefs_reliable)
  then obtain ps where run: "fst (setAllChannels (calm_table_ops np_id) sample_row_id ''u'' (Some Cat_Marketing) ''essential_only'' sample_prefs) = Inr ps" ..
  have sms: "''sms'' \<in> set all_channels" "preset_value ''essential_only'' Cat_Marketing ''sms'' = Pref_Disabled" by code_simp+
  have "Cat_Marketing \<in> set (case Some Cat_Marketing of Some c \<Rightarrow> [c] | None \<Rightarrow> all_categories)" by simp
  with preset_applied [OF ct.sql_table_axioms run sample_prefs_one sample_prefs_fresh] sms(1) show ?thesis
    unfolding Let_def sms(2) [symmetric] by blast
qed

text \<open>
  A new user can be reached: when seedDefaults returns, the user has exactly one row for each
  category and channel; every row there was is as it was, and each row that was added has the
  default of its category and channel.
\<close>

theorem seeded_user_has_preferences:
  assumes tab: "sql_table ops np_id rows" and run: "fst (seedDefaults ops newId u db) = Inr x"
    and one: "one_per_slot (rows db)" and fresh: "fresh_ids (rows db) newId 0"
  shows "let rows' = rows (snd (seedDefaults ops newId u db))
    in one_per_slot rows' \<and>
      (\<forall>c. \<forall>ch \<in> set all_channels. \<exists>k p. rows' k = Some p \<and> same_slot u c ch p) \<and>
      (\<forall>k p. rows db k = Some p \<longrightarrow> rows' k = Some p) \<and>
      (\<forall>k p. rows' k = Some p \<longrightarrow> rows db k = Some p \<or> np_preference p = default_value (np_category p) (np_channel p))"
proof -
  define rows' where "rows' = rows (snd (seed_slots ops newId 0 u (slots_of all_categories) db))"
  note * = seed_slots_run [OF tab run [unfolded seedDefaults_def] one fresh, folded rows'_def, unfolded Let_def]
  have "\<exists>k p. rows' k = Some p \<and> same_slot u c ch p" if "ch \<in> set all_channels" for c ch
  proof -
    have "c \<in> set all_categories" by (cases c) (simp_all add: all_categories_def)
    then have "(c, ch) \<in> set (slots_of all_categories)" using that by (simp add: slots_of_mem)
    then show ?thesis using * by blast
  qed
  then show ?thesis unfolding Let_def seedDefaults_def rows'_def [symmetric] using * by simp
qed

theorem seeded_user_has_preferences_witness:
  "\<exists>k p. table_row np_id (snd (seedDefaults (calm_table_ops np_id) sample_row_id ''u'' sample_prefs)) k = Some p \<and>
     same_slot ''u'' Cat_Security ''push'' p"
proof -
  have "\<exists>x. fst (seedDefaults (calm_table_ops np_id) sample_row_id ''u'' sample_prefs) = Inr x"
    by (rule seedDefaults_returns) (rule calm_prefs_reliable)
  then obtain x where run: "fst (seedDefaults (calm_table_ops np_id) sample_row_id ''u'' sample_prefs) = Inr x" ..
  have "''push'' \<in> set all_channels" by code_simp
  with seeded_user_has_preferences [OF ct.sql_table_axioms run sample_prefs_one sample_prefs_fresh] show ?thesis by (auto simp: Let_def)
qed

end
