(* ===== verification/Notification_Templates.thy ===== *)
theory Notification_Templates
  imports Sql_Table
begin

text \<open>
  Notification templates (notifications/services/notification-template.service.ts): the table of
  templates, a parameter, the cache of the service, and the renderer. The value of a variable is its
  \<^verbatim>\<open>String(...)\<close> and whether it is truthy; a variable that is not in the map is undefined.
\<close>

section \<open>Rendering\<close>

type_synonym template_vars = "(string, string \<times> bool) js_map"

text \<open>The class \<^verbatim>\<open>\w\<close>.\<close>

definition word_char :: "char \<Rightarrow> bool" where
  "word_char c = (let n = (of_char c :: nat) in 48 \<le> n \<and> n \<le> 57 \<or> 65 \<le> n \<and> n \<le> 90 \<or> n = 95 \<or> 97 \<le> n \<and> n \<le> 122)"

text \<open>A name and the closing braces, and what follows them.\<close>

definition word_then :: "string \<Rightarrow> (string \<times> string) option" where
  "word_then s =
     (let w = takeWhile word_char s; r = dropWhile word_char s
      in if w \<noteq> [] \<and> startsWith r ''}}'' then Some (w, drop 2 r) else None)"

text \<open>The text before the first occurrence, and the text after it.\<close>

fun cut_at :: "string \<Rightarrow> string \<Rightarrow> (string \<times> string) option" where
  "cut_at p [] = (if p = [] then Some ([], []) else None)"
| "cut_at p (c # s) =
     (if startsWith (c # s) p then Some ([], drop (length p) (c # s))
      else case cut_at p s of None \<Rightarrow> None | Some (a, b) \<Rightarrow> Some (c # a, b))"

text \<open>A match of the first expression: the name, the content and the rest.\<close>

definition match_block :: "string \<Rightarrow> (string \<times> string \<times> string) option" where
  "match_block s =
     (if startsWith s ''{{#if'' \<and> takeWhile is_js_space (drop 5 s) \<noteq> []
      then case word_then (dropWhile is_js_space (drop 5 s)) of
             None \<Rightarrow> None
           | Some (v, r) \<Rightarrow> (case cut_at ''{{/if}}'' r of None \<Rightarrow> None | Some (content, rest) \<Rightarrow> Some (v, content, rest))
      else None)"

definition match_var :: "string \<Rightarrow> (string \<times> string) option" where
  "match_var s = (if startsWith s ''{{'' then word_then (drop 2 s) else None)"

definition var_holds :: "template_vars \<Rightarrow> string \<Rightarrow> bool" where
  "var_holds vars v = (case Map_get v vars of None \<Rightarrow> False | Some (_, b) \<Rightarrow> b)"

definition var_text :: "template_vars \<Rightarrow> string \<Rightarrow> string" where
  "var_text vars v = (case Map_get v vars of None \<Rightarrow> ''{{'' @ v @ ''}}'' | Some (t, _) \<Rightarrow> t)"

lemma word_then_shorter: "word_then s = Some (w, r) \<Longrightarrow> length r < length s"
proof -
  assume w: "word_then s = Some (w, r)"
  then have "r = drop 2 (dropWhile word_char s)" "takeWhile word_char s \<noteq> []"
    by (auto simp: word_then_def Let_def split: if_splits)
  moreover have "length (takeWhile word_char s) + length (dropWhile word_char s) = length s"
    by (metis length_append takeWhile_dropWhile_id)
  ultimately show "length r < length s" by (cases "takeWhile word_char s") auto
qed

lemma cut_at_shorter: "cut_at p s = Some (a, b) \<Longrightarrow> length b \<le> length s"
  by (induction p s arbitrary: a b rule: cut_at.induct) (auto split: if_splits option.splits intro: le_SucI)

lemma match_var_shorter: "match_var s = Some (v, r) \<Longrightarrow> length r < length s"
  by (auto simp: match_var_def dest!: word_then_shorter split: if_splits)

lemma match_block_shorter: "match_block s = Some (v, content, rest) \<Longrightarrow> length rest < length s"
proof -
  assume "match_block s = Some (v, content, rest)"
  then obtain r where r: "word_then (dropWhile is_js_space (drop 5 s)) = Some (v, r)" "cut_at ''{{/if}}'' r = Some (content, rest)"
    by (auto simp: match_block_def split: if_splits option.splits)
  have "length rest \<le> length r" by (rule cut_at_shorter [OF r(2)])
  also have "\<dots> < length (dropWhile is_js_space (drop 5 s))" by (rule word_then_shorter [OF r(1)])
  also have "\<dots> \<le> length (drop 5 s)" by (rule length_dropWhile_le)
  finally show ?thesis by simp
qed

text \<open>The two replacements with a global expression, from left to right.\<close>

function replace_blocks :: "template_vars \<Rightarrow> string \<Rightarrow> string" where
  "replace_blocks vars [] = []"
| "replace_blocks vars (c # s) =
     (case match_block (c # s) of
        Some (v, content, rest) \<Rightarrow> (if var_holds vars v then content else []) @ replace_blocks vars rest
      | None \<Rightarrow> c # replace_blocks vars s)"
  by pat_completeness auto
termination by (relation "measure (\<lambda>(vars, s). length s)") (auto dest: match_block_shorter)

function replace_vars :: "template_vars \<Rightarrow> string \<Rightarrow> string" where
  "replace_vars vars [] = []"
| "replace_vars vars (c # s) =
     (case match_var (c # s) of
        Some (v, rest) \<Rightarrow> var_text vars v @ replace_vars vars rest
      | None \<Rightarrow> c # replace_vars vars s)"
  by pat_completeness auto
termination by (relation "measure (\<lambda>(vars, s). length s)") (auto dest: match_var_shorter)

definition renderBody :: "string \<Rightarrow> template_vars \<Rightarrow> string" where
  "renderBody bodyTemplate variables = replace_vars variables (replace_blocks variables bodyTemplate)"

section \<open>Templates\<close>

record notification_template =
  nt_id :: string
  nt_name :: string
  nt_description :: string
  nt_channel :: string
  nt_subject :: "string option"
  nt_bodyTemplate :: string
  nt_htmlTemplate :: "string option"
  nt_smsTemplate :: "string option"
  nt_variables :: "string list option"
  nt_category :: "string option"
  nt_active :: bool
  nt_metadata :: "string option"

record template_dto =
  td_name :: string
  td_description :: string
  td_channel :: string
  td_subject :: "string option"
  td_bodyTemplate :: string
  td_htmlTemplate :: "string option"
  td_smsTemplate :: "string option"
  td_variables :: "string list option"
  td_category :: "string option"
  td_metadata :: "string option"

record update_template_dto =
  ut_description :: "string option"
  ut_subject :: "string option"
  ut_bodyTemplate :: "string option"
  ut_htmlTemplate :: "string option"
  ut_smsTemplate :: "string option"
  ut_variables :: "string list option"
  ut_active :: "bool option"
  ut_metadata :: "string option"

definition named :: "string \<Rightarrow> notification_template \<Rightarrow> bool" where
  "named name t \<longleftrightarrow> nt_name t = name"

definition template_missing :: "string \<Rightarrow> http_error" where
  "template_missing name = NotFound (''Template \"'' @ name @ ''\" not found'')"

definition createTemplate ::
  "('t, notification_template) table_ops \<Rightarrow> string \<Rightarrow> template_dto \<Rightarrow> ('t, notification_template) io" where
  "createTemplate ops rowId dto =
     io_bind (to_findOne ops (named (td_name dto)) any_order) (\<lambda>existing.
       case existing of
         Some _ \<Rightarrow> io_throw (Conflict (''Template \"'' @ td_name dto @ ''\" already exists''))
       | None \<Rightarrow>
           let saved = \<lparr>nt_id = rowId, nt_name = td_name dto, nt_description = td_description dto, nt_channel = td_channel dto,
                 nt_subject = td_subject dto, nt_bodyTemplate = td_bodyTemplate dto, nt_htmlTemplate = td_htmlTemplate dto,
                 nt_smsTemplate = td_smsTemplate dto, nt_variables = td_variables dto, nt_category = td_category dto,
                 nt_active = True, nt_metadata = td_metadata dto\<rparr>
           in io_bind (to_save ops saved) (\<lambda>_. io_return saved))"

definition assign_template :: "update_template_dto \<Rightarrow> notification_template \<Rightarrow> notification_template" where
  "assign_template dto t =
     t\<lparr>nt_description := nullish (ut_description dto) (nt_description t),
       nt_subject := (if ut_subject dto = None then nt_subject t else ut_subject dto),
       nt_bodyTemplate := nullish (ut_bodyTemplate dto) (nt_bodyTemplate t),
       nt_htmlTemplate := (if ut_htmlTemplate dto = None then nt_htmlTemplate t else ut_htmlTemplate dto),
       nt_smsTemplate := (if ut_smsTemplate dto = None then nt_smsTemplate t else ut_smsTemplate dto),
       nt_variables := (if ut_variables dto = None then nt_variables t else ut_variables dto),
       nt_active := nullish (ut_active dto) (nt_active t),
       nt_metadata := (if ut_metadata dto = None then nt_metadata t else ut_metadata dto)\<rparr>"

definition getTemplate :: "('t, notification_template) table_ops \<Rightarrow> string \<Rightarrow> ('t, notification_template) io" where
  "getTemplate ops name =
     io_bind (to_findOne ops (named name) any_order) (\<lambda>found.
       case found of None \<Rightarrow> io_throw (template_missing name) | Some t \<Rightarrow> io_return t)"

definition updateTemplate ::
  "('t, notification_template) table_ops \<Rightarrow> string \<Rightarrow> update_template_dto \<Rightarrow> ('t, notification_template) io" where
  "updateTemplate ops name dto =
     io_bind (to_findOne ops (named name) any_order) (\<lambda>found.
       case found of
         None \<Rightarrow> io_throw (template_missing name)
       | Some t \<Rightarrow> let saved = assign_template dto t in io_bind (to_save ops saved) (\<lambda>_. io_return saved))"

text \<open>The collation of the database is a parameter.\<close>

definition getAllTemplates ::
  "('t, notification_template) table_ops \<Rightarrow> (string \<Rightarrow> string \<Rightarrow> int) \<Rightarrow> bool \<Rightarrow> ('t, notification_template list) io" where
  "getAllTemplates ops collate activeOnly =
     to_find ops (\<lambda>t. activeOnly \<longrightarrow> nt_active t) (\<lambda>a b. collate (nt_name a) (nt_name b))"

definition deleteTemplate :: "('t, notification_template) table_ops \<Rightarrow> string \<Rightarrow> ('t, unit) io" where
  "deleteTemplate ops name =
     io_bind (to_findOne ops (named name) any_order) (\<lambda>found.
       case found of
         None \<Rightarrow> io_throw (template_missing name)
       | Some t \<Rightarrow> to_save ops (t\<lparr>nt_active := False\<rparr>))"

definition renderSubject :: "(string, notification_template) js_map \<Rightarrow> string \<Rightarrow> template_vars \<Rightarrow> string" where
  "renderSubject cache templateName variables =
     (case Map_get templateName cache of
        None \<Rightarrow> templateName
      | Some t \<Rightarrow> if truthy (nt_subject t) then renderBody (nullish (nt_subject t) []) variables else templateName)"

definition cacheTemplate ::
  "('t, notification_template) table_ops \<Rightarrow> string \<Rightarrow> (string, notification_template) js_map \<Rightarrow>
    ('t, (string, notification_template) js_map) io" where
  "cacheTemplate ops name cache =
     io_bind (to_findOne ops (named name) any_order) (\<lambda>found.
       io_return (case found of None \<Rightarrow> cache | Some t \<Rightarrow> Map_set name t cache))"

section \<open>Reference\<close>

text \<open>A template as its parts, how they are written, and what they stand for.\<close>

datatype piece = Lit string | Var string
datatype segment = Plain piece | If_Block string "piece list"

fun print_piece :: "piece \<Rightarrow> string" where
  "print_piece (Lit t) = t"
| "print_piece (Var v) = ''{{'' @ v @ ''}}''"

definition print_pieces :: "piece list \<Rightarrow> string" where
  "print_pieces ps = concat (map print_piece ps)"

fun print_segment :: "segment \<Rightarrow> string" where
  "print_segment (Plain p) = print_piece p"
| "print_segment (If_Block v ps) = ''{{#if '' @ v @ ''}}'' @ print_pieces ps @ ''{{/if}}''"

definition print_template :: "segment list \<Rightarrow> string" where
  "print_template ss = concat (map print_segment ss)"

fun eval_piece :: "template_vars \<Rightarrow> piece \<Rightarrow> string" where
  "eval_piece vars (Lit t) = t"
| "eval_piece vars (Var v) = var_text vars v"

fun eval_segment :: "template_vars \<Rightarrow> segment \<Rightarrow> string" where
  "eval_segment vars (Plain p) = eval_piece vars p"
| "eval_segment vars (If_Block v ps) = (if var_holds vars v then concat (map (eval_piece vars) ps) else [])"

definition is_word :: "string \<Rightarrow> bool" where
  "is_word v \<longleftrightarrow> v \<noteq> [] \<and> list_all word_char v"

fun proper_piece :: "piece \<Rightarrow> bool" where
  "proper_piece (Lit t) \<longleftrightarrow> CHR ''{'' \<notin> set t"
| "proper_piece (Var v) \<longleftrightarrow> is_word v"

fun proper_segment :: "segment \<Rightarrow> bool" where
  "proper_segment (Plain p) \<longleftrightarrow> proper_piece p"
| "proper_segment (If_Block v ps) \<longleftrightarrow> is_word v \<and> list_all proper_piece ps"

section \<open>Facts\<close>

lemma no_brace [simp]: "\<not> word_char CHR ''{''" "\<not> word_char CHR ''}''" "\<not> word_char CHR ''#''" "\<not> word_char CHR ''/''" "\<not> word_char CHR '' ''"
  by code_simp+

lemma takeWhile_word: "is_word v \<Longrightarrow> takeWhile word_char (v @ CHR ''}'' # s) = v" "is_word v \<Longrightarrow> dropWhile word_char (v @ CHR ''}'' # s) = CHR ''}'' # s"
  by (auto simp: is_word_def list_all_iff takeWhile_append2 dropWhile_append2)

lemma word_then_word: "is_word v \<Longrightarrow> word_then (v @ ''}}'' @ s) = Some (v, s)"
  by (simp add: word_then_def takeWhile_word) (simp add: is_word_def startsWith_def)

lemma word_no_brace: "is_word v \<Longrightarrow> CHR ''{'' \<notin> set v"
  by (auto simp: is_word_def list_all_iff)

lemma word_first: "is_word v \<Longrightarrow> \<exists>c w. v = c # w \<and> word_char c"
  by (cases v) (auto simp: is_word_def)

lemma blocks_skip: "CHR ''{'' \<notin> set t \<Longrightarrow> replace_blocks vars (t @ s) = t @ replace_blocks vars s"
  by (induction t) (auto simp: match_block_def startsWith_def)

lemma vars_skip: "CHR ''{'' \<notin> set t \<Longrightarrow> replace_vars vars (t @ s) = t @ replace_vars vars s"
  by (induction t) (auto simp: match_var_def startsWith_def)

lemma cut_skip: "CHR ''{'' \<notin> set t \<Longrightarrow> cut_at ''{{/if}}'' (t @ s) = map_option (\<lambda>(a, b). (t @ a, b)) (cut_at ''{{/if}}'' s)"
  by (induction t) (auto simp: startsWith_def option.map_comp comp_def option.map_id split: option.splits)

lemma blocks_var: "is_word v \<Longrightarrow> replace_blocks vars (''{{'' @ v @ ''}}'' @ s) = ''{{'' @ v @ ''}}'' @ replace_blocks vars s"
  using blocks_skip [of "v @ ''}}''" vars s] word_first [of v] word_no_brace [of v]
  by (auto simp: match_block_def startsWith_def)

lemma cut_var:
  "is_word v \<Longrightarrow> cut_at ''{{/if}}'' (''{{'' @ v @ ''}}'' @ s) = map_option (\<lambda>(a, b). (''{{'' @ v @ ''}}'' @ a, b)) (cut_at ''{{/if}}'' s)"
  using cut_skip [of "v @ ''}}''" s] word_first [of v] word_no_brace [of v]
  by (auto simp: startsWith_def split: option.splits)

lemma vars_var: "is_word v \<Longrightarrow> replace_vars vars (''{{'' @ v @ ''}}'' @ s) = var_text vars v @ replace_vars vars s"
  by (simp add: match_var_def startsWith_def word_then_word [simplified])

lemma cut_pieces: "list_all proper_piece ps \<Longrightarrow> cut_at ''{{/if}}'' (print_pieces ps @ ''{{/if}}'' @ s) = Some (print_pieces ps, s)"
proof (induction ps)
  case Nil
  then show ?case by (simp add: print_pieces_def startsWith_def)
next
  case (Cons p ps)
  then show ?case
    using cut_skip [of "print_piece p" "print_pieces ps @ ''{{/if}}'' @ s"] cut_var
    by (cases p) (simp_all add: print_pieces_def)
qed

lemma blocks_block:
  assumes "is_word v" "list_all proper_piece ps"
  shows "replace_blocks vars (print_segment (If_Block v ps) @ s) = (if var_holds vars v then print_pieces ps else []) @ replace_blocks vars s"
proof -
  have "is_js_space CHR '' ''" by code_simp
  moreover have "\<not> is_js_space c" if "word_char c" for c using that by (auto simp: is_js_space_def word_char_def Let_def)
  ultimately have "takeWhile is_js_space ('' '' @ v @ t) = '' ''" "dropWhile is_js_space ('' '' @ v @ t) = v @ t" for t
    using word_first [OF assms(1)] by auto
  then have "match_block (print_segment (If_Block v ps) @ s) = Some (v, print_pieces ps, s)"
    using word_then_word [OF assms(1), of "print_pieces ps @ ''{{/if}}'' @ s"] cut_pieces [OF assms(2), of s]
    by (simp add: match_block_def startsWith_def)
  then show ?thesis by simp
qed

lemma blocks_segments:
  "list_all proper_segment ss \<Longrightarrow>
    replace_blocks vars (print_template ss) =
      concat (map (\<lambda>s. case s of Plain p \<Rightarrow> print_piece p | If_Block v ps \<Rightarrow> if var_holds vars v then print_pieces ps else []) ss)"
proof (induction ss)
  case (Cons x ss)
  then show ?case
  proof (cases x)
    case (Plain p)
    then show ?thesis using Cons blocks_skip blocks_var by (cases p) (simp_all add: print_template_def)
  next
    case (If_Block v ps)
    then show ?thesis using Cons blocks_block [of v ps vars] by (simp add: print_template_def del: print_segment.simps)
  qed
qed (simp add: print_template_def)

lemma vars_pieces: "list_all proper_piece ps \<Longrightarrow> replace_vars vars (print_pieces ps @ s) = concat (map (eval_piece vars) ps) @ replace_vars vars s"
proof (induction ps)
  case (Cons p ps)
  then show ?case using vars_skip vars_var by (cases p) (simp_all add: print_pieces_def)
qed (simp add: print_pieces_def)

lemma print_pieces_one: "print_pieces [p] = print_piece p"
  by (simp add: print_pieces_def)

section \<open>Properties\<close>

text \<open>
  C29. The renderer computes what a template means: for a template written from its parts, plain text
  without braces, placeholders and conditional blocks, \<^verbatim>\<open>renderBody\<close> yields the text with each placeholder
  replaced by the value of its variable as it is, nothing escaped, or left as written when the variable is
  undefined, and with each block kept when its variable is truthy and dropped when not. Values are not
  scanned again.
\<close>

theorem rendering_exact:
  assumes "list_all proper_segment ss"
  shows "renderBody (print_template ss) vars = concat (map (eval_segment vars) ss)"
proof -
  define out where "out = (\<lambda>s. case s of Plain p \<Rightarrow> print_piece p | If_Block v ps \<Rightarrow> if var_holds vars v then print_pieces ps else [])"
  have "replace_vars vars (concat (map out ss)) = concat (map (eval_segment vars) ss)"
    using assms
  proof (induction ss)
    case (Cons x ss)
    then show ?case
      using vars_pieces [of "[case x of Plain p \<Rightarrow> p | _ \<Rightarrow> Lit []]" vars "concat (map out ss)"]
        vars_pieces [of "case x of If_Block v ps \<Rightarrow> ps | _ \<Rightarrow> []" vars "concat (map out ss)"]
      by (cases x) (simp_all add: out_def print_pieces_one)
  qed simp
  then show ?thesis using blocks_segments [OF assms] by (simp add: renderBody_def out_def)
qed

theorem rendering_exact_witness:
  "renderBody ''Hi {{name}}{{#if vip}} <b>{{tier}}</b>{{/if}}!'' [(''name'', (''<i>'', True)), (''vip'', (''1'', True))] =
     ''Hi <i> <b>{{tier}}</b>!''"
proof -
  let ?ss = "[Plain (Lit ''Hi ''), Plain (Var ''name''), If_Block ''vip'' [Lit '' <b>'', Var ''tier'', Lit ''</b>''], Plain (Lit ''!'')]"
  let ?vars = "[(''name'', (''<i>'', True)), (''vip'', (''1'', True))]"
  have "list_all proper_segment ?ss" by code_simp
  from rendering_exact [OF this, of ?vars]
  have "renderBody (print_template ?ss) ?vars = concat (map (eval_segment ?vars) ?ss)" .
  moreover have "print_template ?ss = ''Hi {{name}}{{#if vip}} <b>{{tier}}</b>{{/if}}!''" by code_simp
  moreover have "concat (map (eval_segment ?vars) ?ss) = ''Hi <i> <b>{{tier}}</b>!''" by code_simp
  ultimately show ?thesis by simp
qed

text \<open>Three braces are not raw output: the outer ones stay.\<close>

lemma triple_braces_stay: "is_word v \<Longrightarrow> renderBody (''{{{'' @ v @ ''}}}'') vars = ''{'' @ var_text vars v @ ''}''"
proof -
  assume v: "is_word v"
  obtain c w where cw: "v = c # w" "word_char c" using word_first [OF v] by blast
  have "replace_blocks vars (''{{{'' @ v @ ''}}}'') = ''{'' @ replace_blocks vars (''{{'' @ v @ ''}}'' @ ''}'')"
    by (simp add: match_block_def startsWith_def)
  also have "\<dots> = ''{{{'' @ v @ ''}}}''"
    unfolding blocks_var [OF v] by (simp add: match_block_def startsWith_def)
  finally have "renderBody (''{{{'' @ v @ ''}}}'') vars = replace_vars vars (''{{{'' @ v @ ''}}}'')" by (simp add: renderBody_def)
  also have "\<dots> = ''{'' @ replace_vars vars (''{{'' @ v @ ''}}'' @ ''}'')"
    by (simp add: match_var_def startsWith_def word_then_def)
  also have "\<dots> = ''{'' @ var_text vars v @ ''}''"
    unfolding vars_var [OF v] by (simp add: match_var_def startsWith_def)
  finally show ?thesis .
qed

end
