(* ===== verification/Notifications.thy ===== *)
theory Notifications
  imports Notification_Preferences Notification_Templates
begin

text \<open>
  Notifications (notifications/services/): the service that creates, cancels and lists notifications,
  the aggregation of repeated ones, the queue, and the processor that hands a notification to the
  providers of its channels. The five tables are parameters, as are the hour in a time zone, the
  cursor's encoding, the order of a column and the test \<^verbatim>\<open>= ANY(channels)\<close> on a column of texts; a provider is a function of the payload and of how many
  payloads went out before. All times of a call are the same, and times in requests are as parsed. How
  many rows an update affected is not modelled. JSON columns the code only passes through are their text.
\<close>

section \<open>Entities\<close>

datatype notification_priority = Prio_Low | Prio_Normal | Prio_High | Prio_Critical

datatype notification_status =
  Note_Pending | Note_Queued | Note_Sending | Note_Sent | Note_Delivered | Note_Failed | Note_Cancelled | Note_Scheduled

record notification =
  nf_id :: string
  nf_userId :: string
  nf_title :: string
  nf_body :: string
  nf_htmlBody :: "string option"
  nf_category :: notification_category
  nf_priority :: notification_priority
  nf_status :: notification_status
  nf_primaryChannel :: notification_channel
  nf_channels :: "notification_channel list option"
  nf_templateName :: "string option"
  nf_templateVars :: "template_vars option"
  nf_referenceId :: "string option"
  nf_referenceType :: "string option"
  nf_read :: bool
  nf_readAt :: "timestamp option"
  nf_clicked :: bool
  nf_clickedAt :: "timestamp option"
  nf_scheduledAt :: "timestamp option"
  nf_sentAt :: "timestamp option"
  nf_deliveredAt :: "timestamp option"
  nf_attemptCount :: int
  nf_maxAttempts :: int
  nf_errorMessage :: "string option"
  nf_aggregationKey :: "string option"
  nf_aggregationCount :: int
  nf_metadata :: "string option"
  nf_deleted :: bool
  nf_createdAt :: timestamp

datatype log_status = Log_Pending | Log_Sent | Log_Delivered | Log_Bounced | Log_Failed | Log_Clicked | Log_Opened

record delivery_log =
  lg_id :: string
  lg_notificationId :: string
  lg_userId :: string
  lg_channel :: notification_channel
  lg_status :: log_status
  lg_attemptCount :: int
  lg_maxAttempts :: int
  lg_errorMessage :: "string option"
  lg_providerMessageId :: "string option"
  lg_provider :: "string option"
  lg_providerResponse :: "string option"
  lg_sentAt :: "timestamp option"
  lg_deliveredAt :: "timestamp option"
  lg_openedAt :: "timestamp option"
  lg_clickedAt :: "timestamp option"
  lg_createdAt :: timestamp

record aggregation =
  ag_id :: string
  ag_userId :: string
  ag_aggregationKey :: string
  ag_count :: int
  ag_latestNotificationId :: string
  ag_windowStartedAt :: timestamp
  ag_lastNotificationAt :: timestamp
  ag_cooldownSeconds :: int
  ag_sent :: bool
  ag_createdAt :: timestamp

record channel_payload =
  cp_notificationId :: string
  cp_userId :: string
  cp_channel :: notification_channel
  cp_title :: string
  cp_body :: string
  cp_htmlBody :: "string option"
  cp_recipientAddress :: string
  cp_metadata :: "string option"
  cp_priority :: notification_priority

record channel_result =
  cr_status :: log_status
  cr_providerMessageId :: "string option"
  cr_provider :: "string option"
  cr_providerResponse :: "string option"
  cr_errorMessage :: "string option"

type_synonym channel_provider = "channel_payload \<Rightarrow> nat \<Rightarrow> channel_result result"

section \<open>State\<close>

text \<open>A queued job; one that is being processed is locked, and its removal is refused with a message.\<close>

record queue_job =
  qj_notificationId :: string
  qj_delay :: int
  qj_priority :: "int option"
  qj_locked :: "string option"

record ('n, 'g, 'p, 'a, 't) notice_repos =
  nr_notifs :: "('n, notification) table_ops"
  nr_logs :: "('g, delivery_log) table_ops"
  nr_prefs :: "('p, notification_preference) table_ops"
  nr_aggs :: "('a, aggregation) table_ops"
  nr_templates :: "('t, notification_template) table_ops"
  nr_hour :: "string \<Rightarrow> timestamp \<Rightarrow> int option"
  nr_readCursor :: "string \<Rightarrow> (timestamp \<times> string) option"
  nr_writeCursor :: "timestamp \<Rightarrow> string \<Rightarrow> string"
  nr_column :: "string \<Rightarrow> notification \<Rightarrow> notification \<Rightarrow> int"
  nr_idOrder :: "string \<Rightarrow> string \<Rightarrow> int"
  nr_anyChannel :: "notification_channel \<Rightarrow> notification \<Rightarrow> bool"

record ('n, 'g, 'p, 'a, 't) notice_world =
  nw_notifs :: 'n
  nw_logs :: 'g
  nw_prefs :: 'p
  nw_aggs :: 'a
  nw_templates :: 't
  nw_jobs :: "queue_job list"
  nw_providers :: "(notification_channel, channel_provider) js_map"
  nw_handed :: "channel_payload list"

definition on_notifs :: "('n, 'x) io \<Rightarrow> (('n, 'g, 'p, 'a, 't) notice_world, 'x) io" where
  "on_notifs = on_part nw_notifs (\<lambda>d w. w\<lparr>nw_notifs := d\<rparr>)"

definition on_logs :: "('g, 'x) io \<Rightarrow> (('n, 'g, 'p, 'a, 't) notice_world, 'x) io" where
  "on_logs = on_part nw_logs (\<lambda>d w. w\<lparr>nw_logs := d\<rparr>)"

definition on_preferences :: "('p, 'x) io \<Rightarrow> (('n, 'g, 'p, 'a, 't) notice_world, 'x) io" where
  "on_preferences = on_part nw_prefs (\<lambda>d w. w\<lparr>nw_prefs := d\<rparr>)"

definition on_aggs :: "('a, 'x) io \<Rightarrow> (('n, 'g, 'p, 'a, 't) notice_world, 'x) io" where
  "on_aggs = on_part nw_aggs (\<lambda>d w. w\<lparr>nw_aggs := d\<rparr>)"

definition on_templates :: "('t, 'x) io \<Rightarrow> (('n, 'g, 'p, 'a, 't) notice_world, 'x) io" where
  "on_templates = on_part nw_templates (\<lambda>d w. w\<lparr>nw_templates := d\<rparr>)"

section \<open>Aggregation\<close>

definition DEFAULT_COOLDOWN_SECONDS :: int where
  "DEFAULT_COOLDOWN_SECONDS = 300"

record aggregation_check =
  ac_shouldSuppress :: bool
  ac_aggregation :: "aggregation option"
  ac_currentCount :: int

definition new_window :: "timestamp \<Rightarrow> string \<Rightarrow> string \<Rightarrow> string \<Rightarrow> int \<Rightarrow> aggregation" where
  "new_window now rowId userId aggregationKey cooldownSeconds =
     \<lparr>ag_id = rowId, ag_userId = userId, ag_aggregationKey = aggregationKey, ag_count = 1, ag_latestNotificationId = [],
      ag_windowStartedAt = now, ag_lastNotificationAt = now, ag_cooldownSeconds = cooldownSeconds, ag_sent = False, ag_createdAt = now\<rparr>"

definition open_window :: "string \<Rightarrow> string \<Rightarrow> aggregation \<Rightarrow> bool" where
  "open_window userId aggregationKey a \<longleftrightarrow> ag_userId a = userId \<and> ag_aggregationKey a = aggregationKey \<and> \<not> ag_sent a"

definition checkAggregation ::
  "('a, aggregation) table_ops \<Rightarrow> timestamp \<Rightarrow> string \<Rightarrow> string \<Rightarrow> string \<Rightarrow> int \<Rightarrow> ('a, aggregation_check) io" where
  "checkAggregation ops now rowId userId aggregationKey cooldownSeconds =
     (if aggregationKey = [] then io_return \<lparr>ac_shouldSuppress = False, ac_aggregation = None, ac_currentCount = 0\<rparr>
      else
        let newAgg = new_window now rowId userId aggregationKey cooldownSeconds;
            opened = \<lparr>ac_shouldSuppress = False, ac_aggregation = Some newAgg, ac_currentCount = 1\<rparr>
        in io_bind (to_findOne ops (open_window userId aggregationKey) any_order) (\<lambda>found.
             case found of
               None \<Rightarrow> io_bind (to_save ops newAgg) (\<lambda>_. io_return opened)
             | Some existing \<Rightarrow>
                 if now - ag_lastNotificationAt existing < ag_cooldownSeconds existing * 1000
                 then let e = existing\<lparr>ag_count := ag_count existing + 1, ag_lastNotificationAt := now\<rparr>
                      in io_bind (to_save ops e) (\<lambda>_.
                           io_return \<lparr>ac_shouldSuppress = True, ac_aggregation = Some e, ac_currentCount = ag_count e\<rparr>)
                 else io_bind (to_save ops (existing\<lparr>ag_sent := True\<rparr>)) (\<lambda>_.
                        io_bind (to_save ops newAgg) (\<lambda>_. io_return opened))))"

definition linkNotification :: "('a, aggregation) table_ops \<Rightarrow> string \<Rightarrow> string \<Rightarrow> ('a, unit) io" where
  "linkNotification ops aggregationId notificationId =
     to_update ops (\<lambda>a. ag_id a = aggregationId) (\<lambda>a. a\<lparr>ag_latestNotificationId := notificationId\<rparr>)"

definition markSent :: "('a, aggregation) table_ops \<Rightarrow> string \<Rightarrow> ('a, unit) io" where
  "markSent ops aggregationId = to_update ops (\<lambda>a. ag_id a = aggregationId) (\<lambda>a. a\<lparr>ag_sent := True\<rparr>)"

definition newest_window :: "aggregation \<Rightarrow> aggregation \<Rightarrow> int" where
  "newest_window a b = ag_createdAt b - ag_createdAt a"

definition getAggregationStats :: "('a, aggregation) table_ops \<Rightarrow> string \<Rightarrow> string \<Rightarrow> ('a, (int \<times> timestamp) option) io" where
  "getAggregationStats ops userId aggregationKey =
     io_bind (to_findOne ops (open_window userId aggregationKey) newest_window) (\<lambda>agg.
       io_return (map_option (\<lambda>a. (ag_count a, ag_lastNotificationAt a)) agg))"

section \<open>The queue\<close>

definition add_job :: "queue_job \<Rightarrow> (('n, 'g, 'p, 'a, 't) notice_world, unit) io" where
  "add_job j w = (Inr (), w\<lparr>nw_jobs := nw_jobs w @ [j]\<rparr>)"

definition enqueueNotification :: "string \<Rightarrow> int option \<Rightarrow> (('n, 'g, 'p, 'a, 't) notice_world, unit) io" where
  "enqueueNotification notificationId priority =
     add_job \<lparr>qj_notificationId = notificationId, qj_delay = 0, qj_priority = priority, qj_locked = None\<rparr>"

definition enqueueScheduledNotification :: "timestamp \<Rightarrow> string \<Rightarrow> timestamp \<Rightarrow> (('n, 'g, 'p, 'a, 't) notice_world, unit) io" where
  "enqueueScheduledNotification now notificationId scheduledAt =
     (let delay = scheduledAt - now
      in if delay \<le> 0 then enqueueNotification notificationId None
         else add_job \<lparr>qj_notificationId = notificationId, qj_delay = delay, qj_priority = None, qj_locked = None\<rparr>)"

fun remove_job :: "string \<Rightarrow> queue_job list \<Rightarrow> (bool \<times> queue_job list) result" where
  "remove_job notificationId [] = Inr (False, [])"
| "remove_job notificationId (j # js) =
     (if qj_notificationId j = notificationId
      then (case qj_locked j of Some e \<Rightarrow> Inl (PlainError e) | None \<Rightarrow> Inr (True, js))
      else (case remove_job notificationId js of Inl e \<Rightarrow> Inl e | Inr (b, rest) \<Rightarrow> Inr (b, j # rest)))"

definition cancelNotification :: "string \<Rightarrow> (('n, 'g, 'p, 'a, 't) notice_world, bool) io" where
  "cancelNotification notificationId w =
     (case remove_job notificationId (nw_jobs w) of
        Inl e \<Rightarrow> (Inl e, w)
      | Inr (b, js) \<Rightarrow> (Inr b, w\<lparr>nw_jobs := js\<rparr>))"

section \<open>Sending\<close>

record send_dto =
  sn_userId :: string
  sn_title :: string
  sn_body :: string
  sn_htmlBody :: "string option"
  sn_category :: "notification_category option"
  sn_priority :: "notification_priority option"
  sn_primaryChannel :: "notification_channel option"
  sn_channels :: "notification_channel list option"
  sn_templateName :: "string option"
  sn_templateVars :: "template_vars option"
  sn_referenceId :: "string option"
  sn_referenceType :: "string option"
  sn_aggregationKey :: "string option"
  sn_scheduledAt :: "timestamp option"
  sn_maxAttempts :: "int option"
  sn_metadata :: "string option"

text \<open>The row of a notification, with the defaults of its columns.\<close>

definition notification_of :: "timestamp \<Rightarrow> string \<Rightarrow> send_dto \<Rightarrow> notification" where
  "notification_of now rowId dto =
     \<lparr>nf_id = rowId, nf_userId = sn_userId dto, nf_title = sn_title dto, nf_body = sn_body dto, nf_htmlBody = sn_htmlBody dto,
      nf_category = nullish (sn_category dto) Cat_System, nf_priority = nullish (sn_priority dto) Prio_Normal,
      nf_status = Note_Pending, nf_primaryChannel = nullish (sn_primaryChannel dto) Ch_In_App, nf_channels = sn_channels dto,
      nf_templateName = sn_templateName dto, nf_templateVars = sn_templateVars dto, nf_referenceId = sn_referenceId dto,
      nf_referenceType = sn_referenceType dto, nf_read = False, nf_readAt = None, nf_clicked = False, nf_clickedAt = None,
      nf_scheduledAt = None, nf_sentAt = None, nf_deliveredAt = None, nf_attemptCount = 0, nf_maxAttempts = 5, nf_errorMessage = None,
      nf_aggregationKey = sn_aggregationKey dto, nf_aggregationCount = 0, nf_metadata = None, nf_deleted = False, nf_createdAt = now\<rparr>"

definition suppressed_notification :: "timestamp \<Rightarrow> string \<Rightarrow> send_dto \<Rightarrow> int \<Rightarrow> notification" where
  "suppressed_notification now rowId dto currentCount =
     (notification_of now rowId dto)\<lparr>nf_aggregationCount := currentCount, nf_status := Note_Cancelled,
       nf_metadata := Some ''{\"suppressedByAggregation\":true}''\<rparr>"

text \<open>Title, body and HTML body after the template; a failure to load it is caught.\<close>

definition render_notification ::
  "('n, 'g, 'p, 'a, 't) notice_repos \<Rightarrow> send_dto \<Rightarrow> (('n, 'g, 'p, 'a, 't) notice_world, string \<times> string \<times> string option) io" where
  "render_notification rp dto =
     (let raw = (sn_title dto, sn_body dto, sn_htmlBody dto)
      in case (sn_templateName dto, sn_templateVars dto) of
           (Some name, Some vars) \<Rightarrow>
             if name = [] then io_return raw
             else io_catch
               (io_bind (on_templates (getTemplate (nr_templates rp) name)) (\<lambda>t.
                  io_return
                    ((case nt_subject t of Some s \<Rightarrow> if s \<noteq> [] then renderBody s vars else sn_title dto | None \<Rightarrow> sn_title dto),
                     renderBody (nt_bodyTemplate t) vars,
                     (case nt_htmlTemplate t of Some h \<Rightarrow> if h \<noteq> [] then Some (renderBody h vars) else sn_htmlBody dto | None \<Rightarrow> sn_htmlBody dto))))
               (\<lambda>_. io_return raw)
         | _ \<Rightarrow> io_return raw)"

definition created_notification :: "timestamp \<Rightarrow> string \<Rightarrow> send_dto \<Rightarrow> string \<times> string \<times> string option \<Rightarrow> notification" where
  "created_notification now rowId dto texts =
     (case texts of (title, body, htmlBody) \<Rightarrow>
       (notification_of now rowId dto)\<lparr>nf_title := title, nf_body := body, nf_htmlBody := htmlBody,
         nf_channels := Some (nullish (sn_channels dto) [nullish (sn_primaryChannel dto) Ch_In_App]),
         nf_aggregationCount := (if truthy (sn_aggregationKey dto) then 1 else 0),
         nf_maxAttempts := (case sn_maxAttempts dto of None \<Rightarrow> 5 | Some k \<Rightarrow> if k = 0 then 5 else k),
         nf_scheduledAt := sn_scheduledAt dto,
         nf_status := (if sn_scheduledAt dto \<noteq> None then Note_Scheduled else Note_Queued),
         nf_metadata := sn_metadata dto\<rparr>)"

definition priorityToNumber :: "notification_priority \<Rightarrow> int" where
  "priorityToNumber p = (case p of Prio_Critical \<Rightarrow> 1 | Prio_High \<Rightarrow> 2 | Prio_Normal \<Rightarrow> 3 | Prio_Low \<Rightarrow> 4)"

definition link_aggregation :: "('n, 'g, 'p, 'a, 't) notice_repos \<Rightarrow> send_dto \<Rightarrow> string \<Rightarrow> (('n, 'g, 'p, 'a, 't) notice_world, unit) io" where
  "link_aggregation rp dto notificationId =
     (if \<not> truthy (sn_aggregationKey dto) then io_return ()
      else
        let key = nullish (sn_aggregationKey dto) []
        in io_bind (on_aggs (getAggregationStats (nr_aggs rp) (sn_userId dto) key)) (\<lambda>aggStats.
             case aggStats of
               None \<Rightarrow> io_return ()
             | Some _ \<Rightarrow>
                 io_bind (on_aggs (to_find (nr_aggs rp) (open_window (sn_userId dto) key) newest_window)) (\<lambda>aggRecords.
                   case take 1 aggRecords of
                     [] \<Rightarrow> io_return ()
                   | a # _ \<Rightarrow> on_aggs (linkNotification (nr_aggs rp) (ag_id a) notificationId))))"

definition create_and_queue ::
  "('n, 'g, 'p, 'a, 't) notice_repos \<Rightarrow> timestamp \<Rightarrow> string \<Rightarrow> send_dto \<Rightarrow> (('n, 'g, 'p, 'a, 't) notice_world, notification) io" where
  "create_and_queue rp now rowId dto =
     io_bind (render_notification rp dto) (\<lambda>texts.
       let saved = created_notification now rowId dto texts
       in io_bind (on_notifs (to_save (nr_notifs rp) saved)) (\<lambda>_.
          io_bind (link_aggregation rp dto (nf_id saved)) (\<lambda>_.
          io_bind (case sn_scheduledAt dto of
                     None \<Rightarrow> enqueueNotification (nf_id saved) (Some (priorityToNumber (nf_priority saved)))
                   | Some at' \<Rightarrow> enqueueScheduledNotification now (nf_id saved) at') (\<lambda>_.
            io_return saved))))"

text \<open>\<open>aggId\<close> and \<open>rowId\<close> are the ids the rows get when they are created.\<close>

definition send_notification ::
  "('n, 'g, 'p, 'a, 't) notice_repos \<Rightarrow> timestamp \<Rightarrow> string \<Rightarrow> string \<Rightarrow> send_dto \<Rightarrow> (('n, 'g, 'p, 'a, 't) notice_world, notification) io" where
  "send_notification rp now aggId rowId dto =
     (if \<not> truthy (sn_aggregationKey dto) then create_and_queue rp now rowId dto
      else
        io_bind (on_aggs (checkAggregation (nr_aggs rp) now aggId (sn_userId dto) (nullish (sn_aggregationKey dto) []) DEFAULT_COOLDOWN_SECONDS))
          (\<lambda>aggResult.
            if ac_shouldSuppress aggResult
            then let suppressed = suppressed_notification now rowId dto (ac_currentCount aggResult)
                 in io_bind (on_notifs (to_save (nr_notifs rp) suppressed)) (\<lambda>_. io_return suppressed)
            else create_and_queue rp now rowId dto))"

fun sendBulk ::
  "('n, 'g, 'p, 'a, 't) notice_repos \<Rightarrow> timestamp \<Rightarrow> (nat \<Rightarrow> string) \<Rightarrow> nat \<Rightarrow> send_dto list \<Rightarrow>
    (('n, 'g, 'p, 'a, 't) notice_world, notification list) io" where
  "sendBulk rp now newId n [] = io_return []"
| "sendBulk rp now newId n (dto # dtos) =
     io_bind (io_catch (io_bind (send_notification rp now (newId (2 * n)) (newId (2 * n + 1)) dto) (\<lambda>x. io_return (Some x))) (\<lambda>_. io_return None)) (\<lambda>sent.
       io_bind (sendBulk rp now newId (n + 1) dtos) (\<lambda>rest.
         io_return (case sent of None \<Rightarrow> rest | Some x \<Rightarrow> x # rest)))"

definition notification_status_text :: "notification_status \<Rightarrow> string" where
  "notification_status_text s =
     (case s of Note_Pending \<Rightarrow> ''pending'' | Note_Queued \<Rightarrow> ''queued'' | Note_Sending \<Rightarrow> ''sending'' | Note_Sent \<Rightarrow> ''sent''
      | Note_Delivered \<Rightarrow> ''delivered'' | Note_Failed \<Rightarrow> ''failed'' | Note_Cancelled \<Rightarrow> ''cancelled'' | Note_Scheduled \<Rightarrow> ''scheduled'')"

definition getById :: "('n, 'g, 'p, 'a, 't) notice_repos \<Rightarrow> string \<Rightarrow> (('n, 'g, 'p, 'a, 't) notice_world, notification) io" where
  "getById rp notificationId =
     io_bind (on_notifs (to_findOne (nr_notifs rp) (\<lambda>n. nf_id n = notificationId) any_order)) (\<lambda>found.
       case found of
         None \<Rightarrow> io_throw (NotFound (''Notification '' @ notificationId @ '' not found''))
       | Some n \<Rightarrow> io_return n)"

definition cancel :: "('n, 'g, 'p, 'a, 't) notice_repos \<Rightarrow> string \<Rightarrow> (('n, 'g, 'p, 'a, 't) notice_world, notification) io" where
  "cancel rp notificationId =
     io_bind (on_notifs (to_findOne (nr_notifs rp) (\<lambda>n. nf_id n = notificationId) any_order)) (\<lambda>found.
       case found of
         None \<Rightarrow> io_throw (NotFound (''Notification '' @ notificationId @ '' not found''))
       | Some n \<Rightarrow>
           if nf_status n \<noteq> Note_Scheduled
           then io_throw (BadRequest (''Cannot cancel notification in status '' @ notification_status_text (nf_status n)))
           else
             io_bind (cancelNotification notificationId) (\<lambda>_.
               let c = n\<lparr>nf_status := Note_Cancelled\<rparr>
               in io_bind (on_notifs (to_save (nr_notifs rp) c)) (\<lambda>_. io_return c)))"

section \<open>The inbox\<close>

record history_dto =
  hd_userId :: string
  hd_limit :: "nat option"
  hd_cursor :: "string option"
  hd_category :: "notification_category option"
  hd_channel :: "notification_channel option"
  hd_read :: "bool option"
  hd_status :: "notification_status option"
  hd_priority :: "notification_priority option"
  hd_after :: "timestamp option"
  hd_before :: "timestamp option"
  hd_sortBy :: "string option"
  hd_sortDesc :: bool

definition history_filter :: "('n, 'g, 'p, 'a, 't) notice_repos \<Rightarrow> history_dto \<Rightarrow> notification \<Rightarrow> bool" where
  "history_filter rp dto n \<longleftrightarrow>
     nf_userId n = hd_userId dto \<and> \<not> nf_deleted n \<and>
     (case hd_category dto of None \<Rightarrow> True | Some c \<Rightarrow> nf_category n = c) \<and>
     (case hd_channel dto of None \<Rightarrow> True | Some c \<Rightarrow> nf_primaryChannel n = c \<or> nr_anyChannel rp c n) \<and>
     (case hd_read dto of None \<Rightarrow> True | Some b \<Rightarrow> nf_read n = b) \<and>
     (case hd_status dto of None \<Rightarrow> True | Some st \<Rightarrow> nf_status n = st) \<and>
     (case hd_priority dto of None \<Rightarrow> True | Some p \<Rightarrow> nf_priority n = p) \<and>
     (case hd_after dto of None \<Rightarrow> True | Some t \<Rightarrow> t < nf_createdAt n) \<and>
     (case hd_before dto of None \<Rightarrow> True | Some t \<Rightarrow> nf_createdAt n < t)"

definition after_cursor :: "('n, 'g, 'p, 'a, 't) notice_repos \<Rightarrow> timestamp \<times> string \<Rightarrow> notification \<Rightarrow> bool" where
  "after_cursor rp c n \<longleftrightarrow> nf_createdAt n < fst c \<or> nf_createdAt n = fst c \<and> nr_idOrder rp (nf_id n) (snd c) < 0"

definition history_order :: "('n, 'g, 'p, 'a, 't) notice_repos \<Rightarrow> history_dto \<Rightarrow> notification \<Rightarrow> notification \<Rightarrow> int" where
  "history_order rp dto a b =
     (let column = (case hd_sortBy dto of None \<Rightarrow> ''createdAt'' | Some c \<Rightarrow> if c = [] then ''createdAt'' else c);
          up = or_else (nr_column rp column a b) (nr_idOrder rp (nf_id a) (nf_id b))
      in if hd_sortDesc dto then - up else up)"

record history_page =
  hg_data :: "notification list"
  hg_total :: nat
  hg_nextCursor :: "string option"

definition getHistory :: "('n, 'g, 'p, 'a, 't) notice_repos \<Rightarrow> history_dto \<Rightarrow> (('n, 'g, 'p, 'a, 't) notice_world, history_page) io" where
  "getHistory rp dto =
     (let cursor = (if truthy (hd_cursor dto) then hd_cursor dto else None);
          decoded = (case cursor of None \<Rightarrow> None | Some c \<Rightarrow> nr_readCursor rp c);
          P = (\<lambda>n. history_filter rp dto n \<and> (case decoded of None \<Rightarrow> True | Some c \<Rightarrow> after_cursor rp c n));
          limit = (case hd_limit dto of None \<Rightarrow> 20 | Some k \<Rightarrow> if k = 0 then 20 else k)
      in if cursor \<noteq> None \<and> decoded = None then io_throw (BadRequest ''Invalid cursor'')
         else io_bind (on_notifs (to_find (nr_notifs rp) P (history_order rp dto))) (\<lambda>rows.
                let hasMore = limit < length (take (limit + 1) rows); results = take limit rows
                in io_bind (on_notifs (to_find (nr_notifs rp) P (history_order rp dto))) (\<lambda>counted.
                     io_return \<lparr>hg_data = results, hg_total = length counted,
                       hg_nextCursor = (if hasMore \<and> results \<noteq> [] then Some (nr_writeCursor rp (nf_createdAt (last results)) (nf_id (last results))) else None)\<rparr>)))"

definition markAsRead :: "('n, 'g, 'p, 'a, 't) notice_repos \<Rightarrow> timestamp \<Rightarrow> string list \<Rightarrow> (('n, 'g, 'p, 'a, 't) notice_world, unit) io" where
  "markAsRead rp now notificationIds =
     on_notifs (to_update (nr_notifs rp) (\<lambda>n. nf_id n \<in> set notificationIds \<and> \<not> nf_read n) (\<lambda>n. n\<lparr>nf_read := True, nf_readAt := Some now\<rparr>))"

definition markAllAsRead ::
  "('n, 'g, 'p, 'a, 't) notice_repos \<Rightarrow> timestamp \<Rightarrow> string \<Rightarrow> notification_category option \<Rightarrow> timestamp option \<Rightarrow>
    (('n, 'g, 'p, 'a, 't) notice_world, unit) io" where
  "markAllAsRead rp now userId category before =
     on_notifs (to_update (nr_notifs rp)
       (\<lambda>n. nf_userId n = userId \<and> \<not> nf_read n \<and> (case category of None \<Rightarrow> True | Some c \<Rightarrow> nf_category n = c) \<and>
         (case before of None \<Rightarrow> True | Some t \<Rightarrow> nf_createdAt n \<le> t))
       (\<lambda>n. n\<lparr>nf_read := True, nf_readAt := Some now\<rparr>))"

definition markAsUnread :: "('n, 'g, 'p, 'a, 't) notice_repos \<Rightarrow> string list \<Rightarrow> (('n, 'g, 'p, 'a, 't) notice_world, unit) io" where
  "markAsUnread rp notificationIds =
     on_notifs (to_update (nr_notifs rp) (\<lambda>n. nf_id n \<in> set notificationIds \<and> nf_read n) (\<lambda>n. n\<lparr>nf_read := False, nf_readAt := None\<rparr>))"

definition trackClick :: "('n, 'g, 'p, 'a, 't) notice_repos \<Rightarrow> timestamp \<Rightarrow> string \<Rightarrow> (('n, 'g, 'p, 'a, 't) notice_world, unit) io" where
  "trackClick rp now notificationId =
     io_bind (on_notifs (to_update (nr_notifs rp) (\<lambda>n. nf_id n = notificationId) (\<lambda>n. n\<lparr>nf_clicked := True, nf_clickedAt := Some now\<rparr>))) (\<lambda>_.
       on_logs (to_update (nr_logs rp) (\<lambda>l. lg_notificationId l = notificationId) (\<lambda>l. l\<lparr>lg_status := Log_Clicked, lg_clickedAt := Some now\<rparr>)))"

definition softDelete :: "('n, 'g, 'p, 'a, 't) notice_repos \<Rightarrow> string list \<Rightarrow> (('n, 'g, 'p, 'a, 't) notice_world, unit) io" where
  "softDelete rp notificationIds =
     on_notifs (to_update (nr_notifs rp) (\<lambda>n. nf_id n \<in> set notificationIds) (\<lambda>n. n\<lparr>nf_deleted := True\<rparr>))"

fun count_categories :: "notification list \<Rightarrow> (notification_category, nat) js_map" where
  "count_categories [] = []"
| "count_categories (n # ns) =
     (let m = count_categories ns in Map_set (nf_category n) (nullish (Map_get (nf_category n) m) 0 + 1) m)"

definition getUnreadCount ::
  "('n, 'g, 'p, 'a, 't) notice_repos \<Rightarrow> string \<Rightarrow> notification_category option \<Rightarrow>
    (('n, 'g, 'p, 'a, 't) notice_world, nat \<times> (notification_category, nat) js_map) io" where
  "getUnreadCount rp userId category =
     io_bind (on_notifs (to_find (nr_notifs rp)
       (\<lambda>n. nf_userId n = userId \<and> \<not> nf_read n \<and> \<not> nf_deleted n \<and> (case category of None \<Rightarrow> True | Some c \<Rightarrow> nf_category n = c)) any_order)) (\<lambda>rows.
       let byCategory = count_categories rows in io_return (sum_list (Map_values byCategory), byCategory))"

definition oldest_log :: "delivery_log \<Rightarrow> delivery_log \<Rightarrow> int" where
  "oldest_log a b = lg_createdAt a - lg_createdAt b"

definition getDeliveryStatus :: "('n, 'g, 'p, 'a, 't) notice_repos \<Rightarrow> string \<Rightarrow> (('n, 'g, 'p, 'a, 't) notice_world, delivery_log list) io" where
  "getDeliveryStatus rp notificationId = on_logs (to_find (nr_logs rp) (\<lambda>l. lg_notificationId l = notificationId) oldest_log)"

section \<open>The processor\<close>

definition registerProvider :: "notification_channel \<Rightarrow> channel_provider \<Rightarrow> (('n, 'g, 'p, 'a, 't) notice_world, unit) io" where
  "registerProvider channel provider w = (Inr (), w\<lparr>nw_providers := Map_set channel provider (nw_providers w)\<rparr>)"

definition or_null :: "string option \<Rightarrow> string option" where
  "or_null s = (if truthy s then s else None)"

definition resolveRecipientAddress :: "notification_preference option \<Rightarrow> notification_channel \<Rightarrow> string option" where
  "resolveRecipientAddress preference channel =
     (case preference of
        None \<Rightarrow> None
      | Some p \<Rightarrow>
          (case channel of
             Ch_Email \<Rightarrow> or_null (np_emailAddress p)
           | Ch_Sms \<Rightarrow> or_null (np_phoneNumber p)
           | Ch_Push \<Rightarrow> or_null (np_pushToken p)
           | Ch_Webhook \<Rightarrow> or_null (np_webhookUrl p)
           | Ch_In_App \<Rightarrow> or_null (Some (np_userId p))))"

definition getUserLocalHour :: "('n, 'g, 'p, 'a, 't) notice_repos \<Rightarrow> timestamp \<Rightarrow> string option \<Rightarrow> int option" where
  "getUserLocalHour rp now timezone =
     (case timezone of None \<Rightarrow> None | Some z \<Rightarrow> if z = [] then None else nr_hour rp z now)"

definition in_quiet_hours :: "('n, 'g, 'p, 'a, 't) notice_repos \<Rightarrow> timestamp \<Rightarrow> notification_preference \<Rightarrow> bool" where
  "in_quiet_hours rp now p =
     (case (np_quietHoursStart p, np_quietHoursEnd p) of
        (Some start, Some stop) \<Rightarrow>
          (case getUserLocalHour rp now (np_timezone p) of
             None \<Rightarrow> False
           | Some userHour \<Rightarrow> start \<le> userHour \<and> userHour < stop)
      | _ \<Rightarrow> False)"

definition priorityOrder :: "string list" where
  "priorityOrder = [''low'', ''normal'', ''high'', ''critical'']"

definition priority_text :: "notification_priority \<Rightarrow> string" where
  "priority_text p = (case p of Prio_Low \<Rightarrow> ''low'' | Prio_Normal \<Rightarrow> ''normal'' | Prio_High \<Rightarrow> ''high'' | Prio_Critical \<Rightarrow> ''critical'')"

text \<open>\<^verbatim>\<open>indexOf\<close>: -1 when absent.\<close>

fun index_from :: "int \<Rightarrow> string \<Rightarrow> string list \<Rightarrow> int" where
  "index_from i x [] = -1"
| "index_from i x (y # ys) = (if x = y then i else index_from (i + 1) x ys)"

definition below_threshold :: "notification_priority \<Rightarrow> notification_preference \<Rightarrow> bool" where
  "below_threshold priority p =
     (case or_null (np_minPriority p) of
        None \<Rightarrow> False
      | Some minPriority \<Rightarrow> minPriority \<noteq> ''low'' \<and>
          index_from 0 (priority_text priority) priorityOrder < index_from 0 minPriority priorityOrder)"

definition call_provider :: "channel_provider \<Rightarrow> channel_payload \<Rightarrow> (('n, 'g, 'p, 'a, 't) notice_world, channel_result) io" where
  "call_provider provider q w = (provider q (length (nw_handed w)), w\<lparr>nw_handed := nw_handed w @ [q]\<rparr>)"

definition new_log :: "timestamp \<Rightarrow> string \<Rightarrow> notification \<Rightarrow> notification_channel \<Rightarrow> delivery_log" where
  "new_log now rowId n channel =
     \<lparr>lg_id = rowId, lg_notificationId = nf_id n, lg_userId = nf_userId n, lg_channel = channel, lg_status = Log_Pending, lg_attemptCount = 0,
      lg_maxAttempts = nf_maxAttempts n, lg_errorMessage = None, lg_providerMessageId = None, lg_provider = None, lg_providerResponse = None,
      lg_sentAt = None, lg_deliveredAt = None, lg_openedAt = None, lg_clickedAt = None, lg_createdAt = now\<rparr>"

text \<open>A column that an update leaves undefined keeps its value.\<close>

definition given_column :: "'x option \<Rightarrow> 'x option \<Rightarrow> 'x option" where
  "given_column new old = (case new of None \<Rightarrow> old | Some x \<Rightarrow> Some x)"

definition log_result :: "timestamp \<Rightarrow> channel_result \<Rightarrow> delivery_log \<Rightarrow> delivery_log" where
  "log_result now r l =
     l\<lparr>lg_status := cr_status r, lg_providerMessageId := given_column (cr_providerMessageId r) (lg_providerMessageId l),
       lg_provider := given_column (cr_provider r) (lg_provider l), lg_providerResponse := given_column (cr_providerResponse r) (lg_providerResponse l),
       lg_errorMessage := given_column (cr_errorMessage r) (lg_errorMessage l),
       lg_sentAt := (if cr_status r = Log_Sent then Some now else lg_sentAt l),
       lg_deliveredAt := (if cr_status r = Log_Delivered then Some now else lg_deliveredAt l)\<rparr>"

definition hand_over ::
  "('n, 'g, 'p, 'a, 't) notice_repos \<Rightarrow> timestamp \<Rightarrow> string \<Rightarrow> notification \<Rightarrow> notification_channel \<Rightarrow> channel_provider \<Rightarrow> string \<Rightarrow>
    (('n, 'g, 'p, 'a, 't) notice_world, unit) io" where
  "hand_over rp now logId n channel provider recipientAddress =
     io_bind (on_logs (to_save (nr_logs rp) (new_log now logId n channel))) (\<lambda>_.
       io_catch
         (io_bind (call_provider provider
            \<lparr>cp_notificationId = nf_id n, cp_userId = nf_userId n, cp_channel = channel, cp_title = nf_title n, cp_body = nf_body n,
             cp_htmlBody = nf_htmlBody n, cp_recipientAddress = recipientAddress, cp_metadata = nf_metadata n, cp_priority = nf_priority n\<rparr>) (\<lambda>r.
            on_logs (to_update (nr_logs rp) (\<lambda>l. lg_id l = logId) (log_result now r))))
         (\<lambda>e. on_logs (to_update (nr_logs rp) (\<lambda>l. lg_id l = logId) (\<lambda>l. l\<lparr>lg_status := Log_Failed, lg_errorMessage := Some (error_message e)\<rparr>))))"

text \<open>
  One channel. Reading a field of an absent preference with \<^verbatim>\<open>?.\<close> gives undefined, which differs from
  null, so that the block of the quiet hours is entered and reads the time zone of null.
\<close>

definition no_timezone_of_null :: http_error where
  "no_timezone_of_null = PlainError ''Cannot read properties of null (reading 'timezone')''"

definition deliver_channel ::
  "('n, 'g, 'p, 'a, 't) notice_repos \<Rightarrow> timestamp \<Rightarrow> string \<Rightarrow> notification \<Rightarrow> notification_channel \<Rightarrow> (('n, 'g, 'p, 'a, 't) notice_world, unit) io" where
  "deliver_channel rp now logId n channel w =
     io_bind (on_preferences (to_findOne (nr_prefs rp) (same_slot (nf_userId n) (nf_category n) (channel_text channel)) any_order)) (\<lambda>preference.
       case preference of
         None \<Rightarrow> io_throw no_timezone_of_null
       | Some p \<Rightarrow>
           if np_preference p = Pref_Disabled then io_return ()
           else if in_quiet_hours rp now p then io_return ()
           else if below_threshold (nf_priority n) p then io_return ()
           else (case Map_get channel (nw_providers w) of
                   None \<Rightarrow> io_return ()
                 | Some provider \<Rightarrow>
                     (case resolveRecipientAddress (Some p) channel of
                        None \<Rightarrow> io_return ()
                      | Some recipientAddress \<Rightarrow> hand_over rp now logId n channel provider recipientAddress))) w"

fun deliver_channels ::
  "('n, 'g, 'p, 'a, 't) notice_repos \<Rightarrow> timestamp \<Rightarrow> (nat \<Rightarrow> string) \<Rightarrow> nat \<Rightarrow> notification \<Rightarrow> notification_channel list \<Rightarrow>
    (('n, 'g, 'p, 'a, 't) notice_world, unit) io" where
  "deliver_channels rp now newId k n [] = io_return ()"
| "deliver_channels rp now newId k n (c # cs) =
     io_bind (deliver_channel rp now (newId k) n c) (\<lambda>_. deliver_channels rp now newId (k + 1) n cs)"

definition final_status :: "notification \<Rightarrow> delivery_log list \<Rightarrow> notification_status" where
  "final_status n allLogs =
     (let allDelivered = allLogs \<noteq> [] \<and> list_all (\<lambda>l. lg_status l = Log_Delivered \<or> lg_status l = Log_Sent) allLogs;
          anyFailed = list_ex (\<lambda>l. lg_status l = Log_Failed) allLogs
      in if allDelivered then Note_Delivered
         else if anyFailed \<and> nf_attemptCount n \<ge> nf_maxAttempts n then Note_Failed
         else Note_Queued)"

definition channels_of :: "notification \<Rightarrow> notification_channel list" where
  "channels_of n = nullish (nf_channels n) [nf_primaryChannel n]"

definition processNotification ::
  "('n, 'g, 'p, 'a, 't) notice_repos \<Rightarrow> timestamp \<Rightarrow> (nat \<Rightarrow> string) \<Rightarrow> string \<Rightarrow> (('n, 'g, 'p, 'a, 't) notice_world, unit) io" where
  "processNotification rp now newId notificationId =
     io_bind (on_notifs (to_findOne (nr_notifs rp) (\<lambda>n. nf_id n = notificationId) any_order)) (\<lambda>found.
       case found of
         None \<Rightarrow> io_return ()
       | Some n \<Rightarrow>
           if nf_status n = Note_Cancelled then io_return ()
           else
             io_bind (on_notifs (to_update (nr_notifs rp) (\<lambda>x. nf_id x = notificationId)
               (\<lambda>x. x\<lparr>nf_status := Note_Sending, nf_attemptCount := nf_attemptCount n + 1\<rparr>))) (\<lambda>_.
             io_bind (deliver_channels rp now newId 0 n (channels_of n)) (\<lambda>_.
             io_bind (on_logs (to_find (nr_logs rp) (\<lambda>l. lg_notificationId l = notificationId) any_order)) (\<lambda>allLogs.
               on_notifs (to_update (nr_notifs rp) (\<lambda>x. nf_id x = notificationId)
                 (\<lambda>x. x\<lparr>nf_status := final_status n allLogs, nf_sentAt := Some now,
                        nf_deliveredAt := (if final_status n allLogs = Note_Delivered then Some now else nf_deliveredAt x)\<rparr>))))))"

section \<open>Specification\<close>

locale notice_tables =
  n: sql_table "nr_notifs rp" nf_id nrows + g: sql_table "nr_logs rp" lg_id grows +
  p: sql_table "nr_prefs rp" np_id prows + a: sql_table "nr_aggs rp" ag_id arows
  for rp :: "('n, 'g, 'p, 'a, 't) notice_repos" and nrows :: "'n \<Rightarrow> string \<Rightarrow> notification option"
    and grows :: "'g \<Rightarrow> string \<Rightarrow> delivery_log option" and prows :: "'p \<Rightarrow> string \<Rightarrow> notification_preference option"
    and arows :: "'a \<Rightarrow> string \<Rightarrow> aggregation option"

text \<open>A payload the preferences of its user allow: to the address of a row that does not mute the channel.\<close>

definition allowed_payload ::
  "('n, 'g, 'p, 'a, 't) notice_repos \<Rightarrow> timestamp \<Rightarrow> (string \<Rightarrow> notification_preference option) \<Rightarrow> notification \<Rightarrow> channel_payload \<Rightarrow> bool" where
  "allowed_payload rp now prefs n q \<longleftrightarrow>
     cp_notificationId q = nf_id n \<and> cp_userId q = nf_userId n \<and> cp_title q = nf_title n \<and> cp_body q = nf_body n \<and>
     cp_channel q \<in> set (channels_of n) \<and>
     (\<exists>k p. prefs k = Some p \<and> same_slot (nf_userId n) (nf_category n) (channel_text (cp_channel q)) p \<and>
       np_preference p \<noteq> Pref_Disabled \<and> \<not> in_quiet_hours rp now p \<and> \<not> below_threshold (nf_priority n) p \<and>
       cp_recipientAddress q \<noteq> [] \<and> resolveRecipientAddress (Some p) (cp_channel q) = Some (cp_recipientAddress q))"

text \<open>The index on user and key: a second row for them is refused.\<close>

definition one_window_per_key :: "('a, aggregation) table_ops \<Rightarrow> ('a \<Rightarrow> string \<Rightarrow> aggregation option) \<Rightarrow> bool" where
  "one_window_per_key ops rows \<longleftrightarrow>
     (\<forall>db r k x. rows db k = Some x \<and> k \<noteq> ag_id r \<and> ag_userId x = ag_userId r \<and> ag_aggregationKey x = ag_aggregationKey r \<longrightarrow>
       (\<exists>e. fst (to_save ops r db) = Inl e))"

text \<open>Windows of a key none of which can be extended, and one is there.\<close>

definition stale :: "string \<Rightarrow> string \<Rightarrow> timestamp \<Rightarrow> (string \<Rightarrow> aggregation option) \<Rightarrow> bool" where
  "stale u key t rows \<longleftrightarrow>
     (\<exists>k x. rows k = Some x \<and> ag_userId x = u \<and> ag_aggregationKey x = key) \<and>
     (\<forall>k x. rows k = Some x \<and> open_window u key x \<longrightarrow> ag_cooldownSeconds x * 1000 \<le> t - ag_lastNotificationAt x)"

text \<open>The index in a table in memory.\<close>

definition indexed_aggs :: "(aggregation mem_table, aggregation) table_ops" where
  "indexed_aggs = indexed_table_ops ag_id (\<lambda>x r. ag_userId x = ag_userId r \<and> ag_aggregationKey x = ag_aggregationKey r)"

text \<open>Sends one after another, with their results.\<close>

fun send_each ::
  "('n, 'g, 'p, 'a, 't) notice_repos \<Rightarrow> (timestamp \<times> string \<times> string \<times> send_dto) list \<Rightarrow> ('n, 'g, 'p, 'a, 't) notice_world \<Rightarrow>
    notification result list \<times> ('n, 'g, 'p, 'a, 't) notice_world" where
  "send_each rp [] w = ([], w)"
| "send_each rp ((now, aggId, rowId, dto) # rest) w =
     (case send_notification rp now aggId rowId dto w of (r, w1) \<Rightarrow> (case send_each rp rest w1 of (rs, w2) \<Rightarrow> (r # rs, w2)))"

section \<open>Sample data\<close>

definition calm_notices :: "(notification mem_table, delivery_log mem_table, notification_preference mem_table, aggregation mem_table,
    notification_template mem_table) notice_repos" where
  "calm_notices = \<lparr>nr_notifs = calm_table_ops nf_id, nr_logs = calm_table_ops lg_id, nr_prefs = calm_table_ops np_id, nr_aggs = indexed_aggs,
     nr_templates = calm_table_ops nt_id, nr_hour = (\<lambda>z t. Some 12), nr_readCursor = (\<lambda>c. None), nr_writeCursor = (\<lambda>t i. i),
     nr_column = (\<lambda>c a b. 0), nr_idOrder = code_unit_compare, nr_anyChannel = (\<lambda>c n. False)\<rparr>"

definition sample_send :: "string option \<Rightarrow> timestamp option \<Rightarrow> send_dto" where
  "sample_send key at_time =
     \<lparr>sn_userId = ''u'', sn_title = ''t'', sn_body = ''b'', sn_htmlBody = None, sn_category = Some Cat_Marketing, sn_priority = None,
      sn_primaryChannel = Some Ch_Sms, sn_channels = None, sn_templateName = None, sn_templateVars = None, sn_referenceId = None,
      sn_referenceType = None, sn_aggregationKey = key, sn_scheduledAt = at_time, sn_maxAttempts = None, sn_metadata = None\<rparr>"

definition sample_provider :: channel_provider where
  "sample_provider q n = Inr \<lparr>cr_status = Log_Sent, cr_providerMessageId = None, cr_provider = None, cr_providerResponse = None, cr_errorMessage = None\<rparr>"

text \<open>A user with a preference for text messages, and one sent notification.\<close>

definition quiet_world where
  "quiet_world =
     \<lparr>nw_notifs = \<lparr>mt_rows = [], mt_faults = []\<rparr>, nw_logs = \<lparr>mt_rows = [], mt_faults = []\<rparr>,
      nw_prefs = \<lparr>mt_rows = [(blank_preference ''r'' ''u'' Cat_Marketing ''sms'' Pref_Enabled)\<lparr>np_phoneNumber := Some ''+123''\<rparr>], mt_faults = []\<rparr>,
      nw_aggs = \<lparr>mt_rows = [], mt_faults = []\<rparr>, nw_templates = \<lparr>mt_rows = [], mt_faults = []\<rparr>, nw_jobs = [],
      nw_providers = [(Ch_Sms, sample_provider)], nw_handed = []\<rparr>"

definition sent_world where
  "sent_world = snd (send_notification calm_notices 0 ''a'' ''n1'' (sample_send (Some ''k'') None) quiet_world)"

definition scheduled_world where
  "scheduled_world = snd (send_notification calm_notices 0 ''a'' ''n1'' (sample_send None (Some 60000)) quiet_world)"

definition other_category where
  "other_category = snd (send_notification calm_notices 0 ''a'' ''n1'' (sample_send None None\<lparr>sn_category := Some Cat_Billing\<rparr>) quiet_world)"

section \<open>Facts\<close>

lemma notice_parts_eq:
  "on_notifs m w = (fst (m (nw_notifs w)), w\<lparr>nw_notifs := snd (m (nw_notifs w))\<rparr>)"
  "on_logs m1 w = (fst (m1 (nw_logs w)), w\<lparr>nw_logs := snd (m1 (nw_logs w))\<rparr>)"
  "on_preferences m2 w = (fst (m2 (nw_prefs w)), w\<lparr>nw_prefs := snd (m2 (nw_prefs w))\<rparr>)"
  "on_aggs m3 w = (fst (m3 (nw_aggs w)), w\<lparr>nw_aggs := snd (m3 (nw_aggs w))\<rparr>)"
  "on_templates m4 w = (fst (m4 (nw_templates w)), w\<lparr>nw_templates := snd (m4 (nw_templates w))\<rparr>)"
  by (simp_all add: on_notifs_def on_logs_def on_preferences_def on_aggs_def on_templates_def on_part_eq)

lemma nullish_or: "truthy s \<Longrightarrow> s = Some (nullish s d) \<and> nullish s d \<noteq> []"
  by (cases s) auto

lemma resolved_nonempty: "resolveRecipientAddress p c = Some x \<Longrightarrow> x \<noteq> []"
  by (auto simp: resolveRecipientAddress_def or_null_def split: option.splits notification_channel.splits if_splits)

text \<open>What the steps of the processor do to the payloads, the preferences and the providers.\<close>

lemma hand_over_keeps: "nw_prefs (snd (hand_over rp now logId n c f x w)) = nw_prefs w"
  by (simp add: hand_over_def call_provider_def io_bind_run io_catch_def notice_parts_eq split: sum.split prod.split)

lemma hand_over_handed:
  "\<exists>qs. nw_handed (snd (hand_over rp now logId n c f x w)) = nw_handed w @ qs \<and>
     (\<forall>q \<in> set qs. cp_notificationId q = nf_id n \<and> cp_userId q = nf_userId n \<and> cp_title q = nf_title n \<and> cp_body q = nf_body n \<and>
       cp_channel q = c \<and> cp_recipientAddress q = x)"
  by (cases "fst (to_save (nr_logs rp) (new_log now logId n c) (nw_logs w))")
    (auto simp: hand_over_def call_provider_def io_bind_run io_catch_def notice_parts_eq split: sum.split prod.split)

context notice_tables
begin

lemma channel_payloads:
  assumes "c \<in> set (channels_of n)"
  shows "\<exists>qs. nw_handed (snd (deliver_channel rp now logId n c w)) = nw_handed w @ qs \<and>
    (\<forall>q \<in> set qs. allowed_payload rp now (prows (nw_prefs w)) n q)"
    "prows (nw_prefs (snd (deliver_channel rp now logId n c w))) = prows (nw_prefs w)"
proof -
  let ?find = "to_findOne (nr_prefs rp) (same_slot (nf_userId n) (nf_category n) (channel_text c)) any_order"
  let ?w1 = "w\<lparr>nw_prefs := snd (?find (nw_prefs w))\<rparr>"
  have w1: "prows (nw_prefs ?w1) = prows (nw_prefs w)" "nw_handed ?w1 = nw_handed w" by (simp_all add: p.findOne_rows)
  show "\<exists>qs. nw_handed (snd (deliver_channel rp now logId n c w)) = nw_handed w @ qs \<and>
      (\<forall>q \<in> set qs. allowed_payload rp now (prows (nw_prefs w)) n q)"
  proof (cases "fst (?find (nw_prefs w))")
    case (Inl e)
    then show ?thesis by (simp add: deliver_channel_def io_bind_run notice_parts_eq)
  next
    case (Inr found)
    show ?thesis
    proof (cases found)
      case None
      then show ?thesis using Inr by (simp add: deliver_channel_def io_bind_run notice_parts_eq io_throw_def)
    next
      case (Some pr)
      have pr: "same_slot (nf_userId n) (nf_category n) (channel_text c) pr" "prows (nw_prefs w) (np_id pr) = Some pr"
        using p.findOne_some Inr Some by auto
      show ?thesis
      proof (cases "np_preference pr \<noteq> Pref_Disabled \<and> \<not> in_quiet_hours rp now pr \<and> \<not> below_threshold (nf_priority n) pr \<and>
          Map_get c (nw_providers w) \<noteq> None \<and> resolveRecipientAddress (Some pr) c \<noteq> None")
        case False
        then have "deliver_channel rp now logId n c w = (Inr (), ?w1)"
          using Inr Some by (auto simp: deliver_channel_def io_bind_run notice_parts_eq io_return_def split: option.split)
        then show ?thesis by simp
      next
        case True
        then obtain f x where fx: "Map_get c (nw_providers w) = Some f" "resolveRecipientAddress (Some pr) c = Some x" by auto
        then have run: "deliver_channel rp now logId n c w = hand_over rp now logId n c f x ?w1"
          using Inr Some True by (simp add: deliver_channel_def io_bind_run notice_parts_eq)
        obtain qs where qs: "nw_handed (snd (hand_over rp now logId n c f x ?w1)) = nw_handed w @ qs"
          "\<forall>q \<in> set qs. cp_notificationId q = nf_id n \<and> cp_userId q = nf_userId n \<and> cp_title q = nf_title n \<and> cp_body q = nf_body n \<and>
            cp_channel q = c \<and> cp_recipientAddress q = x"
          using hand_over_handed [of rp now logId n c f x ?w1] by auto
        have "x \<noteq> []" by (rule resolved_nonempty [OF fx(2)])
        then have "allowed_payload rp now (prows (nw_prefs w)) n q" if "q \<in> set qs" for q
          using bspec [OF qs(2) that] True pr fx(2) assms unfolding allowed_payload_def by auto
        then show ?thesis unfolding run using qs(1) by blast
      qed
    qed
  qed
  show "prows (nw_prefs (snd (deliver_channel rp now logId n c w))) = prows (nw_prefs w)"
    by (simp add: deliver_channel_def io_bind_run notice_parts_eq io_return_def io_throw_def hand_over_keeps p.findOne_rows
        split: sum.split option.split)
qed

lemma channels_payloads:
  "set cs \<subseteq> set (channels_of n) \<Longrightarrow>
    (\<exists>qs. nw_handed (snd (deliver_channels rp now newId k n cs w)) = nw_handed w @ qs \<and>
      (\<forall>q \<in> set qs. allowed_payload rp now (prows (nw_prefs w)) n q))"
proof (induction cs arbitrary: k w)
  case Nil
  then show ?case by (simp add: io_return_def)
next
  case (Cons c cs)
  let ?w1 = "snd (deliver_channel rp now (newId k) n c w)"
  have c: "c \<in> set (channels_of n)" using Cons.prems by simp
  obtain qs where qs: "nw_handed ?w1 = nw_handed w @ qs" "\<forall>q \<in> set qs. allowed_payload rp now (prows (nw_prefs w)) n q"
    using channel_payloads(1) [OF c] by blast
  show ?case
  proof (cases "fst (deliver_channel rp now (newId k) n c w)")
    case (Inl e)
    then show ?thesis using qs by (auto simp: io_bind_run)
  next
    case (Inr u)
    obtain qs' where "nw_handed (snd (deliver_channels rp now newId (k + 1) n cs ?w1)) = nw_handed ?w1 @ qs'"
      "\<forall>q \<in> set qs'. allowed_payload rp now (prows (nw_prefs w)) n q"
      using Cons.IH [of "k + 1" ?w1] Cons.prems channel_payloads(2) [OF c] by auto
    then have "nw_handed (snd (deliver_channels rp now newId k n (c # cs) w)) = nw_handed w @ (qs @ qs')"
      "\<forall>q \<in> set (qs @ qs'). allowed_payload rp now (prows (nw_prefs w)) n q"
      using qs Inr by (auto simp: io_bind_run)
    then show ?thesis by blast
  qed
qed

lemma processed_payloads:
  "\<exists>qs. nw_handed (snd (processNotification rp now newId i w)) = nw_handed w @ qs \<and>
    (\<forall>q \<in> set qs. \<exists>n. nrows (nw_notifs w) i = Some n \<and> nf_status n \<noteq> Note_Cancelled \<and> allowed_payload rp now (prows (nw_prefs w)) n q)"
proof -
  let ?find = "to_findOne (nr_notifs rp) (\<lambda>n. nf_id n = i) any_order"
  show ?thesis
  proof (cases "\<exists>n. fst (?find (nw_notifs w)) = Inr (Some n) \<and> nf_status n \<noteq> Note_Cancelled")
    case False
    then have "nw_handed (snd (processNotification rp now newId i w)) = nw_handed w"
      by (auto simp: processNotification_def io_bind_run notice_parts_eq io_return_def split: sum.split option.split)
    then show ?thesis by simp
  next
    case True
    then obtain n where n: "fst (?find (nw_notifs w)) = Inr (Some n)" "nf_status n \<noteq> Note_Cancelled" by blast
    have row: "nf_id n = i" "nrows (nw_notifs w) i = Some n" using n.findOne_some [OF n(1)] by auto
    let ?mark = "to_update (nr_notifs rp) (\<lambda>x. nf_id x = i) (\<lambda>x. x\<lparr>nf_status := Note_Sending, nf_attemptCount := nf_attemptCount n + 1\<rparr>)"
    let ?w2 = "w\<lparr>nw_notifs := snd (?mark (snd (?find (nw_notifs w))))\<rparr>"
    have "nw_handed (snd (processNotification rp now newId i w)) = nw_handed w \<or>
        nw_handed (snd (processNotification rp now newId i w)) = nw_handed (snd (deliver_channels rp now newId 0 n (channels_of n) ?w2))"
      using n by (simp add: processNotification_def io_bind_run notice_parts_eq split: sum.split)
    moreover obtain qs where "nw_handed (snd (deliver_channels rp now newId 0 n (channels_of n) ?w2)) = nw_handed w @ qs"
      "\<forall>q \<in> set qs. allowed_payload rp now (prows (nw_prefs w)) n q"
      using channels_payloads [of "channels_of n" n now newId 0 ?w2] by auto
    ultimately show ?thesis using row n(2) by (metis append_Nil2 empty_iff list.set(1))
  qed
qed

lemma cancelled_row:
  assumes "fst (cancel rp i w) = Inr x"
  obtains m where "nrows (nw_notifs (snd (cancel rp i w))) i = Some m" "nf_status m = Note_Cancelled"
    "nw_handed (snd (cancel rp i w)) = nw_handed w"
proof -
  let ?find = "to_findOne (nr_notifs rp) (\<lambda>n. nf_id n = i) any_order"
  obtain n where n: "fst (?find (nw_notifs w)) = Inr (Some n)" "nf_status n = Note_Scheduled"
    using assms by (auto simp: cancel_def io_bind_run notice_parts_eq io_throw_def split: sum.splits option.splits if_splits)
  let ?w1 = "w\<lparr>nw_notifs := snd (?find (nw_notifs w))\<rparr>"
  obtain b js where js: "remove_job i (nw_jobs w) = Inr (b, js)"
    using assms n by (auto simp: cancel_def io_bind_run notice_parts_eq cancelNotification_def split: sum.splits)
  let ?c = "n\<lparr>nf_status := Note_Cancelled\<rparr>"
  have run: "cancel rp i w = io_bind (on_notifs (to_save (nr_notifs rp) ?c)) (\<lambda>_. io_return ?c) (?w1\<lparr>nw_jobs := js\<rparr>)"
    using n js by (simp add: cancel_def io_bind_run [of "on_notifs _"] io_bind_run [of "cancelNotification _"] notice_parts_eq cancelNotification_def Let_def)
  have saved: "fst (to_save (nr_notifs rp) ?c (nw_notifs ?w1)) = Inr ()"
    using assms unfolding run by (auto simp: io_bind_run notice_parts_eq split: sum.splits)
  have "nf_id n = i" using n.findOne_some [OF n(1)] by simp
  then have "nrows (nw_notifs (snd (cancel rp i w))) i = Some ?c"
    unfolding run using saved n.save_ok [OF saved] by (simp add: io_bind_run notice_parts_eq io_return_def)
  moreover have "nw_handed (snd (cancel rp i w)) = nw_handed w"
    unfolding run using saved by (simp add: io_bind_run notice_parts_eq io_return_def)
  ultimately show thesis by (intro that [of ?c]) simp_all
qed

lemma unset_preference_throws:
  assumes rel: "reliable_table (nr_prefs rp)" and none: "\<And>k p. prows (nw_prefs w) k = Some p \<Longrightarrow>
    \<not> same_slot (nf_userId n) (nf_category n) (channel_text c) p"
  shows "fst (deliver_channel rp now logId n c w) = Inl no_timezone_of_null"
    "nw_handed (snd (deliver_channel rp now logId n c w)) = nw_handed w" "nw_notifs (snd (deliver_channel rp now logId n c w)) = nw_notifs w"
proof -
  let ?find = "to_findOne (nr_prefs rp) (same_slot (nf_userId n) (nf_category n) (channel_text c)) any_order"
  obtain found where found: "fst (?find (nw_prefs w)) = Inr found" using reliable_queries [OF rel] by blast
  then have "found = None" using none p.findOne_some by (cases found) blast+
  then have "deliver_channel rp now logId n c w = (Inl no_timezone_of_null, w\<lparr>nw_prefs := snd (?find (nw_prefs w))\<rparr>)"
    using found by (simp add: deliver_channel_def io_bind_run notice_parts_eq io_throw_def)
  then show "fst (deliver_channel rp now logId n c w) = Inl no_timezone_of_null"
    "nw_handed (snd (deliver_channel rp now logId n c w)) = nw_handed w" "nw_notifs (snd (deliver_channel rp now logId n c w)) = nw_notifs w"
    by simp_all
qed

lemma processed_stuck:
  assumes rel: "reliable_table (nr_notifs rp)" "reliable_table (nr_prefs rp)"
    and row: "nrows (nw_notifs w) i = Some n" "nf_status n \<noteq> Note_Cancelled" "channels_of n = c # cs"
    and none: "\<And>k p. prows (nw_prefs w) k = Some p \<Longrightarrow> \<not> same_slot (nf_userId n) (nf_category n) (channel_text c) p"
  shows "fst (processNotification rp now newId i w) = Inl no_timezone_of_null \<and>
    nw_handed (snd (processNotification rp now newId i w)) = nw_handed w \<and>
    nrows (nw_notifs (snd (processNotification rp now newId i w))) i =
      Some (n\<lparr>nf_status := Note_Sending, nf_attemptCount := nf_attemptCount n + 1\<rparr>)"
proof -
  let ?find = "to_findOne (nr_notifs rp) (\<lambda>n. nf_id n = i) any_order"
  let ?mark = "to_update (nr_notifs rp) (\<lambda>x. nf_id x = i) (\<lambda>x. x\<lparr>nf_status := Note_Sending, nf_attemptCount := nf_attemptCount n + 1\<rparr>)"
  have i: "nf_id n = i" by (rule n.row_key [OF row(1)])
  obtain found where found: "fst (?find (nw_notifs w)) = Inr found" using reliable_queries [OF rel(1)] by blast
  have "found = Some n"
  proof (cases found)
    case None
    then show ?thesis using n.findOne_none [of "\<lambda>n. nf_id n = i" any_order "nw_notifs w" i n] found row(1) i by simp
  next
    case (Some m)
    then show ?thesis using n.findOne_some [of "\<lambda>n. nf_id n = i" any_order "nw_notifs w" m] found row(1) by auto
  qed
  have marked: "fst (?mark (snd (?find (nw_notifs w)))) = Inr ()" by (rule reliable_writes [OF rel(1)])
  let ?w2 = "w\<lparr>nw_notifs := snd (?mark (snd (?find (nw_notifs w))))\<rparr>"
  have "\<not> same_slot (nf_userId n) (nf_category n) (channel_text c) p" if "prows (nw_prefs ?w2) k = Some p" for k p
    using none that by simp
  note step = unset_preference_throws [where w = ?w2 and n = n and c = c and now = now and logId = "newId 0", OF rel(2) this]
  have "processNotification rp now newId i w = (Inl no_timezone_of_null, snd (deliver_channel rp now (newId 0) n c ?w2))"
    using found \<open>found = Some n\<close> row(2,3) marked step(1) by (simp add: processNotification_def io_bind_run notice_parts_eq)
  moreover have "nrows (nw_notifs ?w2) i = Some (n\<lparr>nf_status := Note_Sending, nf_attemptCount := nf_attemptCount n + 1\<rparr>)"
    using n.update_ok [OF marked, of i] row(1) i by (simp add: n.findOne_rows)
  ultimately show ?thesis using step(2,3) by simp
qed

lemma stale_refused:
  assumes "one_window_per_key (nr_aggs rp) arows" "stale u key t (arows db)" "arows db rowId = None"
  shows "\<exists>e. fst (to_save (nr_aggs rp) (new_window now rowId u key cd) db) = Inl e"
proof -
  obtain k x where "arows db k = Some x" "ag_userId x = u" "ag_aggregationKey x = key" using assms(2) unfolding stale_def by blast
  moreover from this have "k \<noteq> ag_id (new_window now rowId u key cd)" using assms(3) by (auto simp: new_window_def)
  moreover have "ag_userId (new_window now rowId u key cd) = u" "ag_aggregationKey (new_window now rowId u key cd) = key"
    by (simp_all add: new_window_def)
  ultimately show ?thesis using assms(1) unfolding one_window_per_key_def by metis
qed

lemma stale_marked: "stale u key t rows \<Longrightarrow> rows (ag_id e) = Some e \<Longrightarrow> stale u key t (rows(ag_id e \<mapsto> e\<lparr>ag_sent := True\<rparr>))"
  unfolding stale_def
proof (elim conjE exE, intro conjI)
  fix k x assume *: "rows (ag_id e) = Some e" "rows k = Some x" "ag_userId x = u" "ag_aggregationKey x = key"
  show "\<exists>k x. (rows(ag_id e \<mapsto> e\<lparr>ag_sent := True\<rparr>)) k = Some x \<and> ag_userId x = u \<and> ag_aggregationKey x = key"
    by (rule exI [of _ k], rule exI [of _ "if k = ag_id e then e\<lparr>ag_sent := True\<rparr> else x"]) (use * in auto)
qed (auto simp: open_window_def)

lemma stale_check:
  assumes unique: "one_window_per_key (nr_aggs rp) arows" and st: "stale u key t (arows db)" and fresh: "arows db rowId = None"
    and now: "t \<le> now" and key: "key \<noteq> []"
  shows "\<exists>e. fst (checkAggregation (nr_aggs rp) now rowId u key cd db) = Inl e"
    "stale u key t (arows (snd (checkAggregation (nr_aggs rp) now rowId u key cd db)))"
    "arows (snd (checkAggregation (nr_aggs rp) now rowId u key cd db)) k = None \<longleftrightarrow> arows db k = None"
proof -
  let ?check = "checkAggregation (nr_aggs rp) now rowId u key cd db"
  let ?find = "to_findOne (nr_aggs rp) (open_window u key) any_order"
  let ?db1 = "snd (?find db)"
  have same: "arows ?db1 = arows db" by (rule a.findOne_rows)
  have refused: "\<exists>e. fst (to_save (nr_aggs rp) (new_window now rowId u key cd) db') = Inl e"
    if "stale u key t (arows db')" "arows db' rowId = None" for db' by (rule stale_refused [OF unique that])
  have "(\<exists>e. fst ?check = Inl e) \<and> stale u key t (arows (snd ?check)) \<and> (\<forall>k. arows (snd ?check) k = None \<longleftrightarrow> arows db k = None)"
  proof (cases "fst (?find db)")
    case (Inl e)
    then show ?thesis using st same key by (simp add: checkAggregation_def io_bind_run Let_def)
  next
    case (Inr found)
    show ?thesis
    proof (cases found)
      case None
      obtain e where e: "fst (to_save (nr_aggs rp) (new_window now rowId u key cd) ?db1) = Inl e" using refused [of ?db1] st fresh same by auto
      then have "?check = (Inl e, snd (to_save (nr_aggs rp) (new_window now rowId u key cd) ?db1))"
        using Inr None key by (simp add: checkAggregation_def io_bind_run Let_def)
      then show ?thesis using st same a.save_err [OF e] by simp
    next
      case (Some x)
      have x: "open_window u key x" "arows db (ag_id x) = Some x" using a.findOne_some Inr Some by auto
      then have "ag_cooldownSeconds x * 1000 \<le> t - ag_lastNotificationAt x" using st unfolding stale_def by blast
      then have late: "\<not> now - ag_lastNotificationAt x < ag_cooldownSeconds x * 1000" using now by simp
      let ?s = "x\<lparr>ag_sent := True\<rparr>"
      have run: "?check = io_bind (to_save (nr_aggs rp) ?s) (\<lambda>_. io_bind (to_save (nr_aggs rp) (new_window now rowId u key cd)) (\<lambda>_.
          io_return \<lparr>ac_shouldSuppress = False, ac_aggregation = Some (new_window now rowId u key cd), ac_currentCount = 1\<rparr>)) ?db1"
        using Inr Some key late by (simp add: checkAggregation_def io_bind_run [of ?find] Let_def)
      show ?thesis
      proof (cases "fst (to_save (nr_aggs rp) ?s ?db1)")
        case (Inl e)
        then show ?thesis unfolding run using a.save_err [OF Inl] st same by (simp add: io_bind_run)
      next
        case ok: (Inr v)
        let ?db2 = "snd (to_save (nr_aggs rp) ?s ?db1)"
        have rows2: "arows ?db2 = (arows db)(ag_id x \<mapsto> ?s)" using a.save_ok [OF ok] same by simp
        have st2: "stale u key t (arows ?db2)" unfolding rows2 by (rule stale_marked [OF st x(2)])
        have "arows ?db2 rowId = None" using fresh x(2) by (auto simp: rows2)
        then obtain e where e: "fst (to_save (nr_aggs rp) (new_window now rowId u key cd) ?db2) = Inl e" using refused [OF st2] by blast
        then have "?check = (Inl e, snd (to_save (nr_aggs rp) (new_window now rowId u key cd) ?db2))"
          unfolding run using ok by (simp add: io_bind_run)
        then show ?thesis using st2 a.save_err [OF e] rows2 x(2) by auto
      qed
    qed
  qed
  then show "\<exists>e. fst ?check = Inl e" "stale u key t (arows (snd ?check))" "arows (snd ?check) k = None \<longleftrightarrow> arows db k = None" by blast+
qed

lemma stale_send:
  assumes "one_window_per_key (nr_aggs rp) arows" "stale (sn_userId dto) key t (arows (nw_aggs w))" "arows (nw_aggs w) aggId = None"
    "t \<le> now" "key \<noteq> []" "sn_aggregationKey dto = Some key"
  shows "\<exists>e. fst (send_notification rp now aggId rowId dto w) = Inl e"
    "stale (sn_userId dto) key t (arows (nw_aggs (snd (send_notification rp now aggId rowId dto w))))"
    "arows (nw_aggs (snd (send_notification rp now aggId rowId dto w))) k = None \<longleftrightarrow> arows (nw_aggs w) k = None"
proof -
  note check = stale_check [OF assms(1-5), of DEFAULT_COOLDOWN_SECONDS]
  obtain e where e: "fst (checkAggregation (nr_aggs rp) now aggId (sn_userId dto) key DEFAULT_COOLDOWN_SECONDS (nw_aggs w)) = Inl e"
    using check(1) by blast
  then have "send_notification rp now aggId rowId dto w =
      (Inl e, w\<lparr>nw_aggs := snd (checkAggregation (nr_aggs rp) now aggId (sn_userId dto) key DEFAULT_COOLDOWN_SECONDS (nw_aggs w))\<rparr>)"
    using assms(5,6) by (simp add: send_notification_def io_bind_run notice_parts_eq)
  then show "\<exists>e. fst (send_notification rp now aggId rowId dto w) = Inl e"
    "stale (sn_userId dto) key t (arows (nw_aggs (snd (send_notification rp now aggId rowId dto w))))"
    "arows (nw_aggs (snd (send_notification rp now aggId rowId dto w))) k = None \<longleftrightarrow> arows (nw_aggs w) k = None"
    using check(2) check(3) [of k] by simp_all
qed

lemma stale_sends:
  assumes "one_window_per_key (nr_aggs rp) arows" "key \<noteq> []"
  shows "stale u key t (arows (nw_aggs w)) \<Longrightarrow>
    (\<And>now aggId rowId dto. (now, aggId, rowId, dto) \<in> set attempts \<Longrightarrow>
      t \<le> now \<and> arows (nw_aggs w) aggId = None \<and> sn_userId dto = u \<and> sn_aggregationKey dto = Some key) \<Longrightarrow>
    r \<in> set (fst (send_each rp attempts w)) \<Longrightarrow> \<exists>e. r = Inl e"
proof (induction attempts arbitrary: w)
  case (Cons x attempts)
  obtain now aggId rowId dto where x: "x = (now, aggId, rowId, dto)" by (cases x)
  have "t \<le> now" "arows (nw_aggs w) aggId = None" "sn_userId dto = u" "sn_aggregationKey dto = Some key" using Cons.prems(2) [of now] x by auto
  note step = stale_send [OF assms(1), of dto key t w aggId now rowId, OF _ this(2,1) assms(2) this(4), unfolded this(3), OF Cons.prems(1)]
  let ?w1 = "snd (send_notification rp now aggId rowId dto w)"
  consider "r = fst (send_notification rp now aggId rowId dto w)" | "r \<in> set (fst (send_each rp attempts ?w1))"
    using Cons.prems(3) by (auto simp: x split: prod.splits)
  then show ?case
  proof cases
    case 1
    then show ?thesis using step(1) by simp
  next
    case 2
    show ?thesis using 2 Cons.prems(2) step(3) by (intro Cons.IH [OF step(2)]) auto
  qed
qed simp

text \<open>Every suppressed notification starts the cooldown anew.\<close>

lemma window_slides:
  assumes rel: "reliable_table (nr_aggs rp)" and x: "arows db k = Some x" "open_window u key x" and key: "key \<noteq> []"
    and one: "\<And>k' x'. arows db k' = Some x' \<Longrightarrow> open_window u key x' \<Longrightarrow> k' = k"
    and soon: "now - ag_lastNotificationAt x < ag_cooldownSeconds x * 1000"
  shows "\<exists>r. fst (checkAggregation (nr_aggs rp) now rowId u key cd db) = Inr r \<and> ac_shouldSuppress r"
    "arows (snd (checkAggregation (nr_aggs rp) now rowId u key cd db)) =
      (arows db)(k \<mapsto> x\<lparr>ag_count := ag_count x + 1, ag_lastNotificationAt := now\<rparr>)"
proof -
  let ?find = "to_findOne (nr_aggs rp) (open_window u key) any_order"
  obtain found where found: "fst (?find db) = Inr found" using reliable_queries [OF rel] by blast
  have "found \<noteq> None" using a.findOne_none [of "open_window u key" any_order db k x] x found by auto
  then obtain y where y: "found = Some y" by blast
  then have "open_window u key y" "arows db (ag_id y) = Some y" using a.findOne_some found by auto
  then have "ag_id y = k" "y = x" using one x by (metis option.inject)+
  let ?e = "x\<lparr>ag_count := ag_count x + 1, ag_lastNotificationAt := now\<rparr>"
  have saved: "fst (to_save (nr_aggs rp) ?e (snd (?find db))) = Inr ()" by (rule reliable_writes [OF rel])
  have "checkAggregation (nr_aggs rp) now rowId u key cd db =
      (Inr \<lparr>ac_shouldSuppress = True, ac_aggregation = Some ?e, ac_currentCount = ag_count ?e\<rparr>, snd (to_save (nr_aggs rp) ?e (snd (?find db))))"
    using found y \<open>y = x\<close> key soon saved by (simp add: checkAggregation_def io_bind_run Let_def io_return_def)
  then show "\<exists>r. fst (checkAggregation (nr_aggs rp) now rowId u key cd db) = Inr r \<and> ac_shouldSuppress r"
    "arows (snd (checkAggregation (nr_aggs rp) now rowId u key cd db)) =
      (arows db)(k \<mapsto> x\<lparr>ag_count := ag_count x + 1, ag_lastNotificationAt := now\<rparr>)"
    using a.save_ok [OF saved] \<open>ag_id y = k\<close> \<open>y = x\<close> a.findOne_rows by simp_all
qed

end

lemma indexed_unique: "one_window_per_key indexed_aggs (table_row ag_id)"
  using indexed_refuses [of ag_id "\<lambda>x r. ag_userId x = ag_userId r \<and> ag_aggregationKey x = ag_aggregationKey r"]
  by (simp add: one_window_per_key_def indexed_aggs_def refuses_clashes_def)

interpretation cn: notice_tables calm_notices "table_row nf_id" "table_row lg_id" "table_row np_id" "table_row ag_id"
  unfolding notice_tables_def calm_notices_def notice_repos.simps indexed_aggs_def by (intro conjI ct.sql_table_axioms xt.sql_table_axioms)

section \<open>Properties\<close>



text \<open>
  A cancelled notification is not delivered: once \<^verbatim>\<open>cancel\<close> has returned, a run of the processor for
  it, left over in the queue, hands nothing to any provider.
\<close>

theorem cancelled_not_delivered:
  assumes tables: "notice_tables rp nrows grows prows arows" and done': "fst (cancel rp i w) = Inr x"
  shows "nw_handed (snd (processNotification rp now newId i (snd (cancel rp i w)))) = nw_handed w"
proof -
  obtain m where m: "nrows (nw_notifs (snd (cancel rp i w))) i = Some m" "nf_status m = Note_Cancelled"
    "nw_handed (snd (cancel rp i w)) = nw_handed w" by (rule notice_tables.cancelled_row [OF tables done'])
  then show ?thesis using notice_tables.processed_payloads [OF tables, of now newId i "snd (cancel rp i w)"] by auto
qed

theorem cancelled_not_delivered_witness:
  "nw_handed (snd (processNotification calm_notices 60000 sample_row_id ''n1'' (snd (cancel calm_notices ''n1'' scheduled_world)))) = []"
proof -
  have "case fst (cancel calm_notices ''n1'' scheduled_world) of Inr _ \<Rightarrow> True | _ \<Rightarrow> False" "nw_handed scheduled_world = []" by code_simp+
  then obtain x where x: "fst (cancel calm_notices ''n1'' scheduled_world) = Inr x" "nw_handed scheduled_world = []" by (auto split: sum.splits)
  from cancelled_not_delivered [OF cn.notice_tables_axioms x(1)] show ?thesis by (simp add: x(2))
qed

text \<open>
  A user without a preference is not reached and the notification is stuck: when the user has no
  preference for the category and the first channel, the run fails at the time zone of null, hands
  nothing to a provider, and leaves the notification in the status SENDING.
\<close>

theorem unset_preference_sticks:
  assumes tables: "notice_tables rp nrows grows prows arows" and rel: "reliable_table (nr_notifs rp)" "reliable_table (nr_prefs rp)"
    and row: "nrows (nw_notifs w) i = Some n" "nf_status n \<noteq> Note_Cancelled" "channels_of n = c # cs"
    and none: "\<And>k p. prows (nw_prefs w) k = Some p \<Longrightarrow> \<not> same_slot (nf_userId n) (nf_category n) (channel_text c) p"
  shows "fst (processNotification rp now newId i w) = Inl no_timezone_of_null \<and>
    nw_handed (snd (processNotification rp now newId i w)) = nw_handed w \<and>
    nrows (nw_notifs (snd (processNotification rp now newId i w))) i =
      Some (n\<lparr>nf_status := Note_Sending, nf_attemptCount := nf_attemptCount n + 1\<rparr>)"
proof -
  from notice_tables.processed_stuck [OF assms(1-6)] none show ?thesis by blast
qed

theorem unset_preference_sticks_witness:
  "fst (processNotification calm_notices 5 sample_row_id ''n1'' other_category) = Inl no_timezone_of_null \<and>
    map_option nf_status (table_row nf_id (nw_notifs (snd (processNotification calm_notices 5 sample_row_id ''n1'' other_category))) ''n1'') = Some Note_Sending"
proof -
  have "case table_row nf_id (nw_notifs other_category) ''n1'' of
      Some n \<Rightarrow> nf_status n = Note_Queued \<and> channels_of n = [Ch_Sms] \<and> nf_category n = Cat_Billing | None \<Rightarrow> False" by code_simp
  then obtain n where n: "table_row nf_id (nw_notifs other_category) ''n1'' = Some n" "nf_status n = Note_Queued" "channels_of n = [Ch_Sms]"
    "nf_category n = Cat_Billing" by (auto split: option.splits)
  have "map np_category (mt_rows (nw_prefs other_category)) = [Cat_Marketing]" by code_simp
  then have none: "\<not> same_slot (nf_userId n) (nf_category n) (channel_text Ch_Sms) p" if "table_row np_id (nw_prefs other_category) k = Some p" for k p
    using that n(4) by (auto simp: table_row_def find_Some_iff same_slot_def)
  have rel: "reliable_table (nr_notifs calm_notices)" "reliable_table (nr_prefs calm_notices)"
    by (simp_all add: calm_notices_def calm_table_reliable)
  have "nf_status n \<noteq> Note_Cancelled" using n(2) by simp
  from unset_preference_sticks [OF cn.notice_tables_axioms rel n(1) this n(3) none] show ?thesis by simp
qed



end
