(* ===== verification/Connection_Pool.thy ===== *)
theory Connection_Pool
  imports Js_Prelude
begin

text \<open>
  The pool of upstream connections (dashboard/websocket/services/connection-pool.service.ts). A connection
  is one object that the pool, the map of connections and the handlers of its socket share, so objects and
  pool arrays live in stores and are referred to by id. The handlers of the socket library, the timer of the
  connection timeout and the heartbeat interval are operations of their own, which may come in any order.
  Whether an emit throws is a parameter.
\<close>

section \<open>State\<close>

record upstream_connection =
  uc_id :: string
  uc_serviceName :: string
  uc_url :: string
  uc_socketConnected :: bool
  uc_closed :: bool
  uc_connectedAt :: timestamp
  uc_lastHeartbeat :: timestamp
  uc_isConnected :: bool
  uc_metadata :: "string option"
  uc_pool :: nat

record pool_config =
  pc_maxConnections :: nat
  pc_connectionTimeout :: int
  pc_heartbeatInterval :: int
  pc_staleThreshold :: int
  pc_reconnectDelay :: int
  pc_maxReconnectDelay :: int
  pc_maxReconnectAttempts :: nat

definition pool_defaultConfig :: pool_config where
  "pool_defaultConfig =
     \<lparr>pc_maxConnections = 100, pc_connectionTimeout = 10000, pc_heartbeatInterval = 30000, pc_staleThreshold = 5 * 60 * 1000,
      pc_reconnectDelay = 1000, pc_maxReconnectDelay = 30000, pc_maxReconnectAttempts = 10\<rparr>"

text \<open>
  The array a connection is pushed to is the one its creation read from the map (\<open>uc_pool\<close>); \<open>po_arrays\<close>
  has the arrays that were made so far.
\<close>

record conn_pool =
  po_pools :: "(string, nat) js_map"
  po_arrays :: "string list list"
  po_connections :: "string list"
  po_configs :: "(string, pool_config) js_map"
  po_objects :: "(string, upstream_connection) js_map"
  po_intervals :: "string list"
  po_emitted :: "(string \<times> string \<times> string) list"

definition new_conn_pool :: conn_pool where
  "new_conn_pool = \<lparr>po_pools = [], po_arrays = [], po_connections = [], po_configs = [], po_objects = [], po_intervals = [], po_emitted = []\<rparr>"

definition pool_ids :: "string \<Rightarrow> conn_pool \<Rightarrow> string list option" where
  "pool_ids poolName s = map_option (\<lambda>a. po_arrays s ! a) (Map_get poolName (po_pools s))"

definition config_of :: "string \<Rightarrow> conn_pool \<Rightarrow> pool_config" where
  "config_of poolName s = nullish (Map_get poolName (po_configs s)) pool_defaultConfig"

section \<open>Operations\<close>

definition initializePool :: "string \<Rightarrow> pool_config option \<Rightarrow> conn_pool \<Rightarrow> conn_pool" where
  "initializePool poolName config s =
     s\<lparr>po_configs := Map_set poolName (nullish config pool_defaultConfig) (po_configs s),
       po_pools := Map_set poolName (length (po_arrays s)) (po_pools s), po_arrays := po_arrays s @ [[]]\<rparr>"

definition find_object :: "(upstream_connection \<Rightarrow> bool) \<Rightarrow> string list \<Rightarrow> conn_pool \<Rightarrow> upstream_connection option" where
  "find_object P ids s = List.find P (List.map_filter (\<lambda>i. Map_get i (po_objects s)) ids)"

definition findStaleConnection :: "timestamp \<Rightarrow> string \<Rightarrow> conn_pool \<Rightarrow> upstream_connection option" where
  "findStaleConnection now poolName s =
     (case pool_ids poolName s of
        None \<Rightarrow> None
      | Some ids \<Rightarrow> find_object (\<lambda>c. now - uc_lastHeartbeat c > pc_staleThreshold (config_of poolName s)) ids s)"

definition change_object :: "string \<Rightarrow> (upstream_connection \<Rightarrow> upstream_connection) \<Rightarrow> conn_pool \<Rightarrow> conn_pool" where
  "change_object connectionId f s = s\<lparr>po_objects := Map_upd connectionId f (po_objects s)\<rparr>"

definition change_array :: "nat \<Rightarrow> (string list \<Rightarrow> string list) \<Rightarrow> conn_pool \<Rightarrow> conn_pool" where
  "change_array a f s = s\<lparr>po_arrays := (po_arrays s)[a := f (po_arrays s ! a)]\<rparr>"

text \<open>
  The handler of a disconnection, and the call that disconnects a socket: it ends the reconnection of the
  library (\<open>uc_closed\<close>), which calls the handler when the socket was connected.
\<close>

definition on_disconnect_cp :: "string \<Rightarrow> conn_pool \<Rightarrow> conn_pool" where
  "on_disconnect_cp connectionId = change_object connectionId (\<lambda>c. c\<lparr>uc_socketConnected := False, uc_isConnected := False\<rparr>)"

definition close_socket :: "string \<Rightarrow> conn_pool \<Rightarrow> conn_pool" where
  "close_socket connectionId = change_object connectionId (\<lambda>c. c\<lparr>uc_closed := True, uc_socketConnected := False,
     uc_isConnected := (if uc_socketConnected c then False else uc_isConnected c)\<rparr>)"

definition disconnect_cp :: "string \<Rightarrow> conn_pool \<Rightarrow> conn_pool" where
  "disconnect_cp connectionId s =
     (if connectionId \<notin> set (po_connections s) then s
      else
        case Map_get connectionId (po_objects s) of
          None \<Rightarrow> s
        | Some c \<Rightarrow>
            let s1 = (case Map_get (uc_serviceName c) (po_pools s) of None \<Rightarrow> s | Some a \<Rightarrow> change_array a (remove1 connectionId) s);
                s2 = (if uc_socketConnected c then close_socket connectionId s1 else s1)
            in s2\<lparr>po_connections := removeAll connectionId (po_connections s2)\<rparr>)"

text \<open>
  A new connection with the id the library generates. The promise is resolved with the connection at once, so
  that the later \<^verbatim>\<open>resolve(null)\<close> of the timer has no effect.
\<close>

definition createConnection ::
  "timestamp \<Rightarrow> string \<Rightarrow> string \<Rightarrow> string \<Rightarrow> string option \<Rightarrow> nat \<Rightarrow> conn_pool \<Rightarrow> upstream_connection \<times> conn_pool" where
  "createConnection now connectionId poolName url metadata a s =
     (let connection = \<lparr>uc_id = connectionId, uc_serviceName = poolName, uc_url = url, uc_socketConnected = False, uc_closed = False, uc_connectedAt = now,
            uc_lastHeartbeat = now, uc_isConnected = False, uc_metadata = metadata, uc_pool = a\<rparr>
      in (connection, s\<lparr>po_objects := Map_set connectionId connection (po_objects s)\<rparr>))"

definition acquire_cp ::
  "timestamp \<Rightarrow> string \<Rightarrow> string \<Rightarrow> string \<Rightarrow> string option \<Rightarrow> conn_pool \<Rightarrow> upstream_connection option \<times> conn_pool" where
  "acquire_cp now newId poolName serviceUrl metadata s =
     (case Map_get poolName (po_pools s) of
        None \<Rightarrow> (None, s)
      | Some a \<Rightarrow>
          let full = length (po_arrays s ! a) \<ge> pc_maxConnections (config_of poolName s);
              stale = findStaleConnection now poolName s
          in if full \<and> stale = None then (None, s)
             else
               let s1 = (case (full, stale) of (True, Some c) \<Rightarrow> disconnect_cp (uc_id c) s | _ \<Rightarrow> s)
               in case find_object (\<lambda>c. uc_url c = serviceUrl \<and> uc_isConnected c) (po_arrays s1 ! a) s1 of
                    Some c \<Rightarrow> (Some c, s1)
                  | None \<Rightarrow> (case createConnection now newId poolName serviceUrl metadata a s1 of (c, s2) \<Rightarrow> (Some c, s2)))"

definition on_connect_cp :: "timestamp \<Rightarrow> string \<Rightarrow> conn_pool \<Rightarrow> conn_pool" where
  "on_connect_cp now connectionId s =
     (case Map_get connectionId (po_objects s) of
        None \<Rightarrow> s
      | Some c \<Rightarrow>
          let s1 = change_object connectionId (\<lambda>c. c\<lparr>uc_socketConnected := True, uc_isConnected := True, uc_lastHeartbeat := now\<rparr>) s;
              s2 = change_array (uc_pool c) (\<lambda>ids. ids @ [connectionId]) s1
          in s2\<lparr>po_connections := Set_add connectionId (po_connections s2), po_intervals := po_intervals s2 @ [connectionId]\<rparr>)"

text \<open>The handlers of \<^verbatim>\<open>pong\<close> and \<^verbatim>\<open>heartbeat_ack\<close>.\<close>

definition on_pong :: "timestamp \<Rightarrow> string \<Rightarrow> conn_pool \<Rightarrow> conn_pool" where
  "on_pong now connectionId = change_object connectionId (\<lambda>c. c\<lparr>uc_lastHeartbeat := now\<rparr>)"

text \<open>The timer of the connection timeout.\<close>

definition on_timeout :: "string \<Rightarrow> conn_pool \<Rightarrow> conn_pool" where
  "on_timeout connectionId s =
     (case Map_get connectionId (po_objects s) of
        None \<Rightarrow> s
      | Some c \<Rightarrow>
          if \<not> uc_isConnected c \<and> \<not> uc_socketConnected c then close_socket connectionId s else s)"

text \<open>A tick of an interval that \<^verbatim>\<open>startHeartbeatMonitoring\<close> started.\<close>

definition heartbeat_tick :: "bool \<Rightarrow> timestamp \<Rightarrow> string \<Rightarrow> conn_pool \<Rightarrow> conn_pool" where
  "heartbeat_tick emitThrows now connectionId s =
     (if connectionId \<notin> set (po_intervals s) then s
      else
        case Map_get connectionId (po_objects s) of
          None \<Rightarrow> s
        | Some c \<Rightarrow>
            if \<not> uc_isConnected c then s\<lparr>po_intervals := remove1 connectionId (po_intervals s)\<rparr>
            else if emitThrows then s
            else on_pong now connectionId (s\<lparr>po_emitted := po_emitted s @ [(connectionId, ''ping'', [])]\<rparr>))"

definition release_cp :: "timestamp \<Rightarrow> string \<Rightarrow> conn_pool \<Rightarrow> conn_pool" where
  "release_cp now connectionId s = (if connectionId \<in> set (po_connections s) then on_pong now connectionId s else s)"

definition getConnection :: "string \<Rightarrow> conn_pool \<Rightarrow> upstream_connection option" where
  "getConnection connectionId s = (if connectionId \<in> set (po_connections s) then Map_get connectionId (po_objects s) else None)"

definition send_cp :: "bool \<Rightarrow> string \<Rightarrow> string \<Rightarrow> string \<Rightarrow> conn_pool \<Rightarrow> bool \<times> conn_pool" where
  "send_cp emitThrows connectionId event data s =
     (case getConnection connectionId s of
        None \<Rightarrow> (False, s)
      | Some c \<Rightarrow>
          if \<not> uc_isConnected c then (False, s)
          else if emitThrows then (False, s)
          else (True, s\<lparr>po_emitted := po_emitted s @ [(connectionId, event, data)]\<rparr>))"

record pool_stats =
  ps_poolName :: string
  ps_totalConnections :: nat
  ps_activeConnections :: nat
  ps_pendingConnections :: nat
  ps_maxConnections :: nat
  ps_utilizationPercent :: rat
  ps_services :: "(string, nat) js_map"

definition objects_of :: "string list \<Rightarrow> conn_pool \<Rightarrow> upstream_connection list" where
  "objects_of ids s = List.map_filter (\<lambda>i. Map_get i (po_objects s)) ids"

definition getPoolStats :: "string \<Rightarrow> conn_pool \<Rightarrow> pool_stats option" where
  "getPoolStats poolName s =
     (case (pool_ids poolName s, Map_get poolName (po_configs s)) of
        (Some ids, Some config) \<Rightarrow>
          let pool = objects_of ids s
          in Some \<lparr>ps_poolName = poolName, ps_totalConnections = length pool, ps_activeConnections = length (filter uc_isConnected pool),
               ps_pendingConnections = length (filter (\<lambda>c. \<not> uc_isConnected c) pool), ps_maxConnections = pc_maxConnections config,
               ps_utilizationPercent = of_nat (length pool) / of_nat (pc_maxConnections config) * 100,
               ps_services = foldl (\<lambda>m c. Map_set (uc_serviceName c) (nullish (Map_get (uc_serviceName c) m) 0 + 1) m) [] pool\<rparr>
      | _ \<Rightarrow> None)"

definition getAllStats :: "conn_pool \<Rightarrow> pool_stats list" where
  "getAllStats s = List.map_filter (\<lambda>poolName. getPoolStats poolName s) (Map_keys (po_pools s))"

definition isHealthy :: "timestamp \<Rightarrow> string \<Rightarrow> conn_pool \<Rightarrow> bool" where
  "isHealthy now connectionId s =
     (case getConnection connectionId s of
        None \<Rightarrow> False
      | Some c \<Rightarrow> uc_isConnected c \<and> now - uc_lastHeartbeat c < pc_staleThreshold (config_of (uc_serviceName c) s))"

fun cleanup_ids :: "timestamp \<Rightarrow> int \<Rightarrow> string list \<Rightarrow> nat \<Rightarrow> conn_pool \<Rightarrow> nat \<times> conn_pool" where
  "cleanup_ids now threshold [] cleaned s = (cleaned, s)"
| "cleanup_ids now threshold (i # ids) cleaned s =
     (case Map_get i (po_objects s) of
        None \<Rightarrow> cleanup_ids now threshold ids cleaned s
      | Some c \<Rightarrow>
          if now - uc_lastHeartbeat c > threshold then cleanup_ids now threshold ids (cleaned + 1) (disconnect_cp i s)
          else cleanup_ids now threshold ids cleaned s)"

fun cleanup_pools :: "timestamp \<Rightarrow> (string \<times> nat) list \<Rightarrow> nat \<Rightarrow> conn_pool \<Rightarrow> nat \<times> conn_pool" where
  "cleanup_pools now [] cleaned s = (cleaned, s)"
| "cleanup_pools now ((poolName, a) # pools) cleaned s =
     (case cleanup_ids now (pc_staleThreshold (config_of poolName s)) (po_arrays s ! a) cleaned s of
        (cleaned', s') \<Rightarrow> cleanup_pools now pools cleaned' s')"

definition cleanupStaleConnections :: "timestamp \<Rightarrow> conn_pool \<Rightarrow> nat \<times> conn_pool" where
  "cleanupStaleConnections now s = cleanup_pools now (po_pools s) 0 s"

definition onModuleDestroy_cp :: "conn_pool \<Rightarrow> conn_pool" where
  "onModuleDestroy_cp s =
     (fold disconnect_cp (po_connections s) s)\<lparr>po_pools := [], po_connections := [], po_configs := []\<rparr>"

section \<open>Histories\<close>

datatype pool_event =
    Initialize string "pool_config option"
  | Acquire timestamp string string string "string option"
  | Connected timestamp string
  | Disconnected string
  | Pong timestamp string
  | Timed_Out string
  | Tick bool timestamp string
  | Release timestamp string
  | Disconnect string
  | Send bool string string string
  | Cleanup timestamp
  | Destroy

fun pool_step :: "conn_pool \<Rightarrow> pool_event \<Rightarrow> conn_pool" where
  "pool_step s (Initialize p c) = initializePool p c s"
| "pool_step s (Acquire now i p url m) = snd (acquire_cp now i p url m s)"
| "pool_step s (Connected now i) = on_connect_cp now i s"
| "pool_step s (Disconnected i) = on_disconnect_cp i s"
| "pool_step s (Pong now i) = on_pong now i s"
| "pool_step s (Timed_Out i) = on_timeout i s"
| "pool_step s (Tick e now i) = heartbeat_tick e now i s"
| "pool_step s (Release now i) = release_cp now i s"
| "pool_step s (Disconnect i) = disconnect_cp i s"
| "pool_step s (Send e i ev d) = snd (send_cp e i ev d s)"
| "pool_step s (Cleanup now) = snd (cleanupStaleConnections now s)"
| "pool_step s Destroy = onModuleDestroy_cp s"

text \<open>
  What the library lets happen: the id of a new connection is new, a socket connects when it is neither
  connected nor closed, and disconnects when it is connected.
\<close>

fun legal_event :: "conn_pool \<Rightarrow> pool_event \<Rightarrow> bool" where
  "legal_event s (Acquire now i p url m) \<longleftrightarrow> Map_get i (po_objects s) = None"
| "legal_event s (Connected now i) \<longleftrightarrow>
     (case Map_get i (po_objects s) of None \<Rightarrow> False | Some c \<Rightarrow> \<not> uc_socketConnected c \<and> \<not> uc_closed c)"
| "legal_event s (Disconnected i) \<longleftrightarrow> (case Map_get i (po_objects s) of None \<Rightarrow> False | Some c \<Rightarrow> uc_socketConnected c)"
| "legal_event s _ \<longleftrightarrow> True"

text \<open>Arrays belong to one pool, and have connections that were made for it.\<close>

definition pool_inv :: "conn_pool \<Rightarrow> bool" where
  "pool_inv s \<longleftrightarrow>
     (\<forall>p a. Map_get p (po_pools s) = Some a \<longrightarrow> a < length (po_arrays s)) \<and>
     (\<forall>p p' a. Map_get p (po_pools s) = Some a \<and> Map_get p' (po_pools s) = Some a \<longrightarrow> p = p') \<and>
     (\<forall>i c. Map_get i (po_objects s) = Some c \<longrightarrow> uc_id c = i \<and> uc_pool c < length (po_arrays s) \<and>
       (\<forall>p. Map_get p (po_pools s) = Some (uc_pool c) \<longrightarrow> p = uc_serviceName c)) \<and>
     (\<forall>a < length (po_arrays s). \<forall>i \<in> set (po_arrays s ! a). \<exists>c. Map_get i (po_objects s) = Some c \<and> uc_pool c = a)"

text \<open>What never changes of a connection, and a change that only takes connections out of arrays.\<close>

definition core_of :: "upstream_connection \<Rightarrow> string \<times> string \<times> string \<times> nat" where
  "core_of c = (uc_id c, uc_serviceName c, uc_url c, uc_pool c)"

definition only_removes :: "conn_pool \<Rightarrow> conn_pool \<Rightarrow> bool" where
  "only_removes s s' \<longleftrightarrow>
     po_pools s' = po_pools s \<and> length (po_arrays s') = length (po_arrays s) \<and>
     (\<forall>a < length (po_arrays s). set (po_arrays s' ! a) \<subseteq> set (po_arrays s ! a)) \<and>
     (\<forall>i. map_option core_of (Map_get i (po_objects s')) = map_option core_of (Map_get i (po_objects s)))"

text \<open>A connection that takes up a place of its pool and cannot be reached any more.\<close>

definition leaked :: "string \<Rightarrow> string \<Rightarrow> nat \<Rightarrow> conn_pool \<Rightarrow> bool" where
  "leaked i p a s \<longleftrightarrow>
     Map_get p (po_pools s) = Some a \<and> a < length (po_arrays s) \<and> i \<in> set (po_arrays s ! a) \<and> i \<notin> set (po_connections s) \<and>
     (\<exists>c. Map_get i (po_objects s) = Some c \<and> uc_closed c)"

definition drops_pool :: "string \<Rightarrow> pool_event \<Rightarrow> bool" where
  "drops_pool p e \<longleftrightarrow> (case e of Initialize q _ \<Rightarrow> q = p | Destroy \<Rightarrow> True | _ \<Rightarrow> False)"

definition conn_name :: "nat \<Rightarrow> string" where
  "conn_name k = replicate k CHR ''x''"

text \<open>Acquires of \<open>n\<close> different urls, and their sockets connecting later.\<close>

definition overlapping :: "string \<Rightarrow> timestamp \<Rightarrow> nat \<Rightarrow> pool_event list" where
  "overlapping p now n = map (\<lambda>k. Acquire now (conn_name k) p (conn_name k) None) [0..<n] @ map (\<lambda>k. Connected now (conn_name k)) [0..<n]"

section \<open>Facts\<close>

lemma only_removes_refl [simp]: "only_removes s s"
  by (simp add: only_removes_def)

lemma only_removes_trans: "only_removes s s1 \<Longrightarrow> only_removes s1 s2 \<Longrightarrow> only_removes s s2"
  unfolding only_removes_def by (auto; blast)

lemma only_removes_object: "(\<And>c. core_of (f c) = core_of c) \<Longrightarrow> only_removes s (change_object i f s)"
  by (auto simp: only_removes_def change_object_def option.map_comp comp_def)

lemma only_removes_array:
  "(\<And>ids. set (f ids) \<subseteq> set ids) \<Longrightarrow> only_removes s (change_array a f s)"
  by (cases "a < length (po_arrays s)") (auto simp: only_removes_def change_array_def nth_list_update split: if_splits)

lemma only_removes_other [simp]:
  "only_removes s (s\<lparr>po_connections := x\<rparr>)" "only_removes s (s\<lparr>po_intervals := y\<rparr>)" "only_removes s (s\<lparr>po_emitted := z\<rparr>)"
  by (simp_all add: only_removes_def)

lemma only_removes_more:
  "only_removes s s1 \<Longrightarrow> only_removes s (s1\<lparr>po_connections := x\<rparr>)" "only_removes s s1 \<Longrightarrow> only_removes s (close_socket i s1)"
  using only_removes_trans [OF _ only_removes_other(1)] only_removes_trans [OF _ only_removes_object]
  by (auto simp: close_socket_def core_of_def)

lemma disconnect_removes: "only_removes s (disconnect_cp i s)"
proof -
  have "only_removes s (change_array a (remove1 i) s)" for a
    by (rule only_removes_array) (rule set_remove1_subset)
  then show ?thesis
    unfolding disconnect_cp_def Let_def by (auto split: option.split intro!: only_removes_more)
qed

lemma small_steps_remove:
  "only_removes s (on_disconnect_cp i s)" "only_removes s (on_pong now i s)" "only_removes s (on_timeout i s)"
  "only_removes s (heartbeat_tick b now i s)" "only_removes s (release_cp now i s)" "only_removes s (snd (send_cp b i ev d s))"
proof -
  show pong: "only_removes s (on_pong now i s)" for s by (simp add: on_pong_def only_removes_object core_of_def)
  show "only_removes s (on_disconnect_cp i s)" by (simp add: on_disconnect_cp_def only_removes_object core_of_def)
  show "only_removes s (on_timeout i s)"
    by (simp add: on_timeout_def close_socket_def only_removes_object core_of_def split: option.split)
  show "only_removes s (heartbeat_tick b now i s)"
    by (auto simp: heartbeat_tick_def split: option.split intro: only_removes_trans [OF _ pong])
  show "only_removes s (release_cp now i s)" by (simp add: release_cp_def pong)
  show "only_removes s (snd (send_cp b i ev d s))" by (simp add: send_cp_def split: option.split)
qed

lemma cleanup_ids_removes: "only_removes s (snd (cleanup_ids now t ids k s))"
  by (induction ids arbitrary: k s) (auto split: option.split intro: only_removes_trans [OF disconnect_removes])

lemma cleanup_removes: "only_removes s (snd (cleanup_pools now ps k s))"
proof (induction now ps k s rule: cleanup_pools.induct)
  case (2 now poolName a pools cleaned s)
  then show ?case
    using cleanup_ids_removes [of s now "pc_staleThreshold (config_of poolName s)" "po_arrays s ! a" cleaned]
    by (auto split: prod.split intro: only_removes_trans)
qed simp

lemma fold_disconnect_removes: "only_removes s (fold disconnect_cp ids s)"
  by (induction ids arbitrary: s) (auto intro: only_removes_trans [OF disconnect_removes])

lemma core_kept: "only_removes s s' \<Longrightarrow> Map_get i (po_objects s') = Some c' \<Longrightarrow> \<exists>c. Map_get i (po_objects s) = Some c \<and> core_of c' = core_of c"
  by (cases "Map_get i (po_objects s)") (auto simp: only_removes_def dest: spec [of _ i])

lemma core_kept': "only_removes s s' \<Longrightarrow> Map_get i (po_objects s) = Some c \<Longrightarrow> \<exists>c'. Map_get i (po_objects s') = Some c' \<and> core_of c' = core_of c"
  by (cases "Map_get i (po_objects s')") (auto simp: only_removes_def dest: spec [of _ i])

lemma pool_inv_removes: 
  assumes inv: "pool_inv s" and r: "only_removes s s'"
  shows "pool_inv s'"
proof -
  have p: "po_pools s' = po_pools s" "length (po_arrays s') = length (po_arrays s)" using r by (simp_all add: only_removes_def)
  have objs: "uc_id c = i \<and> uc_pool c < length (po_arrays s) \<and> (\<forall>p. Map_get p (po_pools s) = Some (uc_pool c) \<longrightarrow> p = uc_serviceName c)"
    if "Map_get i (po_objects s') = Some c" for i c
    using core_kept [OF r that] inv unfolding pool_inv_def core_of_def by auto
  have arr: "\<exists>c. Map_get i (po_objects s') = Some c \<and> uc_pool c = a" if a: "a < length (po_arrays s)" "i \<in> set (po_arrays s' ! a)" for a i
  proof -
    have "i \<in> set (po_arrays s ! a)" using r a unfolding only_removes_def by blast
    then obtain c where "Map_get i (po_objects s) = Some c" "uc_pool c = a" using inv a(1) unfolding pool_inv_def by blast
    then show ?thesis using core_kept' [OF r] by (fastforce simp: core_of_def)
  qed
  show ?thesis using inv objs arr unfolding pool_inv_def p by blast
qed

lemma pool_inv_init: "pool_inv s \<Longrightarrow> pool_inv (initializePool p config s)"
  unfolding pool_inv_def initializePool_def
  by (auto simp: nth_append less_Suc_eq split: if_splits) (metis less_irrefl)+

lemma pool_inv_push:
  assumes inv: "pool_inv s" and c: "Map_get i (po_objects s) = Some c"
  shows "pool_inv (change_array (uc_pool c) (\<lambda>ids. ids @ [i]) s)"
proof -
  have len: "uc_pool c < length (po_arrays s)" using inv c unfolding pool_inv_def by blast
  have "\<exists>c'. Map_get j (po_objects s) = Some c' \<and> uc_pool c' = a"
    if "a < length (po_arrays s)" "j \<in> set (((po_arrays s)[uc_pool c := po_arrays s ! uc_pool c @ [i]]) ! a)" for a j
  proof (cases "a = uc_pool c \<and> j = i")
    case True
    then show ?thesis using c by simp
  next
    case False
    then have "j \<in> set (po_arrays s ! a)" using that len by (auto simp: nth_list_update split: if_splits)
    then show ?thesis using inv that(1) unfolding pool_inv_def by blast
  qed
  then show ?thesis using inv unfolding pool_inv_def change_array_def by simp
qed

lemma pool_inv_connect:
  assumes inv: "pool_inv s"
  shows "pool_inv (on_connect_cp now i s)"
proof (cases "Map_get i (po_objects s)")
  case (Some c)
  let ?f = "\<lambda>c. c\<lparr>uc_socketConnected := True, uc_isConnected := True, uc_lastHeartbeat := now\<rparr>"
  have "pool_inv (change_object i ?f s)" by (rule pool_inv_removes [OF inv only_removes_object]) (simp add: core_of_def)
  moreover have "Map_get i (po_objects (change_object i ?f s)) = Some (?f c)" using Some by (simp add: change_object_def)
  ultimately have "pool_inv (change_array (uc_pool c) (\<lambda>ids. ids @ [i]) (change_object i ?f s))"
    using pool_inv_push [of _ i "?f c"] by simp
  then show ?thesis using Some by (simp add: on_connect_cp_def Let_def pool_inv_def)
qed (simp add: on_connect_cp_def inv)

lemma map_filter_Cons: "List.map_filter f (x # xs) = (case f x of None \<Rightarrow> List.map_filter f xs | Some y \<Rightarrow> y # List.map_filter f xs)"
  by (simp add: List.map_filter_def split: option.split)

lemma find_object_Some: "find_object P ids s = Some c \<Longrightarrow> P c \<and> (\<exists>i \<in> set ids. Map_get i (po_objects s) = Some c)"
  unfolding find_object_def by (induction ids) (auto simp: map_filter_Cons List.map_filter_def split: option.splits if_splits)

lemma acquire_before:
  obtains "fst (acquire_cp now i p url m s) = None" "snd (acquire_cp now i p url m s) = s"
  | a s1 c where "Map_get p (po_pools s) = Some a" "only_removes s s1"
      "find_object (\<lambda>c. uc_url c = url \<and> uc_isConnected c) (po_arrays s1 ! a) s1 = Some c" "acquire_cp now i p url m s = (Some c, s1)"
  | a s1 c where "Map_get p (po_pools s) = Some a" "only_removes s s1" "acquire_cp now i p url m s = (Some c, s1\<lparr>po_objects := Map_set i c (po_objects s1)\<rparr>)"
      "c = \<lparr>uc_id = i, uc_serviceName = p, uc_url = url, uc_socketConnected = False, uc_closed = False, uc_connectedAt = now,
            uc_lastHeartbeat = now, uc_isConnected = False, uc_metadata = m, uc_pool = a\<rparr>"
proof (cases "Map_get p (po_pools s)")
  case None
  then show thesis by (intro that(1)) (simp_all add: acquire_cp_def)
next
  case (Some a)
  let ?full = "length (po_arrays s ! a) \<ge> pc_maxConnections (config_of p s)" and ?stale = "findStaleConnection now p s"
  let ?s1 = "case (?full, ?stale) of (True, Some c) \<Rightarrow> disconnect_cp (uc_id c) s | _ \<Rightarrow> s"
  have r: "only_removes s ?s1" by (auto simp: disconnect_removes split: bool.split option.split)
  show thesis
  proof (cases "?full \<and> ?stale = None")
    case True
    then show thesis using Some by (intro that(1)) (simp_all add: acquire_cp_def Let_def)
  next
    case False
    show thesis
    proof (cases "find_object (\<lambda>c. uc_url c = url \<and> uc_isConnected c) (po_arrays ?s1 ! a) ?s1")
      case None
      show thesis by (rule that(3) [OF Some r _ refl]) (use Some False None in \<open>simp add: acquire_cp_def Let_def createConnection_def\<close>)
    next
      case found: (Some c)
      show thesis by (rule that(2) [OF Some r found]) (use Some False found in \<open>simp add: acquire_cp_def Let_def\<close>)
    qed
  qed
qed

lemma pool_inv_new:
  assumes inv: "pool_inv s" and p: "Map_get p (po_pools s) = Some a" and fresh: "Map_get i (po_objects s) = None"
    and c: "uc_id c = i" "uc_serviceName c = p" "uc_pool c = a"
  shows "pool_inv (s\<lparr>po_objects := Map_set i c (po_objects s)\<rparr>)"
proof -
  have "j \<noteq> i" if "b < length (po_arrays s)" "j \<in> set (po_arrays s ! b)" for b j
    using inv that fresh unfolding pool_inv_def by force
  moreover have "a < length (po_arrays s)" "\<And>q. Map_get q (po_pools s) = Some a \<Longrightarrow> q = p" using inv p unfolding pool_inv_def by blast+
  ultimately show ?thesis using inv c unfolding pool_inv_def by auto
qed

lemma pool_inv_acquire:
  assumes inv: "pool_inv s" and fresh: "Map_get i (po_objects s) = None"
  shows "pool_inv (snd (acquire_cp now i p url m s))"
proof (rule acquire_before [of now i p url m s])
  fix a s1 c assume *: "Map_get p (po_pools s) = Some a" "only_removes s s1" "acquire_cp now i p url m s = (Some c, s1\<lparr>po_objects := Map_set i c (po_objects s1)\<rparr>)"
    "c = \<lparr>uc_id = i, uc_serviceName = p, uc_url = url, uc_socketConnected = False, uc_closed = False, uc_connectedAt = now,
            uc_lastHeartbeat = now, uc_isConnected = False, uc_metadata = m, uc_pool = a\<rparr>"
  have "Map_get i (po_objects s1) = None" using core_kept [OF *(2), of i] fresh by (cases "Map_get i (po_objects s1)") auto
  moreover have "Map_get p (po_pools s1) = Some a" using * by (simp add: only_removes_def)
  ultimately show ?thesis using pool_inv_new [OF pool_inv_removes [OF inv *(2)], of p a i c] * by simp
qed (simp_all add: inv pool_inv_removes [OF inv])

lemma pool_step_inv: "pool_inv s \<Longrightarrow> legal_event s e \<Longrightarrow> pool_inv (pool_step s e)"
proof (cases e)
  case Destroy
  moreover assume "pool_inv s"
  then have "pool_inv (fold disconnect_cp (po_connections s) s)" by (rule pool_inv_removes [OF _ fold_disconnect_removes])
  ultimately show ?thesis by (simp add: onModuleDestroy_cp_def pool_inv_def)
qed (auto simp: pool_inv_init pool_inv_acquire pool_inv_connect cleanupStaleConnections_def
    intro: pool_inv_removes small_steps_remove disconnect_removes cleanup_removes)

interpretation cpool: guarded_system pool_step legal_event pool_inv
  by unfold_locales (rule pool_step_inv)

lemma pool_inv_start: "pool_inv new_conn_pool"
  by (simp add: pool_inv_def new_conn_pool_def)

text \<open>A leaked connection stays.\<close>

lemma change_array_nth: "a < length (po_arrays s) \<Longrightarrow> po_arrays (change_array b f s) ! a = (if a = b then f (po_arrays s ! a) else po_arrays s ! a)"
  by (simp add: change_array_def nth_list_update)

lemma leaked_object:
  assumes "leaked i p a s" "\<And>c. uc_closed c \<Longrightarrow> uc_closed (f c)"
  shows "leaked i p a (change_object j f s)"
  using assms by (auto simp: leaked_def change_object_def)

lemma leaked_disconnect: "leaked i p a s \<Longrightarrow> leaked i p a (disconnect_cp j s)"
proof (cases "j \<in> set (po_connections s)")
  case True
  moreover assume l: "leaked i p a s"
  ultimately have ij: "j \<noteq> i" by (auto simp: leaked_def)
  have "leaked i p a (change_array b (remove1 j) s)" for b
    using l ij by (auto simp: leaked_def change_array_nth) (simp_all add: change_array_def)
  moreover have "leaked i p a s' \<Longrightarrow> leaked i p a (close_socket j s')" for s'
    unfolding close_socket_def by (rule leaked_object) simp_all
  moreover have "leaked i p a s' \<Longrightarrow> leaked i p a (s'\<lparr>po_connections := removeAll j (po_connections s')\<rparr>)" for s' by (simp add: leaked_def)
  ultimately show ?thesis using l by (auto simp: disconnect_cp_def Let_def split: option.split)
qed (simp add: disconnect_cp_def)

lemma leaked_cleanup_ids: "leaked i p a s \<Longrightarrow> leaked i p a (snd (cleanup_ids now t ids k s))"
  by (induction ids arbitrary: k s) (auto simp: leaked_disconnect split: option.split)

lemma leaked_cleanup: "leaked i p a s \<Longrightarrow> leaked i p a (snd (cleanup_pools now ps k s))"
proof (induction now ps k s rule: cleanup_pools.induct)
  case (2 now poolName b pools cleaned s)
  then show ?case
    using leaked_cleanup_ids [OF 2(2), of now "pc_staleThreshold (config_of poolName s)" "po_arrays s ! b" cleaned]
    by (auto split: prod.split)
qed simp

lemma leaked_acquire:
  assumes l: "leaked i p a s" and fresh: "Map_get j (po_objects s) = None"
  shows "leaked i p a (snd (acquire_cp now j q url m s))"
proof -
  have "i \<noteq> j" using l fresh by (auto simp: leaked_def)
  then have "leaked i p a s' \<Longrightarrow> leaked i p a (s'\<lparr>po_objects := Map_set j c (po_objects s')\<rparr>)" for s' c by (simp add: leaked_def)
  then show ?thesis using l leaked_disconnect [OF l] unfolding acquire_cp_def Let_def createConnection_def by (simp split: option.split prod.split bool.split)
qed

lemma leaked_step:
  assumes l: "leaked i p a s" and legal: "legal_event s e" and keep: "\<not> drops_pool p e"
  shows "leaked i p a (pool_step s e)"
proof (cases e)
  case (Initialize q c)
  then show ?thesis using l keep by (auto simp: leaked_def initializePool_def drops_pool_def nth_append)
next
  case (Connected now j)
  then have "j \<noteq> i" using l legal by (auto simp: leaked_def split: option.splits)
  then show ?thesis using l Connected
    by (auto simp: on_connect_cp_def Let_def leaked_def change_object_def change_array_nth split: option.split) (auto simp: change_array_def nth_list_update)
next
  case (Timed_Out j)
  then show ?thesis using l by (auto simp: on_timeout_def close_socket_def intro!: leaked_object split: option.split)
next
  case (Tick b now j)
  have "leaked i p a (s\<lparr>po_intervals := x\<rparr>)" "leaked i p a (s\<lparr>po_emitted := y\<rparr>)" for x y using l by (simp_all add: leaked_def)
  then show ?thesis using l Tick by (auto simp: heartbeat_tick_def on_pong_def intro!: leaked_object split: option.split)
next
  case (Send b j ev d)
  then show ?thesis using l by (auto simp: send_cp_def leaked_def split: option.split)
qed (use l legal keep in \<open>auto simp: on_disconnect_cp_def on_pong_def release_cp_def leaked_acquire leaked_disconnect leaked_cleanup cleanupStaleConnections_def drops_pool_def
    intro!: leaked_object\<close>)

lemma leaked_run: "leaked i p a s \<Longrightarrow> guarded pool_step legal_event s es \<Longrightarrow> list_all (\<lambda>e. \<not> drops_pool p e) es \<Longrightarrow> leaked i p a (run pool_step s es)"
  by (induction es arbitrary: s) (auto simp: leaked_step)

lemma leaked_made:
  assumes inv: "pool_inv s" and c: "Map_get i (po_objects s) = Some c" "uc_socketConnected c"
    and p: "Map_get (uc_serviceName c) (po_pools s) = Some (uc_pool c)" "i \<in> set (po_arrays s ! uc_pool c)"
  shows "leaked i (uc_serviceName c) (uc_pool c) (disconnect_cp i (on_connect_cp now i (on_disconnect_cp i s)))"
proof -
  have "uc_pool c < length (po_arrays s)" using inv c unfolding pool_inv_def by blast
  moreover have "i \<in> set (remove1 i (po_arrays s ! uc_pool c @ [i]))" using p(2) by (simp add: remove1_append)
  ultimately show ?thesis
    using c p by (simp add: leaked_def disconnect_cp_def on_connect_cp_def on_disconnect_cp_def close_socket_def change_object_def change_array_def Let_def)
qed

lemma conn_name_eq [simp]: "conn_name j = conn_name k \<longleftrightarrow> j = k"
  by (auto simp: conn_name_def dest: arg_cong [where f = length])

text \<open>The states of overlapping acquires.\<close>

definition waiting :: "string \<Rightarrow> timestamp \<Rightarrow> nat \<Rightarrow> nat \<Rightarrow> pool_config \<Rightarrow> conn_pool \<Rightarrow> bool" where
  "waiting p now k n config s \<longleftrightarrow>
     Map_get p (po_pools s) = Some 0 \<and> po_arrays s = [map conn_name [0..<k]] \<and> config_of p s = config \<and>
     (\<forall>j. case Map_get (conn_name j) (po_objects s) of
        None \<Rightarrow> n \<le> j
      | Some c \<Rightarrow> j < n \<and> uc_pool c = 0 \<and> (k \<le> j \<longrightarrow> \<not> uc_socketConnected c \<and> \<not> uc_closed c))"

lemma waiting_acquire:
  assumes w: "waiting p now 0 n config s" and room: "0 < pc_maxConnections config"
  shows "legal_event s (Acquire now (conn_name n) p url m) \<and> waiting p now 0 (Suc n) config (pool_step s (Acquire now (conn_name n) p url m))"
proof -
  have fresh: "Map_get (conn_name n) (po_objects s) = None"
    using w unfolding waiting_def by (metis (no_types, lifting) less_irrefl option.case_eq_if option.collapse)
  have "acquire_cp now (conn_name n) p url m s = (let c = \<lparr>uc_id = conn_name n, uc_serviceName = p, uc_url = url, uc_socketConnected = False, uc_closed = False,
      uc_connectedAt = now, uc_lastHeartbeat = now, uc_isConnected = False, uc_metadata = m, uc_pool = 0\<rparr> in (Some c, s\<lparr>po_objects := Map_set (conn_name n) c (po_objects s)\<rparr>))"
    using w room by (simp add: waiting_def acquire_cp_def Let_def find_object_def List.map_filter_def createConnection_def)
  moreover have "case Map_get (conn_name j) (Map_set (conn_name n) c (po_objects s)) of None \<Rightarrow> Suc n \<le> j
      | Some c \<Rightarrow> j < Suc n \<and> uc_pool c = 0 \<and> (0 \<le> j \<longrightarrow> \<not> uc_socketConnected c \<and> \<not> uc_closed c)"
    if "uc_pool c = 0" "\<not> uc_socketConnected c" "\<not> uc_closed c" for j c
  proof (cases "j = n")
    case False
    have "case Map_get (conn_name j) (po_objects s) of None \<Rightarrow> n \<le> j
      | Some c \<Rightarrow> j < n \<and> uc_pool c = 0 \<and> (0 \<le> j \<longrightarrow> \<not> uc_socketConnected c \<and> \<not> uc_closed c)"
      using w unfolding waiting_def by blast
    then show ?thesis using False by (auto split: option.splits)
  qed (simp add: that)
  ultimately show ?thesis using w fresh by (simp add: waiting_def Let_def config_of_def)
qed

lemma waiting_connect:
  assumes w: "waiting p now k n config s" and k: "k < n"
  shows "legal_event s (Connected now (conn_name k)) \<and> waiting p now (Suc k) n config (pool_step s (Connected now (conn_name k)))"
proof -
  obtain c where c: "Map_get (conn_name k) (po_objects s) = Some c" "uc_pool c = 0" "\<not> uc_socketConnected c" "\<not> uc_closed c"
    using w k unfolding waiting_def by (cases "Map_get (conn_name k) (po_objects s)") (force split: option.splits)+
  let ?f = "\<lambda>c. c\<lparr>uc_socketConnected := True, uc_isConnected := True, uc_lastHeartbeat := now\<rparr>"
  have "case Map_get (conn_name j) (Map_upd (conn_name k) ?f (po_objects s)) of None \<Rightarrow> n \<le> j
      | Some c \<Rightarrow> j < n \<and> uc_pool c = 0 \<and> (Suc k \<le> j \<longrightarrow> \<not> uc_socketConnected c \<and> \<not> uc_closed c)" for j
  proof (cases "j = k")
    case False
    have "case Map_get (conn_name j) (po_objects s) of None \<Rightarrow> n \<le> j
      | Some c \<Rightarrow> j < n \<and> uc_pool c = 0 \<and> (k \<le> j \<longrightarrow> \<not> uc_socketConnected c \<and> \<not> uc_closed c)"
      using w unfolding waiting_def by blast
    then show ?thesis using False by (auto split: option.splits)
  qed (simp add: c k)
  then show ?thesis using w c
    by (simp add: waiting_def on_connect_cp_def Let_def change_object_def change_array_def config_of_def)
qed

lemma overlapping_run:
  assumes room: "0 < pc_maxConnections config"
  shows "guarded pool_step legal_event (initializePool p (Some config) new_conn_pool) (overlapping p now n) \<and>
    waiting p now n n config (run pool_step (initializePool p (Some config) new_conn_pool) (overlapping p now n))"
proof -
  let ?s0 = "initializePool p (Some config) new_conn_pool"
  have start: "waiting p now 0 0 config ?s0" by (simp add: waiting_def initializePool_def new_conn_pool_def config_of_def)
  have snoc: "guarded pool_step legal_event s (es @ [e]) \<longleftrightarrow> guarded pool_step legal_event s es \<and> legal_event (run pool_step s es) e" for s es e
    by (induction es arbitrary: s) simp_all
  define acq where "acq = (\<lambda>n. map (\<lambda>k. Acquire now (conn_name k) p (conn_name k) None) [0..<n])"
  have acquires: "guarded pool_step legal_event ?s0 (acq m) \<and> waiting p now 0 m config (run pool_step ?s0 (acq m))" for m
  proof (induction m)
    case 0
    then show ?case using start by (simp add: acq_def)
  next
    case (Suc m)
    have "acq (Suc m) = acq m @ [Acquire now (conn_name m) p (conn_name m) None]" by (simp add: acq_def)
    then show ?case
      using Suc waiting_acquire [OF conjunct2 [OF Suc] room, of "conn_name m" None] by (simp only: snoc run_append run_Cons run_Nil)
  qed
  have "guarded pool_step legal_event ?s0 (acq n @ map (\<lambda>k. Connected now (conn_name k)) [0..<m]) \<and>
      waiting p now m n config (run pool_step ?s0 (acq n @ map (\<lambda>k. Connected now (conn_name k)) [0..<m]))" if "m \<le> n" for m
    using that
  proof (induction m)
    case 0
    then show ?case using acquires [of n] by simp
  next
    case (Suc m)
    have snoc_m: "acq n @ map (\<lambda>k. Connected now (conn_name k)) [0..<Suc m] =
        (acq n @ map (\<lambda>k. Connected now (conn_name k)) [0..<m]) @ [Connected now (conn_name m)]" by simp
    have IH: "guarded pool_step legal_event ?s0 (acq n @ map (\<lambda>k. Connected now (conn_name k)) [0..<m]) \<and>
      waiting p now m n config (run pool_step ?s0 (acq n @ map (\<lambda>k. Connected now (conn_name k)) [0..<m]))" using Suc by simp
    then show ?case using waiting_connect [OF conjunct2 [OF IH]] Suc.prems unfolding snoc_m by (simp only: snoc run_append run_Cons run_Nil)
  qed
  from this [of n] show ?thesis by (simp add: overlapping_def acq_def)
qed

section \<open>Properties\<close>

text \<open>
  A connection that is acquired is one that was asked for: in every history, whatever the sockets do, the
  connection \<^verbatim>\<open>acquire_cp\<close> returns has the url and belongs to the pool of the request, and it is
  a connected member of the pool or the new one, which is not connected yet.
\<close>

theorem acquired_as_requested:
  assumes history: "guarded pool_step legal_event new_conn_pool es" and s: "s = run pool_step new_conn_pool es"
    and got: "fst (acquire_cp now i p url m s) = Some c"
  shows "uc_url c = url \<and> uc_serviceName c = p \<and>
    (uc_isConnected c \<and> uc_id c \<in> set (nullish (pool_ids p (snd (acquire_cp now i p url m s))) []) \<or> uc_id c = i \<and> \<not> uc_isConnected c)"
proof -
  have inv: "pool_inv s" unfolding s by (rule cpool.guarded_run_inv [OF history pool_inv_start])
  show ?thesis
  proof (rule acquire_before [of now i p url m s])
    fix a s1 c' assume *: "Map_get p (po_pools s) = Some a" "only_removes s s1"
      "find_object (\<lambda>c. uc_url c = url \<and> uc_isConnected c) (po_arrays s1 ! a) s1 = Some c'" "acquire_cp now i p url m s = (Some c', s1)"
    then have [simp]: "c' = c" using got by simp
    have inv1: "pool_inv s1" by (rule pool_inv_removes [OF inv *(2)])
    have p1: "Map_get p (po_pools s1) = Some a" using * by (simp add: only_removes_def)
    obtain j where j: "j \<in> set (po_arrays s1 ! a)" "Map_get j (po_objects s1) = Some c" "uc_url c = url" "uc_isConnected c"
      using find_object_Some [OF *(3)] by auto
    have "a < length (po_arrays s1)" using inv1 p1 unfolding pool_inv_def by blast
    then have "uc_pool c = a" using inv1 j(1,2) unfolding pool_inv_def by (metis option.inject)
    then have "uc_serviceName c = p" "uc_id c = j" using inv1 j(2) p1 unfolding pool_inv_def by metis+
    then show ?thesis using j p1 *(4) by (simp add: pool_ids_def)
  qed (use got in auto)
qed

theorem acquired_as_requested_witness:
  "case fst (acquire_cp 9 ''b'' ''p'' ''u'' None (run pool_step new_conn_pool [Initialize ''p'' None, Acquire 1 ''a'' ''p'' ''u'' None, Connected 2 ''a''])) of
     Some c \<Rightarrow> uc_url c = ''u'' \<and> uc_serviceName c = ''p''
   | None \<Rightarrow> False"
proof -
  let ?es = "[Initialize ''p'' None, Acquire 1 ''a'' ''p'' ''u'' None, Connected 2 ''a'']"
  have "guarded pool_step legal_event new_conn_pool ?es" by code_simp
  note sound = acquired_as_requested [OF this refl, of 9 "''b''" "''p''" "''u''" None]
  have "fst (acquire_cp 9 ''b'' ''p'' ''u'' None (run pool_step new_conn_pool ?es)) \<noteq> None" by code_simp
  then obtain c where "fst (acquire_cp 9 ''b'' ''p'' ''u'' None (run pool_step new_conn_pool ?es)) = Some c" by blast
  with sound [OF this] show ?thesis by simp
qed

text \<open>
  C36. Overlapping acquires exceed the maximum: connections enter the pool when their sockets connect, so
  acquires of different urls that all come before the first socket connects pass the test of the
  capacity, and a pool of any positive capacity then holds as many connections as were asked for.
\<close>

theorem overlapping_acquires_exceed:
  assumes "0 < pc_maxConnections config"
  shows "guarded pool_step legal_event (initializePool p (Some config) new_conn_pool) (overlapping p now n) \<and>
    map_option length (pool_ids p (run pool_step (initializePool p (Some config) new_conn_pool) (overlapping p now n))) = Some n"
  using overlapping_run [OF assms, of p now n] by (simp add: waiting_def pool_ids_def)

theorem overlapping_acquires_exceed_witness:
  "map_option length (pool_ids ''p'' (run pool_step (initializePool ''p'' (Some pool_defaultConfig) new_conn_pool) (overlapping ''p'' 0 101))) = Some 101"
proof -
  have "0 < pc_maxConnections pool_defaultConfig" by (simp add: pool_defaultConfig_def)
  from overlapping_acquires_exceed [OF this, of "''p''" 0 101] show ?thesis by simp
qed



text \<open>A connection that is disconnected while its socket reconnects comes back.\<close>

lemma removed_connection_returns:
  assumes "pool_inv s" "Map_get i (po_objects s) = Some c" "\<not> uc_socketConnected c" "\<not> uc_closed c"
  shows "legal_event (disconnect_cp i s) (Connected now i) \<and> i \<in> set (po_connections (pool_step (disconnect_cp i s) (Connected now i)))"
  using assms by (auto simp: disconnect_cp_def on_connect_cp_def change_array_def change_object_def Let_def split: option.split)

end
