(* ===== verification/Retry.thy ===== *)
theory Retry
  imports Js_Prelude
begin

text \<open>
  The retry helper of the database layer (common/database/retry/retry.service.ts). The function that is
  retried is the sequence of its outcomes, call by call; the model returns the final outcome with the
  delays that were slept, one before each call but the first. Delays are exact numbers.
\<close>

section \<open>Options\<close>

datatype retry_strategy = FIXED_DELAY | EXPONENTIAL_BACKOFF | LINEAR_BACKOFF

text \<open>An error as its message and its code; a message that is not a text is left out.\<close>

record js_error =
  je_message :: "string option"
  je_code :: "string option"

record backoff_options =
  bo_type :: "retry_strategy option"
  bo_factor :: "rat option"
  bo_delay :: "rat option"
  bo_maxDelay :: "rat option"

record retry_options =
  ro_maxRetries :: nat
  ro_baseDelay :: rat
  ro_maxDelay :: rat
  ro_strategy :: retry_strategy
  ro_backoff :: "backoff_options option"
  ro_shouldRetry :: "(js_error \<Rightarrow> bool option) option"

definition DEFAULT_OPTIONS :: retry_options where
  "DEFAULT_OPTIONS =
     \<lparr>ro_maxRetries = 3, ro_baseDelay = 1000, ro_maxDelay = 30000, ro_strategy = EXPONENTIAL_BACKOFF, ro_backoff = None, ro_shouldRetry = None\<rparr>"

section \<open>The helper\<close>

definition transientCodes :: "string list" where
  "transientCodes = [''ECONNREFUSED'', ''ECONNRESET'', ''ENOTFOUND'', ''ETIMEDOUT'', ''ECONNABORTED'']"

definition isTransientError :: "js_error \<Rightarrow> bool" where
  "isTransientError e =
     (let message = nullish (je_message e) (nullish (je_code e) [])
      in list_ex (\<lambda>code. includes_str message code) transientCodes)"

definition calculateDelay :: "retry_strategy \<Rightarrow> nat \<Rightarrow> rat \<Rightarrow> rat \<Rightarrow> rat \<Rightarrow> rat" where
  "calculateDelay strategy attempt baseDelay factor maxDelay =
     (case strategy of
        EXPONENTIAL_BACKOFF \<Rightarrow> min (baseDelay * factor ^ attempt) maxDelay
      | LINEAR_BACKOFF \<Rightarrow> min (baseDelay * of_nat (attempt + 1)) maxDelay
      | FIXED_DELAY \<Rightarrow> min baseDelay maxDelay)"

definition backoff_value :: "retry_options \<Rightarrow> (backoff_options \<Rightarrow> 'x option) \<Rightarrow> 'x \<Rightarrow> 'x" where
  "backoff_value opts sel d = (case ro_backoff opts of None \<Rightarrow> d | Some b \<Rightarrow> nullish (sel b) d)"

definition delay_of :: "retry_options \<Rightarrow> nat \<Rightarrow> rat" where
  "delay_of opts attempt =
     calculateDelay (backoff_value opts bo_type (ro_strategy opts)) attempt (backoff_value opts bo_delay (ro_baseDelay opts))
       (backoff_value opts bo_factor 2) (backoff_value opts bo_maxDelay (ro_maxDelay opts))"

definition should_retry :: "retry_options \<Rightarrow> js_error \<Rightarrow> bool" where
  "should_retry opts e =
     (case ro_shouldRetry opts of None \<Rightarrow> isTransientError e | Some f \<Rightarrow> nullish (f e) (isTransientError e))"

function tryExecute :: "retry_options \<Rightarrow> (nat \<Rightarrow> js_error + 'a) \<Rightarrow> nat \<Rightarrow> (js_error + 'a) \<times> rat list" where
  "tryExecute opts fn attemptIndex =
     (case fn attemptIndex of
        Inr x \<Rightarrow> (Inr x, [])
      | Inl e \<Rightarrow>
          if attemptIndex \<ge> ro_maxRetries opts then (Inl e, [])
          else if \<not> should_retry opts e then (Inl e, [])
          else (case tryExecute opts fn (attemptIndex + 1) of (r, delays) \<Rightarrow> (r, delay_of opts attemptIndex # delays)))"
  by pat_completeness auto
termination by (relation "measure (\<lambda>(opts, fn, attemptIndex). ro_maxRetries opts - attemptIndex)") auto

definition retry :: "retry_options \<Rightarrow> (nat \<Rightarrow> js_error + 'a) \<Rightarrow> (js_error + 'a) \<times> rat list" where
  "retry opts fn = tryExecute opts fn 0"

text \<open>A function that fails twice with a reset connection.\<close>

definition flaky :: "nat \<Rightarrow> js_error + nat" where
  "flaky k = (if k < 2 then Inl \<lparr>je_message = Some ''read ECONNRESET'', je_code = None\<rparr> else Inr k)"

section \<open>Facts\<close>

declare tryExecute.simps [simp del]

lemma tryExecute_spec:
  "tryExecute opts fn i = (r, ds) \<Longrightarrow>
    r = fn (i + length ds) \<and> ds = map (delay_of opts) [i..<i + length ds] \<and> (i \<le> ro_maxRetries opts \<longrightarrow> i + length ds \<le> ro_maxRetries opts) \<and>
    (\<forall>k. i \<le> k \<and> k < i + length ds \<longrightarrow> (\<exists>e. fn k = Inl e \<and> should_retry opts e)) \<and>
    (\<forall>e. r = Inl e \<longrightarrow> ro_maxRetries opts \<le> i + length ds \<or> \<not> should_retry opts e)"
proof (induction opts fn i arbitrary: r ds rule: tryExecute.induct)
  case (1 opts fn i)
  show ?case
  proof (cases "fn i")
    case (Inr x)
    then show ?thesis using 1(2) by (subst (asm) tryExecute.simps) auto
  next
    case (Inl e)
    show ?thesis
    proof (cases "ro_maxRetries opts \<le> i \<or> \<not> should_retry opts e")
      case True
      then show ?thesis using 1(2) Inl by (subst (asm) tryExecute.simps) (auto split: if_splits)
    next
      case False
      obtain ds' where ds': "tryExecute opts fn (i + 1) = (r, ds')" "ds = delay_of opts i # ds'"
        using 1(2) Inl False by (subst (asm) tryExecute.simps) (auto split: prod.splits)
      note IH = 1(1) [OF Inl _ _ ds'(1)]
      have IH: "r = fn (i + 1 + length ds')" "ds' = map (delay_of opts) [i + 1..<i + 1 + length ds']" "i + 1 + length ds' \<le> ro_maxRetries opts"
        "\<forall>k. i + 1 \<le> k \<and> k < i + 1 + length ds' \<longrightarrow> (\<exists>e. fn k = Inl e \<and> should_retry opts e)"
        "\<forall>e. r = Inl e \<longrightarrow> ro_maxRetries opts \<le> i + 1 + length ds' \<or> \<not> should_retry opts e"
        using IH False by auto
      have "ds = map (delay_of opts) [i..<i + length ds]"
        using IH(2) by (simp add: ds'(2) upt_conv_Cons del: upt_Suc)
      moreover have "\<exists>e. fn k = Inl e \<and> should_retry opts e" if "i \<le> k" "k < i + length ds" for k
        using IH(4) Inl False that by (cases "k = i") (auto simp: ds'(2))
      ultimately show ?thesis using IH by (simp add: ds'(2))
    qed
  qed
qed

section \<open>Properties\<close>

text \<open>
  C37. The helper retries exactly what it says: it calls the function at most maxRetries times more than
  once, all outcomes but the last are errors that are to be retried, the last one is what it returns or
  throws, it throws only an error that is not to be retried or that of the last permitted call, and it
  sleeps the computed delay before each further call.
\<close>

theorem retry_exact:
  "case retry opts fn of (r, delays) \<Rightarrow>
     r = fn (length delays) \<and> length delays \<le> ro_maxRetries opts \<and> delays = map (delay_of opts) [0..<length delays] \<and>
     {k. k < length delays} \<subseteq> {k. \<exists>e. fn k = Inl e \<and> should_retry opts e} \<and>
     (case r of Inr _ \<Rightarrow> True | Inl e \<Rightarrow> length delays = ro_maxRetries opts \<or> \<not> should_retry opts e)"
proof -
  obtain r ds where run: "retry opts fn = (r, ds)" by (cases "retry opts fn")
  from tryExecute_spec [OF this [unfolded retry_def]] show ?thesis
    unfolding run by (auto split: sum.split)
qed

theorem retry_exact_witness:
  "case retry DEFAULT_OPTIONS flaky of (r, delays) \<Rightarrow> r = flaky (length delays) \<and> length delays \<le> 3 \<and> delays = [1000, 2000]"
proof -
  have run: "retry DEFAULT_OPTIONS flaky = (Inr 2, [1000, 2000])" by code_simp
  show ?thesis using retry_exact [where opts = DEFAULT_OPTIONS and fn = flaky] unfolding run by (simp add: DEFAULT_OPTIONS_def)
qed

text \<open>Delays are at most the maximum, and never negative for non-negative options.\<close>

lemma delay_bounds:
  assumes "0 \<le> baseDelay" "0 \<le> factor" "0 \<le> maxDelay"
  shows "0 \<le> calculateDelay strategy attempt baseDelay factor maxDelay \<and> calculateDelay strategy attempt baseDelay factor maxDelay \<le> maxDelay"
  using assms by (cases strategy) (simp_all add: calculateDelay_def)

text \<open>An error with a message is judged by the message alone, whatever its code.\<close>

lemma code_ignored: "je_message e = Some m \<Longrightarrow> isTransientError (e\<lparr>je_code := c\<rparr>) = isTransientError e"
  by (simp add: isTransientError_def)

end
