(* ===== verification/Metrics_History.thy ===== *)
theory Metrics_History
  imports Js_Prelude
begin

text \<open>
  The history of system metrics (monitoring/metrics-history.service.ts): a buffer of points that is
  bounded by age and by count. A sample is what the metrics service reports; the timer is a flag.
\<close>

section \<open>State\<close>

record history_point =
  hp_timestamp :: timestamp
  hp_cpuUsagePercent :: rat
  hp_processCpuUsagePercent :: rat
  hp_memoryUsagePercent :: rat
  hp_diskUsagePercent :: "rat option"
  hp_processHeapUsedBytes :: nat
  hp_processRssBytes :: nat

record metrics_sample =
  sm_cpu :: rat
  sm_processCpu :: rat
  sm_memory :: rat
  sm_disk :: "rat option"
  sm_heapUsed :: nat
  sm_rss :: nat

record metrics_history =
  mh_retentionMs :: int
  mh_maxPoints :: nat
  mh_intervalMs :: int
  mh_points :: "history_point list"
  mh_timer :: bool

text \<open>A setting that is missing, zero or no number takes the default.\<close>

definition or_default :: "nat option \<Rightarrow> nat \<Rightarrow> nat" where
  "or_default x d = (case x of None \<Rightarrow> d | Some k \<Rightarrow> if k = 0 then d else k)"

definition new_metrics_history :: "nat option \<Rightarrow> nat option \<Rightarrow> nat option \<Rightarrow> metrics_history" where
  "new_metrics_history retention maxPoints interval =
     \<lparr>mh_retentionMs = int (or_default retention (24 * 60 * 60 * 1000)), mh_maxPoints = or_default maxPoints 5760,
      mh_intervalMs = int (or_default interval 15000), mh_points = [], mh_timer = False\<rparr>"

section \<open>Operations\<close>

definition stop_history :: "metrics_history \<Rightarrow> metrics_history" where
  "stop_history s = (if mh_timer s then s\<lparr>mh_timer := False\<rparr> else s)"

definition start_history :: "metrics_history \<Rightarrow> metrics_history" where
  "start_history s = (stop_history s)\<lparr>mh_timer := True\<rparr>"

definition prune :: "timestamp \<Rightarrow> metrics_history \<Rightarrow> metrics_history" where
  "prune now s =
     (let cutoff = now - mh_retentionMs s;
          kept = (case mh_points s of
                    [] \<Rightarrow> []
                  | p # _ \<Rightarrow> if hp_timestamp p < cutoff then filter (\<lambda>p. hp_timestamp p \<ge> cutoff) (mh_points s) else mh_points s)
      in s\<lparr>mh_points := (if length kept > mh_maxPoints s then drop (length kept - mh_maxPoints s) kept else kept)\<rparr>)"

definition point_of :: "timestamp \<Rightarrow> metrics_sample \<Rightarrow> history_point" where
  "point_of now m =
     \<lparr>hp_timestamp = now, hp_cpuUsagePercent = sm_cpu m, hp_processCpuUsagePercent = sm_processCpu m, hp_memoryUsagePercent = sm_memory m,
      hp_diskUsagePercent = sm_disk m, hp_processHeapUsedBytes = sm_heapUsed m, hp_processRssBytes = sm_rss m\<rparr>"

definition capture :: "timestamp \<Rightarrow> metrics_sample option \<Rightarrow> metrics_history \<Rightarrow> history_point option \<times> metrics_history" where
  "capture now snapshot s =
     (case snapshot of
        None \<Rightarrow> (None, s)
      | Some m \<Rightarrow> let point = point_of now m in (Some point, prune now (s\<lparr>mh_points := mh_points s @ [point]\<rparr>)))"

record history_query =
  hq_since :: "timestamp option"
  hq_until :: "timestamp option"
  hq_limit :: "nat option"

definition query :: "history_query \<Rightarrow> metrics_history \<Rightarrow> history_point list" where
  "query q s =
     (let r0 = mh_points s;
          r1 = (case hq_since q of None \<Rightarrow> r0 | Some t \<Rightarrow> filter (\<lambda>p. hp_timestamp p \<ge> t) r0);
          r2 = (case hq_until q of None \<Rightarrow> r1 | Some t \<Rightarrow> filter (\<lambda>p. hp_timestamp p \<le> t) r1)
      in case hq_limit q of None \<Rightarrow> r2 | Some k \<Rightarrow> if length r2 > k then drop (length r2 - k) r2 else r2)"

definition history_size :: "metrics_history \<Rightarrow> nat" where
  "history_size s = length (mh_points s)"

definition getRetention :: "metrics_history \<Rightarrow> int \<times> nat" where
  "getRetention s = (mh_retentionMs s, mh_maxPoints s)"

definition clear_history :: "metrics_history \<Rightarrow> metrics_history" where
  "clear_history s = s\<lparr>mh_points := []\<rparr>"

section \<open>Reference\<close>

text \<open>The last \<open>k\<close> elements, and a history of captures.\<close>

definition newest :: "nat \<Rightarrow> 'a list \<Rightarrow> 'a list" where
  "newest k xs = drop (length xs - k) xs"

definition captured :: "(timestamp \<times> metrics_sample) list \<Rightarrow> metrics_history \<Rightarrow> metrics_history" where
  "captured samples s = fold (\<lambda>(now, m) s. snd (capture now (Some m) s)) samples s"

definition all_points :: "(timestamp \<times> metrics_sample) list \<Rightarrow> history_point list" where
  "all_points samples = map (\<lambda>(now, m). point_of now m) samples"

section \<open>Facts\<close>

lemma newest_drop: "newest k (drop j xs) = drop (max j (length xs - k)) xs"
proof -
  have "length xs - j - k + j = max j (length xs - k)" by arith
  then show ?thesis by (simp only: newest_def length_drop drop_drop)
qed

text \<open>In a list with ascending times the points since a time are a suffix.\<close>

lemma filter_suffix:
  "sorted (map f xs) \<Longrightarrow> filter (\<lambda>p. (c :: int) \<le> f p) xs = drop (length (filter (\<lambda>p. f p < c) xs)) xs"
proof (induction xs)
  case (Cons x xs)
  show ?case
  proof (cases "c \<le> f x")
    case True
    then have "\<forall>y \<in> set xs. c \<le> f y" using Cons.prems by auto
    then show ?thesis using True by (auto simp: filter_id_conv filter_empty_conv not_less)
  qed (use Cons in simp)
qed simp

lemma filter_drop:
  assumes "sorted (map f xs)"
  shows "filter (\<lambda>p. (c :: int) \<le> f p) (drop j xs) = drop (max j (length (filter (\<lambda>p. f p < c) xs))) xs"
proof (cases "j \<le> length (filter (\<lambda>p. f p < c) xs)")
  case True
  have "filter (\<lambda>p. c \<le> f p) xs = filter (\<lambda>p. c \<le> f p) (take j xs) @ filter (\<lambda>p. c \<le> f p) (drop j xs)"
    by (metis append_take_drop_id filter_append)
  moreover have "filter (\<lambda>p. c \<le> f p) (take j xs) = []"
  proof -
    have "f (xs ! i) < c" if "i < j" for i
    proof (rule ccontr)
      assume "\<not> f (xs ! i) < c"
      let ?n = "length (filter (\<lambda>p. f p < c) xs)"
      have len: "?n \<le> length xs" by simp
      have "f (xs ! k) < c \<Longrightarrow> k < i" if "k < length xs" for k
        using assms \<open>\<not> f (xs ! i) < c\<close> that sorted_nth_mono [OF assms, of i k] by (cases "k < i") auto
      then have "{k. k < length xs \<and> f (xs ! k) < c} \<subseteq> {..<i}" by auto
      then have "card {k. k < length xs \<and> f (xs ! k) < c} \<le> i" using card_mono [of "{..<i}"] by fastforce
      then show False using True \<open>i < j\<close> by (simp add: length_filter_conv_card)
    qed
    then show ?thesis by (auto simp: filter_empty_conv in_set_conv_nth not_le)
  qed
  ultimately show ?thesis using filter_suffix [OF assms, of c] True by (simp add: max_def)
next
  case False
  have "filter (\<lambda>p. c \<le> f p) (drop j xs) = drop j xs"
  proof -
    have "\<forall>p \<in> set (drop j xs). c \<le> f p"
    proof -
      have "set (drop j xs) \<subseteq> set (drop (length (filter (\<lambda>p. f p < c) xs)) xs)" using False by (simp add: set_drop_subset_set_drop)
      also have "\<dots> = set (filter (\<lambda>p. c \<le> f p) xs)" by (simp add: filter_suffix [OF assms])
      finally show ?thesis by auto
    qed
    then show ?thesis by (simp add: filter_id_conv)
  qed
  then show ?thesis using False by (simp add: max_def)
qed

lemma prune_points:
  assumes "sorted (map hp_timestamp (mh_points s))"
  shows "mh_points (prune now s) = newest (mh_maxPoints s) (filter (\<lambda>p. now - mh_retentionMs s \<le> hp_timestamp p) (mh_points s))"
    "mh_maxPoints (prune now s) = mh_maxPoints s" "mh_retentionMs (prune now s) = mh_retentionMs s"
proof -
  have "(case mh_points s of [] \<Rightarrow> [] | p # _ \<Rightarrow> if hp_timestamp p < now - mh_retentionMs s
      then filter (\<lambda>p. hp_timestamp p \<ge> now - mh_retentionMs s) (mh_points s) else mh_points s) =
    filter (\<lambda>p. now - mh_retentionMs s \<le> hp_timestamp p) (mh_points s)"
  proof (cases "mh_points s")
    case (Cons p ps)
    show ?thesis
    proof (cases "hp_timestamp p < now - mh_retentionMs s")
      case False
      then have "\<forall>q \<in> set (mh_points s). now - mh_retentionMs s \<le> hp_timestamp q" using assms Cons by auto
      then have "filter (\<lambda>p. now - mh_retentionMs s \<le> hp_timestamp p) (mh_points s) = mh_points s" by (simp only: filter_id_conv)
      then show ?thesis using Cons False by simp
    qed (simp add: Cons)
  qed simp
  then show "mh_points (prune now s) = newest (mh_maxPoints s) (filter (\<lambda>p. now - mh_retentionMs s \<le> hp_timestamp p) (mh_points s))"
    by (simp add: prune_def Let_def newest_def)
qed (simp_all add: prune_def Let_def)

lemma filter_count_mono:
  fixes c :: int
  assumes "c \<le> c'"
  shows "length (filter (\<lambda>p. f p < c) xs) \<le> length (filter (\<lambda>p. f p < c') (xs @ ys))"
  using assms by (induction xs) auto

text \<open>The points after a history of captures with ascending times, the last one at \<open>now\<close>.\<close>

lemma captured_points:
  assumes "sorted (map fst samples)" "samples \<noteq> []" "mh_points s = []"
  shows "mh_points (captured samples s) =
      drop (max (length samples - mh_maxPoints s)
        (length (filter (\<lambda>p. hp_timestamp p < fst (last samples) - mh_retentionMs s) (all_points samples)))) (all_points samples) \<and>
    mh_maxPoints (captured samples s) = mh_maxPoints s \<and> mh_retentionMs (captured samples s) = mh_retentionMs s"
  using assms(1,2)
proof (induction samples rule: rev_induct)
  case (snoc x xs)
  obtain now m where x: "x = (now, m)" by (cases x)
  let ?s = "captured xs s" and ?A = "all_points xs" and ?A' = "all_points (xs @ [x])"
  let ?n = "length (filter (\<lambda>p. hp_timestamp p < fst (last xs) - mh_retentionMs s) ?A)"
  let ?n' = "length (filter (\<lambda>p. hp_timestamp p < now - mh_retentionMs s) ?A')"
  have times: "map hp_timestamp (all_points ys) = map fst ys" for ys by (induction ys) (auto simp: all_points_def point_of_def)
  have len: "length (all_points ys) = length ys" for ys by (simp add: all_points_def)
  have A': "?A' = ?A @ [point_of now m]" by (simp add: all_points_def x)
  have srt: "sorted (map hp_timestamp ?A')" using snoc.prems by (simp only: times)
  have "\<exists>d. mh_points ?s = drop d ?A \<and> d \<le> length ?A \<and> d \<le> max (length ?A' - mh_maxPoints s) ?n' \<and>
      mh_maxPoints ?s = mh_maxPoints s \<and> mh_retentionMs ?s = mh_retentionMs s"
  proof (cases "xs = []")
    case True
    then show ?thesis using assms(3) by (intro exI [of _ 0]) (simp add: captured_def all_points_def)
  next
    case False
    have "fst (last xs) \<le> now" using snoc.prems False by (auto simp: sorted_append x)
    then have "?n \<le> ?n'" unfolding A' by (intro filter_count_mono) simp
    moreover have "?n \<le> length ?A" by simp
    ultimately show ?thesis using snoc.IH snoc.prems False
      by (intro exI [of _ "max (length xs - mh_maxPoints s) ?n"]) (auto simp: sorted_append len)
  qed
  then obtain d where d: "mh_points ?s = drop d ?A" "d \<le> length ?A" "d \<le> max (length ?A' - mh_maxPoints s) ?n'"
    "mh_maxPoints ?s = mh_maxPoints s" "mh_retentionMs ?s = mh_retentionMs s" by blast
  let ?s1 = "?s\<lparr>mh_points := mh_points ?s @ [point_of now m]\<rparr>"
  have run: "captured (xs @ [x]) s = prune now ?s1" by (simp add: captured_def x capture_def Let_def)
  have pts: "mh_points ?s1 = drop d ?A'" using d(1,2) by (simp add: A')
  have "sorted (map hp_timestamp (mh_points ?s1))" unfolding pts using srt by (simp add: drop_map [symmetric] sorted_wrt_drop)
  note pr = prune_points [OF this, of now]
  have "mh_points (prune now ?s1) = newest (mh_maxPoints s) (filter (\<lambda>p. now - mh_retentionMs s \<le> hp_timestamp p) (drop d ?A'))"
    using pr(1) d(4,5) pts by simp
  also have "\<dots> = drop (max (max d ?n') (length ?A' - mh_maxPoints s)) ?A'"
    by (simp only: filter_drop [OF srt] newest_drop)
  also have "max (max d ?n') (length ?A' - mh_maxPoints s) = max (length ?A' - mh_maxPoints s) ?n'" using d(3) by arith
  finally show ?case using pr(2,3) d(4,5) unfolding run by (simp add: len x)
qed simp

section \<open>Properties\<close>

text \<open>
  C38. The buffer has exactly the retained points: after captures at ascending times, the points are the newest
  of those captured that are no older than the retention, in order, and at most as many as the cap.
\<close>

theorem history_exact:
  assumes "sorted (map fst samples)" "samples \<noteq> []" "mh_points s = []"
  shows "mh_points (captured samples s) =
    newest (mh_maxPoints s) (filter (\<lambda>p. fst (last samples) - mh_retentionMs s \<le> hp_timestamp p) (all_points samples))"
proof -
  have "sorted (map hp_timestamp (all_points samples))" using assms(1) by (simp add: all_points_def comp_def point_of_def case_prod_beta fst_def [symmetric])
  from filter_suffix [OF this] show ?thesis
    using captured_points [OF assms] by (simp add: newest_drop all_points_def max.commute)
qed

theorem history_exact_witness:
  "map hp_timestamp (mh_points (captured (map (\<lambda>t. (t, \<lparr>sm_cpu = 0, sm_processCpu = 0, sm_memory = 0, sm_disk = None, sm_heapUsed = 0, sm_rss = 0\<rparr>)) [0, 50, 100, 150])
     (new_metrics_history (Some 100) (Some 2) None))) = [100, 150]"
proof -
  let ?m = "\<lparr>sm_cpu = 0, sm_processCpu = 0, sm_memory = 0, sm_disk = None, sm_heapUsed = 0, sm_rss = 0\<rparr> :: metrics_sample"
  let ?samples = "map (\<lambda>t. (t :: int, ?m)) [0, 50, 100, 150]" and ?s = "new_metrics_history (Some 100) (Some 2) None"
  have "sorted (map fst ?samples)" "?samples \<noteq> []" "mh_points ?s = []" by (simp_all add: new_metrics_history_def)
  from history_exact [OF this] show ?thesis
    by (simp add: new_metrics_history_def or_default_def all_points_def point_of_def newest_def)
qed

end
