(* ===== verification/Payment_Routing.thy ===== *)
theory Payment_Routing
  imports Js_Prelude
begin

text \<open>
  Payment processors (payments/): the registry of plugins, the factory that selects one for a request, and
  the service that forwards to it. What a processor does is a parameter, its record of functions; free-form
  values are their text.
\<close>

section \<open>The interface of processors\<close>

datatype payment_status = PENDING | PROCESSING | SUBMITTED | CONFIRMED | FAILED | REFUNDED | PARTIALLY_REFUNDED

record payment_request =
  pq_amount :: string
  pq_currency :: string
  pq_destination :: string
  pq_source :: "string option"
  pq_reference :: "string option"
  pq_idempotencyKey :: string
  pq_metadata :: "string option"

record created_payment =
  cy_paymentId :: string
  cy_status :: payment_status
  cy_unsignedTransaction :: "string option"
  cy_raw :: "string option"

record signed_transaction =
  sx_paymentId :: string
  sx_signedPayload :: string
  sx_signerAddress :: "string option"

record submitted_transaction =
  sb_paymentId :: string
  sb_transactionHash :: string
  sb_status :: payment_status
  sb_raw :: "string option"

record payment_status_result =
  py_paymentId :: string
  py_status :: payment_status
  py_transactionHash :: "string option"
  py_confirmedAmount :: "string option"
  py_raw :: "string option"

record refund_request =
  rf_paymentId :: string
  rf_amount :: "string option"
  rf_reason :: "string option"
  rf_idempotencyKey :: string

record refund_result =
  rr_refundId :: string
  rr_paymentId :: string
  rr_status :: payment_status
  rr_refundedAmount :: string
  rr_raw :: "string option"

record payment_capabilities =
  pb_supportsPartialRefund :: bool
  pb_requiresClientSideSigning :: bool
  pb_currencies :: "string list"

record payment_processor =
  pp_name :: string
  pp_displayName :: string
  pp_capabilities :: payment_capabilities
  pp_createPayment :: "payment_request \<Rightarrow> created_payment result"
  pp_signTransaction :: "created_payment \<Rightarrow> signed_transaction result"
  pp_submitTransaction :: "signed_transaction \<Rightarrow> submitted_transaction result"
  pp_getStatus :: "string \<Rightarrow> payment_status_result result"
  pp_refund :: "refund_request \<Rightarrow> refund_result result"

record processor_info =
  pn_name :: string
  pn_displayName :: string
  pn_enabled :: bool
  pn_capabilities :: payment_capabilities

section \<open>The registry\<close>

record processor_registry =
  pr_processors :: "(string, payment_processor) js_map"
  pr_disabled :: "string list"

definition new_registry :: processor_registry where
  "new_registry = \<lparr>pr_processors = [], pr_disabled = []\<rparr>"

definition register_processor :: "payment_processor \<Rightarrow> processor_registry \<Rightarrow> processor_registry" where
  "register_processor p s = s\<lparr>pr_processors := Map_set (pp_name p) p (pr_processors s)\<rparr>"

definition has_processor :: "string \<Rightarrow> processor_registry \<Rightarrow> bool" where
  "has_processor name s = Map_has name (pr_processors s)"

definition isEnabled :: "string \<Rightarrow> processor_registry \<Rightarrow> bool" where
  "isEnabled name s \<longleftrightarrow> Map_has name (pr_processors s) \<and> name \<notin> set (pr_disabled s)"

definition processor_names :: "processor_registry \<Rightarrow> string list" where
  "processor_names s = Map_keys (pr_processors s)"

definition get_processor :: "string \<Rightarrow> processor_registry \<Rightarrow> payment_processor result" where
  "get_processor name s =
     (case Map_get name (pr_processors s) of
        None \<Rightarrow> Inl (BadRequest (''Unknown payment processor: \"'' @ name @ ''\". Available: ['' @ join_with '', '' (processor_names s) @ '']''))
      | Some p \<Rightarrow>
          if name \<in> set (pr_disabled s) then Inl (Conflict (''Payment processor \"'' @ name @ ''\" is currently disabled.''))
          else Inr p)"

definition list_processors :: "processor_registry \<Rightarrow> payment_processor list" where
  "list_processors s = Map_values (pr_processors s)"

definition listEnabled :: "processor_registry \<Rightarrow> payment_processor list" where
  "listEnabled s = filter (\<lambda>p. pp_name p \<notin> set (pr_disabled s)) (list_processors s)"

definition assertRegistered :: "string \<Rightarrow> processor_registry \<Rightarrow> unit result" where
  "assertRegistered name s =
     (if Map_has name (pr_processors s) then Inr () else Inl (BadRequest (''Unknown payment processor: \"'' @ name @ ''\".'')))"

definition setEnabled :: "string \<Rightarrow> bool \<Rightarrow> processor_registry \<Rightarrow> processor_registry" where
  "setEnabled name enabled s =
     (if enabled then s\<lparr>pr_disabled := Set_delete name (pr_disabled s)\<rparr> else s\<lparr>pr_disabled := Set_add name (pr_disabled s)\<rparr>)"

definition enable :: "string \<Rightarrow> processor_registry \<Rightarrow> unit result \<times> processor_registry" where
  "enable name s = (case assertRegistered name s of Inl e \<Rightarrow> (Inl e, s) | Inr _ \<Rightarrow> (Inr (), setEnabled name True s))"

definition disable :: "string \<Rightarrow> processor_registry \<Rightarrow> unit result \<times> processor_registry" where
  "disable name s = (case assertRegistered name s of Inl e \<Rightarrow> (Inl e, s) | Inr _ \<Rightarrow> (Inr (), setEnabled name False s))"

definition registry_info :: "processor_registry \<Rightarrow> processor_info list" where
  "registry_info s =
     map (\<lambda>p. \<lparr>pn_name = pp_name p, pn_displayName = pp_displayName p, pn_enabled = (pp_name p \<notin> set (pr_disabled s)),
       pn_capabilities = pp_capabilities p\<rparr>) (list_processors s)"

section \<open>The factory\<close>

definition normalizeSelector :: "string option \<Rightarrow> string option" where
  "normalizeSelector v =
     (case v of
        None \<Rightarrow> None
      | Some t \<Rightarrow> let trimmed = toLowerCase (trim t) in if trimmed \<noteq> [] then Some trimmed else None)"

text \<open>\<open>envDefault\<close> is the setting \<^verbatim>\<open>PAYMENTS_DEFAULT_PROCESSOR\<close>.\<close>

definition resolve :: "string option \<Rightarrow> string option \<Rightarrow> processor_registry \<Rightarrow> payment_processor result" where
  "resolve envDefault selector s =
     (case normalizeSelector selector of
        Some explicit \<Rightarrow> get_processor explicit s
      | None \<Rightarrow>
          (case normalizeSelector envDefault of
             Some d \<Rightarrow> get_processor d s
           | None \<Rightarrow>
               (case listEnabled s of
                  [p] \<Rightarrow> Inr p
                | [] \<Rightarrow> Inl (BadRequest ''No payment processor is enabled.'')
                | ps \<Rightarrow> Inl (BadRequest (''No payment processor selected. Provide the 'X-Payment-Processor' header '' @
                    ''or set PAYMENTS_DEFAULT_PROCESSOR. Enabled: ['' @ join_with '', '' (map pp_name ps) @ ''].'')))))"

section \<open>The service\<close>

definition forward :: "('p \<Rightarrow> 'a result) \<Rightarrow> 'p result \<Rightarrow> 'a result" where
  "forward f r = (case r of Inl e \<Rightarrow> Inl e | Inr p \<Rightarrow> f p)"

definition createPayment :: "string option \<Rightarrow> processor_registry \<Rightarrow> payment_request \<Rightarrow> string option \<Rightarrow> created_payment result" where
  "createPayment env s request selector = forward (\<lambda>p. pp_createPayment p request) (resolve env selector s)"

definition signTransaction :: "string option \<Rightarrow> processor_registry \<Rightarrow> created_payment \<Rightarrow> string option \<Rightarrow> signed_transaction result" where
  "signTransaction env s created selector = forward (\<lambda>p. pp_signTransaction p created) (resolve env selector s)"

definition submitTransaction :: "string option \<Rightarrow> processor_registry \<Rightarrow> signed_transaction \<Rightarrow> string option \<Rightarrow> submitted_transaction result" where
  "submitTransaction env s signed selector = forward (\<lambda>p. pp_submitTransaction p signed) (resolve env selector s)"

definition signAndSubmit :: "string option \<Rightarrow> processor_registry \<Rightarrow> created_payment \<Rightarrow> string option \<Rightarrow> submitted_transaction result" where
  "signAndSubmit env s created selector =
     forward (\<lambda>p. forward (pp_submitTransaction p) (pp_signTransaction p created)) (resolve env selector s)"

definition payment_getStatus :: "string option \<Rightarrow> processor_registry \<Rightarrow> string \<Rightarrow> string option \<Rightarrow> payment_status_result result" where
  "payment_getStatus env s paymentId selector = forward (\<lambda>p. pp_getStatus p paymentId) (resolve env selector s)"

definition payment_refund :: "string option \<Rightarrow> processor_registry \<Rightarrow> refund_request \<Rightarrow> string option \<Rightarrow> refund_result result" where
  "payment_refund env s request selector = forward (\<lambda>p. pp_refund p request) (resolve env selector s)"

definition enableProcessor :: "string \<Rightarrow> processor_registry \<Rightarrow> processor_info list result \<times> processor_registry" where
  "enableProcessor name s = (case enable name s of (Inl e, s') \<Rightarrow> (Inl e, s') | (Inr _, s') \<Rightarrow> (Inr (registry_info s'), s'))"

definition disableProcessor :: "string \<Rightarrow> processor_registry \<Rightarrow> processor_info list result \<times> processor_registry" where
  "disableProcessor name s = (case disable name s of (Inl e, s') \<Rightarrow> (Inl e, s') | (Inr _, s') \<Rightarrow> (Inr (registry_info s'), s'))"

section \<open>Histories\<close>

datatype registry_event = Register payment_processor | Enable string | Disable string

fun registry_step :: "processor_registry \<Rightarrow> registry_event \<Rightarrow> processor_registry" where
  "registry_step s (Register p) = register_processor p s"
| "registry_step s (Enable n) = snd (enableProcessor n s)"
| "registry_step s (Disable n) = snd (disableProcessor n s)"

text \<open>Processors are found under their own name.\<close>

definition registry_inv :: "processor_registry \<Rightarrow> bool" where
  "registry_inv s \<longleftrightarrow> Map_wf (pr_processors s) \<and> (\<forall>n p. Map_get n (pr_processors s) = Some p \<longrightarrow> pp_name p = n)"

definition sample_processor :: "string \<Rightarrow> payment_processor" where
  "sample_processor name =
     \<lparr>pp_name = name, pp_displayName = name, pp_capabilities = \<lparr>pb_supportsPartialRefund = False, pb_requiresClientSideSigning = True, pb_currencies = []\<rparr>,
      pp_createPayment = (\<lambda>q. Inr \<lparr>cy_paymentId = name, cy_status = PENDING, cy_unsignedTransaction = None, cy_raw = None\<rparr>),
      pp_signTransaction = (\<lambda>c. Inl (BadRequest [])), pp_submitTransaction = (\<lambda>x. Inl (BadRequest [])),
      pp_getStatus = (\<lambda>i. Inl (BadRequest [])), pp_refund = (\<lambda>r. Inl (BadRequest []))\<rparr>"

section \<open>Facts\<close>

lemma setEnabled_processors [simp]: "pr_processors (setEnabled n b s) = pr_processors s"
  by (simp add: setEnabled_def)

lemma toggle_state:
  "snd (enableProcessor n s) = (if has_processor n s then setEnabled n True s else s)"
  "snd (disableProcessor n s) = (if has_processor n s then setEnabled n False s else s)"
  by (auto simp: enableProcessor_def disableProcessor_def enable_def disable_def assertRegistered_def has_processor_def split: option.splits)

lemma registry_step_inv: "registry_inv s \<Longrightarrow> registry_inv (registry_step s e)"
  by (cases e) (auto simp: registry_inv_def register_processor_def toggle_state)

interpretation reg: invariant_system registry_step registry_inv
  by unfold_locales (rule registry_step_inv)

lemma registry_start: "registry_inv new_registry"
  by (simp add: registry_inv_def new_registry_def)

lemma resolved:
  assumes inv: "registry_inv s" and r: "resolve env selector s = Inr p"
  shows "isEnabled (pp_name p) s \<and> Map_get (pp_name p) (pr_processors s) = Some p \<and> (\<forall>n. normalizeSelector selector = Some n \<longrightarrow> pp_name p = n)"
proof -
  have got: "isEnabled (pp_name p) s \<and> Map_get (pp_name p) (pr_processors s) = Some p \<and> pp_name p = n" if "get_processor n s = Inr p" for n
    using that inv by (auto simp: get_processor_def isEnabled_def registry_inv_def split: option.splits if_splits)
  consider (chosen) n where "normalizeSelector selector = Some n" "get_processor n s = Inr p"
    | (env) n where "normalizeSelector selector = None" "get_processor n s = Inr p"
    | (sole) "normalizeSelector selector = None" "listEnabled s = [p]"
    using r by (auto simp: resolve_def split: option.splits list.splits)
  then show ?thesis
  proof cases
    case sole
    then have "p \<in> set (filter (\<lambda>p. pp_name p \<notin> set (pr_disabled s)) (list_processors s))" unfolding listEnabled_def by simp
    then have "p \<in> set (list_processors s)" "pp_name p \<notin> set (pr_disabled s)" by auto
    then obtain n where n: "Map_get n (pr_processors s) = Some p"
      using inv by (auto simp: list_processors_def registry_inv_def set_Map_values)
    then have "pp_name p = n" using inv by (simp add: registry_inv_def)
    then show ?thesis using n sole \<open>pp_name p \<notin> set (pr_disabled s)\<close> by (auto simp: isEnabled_def)
  qed (use got in auto)
qed

lemma stays_disabled:
  "n \<in> set (pr_disabled s) \<Longrightarrow> Enable n \<notin> set es \<Longrightarrow> n \<in> set (pr_disabled (run registry_step s es))"
proof (induction es arbitrary: s)
  case (Cons e es)
  then have "n \<in> set (pr_disabled (registry_step s e))" by (cases e) (auto simp: register_processor_def toggle_state setEnabled_def)
  then show ?case using Cons by simp
qed simp

section \<open>Properties\<close>

text \<open>
  Payments go only to the selected processor and only while it is enabled: in every history of
  registrations and toggles, a call of the service that reaches a processor reaches one that is registered
  under its name and enabled, and the one that was selected when the selector is not blank.
\<close>

theorem payment_routed_to_enabled:
  assumes s: "s = run registry_step new_registry es" and r: "resolve env selector s = Inr p"
  shows "isEnabled (pp_name p) s \<and> Map_get (pp_name p) (pr_processors s) = Some p \<and> (\<forall>n. normalizeSelector selector = Some n \<longrightarrow> pp_name p = n)"
proof -
  have "registry_inv s" unfolding s by (rule reg.run_inv [OF registry_start])
  then show ?thesis by (rule resolved [OF _ r])
qed

theorem payment_routed_to_enabled_witness:
  "isEnabled ''b'' (run registry_step new_registry [Register (sample_processor ''a''), Register (sample_processor ''b''), Disable ''a''])"
proof -
  let ?s = "run registry_step new_registry [Register (sample_processor ''a''), Register (sample_processor ''b''), Disable ''a'']"
  have "case resolve None (Some '' B '') ?s of Inr p \<Rightarrow> pp_name p = ''b'' | Inl _ \<Rightarrow> False" by code_simp
  then obtain p where "resolve None (Some '' B '') ?s = Inr p" "pp_name p = ''b''" by (auto split: sum.splits)
  from payment_routed_to_enabled [OF refl this(1)] this(2) show ?thesis by simp
qed

text \<open>
  C39. A disabled processor gets no payments: after it was disabled, and until it is enabled again, no
  call of the service with any selector and default reaches it, even if it is registered anew.
\<close>

theorem disabled_gets_no_payment:
  assumes s: "s = run registry_step new_registry es" and off: "fst (disable name s) = Inr ()"
    and later: "Enable name \<notin> set es'" and r: "resolve env selector (run registry_step (snd (disable name s)) es') = Inr p"
  shows "pp_name p \<noteq> name"
proof -
  have inv: "registry_inv s" unfolding s by (rule reg.run_inv [OF registry_start])
  have s1: "snd (disable name s) = setEnabled name False s"
    using off by (auto simp: disable_def split: sum.splits)
  have "registry_inv (setEnabled name False s)" using inv by (simp add: registry_inv_def)
  then have "registry_inv (run registry_step (setEnabled name False s) es')" by (rule reg.run_inv)
  from resolved [OF this r [unfolded s1]] have "pp_name p \<notin> set (pr_disabled (run registry_step (setEnabled name False s) es'))"
    by (simp add: isEnabled_def)
  moreover have "name \<in> set (pr_disabled (run registry_step (setEnabled name False s) es'))"
    by (rule stays_disabled [OF _ later]) (simp add: setEnabled_def)
  ultimately show ?thesis by auto
qed

theorem disabled_gets_no_payment_witness:
  "case resolve None None (run registry_step new_registry [Register (sample_processor ''a''), Register (sample_processor ''b''), Disable ''a'']) of
     Inr p \<Rightarrow> pp_name p \<noteq> ''a'' | Inl _ \<Rightarrow> False"
proof -
  let ?es = "[Register (sample_processor ''a''), Register (sample_processor ''b'')]"
  let ?s = "run registry_step new_registry ?es"
  have off: "fst (disable ''a'' ?s) = Inr ()" by code_simp
  have eq: "run registry_step new_registry [Register (sample_processor ''a''), Register (sample_processor ''b''), Disable ''a''] =
      run registry_step (snd (disable ''a'' ?s)) []" by (simp add: disableProcessor_def split: prod.split sum.split)
  have "case resolve None None (run registry_step (snd (disable ''a'' ?s)) []) of Inr p \<Rightarrow> True | Inl _ \<Rightarrow> False" by code_simp
  then obtain p where r: "resolve None None (run registry_step (snd (disable ''a'' ?s)) []) = Inr p" by (auto split: sum.splits)
  have "pp_name p \<noteq> ''a''" by (rule disabled_gets_no_payment [OF refl off _ r]) simp
  then show ?thesis by (simp only: eq r sum.case not_False_eq_True)
qed

end
