(* ===== verification/Price_Feed.thy ===== *)
theory Price_Feed
  imports Sql_Table "HOL-Library.Multiset"
begin

text \<open>
  The price feed (blockchain/oracle/services/price-feed.service.ts): prices of an asset from Chainlink, Band
  and a Uniswap pool, their median, and the alert when they deviate. Answers of contracts, the table of
  records and the exponentiation of the Uniswap price are parameters. Numbers are exact; one that is not
  finite is None.
\<close>

section \<open>Data\<close>

datatype supported_chain = ETHEREUM | BSC | POLYGON | ARBITRUM | OPTIMISM | AVALANCHE

datatype price_source = CHAINLINK | BAND | UNISWAP_TWAP

type_synonym source_prices = "(price_source, rat option) js_map"

record price_record =
  rec_id :: string
  rec_asset :: string
  rec_chain :: supported_chain
  rec_price :: rat
  rec_sourcePrices :: source_prices
  rec_deviationAlert :: bool
  rec_maxDeviationPercent :: rat
  rec_createdAt :: timestamp

record price_response =
  rs_asset :: string
  rs_chain :: supported_chain
  rs_price :: rat
  rs_sourcePrices :: source_prices
  rs_deviationAlert :: bool
  rs_maxDeviationPercent :: rat
  rs_timestamp :: timestamp

definition DEVIATION_THRESHOLD_PERCENT :: rat where
  "DEVIATION_THRESHOLD_PERCENT = 5"

definition TWAP_SECONDS :: rat where
  "TWAP_SECONDS = 1800"

record chain_config =
  cc_rpcEnvKey :: string
  cc_chainId :: nat
  cc_chainlink :: "(string, string) js_map"
  cc_band :: "string option"
  cc_uniswapV3Pools :: "(string, string) js_map"

definition CHAIN_CONTRACTS :: "supported_chain \<Rightarrow> chain_config" where
  "CHAIN_CONTRACTS chain =
     (case chain of
        ETHEREUM \<Rightarrow>
          \<lparr>cc_rpcEnvKey = ''ETH_RPC_URL'', cc_chainId = 1,
           cc_chainlink = [(''ETH'', ''0x5f4eC3Df9cbd43714FE2740f5E3616155c5b8419''), (''BTC'', ''0xF4030086522a5bEEa4988F8cA5B36dbC97BeE88c''),
             (''LINK'', ''0x2c1d072e956AFFC0D435Cb7AC308d97e0D8adf3B'')],
           cc_band = Some ''0xDA7a001b254CD22e46d3eAB04d937489c93174C3'',
           cc_uniswapV3Pools = [(''ETH'', ''0x88e6A0c2dDD26FEEb64F039a2c41296FcB3f5640'')]\<rparr>
      | BSC \<Rightarrow>
          \<lparr>cc_rpcEnvKey = ''BSC_RPC_URL'', cc_chainId = 56,
           cc_chainlink = [(''BNB'', ''0x0567F2323251f0Aab15c8dFb1967E4e8A7D42aeE''), (''ETH'', ''0x9ef1B8c0E4F7dc8bF5719Ea496883DC6401d5b2e''),
             (''BTC'', ''0x264990fbd0A4796A3E3d8E37C4d5F87a3aCa5Ebf'')],
           cc_band = Some ''0xDA7a001b254CD22e46d3eAB04d937489c93174C3'', cc_uniswapV3Pools = []\<rparr>
      | POLYGON \<Rightarrow>
          \<lparr>cc_rpcEnvKey = ''POLY_RPC_URL'', cc_chainId = 137,
           cc_chainlink = [(''ETH'', ''0xF9680D99D6C9589e2a93a78A04A279e509205945''), (''BTC'', ''0xc907E116054Ad103354f2D350FD2514433D57F6f''),
             (''MATIC'', ''0xAB594600376Ec9fD91F8e885dADF0CE036862dE0'')],
           cc_band = Some ''0xDA7a001b254CD22e46d3eAB04d937489c93174C3'', cc_uniswapV3Pools = []\<rparr>
      | ARBITRUM \<Rightarrow>
          \<lparr>cc_rpcEnvKey = ''ARB_RPC_URL'', cc_chainId = 42161,
           cc_chainlink = [(''ETH'', ''0x639Fe6ab55C921f74e7fac1ee960C0B6293ba612''), (''BTC'', ''0x6ce185960375d0D8B66bEBDAf4c8e1b0ed0A4728'')],
           cc_band = None, cc_uniswapV3Pools = []\<rparr>
      | OPTIMISM \<Rightarrow>
          \<lparr>cc_rpcEnvKey = ''OPT_RPC_URL'', cc_chainId = 10,
           cc_chainlink = [(''ETH'', ''0x13e3Ee699D1909E989722E753853AE30b17e08c5''), (''BTC'', ''0xD702DD976Fb76Fffc2D3963D037dfDae5b04E593'')],
           cc_band = None, cc_uniswapV3Pools = []\<rparr>
      | AVALANCHE \<Rightarrow>
          \<lparr>cc_rpcEnvKey = ''AVAX_RPC_URL'', cc_chainId = 43114,
           cc_chainlink = [(''AVAX'', ''0x0A77230d17318075983913bC2145DB16C7366156''), (''ETH'', ''0x976B3D034E162d8bD72D6b9C989d545b839003b0''),
             (''BTC'', ''0x2779D32d5166BAaa2B2b658333bA7e6Ec0C65743'')],
           cc_band = None, cc_uniswapV3Pools = []\<rparr>)"

section \<open>Sources\<close>

text \<open>
  What the contracts at an address answer: answer and decimals of a Chainlink feed, the rate of Band, and the
  cumulative ticks of a pool; None is a call that fails. \<open>ca_power\<close> is \<^verbatim>\<open>Math.pow(1.0001, tick)\<close>, with None
  for a result that is not finite or is zero, so that its inverse is not finite or too large.
\<close>

record chain_answers =
  ca_chainlink :: "supported_chain \<Rightarrow> string \<Rightarrow> (int \<times> nat) option"
  ca_band :: "supported_chain \<Rightarrow> string \<Rightarrow> string \<Rightarrow> nat option"
  ca_pool :: "supported_chain \<Rightarrow> string \<Rightarrow> (int \<times> int) option"
  ca_power :: "rat \<Rightarrow> rat option"

definition fetch_source :: "chain_answers \<Rightarrow> supported_chain \<Rightarrow> string \<Rightarrow> price_source \<Rightarrow> source_prices \<Rightarrow> source_prices" where
  "fetch_source ca chain ticker source prices =
     (let cfg = CHAIN_CONTRACTS chain
      in case source of
           CHAINLINK \<Rightarrow>
             (case Map_get ticker (cc_chainlink cfg) of
                None \<Rightarrow> prices
              | Some feedAddress \<Rightarrow>
                  (case ca_chainlink ca chain feedAddress of
                     None \<Rightarrow> prices
                   | Some (answer, decimals) \<Rightarrow> Map_set CHAINLINK (Some (of_int answer / 10 ^ decimals)) prices))
         | BAND \<Rightarrow>
             (case cc_band cfg of
                None \<Rightarrow> prices
              | Some ref \<Rightarrow>
                  (case ca_band ca chain ref ticker of
                     None \<Rightarrow> prices
                   | Some rate \<Rightarrow> Map_set BAND (Some (of_nat rate / 10 ^ 18)) prices))
         | UNISWAP_TWAP \<Rightarrow>
             (case Map_get ticker (cc_uniswapV3Pools cfg) of
                None \<Rightarrow> prices
              | Some poolAddress \<Rightarrow>
                  (case ca_pool ca chain poolAddress of
                     None \<Rightarrow> prices
                   | Some (tickOld, tickNow) \<Rightarrow>
                       let avgTick = (of_int tickNow - of_int tickOld) / TWAP_SECONDS
                       in Map_set UNISWAP_TWAP (map_option (\<lambda>rawPrice. (1 / rawPrice) * 10 ^ 12) (ca_power ca avgTick)) prices)))"

text \<open>\<open>order\<close> is the order in which the three calls are settled, \<open>providers\<close> the chains with a configured url.\<close>

definition fetchAllSources ::
  "chain_answers \<Rightarrow> supported_chain list \<Rightarrow> price_source list \<Rightarrow> string \<Rightarrow> supported_chain \<Rightarrow> source_prices" where
  "fetchAllSources ca providers order asset chain =
     (if chain \<notin> set providers then [] else fold (fetch_source ca chain (toUpperCase asset)) order [])"

definition all_chains :: "supported_chain list" where
  "all_chains = [ETHEREUM, BSC, POLYGON, ARBITRUM, OPTIMISM, AVALANCHE]"

definition initProviders :: "(string \<Rightarrow> string option) \<Rightarrow> supported_chain list" where
  "initProviders config = filter (\<lambda>chain. truthy (config (cc_rpcEnvKey (CHAIN_CONTRACTS chain)))) all_chains"

section \<open>Aggregation\<close>

definition valid_prices :: "source_prices \<Rightarrow> rat list" where
  "valid_prices prices = List.map_filter (\<lambda>v. case v of Some x \<Rightarrow> if x > 0 then Some x else None | None \<Rightarrow> None) (Map_values prices)"

definition deviation :: "rat \<Rightarrow> rat \<Rightarrow> rat" where
  "deviation a b = (let avg = (a + b) / 2 in if avg > 0 then \<bar>a - b\<bar> / avg * 100 else 0)"

text \<open>The two nested loops over the pairs.\<close>

fun max_deviation :: "rat list \<Rightarrow> rat \<Rightarrow> rat" where
  "max_deviation [] m = m"
| "max_deviation (v # vs) m = max_deviation vs (foldl (\<lambda>m w. if deviation v w > m then deviation v w else m) m vs)"

definition median :: "rat list \<Rightarrow> rat" where
  "median values =
     (let sorted = sort values; mid = length sorted div 2
      in if length sorted mod 2 = 0 then (sorted ! (mid - 1) + sorted ! mid) / 2 else sorted ! mid)"

definition aggregatePrices :: "source_prices \<Rightarrow> rat \<times> rat" where
  "aggregatePrices prices =
     (let values = valid_prices prices
      in if values = [] then (0, 0) else (median values, max_deviation values 0))"

section \<open>The service\<close>

datatype price_event = Price_Deviation string supported_chain source_prices rat

definition toResponseDto :: "price_record \<Rightarrow> price_response" where
  "toResponseDto r =
     \<lparr>rs_asset = rec_asset r, rs_chain = rec_chain r, rs_price = rec_price r, rs_sourcePrices = rec_sourcePrices r,
      rs_deviationAlert = rec_deviationAlert r, rs_maxDeviationPercent = rec_maxDeviationPercent r, rs_timestamp = rec_createdAt r\<rparr>"

definition price_record_of :: "timestamp \<Rightarrow> string \<Rightarrow> string \<Rightarrow> supported_chain \<Rightarrow> source_prices \<Rightarrow> price_record" where
  "price_record_of now rowId asset chain prices =
     (case aggregatePrices prices of
        (med, maxDev) \<Rightarrow>
          \<lparr>rec_id = rowId, rec_asset = toUpperCase asset, rec_chain = chain, rec_price = med, rec_sourcePrices = prices,
           rec_deviationAlert = (maxDev > DEVIATION_THRESHOLD_PERCENT), rec_maxDeviationPercent = maxDev, rec_createdAt = now\<rparr>)"

definition no_sources :: "string \<Rightarrow> string \<Rightarrow> http_error" where
  "no_sources asset chainName =
     PlainError (''No price sources available for '' @ asset @ '' on '' @ chainName @ ''. Configure RPC URLs.'')"

definition chain_name :: "supported_chain \<Rightarrow> string" where
  "chain_name c =
     (case c of ETHEREUM \<Rightarrow> ''ethereum'' | BSC \<Rightarrow> ''bsc'' | POLYGON \<Rightarrow> ''polygon'' | ARBITRUM \<Rightarrow> ''arbitrum'' | OPTIMISM \<Rightarrow> ''optimism''
      | AVALANCHE \<Rightarrow> ''avalanche'')"

text \<open>The state is the table with the events that were emitted.\<close>

definition getCurrentPrice ::
  "('p, price_record) table_ops \<Rightarrow> chain_answers \<Rightarrow> supported_chain list \<Rightarrow> price_source list \<Rightarrow> timestamp \<Rightarrow> string \<Rightarrow> string \<Rightarrow>
    supported_chain \<Rightarrow> ('p \<times> price_event list, price_response) io" where
  "getCurrentPrice ops ca providers order now rowId asset chain s =
     (let prices = fetchAllSources ca providers order asset chain
      in if prices = [] then (Inl (no_sources asset (chain_name chain)), s)
         else
           let r = price_record_of now rowId asset chain prices;
               events = (if rec_deviationAlert r then snd s @ [Price_Deviation asset chain prices (rec_maxDeviationPercent r)] else snd s)
           in case to_save ops r (fst s) of
                (Inl e, db) \<Rightarrow> (Inl e, (db, events))
              | (Inr _, db) \<Rightarrow> (Inr (toResponseDto r), (db, events)))"

definition newest_price :: "price_record \<Rightarrow> price_record \<Rightarrow> int" where
  "newest_price a b = rec_createdAt b - rec_createdAt a"

definition getHistoricalPrices ::
  "('p, price_record) table_ops \<Rightarrow> string \<Rightarrow> supported_chain \<Rightarrow> nat \<Rightarrow> ('p, price_response list) io" where
  "getHistoricalPrices ops asset chain limit =
     io_bind (to_find ops (\<lambda>r. rec_asset r = toUpperCase asset \<and> rec_chain r = chain) newest_price) (\<lambda>rs.
       io_return (map toResponseDto (take limit rs)))"

section \<open>Facts\<close>

lemma valid_pos: "x \<in> set (valid_prices prices) \<Longrightarrow> 0 < x"
  by (auto simp: valid_prices_def List.map_filter_def split: option.splits if_splits)

lemma valid_mem: "Map_wf prices \<Longrightarrow> x \<in> set (valid_prices prices) \<longleftrightarrow> (\<exists>src. Map_get src prices = Some (Some x)) \<and> 0 < x"
proof -
  assume wf: "Map_wf prices"
  have "x \<in> set (valid_prices prices) \<longleftrightarrow> Some x \<in> set (Map_values prices) \<and> 0 < x"
    by (force simp: valid_prices_def List.map_filter_def split: option.splits if_splits)
  then show ?thesis using set_Map_values [OF wf] by auto
qed

lemma deviation_nonneg: "0 \<le> deviation a b"
  by (simp add: deviation_def Let_def)

lemma deviation_sym: "deviation a b = deviation b a"
  by (simp add: deviation_def Let_def abs_minus_commute add.commute)

lemma foldl_max: "foldl (\<lambda>m w. if f w > m then f w else m) m ws = fold (\<lambda>w m. max m (f w)) ws (m :: rat)"
  by (induction ws arbitrary: m) (auto simp: max_def)

lemma fold_max_le: "fold (\<lambda>w m. max m (f w)) ws m \<le> (b :: rat) \<longleftrightarrow> m \<le> b \<and> (\<forall>w \<in> set ws. f w \<le> b)"
  by (induction ws arbitrary: m) auto

text \<open>The largest deviation is at most a bound just if those of all pairs are.\<close>

lemma max_deviation_le:
  "max_deviation vs m \<le> b \<longleftrightarrow> m \<le> b \<and> (\<forall>i < length vs. \<forall>j < i. deviation (vs ! j) (vs ! i) \<le> b)"
proof (induction vs arbitrary: m)
  case (Cons v vs)
  have "(\<forall>i < length (v # vs). \<forall>j < i. deviation ((v # vs) ! j) ((v # vs) ! i) \<le> b) \<longleftrightarrow>
      (\<forall>w \<in> set vs. deviation v w \<le> b) \<and> (\<forall>i < length vs. \<forall>j < i. deviation (vs ! j) (vs ! i) \<le> b)"
    by (auto simp: All_less_Suc2 all_set_conv_all_nth)
  then show ?case using Cons.IH by (simp add: foldl_max fold_max_le)
qed simp

lemma deviation_self: "deviation a a = 0"
  by (simp add: deviation_def Let_def)

lemma max_deviation_pairs:
  assumes "0 \<le> b"
  shows "max_deviation vs 0 \<le> b \<longleftrightarrow> (\<forall>x \<in> set vs. \<forall>y \<in> set vs. deviation x y \<le> b)"
proof
  assume l: "max_deviation vs 0 \<le> b"
  show "\<forall>x \<in> set vs. \<forall>y \<in> set vs. deviation x y \<le> b"
  proof (intro ballI)
    fix x y assume "x \<in> set vs" "y \<in> set vs"
    then obtain i j where ij: "i < length vs" "j < length vs" "x = vs ! i" "y = vs ! j" by (metis in_set_conv_nth)
    consider "i < j" | "j < i" | "i = j" by linarith
    then show "deviation x y \<le> b"
      using l ij assms unfolding max_deviation_le by cases (auto simp: deviation_self deviation_sym)
  qed
next
  assume "\<forall>x \<in> set vs. \<forall>y \<in> set vs. deviation x y \<le> b"
  then show "max_deviation vs 0 \<le> b" using assms unfolding max_deviation_le by simp
qed

text \<open>At least half of the values are at most the median, and at least half at least.\<close>

lemma sorted_half:
  fixes xs :: "rat list"
  assumes "xs \<noteq> []"
  shows "length xs \<le> 2 * length (filter (\<lambda>x. x \<le> median xs) xs)" "length xs \<le> 2 * length (filter (\<lambda>x. median xs \<le> x) xs)"
proof -
  let ?s = "sort xs" and ?n = "length xs"
  have srt: "i \<le> j \<Longrightarrow> j < ?n \<Longrightarrow> ?s ! i \<le> ?s ! j" for i j by (simp add: sorted_nth_mono)
  have count: "length (filter P xs) = card {i. i < ?n \<and> P (?s ! i)}" for P
  proof -
    have "length (filter P xs) = length (filter P ?s)" by (metis mset_filter mset_sort size_mset)
    then show ?thesis by (simp add: length_filter_conv_card)
  qed
  have n: "0 < ?n" using assms by simp
  obtain k where k: "k < ?n" "?n \<le> 2 * Suc k" "?n \<le> 2 * (?n - (?n div 2))" and med: "?s ! k \<le> median xs" "median xs \<le> ?s ! (?n div 2)"
  proof (cases "?n mod 2 = 0")
    case True
    have e: "?s ! (?n div 2 - 1) \<le> ?s ! (?n div 2)" using n True by (intro srt) (auto simp: div_less_dividend)
    then show thesis
      using True n by (intro that [of "?n div 2 - 1"]) (auto simp: median_def Let_def field_simps intro: less_imp_diff_less)
  next
    case False
    then show thesis using n by (intro that [of "?n div 2"]) (auto simp: median_def Let_def)
  qed
  have "card {..k} \<le> card {i. i < ?n \<and> ?s ! i \<le> median xs}"
  proof (rule card_mono)
    show "{..k} \<subseteq> {i. i < ?n \<and> ?s ! i \<le> median xs}" using k(1) med(1) srt [of _ k] by (auto intro: order_trans)
  qed simp
  then show "?n \<le> 2 * length (filter (\<lambda>x. x \<le> median xs) xs)" using k(2) by (simp add: count)
  have "card {?n div 2..<?n} \<le> card {i. i < ?n \<and> median xs \<le> ?s ! i}"
  proof (rule card_mono)
    show "{?n div 2..<?n} \<subseteq> {i. i < ?n \<and> median xs \<le> ?s ! i}" using med(2) srt [of "?n div 2"] by (auto intro: order_trans)
  qed simp
  then show "?n \<le> 2 * length (filter (\<lambda>x. median xs \<le> x) xs)" using k(3) by (simp add: count)
qed

lemma fetchAllSources_wf: "Map_wf (fetchAllSources ca providers order asset chain)"
proof -
  have "Map_wf prices \<Longrightarrow> Map_wf (fetch_source ca chain ticker src prices)" for src ticker prices
    by (auto simp: fetch_source_def Let_def split: price_source.split option.split)
  then have "Map_wf prices \<Longrightarrow> Map_wf (fold (fetch_source ca chain ticker) order prices)" for ticker prices
    by (induction order arbitrary: prices) auto
  then show ?thesis by (simp add: fetchAllSources_def)
qed

text \<open>Sources that answer with nothing above zero give the price 0, which is saved and returned without an alert.\<close>

lemma zero_price_saved:
  assumes "fetchAllSources ca providers order asset chain = prices" "prices \<noteq> []" "valid_prices prices = []"
    and "to_save ops (price_record_of now rowId asset chain prices) db = (Inr (), db')"
  shows "\<exists>r. getCurrentPrice ops ca providers order now rowId asset chain (db, evs) = (Inr r, (db', evs)) \<and>
     rs_price r = 0 \<and> \<not> rs_deviationAlert r"
  using assms by (auto simp: getCurrentPrice_def Let_def price_record_of_def aggregatePrices_def toResponseDto_def DEVIATION_THRESHOLD_PERCENT_def)

section \<open>Properties\<close>

text \<open>
  C40. Aggregating the prices of the sources. Of the prices that are finite and above zero, at least half are
  at most the reported price and at least half are at least it; the reported deviation exceeds the threshold
  of 5 percent just if two sources with such prices deviate by more than it. With no such price
  the reported price is 0 and no alert is given.
\<close>

theorem aggregate_exact:
  assumes "Map_wf prices"
  shows "case aggregatePrices prices of (med, dev) \<Rightarrow>
     (valid_prices prices = [] \<longrightarrow> med = 0 \<and> dev = 0) \<and>
     length (valid_prices prices) \<le> 2 * length (filter (\<lambda>x. x \<le> med) (valid_prices prices)) \<and>
     length (valid_prices prices) \<le> 2 * length (filter (\<lambda>x. med \<le> x) (valid_prices prices)) \<and>
     (dev > DEVIATION_THRESHOLD_PERCENT \<longleftrightarrow>
       (\<exists>src src' x y. Map_get src prices = Some (Some x) \<and> Map_get src' prices = Some (Some y) \<and> 0 < x \<and> 0 < y \<and>
          deviation x y > DEVIATION_THRESHOLD_PERCENT))"
proof -
  let ?vs = "valid_prices prices"
  have "(DEVIATION_THRESHOLD_PERCENT < max_deviation ?vs 0) \<longleftrightarrow>
      (\<exists>x \<in> set ?vs. \<exists>y \<in> set ?vs. DEVIATION_THRESHOLD_PERCENT < deviation x y)"
    using max_deviation_pairs [of DEVIATION_THRESHOLD_PERCENT ?vs] by (auto simp: DEVIATION_THRESHOLD_PERCENT_def not_le [symmetric])
  moreover have "\<not> DEVIATION_THRESHOLD_PERCENT < 0" by (simp add: DEVIATION_THRESHOLD_PERCENT_def)
  ultimately show ?thesis
    using sorted_half [of ?vs] valid_mem [OF assms(1)] unfolding aggregatePrices_def Let_def
    by (cases "valid_prices prices = []") (auto simp del: all_not_in_conv, blast+)
qed

theorem aggregate_exact_witness:
  "case aggregatePrices [(CHAINLINK, Some 100), (BAND, Some 110), (UNISWAP_TWAP, None)] of (med, dev) \<Rightarrow>
     med = 105 \<and> dev > DEVIATION_THRESHOLD_PERCENT \<and> 2 \<le> 2 * length (filter (\<lambda>x. x \<le> med) [100, 110])"
proof -
  have vs: "valid_prices [(CHAINLINK, Some 100), (BAND, Some 110), (UNISWAP_TWAP, None)] = [100, 110]"
    by (simp add: valid_prices_def Map_values_def List.map_filter_def)
  have med: "fst (aggregatePrices [(CHAINLINK, Some 100), (BAND, Some 110), (UNISWAP_TWAP, None)]) = 105"
    unfolding aggregatePrices_def vs by (simp add: median_def)
  have two: "Map_get CHAINLINK [(CHAINLINK, Some 100), (BAND, Some 110), (UNISWAP_TWAP, None)] = Some (Some (100::rat))"
    "Map_get BAND [(CHAINLINK, Some 100), (BAND, Some 110), (UNISWAP_TWAP, None)] = Some (Some (110::rat))"
    by (simp_all add: Map_get_def)
  have dev: "DEVIATION_THRESHOLD_PERCENT < deviation 100 110" by (simp add: deviation_def DEVIATION_THRESHOLD_PERCENT_def)
  show ?thesis
    using aggregate_exact [of "[(CHAINLINK, Some 100), (BAND, Some 110), (UNISWAP_TWAP, None)]"] med two dev
    unfolding vs by (auto simp: Map_wf_def split: prod.splits)
qed

end
