(* ===== verification/Spec2Isabelle.thy ===== *)
theory Spec2Isabelle
  imports Dashboard_Gateway Circuit_Breaker Provider_Failover Redis_Scripts Rate_Limit_Guard Trade_Lock Oracle_Service Billing Challenge
    Email_Linking Users Reconciliation Client_Reconnection Log_Sanitizer Portfolio_Constraints Webhooks Alert_Rules Alert_Dispatcher Notifications Connection_Pool Retry Metrics_History Payment_Routing Price_Feed
begin

text \<open>
  A verification library for the NestJS service \<^verbatim>\<open>alian_structure-api\<close>. File names below are
  relative to \<^verbatim>\<open>src/src/\<close>.

  \<^bold>\<open>The program.\<close> The service answers HTTP and WebSocket requests. A request first meets the
  rate-limiting middleware and guards; what gets through reaches the feature modules: logins by
  password, second factor and signed wallet challenges, trades executed under a per-user lock, oracle
  submissions numbered by nonces, metered billing and the reconciliation of payments, calls to AI
  providers behind circuit breakers, webhooks, alerts and notifications, and the live dashboard that streams
  events to connected users. Much of the state is kept in JavaScript maps of singleton services; the rest
  is in TypeORM tables and in Redis.

  \<^bold>\<open>How code is modelled.\<close> A service is a record of its fields; every method is a function that
  takes the arguments, the current time and the record and returns the result and the new record.
  \<open>Date.now()\<close> and random ids are arguments, so a theorem over all histories ranges over all
  clocks; where an ordering of the clock is needed it is a hypothesis of the theorem. Thrown
  errors are \<open>Inl\<close> values. \<open>Map\<close> objects are association lists in insertion order with the
  operations of \<open>Js_Prelude\<close>, since several methods depend on the iteration order. Counters and
  timestamps are unbounded integers, and prices, token levels and load figures are exact rationals:
  rounding of JavaScript doubles is not modelled. A method that suspends at \<open>await\<close> while its
  outcome can depend on what others do meanwhile is split at the suspension points
  (\<open>Trade_Lock\<close>, the lookup of \<open>Nonce_Management\<close>, the second factor of \<open>Enhanced_Auth\<close>, the sockets of
  \<open>Connection_Pool\<close>), and histories interleave the pieces freely; where a method is one step of a history,
  its calls do not overlap. No definition uses fuel: recursion is structural or on a measure of its
  argument, and loops are over lists or count up to a limit of the configuration.

  \<^bold>\<open>Foundations.\<close>

  \<^item> \<open>Js_Prelude\<close>: JavaScript maps, optional values, strings, stable sorting by a comparator,
    histories (\<open>run\<close>). Locales \<open>keyed_store\<close> and \<open>repository\<close> (the laws of a map and of a table,
    interpreted on the JavaScript map), \<open>guarded_system\<close> and \<open>invariant_system\<close> (an
    invariant of all steps holds after every history), \<open>comparator\<close> (sorting yields an ordered
    permutation). \<open>Decimal\<close>: decimal texts of numbers.

  \<^item> \<open>Sql_Table\<close>: async functions as maps from a state to a result or a thrown error and a state
    (\<open>io\<close>), and a TypeORM repository as a record of the calls the services make. The locale
    \<open>sql_table\<close> states what the services rely on; it is interpreted on a table in memory whose calls
    can be made to fail. \<open>Auth_Tables\<close> and \<open>Payload_Table\<close> are the tables of the login and of the oracle.

  \<^bold>\<open>Components.\<close>

  \<^item> \<open>Event_Buffer\<close>, \<open>Connection_Manager\<close>, \<open>Dashboard_Gateway\<close>, \<open>Connection_Pool\<close>, \<open>Client_Reconnection\<close>
    (\<^verbatim>\<open>dashboard/websocket/\<close>): the buffer of events of absent users, the registry of
    connections, the gateway that calls both, the pool of upstream connections, and the client with its back-off.
    Shown: buffers are bounded and hand over exactly the newest events in order; a user
    who drops and reconnects is sent exactly what was missed; an unreachable server is given up after the
    configured attempts; the pool exceeds its maximum when requests overlap, and a connection that
    reconnected stays in it for ever.

  \<^item> \<open>Breaker\<close>, \<open>Circuit_Breaker\<close> (\<^verbatim>\<open>investment/risk-management/circuit-breaker.service.ts\<close>),
    \<open>Provider_Failover\<close> (\<^verbatim>\<open>infrastructure/ai-compute/provider-failover.ts\<close>): the locale
    \<open>failure_breaker\<close> is the contract of a breaker that counts failures and is interpreted on both
    implementations. Shown: a breaker opens exactly at its threshold through any interleaving,
    moves only along the edges of the state diagram, recovers after its time-out, except that one
    opened by slow calls alone never does; the failover selects the least loaded provider that may
    take traffic.

  \<^item> \<open>Limiter\<close>: the locales \<open>window_limiter\<close>, \<open>bucket_limiter\<close> and \<open>fixed_window_limiter\<close>, with
    the admission bounds proved once from the laws of a single step. \<open>Rate_Limiter\<close>, \<open>Redis_Scripts\<close>,
    \<open>Access_Lists\<close>, \<open>Rate_Analytics\<close> (\<^verbatim>\<open>rate-limiting/rate-limiter.service.ts\<close>), \<open>Quota\<close> (\<^verbatim>\<open>config/quota.config.ts\<close>,
    \<^verbatim>\<open>common/guard/quota.guard.ts\<close>) and \<open>Rate_Limit_Guard\<close>: the in-memory limiter, the Lua scripts over a Redis given
    by its commands, the white and black lists, the violation log with its analytics, and the guards in front of them.
    Shown: the bounds of the sliding window, of the token bucket and of the fixed window hold for
    the code; the scripts refine the memory limiter where they agree, and the case where they do
    not; a refused caller who waits the announced delay is admitted; bans hold until they expire.

  \<^item> \<open>Roles\<close>, \<open>Users\<close>, \<open>Jwt_Session\<close>, \<open>Challenge\<close>, \<open>Enhanced_Auth\<close>, \<open>Wallet_Auth\<close>, \<open>Session_Recovery\<close>, \<open>Delegation\<close>,
    \<open>Email_Linking\<close> (\<^verbatim>\<open>core/auth/\<close>, \<^verbatim>\<open>core/user/\<close>): the role hierarchy and guard, the black list of tokens, login
    challenges, passwords with refresh tokens and second factors, wallets, recovery, delegation and linking by
    e-mail. Shown: the role test is the documented order; a token reaches only its roles and is refused after
    log-out; a challenge, a refresh token and a backup code work once; wrong second factors are bounded; a
    wallet login needs a challenge signed by a linked wallet; no call of any kind links a wallet without
    proof; delegations are never completed.

  \<^item> \<open>Trade_Lock\<close> (\<^verbatim>\<open>defi/trade-lock.service.ts\<close>): all interleavings of requests. Shown: a
    cached result is replayed, trade numbers are unique, and two waiting requests with one key
    both execute.

  \<^item> \<open>Nonce_Management\<close>, \<open>Payload_Submitter\<close>, \<open>Submission_Batch\<close>, \<open>Oracle_Service\<close>, \<open>Price_Feed\<close>
    (\<^verbatim>\<open>blockchain/oracle/\<close>): nonces are consecutive for every table that satisfies the locale \<open>nonce_table\<close>; a
    payload is sent at most once when saves do not fail, and twice in the case shown when one does; a payload
    with working parts is created, signed, sent and confirmed; the price is a median, and the
    alert is given just when two sources deviate.

  \<^item> \<open>Billing\<close> (\<^verbatim>\<open>billing/billing.service.ts\<close>), \<open>Reconciliation\<close> (\<^verbatim>\<open>reconciliation/\<close>) and \<open>Payment_Routing\<close>
    (\<^verbatim>\<open>payments/\<close>): invoices are exact, the CSV export can be read back; the books balance after every history
    of payment events; a disabled processor gets no payment.

  \<^item> \<open>Webhooks\<close> (\<^verbatim>\<open>infrastructure/webhooks/\<close>), \<open>Alert_Rules\<close> (\<^verbatim>\<open>monitoring/alert-rules.service.ts\<close>), \<open>Metrics_History\<close>
    (\<^verbatim>\<open>monitoring/metrics-history.service.ts\<close>), \<open>User_Alerts\<close> and \<open>Alert_Dispatcher\<close> (\<^verbatim>\<open>growth/alerts/\<close>): a delivery is
    requested at most once and never again after a failure; a rule fires exactly after as many breaches in
    a row as it asks for; two triggers of an alert are at least its cooldown apart; the dispatcher drops duplicates
    and contains failing channels; the history is the newest points within its retention.

  \<^item> \<open>Notification_Preferences\<close>, \<open>Notification_Templates\<close>, \<open>Notifications\<close> (\<^verbatim>\<open>notifications/\<close>): presets and defaults cover
    every slot; templates evaluate as their syntax says; what the processor hands to providers respects the
    preferences; a missing preference, and an aggregation window that expired, break delivery.

  \<^item> \<open>Log_Sanitizer\<close> (\<^verbatim>\<open>logging/\<close>): no sensitive field reaches the log and every entry is a bounded tree, cyclic
    values included. \<open>Portfolio_Constraints\<close> (\<^verbatim>\<open>investment/portfolio/\<close>): the check is exactly the declared limits.
    \<open>Retry\<close> (\<^verbatim>\<open>common/database/retry/\<close>): calls, outcome and delays of the retry helper.

  \<^bold>\<open>Parameters.\<close> What is not in the repository is an argument: the commands of Redis (locales \<open>redis_hash\<close> and
  \<open>redis_zset\<close>), tables (\<open>sql_table\<close>, \<open>nonce_table\<close> and their like), the chain, the ethers functions, the Stellar
  Horizon, contracts and exponentiation of the price feed, bcrypt, TOTP, SHA-256, HMAC and random codes, the signing of JWT,
  mail, push and socket services, the payment processors, the socket library through its events, the winston
  transport as the list of its calls, the hour in a time zone, collations, and the texts of numbers, dates and JSON. Laws
  are stated as locales or as hypotheses, and each set is interpreted on a concrete instance, which
  the examples evaluate.

  \<^bold>\<open>Bounds.\<close> Constants are those of the code: 1000 buffered events, 2000 violations, five minutes for a
  challenge and five wrong second factors, eight levels of sanitised values; limits, thresholds and
  delays that come from the configuration are universally quantified.

  \<^bold>\<open>Not modelled.\<close> Controllers, modules and decorators (framework binding), Prometheus metrics and
  log lines (no influence on the state), network I/O and the adapters of payment processors, identity
  providers and e-mail, the simulated protocols and generated data of the DeFi module, and the optimisation and
  performance figures of portfolios, whose content is floating-point arithmetic. The cache,
  the pagination and the audit log are left out as thin layers over Redis and SQL. Of the
  notifications, the clean-up of aggregations, the metrics of the queue and the counts of affected rows are left out.
  Candidates for extension: the cache with its invalidation rules, cursor pagination, the
  rebalancing of portfolios, and the position tracking of the DeFi module.
\<close>

end
